(* ===== verification/Go_Prelude.thy ===== *)
theory Go_Prelude
  imports Complex_Main "HOL-Library.AList" "HOL-Library.Multiset"
begin

text \<open>
  What every component of the model shares: Go's error values, decimal printing and parsing as
  \<^verbatim>\<open>strconv\<close> and \<^verbatim>\<open>fmt\<close> do it, the widths of \<^verbatim>\<open>int32\<close>, \<^verbatim>\<open>int64\<close> and \<^verbatim>\<open>uint64\<close>,
  indexed loops (\<^verbatim>\<open>for i := range xs\<close>) and Go maps that are iterated, as association lists
  with distinct keys.  Dynamic values of type \<^verbatim>\<open>interface{}\<close> are \<open>gval\<close>.
  Collections: \<open>go_map\<close> holds the rewrite rules of maps, \<open>go_err\<close> those of error values.
\<close>

named_theorems go_map \<open>rewrite rules for Go maps\<close>
named_theorems go_err \<open>rewrite rules for Go errors and error lists\<close>

section \<open>Error values\<close>

text \<open>
  A Go error is its message together with the errors it wraps (the \<^verbatim>\<open>%w\<close> verbs of
  \<^verbatim>\<open>fmt.Errorf\<close>), a sentinel made by \<^verbatim>\<open>errors.New\<close> at package level and compared by
  identity, or a value of one of the repository's own error types.
\<close>

datatype goerr =
    Errorf string "goerr list"
  | Sentinel string
  | MetricViolation string string
  | KeyNotFound string

fun err_msg :: "goerr \<Rightarrow> string" where
  "err_msg (Errorf m ws) = m"
| "err_msg (Sentinel m) = m"
| "err_msg (MetricViolation metric reason) = metric @ '': '' @ reason"
| "err_msg (KeyNotFound k) = ''key '' @ k @ '' not found''"

text \<open>\<^verbatim>\<open>errors.Is\<close> against a sentinel: the error itself or anything it wraps.\<close>

fun errors_Is :: "goerr \<Rightarrow> goerr \<Rightarrow> bool" where
  "errors_Is (Errorf m ws) t = (\<exists>w \<in> set ws. errors_Is w t)"
| "errors_Is e t = (e = t)"

lemma errors_Is_wrap [go_err]: "errors_Is (Errorf m [e]) t = errors_Is e t"
  by simp

section \<open>Decimal numbers\<close>

definition digit_char :: "nat \<Rightarrow> char" where
  "digit_char d = char_of (48 + d)"

definition char_digit :: "char \<Rightarrow> nat option" where
  "char_digit c = (let n = of_char c :: nat in if 48 \<le> n \<and> n \<le> 57 then Some (n - 48) else None)"

fun show_nat :: "nat \<Rightarrow> string" where
  "show_nat n = (if n < 10 then [digit_char n] else show_nat (n div 10) @ [digit_char (n mod 10)])"

declare show_nat.simps [simp del]

definition show_int :: "int \<Rightarrow> string" where
  "show_int i = (if i < 0 then ''-'' @ show_nat (nat (- i)) else show_nat (nat i))"

text \<open>\<^verbatim>\<open>%02d\<close>: at least two characters, padded with zeros.\<close>

definition show_02 :: "nat \<Rightarrow> string" where
  "show_02 n = (if n < 10 then ''0'' @ show_nat n else show_nat n)"

datatype numerr = ErrSyntax | ErrRange

text \<open>
  \<^verbatim>\<open>strconv.ParseUint(s, 10, bits)\<close>: the digits are consumed from the left, a value above
  \<open>2 ^ bits - 1\<close> is a range error as soon as it is reached, any other character a syntax error.
\<close>

fun parse_uint_loop :: "nat \<Rightarrow> nat \<Rightarrow> string \<Rightarrow> numerr + nat" where
  "parse_uint_loop bits n [] = Inr n"
| "parse_uint_loop bits n (c # cs) =
     (case char_digit c of
        None \<Rightarrow> Inl ErrSyntax
      | Some d \<Rightarrow> if 2 ^ bits - 1 < n * 10 + d then Inl ErrRange
                  else parse_uint_loop bits (n * 10 + d) cs)"

definition parse_uint :: "nat \<Rightarrow> string \<Rightarrow> numerr + nat" where
  "parse_uint bits s = (if s = [] then Inl ErrSyntax else parse_uint_loop bits 0 s)"

text \<open>
  \<^verbatim>\<open>strconv.ParseInt(s, 10, bits)\<close> returns a value beside its error: 0 for a syntax error and the
  nearest representable number for a range error.
\<close>

definition parse_int :: "nat \<Rightarrow> string \<Rightarrow> int \<times> numerr option" where
  "parse_int bits s =
     (if s = [] then (0, Some ErrSyntax)
      else
        let neg = (hd s = CHR ''-'');
            body = (if hd s = CHR ''-'' \<or> hd s = CHR ''+'' then tl s else s);
            cutoff = 2 ^ (bits - 1)
        in case parse_uint bits body of
             Inl ErrSyntax \<Rightarrow> (0, Some ErrSyntax)
           | Inl ErrRange \<Rightarrow> (if neg then - int cutoff else int cutoff - 1, Some ErrRange)
           | Inr un \<Rightarrow>
               if \<not> neg \<and> cutoff \<le> un then (int cutoff - 1, Some ErrRange)
               else if neg \<and> cutoff < un then (- int cutoff, Some ErrRange)
               else (if neg then - int un else int un, None))"

definition atoi :: "string \<Rightarrow> int \<times> numerr option" where
  "atoi s = parse_int 64 s"

definition parse_bool :: "string \<Rightarrow> numerr + bool" where
  "parse_bool s =
     (if s \<in> set [''1'', ''t'', ''T'', ''TRUE'', ''true'', ''True''] then Inr True
      else if s \<in> set [''0'', ''f'', ''F'', ''FALSE'', ''false'', ''False''] then Inr False
      else Inl ErrSyntax)"

lemma char_digit_digit_char [simp]: "d < 10 \<Longrightarrow> char_digit (digit_char d) = Some d"
  by (auto simp: char_digit_def digit_char_def)

lemma show_nat_not_Nil [simp]: "show_nat n \<noteq> []"
  by (subst show_nat.simps) simp

lemma parse_uint_loop_append:
  "parse_uint_loop bits n (xs @ ys) =
     (case parse_uint_loop bits n xs of Inl e \<Rightarrow> Inl e | Inr m \<Rightarrow> parse_uint_loop bits m ys)"
  by (induction xs arbitrary: n) (auto split: option.splits)

lemma parse_show_loop:
  "n < 2 ^ bits \<Longrightarrow> parse_uint_loop bits 0 (show_nat n) = Inr n"
proof (induction n rule: show_nat.induct)
  case (1 n)
  show ?case
  proof (cases "n < 10")
    case True
    with "1.prems" show ?thesis
      by (subst show_nat.simps) auto
  next
    case False
    have "n div 10 < 2 ^ bits"
      using "1.prems" by (meson div_le_dividend le_less_trans)
    with False "1.IH" have "parse_uint_loop bits 0 (show_nat (n div 10)) = Inr (n div 10)"
      by simp
    then show ?thesis
      using False "1.prems"
      by (subst show_nat.simps) (auto simp: parse_uint_loop_append)
  qed
qed

lemma parse_show_uint: "n < 2 ^ bits \<Longrightarrow> parse_uint bits (show_nat n) = Inr n"
  by (simp add: parse_uint_def parse_show_loop)

lemma show_nat_inj: "show_nat m = show_nat n \<Longrightarrow> m = n"
proof -
  assume eq: "show_nat m = show_nat n"
  let ?b = "m + n"
  have "m < 2 ^ ?b" "n < 2 ^ ?b"
    using less_exp[of ?b] by linarith+
  then have "Inr m = (Inr n :: numerr + nat)"
    using parse_show_uint eq by metis
  then show ?thesis by simp
qed

lemma show_nat_eq_iff [simp]: "show_nat m = show_nat n \<longleftrightarrow> m = n"
  using show_nat_inj by blast

lemma digits_of_show_nat: "c \<in> set (show_nat n) \<Longrightarrow> char_digit c \<noteq> None"
proof (induction n rule: show_nat.induct)
  case (1 n)
  then show ?case
    by (cases "n < 10") (auto simp: show_nat.simps[of n])
qed

lemma minus_not_digit: "char_digit (CHR ''-'') = None"
  by (simp add: char_digit_def)

lemma show_nat_no_minus: "CHR ''-'' \<notin> set (show_nat n)"
  using digits_of_show_nat minus_not_digit by blast

lemma show_int_inj: "show_int i = show_int j \<Longrightarrow> i = j"
  using show_nat_no_minus[of "nat i"] show_nat_no_minus[of "nat j"]
  by (auto simp: show_int_def split: if_splits)
     (metis list.set_intros(1))+

lemma show_int_eq_iff [simp]: "show_int i = show_int j \<longleftrightarrow> i = j"
  using show_int_inj by blast

lemma parse_uint_loop_bound:
  "parse_uint_loop bits n cs = Inr v \<Longrightarrow> n < 2 ^ bits \<Longrightarrow> v < 2 ^ bits"
proof (induction bits n cs rule: parse_uint_loop.induct)
  case (2 bits n c cs)
  have "k < 2 ^ bits" if "\<not> 2 ^ bits - 1 < k" for k :: nat
    using that by (metis One_nat_def Suc_pred not_less_eq pos2 zero_less_power)
  with 2 show ?case
    by (auto split: option.splits if_splits)
qed simp

lemma parse_uint_bound: "parse_uint bits s = Inr v \<Longrightarrow> v < 2 ^ bits"
  by (auto simp: parse_uint_def split: if_splits dest!: parse_uint_loop_bound)

section \<open>Integer widths\<close>

text \<open>Signed Go integers are \<open>int\<close> with the wrap-around of their width written out.\<close>

definition wrap :: "nat \<Rightarrow> int \<Rightarrow> int" where
  "wrap bits i = (i + 2 ^ (bits - 1)) mod 2 ^ bits - 2 ^ (bits - 1)"

definition fits :: "nat \<Rightarrow> int \<Rightarrow> bool" where
  "fits bits i \<longleftrightarrow> - (2 ^ (bits - 1)) \<le> i \<and> i < 2 ^ (bits - 1)"

abbreviation maxInt32 :: int where "maxInt32 \<equiv> 2147483647"

lemma wrap_fits: "0 < bits \<Longrightarrow> fits bits (wrap bits i)"
proof -
  assume "0 < bits"
  then obtain b where b: "bits = Suc b" by (cases bits) auto
  have "0 \<le> (i + 2 ^ b) mod 2 ^ bits" "(i + 2 ^ b) mod 2 ^ bits < 2 ^ bits"
    by simp_all
  then show ?thesis by (simp add: fits_def wrap_def b)
qed

lemma wrap_id: "0 < bits \<Longrightarrow> fits bits i \<Longrightarrow> wrap bits i = i"
  by (cases bits) (auto simp: fits_def wrap_def mod_pos_pos_trivial)

text \<open>
  \<^verbatim>\<open>time.Time.Sub\<close> saturates at the limits of \<^verbatim>\<open>time.Duration\<close> (\<^verbatim>\<open>int64\<close> nanoseconds).
\<close>

type_synonym duration = int
type_synonym gotime = int

definition time_Sub :: "gotime \<Rightarrow> gotime \<Rightarrow> duration" where
  "time_Sub t u = max (- (2 ^ 63)) (min (2 ^ 63 - 1) (t - u))"

text \<open>Integer division and remainder truncate towards zero.\<close>

definition go_div :: "int \<Rightarrow> int \<Rightarrow> int" where
  "go_div a b = sgn a * sgn b * (\<bar>a\<bar> div \<bar>b\<bar>)"

definition go_mod :: "int \<Rightarrow> int \<Rightarrow> int" where
  "go_mod a b = a - b * go_div a b"

lemma go_div_pos: "0 \<le> a \<Longrightarrow> 0 < b \<Longrightarrow> go_div a b = a div b"
  by (cases "a = 0") (simp_all add: go_div_def)

lemma go_mod_pos: "0 \<le> a \<Longrightarrow> 0 < b \<Longrightarrow> go_mod a b = a mod b"
  by (simp add: go_mod_def go_div_pos minus_mult_div_eq_mod)

text \<open>The conversion of a \<^verbatim>\<open>float64\<close> to an integer truncates towards zero too.\<close>

definition trunc_rat :: "rat \<Rightarrow> int" where
  "trunc_rat q = (if q < 0 then \<lceil>q\<rceil> else \<lfloor>q\<rfloor>)"

section \<open>Loops over slices\<close>

definition mapi :: "(nat \<Rightarrow> 'a \<Rightarrow> 'b) \<Rightarrow> 'a list \<Rightarrow> 'b list" where
  "mapi f xs = map (\<lambda>(i, x). f i x) (enumerate 0 xs)"

definition concat_mapi :: "(nat \<Rightarrow> 'a \<Rightarrow> 'b list) \<Rightarrow> 'a list \<Rightarrow> 'b list" where
  "concat_mapi f xs = concat (mapi f xs)"

lemma length_mapi [simp]: "length (mapi f xs) = length xs"
  by (simp add: mapi_def)

lemma nth_mapi [simp]: "i < length xs \<Longrightarrow> mapi f xs ! i = f i (xs ! i)"
  by (simp add: mapi_def nth_enumerate_eq)

lemma set_mapi: "set (mapi f xs) = {f i (xs ! i) |i. i < length xs}"
  by (auto simp: set_conv_nth) (metis nth_mapi)

lemma concat_mapi_Nil_iff:
  "concat_mapi f xs = [] \<longleftrightarrow> (\<forall>i < length xs. f i (xs ! i) = [])"
  by (auto simp: concat_mapi_def set_mapi)

lemma concat_mapi_Nil [simp]: "concat_mapi f [] = []"
  by (simp add: concat_mapi_def mapi_def)

lemma Ball_set_nth: "(\<forall>x \<in> set xs. P x) \<longleftrightarrow> (\<forall>i < length xs. P (xs ! i))"
  by (auto simp: set_conv_nth)

text \<open>A loop that runs a stateful operation on every element and collects the results.\<close>

fun run_all :: "('a \<Rightarrow> 's \<Rightarrow> 'r \<times> 's) \<Rightarrow> 'a list \<Rightarrow> 's \<Rightarrow> 'r list \<times> 's" where
  "run_all f [] s = ([], s)"
| "run_all f (x # xs) s =
     (let (r, s1) = f x s; (rs, s2) = run_all f xs s1 in (r # rs, s2))"

definition somes :: "'a option list \<Rightarrow> 'a list" where
  "somes rs = concat (map (\<lambda>r. case r of None \<Rightarrow> [] | Some x \<Rightarrow> [x]) rs)"

lemma somes_simps [simp]:
  "somes [] = []" "somes (None # rs) = somes rs" "somes (Some x # rs) = x # somes rs"
  "somes (rs @ rs') = somes rs @ somes rs'"
  by (simp_all add: somes_def)

lemma set_somes [simp]: "set (somes rs) = {x. Some x \<in> set rs}"
  by (induction rs) (auto simp: somes_def split: option.splits)

lemma somes_Nil_iff: "somes rs = [] \<longleftrightarrow> (\<forall>r \<in> set rs. r = None)"
  by (induction rs) (auto simp: somes_def split: option.splits)

lemma length_run_all: "length (fst (run_all f xs s)) = length xs"
  by (induction xs arbitrary: s) (auto split: prod.splits, metis fst_conv)

lemma run_all_append:
  "run_all f (xs @ ys) s =
     (let (rs, s1) = run_all f xs s; (rs', s2) = run_all f ys s1 in (rs @ rs', s2))"
  by (induction xs arbitrary: s) (auto split: prod.splits)

lemma run_all_invariant:
  "(\<And>x s. x \<in> set xs \<Longrightarrow> P s \<Longrightarrow> P (snd (f x s))) \<Longrightarrow> P s \<Longrightarrow> P (snd (run_all f xs s))"
  by (induction xs arbitrary: s) (auto split: prod.splits, metis snd_conv)

section \<open>Go maps that are iterated\<close>

text \<open>
  \<open>range\<close> over a Go map visits its entries in an unspecified order: an association list with
  distinct keys is the map together with the order of one iteration.  A theorem about such a list
  holds for every order.
\<close>

type_synonym ('k, 'v) gomap = "('k \<times> 'v) list"

abbreviation gomap_ok :: "('k, 'v) gomap \<Rightarrow> bool" where
  "gomap_ok m \<equiv> distinct (map fst m)"

lemma gomap_lookup_update [go_map]: "map_of (AList.update k v m) = (map_of m)(k \<mapsto> v)"
  by (rule update_conv')

lemma gomap_lookup_delete [go_map]: "map_of (AList.delete k m) = (map_of m)(k := None)"
  by (rule delete_conv')

lemma gomap_ok_update [intro]: "gomap_ok m \<Longrightarrow> gomap_ok (AList.update k v m)"
  by (rule distinct_update)

lemma gomap_ok_delete [intro]: "gomap_ok m \<Longrightarrow> gomap_ok (AList.delete k m)"
  by (rule distinct_delete)

text \<open>Copying the entries of one map over another (\<^verbatim>\<open>for k, v := range src { dest[k] = v }\<close>).\<close>

definition gomap_copy :: "('k, 'v) gomap \<Rightarrow> ('k, 'v) gomap \<Rightarrow> ('k, 'v) gomap" where
  "gomap_copy src dest = fold (\<lambda>(k, v) m. AList.update k v m) src dest"

lemma map_of_gomap_copy:
  "gomap_ok src \<Longrightarrow> map_of (gomap_copy src dest) = map_of dest ++ map_of src"
proof (induction src arbitrary: dest)
  case (Cons e src)
  obtain k v where e: "e = (k, v)" by (cases e)
  from Cons.prems e have "k \<notin> dom (map_of src)" by (simp add: dom_map_of_conv_image_fst)
  with Cons e show ?case
    by (auto simp: gomap_copy_def go_map map_add_def fun_eq_iff split: option.splits)
qed (simp add: gomap_copy_def)

lemma gomap_ok_copy: "gomap_ok dest \<Longrightarrow> gomap_ok (gomap_copy src dest)"
  unfolding gomap_copy_def
  by (induction src arbitrary: dest) (auto simp: distinct_update)

section \<open>Dynamic values\<close>

text \<open>
  The values a YAML or JSON decoder and the templates put behind \<^verbatim>\<open>interface{}\<close>.  A finite
  \<^verbatim>\<open>float64\<close> is the rational number it denotes.
\<close>

datatype gval =
    VNil
  | VBool bool
  | VInt int
  | VInt64 int
  | VFloat rat
  | VString string
  | VList "gval list"
  | VMap "(string \<times> gval) list"

type_synonym params = "(string, gval) gomap"

end
