(* ===== verification/Contracts.thy ===== *)
theory Contracts
  imports Go_Prelude
begin

text \<open>
  The interfaces the components promise to each other.  A locale fixes the operations a client
  calls and assumes the laws of the provider; the client's facts are proved once inside it.  Every
  locale is interpreted on the model's definitions in the theory of the component that provides
  them.
\<close>

section \<open>Keyed stores\<close>

text \<open>
  A store that answers the last value written under a key: the namespaces state and the table of
  phase transition times.
\<close>

locale kv_rw =
  fixes empty :: 's
    and get :: "'s \<Rightarrow> 'k \<Rightarrow> 'v option"
    and put :: "'s \<Rightarrow> 'k \<Rightarrow> 'v \<Rightarrow> 's"
  assumes get_empty: "get empty k = None"
    and get_put: "get (put s k v) k' = (if k' = k then Some v else get s k')"
begin

lemma get_put_same: "get (put s k v) k = Some v"
  by (simp add: get_put)

lemma get_put_other: "k' \<noteq> k \<Longrightarrow> get (put s k v) k' = get s k'"
  by (simp add: get_put)

lemma get_put_swap:
  "k \<noteq> k' \<Longrightarrow> get (put (put s k v) k' v') = get (put (put s k' v') k v)"
  by (auto simp: get_put fun_eq_iff)

lemma get_put_twice: "get (put (put s k v) k v') = get (put s k v')"
  by (auto simp: get_put fun_eq_iff)

text \<open>A run of writes leaves the last value written under each key.\<close>

lemma get_puts:
  "get (fold (\<lambda>(k, v) s. put s k v) kvs s) k =
     (case map_of (rev kvs) k of None \<Rightarrow> get s k | Some v \<Rightarrow> Some v)"
proof (induction kvs arbitrary: s)
  case (Cons e kvs)
  obtain k' v' where e: "e = (k', v')" by (cases e)
  show ?case
    by (auto simp: e Cons.IH get_put map_add_def split: option.splits)
qed simp

lemma get_puts_empty:
  "get (fold (\<lambda>(k, v) s. put s k v) kvs empty) = map_of (rev kvs)"
  by (auto simp: get_puts get_empty fun_eq_iff split: option.splits)

end

text \<open>A keyed store whose delete reports a missing key.\<close>

locale kv_store = kv_rw empty get put
  for empty :: 's and get :: "'s \<Rightarrow> 'k \<Rightarrow> 'v option" and put :: "'s \<Rightarrow> 'k \<Rightarrow> 'v \<Rightarrow> 's" +
  fixes del :: "'s \<Rightarrow> 'k \<Rightarrow> goerr + 's"
  assumes del_missing: "get s k = None \<Longrightarrow> \<exists>e. del s k = Inl e"
    and del_present: "get s k = Some v \<Longrightarrow>
          \<exists>s'. del s k = Inr s' \<and> (\<forall>k'. get s' k' = (if k' = k then None else get s k'))"
begin

lemma del_ok_iff: "(\<exists>s'. del s k = Inr s') \<longleftrightarrow> get s k \<noteq> None"
  using del_missing del_present by (cases "get s k") fastforce+

lemma get_del: "del s k = Inr s' \<Longrightarrow> get s' k' = (if k' = k then None else get s k')"
  using del_missing[of s k] del_present[of s k] by (cases "get s k") auto

lemma del_put_roundtrip:
  "get s k = None \<Longrightarrow> \<exists>s'. del (put s k v) k = Inr s' \<and> get s' = get s"
  using del_present[of "put s k v" k v] by (auto simp: get_put fun_eq_iff)

lemma del_twice: "del s k = Inr s' \<Longrightarrow> \<exists>e. del s' k = Inl e"
  using get_del[of s k s' k] del_missing[of s' k] by simp

end

section \<open>Registries\<close>

text \<open>
  A factory where a method name is registered once, at start-up, and looked up later: the
  measurement and the dependency factory.  The second component of the state is the table
  \<^verbatim>\<open>api.RegisteredMeasurements\<close> or \<^verbatim>\<open>api.RegisteredDependencies\<close> that validation reads.
\<close>

locale registry =
  fixes register :: "'r \<Rightarrow> string \<Rightarrow> 'c \<Rightarrow> goerr + 'r"
    and create :: "'r \<Rightarrow> string \<Rightarrow> goerr + 'c"
    and known :: "'r \<Rightarrow> string \<Rightarrow> bool"
    and init :: 'r
  assumes create_init: "\<exists>e. create init m = Inl e"
    and known_init: "\<not> known init m"
    and register_fresh: "create r m = Inl e \<Longrightarrow> \<exists>r'. register r m c = Inr r'"
    and register_taken: "create r m = Inr c' \<Longrightarrow> \<exists>e. register r m c = Inl e"
    and create_register: "register r m c = Inr r' \<Longrightarrow>
          create r' m' = (if m' = m then Inr c else create r m')"
    and known_register: "register r m c = Inr r' \<Longrightarrow> known r' m' = (m' = m \<or> known r m')"
begin

text \<open>Registering a list of methods, as the \<^verbatim>\<open>init\<close> functions do; the first error aborts.\<close>

fun register_all :: "'r \<Rightarrow> (string \<times> 'c) list \<Rightarrow> goerr + 'r" where
  "register_all r [] = Inr r"
| "register_all r ((m, c) # ms) =
     (case register r m c of Inl e \<Rightarrow> Inl e | Inr r' \<Rightarrow> register_all r' ms)"

lemma known_iff_create_step:
  assumes agree: "\<And>m. known r m \<longleftrightarrow> (\<exists>c. create r m = Inr c)" and reg: "register r m c = Inr r'"
  shows "known r' m' \<longleftrightarrow> (\<exists>c. create r' m' = Inr c)"
  using create_register[OF reg] known_register[OF reg] agree by auto

text \<open>
  What validation accepts is exactly what the factory can create, after any sequence of
  registrations.
\<close>

lemma known_iff_create_all:
  "register_all r ms = Inr r' \<Longrightarrow> (\<And>m. known r m \<longleftrightarrow> (\<exists>c. create r m = Inr c)) \<Longrightarrow>
     known r' m' \<longleftrightarrow> (\<exists>c. create r' m' = Inr c)"
proof (induction r ms arbitrary: m' rule: register_all.induct)
  case (2 r m c ms)
  from "2.prems"(1) obtain r1 where r1: "register r m c = Inr r1" "register_all r1 ms = Inr r'"
    by (auto split: sum.splits)
  then show ?case
    using "2.IH"[OF r1(1) r1(2)] known_iff_create_step[OF "2.prems"(2) r1(1)] by blast
qed simp

lemma known_iff_create:
  "register_all init ms = Inr r \<Longrightarrow> known r m \<longleftrightarrow> (\<exists>c. create r m = Inr c)"
  using known_iff_create_all[of init ms r m] create_init known_init
  by (metis Inl_Inr_False)

text \<open>Distinct names all register, and each is created by its own constructor.\<close>

lemma register_all_create:
  "register_all r ms = Inr r' \<Longrightarrow> create r m = Inr c \<Longrightarrow> create r' m = Inr c"
proof (induction r ms rule: register_all.induct)
  case (2 r n d ms)
  from "2.prems"(1) obtain r1 where r1: "register r n d = Inr r1" "register_all r1 ms = Inr r'"
    by (auto split: sum.splits)
  have "m \<noteq> n" using register_taken[of r m c d] "2.prems"(2) r1(1) by auto
  then have "create r1 m = Inr c" using create_register[OF r1(1)] "2.prems"(2) by simp
  with "2.IH"[OF r1(1) r1(2)] show ?case by blast
qed simp

lemma register_all_lookup:
  "register_all r ms = Inr r' \<Longrightarrow> (m, c) \<in> set ms \<Longrightarrow> create r' m = Inr c"
proof (induction r ms rule: register_all.induct)
  case (2 r n d ms)
  from "2.prems"(1) obtain r1 where r1: "register r n d = Inr r1" "register_all r1 ms = Inr r'"
    by (auto split: sum.splits)
  show ?case
  proof (cases "(m, c) \<in> set ms")
    case True
    with "2.IH"[OF r1] show ?thesis by blast
  next
    case False
    with "2.prems"(2) have "m = n" "c = d" by auto
    then have "create r1 m = Inr c" using create_register[OF r1(1)] by simp
    then show ?thesis by (rule register_all_create[OF r1(2)])
  qed
qed simp

end

end
