(* ===== verification/Errors_Pkg.thy ===== *)
theory Errors_Pkg
  imports Go_Prelude
begin

text \<open>
  The package \<^verbatim>\<open>clusterloader2/pkg/errors\<close>: the thread-safe error list every operation of the
  test executor returns, critical errors, which abort a test, and metric violations.  A
  \<^verbatim>\<open>*ErrorList\<close> that may be nil is an \<open>ErrorList option\<close>.  The mutex of the list is held for the
  whole of each operation, so an operation is one step of the model.
\<close>

record ErrorList =
  el_errors :: "goerr list"

definition NewErrorList :: "goerr list \<Rightarrow> ErrorList" where
  "NewErrorList errs = \<lparr>el_errors = errs\<rparr>"

definition IsEmpty :: "ErrorList \<Rightarrow> bool" where
  "IsEmpty e \<longleftrightarrow> length (el_errors e) = 0"

definition Append :: "ErrorList \<Rightarrow> goerr list \<Rightarrow> ErrorList" where
  "Append e errs = e\<lparr>el_errors := el_errors e @ errs\<rparr>"

definition Concat :: "ErrorList \<Rightarrow> ErrorList option \<Rightarrow> ErrorList" where
  "Concat e e2 =
     (case e2 of None \<Rightarrow> e | Some l \<Rightarrow> e\<lparr>el_errors := el_errors e @ el_errors l\<rparr>)"

fun Has_loop :: "goerr list \<Rightarrow> goerr \<Rightarrow> bool" where
  "Has_loop [] targetErr = False"
| "Has_loop (err # errs) targetErr =
     (if errors_Is err targetErr then True else Has_loop errs targetErr)"

definition Has :: "ErrorList \<Rightarrow> goerr \<Rightarrow> bool" where
  "Has e targetErr = Has_loop (el_errors e) targetErr"

text \<open>The loop of \<^verbatim>\<open>String\<close>: a newline after every message but the last.\<close>

fun String_loop :: "goerr list \<Rightarrow> string" where
  "String_loop [] = []"
| "String_loop [e] = err_msg e"
| "String_loop (e # e' # es) = err_msg e @ [CHR 0x0A] @ String_loop (e' # es)"

definition ErrorList_String :: "ErrorList \<Rightarrow> string" where
  "ErrorList_String e = ''['' @ String_loop (el_errors e) @ '']''"

definition ErrorList_Error :: "ErrorList \<Rightarrow> string" where
  "ErrorList_Error e = ErrorList_String e"

definition ErrCritical :: goerr where
  "ErrCritical = Sentinel ''criticl error''"

definition NewErrCritical :: "goerr \<Rightarrow> goerr" where
  "NewErrCritical err =
     Errorf (err_msg ErrCritical @ '': '' @ err_msg err) [ErrCritical, err]"

definition metricViolationError_Error :: "string \<Rightarrow> string \<Rightarrow> string" where
  "metricViolationError_Error metric reason = metric @ '': '' @ reason"

definition NewMetricViolationError :: "string \<Rightarrow> string \<Rightarrow> goerr" where
  "NewMetricViolationError metric reason = MetricViolation metric reason"

definition IsMetricViolationError :: "goerr \<Rightarrow> bool" where
  "IsMetricViolationError err = (case err of MetricViolation m r \<Rightarrow> True | _ \<Rightarrow> False)"

section \<open>Error lists as lists\<close>

lemma el_NewErrorList [simp, go_err]: "el_errors (NewErrorList es) = es"
  by (simp add: NewErrorList_def)

lemma el_Append [simp, go_err]: "el_errors (Append e es) = el_errors e @ es"
  by (simp add: Append_def)

lemma el_Concat [simp, go_err]:
  "el_errors (Concat e e2) = el_errors e @ (case e2 of None \<Rightarrow> [] | Some l \<Rightarrow> el_errors l)"
  by (simp add: Concat_def split: option.splits)

lemma IsEmpty_iff [simp, go_err]: "IsEmpty e \<longleftrightarrow> el_errors e = []"
  by (simp add: IsEmpty_def)

lemma ErrorList_eqI: "el_errors e = el_errors e' \<Longrightarrow> e = (e' :: ErrorList)"
  by simp

lemma Has_loop_iff: "Has_loop es t \<longleftrightarrow> (\<exists>e \<in> set es. errors_Is e t)"
  by (induction es t rule: Has_loop.induct) auto

lemma Has_iff [go_err]: "Has e t \<longleftrightarrow> (\<exists>x \<in> set (el_errors e). errors_Is x t)"
  by (simp add: Has_def Has_loop_iff)

lemma Has_Append [go_err]: "Has (Append e es) t \<longleftrightarrow> Has e t \<or> (\<exists>x \<in> set es. errors_Is x t)"
  by (auto simp: Has_iff)

lemma Has_Concat [go_err]:
  "Has (Concat e e2) t \<longleftrightarrow> Has e t \<or> (\<exists>l. e2 = Some l \<and> Has l t)"
  by (auto simp: Has_iff split: option.splits)

lemma Has_mset_cong:
  "mset (el_errors e) = mset (el_errors e') \<Longrightarrow> Has e t = Has e' t"
  unfolding Has_iff by (metis mset_eq_setD)

lemma NewErrCritical_is_critical [simp]: "errors_Is (NewErrCritical err) ErrCritical"
  by (simp add: NewErrCritical_def ErrCritical_def)

lemma String_loop_intercalate:
  "String_loop es = (case es of [] \<Rightarrow> [] | e # es' \<Rightarrow>
     err_msg e @ concat (map (\<lambda>x. [CHR 0x0A] @ err_msg x) es'))"
  by (induction es rule: String_loop.induct) auto

text \<open>A loop that appends the error of every step is the list of the errors of the steps.\<close>

lemma fold_Append_run_all:
  "fold (\<lambda>x (l, s). let (r, s) = f x s
          in (case r of None \<Rightarrow> (l, s) | Some e \<Rightarrow> (Append l [e], s))) xs (l, s) =
     (Append l (somes (fst (run_all f xs s))), snd (run_all f xs s))"
proof (induction xs arbitrary: l s)
  case (Cons x xs)
  obtain r s1 where "f x s = (r, s1)" by (cases "f x s")
  with Cons show ?case by (cases r) (auto intro: ErrorList_eqI split: prod.splits)
qed (simp add: Append_def)

end
