(* ===== verification/Util_Pkg.thy ===== *)
theory Util_Pkg
  imports Go_Prelude
begin

text \<open>
  The package \<^verbatim>\<open>clusterloader2/pkg/util\<close>, file \<^verbatim>\<open>util.go\<close>: typed access to the parameters of a
  measurement, copying of template mappings and random name suffixes.  A parameter map is a
  \<open>params\<close>; a getter returns the value or the error.  \<^verbatim>\<open>strconv.ParseFloat\<close>,
  \<^verbatim>\<open>time.ParseDuration\<close>, \<^verbatim>\<open>fmt.Sprintf("%v")\<close> and \<^verbatim>\<open>labels.Parse\<close> are arguments of the getters that
  call them.  The message of a failed type assertion leaves out the rendering of the value.
\<close>

section \<open>Getters\<close>

definition IsErrKeyNotFound :: "goerr \<Rightarrow> bool" where
  "IsErrKeyNotFound err = (case err of KeyNotFound k \<Rightarrow> True | _ \<Rightarrow> False)"

definition assert_err :: "string \<Rightarrow> goerr" where
  "assert_err what = Errorf (''type assertion error: value is not '' @ what) []"

definition getString :: "params \<Rightarrow> string \<Rightarrow> goerr + string" where
  "getString dict key =
     (case map_of dict key of
        None \<Rightarrow> Inl (KeyNotFound key)
      | Some VNil \<Rightarrow> Inl (KeyNotFound key)
      | Some (VString s) \<Rightarrow> Inr s
      | Some _ \<Rightarrow> Inl (assert_err ''a string''))"

definition getMap :: "params \<Rightarrow> string \<Rightarrow> goerr + params" where
  "getMap dict key =
     (case map_of dict key of
        None \<Rightarrow> Inl (KeyNotFound key)
      | Some VNil \<Rightarrow> Inl (KeyNotFound key)
      | Some (VMap m) \<Rightarrow> Inr m
      | Some _ \<Rightarrow> Inl (assert_err ''a map''))"

fun maps_of_slice :: "gval list \<Rightarrow> goerr + params list" where
  "maps_of_slice [] = Inr []"
| "maps_of_slice (VMap m # vs) =
     (case maps_of_slice vs of Inl e \<Rightarrow> Inl e | Inr ms \<Rightarrow> Inr (m # ms))"
| "maps_of_slice (_ # vs) = Inl (assert_err ''a map'')"

definition getMapArray :: "params \<Rightarrow> string \<Rightarrow> goerr + params list" where
  "getMapArray dict key =
     (case map_of dict key of
        None \<Rightarrow> Inl (KeyNotFound key)
      | Some VNil \<Rightarrow> Inl (KeyNotFound key)
      | Some (VList vs) \<Rightarrow> maps_of_slice vs
      | Some _ \<Rightarrow> Inl (assert_err ''a []map''))"

definition getStringArray :: "(gval \<Rightarrow> string) \<Rightarrow> params \<Rightarrow> string \<Rightarrow> goerr + string list" where
  "getStringArray sprintv dict key =
     (case map_of dict key of
        None \<Rightarrow> Inl (KeyNotFound key)
      | Some VNil \<Rightarrow> Inl (KeyNotFound key)
      | Some (VList vs) \<Rightarrow> Inr (map sprintv vs)
      | Some _ \<Rightarrow> Inl (assert_err ''a slice''))"

text \<open>
  The test on the error of \<^verbatim>\<open>strconv.Atoi\<close> is \<^verbatim>\<open>err != nil\<close>, as in the source.
\<close>

definition getInt :: "params \<Rightarrow> string \<Rightarrow> goerr + int" where
  "getInt dict key =
     (case map_of dict key of
        None \<Rightarrow> Inl (KeyNotFound key)
      | Some (VInt i) \<Rightarrow> Inr i
      | Some (VFloat q) \<Rightarrow> Inr (trunc_rat q)
      | Some (VString s) \<Rightarrow>
          (case atoi s of
             (i, Some err) \<Rightarrow> Inr i
           | (i, None) \<Rightarrow> Inl (assert_err ''an int''))
      | Some _ \<Rightarrow> Inl (assert_err ''an int''))"

definition getFloat64 ::
  "(string \<Rightarrow> rat \<times> numerr option) \<Rightarrow> params \<Rightarrow> string \<Rightarrow> goerr + rat" where
  "getFloat64 parse_float dict key =
     (case map_of dict key of
        None \<Rightarrow> Inl (KeyNotFound key)
      | Some (VFloat q) \<Rightarrow> Inr q
      | Some (VString s) \<Rightarrow>
          (case parse_float s of
             (f, Some err) \<Rightarrow> Inr f
           | (f, None) \<Rightarrow> Inl (assert_err ''a float''))
      | Some _ \<Rightarrow> Inl (assert_err ''a float''))"

definition getDuration ::
  "(string \<Rightarrow> goerr + duration) \<Rightarrow> params \<Rightarrow> string \<Rightarrow> goerr + duration" where
  "getDuration parse_duration dict key =
     (case getString dict key of
        Inl e \<Rightarrow> Inl e
      | Inr s \<Rightarrow>
          (case parse_duration s of
             Inl e \<Rightarrow> Inl (Errorf (''parsing duration error: '' @ err_msg e) [])
           | Inr d \<Rightarrow> Inr d))"

definition getBool :: "params \<Rightarrow> string \<Rightarrow> goerr + bool" where
  "getBool dict key =
     (case map_of dict key of
        None \<Rightarrow> Inl (KeyNotFound key)
      | Some (VBool b) \<Rightarrow> Inr b
      | Some (VString s) \<Rightarrow>
          (case parse_bool s of
             Inl err \<Rightarrow> Inr False
           | Inr b \<Rightarrow> Inl (assert_err ''a bool''))
      | Some _ \<Rightarrow> Inl (assert_err ''a bool''))"

definition getLabelSelector ::
  "(string \<Rightarrow> goerr + 'sel) \<Rightarrow> params \<Rightarrow> string \<Rightarrow> goerr + 'sel" where
  "getLabelSelector parse_selector dict key =
     (case getString dict key of
        Inl e \<Rightarrow> Inl e
      | Inr s \<Rightarrow> parse_selector s)"

section \<open>Getters with a default\<close>

text \<open>The shared body of the five \<^verbatim>\<open>OrDefault\<close> functions.\<close>

definition or_default :: "(goerr + 'a) \<Rightarrow> 'a \<Rightarrow> goerr + 'a" where
  "or_default r defaultValue =
     (case r of
        Inl err \<Rightarrow> if IsErrKeyNotFound err then Inr defaultValue else Inl err
      | Inr value \<Rightarrow> Inr value)"

definition GetStringOrDefault :: "params \<Rightarrow> string \<Rightarrow> string \<Rightarrow> goerr + string" where
  "GetStringOrDefault dict key defaultValue = or_default (getString dict key) defaultValue"

definition GetIntOrDefault :: "params \<Rightarrow> string \<Rightarrow> int \<Rightarrow> goerr + int" where
  "GetIntOrDefault dict key defaultValue = or_default (getInt dict key) defaultValue"

definition GetFloat64OrDefault ::
  "(string \<Rightarrow> rat \<times> numerr option) \<Rightarrow> params \<Rightarrow> string \<Rightarrow> rat \<Rightarrow> goerr + rat" where
  "GetFloat64OrDefault parse_float dict key defaultValue =
     or_default (getFloat64 parse_float dict key) defaultValue"

definition GetDurationOrDefault ::
  "(string \<Rightarrow> goerr + duration) \<Rightarrow> params \<Rightarrow> string \<Rightarrow> duration \<Rightarrow> goerr + duration" where
  "GetDurationOrDefault parse_duration dict key defaultValue =
     or_default (getDuration parse_duration dict key) defaultValue"

definition GetBoolOrDefault :: "params \<Rightarrow> string \<Rightarrow> bool \<Rightarrow> goerr + bool" where
  "GetBoolOrDefault dict key defaultValue = or_default (getBool dict key) defaultValue"

section \<open>Mappings and random names\<close>

definition CopyMap :: "params \<Rightarrow> params \<Rightarrow> params" where
  "CopyMap src dest = gomap_copy src dest"

definition CloneMap :: "params \<Rightarrow> params" where
  "CloneMap src = CopyMap src []"

definition dns1123_characters :: string where
  "dns1123_characters = ''abcdefghijklmnopqrstuvwxyz0123456789''"

text \<open>
  \<open>draw i\<close> is the \<open>i\<close>-th result of \<^verbatim>\<open>rand.Intn(len(characters))\<close>, a number below 36.
\<close>

definition RandomDNS1123String :: "(nat \<Rightarrow> nat) \<Rightarrow> nat \<Rightarrow> string" where
  "RandomDNS1123String draw len = map (\<lambda>i. dns1123_characters ! (draw i)) [0..<len]"

section \<open>What a default means\<close>

text \<open>
  The contract of a getter: it reports \<^verbatim>\<open>ErrKeyNotFound\<close> for the keys it treats as absent and for
  no other key.
\<close>

locale param_getter =
  fixes get :: "params \<Rightarrow> string \<Rightarrow> goerr + 'a"
    and absent :: "params \<Rightarrow> string \<Rightarrow> bool"
  assumes get_absent: "absent d k \<Longrightarrow> get d k = Inl (KeyNotFound k)"
    and get_present: "\<not> absent d k \<Longrightarrow> get d k \<noteq> Inl (KeyNotFound k')"
begin

lemma or_default_get:
  "or_default (get d k) v = (if absent d k then Inr v else get d k)"
  using get_present[of d k]
  by (auto simp: or_default_def IsErrKeyNotFound_def get_absent split: sum.splits goerr.splits)

lemma or_default_error_iff:
  "(\<exists>e. or_default (get d k) v = Inl e) \<longleftrightarrow> \<not> absent d k \<and> (\<exists>e. get d k = Inl e)"
  by (auto simp: or_default_get)

end

definition missing :: "params \<Rightarrow> string \<Rightarrow> bool" where
  "missing d k \<longleftrightarrow> map_of d k = None"

definition missing_or_nil :: "params \<Rightarrow> string \<Rightarrow> bool" where
  "missing_or_nil d k \<longleftrightarrow> map_of d k = None \<or> map_of d k = Some VNil"

lemmas getter_defs = getString_def getInt_def getFloat64_def getBool_def getDuration_def
  assert_err_def missing_def missing_or_nil_def

interpretation gs: param_getter getString missing_or_nil
  by unfold_locales (auto simp: getter_defs split: option.splits gval.splits)

interpretation gi: param_getter getInt missing
  by unfold_locales
     (auto simp: getter_defs split: option.splits gval.splits prod.splits)

interpretation gf: param_getter "getFloat64 pf" missing for pf
  by unfold_locales
     (auto simp: getter_defs split: option.splits gval.splits prod.splits)

interpretation gb: param_getter getBool missing
  by unfold_locales
     (auto simp: getter_defs split: option.splits gval.splits sum.splits)

interpretation gd: param_getter "getDuration pd" missing_or_nil for pd
  by unfold_locales
     (auto simp: getter_defs split: option.splits gval.splits sum.splits)

lemma map_of_CopyMap [go_map]:
  "gomap_ok src \<Longrightarrow> map_of (CopyMap src dest) = map_of dest ++ map_of src"
  by (simp add: CopyMap_def map_of_gomap_copy)

lemma map_of_CloneMap [go_map]: "gomap_ok src \<Longrightarrow> map_of (CloneMap src) = map_of src"
  by (simp add: CloneMap_def go_map)

lemma length_RandomDNS1123String [simp]: "length (RandomDNS1123String draw n) = n"
  by (simp add: RandomDNS1123String_def)

lemma RandomDNS1123String_chars:
  "(\<And>i. draw i < 36) \<Longrightarrow> set (RandomDNS1123String draw n) \<subseteq> set dns1123_characters"
proof -
  assume d: "\<And>i. draw i < 36"
  have "length dns1123_characters = 36" by (simp add: dns1123_characters_def)
  with d show ?thesis
    by (force simp: RandomDNS1123String_def)
qed

lemma atoi_show_nat: "n < 2 ^ 63 \<Longrightarrow> atoi (show_nat n) = (int n, None)"
proof -
  assume n: "n < 2 ^ 63"
  have "hd (show_nat n) \<noteq> CHR ''-''" "hd (show_nat n) \<noteq> CHR ''+''"
    using digits_of_show_nat[of "hd (show_nat n)" n] hd_in_set[OF show_nat_not_Nil[of n]]
    by (auto simp: char_digit_def)
  with n show ?thesis
    by (simp add: atoi_def parse_int_def parse_show_uint Let_def)
qed

text \<open>
  A string parameter read as an integer.  The test on the result of \<^verbatim>\<open>strconv.Atoi\<close> is
  inverted: the decimal text of every number is refused, even when the caller has a default, and a
  text that is not a number is read as the value beside the parse error, which is 0.
\<close>

theorem getInt_string_inverted:
  assumes "n < 2 ^ 63" and "snd (atoi s) = Some ErrSyntax"
  shows "GetIntOrDefault (AList.update k (VString (show_nat n)) d) k v = Inl (assert_err ''an int'')
       \<and> GetIntOrDefault (AList.update k (VString s) d) k v = Inr 0"
proof -
  have "fst (atoi s) = 0"
    using assms(2)
    by (auto simp: atoi_def parse_int_def Let_def split: sum.splits numerr.splits if_splits)
  then have "atoi s = (0, Some ErrSyntax)" using assms(2) by (cases "atoi s") auto
  with assms(1) show ?thesis
    unfolding GetIntOrDefault_def gi.or_default_get
    by (simp add: missing_def getInt_def atoi_show_nat go_map)
qed

theorem getInt_string_inverted_witness:
  "GetIntOrDefault (AList.update ''n'' (VString ''x'') []) ''n'' 7 = Inr 0"
  using getInt_string_inverted[of 5 "''x''" "''n''" "[]" 7]
  by (simp add: atoi_def parse_int_def parse_uint_def char_digit_def)

text \<open>
  When a default is used.  The string and duration getters fall back to the default for a
  missing key and for an explicit null; the integer, float and boolean getters fall back for a
  missing key only, and report an error for null.
\<close>

theorem defaults_for_absent_keys:
  "GetStringOrDefault d k s = (if missing_or_nil d k then Inr s else getString d k)
   \<and> GetDurationOrDefault pd d k t = (if missing_or_nil d k then Inr t else getDuration pd d k)
   \<and> GetIntOrDefault d k i = (if missing d k then Inr i else getInt d k)
   \<and> GetFloat64OrDefault pf d k q = (if missing d k then Inr q else getFloat64 pf d k)
   \<and> GetBoolOrDefault d k b = (if missing d k then Inr b else getBool d k)
   \<and> GetIntOrDefault (AList.update k VNil d) k i = Inl (assert_err ''an int'')"
  unfolding GetStringOrDefault_def GetDurationOrDefault_def GetIntOrDefault_def
    GetFloat64OrDefault_def GetBoolOrDefault_def
    gs.or_default_get gd.or_default_get gi.or_default_get gf.or_default_get gb.or_default_get
  by (simp add: missing_def getInt_def go_map)

end
