(* ===== verification/Api_Types.thy ===== *)
theory Api_Types
  imports Util_Pkg
begin

text \<open>
  The package \<^verbatim>\<open>clusterloader2/api\<close>: the types of a test configuration (\<^verbatim>\<open>types.go\<close>), the defaults
  (\<^verbatim>\<open>default.go\<close>) and the helpers on steps and durations (\<^verbatim>\<open>extensions.go\<close>).  A pointer that may be
  nil is an option; \<^verbatim>\<open>int32\<close> is \<open>int\<close>; \<^verbatim>\<open>float64\<close> is \<open>rat\<close>; \<^verbatim>\<open>map[string]interface{}\<close> is \<open>params\<close>;
  a slice for which nil differs from empty is an option of a list.  Fields carry a prefix of
  their struct.
\<close>

section \<open>Types\<close>

type_synonym Duration = duration

record TestScenario =
  ts_Identifier :: string
  ts_ConfigPath :: string
  ts_OverridePaths :: "string list"

type_synonym TestSuite = "TestScenario list"

record ModuleRef =
  mr_Path :: string
  mr_Params :: params

text \<open>The label selector is passed on to the API server unchanged.\<close>

record ListUnknownObjectOptions =
  lo_LabelSelector :: string

record Object =
  ob_Basename :: string
  ob_ObjectTemplatePath :: string
  ob_TemplateFillMap :: params
  ob_ListUnknownObjectOptions :: "ListUnknownObjectOptions option"

record NamespaceRange =
  nr_Min :: int
  nr_Max :: int
  nr_Basename :: "string option"

record Phase =
  ph_NamespaceRange :: "NamespaceRange option"
  ph_NamespaceList :: "string list option"
  ph_ReplicasPerNamespace :: int
  ph_TuningSet :: string
  ph_ObjectBundle :: "Object list"

record MeasurementInstanceConfig =
  mi_Identifier :: string
  mi_Params :: params

record Measurement =
  me_Method :: string
  me_Params :: params
  me_Identifier :: string
  me_Instances :: "MeasurementInstanceConfig list"

record Step =
  st_Phases :: "Phase list"
  st_Measurements :: "Measurement list"
  st_Module :: ModuleRef
  st_Name :: string

record Module =
  mo_Steps :: "Step list"

record NamespaceConfig =
  nc_Number :: int
  nc_Prefix :: string
  nc_DeleteStaleNamespaces :: "bool option"
  nc_DeleteAutomanagedNamespaces :: "bool option"
  nc_EnableExistingNamespaces :: "bool option"
  nc_DeleteNamespaceTimeout :: "Duration option"

record QPSLoad =
  ql_QPS :: rat

record RandomizedLoad =
  rl_AverageQPS :: rat

record SteppedLoad =
  sl_BurstSize :: int
  sl_StepDelay :: Duration

record PoissonLoad =
  pl_ExpectedActionsPerSecond :: rat

record TimeLimitedLoad =
  tl_TimeLimit :: Duration

record RandomizedTimeLimitedLoad =
  rt_TimeLimit :: Duration

record ParallelismLimitedLoad =
  pa_ParallelismLimit :: int

record GlobalQPSLoad =
  gl_QPS :: rat
  gl_Burst :: int

record TuningSet =
  tu_Name :: string
  tu_InitialDelay :: Duration
  tu_QPSLoad :: "QPSLoad option"
  tu_RandomizedLoad :: "RandomizedLoad option"
  tu_SteppedLoad :: "SteppedLoad option"
  tu_TimeLimitedLoad :: "TimeLimitedLoad option"
  tu_RandomizedTimeLimitedLoad :: "RandomizedTimeLimitedLoad option"
  tu_ParallelismLimitedLoad :: "ParallelismLimitedLoad option"
  tu_GlobalQPSLoad :: "GlobalQPSLoad option"
  tu_PoissonLoad :: "PoissonLoad option"

record Dependency =
  de_Name :: string
  de_Method :: string
  de_Timeout :: Duration
  de_Params :: params

record NodeFailureConfig =
  nf_FailureRate :: rat
  nf_Interval :: Duration
  nf_JitterFactor :: rat
  nf_SimulatedDowntime :: Duration

record ChaosMonkeyConfig =
  cm_NodeFailure :: "NodeFailureConfig option"
  cm_ExcludedNodes :: "string list option"

record Config =
  co_Name :: string
  co_Dependencies :: "Dependency list"
  co_AutomanagedNamespaces :: int
  co_Namespace :: NamespaceConfig
  co_Steps :: "Step list"
  co_TuningSets :: "TuningSet list"
  co_ChaosMonkey :: ChaosMonkeyConfig

section \<open>Helpers\<close>

definition ToTimeDuration :: "Duration \<Rightarrow> duration" where
  "ToTimeDuration d = d"

definition IsMeasurement :: "Step \<Rightarrow> bool" where
  "IsMeasurement s \<longleftrightarrow> length (st_Measurements s) > 0"

definition IsPhase :: "Step \<Rightarrow> bool" where
  "IsPhase s \<longleftrightarrow> length (st_Phases s) > 0"

definition IsModule :: "Step \<Rightarrow> bool" where
  "IsModule s \<longleftrightarrow> mr_Path (st_Module s) \<noteq> []"

section \<open>Defaults\<close>

text \<open>Ten minutes in nanoseconds (\<^verbatim>\<open>client.DefaultNamespaceDeletionTimeout\<close>).\<close>

definition DefaultNamespaceDeletionTimeout :: duration where
  "DefaultNamespaceDeletionTimeout = 10 * 60 * 1000000000"

definition NamespaceConfig_SetDefaults :: "(nat \<Rightarrow> nat) \<Rightarrow> NamespaceConfig \<Rightarrow> NamespaceConfig" where
  "NamespaceConfig_SetDefaults draw ns =
     (let ns = (if nc_Number ns = 0 then ns\<lparr>nc_Number := 1\<rparr> else ns);
          ns = (if nc_Prefix ns = []
                then ns\<lparr>nc_Prefix := ''test-'' @ RandomDNS1123String draw 6\<rparr> else ns);
          ns = (if nc_DeleteStaleNamespaces ns = None
                then ns\<lparr>nc_DeleteStaleNamespaces := Some False\<rparr> else ns);
          ns = (if nc_DeleteAutomanagedNamespaces ns = None
                then ns\<lparr>nc_DeleteAutomanagedNamespaces := Some True\<rparr> else ns);
          ns = (if nc_EnableExistingNamespaces ns = None
                then ns\<lparr>nc_EnableExistingNamespaces := Some False\<rparr> else ns)
      in if nc_DeleteNamespaceTimeout ns = None
         then ns\<lparr>nc_DeleteNamespaceTimeout := Some DefaultNamespaceDeletionTimeout\<rparr> else ns)"

definition Config_SetDefaults :: "(nat \<Rightarrow> nat) \<Rightarrow> Config \<Rightarrow> Config" where
  "Config_SetDefaults draw conf =
     (let conf = conf\<lparr>co_Namespace := NamespaceConfig_SetDefaults draw (co_Namespace conf)\<rparr>
      in if nc_Number (co_Namespace conf) = 1 \<and> co_AutomanagedNamespaces conf > 1
         then conf\<lparr>co_Namespace := (co_Namespace conf)\<lparr>nc_Number := co_AutomanagedNamespaces conf\<rparr>\<rparr>
         else conf)"

section \<open>Defaults are complete and stable\<close>

definition ns_complete :: "NamespaceConfig \<Rightarrow> bool" where
  "ns_complete ns \<longleftrightarrow> nc_Number ns \<noteq> 0 \<and> nc_Prefix ns \<noteq> [] \<and>
     nc_DeleteStaleNamespaces ns \<noteq> None \<and> nc_DeleteAutomanagedNamespaces ns \<noteq> None \<and>
     nc_EnableExistingNamespaces ns \<noteq> None \<and> nc_DeleteNamespaceTimeout ns \<noteq> None"

lemma ns_complete_SetDefaults: "ns_complete (NamespaceConfig_SetDefaults draw ns)"
  by (auto simp: ns_complete_def NamespaceConfig_SetDefaults_def Let_def)

lemma SetDefaults_complete_id: "ns_complete ns \<Longrightarrow> NamespaceConfig_SetDefaults draw ns = ns"
  by (auto simp: ns_complete_def NamespaceConfig_SetDefaults_def Let_def)

lemma ns_complete_Config_SetDefaults: "ns_complete (co_Namespace (Config_SetDefaults draw c))"
  using ns_complete_SetDefaults[of draw "co_Namespace c"]
  by (auto simp: Config_SetDefaults_def Let_def ns_complete_def)

text \<open>
  The defaults are complete and stable.  After \<^verbatim>\<open>SetDefaults\<close> every optional field of the
  namespace configuration is set, and applying the defaults again, with whatever random name
  suffix, changes nothing.
\<close>

theorem Config_SetDefaults_idempotent:
  "ns_complete (co_Namespace (Config_SetDefaults draw c)) \<and>
   Config_SetDefaults draw' (Config_SetDefaults draw c) = Config_SetDefaults draw c"
proof
  show complete: "ns_complete (co_Namespace (Config_SetDefaults draw c))"
    by (rule ns_complete_Config_SetDefaults)
  show "Config_SetDefaults draw' (Config_SetDefaults draw c) = Config_SetDefaults draw c"
    unfolding Config_SetDefaults_def[of draw'] SetDefaults_complete_id[OF complete] Let_def
    by (simp add: Config_SetDefaults_def Let_def)
qed

end
