(* ===== verification/State_Pkg.thy ===== *)
theory State_Pkg
  imports Contracts Errors_Pkg Api_Types "HOL-Library.Word"
begin

text \<open>
  The package \<^verbatim>\<open>clusterloader2/pkg/state\<close>: how many replicas of every object of the test exist in
  each namespace, and the highest resource version seen of each resource type.  The Go maps are
  HOL maps; the \<^verbatim>\<open>uint64\<close> resource version is a \<open>64 word\<close>.  Each operation holds the lock of its
  structure, so it is one step of the model.
\<close>

section \<open>Namespaces state\<close>

record InstancesState =
  DesiredReplicaCount :: int
  CurrentReplicaCount :: int
  is_Object :: Object

record InstancesIdentifier =
  ii_Basename :: string
  ii_ObjectKind :: string
  ii_APIGroup :: string

type_synonym namespaceState = "InstancesIdentifier \<rightharpoonup> InstancesState"

record NamespacesState =
  namespaceStates :: "string \<rightharpoonup> namespaceState"

definition newNamespacesState :: NamespacesState where
  "newNamespacesState = \<lparr>namespaceStates = Map.empty\<rparr>"

definition NamespacesState_Get ::
  "NamespacesState \<Rightarrow> string \<Rightarrow> InstancesIdentifier \<Rightarrow> InstancesState option" where
  "NamespacesState_Get ns namespace identifier =
     (case namespaceStates ns namespace of
        None \<Rightarrow> None
      | Some nst \<Rightarrow> nst identifier)"

definition NamespacesState_Set ::
  "NamespacesState \<Rightarrow> string \<Rightarrow> InstancesIdentifier \<Rightarrow> InstancesState \<Rightarrow> NamespacesState" where
  "NamespacesState_Set ns namespace identifier instances =
     (let nst = (case namespaceStates ns namespace of None \<Rightarrow> Map.empty | Some m \<Rightarrow> m)
      in ns\<lparr>namespaceStates := (namespaceStates ns)(namespace \<mapsto> nst(identifier \<mapsto> instances))\<rparr>)"

definition NamespacesState_Delete ::
  "NamespacesState \<Rightarrow> string \<Rightarrow> InstancesIdentifier \<Rightarrow> goerr + NamespacesState" where
  "NamespacesState_Delete ns namespace identifier =
     (case namespaceStates ns namespace of
        None \<Rightarrow> Inl (Errorf (''namespace '' @ namespace @ '' not found'') [])
      | Some nst \<Rightarrow>
          (case nst identifier of
             None \<Rightarrow> Inl (Errorf (''no instances of '' @ ii_Basename identifier @ '' found in ''
                                 @ namespace @ '' namespace'') [])
           | Some _ \<Rightarrow> Inr (ns\<lparr>namespaceStates :=
                               (namespaceStates ns)(namespace \<mapsto> nst(identifier := None))\<rparr>)))"

section \<open>Resource versions\<close>

record ResourceTypeIdentifier =
  rt_ObjectKind :: string
  rt_APIGroup :: string

record ResourcesVersionsState =
  resourcesVersions :: "ResourceTypeIdentifier \<rightharpoonup> 64 word"

definition newResourcesVersionsState :: ResourcesVersionsState where
  "newResourcesVersionsState = \<lparr>resourcesVersions = Map.empty\<rparr>"

definition ResourcesVersionsState_Get ::
  "ResourcesVersionsState \<Rightarrow> ResourceTypeIdentifier \<Rightarrow> string \<times> bool" where
  "ResourcesVersionsState_Get rs identifier =
     (case resourcesVersions rs identifier of
        None \<Rightarrow> (''0'', False)
      | Some version \<Rightarrow> (show_nat (unat version), True))"

definition ResourcesVersionsState_Set ::
  "ResourcesVersionsState \<Rightarrow> ResourceTypeIdentifier \<Rightarrow> string \<Rightarrow> goerr + ResourcesVersionsState" where
  "ResourcesVersionsState_Set rs identifier resourceVersion =
     (case parse_uint 64 resourceVersion of
        Inl _ \<Rightarrow> Inl (Errorf ''incorrect version format'' [])
      | Inr n \<Rightarrow>
          let version = (word_of_nat n :: 64 word);
              version' = (case resourcesVersions rs identifier of
                            None \<Rightarrow> version
                          | Some current \<Rightarrow> if current > version then current else version)
          in Inr (rs\<lparr>resourcesVersions := (resourcesVersions rs)(identifier \<mapsto> version')\<rparr>))"

section \<open>Cluster state\<close>

record State =
  namespacesState :: NamespacesState
  resourcesVersionState :: ResourcesVersionsState

definition NewState :: State where
  "NewState = \<lparr>namespacesState = newNamespacesState,
               resourcesVersionState = newResourcesVersionsState\<rparr>"

section \<open>The namespaces state is a keyed store\<close>

lemma Get_new [simp]: "NamespacesState_Get newNamespacesState n i = None"
  by (simp add: NamespacesState_Get_def newNamespacesState_def)

lemma Get_Set [simp]:
  "NamespacesState_Get (NamespacesState_Set s n i v) n' i' =
     (if n' = n \<and> i' = i then Some v else NamespacesState_Get s n' i')"
  by (auto simp: NamespacesState_Get_def NamespacesState_Set_def Let_def split: option.splits)

lemma Delete_missing:
  "NamespacesState_Get s n i = None \<Longrightarrow> \<exists>e. NamespacesState_Delete s n i = Inl e"
  by (auto simp: NamespacesState_Get_def NamespacesState_Delete_def split: option.splits)

lemma Delete_present:
  "NamespacesState_Get s n i = Some v \<Longrightarrow>
     \<exists>s'. NamespacesState_Delete s n i = Inr s' \<and>
       (\<forall>n' i'. NamespacesState_Get s' n' i' =
                  (if n' = n \<and> i' = i then None else NamespacesState_Get s n' i'))"
  by (auto simp: NamespacesState_Get_def NamespacesState_Delete_def split: option.splits)

interpretation nss: kv_store
  newNamespacesState
  "\<lambda>s (n, i). NamespacesState_Get s n i"
  "\<lambda>s (n, i) v. NamespacesState_Set s n i v"
  "\<lambda>s (n, i). NamespacesState_Delete s n i"
proof (unfold_locales, goal_cases)
  case (1 k) then show ?case by (cases k) simp
next
  case (2 s k v k') then show ?case by (cases k; cases k') auto
next
  case (3 s k) then show ?case by (cases k) (auto dest: Delete_missing)
next
  case (4 s k v) then show ?case by (cases k) (fastforce dest: Delete_present)
qed

text \<open>
  C20: a history of \<^verbatim>\<open>Set\<close> calls answers, for every namespace and identifier, the last instances
  stored there; a \<^verbatim>\<open>Delete\<close> of a group succeeds exactly when that group is present and removes
  that group only.
\<close>

theorem namespaces_state_contract:
  "NamespacesState_Get (fold (\<lambda>((n, i), v) s. NamespacesState_Set s n i v) kvs newNamespacesState) n i
     = map_of (rev kvs) (n, i)
   \<and> ((\<exists>s'. NamespacesState_Delete s n i = Inr s') \<longleftrightarrow> NamespacesState_Get s n i \<noteq> None)
   \<and> (\<forall>s' n' i'. NamespacesState_Delete s n i = Inr s' \<longrightarrow>
        NamespacesState_Get s' n' i' =
          (if n' = n \<and> i' = i then None else NamespacesState_Get s n' i'))"
proof (intro conjI allI impI)
  have "(\<lambda>((n, i), v) s. NamespacesState_Set s n i v) =
        (\<lambda>(k, v) s. (\<lambda>s (n, i) v. NamespacesState_Set s n i v) s k v)"
    by (auto simp: fun_eq_iff)
  then show "NamespacesState_Get
      (fold (\<lambda>((n, i), v) s. NamespacesState_Set s n i v) kvs newNamespacesState) n i
     = map_of (rev kvs) (n, i)"
    using fun_cong[OF nss.get_puts_empty[of kvs], of "(n, i)"] by simp
  show "(\<exists>s'. NamespacesState_Delete s n i = Inr s') \<longleftrightarrow> NamespacesState_Get s n i \<noteq> None"
    using nss.del_ok_iff[of s "(n, i)"] by simp
  show "NamespacesState_Get s' n' i' =
          (if n' = n \<and> i' = i then None else NamespacesState_Get s n' i')"
    if "NamespacesState_Delete s n i = Inr s'" for s' n' i'
    using nss.get_del[of s "(n, i)" s' "(n', i')"] that by auto
qed

definition pods_id :: InstancesIdentifier where
  "pods_id = \<lparr>ii_Basename = ''b'', ii_ObjectKind = ''Pod'', ii_APIGroup = []\<rparr>"

definition two_pods :: InstancesState where
  "two_pods = \<lparr>DesiredReplicaCount = 2, CurrentReplicaCount = 2,
     is_Object = \<lparr>ob_Basename = ''b'', ob_ObjectTemplatePath = ''pod.yaml'', ob_TemplateFillMap = [],
                  ob_ListUnknownObjectOptions = None\<rparr>\<rparr>"

theorem namespaces_state_contract_witness:
  "\<exists>s'. NamespacesState_Delete (NamespacesState_Set newNamespacesState ''ns'' pods_id two_pods)
        ''ns'' pods_id = Inr s'
      \<and> NamespacesState_Get s' ''ns'' pods_id = None"
  using namespaces_state_contract[of "[]" "''ns''" pods_id
      "NamespacesState_Set newNamespacesState ''ns'' pods_id two_pods"]
  by auto

section \<open>Resource versions only grow\<close>

definition versions_le :: "ResourcesVersionsState \<Rightarrow> ResourcesVersionsState \<Rightarrow> bool" where
  "versions_le r r' \<longleftrightarrow>
     (\<forall>i v. resourcesVersions r i = Some v \<longrightarrow> (\<exists>v' \<ge> v. resourcesVersions r' i = Some v'))"

lemma versions_le_refl: "versions_le r r"
  by (auto simp: versions_le_def)

lemma versions_le_trans: "versions_le a b \<Longrightarrow> versions_le b c \<Longrightarrow> versions_le a c"
  unfolding versions_le_def by (meson order_trans)

lemma Set_versions_le: "ResourcesVersionsState_Set r i s = Inr r' \<Longrightarrow> versions_le r r'"
  by (auto simp: ResourcesVersionsState_Set_def versions_le_def Let_def
      split: sum.splits option.splits if_splits)

text \<open>The watcher's client: record the versions of a list of events, as decimal strings.\<close>

definition record_versions ::
  "ResourceTypeIdentifier \<Rightarrow> nat list \<Rightarrow> goerr + ResourcesVersionsState \<Rightarrow>
   goerr + ResourcesVersionsState" where
  "record_versions i ns r =
     foldl (\<lambda>r n. case r of Inl e \<Rightarrow> Inl e | Inr rs \<Rightarrow> ResourcesVersionsState_Set rs i (show_nat n)) r ns"

lemma Set_show_nat:
  assumes "n < 2 ^ 64"
  shows "\<exists>r'. ResourcesVersionsState_Set r i (show_nat n) = Inr r' \<and>
    resourcesVersions r' = (resourcesVersions r)(i \<mapsto>
      (case resourcesVersions r i of None \<Rightarrow> word_of_nat n | Some c \<Rightarrow> max c (word_of_nat n)))"
  by (auto simp: ResourcesVersionsState_Set_def parse_show_uint[OF assms] Let_def max_def not_less
      split: option.splits)

lemma word_max_of_nat:
  "a < 2 ^ 64 \<Longrightarrow> b < 2 ^ 64 \<Longrightarrow>
     max (word_of_nat a :: 64 word) (word_of_nat b) = word_of_nat (max a b)"
  by (simp add: max_def word_le_nat_alt unat_of_nat take_bit_nat_eq_self_iff)

lemma record_versions_max:
  assumes "\<forall>n \<in> set ns. n < 2 ^ 64" "m < 2 ^ 64" "resourcesVersions r i = Some (word_of_nat m)"
  shows "\<exists>r'. record_versions i ns (Inr r) = Inr r' \<and>
    resourcesVersions r' = (resourcesVersions r)(i \<mapsto> word_of_nat (fold max ns m))"
  using assms
proof (induction ns arbitrary: m r)
  case Nil
  then show ?case by (auto simp: record_versions_def fun_eq_iff)
next
  case (Cons n ns)
  from Cons.prems obtain r1 where r1: "ResourcesVersionsState_Set r i (show_nat n) = Inr r1"
    "resourcesVersions r1 = (resourcesVersions r)(i \<mapsto> word_of_nat (max m n))"
    using Set_show_nat[of n r i] by (auto simp: word_max_of_nat)
  have "max m n < 2 ^ 64" using Cons.prems by simp
  with Cons.IH[of "max m n" r1] Cons.prems r1 show ?case
    by (auto simp: record_versions_def max.commute fun_eq_iff)
qed

text \<open>
  The recorded resource version is the highest one seen.  Whatever the order in which the
  versions arrive, \<^verbatim>\<open>Get\<close> answers the decimal text of their maximum and leaves the other resource
  types alone.
\<close>

theorem resource_version_is_maximum:
  assumes "\<forall>n \<in> set ns. n < 2 ^ 64" "ns \<noteq> []"
  shows "\<exists>r. record_versions i ns (Inr newResourcesVersionsState) = Inr r
    \<and> ResourcesVersionsState_Get r i = (show_nat (Max (set ns)), True)
    \<and> (\<forall>j. j \<noteq> i \<longrightarrow> ResourcesVersionsState_Get r j = (''0'', False))"
proof -
  obtain m ms where ns: "ns = m # ms" using assms(2) by (cases ns) auto
  obtain r0 where r0: "ResourcesVersionsState_Set newResourcesVersionsState i (show_nat m) = Inr r0"
    "resourcesVersions r0 = [i \<mapsto> word_of_nat m]"
    using Set_show_nat[of m newResourcesVersionsState i] assms ns
    by (auto simp: newResourcesVersionsState_def)
  from record_versions_max[of ms m r0 i] r0 assms ns obtain r where
    r: "record_versions i ms (Inr r0) = Inr r"
       "resourcesVersions r = [i \<mapsto> word_of_nat (fold max ms m)]" by auto
  have max: "fold max ms m = Max (set ns)" by (simp add: ns Max.set_eq_fold[symmetric] del: Max.set_eq_fold)
  have "Max (set ns) < 2 ^ 64" using assms by (auto simp: Max_less_iff)
  then show ?thesis
    using r0 r max by (intro exI[of _ r])
      (auto simp: record_versions_def ns ResourcesVersionsState_Get_def unat_of_nat take_bit_nat_eq_self)
qed

theorem resource_version_is_maximum_witness:
  "\<exists>r. record_versions \<lparr>rt_ObjectKind = ''Pod'', rt_APIGroup = []\<rparr> [3, 12, 7]
      (Inr newResourcesVersionsState) = Inr r
    \<and> ResourcesVersionsState_Get r \<lparr>rt_ObjectKind = ''Pod'', rt_APIGroup = []\<rparr> = (show_nat 12, True)"
  using resource_version_is_maximum[of "[3, 12, 7]" "\<lparr>rt_ObjectKind = ''Pod'', rt_APIGroup = []\<rparr>"]
  by auto

end
