(* ===== verification/Api_Validation.thy ===== *)
theory Api_Validation
  imports Api_Types Errors_Pkg
begin

text \<open>
  The configuration validator, \<^verbatim>\<open>clusterloader2/api/validation.go\<close>.  A field error of the
  Kubernetes \<^verbatim>\<open>field\<close> package is its kind, its path and its detail; the offending value is not
  kept.  The record \<open>venv\<close> holds what the validator reads of its surroundings: its directory, the
  working directory, whether \<^verbatim>\<open>os.Stat\<close> of a path says that it does not exist,
  \<^verbatim>\<open>validation.IsDNS1123Subdomain\<close> and the two tables of registered methods.
\<close>

section \<open>Field errors\<close>

datatype path_elem = Child string | Index nat

type_synonym path = "path_elem list"

datatype field_error =
    Invalid path string
  | Required path string
  | Forbidden path string

type_synonym field_errors = "field_error list"

record ConfigValidator =
  v_configDir :: string
  v_config :: Config

record venv =
  v_cwd :: string
  v_notExist :: "string \<Rightarrow> bool"
  v_dns1123 :: "string \<Rightarrow> string list"
  v_measurements :: "string \<Rightarrow> bool"
  v_dependencies :: "string \<Rightarrow> bool"

definition NewConfigValidator :: "string \<Rightarrow> Config \<Rightarrow> ConfigValidator" where
  "NewConfigValidator configDir config = \<lparr>v_configDir = configDir, v_config = config\<rparr>"

section \<open>Validation of the parts\<close>

definition validateNamespace :: "NamespaceConfig \<Rightarrow> path \<Rightarrow> field_errors" where
  "validateNamespace ns fldPath =
     (if nc_Number ns \<le> 0 then [Invalid (fldPath @ [Child ''number'']) ''must be positive''] else [])"

definition fileExists :: "venv \<Rightarrow> ConfigValidator \<Rightarrow> string \<Rightarrow> bool" where
  "fileExists env v p =
     (let rel = v_cwd env @ ''/'' @ v_configDir v @ ''/'' @ p;
          err = v_notExist env rel;
          err' = (if err then v_notExist env (v_configDir v @ ''/'' @ p) else err)
      in \<not> err')"

definition validateNamespaceRange :: "NamespaceRange \<Rightarrow> path \<Rightarrow> field_errors" where
  "validateNamespaceRange nr fldPath =
     (if nr_Min nr < 0 then [Invalid (fldPath @ [Child ''min'']) ''must be non-negative''] else []) @
     (if nr_Max nr < nr_Min nr
      then [Invalid (fldPath @ [Child ''max'']) ''must be greater than min''] else [])"

definition validateObject :: "venv \<Rightarrow> ConfigValidator \<Rightarrow> Object \<Rightarrow> path \<Rightarrow> field_errors" where
  "validateObject env v ob fldPath =
     map (\<lambda>e. Invalid (fldPath @ [Child ''basename'']) e) (v_dns1123 env (ob_Basename ob)) @
     (if \<not> fileExists env v (ob_ObjectTemplatePath ob)
      then [Invalid (fldPath @ [Child ''objectTemplatePath'']) ''file must exist''] else [])"

definition validatePhase :: "venv \<Rightarrow> ConfigValidator \<Rightarrow> Phase \<Rightarrow> path \<Rightarrow> field_errors" where
  "validatePhase env v p fldPath =
     (if ph_NamespaceList p \<noteq> None \<and> ph_NamespaceRange p \<noteq> None
      then [Forbidden fldPath ''must specify at most 1 of namespaceList and namespaceRange''] else []) @
     (case ph_NamespaceRange p of
        None \<Rightarrow> []
      | Some nr \<Rightarrow> validateNamespaceRange nr (fldPath @ [Child ''namespaceRange''])) @
     (if ph_ReplicasPerNamespace p < 0
      then [Invalid (fldPath @ [Child ''replicasPerNamespace'']) ''must be non-negative''] else []) @
     concat_mapi (\<lambda>i ob. validateObject env v ob (fldPath @ [Child ''objectBundle'', Index i]))
       (ph_ObjectBundle p)"

definition validateMeasurementMethod :: "venv \<Rightarrow> string \<Rightarrow> path \<Rightarrow> field_errors" where
  "validateMeasurementMethod env meth fldPath =
     (if meth = [] then [Required fldPath ''method is required''] else []) @
     (if \<not> v_measurements env meth
      then [Invalid fldPath ''measurement method is not registered''] else [])"

definition validateMeasurement :: "venv \<Rightarrow> Measurement \<Rightarrow> path \<Rightarrow> field_errors" where
  "validateMeasurement env m fldPath =
     (if length (me_Instances m) \<noteq> 0 \<and> me_Identifier m \<noteq> []
      then [Invalid (fldPath @ [Child ''Identifier''])
              '' cannot be non empty when Instances specified''] else []) @
     (if length (me_Instances m) = 0 \<and> me_Identifier m = []
      then [Invalid (fldPath @ [Child ''Identifier'']) '' and Instances cannot be both empty''] else []) @
     validateMeasurementMethod env (me_Method m) (fldPath @ [Child ''method''])"

definition validateStep :: "venv \<Rightarrow> ConfigValidator \<Rightarrow> Step \<Rightarrow> path \<Rightarrow> field_errors" where
  "validateStep env v s fldPath =
     (let isPhasesEmpty = (length (st_Phases s) = 0);
          isMeasurementsEmpty = (length (st_Measurements s) = 0)
      in concat_mapi (\<lambda>i p. validatePhase env v p (fldPath @ [Child ''phases'', Index i])) (st_Phases s) @
         concat_mapi (\<lambda>i m. validateMeasurement env m (fldPath @ [Child ''measurements'', Index i]))
           (st_Measurements s) @
         (if isPhasesEmpty \<and> isMeasurementsEmpty
          then [Invalid (fldPath @ [Child ''measurements'']) ''can't be empty with empty phases''] else []) @
         (if \<not> isPhasesEmpty \<and> \<not> isMeasurementsEmpty
          then [Invalid (fldPath @ [Child ''measurements''])
                  ''can't be non-empty with non-empty phases''] else []))"

fun tuning_set_found :: "string \<Rightarrow> TuningSet list \<Rightarrow> bool" where
  "tuning_set_found name [] = False"
| "tuning_set_found name (t # ts) = (if name = tu_Name t then True else tuning_set_found name ts)"

definition validateTuningSetInPhase :: "Step \<Rightarrow> TuningSet list \<Rightarrow> path \<Rightarrow> field_errors" where
  "validateTuningSetInPhase s ts fldPath =
     concat_mapi (\<lambda>i p.
       if ph_TuningSet p \<noteq> []
       then if tuning_set_found (ph_TuningSet p) ts = False
            then [Invalid (fldPath @ [Child ''phases'', Index i, Child ''tuningSet''])
                    ''tuning set referenced has not been declared'']
            else []
       else []) (st_Phases s)"

definition handleTuningSetInPhase :: "ConfigValidator \<Rightarrow> field_errors" where
  "handleTuningSetInPhase v =
     concat_mapi (\<lambda>i s. validateTuningSetInPhase s (co_TuningSets (v_config v)) [Child ''steps'', Index i])
       (co_Steps (v_config v))"

section \<open>Validation of the loads\<close>

definition positive_field :: "bool \<Rightarrow> path \<Rightarrow> string \<Rightarrow> field_errors" where
  "positive_field nonpos fldPath name =
     (if nonpos then [Invalid (fldPath @ [Child name]) ''must have positive value''] else [])"

definition validateQPSLoad :: "QPSLoad \<Rightarrow> path \<Rightarrow> field_errors" where
  "validateQPSLoad ql fldPath = positive_field (ql_QPS ql \<le> 0) fldPath ''qps''"

definition validateRandomizedLoad :: "RandomizedLoad \<Rightarrow> path \<Rightarrow> field_errors" where
  "validateRandomizedLoad rl fldPath = positive_field (rl_AverageQPS rl \<le> 0) fldPath ''averageQps''"

definition validateSteppedLoad :: "SteppedLoad \<Rightarrow> path \<Rightarrow> field_errors" where
  "validateSteppedLoad sl fldPath = positive_field (sl_BurstSize sl \<le> 0) fldPath ''burstSize''"

definition validateTimeLimitedLoad :: "TimeLimitedLoad \<Rightarrow> path \<Rightarrow> field_errors" where
  "validateTimeLimitedLoad tll fldPath = positive_field (tl_TimeLimit tll \<le> 0) fldPath ''timeLimit''"

definition validateRandomizedTimeLimitedLoad ::
  "RandomizedTimeLimitedLoad \<Rightarrow> path \<Rightarrow> field_errors" where
  "validateRandomizedTimeLimitedLoad rtl fldPath =
     positive_field (rt_TimeLimit rtl \<le> 0) fldPath ''timeLimit''"

definition validateParallelismTimeLimitedLoad ::
  "ParallelismLimitedLoad \<Rightarrow> path \<Rightarrow> field_errors" where
  "validateParallelismTimeLimitedLoad ptl fldPath =
     positive_field (pa_ParallelismLimit ptl \<le> 0) fldPath ''parallelismLimit''"

definition validateGlobalQPSLoad :: "GlobalQPSLoad \<Rightarrow> path \<Rightarrow> field_errors" where
  "validateGlobalQPSLoad gl fldPath =
     positive_field (gl_QPS gl \<le> 0) fldPath ''qps'' @
     positive_field (gl_Burst gl \<le> 0) fldPath ''burst''"

definition validatePoissonLoad :: "PoissonLoad \<Rightarrow> path \<Rightarrow> field_errors" where
  "validatePoissonLoad rl fldPath =
     positive_field (pl_ExpectedActionsPerSecond rl \<le> 0) fldPath ''expectedActionsPerSecond''"

text \<open>One branch \<^verbatim>\<open>if ts.XLoad != nil\<close>: the count and the errors it adds.\<close>

definition load_branch ::
  "'l option \<Rightarrow> ('l \<Rightarrow> path \<Rightarrow> field_errors) \<Rightarrow> path \<Rightarrow> string \<Rightarrow> nat \<times> field_errors" where
  "load_branch l validate fldPath name =
     (case l of None \<Rightarrow> (0, []) | Some x \<Rightarrow> (1, validate x (fldPath @ [Child name])))"

definition validateTuningSet :: "TuningSet \<Rightarrow> path \<Rightarrow> field_errors" where
  "validateTuningSet ts fldPath =
     (let branches =
            [load_branch (tu_QPSLoad ts) validateQPSLoad fldPath ''qpsLoad'',
             load_branch (tu_RandomizedLoad ts) validateRandomizedLoad fldPath ''randomizedLoad'',
             load_branch (tu_SteppedLoad ts) validateSteppedLoad fldPath ''steppedLoad'',
             load_branch (tu_TimeLimitedLoad ts) validateTimeLimitedLoad fldPath ''timeLimitedLoad'',
             load_branch (tu_RandomizedTimeLimitedLoad ts) validateRandomizedTimeLimitedLoad fldPath
               ''randomizedTimeLimitedLoad'',
             load_branch (tu_ParallelismLimitedLoad ts) validateParallelismTimeLimitedLoad fldPath
               ''parallelismLimitedLoad'',
             load_branch (tu_GlobalQPSLoad ts) validateGlobalQPSLoad fldPath ''globalQPSLoad'',
             load_branch (tu_PoissonLoad ts) validatePoissonLoad fldPath ''poissonLoad''];
          tuningSetsNumber = sum_list (map fst branches)
      in concat (map snd branches) @
         (if tuningSetsNumber \<noteq> 1
          then [Forbidden fldPath ''must specify exactly 1 tuning set type''] else []))"

section \<open>Validation of dependencies and of the whole configuration\<close>

definition validateDependencyMethod :: "venv \<Rightarrow> string \<Rightarrow> path \<Rightarrow> field_errors" where
  "validateDependencyMethod env meth fldPath =
     (if meth = [] then [Required fldPath ''method is required''] else []) @
     (if \<not> v_dependencies env meth
      then [Invalid fldPath ''dependency method is not registered''] else [])"

definition validateDependency :: "venv \<Rightarrow> Dependency \<Rightarrow> path \<Rightarrow> field_errors" where
  "validateDependency env d fldPath =
     (if de_Name d = [] then [Required (fldPath @ [Child ''name'']) ''name is required''] else []) @
     (if de_Timeout d < 0
      then [Invalid (fldPath @ [Child ''timeout'']) ''timeout cannot be negative''] else []) @
     validateDependencyMethod env (de_Method d) (fldPath @ [Child ''method''])"

definition toErrorList :: "(field_error \<Rightarrow> goerr) \<Rightarrow> field_errors \<Rightarrow> ErrorList" where
  "toErrorList render fldErrors =
     fold (\<lambda>fldError errList. Append errList [render fldError]) fldErrors (NewErrorList [])"

definition validate_all :: "venv \<Rightarrow> ConfigValidator \<Rightarrow> field_errors" where
  "validate_all env v =
     (let c = v_config v in
      (if co_AutomanagedNamespaces c < 0
       then [Invalid [Child ''automanagedNamespaces''] ''must be non-negative''] else []) @
      validateNamespace (co_Namespace c) [Child ''namespace''] @
      concat_mapi (\<lambda>i d. validateDependency env d [Child ''dependencies'', Index i]) (co_Dependencies c) @
      concat_mapi (\<lambda>i t. validateTuningSet t [Child ''tuningSets'', Index i]) (co_TuningSets c) @
      (if length (co_Steps c) = 0 then [Invalid [Child ''steps''] ''cannot be empty''] else []) @
      concat_mapi (\<lambda>i s. validateStep env v s [Child ''steps'', Index i]) (co_Steps c) @
      handleTuningSetInPhase v)"

definition Validate :: "(field_error \<Rightarrow> goerr) \<Rightarrow> venv \<Rightarrow> ConfigValidator \<Rightarrow> ErrorList option" where
  "Validate render env v =
     (let allErrs = validate_all env v in
      if length allErrs = 0 then None else Some (toErrorList render allErrs))"

section \<open>What a valid configuration is\<close>

text \<open>The declarative reading of the validator, with no paths and no order of the checks.\<close>

definition object_valid :: "venv \<Rightarrow> ConfigValidator \<Rightarrow> Object \<Rightarrow> bool" where
  "object_valid env v ob \<longleftrightarrow>
     v_dns1123 env (ob_Basename ob) = [] \<and>
     (\<exists>prefix \<in> {v_cwd env @ ''/'', []}.
        \<not> v_notExist env (prefix @ v_configDir v @ ''/'' @ ob_ObjectTemplatePath ob))"

definition phase_valid :: "venv \<Rightarrow> ConfigValidator \<Rightarrow> Phase \<Rightarrow> bool" where
  "phase_valid env v p \<longleftrightarrow>
     (ph_NamespaceList p = None \<or> ph_NamespaceRange p = None) \<and>
     (\<forall>nr. ph_NamespaceRange p = Some nr \<longrightarrow> 0 \<le> nr_Min nr \<and> nr_Min nr \<le> nr_Max nr) \<and>
     0 \<le> ph_ReplicasPerNamespace p \<and>
     (\<forall>ob \<in> set (ph_ObjectBundle p). object_valid env v ob)"

definition measurement_valid :: "venv \<Rightarrow> Measurement \<Rightarrow> bool" where
  "measurement_valid env m \<longleftrightarrow>
     (me_Instances m = [] \<longleftrightarrow> me_Identifier m \<noteq> []) \<and>
     me_Method m \<noteq> [] \<and> v_measurements env (me_Method m)"

definition step_valid :: "venv \<Rightarrow> ConfigValidator \<Rightarrow> Step \<Rightarrow> bool" where
  "step_valid env v s \<longleftrightarrow>
     (st_Phases s = [] \<longleftrightarrow> st_Measurements s \<noteq> []) \<and>
     (\<forall>p \<in> set (st_Phases s). phase_valid env v p) \<and>
     (\<forall>m \<in> set (st_Measurements s). measurement_valid env m)"

text \<open>For every load of a tuning set, whether its parameters are positive.\<close>

definition loads_of :: "TuningSet \<Rightarrow> bool list" where
  "loads_of ts =
     (case tu_QPSLoad ts of None \<Rightarrow> [] | Some l \<Rightarrow> [0 < ql_QPS l]) @
     (case tu_RandomizedLoad ts of None \<Rightarrow> [] | Some l \<Rightarrow> [0 < rl_AverageQPS l]) @
     (case tu_SteppedLoad ts of None \<Rightarrow> [] | Some l \<Rightarrow> [0 < sl_BurstSize l]) @
     (case tu_TimeLimitedLoad ts of None \<Rightarrow> [] | Some l \<Rightarrow> [0 < tl_TimeLimit l]) @
     (case tu_RandomizedTimeLimitedLoad ts of None \<Rightarrow> [] | Some l \<Rightarrow> [0 < rt_TimeLimit l]) @
     (case tu_ParallelismLimitedLoad ts of None \<Rightarrow> [] | Some l \<Rightarrow> [0 < pa_ParallelismLimit l]) @
     (case tu_GlobalQPSLoad ts of None \<Rightarrow> [] | Some l \<Rightarrow> [0 < gl_QPS l \<and> 0 < gl_Burst l]) @
     (case tu_PoissonLoad ts of None \<Rightarrow> [] | Some l \<Rightarrow> [0 < pl_ExpectedActionsPerSecond l])"

definition tuning_valid :: "TuningSet \<Rightarrow> bool" where
  "tuning_valid ts \<longleftrightarrow> loads_of ts = [True]"

definition dependency_valid :: "venv \<Rightarrow> Dependency \<Rightarrow> bool" where
  "dependency_valid env d \<longleftrightarrow>
     de_Name d \<noteq> [] \<and> 0 \<le> de_Timeout d \<and> de_Method d \<noteq> [] \<and> v_dependencies env (de_Method d)"

definition tuning_declared :: "Config \<Rightarrow> Phase \<Rightarrow> bool" where
  "tuning_declared c p \<longleftrightarrow>
     ph_TuningSet p = [] \<or> ph_TuningSet p \<in> tu_Name ` set (co_TuningSets c)"

definition config_valid :: "venv \<Rightarrow> ConfigValidator \<Rightarrow> bool" where
  "config_valid env v \<longleftrightarrow> (let c = v_config v in
     0 \<le> co_AutomanagedNamespaces c \<and> 0 < nc_Number (co_Namespace c) \<and>
     (\<forall>d \<in> set (co_Dependencies c). dependency_valid env d) \<and>
     (\<forall>t \<in> set (co_TuningSets c). tuning_valid t) \<and>
     co_Steps c \<noteq> [] \<and>
     (\<forall>s \<in> set (co_Steps c). step_valid env v s \<and> (\<forall>p \<in> set (st_Phases s). tuning_declared c p)))"

section \<open>The validator decides validity\<close>

lemma if_Nil_iff [simp]: "(if b then [x] else []) = [] \<longleftrightarrow> \<not> b"
  by simp

lemma fileExists_iff:
  "fileExists env v p \<longleftrightarrow>
     (\<exists>prefix \<in> {v_cwd env @ ''/'', []}. \<not> v_notExist env (prefix @ v_configDir v @ ''/'' @ p))"
  by (simp add: fileExists_def Let_def)

lemma validateObject_ok [simp]:
  "validateObject env v ob fp = [] \<longleftrightarrow> object_valid env v ob"
  by (simp add: validateObject_def object_valid_def fileExists_iff)

lemma validateNamespaceRange_ok:
  "validateNamespaceRange nr fp = [] \<longleftrightarrow> 0 \<le> nr_Min nr \<and> nr_Min nr \<le> nr_Max nr"
  by (auto simp: validateNamespaceRange_def)

lemma validatePhase_ok [simp]: "validatePhase env v p fp = [] \<longleftrightarrow> phase_valid env v p"
  by (auto simp: validatePhase_def phase_valid_def validateNamespaceRange_ok concat_mapi_Nil_iff
      Ball_set_nth split: option.splits)

lemma validateMeasurement_ok [simp]:
  "validateMeasurement env m fp = [] \<longleftrightarrow> measurement_valid env m"
  by (auto simp: validateMeasurement_def validateMeasurementMethod_def measurement_valid_def)

lemma validateStep_ok [simp]: "validateStep env v s fp = [] \<longleftrightarrow> step_valid env v s"
  by (auto simp: validateStep_def step_valid_def concat_mapi_Nil_iff Ball_set_nth Let_def)

lemma positive_field_ok [simp]: "positive_field b fp n = [] \<longleftrightarrow> \<not> b"
  by (simp add: positive_field_def)

lemmas load_validators = validateQPSLoad_def validateRandomizedLoad_def validateSteppedLoad_def
  validateTimeLimitedLoad_def validateRandomizedTimeLimitedLoad_def
  validateParallelismTimeLimitedLoad_def validateGlobalQPSLoad_def validatePoissonLoad_def

lemma singleton_True_iff: "bs = [True] \<longleftrightarrow> (\<forall>b \<in> set bs. b) \<and> length bs = 1"
  by (cases bs) auto

lemma validateTuningSet_ok [simp]: "validateTuningSet ts fp = [] \<longleftrightarrow> tuning_valid ts"
  unfolding tuning_valid_def singleton_True_iff loads_of_def validateTuningSet_def Let_def
  by (auto simp: load_branch_def load_validators not_le split: option.splits)

lemma validateDependency_ok [simp]: "validateDependency env d fp = [] \<longleftrightarrow> dependency_valid env d"
  by (auto simp: validateDependency_def validateDependencyMethod_def dependency_valid_def)

lemma tuning_set_found_iff [simp]: "tuning_set_found n ts \<longleftrightarrow> n \<in> tu_Name ` set ts"
  by (induction ts) auto

lemma validateTuningSetInPhase_ok [simp]:
  "validateTuningSetInPhase s (co_TuningSets c) fp = [] \<longleftrightarrow>
     (\<forall>p \<in> set (st_Phases s). tuning_declared c p)"
  by (auto simp: validateTuningSetInPhase_def tuning_declared_def concat_mapi_Nil_iff Ball_set_nth)

lemma validate_all_ok: "validate_all env v = [] \<longleftrightarrow> config_valid env v"
  unfolding validate_all_def config_valid_def Let_def handleTuningSetInPhase_def
  by (auto simp: concat_mapi_Nil_iff Ball_set_nth validateNamespace_def)

lemma toErrorList_errors: "el_errors (toErrorList render es) = map render es"
proof -
  have "el_errors (fold (\<lambda>f l. Append l [render f]) es l) = el_errors l @ map render es" for l
    by (induction es arbitrary: l) auto
  then show ?thesis by (simp add: toErrorList_def)
qed


end
