(* ===== verification/Go_Float.thy ===== *)
theory Go_Float
  imports Go_Prelude "HOL-Library.Log_Nat"
begin

text \<open>
  \<^verbatim>\<open>float64\<close> arithmetic.  A finite \<^verbatim>\<open>float64\<close> is the rational number it denotes, and the result of
  an operation is the exact result rounded to a significand of 53 bits, ties to even
  (\<open>fl\<close>).  The exponent range is not limited, so overflow to infinity and gradual underflow are
  outside the model: the quantities of the program (numbers of samples and nodes, rates,
  nanoseconds) lie far inside the range of normal numbers.
\<close>

section \<open>Rounding\<close>

definition round_half_even :: "rat \<Rightarrow> int" where
  "round_half_even x =
     (let f = \<lfloor>x\<rfloor>; r = x - of_int f
      in if r < 1 / 2 then f else if r > 1 / 2 then f + 1 else if even f then f else f + 1)"

text \<open>The exponent \<open>e\<close> with \<open>2 ^ e \<le> q < 2 ^ (e + 1)\<close>, for positive \<open>q\<close>.\<close>

definition exponent :: "rat \<Rightarrow> int" where
  "exponent q =
     (let (n, d) = quotient_of q;
          e = int (floorlog 2 (nat n)) - int (floorlog 2 (nat d))
      in if q < 2 powi e then e - 1 else e)"

definition fl_pos :: "rat \<Rightarrow> rat" where
  "fl_pos q = (let u = 2 powi (exponent q - 52) in of_int (round_half_even (q / u)) * u)"

definition fl :: "rat \<Rightarrow> rat" where
  "fl q = (if q = 0 then 0 else if q < 0 then - fl_pos (- q) else fl_pos q)"

lemma round_half_even_err: "\<bar>of_int (round_half_even x) - x\<bar> \<le> 1 / 2"
proof -
  have "of_int \<lfloor>x\<rfloor> \<le> x" "x < of_int \<lfloor>x\<rfloor> + 1" by linarith+
  then show ?thesis
    by (auto simp: round_half_even_def Let_def)
qed

lemma round_half_even_int [simp]: "round_half_even (of_int n) = n"
  by (simp add: round_half_even_def Let_def)

lemma powi_2_pos [simp]: "0 < (2 :: rat) powi e"
  by (simp add: zero_less_power_int)

lemma floorlog_powi:
  assumes "0 < m"
  shows "(2 :: rat) powi (int (floorlog 2 (nat m)) - 1) \<le> of_int m"
    and "(of_int m :: rat) < 2 powi (int (floorlog 2 (nat m)))"
proof -
  have m: "nat m > 0" using assms by simp
  then obtain k where k: "floorlog 2 (nat m) = Suc k"
    using floorlog_eq_zero_iff[of 2 "nat m"] by (cases "floorlog 2 (nat m)") auto
  have "2 ^ k \<le> nat m" "nat m < 2 ^ Suc k"
    using floorlog_bounds[OF m, of 2] k by auto
  then have "(2 :: int) ^ k \<le> m" "m < 2 ^ Suc k"
    using assms by (auto simp: nat_less_iff le_nat_iff)
  then have "(2 :: rat) ^ k \<le> of_int m" "(of_int m :: rat) < 2 ^ Suc k"
    by (metis of_int_le_iff of_int_power of_int_numeral,
        metis of_int_less_iff of_int_power of_int_numeral)
  moreover have "(2 :: rat) powi (int (floorlog 2 (nat m)) - 1) = 2 ^ k"
    "(2 :: rat) powi (int (floorlog 2 (nat m))) = 2 ^ Suc k"
    by (simp_all add: k power_int_def nat_add_distrib)
  ultimately show "(2 :: rat) powi (int (floorlog 2 (nat m)) - 1) \<le> of_int m"
    "(of_int m :: rat) < 2 powi (int (floorlog 2 (nat m)))"
    by simp_all
qed

lemma exponent_bounds:
  assumes "0 < q"
  shows "2 powi exponent q \<le> q" and "q < 2 powi (exponent q + 1)"
proof -
  obtain n d where nd: "quotient_of q = (n, d)" by (cases "quotient_of q")
  have d: "0 < d" and q: "q = of_int n / of_int d"
    using nd quotient_of_denom_pos quotient_of_div by blast+
  have n: "0 < n" using assms q d by (simp add: zero_less_divide_iff)
  define a b where "a = int (floorlog 2 (nat n))" and "b = int (floorlog 2 (nat d))"
  have na: "(2 :: rat) powi (a - 1) \<le> of_int n" "(of_int n :: rat) < 2 powi a"
    and db: "(2 :: rat) powi (b - 1) \<le> of_int d" "(of_int d :: rat) < 2 powi b"
    using floorlog_powi[OF n] floorlog_powi[OF d] by (simp_all add: a_def b_def)
  have "2 powi (a - 1 - b) = 2 powi (a - 1) / (2 :: rat) powi b"
    by (simp add: power_int_diff)
  also have "\<dots> \<le> q" unfolding q
    by (rule frac_le) (use na db n d in auto)
  finally have lo: "2 powi (a - b - 1) \<le> q" by (simp add: algebra_simps)
  have "q < 2 powi a / 2 powi (b - 1)" unfolding q
    by (rule frac_less) (use na db n d in auto)
  also have "\<dots> = 2 powi (a - b + 1)"
    by (simp add: power_int_diff power_int_add)
  finally have hi: "q < 2 powi (a - b + 1)" .
  have e: "exponent q = (if q < 2 powi (a - b) then a - b - 1 else a - b)"
    by (simp add: exponent_def nd a_def b_def Let_def)
  show "2 powi exponent q \<le> q" "q < 2 powi (exponent q + 1)"
    using lo hi by (auto simp: e)
qed

lemma fl_pos_err: "0 < q \<Longrightarrow> \<bar>fl_pos q - q\<bar> \<le> q / 2 ^ 53"
proof -
  assume q: "0 < q"
  define u :: rat where "u = 2 powi (exponent q - 52)"
  have u: "0 < u" by (simp add: u_def)
  have "fl_pos q - q = (of_int (round_half_even (q / u)) - q / u) * u"
    using u by (simp add: fl_pos_def u_def Let_def algebra_simps)
  then have "\<bar>fl_pos q - q\<bar> = \<bar>of_int (round_half_even (q / u)) - q / u\<bar> * u"
    using u by (simp add: abs_mult)
  also have "\<dots> \<le> 1 / 2 * u"
    using round_half_even_err[of "q / u"] u by (intro mult_right_mono) auto
  also have "\<dots> = 2 powi exponent q / 2 ^ 53"
    by (simp add: u_def power_int_diff)
  also have "\<dots> \<le> q / 2 ^ 53"
    using exponent_bounds(1)[OF q] by (simp add: divide_right_mono)
  finally show ?thesis .
qed

lemma fl_pos_int:
  assumes "0 < n" "n \<le> 2 ^ 53"
  shows "fl_pos (of_int n) = of_int n"
proof -
  let ?q = "of_int n :: rat"
  define e where "e = exponent ?q"
  have lo: "2 powi e \<le> ?q" using exponent_bounds(1)[of ?q] assms by (simp add: e_def)
  have hi: "?q < 2 powi (e + 1)" using exponent_bounds(2)[of ?q] assms by (simp add: e_def)
  define u :: rat where "u = 2 powi (e - 52)"
  have "\<exists>m. ?q / u = of_int m"
  proof (cases "e \<le> 52")
    case True
    then have "?q / u = ?q * 2 ^ nat (52 - e)"
      by (simp add: u_def power_int_def divide_simps)
    then show ?thesis by (metis of_int_mult of_int_numeral of_int_power)
  next
    case False
    have "(2 :: rat) powi 53 \<le> 2 powi e" using False by (intro power_int_increasing) auto
    moreover have "?q \<le> 2 ^ 53"
      using assms(2) by (metis of_int_le_iff of_int_numeral of_int_power)
    moreover have "(2 :: rat) powi 53 = 2 ^ 53" by (simp add: power_int_def)
    ultimately have eq: "?q = 2 powi 53" and ee: "(2 :: rat) powi e = 2 powi 53"
      using lo by linarith+
    have "e = 53"
    proof (rule ccontr)
      assume "e \<noteq> 53"
      with False have "(2 :: rat) powi 53 < 2 powi e"
        by (intro power_int_strict_increasing) auto
      with ee show False by simp
    qed
    then have "?q / u = of_int (2 ^ 52)"
      unfolding eq u_def by (simp add: power_int_def)
    then show ?thesis by blast
  qed
  then obtain m where m: "?q / u = of_int m" by blast
  have u: "u \<noteq> 0" by (simp add: u_def)
  have "fl_pos ?q = of_int (round_half_even (?q / u)) * u"
    by (simp add: fl_pos_def u_def e_def Let_def)
  also have "\<dots> = ?q / u * u" by (simp add: m)
  finally show ?thesis using u by simp
qed

section \<open>What the program relies on\<close>

text \<open>
  The documented accuracy of a correctly rounded operation: the relative error is at most
  \<open>2 ^ -53\<close>, and integers up to \<open>2 ^ 53\<close> are exact.
\<close>

locale rounding =
  fixes rnd :: "rat \<Rightarrow> rat"
  assumes rnd_err: "\<bar>rnd q - q\<bar> \<le> \<bar>q\<bar> / 2 ^ 53"
    and rnd_int: "\<bar>n\<bar> \<le> 2 ^ 53 \<Longrightarrow> rnd (of_int n) = of_int n"
begin

lemma rnd_nonneg: "0 \<le> q \<Longrightarrow> 0 \<le> rnd q"
proof -
  assume q: "0 \<le> q"
  have "q / 2 ^ 53 \<le> q" using q by simp
  with rnd_err[of q] q show ?thesis by linarith
qed

text \<open>
  A quotient of naturals below \<open>2 ^ 53\<close> that is no integer is further from every integer than the
  rounding error.
\<close>

lemma rnd_quotient_floor:
  fixes x k :: nat
  assumes "0 < k" "x < 2 ^ 53"
  shows "\<lfloor>rnd (of_nat x / of_nat k)\<rfloor> = int (x div k)"
    and "\<lceil>rnd (of_nat x / of_nat k)\<rceil> = int (x div k) + (if k dvd x then 0 else 1)"
proof -
  let ?q = "of_nat x / of_nat k :: rat"
  have qm: "?q = of_nat (x div k) + of_nat (x mod k) / of_nat k"
    using assms(1) by (simp add: field_simps flip: of_nat_mult of_nat_add)
  have *: "\<lfloor>rnd ?q\<rfloor> = int (x div k) \<and>
           \<lceil>rnd ?q\<rceil> = int (x div k) + (if k dvd x then 0 else 1)"
  proof (cases "k dvd x")
    case True
    then have q: "?q = of_int (int (x div k))"
      using qm by (simp add: dvd_eq_mod_eq_0)
    have "int (x div k) \<le> int x" "int x < 2 ^ 53"
      using assms(2) by (simp, metis of_nat_less_iff of_nat_numeral of_nat_power)
    then have "int (x div k) \<le> 2 ^ 53" by (rule order_trans[OF _ less_imp_le])
    then have "\<bar>int (x div k)\<bar> \<le> 2 ^ 53" by (simp only: abs_of_nat)
    then have "rnd ?q = of_int (int (x div k))" unfolding q by (rule rnd_int)
    with True show ?thesis by simp
  next
    case False
    have err: "\<bar>rnd ?q - ?q\<bar> < 1 / of_nat k"
    proof -
      have "of_nat x < (2 ^ 53 :: rat)"
        using assms(2) by (metis of_nat_less_iff of_nat_numeral of_nat_power)
      then have "?q / 2 ^ 53 < 1 / of_nat k"
        using assms(1) by (simp add: divide_simps)
      then show ?thesis using rnd_err[of ?q] by simp
    qed
    have m: "1 \<le> x mod k" "x mod k \<le> k - 1"
      using False assms(1) by (auto simp: dvd_eq_mod_eq_0 less_eq_Suc_le[symmetric] Suc_leI)
        (metis Suc_pred less_Suc_eq_le mod_less_divisor)
    then have lo: "1 / of_nat k \<le> (of_nat (x mod k) / of_nat k :: rat)"
      and hi: "(of_nat (x mod k) / of_nat k :: rat) \<le> 1 - 1 / of_nat k"
      using assms(1) by (auto simp: divide_simps of_nat_diff simp flip: of_nat_Suc)
    have "of_nat (x div k) < rnd ?q" "rnd ?q < of_nat (x div k) + 1"
      using err lo hi qm by linarith+
    then have "\<lfloor>rnd ?q\<rfloor> = int (x div k)" "\<lceil>rnd ?q\<rceil> = int (x div k) + 1"
      by (simp_all add: floor_eq_iff ceiling_eq_iff)
    with False show ?thesis by simp
  qed
  then show "\<lfloor>rnd ?q\<rfloor> = int (x div k)"
    "\<lceil>rnd ?q\<rceil> = int (x div k) + (if k dvd x then 0 else 1)"
    by blast+
qed

end

lemma fl_neg_cases: "fl (- q) = - fl q"
  by (simp add: fl_def)

interpretation go_fl: rounding fl
proof
  fix q :: rat
  have "\<bar>- fl_pos (- q) - q\<bar> = \<bar>fl_pos (- q) - (- q)\<bar>" by linarith
  then show "\<bar>fl q - q\<bar> \<le> \<bar>q\<bar> / 2 ^ 53"
    using fl_pos_err[of q] fl_pos_err[of "- q"] by (auto simp: fl_def)
next
  fix n :: int
  assume "\<bar>n\<bar> \<le> 2 ^ 53"
  then show "fl (of_int n) = of_int n"
    using fl_pos_int[of n] fl_pos_int[of "- n"] by (auto simp: fl_def)
qed

end
