(* ===== verification/Tuning_Sets.thy ===== *)
theory Tuning_Sets
  imports Api_Validation Go_Float
begin

text \<open>
  The package \<^verbatim>\<open>clusterloader2/pkg/tuningset\<close>: the eight load generators and the factory that
  builds them from a configuration.  \<^verbatim>\<open>Execute\<close> is the trace of what its goroutine does: \<open>Sleep d\<close>
  is \<^verbatim>\<open>time.Sleep(d)\<close>, \<open>Start d a\<close> starts a goroutine that sleeps for \<open>d\<close> and then runs the action
  \<open>a\<close>; the final \<^verbatim>\<open>wg.Wait()\<close> waits for every goroutine started.  A run that panics (division
  by a zero burst size) has no trace.

  Random numbers, the readings of the clock and the results of \<^verbatim>\<open>rate.Limiter.Wait\<close> and
  \<^verbatim>\<open>workqueue.ParallelizeUntil\<close> are in the environment \<open>tenv\<close>.
\<close>

section \<open>Traces\<close>

datatype 'a ev = Start duration 'a | Sleep duration

fun started :: "'a ev list \<Rightarrow> 'a list" where
  "started [] = []"
| "started (Start d a # es) = a # started es"
| "started (Sleep d # es) = started es"

text \<open>
  When each action runs, on a clock that moves only while the loop sleeps; a negative sleep
  returns at once.
\<close>

fun run_times :: "gotime \<Rightarrow> 'a ev list \<Rightarrow> gotime list" where
  "run_times t [] = []"
| "run_times t (Start d a # es) = (t + max 0 d) # run_times t es"
| "run_times t (Sleep d # es) = run_times (t + max 0 d) es"

abbreviation Second :: duration where "Second \<equiv> 1000000000"

section \<open>The environment\<close>

text \<open>
  \<open>e_float i\<close> and \<open>e_int63n i n\<close> are the \<open>i\<close>-th results of \<^verbatim>\<open>rand.Float64()\<close> and \<^verbatim>\<open>rand.Int63n(n)\<close>,
  \<open>e_log\<close> is \<^verbatim>\<open>math.Log\<close>, \<open>e_now i\<close> the clock as \<^verbatim>\<open>time.Until\<close> reads it in iteration \<open>i\<close>,
  \<open>e_wait qps burst i\<close> whether the \<open>i\<close>-th \<^verbatim>\<open>Wait\<close> of the limiter returned without error, and
  \<open>e_parallelize workers n\<close> the order in which \<^verbatim>\<open>ParallelizeUntil\<close> handed out its pieces.
\<close>

record tenv =
  e_float :: "nat \<Rightarrow> rat"
  e_int63n :: "nat \<Rightarrow> int \<Rightarrow> int"
  e_log :: "rat \<Rightarrow> rat"
  e_start :: gotime
  e_now :: "nat \<Rightarrow> gotime"
  e_wait :: "rat \<Rightarrow> int \<Rightarrow> nat \<Rightarrow> bool"
  e_parallelize :: "int \<Rightarrow> nat \<Rightarrow> nat list"

section \<open>The loads\<close>

definition qpsLoad_Execute :: "QPSLoad \<Rightarrow> 'a list \<Rightarrow> 'a ev list" where
  "qpsLoad_Execute params actions =
     (let sleepDuration = trunc_rat (fl (of_int Second / ql_QPS params))
      in concat (map (\<lambda>a. [Start 0 a, Sleep sleepDuration]) actions))"

definition sleepDuration :: "rat \<Rightarrow> rat \<Rightarrow> duration" where
  "sleepDuration r avgQPS =
     (let randomFactor = fl (2 * r)
      in trunc_rat (fl (fl (randomFactor * of_int Second) / avgQPS)))"

definition randomizedLoad_Execute :: "tenv \<Rightarrow> RandomizedLoad \<Rightarrow> 'a list \<Rightarrow> 'a ev list" where
  "randomizedLoad_Execute env params actions =
     concat_mapi (\<lambda>i a. [Start 0 a, Sleep (sleepDuration (e_float env i) (rl_AverageQPS params))])
       actions"

definition steppedLoad_Execute :: "SteppedLoad \<Rightarrow> 'a list \<Rightarrow> 'a ev list option" where
  "steppedLoad_Execute params actions =
     (if actions \<noteq> [] \<and> sl_BurstSize params = 0 then None
      else Some (concat_mapi (\<lambda>i a.
             Start 0 a # (if go_mod (int i + 1) (sl_BurstSize params) = 0
                          then [Sleep (ToTimeDuration (sl_StepDelay params))] else []))
           actions))"

definition timeLimitedLoad_Execute :: "TimeLimitedLoad \<Rightarrow> 'a list \<Rightarrow> 'a ev list" where
  "timeLimitedLoad_Execute params actions =
     (if length actions = 0 then []
      else let sd = go_div (ToTimeDuration (tl_TimeLimit params)) (int (length actions))
           in concat (map (\<lambda>a. [Start 0 a, Sleep sd]) actions))"

definition randomizedTimeLimitedLoad_Execute ::
  "tenv \<Rightarrow> RandomizedTimeLimitedLoad \<Rightarrow> 'a list \<Rightarrow> 'a ev list" where
  "randomizedTimeLimitedLoad_Execute env params actions =
     (let timeLimit = ToTimeDuration (rt_TimeLimit params)
      in mapi (\<lambda>i a. Start (if timeLimit > 0 then e_int63n env i timeLimit else 0) a) actions)"

definition parallelismLimitedLoad_Execute ::
  "tenv \<Rightarrow> ParallelismLimitedLoad \<Rightarrow> 'a list \<Rightarrow> 'a ev list" where
  "parallelismLimitedLoad_Execute env params actions =
     map (\<lambda>i. Start 0 (actions ! i))
       (e_parallelize env (pa_ParallelismLimit params) (length actions))"

definition globalQPSLoad_Execute :: "tenv \<Rightarrow> GlobalQPSLoad \<Rightarrow> 'a list \<Rightarrow> 'a ev list" where
  "globalQPSLoad_Execute env params actions =
     concat_mapi (\<lambda>i a. if e_wait env (gl_QPS params) (gl_Burst params) i then [Start 0 a] else [])
       actions"

definition interArrivalTime :: "(rat \<Rightarrow> rat) \<Rightarrow> rat \<Rightarrow> rat \<Rightarrow> duration" where
  "interArrivalTime logf p MeanRate =
     trunc_rat (fl (of_int Second * fl (- logf (fl (1 - p)) / MeanRate)))"

fun poisson_loop :: "tenv \<Rightarrow> rat \<Rightarrow> nat \<Rightarrow> gotime \<Rightarrow> 'a list \<Rightarrow> 'a ev list" where
  "poisson_loop env rate i actionNextLaunch [] = []"
| "poisson_loop env rate i actionNextLaunch (a # as) =
     Sleep (time_Sub actionNextLaunch (e_now env i)) # Start 0 a #
     poisson_loop env rate (Suc i)
       (actionNextLaunch + interArrivalTime (e_log env) (e_float env i) rate) as"

definition poissonLoad_Execute :: "tenv \<Rightarrow> PoissonLoad \<Rightarrow> 'a list \<Rightarrow> 'a ev list" where
  "poissonLoad_Execute env params actions =
     poisson_loop env (pl_ExpectedActionsPerSecond params) 0 (e_start env) actions"

section \<open>The factory\<close>

text \<open>
  A tuning set value is one of the eight loads with its parameters.  A global limiter is shared by
  name: it keeps the parameters it was created with.
\<close>

datatype tuning =
    TQPS QPSLoad
  | TRandomized RandomizedLoad
  | TStepped SteppedLoad
  | TTimeLimited TimeLimitedLoad
  | TRandomizedTimeLimited RandomizedTimeLimitedLoad
  | TParallelismLimited ParallelismLimitedLoad
  | TGlobalQPS GlobalQPSLoad
  | TPoisson PoissonLoad

fun Execute :: "tenv \<Rightarrow> tuning \<Rightarrow> 'a list \<Rightarrow> 'a ev list option" where
  "Execute env (TQPS p) as = Some (qpsLoad_Execute p as)"
| "Execute env (TRandomized p) as = Some (randomizedLoad_Execute env p as)"
| "Execute env (TStepped p) as = steppedLoad_Execute p as"
| "Execute env (TTimeLimited p) as = Some (timeLimitedLoad_Execute p as)"
| "Execute env (TRandomizedTimeLimited p) as = Some (randomizedTimeLimitedLoad_Execute env p as)"
| "Execute env (TParallelismLimited p) as = Some (parallelismLimitedLoad_Execute env p as)"
| "Execute env (TGlobalQPS p) as = Some (globalQPSLoad_Execute env p as)"
| "Execute env (TPoisson p) as = Some (poissonLoad_Execute env p as)"

record simpleFactory =
  tuningSetMap :: "string \<rightharpoonup> TuningSet"
  globalExisting :: "string \<rightharpoonup> GlobalQPSLoad"

definition NewFactory :: simpleFactory where
  "NewFactory = \<lparr>tuningSetMap = Map.empty, globalExisting = Map.empty\<rparr>"

definition Init :: "simpleFactory \<Rightarrow> TuningSet list \<Rightarrow> simpleFactory" where
  "Init tf tuningSets =
     tf\<lparr>tuningSetMap := fold (\<lambda>t m. m(tu_Name t \<mapsto> t)) tuningSets Map.empty\<rparr>"

definition GetOrCreate ::
  "(string \<rightharpoonup> GlobalQPSLoad) \<Rightarrow> string \<Rightarrow> GlobalQPSLoad \<Rightarrow> GlobalQPSLoad \<times> (string \<rightharpoonup> GlobalQPSLoad)" where
  "GetOrCreate existing name params =
     (case existing name of
        Some qps \<Rightarrow> (qps, existing)
      | None \<Rightarrow> (params, existing(name \<mapsto> params)))"

definition CreateTuningSet ::
  "simpleFactory \<Rightarrow> string \<Rightarrow> (goerr + tuning) \<times> simpleFactory" where
  "CreateTuningSet tf name =
     (case tuningSetMap tf name of
        None \<Rightarrow> (Inl (Errorf (''tuningset '' @ name @ '' not found'') []), tf)
      | Some ts \<Rightarrow>
          (case tu_QPSLoad ts of Some l \<Rightarrow> (Inr (TQPS l), tf) | None \<Rightarrow>
          (case tu_RandomizedLoad ts of Some l \<Rightarrow> (Inr (TRandomized l), tf) | None \<Rightarrow>
          (case tu_SteppedLoad ts of Some l \<Rightarrow> (Inr (TStepped l), tf) | None \<Rightarrow>
          (case tu_TimeLimitedLoad ts of Some l \<Rightarrow> (Inr (TTimeLimited l), tf) | None \<Rightarrow>
          (case tu_RandomizedTimeLimitedLoad ts of Some l \<Rightarrow> (Inr (TRandomizedTimeLimited l), tf) | None \<Rightarrow>
          (case tu_ParallelismLimitedLoad ts of Some l \<Rightarrow> (Inr (TParallelismLimited l), tf) | None \<Rightarrow>
          (case tu_GlobalQPSLoad ts of
             Some l \<Rightarrow>
               let (qps, existing) = GetOrCreate (globalExisting tf) name l
               in (Inr (TGlobalQPS qps), tf\<lparr>globalExisting := existing\<rparr>)
           | None \<Rightarrow>
          (case tu_PoissonLoad ts of Some l \<Rightarrow> (Inr (TPoisson l), tf) | None \<Rightarrow>
             (Inl (Errorf ''incorrect tuning set'' []), tf))))))))))"

section \<open>Every action runs exactly once\<close>

text \<open>
  What the executor relies on: a run with good parameters does not panic and starts every action
  exactly once, in whatever order.
\<close>

locale load_contract =
  fixes execute :: "'p \<Rightarrow> 'a list \<Rightarrow> 'a ev list option"
    and ok :: "'p \<Rightarrow> bool"
  assumes runs_all: "ok p \<Longrightarrow> \<exists>tr. execute p as = Some tr \<and> mset (started tr) = mset as"
begin

lemma execute_total: "ok p \<Longrightarrow> execute p as \<noteq> None"
  using runs_all[of p as] by auto

text \<open>The final state does not depend on the order when the actions commute.\<close>

lemma fold_commuting:
  assumes "ok p" "execute p as = Some tr"
    and comm: "\<And>x y. x \<in> set as \<Longrightarrow> y \<in> set as \<Longrightarrow> f x \<circ> f y = f y \<circ> f x"
  shows "fold f (started tr) s = fold f as s"
proof -
  have "mset as = mset (started tr)" using runs_all[of p as] assms(1,2) by auto
  then have "fold f as = fold f (started tr)"
    using comm by (intro fold_multiset_equiv) auto
  then show ?thesis by simp
qed

lemma started_set: "ok p \<Longrightarrow> execute p as = Some tr \<Longrightarrow> set (started tr) = set as"
  using runs_all[of p as] by (auto dest: mset_eq_setD)

end

text \<open>Seven of the loads also start the actions in their order.\<close>

locale ordered_load =
  fixes execute :: "'p \<Rightarrow> 'a list \<Rightarrow> 'a ev list option"
    and ok :: "'p \<Rightarrow> bool"
  assumes total: "ok p \<Longrightarrow> execute p as \<noteq> None"
    and in_order: "ok p \<Longrightarrow> execute p as = Some tr \<Longrightarrow> started tr = as"

sublocale ordered_load \<subseteq> load_contract
proof
  fix p as
  assume "ok p"
  then show "\<exists>tr. execute p as = Some tr \<and> mset (started tr) = mset as"
    using total[of p as] in_order[of p as] by (cases "execute p as") auto
qed

lemma started_append [simp]: "started (xs @ ys) = started xs @ started ys"
  by (induction xs rule: started.induct) auto

lemma started_concat_map:
  "(\<And>x. x \<in> set xs \<Longrightarrow> started (f x) = g x) \<Longrightarrow> started (concat (map f xs)) = concat (map g xs)"
  by (induction xs) auto

lemma started_concat_mapi:
  assumes "\<And>i a. started (f i a) = [a]"
  shows "started (concat_mapi f as) = as"
proof -
  have "started (concat (map (\<lambda>(i, x). f i x) (enumerate j as))) = as" for j
    using assms by (induction as arbitrary: j) auto
  then show ?thesis by (simp add: concat_mapi_def mapi_def)
qed

lemma started_mapi_Start: "started (mapi (\<lambda>i a. Start (d i a) a) as) = as"
proof -
  have "started (map (\<lambda>(i, a). Start (d i a) a) (enumerate j as)) = as" for j
    by (induction as arbitrary: j) auto
  then show ?thesis by (simp add: mapi_def)
qed

lemma started_map_Start: "started (map (\<lambda>i. Start 0 (g i)) is) = map g is"
  by (induction "is") auto

lemma started_poisson: "started (poisson_loop env r i t as) = as"
  by (induction env r i t as rule: poisson_loop.induct) auto

lemma concat_map_singleton [simp]: "concat (map (\<lambda>a. [a]) as) = as"
  by (induction as) auto

lemma started_qps: "started (qpsLoad_Execute p as) = as"
  unfolding qpsLoad_Execute_def Let_def
  by (subst started_concat_map[where g = "\<lambda>a. [a]"]) auto

lemma started_timeLimited: "started (timeLimitedLoad_Execute p as) = as"
  unfolding timeLimitedLoad_Execute_def Let_def
  by (auto simp: started_concat_map[where g = "\<lambda>a. [a]"])

interpretation qps_load: ordered_load "\<lambda>p as. Some (qpsLoad_Execute p as)" "\<lambda>_. True"
  by unfold_locales (auto simp: started_qps)

interpretation randomized_load: ordered_load
  "\<lambda>p as. Some (randomizedLoad_Execute env p as)" "\<lambda>_. True" for env
  by unfold_locales (auto simp: randomizedLoad_Execute_def started_concat_mapi)

interpretation stepped_load: ordered_load steppedLoad_Execute "\<lambda>p. sl_BurstSize p \<noteq> 0"
  by unfold_locales (auto simp: steppedLoad_Execute_def started_concat_mapi split: if_splits)

interpretation time_limited_load: ordered_load
  "\<lambda>p as. Some (timeLimitedLoad_Execute p as)" "\<lambda>_. True"
  by unfold_locales (auto simp: started_timeLimited)

interpretation randomized_time_limited_load: ordered_load
  "\<lambda>p as. Some (randomizedTimeLimitedLoad_Execute env p as)" "\<lambda>_. True" for env
  by unfold_locales (auto simp: randomizedTimeLimitedLoad_Execute_def Let_def started_mapi_Start)

interpretation poisson_load: ordered_load
  "\<lambda>p as. Some (poissonLoad_Execute env p as)" "\<lambda>_. True" for env
  by unfold_locales (auto simp: poissonLoad_Execute_def started_poisson)

text \<open>
  What the limiter and the work queue document: a wait for one token fails only if the burst is
  below one, and with at least one worker every piece is handed out exactly once.
\<close>

definition limiter_ok :: "tenv \<Rightarrow> bool" where
  "limiter_ok env \<longleftrightarrow> (\<forall>qps burst i. 1 \<le> burst \<longrightarrow> e_wait env qps burst i)"

definition parallelize_ok :: "tenv \<Rightarrow> bool" where
  "parallelize_ok env \<longleftrightarrow>
     (\<forall>workers n. 1 \<le> workers \<longrightarrow> mset (e_parallelize env workers n) = mset [0..<n])"

interpretation global_load: ordered_load
  "\<lambda>(env, p) as. Some (globalQPSLoad_Execute env p as)"
  "\<lambda>(env, p). limiter_ok env \<and> 0 < gl_Burst p"
proof (unfold_locales, goal_cases)
  case (1 p as) then show ?case by (cases p) simp
next
  case (2 p as tr)
  obtain env l where p: "p = (env, l)" by (cases p)
  with 2 have "\<And>i. e_wait env (gl_QPS l) (gl_Burst l) i" by (simp add: limiter_ok_def)
  with 2 p show ?case by (auto simp: globalQPSLoad_Execute_def started_concat_mapi)
qed

interpretation parallel_load: load_contract
  "\<lambda>(env, p) as. Some (parallelismLimitedLoad_Execute env p as)"
  "\<lambda>(env, p). parallelize_ok env \<and> 0 < pa_ParallelismLimit p"
proof (unfold_locales, goal_cases)
  case (1 p as)
  obtain env l where p: "p = (env, l)" by (cases p)
  with 1 have "mset (e_parallelize env (pa_ParallelismLimit l) (length as)) = mset [0..<length as]"
    by (simp add: parallelize_ok_def)
  then have "mset (map ((!) as) (e_parallelize env (pa_ParallelismLimit l) (length as)))
             = mset (map ((!) as) [0..<length as])"
    by (metis mset_map)
  then show ?case
    by (simp add: p parallelismLimitedLoad_Execute_def started_map_Start map_nth)
qed

text \<open>The parameters with which a tuning set runs every action.\<close>

fun tuning_ok :: "tenv \<Rightarrow> tuning \<Rightarrow> bool" where
  "tuning_ok env (TStepped p) = (sl_BurstSize p \<noteq> 0)"
| "tuning_ok env (TParallelismLimited p) = (parallelize_ok env \<and> 0 < pa_ParallelismLimit p)"
| "tuning_ok env (TGlobalQPS p) = (limiter_ok env \<and> 0 < gl_Burst p)"
| "tuning_ok env _ = True"

interpretation tuning_set: load_contract
  "\<lambda>(env, t). Execute env t" "\<lambda>(env, t). tuning_ok env t"
proof (unfold_locales, goal_cases)
  case (1 p as)
  obtain env t where p: "p = (env, t)" by (cases p)
  show ?case
  proof (cases t)
    case (TParallelismLimited l)
    then show ?thesis using parallel_load.runs_all[of "(env, l)" as] 1 p by simp
  next
    case (TGlobalQPS l)
    then show ?thesis using global_load.runs_all[of "(env, l)" as] 1 p by simp
  next
    case (TStepped l)
    then show ?thesis using stepped_load.runs_all[of l as] 1 p by simp
  qed (use p in \<open>simp_all add: started_qps started_timeLimited randomizedLoad_Execute_def
      started_concat_mapi randomizedTimeLimitedLoad_Execute_def Let_def started_mapi_Start
      poissonLoad_Execute_def started_poisson\<close>)
qed

section \<open>When the actions run\<close>

text \<open>A constant sleep after every start spaces the starts evenly.\<close>

lemma run_times_even_aux:
  "run_times (t + int j * max 0 d) (concat (map (\<lambda>a. [Start 0 a, Sleep d]) as)) =
     map (\<lambda>(i, a). t + int i * max 0 d) (enumerate j as)"
proof (induction as arbitrary: j)
  case (Cons a as)
  have eq: "t + int j * max 0 d + max 0 d = t + int (Suc j) * max 0 d"
    by (simp add: algebra_simps)
  show ?case using Cons[of "Suc j"] by (simp add: eq del: of_nat_Suc)
qed simp

lemma run_times_even:
  "run_times t (concat (map (\<lambda>a. [Start 0 a, Sleep d]) as)) =
     map (\<lambda>(i, a). t + int i * max 0 d) (enumerate 0 as)"
  using run_times_even_aux[of t 0 d as] by simp

lemma run_times_stepped_aux:
  fixes B :: nat
  assumes "0 < B" and D: "D = max 0 d"
  shows "run_times (t + int (j div B) * D)
           (concat (map (\<lambda>(i, a). Start 0 a # (if (i + 1) mod B = 0 then [Sleep d] else []))
              (enumerate j as)))
         = map (\<lambda>(k, a). t + int (k div B) * D) (enumerate j as)"
proof (induction as arbitrary: j)
  case (Cons a as)
  show ?case
  proof (cases "Suc j mod B = 0")
    case True
    have eq: "t + int (j div B) * max 0 d + max 0 d = t + int (Suc j div B) * max 0 d"
      using True by (simp add: div_Suc algebra_simps)
    show ?thesis using Cons[of "Suc j"] True D by (simp add: eq)
  next
    case False
    have eq: "int (j div B) = int (Suc j div B)"
      using False by (simp add: div_Suc)
    show ?thesis using Cons[of "Suc j"] False D by (simp add: eq)
  qed
qed simp

lemma burst_end_iff:
  assumes "0 < b"
  shows "go_mod (int i + 1) b = 0 \<longleftrightarrow> (i + 1) mod nat b = 0"
proof -
  have "go_mod (int i + 1) b = int ((i + 1) mod nat b)"
    using assms by (simp add: go_mod_pos zmod_int add.commute)
  then show ?thesis by simp
qed

lemma run_times_stepped:
  assumes B: "0 < sl_BurstSize p" and tr: "steppedLoad_Execute p as = Some tr"
  shows "run_times t tr =
    map (\<lambda>(k, a). t + int (k div nat (sl_BurstSize p)) * max 0 (sl_StepDelay p)) (enumerate 0 as)"
proof -
  have "tr = concat (map (\<lambda>(i, a). Start 0 a #
      (if (i + 1) mod nat (sl_BurstSize p) = 0 then [Sleep (sl_StepDelay p)] else []))
      (enumerate 0 as))"
    using tr unfolding steppedLoad_Execute_def concat_mapi_def mapi_def ToTimeDuration_def
      burst_end_iff[OF B] by (simp split: if_splits)
  then show ?thesis
    using run_times_stepped_aux[of "nat (sl_BurstSize p)" _ "sl_StepDelay p" t 0 as] B by simp
qed

text \<open>
  The schedule of the three deterministic loads.  On a clock that moves only while the load
  sleeps, the \<open>i\<close>-th action of a QPS load starts \<open>i\<close> sleeps after the first; a stepped load starts
  bursts of \<^verbatim>\<open>BurstSize\<close> actions at the same instant, one burst every \<^verbatim>\<open>StepDelay\<close>; a time limited
  load starts every action before its time limit has passed.
\<close>

theorem deterministic_schedules:
  assumes i: "i < length as" and B: "0 < sl_BurstSize sl" and T: "0 < tl_TimeLimit tll"
  shows "run_times t (qpsLoad_Execute ql as) ! i =
           t + int i * max 0 (trunc_rat (fl (of_int Second / ql_QPS ql)))
    \<and> map_option (\<lambda>tr. run_times t tr ! i) (steppedLoad_Execute sl as) =
           Some (t + int (i div nat (sl_BurstSize sl)) * max 0 (sl_StepDelay sl))
    \<and> (let r = run_times t (timeLimitedLoad_Execute tll as) ! i in t \<le> r \<and> r < t + tl_TimeLimit tll)"
proof (intro conjI)
  show "run_times t (qpsLoad_Execute ql as) ! i =
           t + int i * max 0 (trunc_rat (fl (of_int Second / ql_QPS ql)))"
    using i by (simp add: qpsLoad_Execute_def Let_def run_times_even nth_enumerate_eq)
  obtain tr where tr: "steppedLoad_Execute sl as = Some tr"
    using stepped_load.total[of sl as] B by auto
  then show "map_option (\<lambda>tr. run_times t tr ! i) (steppedLoad_Execute sl as) =
           Some (t + int (i div nat (sl_BurstSize sl)) * max 0 (sl_StepDelay sl))"
    using i by (simp add: run_times_stepped[OF B] nth_enumerate_eq)
  let ?n = "int (length as)" and ?T = "tl_TimeLimit tll"
  have n: "0 < ?n" using i by linarith
  have d: "0 \<le> ?T div ?n" using T pos_imp_zdiv_nonneg_iff[OF n] by simp
  have "run_times t (timeLimitedLoad_Execute tll as) ! i = t + int i * (?T div ?n)"
    using i T n d by (simp add: timeLimitedLoad_Execute_def Let_def run_times_even nth_enumerate_eq
        go_div_pos ToTimeDuration_def)
  moreover have "int i * (?T div ?n) < ?T"
  proof (cases "?T div ?n = 0")
    case False
    have "int i * (?T div ?n) < ?n * (?T div ?n)"
      using i d False by (intro mult_strict_right_mono) auto
    also have "\<dots> \<le> ?T"
      using mult_div_mod_eq[of ?n ?T] pos_mod_sign[of ?n ?T] i by linarith
    finally show ?thesis .
  qed (use T in simp)
  moreover have "0 \<le> int i * (?T div ?n)" using d by simp
  ultimately show "let r = run_times t (timeLimitedLoad_Execute tll as) ! i
      in t \<le> r \<and> r < t + tl_TimeLimit tll"
    by (simp add: Let_def)
qed

theorem deterministic_schedules_witness:
  "map_option (\<lambda>tr. run_times 0 tr ! 2)
     (steppedLoad_Execute \<lparr>sl_BurstSize = 2, sl_StepDelay = 7\<rparr> [''a'', ''b'', ''c'']) = Some 7"
  using deterministic_schedules[of 2 "[''a'', ''b'', ''c'']" "\<lparr>sl_BurstSize = 2, sl_StepDelay = 7\<rparr>"
      "\<lparr>tl_TimeLimit = 9\<rparr>" 0 "\<lparr>ql_QPS = 2\<rparr>"]
  by simp

section \<open>Poisson arrivals do not drift\<close>

text \<open>
  The instant at which the loop of a Poisson load starts the \<open>i\<close>-th action: \<^verbatim>\<open>time.Sleep\<close> called at
  \<open>e_now env i\<close> returns when its duration has passed.
\<close>

fun poisson_starts :: "(nat \<Rightarrow> gotime) \<Rightarrow> nat \<Rightarrow> 'a ev list \<Rightarrow> gotime list" where
  "poisson_starts now i (Sleep d # Start d' a # es) =
     (now i + max 0 d) # poisson_starts now (Suc i) es"
| "poisson_starts now i es = []"

definition arrival :: "tenv \<Rightarrow> rat \<Rightarrow> nat \<Rightarrow> gotime" where
  "arrival env rate i =
     e_start env + (\<Sum>j<i. interArrivalTime (e_log env) (e_float env j) rate)"

definition near :: "gotime \<Rightarrow> gotime \<Rightarrow> bool" where
  "near t u \<longleftrightarrow> \<bar>t - u\<bar> < 2 ^ 63"

lemma time_Sub_near: "near t u \<Longrightarrow> time_Sub t u = t - u"
  by (auto simp: near_def time_Sub_def)

lemma poisson_starts_loop:
  assumes "\<And>k. k < length as \<Longrightarrow> near (arrival env rate (i + k)) (e_now env (i + k))"
  shows "k < length as \<Longrightarrow>
    poisson_starts (e_now env) i (poisson_loop env rate i (arrival env rate i) as) ! k =
      max (e_now env (i + k)) (arrival env rate (i + k))"
  using assms
proof (induction as arbitrary: i k)
  case (Cons a as)
  have next_arr: "arrival env rate i + interArrivalTime (e_log env) (e_float env i) rate
      = arrival env rate (Suc i)"
    by (simp add: arrival_def)
  have n: "near (arrival env rate (Suc i + k')) (e_now env (Suc i + k'))" if "k' < length as" for k'
    using Cons.prems(2)[of "Suc k'"] that by simp
  show ?case
  proof (cases k)
    case 0
    then show ?thesis
      using Cons.prems(2)[of 0] by (simp add: time_Sub_near max_def)
  next
    case (Suc k')
    with Cons.IH[of k' "Suc i"] n Cons.prems(1) show ?thesis by (simp add: next_arr)
  qed
qed simp

text \<open>
  A Poisson load keeps its arrival process.  The \<open>i\<close>-th action never starts before its arrival
  time, the sum of the inter-arrival times drawn before it, and starts exactly then unless the
  loop itself is already late; a late start does not move later arrivals.
\<close>

theorem poisson_no_drift:
  assumes "k < length as"
    and "\<And>j. j < length as \<Longrightarrow>
           near (arrival env (pl_ExpectedActionsPerSecond p) j) (e_now env j)"
  shows "poisson_starts (e_now env) 0 (poissonLoad_Execute env p as) ! k =
           max (e_now env k) (arrival env (pl_ExpectedActionsPerSecond p) k)"
proof -
  have "arrival env (pl_ExpectedActionsPerSecond p) 0 = e_start env" by (simp add: arrival_def)
  then show ?thesis
    using poisson_starts_loop[of as env "pl_ExpectedActionsPerSecond p" 0 k] assms
    by (simp add: poissonLoad_Execute_def)
qed

text \<open>A quiet environment for examples: the clock stands still and nothing fails.\<close>

definition quiet_env :: tenv where
  "quiet_env = \<lparr>e_float = \<lambda>_. 0, e_int63n = \<lambda>_ _. 0, e_log = \<lambda>_. 0, e_start = 0, e_now = \<lambda>i. int i,
    e_wait = \<lambda>_ _ _. True, e_parallelize = \<lambda>_ n. [0..<n]\<rparr>"

lemma quiet_env_ok: "limiter_ok quiet_env" "parallelize_ok quiet_env"
  by (simp_all add: limiter_ok_def parallelize_ok_def quiet_env_def)

lemma quiet_now [simp]: "e_now quiet_env i = int i"
  by (simp add: quiet_env_def)

lemma quiet_arrival: "arrival quiet_env rate i = 0"
  by (simp add: arrival_def quiet_env_def interArrivalTime_def fl_def trunc_rat_def)

theorem poisson_no_drift_witness:
  "poisson_starts (e_now quiet_env) 0
     (poissonLoad_Execute quiet_env \<lparr>pl_ExpectedActionsPerSecond = 2\<rparr> [''a'', ''b'']) ! 1 = 1"
  using poisson_no_drift[of 1 "[''a'', ''b'']" quiet_env "\<lparr>pl_ExpectedActionsPerSecond = 2\<rparr>"]
  by (fastforce simp: quiet_arrival near_def)

section \<open>A validated tuning set always runs\<close>

definition factory_ok :: "simpleFactory \<Rightarrow> bool" where
  "factory_ok tf \<longleftrightarrow>
     (\<forall>n l. globalExisting tf n = Some l \<longrightarrow> 0 < gl_Burst l) \<and>
     (\<forall>n t. tuningSetMap tf n = Some t \<longrightarrow> tuning_valid t)"

lemma fold_upd_map_of:
  "fold (\<lambda>t m. m(tu_Name t \<mapsto> t)) ts m = m ++ map_of (rev (map (\<lambda>t. (tu_Name t, t)) ts))"
  by (induction ts arbitrary: m) (auto simp: map_add_def fun_eq_iff split: option.splits)

lemma Init_lookup:
  "tuningSetMap (Init tf ts) n = map_of (rev (map (\<lambda>t. (tu_Name t, t)) ts)) n"
  by (simp add: Init_def fold_upd_map_of)

lemma Init_lookup_in: "tuningSetMap (Init tf ts) n = Some t \<Longrightarrow> t \<in> set ts \<and> tu_Name t = n"
  by (auto simp: Init_lookup dest!: map_of_SomeD)

lemma Init_declared: "n \<in> tu_Name ` set ts \<Longrightarrow> \<exists>t. tuningSetMap (Init tf ts) n = Some t"
proof -
  assume "n \<in> tu_Name ` set ts"
  then have "n \<in> fst ` set (rev (map (\<lambda>t. (tu_Name t, t)) ts))" by force
  then show ?thesis unfolding Init_lookup by (meson map_of_eq_None_iff not_None_eq)
qed

lemma factory_ok_Init:
  "(\<And>t. t \<in> set ts \<Longrightarrow> tuning_valid t) \<Longrightarrow> factory_ok (Init NewFactory ts)"
  using Init_lookup_in by (fastforce simp: factory_ok_def Init_def NewFactory_def)

lemma CreateTuningSet_keeps_map: "tuningSetMap (snd (CreateTuningSet tf n)) = tuningSetMap tf"
  by (auto simp: CreateTuningSet_def GetOrCreate_def Let_def split: option.splits)


lemma CreateTuningSet_run:
  assumes "factory_ok tf" "tuningSetMap tf n = Some ts" "limiter_ok env" "parallelize_ok env"
  shows "\<exists>t tf'. CreateTuningSet tf n = (Inr t, tf') \<and> tuning_ok env t \<and> factory_ok tf'"
proof -
  have v: "loads_of ts = [True]" using assms by (auto simp: factory_ok_def tuning_valid_def)
  have g: "\<And>l. globalExisting tf n = Some l \<Longrightarrow> 0 < gl_Burst l"
    using assms(1) by (auto simp: factory_ok_def)
  show ?thesis
    using v g assms
    by (auto simp: CreateTuningSet_def loads_of_def GetOrCreate_def Let_def factory_ok_def
        split: option.splits)
qed

lemma factory_ok_CreateTuningSet:
  "factory_ok tf \<Longrightarrow> factory_ok (snd (CreateTuningSet tf n))"
proof (cases "tuningSetMap tf n")
  case None
  then show "factory_ok tf \<Longrightarrow> ?thesis" by (simp add: CreateTuningSet_def)
next
  case (Some ts)
  then show "factory_ok tf \<Longrightarrow> ?thesis" using CreateTuningSet_run quiet_env_ok by fastforce
qed

text \<open>Any sequence of creations, as the phases of a test make them.\<close>

definition create_all :: "simpleFactory \<Rightarrow> string list \<Rightarrow> simpleFactory" where
  "create_all tf names = fold (\<lambda>n f. snd (CreateTuningSet f n)) names tf"

lemma create_all_keeps:
  "factory_ok tf \<Longrightarrow>
     factory_ok (create_all tf ns) \<and> tuningSetMap (create_all tf ns) = tuningSetMap tf"
  unfolding create_all_def
  by (induction ns arbitrary: tf)
     (simp_all add: factory_ok_CreateTuningSet CreateTuningSet_keeps_map)

text \<open>
  C7: in a validated configuration every phase that names a tuning set gets one, after any earlier
  creations, and executing it neither panics nor loses or repeats an action, provided the rate
  limiter and the work queue keep their documented promises.
\<close>

theorem validated_tuning_set_runs:
  assumes "config_valid venv v" "s \<in> set (co_Steps (v_config v))" "p \<in> set (st_Phases s)"
    and "ph_TuningSet p \<noteq> []" "limiter_ok env" "parallelize_ok env"
  shows "\<exists>t tf'. CreateTuningSet (create_all (Init NewFactory (co_TuningSets (v_config v))) ns)
                    (ph_TuningSet p) = (Inr t, tf')
               \<and> (\<forall>actions. \<exists>tr. Execute env t actions = Some tr \<and> mset (started tr) = mset actions)"
proof -
  let ?c = "v_config v" and ?tf = "Init NewFactory (co_TuningSets (v_config v))"
  have valid: "\<And>t. t \<in> set (co_TuningSets ?c) \<Longrightarrow> tuning_valid t"
    and decl: "ph_TuningSet p \<in> tu_Name ` set (co_TuningSets ?c)"
    using assms by (auto simp: config_valid_def Let_def tuning_declared_def)
  obtain ts where "tuningSetMap ?tf (ph_TuningSet p) = Some ts"
    using Init_declared[OF decl] by blast
  moreover have "factory_ok ?tf" using valid by (rule factory_ok_Init)
  ultimately obtain t tf' where
    "CreateTuningSet (create_all ?tf ns) (ph_TuningSet p) = (Inr t, tf')" "tuning_ok env t"
    using CreateTuningSet_run[of "create_all ?tf ns" "ph_TuningSet p" ts env]
      create_all_keeps[of ?tf ns] assms(5,6) by auto
  then show ?thesis using tuning_set.runs_all[of "(env, t)"] by auto
qed

text \<open>A configuration with one step, one empty phase and one stepped load.\<close>

definition small_phase :: Phase where
  "small_phase = \<lparr>ph_NamespaceRange = None, ph_NamespaceList = None, ph_ReplicasPerNamespace = 1,
     ph_TuningSet = ''burst'', ph_ObjectBundle = []\<rparr>"

definition small_step :: Step where
  "small_step = \<lparr>st_Phases = [small_phase], st_Measurements = [],
     st_Module = \<lparr>mr_Path = [], mr_Params = []\<rparr>, st_Name = ''s''\<rparr>"

definition no_load :: "string \<Rightarrow> TuningSet" where
  "no_load name = \<lparr>tu_Name = name, tu_InitialDelay = 0, tu_QPSLoad = None, tu_RandomizedLoad = None,
     tu_SteppedLoad = None, tu_TimeLimitedLoad = None, tu_RandomizedTimeLimitedLoad = None,
     tu_ParallelismLimitedLoad = None, tu_GlobalQPSLoad = None, tu_PoissonLoad = None\<rparr>"

definition small_config :: Config where
  "small_config = \<lparr>co_Name = ''t'', co_Dependencies = [], co_AutomanagedNamespaces = 1,
     co_Namespace = \<lparr>nc_Number = 1, nc_Prefix = ''test'', nc_DeleteStaleNamespaces = None,
       nc_DeleteAutomanagedNamespaces = None, nc_EnableExistingNamespaces = None,
       nc_DeleteNamespaceTimeout = None\<rparr>,
     co_Steps = [small_step],
     co_TuningSets = [(no_load ''burst'')\<lparr>tu_SteppedLoad := Some \<lparr>sl_BurstSize = 2, sl_StepDelay = 7\<rparr>\<rparr>],
     co_ChaosMonkey = \<lparr>cm_NodeFailure = None, cm_ExcludedNodes = None\<rparr>\<rparr>"

definition empty_venv :: venv where
  "empty_venv = \<lparr>v_cwd = [], v_notExist = \<lambda>_. True, v_dns1123 = \<lambda>_. [], v_measurements = \<lambda>_. False,
     v_dependencies = \<lambda>_. False\<rparr>"

lemma small_config_valid: "config_valid empty_venv (NewConfigValidator ''d'' small_config)"
  by (simp add: config_valid_def NewConfigValidator_def small_config_def small_step_def
      small_phase_def step_valid_def phase_valid_def tuning_declared_def tuning_valid_def
      loads_of_def no_load_def)

theorem validated_tuning_set_runs_witness:
  "\<exists>t tf'. CreateTuningSet (create_all (Init NewFactory (co_TuningSets small_config)) []) ''burst''
              = (Inr t, tf')
         \<and> (\<exists>tr. Execute quiet_env t [''a'', ''b'', ''c''] = Some tr
              \<and> mset (started tr) = mset [''a'', ''b'', ''c''])"
proof -
  have "v_config (NewConfigValidator ''d'' small_config) = small_config"
    "small_step \<in> set (co_Steps small_config)" "small_phase \<in> set (st_Phases small_step)"
    "ph_TuningSet small_phase = ''burst''"
    by (simp_all add: NewConfigValidator_def small_config_def small_step_def small_phase_def)
  then show ?thesis
    using validated_tuning_set_runs[OF small_config_valid, of small_step small_phase quiet_env "[]"]
      quiet_env_ok by fastforce
qed

lemma globalExisting_stable:
  "globalExisting tf n = Some l \<Longrightarrow> globalExisting (create_all tf ns) n = Some l"
proof -
  have "globalExisting (snd (CreateTuningSet tf m)) n = Some l"
    if "globalExisting tf n = Some l" for tf m
    using that by (auto simp: CreateTuningSet_def GetOrCreate_def Let_def split: option.splits)
  then show "globalExisting tf n = Some l \<Longrightarrow> ?thesis"
    unfolding create_all_def by (induction ns arbitrary: tf) auto
qed

text \<open>
  The global QPS limiter is shared.  Once a tuning set of that kind has been created under a
  name, every later creation under the name returns the same limiter, whatever was created in
  between.
\<close>

theorem global_limiter_shared:
  assumes "CreateTuningSet tf n = (Inr (TGlobalQPS l), tf')"
  shows "fst (CreateTuningSet (create_all tf' ns) n) = Inr (TGlobalQPS l)"
proof -
  from assms obtain ts g where ts: "tuningSetMap tf n = Some ts"
    "tu_QPSLoad ts = None" "tu_RandomizedLoad ts = None" "tu_SteppedLoad ts = None"
    "tu_TimeLimitedLoad ts = None" "tu_RandomizedTimeLimitedLoad ts = None"
    "tu_ParallelismLimitedLoad ts = None" "tu_GlobalQPSLoad ts = Some g"
    by (auto simp: CreateTuningSet_def Let_def split: option.splits prod.splits)
  with assms have tf': "globalExisting tf' n = Some l" "tuningSetMap tf' = tuningSetMap tf"
    by (auto simp: CreateTuningSet_def GetOrCreate_def split: option.splits)
  have "tuningSetMap (create_all tf' ns) = tuningSetMap tf"
    unfolding create_all_def tf'(2)[symmetric]
    by (induction ns arbitrary: tf') (auto simp: CreateTuningSet_keeps_map)
  then show ?thesis
    by (simp add: CreateTuningSet_def GetOrCreate_def ts globalExisting_stable[OF tf'(1)])
qed

definition global_tuning :: TuningSet where
  "global_tuning = (no_load ''g'')\<lparr>tu_GlobalQPSLoad := Some \<lparr>gl_QPS = 10, gl_Burst = 1\<rparr>\<rparr>"

theorem global_limiter_shared_witness:
  "fst (CreateTuningSet (create_all (snd (CreateTuningSet (Init NewFactory [global_tuning]) ''g''))
        [''g'', ''x'']) ''g'') = Inr (TGlobalQPS \<lparr>gl_QPS = 10, gl_Burst = 1\<rparr>)"
proof -
  have "CreateTuningSet (Init NewFactory [global_tuning]) ''g'' =
      (Inr (TGlobalQPS \<lparr>gl_QPS = 10, gl_Burst = 1\<rparr>),
       snd (CreateTuningSet (Init NewFactory [global_tuning]) ''g''))"
    by (simp add: CreateTuningSet_def Init_def NewFactory_def global_tuning_def no_load_def
        GetOrCreate_def)
  from global_limiter_shared[OF this, of "[''g'', ''x'']"] show ?thesis .
qed

end
