(* ===== verification/Client_Objects.thy ===== *)
theory Client_Objects
  imports Errors_Pkg Util_Pkg
begin

text \<open>
  The package \<^verbatim>\<open>clusterloader2/pkg/framework/client\<close>: API calls with retries.  The API server is
  the record \<open>server\<close>, whose operations act on the world \<open>'w\<close>; the packages \<^verbatim>\<open>apierrs\<close>, \<^verbatim>\<open>utilnet\<close>
  and \<^verbatim>\<open>net\<close>, which classify errors, are the predicates of \<open>err_preds\<close>; the polling functions of
  \<^verbatim>\<open>k8s.io/apimachinery/pkg/util/wait\<close> are the record \<open>wait_pkg\<close>.
\<close>

section \<open>What the client calls\<close>

text \<open>A \<^verbatim>\<open>wait.ConditionFunc\<close> acts on the world and answers whether it is done, or an error.\<close>

type_synonym 'w cond = "'w \<Rightarrow> (bool \<times> goerr option) \<times> 'w"
type_synonym 'w call = "'w \<Rightarrow> goerr option \<times> 'w"

record 'w wait_pkg =
  ExponentialBackoff :: "duration \<Rightarrow> rat \<Rightarrow> rat \<Rightarrow> nat \<Rightarrow> 'w cond \<Rightarrow> 'w call"
  PollImmediate :: "duration \<Rightarrow> duration \<Rightarrow> 'w cond \<Rightarrow> 'w call"

record err_preds =
  IsInternalError :: "goerr \<Rightarrow> bool"
  IsTimeout :: "goerr \<Rightarrow> bool"
  IsServerTimeout :: "goerr \<Rightarrow> bool"
  IsTooManyRequests :: "goerr \<Rightarrow> bool"
  IsProbableEOF :: "goerr \<Rightarrow> bool"
  IsConnectionReset :: "goerr \<Rightarrow> bool"
  IsUnauthorized :: "goerr \<Rightarrow> bool"
  SuggestsClientDelay :: "goerr \<Rightarrow> bool"
  IsAlreadyExists :: "goerr \<Rightarrow> bool"
  IsNotFound :: "goerr \<Rightarrow> bool"
  statusReason :: "goerr \<Rightarrow> string option"
  statusDetailsKind :: "goerr \<Rightarrow> string option"
  netError :: "goerr \<Rightarrow> (bool \<times> bool) option"

record gvk =
  gvk_Group :: string
  gvk_Version :: string
  gvk_Kind :: string

record gvr =
  gvr_Group :: string
  gvr_Version :: string
  gvr_Resource :: string

record Unstructured =
  uo_gvk :: gvk
  uo_Namespace :: string
  uo_Name :: string
  uo_Content :: gval

record 'w server =
  s_create :: "gvr \<Rightarrow> string \<Rightarrow> Unstructured \<Rightarrow> 'w call"
  s_get :: "gvr \<Rightarrow> string \<Rightarrow> string \<Rightarrow> 'w \<Rightarrow> (goerr + Unstructured) \<times> 'w"
  s_patch :: "gvr \<Rightarrow> string \<Rightarrow> string \<Rightarrow> string \<Rightarrow> 'w call"
  s_delete :: "gvr \<Rightarrow> string \<Rightarrow> string \<Rightarrow> 'w call"
  s_listNamespaces :: "'w \<Rightarrow> (goerr + string list) \<times> 'w"
  s_getNamespace :: "string \<Rightarrow> 'w call"
  s_createNamespace :: "string \<Rightarrow> 'w call"
  s_deleteNamespace :: "string \<Rightarrow> 'w call"
  s_deleteStorageClass :: "string \<Rightarrow> 'w call"

text \<open>
  A client is the server, the two packages and the library functions that build plural resource
  names, guess resources from kinds and compute merge patches.
\<close>

record 'w client =
  c_server :: "'w server"
  c_wait :: "'w wait_pkg"
  c_errs :: err_preds
  c_lowerPluralName :: "string \<Rightarrow> string"
  c_guessKindToResource :: "gvk \<Rightarrow> gvr"
  c_mergePatch :: "Unstructured \<Rightarrow> Unstructured \<Rightarrow> goerr + string"

section \<open>Retries\<close>

abbreviation Millisecond :: duration where "Millisecond \<equiv> 1000000"

definition RetryWithExponentialBackOff :: "'w wait_pkg \<Rightarrow> 'w cond \<Rightarrow> 'w call" where
  "RetryWithExponentialBackOff wp fn = ExponentialBackoff wp (100 * Millisecond) 3 0 6 fn"

definition isResourceQuotaConflictError :: "err_preds \<Rightarrow> goerr \<Rightarrow> bool" where
  "isResourceQuotaConflictError ep err =
     (case statusReason ep err of
        None \<Rightarrow> False
      | Some reason \<Rightarrow>
          if reason \<noteq> ''Conflict'' then False
          else statusDetailsKind ep err = Some ''resourcequotas'')"

definition IsRetryableAPIError :: "err_preds \<Rightarrow> goerr \<Rightarrow> bool" where
  "IsRetryableAPIError ep err =
     (if IsInternalError ep err \<or> IsTimeout ep err \<or> IsServerTimeout ep err \<or>
         IsTooManyRequests ep err \<or> IsProbableEOF ep err \<or> IsConnectionReset ep err \<or>
         isResourceQuotaConflictError ep err \<or> IsUnauthorized ep err
      then True
      else if SuggestsClientDelay ep err then True
      else False)"

definition http2ClientConnectionLostErr :: string where
  "http2ClientConnectionLostErr = ''http2: client connection lost''"

definition IsRetryableNetError :: "err_preds \<Rightarrow> goerr \<Rightarrow> bool" where
  "IsRetryableNetError ep err =
     (case netError ep err of
        Some (temporary, timeout) \<Rightarrow> temporary \<or> timeout
      | None \<Rightarrow> if err_msg err = http2ClientConnectionLostErr then True else False)"

record APICallOptions =
  shouldAllowError :: "(goerr \<Rightarrow> bool) option"
  shouldRetryError :: "(goerr \<Rightarrow> bool) option"

definition Allow :: "(goerr \<Rightarrow> bool) \<Rightarrow> APICallOptions" where
  "Allow p = \<lparr>shouldAllowError = Some p, shouldRetryError = None\<rparr>"

definition Retry :: "(goerr \<Rightarrow> bool) \<Rightarrow> APICallOptions" where
  "Retry p = \<lparr>shouldAllowError = None, shouldRetryError = Some p\<rparr>"

fun any_pred :: "(goerr \<Rightarrow> bool) list \<Rightarrow> goerr \<Rightarrow> bool" where
  "any_pred [] err = False"
| "any_pred (p # ps) err = (if p err then True else any_pred ps err)"

definition RetryFunction :: "err_preds \<Rightarrow> 'w call \<Rightarrow> APICallOptions list \<Rightarrow> 'w cond" where
  "RetryFunction ep f options =
     (let shouldAllowErrorFuncs = somes (map shouldAllowError options);
          shouldRetryErrorFuncs = somes (map shouldRetryError options)
      in (\<lambda>w. case f w of
                (None, w) \<Rightarrow> ((True, None), w)
              | (Some err, w) \<Rightarrow>
                  if any_pred shouldAllowErrorFuncs err then ((True, None), w)
                  else if any_pred shouldRetryErrorFuncs err then ((False, None), w)
                  else if IsRetryableAPIError ep err \<or> IsRetryableNetError ep err then ((False, None), w)
                  else ((False, Some err), w)))"

text \<open>A retried call, as every function below makes it.\<close>

definition retried :: "'w client \<Rightarrow> 'w call \<Rightarrow> APICallOptions list \<Rightarrow> 'w call" where
  "retried c f options = RetryWithExponentialBackOff (c_wait c) (RetryFunction (c_errs c) f options)"

section \<open>Namespaces\<close>

definition CreateNamespace :: "'w client \<Rightarrow> string \<Rightarrow> 'w call" where
  "CreateNamespace c namespace =
     retried c (s_createNamespace (c_server c) namespace) [Allow (IsAlreadyExists (c_errs c))]"

definition DeleteNamespace :: "'w client \<Rightarrow> string \<Rightarrow> 'w call" where
  "DeleteNamespace c namespace =
     retried c (s_deleteNamespace (c_server c) namespace) [Allow (IsNotFound (c_errs c))]"

definition WaitForDeleteNamespace :: "'w client \<Rightarrow> string \<Rightarrow> duration \<Rightarrow> 'w call" where
  "WaitForDeleteNamespace c namespace timeout =
     PollImmediate (c_wait c) (5000 * Millisecond) timeout
       (\<lambda>w. case s_getNamespace (c_server c) namespace w of
              (Some err, w) \<Rightarrow>
                if IsNotFound (c_errs c) err then ((True, None), w)
                else if \<not> IsRetryableAPIError (c_errs c) err then ((False, Some err), w)
                else ((False, None), w)
            | (None, w) \<Rightarrow> ((False, None), w))"

definition DeleteStorageClass :: "'w client \<Rightarrow> string \<Rightarrow> 'w call" where
  "DeleteStorageClass c name =
     retried c (s_deleteStorageClass (c_server c) name) [Allow (IsNotFound (c_errs c))]"

text \<open>
  A listing keeps its result in a variable of the enclosing function: the retried closure works on
  the world paired with that variable.  \<open>wp\<close> is the polling package on that larger state.
\<close>

definition list_retried ::
  "('w \<times> 'a list) wait_pkg \<Rightarrow> err_preds \<Rightarrow> ('w \<Rightarrow> (goerr + 'a list) \<times> 'w) \<Rightarrow> 'w \<Rightarrow>
   ('a list \<times> goerr option) \<times> 'w" where
  "list_retried wp ep list w =
     (let listFunc = (\<lambda>(w, items). case list w of
                        (Inl err, w) \<Rightarrow> (Some err, (w, items))
                      | (Inr new, w) \<Rightarrow> (None, (w, new)));
          (err, (w, items)) = RetryWithExponentialBackOff wp (RetryFunction ep listFunc []) (w, [])
      in ((items, err), w))"

definition ListNamespaces ::
  "'w client \<Rightarrow> ('w \<times> string list) wait_pkg \<Rightarrow> 'w \<Rightarrow> (string list \<times> goerr option) \<times> 'w" where
  "ListNamespaces c wp = list_retried wp (c_errs c) (s_listNamespaces (c_server c))"

definition ListPodsWithOptions ::
  "'w client \<Rightarrow> ('w \<times> 'pod list) wait_pkg \<Rightarrow> (string \<Rightarrow> 'opts \<Rightarrow> 'w \<Rightarrow> (goerr + 'pod list) \<times> 'w) \<Rightarrow>
   string \<Rightarrow> 'opts \<Rightarrow> 'w \<Rightarrow> ('pod list \<times> goerr option) \<times> 'w" where
  "ListPodsWithOptions c wp listPods namespace listOpts =
     list_retried wp (c_errs c) (listPods namespace listOpts)"

definition ListNodesWithOptions ::
  "'w client \<Rightarrow> ('w \<times> 'node list) wait_pkg \<Rightarrow> ('opts \<Rightarrow> 'w \<Rightarrow> (goerr + 'node list) \<times> 'w) \<Rightarrow>
   'opts \<Rightarrow> 'w \<Rightarrow> ('node list \<times> goerr option) \<times> 'w" where
  "ListNodesWithOptions c wp listNodes listOpts = list_retried wp (c_errs c) (listNodes listOpts)"

section \<open>Objects\<close>

definition to_lower_char :: "char \<Rightarrow> char" where
  "to_lower_char ch =
     (let n = (of_char ch :: nat) in if 65 \<le> n \<and> n \<le> 90 then char_of (n + 32) else ch)"

text \<open>\<^verbatim>\<open>strings.ToLower\<close> and \<^verbatim>\<open>strings.HasSuffix\<close> on ASCII strings.\<close>

definition ToLower :: "string \<Rightarrow> string" where
  "ToLower s = map to_lower_char s"

definition HasSuffix :: "string \<Rightarrow> string \<Rightarrow> bool" where
  "HasSuffix s suffix \<longleftrightarrow>
     length suffix \<le> length s \<and> drop (length s - length suffix) s = suffix"

definition pluralResource :: "'w client \<Rightarrow> gvk \<Rightarrow> gvr" where
  "pluralResource c kind =
     (let lowerKind = ToLower (gvk_Kind kind);
          withResource = (\<lambda>r. \<lparr>gvr_Group = gvk_Group kind, gvr_Version = gvk_Version kind, gvr_Resource = r\<rparr>)
      in if HasSuffix lowerKind ''endpoints'' then withResource lowerKind
         else withResource (c_lowerPluralName c (gvk_Kind kind)))"

definition client_CreateObject ::
  "'w client \<Rightarrow> string \<Rightarrow> string \<Rightarrow> Unstructured \<Rightarrow> APICallOptions list \<Rightarrow> 'w call" where
  "client_CreateObject c namespace name obj options =
     (let gvr = pluralResource c (uo_gvk obj);
          obj = obj\<lparr>uo_Name := name\<rparr>
      in retried c (s_create (c_server c) gvr namespace obj)
           (options @ [Allow (IsAlreadyExists (c_errs c))]))"

definition createPatch :: "'w client \<Rightarrow> Unstructured \<Rightarrow> Unstructured \<Rightarrow> goerr + string" where
  "createPatch c current modified = c_mergePatch c current modified"

definition client_PatchObject ::
  "'w client \<Rightarrow> string \<Rightarrow> string \<Rightarrow> Unstructured \<Rightarrow> APICallOptions list \<Rightarrow> 'w call" where
  "client_PatchObject c namespace name obj options =
     (let gvr = pluralResource c (uo_gvk obj);
          obj = obj\<lparr>uo_Name := name\<rparr>;
          updateFunc = (\<lambda>w. case s_get (c_server c) gvr namespace name w of
              (Inl err, w) \<Rightarrow> (Some err, w)
            | (Inr currentObj, w) \<Rightarrow>
                (case createPatch c currentObj obj of
                   Inl err \<Rightarrow> (Some (Errorf (''creating patch diff error: '' @ err_msg err) []), w)
                 | Inr patch \<Rightarrow> s_patch (c_server c) gvr namespace (uo_Name obj) patch w))
      in retried c updateFunc options)"

definition client_DeleteObject ::
  "'w client \<Rightarrow> gvk \<Rightarrow> string \<Rightarrow> string \<Rightarrow> APICallOptions list \<Rightarrow> 'w call" where
  "client_DeleteObject c gvk namespace name options =
     retried c (s_delete (c_server c) (pluralResource c gvk) namespace name)
       (options @ [Allow (IsNotFound (c_errs c))])"

text \<open>
  \<^verbatim>\<open>GetObject\<close> also keeps the object in a variable of the enclosing function.
\<close>

definition client_GetObject ::
  "'w client \<Rightarrow> ('w \<times> Unstructured option) wait_pkg \<Rightarrow> gvk \<Rightarrow> string \<Rightarrow> string \<Rightarrow>
   APICallOptions list \<Rightarrow> 'w \<Rightarrow> (goerr + Unstructured option) \<times> 'w" where
  "client_GetObject c wp gvk namespace name options w =
     (let gvr = c_guessKindToResource c gvk;
          getFunc = (\<lambda>(w, obj). case s_get (c_server c) gvr namespace name w of
                       (Inl err, w) \<Rightarrow> (Some err, (w, None))
                     | (Inr new, w) \<Rightarrow> (None, (w, Some new)));
          (err, (w, obj)) = RetryWithExponentialBackOff wp (RetryFunction (c_errs c) getFunc options) (w, None)
      in case err of Some e \<Rightarrow> (Inl e, w) | None \<Rightarrow> (Inr obj, w))"

section \<open>What the polling package documents\<close>

text \<open>
  \<^verbatim>\<open>wait.ExponentialBackoff\<close> repeats the condition at most \<^verbatim>\<open>Steps\<close> times, until it is done or returns
  an error, and reports a timeout otherwise; \<open>tick\<close> is what happens to the world while it sleeps.
\<close>

definition ErrWaitTimeout :: goerr where
  "ErrWaitTimeout = Sentinel ''timed out waiting for the condition''"

fun backoff_ref :: "('w \<Rightarrow> 'w) \<Rightarrow> nat \<Rightarrow> 'w cond \<Rightarrow> 'w call" where
  "backoff_ref tick 0 fn w = (Some ErrWaitTimeout, w)"
| "backoff_ref tick (Suc n) fn w =
     (case fn w of
        ((done, Some err), w') \<Rightarrow> (Some err, w')
      | ((True, None), w') \<Rightarrow> (None, w')
      | ((False, None), w') \<Rightarrow>
          if n = 0 then (Some ErrWaitTimeout, w') else backoff_ref tick n fn (tick w'))"

definition backoff_documented :: "('w \<Rightarrow> 'w) \<Rightarrow> 'w wait_pkg \<Rightarrow> bool" where
  "backoff_documented tick wp \<longleftrightarrow>
     (\<forall>d fac jitter steps fn w.
        ExponentialBackoff wp d fac jitter steps fn w = backoff_ref tick steps fn w)"

section \<open>Retried calls\<close>

lemma any_pred_iff: "any_pred ps e \<longleftrightarrow> (\<exists>p \<in> set ps. p e)"
  by (induction ps) auto

definition allowed :: "APICallOptions list \<Rightarrow> goerr \<Rightarrow> bool" where
  "allowed options e \<longleftrightarrow> (\<exists>op \<in> set options. \<exists>p. shouldAllowError op = Some p \<and> p e)"

lemma any_pred_allowed: "any_pred (somes (map shouldAllowError options)) e \<longleftrightarrow> allowed options e"
  by (force simp: any_pred_iff allowed_def image_iff)

lemma RetryFunction_done:
  "RetryFunction ep f options w = ((True, r), w') \<Longrightarrow>
     r = None \<and> (\<exists>e. f w = (e, w') \<and> (e = None \<or> (\<exists>x. e = Some x \<and> allowed options x)))"
  by (auto simp: RetryFunction_def any_pred_allowed split: prod.splits option.splits if_splits)

lemma RetryFunction_world: "snd (RetryFunction ep f options w) = snd (f w)"
  by (auto simp: RetryFunction_def split: prod.splits option.splits)

lemma backoff_invariant:
  assumes "\<And>w. I w \<Longrightarrow> I (tick w)" and "\<And>w. I w \<Longrightarrow> I (snd (fn w))"
  shows "I w \<Longrightarrow> I (snd (backoff_ref tick n fn w))"
proof (induction n arbitrary: w)
  case (Suc n)
  obtain d e w' where fn: "fn w = ((d, e), w')" by (metis surj_pair)
  then have "I w'" using assms(2)[OF Suc.prems] by simp
  then show ?case using Suc.IH[of "tick w'"] assms(1) fn
    by (cases e; cases d) auto
qed simp

lemma backoff_success:
  assumes "\<And>w. I w \<Longrightarrow> I (tick w)" and "\<And>w. I w \<Longrightarrow> I (snd (fn w))"
  shows "I w \<Longrightarrow> backoff_ref tick n fn w = (None, w') \<Longrightarrow>
     \<exists>w0. I w0 \<and> fn w0 = ((True, None), w')"
proof (induction n arbitrary: w)
  case (Suc n)
  obtain d e w1 where fn: "fn w = ((d, e), w1)" by (metis surj_pair)
  then have "I w1" using assms(2)[OF Suc.prems(1)] by simp
  then show ?case using Suc.IH[of "tick w1"] assms(1) fn Suc.prems
    by (cases e; cases d) (auto split: if_splits)
qed (simp add: ErrWaitTimeout_def)

lemma backoff_attempts:
  fixes calls :: "'w \<Rightarrow> nat"
  assumes "\<And>w. calls (tick w) = calls w" and "\<And>w. calls (snd (fn w)) \<le> Suc (calls w)"
  shows "calls (snd (backoff_ref tick n fn w)) \<le> calls w + n"
proof (induction n arbitrary: w)
  case (Suc n)
  obtain d e w1 where fn: "fn w = ((d, e), w1)" by (metis surj_pair)
  have "calls w1 \<le> Suc (calls w)" using assms(2)[of w] fn by simp
  then show ?case using Suc.IH[of "tick w1"] assms(1)[of w1] fn
    by (cases e; cases d) auto
qed simp

lemma retried_ref:
  "backoff_documented tick (c_wait c) \<Longrightarrow>
     retried c f options w = backoff_ref tick 6 (RetryFunction (c_errs c) f options) w"
  by (simp add: retried_def RetryWithExponentialBackOff_def backoff_documented_def)

lemma retried_invariant:
  assumes "backoff_documented tick (c_wait c)" "\<And>w. I w \<Longrightarrow> I (tick w)"
    "\<And>w. I w \<Longrightarrow> I (snd (f w))" "I w"
  shows "I (snd (retried c f options w))"
  unfolding retried_ref[OF assms(1)]
  by (rule backoff_invariant[where I = I]) (use assms(2-4) in \<open>auto simp: RetryFunction_world\<close>)

lemma retried_success:
  assumes "backoff_documented tick (c_wait c)" "\<And>w. I w \<Longrightarrow> I (tick w)"
    "\<And>w. I w \<Longrightarrow> I (snd (f w))" "I w" "retried c f options w = (None, w')"
  shows "\<exists>w0 e. I w0 \<and> f w0 = (e, w') \<and> (e = None \<or> (\<exists>x. e = Some x \<and> allowed options x))"
proof -
  have ref: "backoff_ref tick 6 (RetryFunction (c_errs c) f options) w = (None, w')"
    using assms(5) unfolding retried_ref[OF assms(1)] .
  have fn: "I (snd (RetryFunction (c_errs c) f options v))" if "I v" for v
    using assms(3)[OF that] by (simp only: RetryFunction_world)
  have "\<exists>w0. I w0 \<and> RetryFunction (c_errs c) f options w0 = ((True, None), w')"
    by (rule backoff_success[OF assms(2) fn assms(4) ref])
  then obtain w0 where w0: "I w0" "RetryFunction (c_errs c) f options w0 = ((True, None), w')"
    by blast
  then show ?thesis using RetryFunction_done[OF w0(2)] by blast
qed

section \<open>Creating and deleting objects\<close>

text \<open>
  What the API server promises about existence, for \<open>has w gvr ns name\<close>: a create answers nil or
  \<^verbatim>\<open>AlreadyExists\<close> only if the object exists afterwards, a delete nil or \<^verbatim>\<open>NotFound\<close> only if it does
  not, no call affects another object, reads and patches affect none, and neither does waiting.
  Any other answer may or may not have taken effect.
\<close>

definition object_server ::
  "'w client \<Rightarrow> ('w \<Rightarrow> 'w) \<Rightarrow> ('w \<Rightarrow> gvr \<Rightarrow> string \<Rightarrow> string \<Rightarrow> bool) \<Rightarrow> bool" where
  "object_server c tick has \<longleftrightarrow>
     backoff_documented tick (c_wait c) \<and>
     (\<forall>w. has (tick w) = has w) \<and>
     (\<forall>g ns ob w e w'. s_create (c_server c) g ns ob w = (e, w') \<longrightarrow>
        (\<forall>g' ns' n'. (g', ns', n') \<noteq> (g, ns, uo_Name ob) \<longrightarrow> has w' g' ns' n' = has w g' ns' n') \<and>
        (e = None \<or> (\<exists>x. e = Some x \<and> IsAlreadyExists (c_errs c) x) \<longrightarrow> has w' g ns (uo_Name ob))) \<and>
     (\<forall>g ns n w e w'. s_delete (c_server c) g ns n w = (e, w') \<longrightarrow>
        (\<forall>g' ns' n'. (g', ns', n') \<noteq> (g, ns, n) \<longrightarrow> has w' g' ns' n' = has w g' ns' n') \<and>
        (e = None \<or> (\<exists>x. e = Some x \<and> IsNotFound (c_errs c) x) \<longrightarrow> \<not> has w' g ns n)) \<and>
     (\<forall>g ns n w. has (snd (s_get (c_server c) g ns n w)) = has w) \<and>
     (\<forall>g ns n p w. has (snd (s_patch (c_server c) g ns n p w)) = has w)"

lemma server_frame:
  assumes "object_server c tick has"
  shows "has (tick w) = has w"
    and "s_create (c_server c) g ns ob w = (e, w') \<Longrightarrow> (g', ns', n') \<noteq> (g, ns, uo_Name ob) \<Longrightarrow>
           has w' g' ns' n' = has w g' ns' n'"
    and "s_delete (c_server c) g ns n w = (e, w') \<Longrightarrow> (g', ns', n') \<noteq> (g, ns, n) \<Longrightarrow>
           has w' g' ns' n' = has w g' ns' n'"
  using assms unfolding object_server_def by metis+

lemma server_effect:
  assumes "object_server c tick has"
  shows "s_create (c_server c) g ns ob w = (e, w') \<Longrightarrow>
           e = None \<or> (\<exists>x. e = Some x \<and> IsAlreadyExists (c_errs c) x) \<Longrightarrow> has w' g ns (uo_Name ob)"
    and "s_delete (c_server c) g ns n w = (e, w') \<Longrightarrow>
           e = None \<or> (\<exists>x. e = Some x \<and> IsNotFound (c_errs c) x) \<Longrightarrow> \<not> has w' g ns n"
  using assms unfolding object_server_def by metis+

lemma allowed_Allow [simp]: "allowed [Allow p] x \<longleftrightarrow> p x"
  by (simp add: allowed_def Allow_def)

text \<open>
  A retried call that touches only the object \<open>k\<close> keeps the others, and its success is a direct or
  allowed answer of the server.
\<close>

definition others_kept ::
  "('w \<Rightarrow> gvr \<Rightarrow> string \<Rightarrow> string \<Rightarrow> bool) \<Rightarrow> gvr \<times> string \<times> string \<Rightarrow> 'w \<Rightarrow> 'w \<Rightarrow> bool" where
  "others_kept has k w w' \<longleftrightarrow>
     (\<forall>g' ns' n'. (g', ns', n') \<noteq> k \<longrightarrow> has w' g' ns' n' = has w g' ns' n')"

lemma others_kept_refl [simp]: "others_kept has k w w"
  by (simp add: others_kept_def)

lemma others_kept_trans: "others_kept has k w w' \<Longrightarrow> others_kept has k w' w'' \<Longrightarrow> others_kept has k w w''"
  by (simp add: others_kept_def)

lemma retried_object_call:
  assumes srv: "object_server c tick has" and call: "retried c f [Allow p] w = (e, w')"
    and f: "\<And>v e v'. f v = (e, v') \<Longrightarrow> others_kept has k v v'"
  shows "others_kept has k w w'"
    and "e = None \<Longrightarrow> \<exists>v e'. f v = (e', w') \<and> (e' = None \<or> (\<exists>x. e' = Some x \<and> p x))"
proof -
  have d: "backoff_documented tick (c_wait c)" using srv by (simp add: object_server_def)
  have t: "others_kept has k w (tick v)" if "others_kept has k w v" for v
    using that server_frame(1)[OF srv] by (simp add: others_kept_def)
  have f': "others_kept has k w (snd (f v))" if "others_kept has k w v" for v
    using that f[of v "fst (f v)" "snd (f v)"] others_kept_trans by fastforce
  show "others_kept has k w w'"
    using retried_invariant[of tick c "others_kept has k w" f w, OF d t f'] call
    by (metis others_kept_refl snd_conv)
  show "e = None \<Longrightarrow> \<exists>v e'. f v = (e', w') \<and> (e' = None \<or> (\<exists>x. e' = Some x \<and> p x))"
    using retried_success[of tick c "others_kept has k w" f w "[Allow p]" w', OF d t f'] call
    by auto
qed

lemma client_CreateObject_effect:
  assumes srv: "object_server c tick has" and call: "client_CreateObject c ns n ob [] w = (e, w')"
  shows "others_kept has (pluralResource c (uo_gvk ob), ns, n) w w'"
    and "e = None \<Longrightarrow> has w' (pluralResource c (uo_gvk ob)) ns n"
proof -
  let ?f = "s_create (c_server c) (pluralResource c (uo_gvk ob)) ns (ob\<lparr>uo_Name := n\<rparr>)"
  have f: "others_kept has (pluralResource c (uo_gvk ob), ns, n) v v'" if "?f v = (e, v')" for v e v'
    using server_frame(2)[OF srv that] by (simp add: others_kept_def)
  have call': "retried c ?f [Allow (IsAlreadyExists (c_errs c))] w = (e, w')"
    using call by (simp add: client_CreateObject_def)
  note r = retried_object_call[OF srv call' f]
  show "others_kept has (pluralResource c (uo_gvk ob), ns, n) w w'" by (rule r(1))
  show "e = None \<Longrightarrow> has w' (pluralResource c (uo_gvk ob)) ns n"
    using r(2) server_effect(1)[OF srv, of _ _ "ob\<lparr>uo_Name := n\<rparr>"] by fastforce
qed

lemma client_DeleteObject_effect:
  assumes srv: "object_server c tick has" and call: "client_DeleteObject c gvk ns n [] w = (e, w')"
  shows "others_kept has (pluralResource c gvk, ns, n) w w'"
    and "e = None \<Longrightarrow> \<not> has w' (pluralResource c gvk) ns n"
proof -
  let ?f = "s_delete (c_server c) (pluralResource c gvk) ns n"
  have f: "others_kept has (pluralResource c gvk, ns, n) v v'" if "?f v = (e, v')" for v e v'
    using server_frame(3)[OF srv that] by (simp add: others_kept_def)
  have call': "retried c ?f [Allow (IsNotFound (c_errs c))] w = (e, w')"
    using call by (simp add: client_DeleteObject_def)
  note r = retried_object_call[OF srv call' f]
  show "others_kept has (pluralResource c gvk, ns, n) w w'" by (rule r(1))
  show "e = None \<Longrightarrow> \<not> has w' (pluralResource c gvk) ns n"
    using r(2) server_effect(2)[OF srv] by fastforce
qed

lemma client_PatchObject_effect:
  assumes srv: "object_server c tick has" and call: "client_PatchObject c ns n ob [] w = (e, w')"
  shows "has w' = has w"
proof -
  define f where "f = (\<lambda>w. case s_get (c_server c) (pluralResource c (uo_gvk ob)) ns n w of
        (Inl err, w) \<Rightarrow> (Some err, w)
      | (Inr currentObj, w) \<Rightarrow>
          (case createPatch c currentObj (ob\<lparr>uo_Name := n\<rparr>) of
             Inl err \<Rightarrow> (Some (Errorf (''creating patch diff error: '' @ err_msg err) []), w)
           | Inr patch \<Rightarrow> s_patch (c_server c) (pluralResource c (uo_gvk ob)) ns
               (uo_Name (ob\<lparr>uo_Name := n\<rparr>)) patch w))"
  have g: "has (snd (s_get (c_server c) g ns n v)) = has v"
    and p: "has (snd (s_patch (c_server c) g ns n pa v)) = has v" for g ns n pa v
    using srv unfolding object_server_def by metis+
  have "has (snd (f v)) = has v" for v
  proof -
    obtain r v' where v': "s_get (c_server c) (pluralResource c (uo_gvk ob)) ns n v = (r, v')"
      by (metis surj_pair)
    then have "has v' = has v" using g by (metis snd_conv)
    with v' p show ?thesis by (auto simp: f_def split: sum.splits)
  qed
  moreover have "retried c f [] w = (e, w')"
    using call by (simp add: client_PatchObject_def f_def Let_def)
  moreover have "backoff_documented tick (c_wait c)" using srv by (simp add: object_server_def)
  ultimately show ?thesis
    using retried_invariant[of tick c "\<lambda>v. has v = has w" f w "[]"] server_frame(1)[OF srv] by simp
qed


definition retryable :: "err_preds \<Rightarrow> APICallOptions list \<Rightarrow> goerr \<Rightarrow> bool" where
  "retryable ep options e \<longleftrightarrow>
     (\<exists>op \<in> set options. \<exists>p. shouldRetryError op = Some p \<and> p e) \<or>
     IsRetryableAPIError ep e \<or> IsRetryableNetError ep e"

lemma any_pred_retry:
  "any_pred (somes (map shouldRetryError options)) e \<longleftrightarrow>
     (\<exists>op \<in> set options. \<exists>p. shouldRetryError op = Some p \<and> p e)"
  by (force simp: any_pred_iff image_iff)

lemma RetryFunction_fatal:
  "f w = (Some e, w') \<Longrightarrow> \<not> allowed options e \<Longrightarrow> \<not> retryable ep options e \<Longrightarrow>
     RetryFunction ep f options w = ((False, Some e), w')"
  by (auto simp: RetryFunction_def any_pred_allowed any_pred_retry retryable_def)


section \<open>An example server\<close>

text \<open>The objects are a set of keys; every call is answered at once.\<close>

definition plain_wait :: "'w wait_pkg" where
  "plain_wait = \<lparr>ExponentialBackoff = \<lambda>_ _ _ n. backoff_ref (\<lambda>w. w) n,
     PollImmediate = \<lambda>_ _. backoff_ref (\<lambda>w. w) 3\<rparr>"

definition plain_errs :: err_preds where
  "plain_errs = \<lparr>IsInternalError = \<lambda>_. False, IsTimeout = \<lambda>_. False, IsServerTimeout = \<lambda>_. False,
     IsTooManyRequests = \<lambda>_. False, IsProbableEOF = \<lambda>_. False, IsConnectionReset = \<lambda>_. False,
     IsUnauthorized = \<lambda>_. False, SuggestsClientDelay = \<lambda>_. False,
     IsAlreadyExists = \<lambda>e. e = Sentinel ''exists'', IsNotFound = \<lambda>e. e = Sentinel ''not found'',
     statusReason = \<lambda>_. None, statusDetailsKind = \<lambda>_. None, netError = \<lambda>_. None\<rparr>"

type_synonym keys = "(gvr \<times> string \<times> string) set"

definition set_server :: "keys server" where
  "set_server = \<lparr>
     s_create = \<lambda>g ns ob w. if (g, ns, uo_Name ob) \<in> w then (Some (Sentinel ''exists''), w)
                            else (None, insert (g, ns, uo_Name ob) w),
     s_get = \<lambda>g ns n w. (Inl (Sentinel ''not found''), w),
     s_patch = \<lambda>g ns n p w. (None, w),
     s_delete = \<lambda>g ns n w. if (g, ns, n) \<in> w then (None, w - {(g, ns, n)})
                           else (Some (Sentinel ''not found''), w),
     s_listNamespaces = \<lambda>w. (Inr [], w), s_getNamespace = \<lambda>_ w. (None, w),
     s_createNamespace = \<lambda>_ w. (None, w), s_deleteNamespace = \<lambda>_ w. (None, w),
     s_deleteStorageClass = \<lambda>_ w. (None, w)\<rparr>"

definition set_client :: "keys client" where
  "set_client = \<lparr>c_server = set_server, c_wait = plain_wait, c_errs = plain_errs,
     c_lowerPluralName = \<lambda>k. ToLower k @ ''s'',
     c_guessKindToResource = \<lambda>k. \<lparr>gvr_Group = gvk_Group k, gvr_Version = gvk_Version k,
                                  gvr_Resource = ToLower (gvk_Kind k) @ ''s''\<rparr>,
     c_mergePatch = \<lambda>_ _. Inr []\<rparr>"

lemma set_client_object_server: "object_server set_client (\<lambda>w. w) (\<lambda>w g ns n. (g, ns, n) \<in> w)"
  by (auto simp: object_server_def set_client_def set_server_def plain_wait_def plain_errs_def
      backoff_documented_def split: if_splits)

definition pod_kind :: gvk where
  "pod_kind = \<lparr>gvk_Group = [], gvk_Version = ''v1'', gvk_Kind = ''Pod''\<rparr>"

definition pod_object :: Unstructured where
  "pod_object = \<lparr>uo_gvk = pod_kind, uo_Namespace = [], uo_Name = [], uo_Content = VNil\<rparr>"

lemma retried_plain:
  "f w = (None, w') \<Longrightarrow> retried set_client f options w = (None, w')"
  by (simp add: retried_def RetryWithExponentialBackOff_def set_client_def plain_wait_def
      RetryFunction_def eval_nat_numeral)



end
