(* ===== verification/Framework.thy ===== *)
theory Framework
  imports Client_Objects
begin

text \<open>
  The package \<^verbatim>\<open>clusterloader2/pkg/framework\<close>, file \<^verbatim>\<open>framework.go\<close>: the automanaged namespaces of a
  test and the object calls of the executor.  The framework's own state is the record
  \<open>Framework\<close>; its clients are a \<open>client\<close>, and choosing one of several identical clients is not
  modelled.  A regular expression built from the namespace prefix is read for a prefix of letters,
  digits and \<^verbatim>\<open>-\<close>, which are the characters of a namespace name.
\<close>

section \<open>State\<close>

record Framework =
  fw_prefix :: string
  fw_namespaces :: "(string, bool) gomap"

definition newFramework :: Framework where
  "newFramework = \<lparr>fw_prefix = [], fw_namespaces = []\<rparr>"

definition SetAutomanagedNamespacePrefix :: "Framework \<Rightarrow> string \<Rightarrow> Framework" where
  "SetAutomanagedNamespacePrefix f nsName = f\<lparr>fw_prefix := nsName\<rparr>"

definition GetAutomanagedNamespacePrefix :: "Framework \<Rightarrow> string" where
  "GetAutomanagedNamespacePrefix f = fw_prefix f"

definition removeAutomanagedNamespace :: "Framework \<Rightarrow> string \<Rightarrow> Framework" where
  "removeAutomanagedNamespace f namespace = f\<lparr>fw_namespaces := AList.delete namespace (fw_namespaces f)\<rparr>"

definition getAutomanagedNamespaces :: "Framework \<Rightarrow> (string, bool) gomap" where
  "getAutomanagedNamespaces f = gomap_copy (fw_namespaces f) []"

section \<open>Creating namespaces\<close>

definition namespace_name :: "string \<Rightarrow> int \<Rightarrow> string" where
  "namespace_name prefix i = prefix @ ''-'' @ show_int i"

text \<open>The loop over \<^verbatim>\<open>i\<close>; \<open>n\<close> iterations are left.\<close>

fun create_namespaces_loop ::
  "'w client \<Rightarrow> string list \<Rightarrow> bool \<Rightarrow> bool \<Rightarrow> nat \<Rightarrow> int \<Rightarrow> Framework \<Rightarrow> 'w \<Rightarrow>
   goerr option \<times> Framework \<times> 'w" where
  "create_namespaces_loop c existing allowExisting del 0 i f w = (None, f, w)"
| "create_namespaces_loop c existing allowExisting del (Suc n) i f w =
     (let name = namespace_name (fw_prefix f) i in
      if name \<notin> set existing then
        (case CreateNamespace c name w of
           (Some err, w) \<Rightarrow> (Some err, f, w)
         | (None, w) \<Rightarrow>
             create_namespaces_loop c existing allowExisting del n (i + 1)
               (f\<lparr>fw_namespaces := AList.update name del (fw_namespaces f)\<rparr>) w)
      else if \<not> allowExisting then
        (Some (Errorf (''automanaged namespace '' @ name @ '' already created'') []), f, w)
      else
        create_namespaces_loop c existing allowExisting del n (i + 1)
          (f\<lparr>fw_namespaces := AList.update name del (fw_namespaces f)\<rparr>) w)"

definition CreateAutomanagedNamespaces ::
  "'w client \<Rightarrow> ('w \<times> string list) wait_pkg \<Rightarrow> int \<Rightarrow> bool \<Rightarrow> bool \<Rightarrow> Framework \<Rightarrow> 'w \<Rightarrow>
   goerr option \<times> Framework \<times> 'w" where
  "CreateAutomanagedNamespaces c wp namespaceCount allowExistingNamespaces deleteAutomanagedNamespaces f w =
     (case ListNamespaces c wp w of
        ((_, Some err), w) \<Rightarrow> (Some err, f, w)
      | ((namespacesList, None), w) \<Rightarrow>
          create_namespaces_loop c namespacesList allowExistingNamespaces deleteAutomanagedNamespaces
            (nat namespaceCount) 1 f w)"

section \<open>Listing namespaces\<close>

definition digit :: "char \<Rightarrow> bool" where
  "digit ch \<longleftrightarrow> char_digit ch \<noteq> None"

definition nonzero_digit :: "char \<Rightarrow> bool" where
  "nonzero_digit ch \<longleftrightarrow> digit ch \<and> ch \<noteq> CHR ''0''"

definition lower_or_digit :: "char \<Rightarrow> bool" where
  "lower_or_digit ch \<longleftrightarrow> digit ch \<or> (97 \<le> (of_char ch :: nat) \<and> of_char ch \<le> (122 :: nat))"

text \<open>A match of \<^verbatim>\<open>prefix-[1-9][0-9]*\<close> at the start of a string, and anywhere in it.\<close>

definition match_here :: "string \<Rightarrow> string \<Rightarrow> bool" where
  "match_here p s \<longleftrightarrow>
     take (length p) s = p \<and> (case drop (length p) s of ch # _ \<Rightarrow> nonzero_digit ch | [] \<Rightarrow> False)"

fun match_anywhere :: "string \<Rightarrow> string \<Rightarrow> bool" where
  "match_anywhere p [] = match_here p []"
| "match_anywhere p (x # xs) = (match_here p (x # xs) \<or> match_anywhere p xs)"

definition isAutomanagedNamespaceCurrentPrefix :: "Framework \<Rightarrow> string \<Rightarrow> bool" where
  "isAutomanagedNamespaceCurrentPrefix f name = match_anywhere (fw_prefix f @ ''-'') name"

text \<open>\<^verbatim>\<open>^test-[a-z0-9]+-[0-9]+$\<close>\<close>

definition namespaceID_matches :: "string \<Rightarrow> bool" where
  "namespaceID_matches name \<longleftrightarrow>
     take 5 name = ''test-'' \<and>
     (let rest = drop 5 name; mid = takeWhile lower_or_digit rest; tail = dropWhile lower_or_digit rest
      in mid \<noteq> [] \<and> (case tail of ch # ds \<Rightarrow> ch = CHR ''-'' \<and> ds \<noteq> [] \<and> list_all digit ds | [] \<Rightarrow> False))"

definition isStaleAutomanagedNamespace :: "Framework \<Rightarrow> string \<Rightarrow> bool" where
  "isStaleAutomanagedNamespace f name =
     (if namespaceID_matches name
      then map_of (getAutomanagedNamespaces f) name = None
      else False)"

fun classify_namespaces :: "Framework \<Rightarrow> string list \<Rightarrow> string list \<times> string list" where
  "classify_namespaces f [] = ([], [])"
| "classify_namespaces f (name # names) =
     (let (current, stale) = classify_namespaces f names in
      if isAutomanagedNamespaceCurrentPrefix f name then (name # current, stale)
      else if isStaleAutomanagedNamespace f name then (current, name # stale)
      else (current, stale))"

definition ListAutomanagedNamespaces ::
  "'w client \<Rightarrow> ('w \<times> string list) wait_pkg \<Rightarrow> Framework \<Rightarrow> 'w \<Rightarrow>
   ((string list \<times> string list) \<times> goerr option) \<times> 'w" where
  "ListAutomanagedNamespaces c wp f w =
     (case ListNamespaces c wp w of
        ((_, Some err), w) \<Rightarrow> ((([], []), Some err), w)
      | ((namespacesList, None), w) \<Rightarrow> ((classify_namespaces f namespacesList, None), w))"

section \<open>Deleting namespaces\<close>

definition deleteNamespace ::
  "'w client \<Rightarrow> duration \<Rightarrow> string \<Rightarrow> Framework \<times> 'w \<Rightarrow> goerr option \<times> Framework \<times> 'w" where
  "deleteNamespace c timeout namespace = (\<lambda>(f, w).
     (case DeleteNamespace c namespace w of
        (Some err, w) \<Rightarrow> (Some err, f, w)
      | (None, w) \<Rightarrow>
          (case WaitForDeleteNamespace c namespace timeout w of
             (Some err, w) \<Rightarrow> (Some err, f, w)
           | (None, w) \<Rightarrow> (None, removeAutomanagedNamespace f namespace, w))))"

text \<open>
  The deletions run in goroutines; the namespaces are listed in the order in which their deletions
  take effect.
\<close>

definition DeleteNamespaces ::
  "'w client \<Rightarrow> duration \<Rightarrow> string list \<Rightarrow> Framework \<times> 'w \<Rightarrow> ErrorList \<times> Framework \<times> 'w" where
  "DeleteNamespaces c timeout namespaces s =
     fold (\<lambda>namespace (errList, s).
        let (err, s) = deleteNamespace c timeout namespace s
        in (case err of None \<Rightarrow> (errList, s) | Some e \<Rightarrow> (Append errList [e], s)))
       namespaces (NewErrorList [], s)"

text \<open>
  The order of the goroutines is the order in which the copied map is iterated.
\<close>

definition DeleteAutomanagedNamespaces ::
  "'w client \<Rightarrow> duration \<Rightarrow> Framework \<times> 'w \<Rightarrow> ErrorList \<times> Framework \<times> 'w" where
  "DeleteAutomanagedNamespaces c timeout s =
     fold (\<lambda>(namespace, shouldBeDeleted) (errList, s).
        if shouldBeDeleted then
          let (err, s) = deleteNamespace c timeout namespace s
          in (case err of None \<Rightarrow> (errList, s) | Some e \<Rightarrow> (Append errList [e], s))
        else (errList, s))
       (getAutomanagedNamespaces (fst s)) (NewErrorList [], s)"

section \<open>Objects\<close>

definition fw_CreateObject ::
  "'w client \<Rightarrow> string \<Rightarrow> string \<Rightarrow> Unstructured \<Rightarrow> APICallOptions list \<Rightarrow> 'w call" where
  "fw_CreateObject c namespace name obj options = client_CreateObject c namespace name obj options"

definition fw_PatchObject ::
  "'w client \<Rightarrow> string \<Rightarrow> string \<Rightarrow> Unstructured \<Rightarrow> APICallOptions list \<Rightarrow> 'w call" where
  "fw_PatchObject c namespace name obj options = client_PatchObject c namespace name obj []"

definition fw_DeleteObject ::
  "'w client \<Rightarrow> gvk \<Rightarrow> string \<Rightarrow> string \<Rightarrow> APICallOptions list \<Rightarrow> 'w call" where
  "fw_DeleteObject c gvk namespace name options = client_DeleteObject c gvk namespace name []"

text \<open>
  \<^verbatim>\<open>ApplyTemplatedManifests\<close>: \<open>manifests\<close> is the result of the glob and \<open>toObjects\<close> of a manifest
  its objects (one, or the items of a list), \<open>Inl\<close> when the template fails.
\<close>

fun apply_objects ::
  "'w client \<Rightarrow> string \<Rightarrow> APICallOptions list \<Rightarrow> Unstructured list \<Rightarrow> 'w call" where
  "apply_objects c manifest options [] w = (None, w)"
| "apply_objects c manifest options (item # items) w =
     (case fw_CreateObject c (uo_Namespace item) (uo_Name item) item options w of
        (Some err, w) \<Rightarrow>
          (Some (Errorf (''error while applying ('' @ manifest @ ''): '' @ err_msg err) []), w)
      | (None, w) \<Rightarrow> apply_objects c manifest options items w)"

definition ErrorEmptyFile :: goerr where
  "ErrorEmptyFile = Sentinel ''emptyfile''"

fun apply_manifests ::
  "'w client \<Rightarrow> (string \<Rightarrow> params \<Rightarrow> goerr + Unstructured list) \<Rightarrow> params \<Rightarrow> APICallOptions list \<Rightarrow>
   string list \<Rightarrow> 'w call" where
  "apply_manifests c toObjects mapping options [] w = (None, w)"
| "apply_manifests c toObjects mapping options (manifest # ms) w =
     (case toObjects manifest mapping of
        Inl err \<Rightarrow>
          if err = ErrorEmptyFile then apply_manifests c toObjects mapping options ms w
          else (Some (Errorf (''TemplateToObject error: '' @ err_msg err) []), w)
      | Inr objList \<Rightarrow>
          (case apply_objects c manifest options objList w of
             (Some err, w) \<Rightarrow> (Some err, w)
           | (None, w) \<Rightarrow> apply_manifests c toObjects mapping options ms w))"

definition ApplyTemplatedManifests ::
  "'w client \<Rightarrow> (string \<Rightarrow> params \<Rightarrow> goerr + Unstructured list) \<Rightarrow> (goerr + string list) \<Rightarrow> params \<Rightarrow>
   APICallOptions list \<Rightarrow> 'w call" where
  "ApplyTemplatedManifests c toObjects manifests templateMapping options w =
     (case manifests of
        Inl err \<Rightarrow> (Some err, w)
      | Inr ms \<Rightarrow> apply_manifests c toObjects templateMapping options ms w)"

section \<open>Namespaces are tracked\<close>

lemma namespace_name_inj [simp]: "namespace_name p i = namespace_name p j \<longleftrightarrow> i = j"
  by (simp add: namespace_name_def)

definition tracked :: "Framework \<Rightarrow> string \<Rightarrow> bool option" where
  "tracked f = map_of (fw_namespaces f)"

lemma tracked_update [simp]:
  "tracked (f\<lparr>fw_namespaces := AList.update n d (fw_namespaces f)\<rparr>) = (tracked f)(n \<mapsto> d)"
  by (simp add: tracked_def go_map)

lemma create_namespaces_loop_tracks:
  assumes "create_namespaces_loop c ex allow del n i f w = (r, f', w')"
  shows "\<exists>k \<le> n. (r = None \<longrightarrow> k = n) \<and> fw_prefix f' = fw_prefix f \<and>
     tracked f' = (\<lambda>name. if \<exists>j \<in> {i..<i + int k}. name = namespace_name (fw_prefix f) j
                         then Some del else tracked f name)"
  using assms
proof (induction n arbitrary: i f w)
  case 0
  then show ?case by auto
next
  case (Suc n)
  let ?name = "namespace_name (fw_prefix f) i"
  let ?f = "f\<lparr>fw_namespaces := AList.update ?name del (fw_namespaces f)\<rparr>"
  show ?case
  proof (cases "\<exists>w1. create_namespaces_loop c ex allow del n (i + 1) ?f w1 = (r, f', w')")
    case True
    then obtain w1 where w1: "create_namespaces_loop c ex allow del n (i + 1) ?f w1 = (r, f', w')" ..
    from Suc.IH[OF w1] obtain k where k: "k \<le> n" "r = None \<longrightarrow> k = n" "fw_prefix f' = fw_prefix f"
      "tracked f' = (\<lambda>name. if \<exists>j \<in> {i + 1..<i + 1 + int k}. name = namespace_name (fw_prefix f) j
                           then Some del else ((tracked f)(?name \<mapsto> del)) name)"
      unfolding tracked_update by auto
    have "{i..<i + int (Suc k)} = insert i {i + 1..<i + 1 + int k}" by auto
    then show ?thesis using k by (intro exI[of _ "Suc k"]) (auto simp: fun_eq_iff)
  next
    case False
    with Suc.prems have "r \<noteq> None" "f' = f"
      by (auto simp: Let_def split: if_splits prod.splits option.splits)
    then show ?thesis by (intro exI[of _ 0]) auto
  qed
qed


section \<open>Deletion\<close>

lemma gomap_copy_append:
  "gomap_ok (dest @ src) \<Longrightarrow> gomap_copy src dest = dest @ src"
proof (induction src arbitrary: dest)
  case (Cons e src)
  obtain k v where e: "e = (k, v)" by (cases e)
  have "k \<notin> fst ` set dest" using Cons.prems e by auto
  then have "AList.update k v dest = dest @ [(k, v)]"
    by (induction dest) auto
  with Cons e show ?case by (simp add: gomap_copy_def)
qed (simp add: gomap_copy_def)

lemma getAutomanagedNamespaces_eq [simp]:
  "gomap_ok (fw_namespaces f) \<Longrightarrow> getAutomanagedNamespaces f = fw_namespaces f"
  using gomap_copy_append[of "[]" "fw_namespaces f"] by (simp add: getAutomanagedNamespaces_def)

lemma tracked_remove [simp]:
  "tracked (removeAutomanagedNamespace f n) = (tracked f)(n := None)"
  by (simp add: tracked_def removeAutomanagedNamespace_def go_map)

lemma deleteNamespace_tracked:
  "deleteNamespace c t n (f, w) = (r, f', w') \<Longrightarrow>
     tracked f' = (if r = None then (tracked f)(n := None) else tracked f)"
  by (auto simp: deleteNamespace_def split: prod.splits option.splits)

lemma run_all_delete_tracked:
  "run_all (deleteNamespace c t) ns (f, w) = (rs, f', w') \<Longrightarrow> distinct ns \<Longrightarrow>
     (\<forall>n. tracked f' n = (if (n, None) \<in> set (zip ns rs) then None else tracked f n)) \<and>
     length (somes rs) = card {n \<in> set ns. (n, None) \<notin> set (zip ns rs)}"
proof (induction ns arbitrary: f w rs)
  case (Cons n ns)
  obtain r f1 w1 where 1: "deleteNamespace c t n (f, w) = (r, f1, w1)" by (metis surj_pair)
  obtain rs' where 2: "run_all (deleteNamespace c t) ns (f1, w1) = (rs', f', w')" "rs = r # rs'"
    using Cons.prems(1) 1 by (auto split: prod.splits)
  let ?A = "{m \<in> set ns. (m, None) \<notin> set (zip ns rs')}"
  have IH: "\<forall>m. tracked f' m = (if (m, None) \<in> set (zip ns rs') then None else tracked f1 m)"
    "length (somes rs') = card ?A"
    using Cons.IH[OF 2(1)] Cons.prems(2) by auto
  have "n \<notin> ?A" "finite ?A" using Cons.prems(2) by auto
  moreover have "(n, None) \<notin> set (zip ns rs')" using Cons.prems(2) by (auto dest: set_zip_leftD)
  then have "{m \<in> set (n # ns). (m, None) \<notin> set (zip (n # ns) rs)} =
      (if r = None then ?A else insert n ?A)"
    using Cons.prems(2) 2 by auto
  ultimately have "length (somes rs) = card {m \<in> set (n # ns). (m, None) \<notin> set (zip (n # ns) rs)}"
    using IH(2) 2 by (cases r) auto
  moreover have "tracked f' m = (if (m, None) \<in> set (zip (n # ns) rs) then None else tracked f m)" for m
    using IH(1) deleteNamespace_tracked[OF 1] 2 by (cases r) auto
  ultimately show ?case by blast
qed simp

lemma fold_flagged:
  "fold (\<lambda>(x, b) s. if b then g x s else s) xs s = fold g (map fst (filter snd xs)) s"
  by (induction xs arbitrary: s) auto

lemma DeleteAutomanagedNamespaces_run_all:
  "DeleteAutomanagedNamespaces c t s =
     (let ns = map fst (filter snd (getAutomanagedNamespaces (fst s)))
      in (NewErrorList (somes (fst (run_all (deleteNamespace c t) ns s))),
          snd (run_all (deleteNamespace c t) ns s)))"
proof -
  have "(\<lambda>(namespace, shouldBeDeleted) (errList, s).
        if shouldBeDeleted then
          let (err, s) = deleteNamespace c t namespace s
          in (case err of None \<Rightarrow> (errList, s) | Some e \<Rightarrow> (Append errList [e], s))
        else (errList, s)) =
      (\<lambda>(x, b) s. if b then (\<lambda>x (l, s). let (r, s) = deleteNamespace c t x s
          in (case r of None \<Rightarrow> (l, s) | Some e \<Rightarrow> (Append l [e], s))) x s else s)"
    by (auto simp: fun_eq_iff)
  then show ?thesis
    unfolding DeleteAutomanagedNamespaces_def
    by (simp only: fold_flagged fold_Append_run_all) (auto simp: Let_def intro: ErrorList_eqI)
qed

text \<open>
  C22: deletion of the automanaged namespaces is accounted for.  Whatever order the goroutines take,
  namespaces not marked for deletion stay tracked, no namespace is added, and the errors are as
  many as the marked namespaces that are still tracked; an empty error list means that all of them
  are gone.
\<close>

theorem deleted_namespaces_accounted:
  assumes "gomap_ok (fw_namespaces f)"
    and "DeleteAutomanagedNamespaces c t (f, w) = (errs, f', w')"
  shows "(\<forall>n. tracked f n \<noteq> Some True \<longrightarrow> tracked f' n = tracked f n)
    \<and> (\<forall>n. tracked f' n = Some True \<longrightarrow> tracked f n = Some True)
    \<and> length (el_errors errs) = card {n. tracked f' n = Some True}"
proof -
  let ?ns = "map fst (filter snd (fw_namespaces f))"
  obtain rs where run: "run_all (deleteNamespace c t) ?ns (f, w) = (rs, f', w')"
    and errs: "el_errors errs = somes rs"
    using assms unfolding DeleteAutomanagedNamespaces_run_all by (auto simp: Let_def prod_eq_iff)
  have d: "distinct ?ns" using assms(1) by (simp add: distinct_map_filter)
  have marked: "n \<in> set ?ns \<longleftrightarrow> tracked f n = Some True" for n
    using assms(1) by (force simp: tracked_def map_of_eq_Some_iff)
  note r = run_all_delete_tracked[OF run d]
  have "{n. tracked f' n = Some True} = {n \<in> set ?ns. (n, None) \<notin> set (zip ?ns rs)}"
    using r marked by auto
  moreover have "(n, None) \<in> set (zip ?ns rs) \<Longrightarrow> tracked f n = Some True" for n
    using marked by (meson set_zip_leftD)
  ultimately show ?thesis
    using r errs by auto
qed

section \<open>Recognising namespaces\<close>

lemma show_nat_leading: "0 < n \<Longrightarrow> \<exists>ch rest. show_nat n = ch # rest \<and> nonzero_digit ch"
proof (induction n rule: show_nat.induct)
  case (1 n)
  show ?case
  proof (cases "n < 10")
    case True
    have "digit_char n \<noteq> CHR ''0''" if "0 < n"
      using char_digit_digit_char[OF True] that by (auto simp: char_digit_def)
    then show ?thesis using True "1.prems"
      by (subst show_nat.simps) (auto simp: nonzero_digit_def digit_def)
  next
    case False
    then have "0 < n div 10" by (simp add: div_greater_zero_iff)
    with False "1.IH" obtain ch rest where "show_nat (n div 10) = ch # rest" "nonzero_digit ch" by auto
    with False show ?thesis by (subst show_nat.simps) auto
  qed
qed

lemma match_anywhere_suffix: "match_here p s \<Longrightarrow> match_anywhere p (pre @ s)"
  by (induction pre) (cases s, auto)

text \<open>
  Recognising automanaged namespaces.  Every namespace \<^verbatim>\<open>prefix-i\<close> the framework creates is
  recognised by its prefix.  The expression is not anchored: any namespace whose name contains such
  a name, like \<^verbatim>\<open>load-test-1-db\<close> for the prefix \<^verbatim>\<open>test\<close>, is taken for an automanaged one too.
\<close>

theorem automanaged_names_recognised:
  assumes "1 \<le> i"
  shows "isAutomanagedNamespaceCurrentPrefix f (pre @ namespace_name (fw_prefix f) i @ post)"
proof -
  obtain ch rest where "show_nat (nat i) = ch # rest" "nonzero_digit ch"
    using show_nat_leading[of "nat i"] assms by auto
  then have "match_here (fw_prefix f @ ''-'') (namespace_name (fw_prefix f) i @ post)"
    using assms by (auto simp: match_here_def namespace_name_def show_int_def)
  then show ?thesis
    unfolding isAutomanagedNamespaceCurrentPrefix_def by (rule match_anywhere_suffix)
qed

theorem automanaged_names_recognised_witness:
  "isAutomanagedNamespaceCurrentPrefix \<lparr>fw_prefix = ''test'', fw_namespaces = []\<rparr>
     (''load-'' @ namespace_name ''test'' 1 @ ''-db'')"
  using automanaged_names_recognised[of 1 "\<lparr>fw_prefix = ''test'', fw_namespaces = []\<rparr>" "''load-''" "''-db''"]
  by simp


theorem deleted_namespaces_accounted_witness:
  "\<exists>errs f' w'. DeleteAutomanagedNamespaces set_client 5
        (\<lparr>fw_prefix = ''test'', fw_namespaces = [(''a'', True), (''b'', False)]\<rparr>, {}) = (errs, f', w')
    \<and> tracked f' ''b'' = Some False \<and> length (el_errors errs) = card {n. tracked f' n = Some True}"
proof -
  let ?f = "\<lparr>fw_prefix = ''test'', fw_namespaces = [(''a'', True), (''b'', False)]\<rparr>"
  obtain errs f' w' where "DeleteAutomanagedNamespaces set_client 5 (?f, {}) = (errs, f', w')"
    by (metis surj_pair)
  moreover have "gomap_ok (fw_namespaces ?f)" by simp
  moreover have "tracked ?f ''b'' = Some False" by (simp add: tracked_def)
  ultimately show ?thesis
    using deleted_namespaces_accounted[of ?f set_client 5 "{}" errs f' w'] by fastforce
qed

end
