(* ===== verification/Phase_Executor.thy ===== *)
theory Phase_Executor
  imports State_Pkg Tuning_Sets Framework
begin

text \<open>
  The phase half of \<^verbatim>\<open>clusterloader2/pkg/test/simple_test_executor.go\<close>: bringing the replicas of an
  object bundle in a list of namespaces to the number a phase asks for.

  The environment \<open>xenv\<close> holds the client, the template provider (\<open>x_raw\<close> and \<open>x_template\<close>), the
  template mapping, the listing of objects by label and the clock and randomness of the tuning
  sets.  The closures collected in \<^verbatim>\<open>actions\<close> are values of type \<open>action\<close>.  \<open>x_order\<close> is the order in which the
  goroutines of a tuning set take effect.  The instances states are pointers in the source; the
  aliases of one pointer always hold equal values here, so they are values.
\<close>

section \<open>Objects\<close>

datatype OperationType = createObject | patchObject | deleteObject | OtherOperation int

datatype action =
    DeleteAction string int "InstancesState list"
  | PatchAction string int
  | CreateAction string int

record 'w xenv =
  x_client :: "'w client"
  x_raw :: "string \<Rightarrow> goerr + Unstructured"
  x_template :: "string \<Rightarrow> params \<Rightarrow> goerr + Unstructured"
  x_mapping :: params
  x_selector :: "string \<Rightarrow> goerr + string"
  x_waitCount :: "('w \<times> unit list) wait_pkg"
  x_listMatching :: "string \<Rightarrow> gvr \<Rightarrow> string \<Rightarrow> 'w \<Rightarrow> (goerr + unit list) \<times> 'w"
  x_tenv :: tenv
  x_order :: "action list \<Rightarrow> action list"

definition object_name :: "Object \<Rightarrow> int \<Rightarrow> string" where
  "object_name ob replicaIndex = ob_Basename ob @ ''-'' @ show_int replicaIndex"

definition object_mapping :: "'w xenv \<Rightarrow> Object \<Rightarrow> string \<Rightarrow> int \<Rightarrow> params" where
  "object_mapping env ob namespace replicaIndex =
     (let mapping = CopyMap (ob_TemplateFillMap ob) (CloneMap (x_mapping env));
          mapping = AList.update ''BaseName'' (VString (ob_Basename ob)) mapping;
          mapping = AList.update ''Index'' (VInt replicaIndex) mapping;
          mapping = AList.update ''Name'' (VString (object_name ob replicaIndex)) mapping
      in AList.update ''Namespace'' (VString namespace) mapping)"

text \<open>\<^verbatim>\<open>namespace X object Y creation error: E\<close>, and the same for updating and deletion.\<close>

definition object_err :: "string \<Rightarrow> string \<Rightarrow> string \<Rightarrow> goerr \<Rightarrow> goerr" where
  "object_err namespace objName what err =
     Errorf (''namespace '' @ namespace @ '' object '' @ objName @ '' '' @ what @ '' error: '' @ err_msg err) []"

definition append_err :: "(goerr \<Rightarrow> goerr) \<Rightarrow> goerr option \<times> 'w \<Rightarrow> ErrorList \<times> 'w" where
  "append_err f r =
     (case r of
        (None, w) \<Rightarrow> (NewErrorList [], w)
      | (Some err, w) \<Rightarrow> (Append (NewErrorList []) [f err], w))"

definition read_object ::
  "'w xenv \<Rightarrow> Object \<Rightarrow> string \<Rightarrow> int \<Rightarrow> OperationType \<Rightarrow> goerr + (goerr + Unstructured)" where
  "read_object env ob namespace replicaIndex operation =
     (case operation of
        OtherOperation k \<Rightarrow>
          Inl (Errorf (''unsupported operation '' @ show_int k @ '' for namespace '' @ namespace @ '' object ''
                 @ object_name ob replicaIndex) [])
      | deleteObject \<Rightarrow>
          (case x_raw env (ob_ObjectTemplatePath ob) of
             Inl err \<Rightarrow>
               if err \<noteq> ErrorEmptyFile
               then Inl (Errorf (''reading template ('' @ ob_ObjectTemplatePath ob
                           @ '') for deletion error: '' @ err_msg err) [])
               else Inr (Inl err)
           | Inr obj \<Rightarrow> Inr (Inr obj))
      | _ \<Rightarrow>
          (case x_template env (ob_ObjectTemplatePath ob) (object_mapping env ob namespace replicaIndex) of
             Inl err \<Rightarrow>
               if err \<noteq> ErrorEmptyFile
               then Inl (Errorf (''reading template ('' @ ob_ObjectTemplatePath ob @ '') error: '' @ err_msg err) [])
               else Inr (Inl err)
           | Inr obj \<Rightarrow> Inr (Inr obj)))"

definition ExecuteObject ::
  "'w xenv \<Rightarrow> Object \<Rightarrow> string \<Rightarrow> int \<Rightarrow> OperationType \<Rightarrow> 'w \<Rightarrow> ErrorList \<times> 'w" where
  "ExecuteObject env ob namespace replicaIndex operation w =
     (let objName = object_name ob replicaIndex in
      case read_object env ob namespace replicaIndex operation of
        Inl err \<Rightarrow> (NewErrorList [err], w)
      | Inr (Inl emptyFile) \<Rightarrow> (NewErrorList [], w)
      | Inr (Inr obj) \<Rightarrow>
          (case operation of
             createObject \<Rightarrow>
               append_err (object_err namespace objName ''creation'')
                 (fw_CreateObject (x_client env) namespace objName obj [] w)
           | patchObject \<Rightarrow>
               append_err (object_err namespace objName ''updating'')
                 (fw_PatchObject (x_client env) namespace objName obj [] w)
           | deleteObject \<Rightarrow>
               append_err (object_err namespace objName ''deletion'')
                 (fw_DeleteObject (x_client env) (uo_gvk obj) namespace objName [] w)
           | OtherOperation k \<Rightarrow> (NewErrorList [], w)))"

section \<open>Identifiers, counts and namespaces\<close>

definition getIdentifier :: "'w xenv \<Rightarrow> Object \<Rightarrow> goerr + InstancesIdentifier" where
  "getIdentifier env ob =
     (case x_raw env (ob_ObjectTemplatePath ob) of
        Inl err \<Rightarrow> Inl (Errorf (''reading template ('' @ ob_ObjectTemplatePath ob
                       @ '') for identifier error: '' @ err_msg err) [])
      | Inr obj \<Rightarrow> Inr \<lparr>ii_Basename = ob_Basename ob, ii_ObjectKind = gvk_Kind (uo_gvk obj),
                        ii_APIGroup = gvk_Group (uo_gvk obj)\<rparr>)"

definition GetNumObjectsMatchingSelector ::
  "'w xenv \<Rightarrow> string \<Rightarrow> gvr \<Rightarrow> string \<Rightarrow> 'w \<Rightarrow> (int \<times> goerr option) \<times> 'w" where
  "GetNumObjectsMatchingSelector env namespace resource labelSelector w =
     (let ((items, err), w) =
            list_retried (x_waitCount env) (c_errs (x_client env))
              (x_listMatching env namespace resource labelSelector) w
      in ((int (length items), err), w))"

text \<open>An error of the listing is dropped, as in the source: the count is then 0.\<close>

definition getReplicaCountOfNewObject ::
  "'w xenv \<Rightarrow> string \<Rightarrow> Object \<Rightarrow> 'w \<Rightarrow> (goerr + int) \<times> 'w" where
  "getReplicaCountOfNewObject env namespace ob w =
     (case ob_ListUnknownObjectOptions ob of
        None \<Rightarrow> (Inr 0, w)
      | Some opts \<Rightarrow>
          (case x_selector env (lo_LabelSelector opts) of
             Inl err \<Rightarrow> (Inl err, w)
           | Inr selector \<Rightarrow>
               (case x_raw env (ob_ObjectTemplatePath ob) of
                  Inl err \<Rightarrow> (Inl err, w)
                | Inr obj \<Rightarrow>
                    let gvr = c_guessKindToResource (x_client env) (uo_gvk obj);
                        ((replicaCount, err), w) = GetNumObjectsMatchingSelector env namespace gvr selector w
                    in (case err of
                          Some e \<Rightarrow> (Inr 0, w)
                        | None \<Rightarrow> (Inr (wrap 32 replicaCount), w)))))"

text \<open>
  The loop over an \<^verbatim>\<open>int32\<close> index, which wraps around; \<open>None\<close> when it never ends.
\<close>

partial_function (option) namespaces_range_loop ::
  "string \<Rightarrow> int \<Rightarrow> int \<Rightarrow> string list \<Rightarrow> string list option" where
  "namespaces_range_loop nsBasename i mx nsList =
     (if i \<le> mx
      then namespaces_range_loop nsBasename (wrap 32 (i + 1)) mx
             (nsList @ [nsBasename @ ''-'' @ show_int i])
      else Some nsList)"

definition createNamespacesList :: "Framework \<Rightarrow> NamespaceRange option \<Rightarrow> string list option" where
  "createNamespacesList f namespaceRange =
     (case namespaceRange of
        None \<Rightarrow> Some [[]]
      | Some r \<Rightarrow>
          let nsBasename = (case nr_Basename r of
                              None \<Rightarrow> GetAutomanagedNamespacePrefix f
                            | Some b \<Rightarrow> b)
          in namespaces_range_loop nsBasename (nr_Min r) (nr_Max r) [])"

text \<open>The loop of \<^verbatim>\<open>verifyBundleCorrectness\<close>; \<open>prev\<close> is the element before, if any.\<close>

fun verify_loop :: "int \<Rightarrow> InstancesState option \<Rightarrow> InstancesState list \<Rightarrow> goerr option" where
  "verify_loop expectedReplicaCount prev [] = None"
| "verify_loop expectedReplicaCount prev (inst # insts) =
     (if expectedReplicaCount \<noteq> - 1 \<and> CurrentReplicaCount inst \<noteq> expectedReplicaCount
      then Some (Errorf (''bundle error: '' @ ob_Basename (is_Object inst) @ '' has ''
             @ show_int (CurrentReplicaCount inst) @ '' replicas while ''
             @ (case prev of None \<Rightarrow> [] | Some p \<Rightarrow> ob_Basename (is_Object p)) @ '' has ''
             @ (case prev of None \<Rightarrow> [] | Some p \<Rightarrow> show_int (CurrentReplicaCount p))) [])
      else verify_loop (CurrentReplicaCount inst) (Some inst) insts)"

definition verifyBundleCorrectness :: "InstancesState list \<Rightarrow> goerr option" where
  "verifyBundleCorrectness instancesStates = verify_loop (- 1) None instancesStates"

section \<open>Actions\<close>

fun delete_bundle ::
  "'w xenv \<Rightarrow> string \<Rightarrow> int \<Rightarrow> (Object \<times> InstancesState) list \<Rightarrow> ErrorList \<times> 'w \<Rightarrow> ErrorList \<times> 'w" where
  "delete_bundle env nsName replicaIndex [] s = s"
| "delete_bundle env nsName replicaIndex ((ob, inst) # rest) (errList, w) =
     delete_bundle env nsName replicaIndex rest
       (if replicaIndex < CurrentReplicaCount inst
        then let (objectErrList, w) = ExecuteObject env ob nsName replicaIndex deleteObject w
             in (if \<not> IsEmpty objectErrList then Concat errList (Some objectErrList) else errList, w)
        else (errList, w))"

fun apply_bundle ::
  "'w xenv \<Rightarrow> string \<Rightarrow> int \<Rightarrow> OperationType \<Rightarrow> Object list \<Rightarrow> ErrorList \<times> 'w \<Rightarrow> ErrorList \<times> 'w" where
  "apply_bundle env nsName replicaIndex operation [] s = s"
| "apply_bundle env nsName replicaIndex operation (ob # obs) (errList, w) =
     (let (objectErrList, w) = ExecuteObject env ob nsName replicaIndex operation w
      in if \<not> IsEmpty objectErrList then (Concat errList (Some objectErrList), w)
         else apply_bundle env nsName replicaIndex operation obs (errList, w))"

fun run_action :: "'w xenv \<Rightarrow> Object list \<Rightarrow> action \<Rightarrow> ErrorList \<times> 'w \<Rightarrow> ErrorList \<times> 'w" where
  "run_action env bundle (DeleteAction nsName i insts) s =
     delete_bundle env nsName i (rev (zip bundle insts)) s"
| "run_action env bundle (PatchAction nsName i) s = apply_bundle env nsName i patchObject bundle s"
| "run_action env bundle (CreateAction nsName i) s = apply_bundle env nsName i createObject bundle s"

text \<open>
  The actions of one namespace, from the first instance's count \<open>C\<close> and the requested number \<open>R\<close>:
  delete \<open>R, \<dots>, C - 1\<close>, patch \<open>0, \<dots>, R - 1\<close> if \<open>C = R\<close>, create \<open>C, \<dots>, R - 1\<close>.
\<close>

definition namespace_actions :: "int \<Rightarrow> string \<Rightarrow> InstancesState list \<Rightarrow> action list" where
  "namespace_actions R nsName insts =
     (let C = CurrentReplicaCount (hd insts)
      in map (\<lambda>i. DeleteAction nsName i insts) [R..C - 1] @
         (if C = R then map (\<lambda>i. PatchAction nsName i) [0..R - 1] else []) @
         map (\<lambda>i. CreateAction nsName i) [C..R - 1])"

section \<open>The phase\<close>

record 'w xstate =
  xs_namespaces :: NamespacesState
  xs_factory :: simpleFactory
  xs_framework :: Framework
  xs_world :: 'w

fun bundle_loop ::
  "'w xenv \<Rightarrow> string \<Rightarrow> int \<Rightarrow> Object list \<Rightarrow> InstancesState list \<Rightarrow> NamespacesState \<times> 'w \<Rightarrow>
   (goerr + InstancesState list) \<times> NamespacesState \<times> 'w" where
  "bundle_loop env nsName R [] acc s = (Inr acc, s)"
| "bundle_loop env nsName R (ob # obs) acc (st, w) =
     (case getIdentifier env ob of
        Inl err \<Rightarrow> (Inl err, st, w)
      | Inr ident \<Rightarrow>
          (case (case NamespacesState_Get st nsName ident of
                   Some inst \<Rightarrow> (Inr inst, w)
                 | None \<Rightarrow>
                     (case getReplicaCountOfNewObject env nsName ob w of
                        (Inl err, w) \<Rightarrow> (Inl err, w)
                      | (Inr cnt, w) \<Rightarrow>
                          (Inr \<lparr>DesiredReplicaCount = 0, CurrentReplicaCount = cnt, is_Object = ob\<rparr>, w))) of
             (Inl err, w) \<Rightarrow> (Inl err, st, w)
           | (Inr inst, w) \<Rightarrow>
               let inst = inst\<lparr>DesiredReplicaCount := R\<rparr>
               in bundle_loop env nsName R obs (acc @ [inst])
                    (NamespacesState_Set st nsName ident inst, w)))"

text \<open>How the loop over the namespaces ends: with a return value, or by going on to the tuning set.\<close>

datatype flow = Return "ErrorList option" | Proceed

fun namespaces_loop ::
  "'w xenv \<Rightarrow> Phase \<Rightarrow> string list \<Rightarrow> action list \<Rightarrow> (string \<times> InstancesState list) list \<Rightarrow>
   NamespacesState \<times> 'w \<Rightarrow>
   flow \<times> action list \<times> (string \<times> InstancesState list) list \<times> NamespacesState \<times> 'w" where
  "namespaces_loop env phase [] actions deferred s = (Proceed, actions, deferred, s)"
| "namespaces_loop env phase (nsName # nsList) actions deferred s =
     (case bundle_loop env nsName (ph_ReplicasPerNamespace phase) (ph_ObjectBundle phase) [] s of
        (Inl err, s) \<Rightarrow> (Return (Some (Append (NewErrorList []) [err])), actions, deferred, s)
      | (Inr insts, s) \<Rightarrow>
          (case verifyBundleCorrectness insts of
             Some err \<Rightarrow> (Return (Some (NewErrorList [err])), actions, deferred, s)
           | None \<Rightarrow>
               if length insts = 0 then (Return None, actions, deferred, s)
               else namespaces_loop env phase nsList
                      (actions @ namespace_actions (ph_ReplicasPerNamespace phase) nsName insts)
                      (deferred @ [(nsName, insts)]) s))"

definition empty_identifier :: InstancesIdentifier where
  "empty_identifier = \<lparr>ii_Basename = [], ii_ObjectKind = [], ii_APIGroup = []\<rparr>"

text \<open>One deferred function: the current count becomes the desired one.\<close>

definition run_deferred ::
  "'w xenv \<Rightarrow> Object list \<Rightarrow> string \<times> InstancesState list \<Rightarrow> NamespacesState \<Rightarrow> NamespacesState" where
  "run_deferred env bundle = (\<lambda>(nsName, insts) st.
     fold (\<lambda>(ob, inst) st.
        NamespacesState_Set st nsName
          (case getIdentifier env ob of Inr ident \<Rightarrow> ident | Inl _ \<Rightarrow> empty_identifier)
          (inst\<lparr>CurrentReplicaCount := DesiredReplicaCount inst\<rparr>))
       (zip bundle insts) st)"

text \<open>
  \<open>None\<close> when the phase does not return: an endless namespace range or a panic of the tuning set.
\<close>

definition ExecutePhase ::
  "'w xenv \<Rightarrow> Phase \<Rightarrow> 'w xstate \<Rightarrow> (ErrorList option \<times> 'w xstate) option" where
  "ExecutePhase env phase s =
     (case (case ph_NamespaceList phase of
              Some l \<Rightarrow> Some l
            | None \<Rightarrow> createNamespacesList (xs_framework s) (ph_NamespaceRange phase)) of
        None \<Rightarrow> None
      | Some nsList \<Rightarrow>
          (case CreateTuningSet (xs_factory s) (ph_TuningSet phase) of
             (Inl err, tf) \<Rightarrow>
               Some (Some (NewErrorList [Errorf (''tuning set creation error: '' @ err_msg err) []]),
                     s\<lparr>xs_factory := tf\<rparr>)
           | (Inr tuning, tf) \<Rightarrow>
               let (flow, actions, deferred, st, w) =
                     namespaces_loop env phase nsList [] [] (xs_namespaces s, xs_world s);
                   finish = (\<lambda>ret w. (ret, s\<lparr>xs_factory := tf, xs_world := w,
                      xs_namespaces := fold (run_deferred env (ph_ObjectBundle phase)) (rev deferred) st\<rparr>))
               in (case flow of
                     Return ret \<Rightarrow> Some (finish ret w)
                   | Proceed \<Rightarrow>
                       (case Execute (x_tenv env) tuning actions of
                          None \<Rightarrow> None
                        | Some tr \<Rightarrow>
                            let (errList, w) =
                                  fold (run_action env (ph_ObjectBundle phase)) (x_order env (started tr))
                                    (NewErrorList [], w)
                            in Some (finish (Some errList) w)))))"

section \<open>Namespace ranges\<close>

lemma wrap32_Suc: "- (2 ^ 31) \<le> i \<Longrightarrow> i < maxInt32 \<Longrightarrow> wrap 32 (i + 1) = i + 1"
  by (rule wrap_id) (auto simp: fits_def)

lemma namespaces_range_loop_returns:
  assumes "- (2 ^ 31) \<le> i" "i \<le> mx + 1" "mx < maxInt32"
  shows "namespaces_range_loop b i mx acc = Some (acc @ map (\<lambda>j. b @ ''-'' @ show_int j) [i..mx])"
  using assms
proof (induction "nat (mx + 1 - i)" arbitrary: i acc)
  case 0
  then show ?case by (subst namespaces_range_loop.simps) simp
next
  case (Suc n)
  then have le: "i \<le> mx" by linarith
  have "n = nat (mx + 1 - (i + 1))" using Suc.hyps(2) by linarith
  with Suc.hyps(1)[of "i + 1"] Suc.prems le
  have "namespaces_range_loop b (i + 1) mx (acc @ [b @ ''-'' @ show_int i]) =
      Some ((acc @ [b @ ''-'' @ show_int i]) @ map (\<lambda>j. b @ ''-'' @ show_int j) [i + 1..mx])"
    by simp
  then show ?case
    using le Suc.prems wrap32_Suc[of i] upto_rec1[OF le]
    by (subst namespaces_range_loop.simps) simp
qed

lemma namespaces_range_loop_diverges:
  "namespaces_range_loop b i mx acc = Some r \<Longrightarrow> \<not> (mx = maxInt32 \<and> i \<le> maxInt32)"
proof (rule namespaces_range_loop.raw_induct
    [where P = "\<lambda>b i mx acc r. \<not> (mx = maxInt32 \<and> i \<le> maxInt32)"], goal_cases)
  case (1 rec b i mx acc r)
  have "wrap 32 (i + 1) \<le> maxInt32"
    using wrap_fits[of 32 "i + 1"] by (simp add: fits_def)
  with 1 show ?case by (auto split: if_splits)
qed assumption

text \<open>
  The namespaces of a range.  A range that passes validation gives the namespaces
  \<^verbatim>\<open>basename-Min\<close> to \<^verbatim>\<open>basename-Max\<close> in order, except that a range with the largest \<^verbatim>\<open>int32\<close> as its
  maximum makes the loop run forever: the index wraps around before it exceeds the maximum.
\<close>

theorem createNamespacesList_range:
  assumes "0 \<le> nr_Min r" "nr_Min r \<le> nr_Max r" "nr_Max r \<le> maxInt32"
  shows "createNamespacesList f (Some r) =
    (if nr_Max r = maxInt32 then None
     else Some (map (\<lambda>i. (case nr_Basename r of None \<Rightarrow> fw_prefix f | Some b \<Rightarrow> b) @ ''-'' @ show_int i)
                  [nr_Min r..nr_Max r]))"
proof (cases "nr_Max r = maxInt32")
  case True
  have "namespaces_range_loop b (nr_Min r) (nr_Max r) [] = None" for b
    using namespaces_range_loop_diverges[of b "nr_Min r" "nr_Max r" "[]"] True assms
    by (cases "namespaces_range_loop b (nr_Min r) (nr_Max r) []") auto
  with True show ?thesis by (simp add: createNamespacesList_def Let_def)
next
  case False
  with assms namespaces_range_loop_returns[of "nr_Min r" "nr_Max r" _ "[]"] show ?thesis
    by (auto simp: createNamespacesList_def Let_def GetAutomanagedNamespacePrefix_def split: option.splits)
qed

theorem createNamespacesList_range_witness:
  "createNamespacesList newFramework (Some \<lparr>nr_Min = 1, nr_Max = 2, nr_Basename = Some ''ns''\<rparr>) =
     Some [''ns-'' @ show_int 1, ''ns-'' @ show_int 2]
   \<and> createNamespacesList newFramework (Some \<lparr>nr_Min = 1, nr_Max = 2147483647, nr_Basename = None\<rparr>) = None"
  using createNamespacesList_range[of "\<lparr>nr_Min = 1, nr_Max = 2, nr_Basename = Some ''ns''\<rparr>" newFramework]
    createNamespacesList_range[of "\<lparr>nr_Min = 1, nr_Max = 2147483647, nr_Basename = None\<rparr>" newFramework]
  by (simp add: upto.simps)

section \<open>Recorded counts\<close>

text \<open>The replica count the state records for an identifier; unknown objects count as 0.\<close>

definition recorded :: "NamespacesState \<Rightarrow> string \<Rightarrow> InstancesIdentifier \<Rightarrow> int" where
  "recorded st ns ident =
     (case NamespacesState_Get st ns ident of None \<Rightarrow> 0 | Some inst \<Rightarrow> CurrentReplicaCount inst)"

definition ident :: "'w xenv \<Rightarrow> Object \<Rightarrow> InstancesIdentifier" where
  "ident env ob = (case getIdentifier env ob of Inr i \<Rightarrow> i | Inl _ \<Rightarrow> empty_identifier)"

lemma recorded_Set [simp]:
  "recorded (NamespacesState_Set st ns i inst) ns' i' =
     (if ns' = ns \<and> i' = i then CurrentReplicaCount inst else recorded st ns' i')"
  by (simp add: recorded_def)

lemma verify_loop_equal:
  assumes "verify_loop e prev insts = None" "e \<noteq> - 1"
    "\<And>x. x \<in> set insts \<Longrightarrow> CurrentReplicaCount x \<noteq> - 1"
  shows "\<forall>x \<in> set insts. CurrentReplicaCount x = e"
  using assms
  by (induction e prev insts rule: verify_loop.induct) (auto split: if_splits)

lemma verifyBundleCorrectness_equal:
  assumes "verifyBundleCorrectness insts = None"
    and "\<And>x. x \<in> set insts \<Longrightarrow> CurrentReplicaCount x \<noteq> - 1" and "x \<in> set insts"
  shows "CurrentReplicaCount x = CurrentReplicaCount (hd insts)"
proof (cases insts)
  case (Cons y ys)
  have "verify_loop (CurrentReplicaCount y) (Some y) ys = None"
    using assms(1) Cons by (simp add: verifyBundleCorrectness_def)
  then have "\<forall>z \<in> set ys. CurrentReplicaCount z = CurrentReplicaCount y"
    by (rule verify_loop_equal) (use assms(2) Cons in auto)
  with assms(3) Cons show ?thesis by auto
qed (use assms in simp)

definition no_listing :: "Object list \<Rightarrow> bool" where
  "no_listing obs \<longleftrightarrow> (\<forall>ob \<in> set obs. ob_ListUnknownObjectOptions ob = None)"

text \<open>
  The bundle loop records the desired count and changes nothing else: neither the world nor any
  recorded count.
\<close>

lemma bundle_loop_result:
  assumes "bundle_loop env ns R obs acc (st, w) = (r, st', w')" "no_listing obs"
  shows "w' = w" "recorded st' = recorded st"
    and "\<And>insts. r = Inr insts \<Longrightarrow> \<exists>new. insts = acc @ new \<and> length new = length obs \<and>
      (\<forall>ob \<in> set obs. getIdentifier env ob = Inr (ident env ob)) \<and>
      (\<forall>(ob, x) \<in> set (zip obs new). DesiredReplicaCount x = R \<and>
         CurrentReplicaCount x = recorded st ns (ident env ob))"
proof -
  have "w' = w \<and> recorded st' = recorded st \<and>
    (\<forall>insts. r = Inr insts \<longrightarrow> (\<exists>new. insts = acc @ new \<and> length new = length obs \<and>
      (\<forall>ob \<in> set obs. getIdentifier env ob = Inr (ident env ob)) \<and>
      (\<forall>(ob, x) \<in> set (zip obs new). DesiredReplicaCount x = R \<and>
         CurrentReplicaCount x = recorded st ns (ident env ob))))"
    using assms
  proof (induction obs arbitrary: acc st)
    case (Cons ob obs)
    show ?case
    proof (cases "getIdentifier env ob")
      case (Inr i)
      then have i: "ident env ob = i" by (simp add: ident_def)
      have nl: "ob_ListUnknownObjectOptions ob = None" "no_listing obs"
        using Cons.prems(2) by (auto simp: no_listing_def)
      define inst where "inst = (case NamespacesState_Get st ns i of Some x \<Rightarrow> x
        | None \<Rightarrow> \<lparr>DesiredReplicaCount = 0, CurrentReplicaCount = 0, is_Object = ob\<rparr>)\<lparr>DesiredReplicaCount := R\<rparr>"
      have cnt: "CurrentReplicaCount inst = recorded st ns i" "DesiredReplicaCount inst = R"
        by (auto simp: inst_def recorded_def split: option.splits)
      have step: "bundle_loop env ns R obs (acc @ [inst]) (NamespacesState_Set st ns i inst, w) = (r, st', w')"
        using Cons.prems(1) Inr nl(1)
        by (auto simp: getReplicaCountOfNewObject_def inst_def Let_def split: option.splits)
      have "recorded (NamespacesState_Set st ns i inst) = recorded st"
        using cnt by (auto simp: fun_eq_iff)
      with Cons.IH[OF step nl(2)] cnt Inr i show ?thesis by fastforce
    qed (use Cons.prems in auto)
  qed auto
  then show "w' = w" "recorded st' = recorded st"
    and "\<And>insts. r = Inr insts \<Longrightarrow> \<exists>new. insts = acc @ new \<and> length new = length obs \<and>
      (\<forall>ob \<in> set obs. getIdentifier env ob = Inr (ident env ob)) \<and>
      (\<forall>(ob, x) \<in> set (zip obs new). DesiredReplicaCount x = R \<and>
         CurrentReplicaCount x = recorded st ns (ident env ob))"
    by blast+
qed

text \<open>What a deferred entry holds: one instance per object of the bundle, with these counts.\<close>

definition entry_ok ::
  "'w xenv \<Rightarrow> Phase \<Rightarrow> NamespacesState \<Rightarrow> string \<times> InstancesState list \<Rightarrow> bool" where
  "entry_ok env phase st = (\<lambda>(ns, insts).
     length insts = length (ph_ObjectBundle phase) \<and>
     (\<forall>ob \<in> set (ph_ObjectBundle phase). getIdentifier env ob = Inr (ident env ob)) \<and>
     (\<forall>(ob, x) \<in> set (zip (ph_ObjectBundle phase) insts).
        DesiredReplicaCount x = ph_ReplicasPerNamespace phase \<and>
        CurrentReplicaCount x = recorded st ns (ident env ob)) \<and>
     verifyBundleCorrectness insts = None \<and> insts \<noteq> [])"

lemma namespaces_loop_result:
  assumes "namespaces_loop env phase nsList acts de (st, w) = (flw, acts', de', st', w')"
    and "no_listing (ph_ObjectBundle phase)"
  shows "w' = w \<and> recorded st' = recorded st \<and>
    (\<exists>new. de' = de @ new \<and> (\<forall>e \<in> set new. entry_ok env phase st e) \<and>
       acts' = acts @ concat (map (\<lambda>(ns, insts).
                 namespace_actions (ph_ReplicasPerNamespace phase) ns insts) new) \<and>
       (\<exists>rest. nsList = map fst new @ rest \<and> (flw = Proceed \<longrightarrow> rest = [])))"
  using assms(1)
proof (induction nsList arbitrary: acts de st)
  case (Cons ns nsList)
  obtain r st1 w1 where b: "bundle_loop env ns (ph_ReplicasPerNamespace phase) (ph_ObjectBundle phase) []
      (st, w) = (r, st1, w1)" by (metis surj_pair)
  note br = bundle_loop_result[OF b assms(2)]
  show ?case
  proof (cases "\<exists>insts. r = Inr insts \<and> verifyBundleCorrectness insts = None \<and> insts \<noteq> []")
    case True
    then obtain insts where i: "r = Inr insts" "verifyBundleCorrectness insts = None" "insts \<noteq> []" by blast
    let ?a = "namespace_actions (ph_ReplicasPerNamespace phase) ns insts"
    from Cons.prems b i br(1) have
      "namespaces_loop env phase nsList (acts @ ?a) (de @ [(ns, insts)]) (st1, w) = (flw, acts', de', st', w')"
      by simp
    from Cons.IH[OF this] obtain new rest where n: "w' = w" "recorded st' = recorded st1"
      "de' = (de @ [(ns, insts)]) @ new" "\<forall>e \<in> set new. entry_ok env phase st1 e"
      "acts' = (acts @ ?a) @ concat (map (\<lambda>(ns, insts).
                 namespace_actions (ph_ReplicasPerNamespace phase) ns insts) new)"
      "nsList = map fst new @ rest" "flw = Proceed \<longrightarrow> rest = []"
      by blast
    have "entry_ok env phase st (ns, insts)"
      using br(3)[OF i(1)] i by (auto simp: entry_ok_def)
    moreover have "entry_ok env phase st1 = entry_ok env phase st"
      using br(2) by (simp add: entry_ok_def fun_eq_iff)
    ultimately show ?thesis
      using n br(2) by (intro conjI exI[of _ "(ns, insts) # new"] exI[of _ rest]) auto
  next
    case False
    with Cons.prems b br(1,2) have "w' = w" "recorded st' = recorded st" "de' = de" "acts' = acts"
      "flw \<noteq> Proceed"
      by (auto split: sum.splits option.splits if_splits)
    then show ?thesis by (intro conjI exI[of _ "[]"] exI[of _ "ns # nsList"]) auto
  qed
qed auto

section \<open>Effects on the cluster\<close>

definition objs :: "('w \<Rightarrow> gvr \<Rightarrow> string \<Rightarrow> string \<Rightarrow> bool) \<Rightarrow> 'w \<Rightarrow> (gvr \<times> string \<times> string) set" where
  "objs has w = {(g, ns, n). has w g ns n}"

definition object_gvk :: "'w xenv \<Rightarrow> Object \<Rightarrow> gvk" where
  "object_gvk env ob = (case x_raw env (ob_ObjectTemplatePath ob) of Inr r \<Rightarrow> uo_gvk r
                        | Inl _ \<Rightarrow> \<lparr>gvk_Group = [], gvk_Version = [], gvk_Kind = []\<rparr>)"

definition replica_key :: "'w xenv \<Rightarrow> Object \<Rightarrow> string \<Rightarrow> int \<Rightarrow> gvr \<times> string \<times> string" where
  "replica_key env ob ns i = (pluralResource (x_client env) (object_gvk env ob), ns, object_name ob i)"

text \<open>
  The template of an object is not empty, and filling it in does not change its kind.
\<close>

definition template_ok :: "'w xenv \<Rightarrow> Object \<Rightarrow> bool" where
  "template_ok env ob \<longleftrightarrow>
     x_raw env (ob_ObjectTemplatePath ob) \<noteq> Inl ErrorEmptyFile \<and>
     (\<forall>m. x_template env (ob_ObjectTemplatePath ob) m \<noteq> Inl ErrorEmptyFile) \<and>
     (\<forall>m ob'. x_template env (ob_ObjectTemplatePath ob) m = Inr ob' \<longrightarrow> uo_gvk ob' = object_gvk env ob)"

lemma others_kept_objs:
  "others_kept has k w w' \<longleftrightarrow> objs has w' - {k} = objs has w - {k}"
  by (auto simp: others_kept_def objs_def set_eq_iff)

lemma append_err_simps:
  "el_errors (fst (append_err f r)) = [] \<longleftrightarrow> fst r = None" "snd (append_err f r) = snd r"
  by (auto simp: append_err_def split: prod.splits option.splits)

lemma ExecuteObject_create:
  assumes srv: "object_server (x_client env) tick has" and t: "template_ok env ob"
    and run: "ExecuteObject env ob ns i createObject w = (errs, w')" "el_errors errs = []"
  shows "objs has w' = insert (replica_key env ob ns i) (objs has w)"
proof -
  obtain obj where obj: "x_template env (ob_ObjectTemplatePath ob) (object_mapping env ob ns i) = Inr obj"
    and call: "fst (fw_CreateObject (x_client env) ns (object_name ob i) obj [] w) = None"
      "snd (fw_CreateObject (x_client env) ns (object_name ob i) obj [] w) = w'"
    using run t
    by (auto simp: ExecuteObject_def read_object_def template_ok_def append_err_def Let_def
        split: sum.splits if_splits prod.splits option.splits)
  have "uo_gvk obj = object_gvk env ob" using t obj by (auto simp: template_ok_def)
  moreover have "client_CreateObject (x_client env) ns (object_name ob i) obj [] w = (None, w')"
    using call by (simp add: fw_CreateObject_def prod_eq_iff)
  note e = client_CreateObject_effect[OF srv this]
  ultimately have "replica_key env ob ns i \<in> objs has w'"
    "objs has w' - {replica_key env ob ns i} = objs has w - {replica_key env ob ns i}"
    using e(1) e(2) by (auto simp: others_kept_objs replica_key_def objs_def)
  then show ?thesis by blast
qed

lemma ExecuteObject_delete:
  assumes srv: "object_server (x_client env) tick has" and t: "template_ok env ob"
    and run: "ExecuteObject env ob ns i deleteObject w = (errs, w')" "el_errors errs = []"
  shows "objs has w' = objs has w - {replica_key env ob ns i}"
proof -
  obtain obj where obj: "x_raw env (ob_ObjectTemplatePath ob) = Inr obj"
    and call: "fst (fw_DeleteObject (x_client env) (uo_gvk obj) ns (object_name ob i) [] w) = None"
      "snd (fw_DeleteObject (x_client env) (uo_gvk obj) ns (object_name ob i) [] w) = w'"
    using run t
    by (auto simp: ExecuteObject_def read_object_def template_ok_def append_err_def Let_def
        split: sum.splits if_splits prod.splits option.splits)
  have "uo_gvk obj = object_gvk env ob" using obj by (simp add: object_gvk_def)
  moreover have "client_DeleteObject (x_client env) (uo_gvk obj) ns (object_name ob i) [] w = (None, w')"
    using call by (simp add: fw_DeleteObject_def prod_eq_iff)
  note e = client_DeleteObject_effect[OF srv this]
  ultimately have "replica_key env ob ns i \<notin> objs has w'"
    "objs has w' - {replica_key env ob ns i} = objs has w - {replica_key env ob ns i}"
    using e(1) e(2) by (auto simp: others_kept_objs replica_key_def objs_def)
  then show ?thesis by blast
qed

lemma ExecuteObject_patch:
  assumes srv: "object_server (x_client env) tick has"
    and run: "ExecuteObject env ob ns i patchObject w = (errs, w')"
  shows "objs has w' = objs has w"
proof -
  have "has (snd (client_PatchObject (x_client env) ns n obj [] w)) = has w" for n obj
    using client_PatchObject_effect[OF srv] by (metis surj_pair snd_conv)
  then have "has w' = has w"
    using run
    by (auto simp: ExecuteObject_def read_object_def append_err_def fw_PatchObject_def Let_def
        split: sum.splits if_splits prod.splits option.splits) (metis snd_conv)+
  then show ?thesis by (simp add: objs_def)
qed

definition bundle_keys :: "'w xenv \<Rightarrow> Object list \<Rightarrow> string \<Rightarrow> int \<Rightarrow> (gvr \<times> string \<times> string) set" where
  "bundle_keys env obs ns i = (\<lambda>ob. replica_key env ob ns i) ` set obs"

lemma delete_bundle_effect:
  assumes srv: "object_server (x_client env) tick has"
    and "delete_bundle env ns i xs (l, w) = (l', w')" "el_errors l' = []"
    and "\<forall>(ob, x) \<in> set xs. template_ok env ob \<and> i < CurrentReplicaCount x"
  shows "el_errors l = [] \<and> objs has w' = objs has w - bundle_keys env (map fst xs) ns i"
  using assms(2-)
proof (induction xs arbitrary: l w)
  case (Cons y xs)
  obtain ob x where y: "y = (ob, x)" by (cases y)
  obtain errs w1 where e: "ExecuteObject env ob ns i deleteObject w = (errs, w1)" by (metis surj_pair)
  have "el_errors errs = [] \<and> el_errors l = []"
    and "objs has w' = objs has w1 - bundle_keys env (map fst xs) ns i"
    using Cons.IH[of "if \<not> IsEmpty errs then Concat l (Some errs) else l" w1] Cons.prems e y
    by (auto split: if_splits)
  with ExecuteObject_delete[OF srv _ e] Cons.prems(3) y show ?case
    by (auto simp: bundle_keys_def)
qed (simp add: bundle_keys_def)

lemma apply_bundle_effect:
  assumes srv: "object_server (x_client env) tick has"
    and "apply_bundle env ns i op obs (l, w) = (l', w')" "el_errors l' = []"
    and "\<forall>ob \<in> set obs. template_ok env ob"
  shows "el_errors l = [] \<and>
    (op = createObject \<longrightarrow> objs has w' = objs has w \<union> bundle_keys env obs ns i) \<and>
    (op = patchObject \<longrightarrow> objs has w' = objs has w)"
  using assms(2-)
proof (induction obs arbitrary: l w)
  case (Cons ob obs)
  obtain errs w1 where e: "ExecuteObject env ob ns i op w = (errs, w1)" by (metis surj_pair)
  have ne: "el_errors errs = []" using Cons.prems e by (auto split: if_splits)
  with Cons e have IH: "el_errors l = []"
    "op = createObject \<longrightarrow> objs has w' = objs has w1 \<union> bundle_keys env obs ns i"
    "op = patchObject \<longrightarrow> objs has w' = objs has w1" by auto
  have "objs has w1 = insert (replica_key env ob ns i) (objs has w)" if "op = createObject"
    using ExecuteObject_create[OF srv] Cons.prems(3) e ne that by auto
  moreover have "objs has w1 = objs has w" if "op = patchObject"
    using ExecuteObject_patch[OF srv] e that by auto
  ultimately show ?case using IH by (auto simp: bundle_keys_def)
qed (auto simp: bundle_keys_def)

fun deleted_keys :: "'w xenv \<Rightarrow> Object list \<Rightarrow> action \<Rightarrow> (gvr \<times> string \<times> string) set" where
  "deleted_keys env obs (DeleteAction ns i insts) = bundle_keys env obs ns i"
| "deleted_keys env obs _ = {}"

fun created_keys :: "'w xenv \<Rightarrow> Object list \<Rightarrow> action \<Rightarrow> (gvr \<times> string \<times> string) set" where
  "created_keys env obs (CreateAction ns i) = bundle_keys env obs ns i"
| "created_keys env obs _ = {}"

fun action_ok :: "Object list \<Rightarrow> action \<Rightarrow> bool" where
  "action_ok obs (DeleteAction ns i insts) \<longleftrightarrow>
     length insts = length obs \<and> (\<forall>x \<in> set insts. i < CurrentReplicaCount x)"
| "action_ok obs _ \<longleftrightarrow> True"

lemma run_action_effect:
  assumes srv: "object_server (x_client env) tick has"
    and "run_action env obs a (l, w) = (l', w')" "el_errors l' = []"
    and "\<forall>ob \<in> set obs. template_ok env ob" "action_ok obs a"
  shows "el_errors l = [] \<and> objs has w' = (objs has w - deleted_keys env obs a) \<union> created_keys env obs a"
proof (cases a)
  case (DeleteAction ns i insts)
  have "map fst (rev (zip obs insts)) = rev obs"
    using assms(5) DeleteAction by (simp add: rev_map[symmetric])
  moreover have "\<forall>(ob, x) \<in> set (rev (zip obs insts)). template_ok env ob \<and> i < CurrentReplicaCount x"
    using assms(4,5) DeleteAction by (auto dest: set_zip_leftD set_zip_rightD)
  ultimately show ?thesis
    using delete_bundle_effect[OF srv, of ns i "rev (zip obs insts)" l w l' w'] assms(2,3) DeleteAction
    by (simp add: bundle_keys_def)
next
  case (PatchAction ns i)
  then show ?thesis using apply_bundle_effect[OF srv, of ns i patchObject obs l w l' w'] assms by simp
next
  case (CreateAction ns i)
  then show ?thesis using apply_bundle_effect[OF srv, of ns i createObject obs l w l' w'] assms by simp
qed

text \<open>
  Whatever the order, a run without errors removes what is to be deleted and adds what is to be
  created, when no key is both.
\<close>

lemma run_actions_effect:
  assumes srv: "object_server (x_client env) tick has" and t: "\<forall>ob \<in> set obs. template_ok env ob"
    and disj: "(\<Union>a \<in> A. created_keys env obs a) \<inter> (\<Union>a \<in> A. deleted_keys env obs a) = {}"
  shows "set acts \<subseteq> A \<Longrightarrow> \<forall>a \<in> set acts. action_ok obs a \<Longrightarrow>
     fold (run_action env obs) acts (l, w) = (l', w') \<Longrightarrow> el_errors l' = [] \<Longrightarrow>
     el_errors l = [] \<and> objs has w' =
       (objs has w - (\<Union>a \<in> set acts. deleted_keys env obs a)) \<union> (\<Union>a \<in> set acts. created_keys env obs a)"
proof (induction acts arbitrary: l w)
  case (Cons a acts)
  obtain l1 w1 where 1: "run_action env obs a (l, w) = (l1, w1)" by (metis surj_pair)
  have IH: "el_errors l1 = []" "objs has w' =
      (objs has w1 - (\<Union>a \<in> set acts. deleted_keys env obs a)) \<union> (\<Union>a \<in> set acts. created_keys env obs a)"
    using Cons.IH[of l1 w1] Cons.prems 1 by auto
  have "el_errors l = []" "objs has w1 = (objs has w - deleted_keys env obs a) \<union> created_keys env obs a"
    using run_action_effect[OF srv 1 IH(1) t] Cons.prems(2) by auto
  moreover have "created_keys env obs a \<inter> (\<Union>a \<in> set acts. deleted_keys env obs a) = {}"
    using disj Cons.prems(1) by fastforce
  ultimately show ?case using IH(2) by auto
qed simp

section \<open>A phase without errors reconciles\<close>

lemma last_dash:
  assumes "CHR ''-'' \<notin> set s" shows "takeWhile (\<lambda>c. c \<noteq> CHR ''-'') (rev (b @ ''-'' @ s)) = rev s"
proof -
  have "takeWhile (\<lambda>c. c \<noteq> CHR ''-'') (rev s @ CHR ''-'' # rev b) = rev s"
    using assms by (induction "rev s" arbitrary: s) (auto simp: takeWhile_append)
  then show ?thesis by simp
qed

lemma object_name_index:
  assumes "0 \<le> i" "0 \<le> j" "object_name ob i = object_name ob' j"
  shows "i = j"
proof -
  have "rev (show_int i) = rev (show_int j)"
    using assms last_dash[of "show_int i" "ob_Basename ob"] last_dash[of "show_int j" "ob_Basename ob'"]
      show_nat_no_minus[of "nat i"] show_nat_no_minus[of "nat j"]
    by (simp add: object_name_def show_int_def)
  then show ?thesis by simp
qed

lemma replica_key_index:
  "0 \<le> i \<Longrightarrow> 0 \<le> j \<Longrightarrow> replica_key env ob ns i = replica_key env ob' ns' j \<Longrightarrow> ns = ns' \<and> i = j"
  using object_name_index by (auto simp: replica_key_def)

lemma entry_counts:
  assumes e: "entry_ok env phase st (ns, insts)"
    and nn: "\<forall>ob \<in> set (ph_ObjectBundle phase). 0 \<le> recorded st ns (ident env ob)"
  shows "x \<in> set insts \<Longrightarrow> CurrentReplicaCount x = CurrentReplicaCount (hd insts)"
    and "ob \<in> set (ph_ObjectBundle phase) \<Longrightarrow>
           recorded st ns (ident env ob) = CurrentReplicaCount (hd insts)"
proof -
  let ?obs = "ph_ObjectBundle phase"
  have len: "length insts = length ?obs" using e by (simp add: entry_ok_def)
  have cnt: "CurrentReplicaCount x = recorded st ns (ident env ob)" if "(ob, x) \<in> set (zip ?obs insts)" for ob x
    using e that by (auto simp: entry_ok_def)
  have "CurrentReplicaCount x \<noteq> - 1" if x: "x \<in> set insts" for x
  proof -
    obtain ob where ob: "(ob, x) \<in> set (zip ?obs insts)"
      using x len by (metis in_set_impl_in_set_zip2)
    then have "0 \<le> recorded st ns (ident env ob)" using nn by (meson set_zip_leftD)
    then show ?thesis using cnt[OF ob] by linarith
  qed
  then show all: "x \<in> set insts \<Longrightarrow> CurrentReplicaCount x = CurrentReplicaCount (hd insts)" for x
    using e verifyBundleCorrectness_equal[of insts x] by (auto simp: entry_ok_def)
  show "ob \<in> set ?obs \<Longrightarrow> recorded st ns (ident env ob) = CurrentReplicaCount (hd insts)"
    using len cnt all by (metis in_set_impl_in_set_zip1 set_zip_rightD)
qed

text \<open>The replicas of a phase whose index is in a range that depends on the recorded count.\<close>

definition phase_keys ::
  "'w xenv \<Rightarrow> Phase \<Rightarrow> string set \<Rightarrow> (string \<Rightarrow> InstancesIdentifier \<Rightarrow> int set) \<Rightarrow>
   (gvr \<times> string \<times> string) set" where
  "phase_keys env phase nss rng =
     {replica_key env ob ns i |ob ns i.
        ob \<in> set (ph_ObjectBundle phase) \<and> ns \<in> nss \<and> i \<in> rng ns (ident env ob)}"

lemma namespace_actions_keys:
  "(\<Union>a \<in> set (namespace_actions R ns insts). created_keys env obs a) =
     (\<Union>i \<in> {CurrentReplicaCount (hd insts)..<R}. bundle_keys env obs ns i)"
  "(\<Union>a \<in> set (namespace_actions R ns insts). deleted_keys env obs a) =
     (\<Union>i \<in> {R..<CurrentReplicaCount (hd insts)}. bundle_keys env obs ns i)"
  by (auto simp: namespace_actions_def Let_def split: if_splits)

lemma phase_keys_UN:
  assumes "\<And>ns insts ob. (ns, insts) \<in> set new \<Longrightarrow> ob \<in> set (ph_ObjectBundle phase) \<Longrightarrow>
     rng ns (ident env ob) = f insts"
  shows "(\<Union>(ns, insts) \<in> set new. \<Union>i \<in> f insts. bundle_keys env (ph_ObjectBundle phase) ns i) =
     phase_keys env phase (fst ` set new) rng"
proof (rule set_eqI, rule iffI)
  fix k assume "k \<in> (\<Union>(ns, insts) \<in> set new. \<Union>i \<in> f insts. bundle_keys env (ph_ObjectBundle phase) ns i)"
  then obtain ns insts i ob where "(ns, insts) \<in> set new" "i \<in> f insts"
    "ob \<in> set (ph_ObjectBundle phase)" "k = replica_key env ob ns i"
    by (auto simp: bundle_keys_def)
  moreover from this have "i \<in> rng ns (ident env ob)" "ns \<in> fst ` set new" using assms by force+
  ultimately show "k \<in> phase_keys env phase (fst ` set new) rng"
    unfolding phase_keys_def by blast
next
  fix k assume "k \<in> phase_keys env phase (fst ` set new) rng"
  then obtain ns insts i ob where "(ns, insts) \<in> set new" "i \<in> rng ns (ident env ob)"
    "ob \<in> set (ph_ObjectBundle phase)" "k = replica_key env ob ns i"
    by (auto simp: phase_keys_def)
  with assms show "k \<in> (\<Union>(ns, insts) \<in> set new. \<Union>i \<in> f insts. bundle_keys env (ph_ObjectBundle phase) ns i)"
    unfolding bundle_keys_def by blast
qed

lemma phase_actions_keys:
  fixes new :: "(string \<times> InstancesState list) list" and phase :: Phase
  defines "acts \<equiv> concat (map (\<lambda>(ns, insts). namespace_actions (ph_ReplicasPerNamespace phase) ns insts) new)"
  assumes e: "\<forall>e \<in> set new. entry_ok env phase st e"
    and nn: "\<forall>ns \<in> fst ` set new. \<forall>ob \<in> set (ph_ObjectBundle phase). 0 \<le> recorded st ns (ident env ob)"
  shows "(\<Union>a \<in> set acts. created_keys env (ph_ObjectBundle phase) a) =
           phase_keys env phase (fst ` set new) (\<lambda>ns id. {recorded st ns id..<ph_ReplicasPerNamespace phase})"
    and "(\<Union>a \<in> set acts. deleted_keys env (ph_ObjectBundle phase) a) =
           phase_keys env phase (fst ` set new) (\<lambda>ns id. {ph_ReplicasPerNamespace phase..<recorded st ns id})"
    and "\<forall>a \<in> set acts. action_ok (ph_ObjectBundle phase) a"
proof -
  have c: "recorded st ns (ident env ob) = CurrentReplicaCount (hd insts)"
    if "(ns, insts) \<in> set new" "ob \<in> set (ph_ObjectBundle phase)" for ns insts ob
    using entry_counts(2)[of env phase st ns insts ob] e nn that by force
  have all: "CurrentReplicaCount x = CurrentReplicaCount (hd insts)"
    if "(ns, insts) \<in> set new" "x \<in> set insts" for ns insts x
    using entry_counts(1)[of env phase st ns insts x] e nn that by force
  have UN: "(\<Union>a \<in> set acts. g a) =
      (\<Union>(ns, insts) \<in> set new. \<Union>a \<in> set (namespace_actions (ph_ReplicasPerNamespace phase) ns insts). g a)"
    for g :: "action \<Rightarrow> (gvr \<times> string \<times> string) set"
    by (force simp: acts_def)
  show "(\<Union>a \<in> set acts. created_keys env (ph_ObjectBundle phase) a) =
           phase_keys env phase (fst ` set new) (\<lambda>ns id. {recorded st ns id..<ph_ReplicasPerNamespace phase})"
    unfolding UN namespace_actions_keys by (rule phase_keys_UN) (simp add: c)
  show "(\<Union>a \<in> set acts. deleted_keys env (ph_ObjectBundle phase) a) =
           phase_keys env phase (fst ` set new) (\<lambda>ns id. {ph_ReplicasPerNamespace phase..<recorded st ns id})"
    unfolding UN namespace_actions_keys by (rule phase_keys_UN) (simp add: c)
  show "\<forall>a \<in> set acts. action_ok (ph_ObjectBundle phase) a"
    using e unfolding acts_def
    by (fastforce simp: namespace_actions_def Let_def entry_ok_def dest: all)
qed

lemma set_instances_recorded:
  "\<forall>(ob, x) \<in> set xs. DesiredReplicaCount x = R \<Longrightarrow>
     recorded (fold (\<lambda>(ob, inst) st. NamespacesState_Set st ns (ident env ob)
        (inst\<lparr>CurrentReplicaCount := DesiredReplicaCount inst\<rparr>)) xs st) ns' id' =
     (if ns' = ns \<and> id' \<in> ident env ` fst ` set xs then R else recorded st ns' id')"
  by (induction xs arbitrary: st) auto

lemma run_deferred_recorded:
  assumes "entry_ok env phase st0 (ns, insts)"
  shows "recorded (run_deferred env (ph_ObjectBundle phase) (ns, insts) st) ns' id' =
    (if ns' = ns \<and> id' \<in> ident env ` set (ph_ObjectBundle phase)
     then ph_ReplicasPerNamespace phase else recorded st ns' id')"
proof -
  have "fst ` set (zip (ph_ObjectBundle phase) insts) = set (ph_ObjectBundle phase)"
    using assms by (simp add: entry_ok_def flip: set_map)
  moreover have "\<forall>(ob, x) \<in> set (zip (ph_ObjectBundle phase) insts).
      DesiredReplicaCount x = ph_ReplicasPerNamespace phase"
    using assms by (auto simp: entry_ok_def)
  ultimately show ?thesis
    using set_instances_recorded[of "zip (ph_ObjectBundle phase) insts" "ph_ReplicasPerNamespace phase" ns env]
    by (simp add: run_deferred_def flip: ident_def)
qed

lemma run_all_deferred_recorded:
  "\<forall>e \<in> set es. entry_ok env phase st0 e \<Longrightarrow>
     recorded (fold (run_deferred env (ph_ObjectBundle phase)) es st) ns' id' =
       (if ns' \<in> fst ` set es \<and> id' \<in> ident env ` set (ph_ObjectBundle phase)
        then ph_ReplicasPerNamespace phase else recorded st ns' id')"
proof (induction es arbitrary: st)
  case (Cons e es)
  obtain ns insts where e: "e = (ns, insts)" by (cases e)
  with Cons run_deferred_recorded[of env phase st0 ns insts st] show ?case by auto
qed simp

text \<open>What a phase needs of its surroundings.\<close>

definition phase_env_ok ::
  "'w xenv \<Rightarrow> ('w \<Rightarrow> 'w) \<Rightarrow> ('w \<Rightarrow> gvr \<Rightarrow> string \<Rightarrow> string \<Rightarrow> bool) \<Rightarrow> Phase \<Rightarrow> bool" where
  "phase_env_ok env tick has phase \<longleftrightarrow>
     object_server (x_client env) tick has \<and>
     (\<forall>ob \<in> set (ph_ObjectBundle phase). template_ok env ob) \<and>
     no_listing (ph_ObjectBundle phase) \<and>
     (\<forall>acts. mset (x_order env acts) = mset acts) \<and>
     limiter_ok (x_tenv env) \<and> parallelize_ok (x_tenv env)"

text \<open>
  The state agrees with the cluster: of every object of the bundle exactly the replicas below the
  recorded count exist.
\<close>

definition agrees ::
  "'w xenv \<Rightarrow> ('w \<Rightarrow> gvr \<Rightarrow> string \<Rightarrow> string \<Rightarrow> bool) \<Rightarrow> Phase \<Rightarrow> string set \<Rightarrow> NamespacesState \<Rightarrow> 'w \<Rightarrow> bool" where
  "agrees env has phase nss st w \<longleftrightarrow>
     (\<forall>ns \<in> nss. \<forall>ob \<in> set (ph_ObjectBundle phase).
        0 \<le> recorded st ns (ident env ob) \<and>
        (\<forall>i \<ge> 0. replica_key env ob ns i \<in> objs has w \<longleftrightarrow> i < recorded st ns (ident env ob)))"

definition phase_namespaces :: "'w xstate \<Rightarrow> Phase \<Rightarrow> string list option" where
  "phase_namespaces s phase =
     (case ph_NamespaceList phase of
        Some l \<Rightarrow> Some l
      | None \<Rightarrow> createNamespacesList (xs_framework s) (ph_NamespaceRange phase))"

lemma ExecutePhase_cases:
  assumes run: "ExecutePhase env phase s = Some (ret, s')" and ns: "phase_namespaces s phase = Some nsList"
    and nl: "no_listing (ph_ObjectBundle phase)"
  shows "(\<exists>err tf. CreateTuningSet (xs_factory s) (ph_TuningSet phase) = (Inl err, tf) \<and>
            ret \<noteq> None \<and> el_errors (the ret) \<noteq> [] \<and> xs_namespaces s' = xs_namespaces s \<and>
            xs_world s' = xs_world s)
    \<or> (\<exists>tun tf new rest st. CreateTuningSet (xs_factory s) (ph_TuningSet phase) = (Inr tun, tf) \<and>
         nsList = map fst new @ rest \<and> (\<forall>e \<in> set new. entry_ok env phase (xs_namespaces s) e) \<and>
         recorded st = recorded (xs_namespaces s) \<and>
         xs_namespaces s' = fold (run_deferred env (ph_ObjectBundle phase)) (rev new) st \<and>
         ((xs_world s' = xs_world s \<and> (ret = None \<or> el_errors (the ret) \<noteq> [])) \<or>
          (rest = [] \<and> (\<exists>tr errs. ret = Some errs \<and>
             Execute (x_tenv env) tun (concat (map (\<lambda>(ns, insts).
                namespace_actions (ph_ReplicasPerNamespace phase) ns insts) new)) = Some tr \<and>
             fold (run_action env (ph_ObjectBundle phase)) (x_order env (started tr))
               (NewErrorList [], xs_world s) = (errs, xs_world s')))))"
proof -
  obtain r tf where c: "CreateTuningSet (xs_factory s) (ph_TuningSet phase) = (r, tf)" by fastforce
  show ?thesis
  proof (cases r)
    case (Inl err)
    then show ?thesis using run ns c by (auto simp: ExecutePhase_def phase_namespaces_def)
  next
    case (Inr tun)
    obtain flw acts de st w where l: "namespaces_loop env phase nsList [] [] (xs_namespaces s, xs_world s)
        = (flw, acts, de, st, w)" by (metis surj_pair)
    from namespaces_loop_result[OF l nl] obtain new rest where n: "w = xs_world s"
      "recorded st = recorded (xs_namespaces s)" "de = new"
      "\<forall>e \<in> set new. entry_ok env phase (xs_namespaces s) e"
      "acts = concat (map (\<lambda>(ns, insts).
                namespace_actions (ph_ReplicasPerNamespace phase) ns insts) new)"
      "nsList = map fst new @ rest" "flw = Proceed \<longrightarrow> rest = []" by auto
    have ret: "flw = Return ret' \<Longrightarrow> ret' = None \<or> el_errors (the ret') \<noteq> []" for ret'
    proof -
      have "namespaces_loop env phase nss a d x = (Return ret', y) \<Longrightarrow>
          ret' = None \<or> el_errors (the ret') \<noteq> []" for nss a d x y
        by (induction nss arbitrary: a d x)
           (auto split: prod.splits sum.splits option.splits if_splits)
      then show "flw = Return ret' \<Longrightarrow> ?thesis" using l by blast
    qed
    show ?thesis
    proof (cases flw)
      case (Return ret')
      with run ns c Inr l n have "ret' = ret" "xs_world s' = xs_world s"
        "xs_namespaces s' = fold (run_deferred env (ph_ObjectBundle phase)) (rev new) st"
        by (auto simp: ExecutePhase_def phase_namespaces_def)
      with ret[OF Return] c Inr n show ?thesis by blast
    next
      case Proceed
      with run ns c Inr l n obtain tr errs where "Execute (x_tenv env) tun acts = Some tr" "ret = Some errs"
        "fold (run_action env (ph_ObjectBundle phase)) (x_order env (started tr))
               (NewErrorList [], xs_world s) = (errs, xs_world s')"
        "xs_namespaces s' = fold (run_deferred env (ph_ObjectBundle phase)) (rev new) st"
        by (auto simp: ExecutePhase_def phase_namespaces_def split: option.splits prod.splits)
      with Proceed c Inr n show ?thesis by blast
    qed
  qed
qed

lemma reconciled_keys:
  assumes ag: "agrees env has phase nss st w" and R: "0 \<le> R"
    and objs': "objs has w' = (objs has w - phase_keys env phase nss (\<lambda>ns id. {R..<recorded st ns id}))
      \<union> phase_keys env phase nss (\<lambda>ns id. {recorded st ns id..<R})"
    and same: "\<And>ns ob ob'. ns \<in> nss \<Longrightarrow> ob \<in> set (ph_ObjectBundle phase) \<Longrightarrow>
      ob' \<in> set (ph_ObjectBundle phase) \<Longrightarrow> recorded st ns (ident env ob) = recorded st ns (ident env ob')"
    and k: "ns \<in> nss" "ob \<in> set (ph_ObjectBundle phase)" "0 \<le> i"
  shows "replica_key env ob ns i \<in> objs has w' \<longleftrightarrow> i < R"
proof -
  let ?c = "recorded st ns (ident env ob)"
  have mem: "replica_key env ob ns i \<in> phase_keys env phase nss rng \<longleftrightarrow> i \<in> rng ns (ident env ob)"
    if "\<And>ns id. ns \<in> nss \<Longrightarrow> id \<in> ident env ` set (ph_ObjectBundle phase) \<Longrightarrow> rng ns id \<subseteq> {0..}"
      "\<And>ob'. ob' \<in> set (ph_ObjectBundle phase) \<Longrightarrow> rng ns (ident env ob') = rng ns (ident env ob)" for rng
  proof
    assume "replica_key env ob ns i \<in> phase_keys env phase nss rng"
    then obtain ob' ns' j where "replica_key env ob ns i = replica_key env ob' ns' j"
      "ob' \<in> set (ph_ObjectBundle phase)" "ns' \<in> nss" "j \<in> rng ns' (ident env ob')"
      by (auto simp: phase_keys_def)
    moreover from this that(1) have "0 \<le> j" by fastforce
    ultimately show "i \<in> rng ns (ident env ob)"
      using replica_key_index[OF k(3)] that(2) by blast
  qed (use k in \<open>auto simp: phase_keys_def\<close>)
  have nn: "0 \<le> recorded st ns' id" if "ns' \<in> nss" "id \<in> ident env ` set (ph_ObjectBundle phase)" for ns' id
    using ag that by (auto simp: agrees_def)
  have del: "replica_key env ob ns i \<in> phase_keys env phase nss (\<lambda>ns id. {R..<recorded st ns id}) \<longleftrightarrow>
      i \<in> {R..<?c}"
    by (rule mem) (use R same[OF k(1) _ k(2)] in auto)
  have cre: "replica_key env ob ns i \<in> phase_keys env phase nss (\<lambda>ns id. {recorded st ns id..<R}) \<longleftrightarrow>
      i \<in> {?c..<R}"
  proof (rule mem)
    show "{recorded st n id..<R} \<subseteq> {0..}"
      if "n \<in> nss" "id \<in> ident env ` set (ph_ObjectBundle phase)" for n id
      using nn[OF that] by auto
  qed (simp add: same[OF k(1) _ k(2)])
  have ex: "replica_key env ob ns i \<in> objs has w \<longleftrightarrow> i < ?c"
    using ag k by (auto simp: agrees_def)
  show ?thesis unfolding objs' Un_iff Diff_iff del cre ex by auto
qed

lemma phase_keys_disjoint:
  assumes "\<And>ns ob ob'. ns \<in> nss \<Longrightarrow> ob \<in> set (ph_ObjectBundle phase) \<Longrightarrow>
      ob' \<in> set (ph_ObjectBundle phase) \<Longrightarrow> f ns (ident env ob) = f ns (ident env ob')"
  shows "phase_keys env phase nss (\<lambda>ns id. {f ns id..<R :: int}) \<inter>
         phase_keys env phase nss (\<lambda>ns id. {R..<f ns id}) = {}"
proof (rule ccontr)
  assume "\<not> ?thesis"
  then obtain x where "x \<in> phase_keys env phase nss (\<lambda>ns id. {f ns id..<R})"
    "x \<in> phase_keys env phase nss (\<lambda>ns id. {R..<f ns id})" by blast
  then obtain ob ns i ob' ns' j where "x = replica_key env ob ns i" "x = replica_key env ob' ns' j"
    "ob \<in> set (ph_ObjectBundle phase)" "ns \<in> nss" "f ns (ident env ob) \<le> i" "i < R"
    "ob' \<in> set (ph_ObjectBundle phase)" "ns' \<in> nss" "R \<le> j" "j < f ns' (ident env ob')"
    unfolding phase_keys_def by fastforce
  moreover from this have "ns' = ns" by (simp add: replica_key_def)
  ultimately show False using assms[of ns ob ob'] by simp
qed

text \<open>
  C2: a phase that returns no error has reconciled the cluster.  If the state agreed with the
  cluster before, then afterwards, in every namespace of the phase, exactly the replicas 0 to
  \<^verbatim>\<open>ReplicasPerNamespace - 1\<close> of every object of the bundle exist, the state records that number, and
  no other object of the cluster was created or deleted.  This holds for every tuning set, every
  order in which its goroutines run and every pattern of retried server errors.
\<close>

theorem phase_reconciles:
  assumes env: "phase_env_ok env tick has phase" and fac: "factory_ok (xs_factory s)"
    and ns: "phase_namespaces s phase = Some nsList" and R: "0 \<le> ph_ReplicasPerNamespace phase"
    and ag: "agrees env has phase (set nsList) (xs_namespaces s) (xs_world s)"
    and run: "ExecutePhase env phase s = Some (Some errs, s')" and ok: "el_errors errs = []"
  shows "(\<forall>n \<in> set nsList. \<forall>ob \<in> set (ph_ObjectBundle phase).
            recorded (xs_namespaces s') n (ident env ob) = ph_ReplicasPerNamespace phase \<and>
            (\<forall>i \<ge> 0. replica_key env ob n i \<in> objs has (xs_world s') \<longleftrightarrow> i < ph_ReplicasPerNamespace phase))
    \<and> (\<forall>k. k \<notin> phase_keys env phase (set nsList) (\<lambda>_ _. UNIV) \<longrightarrow>
            (k \<in> objs has (xs_world s') \<longleftrightarrow> k \<in> objs has (xs_world s)))"
proof -
  let ?st = "xs_namespaces s" and ?R = "ph_ReplicasPerNamespace phase" and ?obs = "ph_ObjectBundle phase"
  have srv: "object_server (x_client env) tick has" and t: "\<forall>ob \<in> set ?obs. template_ok env ob"
    and nl: "no_listing ?obs" and ord: "\<And>acts. mset (x_order env acts) = mset acts"
    and lim: "limiter_ok (x_tenv env)" "parallelize_ok (x_tenv env)"
    using env by (auto simp: phase_env_ok_def)
  obtain tun tf new st tr where
    c: "CreateTuningSet (xs_factory s) (ph_TuningSet phase) = (Inr tun, tf)"
    and new: "nsList = map fst new" "\<forall>e \<in> set new. entry_ok env phase ?st e"
    and st: "recorded st = recorded ?st"
      "xs_namespaces s' = fold (run_deferred env ?obs) (rev new) st"
    and ex: "Execute (x_tenv env) tun (concat (map (\<lambda>(ns, insts). namespace_actions ?R ns insts) new)) = Some tr"
    and fo: "fold (run_action env ?obs) (x_order env (started tr)) (NewErrorList [], xs_world s) = (errs, xs_world s')"
    using ExecutePhase_cases[OF run ns nl] ok by auto
  define acts where "acts = concat (map (\<lambda>(ns, insts). namespace_actions ?R ns insts) new)"
  obtain ts where "tuningSetMap (xs_factory s) (ph_TuningSet phase) = Some ts"
    using c by (auto simp: CreateTuningSet_def split: option.splits)
  then have "tuning_ok (x_tenv env) tun"
    using CreateTuningSet_run[OF fac _ lim] c by fastforce
  then have "set (x_order env (started tr)) = set acts"
    using tuning_set.runs_all[of "(x_tenv env, tun)" acts] ex ord[of "started tr"]
    by (auto simp: acts_def dest!: mset_eq_setD)
  moreover have nn: "\<forall>n \<in> fst ` set new. \<forall>ob \<in> set ?obs. 0 \<le> recorded ?st n (ident env ob)"
    using ag new(1) by (auto simp: agrees_def)
  note keys = phase_actions_keys[OF new(2) nn, folded acts_def]
  have same: "recorded ?st n (ident env ob) = recorded ?st n (ident env ob')"
    if n: "n \<in> set nsList" and obs: "ob \<in> set ?obs" "ob' \<in> set ?obs" for n ob ob'
  proof -
    obtain insts where "(n, insts) \<in> set new" using n new(1) by auto
    then show ?thesis
      using entry_counts(2)[of env phase ?st n insts] new(2) nn obs by force
  qed
  have disj: "(\<Union>a \<in> set acts. created_keys env ?obs a) \<inter> (\<Union>a \<in> set acts. deleted_keys env ?obs a) = {}"
    unfolding keys
    by (rule phase_keys_disjoint[where f = "recorded ?st"], rule same) (simp_all add: new(1))
  ultimately have objs': "objs has (xs_world s') =
      (objs has (xs_world s) - phase_keys env phase (set nsList) (\<lambda>ns id. {?R..<recorded ?st ns id}))
      \<union> phase_keys env phase (set nsList) (\<lambda>ns id. {recorded ?st ns id..<?R})"
    using run_actions_effect[OF srv t disj, of "x_order env (started tr)" "NewErrorList []"] keys fo ok new(1)
    by simp
  have "recorded (xs_namespaces s') n (ident env ob) = ?R" if "n \<in> set nsList" "ob \<in> set ?obs" for n ob
    using that new st(2) run_all_deferred_recorded[of "rev new" env phase ?st st n "ident env ob"] by simp
  moreover have "replica_key env ob n i \<in> objs has (xs_world s') \<longleftrightarrow> i < ?R"
    if "n \<in> set nsList" "ob \<in> set ?obs" "0 \<le> i" for n ob i
    using reconciled_keys[OF ag R objs' same that] by blast
  moreover have "k \<in> objs has (xs_world s') \<longleftrightarrow> k \<in> objs has (xs_world s)"
    if "k \<notin> phase_keys env phase (set nsList) (\<lambda>_ _. UNIV)" for k
    using that objs' by (auto simp: phase_keys_def)
  ultimately show ?thesis by blast
qed

section \<open>An early return records what was not done\<close>

text \<open>
  Replicas are recorded that were never created.  When the loop over the namespaces returns
  early, for example because the bundle of a later namespace has unequal counts, no action has been
  executed and the cluster is unchanged, yet the deferred functions record the requested number of
  replicas for every namespace handled before.
\<close>

theorem early_return_records_unexecuted:
  assumes nl: "no_listing (ph_ObjectBundle phase)" and ns: "phase_namespaces s phase = Some nsList"
    and tun: "CreateTuningSet (xs_factory s) (ph_TuningSet phase) = (Inr tun, tf)"
    and loop: "namespaces_loop env phase nsList [] [] (xs_namespaces s, xs_world s) =
      (Return ret, acts, de, st, w)"
    and n: "n \<in> fst ` set de" and ob: "ob \<in> set (ph_ObjectBundle phase)"
  shows "\<exists>s'. ExecutePhase env phase s = Some (ret, s') \<and> xs_world s' = xs_world s \<and>
    recorded (xs_namespaces s') n (ident env ob) = ph_ReplicasPerNamespace phase"
proof -
  from namespaces_loop_result[OF loop nl] have w: "w = xs_world s"
    and e: "\<forall>e \<in> set de. entry_ok env phase (xs_namespaces s) e" by auto
  let ?s' = "s\<lparr>xs_factory := tf, xs_world := w,
      xs_namespaces := fold (run_deferred env (ph_ObjectBundle phase)) (rev de) st\<rparr>"
  have "ExecutePhase env phase s = Some (ret, ?s')"
    using ns tun loop by (simp add: ExecutePhase_def phase_namespaces_def)
  moreover have "recorded (xs_namespaces ?s') n (ident env ob) = ph_ReplicasPerNamespace phase"
    using run_all_deferred_recorded[of "rev de" env phase "xs_namespaces s" st n "ident env ob"] e n ob
    by simp
  ultimately show ?thesis using w by auto
qed

section \<open>An example cluster\<close>

definition demo_env :: "keys xenv" where
  "demo_env = \<lparr>x_client = set_client, x_raw = \<lambda>_. Inr pod_object, x_template = \<lambda>_ _. Inr pod_object,
     x_mapping = [], x_selector = \<lambda>_. Inr [], x_waitCount = plain_wait,
     x_listMatching = \<lambda>_ _ _ w. (Inr [], w), x_tenv = quiet_env, x_order = rev\<rparr>"

definition demo_object :: "string \<Rightarrow> Object" where
  "demo_object b = \<lparr>ob_Basename = b, ob_ObjectTemplatePath = ''pod.yaml'', ob_TemplateFillMap = [],
     ob_ListUnknownObjectOptions = None\<rparr>"

definition demo_phase :: "string list \<Rightarrow> Object list \<Rightarrow> int \<Rightarrow> Phase" where
  "demo_phase nss obs R = \<lparr>ph_NamespaceRange = None, ph_NamespaceList = Some nss,
     ph_ReplicasPerNamespace = R, ph_TuningSet = ''burst'', ph_ObjectBundle = obs\<rparr>"

definition burst_set :: TuningSet where
  "burst_set = (no_load ''burst'')\<lparr>tu_SteppedLoad := Some \<lparr>sl_BurstSize = 2, sl_StepDelay = 7\<rparr>\<rparr>"

definition demo_state :: "NamespacesState \<Rightarrow> keys xstate" where
  "demo_state st = \<lparr>xs_namespaces = st, xs_factory = Init NewFactory [burst_set],
     xs_framework = newFramework, xs_world = {}\<rparr>"

lemma demo_factory_ok: "factory_ok (xs_factory (demo_state st))"
  unfolding demo_state_def
  by (auto simp: burst_set_def no_load_def tuning_valid_def loads_of_def intro!: factory_ok_Init)

lemma demo_tuning:
  "CreateTuningSet (xs_factory (demo_state st)) ''burst'' =
     (Inr (TStepped \<lparr>sl_BurstSize = 2, sl_StepDelay = 7\<rparr>), xs_factory (demo_state st))"
  by (simp add: CreateTuningSet_def demo_state_def Init_def NewFactory_def burst_set_def no_load_def)

lemma demo_ident: "getIdentifier demo_env ob =
    Inr \<lparr>ii_Basename = ob_Basename ob, ii_ObjectKind = ''Pod'', ii_APIGroup = []\<rparr>"
  by (simp add: getIdentifier_def demo_env_def pod_object_def pod_kind_def)

lemma demo_phase_env_ok:
  "\<forall>ob \<in> set obs. ob_ListUnknownObjectOptions ob = None \<Longrightarrow>
     phase_env_ok demo_env (\<lambda>w. w) (\<lambda>w g ns n. (g, ns, n) \<in> w) (demo_phase nss obs R)"
  using set_client_object_server quiet_env_ok
  by (simp add: phase_env_ok_def demo_env_def demo_phase_def template_ok_def object_gvk_def no_listing_def)

lemma demo_create:
  "ExecuteObject demo_env ob ns i createObject {} =
     (NewErrorList [], {(pluralResource set_client pod_kind, ns, object_name ob i)})"
proof -
  have "client_CreateObject set_client ns (object_name ob i) pod_object [] {} =
      (None, {(pluralResource set_client pod_kind, ns, object_name ob i)})"
    unfolding client_CreateObject_def Let_def
    by (rule retried_plain) (simp add: set_client_def set_server_def pod_object_def)
  then show ?thesis
    by (simp add: ExecuteObject_def read_object_def demo_env_def append_err_def fw_CreateObject_def)
qed

theorem phase_reconciles_witness:
  "\<exists>errs s'. ExecutePhase demo_env (demo_phase [''ns''] [demo_object ''p''] 1)
        (demo_state newNamespacesState) = Some (Some errs, s')
    \<and> recorded (xs_namespaces s') ''ns'' (ident demo_env (demo_object ''p'')) = 1"
proof -
  let ?p = "demo_phase [''ns''] [demo_object ''p''] 1" and ?s = "demo_state newNamespacesState"
  have env: "phase_env_ok demo_env (\<lambda>w. w) (\<lambda>w g ns n. (g, ns, n) \<in> w) ?p"
    by (rule demo_phase_env_ok) (simp add: demo_object_def)
  have ns: "phase_namespaces ?s ?p = Some [''ns'']"
    by (simp add: phase_namespaces_def demo_phase_def)
  have ag: "agrees demo_env (\<lambda>w g ns n. (g, ns, n) \<in> w) ?p (set [''ns'']) (xs_namespaces ?s) (xs_world ?s)"
    by (simp add: agrees_def demo_state_def recorded_def objs_def replica_key_def)
  let ?inst = "\<lparr>DesiredReplicaCount = 1, CurrentReplicaCount = 0, is_Object = demo_object ''p''\<rparr>"
  have sel: "ph_ObjectBundle ?p = [demo_object ''p'']" "ph_ReplicasPerNamespace ?p = 1"
    "ph_NamespaceList ?p = Some [''ns'']" "ph_TuningSet ?p = ''burst''"
    "ob_ListUnknownObjectOptions (demo_object ''p'') = None"
    "xs_namespaces ?s = newNamespacesState" "xs_world ?s = {}" "x_order demo_env = rev"
    by (simp_all add: demo_phase_def demo_state_def demo_env_def demo_object_def)
  obtain st where loop: "namespaces_loop demo_env ?p [''ns''] [] [] (newNamespacesState, {}) =
      (Proceed, [CreateAction ''ns'' 0], [(''ns'', [?inst])], st, {})"
    by (simp add: sel demo_ident getReplicaCountOfNewObject_def verifyBundleCorrectness_def
        namespace_actions_def Let_def)
  have ex: "steppedLoad_Execute \<lparr>sl_BurstSize = 2, sl_StepDelay = 7\<rparr> [CreateAction ''ns'' 0] =
      Some [Start 0 (CreateAction ''ns'' 0)]"
    by (simp add: steppedLoad_Execute_def concat_mapi_def mapi_def go_mod_def go_div_def)
  have "\<exists>s'. ExecutePhase demo_env ?p ?s = Some (Some (NewErrorList []), s')"
    by (simp add: ExecutePhase_def sel demo_tuning loop ex demo_create del: namespaces_loop.simps)
  then obtain errs s' where run: "ExecutePhase demo_env ?p ?s = Some (Some errs, s')" "el_errors errs = []"
    by (metis el_NewErrorList)
  from phase_reconciles[OF env demo_factory_ok ns _ ag run] run show ?thesis
    by (simp add: sel)
qed

theorem early_return_records_unexecuted_witness:
  "\<exists>ret s'. ExecutePhase demo_env (demo_phase [''n1'', ''n2''] [demo_object ''p'', demo_object ''q''] 3)
        (demo_state (NamespacesState_Set newNamespacesState ''n2'' (pods_id\<lparr>ii_Basename := ''p''\<rparr>) two_pods)) = Some (ret, s')
    \<and> xs_world s' = {} \<and> recorded (xs_namespaces s') ''n1'' (ident demo_env (demo_object ''p'')) = 3"
proof -
  let ?p = "demo_phase [''n1'', ''n2''] [demo_object ''p'', demo_object ''q''] 3"
  let ?st = "NamespacesState_Set newNamespacesState ''n2'' (pods_id\<lparr>ii_Basename := ''p''\<rparr>) two_pods"
  have sel: "ph_ObjectBundle ?p = [demo_object ''p'', demo_object ''q'']" "ph_ReplicasPerNamespace ?p = 3"
    "ph_NamespaceList ?p = Some [''n1'', ''n2'']" "ph_TuningSet ?p = ''burst''"
    "ob_ListUnknownObjectOptions (demo_object b) = None" "ob_Basename (demo_object b) = b"
    "xs_namespaces (demo_state st) = st" "xs_world (demo_state st) = {}" for b st
    by (simp_all add: demo_phase_def demo_state_def demo_object_def)
  have nl: "no_listing (ph_ObjectBundle ?p)" by (simp add: no_listing_def sel)
  have ns: "phase_namespaces (demo_state ?st) ?p = Some [''n1'', ''n2'']"
    by (simp add: phase_namespaces_def sel)
  obtain ret acts de st w where loop: "namespaces_loop demo_env ?p [''n1'', ''n2''] [] []
      (xs_namespaces (demo_state ?st), xs_world (demo_state ?st)) = (Return ret, acts, de, st, w)"
    and de: "''n1'' \<in> fst ` set de"
    by (simp add: sel demo_ident getReplicaCountOfNewObject_def verifyBundleCorrectness_def
        namespace_actions_def pods_id_def two_pods_def Let_def)
  have "CreateTuningSet (xs_factory (demo_state ?st)) (ph_TuningSet ?p) =
      (Inr (TStepped \<lparr>sl_BurstSize = 2, sl_StepDelay = 7\<rparr>), xs_factory (demo_state ?st))"
    by (simp add: sel demo_tuning)
  from early_return_records_unexecuted[OF nl ns this loop de, of "demo_object ''p''"] show ?thesis
    by (auto simp: sel)
qed

end
