(* ===== verification/Measurement_Core.thy ===== *)
theory Measurement_Core
  imports Contracts Errors_Pkg Api_Validation
begin

text \<open>
  The package \<^verbatim>\<open>clusterloader2/pkg/measurement\<close>: the factory where measurement methods register,
  the manager that keeps one instance per method and identifier, the executor of single and wrapped
  measurements, and generic summaries.

  A \<^verbatim>\<open>Measurement\<close> is an object with a state of type \<open>'i\<close>; its methods are the functions of
  \<open>menv\<close>, which also reads the world \<open>'w\<close> (the cluster) that measurements observe and change.
\<close>

section \<open>Summaries\<close>

record genericSummary =
  gs_name :: string
  gs_ext :: string
  gs_timestamp :: gotime
  gs_content :: string

definition trimPrefix :: "string \<Rightarrow> string \<Rightarrow> string" where
  "trimPrefix s p = (if take (length p) s = p then drop (length p) s else s)"

definition CreateSummary :: "gotime \<Rightarrow> string \<Rightarrow> string \<Rightarrow> string \<Rightarrow> genericSummary" where
  "CreateSummary now name ext content =
     \<lparr>gs_name = name, gs_ext = trimPrefix ext ''.'', gs_timestamp = now, gs_content = content\<rparr>"

section \<open>Factory\<close>

text \<open>
  The second field is \<^verbatim>\<open>api.RegisteredMeasurements\<close>, the table that the validator reads.
  \<open>'c\<close> is the constructor function.
\<close>

record 'c measurementFactory =
  mf_createFuncs :: "string \<rightharpoonup> 'c"
  mf_Registered :: "string \<Rightarrow> bool"

definition newMeasurementFactory :: "'c measurementFactory" where
  "newMeasurementFactory = \<lparr>mf_createFuncs = Map.empty, mf_Registered = (\<lambda>_. False)\<rparr>"

definition mf_register ::
  "'c measurementFactory \<Rightarrow> string \<Rightarrow> 'c \<Rightarrow> goerr + 'c measurementFactory" where
  "mf_register mc methodName createFunc =
     (case mf_createFuncs mc methodName of
        Some _ \<Rightarrow> Inl (Errorf (''measurement with method '' @ methodName @ '' already exists'') [])
      | None \<Rightarrow> Inr (mc\<lparr>mf_createFuncs := (mf_createFuncs mc)(methodName \<mapsto> createFunc),
                       mf_Registered := (mf_Registered mc)(methodName := True)\<rparr>))"

definition createMeasurement :: "'c measurementFactory \<Rightarrow> string \<Rightarrow> goerr + 'c" where
  "createMeasurement mc methodName =
     (case mf_createFuncs mc methodName of
        None \<Rightarrow> Inl (Errorf (''unknown measurement method '' @ methodName) [])
      | Some createFunc \<Rightarrow> Inr createFunc)"

interpretation mreg: registry mf_register createMeasurement mf_Registered newMeasurementFactory
  by unfold_locales
     (auto simp: mf_register_def createMeasurement_def newMeasurementFactory_def
       split: option.splits if_splits)

section \<open>Manager\<close>

text \<open>
  The part of \<^verbatim>\<open>measurement.Config\<close> that varies between calls.
\<close>

record MeasurementConfig =
  mc_Params :: params
  mc_Identifier :: string
  mc_ClusterVersion :: string

record ('i, 'w) menv =
  m_new :: "'i measurementFactory"
  m_version :: "'w \<Rightarrow> goerr + string"
  m_execute :: "string \<Rightarrow> 'i \<Rightarrow> MeasurementConfig \<Rightarrow> 'w \<Rightarrow> (genericSummary list \<times> goerr option) \<times> 'i \<times> 'w"
  m_dispose :: "string \<Rightarrow> 'i \<Rightarrow> 'w \<Rightarrow> 'i \<times> 'w"

record 'i measurementManager =
  mm_measurements :: "(string, (string, 'i) gomap) gomap"
  mm_summaries :: "genericSummary list"

definition mm_CreateManager :: "'i measurementManager" where
  "mm_CreateManager = \<lparr>mm_measurements = [], mm_summaries = []\<rparr>"

definition mm_lookup :: "'i measurementManager \<Rightarrow> string \<Rightarrow> string \<Rightarrow> 'i option" where
  "mm_lookup mm methodName identifier =
     (case map_of (mm_measurements mm) methodName of
        None \<Rightarrow> None
      | Some instances \<Rightarrow> map_of instances identifier)"

definition mm_store :: "'i measurementManager \<Rightarrow> string \<Rightarrow> string \<Rightarrow> 'i \<Rightarrow> 'i measurementManager" where
  "mm_store mm methodName identifier inst =
     (let instances = (case map_of (mm_measurements mm) methodName of None \<Rightarrow> [] | Some m \<Rightarrow> m)
      in mm\<lparr>mm_measurements := AList.update methodName (AList.update identifier inst instances)
                                 (mm_measurements mm)\<rparr>)"

definition getMeasurementInstance ::
  "('i, 'w) menv \<Rightarrow> 'i measurementManager \<Rightarrow> string \<Rightarrow> string \<Rightarrow>
   (goerr + 'i) \<times> 'i measurementManager" where
  "getMeasurementInstance env mm methodName identifier =
     (let mm = (if map_of (mm_measurements mm) methodName = None
                then mm\<lparr>mm_measurements := AList.update methodName [] (mm_measurements mm)\<rparr>
                else mm)
      in case mm_lookup mm methodName identifier of
           Some inst \<Rightarrow> (Inr inst, mm)
         | None \<Rightarrow>
             (case createMeasurement (m_new env) methodName of
                Inl err \<Rightarrow> (Inl err, mm)
              | Inr inst \<Rightarrow> (Inr inst, mm_store mm methodName identifier inst)))"

definition mm_Execute ::
  "('i, 'w) menv \<Rightarrow> string \<Rightarrow> string \<Rightarrow> params \<Rightarrow> 'i measurementManager \<times> 'w \<Rightarrow>
   goerr option \<times> 'i measurementManager \<times> 'w" where
  "mm_Execute env methodName identifier ps = (\<lambda>(mm, w).
     (case getMeasurementInstance env mm methodName identifier of
        (Inl err, mm) \<Rightarrow> (Some err, mm, w)
      | (Inr inst, mm) \<Rightarrow>
          (case m_version env w of
             Inl err \<Rightarrow> (Some (Errorf ''failed to get cluster version'' []), mm, w)
           | Inr version \<Rightarrow>
               let ((summaries, err), inst, w) =
                     m_execute env methodName inst
                       \<lparr>mc_Params = ps, mc_Identifier = identifier, mc_ClusterVersion = version\<rparr> w;
                   mm = mm_store mm methodName identifier inst
               in (err, mm\<lparr>mm_summaries := mm_summaries mm @ summaries\<rparr>, w))))"

definition GetSummaries :: "'i measurementManager \<Rightarrow> genericSummary list" where
  "GetSummaries mm = mm_summaries mm"

definition mm_Dispose ::
  "('i, 'w) menv \<Rightarrow> 'i measurementManager \<times> 'w \<Rightarrow> 'i measurementManager \<times> 'w" where
  "mm_Dispose env = (\<lambda>(mm, w).
     fold (\<lambda>(methodName, instances). fold (\<lambda>(identifier, inst) (mm, w).
             let (inst, w) = m_dispose env methodName inst w
             in (mm_store mm methodName identifier inst, w)) instances)
       (mm_measurements mm) (mm, w))"

section \<open>Executor\<close>

definition formatError :: "string \<Rightarrow> string \<Rightarrow> goerr \<Rightarrow> goerr" where
  "formatError meth identifier err =
     Errorf (''measurement call '' @ meth @ '' - '' @ identifier @ '' error: '' @ err_msg err) [err]"

definition executeSingleMeasurement ::
  "('i, 'w) menv \<Rightarrow> Measurement \<Rightarrow> 'i measurementManager \<times> 'w \<Rightarrow>
   ErrorList \<times> 'i measurementManager \<times> 'w" where
  "executeSingleMeasurement env m s =
     (let errList = NewErrorList [];
          (err, s) = mm_Execute env (me_Method m) (me_Identifier m) (me_Params m) s
      in (case err of
            None \<Rightarrow> (errList, s)
          | Some e \<Rightarrow> (Append errList [formatError (me_Method m) (me_Identifier m) e], s)))"

text \<open>
  The instance's parameters over a copy of the measurement's.
\<close>

definition instance_params :: "Measurement \<Rightarrow> MeasurementInstanceConfig \<Rightarrow> params" where
  "instance_params m inst = gomap_copy (mi_Params inst) (gomap_copy (me_Params m) [])"

text \<open>
  The instances run in goroutines; \<open>order\<close> is the order in which their calls of \<^verbatim>\<open>mm.Execute\<close> take
  effect.
\<close>

definition executeWrapperMeasurement ::
  "('i, 'w) menv \<Rightarrow> nat list \<Rightarrow> Measurement \<Rightarrow> 'i measurementManager \<times> 'w \<Rightarrow>
   ErrorList \<times> 'i measurementManager \<times> 'w" where
  "executeWrapperMeasurement env order m s =
     fold (\<lambda>i (errList, s).
        let inst = me_Instances m ! i;
            (err, s) = mm_Execute env (me_Method m) (mi_Identifier inst) (instance_params m inst) s
        in (case err of
              None \<Rightarrow> (errList, s)
            | Some e \<Rightarrow> (Append errList [formatError (me_Method m) (mi_Identifier inst) e], s)))
       order (NewErrorList [], s)"

definition measurement_Execute ::
  "('i, 'w) menv \<Rightarrow> nat list \<Rightarrow> Measurement \<Rightarrow> 'i measurementManager \<times> 'w \<Rightarrow>
   ErrorList \<times> 'i measurementManager \<times> 'w" where
  "measurement_Execute env order m s =
     (if me_Identifier m \<noteq> [] then executeSingleMeasurement env m s
      else executeWrapperMeasurement env order m s)"

section \<open>The concurrent append of the summaries\<close>

text \<open>
  \<^verbatim>\<open>mm.summaries = append(mm.summaries, summaries...)\<close> runs outside the manager's lock.  The calls
  of concurrent goroutines read and write the field in separate steps: \<open>Loaded ss\<close> is a goroutine
  that has read \<open>ss\<close> and not yet written.
\<close>

datatype append_pc = Before | Loaded "genericSummary list" | After

type_synonym append_state = "genericSummary list \<times> (genericSummary list \<times> append_pc) list"

inductive append_step :: "append_state \<Rightarrow> append_state \<Rightarrow> bool" where
  load: "i < length ts \<Longrightarrow> ts ! i = (own, Before) \<Longrightarrow>
    append_step (ss, ts) (ss, ts[i := (own, Loaded ss)])"
| store: "i < length ts \<Longrightarrow> ts ! i = (own, Loaded l) \<Longrightarrow>
    append_step (ss, ts) (l @ own, ts[i := (own, After)])"

section \<open>Instances are kept per method and identifier\<close>

lemma mm_lookup_store [simp]:
  "mm_lookup (mm_store mm m i v) m' i' = (if m' = m \<and> i' = i then Some v else mm_lookup mm m' i')"
  by (auto simp: mm_lookup_def mm_store_def Let_def go_map split: option.splits)

lemma mm_summaries_store [simp]: "mm_summaries (mm_store mm m i v) = mm_summaries mm"
  by (simp add: mm_store_def Let_def)

lemma mm_lookup_summaries [simp]: "mm_lookup (mm\<lparr>mm_summaries := ss\<rparr>) = mm_lookup mm"
  by (simp add: mm_lookup_def fun_eq_iff)

lemma mm_lookup_CreateManager [simp]: "mm_lookup mm_CreateManager m i = None"
  by (simp add: mm_lookup_def mm_CreateManager_def)

interpretation instances: kv_rw mm_CreateManager
  "\<lambda>mm (m, i). mm_lookup mm m i" "\<lambda>mm (m, i) v. mm_store mm m i v"
  by unfold_locales (auto split: prod.splits)

lemma mm_lookup_new_method:
  "map_of (mm_measurements mm) m = None \<Longrightarrow>
     mm_lookup (mm\<lparr>mm_measurements := AList.update m [] (mm_measurements mm)\<rparr>) = mm_lookup mm"
  by (auto simp: mm_lookup_def go_map fun_eq_iff split: option.splits)

text \<open>The instance that a call works on: the stored one, or a fresh one of the factory.\<close>

definition instance_of :: "('i, 'w) menv \<Rightarrow> 'i measurementManager \<Rightarrow> string \<Rightarrow> string \<Rightarrow> goerr + 'i" where
  "instance_of env mm m i =
     (case mm_lookup mm m i of Some inst \<Rightarrow> Inr inst | None \<Rightarrow> createMeasurement (m_new env) m)"

lemma getMeasurementInstance_fst:
  "fst (getMeasurementInstance env mm m i) = instance_of env mm m i"
  by (auto simp: getMeasurementInstance_def instance_of_def mm_lookup_new_method Let_def
      split: option.splits sum.splits)

lemma getMeasurementInstance_lookup:
  "mm_lookup (snd (getMeasurementInstance env mm m i)) m' i' =
     (if m' = m \<and> i' = i
      then (case instance_of env mm m i of Inl e \<Rightarrow> None | Inr inst \<Rightarrow> Some inst)
      else mm_lookup mm m' i')"
  by (auto simp: getMeasurementInstance_def instance_of_def mm_lookup_new_method Let_def
      split: option.splits sum.splits)

lemma getMeasurementInstance_summaries:
  "mm_summaries (snd (getMeasurementInstance env mm m i)) = mm_summaries mm"
  by (auto simp: getMeasurementInstance_def Let_def split: option.splits sum.splits)

text \<open>
  One call of the manager.  With a known method and a reachable server the call runs the
  instance of its method and identifier, on the state the previous call left, keeps the state it
  returns for the next call, appends its summaries and returns its error; the instances of other
  methods and identifiers are untouched.
\<close>

theorem mm_Execute_behaviour:
  assumes "instance_of env mm m i = Inr inst" and "m_version env w = Inr ver"
    and "m_execute env m inst \<lparr>mc_Params = ps, mc_Identifier = i, mc_ClusterVersion = ver\<rparr> w
           = ((ss, err), inst', w')"
  shows "\<exists>mm'. mm_Execute env m i ps (mm, w) = (err, mm', w')
    \<and> mm_lookup mm' m i = Some inst'
    \<and> (\<forall>m' i'. (m', i') \<noteq> (m, i) \<longrightarrow> mm_lookup mm' m' i' = mm_lookup mm m' i')
    \<and> GetSummaries mm' = GetSummaries mm @ ss"
proof -
  obtain mm1 where g: "getMeasurementInstance env mm m i = (Inr inst, mm1)"
    using getMeasurementInstance_fst[of env mm m i] assms(1)
    by (cases "getMeasurementInstance env mm m i") auto
  have "mm_lookup mm1 m' i' = mm_lookup mm m' i'" if "(m', i') \<noteq> (m, i)" for m' i'
    using getMeasurementInstance_lookup[of env mm m i m' i'] g that by auto
  moreover have "mm_summaries mm1 = mm_summaries mm"
    using getMeasurementInstance_summaries[of env mm m i] g by simp
  ultimately show ?thesis
    using g assms(2,3) by (auto simp: mm_Execute_def GetSummaries_def)
qed

lemma mm_Execute_lookup_other:
  "mm_Execute env m i ps (mm, w) = (err, mm', w') \<Longrightarrow> (m', i') \<noteq> (m, i) \<Longrightarrow>
     mm_lookup mm' m' i' = mm_lookup mm m' i'"
  using getMeasurementInstance_lookup[of env mm m i m' i']
  by (auto simp: mm_Execute_def split: prod.splits sum.splits)

section \<open>Wrapped measurements\<close>

lemma errors_Is_formatError [simp]:
  "errors_Is (formatError m i e) t = errors_Is e t"
  by (simp add: formatError_def)

lemma map_of_instance_params:
  "gomap_ok (me_Params m) \<Longrightarrow> gomap_ok (mi_Params inst) \<Longrightarrow>
     map_of (instance_params m inst) = map_of (me_Params m) ++ map_of (mi_Params inst)"
  by (simp add: instance_params_def map_of_gomap_copy)

text \<open>The single measurement that an instance of a wrapper stands for.\<close>

definition single_of :: "Measurement \<Rightarrow> nat \<Rightarrow> Measurement" where
  "single_of m i =
     (let inst = me_Instances m ! i
      in m\<lparr>me_Identifier := mi_Identifier inst, me_Params := instance_params m inst,
           me_Instances := []\<rparr>)"

text \<open>
  A wrapper is its instances.  In whatever order the goroutines take effect, executing a
  wrapper is executing the single measurements it stands for in that order and concatenating their
  errors, where an instance's parameters override the wrapper's.
\<close>

theorem wrapper_is_sequence_of_singles:
  assumes "\<forall>i < length (me_Instances m). gomap_ok (mi_Params (me_Instances m ! i))"
    and "gomap_ok (me_Params m)" and "mset order = mset [0..<length (me_Instances m)]"
  shows "executeWrapperMeasurement env order m s =
      fold (\<lambda>i (l, s). let (l', s') = executeSingleMeasurement env (single_of m i) s
                       in (Concat l (Some l'), s')) order (NewErrorList [], s)
    \<and> (\<forall>i \<in> set order. map_of (me_Params (single_of m i)) =
          map_of (me_Params m) ++ map_of (mi_Params (me_Instances m ! i)))"
proof
  have step: "(let inst = me_Instances m ! i;
            (err, s') = mm_Execute env (me_Method m) (mi_Identifier inst) (instance_params m inst) s
        in (case err of
              None \<Rightarrow> (l, s')
            | Some e \<Rightarrow> (Append l [formatError (me_Method m) (mi_Identifier inst) e], s'))) =
      (let (l', s') = executeSingleMeasurement env (single_of m i) s in (Concat l (Some l'), s'))"
    for i l s
  proof -
    obtain err s' where "mm_Execute env (me_Method m) (mi_Identifier (me_Instances m ! i))
        (instance_params m (me_Instances m ! i)) s = (err, s')"
      by (meson surj_pair)
    then show ?thesis
      by (cases err) (auto simp: executeSingleMeasurement_def single_of_def Let_def)
  qed
  show "executeWrapperMeasurement env order m s =
      fold (\<lambda>i (l, s). let (l', s') = executeSingleMeasurement env (single_of m i) s
                       in (Concat l (Some l'), s')) order (NewErrorList [], s)"
    unfolding executeWrapperMeasurement_def step ..
  have "set order = {0..<length (me_Instances m)}"
    using mset_eq_setD[OF assms(3)] by simp
  then show "\<forall>i \<in> set order. map_of (me_Params (single_of m i)) =
          map_of (me_Params m) ++ map_of (mi_Params (me_Instances m ! i))"
    using assms(1,2) by (auto simp: single_of_def Let_def map_of_instance_params)
qed

text \<open>
  The unlocked append loses summaries.  For any two calls of \<^verbatim>\<open>Execute\<close> that run at once there
  is an interleaving after which both have returned and the summaries of the first are gone.
\<close>

theorem concurrent_append_loses_summaries:
  "append_step\<^sup>*\<^sup>* (ss, [(a, Before), (b, Before)]) (ss @ b, [(a, After), (b, After)])"
proof -
  have "append_step (ss, [(a, Before), (b, Before)]) (ss, [(a, Loaded ss), (b, Before)])"
    using load[of 0 "[(a, Before), (b, Before)]"] by simp
  moreover have "append_step (ss, [(a, Loaded ss), (b, Before)]) (ss, [(a, Loaded ss), (b, Loaded ss)])"
    using load[of 1 "[(a, Loaded ss), (b, Before)]"] by simp
  moreover have "append_step (ss, [(a, Loaded ss), (b, Loaded ss)]) (ss @ a, [(a, After), (b, Loaded ss)])"
    using store[of 0 "[(a, Loaded ss), (b, Loaded ss)]"] by simp
  moreover have "append_step (ss @ a, [(a, After), (b, Loaded ss)]) (ss @ b, [(a, After), (b, After)])"
    using store[of 1 "[(a, After), (b, Loaded ss)]"] by simp
  ultimately show ?thesis
    by (meson converse_rtranclp_into_rtranclp rtranclp.rtrancl_refl)
qed

section \<open>Registered methods\<close>

text \<open>The registrations of the \<^verbatim>\<open>init\<close> functions; an error ends the process.\<close>

fun register_measurements ::
  "'c measurementFactory \<Rightarrow> (string \<times> 'c) list \<Rightarrow> goerr + 'c measurementFactory" where
  "register_measurements r [] = Inr r"
| "register_measurements r ((m, c) # ms) =
     (case mf_register r m c of Inl e \<Rightarrow> Inl e | Inr r' \<Rightarrow> register_measurements r' ms)"

lemma register_measurements_eq: "register_measurements r ms = mreg.register_all r ms"
  by (induction r ms rule: register_measurements.induct) (auto split: sum.splits)

text \<open>
  Validation and the factory agree.  Whatever methods were registered, a measurement of a
  configuration the validator accepts is created by the constructor registered under its method.
\<close>

theorem validated_measurement_is_created:
  assumes "register_measurements newMeasurementFactory ms = Inr r"
    and "v_measurements env = mf_Registered r" and "config_valid env v"
    and "s \<in> set (co_Steps (v_config v))" and "m \<in> set (st_Measurements s)"
  shows "\<exists>c. createMeasurement r (me_Method m) = Inr c \<and> (me_Method m, c) \<in> set ms"
proof -
  have reg: "mreg.register_all newMeasurementFactory ms = Inr r"
    using assms(1) by (simp add: register_measurements_eq)
  have "mf_Registered r (me_Method m)"
    using assms(2-5) by (auto simp: config_valid_def step_valid_def measurement_valid_def Let_def)
  then obtain c where c: "createMeasurement r (me_Method m) = Inr c"
    using mreg.known_iff_create[OF reg] by blast
  have "mreg.register_all r0 ms = Inr r \<Longrightarrow> createMeasurement r n = Inr c \<Longrightarrow>
      (n, c) \<in> set ms \<or> createMeasurement r0 n = Inr c" for r0 n
    by (induction r0 ms rule: mreg.register_all.induct)
       (auto split: sum.splits if_splits dest!: mreg.create_register)
  from this[OF reg c] c show ?thesis
    by (auto simp: createMeasurement_def newMeasurementFactory_def)
qed

section \<open>An example measurement\<close>

text \<open>A counter: every call returns one summary and counts itself.\<close>

definition counter_factory :: "nat measurementFactory" where
  "counter_factory = \<lparr>mf_createFuncs = [''Counter'' \<mapsto> 0], mf_Registered = (\<lambda>_. False)(''Counter'' := True)\<rparr>"

definition counter_summary :: "nat \<Rightarrow> genericSummary" where
  "counter_summary n = CreateSummary 0 ''count'' ''.txt'' (show_nat n)"

definition counter_env :: "(nat, unit) menv" where
  "counter_env = \<lparr>m_new = counter_factory, m_version = \<lambda>_. Inr ''v1'',
     m_execute = \<lambda>_ n _ w. (([counter_summary n], None), Suc n, w),
     m_dispose = \<lambda>_ n w. (n, w)\<rparr>"

theorem mm_Execute_behaviour_witness:
  "\<exists>mm'. mm_Execute counter_env ''Counter'' ''a'' [] (mm_CreateManager, ()) = (None, mm', ())
    \<and> mm_lookup mm' ''Counter'' ''a'' = Some 1
    \<and> GetSummaries mm' = [counter_summary 0]"
  using mm_Execute_behaviour[of counter_env mm_CreateManager "''Counter''" "''a''" 0 "()" "''v1''"
      "[]" "[counter_summary 0]" None 1 "()"]
  by (auto simp: instance_of_def createMeasurement_def counter_env_def counter_factory_def
      mm_CreateManager_def mm_lookup_def GetSummaries_def)

definition two_counters :: Measurement where
  "two_counters = \<lparr>me_Method = ''Counter'', me_Params = [(''k'', VInt 1)], me_Identifier = [],
     me_Instances = [\<lparr>mi_Identifier = ''a'', mi_Params = []\<rparr>,
                     \<lparr>mi_Identifier = ''b'', mi_Params = [(''k'', VInt 2)]\<rparr>]\<rparr>"

theorem wrapper_is_sequence_of_singles_witness:
  "map_of (me_Params (single_of two_counters 1)) ''k'' = Some (VInt 2)
   \<and> executeWrapperMeasurement counter_env [1, 0] two_counters (mm_CreateManager, ()) =
      fold (\<lambda>i (l, s). let (l', s') = executeSingleMeasurement counter_env (single_of two_counters i) s
                       in (Concat l (Some l'), s')) [1, 0] (NewErrorList [], (mm_CreateManager, ()))"
  using wrapper_is_sequence_of_singles[of two_counters "[1, 0]" counter_env "(mm_CreateManager, ())"]
  by (simp add: two_counters_def less_Suc_eq numeral_2_eq_2)

definition counting_config :: Config where
  "counting_config = \<lparr>co_Name = ''t'', co_Dependencies = [], co_AutomanagedNamespaces = 1,
     co_Namespace = \<lparr>nc_Number = 1, nc_Prefix = ''test'', nc_DeleteStaleNamespaces = None,
       nc_DeleteAutomanagedNamespaces = None, nc_EnableExistingNamespaces = None,
       nc_DeleteNamespaceTimeout = None\<rparr>,
     co_Steps = [\<lparr>st_Phases = [], st_Measurements = [two_counters],
       st_Module = \<lparr>mr_Path = [], mr_Params = []\<rparr>, st_Name = ''s''\<rparr>],
     co_TuningSets = [], co_ChaosMonkey = \<lparr>cm_NodeFailure = None, cm_ExcludedNodes = None\<rparr>\<rparr>"

theorem validated_measurement_is_created_witness:
  "\<exists>c. createMeasurement counter_factory (me_Method two_counters) = Inr c
     \<and> (me_Method two_counters, c) \<in> set [(''Counter'', 0)]"
proof (rule validated_measurement_is_created)
  show "register_measurements newMeasurementFactory [(''Counter'', 0)] = Inr counter_factory"
    by (simp add: mf_register_def newMeasurementFactory_def counter_factory_def)
  show "v_measurements \<lparr>v_cwd = [], v_notExist = \<lambda>_. True, v_dns1123 = \<lambda>_. [],
      v_measurements = mf_Registered counter_factory, v_dependencies = \<lambda>_. False\<rparr>
      = mf_Registered counter_factory" by simp
  show "config_valid \<lparr>v_cwd = [], v_notExist = \<lambda>_. True, v_dns1123 = \<lambda>_. [],
      v_measurements = mf_Registered counter_factory, v_dependencies = \<lambda>_. False\<rparr>
      (NewConfigValidator [] counting_config)"
    by (simp add: config_valid_def NewConfigValidator_def counting_config_def step_valid_def
        measurement_valid_def two_counters_def counter_factory_def)
  show "\<lparr>st_Phases = [], st_Measurements = [two_counters],
       st_Module = \<lparr>mr_Path = [], mr_Params = []\<rparr>, st_Name = ''s''\<rparr>
      \<in> set (co_Steps (v_config (NewConfigValidator [] counting_config)))"
    by (simp add: NewConfigValidator_def counting_config_def)
  show "two_counters \<in> set (st_Measurements \<lparr>st_Phases = [], st_Measurements = [two_counters],
       st_Module = \<lparr>mr_Path = [], mr_Params = []\<rparr>, st_Name = ''s''\<rparr>)" by simp
qed

end
