(* ===== verification/Dependency_Mgr.thy ===== *)
theory Dependency_Mgr
  imports Contracts Errors_Pkg Api_Validation
begin

text \<open>
  The package \<^verbatim>\<open>clusterloader2/pkg/dependency\<close>: the factory of dependency methods and the manager
  that sets dependencies up before a test and tears them down, last first, after it.

  A \<^verbatim>\<open>Dependency\<close> is an object with a state of type \<open>'i\<close>; the manager keeps one instance per
  method, so a method name is the reference to its instance.  \<open>d_select\<close> is the \<^verbatim>\<open>select\<close> between
  the goroutine that runs \<^verbatim>\<open>Setup\<close> and the context's deadline: \<open>None\<close> when the deadline came first,
  and the states of the instance and the world \<open>'w\<close> at that moment.
\<close>

section \<open>Factory\<close>

record 'c dependencyFactory =
  df_createFuncs :: "string \<rightharpoonup> 'c"
  df_Registered :: "string \<Rightarrow> bool"

definition newDependencyFactory :: "'c dependencyFactory" where
  "newDependencyFactory = \<lparr>df_createFuncs = Map.empty, df_Registered = (\<lambda>_. False)\<rparr>"

definition df_register ::
  "'c dependencyFactory \<Rightarrow> string \<Rightarrow> 'c \<Rightarrow> goerr + 'c dependencyFactory" where
  "df_register df methodName createFunc =
     (case df_createFuncs df methodName of
        Some _ \<Rightarrow> Inl (Errorf (''dependency with method '' @ methodName @ '' already exists'') [])
      | None \<Rightarrow> Inr (df\<lparr>df_createFuncs := (df_createFuncs df)(methodName \<mapsto> createFunc),
                       df_Registered := (df_Registered df)(methodName := True)\<rparr>))"

definition createDependency :: "'c dependencyFactory \<Rightarrow> string \<Rightarrow> goerr + 'c" where
  "createDependency df methodName =
     (case df_createFuncs df methodName of
        None \<Rightarrow> Inl (Errorf (''unknown dependency method '' @ methodName) [])
      | Some createFunc \<Rightarrow> Inr createFunc)"

interpretation dreg: registry df_register createDependency df_Registered newDependencyFactory
  by unfold_locales
     (auto simp: df_register_def createDependency_def newDependencyFactory_def
       split: option.splits if_splits)

section \<open>Manager\<close>

record DependencyConfig =
  dc_Params :: params
  dc_Method :: string
  dc_ClusterVersion :: string

record ('i, 'w) denv =
  d_new :: "'i dependencyFactory"
  d_version :: "'w \<Rightarrow> goerr + string"
  d_setup :: "string \<Rightarrow> DependencyConfig \<Rightarrow> 'i \<Rightarrow> 'w \<Rightarrow> goerr option \<times> 'i \<times> 'w"
  d_select :: "duration \<Rightarrow> string \<Rightarrow> DependencyConfig \<Rightarrow> 'i \<Rightarrow> 'w \<Rightarrow> goerr option option \<times> 'i \<times> 'w"
  d_teardown :: "string \<Rightarrow> DependencyConfig \<Rightarrow> 'i \<Rightarrow> 'w \<Rightarrow> goerr option \<times> 'i \<times> 'w"
  d_showDuration :: "duration \<Rightarrow> string"

record 'i dependencyManager =
  dm_dependencies :: "string \<rightharpoonup> 'i"
  dm_setupDependencies :: "Dependency list"

definition dm_CreateManager :: "'i dependencyManager" where
  "dm_CreateManager = \<lparr>dm_dependencies = Map.empty, dm_setupDependencies = []\<rparr>"

definition getDependencyInstance ::
  "('i, 'w) denv \<Rightarrow> 'i dependencyManager \<Rightarrow> string \<Rightarrow> (goerr + 'i) \<times> 'i dependencyManager" where
  "getDependencyInstance env dm methodName =
     (case dm_dependencies dm methodName of
        Some di \<Rightarrow> (Inr di, dm)
      | None \<Rightarrow>
          (case createDependency (d_new env) methodName of
             Inl err \<Rightarrow> (Inl err, dm)
           | Inr di \<Rightarrow> (Inr di, dm\<lparr>dm_dependencies := (dm_dependencies dm)(methodName \<mapsto> di)\<rparr>)))"

definition setup_failed :: "Dependency \<Rightarrow> goerr \<Rightarrow> goerr" where
  "setup_failed dep err =
     Errorf (''dependency '' @ de_Name dep @ '' setup failed: '' @ err_msg err) [err]"

definition setupSingleDependency ::
  "('i, 'w) denv \<Rightarrow> Dependency \<Rightarrow> 'i dependencyManager \<times> 'w \<Rightarrow>
   goerr option \<times> 'i dependencyManager \<times> 'w" where
  "setupSingleDependency env dep = (\<lambda>(dm, w).
     (case getDependencyInstance env dm (de_Method dep) of
        (Inl err, dm) \<Rightarrow> (Some err, dm, w)
      | (Inr di, dm) \<Rightarrow>
          (case d_version env w of
             Inl err \<Rightarrow> (Some (Errorf (''failed to get cluster version: '' @ err_msg err) [err]), dm, w)
           | Inr version \<Rightarrow>
               let config = \<lparr>dc_Params = de_Params dep, dc_Method = de_Method dep,
                             dc_ClusterVersion = version\<rparr>;
                   (result, di, w) =
                     (if de_Timeout dep > 0
                      then (case d_select env (ToTimeDuration (de_Timeout dep)) (de_Method dep) config di w of
                              (Some None, s) \<Rightarrow> (None, s)
                            | (Some (Some err), s) \<Rightarrow> (Some (setup_failed dep err), s)
                            | (None, s) \<Rightarrow>
                                (Some (Errorf (''dependency '' @ de_Name dep @ '' setup timed out after ''
                                         @ d_showDuration env (ToTimeDuration (de_Timeout dep))) []), s))
                      else (case d_setup env (de_Method dep) config di w of
                              (None, s) \<Rightarrow> (None, s)
                            | (Some err, s) \<Rightarrow> (Some (setup_failed dep err), s)));
                   dm = dm\<lparr>dm_dependencies := (dm_dependencies dm)(de_Method dep \<mapsto> di)\<rparr>
               in (case result of
                     Some err \<Rightarrow> (Some err, dm, w)
                   | None \<Rightarrow>
                       (None, dm\<lparr>dm_setupDependencies := dm_setupDependencies dm @ [dep]\<rparr>, w)))))"

definition SetupDependencies ::
  "('i, 'w) denv \<Rightarrow> Dependency list \<Rightarrow> 'i dependencyManager \<times> 'w \<Rightarrow>
   ErrorList \<times> 'i dependencyManager \<times> 'w" where
  "SetupDependencies env dependencies s =
     fold (\<lambda>dep (errList, s).
        let (err, s) = setupSingleDependency env dep s
        in (case err of None \<Rightarrow> (errList, s) | Some e \<Rightarrow> (Append errList [e], s)))
       dependencies (NewErrorList [], s)"

text \<open>
  \<^verbatim>\<open>depInstance.dependency\<close> is the pointer kept at set-up; the state behind it is the one under its
  method name.
\<close>

definition teardownDependencyInstance ::
  "('i, 'w) denv \<Rightarrow> Dependency \<Rightarrow> 'i dependencyManager \<times> 'w \<Rightarrow>
   goerr option \<times> 'i dependencyManager \<times> 'w" where
  "teardownDependencyInstance env dep = (\<lambda>(dm, w).
     (case d_version env w of
        Inl err \<Rightarrow>
          (Some (Errorf (''failed to get cluster version during teardown: '' @ err_msg err) [err]), dm, w)
      | Inr version \<Rightarrow>
          let config = \<lparr>dc_Params = de_Params dep, dc_Method = de_Method dep,
                        dc_ClusterVersion = version\<rparr>;
              (err, di, w) = d_teardown env (de_Method dep) config
                               (the (dm_dependencies dm (de_Method dep))) w;
              dm = dm\<lparr>dm_dependencies := (dm_dependencies dm)(de_Method dep \<mapsto> di)\<rparr>
          in (case err of
                None \<Rightarrow> (None, dm, w)
              | Some e \<Rightarrow>
                  (Some (Errorf (''dependency '' @ de_Name dep @ '' teardown failed: '' @ err_msg e) [e]),
                   dm, w))))"

text \<open>The loop counts the index down from the last set-up dependency; \<open>n\<close> is \<open>i + 1\<close>.\<close>

fun teardown_loop ::
  "('i, 'w) denv \<Rightarrow> Dependency list \<Rightarrow> nat \<Rightarrow> ErrorList \<times> 'i dependencyManager \<times> 'w \<Rightarrow>
   ErrorList \<times> 'i dependencyManager \<times> 'w" where
  "teardown_loop env deps 0 s = s"
| "teardown_loop env deps (Suc i) (errList, s) =
     (let (err, s) = teardownDependencyInstance env (deps ! i) s
      in teardown_loop env deps i
           (case err of None \<Rightarrow> (errList, s) | Some e \<Rightarrow> (Append errList [e], s)))"

definition TeardownDependencies ::
  "('i, 'w) denv \<Rightarrow> 'i dependencyManager \<times> 'w \<Rightarrow> ErrorList \<times> 'i dependencyManager \<times> 'w" where
  "TeardownDependencies env s =
     teardown_loop env (dm_setupDependencies (fst s)) (length (dm_setupDependencies (fst s)))
       (NewErrorList [], s)"

section \<open>What is set up is torn down, last first\<close>

text \<open>The dependencies of a list whose result was nil.\<close>

definition succeeded :: "Dependency list \<Rightarrow> goerr option list \<Rightarrow> Dependency list" where
  "succeeded deps rs = map fst (filter (\<lambda>(d, r). r = None) (zip deps rs))"

text \<open>Every tracked dependency has an instance, so a tear-down never meets a nil pointer.\<close>

definition dm_ok :: "'i dependencyManager \<Rightarrow> bool" where
  "dm_ok dm \<longleftrightarrow> (\<forall>d \<in> set (dm_setupDependencies dm). dm_dependencies dm (de_Method d) \<noteq> None)"

lemma getDependencyInstance_snd:
  "getDependencyInstance env dm m = (r, dm') \<Longrightarrow>
     dm_setupDependencies dm' = dm_setupDependencies dm \<and>
     (\<forall>n. dm_dependencies dm n \<noteq> None \<longrightarrow> dm_dependencies dm' n \<noteq> None)"
  by (auto simp: getDependencyInstance_def split: option.splits sum.splits)

lemma setupSingleDependency_tracks:
  assumes "setupSingleDependency env d (dm, w) = (r, dm', w')"
  shows "dm_setupDependencies dm' = dm_setupDependencies dm @ (if r = None then [d] else [])"
    and "dm_ok dm \<Longrightarrow> dm_ok dm'"
proof -
  obtain g dm1 where g: "getDependencyInstance env dm (de_Method d) = (g, dm1)" by fastforce
  note dm1 = getDependencyInstance_snd[OF g]
  from assms dm1 show "dm_setupDependencies dm' = dm_setupDependencies dm @ (if r = None then [d] else [])"
    by (auto simp: setupSingleDependency_def g Let_def split: sum.splits prod.splits option.splits)
  from assms dm1 show "dm_ok dm \<Longrightarrow> dm_ok dm'"
    by (auto simp: setupSingleDependency_def g dm_ok_def Let_def
        split: sum.splits prod.splits option.splits)
qed

lemma run_all_setup_tracks:
  "run_all (setupSingleDependency env) deps (dm, w) = (rs, dm', w') \<Longrightarrow>
     dm_setupDependencies dm' = dm_setupDependencies dm @ succeeded deps rs \<and>
     (dm_ok dm \<longrightarrow> dm_ok dm')"
proof (induction deps arbitrary: dm w rs dm' w')
  case (Cons d deps)
  obtain r dm1 w1 where 1: "setupSingleDependency env d (dm, w) = (r, dm1, w1)"
    by (metis prod_cases3)
  obtain rs' dm2 w2 where 2: "run_all (setupSingleDependency env) deps (dm1, w1) = (rs', dm2, w2)"
    by (metis prod_cases3)
  show ?case
    using Cons.IH[OF 2] Cons.prems 1 2 setupSingleDependency_tracks[OF 1]
    by (auto simp: succeeded_def)
qed (simp add: succeeded_def)

lemma teardown_loop_run_all:
  "n \<le> length deps \<Longrightarrow>
     teardown_loop env deps n (l, s) =
       (Append l (somes (fst (run_all (teardownDependencyInstance env) (rev (take n deps)) s))),
        snd (run_all (teardownDependencyInstance env) (rev (take n deps)) s))"
proof (induction n arbitrary: l s)
  case (Suc n)
  obtain r s1 where "teardownDependencyInstance env (deps ! n) s = (r, s1)" by (meson surj_pair)
  with Suc show ?case
    by (cases r) (auto simp: take_Suc_conv_app_nth intro: ErrorList_eqI split: prod.splits)
qed (simp add: Append_def)

text \<open>
  C6: dependencies are mirrored.  Setting up a list runs every dependency once, in order, and goes
  on after a failure; the errors returned are those of the failed ones.  The tear-down that follows
  runs exactly the dependencies whose set-up succeeded, in reverse order, each on an existing
  instance, and goes on after a failure too.
\<close>

theorem setup_teardown_mirror:
  assumes "run_all (setupSingleDependency env) deps (dm_CreateManager, w) = (rs, dm, w1)"
    and "run_all (teardownDependencyInstance env) (rev (succeeded deps rs)) (dm, w2) = (ts, s)"
  shows "SetupDependencies env deps (dm_CreateManager, w) = (NewErrorList (somes rs), dm, w1)
    \<and> dm_ok dm
    \<and> TeardownDependencies env (dm, w2) = (NewErrorList (somes ts), s)"
proof -
  have ok: "dm_setupDependencies dm = succeeded deps rs" "dm_ok dm"
    using run_all_setup_tracks[OF assms(1)] by (auto simp: dm_CreateManager_def dm_ok_def)
  moreover have "SetupDependencies env deps (dm_CreateManager, w) = (NewErrorList (somes rs), dm, w1)"
    unfolding SetupDependencies_def fold_Append_run_all using assms(1)
    by (auto intro: ErrorList_eqI)
  moreover have "TeardownDependencies env (dm, w2) = (NewErrorList (somes ts), s)"
    unfolding TeardownDependencies_def using assms(2) ok
    by (auto simp: teardown_loop_run_all intro: ErrorList_eqI)
  ultimately show ?thesis by blast
qed

section \<open>An example\<close>

text \<open>
  The world is the log of the calls; the method \<^verbatim>\<open>Bad\<close> fails and a deadline of one nanosecond is
  always missed.
\<close>

definition log_env :: "(nat, (string \<times> string) list) denv" where
  "log_env = \<lparr>d_new = \<lparr>df_createFuncs = \<lambda>_. Some 0, df_Registered = \<lambda>_. True\<rparr>,
     d_version = \<lambda>_. Inr ''v1'',
     d_setup = \<lambda>m _ i w. (if m = ''Bad'' then Some (Errorf ''no'' []) else None, i, w @ [(''up'', m)]),
     d_select = \<lambda>t m _ i w. (if t \<le> 1 then None else Some None, i, w @ [(''up'', m)]),
     d_teardown = \<lambda>m _ i w. (None, i, w @ [(''down'', m)]),
     d_showDuration = show_int\<rparr>"

definition dep :: "string \<Rightarrow> duration \<Rightarrow> Dependency" where
  "dep m t = \<lparr>de_Name = m, de_Method = m, de_Timeout = t, de_Params = []\<rparr>"

theorem setup_teardown_mirror_witness:
  "snd (snd (TeardownDependencies log_env
      (snd (SetupDependencies log_env [dep ''A'' 0, dep ''Bad'' 0, dep ''B'' 5, dep ''C'' 1]
         (dm_CreateManager, []))))) =
   [(''up'', ''A''), (''up'', ''Bad''), (''up'', ''B''), (''up'', ''C''), (''down'', ''B''), (''down'', ''A'')]"
proof -
  let ?deps = "[dep ''A'' 0, dep ''Bad'' 0, dep ''B'' 5, dep ''C'' 1]"
  obtain rs dm w1 where up: "run_all (setupSingleDependency log_env) ?deps (dm_CreateManager, []) = (rs, dm, w1)"
    by (metis prod_cases3)
  obtain ts dm' w2 where
    down: "run_all (teardownDependencyInstance log_env) (rev (succeeded ?deps rs)) (dm, w1) = (ts, dm', w2)"
    by (metis prod_cases3)
  note sims = log_env_def dep_def dm_CreateManager_def setupSingleDependency_def
    getDependencyInstance_def createDependency_def ToTimeDuration_def setup_failed_def
  have "w1 = [(''up'', ''A''), (''up'', ''Bad''), (''up'', ''B''), (''up'', ''C'')]"
    and rs: "map (\<lambda>r. r = None) rs = [True, False, True, False]"
    using up by (auto simp: sims)
  moreover obtain e e' where "rs = [None, Some e, None, Some e']"
    using rs by (auto simp: map_eq_Cons_conv)
  ultimately have "w2 = [(''up'', ''A''), (''up'', ''Bad''), (''up'', ''B''), (''up'', ''C''), (''down'', ''B''), (''down'', ''A'')]"
    using down by (auto simp: succeeded_def teardownDependencyInstance_def log_env_def dep_def)
  then show ?thesis using setup_teardown_mirror[OF up down] by simp
qed

end
