(* ===== verification/Modifier.thy ===== *)
theory Modifier
  imports Api_Types "HOL-Library.Sublist"
begin

text \<open>
  The package \<^verbatim>\<open>clusterloader2/pkg/modifier\<close>: the flags \<^verbatim>\<open>--skip-steps\<close> and
  \<^verbatim>\<open>--overwrite-test-config\<close> applied to a test configuration.  The overwrite walks the
  configuration by reflection; \<open>rval\<close> is what \<^verbatim>\<open>reflect\<close> shows of a value, \<open>RPtr z p\<close> a pointer to
  \<open>p\<close> (nil when \<open>None\<close>) whose element type has the zero value \<open>z\<close>, and \<open>ROther k\<close> a value of a
  kind that is not overwritten.  Parse errors are reported without the text of \<^verbatim>\<open>strconv\<close>.
\<close>

section \<open>Reflection\<close>

datatype rval =
    RBool bool
  | RString string
  | RInt nat int
  | RStruct "(string \<times> rval) list"
  | RPtr rval "rval option"
  | ROther string

definition reflect_NamespaceConfig :: "NamespaceConfig \<Rightarrow> rval" where
  "reflect_NamespaceConfig n = RStruct
     [(''Number'', RInt 32 (nc_Number n)),
      (''Prefix'', RString (nc_Prefix n)),
      (''DeleteStaleNamespaces'', RPtr (RBool False) (map_option RBool (nc_DeleteStaleNamespaces n))),
      (''DeleteAutomanagedNamespaces'',
         RPtr (RBool False) (map_option RBool (nc_DeleteAutomanagedNamespaces n))),
      (''EnableExistingNamespaces'',
         RPtr (RBool False) (map_option RBool (nc_EnableExistingNamespaces n))),
      (''DeleteNamespaceTimeout'',
         RPtr (RInt 64 0) (map_option (RInt 64) (nc_DeleteNamespaceTimeout n)))]"

definition reflect_NodeFailureConfig :: "NodeFailureConfig \<Rightarrow> rval" where
  "reflect_NodeFailureConfig f = RStruct
     [(''FailureRate'', ROther ''float64''), (''Interval'', RInt 64 (nf_Interval f)),
      (''JitterFactor'', ROther ''float64''), (''SimulatedDowntime'', RInt 64 (nf_SimulatedDowntime f))]"

definition zero_NodeFailureConfig :: NodeFailureConfig where
  "zero_NodeFailureConfig =
     \<lparr>nf_FailureRate = 0, nf_Interval = 0, nf_JitterFactor = 0, nf_SimulatedDowntime = 0\<rparr>"

definition reflect_Config :: "Config \<Rightarrow> rval" where
  "reflect_Config c = RStruct
     [(''Name'', RString (co_Name c)),
      (''Dependencies'', ROther ''slice''),
      (''AutomanagedNamespaces'', RInt 32 (co_AutomanagedNamespaces c)),
      (''Namespace'', reflect_NamespaceConfig (co_Namespace c)),
      (''Steps'', ROther ''slice''),
      (''TuningSets'', ROther ''slice''),
      (''ChaosMonkey'', RStruct
        [(''NodeFailure'', RPtr (reflect_NodeFailureConfig zero_NodeFailureConfig)
            (map_option reflect_NodeFailureConfig (cm_NodeFailure (co_ChaosMonkey c)))),
         (''ExcludedNodes'', ROther ''map'')])]"

text \<open>The configuration behind its reflection after scalars were set in place.\<close>

fun the_int :: "rval \<Rightarrow> int" where "the_int (RInt b i) = i" | "the_int _ = 0"
fun the_string :: "rval \<Rightarrow> string" where "the_string (RString s) = s" | "the_string _ = []"
fun the_bool :: "rval \<Rightarrow> bool" where "the_bool (RBool b) = b" | "the_bool _ = False"
fun pointee :: "rval \<Rightarrow> rval option" where "pointee (RPtr z p) = p" | "pointee _ = None"
fun field :: "rval \<Rightarrow> string \<Rightarrow> rval" where
  "field (RStruct fs) p = (case map_of fs p of Some v \<Rightarrow> v | None \<Rightarrow> ROther ''invalid'')"
| "field _ p = ROther ''invalid''"

definition set_NamespaceConfig :: "rval \<Rightarrow> NamespaceConfig" where
  "set_NamespaceConfig r =
     \<lparr>nc_Number = the_int (field r ''Number''),
      nc_Prefix = the_string (field r ''Prefix''),
      nc_DeleteStaleNamespaces = map_option the_bool (pointee (field r ''DeleteStaleNamespaces'')),
      nc_DeleteAutomanagedNamespaces =
        map_option the_bool (pointee (field r ''DeleteAutomanagedNamespaces'')),
      nc_EnableExistingNamespaces =
        map_option the_bool (pointee (field r ''EnableExistingNamespaces'')),
      nc_DeleteNamespaceTimeout =
        map_option the_int (pointee (field r ''DeleteNamespaceTimeout''))\<rparr>"

definition set_NodeFailureConfig :: "NodeFailureConfig option \<Rightarrow> rval \<Rightarrow> NodeFailureConfig" where
  "set_NodeFailureConfig old r =
     (let f = (case old of None \<Rightarrow> zero_NodeFailureConfig | Some f \<Rightarrow> f)
      in f\<lparr>nf_Interval := the_int (field r ''Interval''),
           nf_SimulatedDowntime := the_int (field r ''SimulatedDowntime'')\<rparr>)"

definition set_Config :: "Config \<Rightarrow> rval \<Rightarrow> Config" where
  "set_Config c r =
     c\<lparr>co_Name := the_string (field r ''Name''),
       co_AutomanagedNamespaces := the_int (field r ''AutomanagedNamespaces''),
       co_Namespace := set_NamespaceConfig (field r ''Namespace''),
       co_ChaosMonkey := (co_ChaosMonkey c)\<lparr>cm_NodeFailure :=
         map_option (set_NodeFailureConfig (cm_NodeFailure (co_ChaosMonkey c)))
           (pointee (field (field r ''ChaosMonkey'') ''NodeFailure''))\<rparr>\<rparr>"

section \<open>Operations\<close>

record simpleModifier =
  overwriteTestConfig :: "string list"
  skipSteps :: "string list"

fun ignored_step :: "string list \<Rightarrow> Step \<Rightarrow> bool" where
  "ignored_step [] s = False"
| "ignored_step (i # is) s = (if i = st_Name s then True else ignored_step is s)"

fun skip_loop :: "string list \<Rightarrow> Step list \<Rightarrow> Step list \<Rightarrow> Step list" where
  "skip_loop skip [] acc = acc"
| "skip_loop skip (s # ss) acc =
     skip_loop skip ss (if \<not> ignored_step skip s then acc @ [s] else acc)"

definition modifySkipSteps :: "simpleModifier \<Rightarrow> Config \<Rightarrow> Config" where
  "modifySkipSteps m c = c\<lparr>co_Steps := skip_loop (skipSteps m) (co_Steps c) []\<rparr>"

text \<open>\<^verbatim>\<open>strings.Split\<close> for a separator of one character.\<close>

fun strings_Split :: "string \<Rightarrow> char \<Rightarrow> string list" where
  "strings_Split [] c = [[]]"
| "strings_Split (x # xs) c =
     (if x = c then [] # strings_Split xs c
      else (case strings_Split xs c of [] \<Rightarrow> [[x]] | w # ws \<Rightarrow> (x # w) # ws))"

text \<open>A reflective operation succeeds, returns an error or panics.\<close>

datatype status = Ok | Err goerr | Panic

definition quoted :: "string \<Rightarrow> string" where
  "quoted s = [CHR 0x27] @ s @ [CHR 0x27]"

fun overwriteValue :: "rval \<Rightarrow> string \<Rightarrow> string \<Rightarrow> status \<times> rval" where
  "overwriteValue (RBool b) v k =
     (case parse_bool v of
        Inl err \<Rightarrow> (Err (Errorf (''test config overwrite error: Cannot parse '' @ quoted v @ '' for key ''
                        @ quoted k @ '' to bool'') []), RBool b)
      | Inr boolV \<Rightarrow> (Ok, RBool boolV))"
| "overwriteValue (RString s) v k = (Ok, RString v)"
| "overwriteValue (RInt bits i) v k =
     (case parse_int bits v of
        (intV, Some err) \<Rightarrow> (Err (Errorf (''test config overwrite error: Cannot parse '' @ quoted v @ '' for key ''
                        @ quoted k @ '' to int'') []), RInt bits i)
      | (intV, None) \<Rightarrow> (Ok, RInt bits intV))"
| "overwriteValue (RStruct fs) v k = (Err (Errorf (''unsupported kind: struct for key '' @ k) []), RStruct fs)"
| "overwriteValue (RPtr z p) v k = (Err (Errorf (''unsupported kind: ptr for key '' @ k) []), RPtr z p)"
| "overwriteValue (ROther kind) v k =
     (Err (Errorf (''unsupported kind: '' @ kind @ '' for key '' @ k) []), ROther kind)"

text \<open>
  The walk along the parameter path and the overwrite at its end.  \<^verbatim>\<open>FieldByName\<close> panics unless the
  value is a struct; a nil pointer on the way is replaced by a pointer to a zero value, which stays
  even if a later element of the path does not exist.
\<close>

fun overwrite_path :: "string list \<Rightarrow> rval \<Rightarrow> string \<Rightarrow> string \<Rightarrow> status \<times> rval" where
  "overwrite_path [] curValue v k = overwriteValue curValue v k"
| "overwrite_path (p # ps) (RStruct fs) v k =
     (case map_of fs p of
        None \<Rightarrow>
          (Err (Errorf (''cannot overwrite config for key '' @ quoted k @ ''. Path does not exist'') []), RStruct fs)
      | Some (RPtr z q) \<Rightarrow>
          (let (st, r) = overwrite_path ps (case q of None \<Rightarrow> z | Some e \<Rightarrow> e) v k
           in (st, RStruct (AList.update p (RPtr z (Some r)) fs)))
      | Some child \<Rightarrow>
          (let (st, r) = overwrite_path ps child v k
           in (st, RStruct (AList.update p r fs))))"
| "overwrite_path (p # ps) other v k = (Panic, other)"

fun overwrite_loop :: "string list \<Rightarrow> rval \<Rightarrow> status \<times> rval" where
  "overwrite_loop [] c = (Ok, c)"
| "overwrite_loop (ov # os) c =
     (case strings_Split ov (CHR ''='') of
        [k, v] \<Rightarrow>
          (case overwrite_path (strings_Split k (CHR ''.'')) c v k of
             (Ok, c') \<Rightarrow> overwrite_loop os c'
           | (st, c') \<Rightarrow> (st, c'))
      | _ \<Rightarrow> (Err (Errorf (''not a key=value pair: '' @ quoted ov) []), c))"

definition modifyOverwrite :: "simpleModifier \<Rightarrow> Config \<Rightarrow> status \<times> Config" where
  "modifyOverwrite m c =
     (let (st, r) = overwrite_loop (overwriteTestConfig m) (reflect_Config c)
      in (st, set_Config c r))"

definition ChangeTest :: "simpleModifier \<Rightarrow> Config \<Rightarrow> status \<times> Config" where
  "ChangeTest m c = modifyOverwrite m (modifySkipSteps m c)"

section \<open>Skipping steps\<close>

lemma ignored_step_iff: "ignored_step is s \<longleftrightarrow> st_Name s \<in> set is"
  by (induction "is") auto

lemma skip_loop_filter: "skip_loop skip ss acc = acc @ filter (\<lambda>s. st_Name s \<notin> set skip) ss"
  by (induction skip ss acc rule: skip_loop.induct) (auto simp: ignored_step_iff)

lemma modifySkipSteps_filter:
  "modifySkipSteps m c = c\<lparr>co_Steps := filter (\<lambda>s. st_Name s \<notin> set (skipSteps m)) (co_Steps c)\<rparr>"
  by (simp add: modifySkipSteps_def skip_loop_filter)

section \<open>Overwriting a path\<close>

text \<open>
  The value at a path; a nil pointer counts as the zero value it would be replaced by.
\<close>

fun value_at :: "string list \<Rightarrow> rval \<Rightarrow> rval option" where
  "value_at [] r = Some r"
| "value_at (p # ps) (RStruct fs) =
     (case map_of fs p of
        None \<Rightarrow> None
      | Some (RPtr z q) \<Rightarrow> value_at ps (case q of None \<Rightarrow> z | Some e \<Rightarrow> e)
      | Some child \<Rightarrow> value_at ps child)"
| "value_at (p # ps) other = None"

lemma overwriteValue_not_ptr:
  "fst (overwriteValue r v k) = Ok \<Longrightarrow> snd (overwriteValue r v k) \<noteq> RPtr z q"
  by (cases r) (auto split: sum.splits prod.splits option.splits)

lemma overwrite_path_shape:
  "overwrite_path ps r v k = (Ok, r') \<Longrightarrow> (\<exists>z q. r = RPtr z q) \<longleftrightarrow> (\<exists>z q. r' = RPtr z q)"
  by (cases ps; cases r)
     (auto split: sum.splits prod.splits option.splits rval.splits)

lemma overwrite_path_set:
  "overwrite_path ps r v k = (Ok, r') \<Longrightarrow>
     \<exists>old. value_at ps r = Some old \<and> overwriteValue old v k = (Ok, the (value_at ps r')) \<and>
           value_at ps r' \<noteq> None"
proof (induction ps r v k arbitrary: r' rule: overwrite_path.induct)
  case (2 p ps fs v k)
  show ?case
  proof (cases "map_of fs p")
    case (Some child)
    with 2 show ?thesis
      using overwrite_path_shape[of ps child v k]
      by (cases child) (fastforce simp: go_map split: prod.splits rval.splits)+
  qed (use 2 in simp)
qed simp_all

lemma overwrite_path_frame:
  "overwrite_path ps r v k = (Ok, r') \<Longrightarrow> ps \<parallel> qs \<Longrightarrow> value_at qs r' = value_at qs r"
proof (induction ps r v k arbitrary: r' qs rule: overwrite_path.induct)
  case (2 p ps fs v k)
  obtain q qs' where qs: "qs = q # qs'" using "2.prems"(2) by (cases qs) auto
  have par: "p = q \<Longrightarrow> ps \<parallel> qs'" using "2.prems"(2) qs by (auto simp: parallel_def)
  show ?case
  proof (cases "map_of fs p")
    case (Some child)
    with 2 qs par show ?thesis
      using overwrite_path_shape[of ps child v k]
      by (cases child; cases "p = q") (fastforce simp: go_map split: prod.splits rval.splits)+
  qed (use 2 in simp)
qed simp_all

text \<open>
  An overwrite changes one value.  If \<^verbatim>\<open>key=value\<close> is applied without error, the value at the
  key's path becomes the parsed value and the value at every path that neither extends it nor is
  extended by it stays what it was.
\<close>

theorem overwrite_changes_one_value:
  assumes "overwrite_path ps r v k = (Ok, r')"
  shows "\<exists>old new. value_at ps r = Some old \<and> overwriteValue old v k = (Ok, new)
    \<and> value_at ps r' = Some new
    \<and> (\<forall>qs. ps \<parallel> qs \<longrightarrow> value_at qs r' = value_at qs r)"
  using overwrite_path_set[OF assms] overwrite_path_frame[OF assms] by auto

theorem overwrite_changes_one_value_witness:
  "\<exists>r'. overwrite_path [''N'', ''B'']
      (RStruct [(''N'', RStruct [(''A'', RInt 32 1), (''B'', RPtr (RBool False) None)])]) ''true'' ''N.B'' = (Ok, r')
    \<and> value_at [''N'', ''B''] r' = Some (RBool True) \<and> value_at [''N'', ''A''] r' = Some (RInt 32 1)"
proof -
  let ?r = "RStruct [(''N'', RStruct [(''A'', RInt 32 1), (''B'', RPtr (RBool False) None)])]"
  obtain r' where r': "overwrite_path [''N'', ''B''] ?r ''true'' ''N.B'' = (Ok, r')"
    by (simp add: parse_bool_def)
  have "[''N'', ''B''] \<parallel> [''N'', ''A'']" by (simp add: parallel_def)
  then show ?thesis
    using overwrite_changes_one_value[OF r'] r' by (auto simp: parse_bool_def)
qed

text \<open>
  A path that goes on below a value which is no struct, such as \<^verbatim>\<open>Name.x=1\<close>, does not give the
  error for a path that does not exist: the reflective access panics.
\<close>

theorem path_below_scalar_panics:
  assumes "value_at ps r = Some leaf" and "\<not> (\<exists>fs. leaf = RStruct fs)"
  shows "fst (overwrite_path (ps @ p # qs) r v k) = Panic"
  using assms
proof (induction ps r rule: value_at.induct)
  case (1 r)
  then show ?case by (cases r) auto
next
  case (2 q ps fs)
  show ?case
  proof (cases "map_of fs q")
    case (Some child)
    with 2 show ?thesis by (cases child) (auto split: prod.splits)
  qed (use 2 in simp)
qed simp_all

theorem path_below_scalar_panics_witness:
  "fst (overwrite_path [''Name'', ''x''] (RStruct [(''Name'', RString ''t'')]) ''1'' ''Name.x'') = Panic"
  using path_below_scalar_panics[of "[''Name'']" "RStruct [(''Name'', RString ''t'')]" "RString ''t''"
      "''x''" "[]" "''1''" "''Name.x''"] by simp

section \<open>The configuration and its reflection\<close>

lemma set_reflect_NamespaceConfig: "set_NamespaceConfig (reflect_NamespaceConfig n) = n"
  by (simp add: set_NamespaceConfig_def reflect_NamespaceConfig_def option.map_comp o_def
      option.map_ident)

lemma set_reflect_Config [simp]: "set_Config c (reflect_Config c) = c"
proof -
  have "map_option (set_NodeFailureConfig f) (map_option reflect_NodeFailureConfig f) = f" for f
    by (cases f) (auto simp: set_NodeFailureConfig_def reflect_NodeFailureConfig_def)
  then show ?thesis
    by (simp add: set_Config_def reflect_Config_def set_reflect_NamespaceConfig)
qed

lemma strings_Split_none: "c \<notin> set s \<Longrightarrow> strings_Split s c = [s]"
  by (induction s) auto

lemma strings_Split_sep:
  "c \<notin> set s \<Longrightarrow> strings_Split (s @ c # t) c = s # strings_Split t c"
  by (induction s) auto

text \<open>
  Skipping and overwriting together.  \<^verbatim>\<open>ChangeTest\<close> with \<^verbatim>\<open>Namespace.Prefix=x\<close> keeps, in order,
  exactly the steps whose name is not to be skipped, sets the namespace prefix and changes nothing
  else; with no overwrite it only skips, and doing it twice is doing it once.
\<close>

theorem ChangeTest_prefix:
  assumes "CHR ''='' \<notin> set x"
  shows "ChangeTest \<lparr>overwriteTestConfig = [''Namespace.Prefix='' @ x], skipSteps = skip\<rparr> c =
     (Ok, c\<lparr>co_Steps := filter (\<lambda>s. st_Name s \<notin> set skip) (co_Steps c),
           co_Namespace := (co_Namespace c)\<lparr>nc_Prefix := x\<rparr>\<rparr>)
   \<and> (let m = \<lparr>overwriteTestConfig = [], skipSteps = skip\<rparr>; (st, c') = ChangeTest m c
      in st = Ok \<and> ChangeTest m c' = (Ok, c'))"
proof
  have sp: "strings_Split (''Namespace.Prefix='' @ x) (CHR ''='') = [''Namespace.Prefix'', x]"
    using strings_Split_sep[of "CHR ''=''" "''Namespace.Prefix''" x] assms
    by (simp add: strings_Split_none)
  have path: "strings_Split ''Namespace.Prefix'' (CHR ''.'') = [''Namespace'', ''Prefix'']"
    by simp
  let ?c = "c\<lparr>co_Steps := filter (\<lambda>s. st_Name s \<notin> set skip) (co_Steps c)\<rparr>"
  have "overwrite_path [''Namespace'', ''Prefix''] (reflect_Config ?c) x ''Namespace.Prefix'' =
      (Ok, reflect_Config (?c\<lparr>co_Namespace := (co_Namespace c)\<lparr>nc_Prefix := x\<rparr>\<rparr>))"
    by (simp add: reflect_Config_def reflect_NamespaceConfig_def)
  moreover have "set_Config ?c (reflect_Config (?c\<lparr>co_Namespace := n\<rparr>)) = ?c\<lparr>co_Namespace := n\<rparr>" for n
    using set_reflect_Config[of "?c\<lparr>co_Namespace := n\<rparr>"] by (simp add: set_Config_def)
  ultimately show "ChangeTest \<lparr>overwriteTestConfig = [''Namespace.Prefix='' @ x], skipSteps = skip\<rparr> c =
     (Ok, c\<lparr>co_Steps := filter (\<lambda>s. st_Name s \<notin> set skip) (co_Steps c),
           co_Namespace := (co_Namespace c)\<lparr>nc_Prefix := x\<rparr>\<rparr>)"
    unfolding ChangeTest_def modifyOverwrite_def modifySkipSteps_filter
    by (simp only: overwrite_loop.simps sp path simpleModifier.simps) simp
  show "let m = \<lparr>overwriteTestConfig = [], skipSteps = skip\<rparr>; (st, c') = ChangeTest m c
      in st = Ok \<and> ChangeTest m c' = (Ok, c')"
    by (simp add: ChangeTest_def modifyOverwrite_def modifySkipSteps_filter)
qed

definition tiny_config :: Config where
  "tiny_config = \<lparr>co_Name = ''t'', co_Dependencies = [], co_AutomanagedNamespaces = 1,
     co_Namespace = \<lparr>nc_Number = 1, nc_Prefix = [], nc_DeleteStaleNamespaces = None,
       nc_DeleteAutomanagedNamespaces = None, nc_EnableExistingNamespaces = None,
       nc_DeleteNamespaceTimeout = None\<rparr>,
     co_Steps = [\<lparr>st_Phases = [], st_Measurements = [], st_Module = \<lparr>mr_Path = [], mr_Params = []\<rparr>,
                 st_Name = ''skip-me''\<rparr>],
     co_TuningSets = [], co_ChaosMonkey = \<lparr>cm_NodeFailure = None, cm_ExcludedNodes = None\<rparr>\<rparr>"

theorem ChangeTest_prefix_witness:
  "ChangeTest \<lparr>overwriteTestConfig = [''Namespace.Prefix=my''], skipSteps = [''skip-me'']\<rparr> tiny_config =
     (Ok, tiny_config\<lparr>co_Steps := [], co_Namespace := (co_Namespace tiny_config)\<lparr>nc_Prefix := ''my''\<rparr>\<rparr>)"
  using ChangeTest_prefix[of "''my''" "[''skip-me'']" tiny_config] by (simp add: tiny_config_def)

end
