(* ===== verification/Chaos.thy ===== *)
theory Chaos
  imports Api_Types Go_Float "HOL-Library.Multiset"
begin

text \<open>
  The package \<^verbatim>\<open>clusterloader2/pkg/chaos\<close>: the monkey that stops and reboots nodes during a test.
  One round picks nodes and kills them; the goroutines of a round are a step relation.  The list
  of schedulable nodes, the nodes of the Prometheus pods, the shuffle and the results of the SSH
  commands are arguments.
\<close>

section \<open>Node killer\<close>

datatype nodeAction = stopServices | rebootNode

record NodeKiller =
  nk_config :: NodeFailureConfig
  nk_killedNodes :: "string set"
  nk_events :: "(nodeAction \<times> string) list"

definition NewNodeKiller ::
  "NodeFailureConfig \<Rightarrow> string set \<Rightarrow> string \<Rightarrow> bool \<Rightarrow> goerr + NodeKiller" where
  "NewNodeKiller config killedNodes provider supportNodeKiller =
     (if \<not> supportNodeKiller
      then Inl (Errorf (''provider '' @ provider @ '' is not supported by NodeKiller'') [])
      else Inr \<lparr>nk_config = config, nk_killedNodes = killedNodes, nk_events = []\<rparr>)"

text \<open>
  \<open>None\<close> when slicing with a negative number of nodes panics.
\<close>

definition pickNodes ::
  "(goerr + string list) \<Rightarrow> (goerr + string list) \<Rightarrow> (string list \<Rightarrow> string list) \<Rightarrow> NodeKiller \<Rightarrow>
   (goerr + string list) option" where
  "pickNodes allNodes prometheusPodNodes shuffle k =
     (case allNodes of
        Inl err \<Rightarrow> Some (Inl err)
      | Inr allN \<Rightarrow>
          (case prometheusPodNodes of
             Inl err \<Rightarrow> Some (Inl err)
           | Inr pods \<Rightarrow>
               let nodesHasPrometheusPod = {n \<in> set pods. n \<noteq> []};
                   nodes = filter (\<lambda>n. n \<notin> nodesHasPrometheusPod \<and> n \<notin> nk_killedNodes k) allN;
                   nodes = shuffle nodes;
                   numNodes = \<lceil>fl (nf_FailureRate (nk_config k) * of_nat (length nodes))\<rceil>
               in if int (length nodes) > numNodes
                  then if numNodes < 0 then None else Some (Inr (take (nat numNodes) nodes))
                  else Some (Inr nodes)))"

section \<open>One round of killing\<close>

text \<open>
  Where the goroutine of a node is: before the stop event, running \<^verbatim>\<open>systemctl stop\<close>, down, running
  \<^verbatim>\<open>reboot\<close>, returned.
\<close>

datatype node_pc = Pending | Stopping | Down | Rebooting | Finished

record kstate =
  ks_pc :: "string \<rightharpoonup> node_pc"
  ks_killer :: NodeKiller

definition ks_event :: "nodeAction \<Rightarrow> string \<Rightarrow> node_pc \<Rightarrow> kstate \<Rightarrow> kstate" where
  "ks_event a n pc s = s\<lparr>ks_pc := (ks_pc s)(n \<mapsto> pc),
     ks_killer := (ks_killer s)\<lparr>nk_events := nk_events (ks_killer s) @ [(a, n)]\<rparr>\<rparr>"

inductive kill_step :: "kstate \<Rightarrow> kstate \<Rightarrow> bool" where
  addStopServicesEvent: "ks_pc s n = Some Pending \<Longrightarrow> kill_step s (ks_event stopServices n Stopping s)"
| stop_ok: "ks_pc s n = Some Stopping \<Longrightarrow> kill_step s (s\<lparr>ks_pc := (ks_pc s)(n \<mapsto> Down)\<rparr>)"
| stop_failed: "ks_pc s n = Some Stopping \<Longrightarrow> kill_step s (s\<lparr>ks_pc := (ks_pc s)(n \<mapsto> Finished)\<rparr>)"
| addRebootEvent: "ks_pc s n = Some Down \<Longrightarrow> kill_step s (ks_event rebootNode n Rebooting s)"
| rebooted: "ks_pc s n = Some Rebooting \<Longrightarrow> kill_step s (s\<lparr>ks_pc := (ks_pc s)(n \<mapsto> Finished)\<rparr>)"

text \<open>
  The loop of \<^verbatim>\<open>kill\<close> marks every node as killed and starts its goroutine; \<^verbatim>\<open>kill\<close> returns when all
  have finished.
\<close>

definition kill_start :: "string list \<Rightarrow> NodeKiller \<Rightarrow> kstate" where
  "kill_start nodes k =
     \<lparr>ks_pc = (\<lambda>n. if n \<in> set nodes then Some Pending else None),
      ks_killer = k\<lparr>nk_killedNodes := nk_killedNodes k \<union> set nodes\<rparr>\<rparr>"

definition all_finished :: "kstate \<Rightarrow> bool" where
  "all_finished s \<longleftrightarrow> ran (ks_pc s) \<subseteq> {Finished}"

section \<open>The monkey\<close>

record Monkey =
  mk_provider :: string
  mk_supported :: bool
  mk_nodeKiller :: "NodeKiller option"

definition NewMonkey :: "string \<Rightarrow> bool \<Rightarrow> Monkey" where
  "NewMonkey provider supported = \<lparr>mk_provider = provider, mk_supported = supported, mk_nodeKiller = None\<rparr>"

text \<open>The result tells whether a killer goroutine was started, that is, the wait group is not nil.\<close>

definition Monkey_Init :: "ChaosMonkeyConfig \<Rightarrow> Monkey \<Rightarrow> (goerr + bool) \<times> Monkey" where
  "Monkey_Init config m =
     (case cm_NodeFailure config of
        None \<Rightarrow> (Inr False, m)
      | Some nf \<Rightarrow>
          (case NewNodeKiller nf (case cm_ExcludedNodes config of None \<Rightarrow> {} | Some ns \<Rightarrow> set ns)
                  (mk_provider m) (mk_supported m) of
             Inl err \<Rightarrow> (Inl err, m)
           | Inr nodeKiller \<Rightarrow> (Inr True, m\<lparr>mk_nodeKiller := Some nodeKiller\<rparr>)))"

definition KilledNodes :: "Monkey \<Rightarrow> string set" where
  "KilledNodes m = (case mk_nodeKiller m of Some k \<Rightarrow> nk_killedNodes k | None \<Rightarrow> {})"

section \<open>Picking nodes\<close>

lemma pickNodes_sound:
  assumes pick: "pickNodes (Inr allN) (Inr pods) shuffle k = Some (Inr nodes)"
    and sh: "\<And>xs. mset (shuffle xs) = mset xs" and d: "distinct allN"
  shows "distinct nodes" "set nodes \<subseteq> set allN - {n \<in> set pods. n \<noteq> []} - nk_killedNodes k"
proof -
  define cand where "cand = filter (\<lambda>n. n \<notin> {n \<in> set pods. n \<noteq> []} \<and> n \<notin> nk_killedNodes k) allN"
  obtain m where m: "nodes = take m (shuffle cand)"
    using pick unfolding pickNodes_def cand_def[symmetric]
    by (auto simp: Let_def cand_def split: if_splits) (metis order_refl take_all)
  have "distinct (shuffle cand)"
    using d sh[of cand] by (metis cand_def distinct_filter mset_eq_imp_distinct_iff)
  then show "distinct nodes" by (simp add: m)
  have "set nodes \<subseteq> set cand"
    using m sh[of cand] by (metis mset_eq_setD set_take_subset)
  then show "set nodes \<subseteq> set allN - {n \<in> set pods. n \<noteq> []} - nk_killedNodes k"
    by (auto simp: cand_def)
qed

section \<open>Rounds\<close>

definition events_of :: "string \<Rightarrow> NodeKiller \<Rightarrow> nodeAction list" where
  "events_of n k = map fst (filter (\<lambda>e. snd e = n) (nk_events k))"

text \<open>The histories of a node that was killed at most once.\<close>

definition once :: "nodeAction list \<Rightarrow> bool" where
  "once h \<longleftrightarrow> h \<in> {[], [stopServices], [stopServices, rebootNode]}"

definition killer_ok :: "NodeKiller \<Rightarrow> bool" where
  "killer_ok k \<longleftrightarrow> (\<forall>n. once (events_of n k) \<and> (events_of n k \<noteq> [] \<longrightarrow> n \<in> nk_killedNodes k))"

definition pc_history :: "node_pc option \<Rightarrow> nodeAction list \<Rightarrow> bool" where
  "pc_history pc h \<longleftrightarrow>
     (case pc of
        None \<Rightarrow> once h
      | Some Pending \<Rightarrow> h = []
      | Some Stopping \<Rightarrow> h = [stopServices]
      | Some Down \<Rightarrow> h = [stopServices]
      | Some Rebooting \<Rightarrow> h = [stopServices, rebootNode]
      | Some Finished \<Rightarrow> h \<in> {[stopServices], [stopServices, rebootNode]})"

definition round_ok :: "kstate \<Rightarrow> bool" where
  "round_ok s \<longleftrightarrow> (\<forall>n. pc_history (ks_pc s n) (events_of n (ks_killer s)) \<and>
     (events_of n (ks_killer s) \<noteq> [] \<or> ks_pc s n \<noteq> None \<longrightarrow> n \<in> nk_killedNodes (ks_killer s)))"

lemma events_of_append [simp]:
  "events_of n (k\<lparr>nk_events := nk_events k @ [(a, m)]\<rparr>) = events_of n k @ (if m = n then [a] else [])"
  by (simp add: events_of_def)

lemma round_ok_update:
  assumes "round_ok s" "ks_pc s n = Some pc" "ks_pc s' = (ks_pc s)(n \<mapsto> pc')"
    and "\<And>m. events_of m (ks_killer s') = events_of m (ks_killer s) @ (if m = n then new else [])"
    and "nk_killedNodes (ks_killer s') = nk_killedNodes (ks_killer s)"
    and "\<And>h. pc_history (Some pc) h \<Longrightarrow> pc_history (Some pc') (h @ new)"
  shows "round_ok s'"
  unfolding round_ok_def
proof
  fix m
  have "pc_history (ks_pc s m) (events_of m (ks_killer s))"
    "events_of m (ks_killer s) \<noteq> [] \<or> ks_pc s m \<noteq> None \<longrightarrow> m \<in> nk_killedNodes (ks_killer s)"
    using assms(1) by (auto simp: round_ok_def)
  then show "pc_history (ks_pc s' m) (events_of m (ks_killer s')) \<and>
      (events_of m (ks_killer s') \<noteq> [] \<or> ks_pc s' m \<noteq> None \<longrightarrow> m \<in> nk_killedNodes (ks_killer s'))"
    using assms(2-6) by (cases "m = n") auto
qed

lemma round_ok_step: "kill_step s s' \<Longrightarrow> round_ok s \<Longrightarrow> round_ok s'"
proof (induction rule: kill_step.induct)
  case (addStopServicesEvent s n)
  then show ?case
    using round_ok_update[of s n Pending "ks_event stopServices n Stopping s" Stopping "[stopServices]"]
    by (simp add: ks_event_def pc_history_def)
next
  case (stop_ok s n)
  then show ?case
    using round_ok_update[of s n Stopping "s\<lparr>ks_pc := (ks_pc s)(n \<mapsto> Down)\<rparr>" Down "[]"]
    by (simp add: pc_history_def)
next
  case (stop_failed s n)
  then show ?case
    using round_ok_update[of s n Stopping "s\<lparr>ks_pc := (ks_pc s)(n \<mapsto> Finished)\<rparr>" Finished "[]"]
    by (simp add: pc_history_def)
next
  case (addRebootEvent s n)
  then show ?case
    using round_ok_update[of s n Down "ks_event rebootNode n Rebooting s" Rebooting "[rebootNode]"]
    by (simp add: ks_event_def pc_history_def)
next
  case (rebooted s n)
  then show ?case
    using round_ok_update[of s n Rebooting "s\<lparr>ks_pc := (ks_pc s)(n \<mapsto> Finished)\<rparr>" Finished "[]"]
    by (simp add: pc_history_def)
qed

lemma round_ok_steps: "kill_step\<^sup>*\<^sup>* s s' \<Longrightarrow> round_ok s \<Longrightarrow> round_ok s'"
  by (induction rule: rtranclp_induct) (auto intro: round_ok_step)

lemma round_ok_start:
  "killer_ok k \<Longrightarrow> set nodes \<inter> nk_killedNodes k = {} \<Longrightarrow> round_ok (kill_start nodes k)"
  by (auto simp: killer_ok_def round_ok_def kill_start_def pc_history_def events_of_def)

lemma round_ok_killer: "round_ok s \<Longrightarrow> killer_ok (ks_killer s)"
  unfolding round_ok_def killer_ok_def pc_history_def once_def
  by (fastforce split: option.splits node_pc.splits)

text \<open>One iteration of the function that \<^verbatim>\<open>wait.JitterUntil\<close> repeats, and any number of them.\<close>

inductive monkey_round :: "NodeKiller \<Rightarrow> NodeKiller \<Rightarrow> bool" where
  failed: "pickNodes allN pods shuffle k = Some (Inl err) \<Longrightarrow> monkey_round k k"
| killed: "pickNodes (Inr allN) (Inr pods) shuffle k = Some (Inr nodes) \<Longrightarrow>
    (\<And>xs. mset (shuffle xs) = mset xs) \<Longrightarrow> distinct allN \<Longrightarrow>
    kill_step\<^sup>*\<^sup>* (kill_start nodes k) s \<Longrightarrow> all_finished s \<Longrightarrow> monkey_round k (ks_killer s)"

lemma killer_ok_round: "monkey_round k k' \<Longrightarrow> killer_ok k \<Longrightarrow> killer_ok k'"
proof (induction rule: monkey_round.induct)
  case (killed allN pods shuffle k nodes s)
  have "set nodes \<inter> nk_killedNodes k = {}"
    using pickNodes_sound(2)[OF killed(1-3)] by auto
  with killed show ?case by (intro round_ok_killer round_ok_steps[OF killed(4)] round_ok_start)
qed

text \<open>
  C21: no node is failed twice.  Over any number of rounds of a new killer, and any interleaving of
  the goroutines of a round, every node is stopped at most once, is rebooted at most once and only
  after it was stopped, and is never touched if it is excluded from failures.
\<close>

theorem node_fails_at_most_once:
  assumes "NewNodeKiller config excluded provider True = Inr k" and "monkey_round\<^sup>*\<^sup>* k k'"
  shows "once (events_of n k') \<and> (n \<in> excluded \<longrightarrow> events_of n k' = [])"
proof -
  have k: "k = \<lparr>nk_config = config, nk_killedNodes = excluded, nk_events = []\<rparr>"
    using assms(1) by (simp add: NewNodeKiller_def)
  have "killer_ok k' \<and> (n \<in> excluded \<longrightarrow> events_of n k' = [] \<and> n \<in> nk_killedNodes k')"
    using assms(2)
  proof (induction rule: rtranclp_induct)
    case base
    then show ?case by (simp add: k killer_ok_def once_def events_of_def)
  next
    case (step k1 k2)
    have "events_of n k2 = [] \<and> n \<in> nk_killedNodes k2" if "n \<in> excluded"
      using step(2)
    proof cases
      case (killed allN pods shuffle nodes s)
      have n: "n \<notin> set nodes" "events_of n k1 = []" "n \<in> nk_killedNodes k1"
        using pickNodes_sound(2)[OF killed(2-4)] step.IH that by auto
      have "ks_pc s n = None \<and> events_of n (ks_killer s) = [] \<and> n \<in> nk_killedNodes (ks_killer s)"
        using killed(5)
      proof (induction rule: rtranclp_induct)
        case base
        then show ?case using n by (simp add: kill_start_def events_of_def)
      next
        case (step y z)
        from step(2) step.IH show ?case
          by cases (auto simp: ks_event_def events_of_def)
      qed
      then show ?thesis using killed(1) by simp
    qed (use step.IH that in simp)
    then show ?case using killer_ok_round[OF step(2)] step.IH by blast
  qed
  then show ?thesis by (auto simp: killer_ok_def)
qed

section \<open>A round ends\<close>

fun pc_left :: "node_pc \<Rightarrow> nat" where
  "pc_left Pending = 4" | "pc_left Stopping = 3" | "pc_left Down = 2" | "pc_left Rebooting = 1"
| "pc_left Finished = 0"

definition steps_left :: "kstate \<Rightarrow> nat" where
  "steps_left s = (\<Sum>n \<in> dom (ks_pc s). pc_left (the (ks_pc s n)))"

lemma steps_left_update:
  assumes "finite (dom (ks_pc s))" "ks_pc s n = Some pc" "pc_left pc' < pc_left pc"
    "ks_pc s' = (ks_pc s)(n \<mapsto> pc')"
  shows "steps_left s' < steps_left s" "dom (ks_pc s') = dom (ks_pc s)"
proof -
  show d: "dom (ks_pc s') = dom (ks_pc s)" using assms by auto
  have n: "n \<in> dom (ks_pc s)" using assms(2) by auto
  have "(\<Sum>m \<in> dom (ks_pc s) - {n}. pc_left (the (ks_pc s' m))) =
      (\<Sum>m \<in> dom (ks_pc s) - {n}. pc_left (the (ks_pc s m)))"
    using assms(4) by (intro sum.cong) auto
  moreover have "pc_left (the (ks_pc s' n)) < pc_left (the (ks_pc s n))" using assms by simp
  ultimately show "steps_left s' < steps_left s"
    unfolding steps_left_def d sum.remove[OF assms(1) n] by linarith
qed

text \<open>
  A round of killing ends.  A step is possible exactly as long as some goroutine has not
  finished, every step brings the round nearer to its end, and a round over \<open>m\<close> nodes takes at most
  \<open>4 m\<close> steps.
\<close>

theorem kill_round_ends:
  assumes "finite (dom (ks_pc s))"
  shows "((\<exists>s'. kill_step s s') \<longleftrightarrow> \<not> all_finished s)
    \<and> (\<forall>s'. kill_step s s' \<longrightarrow> steps_left s' < steps_left s \<and> finite (dom (ks_pc s')))
    \<and> steps_left (kill_start nodes k) \<le> 4 * length nodes"
proof (intro conjI allI impI)
  show "(\<exists>s'. kill_step s s') \<longleftrightarrow> \<not> all_finished s"
  proof
    assume "\<exists>s'. kill_step s s'"
    then obtain s' where "kill_step s s'" ..
    then show "\<not> all_finished s" by cases (auto simp: all_finished_def ran_def)
  next
    assume "\<not> all_finished s"
    then obtain n pc where "ks_pc s n = Some pc" "pc \<noteq> Finished" by (auto simp: all_finished_def ran_def)
    then show "\<exists>s'. kill_step s s'" by (cases pc) (auto intro: kill_step.intros)
  qed
  show "steps_left s' < steps_left s" if "kill_step s s'" for s'
    using that assms steps_left_update[of s _ _ _ s'] by cases (auto simp: ks_event_def)
  show "finite (dom (ks_pc s'))" if "kill_step s s'" for s'
    using that assms by cases (auto simp: ks_event_def)
  have "dom (ks_pc (kill_start nodes k)) = set nodes" by (auto simp: kill_start_def split: if_splits)
  moreover have "(\<Sum>n \<in> set nodes. pc_left (the (ks_pc (kill_start nodes k) n))) \<le> (\<Sum>n \<in> set nodes. 4)"
    by (intro sum_mono) (simp add: kill_start_def)
  ultimately show "steps_left (kill_start nodes k) \<le> 4 * length nodes"
    using card_length[of nodes] by (simp add: steps_left_def)
qed

section \<open>An example round\<close>

definition full_failure :: NodeFailureConfig where
  "full_failure = \<lparr>nf_FailureRate = 1, nf_Interval = 1, nf_JitterFactor = 0, nf_SimulatedDowntime = 1\<rparr>"

definition fresh_killer :: NodeKiller where
  "fresh_killer = \<lparr>nk_config = full_failure, nk_killedNodes = {''master''}, nk_events = []\<rparr>"

definition after_round :: kstate where
  "after_round = \<lparr>ks_pc = [''a'' \<mapsto> Finished],
     ks_killer = fresh_killer\<lparr>nk_killedNodes := {''master'', ''a''},
       nk_events := [(stopServices, ''a''), (rebootNode, ''a'')]\<rparr>\<rparr>"

lemma pick_example:
  "pickNodes (Inr [''master'', ''a'']) (Inr []) (\<lambda>xs. xs) fresh_killer = Some (Inr [''a''])"
proof -
  have "fl 1 = 1" by code_simp
  then show ?thesis by (simp add: pickNodes_def fresh_killer_def full_failure_def)
qed

lemma kill_example: "kill_step\<^sup>*\<^sup>* (kill_start [''a''] fresh_killer) after_round"
proof -
  let ?s0 = "kill_start [''a''] fresh_killer"
  let ?s1 = "ks_event stopServices ''a'' Stopping ?s0"
  let ?s2 = "?s1\<lparr>ks_pc := (ks_pc ?s1)(''a'' \<mapsto> Down)\<rparr>"
  let ?s3 = "ks_event rebootNode ''a'' Rebooting ?s2"
  let ?s4 = "?s3\<lparr>ks_pc := (ks_pc ?s3)(''a'' \<mapsto> Finished)\<rparr>"
  have "kill_step ?s0 ?s1" by (rule addStopServicesEvent) (simp add: kill_start_def)
  moreover have "kill_step ?s1 ?s2" by (rule stop_ok) (simp add: ks_event_def)
  moreover have "kill_step ?s2 ?s3" by (rule addRebootEvent) simp
  moreover have "kill_step ?s3 ?s4" by (rule rebooted) (simp add: ks_event_def)
  ultimately have run: "kill_step\<^sup>*\<^sup>* ?s0 ?s4"
    by (meson converse_rtranclp_into_rtranclp rtranclp.rtrancl_refl)
  have eq: "?s4 = after_round"
    by (auto simp: after_round_def kill_start_def ks_event_def fresh_killer_def fun_eq_iff)
  show ?thesis using run unfolding eq .
qed

theorem node_fails_at_most_once_witness:
  "once (events_of ''a'' (ks_killer after_round)) \<and> events_of ''master'' (ks_killer after_round) = []"
proof -
  have new: "NewNodeKiller full_failure {''master''} ''gce'' True = Inr fresh_killer"
    by (simp add: NewNodeKiller_def fresh_killer_def)
  have "all_finished after_round" by (auto simp: all_finished_def after_round_def)
  then have "monkey_round fresh_killer (ks_killer after_round)"
    using killed[OF pick_example _ _ kill_example] by simp
  then have "monkey_round\<^sup>*\<^sup>* fresh_killer (ks_killer after_round)" by blast
  from node_fails_at_most_once[OF new this, of "''a''"] node_fails_at_most_once[OF new this, of "''master''"]
  show ?thesis by simp
qed

theorem kill_round_ends_witness:
  "\<exists>s'. kill_step (kill_start [''a''] fresh_killer) s'"
proof -
  have "dom (ks_pc (kill_start [''a''] fresh_killer)) = {''a''}"
    by (auto simp: kill_start_def split: if_splits)
  moreover have "\<not> all_finished (kill_start [''a''] fresh_killer)"
    by (auto simp: all_finished_def kill_start_def ran_def)
  ultimately show ?thesis
    using kill_round_ends[of "kill_start [''a''] fresh_killer" "[''a'']" fresh_killer] by simp
qed

end
