(* ===== verification/Test_Executor.thy ===== *)
theory Test_Executor
  imports Phase_Executor Measurement_Core Dependency_Mgr Modifier Chaos
begin

text \<open>
  The package \<^verbatim>\<open>clusterloader2/pkg/test\<close>: modules (\<^verbatim>\<open>modules.go\<close>), step results
  (\<^verbatim>\<open>step_summary.go\<close>), the reporter (\<^verbatim>\<open>simple_reporter.go\<close>), the executor of steps and tests
  (\<^verbatim>\<open>simple_test_executor.go\<close>) and compiling and running a test (\<^verbatim>\<open>test.go\<close>).

  The context of a test is split into what never changes (\<open>texec\<close>) and the state (\<open>tstate\<close>).  The
  goroutines of a step take effect in an order the scheduler \<open>te_sched\<close> chooses, one whole substep
  at a time.
\<close>

section \<open>Modules\<close>

definition loadModule ::
  "(string \<Rightarrow> params \<Rightarrow> goerr + Module) \<Rightarrow> params \<Rightarrow> ModuleRef \<Rightarrow> goerr + Module" where
  "loadModule templateInto templateMapping moduleRef =
     (if mr_Path moduleRef = [] then Inl (Errorf ''path not set'' [])
      else
        let mapping = CopyMap (mr_Params moduleRef) (CloneMap templateMapping)
        in case templateInto (mr_Path moduleRef) mapping of
             Inl err \<Rightarrow> Inl (Errorf (''error while processing module: '' @ err_msg err) [err])
           | Inr modul \<Rightarrow> Inr modul)"

text \<open>
  The recursion need not end: a module can include itself.  \<open>None\<close> stands for that.
\<close>

partial_function (option) flattenModuleSteps ::
  "(ModuleRef \<Rightarrow> goerr + Module) \<Rightarrow> Step list \<Rightarrow> (goerr + Step list) option" where
  "flattenModuleSteps load unprocessedSteps =
     (case unprocessedSteps of
        [] \<Rightarrow> Some (Inr [])
      | step # steps \<Rightarrow>
          if IsModule step then
            (case load (st_Module step) of
               Inl err \<Rightarrow> Some (Inl err)
             | Inr modul \<Rightarrow>
                 Option.bind (flattenModuleSteps load (mo_Steps modul)) (\<lambda>r.
                   case r of
                     Inl err \<Rightarrow> Some (Inl err)
                   | Inr processedModuleSteps \<Rightarrow>
                       Option.bind (flattenModuleSteps load steps) (\<lambda>r.
                         case r of
                           Inl err \<Rightarrow> Some (Inl err)
                         | Inr processedSteps \<Rightarrow> Some (Inr (processedModuleSteps @ processedSteps)))))
          else
            Option.bind (flattenModuleSteps load steps) (\<lambda>r.
              case r of
                Inl err \<Rightarrow> Some (Inl err)
              | Inr processedSteps \<Rightarrow> Some (Inr (step # processedSteps))))"

section \<open>Step results\<close>

record substepResult =
  ss_name :: string
  ss_id :: nat
  ss_duration :: duration
  ss_err :: ErrorList

record StepResult =
  sr_name :: string
  sr_err :: ErrorList
  sr_results :: "substepResult list"

definition NewStepResult :: "string \<Rightarrow> StepResult" where
  "NewStepResult stepName = \<lparr>sr_name = stepName, sr_err = NewErrorList [], sr_results = []\<rparr>"

definition AddSubStepResult ::
  "duration \<Rightarrow> string \<Rightarrow> nat \<Rightarrow> ErrorList \<Rightarrow> StepResult \<Rightarrow> StepResult" where
  "AddSubStepResult d name i err s =
     s\<lparr>sr_results := sr_results s @ [\<lparr>ss_name = name, ss_id = i, ss_duration = d, ss_err = err\<rparr>]\<rparr>"

definition AddStepError :: "ErrorList option \<Rightarrow> StepResult \<Rightarrow> StepResult" where
  "AddStepError errs s = s\<lparr>sr_err := Concat (sr_err s) errs\<rparr>"

definition GetAllErrors :: "StepResult \<Rightarrow> ErrorList" where
  "GetAllErrors s =
     fold (\<lambda>value errList. Concat errList (Some (ss_err value))) (sr_results s)
       (Concat (NewErrorList []) (Some (sr_err s)))"

definition getAllResults :: "duration \<Rightarrow> StepResult \<Rightarrow> substepResult list" where
  "getAllResults d s =
     (let results = (if length (sr_results s) = 0
                     then [\<lparr>ss_name = sr_name s, ss_id = 0, ss_duration = d, ss_err = GetAllErrors s\<rparr>]
                     else []);
          sorted = sort_key ss_id (sr_results s)
      in results @
         map (\<lambda>result. \<lparr>ss_name = sr_name s @ '' '' @ ss_name result, ss_id = 0,
                        ss_duration = ss_duration result, ss_err = ss_err result\<rparr>) sorted)"

section \<open>Reporter\<close>

text \<open>
  A summary of the JUnit reporter; \<open>rp_completed\<close> lists the summaries handed to it.
\<close>

record SpecSummary =
  sp_ComponentTexts :: "string list"
  sp_RunTime :: duration
  sp_Failure :: "string option"

record simpleReporter =
  rp_testName :: string
  rp_SuiteDescription :: string
  rp_NumberOfFailedSpecs :: nat
  rp_stepsSummaries :: "SpecSummary list"
  rp_completed :: "SpecSummary list"

definition CreateSimpleReporter :: "string \<Rightarrow> simpleReporter" where
  "CreateSimpleReporter testSuiteDescription =
     \<lparr>rp_testName = [], rp_SuiteDescription = testSuiteDescription, rp_NumberOfFailedSpecs = 0,
      rp_stepsSummaries = [], rp_completed = []\<rparr>"

definition SetTestName :: "string \<Rightarrow> simpleReporter \<Rightarrow> simpleReporter" where
  "SetTestName name str = str\<lparr>rp_testName := name\<rparr>"

definition handleSummary ::
  "SpecSummary \<Rightarrow> ErrorList \<Rightarrow> simpleReporter \<Rightarrow> SpecSummary \<times> simpleReporter" where
  "handleSummary summary errList str =
     (if IsEmpty errList then (summary\<lparr>sp_Failure := None\<rparr>, str)
      else (summary\<lparr>sp_Failure := Some (ErrorList_String errList)\<rparr>,
            str\<lparr>rp_NumberOfFailedSpecs := rp_NumberOfFailedSpecs str + 1\<rparr>))"

definition ReportTestStepFinish ::
  "duration \<Rightarrow> string \<Rightarrow> ErrorList \<Rightarrow> simpleReporter \<Rightarrow> simpleReporter" where
  "ReportTestStepFinish d stepName errList str =
     (let stepSummary = \<lparr>sp_ComponentTexts = [rp_SuiteDescription str, rp_testName str @ '': '' @ stepName],
                         sp_RunTime = d, sp_Failure = None\<rparr>;
          (stepSummary, str) = handleSummary stepSummary errList str
      in str\<lparr>rp_stepsSummaries := rp_stepsSummaries str @ [stepSummary]\<rparr>)"

definition ReportTestStep :: "duration \<Rightarrow> StepResult \<Rightarrow> simpleReporter \<Rightarrow> simpleReporter" where
  "ReportTestStep d result str =
     fold (\<lambda>r str. ReportTestStepFinish (ss_duration r) (ss_name r) (ss_err r) str)
       (getAllResults d result) str"

definition ReportTestFinish ::
  "duration \<Rightarrow> string \<Rightarrow> ErrorList \<Rightarrow> simpleReporter \<Rightarrow> simpleReporter" where
  "ReportTestFinish d testConfigPath errList str =
     (let testSummary = \<lparr>sp_ComponentTexts =
             [rp_SuiteDescription str, rp_testName str @ '' overall ('' @ testConfigPath @ '')''],
             sp_RunTime = d, sp_Failure = None\<rparr>;
          (testSummary, str) = handleSummary testSummary errList str
      in str\<lparr>rp_completed := rp_completed str @ [testSummary] @ rp_stepsSummaries str,
             rp_stepsSummaries := []\<rparr>)"

section \<open>Context\<close>

datatype substep = MeasurementSubstep nat | PhaseSubstep nat

record ('i, 'd, 'w) texec =
  te_x :: "'w xenv"
  te_m :: "('i, 'w) menv"
  te_d :: "('d, 'w) denv"
  te_nsWait :: "('w \<times> string list) wait_pkg"
  te_wrapper :: "nat \<Rightarrow> nat list"
  te_sched :: "substep list \<Rightarrow> substep list"
  te_duration :: duration
  te_reportDir :: string
  te_filePath :: "string \<Rightarrow> genericSummary \<Rightarrow> string"
  te_writeFile :: "string \<Rightarrow> string \<Rightarrow> 'w call"
  te_scenario :: TestScenario
  te_venv :: venv
  te_render :: "field_error \<Rightarrow> goerr"
  te_modifier :: simpleModifier
  te_templateToConfig :: "string \<Rightarrow> params \<Rightarrow> goerr + Config"
  te_templateInto :: "string \<Rightarrow> params \<Rightarrow> goerr + Module"
  te_filepathBase :: "string \<Rightarrow> string"
  te_filepathDir :: "string \<Rightarrow> string"
  te_deleteStale :: bool
  te_deleteAutomanaged :: bool
  te_draw :: "nat \<Rightarrow> nat"

record ('i, 'd, 'w) tstate =
  t_x :: "'w xstate"
  t_mm :: "'i measurementManager"
  t_dm :: "'d dependencyManager"
  t_reporter :: simpleReporter
  t_monkey :: Monkey
  t_stopCh_closed :: bool

section \<open>Steps\<close>

definition run_substep ::
  "('i, 'd, 'w) texec \<Rightarrow> Step \<Rightarrow> substep \<Rightarrow> StepResult \<times> ('i, 'd, 'w) tstate \<Rightarrow>
   (StepResult \<times> ('i, 'd, 'w) tstate) option" where
  "run_substep env step sub = (\<lambda>(sr, s).
     (case sub of
        MeasurementSubstep i \<Rightarrow>
          let currentMeasurement = st_Measurements step ! i;
              substepName = ''['' @ show_02 i @ ''] - '' @ me_Identifier currentMeasurement;
              (errList, mm, w) = measurement_Execute (te_m env) (te_wrapper env i) currentMeasurement
                                   (t_mm s, xs_world (t_x s))
          in Some (AddSubStepResult (te_duration env) substepName i errList sr,
                   s\<lparr>t_mm := mm, t_x := (t_x s)\<lparr>xs_world := w\<rparr>\<rparr>)
      | PhaseSubstep i \<Rightarrow>
          (case ExecutePhase (te_x env) (st_Phases step ! i) (t_x s) of
             None \<Rightarrow> None
           | Some (errList, x) \<Rightarrow> Some (AddStepError errList sr, s\<lparr>t_x := x\<rparr>))))"

fun run_substeps ::
  "('i, 'd, 'w) texec \<Rightarrow> Step \<Rightarrow> substep list \<Rightarrow> StepResult \<times> ('i, 'd, 'w) tstate \<Rightarrow>
   (StepResult \<times> ('i, 'd, 'w) tstate) option" where
  "run_substeps env step [] s = Some s"
| "run_substeps env step (sub # subs) s =
     (case run_substep env step sub s of None \<Rightarrow> None | Some s \<Rightarrow> run_substeps env step subs s)"

definition substeps :: "Step \<Rightarrow> substep list" where
  "substeps step =
     map MeasurementSubstep [0..<length (st_Measurements step)] @ map PhaseSubstep [0..<length (st_Phases step)]"

definition ExecuteStep ::
  "('i, 'd, 'w) texec \<Rightarrow> Step \<Rightarrow> ('i, 'd, 'w) tstate \<Rightarrow> (ErrorList \<times> ('i, 'd, 'w) tstate) option" where
  "ExecuteStep env step s =
     (case run_substeps env step (te_sched env (substeps step)) (NewStepResult (st_Name step), s) of
        None \<Rightarrow> None
      | Some (stepResults, s) \<Rightarrow>
          let allErrors = GetAllErrors stepResults
          in Some (allErrors, s\<lparr>t_reporter := ReportTestStep (te_duration env) stepResults (t_reporter s)\<rparr>))"

definition isErrsCritical :: "ErrorList \<Rightarrow> bool" where
  "isErrsCritical errList = Has errList ErrCritical"

definition rename_step :: "nat \<Rightarrow> Step \<Rightarrow> Step" where
  "rename_step i step =
     (let namePrefix = (if st_Name step = []
                        then ''[autogenerated, please name your step in the test config]''
                        else st_Name step)
      in step\<lparr>st_Name := ''[step: '' @ show_02 (i + 1) @ ''] '' @ namePrefix\<rparr>)"

text \<open>The loop of \<^verbatim>\<open>ExecuteTestSteps\<close> from index \<open>i\<close> on.\<close>

fun test_steps_loop ::
  "('i, 'd, 'w) texec \<Rightarrow> nat \<Rightarrow> Step list \<Rightarrow> ErrorList \<times> ('i, 'd, 'w) tstate \<Rightarrow>
   (ErrorList \<times> ('i, 'd, 'w) tstate) option" where
  "test_steps_loop env i [] s = Some s"
| "test_steps_loop env i (step # steps) (errList, s) =
     (case ExecuteStep env (rename_step i step) s of
        None \<Rightarrow> None
      | Some (stepErrList, s) \<Rightarrow>
          if \<not> IsEmpty stepErrList then
            let errList = Concat errList (Some stepErrList)
            in if isErrsCritical stepErrList then Some (errList, s)
               else test_steps_loop env (i + 1) steps (errList, s)
          else test_steps_loop env (i + 1) steps (errList, s))"

definition ExecuteTestSteps ::
  "('i, 'd, 'w) texec \<Rightarrow> Step list \<Rightarrow> ('i, 'd, 'w) tstate \<Rightarrow> (ErrorList \<times> ('i, 'd, 'w) tstate) option" where
  "ExecuteTestSteps env steps s = test_steps_loop env 0 steps (NewErrorList [], s)"

section \<open>Tests\<close>

text \<open>
  Pointers of the namespace configuration are dereferenced: the configuration has its defaults.
  Errors of the deletion of stale namespaces are logged only.
\<close>

definition prepareTestNamespaces ::
  "('i, 'd, 'w) texec \<Rightarrow> Config \<Rightarrow> Framework \<times> 'w \<Rightarrow> goerr option \<times> Framework \<times> 'w" where
  "prepareTestNamespaces env conf = (\<lambda>(f, w).
     let c = x_client (te_x env); ns = co_Namespace conf in
     (case ListAutomanagedNamespaces c (te_nsWait env) f w of
        ((_, Some err), w) \<Rightarrow>
          (Some (Errorf (''automanaged namespaces listing failed: '' @ err_msg err) [err]), f, w)
      | (((automanaged, stale), None), w) \<Rightarrow>
          if length automanaged > 0 \<and> \<not> the (nc_EnableExistingNamespaces ns)
          then (Some (Errorf ''pre-existing automanaged namespaces found'' []), f, w)
          else
            let (f, w) =
                  (if length stale > 0 \<and> the (nc_DeleteStaleNamespaces ns)
                   then snd (DeleteNamespaces c (ToTimeDuration (the (nc_DeleteNamespaceTimeout ns))) stale (f, w))
                   else (f, w))
            in (case CreateAutomanagedNamespaces c (te_nsWait env) (nc_Number ns)
                       (the (nc_EnableExistingNamespaces ns)) (the (nc_DeleteAutomanagedNamespaces ns)) f w of
                  (Some err, s) \<Rightarrow>
                    (Some (Errorf (''automanaged namespaces creation failed: '' @ err_msg err) [err]), s)
                | (None, s) \<Rightarrow> (None, s))))"

text \<open>
  The deferred clean-up.  Its errors are logged and not returned; when a namespace cannot be deleted
  it returns before the dependencies are torn down.
\<close>

definition cleanupTestResourcesAndDependencies ::
  "('i, 'd, 'w) texec \<Rightarrow> Config \<Rightarrow> ('i, 'd, 'w) tstate \<Rightarrow> ('i, 'd, 'w) tstate" where
  "cleanupTestResourcesAndDependencies env conf s =
     (let (mm, w) = mm_Dispose (te_m env) (t_mm s, xs_world (t_x s));
          f = xs_framework (t_x s);
          (errList, f, w) =
            (if the (nc_DeleteAutomanagedNamespaces (co_Namespace conf))
             then DeleteAutomanagedNamespaces (x_client (te_x env))
                    (ToTimeDuration (the (nc_DeleteNamespaceTimeout (co_Namespace conf)))) (f, w)
             else (NewErrorList [], f, w));
          s = s\<lparr>t_mm := mm, t_x := (t_x s)\<lparr>xs_framework := f, xs_world := w\<rparr>\<rparr>
      in if \<not> IsEmpty errList then s
         else let (teardownErrList, dm, w) = TeardownDependencies (te_d env) (t_dm s, w)
              in s\<lparr>t_dm := dm, t_x := (t_x s)\<lparr>xs_world := w\<rparr>\<rparr>)"

fun write_summaries ::
  "('i, 'd, 'w) texec \<Rightarrow> Config \<Rightarrow> genericSummary list \<Rightarrow> ErrorList \<times> 'w \<Rightarrow> ErrorList \<times> 'w" where
  "write_summaries env conf [] s = s"
| "write_summaries env conf (summary # summaries) (errList, w) =
     (if te_reportDir env = [] then write_summaries env conf summaries (errList, w)
      else
        let testDistinctor = (if ts_Identifier (te_scenario env) \<noteq> []
                              then ''_'' @ ts_Identifier (te_scenario env) else []);
            filePath = te_filePath env (co_Name conf @ testDistinctor) summary
        in (case te_writeFile env filePath (gs_content summary) w of
              (Some err, w) \<Rightarrow>
                write_summaries env conf summaries
                  (Append errList [Errorf (''writing to file '' @ filePath @ '' error: '' @ err_msg err) []], w)
            | (None, w) \<Rightarrow> write_summaries env conf summaries (errList, w)))"

text \<open>
  The body of \<^verbatim>\<open>ExecuteTest\<close> up to its return; \<open>t_stopCh_closed\<close> tells whether \<^verbatim>\<open>stopCh\<close> was closed.
  Waiting for the chaos monkey's goroutine does not change the state of the model.
\<close>

definition execute_test_body ::
  "('i, 'd, 'w) texec \<Rightarrow> Config \<Rightarrow> ('i, 'd, 'w) tstate \<Rightarrow> (ErrorList \<times> ('i, 'd, 'w) tstate) option" where
  "execute_test_body env conf s =
     (let x = t_x s;
          x = x\<lparr>xs_framework := SetAutomanagedNamespacePrefix (xs_framework x) (nc_Prefix (co_Namespace conf)),
                xs_factory := Init (xs_factory x) (co_TuningSets conf)\<rparr>;
          s = s\<lparr>t_x := x, t_stopCh_closed := False\<rparr>
      in case Monkey_Init (co_ChaosMonkey conf) (t_monkey s) of
           (Inl err, m) \<Rightarrow>
             Some (NewErrorList [Errorf (''error while creating chaos monkey: '' @ err_msg err) []],
                   s\<lparr>t_monkey := m, t_stopCh_closed := True\<rparr>)
         | (Inr running, m) \<Rightarrow>
             let s = s\<lparr>t_monkey := m\<rparr> in
             (case prepareTestNamespaces env conf (xs_framework (t_x s), xs_world (t_x s)) of
                (Some err, f, w) \<Rightarrow>
                  Some (NewErrorList [Errorf (''error while preparing test namespaces: '' @ err_msg err) [err]],
                        s\<lparr>t_x := (t_x s)\<lparr>xs_framework := f, xs_world := w\<rparr>\<rparr>)
              | (None, f, w) \<Rightarrow>
                  let (setupErrList, dm, w) =
                        (if length (co_Dependencies conf) > 0
                         then SetupDependencies (te_d env) (co_Dependencies conf) (t_dm s, w)
                         else (NewErrorList [], t_dm s, w));
                      s = s\<lparr>t_dm := dm, t_x := (t_x s)\<lparr>xs_framework := f, xs_world := w\<rparr>\<rparr>
                  in if \<not> IsEmpty setupErrList then Some (setupErrList, s\<lparr>t_stopCh_closed := True\<rparr>)
                     else
                       (case ExecuteTestSteps env (co_Steps conf) s of
                          None \<Rightarrow> None
                        | Some (errList, s) \<Rightarrow>
                            let s = s\<lparr>t_stopCh_closed := True\<rparr>;
                                (errList, w) = write_summaries env conf (GetSummaries (t_mm s))
                                                 (errList, xs_world (t_x s))
                            in Some (errList, s\<lparr>t_x := (t_x s)\<lparr>xs_world := w\<rparr>\<rparr>))))"

definition ExecuteTest ::
  "('i, 'd, 'w) texec \<Rightarrow> Config \<Rightarrow> ('i, 'd, 'w) tstate \<Rightarrow> (ErrorList \<times> ('i, 'd, 'w) tstate) option" where
  "ExecuteTest env conf s =
     (case execute_test_body env conf s of
        None \<Rightarrow> None
      | Some (errList, s) \<Rightarrow> Some (errList, cleanupTestResourcesAndDependencies env conf s))"

section \<open>Compiling and running\<close>

text \<open>
  A compiled test: the configuration, if it was read, and the errors.  \<open>None\<close> when it does not
  return (a module that includes itself, or a panic of the modifier).
\<close>

definition CompileTestConfig :: "('i, 'd, 'w) texec \<Rightarrow> (Config option \<times> ErrorList) option" where
  "CompileTestConfig env =
     (let mapping = CloneMap (x_mapping (te_x env));
          testConfigFilename = te_filepathBase env (ts_ConfigPath (te_scenario env))
      in case te_templateToConfig env testConfigFilename mapping of
           Inl err \<Rightarrow> Some (None, NewErrorList [Errorf (''config reading error: '' @ err_msg err) []])
         | Inr testConfig \<Rightarrow>
             (case ChangeTest (te_modifier env) testConfig of
                (Panic, _) \<Rightarrow> None
              | (Err err, _) \<Rightarrow> Some (None, NewErrorList [Errorf (''config mutation error: '' @ err_msg err) []])
              | (Ok, testConfig) \<Rightarrow>
                  (case flattenModuleSteps (loadModule (te_templateInto env) (x_mapping (te_x env)))
                          (co_Steps testConfig) of
                     None \<Rightarrow> None
                   | Some (Inl err) \<Rightarrow>
                       Some (None, NewErrorList [Errorf (''error flattening module steps: '' @ err_msg err) [err]])
                   | Some (Inr steps) \<Rightarrow>
                       let testConfig = testConfig\<lparr>co_Steps := steps\<rparr>;
                           ns = co_Namespace testConfig;
                           ns = (if nc_DeleteStaleNamespaces ns = None
                                 then ns\<lparr>nc_DeleteStaleNamespaces := Some (te_deleteStale env)\<rparr> else ns);
                           ns = (if nc_DeleteAutomanagedNamespaces ns = None
                                 then ns\<lparr>nc_DeleteAutomanagedNamespaces := Some (te_deleteAutomanaged env)\<rparr> else ns);
                           testConfig = Config_SetDefaults (te_draw env) (testConfig\<lparr>co_Namespace := ns\<rparr>);
                           v = NewConfigValidator (te_filepathDir env (ts_ConfigPath (te_scenario env))) testConfig
                       in (case Validate (te_render env) (te_venv env) v of
                             Some err \<Rightarrow> Some (Some testConfig, err)
                           | None \<Rightarrow> Some (Some testConfig, NewErrorList [])))))"

definition RunTest ::
  "('i, 'd, 'w) texec \<Rightarrow> Config \<Rightarrow> ('i, 'd, 'w) tstate \<Rightarrow> (ErrorList \<times> ('i, 'd, 'w) tstate) option" where
  "RunTest env testConfig s =
     (let testName = (if ts_Identifier (te_scenario env) = [] then co_Name testConfig
                      else ts_Identifier (te_scenario env));
          s = s\<lparr>t_reporter := SetTestName testName (t_reporter s)\<rparr>
      in case ChangeTest (te_modifier env) testConfig of
           (Panic, _) \<Rightarrow> None
         | (Err err, _) \<Rightarrow> Some (NewErrorList [Errorf (''config mutation error: '' @ err_msg err) []], s)
         | (Ok, testConfig) \<Rightarrow> ExecuteTest env testConfig s)"

section \<open>Modules are flattened\<close>

definition flat_of :: "Step list \<Rightarrow> Step list \<Rightarrow> bool" where
  "flat_of steps out \<longleftrightarrow>
     (\<forall>s \<in> set out. \<not> IsModule s) \<and> subseq (filter (\<lambda>s. \<not> IsModule s) steps) out"

lemma flat_of_Nil: "flat_of [] []"
  by (simp add: flat_of_def)

lemma flat_of_step: "\<not> IsModule st \<Longrightarrow> flat_of sts out \<Longrightarrow> flat_of (st # sts) (st # out)"
  by (simp add: flat_of_def)

lemma flat_of_module:
  "IsModule st \<Longrightarrow> flat_of msteps out1 \<Longrightarrow> flat_of sts out2 \<Longrightarrow> flat_of (st # sts) (out1 @ out2)"
  by (auto simp: flat_of_def intro: list_emb_append2)

lemma flatten_result_props:
  "flattenModuleSteps load steps = Some r \<Longrightarrow> \<forall>out. r = Inr out \<longrightarrow> flat_of steps out"
proof (rule flattenModuleSteps.raw_induct[where P = "\<lambda>load steps r. \<forall>out. r = Inr out \<longrightarrow> flat_of steps out"],
    goal_cases)
  case (1 rec load steps r)
  note IH = 1(2)
  show ?case
  proof (intro allI impI)
    fix out assume out: "r = Inr out"
    show "flat_of steps out"
    proof (cases steps)
      case Nil
      with 1 out show ?thesis by (simp add: flat_of_Nil)
    next
      case (Cons st sts)
      show ?thesis
      proof (cases "IsModule st")
        case True
        with 1(3) out Cons obtain m where m: "load (st_Module st) = Inr m"
          by (auto split: sum.splits)
        with 1(3) out Cons True obtain o1 where o1: "rec load (mo_Steps m) = Some (Inr o1)"
          by (auto split: sum.splits bind_splits)
        with 1(3) out Cons True m obtain o2 where "rec load sts = Some (Inr o2)" "out = o1 @ o2"
          by (auto split: sum.splits bind_splits)
        with o1 IH True Cons show ?thesis by (blast intro: flat_of_module)
      next
        case False
        with 1(3) out Cons obtain o2 where "rec load sts = Some (Inr o2)" "out = st # o2"
          by (auto split: sum.splits bind_splits)
        with IH False Cons show ?thesis by (blast intro: flat_of_step)
      qed
    qed
  qed
qed assumption

lemma flatten_returns_below:
  assumes rank: "\<And>ref m st. load ref = Inr m \<Longrightarrow> st \<in> set (mo_Steps m) \<Longrightarrow> IsModule st \<Longrightarrow>
      rank (st_Module st) < (rank ref :: nat)"
  shows "\<forall>st \<in> set steps. IsModule st \<longrightarrow> rank (st_Module st) < n \<Longrightarrow> flattenModuleSteps load steps \<noteq> None"
proof (induction n arbitrary: steps)
  case 0
  then show ?case
  proof (induction steps)
    case (Cons st sts)
    then show ?case
      by (subst flattenModuleSteps.simps) (auto split: sum.splits bind_splits)
  qed (subst flattenModuleSteps.simps, simp)
next
  case (Suc n)
  from Suc.prems show ?case
  proof (induction steps)
    case (Cons st sts)
    have "flattenModuleSteps load (mo_Steps m) \<noteq> None" if "IsModule st" "load (st_Module st) = Inr m" for m
      using Suc.IH[of "mo_Steps m"] rank[OF that(2)] Cons.prems that(1) by fastforce
    then show ?case
      using Cons by (subst flattenModuleSteps.simps) (auto split: sum.splits bind_splits)
  qed (subst flattenModuleSteps.simps, simp)
qed


section \<open>Errors of a step\<close>

lemma GetAllErrors_errors:
  "el_errors (GetAllErrors sr) = el_errors (sr_err sr) @ concat (map (\<lambda>r. el_errors (ss_err r)) (sr_results sr))"
proof -
  have "el_errors (fold (\<lambda>v l. Concat l (Some (ss_err v))) rs l) =
      el_errors l @ concat (map (\<lambda>r. el_errors (ss_err r)) rs)" for rs :: "substepResult list" and l
    by (induction rs arbitrary: l) auto
  then show ?thesis by (simp add: GetAllErrors_def)
qed

text \<open>A reporter counts a summary as failed exactly when its error list is not empty.\<close>

lemma ReportTestStepFinish_failed:
  "rp_NumberOfFailedSpecs (ReportTestStepFinish d n e str) =
     rp_NumberOfFailedSpecs str + (if el_errors e = [] then 0 else 1)"
  by (simp add: ReportTestStepFinish_def handleSummary_def)

lemma ReportTestStep_failed:
  "rp_NumberOfFailedSpecs (ReportTestStep d sr str) =
     rp_NumberOfFailedSpecs str + length (filter (\<lambda>r. el_errors (ss_err r) \<noteq> []) (getAllResults d sr))"
proof -
  have "rp_NumberOfFailedSpecs (fold (\<lambda>r str. ReportTestStepFinish (ss_duration r) (ss_name r) (ss_err r) str) rs str) =
      rp_NumberOfFailedSpecs str + length (filter (\<lambda>r. el_errors (ss_err r) \<noteq> []) rs)" for rs :: "substepResult list"
    by (induction rs arbitrary: str) (auto simp: ReportTestStepFinish_failed)
  then show ?thesis by (simp add: ReportTestStep_def)
qed

lemma run_substep_frame:
  assumes "run_substep env step sub (sr, s) = Some (sr', s')"
  shows "t_reporter s' = t_reporter s" "sr_name sr' = sr_name sr"
    and "sub = MeasurementSubstep i \<Longrightarrow> sr_err sr' = sr_err sr \<and> length (sr_results sr') = Suc (length (sr_results sr))"
    and "sub = PhaseSubstep j \<Longrightarrow> sr_results sr' = sr_results sr"
  using assms
  by (auto simp: run_substep_def AddSubStepResult_def AddStepError_def Let_def
      split: substep.splits option.splits prod.splits)

lemma run_substeps_frame:
  "run_substeps env step subs (sr, s) = Some (sr', s') \<Longrightarrow>
     t_reporter s' = t_reporter s \<and>
     ((\<forall>x \<in> set subs. \<exists>i. x = MeasurementSubstep i) \<longrightarrow>
        sr_err sr' = sr_err sr \<and> (subs \<noteq> [] \<longrightarrow> sr_results sr' \<noteq> [])) \<and>
     ((\<forall>x \<in> set subs. \<exists>i. x = PhaseSubstep i) \<longrightarrow> sr_results sr' = sr_results sr)"
proof (induction subs arbitrary: sr s)
  case (Cons x subs)
  obtain sr1 s1 where 1: "run_substep env step x (sr, s) = Some (sr1, s1)"
    and 2: "run_substeps env step subs (sr1, s1) = Some (sr', s')"
    using Cons.prems by (auto split: option.splits)
  have mono: "run_substeps env step subs (sr1, s1) = Some (sr', s') \<Longrightarrow> sr_results sr1 \<noteq> [] \<Longrightarrow> sr_results sr' \<noteq> []"
    for subs sr1 s1
  proof (induction subs arbitrary: sr1 s1)
    case (Cons y ys)
    then obtain sr2 s2 where y: "run_substep env step y (sr1, s1) = Some (sr2, s2)"
      "run_substeps env step ys (sr2, s2) = Some (sr', s')" by (auto split: option.splits)
    then have "sr_results sr2 \<noteq> []"
      using run_substep_frame(3,4)[OF y(1)] Cons.prems(2) by (cases y) auto
    with Cons.IH y show ?case by blast
  qed simp
  show ?case
    using Cons.IH[OF 2] run_substep_frame[OF 1] mono[OF 2] by (cases x; cases subs) auto
qed simp

text \<open>
  The report tells the truth about a step.  For a step of a validated test, under any schedule
  of its substeps, the number of failed items of the report grows exactly when the step returns
  errors.
\<close>

theorem step_report_matches_errors:
  assumes "step_valid venv v step" and "\<And>xs. mset (te_sched env xs) = mset xs"
    and "ExecuteStep env step s = Some (errs, s')"
  shows "rp_NumberOfFailedSpecs (t_reporter s) < rp_NumberOfFailedSpecs (t_reporter s') \<longleftrightarrow> el_errors errs \<noteq> []"
proof -
  let ?subs = "te_sched env (substeps step)"
  obtain sr s1 where run: "run_substeps env step ?subs (NewStepResult (st_Name step), s) = Some (sr, s1)"
    and errs: "errs = GetAllErrors sr"
    and s': "t_reporter s' = ReportTestStep (te_duration env) sr (t_reporter s1)"
    using assms(3) by (auto simp: ExecuteStep_def Let_def split: option.splits)
  note f = run_substeps_frame[OF run]
  have set: "set ?subs = set (substeps step)" using assms(2) by (metis mset_eq_setD)
  have "(sr_results sr = []) \<or> (sr_err sr = NewErrorList [] \<and> sr_results sr \<noteq> [])"
  proof (cases "st_Phases step = []")
    case True
    then have "st_Measurements step \<noteq> []" using assms(1) by (simp add: step_valid_def)
    then have "?subs \<noteq> []" "\<forall>x \<in> set ?subs. \<exists>i. x = MeasurementSubstep i"
      using set True by (auto simp: substeps_def)
    then show ?thesis using f by (simp add: NewStepResult_def)
  next
    case False
    then have "st_Measurements step = []" using assms(1) by (simp add: step_valid_def)
    then have "\<forall>x \<in> set ?subs. \<exists>i. x = PhaseSubstep i" using set by (auto simp: substeps_def)
    then show ?thesis using f by (simp add: NewStepResult_def)
  qed
  then have "(\<exists>r \<in> set (getAllResults (te_duration env) sr). el_errors (ss_err r) \<noteq> []) \<longleftrightarrow> el_errors errs \<noteq> []"
    by (auto simp: getAllResults_def errs GetAllErrors_errors Let_def)
  then show ?thesis
    using f s' by (auto simp: ReportTestStep_failed filter_empty_conv)
qed

section \<open>Critical errors abort a test\<close>

text \<open>Reference: the steps one after another, whatever their errors.\<close>

fun run_steps ::
  "('i, 'd, 'w) texec \<Rightarrow> nat \<Rightarrow> Step list \<Rightarrow> ('i, 'd, 'w) tstate \<Rightarrow>
   (ErrorList list \<times> ('i, 'd, 'w) tstate) option" where
  "run_steps env i [] s = Some ([], s)"
| "run_steps env i (step # steps) s =
     (case ExecuteStep env (rename_step i step) s of
        None \<Rightarrow> None
      | Some (e, s) \<Rightarrow>
          (case run_steps env (i + 1) steps s of None \<Rightarrow> None | Some (es, s) \<Rightarrow> Some (e # es, s)))"

lemma isErrsCritical_nonempty: "isErrsCritical e \<Longrightarrow> el_errors e \<noteq> []"
  by (auto simp: isErrsCritical_def go_err)

lemma test_steps_loop_prefix:
  "test_steps_loop env i steps (l, s) = Some (errs, s') \<Longrightarrow>
     \<exists>k es. k \<le> length steps \<and> run_steps env i (take k steps) s = Some (es, s') \<and>
       el_errors errs = el_errors l @ concat (map el_errors es) \<and>
       (\<forall>e \<in> set (butlast es). \<not> isErrsCritical e) \<and>
       (k < length steps \<longrightarrow> es \<noteq> [] \<and> isErrsCritical (last es))"
proof (induction steps arbitrary: i l s)
  case (Cons step steps)
  obtain e s1 where e: "ExecuteStep env (rename_step i step) s = Some (e, s1)"
    using Cons.prems by (auto split: option.splits)
  show ?case
  proof (cases "isErrsCritical e")
    case True
    with Cons.prems e isErrsCritical_nonempty[OF True] have "errs = Concat l (Some e)" "s' = s1"
      by (auto simp: Let_def)
    with e True show ?thesis by (intro exI[of _ 1] exI[of _ "[e]"]) auto
  next
    case False
    let ?l = "if el_errors e \<noteq> [] then Concat l (Some e) else l"
    have "test_steps_loop env (i + 1) steps (?l, s1) = Some (errs, s')"
      using Cons.prems e False by (auto simp: Let_def split: if_splits)
    from Cons.IH[OF this] obtain k es where k: "k \<le> length steps"
      "run_steps env (i + 1) (take k steps) s1 = Some (es, s')"
      "el_errors errs = el_errors ?l @ concat (map el_errors es)"
      "\<forall>e \<in> set (butlast es). \<not> isErrsCritical e"
      "k < length steps \<longrightarrow> es \<noteq> [] \<and> isErrsCritical (last es)" by blast
    with e False show ?thesis
      by (intro exI[of _ "Suc k"] exI[of _ "e # es"]) auto
  qed
qed auto

text \<open>
  C4: a critical error aborts the test, and no other error does.  The steps executed are a prefix of
  the test, run in order; the errors returned are all the errors of these steps; the last executed
  step is the only one that may have reported a critical error, and if steps were left out it has.
\<close>

theorem critical_errors_abort:
  assumes "ExecuteTestSteps env steps s = Some (errs, s')"
  shows "\<exists>k es. k \<le> length steps \<and> run_steps env 0 (take k steps) s = Some (es, s')
    \<and> el_errors errs = concat (map el_errors es)
    \<and> (\<forall>e \<in> set (butlast es). \<not> isErrsCritical e)
    \<and> (k < length steps \<longrightarrow> es \<noteq> [] \<and> isErrsCritical (last es))"
  using test_steps_loop_prefix[of env 0 steps "NewErrorList []" s errs s'] assms
  by (simp add: ExecuteTestSteps_def)

section \<open>The end of a test\<close>

definition prefixed :: "Config \<Rightarrow> ('i, 'd, 'w) tstate \<Rightarrow> Framework \<times> 'w" where
  "prefixed conf s =
     (SetAutomanagedNamespacePrefix (xs_framework (t_x s)) (nc_Prefix (co_Namespace conf)), xs_world (t_x s))"

lemma cleanup_stopCh:
  "t_stopCh_closed (cleanupTestResourcesAndDependencies env conf s) = t_stopCh_closed s"
  by (simp add: cleanupTestResourcesAndDependencies_def Let_def split: prod.splits)

lemma body_stopCh:
  assumes "execute_test_body env conf s = Some (errs, s')"
  shows "t_stopCh_closed s' \<longleftrightarrow>
    (\<exists>e m. Monkey_Init (co_ChaosMonkey conf) (t_monkey s) = (Inl e, m)) \<or>
    fst (prepareTestNamespaces env conf (prefixed conf s)) = None"
  using assms
  by (auto simp: execute_test_body_def prefixed_def Let_def
      split: prod.splits sum.splits option.splits if_splits)

text \<open>
  The stop channel leaks when the namespaces cannot be prepared.  \<^verbatim>\<open>ExecuteTest\<close> closes \<^verbatim>\<open>stopCh\<close>
  before it returns in every case but one: after the chaos monkey was started and
  \<^verbatim>\<open>prepareTestNamespaces\<close> failed, the channel stays open, so a running node killer never stops.
\<close>

theorem stop_channel_closed:
  assumes "ExecuteTest env conf s = Some (errs, s')"
  shows "t_stopCh_closed s' \<longleftrightarrow>
    \<not> ((\<exists>r m. Monkey_Init (co_ChaosMonkey conf) (t_monkey s) = (Inr r, m)) \<and>
       fst (prepareTestNamespaces env conf (prefixed conf s)) \<noteq> None)"
proof -
  obtain s1 where "execute_test_body env conf s = Some (errs, s1)"
    "s' = cleanupTestResourcesAndDependencies env conf s1"
    using assms by (auto simp: ExecuteTest_def split: option.splits prod.splits)
  moreover obtain r m where "Monkey_Init (co_ChaosMonkey conf) (t_monkey s) = (r, m)" by fastforce
  ultimately show ?thesis
    using body_stopCh[of env conf s errs s1] cleanup_stopCh[of env conf s1] by (cases r) auto
qed

text \<open>
  When dependencies are torn down.  The clean-up tears them down exactly when the deletion of the
  automanaged namespaces, if it is asked for, reports no error; a namespace that cannot be deleted
  leaves every dependency set up.
\<close>

theorem teardown_skipped_after_namespace_error:
  defines "del \<equiv> \<lambda>env conf s. let (mm, w) = mm_Dispose (te_m env) (t_mm s, xs_world (t_x s)) in
     (if the (nc_DeleteAutomanagedNamespaces (co_Namespace conf))
      then DeleteAutomanagedNamespaces (x_client (te_x env))
             (ToTimeDuration (the (nc_DeleteNamespaceTimeout (co_Namespace conf)))) (xs_framework (t_x s), w)
      else (NewErrorList [], xs_framework (t_x s), w))"
  shows "t_dm (cleanupTestResourcesAndDependencies env conf s) =
    (let (errs, f, w) = del env conf s
     in if el_errors errs \<noteq> [] then t_dm s
        else fst (snd (TeardownDependencies (te_d env) (t_dm s, w))))"
  unfolding del_def cleanupTestResourcesAndDependencies_def Let_def
  by (simp split: prod.splits)

lemma co_Steps_Config_SetDefaults: "co_Steps (Config_SetDefaults draw c) = co_Steps c"
  by (simp add: Config_SetDefaults_def Let_def)

text \<open>
  What compiling a test guarantees.  A configuration that compiles without errors passed
  validation, has every default of its namespace configuration filled in and contains no module
  steps.
\<close>

theorem compiled_config_is_ready:
  assumes "CompileTestConfig env = Some (Some conf, errs)" and "el_errors errs = []"
  shows "config_valid (te_venv env)
           (NewConfigValidator (te_filepathDir env (ts_ConfigPath (te_scenario env))) conf)
    \<and> ns_complete (co_Namespace conf) \<and> (\<forall>step \<in> set (co_Steps conf). \<not> IsModule step)"
proof -
  let ?v = "\<lambda>conf. NewConfigValidator (te_filepathDir env (ts_ConfigPath (te_scenario env))) conf"
  obtain c0 where c0: "te_templateToConfig env (te_filepathBase env (ts_ConfigPath (te_scenario env)))
      (CloneMap (x_mapping (te_x env))) = Inr c0"
    using assms(1) by (auto simp: CompileTestConfig_def Let_def split: sum.splits)
  obtain c where c: "ChangeTest (te_modifier env) c0 = (Ok, c)"
    using assms(1) c0 by (auto simp: CompileTestConfig_def Let_def split: prod.splits status.splits)
  obtain steps where fl: "flattenModuleSteps (loadModule (te_templateInto env) (x_mapping (te_x env)))
        (co_Steps c) = Some (Inr steps)"
    using assms(1) c0 c by (auto simp: CompileTestConfig_def Let_def split: option.splits sum.splits)
  have res: "co_Steps conf = steps \<and> ns_complete (co_Namespace conf) \<and>
      (case Validate (te_render env) (te_venv env) (?v conf) of Some err \<Rightarrow> errs = err | None \<Rightarrow> True)"
    using assms(1) c0 c fl ns_complete_Config_SetDefaults
    by (auto simp: CompileTestConfig_def Let_def co_Steps_Config_SetDefaults split: option.splits)
  then have "Validate (te_render env) (te_venv env) (?v conf) = None"
    using assms(2) by (auto simp: Validate_def Let_def toErrorList_errors split: if_splits option.splits)
  then have "config_valid (te_venv env) (?v conf)"
    by (simp add: Validate_def Let_def validate_all_ok split: if_splits)
  then show ?thesis
    using flatten_result_props[OF fl] res by (auto simp: flat_of_def)
qed

section \<open>An example test\<close>

text \<open>A measurement that fails with the error its identifier asks for.\<close>

definition check_menv :: "(nat, keys) menv" where
  "check_menv = \<lparr>m_new = \<lparr>mf_createFuncs = [''Check'' \<mapsto> 0], mf_Registered = \<lambda>m. m = ''Check''\<rparr>,
     m_version = \<lambda>_. Inr ''v1'',
     m_execute = \<lambda>_ i c w.
       (([], if mc_Identifier c = ''soft'' then Some (Errorf ''soft'' [])
             else if mc_Identifier c = ''crit'' then Some (NewErrCritical (Errorf ''crit'' []))
             else None), i, w),
     m_dispose = \<lambda>_ i w. (i, w)\<rparr>"

definition check_step :: "string \<Rightarrow> Step" where
  "check_step identifier = \<lparr>st_Phases = [],
     st_Measurements = [\<lparr>me_Method = ''Check'', me_Params = [], me_Identifier = identifier, me_Instances = []\<rparr>],
     st_Module = \<lparr>mr_Path = [], mr_Params = []\<rparr>, st_Name = ''s''\<rparr>"

definition module_step :: "string \<Rightarrow> Step" where
  "module_step path = \<lparr>st_Phases = [], st_Measurements = [],
     st_Module = \<lparr>mr_Path = path, mr_Params = []\<rparr>, st_Name = ''m''\<rparr>"

definition check_config :: "Step list \<Rightarrow> Config" where
  "check_config steps = \<lparr>co_Name = ''t'', co_Dependencies = [], co_AutomanagedNamespaces = 1,
     co_Namespace = \<lparr>nc_Number = 1, nc_Prefix = ''test'', nc_DeleteStaleNamespaces = Some False,
       nc_DeleteAutomanagedNamespaces = Some True, nc_EnableExistingNamespaces = Some False,
       nc_DeleteNamespaceTimeout = Some 5\<rparr>,
     co_Steps = steps, co_TuningSets = [],
     co_ChaosMonkey = \<lparr>cm_NodeFailure = None, cm_ExcludedNodes = None\<rparr>\<rparr>"

definition check_templates :: "string \<Rightarrow> params \<Rightarrow> goerr + Module" where
  "check_templates path mapping = Inr \<lparr>mo_Steps = (if path = ''m'' then [check_step ''ok''] else [])\<rparr>"

text \<open>A cluster in which the namespaces \<open>nss\<close> exist already.\<close>

definition check_env :: "string list \<Rightarrow> (nat, nat, keys) texec" where
  "check_env nss = \<lparr>te_x = demo_env\<lparr>x_client := set_client\<lparr>c_server := set_server\<lparr>s_listNamespaces :=
       (\<lambda>w. (Inr nss, w))\<rparr>\<rparr>\<rparr>,
     te_m = check_menv,
     te_d = \<lparr>d_new = newDependencyFactory, d_version = \<lambda>_. Inr ''v1'', d_setup = \<lambda>_ _ i w. (None, i, w),
       d_select = \<lambda>_ _ _ i w. (None, i, w), d_teardown = \<lambda>_ _ i w. (None, i, w), d_showDuration = show_int\<rparr>,
     te_nsWait = plain_wait, te_wrapper = \<lambda>_. [], te_sched = rev, te_duration = 1, te_reportDir = [],
     te_filePath = \<lambda>p _. p, te_writeFile = \<lambda>_ _ w. (None, w),
     te_scenario = \<lparr>ts_Identifier = [], ts_ConfigPath = ''c.yaml'', ts_OverridePaths = []\<rparr>,
     te_venv = \<lparr>v_cwd = [], v_notExist = \<lambda>_. True, v_dns1123 = \<lambda>_. [],
       v_measurements = \<lambda>m. m = ''Check'', v_dependencies = \<lambda>_. False\<rparr>,
     te_render = \<lambda>_. Errorf [] [], te_modifier = \<lparr>overwriteTestConfig = [], skipSteps = []\<rparr>,
     te_templateToConfig = \<lambda>_ _. Inr (check_config [module_step ''m'', check_step ''soft'']),
     te_templateInto = check_templates, te_filepathBase = \<lambda>p. p, te_filepathDir = \<lambda>p. [],
     te_deleteStale = False, te_deleteAutomanaged = True, te_draw = \<lambda>_. 0\<rparr>"

definition check_state :: "(nat, nat, keys) tstate" where
  "check_state = \<lparr>t_x = demo_state newNamespacesState, t_mm = mm_CreateManager, t_dm = dm_CreateManager,
     t_reporter = CreateSimpleReporter ''suite'', t_monkey = NewMonkey ''gce'' True, t_stopCh_closed = False\<rparr>"

definition check_error :: "string \<Rightarrow> goerr list" where
  "check_error identifier =
     (if identifier = ''soft'' then [formatError ''Check'' identifier (Errorf ''soft'' [])]
      else if identifier = ''crit''
      then [formatError ''Check'' identifier (NewErrCritical (Errorf ''crit'' []))] else [])"

lemma check_measurement_runs:
  "\<exists>s'. executeSingleMeasurement check_menv
       \<lparr>me_Method = ''Check'', me_Params = ps, me_Identifier = i, me_Instances = is\<rparr> s
     = (NewErrorList (check_error i), s')"
proof -
  obtain mm w where s: "s = (mm, w)" by fastforce
  have "createMeasurement (m_new check_menv) ''Check'' = Inr 0"
    by (simp add: createMeasurement_def check_menv_def)
  then have "\<exists>inst mm'. getMeasurementInstance check_menv mm ''Check'' i = (Inr inst, mm')"
    by (simp add: getMeasurementInstance_def Let_def split: option.splits)
  then obtain inst mm' where "getMeasurementInstance check_menv mm ''Check'' i = (Inr inst, mm')" by blast
  then show ?thesis
    by (simp add: s executeSingleMeasurement_def mm_Execute_def)
       (simp add: check_menv_def check_error_def NewErrorList_def Append_def)
qed

lemma check_step_runs:
  assumes "te_m env = check_menv" "te_sched env = rev" "identifier \<noteq> []"
  shows "\<exists>s'. ExecuteStep env ((check_step identifier)\<lparr>st_Name := nm\<rparr>) s = Some (NewErrorList (check_error identifier), s')"
proof -
  obtain mm w where "executeSingleMeasurement check_menv
       \<lparr>me_Method = ''Check'', me_Params = [], me_Identifier = identifier, me_Instances = []\<rparr>
       (t_mm s, xs_world (t_x s)) = (NewErrorList (check_error identifier), mm, w)"
    using check_measurement_runs by (metis surj_pair)
  then show ?thesis
    using assms
    by (simp add: ExecuteStep_def substeps_def check_step_def run_substep_def measurement_Execute_def
        AddSubStepResult_def GetAllErrors_def NewStepResult_def NewErrorList_def Concat_def Let_def)
qed

lemma check_env_sel [simp]: "te_m (check_env nss) = check_menv" "te_sched (check_env nss) = rev"
  by (simp_all add: check_env_def)

theorem step_report_matches_errors_witness:
  "\<exists>errs s'. ExecuteStep (check_env []) (check_step ''soft'') check_state = Some (errs, s')
    \<and> 0 < rp_NumberOfFailedSpecs (t_reporter s')"
proof -
  obtain s' where run: "ExecuteStep (check_env []) (check_step ''soft'') check_state =
      Some (NewErrorList (check_error ''soft''), s')"
    using check_step_runs[of "check_env []" "''soft''" "''s''" check_state] by (auto simp: check_step_def)
  have "step_valid (te_venv (check_env [])) (NewConfigValidator [] (check_config [])) (check_step ''soft'')"
    by (simp add: step_valid_def measurement_valid_def check_step_def check_env_def)
  from step_report_matches_errors[OF this _ run] run show ?thesis
    by (auto simp: check_error_def)
qed

theorem critical_errors_abort_witness:
  "\<exists>errs s' k es. ExecuteTestSteps (check_env []) (map check_step [''soft'', ''crit'', ''ok'']) check_state = Some (errs, s')
    \<and> k \<le> 3 \<and> run_steps (check_env []) 0 (take k (map check_step [''soft'', ''crit'', ''ok''])) check_state = Some (es, s')
    \<and> el_errors errs = concat (map el_errors es) \<and> length (el_errors errs) = 2"
proof -
  have rn: "\<exists>nm. rename_step i (check_step x) = (check_step x)\<lparr>st_Name := nm\<rparr>" for i x
    by (auto simp: rename_step_def Let_def)
  have ex: "\<exists>s'. ExecuteStep (check_env []) (rename_step i (check_step x)) s = Some (NewErrorList (check_error x), s')"
    if "x \<noteq> []" for i x s
    using rn[of i x] check_step_runs[of "check_env []" x _ s] that by fastforce
  obtain s1 where s1: "ExecuteStep (check_env []) (rename_step 0 (check_step ''soft'')) check_state =
      Some (NewErrorList (check_error ''soft''), s1)" using ex by blast
  obtain s2 where s2: "ExecuteStep (check_env []) (rename_step 1 (check_step ''crit'')) s1 =
      Some (NewErrorList (check_error ''crit''), s2)" using ex by blast
  have crit: "\<not> isErrsCritical \<lparr>el_errors = check_error ''soft''\<rparr>" "isErrsCritical \<lparr>el_errors = check_error ''crit''\<rparr>"
      "check_error ''soft'' \<noteq> []" "check_error ''crit'' \<noteq> []"
    by (simp_all add: check_error_def isErrsCritical_def Has_def formatError_def NewErrCritical_def ErrCritical_def)
  have "ExecuteTestSteps (check_env []) (map check_step [''soft'', ''crit'', ''ok'']) check_state =
      Some (NewErrorList (check_error ''soft'' @ check_error ''crit''), s2)"
    using s1 s2 crit by (simp add: ExecuteTestSteps_def Concat_def NewErrorList_def)
  note run = this
  from critical_errors_abort[OF run] obtain k es where "k \<le> length (map check_step [''soft'', ''crit'', ''ok''])"
    "run_steps (check_env []) 0 (take k (map check_step [''soft'', ''crit'', ''ok''])) check_state = Some (es, s2)"
    "el_errors (NewErrorList (check_error ''soft'' @ check_error ''crit'')) = concat (map el_errors es)" by blast
  moreover have "length (map check_step [''soft'', ''crit'', ''ok'']) = 3" by simp
  moreover have "length (check_error ''soft'' @ check_error ''crit'') = 2" by (simp add: check_error_def)
  ultimately show ?thesis using run el_NewErrorList by metis
qed

lemma check_flatten:
  "flattenModuleSteps (loadModule check_templates []) [module_step ''m'', check_step ''soft''] =
     Some (Inr [check_step ''ok'', check_step ''soft''])"
proof -
  let ?load = "loadModule check_templates []"
  have "flattenModuleSteps ?load [] = Some (Inr [])" by (subst flattenModuleSteps.simps) simp
  then have one: "flattenModuleSteps ?load [check_step x] = Some (Inr [check_step x])" for x
    by (subst flattenModuleSteps.simps) (simp add: IsModule_def check_step_def)
  show ?thesis
    by (subst flattenModuleSteps.simps)
       (simp add: one IsModule_def module_step_def loadModule_def check_templates_def)
qed


lemma check_namespaces_clash:
  "fst (prepareTestNamespaces (check_env [''test-1'']) (check_config []) (prefixed (check_config []) check_state)) \<noteq> None"
proof -
  have "classify_namespaces \<lparr>fw_prefix = ''test'', fw_namespaces = []\<rparr> [''test-1''] = ([''test-1''], [])"
    by (simp add: isAutomanagedNamespaceCurrentPrefix_def match_here_def nonzero_digit_def digit_def char_digit_def)
  then show ?thesis
    by (simp add: prepareTestNamespaces_def prefixed_def ListAutomanagedNamespaces_def ListNamespaces_def
        list_retried_def RetryWithExponentialBackOff_def check_env_def demo_env_def set_client_def
        plain_wait_def RetryFunction_def check_config_def check_state_def demo_state_def newFramework_def
        SetAutomanagedNamespacePrefix_def numeral_eq_Suc)
qed

theorem stop_channel_closed_witness:
  "\<exists>errs s'. ExecuteTest (check_env [''test-1'']) (check_config []) check_state = Some (errs, s')
    \<and> \<not> t_stopCh_closed s'"
proof -
  have init: "Monkey_Init (co_ChaosMonkey (check_config [])) m = (Inr False, m)" for m
    by (simp add: Monkey_Init_def check_config_def)
  obtain e f w where prep: "prepareTestNamespaces (check_env [''test-1'']) (check_config []) (prefixed (check_config []) check_state)
      = (Some e, f, w)" using check_namespaces_clash by (metis not_None_eq prod.collapse)
  have "\<exists>errs s'. ExecuteTest (check_env [''test-1'']) (check_config []) check_state = Some (errs, s')"
    using prep by (simp add: ExecuteTest_def execute_test_body_def prefixed_def init Let_def)
  then obtain errs s' where run: "ExecuteTest (check_env [''test-1'']) (check_config []) check_state = Some (errs, s')"
    by blast
  with stop_channel_closed[OF run] init check_namespaces_clash show ?thesis by blast
qed

theorem compiled_config_is_ready_witness:
  "\<exists>conf. CompileTestConfig (check_env []) = Some (Some conf, NewErrorList [])
    \<and> ns_complete (co_Namespace conf) \<and> list_all (\<lambda>s. \<not> IsModule s) (co_Steps conf)"
proof -
  note fl = check_flatten
  let ?c = "check_config [check_step ''ok'', check_step ''soft'']"
  have def: "Config_SetDefaults (\<lambda>_. 0) ?c = ?c"
    by (simp add: Config_SetDefaults_def NamespaceConfig_SetDefaults_def check_config_def)
  have "config_valid (te_venv (check_env [])) (NewConfigValidator [] ?c)"
    by (simp add: config_valid_def NewConfigValidator_def check_config_def step_valid_def
        measurement_valid_def check_step_def check_env_def)
  then have val: "Validate (te_render (check_env [])) (te_venv (check_env [])) (NewConfigValidator [] ?c) = None"
    by (simp add: Validate_def Let_def validate_all_ok)
  have sel: "te_templateToConfig (check_env []) = (\<lambda>_ _. Inr (check_config [module_step ''m'', check_step ''soft'']))"
      "te_templateInto (check_env []) = check_templates" "x_mapping (te_x (check_env [])) = []"
      "te_draw (check_env []) = (\<lambda>_. 0)" "te_filepathDir (check_env []) p = []" for p
    by (simp_all add: check_env_def demo_env_def)
  have chg: "ChangeTest (te_modifier (check_env [])) c = (Ok, c)" for c
    by (simp add: ChangeTest_def modifyOverwrite_def modifySkipSteps_filter check_env_def)
  have upd: "co_Steps (check_config st) = st" "(check_config st)\<lparr>co_Steps := st'\<rparr> = check_config st'"
      "(check_config st)\<lparr>co_Steps := st', co_Namespace := co_Namespace (check_config st'')\<rparr> = check_config st'"
      "nc_DeleteStaleNamespaces (co_Namespace (check_config st)) = Some False"
      "nc_DeleteAutomanagedNamespaces (co_Namespace (check_config st)) = Some True" for st st' st''
    by (simp_all add: check_config_def)
  have "CompileTestConfig (check_env []) = Some (Some ?c, NewErrorList [])"
    using fl def val by (simp add: CompileTestConfig_def sel chg upd Let_def)
  from compiled_config_is_ready[OF this] this show ?thesis by (auto simp: list_all_iff)
qed

end
