(* ===== verification/Pods_Util.thy ===== *)
theory Pods_Util
  imports Errors_Pkg
begin

text \<open>
  Groups of pods (\<^verbatim>\<open>clusterloader2/pkg/measurement/util\<close>): their status and the difference of two
  groups (\<^verbatim>\<open>pods.go\<close>) and the loop that waits until a group has settled (\<^verbatim>\<open>wait_for_pods.go\<close>).  A pod is
  the fields of \<^verbatim>\<open>corev1.Pod\<close> that the program reads.
\<close>

section \<open>Pods\<close>

record PodCondition =
  pc_Type :: string
  pc_Status :: string

text \<open>Which of the sources of a volume are set.\<close>

record Volume =
  vo_EmptyDir :: bool
  vo_DownwardAPI :: bool
  vo_ConfigMap :: bool
  vo_Secret :: bool
  vo_Projected :: bool

text \<open>
  \<open>po_Controller\<close> is the controller reference (UID and kind); an element of \<open>po_ContainerStatuses\<close> is
  the start time of the container if it runs.
\<close>

record Pod =
  po_Namespace :: string
  po_Name :: string
  po_Controller :: "(string \<times> string) option"
  po_CreationTimestamp :: gotime
  po_DeletionTimestamp :: "gotime option"
  po_NodeName :: string
  po_Volumes :: "Volume list"
  po_Phase :: string
  po_Conditions :: "PodCondition list"
  po_ContainerStatuses :: "gotime option list"

abbreviation PodRunning :: string where "PodRunning \<equiv> ''Running''"
abbreviation PodPending :: string where "PodPending \<equiv> ''Pending''"
abbreviation PodSucceeded :: string where "PodSucceeded \<equiv> ''Succeeded''"
abbreviation PodFailed :: string where "PodFailed \<equiv> ''Failed''"
abbreviation PodUnknown :: string where "PodUnknown \<equiv> ''Unknown''"

section \<open>Status\<close>

datatype Status = Unknown | Terminating | RunningAndReady | RunningButNotReady | PendingScheduled
  | PendingNotScheduled | Inactive

fun Status_String :: "Status \<Rightarrow> string" where
  "Status_String Unknown = ''Unknown''"
| "Status_String Terminating = ''Terminating''"
| "Status_String RunningAndReady = ''RunningAndReady''"
| "Status_String RunningButNotReady = ''RunningButNotReady''"
| "Status_String PendingScheduled = ''PendingScheduled''"
| "Status_String PendingNotScheduled = ''PendingNotScheduled''"
| "Status_String Inactive = ''Inactive''"

fun ready_loop :: "PodCondition list \<Rightarrow> bool" where
  "ready_loop [] = False"
| "ready_loop (c # cs) = (if pc_Type c = ''Ready'' \<and> pc_Status c = ''True'' then True else ready_loop cs)"

definition podStatus :: "Pod \<Rightarrow> Status" where
  "podStatus p =
     (if po_DeletionTimestamp p \<noteq> None then Terminating
      else if po_Phase p = PodRunning then
        (if ready_loop (po_Conditions p) then RunningAndReady else RunningButNotReady)
      else if po_Phase p = PodPending then
        (if po_NodeName p = [] then PendingNotScheduled else PendingScheduled)
      else if po_Phase p = PodSucceeded \<or> po_Phase p = PodFailed then Inactive
      else Unknown)"

record PodsStartupStatus =
  su_Expected :: int
  su_Terminating :: nat
  su_Running :: nat
  su_Scheduled :: nat
  su_RunningButNotReady :: nat
  su_Waiting :: nat
  su_Pending :: nat
  su_Unknown :: nat
  su_Inactive :: nat
  su_Created :: nat
  su_RunningUpdated :: nat
  su_LastIsPodUpdatedError :: "goerr option"

definition zeroStartupStatus :: PodsStartupStatus where
  "zeroStartupStatus = \<lparr>su_Expected = 0, su_Terminating = 0, su_Running = 0, su_Scheduled = 0,
     su_RunningButNotReady = 0, su_Waiting = 0, su_Pending = 0, su_Unknown = 0, su_Inactive = 0,
     su_Created = 0, su_RunningUpdated = 0, su_LastIsPodUpdatedError = None\<rparr>"

definition PodsStartupStatus_String :: "PodsStartupStatus \<Rightarrow> string" where
  "PodsStartupStatus_String s =
     ''Pods: '' @ show_nat (su_Created s) @ '' out of '' @ show_int (su_Expected s) @ '' created, ''
     @ show_nat (su_Running s) @ '' running ('' @ show_nat (su_RunningUpdated s) @ '' updated), ''
     @ show_nat (su_Pending s) @ '' pending scheduled, '' @ show_nat (su_Waiting s) @ '' not scheduled, ''
     @ show_nat (su_Inactive s) @ '' inactive, '' @ show_nat (su_Terminating s) @ '' terminating, ''
     @ show_nat (su_Unknown s) @ '' unknown, '' @ show_nat (su_RunningButNotReady s) @ '' runningButNotReady ''"

text \<open>The body of the loop of \<^verbatim>\<open>ComputePodsStartupStatus\<close> for one pod.\<close>

definition startup_pod ::
  "(Pod \<Rightarrow> goerr option) option \<Rightarrow> Pod \<Rightarrow> PodsStartupStatus \<Rightarrow> PodsStartupStatus" where
  "startup_pod isPodUpdated p st =
     (if po_DeletionTimestamp p \<noteq> None then st\<lparr>su_Terminating := su_Terminating st + 1\<rparr>
      else
        let st = st\<lparr>su_Created := su_Created st + 1\<rparr>;
            st = (if po_Phase p = PodRunning then
                    (if ready_loop (po_Conditions p) then
                       (let st = st\<lparr>su_Running := su_Running st + 1\<rparr>
                        in case isPodUpdated of
                             None \<Rightarrow> st\<lparr>su_RunningUpdated := su_RunningUpdated st + 1\<rparr>
                           | Some f \<Rightarrow>
                               (case f p of
                                  Some err \<Rightarrow> st\<lparr>su_LastIsPodUpdatedError := Some err\<rparr>
                                | None \<Rightarrow> st\<lparr>su_RunningUpdated := su_RunningUpdated st + 1\<rparr>))
                     else st\<lparr>su_RunningButNotReady := su_RunningButNotReady st + 1\<rparr>)
                  else if po_Phase p = PodPending then
                    (if po_NodeName p = [] then st\<lparr>su_Waiting := su_Waiting st + 1\<rparr>
                     else st\<lparr>su_Pending := su_Pending st + 1\<rparr>)
                  else if po_Phase p = PodSucceeded \<or> po_Phase p = PodFailed then
                    st\<lparr>su_Inactive := su_Inactive st + 1\<rparr>
                  else if po_Phase p = PodUnknown then st\<lparr>su_Unknown := su_Unknown st + 1\<rparr>
                  else st)
        in if po_NodeName p \<noteq> [] then st\<lparr>su_Scheduled := su_Scheduled st + 1\<rparr> else st)"

definition ComputePodsStartupStatus ::
  "Pod list \<Rightarrow> int \<Rightarrow> (Pod \<Rightarrow> goerr option) option \<Rightarrow> PodsStartupStatus" where
  "ComputePodsStartupStatus pods expected isPodUpdated =
     fold (startup_pod isPodUpdated) pods (zeroStartupStatus\<lparr>su_Expected := expected\<rparr>)"

section \<open>Differences\<close>

abbreviation nonExist :: string where "nonExist \<equiv> ''NonExist''"

record podDiffInfo =
  df_oldHostname :: string
  df_oldPhase :: string
  df_hostname :: string
  df_phase :: string

type_synonym PodDiff = "(string, podDiffInfo) gomap"

definition diff_line :: "string \<Rightarrow> podDiffInfo \<Rightarrow> string" where
  "diff_line name info =
     (if df_phase info = nonExist then
        ''Pod '' @ name @ '' was deleted, had phase '' @ df_oldPhase info @ '' and host ''
        @ df_oldHostname info @ [CHR 0x0A]
      else
        let phaseChange = (df_oldPhase info \<noteq> df_phase info);
            hostChange = (df_oldHostname info \<noteq> df_hostname info);
            msg = ''Pod '' @ name @ '' '' @
              (if phaseChange then
                 (if df_oldPhase info = nonExist then ''in phase '' @ df_phase info @ '' ''
                  else ''went from phase: '' @ df_oldPhase info @ '' -> '' @ df_phase info @ '' '')
               else []) @
              (if hostChange then
                 (if df_oldHostname info = nonExist \<or> df_oldHostname info = []
                  then ''assigned host '' @ df_hostname info @ '' ''
                  else ''went from host: '' @ df_oldHostname info @ '' -> '' @ df_hostname info @ '' '')
               else [])
        in if phaseChange \<or> hostChange then msg @ [CHR 0x0A] else [])"

definition PodDiff_String :: "PodDiff \<Rightarrow> string set \<Rightarrow> string" where
  "PodDiff_String p ignorePhases =
     concat (map (\<lambda>(name, info). if df_phase info \<in> ignorePhases then [] else diff_line name info) p)"

definition DeletedPods :: "PodDiff \<Rightarrow> string list" where
  "DeletedPods p = map fst (filter (\<lambda>(_, info). df_hostname info = nonExist) p)"

definition AddedPods :: "PodDiff \<Rightarrow> string list" where
  "AddedPods p = map fst (filter (\<lambda>(_, info). df_oldHostname info = nonExist) p)"

definition diff_cur :: "Pod \<Rightarrow> PodDiff \<Rightarrow> PodDiff" where
  "diff_cur pod m = AList.update (po_Name pod)
     \<lparr>df_oldHostname = nonExist, df_oldPhase = nonExist, df_hostname = po_NodeName pod, df_phase = po_Phase pod\<rparr> m"

definition diff_old :: "Pod \<Rightarrow> PodDiff \<Rightarrow> PodDiff" where
  "diff_old pod m =
     (case map_of m (po_Name pod) of
        Some info \<Rightarrow>
          AList.update (po_Name pod) (info\<lparr>df_oldHostname := po_NodeName pod, df_oldPhase := po_Phase pod\<rparr>) m
      | None \<Rightarrow>
          AList.update (po_Name pod)
            \<lparr>df_oldHostname = po_NodeName pod, df_oldPhase = po_Phase pod, df_hostname = nonExist, df_phase = nonExist\<rparr> m)"

definition DiffPods :: "Pod list \<Rightarrow> Pod list \<Rightarrow> PodDiff" where
  "DiffPods oldPods curPods = fold diff_old oldPods (fold diff_cur curPods [])"

section \<open>Pod infos\<close>

record PodInfo =
  pi_Name :: string
  pi_Hostname :: string
  pi_Phase :: string
  pi_Status :: Status
  pi_Namespace :: string

definition PodInfo_String :: "PodInfo \<Rightarrow> string" where
  "PodInfo_String p =
     ''{'' @ pi_Namespace p @ '' '' @ pi_Name p @ '' '' @ pi_Phase p @ '' '' @ Status_String (pi_Status p)
     @ '' '' @ pi_Hostname p @ ''}''"

type_synonym PodsStatus = "PodInfo list"

definition ComputePodsStatus :: "Pod list \<Rightarrow> PodsStatus" where
  "ComputePodsStatus pods =
     map (\<lambda>p. \<lparr>pi_Name = po_Name p, pi_Hostname = po_NodeName p, pi_Phase = po_Phase p,
               pi_Status = podStatus p, pi_Namespace = po_Namespace p\<rparr>) pods"

definition NotRunningAndReady :: "PodsStatus \<Rightarrow> PodsStatus" where
  "NotRunningAndReady ps = filter (\<lambda>info. pi_Status info \<noteq> RunningAndReady) ps"

section \<open>Waiting\<close>

record WaitForPodOptions =
  wo_CountErrorMargin :: int
  wo_IsPodUpdated :: "(Pod \<Rightarrow> goerr option) option"

text \<open>
  What the \<^verbatim>\<open>select\<close> of the loop receives: the end of the context (its error and the desired number of
  pods then), or the tick of the interval (the desired number and the result of the listing).  A run
  is the list of these events; \<open>None\<close> means that the loop has not returned after them.  What is only
  logged is left out.
\<close>

datatype wait_event = CtxDone goerr int | Tick int "goerr + Pod list"

definition DeadlineExceeded :: goerr where
  "DeadlineExceeded = Sentinel ''context deadline exceeded''"

definition pods_settled :: "WaitForPodOptions \<Rightarrow> int \<Rightarrow> Pod list \<Rightarrow> PodsStartupStatus \<Rightarrow> bool" where
  "pods_settled opts desired pods st \<longleftrightarrow>
     (length pods = su_Running st + su_Inactive st \<and> su_Running st = su_RunningUpdated st \<and>
      int (su_RunningUpdated st) = desired) \<or>
     (wo_CountErrorMargin opts > 0 \<and>
      int (su_RunningUpdated st) \<ge> desired - wo_CountErrorMargin opts \<and>
      int (length pods) - int (su_Inactive st) \<le> desired \<and>
      int (su_Inactive st) \<le> wo_CountErrorMargin opts)"

fun wait_loop ::
  "WaitForPodOptions \<Rightarrow> string \<Rightarrow> wait_event list \<Rightarrow> Pod list \<Rightarrow> PodsStartupStatus \<Rightarrow>
   (PodsStatus option \<times> goerr option) option" where
  "wait_loop opts ps [] oldPods oldStatus = None"
| "wait_loop opts ps (CtxDone ctxErr desired # evs) oldPods oldStatus =
     (let pods = ComputePodsStatus oldPods in
      if ctxErr = DeadlineExceeded
      then Some (Some (NotRunningAndReady pods),
             Some (Errorf (''got '' @ err_msg ctxErr @ '' while waiting for '' @ show_int desired
                     @ '' pods to be running in '' @ ps @ '' - summary of pods : ''
                     @ PodsStartupStatus_String oldStatus) [ctxErr]))
      else Some (Some (NotRunningAndReady pods), Some ctxErr))"
| "wait_loop opts ps (Tick desired (Inl err) # evs) oldPods oldStatus =
     Some (None, Some (Errorf (''failed to list pods: '' @ err_msg err) [err]))"
| "wait_loop opts ps (Tick desired (Inr pods) # evs) oldPods oldStatus =
     (let podsStatus = ComputePodsStartupStatus pods desired (wo_IsPodUpdated opts) in
      if pods_settled opts desired pods podsStatus then Some (None, None)
      else wait_loop opts ps evs pods podsStatus)"

definition WaitForPods ::
  "WaitForPodOptions \<Rightarrow> string \<Rightarrow> (goerr + Pod list) \<Rightarrow> wait_event list \<Rightarrow>
   (PodsStatus option \<times> goerr option) option" where
  "WaitForPods opts ps first evs =
     (case first of
        Inl err \<Rightarrow> Some (None, Some (Errorf (''failed to list pods: '' @ err_msg err) [err]))
      | Inr oldPods \<Rightarrow> wait_loop opts ps evs oldPods zeroStartupStatus)"

section \<open>The two computations of the status agree\<close>

definition pods_in :: "Status \<Rightarrow> Pod list \<Rightarrow> nat" where
  "pods_in s pods = length (filter (\<lambda>p. podStatus p = s) pods)"

definition is_updated :: "(Pod \<Rightarrow> goerr option) option \<Rightarrow> Pod \<Rightarrow> bool" where
  "is_updated isPodUpdated p = (case isPodUpdated of None \<Rightarrow> True | Some f \<Rightarrow> f p = None)"

lemma fold_counter:
  assumes "\<And>x s. f (g x s) = f s + (if P x then 1 else 0 :: nat)"
  shows "f (fold g xs s) = f s + length (filter P xs)"
  by (induction xs arbitrary: s) (auto simp: assms)

lemma startup_pod_counters:
  "su_Terminating (startup_pod u p st) = su_Terminating st + (if podStatus p = Terminating then 1 else 0)"
  "su_Running (startup_pod u p st) = su_Running st + (if podStatus p = RunningAndReady then 1 else 0)"
  "su_RunningButNotReady (startup_pod u p st) =
     su_RunningButNotReady st + (if podStatus p = RunningButNotReady then 1 else 0)"
  "su_Waiting (startup_pod u p st) = su_Waiting st + (if podStatus p = PendingNotScheduled then 1 else 0)"
  "su_Pending (startup_pod u p st) = su_Pending st + (if podStatus p = PendingScheduled then 1 else 0)"
  "su_Inactive (startup_pod u p st) = su_Inactive st + (if podStatus p = Inactive then 1 else 0)"
  "su_Created (startup_pod u p st) = su_Created st + (if podStatus p \<noteq> Terminating then 1 else 0)"
  "su_Unknown (startup_pod u p st) =
     su_Unknown st + (if podStatus p = Unknown \<and> po_Phase p = PodUnknown then 1 else 0)"
  "su_RunningUpdated (startup_pod u p st) =
     su_RunningUpdated st + (if podStatus p = RunningAndReady \<and> is_updated u p then 1 else 0)"
  "su_Expected (startup_pod u p st) = su_Expected st"
  by (auto simp: startup_pod_def podStatus_def is_updated_def Let_def split: option.splits)

lemma zeroStartupStatus_fields [simp]:
  "su_Terminating zeroStartupStatus = 0" "su_Running zeroStartupStatus = 0"
  "su_RunningButNotReady zeroStartupStatus = 0" "su_Waiting zeroStartupStatus = 0"
  "su_Pending zeroStartupStatus = 0" "su_Inactive zeroStartupStatus = 0"
  "su_Created zeroStartupStatus = 0" "su_Unknown zeroStartupStatus = 0"
  "su_RunningUpdated zeroStartupStatus = 0"
  by (simp_all add: zeroStartupStatus_def)

lemma startup_counts:
  fixes pods expected u
  defines "st \<equiv> ComputePodsStartupStatus pods expected u"
  shows "su_Terminating st = pods_in Terminating pods" "su_Running st = pods_in RunningAndReady pods"
    "su_RunningButNotReady st = pods_in RunningButNotReady pods"
    "su_Waiting st = pods_in PendingNotScheduled pods" "su_Pending st = pods_in PendingScheduled pods"
    "su_Inactive st = pods_in Inactive pods"
    "su_Created st = length (filter (\<lambda>p. podStatus p \<noteq> Terminating) pods)"
    "su_Unknown st = length (filter (\<lambda>p. podStatus p = Unknown \<and> po_Phase p = PodUnknown) pods)"
    "su_RunningUpdated st = length (filter (\<lambda>p. podStatus p = RunningAndReady \<and> is_updated u p) pods)"
  unfolding st_def ComputePodsStartupStatus_def pods_in_def
  by (subst fold_counter[where f = su_Terminating] fold_counter[where f = su_Running]
      fold_counter[where f = su_RunningButNotReady] fold_counter[where f = su_Waiting]
      fold_counter[where f = su_Pending] fold_counter[where f = su_Inactive]
      fold_counter[where f = su_Created] fold_counter[where f = su_Unknown]
      fold_counter[where f = su_RunningUpdated], rule startup_pod_counters, simp)+

lemma ComputePodsStartupStatus_Expected: "su_Expected (ComputePodsStartupStatus pods expected u) = expected"
proof -
  have "su_Expected (fold (startup_pod u) pods st) = su_Expected st" for st
    by (induction pods arbitrary: st) (simp_all add: startup_pod_counters)
  then show ?thesis by (simp add: ComputePodsStartupStatus_def)
qed

text \<open>
  The counters of a group are the statuses of its pods.  \<^verbatim>\<open>ComputePodsStartupStatus\<close> computes the
  status of every pod anew; its counters are the numbers of pods with the corresponding
  \<^verbatim>\<open>podStatus\<close>, so the one can be replaced by the other.  Only \<^verbatim>\<open>Unknown\<close> differs, for pods whose phase
  is none of the five of the API.
\<close>

theorem startup_status_is_podStatus:
  "let st = ComputePodsStartupStatus pods expected isPodUpdated in
   su_Expected st = expected
   \<and> su_Terminating st = pods_in Terminating pods
   \<and> su_Created st + su_Terminating st = length pods
   \<and> su_Running st = pods_in RunningAndReady pods
   \<and> su_RunningButNotReady st = pods_in RunningButNotReady pods
   \<and> su_Waiting st = pods_in PendingNotScheduled pods
   \<and> su_Pending st = pods_in PendingScheduled pods
   \<and> su_Inactive st = pods_in Inactive pods
   \<and> su_RunningUpdated st = length (filter (\<lambda>p. podStatus p = RunningAndReady \<and> is_updated isPodUpdated p) pods)
   \<and> (su_Unknown st = pods_in Unknown pods \<or> (\<exists>p \<in> set pods. podStatus p = Unknown \<and> po_Phase p \<noteq> PodUnknown))"
proof -
  have "su_Unknown (ComputePodsStartupStatus pods expected isPodUpdated) = pods_in Unknown pods"
    if "\<forall>p \<in> set pods. podStatus p = Unknown \<longrightarrow> po_Phase p = PodUnknown"
    unfolding startup_counts pods_in_def using that by (auto intro!: arg_cong[of _ _ length] filter_cong)
  then show ?thesis
    using sum_length_filter_compl[of "\<lambda>p. podStatus p = Terminating" pods]
    by (auto simp: startup_counts ComputePodsStartupStatus_Expected pods_in_def Let_def)
qed

section \<open>Added and deleted pods\<close>

definition diff_ok :: "string set \<Rightarrow> string set \<Rightarrow> (string \<rightharpoonup> podDiffInfo) \<Rightarrow> bool" where
  "diff_ok cur old f \<longleftrightarrow> dom f = cur \<union> old \<and>
     (\<forall>n info. f n = Some info \<longrightarrow>
        (df_hostname info = nonExist \<longleftrightarrow> n \<notin> cur) \<and> (df_oldHostname info = nonExist \<longleftrightarrow> n \<notin> old))"

lemma diff_ok_cur:
  "diff_ok cur {} (map_of m) \<Longrightarrow> po_NodeName pod \<noteq> nonExist \<Longrightarrow>
     diff_ok (insert (po_Name pod) cur) {} (map_of (diff_cur pod m))"
  unfolding diff_cur_def go_map by (auto simp: diff_ok_def split: if_splits)

lemma diff_ok_old:
  "diff_ok cur old (map_of m) \<Longrightarrow> po_NodeName pod \<noteq> nonExist \<Longrightarrow>
     diff_ok cur (insert (po_Name pod) old) (map_of (diff_old pod m))"
proof -
  assume ok: "diff_ok cur old (map_of m)" and n: "po_NodeName pod \<noteq> nonExist"
  show ?thesis
  proof (cases "map_of m (po_Name pod)")
    case None
    then have "po_Name pod \<notin> cur" using ok by (auto simp: diff_ok_def)
    with None ok n show ?thesis by (auto simp: diff_old_def diff_ok_def go_map split: if_splits)
  next
    case (Some info)
    with ok n show ?thesis by (auto simp: diff_old_def diff_ok_def go_map split: if_splits)
  qed
qed

lemma diff_ok_DiffPods:
  assumes "\<forall>p \<in> set oldPods \<union> set curPods. po_NodeName p \<noteq> nonExist"
  shows "diff_ok (po_Name ` set curPods) (po_Name ` set oldPods) (map_of (DiffPods oldPods curPods))"
proof -
  have cur: "diff_ok (cur \<union> po_Name ` set ps) {} (map_of (fold diff_cur ps m))"
    if "\<forall>p \<in> set ps. po_NodeName p \<noteq> nonExist" "diff_ok cur {} (map_of m)" for ps cur m
    using that
  proof (induction ps arbitrary: cur m)
    case (Cons p ps)
    then show ?case using Cons.IH[OF _ diff_ok_cur[of cur m p]] by simp
  qed simp
  have old: "diff_ok cur (old \<union> po_Name ` set ps) (map_of (fold diff_old ps m))"
    if "\<forall>p \<in> set ps. po_NodeName p \<noteq> nonExist" "diff_ok cur old (map_of m)" for ps cur old m
    using that
  proof (induction ps arbitrary: old m)
    case (Cons p ps)
    then show ?case using Cons.IH[OF _ diff_ok_old[of cur old m p]] by simp
  qed simp
  have "diff_ok {} {} (map_of [])" by (simp add: diff_ok_def)
  from old[OF _ cur[OF _ this]] assms show ?thesis by (simp add: DiffPods_def)
qed

lemma diff_ok_dom:
  assumes "diff_ok cur old f"
  shows "(\<exists>info. f n = Some info \<and> df_hostname info = nonExist) \<longleftrightarrow> n \<in> old - cur"
    and "(\<exists>info. f n = Some info \<and> df_oldHostname info = nonExist) \<longleftrightarrow> n \<in> cur - old"
proof -
  have "(\<exists>info. f n = Some info) \<longleftrightarrow> n \<in> cur \<or> n \<in> old"
    using assms unfolding diff_ok_def by (metis Un_iff domIff not_None_eq)
  moreover have "f n = Some info \<Longrightarrow>
      (df_hostname info = nonExist \<longleftrightarrow> n \<notin> cur) \<and> (df_oldHostname info = nonExist \<longleftrightarrow> n \<notin> old)" for info
    using assms by (simp add: diff_ok_def)
  ultimately show "(\<exists>info. f n = Some info \<and> df_hostname info = nonExist) \<longleftrightarrow> n \<in> old - cur"
    "(\<exists>info. f n = Some info \<and> df_oldHostname info = nonExist) \<longleftrightarrow> n \<in> cur - old" by blast+
qed

lemma gomap_ok_DiffPods: "gomap_ok (DiffPods oldPods curPods)"
proof -
  have cur: "gomap_ok m \<Longrightarrow> gomap_ok (fold diff_cur ps m)" for ps and m :: PodDiff
    by (induction ps arbitrary: m) (simp_all add: diff_cur_def gomap_ok_update)
  have old: "gomap_ok m \<Longrightarrow> gomap_ok (fold diff_old ps m)" for ps and m :: PodDiff
    by (induction ps arbitrary: m) (simp_all add: diff_old_def gomap_ok_update split: option.splits)
  show ?thesis unfolding DiffPods_def by (intro old cur) simp
qed

lemma in_keys_filter: "n \<in> set (map fst (filter P m)) \<longleftrightarrow> (\<exists>info. (n, info) \<in> set m \<and> P (n, info))"
  by (induction m) auto

text \<open>The pods that appeared and those that disappeared; no node is named \<^verbatim>\<open>NonExist\<close>.\<close>

lemma DiffPods_sets:
  assumes "\<forall>p \<in> set oldPods \<union> set curPods. po_NodeName p \<noteq> nonExist"
  shows "set (DeletedPods (DiffPods oldPods curPods)) = po_Name ` set oldPods - po_Name ` set curPods"
    and "set (AddedPods (DiffPods oldPods curPods)) = po_Name ` set curPods - po_Name ` set oldPods"
proof -
  let ?m = "DiffPods oldPods curPods" and ?f = "map_of (DiffPods oldPods curPods)"
  have mem: "(n, info) \<in> set ?m \<longleftrightarrow> ?f n = Some info" for n info
    using gomap_ok_DiffPods by simp
  have "n \<in> set (DeletedPods ?m) \<longleftrightarrow> (\<exists>info. ?f n = Some info \<and> df_hostname info = nonExist)"
    "n \<in> set (AddedPods ?m) \<longleftrightarrow> (\<exists>info. ?f n = Some info \<and> df_oldHostname info = nonExist)" for n
    unfolding mem[symmetric] DeletedPods_def AddedPods_def in_keys_filter by simp_all
  moreover have "(\<exists>info. ?f n = Some info \<and> df_hostname info = nonExist) \<longleftrightarrow>
      n \<in> po_Name ` set oldPods - po_Name ` set curPods"
    "(\<exists>info. ?f n = Some info \<and> df_oldHostname info = nonExist) \<longleftrightarrow>
      n \<in> po_Name ` set curPods - po_Name ` set oldPods" for n
    by (rule diff_ok_dom[OF diff_ok_DiffPods[OF assms]])+
  ultimately show "set (DeletedPods ?m) = po_Name ` set oldPods - po_Name ` set curPods"
    "set (AddedPods ?m) = po_Name ` set curPods - po_Name ` set oldPods"
    by (simp_all only: set_eq_iff simp_thms)
qed

section \<open>Waiting for pods\<close>

text \<open>
  What waiting is for: the desired number of pods run, are ready and updated, and all others are
  inactive; or, with a margin, nearly so.
\<close>

definition settled :: "WaitForPodOptions \<Rightarrow> int \<Rightarrow> Pod list \<Rightarrow> bool" where
  "settled opts desired pods \<longleftrightarrow>
     (let good = length (filter (\<lambda>p. podStatus p = RunningAndReady \<and> is_updated (wo_IsPodUpdated opts) p) pods)
      in (int good = desired \<and>
          (\<forall>p \<in> set pods. podStatus p = Inactive \<or>
             (podStatus p = RunningAndReady \<and> is_updated (wo_IsPodUpdated opts) p))) \<or>
         (wo_CountErrorMargin opts > 0 \<and> desired - int good \<le> wo_CountErrorMargin opts \<and>
          int (length (filter (\<lambda>p. podStatus p \<noteq> Inactive) pods)) \<le> desired \<and>
          int (pods_in Inactive pods) \<le> wo_CountErrorMargin opts))"

lemma length_filter_sub_iff:
  assumes "\<And>x. Q x \<Longrightarrow> P x"
  shows "length (filter P xs) = length (filter Q xs) \<longleftrightarrow> (\<forall>x \<in> set xs. P x \<longrightarrow> Q x)"
proof
  have "filter Q (filter P xs) = filter Q xs" using assms by (auto intro!: filter_cong)
  moreover assume "length (filter P xs) = length (filter Q xs)"
  ultimately have "length (filter Q (filter P xs)) = length (filter P xs)" by simp
  then have "filter Q (filter P xs) = filter P xs" by (metis filter_id_conv length_filter_less less_irrefl)
  then show "\<forall>x \<in> set xs. P x \<longrightarrow> Q x" by (metis filter_id_conv mem_Collect_eq set_filter)
next
  assume "\<forall>x \<in> set xs. P x \<longrightarrow> Q x"
  then show "length (filter P xs) = length (filter Q xs)"
    using assms by (intro arg_cong[of _ _ length] filter_cong) auto
qed

lemma running_or_inactive:
  "length pods = pods_in RunningAndReady pods + pods_in Inactive pods \<longleftrightarrow>
     (\<forall>p \<in> set pods. podStatus p = RunningAndReady \<or> podStatus p = Inactive)"
proof -
  have "pods_in RunningAndReady pods + pods_in Inactive pods =
      length (filter (\<lambda>p. podStatus p = RunningAndReady \<or> podStatus p = Inactive) pods)"
    unfolding pods_in_def by (induction pods) auto
  then show ?thesis
    using length_filter_sub_iff[of "\<lambda>p. podStatus p = RunningAndReady \<or> podStatus p = Inactive" "\<lambda>_. True" pods]
    by simp
qed

lemma pods_settled_iff:
  "pods_settled opts desired pods (ComputePodsStartupStatus pods expected (wo_IsPodUpdated opts)) \<longleftrightarrow>
     settled opts desired pods"
proof -
  let ?u = "is_updated (wo_IsPodUpdated opts)"
  have "pods_in RunningAndReady pods = length (filter (\<lambda>p. podStatus p = RunningAndReady \<and> ?u p) pods) \<longleftrightarrow>
      (\<forall>p \<in> set pods. podStatus p = RunningAndReady \<longrightarrow> ?u p)"
    unfolding pods_in_def
    using length_filter_sub_iff[of "\<lambda>p. podStatus p = RunningAndReady \<and> ?u p" "\<lambda>p. podStatus p = RunningAndReady" pods]
    by auto
  moreover have "length (filter (\<lambda>p. podStatus p \<noteq> Inactive) pods) + pods_in Inactive pods = length pods"
    using sum_length_filter_compl[of "\<lambda>p. podStatus p = Inactive" pods] by (simp add: pods_in_def)
  ultimately show ?thesis
    unfolding pods_settled_def settled_def startup_counts running_or_inactive Let_def by auto
qed

text \<open>An event after which the loop goes on.\<close>

definition goes_on :: "WaitForPodOptions \<Rightarrow> wait_event \<Rightarrow> bool" where
  "goes_on opts e \<longleftrightarrow> (\<exists>desired pods. e = Tick desired (Inr pods) \<and> \<not> settled opts desired pods)"

lemma wait_loop_goes_on:
  "goes_on opts e \<Longrightarrow> \<exists>pods st. \<forall>evs. wait_loop opts ps (e # evs) oldPods oldStatus = wait_loop opts ps evs pods st"
proof -
  assume "goes_on opts e"
  then obtain desired pods where "e = Tick desired (Inr pods)" "\<not> settled opts desired pods"
    by (auto simp: goes_on_def)
  then have "wait_loop opts ps (e # evs) oldPods oldStatus =
      wait_loop opts ps evs pods (ComputePodsStartupStatus pods desired (wo_IsPodUpdated opts))" for evs
    by (simp add: Let_def pods_settled_iff)
  then show ?thesis by blast
qed

text \<open>The first event that ends the loop is a settled listing.\<close>

definition settles :: "WaitForPodOptions \<Rightarrow> wait_event list \<Rightarrow> bool" where
  "settles opts evs \<longleftrightarrow> (\<exists>pre desired pods post. evs = pre @ Tick desired (Inr pods) # post \<and>
     list_all (goes_on opts) pre \<and> settled opts desired pods)"

lemma settles_Nil [simp]: "\<not> settles opts []"
  by (simp add: settles_def)

lemma settles_Cons:
  "settles opts (e # evs) \<longleftrightarrow>
     (\<exists>desired pods. e = Tick desired (Inr pods) \<and> settled opts desired pods) \<or> (goes_on opts e \<and> settles opts evs)"
proof
  assume "settles opts (e # evs)"
  then obtain pre desired pods post where "e # evs = pre @ Tick desired (Inr pods) # post"
    "list_all (goes_on opts) pre" "settled opts desired pods" by (auto simp: settles_def)
  then show "(\<exists>desired pods. e = Tick desired (Inr pods) \<and> settled opts desired pods) \<or> (goes_on opts e \<and> settles opts evs)"
  proof (cases pre)
    case (Cons x xs)
    with \<open>e # evs = _\<close> \<open>list_all _ _\<close> \<open>settled _ _ _\<close> have "goes_on opts e" "settles opts evs"
      by (simp, unfold settles_def) (intro exI[of _ xs] exI[of _ desired] exI[of _ pods] exI[of _ post], simp)
    then show ?thesis by blast
  qed auto
next
  assume "(\<exists>desired pods. e = Tick desired (Inr pods) \<and> settled opts desired pods) \<or> (goes_on opts e \<and> settles opts evs)"
  then show "settles opts (e # evs)"
  proof (elim disjE conjE exE)
    fix desired pods assume "e = Tick desired (Inr pods)" "settled opts desired pods"
    then show ?thesis unfolding settles_def by (intro exI[of _ "[]"]) auto
  next
    assume e: "goes_on opts e" and "settles opts evs"
    then obtain pre desired pods post where "evs = pre @ Tick desired (Inr pods) # post"
      "list_all (goes_on opts) pre" "settled opts desired pods" by (auto simp: settles_def)
    with e show ?thesis unfolding settles_def by (intro exI[of _ "e # pre"]) auto
  qed
qed

lemma wait_loop_stops:
  "\<not> goes_on opts e \<Longrightarrow> \<exists>r. wait_loop opts ps (e # evs) oldPods oldStatus = Some r \<and>
     (r = (None, None) \<longleftrightarrow> (\<exists>desired pods. e = Tick desired (Inr pods) \<and> settled opts desired pods)) \<and>
     (r = (None, None) \<or> snd r \<noteq> None)"
  by (cases e; cases "snd (case e of Tick d r \<Rightarrow> (d, r))") 
    (auto simp: goes_on_def Let_def pods_settled_iff)

lemma wait_loop_outcome:
  "(\<exists>r. wait_loop opts ps evs oldPods oldStatus = Some r) \<longleftrightarrow> (\<exists>e \<in> set evs. \<not> goes_on opts e)"
  "wait_loop opts ps evs oldPods oldStatus = Some r \<Longrightarrow>
     (r = (None, None) \<longleftrightarrow> settles opts evs) \<and> (r = (None, None) \<or> snd r \<noteq> None)"
proof (induction evs arbitrary: oldPods oldStatus)
  case (Cons e evs)
  {
    case 1
    show ?case
    proof (cases "goes_on opts e")
      case True
      then obtain pods st where "wait_loop opts ps (e # evs) oldPods oldStatus = wait_loop opts ps evs pods st"
        using wait_loop_goes_on by blast
      with Cons.IH(1)[of pods st] True show ?thesis by simp
    next
      case False
      with wait_loop_stops[OF False, of ps evs oldPods oldStatus] show ?thesis by auto
    qed
  next
    case 2
    show ?case
    proof (cases "goes_on opts e")
      case True
      then obtain pods st where "wait_loop opts ps evs pods st = Some r"
        using 2 wait_loop_goes_on[OF True, of ps oldPods oldStatus] by metis
      from Cons.IH(2)[OF this] True show ?thesis
        by (auto simp: settles_Cons) (auto simp: goes_on_def)
    next
      case False
      then show ?thesis
        using 2 wait_loop_stops[OF False, of ps evs oldPods oldStatus] by (auto simp: settles_Cons)
    qed
  }
qed auto

text \<open>
  C16: waiting for pods.  The loop returns as soon as an event ends it: the end of the context, a
  failed listing, or a listing in which the pods have settled.  It reports success exactly when the
  first such event is a settled listing, and an error otherwise; it never reports success for pods
  that are pending, terminating, not ready or outdated beyond the margin.
\<close>

theorem WaitForPods_outcome:
  "((\<exists>r. WaitForPods opts ps (Inr oldPods) evs = Some r) \<longleftrightarrow> (\<exists>e \<in> set evs. \<not> goes_on opts e))
   \<and> (WaitForPods opts ps (Inr oldPods) evs = Some (None, None) \<longleftrightarrow>
        (\<exists>pre desired pods post. evs = pre @ Tick desired (Inr pods) # post \<and>
           list_all (goes_on opts) pre \<and> settled opts desired pods))
   \<and> (\<forall>r. WaitForPods opts ps (Inr oldPods) evs = Some r \<longrightarrow> r = (None, None) \<or> snd r \<noteq> None)"
proof (intro conjI)
  let ?w = "wait_loop opts ps evs oldPods zeroStartupStatus"
  have w: "WaitForPods opts ps (Inr oldPods) evs = ?w" by (simp add: WaitForPods_def)
  show "(\<exists>r. WaitForPods opts ps (Inr oldPods) evs = Some r) \<longleftrightarrow> (\<exists>e \<in> set evs. \<not> goes_on opts e)"
    unfolding w by (rule wait_loop_outcome(1))
  show "\<forall>r. WaitForPods opts ps (Inr oldPods) evs = Some r \<longrightarrow> r = (None, None) \<or> snd r \<noteq> None"
    unfolding w using wait_loop_outcome(2) by blast
  show "WaitForPods opts ps (Inr oldPods) evs = Some (None, None) \<longleftrightarrow>
        (\<exists>pre desired pods post. evs = pre @ Tick desired (Inr pods) # post \<and>
           list_all (goes_on opts) pre \<and> settled opts desired pods)"
  proof (cases ?w)
    case None
    then have "\<forall>e \<in> set evs. goes_on opts e" using wait_loop_outcome(1)[of opts ps evs oldPods zeroStartupStatus] by auto
    with None show ?thesis unfolding w by (fastforce simp: goes_on_def)
  next
    case (Some r)
    from wait_loop_outcome(2)[OF this] Some show ?thesis unfolding w settles_def by simp
  qed
qed

definition ready_pod :: Pod where
  "ready_pod = \<lparr>po_Namespace = ''ns'', po_Name = ''p'', po_Controller = None, po_CreationTimestamp = 1,
     po_DeletionTimestamp = None, po_NodeName = ''n'', po_Volumes = [], po_Phase = PodRunning,
     po_Conditions = [\<lparr>pc_Type = ''Ready'', pc_Status = ''True''\<rparr>], po_ContainerStatuses = [Some 3]\<rparr>"

theorem WaitForPods_outcome_witness:
  "WaitForPods \<lparr>wo_CountErrorMargin = 0, wo_IsPodUpdated = None\<rparr> ''x'' (Inr [])
     [Tick 1 (Inr []), Tick 1 (Inr [ready_pod])] = Some (None, None)"
proof -
  let ?o = "\<lparr>wo_CountErrorMargin = 0, wo_IsPodUpdated = None\<rparr>"
  have "settled ?o 1 [ready_pod]" "goes_on ?o (Tick 1 (Inr []))"
    by (simp_all add: settled_def goes_on_def ready_pod_def podStatus_def is_updated_def)
  then have "\<exists>pre desired pods post. [Tick 1 (Inr []), Tick 1 (Inr [ready_pod])] = pre @ Tick desired (Inr pods) # post \<and>
           list_all (goes_on ?o) pre \<and> settled ?o desired pods"
    by (intro exI[of _ "[Tick 1 (Inr [])]"] exI[of _ 1] exI[of _ "[ready_pod]"] exI[of _ "[]"]) simp
  with WaitForPods_outcome[of ?o "''x''" "[]" "[Tick 1 (Inr []), Tick 1 (Inr [ready_pod])]"]
  show ?thesis by blast
qed

end
