(* ===== verification/Informer.thy ===== *)
theory Informer
  imports Go_Prelude
begin

text \<open>
  Informers (\<^verbatim>\<open>clusterloader2/pkg/measurement/util/informer/informer.go\<close>).  An informer keeps a store of
  objects by key and tells every change of it; \<open>addEventHandler\<close> turns what it tells into calls of one
  handler with the old and the new object.  The informer itself (client-go) is represented by the
  sequences of events that a store can go through; a client of an informer is a locale.
\<close>

section \<open>Events\<close>

text \<open>\<open>DeleteUnknown\<close> is a deletion that the watch missed, with the last object the store knew.\<close>

datatype 'o informer_event = AddEv 'o | UpdateEv 'o 'o | DeleteEv 'o | DeleteUnknown 'o

fun addEventHandler :: "('o option \<Rightarrow> 'o option \<Rightarrow> 's \<Rightarrow> 's) \<Rightarrow> 'o informer_event \<Rightarrow> 's \<Rightarrow> 's" where
  "addEventHandler handleObj (AddEv obj) s = handleObj None (Some obj) s"
| "addEventHandler handleObj (UpdateEv oldObj newObj) s = handleObj (Some oldObj) (Some newObj) s"
| "addEventHandler handleObj (DeleteEv obj) s = handleObj (Some obj) None s"
| "addEventHandler handleObj (DeleteUnknown obj) s = handleObj (Some obj) None s"

text \<open>\<open>synced\<close>: the cache has synced before the timeout.\<close>

definition StartAndSync :: "bool \<Rightarrow> goerr option" where
  "StartAndSync synced = (if \<not> synced then Some (Errorf ''timed out waiting for caches to sync'' []) else None)"

section \<open>Stores\<close>

text \<open>What an event does to a store with the key function \<open>key\<close>, and when it can happen.\<close>

fun store_after :: "('o \<Rightarrow> 'k) \<Rightarrow> 'o informer_event \<Rightarrow> ('k \<rightharpoonup> 'o) \<Rightarrow> ('k \<rightharpoonup> 'o)" where
  "store_after key (AddEv ob) m = m(key ob \<mapsto> ob)"
| "store_after key (UpdateEv old new) m = m(key new \<mapsto> new)"
| "store_after key (DeleteEv ob) m = m(key ob := None)"
| "store_after key (DeleteUnknown ob) m = m(key ob := None)"

fun can_happen :: "('o \<Rightarrow> 'k) \<Rightarrow> 'o informer_event \<Rightarrow> ('k \<rightharpoonup> 'o) \<Rightarrow> bool" where
  "can_happen key (AddEv ob) m = (m (key ob) = None)"
| "can_happen key (UpdateEv old new) m = (m (key new) = Some old \<and> key old = key new)"
| "can_happen key (DeleteEv ob) m = (m (key ob) = Some ob)"
| "can_happen key (DeleteUnknown ob) m = (m (key ob) = Some ob)"

fun history :: "('o \<Rightarrow> 'k) \<Rightarrow> 'o informer_event list \<Rightarrow> ('k \<rightharpoonup> 'o) \<Rightarrow> bool" where
  "history key [] m = True"
| "history key (e # es) m = (can_happen key e m \<and> history key es (store_after key e m))"

abbreviation store_at :: "('o \<Rightarrow> 'k) \<Rightarrow> 'o informer_event list \<Rightarrow> ('k \<rightharpoonup> 'o)" where
  "store_at key es \<equiv> fold (store_after key) es Map.empty"

lemma history_append:
  "history key (es @ fs) m \<longleftrightarrow> history key es m \<and> history key fs (fold (store_after key) es m)"
  by (induction es arbitrary: m) auto

fun event_objects :: "'o informer_event \<Rightarrow> 'o set" where
  "event_objects (AddEv ob) = {ob}"
| "event_objects (UpdateEv old new) = {old, new}"
| "event_objects (DeleteEv ob) = {ob}"
| "event_objects (DeleteUnknown ob) = {ob}"

text \<open>The number of objects in a store with a property.\<close>

definition counted :: "('o \<Rightarrow> bool) \<Rightarrow> ('k \<rightharpoonup> 'o) \<Rightarrow> nat" where
  "counted P m = card {k. \<exists>x. m k = Some x \<and> P x}"

lemma counted_empty [simp]: "counted P Map.empty = 0"
  by (simp add: counted_def)

lemma counted_upd:
  assumes "finite (dom m)"
  shows "int (counted P (m(k := v))) =
    int (counted P m) - (if \<exists>x. m k = Some x \<and> P x then 1 else 0) + (if \<exists>x. v = Some x \<and> P x then 1 else 0)"
proof -
  define S where "S = {k. \<exists>x. m k = Some x \<and> P x}"
  have "S \<subseteq> dom m" by (auto simp: S_def)
  then have fin: "finite (S - {k})" using assms finite_subset by blast
  have "{j. \<exists>x. (m(k := v)) j = Some x \<and> P x} = (if \<exists>x. v = Some x \<and> P x then insert k (S - {k}) else S - {k})"
    by (auto simp: S_def)
  then have new: "counted P (m(k := v)) = card (if \<exists>x. v = Some x \<and> P x then insert k (S - {k}) else S - {k})"
    unfolding counted_def by (rule arg_cong)
  have ins: "card (insert k (S - {k})) = Suc (card (S - {k}))" by (rule card_insert_disjoint) (use fin in auto)
  have old: "int (card S) = int (card (S - {k})) + (if \<exists>x. m k = Some x \<and> P x then 1 else 0)"
  proof (cases "k \<in> S")
    case True
    then have "card S = Suc (card (S - {k}))" using ins by (simp add: insert_absorb)
    then show ?thesis using True by (simp add: S_def)
  qed (simp add: S_def)
  have "int (counted P m) = int (card S)" by (simp add: counted_def S_def)
  with new ins old show ?thesis by (auto simp del: insert_Diff_single)
qed

section \<open>Clients of an informer\<close>

text \<open>
  A client keeps a state that agrees with the store.  It is enough that its handler keeps the agreement
  for an object that appears, one that changes and one that goes; \<open>good\<close> restricts the objects.
\<close>

locale informer_client =
  fixes key :: "'o \<Rightarrow> 'k"
    and handle :: "'o option \<Rightarrow> 'o option \<Rightarrow> 's \<Rightarrow> 's"
    and agrees :: "('k \<rightharpoonup> 'o) \<Rightarrow> 's \<Rightarrow> bool"
    and good :: "'o \<Rightarrow> bool"
  assumes appears: "agrees m s \<Longrightarrow> good ob \<Longrightarrow> m (key ob) = None \<Longrightarrow> agrees (m(key ob \<mapsto> ob)) (handle None (Some ob) s)"
    and changes: "agrees m s \<Longrightarrow> good old \<Longrightarrow> good new \<Longrightarrow> m (key new) = Some old \<Longrightarrow> key old = key new \<Longrightarrow>
          agrees (m(key new \<mapsto> new)) (handle (Some old) (Some new) s)"
    and goes: "agrees m s \<Longrightarrow> good ob \<Longrightarrow> m (key ob) = Some ob \<Longrightarrow> agrees (m(key ob := None)) (handle (Some ob) None s)"
begin

lemma event_agrees:
  "agrees m s \<Longrightarrow> can_happen key e m \<Longrightarrow> (\<And>ob. ob \<in> event_objects e \<Longrightarrow> good ob) \<Longrightarrow>
     agrees (store_after key e m) (addEventHandler handle e s)"
  by (cases e) (auto intro: appears changes goes)

lemma history_agrees:
  "agrees m s \<Longrightarrow> history key es m \<Longrightarrow> (\<And>e ob. e \<in> set es \<Longrightarrow> ob \<in> event_objects e \<Longrightarrow> good ob) \<Longrightarrow>
     agrees (fold (store_after key) es m) (fold (addEventHandler handle) es s)"
proof (induction es arbitrary: m s)
  case (Cons e es)
  have "agrees (store_after key e m) (addEventHandler handle e s)"
    using Cons.prems by (intro event_agrees) auto
  moreover have "\<And>e ob. e \<in> set es \<Longrightarrow> ob \<in> event_objects e \<Longrightarrow> good ob" using Cons.prems(3) by auto
  ultimately show ?case using Cons.prems(2) Cons.IH by simp
qed simp

end

end
