(* ===== verification/Runtime_Objects.thy ===== *)
theory Runtime_Objects
  imports Client_Objects Pods_Util Informer
begin

text \<open>
  Controlling objects and the number of pods they ask for
  (\<^verbatim>\<open>clusterloader2/pkg/measurement/util/runtimeobjects\<close>): specs, replicas, the tolerations of a daemon
  set, and the counter of the nodes it can run on (\<^verbatim>\<open>replicaswatcher.go\<close>).  The library functions that
  walk through unstructured content, convert it and match nodes are parameters.
\<close>

section \<open>Objects\<close>

record Toleration =
  to_Key :: string
  to_Operator :: string
  to_Value :: string
  to_Effect :: string
  to_Seconds :: "int option"

record Taint =
  ta_Key :: string
  ta_Value :: string
  ta_Effect :: string

record Node =
  no_Name :: string
  no_Labels :: "(string, string) gomap"
  no_Taints :: "Taint list"

text \<open>A node selector stays what the decoder made of it: only the library looks inside.\<close>

record NodeAffinity =
  na_Required :: "gval option"

record Affinity =
  af_NodeAffinity :: "NodeAffinity option"

record PodSpec =
  sp_NodeSelector :: "(string, string) gomap"
  sp_Affinity :: "Affinity option"
  sp_Tolerations :: "Toleration list"
  sp_HostNetwork :: bool

definition emptyPodSpec :: PodSpec where
  "emptyPodSpec = \<lparr>sp_NodeSelector = [], sp_Affinity = None, sp_Tolerations = [], sp_HostNetwork = False\<rparr>"

record ObjectMeta =
  om_Namespace :: string
  om_Name :: string
  om_UID :: string
  om_ResourceVersion :: string

text \<open>The spec of a typed object; \<open>ts_Rest\<close> is what only comparisons see.\<close>

record TypedSpec =
  ts_Replicas :: "int option"
  ts_Parallelism :: "int option"
  ts_Template :: PodSpec
  ts_Rest :: gval

datatype RuntimeObject =
    UnstructuredObj ObjectMeta string params
  | ReplicationController ObjectMeta TypedSpec
  | ReplicaSet ObjectMeta TypedSpec
  | Deployment ObjectMeta TypedSpec
  | StatefulSet ObjectMeta TypedSpec
  | DaemonSet ObjectMeta TypedSpec
  | Job ObjectMeta TypedSpec
  | OtherObject "ObjectMeta option"

datatype Spec = UnstructuredSpec params | Typed TypedSpec

text \<open>
  The libraries: nested fields of unstructured content (\<open>None\<close> means not found), conversions, label
  selectors, equality of specs, tolerations and node selectors.
\<close>

record 'tmpl rt_pkg =
  NestedMap :: "params \<Rightarrow> string list \<Rightarrow> goerr + params option"
  NestedInt64 :: "params \<Rightarrow> string \<Rightarrow> goerr + int option"
  NestedStringMap :: "params \<Rightarrow> string \<Rightarrow> goerr + (string, string) gomap option"
  NestedSlice :: "params \<Rightarrow> string \<Rightarrow> goerr + gval list option"
  AffinityFrom :: "params \<Rightarrow> Affinity \<times> goerr option"
  TolerationFrom :: "params \<Rightarrow> goerr + Toleration"
  TemplateFrom :: "params \<Rightarrow> goerr + 'tmpl"
  DeepDerivative :: "'tmpl \<Rightarrow> Pod \<Rightarrow> bool"
  SpecDiff :: "'tmpl \<Rightarrow> Pod \<Rightarrow> string"
  DeepEqual :: "Spec option \<Rightarrow> Spec option \<Rightarrow> bool"
  SelectorOf :: "(string, string) gomap \<Rightarrow> goerr + string"
  MatchToleration :: "Toleration \<Rightarrow> Toleration \<Rightarrow> bool"
  HasUntoleratedTaint :: "Taint list \<Rightarrow> Toleration list \<Rightarrow> (Taint \<Rightarrow> bool) \<Rightarrow> bool"
  MatchNodeSelectorTerms :: "Node \<Rightarrow> gval \<Rightarrow> bool \<times> goerr option"
  ShowContent :: "params \<Rightarrow> string"
  ShowObject :: "RuntimeObject \<Rightarrow> string"

text \<open>\<^verbatim>\<open>meta.Accessor\<close>: the metadata of an object that has some.\<close>

fun Accessor :: "RuntimeObject \<Rightarrow> goerr + ObjectMeta" where
  "Accessor (UnstructuredObj m _ _) = Inr m"
| "Accessor (ReplicationController m _) = Inr m"
| "Accessor (ReplicaSet m _) = Inr m"
| "Accessor (Deployment m _) = Inr m"
| "Accessor (StatefulSet m _) = Inr m"
| "Accessor (DaemonSet m _) = Inr m"
| "Accessor (Job m _) = Inr m"
| "Accessor (OtherObject (Some m)) = Inr m"
| "Accessor (OtherObject None) = Inl (Errorf ''object does not implement the Object interfaces'' [])"

section \<open>Versions, specs and templates\<close>

definition ListRuntimeObjectsForKind ::
  "('w \<times> RuntimeObject list) wait_pkg \<Rightarrow> err_preds \<Rightarrow>
   (gvr \<Rightarrow> string \<Rightarrow> string \<Rightarrow> 'w \<Rightarrow> (goerr + RuntimeObject list) \<times> 'w) \<Rightarrow>
   gvr \<Rightarrow> string \<Rightarrow> string \<Rightarrow> 'w \<Rightarrow> (goerr + RuntimeObject list) \<times> 'w" where
  "ListRuntimeObjectsForKind wp ep list r labelSelector fieldSelector w =
     (case list_retried wp ep (list r labelSelector fieldSelector) w of
        ((runtimeObjectsList, Some err), w) \<Rightarrow> (Inl err, w)
      | ((runtimeObjectsList, None), w) \<Rightarrow> (Inr runtimeObjectsList, w))"

definition numErrorf :: "string \<Rightarrow> numerr \<Rightarrow> goerr" where
  "numErrorf s e =
     Errorf (''strconv.ParseUint: parsing '' @ CHR 0x22 # s @ CHR 0x22 # '': '' @
       (case e of ErrSyntax \<Rightarrow> ''invalid syntax'' | ErrRange \<Rightarrow> ''value out of range'')) []"

definition GetResourceVersionFromRuntimeObject :: "RuntimeObject \<Rightarrow> goerr + nat" where
  "GetResourceVersionFromRuntimeObject obj =
     (case Accessor obj of
        Inl err \<Rightarrow> Inl (Errorf (''accessor error: '' @ err_msg err) [])
      | Inr m \<Rightarrow>
          let version = om_ResourceVersion m
          in if length version = 0 then Inr 0
             else (case parse_uint 64 version of Inl e \<Rightarrow> Inl (numErrorf version e) | Inr v \<Rightarrow> Inr v))"

definition lazySpecDiffError :: "'t rt_pkg \<Rightarrow> 't \<Rightarrow> Pod \<Rightarrow> goerr" where
  "lazySpecDiffError rt template pod = Errorf (''Not matching templates, diff: '' @ SpecDiff rt template pod) []"

definition getIsPodUpdatedPodPredicateFromUnstructured ::
  "'t rt_pkg \<Rightarrow> params \<Rightarrow> goerr + (Pod \<Rightarrow> goerr option)" where
  "getIsPodUpdatedPodPredicateFromUnstructured rt content =
     (case NestedMap rt content [''spec'', ''template''] of
        Inl err \<Rightarrow> Inl (Errorf (''failed to get pod template: '' @ err_msg err) [])
      | Inr None \<Rightarrow> Inl (Errorf (''spec.template is not set in object '' @ ShowContent rt content) [])
      | Inr (Some templateMap) \<Rightarrow>
          (case TemplateFrom rt templateMap of
             Inl _ \<Rightarrow> Inl (Errorf ''failed to parse spec.teemplate as v1.PodTemplateSpec'' [])
           | Inr template \<Rightarrow>
               Inr (\<lambda>pod. if \<not> DeepDerivative rt template pod then Some (lazySpecDiffError rt template pod) else None)))"

fun GetIsPodUpdatedPredicateFromRuntimeObject ::
  "'t rt_pkg \<Rightarrow> RuntimeObject \<Rightarrow> goerr + (Pod \<Rightarrow> goerr option)" where
  "GetIsPodUpdatedPredicateFromRuntimeObject rt (UnstructuredObj m kind content) =
     getIsPodUpdatedPodPredicateFromUnstructured rt content"
| "GetIsPodUpdatedPredicateFromRuntimeObject rt obj =
     Inl (Errorf (''unsupported kind when getting updated pod predicate: '' @ ShowObject rt obj) [])"

definition getSpecFromUnstrutured :: "'t rt_pkg \<Rightarrow> ObjectMeta \<Rightarrow> params \<Rightarrow> goerr + params" where
  "getSpecFromUnstrutured rt m content =
     (case NestedMap rt content [''spec''] of
        Inl err \<Rightarrow> Inl (Errorf (''try to acquire spec failed, '' @ err_msg err) [])
      | Inr None \<Rightarrow> Inl (Errorf (''try to acquire spec failed, no field spec for obj '' @ om_Name m) [])
      | Inr (Some spec) \<Rightarrow> Inr spec)"

text \<open>The argument \<open>None\<close> is a nil object, and so is the spec \<open>None\<close>.\<close>

fun GetSpecFromRuntimeObject :: "'t rt_pkg \<Rightarrow> RuntimeObject option \<Rightarrow> goerr + Spec option" where
  "GetSpecFromRuntimeObject rt None = Inr None"
| "GetSpecFromRuntimeObject rt (Some (UnstructuredObj m kind content)) =
     (case getSpecFromUnstrutured rt m content of Inl err \<Rightarrow> Inl err | Inr spec \<Rightarrow> Inr (Some (UnstructuredSpec spec)))"
| "GetSpecFromRuntimeObject rt (Some (ReplicationController m s)) = Inr (Some (Typed s))"
| "GetSpecFromRuntimeObject rt (Some (ReplicaSet m s)) = Inr (Some (Typed s))"
| "GetSpecFromRuntimeObject rt (Some (Deployment m s)) = Inr (Some (Typed s))"
| "GetSpecFromRuntimeObject rt (Some (StatefulSet m s)) = Inr (Some (Typed s))"
| "GetSpecFromRuntimeObject rt (Some (DaemonSet m s)) = Inr (Some (Typed s))"
| "GetSpecFromRuntimeObject rt (Some (Job m s)) = Inr (Some (Typed s))"
| "GetSpecFromRuntimeObject rt (Some (OtherObject m)) =
     Inl (Errorf (''unsupported kind when getting spec: '' @ ShowObject rt (OtherObject m)) [])"

definition IsEqualRuntimeObjectsSpec ::
  "'t rt_pkg \<Rightarrow> RuntimeObject option \<Rightarrow> RuntimeObject option \<Rightarrow> goerr + bool" where
  "IsEqualRuntimeObjectsSpec rt runtimeObj1 runtimeObj2 =
     (case GetSpecFromRuntimeObject rt runtimeObj1 of
        Inl err \<Rightarrow> Inl err
      | Inr spec1 \<Rightarrow>
          (case GetSpecFromRuntimeObject rt runtimeObj2 of
             Inl err \<Rightarrow> Inl err
           | Inr spec2 \<Rightarrow> Inr (DeepEqual rt spec1 spec2)))"

section \<open>Replicas\<close>

record NodeCounter =
  nc_nodeSelector :: string
  nc_affinity :: "Affinity option"
  nc_replicas :: int
  nc_tolerations :: "Toleration list"

datatype ReplicasWatcher = ConstReplicas int | CountNodes NodeCounter

fun Replicas :: "ReplicasWatcher \<Rightarrow> int" where
  "Replicas (ConstReplicas n) = n"
| "Replicas (CountNodes n) = nc_replicas n"

definition NewNodeCounter :: "string \<Rightarrow> Affinity option \<Rightarrow> Toleration list \<Rightarrow> NodeCounter" where
  "NewNodeCounter nodeSelector affinity tolerations =
     \<lparr>nc_nodeSelector = nodeSelector, nc_affinity = affinity, nc_replicas = 0, nc_tolerations = tolerations\<rparr>"

definition getDaemonSetNumSchedulableNodes :: "'t rt_pkg \<Rightarrow> PodSpec \<Rightarrow> goerr + ReplicasWatcher" where
  "getDaemonSetNumSchedulableNodes rt podSpec =
     (case SelectorOf rt (sp_NodeSelector podSpec) of
        Inl err \<Rightarrow> Inl err
      | Inr selector \<Rightarrow> Inr (CountNodes (NewNodeCounter selector (sp_Affinity podSpec) (sp_Tolerations podSpec))))"

text \<open>A spec without a template gives the nil parser: an empty map.\<close>

definition newDaemonSetPodSpecParser :: "'t rt_pkg \<Rightarrow> params \<Rightarrow> goerr + params" where
  "newDaemonSetPodSpecParser rt spec =
     (case NestedMap rt spec [''template''] of
        Inl err \<Rightarrow> Inl err
      | Inr None \<Rightarrow> Inr []
      | Inr (Some template) \<Rightarrow>
          (case NestedMap rt template [''spec''] of
             Inl err \<Rightarrow> Inl err
           | Inr None \<Rightarrow> Inr []
           | Inr (Some podSpec) \<Rightarrow> Inr podSpec))"

definition getDaemonSetNodeSelectorFromUnstructuredSpec ::
  "'t rt_pkg \<Rightarrow> params \<Rightarrow> PodSpec \<Rightarrow> goerr option \<times> PodSpec" where
  "getDaemonSetNodeSelectorFromUnstructuredSpec rt p spec =
     (case NestedStringMap rt p ''nodeSelector'' of
        Inl err \<Rightarrow> (Some err, spec\<lparr>sp_NodeSelector := []\<rparr>)
      | Inr None \<Rightarrow> (None, spec\<lparr>sp_NodeSelector := []\<rparr>)
      | Inr (Some nodeSelector) \<Rightarrow> (None, spec\<lparr>sp_NodeSelector := nodeSelector\<rparr>))"

definition getDaemonSetAffinityFromUnstructuredSpec ::
  "'t rt_pkg \<Rightarrow> params \<Rightarrow> PodSpec \<Rightarrow> goerr option \<times> PodSpec" where
  "getDaemonSetAffinityFromUnstructuredSpec rt p spec =
     (case NestedMap rt p [''affinity''] of
        Inl err \<Rightarrow> (Some err, spec)
      | Inr None \<Rightarrow> (None, spec)
      | Inr (Some unstructuredAffinity) \<Rightarrow>
          (case AffinityFrom rt unstructuredAffinity of
             (affinity, err) \<Rightarrow> (err, spec\<lparr>sp_Affinity := Some affinity\<rparr>)))"

fun toleration_loop ::
  "'t rt_pkg \<Rightarrow> Toleration \<Rightarrow> Toleration list \<Rightarrow> Toleration list \<Rightarrow> bool \<Rightarrow> Toleration list \<times> bool" where
  "toleration_loop rt toleration [] newTolerations updated = (newTolerations, updated)"
| "toleration_loop rt toleration (t # ts) newTolerations updated =
     (if MatchToleration rt toleration t then toleration_loop rt toleration ts (newTolerations @ [toleration]) True
      else toleration_loop rt toleration ts (newTolerations @ [t]) updated)"

definition addOrUpdateTolerationInPodSpec :: "'t rt_pkg \<Rightarrow> PodSpec \<Rightarrow> Toleration \<Rightarrow> PodSpec" where
  "addOrUpdateTolerationInPodSpec rt spec toleration =
     (let (newTolerations, updated) = toleration_loop rt toleration (sp_Tolerations spec) [] False;
          newTolerations = (if \<not> updated then newTolerations @ [toleration] else newTolerations)
      in spec\<lparr>sp_Tolerations := newTolerations\<rparr>)"

definition exists_toleration :: "string \<Rightarrow> string \<Rightarrow> Toleration" where
  "exists_toleration key effect =
     \<lparr>to_Key = key, to_Operator = ''Exists'', to_Value = [], to_Effect = effect, to_Seconds = None\<rparr>"

definition daemon_tolerations :: "bool \<Rightarrow> Toleration list" where
  "daemon_tolerations hostNetwork =
     [exists_toleration ''node.kubernetes.io/not-ready'' ''NoExecute'',
      exists_toleration ''node.kubernetes.io/disk-pressure'' ''NoSchedule'',
      exists_toleration ''node.kubernetes.io/memory-pressure'' ''NoSchedule'',
      exists_toleration ''node.kubernetes.io/pid-pressure'' ''NoSchedule'',
      exists_toleration ''node.kubernetes.io/unschedulable'' ''NoSchedule''] @
     (if hostNetwork then [exists_toleration ''node.kubernetes.io/network-unavailable'' ''NoSchedule''] else [])"

definition addOrUpdateDaemonPodTolerations :: "'t rt_pkg \<Rightarrow> PodSpec \<Rightarrow> PodSpec" where
  "addOrUpdateDaemonPodTolerations rt spec =
     foldl (addOrUpdateTolerationInPodSpec rt) spec (daemon_tolerations (sp_HostNetwork spec))"

text \<open>\<open>None\<close>: the type assertion on an element that is no map panics.\<close>

fun tolerations_loop :: "'t rt_pkg \<Rightarrow> gval list \<Rightarrow> PodSpec \<Rightarrow> (goerr option \<times> PodSpec) option" where
  "tolerations_loop rt [] spec = Some (None, spec)"
| "tolerations_loop rt (VMap m # us) spec =
     (case TolerationFrom rt m of
        Inl err \<Rightarrow> Some (Some err, spec)
      | Inr toleration \<Rightarrow> tolerations_loop rt us (addOrUpdateTolerationInPodSpec rt spec toleration))"
| "tolerations_loop rt (_ # us) spec = None"

definition getDaemonSetTolerationsFromUnstructuredSpec ::
  "'t rt_pkg \<Rightarrow> params \<Rightarrow> PodSpec \<Rightarrow> (goerr option \<times> PodSpec) option" where
  "getDaemonSetTolerationsFromUnstructuredSpec rt p spec =
     (let spec = addOrUpdateDaemonPodTolerations rt spec
      in (case NestedSlice rt p ''tolerations'' of
            Inl err \<Rightarrow> Some (Some err, spec)
          | Inr None \<Rightarrow> Some (None, spec)
          | Inr (Some unstructuredTolerations) \<Rightarrow> tolerations_loop rt unstructuredTolerations spec))"

definition tryAcquireReplicasFromUnstructuredSpec ::
  "'t rt_pkg \<Rightarrow> params \<Rightarrow> string \<Rightarrow> (goerr + ReplicasWatcher) option" where
  "tryAcquireReplicasFromUnstructuredSpec rt spec kind =
     (if kind = ''DaemonSet'' then
        (case newDaemonSetPodSpecParser rt spec of
           Inl err \<Rightarrow> Some (Inl err)
         | Inr parser \<Rightarrow>
             (case getDaemonSetNodeSelectorFromUnstructuredSpec rt parser emptyPodSpec of
                (Some err, _) \<Rightarrow> Some (Inl err)
              | (None, podSpec) \<Rightarrow>
                  (case getDaemonSetAffinityFromUnstructuredSpec rt parser podSpec of
                     (Some err, _) \<Rightarrow> Some (Inl err)
                   | (None, podSpec) \<Rightarrow>
                       (case getDaemonSetTolerationsFromUnstructuredSpec rt parser podSpec of
                          None \<Rightarrow> None
                        | Some (Some err, _) \<Rightarrow> Some (Inl err)
                        | Some (None, podSpec) \<Rightarrow> Some (getDaemonSetNumSchedulableNodes rt podSpec)))))
      else if kind = ''Job'' then
        (case NestedInt64 rt spec ''parallelism'' of
           Inl err \<Rightarrow> Some (Inl (Errorf (''try to acquire job parallelism failed, '' @ err_msg err) []))
         | Inr None \<Rightarrow> Some (Inr (ConstReplicas 0))
         | Inr (Some replicas) \<Rightarrow> Some (Inr (ConstReplicas replicas)))
      else
        (case NestedInt64 rt spec ''replicas'' of
           Inl err \<Rightarrow> Some (Inl (Errorf (''try to acquire replicas failed, '' @ err_msg err) []))
         | Inr None \<Rightarrow> Some (Inr (ConstReplicas 0))
         | Inr (Some replicas) \<Rightarrow> Some (Inr (ConstReplicas replicas))))"

definition getReplicasFromUnstrutured ::
  "'t rt_pkg \<Rightarrow> ObjectMeta \<Rightarrow> string \<Rightarrow> params \<Rightarrow> (goerr + ReplicasWatcher) option" where
  "getReplicasFromUnstrutured rt m kind content =
     (case getSpecFromUnstrutured rt m content of
        Inl err \<Rightarrow> Some (Inl err)
      | Inr spec \<Rightarrow> tryAcquireReplicasFromUnstructuredSpec rt spec kind)"

definition const_or_zero :: "int option \<Rightarrow> (goerr + ReplicasWatcher) option" where
  "const_or_zero n = Some (Inr (ConstReplicas (case n of Some n \<Rightarrow> n | None \<Rightarrow> 0)))"

fun GetReplicasFromRuntimeObject :: "'t rt_pkg \<Rightarrow> RuntimeObject option \<Rightarrow> (goerr + ReplicasWatcher) option" where
  "GetReplicasFromRuntimeObject rt None = Some (Inr (ConstReplicas 0))"
| "GetReplicasFromRuntimeObject rt (Some (UnstructuredObj m kind content)) = getReplicasFromUnstrutured rt m kind content"
| "GetReplicasFromRuntimeObject rt (Some (ReplicationController m s)) = const_or_zero (ts_Replicas s)"
| "GetReplicasFromRuntimeObject rt (Some (ReplicaSet m s)) = const_or_zero (ts_Replicas s)"
| "GetReplicasFromRuntimeObject rt (Some (Deployment m s)) = const_or_zero (ts_Replicas s)"
| "GetReplicasFromRuntimeObject rt (Some (StatefulSet m s)) = const_or_zero (ts_Replicas s)"
| "GetReplicasFromRuntimeObject rt (Some (DaemonSet m s)) = Some (getDaemonSetNumSchedulableNodes rt (ts_Template s))"
| "GetReplicasFromRuntimeObject rt (Some (Job m s)) = const_or_zero (ts_Parallelism s)"
| "GetReplicasFromRuntimeObject rt (Some (OtherObject m)) =
     Some (Inl (Errorf (''unsupported kind when getting number of replicas: '' @ ShowObject rt (OtherObject m)) []))"

section \<open>Counting nodes\<close>

definition podMatchesNodeAffinity :: "'t rt_pkg \<Rightarrow> Affinity option \<Rightarrow> Node \<Rightarrow> bool \<times> goerr option" where
  "podMatchesNodeAffinity rt affinity node =
     (case affinity of
        None \<Rightarrow> (True, None)
      | Some a \<Rightarrow>
          (case af_NodeAffinity a of
             None \<Rightarrow> (True, None)
           | Some nodeAffinity \<Rightarrow>
               (case na_Required nodeAffinity of
                  None \<Rightarrow> (True, None)
                | Some required \<Rightarrow> MatchNodeSelectorTerms rt node required)))"

definition shouldRun :: "'t rt_pkg \<Rightarrow> NodeCounter \<Rightarrow> Node option \<Rightarrow> bool \<times> goerr option" where
  "shouldRun rt n obj =
     (case obj of
        None \<Rightarrow> (False, None)
      | Some node \<Rightarrow>
          let (matched, err) = podMatchesNodeAffinity rt (nc_affinity n) node;
              hasUntoleratedTaint = HasUntoleratedTaint rt (no_Taints node) (nc_tolerations n)
                (\<lambda>t. ta_Effect t = ''NoExecute'' \<or> ta_Effect t = ''NoSchedule'')
          in (\<not> hasUntoleratedTaint \<and> matched, err))"

text \<open>The caller logs the error and keeps the counter.\<close>

definition nc_handleObject :: "'t rt_pkg \<Rightarrow> Node option \<Rightarrow> Node option \<Rightarrow> NodeCounter \<Rightarrow> NodeCounter" where
  "nc_handleObject rt oldObj newObj n =
     (case shouldRun rt n oldObj of
        (_, Some err) \<Rightarrow> n
      | (oldO, None) \<Rightarrow>
          (case shouldRun rt n newObj of
             (_, Some err) \<Rightarrow> n
           | (newO, None) \<Rightarrow>
               if newO = oldO then n
               else if newO \<and> \<not> oldO then n\<lparr>nc_replicas := nc_replicas n + 1\<rparr>
               else n\<lparr>nc_replicas := nc_replicas n - 1\<rparr>))"

text \<open>
  Starting a watcher: the nodes of the initial listing are handled, then the call returns; \<open>synced\<close> says
  whether this happened in time.
\<close>

definition nc_Start :: "'t rt_pkg \<Rightarrow> bool \<Rightarrow> Node list \<Rightarrow> NodeCounter \<Rightarrow> goerr option \<times> NodeCounter" where
  "nc_Start rt synced listed n = (StartAndSync synced, fold (addEventHandler (nc_handleObject rt)) (map AddEv listed) n)"

fun rw_Start :: "'t rt_pkg \<Rightarrow> bool \<Rightarrow> Node list \<Rightarrow> ReplicasWatcher \<Rightarrow> goerr option \<times> ReplicasWatcher" where
  "rw_Start rt synced listed (ConstReplicas c) = (None, ConstReplicas c)"
| "rw_Start rt synced listed (CountNodes n) =
     (case nc_Start rt synced listed n of (err, n) \<Rightarrow> (err, CountNodes n))"

definition GetReplicasOnce :: "'t rt_pkg \<Rightarrow> bool \<Rightarrow> Node list \<Rightarrow> ReplicasWatcher \<Rightarrow> int \<times> goerr option" where
  "GetReplicasOnce rt synced listed rw =
     (case rw_Start rt synced listed rw of (Some err, _) \<Rightarrow> (0, Some err) | (None, rw) \<Rightarrow> (Replicas rw, None))"

section \<open>The counter refines the number of schedulable nodes\<close>

definition affinity_ok :: "'t rt_pkg \<Rightarrow> Affinity option \<Rightarrow> Node \<Rightarrow> bool" where
  "affinity_ok rt affinity node \<longleftrightarrow> snd (podMatchesNodeAffinity rt affinity node) = None"

definition schedulable :: "'t rt_pkg \<Rightarrow> Affinity option \<Rightarrow> Toleration list \<Rightarrow> Node \<Rightarrow> bool" where
  "schedulable rt affinity tolerations node \<longleftrightarrow>
     fst (podMatchesNodeAffinity rt affinity node) \<and>
     \<not> HasUntoleratedTaint rt (no_Taints node) tolerations (\<lambda>t. ta_Effect t = ''NoExecute'' \<or> ta_Effect t = ''NoSchedule'')"

definition counter_agrees ::
  "'t rt_pkg \<Rightarrow> Affinity option \<Rightarrow> Toleration list \<Rightarrow> (string \<rightharpoonup> Node) \<Rightarrow> NodeCounter \<Rightarrow> bool" where
  "counter_agrees rt affinity tolerations m n \<longleftrightarrow>
     finite (dom m) \<and> nc_affinity n = affinity \<and> nc_tolerations n = tolerations \<and>
     nc_replicas n = int (counted (schedulable rt affinity tolerations) m)"

lemma shouldRun_eq:
  "counter_agrees rt affinity tolerations m n \<Longrightarrow> affinity_ok rt affinity node \<Longrightarrow>
     shouldRun rt n (Some node) = (schedulable rt affinity tolerations node, None)"
  by (auto simp: counter_agrees_def affinity_ok_def schedulable_def shouldRun_def split: prod.splits)

lemma shouldRun_nil [simp]: "shouldRun rt n None = (False, None)"
  by (simp add: shouldRun_def)

interpretation node_counter: informer_client no_Name "nc_handleObject rt" "counter_agrees rt affinity tolerations"
  "affinity_ok rt affinity" for rt :: "'t rt_pkg" and affinity tolerations
proof
  fix m n ob
  assume a: "counter_agrees rt affinity tolerations m n" and g: "affinity_ok rt affinity ob"
  note s = shouldRun_eq[OF a g]
  show "counter_agrees rt affinity tolerations (m(no_Name ob \<mapsto> ob)) (nc_handleObject rt None (Some ob) n)"
    if "m (no_Name ob) = None"
    using a that by (auto simp: nc_handleObject_def s counter_agrees_def counted_upd)
  show "counter_agrees rt affinity tolerations (m(no_Name ob := None)) (nc_handleObject rt (Some ob) None n)"
    if "m (no_Name ob) = Some ob"
    using a that by (auto simp: nc_handleObject_def s counter_agrees_def counted_upd)
  fix old assume o: "affinity_ok rt affinity old" "m (no_Name ob) = Some old"
  show "counter_agrees rt affinity tolerations (m(no_Name ob \<mapsto> ob)) (nc_handleObject rt (Some old) (Some ob) n)"
    using a o(2) by (auto simp: nc_handleObject_def s shouldRun_eq[OF a o(1)] counter_agrees_def counted_upd)
qed

text \<open>
  C12: the counter of a daemon set refines the number of nodes it runs on.  After any history of the
  nodes in the cluster, with nodes that appear, change and go in any order and deletions that the watch
  missed, the counter is the number of nodes that match the affinity and have no untolerated taint,
  provided the affinity can be evaluated on them.
\<close>

theorem node_counter_refines:
  assumes "history no_Name evs Map.empty"
    and "\<forall>e \<in> set evs. \<forall>node \<in> event_objects e. affinity_ok rt affinity node"
  shows "Replicas (CountNodes (fold (addEventHandler (nc_handleObject rt)) evs
      (NewNodeCounter selector affinity tolerations)))
    = int (counted (schedulable rt affinity tolerations) (store_at no_Name evs))"
proof -
  have "counter_agrees rt affinity tolerations Map.empty (NewNodeCounter selector affinity tolerations)"
    by (simp add: counter_agrees_def NewNodeCounter_def)
  from node_counter.history_agrees[OF this assms(1)] assms(2) show ?thesis by (auto simp: counter_agrees_def)
qed

section \<open>Tolerations\<close>

text \<open>Tolerations are unique by key, effect, operator and value, as the library documents.\<close>

definition tol_id :: "Toleration \<Rightarrow> string \<times> string \<times> string \<times> string" where
  "tol_id t = (to_Key t, to_Effect t, to_Operator t, to_Value t)"

definition match_documented :: "'t rt_pkg \<Rightarrow> bool" where
  "match_documented rt \<longleftrightarrow> (\<forall>t u. MatchToleration rt t u \<longleftrightarrow> tol_id t = tol_id u)"

definition tol_map :: "Toleration list \<Rightarrow> string \<times> string \<times> string \<times> string \<rightharpoonup> Toleration" where
  "tol_map ts = map_of (map (\<lambda>t. (tol_id t, t)) ts)"

lemma toleration_loop_eq:
  assumes "match_documented rt"
  shows "toleration_loop rt t ts acc b =
    (acc @ map (\<lambda>u. if tol_id u = tol_id t then t else u) ts, b \<or> tol_id t \<in> tol_id ` set ts)"
  using assms by (induction ts arbitrary: acc b) (auto simp: match_documented_def)

lemma addOrUpdate_ids:
  assumes "match_documented rt"
  shows "map tol_id (sp_Tolerations (addOrUpdateTolerationInPodSpec rt spec t)) =
    map tol_id (sp_Tolerations spec) @ (if tol_id t \<in> tol_id ` set (sp_Tolerations spec) then [] else [tol_id t])"
  by (auto simp: addOrUpdateTolerationInPodSpec_def toleration_loop_eq[OF assms] Let_def)

lemma tol_map_replace:
  "map_of (map (\<lambda>u. (tol_id (if tol_id u = tol_id t then t else u), if tol_id u = tol_id t then t else u)) ts) k =
     (if k = tol_id t \<and> tol_id t \<in> tol_id ` set ts then Some t else tol_map ts k)"
  by (induction ts) (auto simp: tol_map_def)

lemma tol_map_None: "tol_map ts k = None \<longleftrightarrow> k \<notin> tol_id ` set ts"
  by (auto simp: tol_map_def map_of_eq_None_iff image_image)

lemma addOrUpdate_map:
  assumes "match_documented rt"
  shows "tol_map (sp_Tolerations (addOrUpdateTolerationInPodSpec rt spec t)) =
    (tol_map (sp_Tolerations spec))(tol_id t \<mapsto> t)"
proof
  fix k
  let ?ts = "sp_Tolerations spec"
  let ?new = "map (\<lambda>u. if tol_id u = tol_id t then t else u) ?ts"
  have new: "tol_map ?new k = (if k = tol_id t \<and> tol_id t \<in> tol_id ` set ?ts then Some t else tol_map ?ts k)"
    unfolding tol_map_def[of ?new] by (simp add: comp_def tol_map_replace)
  show "tol_map (sp_Tolerations (addOrUpdateTolerationInPodSpec rt spec t)) k = ((tol_map ?ts)(tol_id t \<mapsto> t)) k"
  proof (cases "tol_id t \<in> tol_id ` set ?ts")
    case True
    then show ?thesis
      using new by (auto simp: addOrUpdateTolerationInPodSpec_def toleration_loop_eq[OF assms] Let_def)
  next
    case False
    moreover have "tol_map (?new @ [t]) k = (case tol_map ?new k of None \<Rightarrow> tol_map [t] k | r \<Rightarrow> r)"
      by (simp add: tol_map_def map_add_def split: option.splits)
    moreover have "tol_map [t] k = (if k = tol_id t then Some t else None)" by (simp add: tol_map_def)
    moreover have "tol_map ?ts (tol_id t) = None" using False by (simp add: tol_map_None)
    ultimately show ?thesis
      using new
      by (cases "k = tol_id t") (auto simp: addOrUpdateTolerationInPodSpec_def toleration_loop_eq[OF assms] Let_def split: option.splits)
  qed
qed

lemma addOrUpdates_map:
  assumes "match_documented rt"
  shows "tol_map (sp_Tolerations (foldl (addOrUpdateTolerationInPodSpec rt) spec ts)) =
      tol_map (sp_Tolerations spec) ++ tol_map (rev ts)"
proof (induction ts arbitrary: spec)
  case (Cons t ts)
  have "tol_map (rev ts @ [t]) = tol_map [t] ++ tol_map (rev ts)" by (simp add: tol_map_def)
  moreover have "m(tol_id t \<mapsto> t) ++ tol_map (rev ts) = m ++ (tol_map [t] ++ tol_map (rev ts))" for m
    by (auto simp: tol_map_def map_add_def fun_eq_iff split: option.splits)
  ultimately show ?case unfolding foldl.simps Cons.IH addOrUpdate_map[OF assms] by simp
qed (simp add: tol_map_def)

lemma addOrUpdates_distinct:
  assumes "match_documented rt"
  shows "distinct (map tol_id (sp_Tolerations spec)) \<Longrightarrow>
    distinct (map tol_id (sp_Tolerations (foldl (addOrUpdateTolerationInPodSpec rt) spec ts)))"
proof (induction ts arbitrary: spec)
  case (Cons t ts)
  then have "distinct (map tol_id (sp_Tolerations (addOrUpdateTolerationInPodSpec rt spec t)))"
    unfolding addOrUpdate_ids[OF assms] by auto
  with Cons.IH show ?case by simp
qed simp

lemma tolerations_loop_eq:
  assumes "map (\<lambda>u. case u of VMap m \<Rightarrow> TolerationFrom rt m | _ \<Rightarrow> Inl e) us = map Inr ts"
  shows "tolerations_loop rt us spec = Some (None, foldl (addOrUpdateTolerationInPodSpec rt) spec ts)"
  using assms
proof (induction us arbitrary: ts spec)
  case (Cons u us)
  then obtain t ts' where "ts = t # ts'" "(case u of VMap m \<Rightarrow> TolerationFrom rt m | _ \<Rightarrow> Inl e) = Inr t"
    "map (\<lambda>u. case u of VMap m \<Rightarrow> TolerationFrom rt m | _ \<Rightarrow> Inl e) us = map Inr ts'"
    by (cases ts) auto
  with Cons.IH[of ts'] show ?case by (cases u) auto
qed simp

text \<open>
  The tolerations of a daemon set whose spec lists \<open>ts\<close>: those of the controller, overridden by \<open>ts\<close>.
\<close>

definition daemon_spec_tolerations :: "'t rt_pkg \<Rightarrow> params \<Rightarrow> Toleration list \<Rightarrow> bool" where
  "daemon_spec_tolerations rt p ts \<longleftrightarrow>
     (\<exists>us. NestedSlice rt p ''tolerations'' = Inr (Some us) \<and>
        map (\<lambda>u. case u of VMap m \<Rightarrow> TolerationFrom rt m | _ \<Rightarrow> Inl ErrCritical) us = map Inr ts)"

text \<open>
  Which taints a daemon set tolerates.  Whatever tolerations its spec lists, the result has exactly
  one toleration for every combination of key, effect, operator and value: the last one listed, or else
  the one that the daemon set controller adds.  The toleration of an unavailable network is never
  added, even for a spec that asks for the host network, because the host network is not read.
\<close>

theorem daemon_set_tolerations:
  assumes "match_documented rt" and "daemon_spec_tolerations rt p ts"
    and "getDaemonSetNodeSelectorFromUnstructuredSpec rt p emptyPodSpec = (None, spec1)"
    and "getDaemonSetAffinityFromUnstructuredSpec rt p spec1 = (None, spec2)"
  shows "\<exists>spec. getDaemonSetTolerationsFromUnstructuredSpec rt p spec2 = Some (None, spec)
    \<and> distinct (map tol_id (sp_Tolerations spec))
    \<and> tol_map (sp_Tolerations spec) = tol_map (rev (daemon_tolerations False)) ++ tol_map (rev ts)"
proof -
  obtain us where us: "NestedSlice rt p ''tolerations'' = Inr (Some us)"
    "map (\<lambda>u. case u of VMap m \<Rightarrow> TolerationFrom rt m | _ \<Rightarrow> Inl ErrCritical) us = map Inr ts"
    using assms(2) by (auto simp: daemon_spec_tolerations_def)
  have "sp_Tolerations spec1 = [] \<and> \<not> sp_HostNetwork spec1"
    using assms(3) by (auto simp: getDaemonSetNodeSelectorFromUnstructuredSpec_def emptyPodSpec_def split: sum.splits option.splits)
  then have s2: "sp_Tolerations spec2 = []" "\<not> sp_HostNetwork spec2"
    using assms(4) by (auto simp: getDaemonSetAffinityFromUnstructuredSpec_def split: sum.splits option.splits prod.splits)
  let ?spec = "foldl (addOrUpdateTolerationInPodSpec rt) (addOrUpdateDaemonPodTolerations rt spec2) ts"
  have "getDaemonSetTolerationsFromUnstructuredSpec rt p spec2 = Some (None, ?spec)"
    by (simp add: getDaemonSetTolerationsFromUnstructuredSpec_def us(1) tolerations_loop_eq[OF us(2)])
  moreover have "tol_map (sp_Tolerations (addOrUpdateDaemonPodTolerations rt spec2)) = tol_map (rev (daemon_tolerations False))"
    by (simp add: addOrUpdateDaemonPodTolerations_def addOrUpdates_map[OF assms(1)] s2) (simp add: tol_map_def)
  moreover have "distinct (map tol_id (sp_Tolerations (addOrUpdateDaemonPodTolerations rt spec2)))"
    unfolding addOrUpdateDaemonPodTolerations_def by (rule addOrUpdates_distinct[OF assms(1)]) (simp add: s2)
  ultimately show ?thesis using addOrUpdates_map[OF assms(1)] addOrUpdates_distinct[OF assms(1)] by auto
qed

section \<open>Replicas are computed without panics\<close>

text \<open>The tolerations in the content of an unstructured object are maps.\<close>

definition tolerations_typed :: "'t rt_pkg \<Rightarrow> RuntimeObject option \<Rightarrow> bool" where
  "tolerations_typed rt obj \<longleftrightarrow>
     (\<forall>m kind content spec parser us. obj = Some (UnstructuredObj m kind content) \<longrightarrow>
        getSpecFromUnstrutured rt m content = Inr spec \<longrightarrow> newDaemonSetPodSpecParser rt spec = Inr parser \<longrightarrow>
        NestedSlice rt parser ''tolerations'' = Inr (Some us) \<longrightarrow> (\<forall>u \<in> set us. \<exists>m. u = VMap m))"

lemma tolerations_loop_returns:
  "\<forall>u \<in> set us. \<exists>m. u = VMap m \<Longrightarrow> tolerations_loop rt us spec \<noteq> None"
  by (induction us arbitrary: spec) (auto split: sum.splits)


section \<open>Examples\<close>

text \<open>A library of nested lookups in association lists, for the examples.\<close>

fun nested :: "params \<Rightarrow> string list \<Rightarrow> gval option" where
  "nested p [] = Some (VMap p)"
| "nested p [f] = map_of p f"
| "nested p (f # fs) = (case map_of p f of Some (VMap q) \<Rightarrow> nested q fs | _ \<Rightarrow> None)"

definition str_of :: "gval option \<Rightarrow> string" where
  "str_of v = (case v of Some (VString s) \<Rightarrow> s | _ \<Rightarrow> [])"

definition plain_rt :: "unit rt_pkg" where
  "plain_rt =
     \<lparr>NestedMap = \<lambda>p fs. (case nested p fs of None \<Rightarrow> Inr None | Some (VMap q) \<Rightarrow> Inr (Some q)
        | Some _ \<Rightarrow> Inl (Errorf ''not a map'' [])),
      NestedInt64 = \<lambda>p f. (case map_of p f of None \<Rightarrow> Inr None | Some (VInt64 i) \<Rightarrow> Inr (Some i)
        | Some _ \<Rightarrow> Inl (Errorf ''not an int64'' [])),
      NestedStringMap = \<lambda>p f. (case map_of p f of None \<Rightarrow> Inr None
        | Some (VMap q) \<Rightarrow> Inr (Some (map (\<lambda>(k, v). (k, str_of (Some v))) q)) | Some _ \<Rightarrow> Inl (Errorf ''not a map'' [])),
      NestedSlice = \<lambda>p f. (case map_of p f of None \<Rightarrow> Inr None | Some (VList us) \<Rightarrow> Inr (Some us)
        | Some _ \<Rightarrow> Inl (Errorf ''not a list'' [])),
      AffinityFrom = \<lambda>p. (\<lparr>af_NodeAffinity = None\<rparr>, None),
      TolerationFrom = \<lambda>p. Inr \<lparr>to_Key = str_of (map_of p ''key''), to_Operator = str_of (map_of p ''operator''),
        to_Value = str_of (map_of p ''value''), to_Effect = str_of (map_of p ''effect''), to_Seconds = None\<rparr>,
      TemplateFrom = \<lambda>p. Inr (), DeepDerivative = \<lambda>_ _. True, SpecDiff = \<lambda>_ _. [],
      DeepEqual = (=), SelectorOf = \<lambda>_. Inr [], MatchToleration = \<lambda>t u. tol_id t = tol_id u,
      HasUntoleratedTaint = \<lambda>taints ts f. list_ex (\<lambda>ta. f ta \<and> \<not> list_ex (\<lambda>t. to_Key t = ta_Key ta) ts) taints,
      MatchNodeSelectorTerms = \<lambda>_ _. (True, None), ShowContent = \<lambda>_. [], ShowObject = \<lambda>_. []\<rparr>"

lemma plain_rt_matches: "match_documented plain_rt"
  by (simp add: match_documented_def plain_rt_def)

definition node1 :: "Taint list \<Rightarrow> Node" where
  "node1 taints = \<lparr>no_Name = ''node-1'', no_Labels = [], no_Taints = taints\<rparr>"

definition tainted :: "Taint list" where
  "tainted = [\<lparr>ta_Key = ''gpu'', ta_Value = [], ta_Effect = ''NoSchedule''\<rparr>]"

theorem node_counter_refines_witness:
  "Replicas (CountNodes (fold (addEventHandler (nc_handleObject plain_rt))
      [AddEv (node1 tainted), UpdateEv (node1 tainted) (node1 [])] (NewNodeCounter [] None []))) = 1"
proof -
  let ?evs = "[AddEv (node1 tainted), UpdateEv (node1 tainted) (node1 [])]"
  have "store_at no_Name ?evs = [''node-1'' \<mapsto> node1 []]" by (simp add: node1_def)
  then have "int (counted (schedulable plain_rt None []) (store_at no_Name ?evs)) = 1"
    by (simp add: counted_upd) (simp add: schedulable_def podMatchesNodeAffinity_def plain_rt_def node1_def)
  with node_counter_refines[of ?evs plain_rt None "[]" "[]"] show ?thesis
    by (simp add: node1_def affinity_ok_def podMatchesNodeAffinity_def)
qed

definition gpu_toleration :: gval where
  "gpu_toleration = VMap [(''key'', VString ''gpu''), (''operator'', VString ''Exists''), (''effect'', VString ''NoSchedule'')]"

definition gpu_spec :: params where
  "gpu_spec = [(''hostNetwork'', VBool True), (''tolerations'', VList [gpu_toleration])]"

theorem daemon_set_tolerations_witness:
  "\<exists>spec. getDaemonSetTolerationsFromUnstructuredSpec plain_rt gpu_spec emptyPodSpec = Some (None, spec)
    \<and> tol_map (sp_Tolerations spec) (''gpu'', ''NoSchedule'', ''Exists'', []) = Some (exists_toleration ''gpu'' ''NoSchedule'')"
proof -
  have "daemon_spec_tolerations plain_rt gpu_spec [exists_toleration ''gpu'' ''NoSchedule'']"
    by (simp add: daemon_spec_tolerations_def plain_rt_def gpu_spec_def gpu_toleration_def exists_toleration_def str_of_def)
  moreover have "getDaemonSetNodeSelectorFromUnstructuredSpec plain_rt gpu_spec emptyPodSpec = (None, emptyPodSpec)"
    "getDaemonSetAffinityFromUnstructuredSpec plain_rt gpu_spec emptyPodSpec = (None, emptyPodSpec)"
    by (simp_all add: getDaemonSetNodeSelectorFromUnstructuredSpec_def getDaemonSetAffinityFromUnstructuredSpec_def
        plain_rt_def gpu_spec_def emptyPodSpec_def)
  moreover have "tol_map [exists_toleration ''gpu'' ''NoSchedule''] (''gpu'', ''NoSchedule'', ''Exists'', []) =
      Some (exists_toleration ''gpu'' ''NoSchedule'')"
    by (simp add: tol_map_def tol_id_def exists_toleration_def)
  ultimately show ?thesis
    using daemon_set_tolerations[OF plain_rt_matches, of gpu_spec "[exists_toleration ''gpu'' ''NoSchedule'']" emptyPodSpec emptyPodSpec]
    by (auto simp: map_add_def)
qed

definition gpu_daemon_set :: RuntimeObject where
  "gpu_daemon_set = UnstructuredObj \<lparr>om_Namespace = ''ns'', om_Name = ''ds'', om_UID = ''u'', om_ResourceVersion = ''1''\<rparr>
     ''DaemonSet'' [(''spec'', VMap [(''template'', VMap [(''spec'', VMap gpu_spec)])])]"


end
