(* ===== verification/Pods_Indexer.thy ===== *)
theory Pods_Indexer
  imports Errors_Pkg "HOL-Library.AList"
begin

text \<open>
  The index of pods by their controller
  (\<^verbatim>\<open>clusterloader2/pkg/measurement/util/controlled_pods_indexer.go\<close>).  For a deployment the lookup goes
  through its replica sets, whose deletion is postponed until no pod refers to them.  The stores
  (\<^verbatim>\<open>cache.Indexer\<close> of client-go) are a parameter with a contract.  The informers update the store of pods
  and call the handlers later, from goroutines of their own; this is a step relation.
\<close>

section \<open>Objects and stores\<close>

text \<open>What the code reads of an object's metadata; the controller is its UID and kind.\<close>

record ApiObject =
  ao_Key :: string
  ao_UID :: string
  ao_Kind :: string
  ao_Controller :: "(string \<times> string) option"

text \<open>What an informer hands to a handler; \<open>Tombstone\<close> is \<^verbatim>\<open>cache.DeletedFinalStateUnknown\<close> with its key.\<close>

datatype notified = Obj ApiObject | Tombstone string

record 's indexer =
  ix_Add :: "ApiObject \<Rightarrow> 's \<Rightarrow> goerr + 's"
  ix_Delete :: "ApiObject \<Rightarrow> 's \<Rightarrow> goerr + 's"
  ix_GetByKey :: "string \<Rightarrow> 's \<Rightarrow> goerr + ApiObject option"
  ix_ByIndex :: "string \<Rightarrow> 's \<Rightarrow> goerr + ApiObject list"

record ('p, 's) ControlledPodsIndexer =
  cp_podsIndexer :: 'p
  cp_rsIndexer :: 's
  cp_rsPendingDeletion :: "string set"

text \<open>The operations of the two stores, pods by their name and replica sets by their UID.\<close>

record ('p, 's) stores =
  st_pods :: "'p indexer"
  st_rs :: "'s indexer"

definition getControllerInfo :: "notified \<Rightarrow> string \<times> string" where
  "getControllerInfo obj =
     (case obj of
        Tombstone _ \<Rightarrow> ([], [])
      | Obj ob \<Rightarrow> (case ao_Controller ob of None \<Rightarrow> ([], []) | Some (uid, kind) \<Rightarrow> (uid, kind)))"

definition getObjUID :: "notified \<Rightarrow> string" where
  "getObjUID obj = (case obj of Tombstone _ \<Rightarrow> [] | Obj ob \<Rightarrow> ao_UID ob)"

definition deletionHandlingUIDKeyFunc :: "notified \<Rightarrow> string" where
  "deletionHandlingUIDKeyFunc obj = (case obj of Tombstone key \<Rightarrow> key | Obj ob \<Rightarrow> getObjUID obj)"

definition controllerUIDIndexFunc :: "notified \<Rightarrow> goerr + string list" where
  "controllerUIDIndexFunc obj =
     (case obj of
        Tombstone _ \<Rightarrow> Inl (Errorf ''object has no meta: object does not implement the Object interfaces'' [])
      | Obj ob \<Rightarrow> Inr (case ao_Controller ob of None \<Rightarrow> [] | Some (uid, _) \<Rightarrow> [uid]))"

section \<open>Lookups\<close>

definition appendPodsControlledBy ::
  "('p, 's) stores \<Rightarrow> ('p, 's) ControlledPodsIndexer \<Rightarrow> ApiObject list \<Rightarrow> string \<Rightarrow> goerr + ApiObject list" where
  "appendPodsControlledBy ix p res uid =
     (case ix_ByIndex (st_pods ix) uid (cp_podsIndexer p) of
        Inl err \<Rightarrow> Inl (Errorf (''method ByIndex failed: '' @ err_msg err) [err])
      | Inr objs \<Rightarrow> Inr (res @ objs))"

fun append_loop ::
  "('p, 's) stores \<Rightarrow> ('p, 's) ControlledPodsIndexer \<Rightarrow> string list \<Rightarrow> ApiObject list \<Rightarrow> goerr + ApiObject list" where
  "append_loop ix p [] res = Inr res"
| "append_loop ix p (podOwner # owners) res =
     (case appendPodsControlledBy ix p res podOwner of
        Inl err \<Rightarrow> Inl (Errorf (''failed to get pods controlled by '' @ podOwner @ '': '' @ err_msg err) [err])
      | Inr res \<Rightarrow> append_loop ix p owners res)"

definition PodsControlledBy ::
  "('p, 's) stores \<Rightarrow> ('p, 's) ControlledPodsIndexer \<Rightarrow> ApiObject \<Rightarrow> goerr + ApiObject list" where
  "PodsControlledBy ix p obj =
     (if ao_Kind obj = ''Deployment'' then
        (case ix_ByIndex (st_rs ix) (ao_UID obj) (cp_rsIndexer p) of
           Inl err \<Rightarrow>
             Inl (Errorf (''failed to get replicasets controlled by '' @ ao_UID obj @ '': '' @ err_msg err) [err])
         | Inr replicaSets \<Rightarrow> append_loop ix p (map ao_UID replicaSets) [])
      else append_loop ix p [ao_UID obj] [])"

section \<open>Handlers\<close>

definition clearRSDataIfPossibleLocked ::
  "('p, 's) stores \<Rightarrow> string \<Rightarrow> ('p, 's) ControlledPodsIndexer \<Rightarrow> goerr option \<times> ('p, 's) ControlledPodsIndexer" where
  "clearRSDataIfPossibleLocked ix rsUID p =
     (if rsUID \<notin> cp_rsPendingDeletion p then (None, p)
      else
        (case appendPodsControlledBy ix p [] rsUID of
           Inl err \<Rightarrow> (Some (Errorf (''failed to list pods for '' @ CHR 0x22 # rsUID @ CHR 0x22 # '': '' @ err_msg err) [err]), p)
         | Inr pods \<Rightarrow>
             if length pods \<noteq> 0 then (None, p)
             else
               let p = p\<lparr>cp_rsPendingDeletion := cp_rsPendingDeletion p - {rsUID}\<rparr>
               in (case ix_GetByKey (st_rs ix) rsUID (cp_rsIndexer p) of
                     Inl err \<Rightarrow> (Some err, p)
                   | Inr None \<Rightarrow> (None, p)
                   | Inr (Some obj) \<Rightarrow>
                       (case ix_Delete (st_rs ix) obj (cp_rsIndexer p) of
                          Inl err \<Rightarrow> (Some err, p)
                        | Inr rs \<Rightarrow> (None, p\<lparr>cp_rsIndexer := rs\<rparr>)))))"

text \<open>The handlers log errors and return nothing.\<close>

definition pods_UpdateFunc :: "('p, 's) stores \<Rightarrow> notified \<Rightarrow> notified \<Rightarrow> ('p, 's) ControlledPodsIndexer \<Rightarrow> ('p, 's) ControlledPodsIndexer" where
  "pods_UpdateFunc ix oldObj newObj p =
     (let oldOwnerUID = fst (getControllerInfo oldObj); newOwnerUID = fst (getControllerInfo newObj)
      in if oldOwnerUID = newOwnerUID then p else snd (clearRSDataIfPossibleLocked ix oldOwnerUID p))"

definition pods_DeleteFunc :: "('p, 's) stores \<Rightarrow> notified \<Rightarrow> ('p, 's) ControlledPodsIndexer \<Rightarrow> ('p, 's) ControlledPodsIndexer" where
  "pods_DeleteFunc ix obj p = snd (clearRSDataIfPossibleLocked ix (fst (getControllerInfo obj)) p)"

definition rs_AddFunc :: "('p, 's) stores \<Rightarrow> ApiObject \<Rightarrow> ('p, 's) ControlledPodsIndexer \<Rightarrow> ('p, 's) ControlledPodsIndexer" where
  "rs_AddFunc ix obj p =
     (case ix_Add (st_rs ix) obj (cp_rsIndexer p) of Inl _ \<Rightarrow> p | Inr rs \<Rightarrow> p\<lparr>cp_rsIndexer := rs\<rparr>)"

text \<open>\<^verbatim>\<open>Update\<close> of an indexer is its \<^verbatim>\<open>Add\<close>.\<close>

definition rs_UpdateFunc :: "('p, 's) stores \<Rightarrow> ApiObject \<Rightarrow> ('p, 's) ControlledPodsIndexer \<Rightarrow> ('p, 's) ControlledPodsIndexer" where
  "rs_UpdateFunc ix newObj p = rs_AddFunc ix newObj p"

definition rs_DeleteFunc :: "('p, 's) stores \<Rightarrow> notified \<Rightarrow> ('p, 's) ControlledPodsIndexer \<Rightarrow> ('p, 's) ControlledPodsIndexer" where
  "rs_DeleteFunc ix obj p =
     (let rsUID = getObjUID obj
      in snd (clearRSDataIfPossibleLocked ix rsUID
                (p\<lparr>cp_rsPendingDeletion := insert rsUID (cp_rsPendingDeletion p)\<rparr>)))"

section \<open>The contract of a store\<close>

text \<open>
  \<open>content s\<close> is the table of a store by the key function \<open>kf\<close>.  No operation fails; the index finds
  exactly the objects whose controller has the UID.
\<close>

definition controlled_by :: "ApiObject \<Rightarrow> string \<Rightarrow> bool" where
  "controlled_by ob uid \<longleftrightarrow> (\<exists>kind. ao_Controller ob = Some (uid, kind))"

definition indexer_ok :: "'s indexer \<Rightarrow> (ApiObject \<Rightarrow> string) \<Rightarrow> ('s \<Rightarrow> string \<rightharpoonup> ApiObject) \<Rightarrow> bool" where
  "indexer_ok ix kf content \<longleftrightarrow>
     (\<forall>ob s. \<exists>s'. ix_Add ix ob s = Inr s' \<and> content s' = (content s)(kf ob \<mapsto> ob)) \<and>
     (\<forall>ob s. \<exists>s'. ix_Delete ix ob s = Inr s' \<and> content s' = (content s)(kf ob := None)) \<and>
     (\<forall>k s. ix_GetByKey ix k s = Inr (content s k)) \<and>
     (\<forall>uid s. \<exists>xs. ix_ByIndex ix uid s = Inr xs \<and>
        set xs = {ob \<in> ran (content s). controlled_by ob uid})"

text \<open>The contract of both stores.\<close>

definition stores_ok ::
  "('p, 's) stores \<Rightarrow> ('p \<Rightarrow> string \<rightharpoonup> ApiObject) \<Rightarrow> ('s \<Rightarrow> string \<rightharpoonup> ApiObject) \<Rightarrow> bool" where
  "stores_ok ix cp cr \<longleftrightarrow> indexer_ok (st_pods ix) ao_Key cp \<and> indexer_ok (st_rs ix) ao_UID cr"

section \<open>What lookups answer\<close>

lemma appendPodsControlledBy_ok:
  assumes "stores_ok ix cp cr"
  shows "\<exists>xs. appendPodsControlledBy ix p res uid = Inr (res @ xs) \<and>
    set xs = {ob \<in> ran (cp (cp_podsIndexer p)). controlled_by ob uid}"
proof -
  obtain xs where "ix_ByIndex (st_pods ix) uid (cp_podsIndexer p) = Inr xs"
    "set xs = {ob \<in> ran (cp (cp_podsIndexer p)). controlled_by ob uid}"
    using assms unfolding stores_ok_def indexer_ok_def by meson
  then show ?thesis by (simp add: appendPodsControlledBy_def)
qed

lemma append_loop_ok:
  assumes "stores_ok ix cp cr"
  shows "\<exists>ys. append_loop ix p owners res = Inr ys \<and>
    set ys = set res \<union> {ob \<in> ran (cp (cp_podsIndexer p)). \<exists>uid \<in> set owners. controlled_by ob uid}"
proof (induction owners arbitrary: res)
  case (Cons u owners)
  obtain xs where xs: "appendPodsControlledBy ix p res u = Inr (res @ xs)"
    "set xs = {ob \<in> ran (cp (cp_podsIndexer p)). controlled_by ob u}"
    using appendPodsControlledBy_ok[OF assms] by blast
  from Cons.IH[of "res @ xs"] xs show ?case by auto
qed simp

text \<open>
  Who controls a pod.  The lookup finds exactly the pods of the store that the object controls:
  directly, or for a deployment through one of the replica sets in the index.
\<close>

theorem PodsControlledBy_finds:
  assumes "stores_ok ix cp cr"
  shows "\<exists>pods. PodsControlledBy ix p obj = Inr pods \<and>
    set pods = {pod \<in> ran (cp (cp_podsIndexer p)).
      if ao_Kind obj = ''Deployment''
      then \<exists>rs \<in> ran (cr (cp_rsIndexer p)). controlled_by rs (ao_UID obj) \<and> controlled_by pod (ao_UID rs)
      else controlled_by pod (ao_UID obj)}"
proof (cases "ao_Kind obj = ''Deployment''")
  case True
  obtain rss where rss: "ix_ByIndex (st_rs ix) (ao_UID obj) (cp_rsIndexer p) = Inr rss"
    "set rss = {ob \<in> ran (cr (cp_rsIndexer p)). controlled_by ob (ao_UID obj)}"
    using assms unfolding stores_ok_def indexer_ok_def by meson
  from append_loop_ok[OF assms, of p "map ao_UID rss" "[]"] rss True show ?thesis
    by (auto simp: PodsControlledBy_def)
next
  case False
  with append_loop_ok[OF assms, of p "[ao_UID obj]" "[]"] show ?thesis
    by (auto simp: PodsControlledBy_def)
qed

section \<open>Clearing\<close>

definition has_pod :: "('p \<Rightarrow> string \<rightharpoonup> ApiObject) \<Rightarrow> ('p, 's) ControlledPodsIndexer \<Rightarrow> string \<Rightarrow> bool" where
  "has_pod cp p uid \<longleftrightarrow> (\<exists>pod \<in> ran (cp (cp_podsIndexer p)). controlled_by pod uid)"

definition keyed :: "(string \<rightharpoonup> ApiObject) \<Rightarrow> bool" where
  "keyed m \<longleftrightarrow> (\<forall>k ob. m k = Some ob \<longrightarrow> ao_UID ob = k)"

text \<open>What clearing does: a pending replica set goes, with its entry, exactly when no pod refers to it.\<close>

lemma clear_effect:
  assumes ok: "stores_ok ix cp cr" and k: "keyed (cr (cp_rsIndexer p))"
    and c: "clearRSDataIfPossibleLocked ix u p = (err, p')"
  shows "err = None" "cp_podsIndexer p' = cp_podsIndexer p"
    and "cp_rsPendingDeletion p' = (if has_pod cp p u then cp_rsPendingDeletion p else cp_rsPendingDeletion p - {u})"
    and "cr (cp_rsIndexer p') =
      (if u \<in> cp_rsPendingDeletion p \<and> \<not> has_pod cp p u then (cr (cp_rsIndexer p))(u := None) else cr (cp_rsIndexer p))"
proof -
  obtain xs where xs: "appendPodsControlledBy ix p [] u = Inr xs"
    "set xs = {ob \<in> ran (cp (cp_podsIndexer p)). controlled_by ob u}"
    using appendPodsControlledBy_ok[OF ok, of p "[]" u] by auto
  have "has_pod cp p u \<longleftrightarrow> set xs \<noteq> {}" unfolding xs(2) by (auto simp: has_pod_def)
  then have hp: "has_pod cp p u \<longleftrightarrow> xs \<noteq> []" by simp
  have get: "ix_GetByKey (st_rs ix) u (cp_rsIndexer p) = Inr (cr (cp_rsIndexer p) u)"
    using ok by (simp add: stores_ok_def indexer_ok_def)
  have del: "\<exists>s'. ix_Delete (st_rs ix) ob (cp_rsIndexer p) = Inr s' \<and> cr s' = (cr (cp_rsIndexer p))(ao_UID ob := None)" for ob
    using ok unfolding stores_ok_def indexer_ok_def by blast
  have "err = None \<and> cp_podsIndexer p' = cp_podsIndexer p \<and>
    cp_rsPendingDeletion p' = (if has_pod cp p u then cp_rsPendingDeletion p else cp_rsPendingDeletion p - {u}) \<and>
    cr (cp_rsIndexer p') =
      (if u \<in> cp_rsPendingDeletion p \<and> \<not> has_pod cp p u then (cr (cp_rsIndexer p))(u := None) else cr (cp_rsIndexer p))"
  proof (cases "cr (cp_rsIndexer p) u")
    case None
    then have "(cr (cp_rsIndexer p))(u := None) = cr (cp_rsIndexer p)" by (simp add: fun_upd_idem)
    with None c xs(1) get show ?thesis
      by (auto simp: clearRSDataIfPossibleLocked_def hp Let_def split: if_splits)
  next
    case (Some ob)
    then have "ao_UID ob = u" using k by (simp add: keyed_def)
    with Some c xs(1) get del[of ob] show ?thesis
      by (auto simp: clearRSDataIfPossibleLocked_def hp Let_def split: if_splits)
  qed
  then show "err = None" "cp_podsIndexer p' = cp_podsIndexer p"
    "cp_rsPendingDeletion p' = (if has_pod cp p u then cp_rsPendingDeletion p else cp_rsPendingDeletion p - {u})"
    "cr (cp_rsIndexer p') =
      (if u \<in> cp_rsPendingDeletion p \<and> \<not> has_pod cp p u then (cr (cp_rsIndexer p))(u := None) else cr (cp_rsIndexer p))"
    by blast+
qed

text \<open>
  A tombstone leaks its replica set.  When the informer missed the deletion of a replica set and
  delivers the final state unknown, the handler reads the empty UID from it: the index keeps the
  entry of the replica set, and nothing is pending that would remove it.
\<close>

theorem tombstone_leaks_replicaset:
  assumes "stores_ok ix cp cr" and "keyed (cr (cp_rsIndexer p))" and "u \<noteq> []"
    and "cr (cp_rsIndexer p) u = Some rs" and "u \<notin> cp_rsPendingDeletion p"
  shows "cr (cp_rsIndexer (rs_DeleteFunc ix (Tombstone u) p)) u = Some rs
    \<and> u \<notin> cp_rsPendingDeletion (rs_DeleteFunc ix (Tombstone u) p)"
proof -
  let ?p = "p\<lparr>cp_rsPendingDeletion := insert [] (cp_rsPendingDeletion p)\<rparr>"
  obtain err p' where c: "clearRSDataIfPossibleLocked ix [] ?p = (err, p')" by fastforce
  moreover have "keyed (cr (cp_rsIndexer ?p))" using assms(2) by simp
  ultimately show ?thesis
    using clear_effect(3,4)[OF assms(1) _ c] assms(3-5)
    by (auto simp: rs_DeleteFunc_def getObjUID_def Let_def split: if_splits)
qed

section \<open>The informers\<close>

datatype pod_note = PodAdded ApiObject | PodUpdated ApiObject ApiObject | PodDeleted ApiObject
datatype rs_note = RsAdded ApiObject | RsUpdated ApiObject | RsDeleted ApiObject

text \<open>
  A state: the indexer, the notifications that wait for their handler, and the replica sets that live
  and those that were deleted, as far as the handlers know.
\<close>

record ('p, 's) isys =
  sy_cpi :: "('p, 's) ControlledPodsIndexer"
  sy_podq :: "pod_note list"
  sy_rsq :: "rs_note list"
  sy_live :: "string set"
  sy_dead :: "string set"

fun handle_pod :: "('p, 's) stores \<Rightarrow> pod_note \<Rightarrow> ('p, 's) ControlledPodsIndexer \<Rightarrow> ('p, 's) ControlledPodsIndexer" where
  "handle_pod ix (PodAdded ob) p = p"
| "handle_pod ix (PodUpdated old new) p = pods_UpdateFunc ix (Obj old) (Obj new) p"
| "handle_pod ix (PodDeleted ob) p = pods_DeleteFunc ix (Obj ob) p"

fun handle_rs :: "('p, 's) stores \<Rightarrow> rs_note \<Rightarrow> ('p, 's) ControlledPodsIndexer \<Rightarrow> ('p, 's) ControlledPodsIndexer" where
  "handle_rs ix (RsAdded ob) p = rs_AddFunc ix ob p"
| "handle_rs ix (RsUpdated ob) p = rs_UpdateFunc ix ob p"
| "handle_rs ix (RsDeleted ob) p = rs_DeleteFunc ix (Obj ob) p"

text \<open>
  The life of a replica set: added once, with a UID that is not empty and was never used before, then
  updated, then deleted.
\<close>

fun rs_apply :: "rs_note \<Rightarrow> string set \<times> string set \<Rightarrow> string set \<times> string set" where
  "rs_apply (RsAdded ob) (live, dead) = (insert (ao_UID ob) live, dead)"
| "rs_apply (RsUpdated ob) (live, dead) = (live, dead)"
| "rs_apply (RsDeleted ob) (live, dead) = (live - {ao_UID ob}, insert (ao_UID ob) dead)"

fun rs_possible :: "rs_note \<Rightarrow> string set \<times> string set \<Rightarrow> bool" where
  "rs_possible (RsAdded ob) (live, dead) = (ao_UID ob \<noteq> [] \<and> ao_UID ob \<notin> live \<union> dead)"
| "rs_possible (RsUpdated ob) (live, dead) = (ao_UID ob \<in> live)"
| "rs_possible (RsDeleted ob) (live, dead) = (ao_UID ob \<in> live)"

fun rs_history :: "rs_note list \<Rightarrow> string set \<times> string set \<Rightarrow> bool" where
  "rs_history [] st = True"
| "rs_history (n # ns) st = (rs_possible n st \<and> rs_history ns (rs_apply n st))"

lemma rs_history_append:
  "rs_history (ns @ [n]) st \<longleftrightarrow> rs_history ns st \<and> rs_possible n (fold rs_apply ns st)"
  by (induction ns arbitrary: st) auto

definition set_pods :: "'p \<Rightarrow> ('p, 's) isys \<Rightarrow> ('p, 's) isys" where
  "set_pods pods s = s\<lparr>sy_cpi := (sy_cpi s)\<lparr>cp_podsIndexer := pods\<rparr>\<rparr>"

inductive informer_step ::
  "('p, 's) stores \<Rightarrow> ('p \<Rightarrow> string \<rightharpoonup> ApiObject) \<Rightarrow> ('p, 's) isys \<Rightarrow> ('p, 's) isys \<Rightarrow> bool"
  for ix cp where
  pod_added: "cp (cp_podsIndexer (sy_cpi s)) (ao_Key ob) = None \<Longrightarrow>
    ix_Add (st_pods ix) ob (cp_podsIndexer (sy_cpi s)) = Inr pods \<Longrightarrow>
    informer_step ix cp s ((set_pods pods s)\<lparr>sy_podq := sy_podq s @ [PodAdded ob]\<rparr>)"
| pod_updated: "cp (cp_podsIndexer (sy_cpi s)) (ao_Key new) = Some old \<Longrightarrow>
    ix_Add (st_pods ix) new (cp_podsIndexer (sy_cpi s)) = Inr pods \<Longrightarrow>
    informer_step ix cp s ((set_pods pods s)\<lparr>sy_podq := sy_podq s @ [PodUpdated old new]\<rparr>)"
| pod_deleted: "cp (cp_podsIndexer (sy_cpi s)) (ao_Key ob) = Some ob \<Longrightarrow>
    ix_Delete (st_pods ix) ob (cp_podsIndexer (sy_cpi s)) = Inr pods \<Longrightarrow>
    informer_step ix cp s ((set_pods pods s)\<lparr>sy_podq := sy_podq s @ [PodDeleted ob]\<rparr>)"
| pod_handled: "sy_podq s = n # q \<Longrightarrow>
    informer_step ix cp s (s\<lparr>sy_cpi := handle_pod ix n (sy_cpi s), sy_podq := q\<rparr>)"
| rs_notified: "rs_possible n (fold rs_apply (sy_rsq s) (sy_live s, sy_dead s)) \<Longrightarrow>
    informer_step ix cp s (s\<lparr>sy_rsq := sy_rsq s @ [n]\<rparr>)"
| rs_handled: "sy_rsq s = n # q \<Longrightarrow> rs_apply n (sy_live s, sy_dead s) = (live, dead) \<Longrightarrow>
    informer_step ix cp s
      (s\<lparr>sy_cpi := handle_rs ix n (sy_cpi s), sy_rsq := q, sy_live := live, sy_dead := dead\<rparr>)"

section \<open>No replica set is leaked\<close>

text \<open>A notification whose handler will clear \<open>u\<close>.\<close>

fun frees :: "pod_note \<Rightarrow> string \<Rightarrow> bool" where
  "frees (PodAdded ob) u = False"
| "frees (PodUpdated old new) u = (controlled_by old u \<and> \<not> controlled_by new u)"
| "frees (PodDeleted ob) u = controlled_by ob u"

definition isys_inv ::
  "('p \<Rightarrow> string \<rightharpoonup> ApiObject) \<Rightarrow> ('s \<Rightarrow> string \<rightharpoonup> ApiObject) \<Rightarrow> ('p, 's) isys \<Rightarrow> bool" where
  "isys_inv cp cr s \<longleftrightarrow>
     (let p = sy_cpi s in
      keyed (cr (cp_rsIndexer p)) \<and> rs_history (sy_rsq s) (sy_live s, sy_dead s) \<and>
      sy_live s \<inter> sy_dead s = {} \<and> [] \<notin> sy_live s \<union> sy_dead s \<and>
      cp_rsPendingDeletion p \<subseteq> sy_dead s \<and>
      dom (cr (cp_rsIndexer p)) = sy_live s \<union> cp_rsPendingDeletion p \<and>
      (\<forall>u \<in> cp_rsPendingDeletion p. has_pod cp p u \<or> (\<exists>n \<in> set (sy_podq s). frees n u)))"

text \<open>Clearing \<open>u\<close> keeps what is known about the index, and settles \<open>u\<close>.\<close>

lemma clear_inv:
  assumes ok: "stores_ok ix cp cr" and k: "keyed (cr (cp_rsIndexer p))"
    and dom: "dom (cr (cp_rsIndexer p)) = live \<union> cp_rsPendingDeletion p" and u: "u \<notin> live"
    and c: "clearRSDataIfPossibleLocked ix u p = (err, p')"
  shows "keyed (cr (cp_rsIndexer p'))" "dom (cr (cp_rsIndexer p')) = live \<union> cp_rsPendingDeletion p'"
    and "cp_rsPendingDeletion p' \<subseteq> cp_rsPendingDeletion p" "has_pod cp p' = has_pod cp p"
    and "u \<in> cp_rsPendingDeletion p' \<Longrightarrow> has_pod cp p' u"
proof -
  note e = clear_effect[OF ok k c]
  show "keyed (cr (cp_rsIndexer p'))" using k by (simp add: e(4) keyed_def)
  show "dom (cr (cp_rsIndexer p')) = live \<union> cp_rsPendingDeletion p'"
    unfolding e(3,4) using dom u by auto
  show "cp_rsPendingDeletion p' \<subseteq> cp_rsPendingDeletion p" by (simp add: e(3) Diff_subset)
  show has: "has_pod cp p' = has_pod cp p" by (simp add: fun_eq_iff has_pod_def e(2))
  show "u \<in> cp_rsPendingDeletion p' \<Longrightarrow> has_pod cp p' u" by (simp add: has e(3) split: if_splits)
qed

text \<open>The handler of a pod's notification.\<close>

lemma controller_uid: "controlled_by ob u \<Longrightarrow> fst (getControllerInfo (Obj ob)) = u"
  by (auto simp: controlled_by_def getControllerInfo_def)

lemma controller_uid_other: "\<not> controlled_by ob u \<Longrightarrow> u \<noteq> [] \<Longrightarrow> fst (getControllerInfo (Obj ob)) \<noteq> u"
  by (auto simp: controlled_by_def getControllerInfo_def split: option.splits)

lemma handle_pod_clears:
  "(\<exists>v. handle_pod ix n p = snd (clearRSDataIfPossibleLocked ix v p)) \<or> handle_pod ix n p = p"
  "frees n u \<Longrightarrow> u \<noteq> [] \<Longrightarrow> handle_pod ix n p = snd (clearRSDataIfPossibleLocked ix u p)"
  by (cases n; auto simp: pods_UpdateFunc_def pods_DeleteFunc_def controller_uid Let_def)
     (cases n; auto simp: pods_UpdateFunc_def pods_DeleteFunc_def controller_uid Let_def dest: controller_uid_other)

text \<open>
  One lemma for both ways the indexer changes under its lock: clearing any \<open>v\<close> that does not live keeps
  the invariant, given that the notifications left over free what is pending.
\<close>

lemma inv_clear:
  assumes ok: "stores_ok ix cp cr" and inv: "isys_inv cp cr s"
    and p': "p' = snd (clearRSDataIfPossibleLocked ix v (sy_cpi s))"
    and q: "\<And>u. u \<in> cp_rsPendingDeletion p' \<Longrightarrow> has_pod cp p' u \<or> (\<exists>n \<in> set q. frees n u)"
  shows "isys_inv cp cr (s\<lparr>sy_cpi := p', sy_podq := q\<rparr>)"
proof -
  let ?p = "sy_cpi s"
  have k: "keyed (cr (cp_rsIndexer ?p))" and dom: "dom (cr (cp_rsIndexer ?p)) = sy_live s \<union> cp_rsPendingDeletion ?p"
    and pend: "cp_rsPendingDeletion ?p \<subseteq> sy_dead s" and disj: "sy_live s \<inter> sy_dead s = {}"
    using inv by (simp_all add: isys_inv_def Let_def)
  obtain err where c: "clearRSDataIfPossibleLocked ix v ?p = (err, p')" using p' by (metis prod.collapse)
  show ?thesis
  proof (cases "v \<in> sy_live s")
    case True
    then have "v \<notin> cp_rsPendingDeletion ?p" using pend disj by blast
    then have "p' = ?p" using c by (simp add: clearRSDataIfPossibleLocked_def)
    with inv q show ?thesis by (simp add: isys_inv_def Let_def)
  next
    case False
    note i = clear_inv[OF ok k dom False c]
    from i(1-3) inv q pend show ?thesis by (auto simp: isys_inv_def Let_def)
  qed
qed

lemma has_pod_set_pods:
  assumes "cp pods = m" "\<And>ob. ob \<in> ran (cp (cp_podsIndexer (sy_cpi s))) \<Longrightarrow> controlled_by ob u \<Longrightarrow> ob \<in> ran m"
  shows "has_pod cp (sy_cpi s) u \<Longrightarrow> has_pod cp (sy_cpi (set_pods pods s)) u"
  using assms by (auto simp: has_pod_def set_pods_def)

lemma inv_set_pods:
  assumes inv: "isys_inv cp cr s"
    and "\<And>u. has_pod cp (sy_cpi s) u \<Longrightarrow> has_pod cp (sy_cpi (set_pods pods s)) u \<or> frees n u"
  shows "isys_inv cp cr ((set_pods pods s)\<lparr>sy_podq := sy_podq s @ [n]\<rparr>)"
  using assms by (fastforce simp: isys_inv_def set_pods_def Let_def)

lemma inv_pod_handled:
  assumes ok: "stores_ok ix cp cr" and inv: "isys_inv cp cr s" and q: "sy_podq s = n # q"
  shows "isys_inv cp cr (s\<lparr>sy_cpi := handle_pod ix n (sy_cpi s), sy_podq := q\<rparr>)"
proof -
  let ?p = "sy_cpi s"
  have k: "keyed (cr (cp_rsIndexer ?p))" and ne: "\<And>u. u \<in> cp_rsPendingDeletion ?p \<Longrightarrow> u \<noteq> []"
    and wait: "\<And>u. u \<in> cp_rsPendingDeletion ?p \<Longrightarrow> has_pod cp ?p u \<or> frees n u \<or> (\<exists>n \<in> set q. frees n u)"
    using inv q by (auto simp: isys_inv_def Let_def)
  have eff: "cp_rsPendingDeletion p' \<subseteq> cp_rsPendingDeletion ?p" "has_pod cp p' = has_pod cp ?p"
      "v \<in> cp_rsPendingDeletion p' \<Longrightarrow> has_pod cp p' v"
    if h: "p' = snd (clearRSDataIfPossibleLocked ix v ?p)" for v p'
  proof -
    obtain err where c: "clearRSDataIfPossibleLocked ix v ?p = (err, p')" using h by (metis prod.collapse)
    note e = clear_effect[OF ok k c]
    show "cp_rsPendingDeletion p' \<subseteq> cp_rsPendingDeletion ?p" by (simp add: e(3) Diff_subset)
    show hp: "has_pod cp p' = has_pod cp ?p" by (simp add: fun_eq_iff has_pod_def e(2))
    show "v \<in> cp_rsPendingDeletion p' \<Longrightarrow> has_pod cp p' v" by (simp add: hp e(3) split: if_splits)
  qed
  show ?thesis
  proof (cases "\<exists>v. handle_pod ix n ?p = snd (clearRSDataIfPossibleLocked ix v ?p)")
    case True
    then obtain v where v: "handle_pod ix n ?p = snd (clearRSDataIfPossibleLocked ix v ?p)" ..
    show ?thesis
    proof (rule inv_clear[OF ok inv v])
      fix u assume u: "u \<in> cp_rsPendingDeletion (handle_pod ix n ?p)"
      then have "u \<in> cp_rsPendingDeletion ?p" using eff(1)[OF v] by blast
      then have "has_pod cp ?p u \<or> (\<exists>n \<in> set q. frees n u) \<or>
          handle_pod ix n ?p = snd (clearRSDataIfPossibleLocked ix u ?p)"
        using wait ne handle_pod_clears(2)[of n u] by blast
      then show "has_pod cp (handle_pod ix n ?p) u \<or> (\<exists>n \<in> set q. frees n u)"
        using eff(2)[OF v] eff(3)[of _ u] u by auto
    qed
  next
    case False
    then have same: "handle_pod ix n ?p = ?p" and "\<And>u. frees n u \<Longrightarrow> u = []"
      using handle_pod_clears(1)[of ix n ?p] handle_pod_clears(2)[of n _ ix ?p] by blast+
    then have "\<And>u. u \<in> cp_rsPendingDeletion ?p \<Longrightarrow> has_pod cp ?p u \<or> (\<exists>n \<in> set q. frees n u)"
      using wait ne by blast
    then show ?thesis using inv by (simp add: same isys_inv_def Let_def)
  qed
qed

lemma rs_AddFunc_effect:
  assumes "stores_ok ix cp cr"
  shows "cr (cp_rsIndexer (rs_AddFunc ix ob p)) = (cr (cp_rsIndexer p))(ao_UID ob \<mapsto> ob)"
    "cp_rsPendingDeletion (rs_AddFunc ix ob p) = cp_rsPendingDeletion p" "has_pod cp (rs_AddFunc ix ob p) = has_pod cp p"
proof -
  obtain s' where s': "ix_Add (st_rs ix) ob (cp_rsIndexer p) = Inr s'" "cr s' = (cr (cp_rsIndexer p))(ao_UID ob \<mapsto> ob)"
    using assms unfolding stores_ok_def indexer_ok_def by meson
  then show "cr (cp_rsIndexer (rs_AddFunc ix ob p)) = (cr (cp_rsIndexer p))(ao_UID ob \<mapsto> ob)"
    "cp_rsPendingDeletion (rs_AddFunc ix ob p) = cp_rsPendingDeletion p" "has_pod cp (rs_AddFunc ix ob p) = has_pod cp p"
    by (simp_all add: rs_AddFunc_def has_pod_def fun_eq_iff)
qed

lemma inv_rs_handled:
  assumes ok: "stores_ok ix cp cr" and inv: "isys_inv cp cr s" and q: "sy_rsq s = n # q"
    and ap: "rs_apply n (sy_live s, sy_dead s) = (live, dead)"
  shows "isys_inv cp cr (s\<lparr>sy_cpi := handle_rs ix n (sy_cpi s), sy_rsq := q, sy_live := live, sy_dead := dead\<rparr>)"
proof (cases n)
  case (RsAdded ob)
  with inv q ap show ?thesis
    by (auto simp: isys_inv_def rs_AddFunc_effect[OF ok] keyed_def Let_def)
next
  case (RsUpdated ob)
  with inv q ap show ?thesis
    by (auto simp: isys_inv_def rs_UpdateFunc_def rs_AddFunc_effect[OF ok] keyed_def Let_def)
next
  case (RsDeleted ob)
  let ?u = "ao_UID ob" and ?p = "(sy_cpi s)\<lparr>cp_rsPendingDeletion := insert (ao_UID ob) (cp_rsPendingDeletion (sy_cpi s))\<rparr>"
  obtain err p' where c: "clearRSDataIfPossibleLocked ix ?u ?p = (err, p')" by fastforce
  have k: "keyed (cr (cp_rsIndexer ?p))" and u: "?u \<in> sy_live s"
    and dom: "dom (cr (cp_rsIndexer ?p)) = (sy_live s - {?u}) \<union> cp_rsPendingDeletion ?p"
    using inv q RsDeleted by (auto simp: isys_inv_def Let_def)
  have nl: "?u \<notin> sy_live s - {?u}" by simp
  note i = clear_inv[OF ok k dom nl c]
  have p': "handle_rs ix n (sy_cpi s) = p'"
    using RsDeleted c by (simp add: rs_DeleteFunc_def getObjUID_def)
  have "has_pod cp ?p = has_pod cp (sy_cpi s)" by (simp add: has_pod_def fun_eq_iff)
  then have wait: "has_pod cp p' v \<or> (\<exists>n \<in> set (sy_podq s). frees n v)" if "v \<in> cp_rsPendingDeletion p'" for v
    using inv i(3-5) that by (cases "v = ?u") (auto simp: isys_inv_def Let_def)
  have pend: "cp_rsPendingDeletion p' \<subseteq> insert ?u (cp_rsPendingDeletion (sy_cpi s))" using i(3) by simp
  have ld: "live = sy_live s - {?u}" "dead = insert ?u (sy_dead s)" using ap RsDeleted by simp_all
  have "rs_history q (live, dead)" using inv q ap RsDeleted by (simp add: isys_inv_def Let_def)
  with i(1,2) wait pend inv u show ?thesis
    unfolding p' ld by (auto simp: isys_inv_def Let_def)
qed

lemma pods_Add_effect:
  assumes "stores_ok ix cp cr" "ix_Add (st_pods ix) ob s = Inr s'"
  shows "cp s' = (cp s)(ao_Key ob \<mapsto> ob)"
  using assms unfolding stores_ok_def indexer_ok_def by (metis sum.inject(2))

lemma pods_Delete_effect:
  assumes "stores_ok ix cp cr" "ix_Delete (st_pods ix) ob s = Inr s'"
  shows "cp s' = (cp s)(ao_Key ob := None)"
  using assms unfolding stores_ok_def indexer_ok_def by (metis sum.inject(2))

lemma ran_upd:
  assumes "x \<in> ran m" "m k = Some old"
  shows "x \<in> ran (m(k := v)) \<or> x = old"
proof -
  obtain a where a: "m a = Some x" using assms(1) by (auto simp: ran_def)
  show ?thesis
  proof (cases "a = k")
    case False
    then have "(m(k := v)) a = Some x" using a by simp
    then show ?thesis by (blast intro: ranI)
  qed (use a assms(2) in simp)
qed

lemma inv_step:
  assumes ok: "stores_ok ix cp cr"
  shows "informer_step ix cp s s' \<Longrightarrow> isys_inv cp cr s \<Longrightarrow> isys_inv cp cr s'"
proof (induction rule: informer_step.induct)
  case (pod_added s ob pods)
  have "cp pods = (cp (cp_podsIndexer (sy_cpi s)))(ao_Key ob \<mapsto> ob)"
    by (rule pods_Add_effect[OF ok pod_added(2)])
  then have "ran (cp (cp_podsIndexer (sy_cpi s))) \<subseteq> ran (cp pods)" using pod_added(1) by (metis ran_map_upd subset_insertI)
  then show ?case
    by (intro inv_set_pods[OF pod_added(3)] disjI1 has_pod_set_pods[OF refl]) auto
next
  case (pod_updated s new old pods)
  let ?m = "cp (cp_podsIndexer (sy_cpi s))"
  have m: "cp pods = ?m(ao_Key new \<mapsto> new)"
    by (rule pods_Add_effect[OF ok pod_updated(2)])
  have "ob \<in> ran (?m(ao_Key new \<mapsto> new)) \<or> ob = old" if "ob \<in> ran ?m" for ob
    using ran_upd[OF that pod_updated(1)] .
  moreover have "new \<in> ran (?m(ao_Key new \<mapsto> new))" by (auto simp: ran_def)
  ultimately show ?case
    using m by (intro inv_set_pods[OF pod_updated(3)]) (auto simp: has_pod_def set_pods_def)
next
  case (pod_deleted s ob pods)
  let ?m = "cp (cp_podsIndexer (sy_cpi s))"
  have m: "cp pods = ?m(ao_Key ob := None)"
    by (rule pods_Delete_effect[OF ok pod_deleted(2)])
  have "x \<in> ran (?m(ao_Key ob := None)) \<or> x = ob" if "x \<in> ran ?m" for x
    using ran_upd[OF that pod_deleted(1)] .
  then show ?case
    using m by (intro inv_set_pods[OF pod_deleted(3)]) (auto simp: has_pod_def set_pods_def)
next
  case (pod_handled s n q)
  then show ?case using inv_pod_handled[OF ok] by blast
next
  case (rs_notified n s)
  then show ?case by (simp add: isys_inv_def rs_history_append Let_def has_pod_def)
next
  case (rs_handled s n q live dead)
  then show ?case using inv_rs_handled[OF ok] by blast
qed

definition isys_start :: "'p \<Rightarrow> 's \<Rightarrow> ('p, 's) isys" where
  "isys_start pods rs =
     \<lparr>sy_cpi = \<lparr>cp_podsIndexer = pods, cp_rsIndexer = rs, cp_rsPendingDeletion = {}\<rparr>,
      sy_podq = [], sy_rsq = [], sy_live = {}, sy_dead = {}\<rparr>"

lemma inv_reachable:
  assumes "stores_ok ix cp cr" "cr rs = Map.empty" "(informer_step ix cp)\<^sup>*\<^sup>* (isys_start pods rs) s"
  shows "isys_inv cp cr s"
  using assms(3)
proof (induction rule: rtranclp_induct)
  case base
  show ?case using assms(2) by (simp add: isys_inv_def isys_start_def keyed_def Let_def)
next
  case (step y z)
  then show ?case using inv_step[OF assms(1)] by blast
qed


lemma clear_removes:
  assumes "stores_ok ix cp cr" "isys_inv cp cr s"
    "cr (cp_rsIndexer (snd (clearRSDataIfPossibleLocked ix v p))) u = None"
    "cp_podsIndexer p = cp_podsIndexer (sy_cpi s)" "cp_rsIndexer p = cp_rsIndexer (sy_cpi s)"
    "cr (cp_rsIndexer (sy_cpi s)) u \<noteq> None"
  shows "\<not> has_pod cp (sy_cpi s) u"
proof -
  have k: "keyed (cr (cp_rsIndexer p))" using assms(2,5) by (simp add: isys_inv_def Let_def)
  obtain err p' where c: "clearRSDataIfPossibleLocked ix v p = (err, p')" by fastforce
  from clear_effect(4)[OF assms(1) k c] assms(3-6) c show ?thesis
    by (auto simp: has_pod_def split: if_splits)
qed

text \<open>
  No lookup through a deployment loses a pod.  In every state that the informers can reach, a
  handler that removes a replica set from the index finds no pod of it in the store of pods.
\<close>

theorem removed_only_unused:
  assumes "stores_ok ix cp cr" and "cr rs = Map.empty"
    and "(informer_step ix cp)\<^sup>*\<^sup>* (isys_start pods rs) s" and "informer_step ix cp s s'"
    and "cr (cp_rsIndexer (sy_cpi s)) u \<noteq> None" and "cr (cp_rsIndexer (sy_cpi s')) u = None"
  shows "\<not> has_pod cp (sy_cpi s) u"
proof -
  have inv: "isys_inv cp cr s" by (rule inv_reachable[OF assms(1-3)])
  from assms(4) show ?thesis
  proof (cases rule: informer_step.cases)
    case (pod_handled n q)
    with assms(5,6) obtain v where "handle_pod ix n (sy_cpi s) = snd (clearRSDataIfPossibleLocked ix v (sy_cpi s))"
      using handle_pod_clears(1)[of ix n "sy_cpi s"] by auto
    with clear_removes[OF assms(1) inv _ refl refl assms(5)] assms(6) pod_handled show ?thesis by simp
  next
    case (rs_handled n q live dead)
    show ?thesis
    proof (cases n)
      case (RsDeleted ob)
      with rs_handled assms(6) have "cr (cp_rsIndexer (rs_DeleteFunc ix (Obj ob) (sy_cpi s))) u = None" by simp
      then show ?thesis
        unfolding rs_DeleteFunc_def Let_def
        by (rule clear_removes[OF assms(1) inv _ _ _ assms(5)]) simp_all
    qed (use rs_handled assms(5,6) in \<open>auto simp: rs_UpdateFunc_def rs_AddFunc_effect[OF assms(1)] split: if_splits\<close>)
  qed (use assms(5,6) in \<open>auto simp: set_pods_def\<close>)
qed

section \<open>A store that keeps the contract\<close>

definition has_controller :: "string \<Rightarrow> ApiObject \<Rightarrow> bool" where
  "has_controller uid ob = (case ao_Controller ob of None \<Rightarrow> False | Some (u, _) \<Rightarrow> u = uid)"

definition list_store :: "(ApiObject \<Rightarrow> string) \<Rightarrow> (string \<times> ApiObject) list indexer" where
  "list_store kf =
     \<lparr>ix_Add = \<lambda>ob s. Inr (AList.update (kf ob) ob s),
      ix_Delete = \<lambda>ob s. Inr (AList.delete (kf ob) s),
      ix_GetByKey = \<lambda>k s. Inr (map_of s k),
      ix_ByIndex = \<lambda>uid s. Inr (filter (has_controller uid) (map snd (AList.clearjunk s)))\<rparr>"

definition list_stores :: "((string \<times> ApiObject) list, (string \<times> ApiObject) list) stores" where
  "list_stores = \<lparr>st_pods = list_store ao_Key, st_rs = list_store ao_UID\<rparr>"

lemma ran_map_of_clearjunk: "ran (map_of s) = snd ` set (AList.clearjunk s)"
  using ran_distinct[OF distinct_clearjunk, of s] by (simp add: ran_clearjunk)

lemma list_store_ok: "indexer_ok (list_store kf) kf map_of"
  by (auto simp: indexer_ok_def list_store_def AList.update_conv' AList.delete_conv' ran_map_of_clearjunk
      has_controller_def controlled_by_def split: option.splits)

lemma list_stores_ok: "stores_ok list_stores map_of map_of"
  by (simp add: stores_ok_def list_stores_def list_store_ok)

definition pod1 :: ApiObject where
  "pod1 = \<lparr>ao_Key = ''ns/pod'', ao_UID = ''p'', ao_Kind = ''Pod'', ao_Controller = Some (''r'', ''ReplicaSet'')\<rparr>"

definition rs1 :: ApiObject where
  "rs1 = \<lparr>ao_Key = ''ns/rs'', ao_UID = ''r'', ao_Kind = ''ReplicaSet'', ao_Controller = Some (''d'', ''Deployment'')\<rparr>"

definition dep1 :: ApiObject where
  "dep1 = \<lparr>ao_Key = ''ns/dep'', ao_UID = ''d'', ao_Kind = ''Deployment'', ao_Controller = None\<rparr>"

definition cpi1 :: "((string \<times> ApiObject) list, (string \<times> ApiObject) list) ControlledPodsIndexer" where
  "cpi1 = \<lparr>cp_podsIndexer = [(''ns/pod'', pod1)], cp_rsIndexer = [(''r'', rs1)], cp_rsPendingDeletion = {}\<rparr>"

lemmas pod_index_examples = list_stores_def list_store_def pod1_def rs1_def dep1_def cpi1_def

theorem PodsControlledBy_finds_witness:
  "(\<exists>pods. PodsControlledBy list_stores cpi1 dep1 = Inr pods \<and> set pods = {pod1})"
  using PodsControlledBy_finds[OF list_stores_ok, of cpi1 dep1]
  by (simp add: cpi1_def rs1_def dep1_def pod1_def controlled_by_def ran_map_upd conj_commute cong: conj_cong)

theorem tombstone_leaks_replicaset_witness:
  "map_of (cp_rsIndexer (rs_DeleteFunc list_stores (Tombstone ''r'') cpi1)) ''r'' = Some rs1"
  using tombstone_leaks_replicaset[OF list_stores_ok, of cpi1 "''r''" rs1]
  by (simp add: cpi1_def rs1_def keyed_def)

text \<open>A run: a replica set appears, its notification is handled, and it is deleted.\<close>

definition run0 :: "((string \<times> ApiObject) list, (string \<times> ApiObject) list) isys" where
  "run0 = isys_start [] []"

definition run1 :: "((string \<times> ApiObject) list, (string \<times> ApiObject) list) isys" where
  "run1 = run0\<lparr>sy_rsq := sy_rsq run0 @ [RsAdded rs1]\<rparr>"

definition run2 :: "((string \<times> ApiObject) list, (string \<times> ApiObject) list) isys" where
  "run2 = run1\<lparr>sy_cpi := handle_rs list_stores (RsAdded rs1) (sy_cpi run1), sy_rsq := [],
                sy_live := {''r''}, sy_dead := {}\<rparr>"

definition run3 :: "((string \<times> ApiObject) list, (string \<times> ApiObject) list) isys" where
  "run3 = run2\<lparr>sy_rsq := sy_rsq run2 @ [RsDeleted rs1]\<rparr>"

definition run4 :: "((string \<times> ApiObject) list, (string \<times> ApiObject) list) isys" where
  "run4 = run3\<lparr>sy_cpi := handle_rs list_stores (RsDeleted rs1) (sy_cpi run3), sy_rsq := [],
                sy_live := {}, sy_dead := {''r''}\<rparr>"

lemmas run_defs = run0_def run1_def run2_def run3_def run4_def isys_start_def

lemma run_steps:
  "informer_step list_stores map_of run0 run1" "informer_step list_stores map_of run1 run2"
  "informer_step list_stores map_of run2 run3" "informer_step list_stores map_of run3 run4"
proof -
  show "informer_step list_stores map_of run0 run1" unfolding run1_def
    by (rule informer_step.rs_notified) (simp add: run_defs rs1_def)
  show "informer_step list_stores map_of run1 run2" unfolding run2_def
    by (rule informer_step.rs_handled) (simp_all add: run_defs rs1_def)
  show "informer_step list_stores map_of run2 run3" unfolding run3_def
    by (rule informer_step.rs_notified) (simp add: run_defs rs1_def)
  show "informer_step list_stores map_of run3 run4" unfolding run4_def
    by (rule informer_step.rs_handled) (simp_all add: run_defs rs1_def)
qed

lemma run_reach:
  "(informer_step list_stores map_of)\<^sup>*\<^sup>* (isys_start [] []) run2"
  "(informer_step list_stores map_of)\<^sup>*\<^sup>* (isys_start [] []) run3"
  using run_steps by (auto simp: run0_def intro: rtranclp.rtrancl_into_rtrancl rtranclp.rtrancl_refl)


lemma run_index:
  "map_of (cp_rsIndexer (sy_cpi run3)) ''r'' = Some rs1" "map_of (cp_rsIndexer (sy_cpi run4)) ''r'' = None"
  by (simp_all add: run_defs rs_AddFunc_def rs_DeleteFunc_def clearRSDataIfPossibleLocked_def appendPodsControlledBy_def
      pod_index_examples getObjUID_def Let_def)

theorem removed_only_unused_witness: "\<not> has_pod map_of (sy_cpi run3) ''r''"
  using removed_only_unused[OF list_stores_ok _ run_reach(2) run_steps(4), of "''r''"] by (simp add: run_index)

end
