(* ===== verification/Phase_Latency.thy ===== *)
theory Phase_Latency
  imports Contracts Errors_Pkg Go_Float "HOL-Library.Multiset"
begin

text \<open>
  Latencies (\<^verbatim>\<open>clusterloader2/pkg/measurement/util\<close>): the percentiles of a list of latencies
  (\<^verbatim>\<open>latency_metric.go\<close>), the table of phase transition times (\<^verbatim>\<open>phase_latency.go\<close>), the metadata of
  pods (\<^verbatim>\<open>pods_metadata.go\<close>), histograms (\<^verbatim>\<open>histogram.go\<close>), performance data (\<^verbatim>\<open>perftype.go\<close>) and the
  names of API server metrics (\<^verbatim>\<open>metrics.go\<close>).  The order of an association list is the order in
  which a Go map is iterated, so a statement for all lists is one for every iteration order.  A
  panic is \<open>None\<close>.
\<close>

section \<open>Percentiles\<close>

record LatencyMetric =
  lm_Perc50 :: duration
  lm_Perc90 :: duration
  lm_Perc99 :: duration

definition SetQuantile :: "LatencyMetric \<Rightarrow> rat \<Rightarrow> duration \<Rightarrow> LatencyMetric" where
  "SetQuantile metric quantile latency =
     (if quantile = fl (1 / 2) then metric\<lparr>lm_Perc50 := latency\<rparr>
      else if quantile = fl (9 / 10) then metric\<lparr>lm_Perc90 := latency\<rparr>
      else if quantile = fl (99 / 100) then metric\<lparr>lm_Perc99 := latency\<rparr>
      else metric)"

definition too_high :: "(duration \<Rightarrow> string) \<Rightarrow> string \<Rightarrow> duration \<Rightarrow> duration \<Rightarrow> goerr" where
  "too_high shw perc got expected =
     Errorf (''too high latency '' @ perc @ ''th percentile: got '' @ shw got @ '' expected: '' @ shw expected) []"

definition VerifyThresholdByPercentile ::
  "(duration \<Rightarrow> string) \<Rightarrow> LatencyMetric \<Rightarrow> duration \<Rightarrow> duration \<Rightarrow> duration \<Rightarrow> goerr option" where
  "VerifyThresholdByPercentile shw metric t50 t90 t99 =
     (if lm_Perc50 metric > t50 then Some (too_high shw ''50'' (lm_Perc50 metric) t50)
      else if lm_Perc90 metric > t90 then Some (too_high shw ''90'' (lm_Perc90 metric) t90)
      else if lm_Perc99 metric > t99 then Some (too_high shw ''99'' (lm_Perc99 metric) t99)
      else None)"

definition VerifyThreshold ::
  "(duration \<Rightarrow> string) \<Rightarrow> LatencyMetric \<Rightarrow> duration \<Rightarrow> goerr option" where
  "VerifyThreshold shw metric threshold =
     (if lm_Perc50 metric > threshold then Some (too_high shw ''50'' (lm_Perc50 metric) threshold)
      else if lm_Perc90 metric > threshold then Some (too_high shw ''90'' (lm_Perc90 metric) threshold)
      else if lm_Perc99 metric > threshold then Some (too_high shw ''99'' (lm_Perc99 metric) threshold)
      else None)"

record DataItem =
  di_Data :: "(string, rat) gomap"
  di_Unit :: string
  di_Labels :: "(string, string) gomap"

record PerfData =
  pd_Version :: string
  pd_DataItems :: "DataItem list"
  pd_Labels :: "(string, string) gomap"

definition ToPerfData :: "LatencyMetric \<Rightarrow> string \<Rightarrow> DataItem" where
  "ToPerfData metric name =
     \<lparr>di_Data = [(''Perc50'', fl (fl (of_int (lm_Perc50 metric)) / 1000000)),
                 (''Perc90'', fl (fl (of_int (lm_Perc90 metric)) / 1000000)),
                 (''Perc99'', fl (fl (of_int (lm_Perc99 metric)) / 1000000))],
      di_Unit = ''ms'', di_Labels = [(''Metric'', name)]\<rparr>"

text \<open>An index out of range panics.\<close>

definition slice_at :: "'a list \<Rightarrow> int \<Rightarrow> 'a option" where
  "slice_at xs i = (if 0 \<le> i \<and> i < int (length xs) then Some (xs ! nat i) else None)"

definition perc_index :: "nat \<Rightarrow> nat \<Rightarrow> int" where
  "perc_index p len = \<lceil>fl (fl (of_int (wrap 64 (int len * int p))) / 100)\<rceil> - 1"

definition NewLatencyMetric :: "duration list \<Rightarrow> LatencyMetric option" where
  "NewLatencyMetric latencies =
     (let len = length latencies in
      if len = 0 then Some \<lparr>lm_Perc50 = 0, lm_Perc90 = 0, lm_Perc99 = 0\<rparr>
      else
        (case slice_at latencies (perc_index 50 len) of None \<Rightarrow> None | Some perc50 \<Rightarrow>
        (case slice_at latencies (perc_index 90 len) of None \<Rightarrow> None | Some perc90 \<Rightarrow>
        (case slice_at latencies (perc_index 99 len) of None \<Rightarrow> None | Some perc99 \<Rightarrow>
           Some \<lparr>lm_Perc50 = perc50, lm_Perc90 = perc90, lm_Perc99 = perc99\<rparr>))))"

text \<open>A sample of a Prometheus query; \<open>parse_float\<close> is \<^verbatim>\<open>strconv.ParseFloat\<close>.\<close>

record sample =
  sm_Metric :: "(string, string) gomap"
  sm_Value :: rat

fun latency_metric_loop ::
  "(string \<Rightarrow> goerr + rat) \<Rightarrow> (sample \<Rightarrow> string) \<Rightarrow> sample list \<Rightarrow> LatencyMetric \<Rightarrow> goerr + LatencyMetric" where
  "latency_metric_loop parse_float shw [] m = Inr m"
| "latency_metric_loop parse_float shw (s # ss) m =
     (case map_of (sm_Metric s) ''quantile'' of
        None \<Rightarrow> Inl (Errorf (''quantile missing in sample '' @ shw s) [])
      | Some val \<Rightarrow>
          (case parse_float val of
             Inl err \<Rightarrow> Inl err
           | Inr quantile \<Rightarrow>
               let latency = trunc_rat (fl (sm_Value s * 1000000000))
               in latency_metric_loop parse_float shw ss (SetQuantile m quantile latency)))"

definition NewLatencyMetricPrometheus ::
  "(string \<Rightarrow> goerr + rat) \<Rightarrow> (sample \<Rightarrow> string) \<Rightarrow> sample list \<Rightarrow> goerr + LatencyMetric" where
  "NewLatencyMetricPrometheus parse_float shw samples =
     latency_metric_loop parse_float shw samples \<lparr>lm_Perc50 = 0, lm_Perc90 = 0, lm_Perc99 = 0\<rparr>"

section \<open>Transition times\<close>

record Transition =
  tr_From :: string
  tr_To :: string
  tr_Threshold :: duration

record ObjectTransitionTimes =
  ot_name :: string
  ot_times :: "(string, (string, gotime) gomap) gomap"

record KeyTimestamp =
  kt_Key :: string
  kt_Timestamp :: gotime

definition NewObjectTransitionTimes :: "string \<Rightarrow> ObjectTransitionTimes" where
  "NewObjectTransitionTimes name = \<lparr>ot_name = name, ot_times = []\<rparr>"

text \<open>
  \<^verbatim>\<open>sort.Slice\<close> leaves equal elements in any order; the order of the list of keys is arbitrary too.
\<close>

definition GetOrderedKeys :: "ObjectTransitionTimes \<Rightarrow> string \<Rightarrow> KeyTimestamp list" where
  "GetOrderedKeys ott phase =
     sort_key kt_Timestamp
       (List.map_filter (\<lambda>(key, entry). case map_of entry phase of
            Some t \<Rightarrow> Some \<lparr>kt_Key = key, kt_Timestamp = t\<rparr> | None \<Rightarrow> None) (ot_times ott))"

definition ot_Set :: "ObjectTransitionTimes \<Rightarrow> string \<Rightarrow> string \<Rightarrow> gotime \<Rightarrow> ObjectTransitionTimes" where
  "ot_Set ott key phase t =
     (let entry = (case map_of (ot_times ott) key of None \<Rightarrow> [] | Some e \<Rightarrow> e)
      in ott\<lparr>ot_times := AList.update key (AList.update phase t entry) (ot_times ott)\<rparr>)"

definition ot_Get :: "ObjectTransitionTimes \<Rightarrow> string \<Rightarrow> string \<Rightarrow> gotime option" where
  "ot_Get ott key phase =
     (case map_of (ot_times ott) key of Some entry \<Rightarrow> map_of entry phase | None \<Rightarrow> None)"

definition ot_Count :: "ObjectTransitionTimes \<Rightarrow> string \<Rightarrow> nat" where
  "ot_Count ott phase =
     fold (\<lambda>(_, entry) count. if map_of entry phase \<noteq> None then count + 1 else count) (ot_times ott) 0"

definition MatchAll :: "string \<Rightarrow> bool" where
  "MatchAll _ = True"

text \<open>The latency of one object, if the filter takes it and both phases were seen.\<close>

definition lag_of :: "Transition \<Rightarrow> (string \<Rightarrow> bool) \<Rightarrow> string \<times> (string, gotime) gomap \<Rightarrow> duration option" where
  "lag_of transition flt = (\<lambda>(key, transitionTimes).
     if \<not> flt key then None
     else (case map_of transitionTimes (tr_From transition) of
             None \<Rightarrow> None
           | Some fromPhaseTime \<Rightarrow>
               (case map_of transitionTimes (tr_To transition) of
                  None \<Rightarrow> None
                | Some toPhaseTime \<Rightarrow>
                    let latencyTime = time_Sub toPhaseTime fromPhaseTime
                    in Some (if latencyTime < 0 then 0 else latencyTime))))"

fun transitions_loop ::
  "ObjectTransitionTimes \<Rightarrow> (string \<Rightarrow> bool) \<Rightarrow> (string \<times> Transition) list \<Rightarrow>
   (string, LatencyMetric) gomap \<Rightarrow> (string, LatencyMetric) gomap option" where
  "transitions_loop ott flt [] metric = Some metric"
| "transitions_loop ott flt ((name, transition) # ts) metric =
     (let lag = sort (List.map_filter (lag_of transition flt) (ot_times ott))
      in case NewLatencyMetric lag of
           None \<Rightarrow> None
         | Some lagMetric \<Rightarrow> transitions_loop ott flt ts (AList.update name lagMetric metric))"

definition CalculateTransitionsLatency ::
  "ObjectTransitionTimes \<Rightarrow> (string, Transition) gomap \<Rightarrow> (string \<Rightarrow> bool) \<Rightarrow>
   (string, LatencyMetric) gomap option" where
  "CalculateTransitionsLatency ott t flt = transitions_loop ott flt t []"

definition LatencyMapToPerfData :: "(string, LatencyMetric) gomap \<Rightarrow> PerfData" where
  "LatencyMapToPerfData latency =
     \<lparr>pd_Version = ''1.0'', pd_DataItems = map (\<lambda>(name, l). ToPerfData l name) latency, pd_Labels = []\<rparr>"

section \<open>Pod metadata\<close>

record PodsMetadata =
  pm_name :: string
  pm_metadata :: "(string, bool) gomap"

definition NewPodsMetadata :: "string \<Rightarrow> PodsMetadata" where
  "NewPodsMetadata name = \<lparr>pm_name = name, pm_metadata = []\<rparr>"

definition SetStateless :: "PodsMetadata \<Rightarrow> string \<Rightarrow> bool \<Rightarrow> PodsMetadata" where
  "SetStateless pm key stateless = pm\<lparr>pm_metadata := AList.update key stateless (pm_metadata pm)\<rparr>"

definition FilterStateless :: "PodsMetadata \<Rightarrow> string \<Rightarrow> bool" where
  "FilterStateless pm key = (case map_of (pm_metadata pm) key of Some stateless \<Rightarrow> stateless | None \<Rightarrow> False)"

definition FilterStateful :: "PodsMetadata \<Rightarrow> string \<Rightarrow> bool" where
  "FilterStateful pm key \<longleftrightarrow> \<not> FilterStateless pm key"

section \<open>Histograms\<close>

record Histogram =
  hi_Labels :: "(string, string) gomap"
  hi_Buckets :: "(string, int) gomap"

definition NewHistogram :: "(string, string) gomap \<Rightarrow> Histogram" where
  "NewHistogram labels = \<lparr>hi_Labels = labels, hi_Buckets = []\<rparr>"

abbreviation BucketLabel :: string where "BucketLabel \<equiv> ''le''"

definition bucket_labels :: "sample \<Rightarrow> (string, string) gomap" where
  "bucket_labels s = filter (\<lambda>(k, _). k \<noteq> BucketLabel) (sm_Metric s)"

text \<open>A missing label or bucket reads as the zero value.\<close>

definition add_to_bucket :: "sample \<Rightarrow> Histogram \<Rightarrow> Histogram" where
  "add_to_bucket s h =
     (let le = (case map_of (sm_Metric s) BucketLabel of None \<Rightarrow> [] | Some l \<Rightarrow> l);
          old = (case map_of (hi_Buckets h) le of None \<Rightarrow> 0 | Some n \<Rightarrow> n)
      in h\<lparr>hi_Buckets := AList.update le (wrap 64 (old + trunc_rat (sm_Value s))) (hi_Buckets h)\<rparr>)"

text \<open>
  \<^verbatim>\<open>reflect.DeepEqual\<close> of two maps compares them as functions.  The histogram appended to the slice
  is a copy that shares its map of buckets with \<^verbatim>\<open>hist\<close>, so the increment reaches it.
\<close>

fun convert_loop :: "(string, string) gomap \<Rightarrow> sample \<Rightarrow> Histogram list \<Rightarrow> Histogram list" where
  "convert_loop labels s [] = [add_to_bucket s (NewHistogram labels)]"
| "convert_loop labels s (h # hs) =
     (if map_of labels = map_of (hi_Labels h) then add_to_bucket s h # hs
      else h # convert_loop labels s hs)"

definition ConvertSampleToBucket :: "sample \<Rightarrow> Histogram list \<Rightarrow> Histogram list" where
  "ConvertSampleToBucket s h = convert_loop (bucket_labels s) s h"

definition ConvertSampleToHistogram :: "sample \<Rightarrow> Histogram \<Rightarrow> Histogram" where
  "ConvertSampleToHistogram s h = add_to_bucket s (h\<lparr>hi_Labels := bucket_labels s\<rparr>)"

text \<open>
  \<open>quantile\<close> is \<^verbatim>\<open>testutil.Histogram.Quantile\<close>, given the sample count, if it was set, and the buckets
  (upper bound and cumulative count) in ascending order.  An error of \<^verbatim>\<open>strconv.ParseFloat\<close> ends the
  loop over the buckets.  The bounds are of any ordered type \<open>'f\<close>, since \<^verbatim>\<open>+Inf\<close> is one of them.
\<close>

fun buckets_loop ::
  "(string \<Rightarrow> goerr + 'f) \<Rightarrow> (string, int) gomap \<Rightarrow> ('f \<times> nat) list \<Rightarrow> goerr + ('f \<times> nat) list" where
  "buckets_loop parse_float [] acc = Inr acc"
| "buckets_loop parse_float ((k, v) # bs) acc =
     (case parse_float k of
        Inl err \<Rightarrow> Inl err
      | Inr upper \<Rightarrow> buckets_loop parse_float bs (acc @ [(upper, nat (v mod 2 ^ 64))]))"

definition Histogram_Quantile ::
  "(string \<Rightarrow> goerr + 'f) \<Rightarrow> (nat option \<Rightarrow> ('f \<times> nat) list \<Rightarrow> 'f \<Rightarrow> 'f) \<Rightarrow> Histogram \<Rightarrow>
   'f :: linorder \<Rightarrow> goerr + 'f" where
  "Histogram_Quantile parse_float quantile h q =
     (case buckets_loop parse_float (hi_Buckets h) [] of
        Inl err \<Rightarrow> Inl err
      | Inr bs \<Rightarrow>
          let bs = sort_key fst bs;
              sampleCount = (if length bs \<noteq> 0 then Some (snd (last bs)) else None)
          in Inr (quantile sampleCount bs q))"

section \<open>API server metrics\<close>

text \<open>Go compares strings byte by byte.\<close>

fun str_less :: "string \<Rightarrow> string \<Rightarrow> bool" where
  "str_less _ [] = False"
| "str_less [] (_ # _) = True"
| "str_less (a # as) (b # bs) =
     ((of_char a :: nat) < of_char b \<or> (a = b \<and> str_less as bs))"

definition GetApiserverSLI :: "string \<Rightarrow> string \<Rightarrow> string" where
  "GetApiserverSLI major minor =
     (if major = ''1'' \<and> str_less minor ''23'' then ''apiserver_request_duration_seconds''
      else if major = ''1'' \<and> str_less minor ''26'' then ''apiserver_request_slo_duration_seconds''
      else ''apiserver_request_sli_duration_seconds'')"

definition GetApiserverLatency :: "string \<Rightarrow> string \<Rightarrow> string" where
  "GetApiserverLatency major minor =
     (if major = ''1'' \<and> str_less minor ''23'' then ''apiserver:apiserver_request_latency_1m:histogram_quantile''
      else if major = ''1'' \<and> str_less minor ''26''
      then ''apiserver:apiserver_request_slo_latency_1m:histogram_quantile''
      else ''apiserver:apiserver_request_sli_latency_1m:histogram_quantile'')"

section \<open>Percentiles are nearest ranks\<close>

text \<open>How many of the latencies are at most \<open>T\<close>.\<close>

abbreviation count_le :: "'a :: linorder \<Rightarrow> 'a list \<Rightarrow> nat" where
  "count_le T xs \<equiv> length (filter (\<lambda>x. x \<le> T) xs)"

text \<open>
  The percentile \<open>p\<close> of a list: a bound is at least \<open>v\<close> exactly when \<open>p\<close> per cent of the list are within it.
\<close>

definition percentile_of :: "nat \<Rightarrow> 'a :: linorder list \<Rightarrow> 'a \<Rightarrow> bool" where
  "percentile_of p xs v \<longleftrightarrow> (\<forall>T. v \<le> T \<longleftrightarrow> p * length xs \<le> 100 * count_le T xs)"

lemma count_le_mset_cong: "mset xs = mset ys \<Longrightarrow> count_le T xs = count_le T ys"
  by (metis mset_filter size_mset)

lemma percentile_of_mset_cong: "mset xs = mset ys \<Longrightarrow> percentile_of p xs = percentile_of p ys"
  unfolding percentile_of_def fun_eq_iff using count_le_mset_cong mset_eq_length by metis

lemma sorted_nth_le_iff: "sorted xs \<Longrightarrow> i < length xs \<Longrightarrow> xs ! i \<le> T \<longleftrightarrow> i < count_le T xs"
proof (induction xs arbitrary: i)
  case (Cons x xs)
  show ?case
  proof (cases "x \<le> T")
    case True
    with Cons show ?thesis by (cases i) auto
  next
    case False
    then have "\<forall>y \<in> set (x # xs). \<not> y \<le> T" using Cons.prems(1) by fastforce
    moreover from this have "filter (\<lambda>y. y \<le> T) (x # xs) = []" by (simp add: filter_empty_conv)
    ultimately show ?thesis using nth_mem[OF Cons.prems(2)] by fastforce
  qed
qed simp

lemma div_100_up: "int (x div 100) + (if 100 dvd x then 0 else 1) = int ((x + 99) div 100)"
proof -
  obtain q r where x: "x = 100 * q + r" "r < 100"
    by (metis mod_less_divisor mult_div_mod_eq zero_less_numeral)
  then have "x div 100 = q" "100 dvd x \<longleftrightarrow> r = 0" by (simp_all add: dvd_eq_mod_eq_0)
  moreover have "(x + 99) div 100 = q + (r + 99) div 100" by (simp add: x(1) add.assoc)
  moreover have "(r + 99) div 100 = (if r = 0 then 0 else 1)"
    using x(2) by (auto intro: div_nat_eqI)
  ultimately show ?thesis by simp
qed

lemma perc_index_exact:
  assumes "p * n < 2 ^ 53"
  shows "perc_index p n = int ((p * n + 99) div 100) - 1"
proof -
  let ?x = "n * p"
  have x: "?x < 2 ^ 53" using assms by (simp add: mult.commute)
  then have xi: "int ?x < 2 ^ 53" by (metis of_nat_less_iff of_nat_numeral of_nat_power)
  have "(0 :: int) \<le> int ?x" by (rule of_nat_0_le_iff)
  with xi have "fits 64 (int ?x)" unfolding fits_def by (auto simp del: of_nat_mult)
  then have "wrap 64 (int ?x) = int ?x" by (simp add: wrap_id)
  moreover have "fl (of_int (int ?x)) = of_int (int ?x)"
    by (rule go_fl.rnd_int) (use xi in simp)
  ultimately have "perc_index p n = \<lceil>fl (of_nat ?x / of_nat 100)\<rceil> - 1"
    by (simp add: perc_index_def)
  also have "\<dots> = int (?x div 100) + (if 100 dvd ?x then 0 else 1) - 1"
    using go_fl.rnd_quotient_floor(2)[of 100 ?x] x by simp
  also have "int (?x div 100) + (if 100 dvd ?x then 0 else 1) = int ((?x + 99) div 100)"
    using div_100_up[of ?x] by simp
  finally show ?thesis by (simp add: mult.commute)
qed

lemma perc_of_sorted:
  assumes "sorted xs" "xs \<noteq> []" "0 < p" "p \<le> 100" "p * length xs < 2 ^ 53"
  shows "\<exists>v. slice_at xs (perc_index p (length xs)) = Some v \<and> percentile_of p xs v"
proof -
  let ?n = "length xs" and ?k = "(p * length xs + 99) div 100"
  have n: "0 < ?n" using assms(2) by simp
  then have pn: "0 < p * ?n" using assms(3) by simp
  have "p * ?n \<le> 100 * ?n" using assms(4) by simp
  then have k: "0 < ?k" "?k \<le> ?n" using pn by linarith+
  have idx: "perc_index p ?n = int (?k - 1)"
    using perc_index_exact[OF assms(5)] k(1) by simp
  have at: "slice_at xs (perc_index p ?n) = Some (xs ! (?k - 1))"
    using k unfolding idx slice_at_def by (simp only: nat_int of_nat_less_iff) simp
  have "xs ! (?k - 1) \<le> T \<longleftrightarrow> p * ?n \<le> 100 * count_le T xs" for T
  proof -
    have "xs ! (?k - 1) \<le> T \<longleftrightarrow> ?k - 1 < count_le T xs"
      using k by (intro sorted_nth_le_iff[OF assms(1)]) simp
    also have "\<dots> \<longleftrightarrow> ?k \<le> count_le T xs" using k(1) by linarith
    also have "\<dots> \<longleftrightarrow> p * ?n \<le> 100 * count_le T xs" by linarith
    finally show ?thesis .
  qed
  then show ?thesis using at by (auto simp: percentile_of_def)
qed

lemma percentile_mono: "percentile_of p xs v \<Longrightarrow> percentile_of q xs w \<Longrightarrow> p \<le> q \<Longrightarrow> v \<le> w"
  unfolding percentile_of_def by (meson mult_le_mono1 order.refl order.trans)

text \<open>The metric of a list of latencies; all three are 0 for the empty list.\<close>

definition metric_of :: "duration list \<Rightarrow> LatencyMetric \<Rightarrow> bool" where
  "metric_of xs m \<longleftrightarrow>
     (if xs = [] then m = \<lparr>lm_Perc50 = 0, lm_Perc90 = 0, lm_Perc99 = 0\<rparr>
      else percentile_of 50 xs (lm_Perc50 m) \<and> percentile_of 90 xs (lm_Perc90 m) \<and>
           percentile_of 99 xs (lm_Perc99 m))"

lemma metric_of_mset_cong: "mset xs = mset ys \<Longrightarrow> metric_of xs = metric_of ys"
  unfolding metric_of_def fun_eq_iff using percentile_of_mset_cong[of xs ys] by (metis mset_zero_iff)

lemma NewLatencyMetric_sorted:
  assumes "sorted xs" "99 * length xs < 2 ^ 53"
  shows "\<exists>m. NewLatencyMetric xs = Some m \<and> metric_of xs m"
proof (cases "xs = []")
  case False
  have len: "50 * length xs < 2 ^ 53" "90 * length xs < 2 ^ 53" using assms(2) by linarith+
  obtain a b c where "slice_at xs (perc_index 50 (length xs)) = Some a" "percentile_of 50 xs a"
    "slice_at xs (perc_index 90 (length xs)) = Some b" "percentile_of 90 xs b"
    "slice_at xs (perc_index 99 (length xs)) = Some c" "percentile_of 99 xs c"
    using perc_of_sorted[OF assms(1) False, of 50] perc_of_sorted[OF assms(1) False, of 90]
      perc_of_sorted[OF assms(1) False, of 99] len assms(2) by auto
  with False show ?thesis by (simp add: NewLatencyMetric_def metric_of_def)
qed (simp add: NewLatencyMetric_def metric_of_def)

lemma metric_of_threshold:
  assumes "metric_of xs m" "0 \<le> T"
  shows "VerifyThreshold shw m T = None \<longleftrightarrow> 99 * length xs \<le> 100 * count_le T xs"
proof (cases "xs = []")
  case True
  with assms show ?thesis by (simp add: metric_of_def VerifyThreshold_def)
next
  case False
  with assms(1) have p: "percentile_of 50 xs (lm_Perc50 m)" "percentile_of 90 xs (lm_Perc90 m)"
      "percentile_of 99 xs (lm_Perc99 m)" by (simp_all add: metric_of_def)
  have "VerifyThreshold shw m T = None \<longleftrightarrow> lm_Perc50 m \<le> T \<and> lm_Perc90 m \<le> T \<and> lm_Perc99 m \<le> T"
    by (simp add: VerifyThreshold_def)
  also have "\<dots> \<longleftrightarrow> lm_Perc99 m \<le> T"
    using percentile_mono[OF p(1,3)] percentile_mono[OF p(2,3)] by auto
  finally show ?thesis using p(3) by (simp add: percentile_of_def)
qed

lemma metric_of_thresholds:
  assumes "metric_of xs m" "0 \<le> t50" "0 \<le> t90" "0 \<le> t99"
  shows "VerifyThresholdByPercentile shw m t50 t90 t99 = None \<longleftrightarrow>
    50 * length xs \<le> 100 * count_le t50 xs \<and> 90 * length xs \<le> 100 * count_le t90 xs \<and>
    99 * length xs \<le> 100 * count_le t99 xs"
proof -
  have "VerifyThresholdByPercentile shw m t50 t90 t99 = None \<longleftrightarrow>
      lm_Perc50 m \<le> t50 \<and> lm_Perc90 m \<le> t90 \<and> lm_Perc99 m \<le> t99"
    by (auto simp: VerifyThresholdByPercentile_def)
  then show ?thesis using assms by (cases "xs = []") (simp_all add: metric_of_def percentile_of_def)
qed

section \<open>The transition table\<close>

lemma ot_Get_Set [simp]:
  "ot_Get (ot_Set ott key phase t) key' phase' =
     (if key' = key \<and> phase' = phase then Some t else ot_Get ott key' phase')"
  by (auto simp: ot_Get_def ot_Set_def Let_def go_map split: option.splits)

lemma ot_Get_Some:
  "ot_Get ott key phase = Some t \<longleftrightarrow> (\<exists>e. map_of (ot_times ott) key = Some e \<and> map_of e phase = Some t)"
  by (auto simp: ot_Get_def split: option.splits)

lemma ot_Get_New [simp]: "ot_Get (NewObjectTransitionTimes name) key phase = None"
  by (simp add: NewObjectTransitionTimes_def ot_Get_def)

interpretation transition_times: kv_rw "NewObjectTransitionTimes name"
  "\<lambda>ott (key, phase). ot_Get ott key phase" "\<lambda>ott (key, phase) t. ot_Set ott key phase t" for name
  by unfold_locales (auto split: prod.splits)

definition ot_ok :: "ObjectTransitionTimes \<Rightarrow> bool" where
  "ot_ok ott \<longleftrightarrow> gomap_ok (ot_times ott)"

lemma ot_ok_New [simp]: "ot_ok (NewObjectTransitionTimes name)"
  by (simp add: ot_ok_def NewObjectTransitionTimes_def)

lemma ot_ok_Set [simp]: "ot_ok ott \<Longrightarrow> ot_ok (ot_Set ott key phase t)"
  by (simp add: ot_ok_def ot_Set_def Let_def gomap_ok_update)

text \<open>The latencies of a transition, as the program means them.\<close>

definition latencies :: "ObjectTransitionTimes \<Rightarrow> Transition \<Rightarrow> (string \<Rightarrow> bool) \<Rightarrow> duration list" where
  "latencies ott tr flt = List.map_filter (lag_of tr flt) (ot_times ott)"

lemma set_latencies:
  assumes "ot_ok ott"
  shows "set (latencies ott tr flt) =
    {max 0 (time_Sub t2 t1) |key t1 t2. flt key \<and> ot_Get ott key (tr_From tr) = Some t1 \<and>
       ot_Get ott key (tr_To tr) = Some t2}"
proof -
  have "l \<in> set (latencies ott tr flt) \<longleftrightarrow>
      (\<exists>key e. map_of (ot_times ott) key = Some e \<and> lag_of tr flt (key, e) = Some l)" for l
  proof -
    have "l \<in> set (latencies ott tr flt) \<longleftrightarrow> (\<exists>ke \<in> set (ot_times ott). lag_of tr flt ke = Some l)"
      by (auto simp: latencies_def List.map_filter_def image_iff) (metis option.sel option.simps(3))
    then show ?thesis using assms by (auto simp: ot_ok_def)
  qed
  moreover have "lag_of tr flt (key, e) = Some l \<longleftrightarrow>
      flt key \<and> (\<exists>t1 t2. map_of e (tr_From tr) = Some t1 \<and> map_of e (tr_To tr) = Some t2 \<and>
        l = max 0 (time_Sub t2 t1))" for key e l
    by (auto simp: lag_of_def Let_def max_def split: option.splits)
  ultimately have mem: "l \<in> set (latencies ott tr flt) \<longleftrightarrow>
      (\<exists>key e t1 t2. map_of (ot_times ott) key = Some e \<and> flt key \<and> map_of e (tr_From tr) = Some t1 \<and>
         map_of e (tr_To tr) = Some t2 \<and> l = max 0 (time_Sub t2 t1))" for l
    by blast
  show ?thesis unfolding ot_Get_Some set_eq_iff mem mem_Collect_eq by fastforce
qed

lemma length_latencies: "length (latencies ott tr flt) \<le> length (ot_times ott)"
  by (simp add: latencies_def List.map_filter_def)

lemma latencies_nonneg: "x \<in> set (latencies ott tr flt) \<Longrightarrow> 0 \<le> x"
  by (auto simp: latencies_def List.map_filter_def lag_of_def Let_def split: option.splits if_splits)

lemma transitions_loop_metrics:
  assumes "99 * length (ot_times ott) < 2 ^ 53"
  shows "gomap_ok t \<Longrightarrow> \<exists>m. transitions_loop ott flt t acc = Some m \<and>
    (\<forall>name. case map_of t name of
       Some tr \<Rightarrow> \<exists>lm. map_of m name = Some lm \<and> metric_of (latencies ott tr flt) lm
     | None \<Rightarrow> map_of m name = map_of acc name)"
proof (induction t arbitrary: acc)
  case (Cons nt t)
  obtain name tr where nt: "nt = (name, tr)" by fastforce
  let ?lag = "sort (latencies ott tr flt)"
  have "99 * length ?lag < 2 ^ 53" using length_latencies[of ott tr flt] assms by simp
  then obtain lm where lm: "NewLatencyMetric ?lag = Some lm" "metric_of (latencies ott tr flt) lm"
    using NewLatencyMetric_sorted[of ?lag] metric_of_mset_cong[of ?lag "latencies ott tr flt"] by auto
  have "gomap_ok t" "map_of t name = None"
    using Cons.prems nt by (auto simp: map_of_eq_None_iff)
  with Cons.IH[of "AList.update name lm acc"] obtain m where
    m: "transitions_loop ott flt t (AList.update name lm acc) = Some m" and
    at: "\<And>n. case map_of t n of
       Some tr \<Rightarrow> \<exists>lm. map_of m n = Some lm \<and> metric_of (latencies ott tr flt) lm
     | None \<Rightarrow> map_of m n = map_of (AList.update name lm acc) n" by blast
  have "transitions_loop ott flt (nt # t) acc = Some m"
    using m lm nt by (simp add: latencies_def)
  moreover have "case map_of (nt # t) n of
       Some tr \<Rightarrow> \<exists>lm. map_of m n = Some lm \<and> metric_of (latencies ott tr flt) lm
     | None \<Rightarrow> map_of m n = map_of acc n" for n
    using at[of n] lm(2) nt \<open>map_of t name = None\<close> by (auto simp: go_map split: option.splits)
  ultimately show ?case by blast
qed simp

lemma transitions_latency_metrics:
  assumes "99 * length (ot_times ott) < 2 ^ 53" and "gomap_ok t" and "map_of t name = Some tr"
  shows "\<exists>m lm. CalculateTransitionsLatency ott t flt = Some m \<and> map_of m name = Some lm \<and>
    metric_of (latencies ott tr flt) lm"
proof -
  obtain m where "CalculateTransitionsLatency ott t flt = Some m"
    "case map_of t name of
       Some tr \<Rightarrow> \<exists>lm. map_of m name = Some lm \<and> metric_of (latencies ott tr flt) lm
     | None \<Rightarrow> map_of m name = map_of [] name"
    using transitions_loop_metrics[OF assms(1,2), of flt "[]"]
    unfolding CalculateTransitionsLatency_def by blast
  with assms(3) show ?thesis by simp
qed

text \<open>
  C15: the service level objective of a transition.  For every table of transition times and every
  iteration order of its maps, each transition gets a metric; its percentiles are the nearest-rank
  percentiles of the non-negative latencies of the objects that the filter takes and that went
  through both phases, and the threshold check accepts it exactly when 99 per cent of these objects
  are within the threshold.
\<close>

theorem transition_slo_decided:
  assumes "99 * length (ot_times ott) < 2 ^ 53" and "gomap_ok t" and "map_of t name = Some tr"
    and "0 \<le> T"
  shows "\<exists>m lm. CalculateTransitionsLatency ott t flt = Some m \<and> map_of m name = Some lm
    \<and> metric_of (latencies ott tr flt) lm
    \<and> (VerifyThreshold shw lm T = None \<longleftrightarrow>
         99 * length (latencies ott tr flt) \<le> 100 * count_le T (latencies ott tr flt))"
proof -
  obtain m lm where m: "CalculateTransitionsLatency ott t flt = Some m" "map_of m name = Some lm"
      "metric_of (latencies ott tr flt) lm"
    using transitions_latency_metrics[OF assms(1-3)] by blast
  moreover have "VerifyThreshold shw lm T = None \<longleftrightarrow>
      99 * length (latencies ott tr flt) \<le> 100 * count_le T (latencies ott tr flt)"
    using metric_of_threshold[OF m(3) assms(4)] .
  ultimately show ?thesis by (intro exI[of _ m] exI[of _ lm]) simp
qed

definition demo_times :: ObjectTransitionTimes where
  "demo_times = ot_Set (ot_Set (ot_Set (ot_Set (NewObjectTransitionTimes ''demo'')
     ''a'' ''create'' 10) ''a'' ''run'' 13) ''b'' ''create'' 20) ''b'' ''run'' 19"

definition create_to_run :: Transition where
  "create_to_run = \<lparr>tr_From = ''create'', tr_To = ''run'', tr_Threshold = 0\<rparr>"

lemma demo_latencies: "latencies demo_times create_to_run MatchAll = [3, 0]" "length (ot_times demo_times) = 2"
  by (simp_all add: latencies_def demo_times_def NewObjectTransitionTimes_def ot_Set_def create_to_run_def
      List.map_filter_def lag_of_def MatchAll_def time_Sub_def)

theorem transition_slo_decided_witness:
  "\<exists>m lm. CalculateTransitionsLatency demo_times [(''startup'', create_to_run)] MatchAll = Some m
    \<and> map_of m ''startup'' = Some lm
    \<and> VerifyThreshold show_int lm 3 = None \<and> VerifyThreshold show_int lm 2 \<noteq> None"
proof -
  have hyps: "99 * length (ot_times demo_times) < 2 ^ 53" "gomap_ok [(''startup'', create_to_run)]"
    "map_of [(''startup'', create_to_run)] ''startup'' = Some create_to_run"
    by (simp_all add: demo_latencies)
  show ?thesis
    using transition_slo_decided[OF hyps, of 3 MatchAll show_int]
      transition_slo_decided[OF hyps, of 2 MatchAll show_int]
    by (auto simp: demo_latencies)
qed

section \<open>Histograms count samples\<close>

definition le_of :: "sample \<Rightarrow> string" where
  "le_of s = (case map_of (sm_Metric s) BucketLabel of None \<Rightarrow> [] | Some l \<Rightarrow> l)"

definition labels_of :: "sample \<Rightarrow> string \<rightharpoonup> string" where
  "labels_of s = map_of (bucket_labels s)"

text \<open>The count of a bucket of the histogram with labels \<open>f\<close>; 0 when there is none.\<close>

definition bucket_count :: "Histogram \<Rightarrow> string \<Rightarrow> int" where
  "bucket_count h le = (case map_of (hi_Buckets h) le of None \<Rightarrow> 0 | Some n \<Rightarrow> n)"

definition hist_count :: "Histogram list \<Rightarrow> (string \<rightharpoonup> string) \<Rightarrow> string \<Rightarrow> int" where
  "hist_count hs f le =
     (case find (\<lambda>h. map_of (hi_Labels h) = f) hs of None \<Rightarrow> 0 | Some h \<Rightarrow> bucket_count h le)"

lemma bucket_count_add:
  "bucket_count (add_to_bucket s h) le =
     (if le = le_of s then wrap 64 (bucket_count h le + trunc_rat (sm_Value s)) else bucket_count h le)"
  by (auto simp: bucket_count_def add_to_bucket_def le_of_def Let_def go_map)

lemma hi_Labels_add [simp]: "hi_Labels (add_to_bucket s h) = hi_Labels h"
  by (simp add: add_to_bucket_def Let_def)

lemma hist_count_convert:
  "hist_count (ConvertSampleToBucket s hs) f le =
     (if f = labels_of s \<and> le = le_of s then wrap 64 (hist_count hs f le + trunc_rat (sm_Value s))
      else hist_count hs f le)"
proof -
  have "hist_count (convert_loop labels s hs) f le =
      (if f = map_of labels \<and> le = le_of s then wrap 64 (hist_count hs f le + trunc_rat (sm_Value s))
       else hist_count hs f le)" for labels
  proof (induction labels s hs rule: convert_loop.induct)
    case (1 labels s)
    have "bucket_count (NewHistogram labels) le = 0" by (simp add: bucket_count_def NewHistogram_def)
    moreover have "hi_Labels (NewHistogram labels) = labels" by (simp add: NewHistogram_def)
    ultimately show ?case by (auto simp: hist_count_def bucket_count_add)
  next
    case (2 labels s h hs)
    then show ?case by (auto simp: hist_count_def bucket_count_add)
  qed
  then show ?thesis by (simp add: ConvertSampleToBucket_def labels_of_def)
qed

lemma wrap_wrap_add: "wrap bits (wrap bits a + b) = wrap bits (a + b)"
  unfolding wrap_def by (simp add: algebra_simps mod_simps)

text \<open>
  Histograms count samples.  After converting any samples, in any order, every bucket of every
  histogram holds the sum of the integral values of the samples with its labels and its bound, as
  far as \<^verbatim>\<open>int\<close> can hold it.
\<close>

theorem histograms_count_samples:
  "hist_count (fold ConvertSampleToBucket samples []) f le =
     wrap 64 (\<Sum>s\<leftarrow>filter (\<lambda>s. labels_of s = f \<and> le_of s = le) samples. trunc_rat (sm_Value s))"
proof -
  have "hist_count (fold ConvertSampleToBucket samples hs) f le =
      wrap 64 (hist_count hs f le + (\<Sum>s\<leftarrow>filter (\<lambda>s. labels_of s = f \<and> le_of s = le) samples. trunc_rat (sm_Value s)))"
    if "wrap 64 (hist_count hs f le) = hist_count hs f le" for hs
    using that
  proof (induction samples arbitrary: hs)
    case (Cons s samples)
    have "wrap 64 (hist_count (ConvertSampleToBucket s hs) f le) = hist_count (ConvertSampleToBucket s hs) f le"
      using Cons.prems wrap_wrap_add[of 64 _ 0] by (simp add: hist_count_convert)
    from Cons.IH[OF this] show ?case
      by (auto simp: hist_count_convert wrap_wrap_add add.assoc)
  qed simp
  from this[of "[]"] show ?thesis by (simp add: hist_count_def wrap_def)
qed

end
