(* ===== verification/Pod_Startup.thy ===== *)
theory Pod_Startup
  imports Phase_Latency Pods_Util Util_Pkg Measurement_Core
begin

text \<open>
  Object selectors (\<^verbatim>\<open>clusterloader2/pkg/util/selector.go\<close>), the measurement of the pod startup latency
  (\<^verbatim>\<open>pkg/measurement/common/slos/pod_startup_latency.go\<close>) and the aggregate of several SLO measurements
  (\<^verbatim>\<open>slo_measurement.go\<close>).  Times count from the zero time of Go.  The event queue
  (\<^verbatim>\<open>k8s.io/client-go/util/workqueue\<close>), the informer and the API server are parameters; every callback of
  a goroutine is one operation on the state of the measurement.
\<close>

section \<open>Selectors\<close>

record ObjectSelector =
  os_Namespace :: string
  os_LabelSelector :: string
  os_FieldSelector :: string

text \<open>\<^verbatim>\<open>metav1.NamespaceAll\<close> is the empty string.\<close>

definition NewObjectSelector :: ObjectSelector where
  "NewObjectSelector = \<lparr>os_Namespace = [], os_LabelSelector = [], os_FieldSelector = []\<rparr>"

text \<open>The value of a getter; the zero value when it returns an error.\<close>

definition or_zero :: "goerr + string \<Rightarrow> string" where
  "or_zero r = (case r of Inl _ \<Rightarrow> [] | Inr s \<Rightarrow> s)"

definition ObjectSelector_Parse :: "params \<Rightarrow> ObjectSelector \<Rightarrow> goerr option \<times> ObjectSelector" where
  "ObjectSelector_Parse ps s =
     (let r = GetStringOrDefault ps ''namespace'' []; s = s\<lparr>os_Namespace := or_zero r\<rparr> in
      case r of Inl err \<Rightarrow> (Some err, s) | Inr _ \<Rightarrow>
     (let r = GetStringOrDefault ps ''labelSelector'' []; s = s\<lparr>os_LabelSelector := or_zero r\<rparr> in
      case r of Inl err \<Rightarrow> (Some err, s) | Inr _ \<Rightarrow>
     (let r = GetStringOrDefault ps ''fieldSelector'' []; s = s\<lparr>os_FieldSelector := or_zero r\<rparr> in
      case r of Inl err \<Rightarrow> (Some err, s) | Inr _ \<Rightarrow> (None, s))))"

fun strings_Join :: "string list \<Rightarrow> string \<Rightarrow> string" where
  "strings_Join [] sep = []"
| "strings_Join [x] sep = x"
| "strings_Join (x # y # xs) sep = x @ sep @ strings_Join (y # xs) sep"

definition CreateSelectorsString :: "string \<Rightarrow> string \<Rightarrow> string \<Rightarrow> string" where
  "CreateSelectorsString namespace labelSelector fieldSelector =
     (let selectorsStrings =
            (if namespace \<noteq> [] then [''namespace('' @ namespace @ '')''] else []) @
            (if labelSelector \<noteq> [] then [''labelSelector('' @ labelSelector @ '')''] else []) @
            (if fieldSelector \<noteq> [] then [''fieldSelector('' @ fieldSelector @ '')''] else [])
      in if length selectorsStrings = 0 then ''everything'' else strings_Join selectorsStrings '', '')"

definition ObjectSelector_String :: "ObjectSelector \<Rightarrow> string" where
  "ObjectSelector_String s = CreateSelectorsString (os_Namespace s) (os_LabelSelector s) (os_FieldSelector s)"

section \<open>The measurement\<close>

abbreviation Second_ns :: duration where "Second_ns \<equiv> 1000000000"

definition defaultPodStartupLatencyThreshold :: duration where
  "defaultPodStartupLatencyThreshold = 5 * Second_ns"

definition podStartupLatencyMeasurementName :: string where
  "podStartupLatencyMeasurementName = ''PodStartupLatency''"

abbreviation createPhase :: string where "createPhase \<equiv> ''create''"
abbreviation schedulePhase :: string where "schedulePhase \<equiv> ''schedule''"
abbreviation runPhase :: string where "runPhase \<equiv> ''run''"
abbreviation watchPhase :: string where "watchPhase \<equiv> ''watch''"

text \<open>The object of an event: nil, a pod, or something else.\<close>

datatype event_obj = NilObj | PodObj Pod | OtherObj

record eventData =
  ed_obj :: event_obj
  ed_recvTime :: gotime

text \<open>
  The event queue: \<open>wq_Get\<close> answers \<open>None\<close> while it blocks and \<open>(None, q)\<close> when the queue is shut down and
  empty.
\<close>

record ('a, 'q) workqueue =
  wq_new :: 'q
  wq_Add :: "'a \<Rightarrow> 'q \<Rightarrow> 'q"
  wq_Get :: "'q \<Rightarrow> ('a option \<times> 'q) option"
  wq_Done :: "'a \<Rightarrow> 'q \<Rightarrow> 'q"
  wq_ShutDown :: "'q \<Rightarrow> 'q"

record 'q podStartupLatencyMeasurement =
  ps_selector :: ObjectSelector
  ps_isRunning :: bool
  ps_eventQueue :: 'q
  ps_podStartupEntries :: ObjectTransitionTimes
  ps_podMetadata :: PodsMetadata
  ps_threshold :: duration
  ps_perc50Threshold :: duration
  ps_perc90Threshold :: duration
  ps_perc99Threshold :: duration
  ps_mapEventsByOrder :: bool

record SchedEvent =
  se_Namespace :: string
  se_Name :: string
  se_EventTime :: gotime
  se_FirstTimestamp :: gotime

text \<open>
  \<open>pe_sync\<close> is the result of \<^verbatim>\<open>informer.StartAndSync\<close>, \<open>pe_schedEvents\<close> the list of the scheduler's events
  in a namespace, \<open>pe_pretty\<close> the JSON printer.
\<close>

record 'q pstartup_env =
  pe_queue :: "(eventData, 'q) workqueue"
  pe_sync :: "goerr option"
  pe_schedEvents :: "string \<Rightarrow> string \<Rightarrow> goerr + SchedEvent list"
  pe_pretty :: "PerfData \<Rightarrow> goerr + string"
  pe_show :: "duration \<Rightarrow> string"
  pe_parseDuration :: "string \<Rightarrow> goerr + duration"
  pe_now :: gotime

definition createPodStartupLatencyMeasurement :: "'q pstartup_env \<Rightarrow> 'q podStartupLatencyMeasurement" where
  "createPodStartupLatencyMeasurement env =
     \<lparr>ps_selector = NewObjectSelector, ps_isRunning = False, ps_eventQueue = wq_new (pe_queue env),
      ps_podStartupEntries = NewObjectTransitionTimes podStartupLatencyMeasurementName,
      ps_podMetadata = NewPodsMetadata podStartupLatencyMeasurementName,
      ps_threshold = 0, ps_perc50Threshold = 0, ps_perc90Threshold = 0, ps_perc99Threshold = 0,
      ps_mapEventsByOrder = False\<rparr>"

definition ps_start ::
  "'q pstartup_env \<Rightarrow> 'q podStartupLatencyMeasurement \<Rightarrow> goerr option \<times> 'q podStartupLatencyMeasurement" where
  "ps_start env p = (if ps_isRunning p then (None, p) else (pe_sync env, p\<lparr>ps_isRunning := True\<rparr>))"

definition ps_addEvent ::
  "'q pstartup_env \<Rightarrow> event_obj \<Rightarrow> gotime \<Rightarrow> 'q podStartupLatencyMeasurement \<Rightarrow> 'q podStartupLatencyMeasurement" where
  "ps_addEvent env obj now p =
     p\<lparr>ps_eventQueue := wq_Add (pe_queue env) \<lparr>ed_obj = obj, ed_recvTime = now\<rparr> (ps_eventQueue p)\<rparr>"

definition ps_stop ::
  "'q pstartup_env \<Rightarrow> 'q podStartupLatencyMeasurement \<Rightarrow> 'q podStartupLatencyMeasurement" where
  "ps_stop env p =
     (if ps_isRunning p
      then p\<lparr>ps_isRunning := False, ps_eventQueue := wq_ShutDown (pe_queue env) (ps_eventQueue p)\<rparr>
      else p)"

section \<open>Events\<close>

definition createMetaNamespaceKey :: "string \<Rightarrow> string \<Rightarrow> string" where
  "createMetaNamespaceKey namespace name = namespace @ ''/'' @ name"

fun stateless_loop :: "Volume list \<Rightarrow> bool" where
  "stateless_loop [] = True"
| "stateless_loop (v # vs) =
     (if vo_EmptyDir v \<or> vo_DownwardAPI v \<or> vo_ConfigMap v \<or> vo_Secret v \<or> vo_Projected v
      then stateless_loop vs else False)"

definition isPodStateless :: "Pod \<Rightarrow> bool" where
  "isPodStateless pod = stateless_loop (po_Volumes pod)"

text \<open>The latest start time of the running containers; the zero time when none is running.\<close>

definition latest_start :: "gotime option list \<Rightarrow> gotime" where
  "latest_start css =
     fold (\<lambda>cs startTime. case cs of
             Some startedAt \<Rightarrow> if startTime < startedAt then startedAt else startTime
           | None \<Rightarrow> startTime) css 0"

definition processEvent ::
  "eventData \<Rightarrow> 'q podStartupLatencyMeasurement \<Rightarrow> 'q podStartupLatencyMeasurement" where
  "processEvent event p =
     (case ed_obj event of
        NilObj \<Rightarrow> p
      | OtherObj \<Rightarrow> p
      | PodObj pod \<Rightarrow>
          let key = createMetaNamespaceKey (po_Namespace pod) (po_Name pod);
              p = p\<lparr>ps_podMetadata := SetStateless (ps_podMetadata p) key (isPodStateless pod)\<rparr>
          in if po_Phase pod = PodRunning then
               (case ot_Get (ps_podStartupEntries p) key createPhase of
                  Some _ \<Rightarrow> p
                | None \<Rightarrow>
                    let ott = ps_podStartupEntries p;
                        ott = ot_Set ott key watchPhase (ed_recvTime event);
                        ott = ot_Set ott key createPhase (po_CreationTimestamp pod);
                        startTime = latest_start (po_ContainerStatuses pod);
                        ott = (if startTime \<noteq> 0 then ot_Set ott key runPhase startTime else ott)
                    in p\<lparr>ps_podStartupEntries := ott\<rparr>)
             else p)"

text \<open>One round of the processing goroutine; the flag tells whether it goes on.\<close>

definition processNextWorkItem ::
  "'q pstartup_env \<Rightarrow> 'q podStartupLatencyMeasurement \<Rightarrow> (bool \<times> 'q podStartupLatencyMeasurement) option" where
  "processNextWorkItem env p =
     (case wq_Get (pe_queue env) (ps_eventQueue p) of
        None \<Rightarrow> None
      | Some (None, q) \<Rightarrow> Some (False, p\<lparr>ps_eventQueue := q\<rparr>)
      | Some (Some item, q) \<Rightarrow>
          let p = processEvent item (p\<lparr>ps_eventQueue := q\<rparr>)
          in Some (True, p\<lparr>ps_eventQueue := wq_Done (pe_queue env) item (ps_eventQueue p)\<rparr>))"

section \<open>Gathering\<close>

definition podStartupTransitions :: "(string, Transition) gomap" where
  "podStartupTransitions =
     [(''create_to_schedule'', \<lparr>tr_From = createPhase, tr_To = schedulePhase, tr_Threshold = 0\<rparr>),
      (''schedule_to_run'', \<lparr>tr_From = schedulePhase, tr_To = runPhase, tr_Threshold = 0\<rparr>),
      (''run_to_watch'', \<lparr>tr_From = runPhase, tr_To = watchPhase, tr_Threshold = 0\<rparr>),
      (''schedule_to_watch'', \<lparr>tr_From = schedulePhase, tr_To = watchPhase, tr_Threshold = 0\<rparr>),
      (''pod_startup'', \<lparr>tr_From = createPhase, tr_To = watchPhase, tr_Threshold = 0\<rparr>)]"

definition podStartupTransitionsWithThreshold :: "duration \<Rightarrow> (string, Transition) gomap" where
  "podStartupTransitionsWithThreshold threshold =
     (let result = gomap_copy podStartupTransitions [];
          podStartupTransition = the (map_of result ''pod_startup'')
      in AList.update ''pod_startup'' (podStartupTransition\<lparr>tr_Threshold := threshold\<rparr>) result)"

definition sched_time :: "SchedEvent \<Rightarrow> gotime" where
  "sched_time e = (if se_EventTime e \<noteq> 0 then se_EventTime e else se_FirstTimestamp e)"

text \<open>Which key gets the time of which event.\<close>

definition schedule_sets ::
  "'q podStartupLatencyMeasurement \<Rightarrow> SchedEvent list \<Rightarrow> (string \<times> SchedEvent) list" where
  "schedule_sets p items =
     (let ott = ps_podStartupEntries p;
          key_of = (\<lambda>e. createMetaNamespaceKey (se_Namespace e) (se_Name e));
          items = filter (\<lambda>e. ot_Get ott (key_of e) createPhase \<noteq> None) items
      in if ps_mapEventsByOrder p
         then zip (map kt_Key (GetOrderedKeys ott createPhase)) (sort_key sched_time items)
         else map (\<lambda>e. (key_of e, e)) items)"

definition gatherScheduleTimes ::
  "'q pstartup_env \<Rightarrow> string \<Rightarrow> 'q podStartupLatencyMeasurement \<Rightarrow>
   goerr option \<times> 'q podStartupLatencyMeasurement" where
  "gatherScheduleTimes env schedulerName p =
     (case pe_schedEvents env (os_Namespace (ps_selector p)) schedulerName of
        Inl err \<Rightarrow> (Some err, p)
      | Inr items \<Rightarrow>
          (None, p\<lparr>ps_podStartupEntries :=
             fold (\<lambda>(key, e) ott. ot_Set ott key schedulePhase (sched_time e)) (schedule_sets p items)
               (ps_podStartupEntries p)\<rparr>))"

text \<open>The loop over the checks, from the error of the checks before.\<close>

fun startup_checks ::
  "'q pstartup_env \<Rightarrow> string \<Rightarrow> 'q podStartupLatencyMeasurement \<Rightarrow> (string \<times> (string \<Rightarrow> bool)) list \<Rightarrow>
   genericSummary list \<Rightarrow> goerr option \<Rightarrow> (genericSummary list \<times> goerr option) option" where
  "startup_checks env identifier p [] summaries err = Some (summaries, err)"
| "startup_checks env identifier p ((namePrefix, flt) # checks) summaries err =
     (case CalculateTransitionsLatency (ps_podStartupEntries p)
             (podStartupTransitionsWithThreshold (ps_threshold p)) flt of
        None \<Rightarrow> None
      | Some podStartupLatency \<Rightarrow>
          (case map_of podStartupLatency ''pod_startup'' of
             None \<Rightarrow> None
           | Some lm \<Rightarrow>
               let err = (case VerifyThresholdByPercentile (pe_show env) lm (ps_perc50Threshold p)
                                 (ps_perc90Threshold p) (ps_perc99Threshold p) of
                            Some slosErr \<Rightarrow> Some (NewMetricViolationError ''pod startup'' (err_msg slosErr))
                          | None \<Rightarrow> err)
               in (case pe_pretty env (LatencyMapToPerfData podStartupLatency) of
                     Inl jsonErr \<Rightarrow> Some ([], Some jsonErr)
                   | Inr content \<Rightarrow>
                       let summaryName = namePrefix @ podStartupLatencyMeasurementName @ ''_'' @ identifier
                       in startup_checks env identifier p checks
                            (summaries @ [CreateSummary (pe_now env) summaryName ''json'' content]) err)))"

definition startup_filters :: "'q podStartupLatencyMeasurement \<Rightarrow> (string \<times> (string \<Rightarrow> bool)) list" where
  "startup_filters p =
     [([], MatchAll), (''Stateless'', FilterStateless (ps_podMetadata p)),
      (''Stateful'', FilterStateful (ps_podMetadata p))]"

definition ps_gather ::
  "'q pstartup_env \<Rightarrow> string \<Rightarrow> string \<Rightarrow> 'q podStartupLatencyMeasurement \<Rightarrow>
   ((genericSummary list \<times> goerr option) \<times> 'q podStartupLatencyMeasurement) option" where
  "ps_gather env identifier schedulerName p =
     (if \<not> ps_isRunning p
      then Some (([], Some (Errorf (''metric '' @ podStartupLatencyMeasurementName @ '' has not been started'') [])), p)
      else
        (case gatherScheduleTimes env schedulerName (ps_stop env p) of
           (Some err, p) \<Rightarrow> Some (([], Some err), p)
         | (None, p) \<Rightarrow>
             map_option (\<lambda>r. (r, p)) (startup_checks env identifier p (startup_filters p) [] None)))"

text \<open>The parameters of \<^verbatim>\<open>start\<close>, read one after the other.\<close>

definition duration_field ::
  "'q pstartup_env \<Rightarrow> params \<Rightarrow> string \<Rightarrow> duration \<Rightarrow>
   (duration \<Rightarrow> 'q podStartupLatencyMeasurement \<Rightarrow> 'q podStartupLatencyMeasurement) \<Rightarrow>
   'q podStartupLatencyMeasurement \<Rightarrow> goerr option \<times> 'q podStartupLatencyMeasurement" where
  "duration_field env ps key defaultValue upd p =
     (case GetDurationOrDefault (pe_parseDuration env) ps key defaultValue of
        Inl err \<Rightarrow> (Some err, upd 0 p)
      | Inr d \<Rightarrow> (None, upd d p))"

definition ps_start_params ::
  "'q pstartup_env \<Rightarrow> params \<Rightarrow> 'q podStartupLatencyMeasurement \<Rightarrow> goerr option \<times> 'q podStartupLatencyMeasurement" where
  "ps_start_params env ps p =
     (case ObjectSelector_Parse ps (ps_selector p) of
        (Some err, s) \<Rightarrow> (Some err, p\<lparr>ps_selector := s\<rparr>)
      | (None, s) \<Rightarrow>
     (case duration_field env ps ''threshold'' defaultPodStartupLatencyThreshold
             (\<lambda>d p. p\<lparr>ps_threshold := d\<rparr>) (p\<lparr>ps_selector := s\<rparr>) of
        (Some err, p) \<Rightarrow> (Some err, p)
      | (None, p) \<Rightarrow>
     (case duration_field env ps ''perc50Threshold'' (ps_threshold p) (\<lambda>d p. p\<lparr>ps_perc50Threshold := d\<rparr>) p of
        (Some err, p) \<Rightarrow> (Some err, p)
      | (None, p) \<Rightarrow>
     (case duration_field env ps ''perc90Threshold'' (ps_threshold p) (\<lambda>d p. p\<lparr>ps_perc90Threshold := d\<rparr>) p of
        (Some err, p) \<Rightarrow> (Some err, p)
      | (None, p) \<Rightarrow>
     (case duration_field env ps ''perc99Threshold'' (ps_threshold p) (\<lambda>d p. p\<lparr>ps_perc99Threshold := d\<rparr>) p of
        (Some err, p) \<Rightarrow> (Some err, p)
      | (None, p) \<Rightarrow>
     (case GetBoolOrDefault ps ''mapEventsByOrder'' False of
        Inl err \<Rightarrow> (Some err, p\<lparr>ps_mapEventsByOrder := False\<rparr>)
      | Inr b \<Rightarrow> (None, p\<lparr>ps_mapEventsByOrder := b\<rparr>)))))))"

definition ps_Execute ::
  "'q pstartup_env \<Rightarrow> MeasurementConfig \<Rightarrow> 'q podStartupLatencyMeasurement \<Rightarrow>
   ((genericSummary list \<times> goerr option) \<times> 'q podStartupLatencyMeasurement) option" where
  "ps_Execute env config p =
     (case getString (mc_Params config) ''action'' of
        Inl err \<Rightarrow> Some (([], Some err), p)
      | Inr action \<Rightarrow>
          if action = ''start'' then
            (case ps_start_params env (mc_Params config) p of
               (Some err, p) \<Rightarrow> Some (([], Some err), p)
             | (None, p) \<Rightarrow> let (err, p) = ps_start env p in Some (([], err), p))
          else if action = ''gather'' then
            (case GetStringOrDefault (mc_Params config) ''schedulerName'' ''default-scheduler'' of
               Inl err \<Rightarrow> Some (([], Some err), p)
             | Inr schedulerName \<Rightarrow> ps_gather env (mc_Identifier config) schedulerName p)
          else Some (([], Some (Errorf (''unknown action '' @ action) [])), p))"

section \<open>Aggregated measurements\<close>

text \<open>
  \<^verbatim>\<open>SLOMeasurement\<close>: the measurements are pairs of their \<^verbatim>\<open>String()\<close> and their state; \<open>exec\<close> runs one.
\<close>

definition getMeasurementConfig :: "MeasurementConfig \<Rightarrow> string \<Rightarrow> goerr + MeasurementConfig" where
  "getMeasurementConfig config measurementName =
     (let measurementConfig = config\<lparr>mc_Params := CloneMap (mc_Params config)\<rparr> in
      case getMap (mc_Params config) ''overrides'' of
        Inl err \<Rightarrow> if IsErrKeyNotFound err then Inr measurementConfig else Inl err
      | Inr overrides \<Rightarrow>
          (case getMap overrides measurementName of
             Inl err \<Rightarrow> if IsErrKeyNotFound err then Inr measurementConfig else Inl err
           | Inr measurementOverrides \<Rightarrow>
               Inr (measurementConfig\<lparr>mc_Params := gomap_copy measurementOverrides (mc_Params measurementConfig)\<rparr>)))"

fun slo_loop ::
  "(string \<Rightarrow> 'i \<Rightarrow> MeasurementConfig \<Rightarrow> 'w \<Rightarrow> (genericSummary list \<times> goerr option) \<times> 'i \<times> 'w) \<Rightarrow>
   MeasurementConfig \<Rightarrow> (string \<times> 'i) list \<Rightarrow> ErrorList \<Rightarrow> genericSummary list \<Rightarrow> 'w \<Rightarrow>
   (ErrorList \<times> genericSummary list) \<times> (string \<times> 'i) list \<times> 'w" where
  "slo_loop exec config [] errList summaries w = ((errList, summaries), [], w)"
| "slo_loop exec config ((name, inst) # ms) errList summaries w =
     (case getMeasurementConfig config name of
        Inl err \<Rightarrow>
          (let (r, ms, w) = slo_loop exec config ms (Append errList [err]) summaries w in (r, (name, inst) # ms, w))
      | Inr measurementConfig \<Rightarrow>
          (let ((ss, err), inst, w) = exec name inst measurementConfig w;
               (errList, summaries) = (case err of Some e \<Rightarrow> (Append errList [e], summaries)
                                                 | None \<Rightarrow> (errList, summaries @ ss));
               (r, ms, w) = slo_loop exec config ms errList summaries w
           in (r, (name, inst) # ms, w)))"

definition slo_Execute ::
  "(string \<Rightarrow> 'i \<Rightarrow> MeasurementConfig \<Rightarrow> 'w \<Rightarrow> (genericSummary list \<times> goerr option) \<times> 'i \<times> 'w) \<Rightarrow>
   MeasurementConfig \<Rightarrow> (string \<times> 'i) list \<Rightarrow> 'w \<Rightarrow>
   (genericSummary list \<times> ErrorList option) \<times> (string \<times> 'i) list \<times> 'w" where
  "slo_Execute exec config ms w =
     (let ((errList, summaries), ms, w) = slo_loop exec config ms (NewErrorList []) [] w
      in if \<not> IsEmpty errList then (([], Some errList), ms, w) else ((summaries, None), ms, w))"

section \<open>What events record\<close>

definition pod_key :: "Pod \<Rightarrow> string" where
  "pod_key pod = createMetaNamespaceKey (po_Namespace pod) (po_Name pod)"

text \<open>An event in which the pod \<open>key\<close> is seen running.\<close>

definition running_event :: "string \<Rightarrow> eventData \<Rightarrow> bool" where
  "running_event key e =
     (case ed_obj e of PodObj pod \<Rightarrow> pod_key pod = key \<and> po_Phase pod = PodRunning | _ \<Rightarrow> False)"

lemma latest_start_Max: "latest_start css = Max (insert 0 {t. Some t \<in> set css})"
proof -
  have "fold (\<lambda>cs m. case cs of Some s \<Rightarrow> if m < s then s else m | None \<Rightarrow> m) css (a :: gotime) =
      Max (insert a {t. Some t \<in> set css})" for a
  proof (induction css arbitrary: a)
    case (Cons cs css)
    have fin: "finite {t. Some t \<in> set css}"
      by (rule finite_subset[of _ "the ` set css"]) force+
    show ?case
    proof (cases cs)
      case (Some s)
      have "{t. Some t \<in> set (cs # css)} = insert s {t. Some t \<in> set css}" using Some by auto
      moreover have "Max (insert a (insert s {t. Some t \<in> set css})) = Max (insert (max a s) {t. Some t \<in> set css})"
        using fin by (cases "{t. Some t \<in> set css} = {}") (simp_all add: max.assoc)
      moreover have "(if a < s then s else a) = max a s" by (simp add: max_def)
      ultimately show ?thesis using Some Cons.IH[of "max a s"] by simp
    qed (simp add: Cons.IH)
  qed simp
  then show ?thesis by (simp add: latest_start_def)
qed

lemma processEvent_other:
  "\<not> running_event key e \<Longrightarrow>
     ot_Get (ps_podStartupEntries (processEvent e p)) key ph = ot_Get (ps_podStartupEntries p) key ph"
  by (auto simp: processEvent_def running_event_def pod_key_def Let_def split: event_obj.splits option.splits)

lemma processEvent_known:
  "ot_Get (ps_podStartupEntries p) key createPhase \<noteq> None \<Longrightarrow>
     ot_Get (ps_podStartupEntries (processEvent e p)) key ph = ot_Get (ps_podStartupEntries p) key ph"
  by (auto simp: processEvent_def Let_def split: event_obj.splits option.splits)

lemma processEvents_known:
  "ot_Get (ps_podStartupEntries p) key createPhase \<noteq> None \<Longrightarrow>
     ot_Get (ps_podStartupEntries (fold processEvent evs p)) key ph = ot_Get (ps_podStartupEntries p) key ph"
  by (induction evs arbitrary: p) (simp_all add: processEvent_known)

text \<open>What the first event that shows a pod running records.\<close>

definition recorded_phase :: "eventData \<Rightarrow> string \<Rightarrow> gotime option" where
  "recorded_phase e ph =
     (case ed_obj e of
        PodObj pod \<Rightarrow>
          if ph = watchPhase then Some (ed_recvTime e)
          else if ph = createPhase then Some (po_CreationTimestamp pod)
          else if ph = runPhase \<and> (\<exists>t \<in> set (po_ContainerStatuses pod). \<exists>s > 0. t = Some s)
          then Some (Max {s. Some s \<in> set (po_ContainerStatuses pod)})
          else None
      | _ \<Rightarrow> None)"

lemma latest_start_cases:
  "latest_start css = (if \<exists>t \<in> set css. \<exists>s > 0. t = Some s then Max {s. Some s \<in> set css} else 0)"
proof -
  let ?S = "{s. Some s \<in> set css}"
  have fin: "finite ?S" by (rule finite_subset[of _ "the ` set css"]) force+
  show ?thesis
  proof (cases "\<exists>t \<in> set css. \<exists>s > 0. t = Some s")
    case True
    then obtain s where s: "s \<in> ?S" "s > 0" by auto
    then have "0 < Max ?S" using fin by (meson Max_ge order_less_le_trans)
    moreover have "?S \<noteq> {}" using s by blast
    ultimately show ?thesis using True fin by (simp add: latest_start_Max max_def)
  next
    case False
    then have "\<forall>s \<in> ?S. s \<le> 0" by force
    then have "Max (insert 0 ?S) = 0" using fin by (intro Max_eqI) auto
    then show ?thesis unfolding latest_start_Max using False by (simp only: if_False)
  qed
qed

lemma latest_start_pos: "latest_start css \<noteq> 0 \<longleftrightarrow> (\<exists>t \<in> set css. \<exists>s > 0. t = Some s)"
proof -
  have fin: "finite {s. Some s \<in> set css}" by (rule finite_subset[of _ "the ` set css"]) force+
  then have "0 < Max (insert 0 {s. Some s \<in> set css}) \<longleftrightarrow> (\<exists>s \<in> insert 0 {s. Some s \<in> set css}. 0 < s)"
    by (intro Max_gr_iff) auto
  moreover have "0 \<le> Max (insert 0 {s. Some s \<in> set css})" using fin by (intro Max_ge) auto
  ultimately show ?thesis unfolding latest_start_Max by force
qed

lemma processEvent_first:
  assumes "running_event key e" "\<And>ph. ot_Get (ps_podStartupEntries p) key ph = None"
  shows "ot_Get (ps_podStartupEntries (processEvent e p)) key ph = recorded_phase e ph"
proof -
  obtain pod where "ed_obj e = PodObj pod" "key = createMetaNamespaceKey (po_Namespace pod) (po_Name pod)"
    "po_Phase pod = PodRunning"
    using assms(1) by (auto simp: running_event_def pod_key_def split: event_obj.splits)
  moreover have "latest_start (po_ContainerStatuses pod) \<noteq> 0 \<longleftrightarrow>
      (\<exists>t \<in> set (po_ContainerStatuses pod). \<exists>s > 0. t = Some s)"
    by (rule latest_start_pos)
  ultimately show ?thesis
    using assms(2) latest_start_cases[of "po_ContainerStatuses pod"]
    by (auto simp: processEvent_def recorded_phase_def Let_def)
qed

text \<open>
  What the events of a run record.  Starting from an empty table, the times of a pod are those of
  the first event in which it was seen running: when it was received, when the pod was created and
  when the last of its running containers started; later events change nothing, and a pod that was
  never seen running has no times.
\<close>

theorem startup_times_recorded:
  assumes "ps_podStartupEntries p = NewObjectTransitionTimes name"
  shows "ot_Get (ps_podStartupEntries (fold processEvent evs p)) key ph =
    (case find (running_event key) evs of None \<Rightarrow> None | Some e \<Rightarrow> recorded_phase e ph)"
proof -
  have "ot_Get (ps_podStartupEntries (fold processEvent evs p)) key ph =
      (case find (running_event key) evs of None \<Rightarrow> None | Some e \<Rightarrow> recorded_phase e ph)"
    if "\<And>ph. ot_Get (ps_podStartupEntries p) key ph = None" for p :: "'a podStartupLatencyMeasurement"
    using that
  proof (induction evs arbitrary: p)
    case (Cons e evs)
    show ?case
    proof (cases "running_event key e")
      case True
      note first = processEvent_first[OF True Cons.prems]
      have "recorded_phase e createPhase \<noteq> None"
        using True by (auto simp: recorded_phase_def running_event_def split: event_obj.splits)
      then show ?thesis using True first processEvents_known[of "processEvent e p" key evs ph] by simp
    next
      case False
      have "\<And>ph. ot_Get (ps_podStartupEntries (processEvent e p)) key ph = None"
        by (rule processEvent_other[OF False, THEN trans]) (rule Cons.prems)
      from Cons.IH[OF this] False show ?thesis by simp
    qed
  qed simp
  then show ?thesis using assms by simp
qed

definition demo_event :: eventData where
  "demo_event = \<lparr>ed_obj = PodObj ready_pod, ed_recvTime = 9\<rparr>"

theorem startup_times_recorded_witness:
  "ot_Get (ps_podStartupEntries (fold processEvent [demo_event, demo_event\<lparr>ed_recvTime := 20\<rparr>]
      \<lparr>ps_selector = NewObjectSelector, ps_isRunning = True, ps_eventQueue = (),
       ps_podStartupEntries = NewObjectTransitionTimes [], ps_podMetadata = NewPodsMetadata [],
       ps_threshold = 0, ps_perc50Threshold = 0, ps_perc90Threshold = 0, ps_perc99Threshold = 0,
       ps_mapEventsByOrder = False\<rparr>)) ''ns/p'' watchPhase = Some 9"
  by (subst startup_times_recorded)
    (simp_all add: demo_event_def ready_pod_def running_event_def pod_key_def createMetaNamespaceKey_def
      recorded_phase_def)

section \<open>The objective is decided\<close>

definition startup_transition :: "duration \<Rightarrow> Transition" where
  "startup_transition T = \<lparr>tr_From = createPhase, tr_To = watchPhase, tr_Threshold = T\<rparr>"

definition startup_latencies :: "ObjectTransitionTimes \<Rightarrow> (string \<Rightarrow> bool) \<Rightarrow> duration list" where
  "startup_latencies ott flt = latencies ott (startup_transition 0) flt"

lemma transitions_with_threshold:
  "gomap_ok (podStartupTransitionsWithThreshold T)"
  "map_of (podStartupTransitionsWithThreshold T) ''pod_startup'' = Some (startup_transition T)"
  by (simp_all add: podStartupTransitionsWithThreshold_def podStartupTransitions_def gomap_copy_def
      startup_transition_def)

lemma latencies_threshold: "latencies ott (startup_transition T) flt = startup_latencies ott flt"
proof -
  have "lag_of (startup_transition T) flt = lag_of (startup_transition 0) flt"
    by (simp add: lag_of_def startup_transition_def cong: if_cong option.case_cong)
  then show ?thesis by (simp add: startup_latencies_def latencies_def)
qed

text \<open>Schedule times are set for known pods only; they do not touch the startup latencies.\<close>

lemma alist_update_known:
  assumes "map_of m k = Some v"
  shows "length (AList.update k v' m) = length m"
    and "f (k, v') = f (k, v) \<Longrightarrow> List.map_filter f (AList.update k v' m) = List.map_filter f m"
  using assms by (induction m) (auto simp: List.map_filter_simps split: option.splits if_splits)

lemma set_schedule_neutral:
  assumes "ot_Get ott key createPhase \<noteq> None"
  shows "startup_latencies (ot_Set ott key schedulePhase t) flt = startup_latencies ott flt"
    and "length (ot_times (ot_Set ott key schedulePhase t)) = length (ot_times ott)"
proof -
  obtain e where e: "map_of (ot_times ott) key = Some e"
    using assms by (auto simp: ot_Get_def split: option.splits)
  have "lag_of tr flt (key, AList.update schedulePhase t e) = lag_of tr flt (key, e)"
    if "tr_From tr = createPhase" "tr_To tr = watchPhase" for tr
    using that by (simp add: lag_of_def go_map cong: if_cong option.case_cong)
  then show "startup_latencies (ot_Set ott key schedulePhase t) flt = startup_latencies ott flt"
    unfolding startup_latencies_def latencies_def ot_Set_def
    using e alist_update_known(2)[OF e, of "lag_of (startup_transition 0) flt"]
    by (simp add: startup_transition_def)
  show "length (ot_times (ot_Set ott key schedulePhase t)) = length (ot_times ott)"
    using e by (simp add: ot_Set_def alist_update_known(1)[OF e])
qed

lemma set_schedules_neutral:
  assumes "\<forall>(key, e) \<in> set sets. ot_Get ott key createPhase \<noteq> None"
  shows "startup_latencies (fold (\<lambda>(key, e) ott. ot_Set ott key schedulePhase (sched_time e)) sets ott) flt =
      startup_latencies ott flt
    \<and> length (ot_times (fold (\<lambda>(key, e) ott. ot_Set ott key schedulePhase (sched_time e)) sets ott)) =
      length (ot_times ott)"
  using assms
proof (induction sets arbitrary: ott)
  case (Cons ke sets)
  obtain key e where ke: "ke = (key, e)" by fastforce
  let ?ott = "ot_Set ott key schedulePhase (sched_time e)"
  have "\<forall>(key, e) \<in> set sets. ot_Get ?ott key createPhase \<noteq> None" using Cons.prems by auto
  from Cons.IH[OF this] show ?case
    using set_schedule_neutral[of ott key] Cons.prems by (simp add: ke)
qed simp

lemma GetOrderedKeys_known:
  "ot_ok ott \<Longrightarrow> k \<in> set (map kt_Key (GetOrderedKeys ott ph)) \<Longrightarrow> ot_Get ott k ph \<noteq> None"
proof -
  assume ok: "ot_ok ott" and "k \<in> set (map kt_Key (GetOrderedKeys ott ph))"
  then obtain e t where "(k, e) \<in> set (ot_times ott)" "map_of e ph = Some t"
    by (auto simp: GetOrderedKeys_def List.map_filter_def split: option.splits)
  with ok show ?thesis by (simp add: ot_ok_def ot_Get_def)
qed

lemma schedule_sets_known:
  assumes "ot_ok (ps_podStartupEntries p)"
  shows "\<forall>(key, e) \<in> set (schedule_sets p items). ot_Get (ps_podStartupEntries p) key createPhase \<noteq> None"
proof (cases "ps_mapEventsByOrder p")
  case True
  then show ?thesis
    using GetOrderedKeys_known[OF assms] unfolding schedule_sets_def Let_def
    by (simp del: set_map) (blast dest: set_zip_leftD)
qed (auto simp: schedule_sets_def Let_def)

text \<open>The state after the schedule times were gathered.\<close>

lemma gatherScheduleTimes_keeps:
  assumes "gatherScheduleTimes env sch p = (None, p')" and "ot_ok (ps_podStartupEntries p)"
  shows "startup_latencies (ps_podStartupEntries p') flt = startup_latencies (ps_podStartupEntries p) flt"
    and "length (ot_times (ps_podStartupEntries p')) = length (ot_times (ps_podStartupEntries p))"
    and "ps_podMetadata p' = ps_podMetadata p" "ps_perc50Threshold p' = ps_perc50Threshold p"
    and "ps_perc90Threshold p' = ps_perc90Threshold p" "ps_perc99Threshold p' = ps_perc99Threshold p"
    and "ps_isRunning p' = ps_isRunning p"
proof -
  let ?ott = "ps_podStartupEntries p"
  obtain items where p': "p' = p\<lparr>ps_podStartupEntries :=
        fold (\<lambda>(key, e) ott. ot_Set ott key schedulePhase (sched_time e)) (schedule_sets p items) ?ott\<rparr>"
    using assms(1) by (auto simp: gatherScheduleTimes_def split: sum.splits)
  note known = schedule_sets_known[OF assms(2)]
  from set_schedules_neutral[OF known]
  show "startup_latencies (ps_podStartupEntries p') flt = startup_latencies ?ott flt"
    "length (ot_times (ps_podStartupEntries p')) = length (ot_times ?ott)"
    unfolding p' by simp_all
qed (use assms(1) in \<open>auto simp: gatherScheduleTimes_def Let_def split: sum.splits\<close>)

text \<open>The three thresholds against the latencies of the pods a filter takes.\<close>

definition slo_met :: "'q podStartupLatencyMeasurement \<Rightarrow> (string \<Rightarrow> bool) \<Rightarrow> bool" where
  "slo_met p flt \<longleftrightarrow>
     (let L = startup_latencies (ps_podStartupEntries p) flt in
      50 * length L \<le> 100 * count_le (ps_perc50Threshold p) L \<and>
      90 * length L \<le> 100 * count_le (ps_perc90Threshold p) L \<and>
      99 * length L \<le> 100 * count_le (ps_perc99Threshold p) L)"

definition thresholds_ok :: "'q podStartupLatencyMeasurement \<Rightarrow> bool" where
  "thresholds_ok p \<longleftrightarrow> 0 \<le> ps_perc50Threshold p \<and> 0 \<le> ps_perc90Threshold p \<and> 0 \<le> ps_perc99Threshold p"

lemma startup_checks_result:
  assumes len: "99 * length (ot_times (ps_podStartupEntries p)) < 2 ^ 53" and thr: "thresholds_ok p"
    and pretty: "\<And>d. \<exists>content. pe_pretty env d = Inr content"
  shows "\<exists>summaries' err'. startup_checks env identifier p checks summaries err = Some (summaries', err')
    \<and> length summaries' = length summaries + length checks
    \<and> (err' = None \<longleftrightarrow> err = None \<and> (\<forall>(n, flt) \<in> set checks. slo_met p flt))
    \<and> (\<forall>e. err' = Some e \<longrightarrow> err = Some e \<or> IsMetricViolationError e)"
proof (induction checks arbitrary: summaries err)
  case (Cons c checks)
  obtain n flt where c: "c = (n, flt)" by fastforce
  obtain m lm where m: "CalculateTransitionsLatency (ps_podStartupEntries p)
        (podStartupTransitionsWithThreshold (ps_threshold p)) flt = Some m"
      "map_of m ''pod_startup'' = Some lm"
      "metric_of (startup_latencies (ps_podStartupEntries p) flt) lm"
    using transitions_latency_metrics[OF len transitions_with_threshold] latencies_threshold by metis
  define verdict where "verdict = VerifyThresholdByPercentile (pe_show env) lm (ps_perc50Threshold p)
      (ps_perc90Threshold p) (ps_perc99Threshold p)"
  have v: "verdict = None \<longleftrightarrow> slo_met p flt"
    using metric_of_thresholds[OF m(3)] thr by (simp add: verdict_def slo_met_def thresholds_ok_def Let_def)
  define err1 where "err1 = (case verdict of
      Some slosErr \<Rightarrow> Some (NewMetricViolationError ''pod startup'' (err_msg slosErr)) | None \<Rightarrow> err)"
  obtain content where content: "pe_pretty env (LatencyMapToPerfData m) = Inr content" using pretty by blast
  let ?ss = "summaries @ [CreateSummary (pe_now env) (n @ podStartupLatencyMeasurementName @ ''_'' @ identifier) ''json'' content]"
  have step: "startup_checks env identifier p (c # checks) summaries err =
      startup_checks env identifier p checks ?ss err1"
    using m content by (simp add: c err1_def verdict_def)
  have e1: "(err1 = None \<longleftrightarrow> err = None \<and> slo_met p flt)" "\<forall>e. err1 = Some e \<longrightarrow> err = Some e \<or> IsMetricViolationError e"
    using v by (auto simp: err1_def NewMetricViolationError_def IsMetricViolationError_def split: option.splits)
  obtain ss' err' where "startup_checks env identifier p checks ?ss err1 = Some (ss', err')"
    "length ss' = length ?ss + length checks" "err' = None \<longleftrightarrow> err1 = None \<and> (\<forall>(n, flt) \<in> set checks. slo_met p flt)"
    "\<forall>e. err' = Some e \<longrightarrow> err1 = Some e \<or> IsMetricViolationError e"
    using Cons.IH[of ?ss err1] by blast
  with step e1 show ?case by (auto simp: c)
qed simp

text \<open>
  C8: the pod startup objective is decided.  Gathering a running measurement stops it and reports a
  summary for all, the stateless and the stateful pods; it returns a metric violation exactly when,
  in one of these groups, fewer than 50, 90 or 99 per cent of the pods that were seen running started
  within the corresponding threshold, and no error otherwise.
\<close>

theorem pod_startup_slo_decided:
  assumes "ps_isRunning p" and "pe_schedEvents env (os_Namespace (ps_selector p)) sch = Inr items"
    and "\<And>d. \<exists>content. pe_pretty env d = Inr content" and "thresholds_ok p" and "ot_ok (ps_podStartupEntries p)"
    and "99 * length (ot_times (ps_podStartupEntries p)) < 2 ^ 53"
  shows "\<exists>summaries err p'. ps_gather env identifier sch p = Some ((summaries, err), p')
    \<and> length summaries = 3 \<and> \<not> ps_isRunning p'
    \<and> (err = None \<longleftrightarrow> slo_met p MatchAll \<and> slo_met p (FilterStateless (ps_podMetadata p))
                      \<and> slo_met p (FilterStateful (ps_podMetadata p)))
    \<and> (\<forall>e. err = Some e \<longrightarrow> IsMetricViolationError e)"
proof -
  let ?p = "ps_stop env p"
  have stop: "ps_podStartupEntries ?p = ps_podStartupEntries p" "ps_podMetadata ?p = ps_podMetadata p"
    "ps_perc50Threshold ?p = ps_perc50Threshold p" "ps_perc90Threshold ?p = ps_perc90Threshold p"
    "ps_perc99Threshold ?p = ps_perc99Threshold p" "\<not> ps_isRunning ?p" "ps_selector ?p = ps_selector p"
    by (simp_all add: ps_stop_def)
  obtain p' where g: "gatherScheduleTimes env sch ?p = (None, p')"
    using assms(2) stop by (simp add: gatherScheduleTimes_def Let_def)
  note keep = gatherScheduleTimes_keeps[OF g, unfolded stop, OF assms(5)]
  have slo: "slo_met p' flt \<longleftrightarrow> slo_met p flt" for flt
    by (simp add: slo_met_def keep stop)
  have "99 * length (ot_times (ps_podStartupEntries p')) < 2 ^ 53" "thresholds_ok p'"
    using assms(4,6) by (simp_all add: keep stop thresholds_ok_def)
  moreover have three: "length (startup_filters p') = 3" by (simp add: startup_filters_def)
  ultimately have "\<exists>summaries err. startup_checks env identifier p' (startup_filters p') [] None = Some (summaries, err)
      \<and> length summaries = length ([] :: genericSummary list) + length (startup_filters p')
      \<and> (err = None \<longleftrightarrow> (None :: goerr option) = None \<and> (\<forall>(n, flt) \<in> set (startup_filters p'). slo_met p' flt))
      \<and> (\<forall>e. err = Some e \<longrightarrow> None = Some e \<or> IsMetricViolationError e)"
    by (intro startup_checks_result assms(3))
  then obtain summaries err where chk: "startup_checks env identifier p' (startup_filters p') [] None = Some (summaries, err)"
    "length summaries = 3" "err = None \<longleftrightarrow> (\<forall>(n, flt) \<in> set (startup_filters p'). slo_met p' flt)"
    "\<forall>e. err = Some e \<longrightarrow> IsMetricViolationError e"
    using three by (elim exE conjE) (rule that, simp_all)
  have "ps_gather env identifier sch p = Some ((summaries, err), p')"
    using assms(1) g chk(1) by (simp add: ps_gather_def)
  moreover have "(\<forall>(n, flt) \<in> set (startup_filters p'). slo_met p' flt) \<longleftrightarrow>
      slo_met p MatchAll \<and> slo_met p (FilterStateless (ps_podMetadata p)) \<and> slo_met p (FilterStateful (ps_podMetadata p))"
    by (simp add: startup_filters_def slo keep(3) stop(2))
  ultimately show ?thesis using chk(2-4) stop(6) keep(7) by blast
qed

section \<open>A measurement runs once\<close>

text \<open>
  What the documentation of the queue says about shutting it down: afterwards new items are ignored,
  and taking items does not reopen it.
\<close>

definition shutdown_contract :: "('a, 'q) workqueue \<Rightarrow> ('q \<Rightarrow> bool) \<Rightarrow> bool" where
  "shutdown_contract q down \<longleftrightarrow>
     (\<forall>s. down (wq_ShutDown q s)) \<and> (\<forall>a s. down s \<longrightarrow> wq_Add q a s = s) \<and>
     (\<forall>a s. down s \<longrightarrow> down (wq_Done q a s)) \<and> (\<forall>r s s'. down s \<longrightarrow> wq_Get q s = Some (r, s') \<longrightarrow> down s')"

text \<open>What the goroutines of the measurement do between two calls of \<^verbatim>\<open>Execute\<close>.\<close>

inductive ps_step :: "'q pstartup_env \<Rightarrow> 'q podStartupLatencyMeasurement \<Rightarrow> 'q podStartupLatencyMeasurement \<Rightarrow> bool"
  for env where
  add: "ps_step env p (ps_addEvent env obj now p)"
| process: "processNextWorkItem env p = Some (b, p') \<Longrightarrow> ps_step env p p'"

inductive_cases ps_stepE: "ps_step env p p'"

lemma ps_eventQueue_processEvent [simp]: "ps_eventQueue (processEvent e p) = ps_eventQueue p"
  by (simp add: processEvent_def Let_def split: event_obj.splits option.splits)

lemma ps_step_down:
  assumes "shutdown_contract (pe_queue env) down"
  shows "ps_step env p p' \<Longrightarrow> down (ps_eventQueue p) \<Longrightarrow> down (ps_eventQueue p')"
  using assms
  by (elim ps_stepE) (auto simp: ps_addEvent_def processNextWorkItem_def shutdown_contract_def Let_def
      split: option.splits prod.splits)

text \<open>
  C26: a measurement can be started again, but not used again.  The queue is created once, with the
  measurement, and gathering shuts it down; \<^verbatim>\<open>start\<close> afterwards reports no error and the measurement
  counts as running, but whatever its goroutines do, no event of a pod enters its queue any more.
\<close>

theorem restarted_measurement_ignores_events:
  assumes "shutdown_contract (pe_queue env) down" and "ps_isRunning p" and "pe_sync env = None"
    and "(ps_step env)\<^sup>*\<^sup>* (ps_stop env p) p1" and "ps_start env p1 = (err, p2)"
    and "(ps_step env)\<^sup>*\<^sup>* p2 p3"
  shows "err = None \<and> ps_isRunning p2 \<and> ps_addEvent env obj now p3 = p3"
proof -
  have "down (ps_eventQueue (ps_stop env p))"
    using assms(1,2) by (simp add: ps_stop_def shutdown_contract_def)
  with assms(4) have "down (ps_eventQueue p1)"
    by (induction rule: rtranclp_induct) (auto dest: ps_step_down[OF assms(1)])
  moreover have "ps_eventQueue p2 = ps_eventQueue p1" and e: "err = None" "ps_isRunning p2"
    using assms(3,5) by (auto simp: ps_start_def split: if_splits)
  ultimately have "down (ps_eventQueue p2)" by simp
  with assms(6) have "down (ps_eventQueue p3)"
    by (induction rule: rtranclp_induct) (auto dest: ps_step_down[OF assms(1)])
  then show ?thesis using e assms(1) by (simp add: ps_addEvent_def shutdown_contract_def)
qed

section \<open>An example run\<close>

definition list_queue :: "(eventData, eventData list \<times> bool) workqueue" where
  "list_queue = \<lparr>wq_new = ([], False), wq_Add = \<lambda>a (xs, d). if d then (xs, d) else (xs @ [a], d),
     wq_Get = \<lambda>(xs, d). case xs of x # xs \<Rightarrow> Some (Some x, xs, d) | [] \<Rightarrow> if d then Some (None, [], d) else None,
     wq_Done = \<lambda>_ q. q, wq_ShutDown = \<lambda>(xs, _). (xs, True)\<rparr>"

lemma list_queue_contract: "shutdown_contract list_queue snd"
  by (auto simp: shutdown_contract_def list_queue_def split: list.splits if_splits)

definition quiet_startup_env :: "(eventData list \<times> bool) pstartup_env" where
  "quiet_startup_env = \<lparr>pe_queue = list_queue, pe_sync = None, pe_schedEvents = \<lambda>_ _. Inr [],
     pe_pretty = \<lambda>_. Inr [], pe_show = show_int, pe_parseDuration = \<lambda>_. Inr 0, pe_now = 100\<rparr>"

definition started_measurement :: "duration \<Rightarrow> (eventData list \<times> bool) podStartupLatencyMeasurement" where
  "started_measurement T = (createPodStartupLatencyMeasurement quiet_startup_env)
     \<lparr>ps_isRunning := True, ps_perc50Threshold := T, ps_perc90Threshold := T, ps_perc99Threshold := T\<rparr>"

theorem restarted_measurement_ignores_events_witness:
  "ps_isRunning (snd (ps_start quiet_startup_env (ps_stop quiet_startup_env (started_measurement 5))))
   \<and> ps_addEvent quiet_startup_env (PodObj ready_pod) 9
       (snd (ps_start quiet_startup_env (ps_stop quiet_startup_env (started_measurement 5)))) =
     snd (ps_start quiet_startup_env (ps_stop quiet_startup_env (started_measurement 5)))"
proof -
  let ?p1 = "ps_stop quiet_startup_env (started_measurement 5)"
  obtain err p2 where s: "ps_start quiet_startup_env ?p1 = (err, p2)" by fastforce
  have "shutdown_contract (pe_queue quiet_startup_env) snd" "pe_sync quiet_startup_env = None"
    "ps_isRunning (started_measurement 5)"
    by (simp_all add: quiet_startup_env_def list_queue_contract started_measurement_def)
  from restarted_measurement_ignores_events[OF this(1,3,2) rtranclp.rtrancl_refl s rtranclp.rtrancl_refl] s
  show ?thesis by simp
qed

theorem pod_startup_slo_decided_witness:
  "\<exists>summaries err p'. ps_gather quiet_startup_env ''x'' ''s'' (processEvent demo_event (started_measurement 5)) =
      Some ((summaries, err), p') \<and> length summaries = 3 \<and> (\<exists>e. err = Some e \<and> IsMetricViolationError e)"
proof -
  let ?p = "processEvent demo_event (started_measurement 5)"
  have e: "ps_podStartupEntries ?p =
      \<lparr>ot_name = podStartupLatencyMeasurementName, ot_times = [(''ns/p'', [(watchPhase, 9), (createPhase, 1), (runPhase, 3)])]\<rparr>"
    by (simp add: processEvent_def demo_event_def ready_pod_def started_measurement_def createMetaNamespaceKey_def
        createPodStartupLatencyMeasurement_def NewObjectTransitionTimes_def ot_Get_def ot_Set_def latest_start_def Let_def)
  have f: "ps_isRunning ?p" "ps_perc50Threshold ?p = 5" "ps_perc90Threshold ?p = 5" "ps_perc99Threshold ?p = 5"
    by (simp_all add: processEvent_def demo_event_def started_measurement_def Let_def split: option.splits)
  have L: "startup_latencies (ps_podStartupEntries ?p) MatchAll = [8]"
    by (simp add: e startup_latencies_def latencies_def startup_transition_def List.map_filter_def lag_of_def
        MatchAll_def time_Sub_def)
  have no: "\<not> slo_met ?p MatchAll" by (simp add: slo_met_def L f)
  have hyps: "pe_schedEvents quiet_startup_env (os_Namespace (ps_selector ?p)) ''s'' = Inr []"
    "\<And>d. \<exists>content. pe_pretty quiet_startup_env d = Inr content" "thresholds_ok ?p" "ot_ok (ps_podStartupEntries ?p)"
    "99 * length (ot_times (ps_podStartupEntries ?p)) < 2 ^ 53"
    by (simp_all add: quiet_startup_env_def thresholds_ok_def f ot_ok_def e)
  from pod_startup_slo_decided[OF f(1) hyps, of "''x''"] no show ?thesis by fastforce
qed

end
