(* ===== verification/Controlled_Pods.thy ===== *)
theory Controlled_Pods
  imports Runtime_Objects Pods_Indexer Pod_Startup
begin

text \<open>
  The measurement WaitForControlledPodsRunning
  (\<^verbatim>\<open>clusterloader2/pkg/measurement/common/wait_for_controlled_pods.go\<close>) with the map of its checkers
  (\<^verbatim>\<open>util/checker\<close>), its worker queue (\<^verbatim>\<open>util/workerqueue\<close>) and the store of the pods of an object
  (\<^verbatim>\<open>util/object_store.go\<close>).  A checker is an object on a heap: the map holds its address, the goroutine
  that waits for the pods writes to it.  The handlers run in the order of the informer's events, because
  the queue has one worker; the goroutines end in any order.
\<close>

section \<open>Checkers and the worker queue\<close>

text \<open>\<^verbatim>\<open>checker.Map\<close>; \<open>stop\<close> is the \<^verbatim>\<open>Stop\<close> of the interface \<^verbatim>\<open>Checker\<close> and works on the heap \<open>h\<close>.\<close>

definition NewMap :: "(string, 'c) gomap" where
  "NewMap = []"

text \<open>The assignment of a new map to the receiver changes a local variable only.\<close>

definition Map_Dispose :: "('c \<Rightarrow> 'h \<Rightarrow> 'h) \<Rightarrow> (string, 'c) gomap \<times> 'h \<Rightarrow> (string, 'c) gomap \<times> 'h" where
  "Map_Dispose stop = (\<lambda>(cm, h). (cm, fold (\<lambda>(k, c). stop c) cm h))"

definition Map_Add :: "('c \<Rightarrow> 'h \<Rightarrow> 'h) \<Rightarrow> string \<Rightarrow> 'c \<Rightarrow> (string, 'c) gomap \<times> 'h \<Rightarrow> (string, 'c) gomap \<times> 'h" where
  "Map_Add stop key c = (\<lambda>(cm, h).
     (AList.update key c cm, case map_of cm key of Some old \<Rightarrow> stop old h | None \<Rightarrow> h))"

definition Map_DeleteAndStop ::
  "('c \<Rightarrow> 'h \<Rightarrow> 'h) \<Rightarrow> string \<Rightarrow> (string, 'c) gomap \<times> 'h \<Rightarrow> bool \<times> (string, 'c) gomap \<times> 'h" where
  "Map_DeleteAndStop stop key = (\<lambda>(cm, h).
     (case map_of cm key of Some old \<Rightarrow> (True, AList.delete key cm, stop old h) | None \<Rightarrow> (False, cm, h)))"

text \<open>
  A worker takes one task, runs it and marks it done; \<open>None\<close> while the queue is empty.  The boolean says
  whether the worker goes on.
\<close>

definition WorkerQueue_Add :: "('a, 'q) workqueue \<Rightarrow> 'a \<Rightarrow> 'q \<Rightarrow> 'q" where
  "WorkerQueue_Add wq f q = wq_Add wq f q"

definition WorkerQueue_Stop :: "('a, 'q) workqueue \<Rightarrow> 'q \<Rightarrow> 'q" where
  "WorkerQueue_Stop wq q = wq_ShutDown wq q"

definition worker :: "('a, 'q) workqueue \<Rightarrow> ('a \<Rightarrow> 's \<Rightarrow> 's) \<Rightarrow> 'q \<times> 's \<Rightarrow> (bool \<times> 'q \<times> 's) option" where
  "worker wq run = (\<lambda>(q, s).
     (case wq_Get wq q of
        None \<Rightarrow> None
      | Some (None, q) \<Rightarrow> Some (False, q, s)
      | Some (Some f, q) \<Rightarrow> Some (True, wq_Done wq f q, run f s)))"

section \<open>Pods of an object\<close>

text \<open>The kind of an object, as \<^verbatim>\<open>meta.TypeAccessor\<close> reads it; typed objects of a listing carry none.\<close>

fun object_kind :: "RuntimeObject \<Rightarrow> string" where
  "object_kind (UnstructuredObj m kind content) = kind"
| "object_kind _ = []"

record OwnerReferenceBasedPodStore =
  or_owner :: RuntimeObject
  or_cachedString :: string

definition NewOwnerReferenceBasedPodStore :: "RuntimeObject \<Rightarrow> goerr + OwnerReferenceBasedPodStore" where
  "NewOwnerReferenceBasedPodStore owner =
     (case Accessor owner of
        Inl err \<Rightarrow> Inl (Errorf (''object has no meta: '' @ err_msg err) [err])
      | Inr m \<Rightarrow>
          Inr \<lparr>or_owner = owner,
               or_cachedString = ''namespace('' @ om_Namespace m @ ''), controlledBy('' @ om_Name m @ '')''\<rparr>)"

section \<open>State\<close>

datatype objectStatus = unknown | running | deleted | failed | timeout | deleteTimeout

fun status_number :: "objectStatus \<Rightarrow> nat" where
  "status_number unknown = 0"
| "status_number running = 1"
| "status_number deleted = 2"
| "status_number failed = 3"
| "status_number timeout = 4"
| "status_number deleteTimeout = 5"

record objectChecker =
  oc_status :: objectStatus
  oc_err :: "goerr option"
  oc_key :: string
  oc_cancelled :: bool
  oc_duration :: duration
  oc_failedPods :: "PodsStatus option"

definition newObjectChecker :: "string \<Rightarrow> objectChecker" where
  "newObjectChecker key =
     \<lparr>oc_status = unknown, oc_err = None, oc_key = key, oc_cancelled = False, oc_duration = 0, oc_failedPods = None\<rparr>"

definition getStatus :: "objectChecker \<Rightarrow> objectStatus \<times> goerr option" where
  "getStatus c = (oc_status c, oc_err c)"

text \<open>What the goroutine of a checker has captured.\<close>

record closure =
  cl_obj :: RuntimeObject
  cl_isDeleted :: bool
  cl_replicas :: ReplicasWatcher
  cl_isPodUpdated :: "(Pod \<Rightarrow> goerr option) option"
  cl_podStore :: OwnerReferenceBasedPodStore
  cl_operationTimeout :: duration

text \<open>
  The fields of the measurement.  The heap keeps every checker ever made, with its closure;
  \<open>wp_handlingGroup\<close> are the addresses of those whose goroutine runs.
\<close>

record 'q waitForControlledPodsRunningMeasurement =
  wp_apiVersion :: string
  wp_kind :: string
  wp_selector :: ObjectSelector
  wp_operationTimeout :: duration
  wp_countErrorMargin :: int
  wp_isRunning :: bool
  wp_queue :: 'q
  wp_handlingGroup :: "nat list"
  wp_objectKeys :: "string set"
  wp_opResourceVersion :: nat
  wp_gvr :: gvr
  wp_checkerMap :: "(string, nat) gomap"
  wp_checkIfPodsAreUpdated :: bool
  wp_heap :: "(objectChecker \<times> closure) list"

type_synonym 'q wcp = "'q waitForControlledPodsRunningMeasurement"
type_synonym event = "RuntimeObject option \<times> RuntimeObject option"

record failedPod =
  fp_Namespace :: string
  fp_ControlledBy :: string
  fp_Name :: string
  fp_Host :: string
  fp_Status :: string

text \<open>
  The environment: the libraries of \<open>Runtime_Objects\<close>, the key function of client-go, the queue, the
  start of the informer, the listing of the objects, and \<open>we_poll\<close>: polling the condition until the
  timeout and then waiting for the goroutines, which leads to the state they have made by then.
\<close>

record ('q, 't) wcp_env =
  we_rt :: "'t rt_pkg"
  we_key :: "RuntimeObject \<Rightarrow> goerr + string"
  we_queue :: "(event, 'q) workqueue"
  we_parseGroupVersion :: "string \<Rightarrow> goerr + string \<times> string"
  we_guess :: "gvk \<Rightarrow> gvr"
  we_newIndexer :: "goerr option"
  we_cacheSynced :: bool
  we_synced :: bool
  we_list :: "gvr \<Rightarrow> string \<Rightarrow> string \<Rightarrow> goerr + RuntimeObject list"
  we_poll :: "duration \<Rightarrow> ('q wcp \<Rightarrow> bool) \<Rightarrow> 'q wcp \<Rightarrow> goerr + 'q wcp"
  we_pretty :: "failedPod list \<Rightarrow> goerr + string"
  we_parseDuration :: "string \<Rightarrow> goerr + duration"
  we_now :: gotime

definition createWaitForControlledPodsRunningMeasurement :: "('q, 't) wcp_env \<Rightarrow> 'q wcp" where
  "createWaitForControlledPodsRunningMeasurement env =
     \<lparr>wp_apiVersion = [], wp_kind = [], wp_selector = NewObjectSelector, wp_operationTimeout = 0,
      wp_countErrorMargin = 0, wp_isRunning = False, wp_queue = wq_new (we_queue env), wp_handlingGroup = [],
      wp_objectKeys = {}, wp_opResourceVersion = 0, wp_gvr = \<lparr>gvr_Group = [], gvr_Version = [], gvr_Resource = []\<rparr>,
      wp_checkerMap = NewMap, wp_checkIfPodsAreUpdated = False, wp_heap = []\<rparr>"

definition stop_checker :: "nat \<Rightarrow> (objectChecker \<times> closure) list \<Rightarrow> (objectChecker \<times> closure) list" where
  "stop_checker i h = h[i := (fst (h ! i)\<lparr>oc_cancelled := True\<rparr>, snd (h ! i))]"

definition on_checkers ::
  "((string, nat) gomap \<times> (objectChecker \<times> closure) list \<Rightarrow> (string, nat) gomap \<times> (objectChecker \<times> closure) list) \<Rightarrow>
   'q wcp \<Rightarrow> 'q wcp" where
  "on_checkers f w = (case f (wp_checkerMap w, wp_heap w) of (cm, h) \<Rightarrow> w\<lparr>wp_checkerMap := cm, wp_heap := h\<rparr>)"

section \<open>Handlers\<close>

definition waitForRuntimeObject ::
  "('q, 't) wcp_env \<Rightarrow> RuntimeObject \<Rightarrow> bool \<Rightarrow> duration \<Rightarrow> 'q wcp \<Rightarrow> ((goerr + nat) \<times> 'q wcp) option" where
  "waitForRuntimeObject env obj isDeleted operationTimeout w =
     (case GetReplicasFromRuntimeObject (we_rt env) (Some obj) of
        None \<Rightarrow> None
      | Some (Inl err) \<Rightarrow> Some (Inl err, w)
      | Some (Inr runtimeObjectReplicas) \<Rightarrow>
     (case (if wp_checkIfPodsAreUpdated w
            then map_sum id Some (GetIsPodUpdatedPredicateFromRuntimeObject (we_rt env) obj) else Inr None) of
        Inl err \<Rightarrow> Some (Inl err, w)
      | Inr isPodUpdated \<Rightarrow>
     let runtimeObjectReplicas = (if isDeleted then ConstReplicas 0 else runtimeObjectReplicas) in
     (case we_key env obj of
        Inl err \<Rightarrow> Some (Inl (Errorf (''meta key creation error: '' @ err_msg err) []), w)
      | Inr key \<Rightarrow>
     (case NewOwnerReferenceBasedPodStore obj of
        Inl err \<Rightarrow> Some (Inl (Errorf (''failed to create pod store: '' @ err_msg err) [err]), w)
      | Inr podStore \<Rightarrow>
          let c = newObjectChecker key;
              cl = \<lparr>cl_obj = obj, cl_isDeleted = isDeleted, cl_replicas = runtimeObjectReplicas,
                    cl_isPodUpdated = isPodUpdated, cl_podStore = podStore, cl_operationTimeout = operationTimeout\<rparr>;
              addr = length (wp_heap w)
          in Some (Inr addr, w\<lparr>wp_heap := wp_heap w @ [(c, cl)], wp_handlingGroup := wp_handlingGroup w @ [addr]\<rparr>)))))"

definition handleObjectLocked ::
  "('q, 't) wcp_env \<Rightarrow> RuntimeObject option \<Rightarrow> RuntimeObject option \<Rightarrow> 'q wcp \<Rightarrow> (goerr option \<times> 'q wcp) option" where
  "handleObjectLocked env oldObj newObj w =
     (let isObjDeleted = (newObj = None);
          handledObj = (if isObjDeleted then oldObj else newObj)
      in (case handledObj of
            None \<Rightarrow> Some (Some (Errorf ''meta key creation error: object has no meta'' []), w)
          | Some obj \<Rightarrow>
              (case we_key env obj of
                 Inl err \<Rightarrow> Some (Some (Errorf (''meta key creation error: '' @ err_msg err) []), w)
               | Inr key \<Rightarrow>
                   (case waitForRuntimeObject env obj isObjDeleted (wp_operationTimeout w) w of
                      None \<Rightarrow> None
                    | Some (Inl err, w) \<Rightarrow> Some (Some (Errorf (''waiting for '' @ key @ '' error: '' @ err_msg err) []), w)
                    | Some (Inr c, w) \<Rightarrow> Some (None, on_checkers (Map_Add stop_checker key c) w)))))"

definition deleteObjectLocked :: "('q, 't) wcp_env \<Rightarrow> RuntimeObject option \<Rightarrow> 'q wcp \<Rightarrow> goerr option \<times> 'q wcp" where
  "deleteObjectLocked env obj w =
     (case obj of
        None \<Rightarrow> (None, w)
      | Some ob \<Rightarrow>
          (case we_key env ob of
             Inl err \<Rightarrow> (Some (Errorf (''meta key creation error: '' @ err_msg err) []), w)
           | Inr key \<Rightarrow> (None, on_checkers (\<lambda>s. snd (Map_DeleteAndStop stop_checker key s)) w)))"

definition updateOpResourceVersionLocked :: "RuntimeObject \<Rightarrow> 'q wcp \<Rightarrow> goerr option \<times> 'q wcp" where
  "updateOpResourceVersionLocked runtimeObj w =
     (case GetResourceVersionFromRuntimeObject runtimeObj of
        Inl err \<Rightarrow> (Some (Errorf (''retrieving resource version error: '' @ err_msg err) []), w)
      | Inr version \<Rightarrow> (None, if version > wp_opResourceVersion w then w\<lparr>wp_opResourceVersion := version\<rparr> else w))"

definition waitForControlledPodsRunningName :: string where
  "waitForControlledPodsRunningName = ''WaitForControlledPodsRunning''"

definition cache_object ::
  "('q, 't) wcp_env \<Rightarrow> (string \<Rightarrow> string set \<Rightarrow> string set) \<Rightarrow> RuntimeObject option \<Rightarrow> ErrorList \<times> 'q wcp \<Rightarrow> ErrorList \<times> 'q wcp" where
  "cache_object env upd obj = (\<lambda>(errList, w).
     (case obj of
        None \<Rightarrow> (errList, w)
      | Some ob \<Rightarrow>
          let (errList, w) =
                (case we_key env ob of
                   Inl err \<Rightarrow> (Append errList [Errorf (waitForControlledPodsRunningName @ '': retrieving key error: '' @ err_msg err) []], w)
                 | Inr key \<Rightarrow> (errList, w\<lparr>wp_objectKeys := upd key (wp_objectKeys w)\<rparr>))
          in (case updateOpResourceVersionLocked ob w of
                (Some err, w) \<Rightarrow> (Append errList [err], w)
              | (None, w) \<Rightarrow> (errList, w))))"

definition updateCacheLocked ::
  "('q, 't) wcp_env \<Rightarrow> RuntimeObject option \<Rightarrow> RuntimeObject option \<Rightarrow> 'q wcp \<Rightarrow> ErrorList option \<times> 'q wcp" where
  "updateCacheLocked env oldObj newObj w =
     (let (errList, w) = cache_object env (\<lambda>k ks. ks - {k}) oldObj (NewErrorList [], w);
          (errList, w) = cache_object env insert newObj (errList, w)
      in (if IsEmpty errList then None else Some errList, w))"

text \<open>The errors are logged.  The update of the cache is deferred: it happens on every path.\<close>

definition handleObject ::
  "('q, 't) wcp_env \<Rightarrow> RuntimeObject option \<Rightarrow> RuntimeObject option \<Rightarrow> 'q wcp \<Rightarrow> 'q wcp option" where
  "handleObject env oldObj newObj w =
     map_option (\<lambda>w. snd (updateCacheLocked env oldObj newObj w))
       (case IsEqualRuntimeObjectsSpec (we_rt env) oldObj newObj of
          Inl err \<Rightarrow> Some w
        | Inr isEqual \<Rightarrow>
            if isEqual then Some w
            else if \<not> wp_isRunning w then Some w
            else map_option snd (handleObjectLocked env oldObj newObj (snd (deleteObjectLocked env oldObj w))))"

text \<open>
  The end of a checker's goroutine: the error of starting the replicas watcher, the result of
  \<^verbatim>\<open>WaitForPods\<close> with the time it took, and whether the context has timed out.
\<close>

definition finish_checker ::
  "closure \<Rightarrow> goerr option \<Rightarrow> PodsStatus option \<times> goerr option \<Rightarrow> duration \<Rightarrow> bool \<Rightarrow> objectChecker \<Rightarrow> objectChecker" where
  "finish_checker cl startErr res took hasTimedOut c =
     (case startErr of
        Some err \<Rightarrow> c\<lparr>oc_err := Some (Errorf (''failed to start runtimeObjectReplicas: '' @ err_msg err) [])\<rparr>
      | None \<Rightarrow>
          let c = c\<lparr>oc_duration := took\<rparr>
          in (case res of
                (failedPods, Some err) \<Rightarrow>
                  let c = c\<lparr>oc_status := failed, oc_err := Some (Errorf (oc_key c @ '': '' @ err_msg err) []),
                            oc_failedPods := failedPods\<rparr>
                  in if hasTimedOut then c\<lparr>oc_status := (if cl_isDeleted cl then deleteTimeout else timeout)\<rparr> else c
              | (failedPods, None) \<Rightarrow>
                  if cl_isDeleted cl then c\<lparr>oc_status := deleted\<rparr> else c\<lparr>oc_status := running\<rparr>))"

section \<open>Gathering\<close>

definition failed_pod :: "string \<Rightarrow> PodInfo \<Rightarrow> failedPod" where
  "failed_pod controlledBy pod =
     \<lparr>fp_Namespace = pi_Namespace pod, fp_ControlledBy = controlledBy, fp_Name = pi_Name pod,
      fp_Host = pi_Hostname pod, fp_Status = Status_String (pi_Status pod)\<rparr>"

text \<open>\<open>None\<close>: a nil status is dereferenced.\<close>

definition toFailedPods :: "PodsStatus option \<Rightarrow> string \<Rightarrow> failedPod list option" where
  "toFailedPods ps controlledBy = map_option (map (failed_pod controlledBy)) ps"

definition createSummary :: "('q, 't) wcp_env \<Rightarrow> failedPod list \<Rightarrow> genericSummary list" where
  "createSummary env fp =
     (if length fp = 0 then []
      else
        (case we_pretty env fp of
           Inl err \<Rightarrow> []
         | Inr content \<Rightarrow>
             [CreateSummary (we_now env)
                (waitForControlledPodsRunningName @ ''_'' @ show_int (we_now env) @ ''_failedpods'') ''json'' content]))"

record ListOptions =
  lo_LabelSelector :: string
  lo_FieldSelector :: string

definition listOptions :: "'q wcp \<Rightarrow> ListOptions" where
  "listOptions w =
     \<lparr>lo_LabelSelector = os_LabelSelector (wp_selector w), lo_FieldSelector = os_FieldSelector (wp_selector w)\<rparr>"

fun keys_loop :: "('q, 't) wcp_env \<Rightarrow> RuntimeObject list \<Rightarrow> string set \<Rightarrow> nat \<Rightarrow> string set \<times> nat" where
  "keys_loop env [] objectKeys maxResourceVersion = (objectKeys, maxResourceVersion)"
| "keys_loop env (ob # obs) objectKeys maxResourceVersion =
     (case GetResourceVersionFromRuntimeObject ob of
        Inl err \<Rightarrow> keys_loop env obs objectKeys maxResourceVersion
      | Inr version \<Rightarrow>
          (case we_key env ob of
             Inl err \<Rightarrow> keys_loop env obs objectKeys maxResourceVersion
           | Inr key \<Rightarrow>
               keys_loop env obs (insert key objectKeys)
                 (if version > maxResourceVersion then version else maxResourceVersion)))"

definition getObjectKeysAndMaxVersion :: "('q, 't) wcp_env \<Rightarrow> 'q wcp \<Rightarrow> goerr + string set \<times> nat" where
  "getObjectKeysAndMaxVersion env w =
     (case we_list env (wp_gvr w) (os_LabelSelector (wp_selector w)) (os_FieldSelector (wp_selector w)) of
        Inl err \<Rightarrow> Inl (Errorf (''listing objects error: '' @ err_msg err) [])
      | Inr objects \<Rightarrow> Inr (keys_loop env objects {} 0))"

definition gather_cond :: "string set \<Rightarrow> nat \<Rightarrow> 'q wcp \<Rightarrow> bool" where
  "gather_cond objectKeys maxResourceVersion w \<longleftrightarrow>
     wp_opResourceVersion w \<ge> maxResourceVersion \<and> objectKeys = wp_objectKeys w"

text \<open>\<open>gc_forced\<close> are the collections of pods that were deleted by force; their errors are logged.\<close>

record gather_counts =
  gc_running :: nat
  gc_deleted :: nat
  gc_timeout :: nat
  gc_failed :: nat
  gc_errs :: ErrorList
  gc_timedOut :: "string list"
  gc_failedPods :: "failedPod list"
  gc_forced :: "(string \<times> ListOptions) list"

definition no_counts :: gather_counts where
  "no_counts = \<lparr>gc_running = 0, gc_deleted = 0, gc_timeout = 0, gc_failed = 0, gc_errs = NewErrorList [],
     gc_timedOut = [], gc_failedPods = [], gc_forced = []\<rparr>"

definition add_failed :: "objectChecker \<Rightarrow> gather_counts \<Rightarrow> gather_counts option" where
  "add_failed c g =
     map_option (\<lambda>fps. g\<lparr>gc_failedPods := gc_failedPods g @ fps\<rparr>) (toFailedPods (oc_failedPods c) (oc_key c))"

definition show_error :: "goerr option \<Rightarrow> string" where
  "show_error e = (case e of None \<Rightarrow> ''<nil>'' | Some e \<Rightarrow> err_msg e)"

text \<open>The durations of the checkers are only logged.\<close>

definition gather_checker ::
  "'q wcp \<Rightarrow> objectChecker \<Rightarrow> gather_counts \<Rightarrow> (goerr option \<times> gather_counts) option" where
  "gather_checker w c g =
     (let (status, err) = getStatus c in
      case status of
        running \<Rightarrow> Some (None, g\<lparr>gc_running := gc_running g + 1\<rparr>)
      | deleted \<Rightarrow> Some (None, g\<lparr>gc_deleted := gc_deleted g + 1\<rparr>)
      | timeout \<Rightarrow>
          map_option (Pair None) (add_failed c
            (g\<lparr>gc_timedOut := gc_timedOut g @ [oc_key c], gc_timeout := gc_timeout g + 1\<rparr>))
      | deleteTimeout \<Rightarrow>
          map_option (Pair None) (add_failed c
            (g\<lparr>gc_timedOut := gc_timedOut g @ [oc_key c], gc_timeout := gc_timeout g + 1,
               gc_forced := gc_forced g @ [(os_Namespace (wp_selector w), listOptions w)]\<rparr>))
      | failed \<Rightarrow>
          map_option (\<lambda>g. (None, case err of None \<Rightarrow> g | Some err \<Rightarrow> g\<lparr>gc_errs := Append (gc_errs g) [err]\<rparr>))
            (add_failed c (g\<lparr>gc_failed := gc_failed g + 1\<rparr>))
      | unknown \<Rightarrow>
          Some (Some (Errorf (''got unknown status for '' @ oc_key c @ '': status=''
            @ show_nat (status_number status) @ '', err='' @ show_error err) []), g))"

fun gather_loop ::
  "'q wcp \<Rightarrow> (string, nat) gomap \<Rightarrow> gather_counts \<Rightarrow> (goerr option \<times> gather_counts) option" where
  "gather_loop w [] g = Some (None, g)"
| "gather_loop w ((k, i) # cm) g =
     (case gather_checker w (fst (wp_heap w ! i)) g of
        None \<Rightarrow> None
      | Some (Some err, g) \<Rightarrow> Some (Some err, g)
      | Some (None, g) \<Rightarrow> gather_loop w cm g)"

definition of_which :: "nat \<Rightarrow> nat \<Rightarrow> string \<Rightarrow> string" where
  "of_which n m kind = show_nat n @ ''/'' @ show_nat m @ '' '' @ kind @ ''s are running with all pods''"

definition gather_verdict :: "'q wcp \<Rightarrow> string set \<Rightarrow> gather_counts \<Rightarrow> failedPod list \<times> goerr option" where
  "gather_verdict w objectKeys g =
     (if gc_timeout g > 0 then
        (gc_failedPods g, Some (Errorf (show_nat (gc_timeout g) @ '' objects timed out: '' @ wp_kind w @ ''s: ''
           @ strings_Join (gc_timedOut g) '', '') []))
      else if card objectKeys \<noteq> gc_running g then
        (gc_failedPods g, Some (Errorf (''incorrect objects number: ''
           @ of_which (gc_running g) (card objectKeys) (wp_kind w)) []))
      else if gc_failed g > 0 then
        (gc_failedPods g, Some (Errorf (''failed objects statuses: '' @ ErrorList_String (gc_errs g)) []))
      else ([], None))"

definition wp_gather ::
  "('q, 't) wcp_env \<Rightarrow> duration \<Rightarrow> 'q wcp \<Rightarrow> ((failedPod list \<times> goerr option) \<times> (string \<times> ListOptions) list \<times> 'q wcp) option" where
  "wp_gather env syncTimeout w =
     (if \<not> wp_isRunning w then
        Some (([], Some (Errorf (''metric '' @ waitForControlledPodsRunningName @ '' has not been started'') [])), [], w)
      else
        (case getObjectKeysAndMaxVersion env w of
           Inl err \<Rightarrow> Some (([], Some err), [], w)
         | Inr (objectKeys, maxResourceVersion) \<Rightarrow>
             (case we_poll env syncTimeout (gather_cond objectKeys maxResourceVersion) w of
                Inl err \<Rightarrow> Some (([], Some (Errorf (''timed out while waiting for controlled pods: '' @ err_msg err) [])), [], w)
              | Inr w \<Rightarrow>
                  (case gather_loop w (wp_checkerMap w) no_counts of
                     None \<Rightarrow> None
                   | Some (Some err, g) \<Rightarrow> Some (([], Some err), gc_forced g, w)
                   | Some (None, g) \<Rightarrow> Some (gather_verdict w objectKeys g, gc_forced g, w)))))"

section \<open>Starting and stopping\<close>

text \<open>The shared indexer of pods: made once, with its error.  \<open>None\<close> before the first call.\<close>

type_synonym sharedPodIndexerFactory = "goerr option option"

definition indexer_start :: "('q, 't) wcp_env \<Rightarrow> goerr option" where
  "indexer_start env =
     (case we_newIndexer env of
        Some err \<Rightarrow> Some (Errorf (''failed to initialize controlledPodsIndexer: '' @ err_msg err) [err])
      | None \<Rightarrow> if \<not> we_cacheSynced env then Some (Errorf ''failed to sync informers'' []) else None)"

definition PodsIndexer :: "('q, 't) wcp_env \<Rightarrow> sharedPodIndexerFactory \<Rightarrow> goerr option \<times> sharedPodIndexerFactory" where
  "PodsIndexer env s = (case s of Some r \<Rightarrow> (r, s) | None \<Rightarrow> (indexer_start env, Some (indexer_start env)))"

definition wp_start ::
  "('q, 't) wcp_env \<Rightarrow> 'q wcp \<times> sharedPodIndexerFactory \<Rightarrow> goerr option \<times> 'q wcp \<times> sharedPodIndexerFactory" where
  "wp_start env = (\<lambda>(w, pf).
     if wp_isRunning w then (None, w, pf)
     else
       (case we_parseGroupVersion env (wp_apiVersion w) of
          Inl err \<Rightarrow> (Some err, w, pf)
        | Inr (grp, version) \<Rightarrow>
            let w = w\<lparr>wp_gvr := we_guess env \<lparr>gvk_Group = grp, gvk_Version = version, gvk_Kind = wp_kind w\<rparr>,
                      wp_isRunning := True\<rparr>
            in (case PodsIndexer env pf of
                  (Some err, pf) \<Rightarrow> (Some err, w, pf)
                | (None, pf) \<Rightarrow> (StartAndSync (we_synced env), w, pf))))"

text \<open>The queue is shut down; its worker handles what is left before it ends.\<close>

definition wp_Dispose :: "('q, 't) wcp_env \<Rightarrow> ('q wcp \<Rightarrow> 'q wcp) \<Rightarrow> 'q wcp \<Rightarrow> 'q wcp" where
  "wp_Dispose env drain w =
     (if \<not> wp_isRunning w then w
      else
        let w = w\<lparr>wp_isRunning := False\<rparr>;
            w = drain (w\<lparr>wp_queue := WorkerQueue_Stop (we_queue env) (wp_queue w)\<rparr>)
        in on_checkers (Map_Dispose stop_checker) w)"

definition Minute_ns :: duration where
  "Minute_ns = 60000000000"

text \<open>The parameters of \<^verbatim>\<open>start\<close>, read one after the other into the fields.\<close>

definition wp_start_params ::
  "('q, 't) wcp_env \<Rightarrow> params \<Rightarrow> 'q wcp \<Rightarrow> goerr option \<times> 'q wcp" where
  "wp_start_params env ps w =
     (case getString ps ''apiVersion'' of
        Inl err \<Rightarrow> (Some err, w\<lparr>wp_apiVersion := []\<rparr>)
      | Inr apiVersion \<Rightarrow>
     (let w = w\<lparr>wp_apiVersion := apiVersion\<rparr> in
      case getString ps ''kind'' of
        Inl err \<Rightarrow> (Some err, w\<lparr>wp_kind := []\<rparr>)
      | Inr kind \<Rightarrow>
     (let w = w\<lparr>wp_kind := kind\<rparr> in
      case ObjectSelector_Parse ps (wp_selector w) of
        (Some err, s) \<Rightarrow> (Some err, w\<lparr>wp_selector := s\<rparr>)
      | (None, s) \<Rightarrow>
     (let w = w\<lparr>wp_selector := s\<rparr> in
      case GetDurationOrDefault (we_parseDuration env) ps ''operationTimeout'' (10 * Minute_ns) of
        Inl err \<Rightarrow> (Some err, w\<lparr>wp_operationTimeout := 0\<rparr>)
      | Inr d \<Rightarrow>
     (let w = w\<lparr>wp_operationTimeout := d\<rparr> in
      case GetBoolOrDefault ps ''checkIfPodsAreUpdated'' True of
        Inl err \<Rightarrow> (Some err, w\<lparr>wp_checkIfPodsAreUpdated := False\<rparr>)
      | Inr b \<Rightarrow>
     (let w = w\<lparr>wp_checkIfPodsAreUpdated := b\<rparr> in
      case GetIntOrDefault ps ''countErrorMargin'' 0 of
        Inl err \<Rightarrow> (Some err, w\<lparr>wp_countErrorMargin := 0\<rparr>)
      | Inr n \<Rightarrow> (None, w\<lparr>wp_countErrorMargin := n\<rparr>)))))))"

definition wp_Execute ::
  "('q, 't) wcp_env \<Rightarrow> ('q wcp \<Rightarrow> 'q wcp) \<Rightarrow> MeasurementConfig \<Rightarrow> 'q wcp \<times> sharedPodIndexerFactory \<Rightarrow>
   ((genericSummary list \<times> goerr option) \<times> 'q wcp \<times> sharedPodIndexerFactory) option" where
  "wp_Execute env drain config = (\<lambda>(w, pf).
     (case getString (mc_Params config) ''action'' of
        Inl err \<Rightarrow> Some (([], Some err), w, pf)
      | Inr action \<Rightarrow>
          if action = ''start'' then
            (case wp_start_params env (mc_Params config) w of
               (Some err, w) \<Rightarrow> Some (([], Some err), w, pf)
             | (None, w) \<Rightarrow> let (err, w, pf) = wp_start env (w, pf) in Some (([], err), w, pf))
          else if action = ''gather'' then
            (case GetDurationOrDefault (we_parseDuration env) (mc_Params config) ''syncTimeout'' Minute_ns of
               Inl err \<Rightarrow> Some (([], Some err), w, pf)
             | Inr syncTimeout \<Rightarrow>
                 map_option (\<lambda>((fps, err), _, w). ((createSummary env fps, err), w, pf)) (wp_gather env syncTimeout w))
          else if action = ''stop'' then Some (([], None), wp_Dispose env drain w, pf)
          else Some (([], Some (Errorf (''unknown action '' @ action) [])), w, pf)))"

section \<open>Steps of a running measurement\<close>

text \<open>
  How the goroutine of a checker can end: the desired number of pods is read from the watcher at every
  tick, and is the constant of a constant watcher.
\<close>

definition reads_replicas :: "ReplicasWatcher \<Rightarrow> wait_event list \<Rightarrow> bool" where
  "reads_replicas rw evs \<longleftrightarrow> (\<forall>n desired r. rw = ConstReplicas n \<longrightarrow> Tick desired r \<in> set evs \<longrightarrow> desired = n)"

definition wait_options :: "int \<Rightarrow> closure \<Rightarrow> WaitForPodOptions" where
  "wait_options margin cl = \<lparr>wo_CountErrorMargin = margin, wo_IsPodUpdated = cl_isPodUpdated cl\<rparr>"

definition object_key :: "('q, 't) wcp_env \<Rightarrow> RuntimeObject \<Rightarrow> string" where
  "object_key env ob = (case we_key env ob of Inl _ \<Rightarrow> [] | Inr k \<Rightarrow> k)"

text \<open>What the API server sends: objects with a key and a spec.\<close>

definition good_object :: "('q, 't) wcp_env \<Rightarrow> RuntimeObject \<Rightarrow> bool" where
  "good_object env ob \<longleftrightarrow>
     (\<exists>k. we_key env ob = Inr k) \<and> (\<exists>s. GetSpecFromRuntimeObject (we_rt env) (Some ob) = Inr (Some s))"

text \<open>
  The state of the system: the store of the objects, as far as its events are handled, and the
  measurement.  The next event is handled, or a goroutine ends.
\<close>

inductive wcp_step ::
  "('q, 't) wcp_env \<Rightarrow> (string \<rightharpoonup> RuntimeObject) \<times> 'q wcp \<Rightarrow> (string \<rightharpoonup> RuntimeObject) \<times> 'q wcp \<Rightarrow> bool"
  for env where
  handle: "can_happen (object_key env) e m \<Longrightarrow> (\<And>ob. ob \<in> event_objects e \<Longrightarrow> good_object env ob) \<Longrightarrow>
    addEventHandler (\<lambda>old new r. Option.bind r (handleObject env old new)) e (Some w) = Some w' \<Longrightarrow>
    wcp_step env (m, w) (store_after (object_key env) e m, w')"
| finish: "i \<in> set (wp_handlingGroup w) \<Longrightarrow> wp_heap w ! i = (c, cl) \<Longrightarrow> reads_replicas (cl_replicas cl) evs \<Longrightarrow>
    WaitForPods (wait_options (wp_countErrorMargin w) cl) (or_cachedString (cl_podStore cl)) first evs = Some res \<Longrightarrow>
    wcp_step env (m, w)
      (m, w\<lparr>wp_heap := (wp_heap w)[i := (finish_checker cl startErr res took hasTimedOut c, cl)],
            wp_handlingGroup := remove1 i (wp_handlingGroup w)\<rparr>)"

section \<open>Invariant\<close>

text \<open>\<^verbatim>\<open>equality.Semantic.DeepEqual\<close> is an equivalence, and nil is equal to nil only.\<close>

definition equality_documented :: "'t rt_pkg \<Rightarrow> bool" where
  "equality_documented rt \<longleftrightarrow>
     (\<forall>s. DeepEqual rt s s) \<and> (\<forall>s t. DeepEqual rt s t \<longrightarrow> DeepEqual rt t s) \<and>
     (\<forall>s t u. DeepEqual rt s t \<longrightarrow> DeepEqual rt t u \<longrightarrow> DeepEqual rt s u) \<and>
     (\<forall>s. \<not> DeepEqual rt None (Some s)) \<and> (\<forall>s. \<not> DeepEqual rt (Some s) None)"

definition same_spec :: "'t rt_pkg \<Rightarrow> RuntimeObject \<Rightarrow> RuntimeObject \<Rightarrow> bool" where
  "same_spec rt a b \<longleftrightarrow>
     (\<exists>s t. GetSpecFromRuntimeObject rt (Some a) = Inr s \<and> GetSpecFromRuntimeObject rt (Some b) = Inr t \<and> DeepEqual rt s t)"

text \<open>The pods of the closure's object have once been as its spec wants them.\<close>

definition settled_once :: "int \<Rightarrow> closure \<Rightarrow> bool" where
  "settled_once margin cl \<longleftrightarrow>
     (\<exists>desired pods. settled (wait_options margin cl) desired pods \<and> (\<forall>n. cl_replicas cl = ConstReplicas n \<longrightarrow> desired = n))"

definition closure_ok :: "('q, 't) wcp_env \<Rightarrow> closure \<Rightarrow> bool" where
  "closure_ok env cl \<longleftrightarrow> cl_isDeleted cl \<or>
     GetReplicasFromRuntimeObject (we_rt env) (Some (cl_obj cl)) = Some (Inr (cl_replicas cl))"

definition cell_ok :: "('q, 't) wcp_env \<Rightarrow> int \<Rightarrow> objectChecker \<times> closure \<Rightarrow> bool" where
  "cell_ok env margin x \<longleftrightarrow> closure_ok env (snd x) \<and>
     (oc_status (fst x) = running \<longrightarrow> \<not> cl_isDeleted (snd x) \<and> settled_once margin (snd x))"

definition heap_ok :: "('q, 't) wcp_env \<Rightarrow> 'q wcp \<Rightarrow> bool" where
  "heap_ok env w \<longleftrightarrow> (\<forall>i < length (wp_heap w). cell_ok env (wp_countErrorMargin w) (wp_heap w ! i))"

definition entry_ok :: "('q, 't) wcp_env \<Rightarrow> (string \<rightharpoonup> RuntimeObject) \<Rightarrow> (objectChecker \<times> closure) list \<Rightarrow> string \<Rightarrow> nat \<Rightarrow> bool" where
  "entry_ok env m h k i \<longleftrightarrow> i < length h \<and>
     (\<not> cl_isDeleted (snd (h ! i)) \<longrightarrow> (\<exists>ob. m k = Some ob \<and> same_spec (we_rt env) ob (cl_obj (snd (h ! i)))))"

definition map_ok :: "('q, 't) wcp_env \<Rightarrow> (string \<rightharpoonup> RuntimeObject) \<Rightarrow> 'q wcp \<Rightarrow> bool" where
  "map_ok env m w \<longleftrightarrow> gomap_ok (wp_checkerMap w) \<and>
     (\<forall>k i. map_of (wp_checkerMap w) k = Some i \<longrightarrow> entry_ok env m (wp_heap w) k i)"

definition wcp_inv :: "('q, 't) wcp_env \<Rightarrow> (string \<rightharpoonup> RuntimeObject) \<Rightarrow> 'q wcp \<Rightarrow> bool" where
  "wcp_inv env m w \<longleftrightarrow> wp_isRunning w \<and> finite (dom m) \<and> wp_objectKeys w = dom m \<and>
     set (wp_handlingGroup w) \<subseteq> {..<length (wp_heap w)} \<and> heap_ok env w \<and> map_ok env m w"

text \<open>What the checkers' operations keep of the heap: stopping a checker changes no status and no closure.\<close>

definition heap_sim :: "(objectChecker \<times> closure) list \<Rightarrow> (objectChecker \<times> closure) list \<Rightarrow> bool" where
  "heap_sim h h' \<longleftrightarrow> length h' = length h \<and>
     (\<forall>i < length h. snd (h' ! i) = snd (h ! i) \<and> oc_status (fst (h' ! i)) = oc_status (fst (h ! i)))"

lemma heap_sim_refl: "heap_sim h h"
  by (simp add: heap_sim_def)

lemma heap_sim_stop: "heap_sim h (stop_checker i h)"
  by (cases "i < length h") (auto simp: heap_sim_def stop_checker_def nth_list_update)

lemma heap_ok_sim:
  assumes "heap_ok env w" "heap_sim (wp_heap w) (wp_heap w')" "wp_countErrorMargin w' = wp_countErrorMargin w"
  shows "heap_ok env w'"
  using assms by (simp add: heap_ok_def heap_sim_def cell_ok_def)

lemma entry_ok_sim: "entry_ok env m h k i \<Longrightarrow> heap_sim h h' \<Longrightarrow> m' k = m k \<Longrightarrow> entry_ok env m' h' k i"
  by (auto simp: entry_ok_def heap_sim_def)

lemma map_ok_entry: "map_ok env m w \<Longrightarrow> map_of (wp_checkerMap w) k = Some i \<Longrightarrow> entry_ok env m (wp_heap w) k i"
  unfolding map_ok_def by blast

lemma map_ok_sim:
  assumes "map_ok env m w" "heap_sim (wp_heap w) h'"
    and cm: "\<And>k i. map_of cm' k = Some i \<Longrightarrow> map_of (wp_checkerMap w) k = Some i \<and> m' k = m k" and "gomap_ok cm'"
  shows "map_ok env m' (w\<lparr>wp_checkerMap := cm', wp_heap := h'\<rparr>)"
proof -
  have "entry_ok env m' h' k i" if "map_of cm' k = Some i" for k i
    using cm[OF that] map_ok_entry[OF assms(1)] entry_ok_sim[OF _ assms(2)] by metis
  then show ?thesis unfolding map_ok_def using assms(4) by auto
qed

lemma deleteObjectLocked_ok:
  assumes "heap_ok env w" "map_ok env m w" "we_key env ob = Inr k"
    and w': "w' = snd (deleteObjectLocked env (Some ob) w)"
  shows "heap_ok env w'" "map_ok env (m(k := x)) w'"
    and "wp_isRunning w' = wp_isRunning w" "wp_objectKeys w' = wp_objectKeys w"
    and "wp_handlingGroup w' = wp_handlingGroup w" "length (wp_heap w') = length (wp_heap w)"
proof -
  let ?cm = "AList.delete k (wp_checkerMap w)"
  let ?h = "case map_of (wp_checkerMap w) k of None \<Rightarrow> wp_heap w | Some old \<Rightarrow> stop_checker old (wp_heap w)"
  have w'': "w' = w\<lparr>wp_checkerMap := ?cm, wp_heap := ?h\<rparr>"
  proof (cases "map_of (wp_checkerMap w) k")
    case None
    then have "?cm = wp_checkerMap w" by (simp add: delete_id map_of_eq_None_iff)
    with None show ?thesis using assms(3) w' by (simp add: deleteObjectLocked_def on_checkers_def Map_DeleteAndStop_def)
  qed (use assms(3) w' in \<open>simp add: deleteObjectLocked_def on_checkers_def Map_DeleteAndStop_def\<close>)
  have sim: "heap_sim (wp_heap w) ?h" by (auto intro: heap_sim_refl heap_sim_stop split: option.splits)
  show "heap_ok env w'" by (rule heap_ok_sim[OF assms(1)]) (use sim w'' in simp_all)
  have ok: "gomap_ok (wp_checkerMap w)" using assms(2) by (simp add: map_ok_def)
  show "map_ok env (m(k := x)) w'" unfolding w''
  proof (rule map_ok_sim[OF assms(2) sim])
    show "gomap_ok ?cm" using ok by (simp add: distinct_delete)
    show "map_of (wp_checkerMap w) j = Some i \<and> (m(k := x)) j = m j" if "map_of ?cm j = Some i" for j i
      using that unfolding delete_conv' by (cases "j = k") simp_all
  qed
  show "wp_isRunning w' = wp_isRunning w" "wp_objectKeys w' = wp_objectKeys w"
    "wp_handlingGroup w' = wp_handlingGroup w" "length (wp_heap w') = length (wp_heap w)"
    using sim by (simp_all add: w'' heap_sim_def)
qed

text \<open>A checker that is made for an object of the store, or for one that is deleted, fits.\<close>

lemma waitForRuntimeObject_ok:
  assumes "waitForRuntimeObject env ob d t w = Some (r, w')"
  shows "(\<exists>err. r = Inl err \<and> w' = w) \<or>
    (\<exists>c cl. r = Inr (length (wp_heap w)) \<and>
       w' = w\<lparr>wp_heap := wp_heap w @ [(c, cl)], wp_handlingGroup := wp_handlingGroup w @ [length (wp_heap w)]\<rparr> \<and>
       oc_status c = unknown \<and> cl_obj cl = ob \<and> cl_isDeleted cl = d \<and> closure_ok env cl)"
proof -
  obtain rr where rr: "GetReplicasFromRuntimeObject (we_rt env) (Some ob) = Some rr"
    using assms by (cases "GetReplicasFromRuntimeObject (we_rt env) (Some ob)") (simp_all add: waitForRuntimeObject_def)
  define upd where "upd = (if wp_checkIfPodsAreUpdated w
    then map_sum id Some (GetIsPodUpdatedPredicateFromRuntimeObject (we_rt env) ob) else Inr None)"
  note d = assms[unfolded waitForRuntimeObject_def rr option.case Let_def upd_def[symmetric]]
  show ?thesis
  proof (cases rr)
    case (Inr rw)
    note d = d[unfolded Inr sum.case]
    show ?thesis
    proof (cases "(\<exists>e. upd = Inl e) \<or> (\<exists>e. we_key env ob = Inl e) \<or> (\<exists>e. NewOwnerReferenceBasedPodStore ob = Inl e)")
      case True
      then have "w' = w \<and> (\<exists>err. r = Inl err)"
        using d by (cases upd; cases "we_key env ob"; cases "NewOwnerReferenceBasedPodStore ob") auto
      then show ?thesis by blast
    next
      case False
      then obtain u k st where u: "upd = Inr u" "we_key env ob = Inr k" "NewOwnerReferenceBasedPodStore ob = Inr st"
        by (metis sum.exhaust)
      let ?cl = "\<lparr>cl_obj = ob, cl_isDeleted = d, cl_replicas = (if d then ConstReplicas 0 else rw),
        cl_isPodUpdated = u, cl_podStore = st, cl_operationTimeout = t\<rparr>"
      have "closure_ok env ?cl" by (simp add: closure_ok_def rr Inr)
      then show ?thesis
        by (intro disjI2 exI[of _ "newObjectChecker k"] exI[of _ ?cl]) (use d u in \<open>simp add: newObjectChecker_def\<close>)
    qed
  qed (use d in auto)
qed

lemma handleObjectLocked_ok:
  assumes h: "heap_ok env w" and m: "map_ok env m w" and key: "we_key env ob = Inr k"
    and ob: "(if new = None then old else new) = Some ob"
    and fits: "new = None \<or> m k = Some ob" and refl: "same_spec (we_rt env) ob ob"
    and w': "handleObjectLocked env old new w = Some (err, w')"
  shows "heap_ok env w' \<and> map_ok env m w' \<and> wp_isRunning w' = wp_isRunning w \<and> wp_objectKeys w' = wp_objectKeys w \<and>
    (set (wp_handlingGroup w) \<subseteq> {..<length (wp_heap w)} \<longrightarrow> set (wp_handlingGroup w') \<subseteq> {..<length (wp_heap w')})"
proof -
  obtain r w1 where r: "waitForRuntimeObject env ob (new = None) (wp_operationTimeout w) w = Some (r, w1)"
    and w1: "w' = (case r of Inl _ \<Rightarrow> w1 | Inr c \<Rightarrow> on_checkers (Map_Add stop_checker k c) w1)"
    using w' ob key by (auto simp: handleObjectLocked_def Let_def split: option.splits sum.splits prod.splits if_splits)
  from waitForRuntimeObject_ok[OF r] show ?thesis
  proof (elim disjE exE conjE)
    fix e assume "r = Inl e" "w1 = w"
    then show ?thesis using h m w1 by simp
  next
    fix c cl
    let ?n = "length (wp_heap w)" and ?h = "wp_heap w @ [(c, cl)]"
    assume c: "r = Inr ?n" "w1 = w\<lparr>wp_heap := ?h, wp_handlingGroup := wp_handlingGroup w @ [?n]\<rparr>"
      "oc_status c = unknown" "cl_obj cl = ob" "cl_isDeleted cl = (new = None)" "closure_ok env cl"
    let ?h' = "case map_of (wp_checkerMap w) k of None \<Rightarrow> ?h | Some old \<Rightarrow> stop_checker old ?h"
    have eq: "w' = w\<lparr>wp_checkerMap := AList.update k ?n (wp_checkerMap w), wp_heap := ?h',
        wp_handlingGroup := wp_handlingGroup w @ [?n]\<rparr>"
      using w1 c(1,2) by (auto simp: on_checkers_def Map_Add_def split: option.splits)
    have sim: "heap_sim ?h ?h'" by (auto intro: heap_sim_refl heap_sim_stop split: option.splits)
    have "heap_ok env (w\<lparr>wp_heap := ?h\<rparr>)"
      using h c(3,6) by (auto simp: heap_ok_def cell_ok_def nth_append less_Suc_eq)
    then have "heap_ok env w'" by (rule heap_ok_sim) (use sim eq in simp_all)
    moreover have "map_ok env m w'"
    proof -
      have "entry_ok env m ?h' j i" if "map_of (AList.update k ?n (wp_checkerMap w)) j = Some i" for j i
      proof (cases "j = k")
        case True
        with that have "i = ?n" by (simp add: update_conv')
        then have "entry_ok env m ?h k i" using c(4,5) fits refl by (auto simp: entry_ok_def)
        then show ?thesis using True entry_ok_sim[OF _ sim] by blast
      next
        case False
        with that have "map_of (wp_checkerMap w) j = Some i" by (simp add: update_conv')
        then have "entry_ok env m (wp_heap w) j i" by (rule map_ok_entry[OF m])
        then have "entry_ok env m ?h j i" by (auto simp: entry_ok_def nth_append)
        then show ?thesis using entry_ok_sim[OF _ sim] by blast
      qed
      moreover have "gomap_ok (AList.update k ?n (wp_checkerMap w))" using m by (simp add: map_ok_def distinct_update)
      ultimately show ?thesis unfolding map_ok_def eq by simp
    qed
    moreover have "length ?h' = Suc ?n" using sim by (simp add: heap_sim_def)
    ultimately show ?thesis by (auto simp: eq)
  qed
qed

lemma cache_object_eq:
  assumes "\<And>ob. x = Some ob \<Longrightarrow> we_key env ob = Inr (object_key env ob)"
  shows "\<exists>es v. cache_object env upd x (errs, y) =
    (es, y\<lparr>wp_objectKeys := (case x of None \<Rightarrow> wp_objectKeys y | Some ob \<Rightarrow> upd (object_key env ob) (wp_objectKeys y)),
           wp_opResourceVersion := v\<rparr>)"
proof (cases x)
  case None
  then show ?thesis by (auto simp: cache_object_def intro: exI[of _ "wp_opResourceVersion y"])
next
  case (Some ob)
  let ?y = "y\<lparr>wp_objectKeys := upd (object_key env ob) (wp_objectKeys y)\<rparr>"
  have "\<exists>err v. updateOpResourceVersionLocked ob ?y = (err, ?y\<lparr>wp_opResourceVersion := v\<rparr>)"
    by (cases "GetResourceVersionFromRuntimeObject ob")
      (auto simp: updateOpResourceVersionLocked_def intro: exI[of _ "wp_opResourceVersion y"])
  with Some assms[OF Some] show ?thesis by (auto simp: cache_object_def split: option.splits)
qed

lemma updateCache_keys:
  assumes old: "\<And>ob. old = Some ob \<Longrightarrow> we_key env ob = Inr (object_key env ob)"
    and new: "\<And>ob. new = Some ob \<Longrightarrow> we_key env ob = Inr (object_key env ob)"
  shows "\<exists>v. snd (updateCacheLocked env old new w) =
    w\<lparr>wp_objectKeys := (wp_objectKeys w - (case old of None \<Rightarrow> {} | Some ob \<Rightarrow> {object_key env ob})) \<union>
        (case new of None \<Rightarrow> {} | Some ob \<Rightarrow> {object_key env ob}), wp_opResourceVersion := v\<rparr>"
proof -
  obtain es1 y where y: "cache_object env (\<lambda>k ks. ks - {k}) old (NewErrorList [], w) = (es1, y)" by fastforce
  obtain v1 where v1: "y = w\<lparr>wp_objectKeys := (case old of None \<Rightarrow> wp_objectKeys w | Some ob \<Rightarrow> wp_objectKeys w - {object_key env ob}),
      wp_opResourceVersion := v1\<rparr>"
    using cache_object_eq[of old env "\<lambda>k ks. ks - {k}" "NewErrorList []" w, OF old] y by auto
  obtain es2 v2 where v2: "cache_object env insert new (es1, y) =
      (es2, y\<lparr>wp_objectKeys := (case new of None \<Rightarrow> wp_objectKeys y | Some ob \<Rightarrow> insert (object_key env ob) (wp_objectKeys y)),
              wp_opResourceVersion := v2\<rparr>)"
    using cache_object_eq[of new env insert es1 y, OF new] by blast
  show ?thesis
    by (intro exI[of _ v2]) (simp add: updateCacheLocked_def y v2, simp add: v1 split: option.split)
qed

text \<open>The three kinds of events keep the invariant.\<close>

lemma equal_specs:
  assumes eq: "equality_documented (we_rt env)"
    and old: "\<And>ob. old = Some ob \<Longrightarrow> good_object env ob" and new: "\<And>ob. new = Some ob \<Longrightarrow> good_object env ob"
    and i: "IsEqualRuntimeObjectsSpec (we_rt env) old new = Inr True"
  shows "(\<exists>a b. old = Some a \<and> new = Some b \<and> same_spec (we_rt env) b a) \<or> (old = None \<and> new = None)"
proof -
  have sym: "DeepEqual (we_rt env) s t \<Longrightarrow> DeepEqual (we_rt env) t s" for s t
    using eq unfolding equality_documented_def by blast
  have nil: "\<not> DeepEqual (we_rt env) None (Some s)" "\<not> DeepEqual (we_rt env) (Some s) None" for s
    using eq unfolding equality_documented_def by blast+
  show ?thesis
  proof (cases old)
    case None
    show ?thesis
    proof (cases new)
      case (Some b)
      with new[OF Some] None i nil show ?thesis by (auto simp: IsEqualRuntimeObjectsSpec_def good_object_def)
    qed (simp add: None)
  next
    case (Some a)
    then obtain s where s: "GetSpecFromRuntimeObject (we_rt env) (Some a) = Inr (Some s)" using old by (auto simp: good_object_def)
    show ?thesis
    proof (cases new)
      case None
      with Some s i nil show ?thesis by (simp add: IsEqualRuntimeObjectsSpec_def)
    next
      case (Some b)
      then obtain t where "GetSpecFromRuntimeObject (we_rt env) (Some b) = Inr (Some t)" using new by (auto simp: good_object_def)
      with \<open>old = Some a\<close> Some s i have "same_spec (we_rt env) b a"
        by (auto simp: IsEqualRuntimeObjectsSpec_def same_spec_def intro: sym)
      with \<open>old = Some a\<close> Some show ?thesis by blast
    qed
  qed
qed

lemma spec_comparable:
  assumes "\<And>ob. old = Some ob \<Longrightarrow> good_object env ob" "\<And>ob. new = Some ob \<Longrightarrow> good_object env ob"
  shows "\<exists>b. IsEqualRuntimeObjectsSpec (we_rt env) old new = Inr b"
proof -
  have "\<exists>s. GetSpecFromRuntimeObject (we_rt env) x = Inr s" if "\<And>ob. x = Some ob \<Longrightarrow> good_object env ob" for x
    using that by (cases x) (auto simp: good_object_def)
  from this[of old] this[of new] assms show ?thesis by (auto simp: IsEqualRuntimeObjectsSpec_def)
qed

lemma handleObject_cases:
  assumes eq: "equality_documented (we_rt env)" and w': "handleObject env old new w = Some w'"
    and old: "\<And>ob. old = Some ob \<Longrightarrow> good_object env ob" and new: "\<And>ob. new = Some ob \<Longrightarrow> good_object env ob"
    and run: "wp_isRunning w"
  shows "\<exists>w1 v. w' = w1\<lparr>wp_objectKeys := (wp_objectKeys w1 - (case old of None \<Rightarrow> {} | Some ob \<Rightarrow> {object_key env ob})) \<union>
        (case new of None \<Rightarrow> {} | Some ob \<Rightarrow> {object_key env ob}), wp_opResourceVersion := v\<rparr> \<and>
      ((\<exists>a b. old = Some a \<and> new = Some b \<and> same_spec (we_rt env) b a \<and> w1 = w) \<or> (old = None \<and> new = None \<and> w1 = w) \<or>
       (\<exists>err. handleObjectLocked env old new (snd (deleteObjectLocked env old w)) = Some (err, w1)))"
proof -
  obtain isEqual where i: "IsEqualRuntimeObjectsSpec (we_rt env) old new = Inr isEqual"
    using spec_comparable[OF old new] by blast
  obtain w1 where w1: "w' = snd (updateCacheLocked env old new w1)"
    "(if isEqual then Some w else map_option snd (handleObjectLocked env old new (snd (deleteObjectLocked env old w)))) = Some w1"
    using w' i run by (cases isEqual) (auto simp: handleObject_def)
  have keys: "\<And>ob. old = Some ob \<Longrightarrow> we_key env ob = Inr (object_key env ob)"
    "\<And>ob. new = Some ob \<Longrightarrow> we_key env ob = Inr (object_key env ob)"
    using old new by (auto simp: good_object_def object_key_def)
  obtain v where "w' = w1\<lparr>wp_objectKeys := (wp_objectKeys w1 - (case old of None \<Rightarrow> {} | Some ob \<Rightarrow> {object_key env ob})) \<union>
        (case new of None \<Rightarrow> {} | Some ob \<Rightarrow> {object_key env ob}), wp_opResourceVersion := v\<rparr>"
    using updateCache_keys[of old env new w1, OF keys] w1(1) by auto
  moreover have "(\<exists>a b. old = Some a \<and> new = Some b \<and> same_spec (we_rt env) b a) \<or> (old = None \<and> new = None)" if isEqual
    using equal_specs[OF eq old new] i that by simp
  ultimately show ?thesis using w1(2) by (cases isEqual) auto
qed

lemma same_spec_refl: "equality_documented (we_rt env) \<Longrightarrow> good_object env ob \<Longrightarrow> same_spec (we_rt env) ob ob"
  unfolding same_spec_def good_object_def equality_documented_def by blast

lemma same_spec_trans:
  "equality_documented rt \<Longrightarrow> same_spec rt a b \<Longrightarrow> same_spec rt b c \<Longrightarrow> same_spec rt a c"
proof -
  assume "equality_documented rt" "same_spec rt a b" "same_spec rt b c"
  moreover from this(2,3) obtain s t u where "GetSpecFromRuntimeObject rt (Some a) = Inr s"
    "GetSpecFromRuntimeObject rt (Some c) = Inr u" "DeepEqual rt s t" "DeepEqual rt t u" by (auto simp: same_spec_def)
  ultimately show "same_spec rt a c" unfolding same_spec_def equality_documented_def by blast
qed

lemma inv_cong:
  "wcp_inv env m w \<Longrightarrow> wp_isRunning w' = wp_isRunning w \<Longrightarrow> wp_heap w' = wp_heap w \<Longrightarrow> wp_checkerMap w' = wp_checkerMap w \<Longrightarrow>
     wp_handlingGroup w' = wp_handlingGroup w \<Longrightarrow> wp_countErrorMargin w' = wp_countErrorMargin w \<Longrightarrow>
     wp_objectKeys w' = wp_objectKeys w \<Longrightarrow> wcp_inv env m w'"
  by (simp add: wcp_inv_def heap_ok_def map_ok_def)

text \<open>The events that make a new checker: the object under \<open>k\<close> becomes \<open>new\<close>.\<close>

lemma inv_new_checker:
  assumes eq: "equality_documented (we_rt env)" and inv: "wcp_inv env m w"
    and ob: "(if new = None then old else new) = Some ob" "good_object env ob" "object_key env ob = k"
    and old: "\<And>a. old = Some a \<Longrightarrow> good_object env a \<and> object_key env a = k" "old = None \<Longrightarrow> m k = None"
    and w1: "handleObjectLocked env old new (snd (deleteObjectLocked env old w)) = Some (err, w1)"
  shows "wcp_inv env (m(k := new)) (w1\<lparr>wp_objectKeys := (wp_objectKeys w1 - (case old of None \<Rightarrow> {} | Some ob \<Rightarrow> {object_key env ob})) \<union>
        (case new of None \<Rightarrow> {} | Some ob \<Rightarrow> {object_key env ob}), wp_opResourceVersion := v\<rparr>)"
proof -
  let ?w = "snd (deleteObjectLocked env old w)"
  have h: "heap_ok env w" and mp: "map_ok env m w" and run: "wp_isRunning w" and keys: "wp_objectKeys w = dom m"
    and grp: "set (wp_handlingGroup w) \<subseteq> {..<length (wp_heap w)}" and fin: "finite (dom m)"
    using inv by (auto simp: wcp_inv_def)
  have key: "we_key env ob = Inr k" using ob(2,3) by (auto simp: good_object_def object_key_def)
  have d: "heap_ok env ?w \<and> map_ok env (m(k := new)) ?w \<and> wp_isRunning ?w \<and> wp_objectKeys ?w = dom m \<and>
    set (wp_handlingGroup ?w) \<subseteq> {..<length (wp_heap ?w)}"
  proof (cases old)
    case None
    then have mk: "m k = None" using old(2) by simp
    have "entry_ok env (m(k := new)) (wp_heap w) j i" if "map_of (wp_checkerMap w) j = Some i" for j i
      using map_ok_entry[OF mp that] mk by (auto simp: entry_ok_def)
    then have "map_ok env (m(k := new)) w" using mp unfolding map_ok_def by blast
    with None h run keys grp show ?thesis by (simp add: deleteObjectLocked_def)
  next
    case (Some a)
    then have "we_key env a = Inr k" using old(1)[OF Some] by (auto simp: good_object_def object_key_def)
    note ok = deleteObjectLocked_ok[OF h mp this refl]
    from ok(1) ok(2)[of new] ok(3-6) Some run keys grp show ?thesis by simp
  qed
  have fits: "new = None \<or> (m(k := new)) k = Some ob" using ob(1) by (auto split: if_splits)
  have "heap_ok env w1 \<and> map_ok env (m(k := new)) w1 \<and> wp_isRunning w1 \<and> wp_objectKeys w1 = dom m \<and>
    set (wp_handlingGroup w1) \<subseteq> {..<length (wp_heap w1)}"
    using handleObjectLocked_ok[where m = "m(k := new)", OF _ _ key ob(1) fits same_spec_refl[OF eq ob(2)] w1] d by simp
  moreover have "(dom m - (case old of None \<Rightarrow> {} | Some ob \<Rightarrow> {object_key env ob})) \<union>
        (case new of None \<Rightarrow> {} | Some ob \<Rightarrow> {object_key env ob}) = dom (m(k := new))"
    using ob old by (auto split: option.splits if_splits)
  ultimately show ?thesis using fin by (simp add: wcp_inv_def heap_ok_def map_ok_def)
qed

lemma inv_handle:
  assumes eq: "equality_documented (we_rt env)" and inv: "wcp_inv env m w" and w': "handleObject env old new w = Some w'"
    and good: "\<And>a. old = Some a \<Longrightarrow> good_object env a \<and> object_key env a = k" "\<And>a. new = Some a \<Longrightarrow> good_object env a \<and> object_key env a = k"
    and some: "old \<noteq> None \<or> new \<noteq> None" and m: "m k = old"
  shows "wcp_inv env (m(k := new)) w'"
proof -
  have run: "wp_isRunning w" using inv by (simp add: wcp_inv_def)
  obtain w1 v where w1: "w' = w1\<lparr>wp_objectKeys := (wp_objectKeys w1 - (case old of None \<Rightarrow> {} | Some ob \<Rightarrow> {object_key env ob})) \<union>
        (case new of None \<Rightarrow> {} | Some ob \<Rightarrow> {object_key env ob}), wp_opResourceVersion := v\<rparr>"
    and c: "(\<exists>a b. old = Some a \<and> new = Some b \<and> same_spec (we_rt env) b a \<and> w1 = w) \<or>
       (\<exists>err. handleObjectLocked env old new (snd (deleteObjectLocked env old w)) = Some (err, w1))"
    using handleObject_cases[OF eq w' _ _ run] good some by blast
  from c show ?thesis
  proof (elim disjE exE conjE)
    fix a b assume ab: "old = Some a" "new = Some b" "same_spec (we_rt env) b a" "w1 = w"
    have "entry_ok env (m(k := new)) (wp_heap w) j i" if "map_of (wp_checkerMap w) j = Some i" for j i
    proof -
      have "map_ok env m w" using inv by (simp add: wcp_inv_def)
      from map_ok_entry[OF this that] show ?thesis
        using m ab same_spec_trans[OF eq ab(3)] by (auto simp: entry_ok_def)
    qed
    then have "map_ok env (m(k := new)) w" using inv unfolding wcp_inv_def map_ok_def by blast
    moreover have "wp_objectKeys w' = wp_objectKeys w" "dom (m(k := new)) = dom m"
      using w1 ab good(1)[OF ab(1)] good(2)[OF ab(2)] inv m by (auto simp: wcp_inv_def)
    ultimately show ?thesis using inv w1 ab(4) by (simp add: wcp_inv_def heap_ok_def map_ok_def)
  next
    fix err assume h: "handleObjectLocked env old new (snd (deleteObjectLocked env old w)) = Some (err, w1)"
    obtain ob where ob: "(if new = None then old else new) = Some ob" using some by (cases new) auto
    then have "good_object env ob" "object_key env ob = k" using good by (auto split: if_splits)
    from inv_new_checker[OF eq inv ob this good(1) _ h] m show ?thesis unfolding w1 by simp
  qed
qed

text \<open>A goroutine that ends without an error has seen its pods settled.\<close>

lemma WaitForPods_success:
  assumes "WaitForPods opts ps first evs = Some (fp, None)"
  shows "\<exists>desired pods. Tick desired (Inr pods) \<in> set evs \<and> settled opts desired pods"
proof (cases first)
  case (Inr oldPods)
  with assms have "wait_loop opts ps evs oldPods zeroStartupStatus = Some (fp, None)" by (simp add: WaitForPods_def)
  from wait_loop_outcome(2)[OF this] have "settles opts evs" by auto
  then obtain pre desired pods post where "evs = pre @ Tick desired (Inr pods) # post" "settled opts desired pods"
    by (auto simp: settles_def)
  then show ?thesis by (intro exI[of _ desired] exI[of _ pods]) simp
qed (use assms in \<open>simp add: WaitForPods_def\<close>)

lemma inv_finish:
  assumes inv: "wcp_inv env m w" and i: "i \<in> set (wp_handlingGroup w)" "wp_heap w ! i = (c, cl)"
    and evs: "reads_replicas (cl_replicas cl) evs"
    and res: "WaitForPods (wait_options (wp_countErrorMargin w) cl) ps first evs = Some res"
  shows "wcp_inv env m (w\<lparr>wp_heap := (wp_heap w)[i := (finish_checker cl startErr res took hasTimedOut c, cl)],
            wp_handlingGroup := remove1 i (wp_handlingGroup w)\<rparr>)"
proof -
  let ?c = "finish_checker cl startErr res took hasTimedOut c"
  let ?h = "(wp_heap w)[i := (?c, cl)]"
  have lt: "i < length (wp_heap w)" using inv i(1) by (auto simp: wcp_inv_def)
  have h: "\<And>j. j < length (wp_heap w) \<Longrightarrow> cell_ok env (wp_countErrorMargin w) (wp_heap w ! j)"
    using inv by (simp add: wcp_inv_def heap_ok_def)
  have "oc_status ?c = running \<longrightarrow> \<not> cl_isDeleted cl \<and> settled_once (wp_countErrorMargin w) cl"
  proof (cases "startErr = None \<and> snd res = None")
    case True
    then obtain fp where "res = (fp, None)" by (cases res) auto
    then obtain desired pods where "Tick desired (Inr pods) \<in> set evs" "settled (wait_options (wp_countErrorMargin w) cl) desired pods"
      using WaitForPods_success res by blast
    then have "settled_once (wp_countErrorMargin w) cl" using evs by (auto simp: settled_once_def reads_replicas_def)
    with True show ?thesis by (auto simp: finish_checker_def Let_def split: prod.splits)
  next
    case False
    then have "oc_status ?c = running \<longrightarrow> oc_status c = running"
      by (auto simp: finish_checker_def Let_def split: option.splits prod.splits)
    with h[OF lt] i(2) show ?thesis by (simp add: cell_ok_def)
  qed
  then have "cell_ok env (wp_countErrorMargin w) (?c, cl)" using h[OF lt] i(2) by (simp add: cell_ok_def)
  then have "heap_ok env (w\<lparr>wp_heap := ?h\<rparr>)" using h lt by (auto simp: heap_ok_def nth_list_update)
  moreover have "map_ok env m (w\<lparr>wp_heap := ?h\<rparr>)"
  proof -
    have "entry_ok env m ?h k j" if "map_of (wp_checkerMap w) k = Some j" for k j
      using map_ok_entry[OF _ that] inv lt i(2) by (auto simp: wcp_inv_def entry_ok_def nth_list_update)
    then show ?thesis using inv unfolding wcp_inv_def map_ok_def by auto
  qed
  moreover have "set (remove1 i (wp_handlingGroup w)) \<subseteq> {..<length ?h}"
    using inv set_remove1_subset[of i "wp_handlingGroup w"] by (auto simp: wcp_inv_def)
  ultimately show ?thesis using inv by (simp add: wcp_inv_def heap_ok_def map_ok_def)
qed

lemma inv_gone:
  assumes "equality_documented (we_rt env)" "wcp_inv env m w"
    and "m (object_key env ob) = Some ob" "good_object env ob" "handleObject env (Some ob) None w = Some w'"
  shows "wcp_inv env (m(object_key env ob := None)) w'"
  by (rule inv_handle[OF assms(1,2,5)]) (use assms(3,4) in auto)

lemma inv_wcp_step:
  assumes eq: "equality_documented (we_rt env)"
  shows "wcp_step env s s' \<Longrightarrow> wcp_inv env (fst s) (snd s) \<Longrightarrow> wcp_inv env (fst s') (snd s')"
proof (induction rule: wcp_step.induct)
  case (handle e m w w')
  from handle.prems have inv: "wcp_inv env m w" by simp
  note h = inv_handle[OF eq inv]
  have good: "\<forall>ob \<in> event_objects e. good_object env ob" using handle.hyps(2) by blast
  note c = handle.hyps(1) handle.hyps(3)
  show ?case
  proof (cases e)
    case (AddEv ob)
    have u: "m (object_key env ob) = None" using c(1) unfolding AddEv by simp
    have g: "good_object env ob" using good unfolding AddEv by simp
    have hu: "handleObject env None (Some ob) w = Some w'" using c(2) unfolding AddEv by simp
    have "wcp_inv env (m(object_key env ob := Some ob)) w'" by (rule h[OF hu]) (use u g in auto)
    then show ?thesis unfolding AddEv store_after.simps fst_conv snd_conv .
  next
    case (UpdateEv old new)
    have u: "m (object_key env new) = Some old" "object_key env old = object_key env new"
      using c(1) unfolding UpdateEv by simp_all
    have g: "good_object env old" "good_object env new" using good unfolding UpdateEv by simp_all
    have hu: "handleObject env (Some old) (Some new) w = Some w'" using c(2) unfolding UpdateEv by simp
    have "wcp_inv env (m(object_key env new := Some new)) w'" by (rule h[OF hu]) (use u g in auto)
    then show ?thesis unfolding UpdateEv store_after.simps fst_conv snd_conv .
  next
    case (DeleteEv ob)
    then have u: "m (object_key env ob) = Some ob" "good_object env ob" "handleObject env (Some ob) None w = Some w'"
      using c(1,2) good by simp_all
    from inv_gone[OF eq inv this] show ?thesis unfolding DeleteEv store_after.simps fst_conv snd_conv .
  next
    case (DeleteUnknown ob)
    then have u: "m (object_key env ob) = Some ob" "good_object env ob" "handleObject env (Some ob) None w = Some w'"
      using c(1,2) good by simp_all
    from inv_gone[OF eq inv this] show ?thesis unfolding DeleteUnknown store_after.simps fst_conv snd_conv .
  qed
next
  case (finish i w c cl evs first res m startErr took hasTimedOut)
  then show ?case using inv_finish[OF _ finish.hyps] by simp
qed

text \<open>A measurement as \<^verbatim>\<open>start\<close> leaves it.\<close>

definition just_started :: "'q wcp \<Rightarrow> bool" where
  "just_started w \<longleftrightarrow> wp_isRunning w \<and> wp_objectKeys w = {} \<and> wp_checkerMap w = [] \<and> wp_heap w = [] \<and> wp_handlingGroup w = []"

lemma wcp_reachable:
  assumes "equality_documented (we_rt env)" "just_started w0" "(wcp_step env)\<^sup>*\<^sup>* (Map.empty, w0) (m, w)"
  shows "wcp_inv env m w"
proof -
  have "wcp_inv env (fst s) (snd s)" if "(wcp_step env)\<^sup>*\<^sup>* (Map.empty, w0) s" for s
    using that
  proof (induction rule: rtranclp_induct)
    case base
    show ?case using assms(2) by (simp add: just_started_def wcp_inv_def heap_ok_def map_ok_def)
  next
    case (step y z)
    then show ?case using inv_wcp_step[OF assms(1)] by blast
  qed
  from this[OF assms(3)] show ?thesis by simp
qed

section \<open>What gathering reports\<close>

definition status_at :: "'q wcp \<Rightarrow> nat \<Rightarrow> objectStatus" where
  "status_at w i = oc_status (fst (wp_heap w ! i))"

abbreviation with_status :: "'q wcp \<Rightarrow> objectStatus set \<Rightarrow> (string, nat) gomap \<Rightarrow> nat" where
  "with_status w S cm \<equiv> length (filter (\<lambda>(k, i). status_at w i \<in> S) cm)"

lemma gather_checker_counts:
  assumes "gather_checker w (fst (wp_heap w ! i)) g = Some (None, g')"
  shows "gc_running g' = gc_running g + (if status_at w i = running then 1 else 0)"
    "gc_timeout g' = gc_timeout g + (if status_at w i \<in> {timeout, deleteTimeout} then 1 else 0)"
    "gc_failed g' = gc_failed g + (if status_at w i = failed then 1 else 0)"
    "status_at w i \<noteq> unknown"
  using assms
  by (cases "oc_status (fst (wp_heap w ! i))";
      auto simp: gather_checker_def getStatus_def add_failed_def status_at_def split: option.splits)+

lemma gather_loop_counts:
  "gather_loop w cm g = Some (None, g') \<Longrightarrow>
     gc_running g' = gc_running g + with_status w {running} cm \<and>
     gc_timeout g' = gc_timeout g + with_status w {timeout, deleteTimeout} cm \<and>
     gc_failed g' = gc_failed g + with_status w {failed} cm \<and>
     (\<forall>(k, i) \<in> set cm. status_at w i \<noteq> unknown)"
proof (induction w cm g rule: gather_loop.induct)
  case (2 w k i cm g)
  obtain g1 where g1: "gather_checker w (fst (wp_heap w ! i)) g = Some (None, g1)" "gather_loop w cm g1 = Some (None, g')"
    using "2.prems" by (auto split: option.splits)
  from "2.IH"[OF g1(1) refl refl g1(2)] gather_checker_counts[OF g1(1)] show ?case by simp
qed simp

lemma card_matching:
  "gomap_ok cm \<Longrightarrow> card (fst ` {(k, i) \<in> set cm. P i}) = length (filter (\<lambda>(k, i). P i) cm)"
proof -
  assume ok: "gomap_ok cm"
  have "distinct (map fst (filter (\<lambda>(k, i). P i) cm))" using ok by (rule distinct_map_filter)
  from distinct_card[OF this] show ?thesis by (simp add: case_prod_unfold conj_commute)
qed

lemma gather_success:
  assumes "wp_gather env syncTimeout w = Some ((fps, None), forced, w')"
  shows "\<exists>objectKeys v g. getObjectKeysAndMaxVersion env w = Inr (objectKeys, v) \<and>
    we_poll env syncTimeout (gather_cond objectKeys v) w = Inr w' \<and> gather_loop w' (wp_checkerMap w') no_counts = Some (None, g) \<and>
    gc_running g = card objectKeys \<and> gc_timeout g = 0 \<and> gc_failed g = 0"
  using assms
  by (auto simp: wp_gather_def gather_verdict_def split: if_splits sum.splits prod.splits option.splits)


text \<open>
  A failed listing crashes the gathering.  When the pods of an object cannot be listed,
  \<^verbatim>\<open>WaitForPods\<close> returns a nil status with its error, the checker is marked as failed, and gathering
  dereferences the nil status instead of reporting the error.
\<close>

theorem listing_error_panics_gather:
  assumes "WaitForPods opts ps (Inl err) evs = Some res"
    and "wp_heap w ! i = (finish_checker cl None res took False (newObjectChecker key), cl)"
  shows "gather_loop w ((key, i) # cm) g = None"
  using assms
  by (auto simp: WaitForPods_def finish_checker_def gather_checker_def getStatus_def add_failed_def toFailedPods_def Let_def)

section \<open>An example run\<close>

definition demo_rs :: RuntimeObject where
  "demo_rs = UnstructuredObj \<lparr>om_Namespace = ''ns'', om_Name = ''rs'', om_UID = ''u'', om_ResourceVersion = ''7''\<rparr>
     ''ReplicaSet'' [(''spec'', VMap [(''replicas'', VInt64 1)])]"

definition demo_env :: "(event list \<times> bool, unit) wcp_env" where
  "demo_env =
     \<lparr>we_rt = plain_rt, we_key = \<lambda>ob. map_sum id (\<lambda>m. om_Namespace m @ ''/'' @ om_Name m) (Accessor ob),
      we_queue = \<lparr>wq_new = ([], False), wq_Add = \<lambda>a (xs, d). if d then (xs, d) else (xs @ [a], d),
        wq_Get = \<lambda>(xs, d). case xs of x # xs \<Rightarrow> Some (Some x, xs, d) | [] \<Rightarrow> if d then Some (None, [], d) else None,
        wq_Done = \<lambda>_ q. q, wq_ShutDown = \<lambda>(xs, _). (xs, True)\<rparr>,
      we_parseGroupVersion = \<lambda>s. Inr ([], s), we_guess = \<lambda>g. \<lparr>gvr_Group = gvk_Group g, gvr_Version = gvk_Version g,
        gvr_Resource = gvk_Kind g\<rparr>,
      we_newIndexer = None, we_cacheSynced = True, we_synced = True, we_list = \<lambda>_ _ _. Inr [demo_rs],
      we_poll = \<lambda>_ _ w. Inr w, we_pretty = \<lambda>_. Inr [], we_parseDuration = \<lambda>_. Inr 0, we_now = 0\<rparr>"

definition demo_closure :: closure where
  "demo_closure = \<lparr>cl_obj = demo_rs, cl_isDeleted = False, cl_replicas = ConstReplicas 1, cl_isPodUpdated = None,
     cl_podStore = \<lparr>or_owner = demo_rs, or_cachedString = ''namespace(ns), controlledBy(rs)''\<rparr>, cl_operationTimeout = 0\<rparr>"

definition demo0 :: "(event list \<times> bool) wcp" where
  "demo0 = (createWaitForControlledPodsRunningMeasurement demo_env)\<lparr>wp_isRunning := True\<rparr>"

definition demo1 :: "(event list \<times> bool) wcp" where
  "demo1 = demo0\<lparr>wp_heap := [(newObjectChecker ''ns/rs'', demo_closure)], wp_handlingGroup := [0],
     wp_checkerMap := [(''ns/rs'', 0)], wp_objectKeys := {''ns/rs''}, wp_opResourceVersion := 7\<rparr>"

definition demo2 :: "(event list \<times> bool) wcp" where
  "demo2 = demo1\<lparr>wp_heap := (wp_heap demo1)[0 := (finish_checker demo_closure None (None, None) 5 False
     (newObjectChecker ''ns/rs''), demo_closure)], wp_handlingGroup := remove1 0 (wp_handlingGroup demo1)\<rparr>"

lemma demo_env_sel [simp]:
  "we_rt demo_env = plain_rt" "we_list demo_env r l f = Inr [demo_rs]" "we_poll demo_env d P w = Inr w"
  by (simp_all add: demo_env_def)

lemma demo_key [simp]: "we_key demo_env demo_rs = Inr ''ns/rs''" "object_key demo_env demo_rs = ''ns/rs''"
  by (simp_all add: demo_env_def demo_rs_def object_key_def)

lemma demo_version [simp]: "GetResourceVersionFromRuntimeObject demo_rs = Inr 7"
proof -
  have "parse_uint 64 ''7'' = Inr 7" by (simp add: parse_uint_def char_digit_def)
  then show ?thesis by (simp add: GetResourceVersionFromRuntimeObject_def demo_rs_def)
qed

lemma demo_spec [simp]:
  "GetSpecFromRuntimeObject plain_rt (Some demo_rs) = Inr (Some (UnstructuredSpec [(''replicas'', VInt64 1)]))"
  "GetReplicasFromRuntimeObject plain_rt (Some demo_rs) = Some (Inr (ConstReplicas 1))"
  by (simp_all add: demo_rs_def plain_rt_def getSpecFromUnstrutured_def getReplicasFromUnstrutured_def
      tryAcquireReplicasFromUnstructuredSpec_def)

lemma demo_handle: "handleObject demo_env None (Some demo_rs) demo0 = Some demo1"
proof -
  have "IsEqualRuntimeObjectsSpec plain_rt None (Some demo_rs) = Inr False"
    by (simp add: IsEqualRuntimeObjectsSpec_def) (simp add: plain_rt_def)
  moreover have "NewOwnerReferenceBasedPodStore demo_rs =
      Inr \<lparr>or_owner = demo_rs, or_cachedString = ''namespace(ns), controlledBy(rs)''\<rparr>"
    by (simp add: NewOwnerReferenceBasedPodStore_def demo_rs_def)
  ultimately show ?thesis
    by (simp add: handleObject_def demo0_def demo1_def createWaitForControlledPodsRunningMeasurement_def
        deleteObjectLocked_def handleObjectLocked_def waitForRuntimeObject_def on_checkers_def Map_Add_def NewMap_def
        updateCacheLocked_def cache_object_def updateOpResourceVersionLocked_def demo_closure_def Let_def)
qed

lemma demo_reach: "(wcp_step demo_env)\<^sup>*\<^sup>* (Map.empty, demo0) ([''ns/rs'' \<mapsto> demo_rs], demo2)"
proof -
  have "wcp_step demo_env (Map.empty, demo0) (store_after (object_key demo_env) (AddEv demo_rs) Map.empty, demo1)"
    by (rule wcp_step.handle) (use demo_handle in \<open>auto simp: good_object_def\<close>)
  moreover have "settled \<lparr>wo_CountErrorMargin = 0, wo_IsPodUpdated = None\<rparr> 1 [ready_pod]"
    by (simp add: settled_def ready_pod_def podStatus_def is_updated_def)
  then have "pods_settled \<lparr>wo_CountErrorMargin = 0, wo_IsPodUpdated = None\<rparr> 1 [ready_pod] (ComputePodsStartupStatus [ready_pod] 1 None)"
    using pods_settled_iff[of "\<lparr>wo_CountErrorMargin = 0, wo_IsPodUpdated = None\<rparr>" 1 "[ready_pod]" 1] by simp
  then have w: "WaitForPods (wait_options (wp_countErrorMargin demo1) demo_closure) (or_cachedString (cl_podStore demo_closure))
      (Inr []) [Tick 1 (Inr [ready_pod])] = Some (None, None)"
    by (simp add: WaitForPods_def wait_options_def demo1_def demo0_def createWaitForControlledPodsRunningMeasurement_def
        demo_closure_def Let_def)
  have "wcp_step demo_env (m, demo1) (m, demo2)" for m
    unfolding demo2_def
    by (rule wcp_step.finish[OF _ _ _ w]) (simp_all add: demo1_def reads_replicas_def demo_closure_def)
  ultimately show ?thesis by (auto intro: rtranclp.rtrancl_into_rtrancl)
qed


theorem listing_error_panics_gather_witness:
  "gather_loop (demo1\<lparr>wp_heap := [(finish_checker demo_closure None
      (None, Some (Errorf (''failed to list pods: '' @ err_msg ErrCritical) [ErrCritical])) 5 False
      (newObjectChecker ''ns/rs''), demo_closure)]\<rparr>) [(''ns/rs'', 0)] no_counts = None"
  by (rule listing_error_panics_gather[where evs = "[]" and err = ErrCritical]) (simp_all add: WaitForPods_def)

end
