(* ===== verification/Prometheus_Core.thy ===== *)
theory Prometheus_Core
  imports Phase_Latency Measurement_Core
begin

text \<open>
  Measurements that query Prometheus (\<^verbatim>\<open>clusterloader2/pkg/measurement/common/prometheus_measurement.go\<close>):
  the common execution, the interface of a gatherer as a locale, and the query executor
  (\<^verbatim>\<open>util/prometheus.go\<close>).  The client of Prometheus, JSON and YAML are parameters.
\<close>

section \<open>Queries\<close>

type_synonym executor = "string \<Rightarrow> gotime \<Rightarrow> goerr + sample list"

abbreviation second :: duration where "second \<equiv> 1000000000"

definition ToPrometheusTime :: "duration \<Rightarrow> string" where
  "ToPrometheusTime t = show_int (go_div t second) @ ''s''"

text \<open>
  A decoded response; \<open>None\<close> as the data is a value that is no vector, with the name of its type.  \<open>None\<close>
  as the value of a sample is NaN.
\<close>

record nan_sample =
  ns_Metric :: "(string, string) gomap"
  ns_Value :: "rat option"

record promQueryResponse =
  pr_Status :: string
  pr_Data :: "string + nan_sample list"

definition ExtractMetricSamples2 :: "('b \<Rightarrow> goerr + promQueryResponse) \<Rightarrow> 'b \<Rightarrow> goerr + nan_sample list" where
  "ExtractMetricSamples2 decode response =
     (case decode response of
        Inl err \<Rightarrow> Inl err
      | Inr pqr \<Rightarrow>
          if pr_Status pqr \<noteq> ''success'' then Inl (Errorf (''non-success response status: '' @ pr_Status pqr) [])
          else (case pr_Data pqr of
                  Inl typ \<Rightarrow> Inl (Errorf (''incorrect response type: '' @ typ) [])
                | Inr vector \<Rightarrow> Inr vector))"

fun drop_nan :: "nan_sample list \<Rightarrow> sample list" where
  "drop_nan [] = []"
| "drop_nan (s # ss) =
     (case ns_Value s of
        None \<Rightarrow> drop_nan ss
      | Some v \<Rightarrow> \<lparr>sm_Metric = ns_Metric s, sm_Value = v\<rparr> # drop_nan ss)"

text \<open>
  The polling asks the client until it answers: its attempts are a list, each an error with the body that
  came with it, or a body; they end when the time is over.
\<close>

fun poll_query :: "((goerr \<times> 'b option) + 'b) list \<Rightarrow> (goerr \<times> 'b option) option \<Rightarrow> (goerr \<times> 'b option) option + 'b" where
  "poll_query [] prev = Inl prev"
| "poll_query (Inr body # as) prev = Inr body"
| "poll_query (Inl err # as) prev = poll_query as (Some err)"

definition executor_Query ::
  "('b \<Rightarrow> goerr + promQueryResponse) \<Rightarrow> ('b \<Rightarrow> string) \<Rightarrow> ((goerr \<times> 'b option) + 'b) list \<Rightarrow> gotime \<Rightarrow> goerr + sample list" where
  "executor_Query decode shw attempts queryTime =
     (if queryTime = 0 then Inl (Errorf ''query time can't be zero'' [])
      else
        (case poll_query attempts None of
           Inl (Some (queryErr, body)) \<Rightarrow>
             Inl (Errorf (''query error: '' @ err_msg queryErr @ '' [body: ''
                    @ (case body of None \<Rightarrow> ''(empty)'' | Some b \<Rightarrow> shw b) @ '']'') [])
         | Inl None \<Rightarrow> Inl (Errorf ''error: timed out waiting for the condition'' [])
         | Inr body \<Rightarrow>
             (case ExtractMetricSamples2 decode body of
                Inl err \<Rightarrow> Inl (Errorf (''extracting error: '' @ err_msg err) [])
              | Inr samples \<Rightarrow> Inr (drop_nan samples))))"

definition label :: "sample \<Rightarrow> string \<Rightarrow> string" where
  "label s k = (case map_of (sm_Metric s) k of None \<Rightarrow> [] | Some v \<Rightarrow> v)"

text \<open>\<^verbatim>\<open>int(math.Round(x))\<close>: halves are rounded away from zero.\<close>

definition int_Round :: "rat \<Rightarrow> int" where
  "int_Round x = (if x < 0 then - \<lfloor>- x + 1 / 2\<rfloor> else \<lfloor>x + 1 / 2\<rfloor>)"

text \<open>\<^verbatim>\<open>time.Duration(float64(v) * float64(time.Second))\<close>.\<close>

definition seconds_value :: "rat \<Rightarrow> duration" where
  "seconds_value v = trunc_rat (fl (v * 1000000000))"

text \<open>\<^verbatim>\<open>strconv.ParseFloat\<close> with its error.\<close>

definition parse_float_err :: "(string \<Rightarrow> rat \<times> numerr option) \<Rightarrow> string \<Rightarrow> goerr + rat" where
  "parse_float_err pf s =
     (case pf s of
        (f, None) \<Rightarrow> Inr f
      | (_, Some e) \<Rightarrow> Inl (Errorf (''strconv.ParseFloat: parsing '' @ CHR 0x22 # s @ CHR 0x22 # '': '' @
          (case e of ErrSyntax \<Rightarrow> ''invalid syntax'' | ErrRange \<Rightarrow> ''value out of range'')) []))"

text \<open>\<open>%v\<close> of a slice of errors.\<close>

fun join_errs :: "goerr list \<Rightarrow> string" where
  "join_errs [] = []"
| "join_errs [e] = err_msg e"
| "join_errs (e # es) = err_msg e @ '' '' @ join_errs es"

definition show_errs :: "goerr list \<Rightarrow> string" where
  "show_errs es = ''['' @ join_errs es @ '']''"

section \<open>The measurement\<close>

text \<open>\<open>None\<close> as the result of a gathering is a panic.\<close>

record 'g Gatherer =
  ga_Configure :: "MeasurementConfig \<Rightarrow> 'g \<Rightarrow> goerr option \<times> 'g"
  ga_Gather :: "executor \<Rightarrow> gotime \<Rightarrow> gotime \<Rightarrow> MeasurementConfig \<Rightarrow> 'g \<Rightarrow> (genericSummary list \<times> goerr option) option"
  ga_IsEnabled :: "MeasurementConfig \<Rightarrow> bool"
  ga_String :: string

text \<open>
  Where the measurement runs: whether there is a Prometheus in the cluster, the executor on it, and the
  managed one of the provider.
\<close>

record prom_place =
  pl_framework :: bool
  pl_inCluster :: executor
  pl_managed :: "goerr + executor"

record 'g prometheusMeasurement =
  pm_gatherer :: 'g
  pm_startTime :: gotime

definition CreatePrometheusMeasurement :: "'g \<Rightarrow> 'g prometheusMeasurement" where
  "CreatePrometheusMeasurement gatherer = \<lparr>pm_gatherer = gatherer, pm_startTime = 0\<rparr>"

definition gather_action ::
  "prom_place \<Rightarrow> 'g Gatherer \<Rightarrow> string \<Rightarrow> MeasurementConfig \<Rightarrow> gotime \<Rightarrow> 'g prometheusMeasurement \<Rightarrow>
   (genericSummary list \<times> goerr option) option" where
  "gather_action pl G prometheusClient config now m =
     (case GetBoolOrDefault (mc_Params config) ''enableViolations'' False of
        Inl err \<Rightarrow> Some ([], Some err)
      | Inr enableViolations \<Rightarrow>
     (case (if prometheusClient = ''inCluster'' then Inr (pl_inCluster pl) else pl_managed pl) of
        Inl err \<Rightarrow> Some ([], Some (Errorf (''error while creating managed Prometheus client: '' @ err_msg err) [err]))
      | Inr executor \<Rightarrow>
     (case ga_Gather G executor (pm_startTime m) now config (pm_gatherer m) of
        None \<Rightarrow> None
      | Some (summary, None) \<Rightarrow> Some (summary, None)
      | Some (summary, Some err) \<Rightarrow>
          if \<not> IsMetricViolationError err then Some ([], Some err)
          else Some (summary, if \<not> enableViolations then None else Some err))))"

definition prom_Execute ::
  "prom_place \<Rightarrow> 'g Gatherer \<Rightarrow> MeasurementConfig \<Rightarrow> gotime \<Rightarrow> 'g prometheusMeasurement \<Rightarrow>
   ((genericSummary list \<times> goerr option) \<times> 'g prometheusMeasurement) option" where
  "prom_Execute pl G config now m =
     (case GetStringOrDefault (mc_Params config) ''prometheusClient'' ''inCluster'' of
        Inl err \<Rightarrow> Some (([], Some err), m)
      | Inr prometheusClient \<Rightarrow>
          if prometheusClient \<noteq> ''inCluster'' \<and> prometheusClient \<noteq> ''managed''
          then Some (([], Some (Errorf ''unknown Prometheus client'' [])), m)
          else if prometheusClient = ''inCluster'' \<and> \<not> pl_framework pl then Some (([], None), m)
          else if \<not> ga_IsEnabled G config then Some (([], None), m)
          else
            (case getString (mc_Params config) ''action'' of
               Inl err \<Rightarrow> Some (([], Some err), m)
             | Inr action \<Rightarrow>
                 if action = ''start'' then
                   (case ga_Configure G config (pm_gatherer m) of
                      (Some err, g) \<Rightarrow> Some (([], Some err), m\<lparr>pm_gatherer := g\<rparr>)
                    | (None, g) \<Rightarrow> Some (([], None), m\<lparr>pm_gatherer := g, pm_startTime := now\<rparr>))
                 else if action = ''gather'' then map_option (\<lambda>r. (r, m)) (gather_action pl G prometheusClient config now m)
                 else Some (([], Some (Errorf (''unknown action: '' @ action) [])), m)))"

section \<open>Gatherers with an objective\<close>

text \<open>
  A gatherer decides an objective: when what it needs is there (\<open>ready\<close>: its queries and its parameters),
  it returns one summary, and a metric violation exactly if the objective is not met.
\<close>

locale slo_gatherer =
  fixes G :: "'g Gatherer"
    and ready :: "executor \<Rightarrow> gotime \<Rightarrow> gotime \<Rightarrow> MeasurementConfig \<Rightarrow> 'g \<Rightarrow> bool"
    and met :: "executor \<Rightarrow> gotime \<Rightarrow> gotime \<Rightarrow> MeasurementConfig \<Rightarrow> 'g \<Rightarrow> bool"
  assumes gather_met: "ready ex s e c g \<Longrightarrow> met ex s e c g \<Longrightarrow> \<exists>summary. ga_Gather G ex s e c g = Some ([summary], None)"
    and gather_missed: "ready ex s e c g \<Longrightarrow> \<not> met ex s e c g \<Longrightarrow>
          \<exists>summary err. ga_Gather G ex s e c g = Some ([summary], Some err) \<and> IsMetricViolationError err"
begin

text \<open>
  What the executed measurement reports then: always the summary, and an error exactly if the objective
  is missed and violations are enabled.
\<close>

lemma gather_action_decides:
  assumes "GetBoolOrDefault (mc_Params c) ''enableViolations'' False = Inr enabled"
    and "(if client = ''inCluster'' then Inr (pl_inCluster pl) else pl_managed pl) = Inr ex"
    and "ready ex (pm_startTime m) now c (pm_gatherer m)"
  shows "\<exists>summary err. gather_action pl G client c now m = Some ([summary], err) \<and>
    (err = None \<longleftrightarrow> met ex (pm_startTime m) now c (pm_gatherer m) \<or> \<not> enabled) \<and>
    (\<forall>e. err = Some e \<longrightarrow> IsMetricViolationError e)"
proof (cases "met ex (pm_startTime m) now c (pm_gatherer m)")
  case True
  from gather_met[OF assms(3) True] show ?thesis
    using assms(1,2) True by (auto simp: gather_action_def)
next
  case False
  from gather_missed[OF assms(3) False] show ?thesis
    using assms(1,2) False by (auto simp: gather_action_def)
qed

lemma execute_decides:
  assumes client: "GetStringOrDefault (mc_Params c) ''prometheusClient'' ''inCluster'' = Inr ''inCluster''" "pl_framework pl"
    and "ga_IsEnabled G c" and "getString (mc_Params c) ''action'' = Inr ''gather''"
    and "GetBoolOrDefault (mc_Params c) ''enableViolations'' False = Inr enabled"
    and "ready (pl_inCluster pl) (pm_startTime m) now c (pm_gatherer m)"
  shows "\<exists>summary err. prom_Execute pl G c now m = Some (([summary], err), m) \<and>
    (err = None \<longleftrightarrow> met (pl_inCluster pl) (pm_startTime m) now c (pm_gatherer m) \<or> \<not> enabled) \<and>
    (\<forall>e. err = Some e \<longrightarrow> IsMetricViolationError e)"
  using gather_action_decides[OF assms(5) _ assms(6), of "''inCluster''"] assms(1-4)
  by (auto simp: prom_Execute_def)

end

text \<open>The parameters of a gathering with violations enabled, for the examples of the gatherers.\<close>

definition gather_config :: MeasurementConfig where
  "gather_config = \<lparr>mc_Params = [(''action'', VString ''gather''), (''enableViolations'', VBool True)],
     mc_Identifier = ''id'', mc_ClusterVersion = ''v1.30''\<rparr>"

lemma gather_config_params:
  "GetStringOrDefault (mc_Params gather_config) ''prometheusClient'' ''inCluster'' = Inr ''inCluster''"
  "getString (mc_Params gather_config) ''action'' = Inr ''gather''"
  "GetBoolOrDefault (mc_Params gather_config) ''enableViolations'' False = Inr True"
  by (simp_all add: gather_config_def GetStringOrDefault_def GetBoolOrDefault_def getString_def getBool_def or_default_def
      IsErrKeyNotFound_def)

end
