(* ===== verification/Api_Responsiveness.thy ===== *)
theory Api_Responsiveness
  imports Prometheus_Core
begin

text \<open>
  The service level objective of API calls
  (\<^verbatim>\<open>clusterloader2/pkg/measurement/common/slos/api_responsiveness_prometheus.go\<close>): the calls are
  collected from samples, and every call must stay below its threshold.
\<close>

section \<open>Calls\<close>

record apiCallMetric =
  ac_Resource :: string
  ac_Subresource :: string
  ac_Verb :: string
  ac_Scope :: string
  ac_Latency :: LatencyMetric
  ac_Count :: int
  ac_SlowCount :: int

type_synonym apiCallMetrics = "(string, apiCallMetric) gomap"

definition singleResourceThreshold :: duration where
  "singleResourceThreshold = second"

definition multipleResourcesThreshold :: duration where
  "multipleResourcesThreshold = 30 * second"

definition buildKey :: "string \<Rightarrow> string \<Rightarrow> string \<Rightarrow> string \<Rightarrow> string" where
  "buildKey resource subresource verb scope = resource @ ''|'' @ subresource @ ''|'' @ verb @ ''|'' @ scope"

definition ac_getKey :: "apiCallMetric \<Rightarrow> string" where
  "ac_getKey ap = buildKey (ac_Resource ap) (ac_Subresource ap) (ac_Verb ap) (ac_Scope ap)"

definition getSLOThreshold :: "apiCallMetric \<Rightarrow> duration" where
  "getSLOThreshold ap = (if ac_Scope ap = ''resource'' then singleResourceThreshold else multipleResourcesThreshold)"

text \<open>\<open>shw\<close> prints a duration, \<open>showCall\<close> a call; both only for messages.\<close>

definition ac_Validate ::
  "(duration \<Rightarrow> string) \<Rightarrow> (apiCallMetric \<Rightarrow> string) \<Rightarrow> int \<Rightarrow> duration \<Rightarrow> apiCallMetric \<Rightarrow> goerr option" where
  "ac_Validate shw showCall allowedSlowCalls threshold ap =
     (if allowedSlowCalls > 0 \<and> ac_SlowCount ap \<le> allowedSlowCalls then None
      else
        (case VerifyThreshold shw (ac_Latency ap) threshold of
           Some err \<Rightarrow> Some (Errorf (''got: '' @ showCall ap @ ''; expected perc99 <= '' @ shw threshold) [])
         | None \<Rightarrow> None))"

definition getAPICall ::
  "string \<Rightarrow> string \<Rightarrow> string \<Rightarrow> string \<Rightarrow> apiCallMetrics \<Rightarrow> apiCallMetric \<times> apiCallMetrics" where
  "getAPICall resource subresource verb scope m =
     (let key = buildKey resource subresource verb scope
      in (case map_of m key of
            Some call \<Rightarrow> (call, m)
          | None \<Rightarrow>
              let call = \<lparr>ac_Resource = resource, ac_Subresource = subresource, ac_Verb = verb, ac_Scope = scope,
                          ac_Latency = \<lparr>lm_Perc50 = 0, lm_Perc90 = 0, lm_Perc99 = 0\<rparr>, ac_Count = 0, ac_SlowCount = 0\<rparr>
              in (call, AList.update key call m)))"

text \<open>A write through the pointer that \<open>getAPICall\<close> returns.\<close>

definition update_call ::
  "string \<Rightarrow> string \<Rightarrow> string \<Rightarrow> string \<Rightarrow> (apiCallMetric \<Rightarrow> apiCallMetric) \<Rightarrow> apiCallMetrics \<Rightarrow> apiCallMetrics" where
  "update_call resource subresource verb scope f m =
     (case getAPICall resource subresource verb scope m of
        (call, m) \<Rightarrow> AList.update (buildKey resource subresource verb scope) (f call) m)"

definition SetLatency ::
  "string \<Rightarrow> string \<Rightarrow> string \<Rightarrow> string \<Rightarrow> rat \<Rightarrow> duration \<Rightarrow> apiCallMetrics \<Rightarrow> apiCallMetrics" where
  "SetLatency resource subresource verb scope quantile latency =
     update_call resource subresource verb scope (\<lambda>c. c\<lparr>ac_Latency := SetQuantile (ac_Latency c) quantile latency\<rparr>)"

definition GetCount :: "string \<Rightarrow> string \<Rightarrow> string \<Rightarrow> string \<Rightarrow> apiCallMetrics \<Rightarrow> int \<times> apiCallMetrics" where
  "GetCount resource subresource verb scope m =
     (case getAPICall resource subresource verb scope m of (call, m) \<Rightarrow> (ac_Count call, m))"

definition SetCount :: "string \<Rightarrow> string \<Rightarrow> string \<Rightarrow> string \<Rightarrow> int \<Rightarrow> apiCallMetrics \<Rightarrow> apiCallMetrics" where
  "SetCount resource subresource verb scope cnt m =
     (if cnt = 0 then m else update_call resource subresource verb scope (\<lambda>c. c\<lparr>ac_Count := cnt\<rparr>) m)"

definition SetSlowCount :: "string \<Rightarrow> string \<Rightarrow> string \<Rightarrow> string \<Rightarrow> int \<Rightarrow> apiCallMetrics \<Rightarrow> apiCallMetrics" where
  "SetSlowCount resource subresource verb scope cnt m =
     (if cnt = 0 then m else update_call resource subresource verb scope (\<lambda>c. c\<lparr>ac_SlowCount := cnt\<rparr>) m)"

text \<open>The four labels that identify a call.\<close>

definition on_call :: "(string \<Rightarrow> string \<Rightarrow> string \<Rightarrow> string \<Rightarrow> 'a) \<Rightarrow> sample \<Rightarrow> 'a" where
  "on_call f s = f (label s ''resource'') (label s ''subresource'') (label s ''verb'') (label s ''scope'')"

fun latency_loop ::
  "(string \<Rightarrow> rat \<times> numerr option) \<Rightarrow> sample list \<Rightarrow> apiCallMetrics \<Rightarrow> goerr + apiCallMetrics" where
  "latency_loop pf [] m = Inr m"
| "latency_loop pf (s # ss) m =
     (case parse_float_err pf (label s ''quantile'') of
        Inl err \<Rightarrow> Inl err
      | Inr quantile \<Rightarrow> latency_loop pf ss (on_call SetLatency s quantile (seconds_value (sm_Value s)) m))"

definition count_sample :: "sample \<Rightarrow> apiCallMetrics \<Rightarrow> apiCallMetrics" where
  "count_sample s m = on_call SetCount s (int_Round (sm_Value s)) m"

definition fast_sample :: "sample \<Rightarrow> apiCallMetrics \<Rightarrow> apiCallMetrics" where
  "fast_sample s m =
     (case on_call GetCount s m of
        (cnt, m) \<Rightarrow> on_call SetSlowCount s (wrap 64 (cnt - int_Round (sm_Value s))) m)"

definition newFromSamples ::
  "(string \<Rightarrow> rat \<times> numerr option) \<Rightarrow> sample list \<Rightarrow> sample list \<Rightarrow> sample list \<Rightarrow> goerr + apiCallMetrics" where
  "newFromSamples pf latencySamples countSamples countFastSamples =
     (case latency_loop pf latencySamples [] of
        Inl err \<Rightarrow> Inl err
      | Inr m \<Rightarrow> Inr (fold fast_sample countFastSamples (fold count_sample countSamples m)))"

text \<open>Among calls with the same latency any order is possible; this one keeps the order of the map.\<close>

definition ac_sorted :: "apiCallMetrics \<Rightarrow> apiCallMetric list" where
  "ac_sorted m = sort_key (\<lambda>c. - lm_Perc99 (ac_Latency c)) (map snd m)"

definition call_item :: "apiCallMetric \<Rightarrow> DataItem" where
  "call_item c =
     \<lparr>di_Data = di_Data (ToPerfData (ac_Latency c) []), di_Unit = ''ms'',
      di_Labels = [(''Verb'', ac_Verb c), (''Resource'', ac_Resource c), (''Subresource'', ac_Subresource c),
        (''Scope'', ac_Scope c), (''Count'', show_int (ac_Count c)), (''SlowCount'', show_int (ac_SlowCount c))]\<rparr>"

definition ac_ToPerfData :: "apiCallMetrics \<Rightarrow> PerfData" where
  "ac_ToPerfData m = \<lparr>pd_Version = ''v1'', pd_DataItems = map call_item (ac_sorted m), pd_Labels = []\<rparr>"

section \<open>Queries\<close>

definition apiFilters :: string where
  \<open>apiFilters = ''verb!="WATCH", subresource!~"log|exec|portforward|attach|proxy"''\<close>

definition filterGetAndMutating :: string where
  \<open>filterGetAndMutating = ''verb!~"WATCH|LIST", subresource!="proxy", le="1"''\<close>

definition filterNamespaceList :: string where
  \<open>filterNamespaceList = ''scope!="cluster", verb="LIST", le="5"''\<close>

definition filterClusterList :: string where
  \<open>filterClusterList = ''scope="cluster", verb="LIST", le="30"''\<close>

definition latencyQuery :: "string \<Rightarrow> string \<Rightarrow> string \<Rightarrow> string" where
  "latencyQuery metric flt window = ''quantile_over_time(0.99, '' @ metric @ ''{'' @ flt @ ''}['' @ window @ ''])''"

definition simpleLatencyQuery :: "string \<Rightarrow> string \<Rightarrow> string \<Rightarrow> string \<Rightarrow> string" where
  "simpleLatencyQuery q metric flt window =
     ''histogram_quantile('' @ q @ '', sum(rate('' @ metric @ ''_bucket{'' @ flt @ ''}['' @ window
     @ ''])) by (resource,  subresource, verb, scope, le))''"

definition countQuery :: "string \<Rightarrow> string \<Rightarrow> string \<Rightarrow> string" where
  "countQuery metric flt window =
     ''sum(increase('' @ metric @ ''_count{'' @ flt @ ''}['' @ window @ ''])) by (resource, subresource, scope, verb)''"

definition countFastQuery :: "string \<Rightarrow> string \<Rightarrow> string \<Rightarrow> string" where
  "countFastQuery metric flt window =
     ''sum(increase('' @ metric @ ''_bucket{'' @ flt @ ''}['' @ window @ ''])) by (resource, subresource, scope, verb)''"

definition watchListLatencyMetricName :: string where
  "watchListLatencyMetricName = ''apiserver_watch_list_duration_seconds''"

definition watchListLatencyQuery :: "string \<Rightarrow> string \<Rightarrow> string \<Rightarrow> string" where
  "watchListLatencyQuery q metric window =
     ''histogram_quantile('' @ q @ '', sum(rate('' @ metric @ ''_bucket{}['' @ window
     @ ''])) by (group, version, resource, scope, le))''"

record customThresholdEntry =
  ct_Resource :: string
  ct_Subresource :: string
  ct_Verb :: string
  ct_Scope :: string
  ct_Threshold :: duration

text \<open>\<open>ae_version\<close> are the major and minor version of the cluster, \<open>ae_yaml\<close> decodes the custom thresholds.\<close>

record api_env =
  ae_ParseFloat :: "string \<Rightarrow> rat \<times> numerr option"
  ae_show :: "duration \<Rightarrow> string"
  ae_showCall :: "apiCallMetric \<Rightarrow> string"
  ae_pretty :: "PerfData \<Rightarrow> goerr + string"
  ae_yaml :: "string \<Rightarrow> goerr + customThresholdEntry list"
  ae_version :: "string \<times> string"
  ae_now :: gotime

definition set_label :: "string \<Rightarrow> string \<Rightarrow> sample \<Rightarrow> sample" where
  "set_label k v s = s\<lparr>sm_Metric := AList.update k v (sm_Metric s)\<rparr>"

fun simple_loop ::
  "executor \<Rightarrow> string \<Rightarrow> string \<Rightarrow> gotime \<Rightarrow> string list \<Rightarrow> sample list \<Rightarrow> goerr + sample list" where
  "simple_loop executor sli promDuration endTime [] latencySamples = Inr latencySamples"
| "simple_loop executor sli promDuration endTime (q # qs) latencySamples =
     (case executor (simpleLatencyQuery q sli apiFilters promDuration) endTime of
        Inl err \<Rightarrow> Inl err
      | Inr samples \<Rightarrow>
          let latencySamples = latencySamples @ map (set_label ''quantile'' q) samples
          in (case executor (watchListLatencyQuery q watchListLatencyMetricName promDuration) endTime of
                Inl err \<Rightarrow> Inl err
              | Inr samples \<Rightarrow>
                  simple_loop executor sli promDuration endTime qs
                    (latencySamples @ map (\<lambda>s. set_label ''verb'' ''WATCHLIST'' (set_label ''quantile'' q s)) samples)))"

fun fast_loop ::
  "executor \<Rightarrow> string \<Rightarrow> string \<Rightarrow> gotime \<Rightarrow> string list \<Rightarrow> sample list \<Rightarrow> goerr + sample list" where
  "fast_loop executor sli promDuration endTime [] acc = Inr acc"
| "fast_loop executor sli promDuration endTime (flt # flts) acc =
     (case executor (countFastQuery sli flt promDuration) endTime of
        Inl err \<Rightarrow> Inl err
      | Inr samples \<Rightarrow> fast_loop executor sli promDuration endTime flts (acc @ samples))"

definition latency_samples ::
  "executor \<Rightarrow> string \<Rightarrow> string \<Rightarrow> gotime \<Rightarrow> bool \<Rightarrow> duration \<Rightarrow> goerr + sample list" where
  "latency_samples executor sli latency endTime useSimple measurementDuration =
     (if useSimple then
        simple_loop executor sli (ToPrometheusTime measurementDuration) endTime [''0.50'', ''0.90'', ''0.99''] []
      else
        let latencyMeasurementDuration = wrap 64 (measurementDuration - 300 * second);
            latencyMeasurementDuration =
              (if latencyMeasurementDuration < 60 * second then 60 * second else latencyMeasurementDuration)
        in executor (latencyQuery latency apiFilters (ToPrometheusTime latencyMeasurementDuration)) endTime)"

definition gatherAPICalls ::
  "api_env \<Rightarrow> executor \<Rightarrow> gotime \<Rightarrow> gotime \<Rightarrow> MeasurementConfig \<Rightarrow> goerr + apiCallMetrics" where
  "gatherAPICalls env executor startTime endTime config =
     (let measurementDuration = time_Sub endTime startTime;
          promDuration = ToPrometheusTime measurementDuration;
          sli = GetApiserverSLI (fst (ae_version env)) (snd (ae_version env));
          latency = GetApiserverLatency (fst (ae_version env)) (snd (ae_version env))
      in (case GetBoolOrDefault (mc_Params config) ''useSimpleLatencyQuery'' False of
            Inl err \<Rightarrow> Inl err
          | Inr useSimple \<Rightarrow>
         (case latency_samples executor sli latency endTime useSimple measurementDuration of
            Inl err \<Rightarrow> Inl err
          | Inr latencySamples \<Rightarrow>
         (case executor (countQuery sli apiFilters promDuration) endTime of
            Inl err \<Rightarrow> Inl err
          | Inr countSamples \<Rightarrow>
         (case executor (countQuery watchListLatencyMetricName [] promDuration) endTime of
            Inl err \<Rightarrow> Inl err
          | Inr watchListCountSamples \<Rightarrow>
         (case fast_loop executor sli promDuration endTime
                 [filterGetAndMutating, filterNamespaceList, filterClusterList] [] of
            Inl err \<Rightarrow> Inl err
          | Inr countFastSamples \<Rightarrow>
              newFromSamples (ae_ParseFloat env) latencySamples
                (countSamples @ map (set_label ''verb'' ''WATCHLIST'') watchListCountSamples) countFastSamples))))))"

section \<open>Thresholds and the verdict\<close>

definition ct_getKey :: "customThresholdEntry \<Rightarrow> string" where
  "ct_getKey cte = buildKey (ct_Resource cte) (ct_Subresource cte) (ct_Verb cte) (ct_Scope cte)"

fun thresholds_loop ::
  "apiCallMetrics \<Rightarrow> customThresholdEntry list \<Rightarrow> (string, duration) gomap \<Rightarrow> goerr + (string, duration) gomap" where
  "thresholds_loop m [] acc = Inr acc"
| "thresholds_loop m (entry # es) acc =
     (if ct_Threshold entry = 0 then Inl (Errorf ''custom threshold must be set to a positive time duration'' [])
      else
        let key = ct_getKey entry
        in thresholds_loop m es
             (case map_of m key of None \<Rightarrow> acc | Some _ \<Rightarrow> AList.update key (ct_Threshold entry) acc))"

definition getCustomThresholds ::
  "api_env \<Rightarrow> MeasurementConfig \<Rightarrow> apiCallMetrics \<Rightarrow> goerr + (string, duration) gomap" where
  "getCustomThresholds env config m =
     (case GetStringOrDefault (mc_Params config) ''customThresholds'' [] of
        Inl err \<Rightarrow> Inl err
      | Inr thresholdsString \<Rightarrow>
          (case ae_yaml env thresholdsString of Inl err \<Rightarrow> Inl err | Inr thresholds \<Rightarrow> thresholds_loop m thresholds []))"

definition threshold_of :: "(string, duration) gomap \<Rightarrow> apiCallMetric \<Rightarrow> duration" where
  "threshold_of customThresholds apiCall =
     (case map_of customThresholds (ac_getKey apiCall) of Some t \<Rightarrow> t | None \<Rightarrow> getSLOThreshold apiCall)"

definition validateAPICalls ::
  "api_env \<Rightarrow> int \<Rightarrow> apiCallMetrics \<Rightarrow> (string, duration) gomap \<Rightarrow> goerr list" where
  "validateAPICalls env allowedSlowCalls m customThresholds =
     somes (map (\<lambda>c. ac_Validate (ae_show env) (ae_showCall env) allowedSlowCalls (threshold_of customThresholds c) c) (ac_sorted m))"

definition apiResponsivenessName :: string where
  "apiResponsivenessName = ''APIResponsivenessPrometheus''"

definition api_Gather ::
  "api_env \<Rightarrow> executor \<Rightarrow> gotime \<Rightarrow> gotime \<Rightarrow> MeasurementConfig \<Rightarrow> unit \<Rightarrow> genericSummary list \<times> goerr option" where
  "api_Gather env executor startTime endTime config a =
     (case gatherAPICalls env executor startTime endTime config of
        Inl err \<Rightarrow> ([], Some err)
      | Inr apiCalls \<Rightarrow>
     (case ae_pretty env (ac_ToPerfData apiCalls) of
        Inl err \<Rightarrow> ([], Some err)
      | Inr content \<Rightarrow>
     (case GetStringOrDefault (mc_Params config) ''summaryName'' apiResponsivenessName of
        Inl err \<Rightarrow> ([], Some err)
      | Inr summaryName \<Rightarrow>
     (let summaries = [CreateSummary (ae_now env) summaryName ''json'' content] in
      case GetIntOrDefault (mc_Params config) ''allowedSlowCalls'' 0 of
        Inl err \<Rightarrow> ([], Some err)
      | Inr allowedSlowCalls \<Rightarrow>
     (case getCustomThresholds env config apiCalls of
        Inl err \<Rightarrow> ([], Some err)
      | Inr customThresholds \<Rightarrow>
          let badMetrics = validateAPICalls env allowedSlowCalls apiCalls customThresholds
          in (summaries,
              if length badMetrics > 0
              then Some (NewMetricViolationError ''top latency metric''
                     (''there should be no high-latency requests, but: '' @ show_errs badMetrics))
              else None))))))"

definition apiResponsivenessGatherer :: "api_env \<Rightarrow> unit Gatherer" where
  "apiResponsivenessGatherer env =
     \<lparr>ga_Configure = \<lambda>_ g. (None, g), ga_Gather = \<lambda>ex s e c g. Some (api_Gather env ex s e c g), ga_IsEnabled = \<lambda>_. True, ga_String = apiResponsivenessName\<rparr>"

section \<open>The objective is decided\<close>

text \<open>What the verdict depends on: the calls, the number of slow calls that are allowed, and the custom thresholds.\<close>

definition api_inputs ::
  "api_env \<Rightarrow> executor \<Rightarrow> gotime \<Rightarrow> gotime \<Rightarrow> MeasurementConfig \<Rightarrow> apiCallMetrics \<Rightarrow> int \<Rightarrow> (string, duration) gomap \<Rightarrow> bool" where
  "api_inputs env ex s e c calls allowed thresholds \<longleftrightarrow>
     gatherAPICalls env ex s e c = Inr calls \<and> GetIntOrDefault (mc_Params c) ''allowedSlowCalls'' 0 = Inr allowed \<and>
     getCustomThresholds env c calls = Inr thresholds"

text \<open>A call meets its objective: few enough slow calls, where some are allowed, or every percentile within the threshold.\<close>

definition call_met :: "int \<Rightarrow> (string, duration) gomap \<Rightarrow> apiCallMetric \<Rightarrow> bool" where
  "call_met allowed thresholds call \<longleftrightarrow>
     (allowed > 0 \<and> ac_SlowCount call \<le> allowed) \<or>
     (let t = threshold_of thresholds call; l = ac_Latency call in lm_Perc50 l \<le> t \<and> lm_Perc90 l \<le> t \<and> lm_Perc99 l \<le> t)"

definition api_ready :: "api_env \<Rightarrow> executor \<Rightarrow> gotime \<Rightarrow> gotime \<Rightarrow> MeasurementConfig \<Rightarrow> unit \<Rightarrow> bool" where
  "api_ready env ex s e c g \<longleftrightarrow>
     (\<exists>calls allowed thresholds content name. api_inputs env ex s e c calls allowed thresholds \<and>
        ae_pretty env (ac_ToPerfData calls) = Inr content \<and>
        GetStringOrDefault (mc_Params c) ''summaryName'' apiResponsivenessName = Inr name)"

definition api_met :: "api_env \<Rightarrow> executor \<Rightarrow> gotime \<Rightarrow> gotime \<Rightarrow> MeasurementConfig \<Rightarrow> unit \<Rightarrow> bool" where
  "api_met env ex s e c g \<longleftrightarrow>
     (\<forall>calls allowed thresholds. api_inputs env ex s e c calls allowed thresholds \<longrightarrow>
        (\<forall>call \<in> snd ` set calls. call_met allowed thresholds call))"

lemma ac_Validate_None:
  "ac_Validate shw sc allowed (threshold_of thresholds call) call = None \<longleftrightarrow> call_met allowed thresholds call"
  by (auto simp: ac_Validate_def call_met_def VerifyThreshold_def Let_def not_less)

lemma validateAPICalls_empty:
  "validateAPICalls env allowed calls thresholds = [] \<longleftrightarrow> (\<forall>call \<in> snd ` set calls. call_met allowed thresholds call)"
  by (simp add: validateAPICalls_def ac_sorted_def ac_Validate_None somes_Nil_iff)

interpretation api_slo: slo_gatherer "apiResponsivenessGatherer env" "api_ready env" "api_met env" for env
proof
  fix ex s e c g
  assume "api_ready env ex s e c g"
  then obtain calls allowed thresholds content name where i: "api_inputs env ex s e c calls allowed thresholds"
    and r: "ae_pretty env (ac_ToPerfData calls) = Inr content"
      "GetStringOrDefault (mc_Params c) ''summaryName'' apiResponsivenessName = Inr name" by (auto simp: api_ready_def)
  have met: "api_met env ex s e c g \<longleftrightarrow> validateAPICalls env allowed calls thresholds = []"
    using i by (auto simp: api_met_def api_inputs_def validateAPICalls_empty)
  have g: "ga_Gather (apiResponsivenessGatherer env) ex s e c g =
      Some ([CreateSummary (ae_now env) name ''json'' content],
       if length (validateAPICalls env allowed calls thresholds) > 0
       then Some (NewMetricViolationError ''top latency metric''
         (''there should be no high-latency requests, but: '' @ show_errs (validateAPICalls env allowed calls thresholds))) else None)"
    using i r by (simp add: apiResponsivenessGatherer_def api_Gather_def api_inputs_def Let_def)
  show "\<exists>summary. ga_Gather (apiResponsivenessGatherer env) ex s e c g = Some ([summary], None)" if "api_met env ex s e c g"
    using g met that by simp
  show "\<exists>summary err. ga_Gather (apiResponsivenessGatherer env) ex s e c g = Some ([summary], Some err) \<and> IsMetricViolationError err"
    if "\<not> api_met env ex s e c g"
    using g met that by (simp add: NewMetricViolationError_def IsMetricViolationError_def)
qed


section \<open>Calls without a fast bucket\<close>

lemma map_of_update_call:
  "map_of (update_call r sub v sc f m) k =
     (if k = buildKey r sub v sc then Some (f (fst (getAPICall r sub v sc m))) else map_of m k)"
  by (auto simp: update_call_def getAPICall_def Let_def update_conv' split: option.splits prod.splits)

lemma SlowCount_latency_loop:
  "latency_loop pf ss m = Inr m' \<Longrightarrow> (\<And>c. map_of m k = Some c \<Longrightarrow> ac_SlowCount c = 0) \<Longrightarrow> map_of m' k = Some c \<Longrightarrow> ac_SlowCount c = 0"
proof (induction pf ss m arbitrary: c rule: latency_loop.induct)
  case (2 pf s ss m)
  obtain q where q: "parse_float_err pf (label s ''quantile'') = Inr q"
    "latency_loop pf ss (on_call SetLatency s q (seconds_value (sm_Value s)) m) = Inr m'"
    using "2.prems"(1) by (auto split: sum.splits)
  show ?case
    by (rule "2.IH"[OF q _ "2.prems"(3)])
      (use "2.prems"(2) in \<open>auto simp: on_call_def SetLatency_def map_of_update_call getAPICall_def Let_def split: if_splits option.splits\<close>)
qed simp

lemma SlowCount_count_samples:
  "(\<And>c. map_of m k = Some c \<Longrightarrow> ac_SlowCount c = 0) \<Longrightarrow> map_of (fold count_sample ss m) k = Some c \<Longrightarrow> ac_SlowCount c = 0"
proof (induction ss arbitrary: m)
  case (Cons s ss)
  show ?case
    by (rule Cons.IH[OF _ Cons.prems(2)[unfolded fold_Cons comp_apply]])
      (use Cons.prems(1) in \<open>auto simp: count_sample_def on_call_def SetCount_def map_of_update_call getAPICall_def Let_def
        split: if_splits option.splits\<close>)
qed simp

lemma fast_samples_other:
  "(\<forall>s \<in> set ss. on_call buildKey s \<noteq> k) \<Longrightarrow> map_of (fold fast_sample ss m) k = map_of m k"
proof (induction ss arbitrary: m)
  case (Cons s ss)
  have "map_of (fast_sample s m) k = map_of m k"
    using Cons.prems
    by (auto simp: fast_sample_def on_call_def GetCount_def SetSlowCount_def map_of_update_call getAPICall_def Let_def update_conv'
        split: option.splits prod.splits)
  with Cons show ?case by simp
qed simp

text \<open>
  Calls without a fast bucket escape the objective.  A call for which no query for fast calls returns
  a sample keeps the slow count 0; as soon as any slow call is allowed, its latency is not checked at all.
  This is so for every WATCHLIST call, which the queries for fast calls do not ask for.
\<close>

theorem unmatched_calls_escape:
  assumes "newFromSamples pf latencySamples countSamples countFastSamples = Inr m" and "map_of m k = Some call"
    and "\<forall>s \<in> set countFastSamples. on_call buildKey s \<noteq> k" and "allowed > 0"
  shows "ac_SlowCount call = 0 \<and> ac_Validate shw showCall allowed threshold call = None"
proof -
  obtain m0 where m0: "latency_loop pf latencySamples [] = Inr m0"
    "m = fold fast_sample countFastSamples (fold count_sample countSamples m0)"
    using assms(1) by (auto simp: newFromSamples_def split: sum.splits)
  have "map_of (fold count_sample countSamples m0) k = Some call" using assms(2,3) m0(2) by (simp add: fast_samples_other)
  moreover have "\<And>c. map_of m0 k = Some c \<Longrightarrow> ac_SlowCount c = 0" using SlowCount_latency_loop[OF m0(1)] by simp
  ultimately have "ac_SlowCount call = 0" using SlowCount_count_samples by blast
  then show ?thesis using assms(4) by (simp add: ac_Validate_def)
qed

section \<open>Examples\<close>

definition slow_sample :: sample where
  "slow_sample = \<lparr>sm_Metric = [(''resource'', ''pods''), (''verb'', ''GET''), (''scope'', ''resource''), (''quantile'', ''0.99'')],
     sm_Value = 2\<rparr>"

definition slow_api_env :: api_env where
  "slow_api_env = \<lparr>ae_ParseFloat = \<lambda>_. (fl (99 / 100), None), ae_show = show_int, ae_showCall = \<lambda>_. [],
     ae_pretty = \<lambda>_. Inr [], ae_yaml = \<lambda>_. Inr [], ae_version = (''1'', ''30''), ae_now = 0\<rparr>"

definition slow_call :: "int \<Rightarrow> int \<Rightarrow> apiCallMetric" where
  "slow_call cnt slow = \<lparr>ac_Resource = ''pods'', ac_Subresource = [], ac_Verb = ''GET'', ac_Scope = ''resource'',
     ac_Latency = \<lparr>lm_Perc50 = 0, lm_Perc90 = 0, lm_Perc99 = 2000000000\<rparr>, ac_Count = cnt, ac_SlowCount = slow\<rparr>"

lemma two_seconds: "seconds_value 2 = 2000000000"
proof -
  have "fl 2000000000 = 2000000000" using fl_pos_int[of 2000000000] by (simp add: fl_def)
  then show ?thesis by (simp add: seconds_value_def trunc_rat_def)
qed

lemma quantile_99: "SetQuantile \<lparr>lm_Perc50 = 0, lm_Perc90 = 0, lm_Perc99 = 0\<rparr> (fl (99 / 100)) 2000000000 =
    \<lparr>lm_Perc50 = 0, lm_Perc90 = 0, lm_Perc99 = 2000000000\<rparr>"
proof -
  have "fl (99 / 100) \<noteq> fl (1 / 2)" "fl (99 / 100) \<noteq> fl (9 / 10)" by code_simp+
  then show ?thesis by (simp add: SetQuantile_def)
qed

lemma slow_latency:
  "latency_loop (\<lambda>_. (fl (99 / 100), None)) [slow_sample] [] = Inr [(''pods||GET|resource'', slow_call 0 0)]"
  by (simp add: slow_sample_def parse_float_err_def on_call_def label_def SetLatency_def update_call_def getAPICall_def
      buildKey_def slow_call_def two_seconds quantile_99 Let_def)

lemma slow_calls:
  "gatherAPICalls slow_api_env (\<lambda>_ _. Inr [slow_sample]) 0 (10 * second) gather_config = Inr [(''pods||GET|resource'', slow_call 2 0), (''pods||WATCHLIST|resource'', (slow_call 2 0)\<lparr>ac_Verb := ''WATCHLIST'', ac_Latency := \<lparr>lm_Perc50 = 0, lm_Perc90 = 0, lm_Perc99 = 0\<rparr>\<rparr>)]"
proof -
  have "int_Round 2 = 2" by code_simp
  then show ?thesis
    by (simp add: gatherAPICalls_def latency_samples_def newFromSamples_def slow_api_env_def slow_latency gather_config_def
        GetBoolOrDefault_def or_default_def getBool_def IsErrKeyNotFound_def Let_def del: latency_loop.simps)
       (simp add: slow_sample_def set_label_def on_call_def label_def count_sample_def fast_sample_def SetCount_def GetCount_def
        SetSlowCount_def update_call_def getAPICall_def buildKey_def slow_call_def wrap_def Let_def)
qed


theorem unmatched_calls_escape_witness: "ac_Validate show_int (\<lambda>_. []) 1 second (slow_call 0 0) = None"
proof -
  have "newFromSamples (\<lambda>_. (fl (99 / 100), None)) [slow_sample] [] [] = Inr [(''pods||GET|resource'', slow_call 0 0)]"
    by (simp add: newFromSamples_def slow_latency del: latency_loop.simps)
  from unmatched_calls_escape[OF this, of "''pods||GET|resource''" "slow_call 0 0" 1] show ?thesis by simp
qed

end
