(* ===== verification/Prometheus_Gatherers.thy ===== *)
theory Prometheus_Gatherers
  imports Prometheus_Core
begin

text \<open>
  Further measurements on Prometheus, all gatherers of \<open>Prometheus_Core\<close>: GenericPrometheusQuery,
  ContainerRestarts, NetworkProgrammingLatency, SchedulingThroughputPrometheus,
  NodeLocalDNSLatencyPrometheus, MetricsServerPrometheus and CiliumEndpointPropagationDelay
  (\<^verbatim>\<open>clusterloader2/pkg/measurement/common\<close>).  JSON and YAML, regular expressions and the printing of
  floating point numbers are parameters.
\<close>

section \<open>GenericPrometheusQuery\<close>

record GenericQuery =
  gq_Name :: string
  gq_Query :: string
  gq_Threshold :: "rat option"
  gq_LowerBound :: bool
  gq_RequireSamples :: bool

record StartParams =
  gp_MetricName :: string
  gp_MetricVersion :: string
  gp_Queries :: "GenericQuery list"
  gp_Unit :: string
  gp_Dimensions :: "string list"

definition GenericQuery_Validate :: "GenericQuery \<Rightarrow> goerr option" where
  "GenericQuery_Validate q =
     (if gq_Name q = [] then Some (Errorf ''name is required'' [])
      else if gq_Query q = [] then Some (Errorf ''query is required'' [])
      else None)"

fun validate_queries :: "nat \<Rightarrow> GenericQuery list \<Rightarrow> goerr option" where
  "validate_queries idx [] = None"
| "validate_queries idx (q # qs) =
     (case GenericQuery_Validate q of
        Some err \<Rightarrow> Some (Errorf (''params.queries['' @ show_nat idx @ ''] validation failed: '' @ err_msg err) [])
      | None \<Rightarrow> validate_queries (idx + 1) qs)"

definition StartParams_Validate :: "StartParams \<Rightarrow> goerr option" where
  "StartParams_Validate p =
     (if gp_MetricName p = [] then Some (Errorf ''metricName is required'' [])
      else if gp_MetricVersion p = [] then Some (Errorf ''metricVersion is required'' [])
      else if gp_Unit p = [] then Some (Errorf ''unit is required'' [])
      else validate_queries 0 (gp_Queries p))"

text \<open>\<open>ge_ToStruct\<close> fills the parameters from the configuration, \<open>ge_show\<close> prints a number.\<close>

record generic_env =
  ge_ToStruct :: "params \<Rightarrow> StartParams \<Rightarrow> goerr option \<times> StartParams"
  ge_show :: "rat \<Rightarrow> string"
  ge_pretty :: "PerfData \<Rightarrow> goerr + string"
  ge_now :: gotime

definition generic_Configure :: "generic_env \<Rightarrow> MeasurementConfig \<Rightarrow> StartParams \<Rightarrow> goerr option \<times> StartParams" where
  "generic_Configure env config g =
     (case ge_ToStruct env (mc_Params config) g of
        (Some err, g) \<Rightarrow> (Some err, g)
      | (None, g) \<Rightarrow> (StartParams_Validate g, g))"

fun join_spaces :: "string list \<Rightarrow> string" where
  "join_spaces [] = []"
| "join_spaces [s] = s"
| "join_spaces (s # ss) = s @ '' '' @ join_spaces ss"

text \<open>The values of the dimensions, printed as a slice, and as labels.\<close>

definition generic_key :: "sample \<Rightarrow> string list \<Rightarrow> string \<times> (string, string) gomap" where
  "generic_key s dimensions =
     (''['' @ join_spaces (map (label s) dimensions) @ '']'',
      fold (\<lambda>d m. AList.update d (label s d) m) dimensions [])"

definition getOrCreate ::
  "(string, DataItem) gomap \<Rightarrow> string \<Rightarrow> string \<Rightarrow> (string, string) gomap \<Rightarrow> DataItem \<times> (string, DataItem) gomap" where
  "getOrCreate dataItems key unit labels =
     (case map_of dataItems key of
        Some dataItem \<Rightarrow> (dataItem, dataItems)
      | None \<Rightarrow>
          let dataItem = \<lparr>di_Data = [], di_Unit = unit, di_Labels = labels\<rparr>
          in (dataItem, AList.update key dataItem dataItems))"

definition validateSample :: "generic_env \<Rightarrow> GenericQuery \<Rightarrow> rat \<Rightarrow> goerr option" where
  "validateSample env q val =
     (case gq_Threshold q of
        None \<Rightarrow> None
      | Some threshold \<Rightarrow>
          if gq_LowerBound q \<and> val < threshold then
            Some (NewMetricViolationError (gq_Name q)
              (''sample below threshold: want: greater or equal than '' @ ge_show env threshold @ '', got: '' @ ge_show env val))
          else if \<not> gq_LowerBound q \<and> val > threshold then
            Some (NewMetricViolationError (gq_Name q)
              (''sample above threshold: want: less or equal than '' @ ge_show env threshold @ '', got: '' @ ge_show env val))
          else None)"

definition generic_sample ::
  "generic_env \<Rightarrow> StartParams \<Rightarrow> GenericQuery \<Rightarrow> sample \<Rightarrow> goerr list \<times> (string, DataItem) gomap \<Rightarrow>
   goerr list \<times> (string, DataItem) gomap" where
  "generic_sample env g q s = (\<lambda>(errs, dataItems).
     (let (k, labels) = generic_key s (gp_Dimensions g);
          (dataItem, dataItems) = getOrCreate dataItems k (gp_Unit g) labels;
          val = sm_Value s;
          (errs, dataItems) =
            (case map_of (di_Data dataItem) (gq_Name q) of
               Some prevVal \<Rightarrow>
                 (errs @ [NewMetricViolationError (gq_Name q)
                    (''too many samples for '' @ k @ '': query returned '' @ ge_show env val @ '' and ''
                     @ ge_show env prevVal @ '', expected single value.'')], dataItems)
             | None \<Rightarrow> (errs, AList.update k (dataItem\<lparr>di_Data := AList.update (gq_Name q) val (di_Data dataItem)\<rparr>) dataItems))
      in (errs @ (case validateSample env q val of None \<Rightarrow> [] | Some err \<Rightarrow> [err]), dataItems)))"

text \<open>\<^verbatim>\<open>strings.ReplaceAll(s, "%v", d)\<close>.\<close>

fun replace_v :: "string \<Rightarrow> string \<Rightarrow> string" where
  "replace_v (a # b # s) d = (if a = CHR ''%'' \<and> b = CHR ''v'' then d @ replace_v s d else a # replace_v (b # s) d)"
| "replace_v s d = s"

definition generic_query :: "GenericQuery \<Rightarrow> executor \<Rightarrow> gotime \<Rightarrow> gotime \<Rightarrow> goerr + sample list" where
  "generic_query q executor startTime endTime =
     executor (replace_v (gq_Query q) (ToPrometheusTime (time_Sub endTime startTime))) endTime"

fun generic_loop ::
  "generic_env \<Rightarrow> StartParams \<Rightarrow> executor \<Rightarrow> gotime \<Rightarrow> gotime \<Rightarrow> GenericQuery list \<Rightarrow>
   goerr list \<times> (string, DataItem) gomap \<Rightarrow> goerr + goerr list \<times> (string, DataItem) gomap" where
  "generic_loop env g executor startTime endTime [] (errs, dataItems) = Inr (errs, dataItems)"
| "generic_loop env g executor startTime endTime (q # qs) (errs, dataItems) =
     (case generic_query q executor startTime endTime of
        Inl err \<Rightarrow> Inl err
      | Inr samples \<Rightarrow>
          if length samples = 0 then
            generic_loop env g executor startTime endTime qs
              (if gq_RequireSamples q
               then errs @ [NewMetricViolationError (gq_Name q) (''query returned no samples for '' @ gp_MetricName g)]
               else errs, dataItems)
          else
            generic_loop env g executor startTime endTime qs (fold (generic_sample env g q) samples (errs, dataItems)))"

definition generic_createSummary ::
  "generic_env \<Rightarrow> StartParams \<Rightarrow> string \<Rightarrow> (string, DataItem) gomap \<Rightarrow> goerr + genericSummary" where
  "generic_createSummary env g metricName dataItems =
     (case ge_pretty env \<lparr>pd_Version = gp_MetricVersion g, pd_DataItems = map snd dataItems, pd_Labels = []\<rparr> of
        Inl err \<Rightarrow> Inl err
      | Inr content \<Rightarrow> Inr (CreateSummary (ge_now env) (''GenericPrometheusQuery '' @ metricName) ''json'' content))"

definition generic_Gather ::
  "generic_env \<Rightarrow> executor \<Rightarrow> gotime \<Rightarrow> gotime \<Rightarrow> StartParams \<Rightarrow> genericSummary list \<times> goerr option" where
  "generic_Gather env executor startTime endTime g =
     (case generic_loop env g executor startTime endTime (gp_Queries g) ([], []) of
        Inl err \<Rightarrow> ([], Some err)
      | Inr (errs, dataItems) \<Rightarrow>
          (case generic_createSummary env g (gp_MetricName g) dataItems of
             Inl err \<Rightarrow> ([], Some err)
           | Inr summary \<Rightarrow>
               ([summary],
                if length errs > 0 then Some (NewMetricViolationError (gp_MetricName g) (show_errs errs)) else None)))"

definition genericQueryGatherer :: "generic_env \<Rightarrow> StartParams Gatherer" where
  "genericQueryGatherer env =
     \<lparr>ga_Configure = generic_Configure env, ga_Gather = \<lambda>ex s e c g. Some (generic_Gather env ex s e g),
      ga_IsEnabled = \<lambda>_. True, ga_String = ''GenericPrometheusQuery''\<rparr>"

section \<open>ContainerRestarts\<close>

record ContainerInfo =
  ci_Container :: string
  ci_Pod :: string
  ci_Namespace :: string

record ContainerRestartsInfo =
  cr_info :: ContainerInfo
  cr_RestartCount :: int

text \<open>An override with its compiled pattern.\<close>

record restartCountOverride =
  ro_info :: ContainerInfo
  ro_AllowedRestarts :: int

text \<open>\<open>ce_compile\<close> compiles a regular expression to its matcher; \<open>None\<close>: it is not well-formed.
  A null entry of the decoded overrides is \<open>None\<close>.\<close>

record restarts_env =
  ce_yaml :: "string \<Rightarrow> goerr + restartCountOverride option list"
  ce_compile :: "string \<Rightarrow> (string \<Rightarrow> bool) option"
  ce_pretty :: "ContainerRestartsInfo list \<Rightarrow> goerr + string"
  ce_showInfo :: "ContainerInfo \<Rightarrow> string"
  ce_now :: gotime

definition podNamePattern :: "string \<Rightarrow> string" where
  "podNamePattern pod =
     concat (map (\<lambda>c. if c = CHR ''.'' then [CHR 0x5C, c] else if c = CHR ''*'' then ''.*'' else [c]) pod)"

text \<open>\<^verbatim>\<open>MustCompile\<close> panics on a pattern that is not well-formed, and so does a null override: \<open>None\<close>.\<close>

fun compile_overrides ::
  "restarts_env \<Rightarrow> restartCountOverride option list \<Rightarrow> (restartCountOverride \<times> (string \<Rightarrow> bool)) list option" where
  "compile_overrides env [] = Some []"
| "compile_overrides env (None # cars) = None"
| "compile_overrides env (Some car # cars) =
     (case ce_compile env (''^'' @ podNamePattern (ci_Pod (ro_info car)) @ ''$'') of
        None \<Rightarrow> None
      | Some re \<Rightarrow> map_option (\<lambda>rest. (car, re) # rest) (compile_overrides env cars))"

definition getOverrides ::
  "restarts_env \<Rightarrow> MeasurementConfig \<Rightarrow> (goerr + (restartCountOverride \<times> (string \<Rightarrow> bool)) list) option" where
  "getOverrides env config =
     (case GetStringOrDefault (mc_Params config) ''customAllowedRestarts'' [] of
        Inl err \<Rightarrow> Some (Inl err)
      | Inr str \<Rightarrow>
          (case ce_yaml env str of
             Inl err \<Rightarrow> Some (Inl err)
           | Inr overrides \<Rightarrow> map_option Inr (compile_overrides env overrides)))"

definition gatherContainerRestarts :: "executor \<Rightarrow> gotime \<Rightarrow> gotime \<Rightarrow> goerr + ContainerRestartsInfo list" where
  "gatherContainerRestarts executor startTime endTime =
     (case executor (''changes(container_start_time_seconds['' @ ToPrometheusTime (time_Sub endTime startTime) @ ''])'') endTime of
        Inl err \<Rightarrow> Inl err
      | Inr samples \<Rightarrow>
          Inr (map (\<lambda>s. \<lparr>cr_info = \<lparr>ci_Container = label s ''container'', ci_Pod = label s ''pod'', ci_Namespace = label s ''namespace''\<rparr>,
                         cr_RestartCount = int_Round (sm_Value s)\<rparr>) samples))"

definition allowed_restarts :: "int \<Rightarrow> (restartCountOverride \<times> (string \<Rightarrow> bool)) list \<Rightarrow> string \<Rightarrow> int" where
  "allowed_restarts defaultAllowedRestarts overrides pod =
     fold (\<lambda>(ov, re) allowed. if re pod \<and> allowed < ro_AllowedRestarts ov then ro_AllowedRestarts ov else allowed)
       overrides defaultAllowedRestarts"

definition validateRestarts ::
  "restarts_env \<Rightarrow> ContainerRestartsInfo list \<Rightarrow> int \<Rightarrow> (restartCountOverride \<times> (string \<Rightarrow> bool)) list \<Rightarrow> goerr list" where
  "validateRestarts env infos defaultAllowedRestarts overrides =
     somes (map (\<lambda>ri.
       let allowed = allowed_restarts defaultAllowedRestarts overrides (ci_Pod (cr_info ri))
       in if cr_RestartCount ri > allowed
          then Some (Errorf (''restartCount('' @ ce_showInfo env (cr_info ri) @ '') = '' @ show_int (cr_RestartCount ri)
                 @ '', expected <= '' @ show_int allowed) []) else None) infos)"

definition restarts_Gather ::
  "restarts_env \<Rightarrow> executor \<Rightarrow> gotime \<Rightarrow> gotime \<Rightarrow> MeasurementConfig \<Rightarrow> unit \<Rightarrow> (genericSummary list \<times> goerr option) option" where
  "restarts_Gather env executor startTime endTime config a =
     (case getOverrides env config of
        None \<Rightarrow> None
      | Some (Inl err) \<Rightarrow> Some ([], Some err)
      | Some (Inr overrides) \<Rightarrow>
     (case GetIntOrDefault (mc_Params config) ''defaultAllowedRestarts'' 0 of
        Inl err \<Rightarrow> Some ([], Some err)
      | Inr defaultAllowedRestarts \<Rightarrow>
     (case gatherContainerRestarts executor startTime endTime of
        Inl err \<Rightarrow> Some ([], Some err)
      | Inr containerRestarts \<Rightarrow>
     (case ce_pretty env containerRestarts of
        Inl err \<Rightarrow> Some ([], Some err)
      | Inr content \<Rightarrow>
          let summaries = [CreateSummary (ce_now env) ''ContainerRestarts'' ''json'' content];
              badContainers = validateRestarts env containerRestarts defaultAllowedRestarts overrides
          in if length badContainers > 0
             then Some (summaries, Some (NewMetricViolationError ''container restarts''
                    (''container restart count validation: '' @ show_errs badContainers)))
             else Some (summaries, None)))))"

definition containerRestartsGatherer :: "restarts_env \<Rightarrow> unit Gatherer" where
  "containerRestartsGatherer env =
     \<lparr>ga_Configure = \<lambda>_ g. (None, g), ga_Gather = restarts_Gather env, ga_IsEnabled = \<lambda>_. True, ga_String = ''ContainerRestarts''\<rparr>"

section \<open>NetworkProgrammingLatency\<close>

record netProgGatherer =
  np_enableViolations :: bool
  np_threshold :: duration

text \<open>
  \<open>le_scrapeKubeProxy\<close>, \<open>le_provider\<close> and \<open>le_metricsServer\<close> are read from the configuration of the run and
  the provider.
\<close>

record latency_env =
  le_ParseFloat :: "string \<Rightarrow> rat \<times> numerr option"
  le_ParseDuration :: "string \<Rightarrow> goerr + duration"
  le_show :: "duration \<Rightarrow> string"
  le_showFloat :: "rat \<Rightarrow> string"
  le_showSample :: "sample \<Rightarrow> string"
  le_pretty :: "PerfData \<Rightarrow> goerr + string"
  le_prettyItem :: "DataItem \<Rightarrow> goerr + string"
  le_prettyMetric :: "LatencyMetric \<Rightarrow> goerr + string"
  le_prettyMax :: "rat \<Rightarrow> goerr + string"
  le_scrapeKubeProxy :: bool
  le_provider :: string
  le_metricsServer :: bool
  le_version :: "string \<times> string"
  le_now :: gotime

definition netProg :: string where
  "netProg = ''NetworkProgrammingLatency''"

definition np_Configure :: "latency_env \<Rightarrow> MeasurementConfig \<Rightarrow> netProgGatherer \<Rightarrow> goerr option \<times> netProgGatherer" where
  "np_Configure env config n =
     (case GetBoolOrDefault (mc_Params config) ''enableViolations'' False of
        Inl err \<Rightarrow> (Some err, n)
      | Inr enableViolations \<Rightarrow>
          let n = n\<lparr>np_enableViolations := enableViolations\<rparr>
          in (case getDuration (le_ParseDuration env) (mc_Params config) ''threshold'' of
                Inl err \<Rightarrow> (Some err, n)
              | Inr threshold \<Rightarrow> (None, n\<lparr>np_threshold := threshold\<rparr>)))"

definition np_IsEnabled :: "latency_env \<Rightarrow> bool" where
  "np_IsEnabled env = (if \<not> le_scrapeKubeProxy env then False else le_provider env \<noteq> ''kubemark'')"

definition np_query :: "latency_env \<Rightarrow> executor \<Rightarrow> gotime \<Rightarrow> gotime \<Rightarrow> goerr + LatencyMetric" where
  "np_query env executor startTime endTime =
     (case executor (''quantile_over_time(0.99, kubeproxy:kubeproxy_network_programming_duration:histogram_quantile{}[''
             @ ToPrometheusTime (time_Sub endTime startTime) @ ''])'') endTime of
        Inl err \<Rightarrow> Inl err
      | Inr samples \<Rightarrow>
          if length samples \<noteq> 3 then Inl (Errorf (''got unexpected number of samples: '' @ show_nat (length samples)) [])
          else NewLatencyMetricPrometheus (parse_float_err (le_ParseFloat env)) (le_showSample env) samples)"

text \<open>A summary that could not be printed is nil: \<open>None\<close>.\<close>

definition np_createSummary :: "latency_env \<Rightarrow> netProgGatherer \<Rightarrow> LatencyMetric \<Rightarrow> genericSummary option \<times> goerr option" where
  "np_createSummary env n latency =
     (case le_pretty env \<lparr>pd_Version = ''v1'', pd_DataItems = [ToPerfData latency netProg], pd_Labels = []\<rparr> of
        Inl err \<Rightarrow> (None, Some err)
      | Inr content \<Rightarrow>
          let err =
            (if np_enableViolations n then
               (case VerifyThreshold (le_show env) latency (np_threshold n) of
                  Some slosErr \<Rightarrow> Some (NewMetricViolationError ''Network Programming Latency'' (err_msg slosErr))
                | None \<Rightarrow> None)
             else None)
          in (Some (CreateSummary (le_now env) netProg ''json'' content), err))"

definition np_Gather ::
  "latency_env \<Rightarrow> executor \<Rightarrow> gotime \<Rightarrow> gotime \<Rightarrow> netProgGatherer \<Rightarrow> genericSummary list \<times> goerr option" where
  "np_Gather env executor startTime endTime n =
     (case np_query env executor startTime endTime of
        Inl err \<Rightarrow> ([], Some err)
      | Inr latency \<Rightarrow> (case np_createSummary env n latency of (summary, err) \<Rightarrow> (somes [summary], err)))"

definition netProg_Gatherer :: "latency_env \<Rightarrow> netProgGatherer Gatherer" where
  "netProg_Gatherer env =
     \<lparr>ga_Configure = np_Configure env, ga_Gather = \<lambda>ex s e c g. Some (np_Gather env ex s e g),
      ga_IsEnabled = \<lambda>_. np_IsEnabled env, ga_String = netProg\<rparr>"

section \<open>SchedulingThroughputPrometheus\<close>

definition maxSchedulingThroughputQuery :: "string \<Rightarrow> string" where
  \<open>maxSchedulingThroughputQuery d =
     ''max_over_time(sum(irate(apiserver_request_total{verb="POST", resource="pods", subresource="binding",code="201"}[1m]))[''
     @ d @ '':5s])''\<close>

definition getThroughputSummary :: "executor \<Rightarrow> gotime \<Rightarrow> gotime \<Rightarrow> goerr + rat" where
  "getThroughputSummary executor startTime endTime =
     (case executor (maxSchedulingThroughputQuery (ToPrometheusTime (time_Sub endTime startTime))) endTime of
        Inl err \<Rightarrow> Inl err
      | Inr samples \<Rightarrow>
          (case samples of
             [s] \<Rightarrow> Inr (sm_Value s)
           | _ \<Rightarrow> Inl (Errorf (''got unexpected number of samples: '' @ show_nat (length samples)) [])))"

text \<open>An error of the threshold is returned only if no violation overwrites it; its value is 0 then.\<close>

definition st_Gather ::
  "latency_env \<Rightarrow> executor \<Rightarrow> gotime \<Rightarrow> gotime \<Rightarrow> MeasurementConfig \<Rightarrow> genericSummary list \<times> goerr option" where
  "st_Gather env executor startTime endTime config =
     (case getThroughputSummary executor startTime endTime of
        Inl err \<Rightarrow> ([], Some err)
      | Inr maxThroughput \<Rightarrow>
     (case le_prettyMax env maxThroughput of
        Inl err \<Rightarrow> ([], Some err)
      | Inr content \<Rightarrow>
          let r = GetFloat64OrDefault (le_ParseFloat env) (mc_Params config) ''threshold'' 0;
              threshold = (case r of Inl _ \<Rightarrow> 0 | Inr t \<Rightarrow> t);
              err = (case r of Inl err \<Rightarrow> Some err | Inr _ \<Rightarrow> None);
              err = (if threshold > 0 \<and> maxThroughput < threshold
                     then Some (NewMetricViolationError ''scheduler throughput_prometheus''
                            (''actual throughput '' @ le_showFloat env maxThroughput @ '' lower than threshold ''
                             @ le_showFloat env threshold))
                     else err)
          in ([CreateSummary (le_now env) ''SchedulingThroughputPrometheus'' ''json'' content], err)))"

definition schedulingThroughputGatherer :: "latency_env \<Rightarrow> unit Gatherer" where
  "schedulingThroughputGatherer env =
     \<lparr>ga_Configure = \<lambda>_ g. (None, g), ga_Gather = \<lambda>ex s e c g. Some (st_Gather env ex s e c),
      ga_IsEnabled = \<lambda>_. True, ga_String = ''SchedulingThroughputPrometheus''\<rparr>"

section \<open>Percentiles by one query each\<close>

text \<open>
  The loop of NodeLocalDNSLatencyPrometheus and MetricsServerPrometheus: \<open>query\<close> makes the query for a
  percentile, given with its text.
\<close>

fun percentiles_loop ::
  "executor \<Rightarrow> (string \<Rightarrow> string) \<Rightarrow> gotime \<Rightarrow> (rat \<times> string) list \<Rightarrow> ErrorList \<Rightarrow> LatencyMetric \<Rightarrow> ErrorList \<times> LatencyMetric" where
  "percentiles_loop executor query endTime [] errList result = (errList, result)"
| "percentiles_loop executor query endTime ((p, txt) # ps) errList result =
     (case executor (query txt) endTime of
        Inl err \<Rightarrow>
          percentiles_loop executor query endTime ps
            (Append errList [Errorf (''failed to execute query '' @ CHR 0x22 # query txt @ CHR 0x22 # '', err - '' @ err_msg err) []]) result
      | Inr samples \<Rightarrow>
          (case samples of
             [s] \<Rightarrow> percentiles_loop executor query endTime ps errList (SetQuantile result p (seconds_value (sm_Value s)))
           | _ \<Rightarrow>
               percentiles_loop executor query endTime ps
                 (Append errList [Errorf (''got unexpected number of samples: '' @ show_nat (length samples)
                    @ '' for query '' @ CHR 0x22 # query txt @ CHR 0x22 # []) []]) result))"

definition desiredPercentiles :: "(rat \<times> string) list" where
  "desiredPercentiles = [(fl (1 / 2), ''0.5''), (fl (9 / 10), ''0.9''), (fl (99 / 100), ''0.99'')]"

definition zeroLatency :: LatencyMetric where
  "zeroLatency = \<lparr>lm_Perc50 = 0, lm_Perc90 = 0, lm_Perc99 = 0\<rparr>"

definition percentile_latencies :: "executor \<Rightarrow> (string \<Rightarrow> string) \<Rightarrow> gotime \<Rightarrow> goerr + LatencyMetric" where
  "percentile_latencies executor query endTime =
     (case percentiles_loop executor query endTime desiredPercentiles (NewErrorList []) zeroLatency of
        (errList, result) \<Rightarrow>
          if \<not> IsEmpty errList then Inl (Errorf (''failed to compute latencies, errors - '' @ ErrorList_Error errList) [])
          else Inr result)"

definition getPercentileLatencies :: "executor \<Rightarrow> gotime \<Rightarrow> gotime \<Rightarrow> goerr + LatencyMetric" where
  "getPercentileLatencies executor startTime endTime =
     percentile_latencies executor
       (\<lambda>p. ''histogram_quantile('' @ p @ '', sum(rate(coredns_dns_request_duration_seconds_bucket[''
            @ ToPrometheusTime (time_Sub endTime startTime) @ ''])) by (le))'') endTime"

definition dns_validateResult :: "latency_env \<Rightarrow> MeasurementConfig \<Rightarrow> LatencyMetric \<Rightarrow> goerr option" where
  "dns_validateResult env config result =
     (case GetDurationOrDefault (le_ParseDuration env) (mc_Params config) ''threshold'' (5 * second) of
        Inl err \<Rightarrow> Some err
      | Inr latencyUpperBound \<Rightarrow>
          if lm_Perc99 result > latencyUpperBound
          then Some (NewMetricViolationError ''NodelocalDNS dns_request_duration_seconds''
                 (''99th Percentile Latency '' @ le_show env (lm_Perc99 result) @ '' is higher than the upper bound of ''
                  @ le_show env latencyUpperBound))
          else None)"

definition dnsName :: string where
  "dnsName = ''NodeLocalDNSLatencyPrometheus''"

definition dns_Gather ::
  "latency_env \<Rightarrow> executor \<Rightarrow> gotime \<Rightarrow> gotime \<Rightarrow> MeasurementConfig \<Rightarrow> genericSummary list \<times> goerr option" where
  "dns_Gather env executor startTime endTime config =
     (case getPercentileLatencies executor startTime endTime of
        Inl err \<Rightarrow> ([], Some err)
      | Inr result \<Rightarrow>
     (case le_prettyItem env (ToPerfData result dnsName) of
        Inl err \<Rightarrow> ([], Some err)
      | Inr content \<Rightarrow> ([CreateSummary (le_now env) dnsName ''json'' content], dns_validateResult env config result)))"

definition nodelocaldnsLatencyGatherer :: "latency_env \<Rightarrow> unit Gatherer" where
  "nodelocaldnsLatencyGatherer env =
     \<lparr>ga_Configure = \<lambda>_ g. (None, g), ga_Gather = \<lambda>ex s e c g. Some (dns_Gather env ex s e c),
      ga_IsEnabled = \<lambda>_. True, ga_String = dnsName\<rparr>"

definition gatherLatencyMetrics :: "latency_env \<Rightarrow> executor \<Rightarrow> gotime \<Rightarrow> gotime \<Rightarrow> goerr + LatencyMetric" where
  \<open>gatherLatencyMetrics env executor startTime endTime =
     percentile_latencies executor
       (\<lambda>p. ''histogram_quantile('' @ p @ '', sum(rate('' @ GetApiserverSLI (fst (le_version env)) (snd (le_version env))
            @ ''_bucket{group="metrics.k8s.io",resource="pods",scope="cluster"}[''
            @ ToPrometheusTime (time_Sub endTime startTime) @ ''])) by (le))'') endTime\<close>

definition ms_Gather ::
  "latency_env \<Rightarrow> executor \<Rightarrow> gotime \<Rightarrow> gotime \<Rightarrow> genericSummary list \<times> goerr option" where
  "ms_Gather env executor startTime endTime =
     (case gatherLatencyMetrics env executor startTime endTime of
        Inl err \<Rightarrow> ([], Some err)
      | Inr latencyMetrics \<Rightarrow>
     (case le_prettyMetric env latencyMetrics of
        Inl err \<Rightarrow> ([], Some err)
      | Inr content \<Rightarrow> ([CreateSummary (le_now env) ''MetricsServerPrometheus'' ''json'' content], None)))"

definition metricsServerGatherer :: "latency_env \<Rightarrow> unit Gatherer" where
  "metricsServerGatherer env =
     \<lparr>ga_Configure = \<lambda>_ g. (None, g), ga_Gather = \<lambda>ex s e c g. Some (ms_Gather env ex s e),
      ga_IsEnabled = \<lambda>_. le_metricsServer env, ga_String = ''MetricsServerPrometheus''\<rparr>"

section \<open>CiliumEndpointPropagationDelay\<close>

text \<open>\<open>cep_time\<close> is the printed timestamp of a sample, \<open>cep_format\<close> is \<^verbatim>\<open>strconv.FormatFloat(x, 'g', -1, 64)\<close>.\<close>

record cep_env =
  cep_ParseFloat :: "string \<Rightarrow> rat \<times> numerr option"
  cep_time :: "sample \<Rightarrow> string"
  cep_format :: "rat \<Rightarrow> string"
  cep_pretty :: "(string, (string, int) gomap) gomap \<Rightarrow> goerr + string"
  cep_showBuckets :: "(string, int) gomap \<Rightarrow> string"
  cep_now :: gotime

definition queryInterval :: duration where
  "queryInterval = 600 * second"

text \<open>The windows that the loop queries, each from the end of the one before; times are their instants.\<close>

function cep_windows :: "gotime \<Rightarrow> gotime \<Rightarrow> gotime \<Rightarrow> (gotime \<times> gotime) list" where
  "cep_windows prevQueryTime currQueryTime endTime =
     (let currQueryTime = (if currQueryTime > endTime then endTime else currQueryTime)
      in (prevQueryTime, currQueryTime) #
         (if currQueryTime = endTime then []
          else cep_windows currQueryTime (currQueryTime + queryInterval) endTime))"
  by pat_completeness auto

termination
  by (relation "measure (\<lambda>(prev, curr, e). nat (e - curr))") (auto simp: queryInterval_def split: if_splits)

declare cep_windows.simps [simp del]

definition cep_query :: "executor \<Rightarrow> gotime \<times> gotime \<Rightarrow> sample list" where
  "cep_query executor = (\<lambda>(prev, curr).
     (case executor (''sum(sum_over_time(cilium_endpoint_propagation_delay_seconds_bucket[''
             @ ToPrometheusTime (time_Sub curr prev) @ ''])) by (le)'') curr of
        Inl err \<Rightarrow> []
      | Inr newSamples \<Rightarrow> newSamples))"

definition cep_add :: "cep_env \<Rightarrow> sample \<Rightarrow> (string, (string, int) gomap) gomap \<Rightarrow> (string, (string, int) gomap) gomap" where
  "cep_add env s result =
     (let buckets = (case map_of result (cep_time env s) of None \<Rightarrow> [] | Some b \<Rightarrow> b)
      in AList.update (cep_time env s) (AList.update (label s ''le'') (int_Round (sm_Value s)) buckets) result)"

definition gatherCepPropagationDelay ::
  "cep_env \<Rightarrow> executor \<Rightarrow> gotime \<Rightarrow> gotime \<Rightarrow> (string, (string, int) gomap) gomap" where
  "gatherCepPropagationDelay env executor startTime endTime =
     fold (cep_add env)
       (concat (map (cep_query executor) (cep_windows startTime (startTime + queryInterval) endTime))) []"

definition float_param :: "cep_env \<Rightarrow> MeasurementConfig \<Rightarrow> string \<Rightarrow> rat \<Rightarrow> rat" where
  "float_param env config key defaultValue =
     (case GetFloat64OrDefault (cep_ParseFloat env) (mc_Params config) key defaultValue of
        Inl err \<Rightarrow> defaultValue
      | Inr v \<Rightarrow> if v = 0 then defaultValue else v)"

definition bucket_at :: "(string, int) gomap \<Rightarrow> string \<Rightarrow> int" where
  "bucket_at buckets k = (case map_of buckets k of None \<Rightarrow> 0 | Some n \<Rightarrow> n)"

definition cep_perc :: "int \<Rightarrow> int \<Rightarrow> rat" where
  "cep_perc accepted events = fl (fl (fl (of_int accepted) / fl (of_int events)) * 100)"

text \<open>The loop over the snapshots; Go visits them in any order, which chooses the one that is reported.\<close>

fun cep_loop :: "cep_env \<Rightarrow> string \<Rightarrow> rat \<Rightarrow> (string, (string, int) gomap) gomap \<Rightarrow> goerr option" where
  "cep_loop env bucketSLO percentileSLO [] = None"
| "cep_loop env bucketSLO percentileSLO ((timestamp, buckets) # rest) =
     (let totalEvents = bucket_at buckets ''+Inf'' in
      if totalEvents = 0 then cep_loop env bucketSLO percentileSLO rest
      else
        let perc = cep_perc (bucket_at buckets bucketSLO) totalEvents
        in if perc < percentileSLO
           then Some (NewMetricViolationError ''Cilium endpoint propagation delay''
                  (timestamp @ '': updates for '' @ bucketSLO @ ''s delay is within '' @ show_int \<lfloor>perc\<rfloor> @ ''%, expected ''
                   @ show_int \<lfloor>percentileSLO\<rfloor> @ ''%, buckets:'' @ CHR 0x0A # cep_showBuckets env buckets))
           else cep_loop env bucketSLO percentileSLO rest)"

definition validateCEPPropagationDelay ::
  "cep_env \<Rightarrow> (string, (string, int) gomap) gomap \<Rightarrow> MeasurementConfig \<Rightarrow> goerr option" where
  "validateCEPPropagationDelay env result config =
     cep_loop env (cep_format env (float_param env config ''bucketSLO'' 600)) (float_param env config ''percentileSLO'' 95) result"

definition cep_Gather ::
  "cep_env \<Rightarrow> executor \<Rightarrow> gotime \<Rightarrow> gotime \<Rightarrow> MeasurementConfig \<Rightarrow> genericSummary list \<times> goerr option" where
  "cep_Gather env executor startTime endTime config =
     (let result = gatherCepPropagationDelay env executor startTime endTime
      in (case cep_pretty env result of
            Inl err \<Rightarrow> ([], Some err)
          | Inr content \<Rightarrow>
              ([CreateSummary (cep_now env) ''CiliumEndpointPropagationDelay'' ''json'' content],
               validateCEPPropagationDelay env result config)))"

definition cepPropagationDelayGatherer :: "cep_env \<Rightarrow> unit Gatherer" where
  "cepPropagationDelayGatherer env =
     \<lparr>ga_Configure = \<lambda>_ g. (None, g), ga_Gather = \<lambda>ex s e c g. Some (cep_Gather env ex s e c),
      ga_IsEnabled = \<lambda>_. True, ga_String = ''CiliumEndpointPropagationDelay''\<rparr>"

section \<open>The objective of ContainerRestarts\<close>

lemma violation_is_violation [simp]: "IsMetricViolationError (NewMetricViolationError metric reason)"
  by (simp add: IsMetricViolationError_def NewMetricViolationError_def)

text \<open>The largest of the allowances that apply to a pod, as a bound.\<close>

lemma allowed_restarts_bound:
  "n \<le> allowed_restarts d ovs pod \<longleftrightarrow> n \<le> d \<or> (\<exists>(ov, re) \<in> set ovs. re pod \<and> n \<le> ro_AllowedRestarts ov)"
proof (induction ovs arbitrary: d)
  case (Cons x ovs)
  obtain ov re where x: "x = (ov, re)" by fastforce
  define d' where "d' = (if re pod \<and> d < ro_AllowedRestarts ov then ro_AllowedRestarts ov else d)"
  have "allowed_restarts d (x # ovs) pod = allowed_restarts d' ovs pod"
    by (simp add: allowed_restarts_def x d'_def)
  moreover have "n \<le> d' \<longleftrightarrow> n \<le> d \<or> re pod \<and> n \<le> ro_AllowedRestarts ov"
    by (auto simp: d'_def)
  ultimately show ?case using Cons.IH[of d'] by (simp add: x)
qed (simp add: allowed_restarts_def)

lemma somes_guarded_Nil: "somes (map (\<lambda>x. if P x then Some (f x) else None) xs) = [] \<longleftrightarrow> (\<forall>x \<in> set xs. \<not> P x)"
  by (induction xs) auto

lemma validateRestarts_ok:
  "validateRestarts env infos d ovs = [] \<longleftrightarrow>
   (\<forall>ri \<in> set infos. cr_RestartCount ri \<le> allowed_restarts d ovs (ci_Pod (cr_info ri)))"
  unfolding validateRestarts_def Let_def somes_guarded_Nil by (simp add: not_less)

text \<open>What the gatherer reads: the overrides, the default, the restarts; and its printed summary.\<close>

definition restarts_inputs ::
  "restarts_env \<Rightarrow> executor \<Rightarrow> gotime \<Rightarrow> gotime \<Rightarrow> MeasurementConfig \<Rightarrow>
   ((restartCountOverride \<times> (string \<Rightarrow> bool)) list \<times> int \<times> ContainerRestartsInfo list) option" where
  "restarts_inputs env ex s e c =
     (case (getOverrides env c, GetIntOrDefault (mc_Params c) ''defaultAllowedRestarts'' 0, gatherContainerRestarts ex s e) of
        (Some (Inr ovs), Inr d, Inr infos) \<Rightarrow> (case ce_pretty env infos of Inr _ \<Rightarrow> Some (ovs, d, infos) | Inl _ \<Rightarrow> None)
      | _ \<Rightarrow> None)"

definition restarts_within :: "(restartCountOverride \<times> (string \<Rightarrow> bool)) list \<times> int \<times> ContainerRestartsInfo list \<Rightarrow> bool" where
  "restarts_within = (\<lambda>(ovs, d, infos). \<forall>ri \<in> set infos.
     cr_RestartCount ri \<le> d \<or> (\<exists>(ov, re) \<in> set ovs. re (ci_Pod (cr_info ri)) \<and> cr_RestartCount ri \<le> ro_AllowedRestarts ov))"

lemma validateRestarts_within: "validateRestarts env infos d ovs = [] \<longleftrightarrow> restarts_within (ovs, d, infos)"
  by (simp add: validateRestarts_ok restarts_within_def allowed_restarts_bound)

lemma restarts_inputs_SomeE:
  assumes "restarts_inputs env ex s e c = Some (ovs, d, infos)"
  obtains content where "getOverrides env c = Some (Inr ovs)"
    and "GetIntOrDefault (mc_Params c) ''defaultAllowedRestarts'' 0 = Inr d"
    and "gatherContainerRestarts ex s e = Inr infos" and "ce_pretty env infos = Inr content"
  using assms unfolding restarts_inputs_def by (auto split: option.splits sum.splits)

lemma restarts_Gather_inputs:
  assumes "restarts_inputs env ex s e c = Some (ovs, d, infos)"
  shows "\<exists>summary err. restarts_Gather env ex s e c a = Some ([summary], err) \<and> (err = None \<longleftrightarrow> restarts_within (ovs, d, infos))
    \<and> (\<forall>x. err = Some x \<longrightarrow> IsMetricViolationError x)"
  using assms by (rule restarts_inputs_SomeE) (simp add: restarts_Gather_def validateRestarts_within Let_def)

interpretation restarts_slo: slo_gatherer "containerRestartsGatherer env"
  "\<lambda>ex s e c _. restarts_inputs env ex s e c \<noteq> None"
  "\<lambda>ex s e c _. restarts_within (the (restarts_inputs env ex s e c))"
  for env
  by unfold_locales (use restarts_Gather_inputs in \<open>fastforce simp: containerRestartsGatherer_def\<close>)+

section \<open>The objective of GenericPrometheusQuery\<close>

definition in_bounds :: "GenericQuery \<Rightarrow> sample \<Rightarrow> bool" where
  "in_bounds q s \<longleftrightarrow> (case gq_Threshold q of None \<Rightarrow> True
     | Some t \<Rightarrow> if gq_LowerBound q then t \<le> sm_Value s else sm_Value s \<le> t)"

lemma validateSample_in_bounds: "validateSample env q (sm_Value s) = None \<longleftrightarrow> in_bounds q s"
  by (auto simp: validateSample_def in_bounds_def split: option.splits)

text \<open>The values the items hold already: for a key and the name of a query.\<close>

definition recorded :: "(string, DataItem) gomap \<Rightarrow> (string \<times> string) set" where
  "recorded items = {(k, n). \<exists>di. map_of items k = Some di \<and> map_of (di_Data di) n \<noteq> None}"

definition slot :: "StartParams \<Rightarrow> GenericQuery \<Rightarrow> sample \<Rightarrow> string \<times> string" where
  "slot g q s = (fst (generic_key s (gp_Dimensions g)), gq_Name q)"

lemma generic_sample_step:
  assumes "generic_sample env g q s (errs, items) = (errs', items')"
  shows "recorded items' = insert (slot g q s) (recorded items)"
    and "errs' = [] \<longleftrightarrow> errs = [] \<and> in_bounds q s \<and> slot g q s \<notin> recorded items"
proof -
  obtain k ls where k: "generic_key s (gp_Dimensions g) = (k, ls)" by fastforce
  show "recorded items' = insert (slot g q s) (recorded items)"
    using assms unfolding generic_sample_def
    by (auto simp: k Let_def getOrCreate_def recorded_def slot_def update_conv' split: option.splits if_splits)
  show "errs' = [] \<longleftrightarrow> errs = [] \<and> in_bounds q s \<and> slot g q s \<notin> recorded items"
    using assms unfolding generic_sample_def validateSample_in_bounds[where env = env, symmetric]
    by (auto simp: k Let_def getOrCreate_def recorded_def slot_def split: option.splits)
qed

lemma generic_samples_fold:
  assumes "fold (generic_sample env g q) ss (errs, items) = (errs', items')"
  shows "recorded items' = slot g q ` set ss \<union> recorded items \<and>
    (errs' = [] \<longleftrightarrow> errs = [] \<and> (\<forall>s \<in> set ss. in_bounds q s) \<and> distinct (map (slot g q) ss)
       \<and> slot g q ` set ss \<inter> recorded items = {})"
  using assms
proof (induction ss arbitrary: errs items)
  case (Cons s ss)
  obtain e1 i1 where st: "generic_sample env g q s (errs, items) = (e1, i1)" by fastforce
  note step = generic_sample_step[OF st]
  from Cons.prems st have "fold (generic_sample env g q) ss (e1, i1) = (errs', items')" by simp
  from Cons.IH[OF this] step show ?case by auto
qed simp

text \<open>The answers to the queries, and the objective on them.\<close>

fun generic_answers :: "executor \<Rightarrow> gotime \<Rightarrow> gotime \<Rightarrow> GenericQuery list \<Rightarrow> (GenericQuery \<times> sample list) list option" where
  "generic_answers ex s e [] = Some []"
| "generic_answers ex s e (q # qs) =
     (case generic_query q ex s e of
        Inl _ \<Rightarrow> None
      | Inr ss \<Rightarrow> map_option (\<lambda>rest. (q, ss) # rest) (generic_answers ex s e qs))"

definition slots :: "StartParams \<Rightarrow> (GenericQuery \<times> sample list) list \<Rightarrow> (string \<times> string) list" where
  "slots g as = concat (map (\<lambda>(q, ss). map (slot g q) ss) as)"

definition generic_objective :: "StartParams \<Rightarrow> (GenericQuery \<times> sample list) list \<Rightarrow> bool" where
  "generic_objective g as \<longleftrightarrow>
     (\<forall>(q, ss) \<in> set as. (gq_RequireSamples q \<longrightarrow> ss \<noteq> []) \<and> (\<forall>s \<in> set ss. in_bounds q s)) \<and> distinct (slots g as)"

lemma generic_loop_answers:
  assumes "generic_answers ex s e qs = Some as"
  shows "\<exists>errs' items'. generic_loop env g ex s e qs (errs, items) = Inr (errs', items') \<and>
    (errs' = [] \<longleftrightarrow> errs = [] \<and> generic_objective g as \<and> set (slots g as) \<inter> recorded items = {})"
  using assms
proof (induction qs arbitrary: errs items as)
  case (Cons q qs)
  then obtain ss as1 where q: "generic_query q ex s e = Inr ss" and as1: "generic_answers ex s e qs = Some as1"
    and as: "as = (q, ss) # as1"
    by (auto split: sum.splits)
  obtain e1 i1 where f: "fold (generic_sample env g q) ss (errs, items) = (e1, i1)" by fastforce
  define e2 where "e2 = (if ss = [] \<and> gq_RequireSamples q
    then errs @ [NewMetricViolationError (gq_Name q) (''query returned no samples for '' @ gp_MetricName g)] else e1)"
  have loop: "generic_loop env g ex s e (q # qs) (errs, items) = generic_loop env g ex s e qs (e2, i1)"
    using f by (cases "ss = []") (simp_all add: q e2_def)
  obtain errs' items' where l1: "generic_loop env g ex s e qs (e2, i1) = Inr (errs', items')"
    and errs': "errs' = [] \<longleftrightarrow> e2 = [] \<and> generic_objective g as1 \<and> set (slots g as1) \<inter> recorded i1 = {}"
    using Cons.IH[OF as1, of e2 i1] by (elim exE conjE)
  have rec: "recorded i1 = slot g q ` set ss \<union> recorded items"
    and e2: "e2 = [] \<longleftrightarrow> errs = [] \<and> (gq_RequireSamples q \<longrightarrow> ss \<noteq> []) \<and> (\<forall>s \<in> set ss. in_bounds q s)
      \<and> distinct (map (slot g q) ss) \<and> slot g q ` set ss \<inter> recorded items = {}"
    using generic_samples_fold[OF f] f by (auto simp: e2_def)
  have obj: "generic_objective g as \<longleftrightarrow> (gq_RequireSamples q \<longrightarrow> ss \<noteq> []) \<and> (\<forall>s \<in> set ss. in_bounds q s)
      \<and> distinct (map (slot g q) ss) \<and> slot g q ` set ss \<inter> set (slots g as1) = {} \<and> generic_objective g as1"
    and sl: "set (slots g as) = slot g q ` set ss \<union> set (slots g as1)"
    by (auto simp: as generic_objective_def slots_def)
  have "errs' = [] \<longleftrightarrow> errs = [] \<and> generic_objective g as \<and> set (slots g as) \<inter> recorded items = {}"
    unfolding errs' e2 obj sl rec by blast
  then show ?case unfolding loop l1 by simp
qed (auto simp: generic_objective_def slots_def)

lemma generic_Gather_answers:
  assumes "generic_answers ex s e (gp_Queries g) = Some as" and "\<And>d. \<exists>content. ge_pretty env d = Inr content"
  shows "\<exists>summary err. generic_Gather env ex s e g = ([summary], err) \<and> (err = None \<longleftrightarrow> generic_objective g as)
    \<and> (\<forall>x. err = Some x \<longrightarrow> IsMetricViolationError x)"
proof -
  obtain errs items where l: "generic_loop env g ex s e (gp_Queries g) ([], []) = Inr (errs, items)"
    and errs: "errs = [] \<longleftrightarrow> generic_objective g as"
    using generic_loop_answers[OF assms(1), of env g "[]" "[]"] by (auto simp: recorded_def)
  obtain summary where "generic_createSummary env g (gp_MetricName g) items = Inr summary"
    using assms(2)[of "\<lparr>pd_Version = gp_MetricVersion g, pd_DataItems = map snd items, pd_Labels = []\<rparr>"]
    unfolding generic_createSummary_def by force
  then show ?thesis using errs by (simp add: generic_Gather_def l)
qed

text \<open>Every value is printed as JSON; what can fail are the queries.\<close>

definition prints :: "generic_env \<Rightarrow> bool" where
  "prints env \<longleftrightarrow> (\<forall>d. \<exists>content. ge_pretty env d = Inr content)"

interpretation generic_slo: slo_gatherer "genericQueryGatherer env"
  "\<lambda>ex s e c g. prints env \<and> generic_answers ex s e (gp_Queries g) \<noteq> None"
  "\<lambda>ex s e c g. generic_objective g (the (generic_answers ex s e (gp_Queries g)))"
  for env
proof (unfold_locales, goal_cases)
  case (1 ex s e c g)
  then show ?case using generic_Gather_answers[of ex s e g _ env]
    by (force simp: genericQueryGatherer_def prints_def)
next
  case (2 ex s e c g)
  then show ?case using generic_Gather_answers[of ex s e g _ env]
    by (force simp: genericQueryGatherer_def prints_def)
qed

text \<open>
  C18: GenericPrometheusQuery decides its thresholds.  Let the in-cluster Prometheus answer every query of
  the started measurement.  The action gather then returns exactly one summary, leaves the measurement as it
  is, and reports an error exactly if violations are enabled and the objective is missed: a query that
  requires samples has none, a sample lies outside the bound of its query, or two samples share the values
  of the dimensions and the name of the query.  That error is a metric violation.
\<close>

theorem generic_query_decided:
  assumes "GetStringOrDefault (mc_Params c) ''prometheusClient'' ''inCluster'' = Inr ''inCluster''" and "pl_framework pl"
    and "getString (mc_Params c) ''action'' = Inr ''gather''"
    and "GetBoolOrDefault (mc_Params c) ''enableViolations'' False = Inr enabled"
    and "prints env" and "generic_answers (pl_inCluster pl) (pm_startTime m) now (gp_Queries (pm_gatherer m)) = Some as"
  shows "\<exists>summary err. prom_Execute pl (genericQueryGatherer env) c now m = Some (([summary], err), m) \<and>
    (err = None \<longleftrightarrow> \<not> enabled \<or>
       (\<forall>(q, ss) \<in> set as. (gq_RequireSamples q \<longrightarrow> ss \<noteq> []) \<and> (\<forall>s \<in> set ss. in_bounds q s)) \<and> distinct (slots (pm_gatherer m) as)) \<and>
    (\<forall>e. err = Some e \<longrightarrow> IsMetricViolationError e)"
proof -
  have "ga_IsEnabled (genericQueryGatherer env) c" by (simp add: genericQueryGatherer_def)
  from generic_slo.execute_decides[OF assms(1,2) this assms(3,4), of m now] assms(5,6) show ?thesis
    by (fastforce simp: generic_objective_def)
qed

text \<open>
  ContainerRestarts decides its allowances.  Let the in-cluster Prometheus answer the query and the
  overrides be well-formed.  The action gather then returns exactly one summary and reports an error exactly
  if violations are enabled and some container restarted more often than the default and than every
  override whose pattern matches its pod.
\<close>

theorem container_restarts_decided:
  assumes "GetStringOrDefault (mc_Params c) ''prometheusClient'' ''inCluster'' = Inr ''inCluster''" and "pl_framework pl"
    and "getString (mc_Params c) ''action'' = Inr ''gather''"
    and "GetBoolOrDefault (mc_Params c) ''enableViolations'' False = Inr enabled"
    and "restarts_inputs env (pl_inCluster pl) (pm_startTime m) now c = Some (ovs, d, infos)"
  shows "\<exists>summary err. prom_Execute pl (containerRestartsGatherer env) c now m = Some (([summary], err), m) \<and>
    (err \<noteq> None \<longleftrightarrow> enabled \<and> (\<exists>ri \<in> set infos. d < cr_RestartCount ri \<and>
       (\<forall>(ov, re) \<in> set ovs. re (ci_Pod (cr_info ri)) \<longrightarrow> ro_AllowedRestarts ov < cr_RestartCount ri))) \<and>
    (\<forall>e. err = Some e \<longrightarrow> IsMetricViolationError e)"
proof -
  have w: "\<not> restarts_within (ovs, d, infos) \<longleftrightarrow> (\<exists>ri \<in> set infos. d < cr_RestartCount ri \<and>
       (\<forall>(ov, re) \<in> set ovs. re (ci_Pod (cr_info ri)) \<longrightarrow> ro_AllowedRestarts ov < cr_RestartCount ri))"
    by (simp add: restarts_within_def not_le case_prod_beta)
  have "ga_IsEnabled (containerRestartsGatherer env) c" by (simp add: containerRestartsGatherer_def)
  then obtain summary err where "prom_Execute pl (containerRestartsGatherer env) c now m = Some (([summary], err), m)"
    and "err = None \<longleftrightarrow> restarts_within (ovs, d, infos) \<or> \<not> enabled" and "\<forall>e. err = Some e \<longrightarrow> IsMetricViolationError e"
    using restarts_slo.execute_decides[OF assms(1,2) _ assms(3,4), of env m now] assms(5) by auto
  then show ?thesis unfolding w[symmetric] by (intro exI[of _ summary] exI[of _ err]) auto
qed

text \<open>A run of each on a small cluster: one pod that restarted three times.\<close>

definition restarts_sample :: sample where
  "restarts_sample = \<lparr>sm_Metric = [(''container'', ''c''), (''pod'', ''web-1''), (''namespace'', ''ns'')], sm_Value = 3\<rparr>"

definition sample_place :: prom_place where
  "sample_place = \<lparr>pl_framework = True, pl_inCluster = \<lambda>_ _. Inr [restarts_sample], pl_managed = Inl (Errorf [] [])\<rparr>"

definition sample_restarts_env :: "int \<Rightarrow> restarts_env" where
  "sample_restarts_env allowed =
     \<lparr>ce_yaml = \<lambda>_. Inr [Some \<lparr>ro_info = \<lparr>ci_Container = [], ci_Pod = ''web-*'', ci_Namespace = []\<rparr>, ro_AllowedRestarts = allowed\<rparr>],
      ce_compile = \<lambda>_. Some (\<lambda>pod. take 4 pod = ''web-''), ce_pretty = \<lambda>_. Inr [], ce_showInfo = \<lambda>_. [], ce_now = 0\<rparr>"

definition sample_generic_env :: generic_env where
  "sample_generic_env = \<lparr>ge_ToStruct = \<lambda>_ g. (None, g), ge_show = \<lambda>_. [], ge_pretty = \<lambda>_. Inr [], ge_now = 0\<rparr>"

definition sample_generic :: "rat \<Rightarrow> StartParams" where
  "sample_generic threshold =
     \<lparr>gp_MetricName = ''m'', gp_MetricVersion = ''v1'',
      gp_Queries = [\<lparr>gq_Name = ''q'', gq_Query = ''up'', gq_Threshold = Some threshold, gq_LowerBound = False, gq_RequireSamples = True\<rparr>],
      gp_Unit = ''s'', gp_Dimensions = [''pod'']\<rparr>"

theorem generic_query_decided_witness:
  "(\<exists>summary. prom_Execute sample_place (genericQueryGatherer sample_generic_env) gather_config 10
      \<lparr>pm_gatherer = sample_generic 3, pm_startTime = 5\<rparr> = Some (([summary], None), \<lparr>pm_gatherer = sample_generic 3, pm_startTime = 5\<rparr>))
   \<and> (\<exists>summary err. prom_Execute sample_place (genericQueryGatherer sample_generic_env) gather_config 10
      \<lparr>pm_gatherer = sample_generic 2, pm_startTime = 5\<rparr> =
      Some (([summary], Some err), \<lparr>pm_gatherer = sample_generic 2, pm_startTime = 5\<rparr>) \<and> IsMetricViolationError err)"
proof -
  have p: "prints sample_generic_env" by (simp add: prints_def sample_generic_env_def)
  have f: "pl_framework sample_place" by (simp add: sample_place_def)
  have a: "generic_answers (pl_inCluster sample_place) (pm_startTime \<lparr>pm_gatherer = sample_generic t, pm_startTime = 5\<rparr>) 10
      (gp_Queries (pm_gatherer \<lparr>pm_gatherer = sample_generic t, pm_startTime = 5\<rparr>)) =
      Some [(hd (gp_Queries (sample_generic t)), [restarts_sample])]" for t
    by (simp add: sample_place_def sample_generic_def generic_query_def)
  note decided = generic_query_decided[OF gather_config_params(1) f gather_config_params(2,3) p a]
  have "in_bounds (hd (gp_Queries (sample_generic 3))) restarts_sample" "\<not> in_bounds (hd (gp_Queries (sample_generic 2))) restarts_sample"
    by (simp_all add: in_bounds_def sample_generic_def restarts_sample_def)
  then show ?thesis using decided[of 3] decided[of 2] by (auto simp: slots_def)
qed

theorem container_restarts_decided_witness:
  "(\<exists>summary. prom_Execute sample_place (containerRestartsGatherer (sample_restarts_env 3)) gather_config 10
      (CreatePrometheusMeasurement ()) = Some (([summary], None), CreatePrometheusMeasurement ()))
   \<and> (\<exists>summary err. prom_Execute sample_place (containerRestartsGatherer (sample_restarts_env 2)) gather_config 10
      (CreatePrometheusMeasurement ()) = Some (([summary], Some err), CreatePrometheusMeasurement ()) \<and> IsMetricViolationError err)"
proof -
  have f: "pl_framework sample_place" by (simp add: sample_place_def)
  have "int_Round 3 = 3" by code_simp
  then have i: "restarts_inputs (sample_restarts_env a) (pl_inCluster sample_place) (pm_startTime (CreatePrometheusMeasurement ())) 10
      gather_config = Some ([(\<lparr>ro_info = \<lparr>ci_Container = [], ci_Pod = ''web-*'', ci_Namespace = []\<rparr>, ro_AllowedRestarts = a\<rparr>,
        \<lambda>pod. take 4 pod = ''web-'')], 0,
        [\<lparr>cr_info = \<lparr>ci_Container = ''c'', ci_Pod = ''web-1'', ci_Namespace = ''ns''\<rparr>, cr_RestartCount = 3\<rparr>])" for a
    by (simp add: restarts_inputs_def getOverrides_def gather_config_def GetStringOrDefault_def GetIntOrDefault_def getString_def
        getInt_def or_default_def IsErrKeyNotFound_def sample_restarts_env_def gatherContainerRestarts_def sample_place_def
        restarts_sample_def label_def)
  note decided = container_restarts_decided[OF gather_config_params(1) f gather_config_params(2,3) i]
  show ?thesis using decided[of 3] decided[of 2] by auto
qed

section \<open>The windows of the Cilium measurement\<close>

text \<open>Windows that follow each other from \<open>a\<close> to \<open>b\<close>.\<close>

fun contiguous :: "gotime \<Rightarrow> (gotime \<times> gotime) list \<Rightarrow> gotime \<Rightarrow> bool" where
  "contiguous a [] b = (a = b)"
| "contiguous a ((s, e) # ws) b = (s = a \<and> contiguous e ws b)"

lemma cep_windows_contiguous: "contiguous p (cep_windows p c e) e"
proof (induction p c e rule: cep_windows.induct)
  case (1 p c e)
  show ?case using "1.IH" by (subst cep_windows.simps) (auto simp: Let_def)
qed

lemma cep_windows_short:
  "p \<le> e \<Longrightarrow> c = p + queryInterval \<Longrightarrow> w \<in> set (cep_windows p c e) \<Longrightarrow> fst w \<le> snd w \<and> snd w \<le> e \<and> snd w - fst w \<le> queryInterval"
proof (induction p c e rule: cep_windows.induct)
  case (1 p c e)
  have q: "queryInterval > 0" by (simp add: queryInterval_def)
  let ?c = "if c > e then e else c"
  from "1.prems"(3) consider "w = (p, ?c)" | "?c \<noteq> e" "w \<in> set (cep_windows ?c (?c + queryInterval) e)"
    by (subst (asm) cep_windows.simps) (auto simp: Let_def split: if_splits)
  then show ?case
  proof cases
    case 1
    then show ?thesis using "1.prems" q by auto
  next
    case 2
    then show ?thesis using "1.IH"[OF refl 2(1) _ refl 2(2)] by simp
  qed
qed

text \<open>
  The snapshots of the Cilium measurement cover the test.  The loop ends for every start and end time;
  the windows it queries follow each other without gap from the start to the end of the test, and for a
  test that ends after its start none is longer than ten minutes.
\<close>

theorem cep_windows_cover:
  "contiguous startTime (cep_windows startTime (startTime + queryInterval) endTime) endTime
   \<and> (startTime \<le> endTime \<longrightarrow> (\<forall>w \<in> set (cep_windows startTime (startTime + queryInterval) endTime).
        fst w \<le> snd w \<and> snd w - fst w \<le> 600 * second))"
  using cep_windows_contiguous cep_windows_short[of startTime endTime] by (auto simp: queryInterval_def)

theorem cep_windows_cover_witness:
  "cep_windows 0 queryInterval (900 * second) = [(0, 600 * second), (600 * second, 900 * second)]
   \<and> list_all (\<lambda>w. fst w \<le> snd w \<and> snd w - fst w \<le> 600 * second) (cep_windows 0 queryInterval (900 * second))"
proof
  show "cep_windows 0 queryInterval (900 * second) = [(0, 600 * second), (600 * second, 900 * second)]"
    by (simp add: cep_windows.simps queryInterval_def)
  show "list_all (\<lambda>w. fst w \<le> snd w \<and> snd w - fst w \<le> 600 * second) (cep_windows 0 queryInterval (900 * second))"
    using cep_windows_cover[of 0 "900 * second"] by (simp add: list_all_iff)
qed

end
