(* ===== verification/Job_Measurements.thy ===== *)
theory Job_Measurements
  imports Controlled_Pods
begin

text \<open>
  Measurements of jobs: WaitForFinishedJobs (\<^verbatim>\<open>wait_for_jobs.go\<close>) and JobLifecycleLatency
  (\<^verbatim>\<open>job_lifecycle_latency.go\<close>) of \<^verbatim>\<open>clusterloader2/pkg/measurement/common\<close>.  The handler of the first is a client
  of an informer; its record is the finished jobs of the store after every history.
\<close>

section \<open>Jobs\<close>

record JobCondition =
  jc_Type :: string
  jc_Status :: string

record Job =
  jo_Namespace :: string
  jo_Name :: string
  jo_CreationTimestamp :: gotime
  jo_StartTime :: "gotime option"
  jo_CompletionTime :: "gotime option"
  jo_Conditions :: "JobCondition list"

abbreviation JobComplete :: string where "JobComplete \<equiv> ''Complete''"
abbreviation JobFailed :: string where "JobFailed \<equiv> ''Failed''"

fun finished_loop :: "JobCondition list \<Rightarrow> bool \<times> string" where
  "finished_loop [] = (False, [])"
| "finished_loop (c # cs) =
     (if jc_Status c \<noteq> ''True'' then finished_loop cs
      else if jc_Type c = JobComplete \<or> jc_Type c = JobFailed then (True, jc_Type c)
      else finished_loop cs)"

definition finishedJobCondition :: "Job option \<Rightarrow> bool \<times> string" where
  "finishedJobCondition j = (case j of None \<Rightarrow> (False, []) | Some j \<Rightarrow> finished_loop (jo_Conditions j))"

section \<open>WaitForFinishedJobs\<close>

text \<open>
  What a handler can get: a job, a tombstone with a job or with something else (\<open>None\<close>), another object.
\<close>

datatype job_ref = JobRef Job | TombstoneRef "Job option" | OtherRef

text \<open>\<open>wj_cancel\<close> is nil, or tells whether the context of the informer was cancelled.\<close>

record 'q waitForFinishedJobsMeasurement =
  wj_selector :: ObjectSelector
  wj_queue :: 'q
  wj_isRunning :: bool
  wj_cancel :: "bool option"
  wj_finishedJobs :: "(string, string) gomap"

type_synonym 'q wfj = "'q waitForFinishedJobsMeasurement"
type_synonym job_event = "job_ref option \<times> job_ref option"

text \<open>
  \<open>je_key\<close> is \<^verbatim>\<open>cache.DeletionHandlingMetaNamespaceKeyFunc\<close> on a job or a nil pointer, \<open>None\<close> if it panics;
  \<open>je_synced\<close> tells whether the cache of the informer syncs in time, \<open>je_list\<close> is the listing.
\<close>

record 'q job_env =
  je_queue :: "(job_event, 'q) workqueue"
  je_key :: "Job option \<Rightarrow> (goerr + string) option"
  je_synced :: bool
  je_list :: "ObjectSelector \<Rightarrow> goerr + Job list"
  je_parseDuration :: "string \<Rightarrow> goerr + duration"

definition waitForFinishedJobsName :: string where
  "waitForFinishedJobsName = ''WaitForFinishedJobs''"

definition createWaitForFinishedJobsMeasurement :: "'q job_env \<Rightarrow> 'q wfj" where
  "createWaitForFinishedJobsMeasurement env =
     \<lparr>wj_selector = NewObjectSelector, wj_queue = wq_new (je_queue env), wj_isRunning = False, wj_cancel = None,
      wj_finishedJobs = []\<rparr>"

definition old_job :: "job_ref option \<Rightarrow> Job option" where
  "old_job oldObj = (case oldObj of Some (JobRef j) \<Rightarrow> Some j | Some (TombstoneRef (Some j)) \<Rightarrow> Some j | _ \<Rightarrow> None)"

definition wj_handleObject :: "'q job_env \<Rightarrow> job_ref option \<Rightarrow> job_ref option \<Rightarrow> 'q wfj \<Rightarrow> 'q wfj option" where
  "wj_handleObject env oldObj newObj w =
     (let oldJob = old_job oldObj;
          newJob = (case newObj of Some (JobRef j) \<Rightarrow> Some j | _ \<Rightarrow> None)
      in if newObj \<noteq> None \<and> newJob = None then Some w
         else
           (case je_key env (if newJob = None then oldJob else newJob) of
              None \<Rightarrow> None
            | Some (Inl err) \<Rightarrow> Some w
            | Some (Inr key) \<Rightarrow>
                (case finishedJobCondition newJob of
                   (completed, condition) \<Rightarrow>
                     if completed then Some (w\<lparr>wj_finishedJobs := AList.update key condition (wj_finishedJobs w)\<rparr>)
                     else Some (w\<lparr>wj_finishedJobs := AList.delete key (wj_finishedJobs w)\<rparr>))))"

text \<open>The informer's handler only queues the event; the worker calls \<open>wj_handleObject\<close>.\<close>

definition wj_enqueue :: "'q job_env \<Rightarrow> job_ref option \<Rightarrow> job_ref option \<Rightarrow> 'q wfj \<Rightarrow> 'q wfj" where
  "wj_enqueue env oldObj newObj w = w\<lparr>wj_queue := WorkerQueue_Add (je_queue env) (oldObj, newObj) (wj_queue w)\<rparr>"

definition wj_start :: "'q job_env \<Rightarrow> 'q wfj \<Rightarrow> goerr option \<times> 'q wfj" where
  "wj_start env w =
     (if wj_isRunning w then (None, w)
      else (StartAndSync (je_synced env), w\<lparr>wj_isRunning := True, wj_cancel := Some False\<rparr>))"

definition wj_Dispose :: "'q job_env \<Rightarrow> 'q wfj \<Rightarrow> 'q wfj" where
  "wj_Dispose env w =
     (if \<not> wj_isRunning w then w
      else w\<lparr>wj_isRunning := False, wj_queue := WorkerQueue_Stop (je_queue env) (wj_queue w), wj_cancel := Some True\<rparr>)"

text \<open>The keys of a listing; the loop stops at the first error.\<close>

fun job_keys_loop :: "'q job_env \<Rightarrow> Job list \<Rightarrow> string list \<Rightarrow> (goerr + string list) option" where
  "job_keys_loop env [] keys = Some (Inr keys)"
| "job_keys_loop env (j # js) keys =
     (case je_key env (Some j) of
        None \<Rightarrow> None
      | Some (Inl err) \<Rightarrow> Some (Inl (Errorf (''getting key for Job: '' @ err_msg err) [err]))
      | Some (Inr key) \<Rightarrow> job_keys_loop env js (List.insert key keys))"

definition jobKeys :: "'q job_env \<Rightarrow> 'q wfj \<Rightarrow> (goerr + string list) option" where
  "jobKeys env w =
     (case je_list env (wj_selector w) of
        Inl err \<Rightarrow> Some (Inl (Errorf (''listing jobs: '' @ err_msg err) [err]))
      | Inr items \<Rightarrow> job_keys_loop env items [])"

text \<open>\<^verbatim>\<open>sets.String.List\<close> sorts.\<close>

fun insert_str :: "string \<Rightarrow> string list \<Rightarrow> string list" where
  "insert_str s [] = [s]"
| "insert_str s (t # ts) = (if str_less t s then t # insert_str s ts else s # t # ts)"

definition sort_strs :: "string list \<Rightarrow> string list" where
  "sort_strs ss = foldr insert_str ss []"

text \<open>
  A poll (\<^verbatim>\<open>wait.Poll\<close>) evaluates its condition until it holds or the time is over: how many of the states
  that it would see it does see.
\<close>

fun polled :: "('s \<Rightarrow> bool) \<Rightarrow> 's list \<Rightarrow> nat" where
  "polled condition [] = 0"
| "polled condition (s # ss) = (if condition s then 1 else Suc (polled condition ss))"

definition all_finished :: "string list \<Rightarrow> (string, string) gomap \<Rightarrow> bool" where
  "all_finished keys finished \<longleftrightarrow> set keys = fst ` set finished"

definition jobs_verdict :: "string list \<Rightarrow> (string, string) gomap \<Rightarrow> goerr option" where
  "jobs_verdict keys finished =
     (let timedOut = filter (\<lambda>key. map_of finished key = None) keys
      in if length timedOut \<noteq> 0
         then Some (Errorf (show_nat (length timedOut) @ '' Jobs timed out: '' @ strings_Join (sort_strs timedOut) '', '') [])
         else None)"

text \<open>
  While the gathering polls, the handlers go on: \<open>seen\<close> are the records that the condition reads until a
  timeout, \<open>later\<close> is the record under the lock after a number of polls.  A timeout is only logged.
\<close>

definition wj_gather ::
  "'q job_env \<Rightarrow> (duration \<Rightarrow> (string, string) gomap list) \<Rightarrow> (nat \<Rightarrow> (string, string) gomap) \<Rightarrow> duration \<Rightarrow> 'q wfj \<Rightarrow>
   (goerr option \<times> 'q wfj) option" where
  "wj_gather env seen later limit w =
     (if \<not> wj_isRunning w
      then Some (Some (Errorf (waitForFinishedJobsName @ '': wait for finished jobs was not started'') []), w)
      else
        (case jobKeys env w of
           None \<Rightarrow> None
         | Some (Inl err) \<Rightarrow> Some (Some err, w)
         | Some (Inr keys) \<Rightarrow>
             let finished = later (polled (all_finished keys) (seen limit))
             in Some (jobs_verdict keys finished, w\<lparr>wj_finishedJobs := finished\<rparr>)))"

definition defaultWaitForFinishedJobsTimeout :: duration where
  "defaultWaitForFinishedJobsTimeout = 10 * Minute_ns"

definition wj_Execute ::
  "'q job_env \<Rightarrow> (duration \<Rightarrow> (string, string) gomap list) \<Rightarrow> (nat \<Rightarrow> (string, string) gomap) \<Rightarrow> MeasurementConfig \<Rightarrow>
   'q wfj \<Rightarrow> (goerr option \<times> 'q wfj) option" where
  "wj_Execute env seen later config w =
     (case getString (mc_Params config) ''action'' of
        Inl err \<Rightarrow> Some (Some err, w)
      | Inr action \<Rightarrow>
          if action = ''start'' then
            (case ObjectSelector_Parse (mc_Params config) (wj_selector w) of
               (Some err, s) \<Rightarrow> Some (Some err, w\<lparr>wj_selector := s\<rparr>)
             | (None, s) \<Rightarrow> Some (wj_start env (w\<lparr>wj_selector := s\<rparr>)))
          else if action = ''gather'' then
            (case GetDurationOrDefault (je_parseDuration env) (mc_Params config) ''timeout'' defaultWaitForFinishedJobsTimeout of
               Inl err \<Rightarrow> Some (Some err, w)
             | Inr limit \<Rightarrow> wj_gather env seen later limit w)
          else Some (Some (Errorf (''unknown action '' @ action) []), w))"

section \<open>JobLifecycleLatency\<close>

abbreviation jobCreated :: string where "jobCreated \<equiv> ''JobCreated''"
abbreviation jobStarted :: string where "jobStarted \<equiv> ''JobStarted''"
abbreviation jobCompleted :: string where "jobCompleted \<equiv> ''JobCompleted''"

definition jobLifecycleLatencyMeasurementName :: string where
  "jobLifecycleLatencyMeasurementName = ''JobLifecycleLatency''"

text \<open>An event: the new object, nil (\<open>None\<close>) for a deletion, and the time it was received.\<close>

record job_eventData =
  jd_obj :: "job_ref option"
  jd_recvTime :: gotime

record 'q jobLifecycleLatencyMeasurement =
  jl_selector :: ObjectSelector
  jl_isRunning :: bool
  jl_eventQueue :: 'q
  jl_jobStateEntries :: ObjectTransitionTimes

type_synonym 'q jll = "'q jobLifecycleLatencyMeasurement"

record 'q joblife_env =
  jle_queue :: "(job_eventData, 'q) workqueue"
  jle_synced :: bool
  jle_parseDuration :: "string \<Rightarrow> goerr + duration"
  jle_pretty :: "PerfData \<Rightarrow> goerr + string"
  jle_now :: gotime

definition createJobLifecycleLatencyMeasurement :: "'q joblife_env \<Rightarrow> 'q jll" where
  "createJobLifecycleLatencyMeasurement env =
     \<lparr>jl_selector = NewObjectSelector, jl_isRunning = False, jl_eventQueue = wq_new (jle_queue env),
      jl_jobStateEntries = NewObjectTransitionTimes jobLifecycleLatencyMeasurementName\<rparr>"

definition jl_start :: "'q joblife_env \<Rightarrow> 'q jll \<Rightarrow> goerr option \<times> 'q jll" where
  "jl_start env p = (if jl_isRunning p then (None, p) else (StartAndSync (jle_synced env), p\<lparr>jl_isRunning := True\<rparr>))"

definition jl_addEvent :: "'q joblife_env \<Rightarrow> gotime \<Rightarrow> job_ref option \<Rightarrow> 'q jll \<Rightarrow> 'q jll" where
  "jl_addEvent env now obj p =
     p\<lparr>jl_eventQueue := wq_Add (jle_queue env) \<lparr>jd_obj = obj, jd_recvTime = now\<rparr> (jl_eventQueue p)\<rparr>"

text \<open>A phase is recorded once.\<close>

definition record_once :: "string \<Rightarrow> string \<Rightarrow> gotime \<Rightarrow> ObjectTransitionTimes \<Rightarrow> ObjectTransitionTimes" where
  "record_once key phase t ott = (case ot_Get ott key phase of None \<Rightarrow> ot_Set ott key phase t | Some _ \<Rightarrow> ott)"

definition record_job :: "Job \<Rightarrow> ObjectTransitionTimes \<Rightarrow> ObjectTransitionTimes" where
  "record_job job ott =
     (let key = createMetaNamespaceKey (jo_Namespace job) (jo_Name job);
          ott = record_once key jobCreated (jo_CreationTimestamp job) ott;
          ott = (case jo_StartTime job of Some t \<Rightarrow> record_once key jobStarted t ott | None \<Rightarrow> ott)
      in (case jo_CompletionTime job of Some t \<Rightarrow> record_once key jobCompleted t ott | None \<Rightarrow> ott))"

definition jl_processEvent :: "job_eventData \<Rightarrow> 'q jll \<Rightarrow> 'q jll" where
  "jl_processEvent event p =
     (case jd_obj event of
        Some (JobRef job) \<Rightarrow> p\<lparr>jl_jobStateEntries := record_job job (jl_jobStateEntries p)\<rparr>
      | _ \<Rightarrow> p)"

definition jl_processNextWorkItem :: "'q joblife_env \<Rightarrow> 'q jll \<Rightarrow> (bool \<times> 'q jll) option" where
  "jl_processNextWorkItem env p =
     (case wq_Get (jle_queue env) (jl_eventQueue p) of
        None \<Rightarrow> None
      | Some (None, q) \<Rightarrow> Some (False, p\<lparr>jl_eventQueue := q\<rparr>)
      | Some (Some item, q) \<Rightarrow>
          let p = jl_processEvent item (p\<lparr>jl_eventQueue := q\<rparr>)
          in Some (True, p\<lparr>jl_eventQueue := wq_Done (jle_queue env) item (jl_eventQueue p)\<rparr>))"

definition jl_stop :: "'q joblife_env \<Rightarrow> 'q jll \<Rightarrow> 'q jll" where
  "jl_stop env p =
     (if jl_isRunning p
      then p\<lparr>jl_isRunning := False, jl_eventQueue := wq_ShutDown (jle_queue env) (jl_eventQueue p)\<rparr>
      else p)"

definition jobLifecycleTransitions :: "(string, Transition) gomap" where
  "jobLifecycleTransitions =
     [(''create_to_start'', \<lparr>tr_From = jobCreated, tr_To = jobStarted, tr_Threshold = 0\<rparr>),
      (''start_to_complete'', \<lparr>tr_From = jobStarted, tr_To = jobCompleted, tr_Threshold = 0\<rparr>)]"

text \<open>
  The processing goroutine goes on while the gathering polls: \<open>seen\<close> are the states until a timeout, \<open>later\<close>
  is the state after a number of polls.
\<close>

definition jobs_completed :: "'q jll \<Rightarrow> bool" where
  "jobs_completed p \<longleftrightarrow> ot_Count (jl_jobStateEntries p) jobCreated = ot_Count (jl_jobStateEntries p) jobCompleted"

definition jl_gather ::
  "'q joblife_env \<Rightarrow> (duration \<Rightarrow> 'q jll list) \<Rightarrow> (nat \<Rightarrow> 'q jll) \<Rightarrow> string \<Rightarrow> duration \<Rightarrow> 'q jll \<Rightarrow>
   ((genericSummary list \<times> goerr option) \<times> 'q jll) option" where
  "jl_gather env seen later identifier limit p =
     (if \<not> jl_isRunning p
      then Some (([], Some (Errorf (''metric '' @ jobLifecycleLatencyMeasurementName @ '' has not been started'') [])), p)
      else
        let p = jl_stop env (later (polled jobs_completed (seen limit)))
        in (case CalculateTransitionsLatency (jl_jobStateEntries p) jobLifecycleTransitions MatchAll of
              None \<Rightarrow> None
            | Some jobLifecycleLatency \<Rightarrow>
                (case jle_pretty env (LatencyMapToPerfData jobLifecycleLatency) of
                   Inl jsonErr \<Rightarrow> Some (([], Some jsonErr), p)
                 | Inr content \<Rightarrow>
                     Some (([CreateSummary (jle_now env) (jobLifecycleLatencyMeasurementName @ ''_'' @ identifier) ''json'' content],
                            None), p))))"

definition jl_Execute ::
  "'q joblife_env \<Rightarrow> (duration \<Rightarrow> 'q jll list) \<Rightarrow> (nat \<Rightarrow> 'q jll) \<Rightarrow> MeasurementConfig \<Rightarrow> 'q jll \<Rightarrow>
   ((genericSummary list \<times> goerr option) \<times> 'q jll) option" where
  "jl_Execute env seen later config p =
     (case getString (mc_Params config) ''action'' of
        Inl err \<Rightarrow> Some (([], Some err), p)
      | Inr action \<Rightarrow>
          if action = ''start'' then
            (case ObjectSelector_Parse (mc_Params config) (jl_selector p) of
               (Some err, s) \<Rightarrow> Some (([], Some err), p\<lparr>jl_selector := s\<rparr>)
             | (None, s) \<Rightarrow> let (err, p) = jl_start env (p\<lparr>jl_selector := s\<rparr>) in Some (([], err), p))
          else if action = ''gather'' then
            (case GetDurationOrDefault (jle_parseDuration env) (mc_Params config) ''timeout'' defaultWaitForFinishedJobsTimeout of
               Inl err \<Rightarrow> Some (([], Some err), p)
             | Inr limit \<Rightarrow> jl_gather env seen later (mc_Identifier config) limit p)
          else Some (([], Some (Errorf (''unknown action '' @ action) [])), p))"

section \<open>The record of finished jobs\<close>

definition job_key :: "Job \<Rightarrow> string" where
  "job_key j = createMetaNamespaceKey (jo_Namespace j) (jo_Name j)"

text \<open>The key function answers namespace and name, as documented.\<close>

definition keyed :: "'q job_env \<Rightarrow> Job \<Rightarrow> bool" where
  "keyed env j \<longleftrightarrow> je_key env (Some j) = Some (Inr (job_key j))"

text \<open>The condition that finished a job, if there is one.\<close>

definition finished_with :: "Job \<Rightarrow> string option" where
  "finished_with j = map_option jc_Type
     (List.find (\<lambda>c. jc_Status c = ''True'' \<and> (jc_Type c = JobComplete \<or> jc_Type c = JobFailed)) (jo_Conditions j))"

lemma finished_with_None:
  "finished_with j = None \<longleftrightarrow>
     \<not> (\<exists>c \<in> set (jo_Conditions j). jc_Status c = ''True'' \<and> (jc_Type c = JobComplete \<or> jc_Type c = JobFailed))"
  by (auto simp: finished_with_def find_None_iff)

lemma finished_loop_find:
  "finished_loop cs =
     (case List.find (\<lambda>c. jc_Status c = ''True'' \<and> (jc_Type c = JobComplete \<or> jc_Type c = JobFailed)) cs of
        None \<Rightarrow> (False, []) | Some c \<Rightarrow> (True, jc_Type c))"
  by (induction cs) auto

lemma finishedJobCondition_eq:
  "finishedJobCondition (Some j) = (case finished_with j of None \<Rightarrow> (False, []) | Some c \<Rightarrow> (True, c))"
  "finishedJobCondition None = (False, [])"
  by (auto simp: finishedJobCondition_def finished_with_def finished_loop_find split: option.splits)

text \<open>The handler as the worker calls it on the events of the informer.\<close>

definition on_job :: "'q job_env \<Rightarrow> Job option \<Rightarrow> Job option \<Rightarrow> 'q wfj option \<Rightarrow> 'q wfj option" where
  "on_job env old new r = Option.bind r (wj_handleObject env (map_option JobRef old) (map_option JobRef new))"

definition jobs_agree :: "(string \<rightharpoonup> Job) \<Rightarrow> 'q wfj option \<Rightarrow> bool" where
  "jobs_agree m r \<longleftrightarrow> (\<exists>w. r = Some w \<and> (\<forall>k. map_of (wj_finishedJobs w) k = Option.bind (m k) finished_with))"

lemma on_job_new:
  "keyed env j \<Longrightarrow> jobs_agree m r \<Longrightarrow> jobs_agree (m(job_key j \<mapsto> j)) (on_job env old (Some j) r)"
  by (auto simp: jobs_agree_def on_job_def wj_handleObject_def keyed_def finishedJobCondition_eq go_map split: option.splits)

lemma on_job_gone:
  "keyed env j \<Longrightarrow> jobs_agree m r \<Longrightarrow> jobs_agree (m(job_key j := None)) (on_job env (Some j) None r)"
  by (auto simp: jobs_agree_def on_job_def wj_handleObject_def old_job_def keyed_def finishedJobCondition_eq go_map)

interpretation finished_jobs: informer_client job_key "on_job env" jobs_agree "keyed env" for env
  by unfold_locales (auto intro: on_job_new on_job_gone)

lemma job_keys_listed:
  "(\<And>j. j \<in> set js \<Longrightarrow> keyed env j) \<Longrightarrow>
     \<exists>keys'. job_keys_loop env js keys = Some (Inr keys') \<and> set keys' = job_key ` set js \<union> set keys"
proof (induction js arbitrary: keys)
  case (Cons j js)
  from Cons.IH[of "List.insert (job_key j) keys"] Cons.prems show ?case by (simp add: keyed_def)
qed simp

lemma jobs_verdict_None: "jobs_verdict keys finished = None \<longleftrightarrow> (\<forall>k \<in> set keys. map_of finished k \<noteq> None)"
  by (auto simp: jobs_verdict_def Let_def filter_empty_conv)

lemma bind_found: "Option.bind v f \<noteq> None \<longleftrightarrow> (\<exists>x. v = Some x \<and> f x \<noteq> None)"
  by (cases v) auto

text \<open>The record of finished jobs after the events \<open>es\<close>, handled by a measurement that was just created.\<close>

definition handled :: "'q job_env \<Rightarrow> Job informer_event list \<Rightarrow> 'q wfj option" where
  "handled env es = fold (addEventHandler (on_job env)) es (Some (createWaitForFinishedJobsMeasurement env))"

lemma handled_record:
  assumes "history job_key es Map.empty" and "\<And>e j. e \<in> set es \<Longrightarrow> j \<in> event_objects e \<Longrightarrow> keyed env j"
  shows "\<exists>w. handled env es = Some w \<and> (\<forall>k. map_of (wj_finishedJobs w) k = Option.bind (store_at job_key es k) finished_with)"
proof -
  have "jobs_agree Map.empty (Some (createWaitForFinishedJobsMeasurement env))"
    by (simp add: jobs_agree_def createWaitForFinishedJobsMeasurement_def)
  from finished_jobs.history_agrees[OF this assms] show ?thesis by (simp add: jobs_agree_def handled_def)
qed

text \<open>
  Gathering finished jobs decides whether they finished.  Let the jobs of the cluster go through any
  history, with \<open>es n\<close> the events handled after \<open>n\<close> polls.  Handling them never panics, and the action gather
  reports no error exactly if every job that was listed when it began is in the store when the polls end,
  with a true condition Complete or Failed.  The polls end when the finished jobs are the listed ones.
\<close>

theorem finished_jobs_decided:
  assumes hist: "\<forall>n. history job_key (es n) Map.empty \<and> (\<forall>e \<in> set (es n). \<forall>j \<in> event_objects e. keyed env j)"
    and list: "je_list env (wj_selector w) = Inr js" "\<forall>j \<in> set js. keyed env j" and "wj_isRunning w"
  shows "(\<forall>n. handled env (es n) \<noteq> None) \<and>
    (\<exists>err w'. wj_gather env seen (\<lambda>n. wj_finishedJobs (the (handled env (es n)))) limit w = Some (err, w') \<and>
      (err = None \<longleftrightarrow> (\<forall>j \<in> set js. \<exists>x.
        store_at job_key (es (polled (\<lambda>f. job_key ` set js = fst ` set f) (seen limit))) (job_key j) = Some x \<and>
        (\<exists>c \<in> set (jo_Conditions x). jc_Status c = ''True'' \<and> (jc_Type c = ''Complete'' \<or> jc_Type c = ''Failed'')))))"
proof -
  have rec: "\<exists>w. handled env (es n) = Some w \<and> (\<forall>k. map_of (wj_finishedJobs w) k = Option.bind (store_at job_key (es n) k) finished_with)" for n
    using hist by (intro handled_record) auto
  obtain keys where keys: "jobKeys env w = Some (Inr keys)" "set keys = job_key ` set js"
    using job_keys_listed[of js env "[]"] list by (auto simp: jobKeys_def)
  let ?n = "polled (\<lambda>f. job_key ` set js = fst ` set f) (seen limit)"
  have n: "polled (all_finished keys) (seen limit) = ?n" by (simp add: all_finished_def[abs_def] keys(2))
  obtain v where v: "handled env (es ?n) = Some v"
    "\<And>k. map_of (wj_finishedJobs v) k = Option.bind (store_at job_key (es ?n) k) finished_with" using rec by blast
  have g: "wj_gather env seen (\<lambda>n. wj_finishedJobs (the (handled env (es n)))) limit w =
      Some (jobs_verdict keys (wj_finishedJobs v), w\<lparr>wj_finishedJobs := wj_finishedJobs v\<rparr>)"
    using assms(4) keys(1) v(1) by (simp add: wj_gather_def Let_def n)
  have d: "jobs_verdict keys (wj_finishedJobs v) = None \<longleftrightarrow> (\<forall>j \<in> set js. \<exists>x. store_at job_key (es ?n) (job_key j) = Some x \<and>
        (\<exists>c \<in> set (jo_Conditions x). jc_Status c = ''True'' \<and> (jc_Type c = ''Complete'' \<or> jc_Type c = ''Failed'')))"
    unfolding jobs_verdict_None keys(2) ball_simps v(2) bind_found finished_with_None not_not ..
  have h: "handled env (es n) \<noteq> None" for n using rec[of n] by auto
  show ?thesis
    by (intro conjI allI h exI[of _ "jobs_verdict keys (wj_finishedJobs v)"]
        exI[of _ "w\<lparr>wj_finishedJobs := wj_finishedJobs v\<rparr>"] g d)
qed

section \<open>The phases of a job\<close>

definition phase_time :: "string \<Rightarrow> Job \<Rightarrow> gotime option" where
  "phase_time phase j =
     (if phase = jobCreated then Some (jo_CreationTimestamp j)
      else if phase = jobStarted then jo_StartTime j
      else if phase = jobCompleted then jo_CompletionTime j else None)"

text \<open>The first time that an event tells for a phase of a job.\<close>

definition told :: "string \<Rightarrow> string \<Rightarrow> job_eventData \<Rightarrow> gotime option" where
  "told key phase e = (case jd_obj e of Some (JobRef j) \<Rightarrow> if job_key j = key then phase_time phase j else None | _ \<Rightarrow> None)"

definition first_told :: "string \<Rightarrow> string \<Rightarrow> job_eventData list \<Rightarrow> gotime option" where
  "first_told key phase es = (case somes (map (told key phase) es) of [] \<Rightarrow> None | t # _ \<Rightarrow> Some t)"

lemma ot_Get_once [simp]:
  "ot_Get (record_once key phase t ott) key' phase' =
     (if key' = key \<and> phase' = phase \<and> ot_Get ott key phase = None then Some t else ot_Get ott key' phase')"
  by (auto simp: record_once_def split: option.splits)

lemma ot_Get_record_job:
  "ot_Get (record_job j ott) key phase =
     (case ot_Get ott key phase of Some t \<Rightarrow> Some t | None \<Rightarrow> if key = job_key j then phase_time phase j else None)"
  by (auto simp: record_job_def job_key_def phase_time_def Let_def split: option.splits)

lemma ot_Get_processEvents:
  "ot_Get (jl_jobStateEntries (fold jl_processEvent es p)) key phase =
     (case ot_Get (jl_jobStateEntries p) key phase of Some t \<Rightarrow> Some t | None \<Rightarrow> first_told key phase es)"
proof (induction es arbitrary: p)
  case (Cons e es)
  have "ot_Get (jl_jobStateEntries (jl_processEvent e p)) key phase =
      (case ot_Get (jl_jobStateEntries p) key phase of Some t \<Rightarrow> Some t | None \<Rightarrow> told key phase e)"
    by (auto simp: jl_processEvent_def told_def ot_Get_record_job split: option.splits job_ref.splits)
  then show ?case by (auto simp: Cons.IH first_told_def split: option.splits)
qed (simp add: first_told_def split: option.splits)

abbreviation ot_keys :: "ObjectTransitionTimes \<Rightarrow> string set" where
  "ot_keys ott \<equiv> fst ` set (ot_times ott)"

lemma ot_keys_Set: "ot_keys (ot_Set ott key phase t) = insert key (ot_keys ott)"
  by (simp add: ot_Set_def Let_def dom_update)

lemma record_once_ok: "ot_ok ott \<Longrightarrow> ot_ok (record_once key phase t ott)"
  and record_once_keys: "ot_keys (record_once key phase t ott) \<subseteq> insert key (ot_keys ott)"
  by (auto simp: record_once_def ot_keys_Set split: option.splits)

lemma record_job_ok: "ot_ok ott \<Longrightarrow> ot_ok (record_job j ott)"
  by (auto simp: record_job_def Let_def intro!: record_once_ok split: option.splits)

lemma record_job_keys: "ot_keys (record_job j ott) \<subseteq> insert (job_key j) (ot_keys ott)"
  unfolding record_job_def Let_def job_key_def
  by (auto split: option.splits dest!: subsetD[OF record_once_keys])

lemma processEvents_ok:
  "ot_ok (jl_jobStateEntries p) \<Longrightarrow> ot_ok (jl_jobStateEntries (fold jl_processEvent es p)) \<and>
     card (ot_keys (jl_jobStateEntries (fold jl_processEvent es p))) \<le> card (ot_keys (jl_jobStateEntries p)) + length es"
proof (induction es arbitrary: p)
  case (Cons e es)
  let ?p = "jl_processEvent e p"
  have ok: "ot_ok (jl_jobStateEntries ?p)"
    using Cons.prems by (auto simp: jl_processEvent_def record_job_ok split: option.splits job_ref.splits)
  have "\<exists>k. ot_keys (jl_jobStateEntries ?p) \<subseteq> insert k (ot_keys (jl_jobStateEntries p))"
  proof (cases "\<exists>j. jd_obj e = Some (JobRef j)")
    case True
    then obtain j where "jd_obj e = Some (JobRef j)" by blast
    then show ?thesis using record_job_keys[of j "jl_jobStateEntries p"] by (auto simp: jl_processEvent_def)
  next
    case False
    then have "?p = p" by (auto simp: jl_processEvent_def split: option.splits job_ref.splits)
    then show ?thesis by auto
  qed
  then obtain k where "ot_keys (jl_jobStateEntries ?p) \<subseteq> insert k (ot_keys (jl_jobStateEntries p))" by blast
  then have "card (ot_keys (jl_jobStateEntries ?p)) \<le> card (insert k (ot_keys (jl_jobStateEntries p)))"
    by (intro card_mono) auto
  also have "\<dots> \<le> Suc (card (ot_keys (jl_jobStateEntries p)))" by (rule card_insert_le_m1) auto
  finally show ?case using Cons.IH[OF ok] by simp
qed simp

lemma length_times: "ot_ok ott \<Longrightarrow> length (ot_times ott) = card (ot_keys ott)"
  using distinct_card[of "map fst (ot_times ott)"] by (simp add: ot_ok_def)

lemma transitions_all:
  assumes "99 * length (ot_times ott) < 2 ^ 53" and "gomap_ok t"
  shows "\<exists>m. CalculateTransitionsLatency ott t flt = Some m \<and>
    (\<forall>name tr. map_of t name = Some tr \<longrightarrow> (\<exists>lm. map_of m name = Some lm \<and> metric_of (latencies ott tr flt) lm))"
proof -
  obtain m where m: "CalculateTransitionsLatency ott t flt = Some m"
    and at: "\<forall>name. case map_of t name of
       Some tr \<Rightarrow> \<exists>lm. map_of m name = Some lm \<and> metric_of (latencies ott tr flt) lm
     | None \<Rightarrow> map_of m name = map_of [] name"
    using transitions_loop_metrics[OF assms, of flt "[]"] unfolding CalculateTransitionsLatency_def by blast
  have "\<exists>lm. map_of m name = Some lm \<and> metric_of (latencies ott tr flt) lm" if "map_of t name = Some tr" for name tr
    using spec[OF at, of name] that by simp
  with m show ?thesis by blast
qed

text \<open>
  The latencies of the job phases.  After any sequence of events (fewer than 2 to the 46), the action
  gather of a started measurement returns exactly one summary and no error.  For both transitions it
  prints the nearest-rank percentiles of the non-negative differences between the first times that the
  events told for the two phases of a job, over the jobs that went through both.
\<close>

theorem job_latencies_gathered:
  assumes "99 * length es < 2 ^ 53" and "jl_isRunning p" and "jl_jobStateEntries p = NewObjectTransitionTimes name"
    and "\<forall>n. later n = fold jl_processEvent es p" and "\<forall>d. \<exists>c. jle_pretty env d = Inr c"
  shows "\<exists>summary p' m. jl_gather env seen later identifier limit p = Some (([summary], None), p') \<and> \<not> jl_isRunning p' \<and>
    Inr (gs_content summary) = jle_pretty env (LatencyMapToPerfData m) \<and>
    (\<forall>tr from to. (tr, from, to) \<in> {(''create_to_start'', jobCreated, jobStarted), (''start_to_complete'', jobStarted, jobCompleted)} \<longrightarrow>
      (\<exists>lm ls. map_of m tr = Some lm \<and> metric_of ls lm \<and>
         set ls = {max 0 (time_Sub t2 t1) |key t1 t2. first_told key from es = Some t1 \<and> first_told key to es = Some t2}))"
proof -
  let ?p = "fold jl_processEvent es p"
  let ?ott = "jl_jobStateEntries ?p"
  have ok: "ot_ok ?ott" and card: "card (ot_keys ?ott) \<le> length es"
    using processEvents_ok[of p es] assms(3) by (simp_all add: NewObjectTransitionTimes_def ot_ok_def)
  have len: "99 * length (ot_times ?ott) < 2 ^ 53" using length_times[OF ok] card assms(1) by simp
  have get: "ot_Get ?ott key phase = first_told key phase es" for key phase
    using assms(3) by (simp add: ot_Get_processEvents)
  have "gomap_ok jobLifecycleTransitions" by (simp add: jobLifecycleTransitions_def)
  from transitions_all[OF len this] obtain m where
    m: "CalculateTransitionsLatency ?ott jobLifecycleTransitions MatchAll = Some m"
    and at: "\<And>name tr. map_of jobLifecycleTransitions name = Some tr \<Longrightarrow>
      \<exists>lm. map_of m name = Some lm \<and> metric_of (latencies ?ott tr MatchAll) lm" by blast
  obtain content where c: "jle_pretty env (LatencyMapToPerfData m) = Inr content" using assms(5) by blast
  have lat: "set (latencies ?ott \<lparr>tr_From = from, tr_To = to, tr_Threshold = 0\<rparr> MatchAll) =
      {max 0 (time_Sub t2 t1) |key t1 t2. first_told key from es = Some t1 \<and> first_told key to es = Some t2}" for "from" to
    by (simp add: set_latencies[OF ok] get MatchAll_def)
  obtain summary where s: "jl_gather env seen later identifier limit p = Some (([summary], None), jl_stop env ?p)" "gs_content summary = content"
    using assms(2,4) m c by (simp add: jl_gather_def Let_def jl_stop_def CreateSummary_def)
  have n: "\<not> jl_isRunning (jl_stop env ?p)" by (simp add: jl_stop_def)
  have l: "\<exists>lm ls. map_of m tr = Some lm \<and> metric_of ls lm \<and>
      set ls = {max 0 (time_Sub t2 t1) |key t1 t2. first_told key from es = Some t1 \<and> first_told key to es = Some t2}"
    if "(tr, from, to) \<in> {(''create_to_start'', jobCreated, jobStarted), (''start_to_complete'', jobStarted, jobCompleted)}" for tr "from" to
  proof -
    have "map_of jobLifecycleTransitions tr = Some \<lparr>tr_From = from, tr_To = to, tr_Threshold = 0\<rparr>"
      using that by (auto simp: jobLifecycleTransitions_def)
    from at[OF this] lat show ?thesis by blast
  qed
  show ?thesis
    by (intro exI[of _ summary] exI[of _ "jl_stop env ?p"] exI[of _ m] conjI allI impI s(1) n l) (simp_all add: s(2) c)
qed

section \<open>Examples\<close>

definition demo_job :: "JobCondition list \<Rightarrow> Job" where
  "demo_job cs = \<lparr>jo_Namespace = ''ns'', jo_Name = ''job'', jo_CreationTimestamp = 1, jo_StartTime = Some 3,
     jo_CompletionTime = (if cs = [] then None else Some 8), jo_Conditions = cs\<rparr>"

definition done_job :: Job where
  "done_job = demo_job [\<lparr>jc_Type = ''Failed'', jc_Status = ''False''\<rparr>, \<lparr>jc_Type = ''Complete'', jc_Status = ''True''\<rparr>]"

definition demo_job_env :: "unit job_env" where
  "demo_job_env = \<lparr>je_queue = \<lparr>wq_new = (), wq_Add = \<lambda>_ q. q, wq_Get = \<lambda>_. None, wq_Done = \<lambda>_ q. q, wq_ShutDown = \<lambda>q. q\<rparr>,
     je_key = map_option (\<lambda>j. Inr (job_key j)), je_synced = True, je_list = \<lambda>_. Inr [done_job],
     je_parseDuration = \<lambda>_. Inr 0\<rparr>"

text \<open>The job runs at the first poll and is finished after one more.\<close>

definition demo_history :: "nat \<Rightarrow> Job informer_event list" where
  "demo_history n = AddEv (demo_job []) # (if n \<le> 1 then [] else [UpdateEv (demo_job []) done_job])"

theorem finished_jobs_decided_witness:
  "\<exists>w'. wj_gather demo_job_env (\<lambda>_. [[], [(''ns/job'', ''Complete'')]])
     (\<lambda>n. wj_finishedJobs (the (handled demo_job_env (demo_history n)))) 5
     ((createWaitForFinishedJobsMeasurement demo_job_env)\<lparr>wj_isRunning := True\<rparr>) = Some (None, w')"
proof -
  have k: "keyed demo_job_env j" for j by (simp add: keyed_def demo_job_env_def)
  have hist: "\<forall>n. history job_key (demo_history n) Map.empty \<and>
      (\<forall>e \<in> set (demo_history n). \<forall>j \<in> event_objects e. keyed demo_job_env j)"
    by (auto simp: k demo_history_def job_key_def demo_job_def done_job_def)
  have l: "je_list demo_job_env (wj_selector ((createWaitForFinishedJobsMeasurement demo_job_env)\<lparr>wj_isRunning := True\<rparr>)) = Inr [done_job]"
    by (simp add: demo_job_env_def)
  have n: "polled (\<lambda>f. job_key ` set [done_job] = fst ` set f) [[], [(''ns/job'', ''Complete'')]] = 2"
    by (simp add: job_key_def createMetaNamespaceKey_def done_job_def demo_job_def)
  have x: "store_at job_key (demo_history 2) (job_key done_job) = Some done_job"
    by (simp add: demo_history_def)
  have c: "\<exists>c \<in> set (jo_Conditions done_job). jc_Status c = ''True'' \<and> (jc_Type c = ''Complete'' \<or> jc_Type c = ''Failed'')"
    by (simp add: done_job_def demo_job_def)
  show ?thesis
    using finished_jobs_decided[OF hist l, of "\<lambda>_. [[], [(''ns/job'', ''Complete'')]]" 5] k x c unfolding n by simp
qed

definition demo_joblife_env :: "unit joblife_env" where
  "demo_joblife_env = \<lparr>jle_queue = \<lparr>wq_new = (), wq_Add = \<lambda>_ q. q, wq_Get = \<lambda>_. None, wq_Done = \<lambda>_ q. q, wq_ShutDown = \<lambda>q. q\<rparr>,
     jle_synced = True, jle_parseDuration = \<lambda>_. Inr 0, jle_pretty = \<lambda>_. Inr [], jle_now = 0\<rparr>"

definition demo_events :: "job_eventData list" where
  "demo_events = map (\<lambda>j. \<lparr>jd_obj = Some (JobRef j), jd_recvTime = 9\<rparr>) [demo_job [], done_job]"

theorem job_latencies_gathered_witness:
  "\<exists>summary p'. jl_gather demo_joblife_env (\<lambda>_. [])
     (\<lambda>_. fold jl_processEvent demo_events ((createJobLifecycleLatencyMeasurement demo_joblife_env)\<lparr>jl_isRunning := True\<rparr>)) ''id'' 5
     ((createJobLifecycleLatencyMeasurement demo_joblife_env)\<lparr>jl_isRunning := True\<rparr>) = Some (([summary], None), p')
   \<and> first_told ''ns/job'' jobStarted demo_events = Some 3 \<and> first_told ''ns/job'' jobCompleted demo_events = Some 8"
proof -
  let ?p = "(createJobLifecycleLatencyMeasurement demo_joblife_env)\<lparr>jl_isRunning := True\<rparr>"
  have p: "jl_isRunning ?p" "jl_jobStateEntries ?p = NewObjectTransitionTimes jobLifecycleLatencyMeasurementName"
    "\<forall>d. \<exists>c. jle_pretty demo_joblife_env d = Inr c" "99 * length demo_events < 2 ^ 53"
    by (simp_all add: createJobLifecycleLatencyMeasurement_def demo_joblife_env_def demo_events_def)
  have t: "first_told ''ns/job'' jobStarted demo_events = Some 3" "first_told ''ns/job'' jobCompleted demo_events = Some 8"
    by (simp_all add: demo_events_def first_told_def told_def job_key_def createMetaNamespaceKey_def demo_job_def done_job_def phase_time_def)
  from job_latencies_gathered[OF p(4,1,2) _ p(3), of "\<lambda>_. fold jl_processEvent demo_events ?p" "\<lambda>_. []" "''id''" 5]
  show ?thesis using t by auto
qed

end
