(* ===== verification/Service_Creation.thy ===== *)
theory Service_Creation
  imports Job_Measurements "HOL-Library.Sublist"
begin

text \<open>
  The measurement ServiceCreationLatency
  (\<^verbatim>\<open>clusterloader2/pkg/measurement/common/service_creation_latency.go\<close>).  Ten workers handle the events of services
  and ingresses; a worker that finds a new service pings it until it answers three times in a row.  What
  the workers do is a step relation, and the waiting reads the table of phases while they go on.
\<close>

section \<open>Services and ingresses\<close>

text \<open>The ports of a service are pairs of port and node port; the ingress points are their addresses.\<close>

record Service =
  sv_Namespace :: string
  sv_Name :: string
  sv_CreationTimestamp :: gotime
  sv_DeletionTimestamp :: "gotime option"
  sv_Type :: string
  sv_ClusterIPs :: "string list"
  sv_Ports :: "(int \<times> int) list"
  sv_Ingress :: "string list"

record Ingress =
  in_Namespace :: string
  in_Name :: string
  in_CreationTimestamp :: gotime
  in_DeletionTimestamp :: "gotime option"
  in_Ingress :: "string list"

datatype svc_obj = SvcObj Service | IngObj Ingress | UnknownObj

fun as_service :: "svc_obj option \<Rightarrow> Service option" where
  "as_service (Some (SvcObj s)) = Some s"
| "as_service _ = None"

fun as_ingress :: "svc_obj option \<Rightarrow> Ingress option" where
  "as_ingress (Some (IngObj i)) = Some i"
| "as_ingress _ = None"

abbreviation ServiceTypeClusterIP :: string where "ServiceTypeClusterIP \<equiv> ''ClusterIP''"
abbreviation ServiceTypeNodePort :: string where "ServiceTypeNodePort \<equiv> ''NodePort''"
abbreviation ServiceTypeLoadBalancer :: string where "ServiceTypeLoadBalancer \<equiv> ''LoadBalancer''"
abbreviation ingressType :: string where "ingressType \<equiv> ''ingress''"

abbreviation creatingPhase :: string where "creatingPhase \<equiv> ''creating''"
abbreviation ipAssigningPhase :: string where "ipAssigningPhase \<equiv> ''ipAssigning''"
abbreviation reachabilityPhase :: string where "reachabilityPhase \<equiv> ''reachability''"
abbreviation deletingPhase :: string where "deletingPhase \<equiv> ''deleting''"
abbreviation deletedPhase :: string where "deletedPhase \<equiv> ''deleted''"

definition phaseName :: "string \<Rightarrow> string \<Rightarrow> string" where
  "phaseName phase serviceType = phase @ ''_'' @ serviceType"

section \<open>The ping checker\<close>

text \<open>\<open>pc_stopCh\<close> is the number of a channel.\<close>

record pingChecker =
  pc_svc :: "Service option"
  pc_ingress :: "Ingress option"
  pc_stopCh :: nat

text \<open>
  \<open>se_svcKey\<close> and \<open>se_ingKey\<close> are the key function of the cache on a pointer, \<open>None\<close> if it panics; \<open>se_specEq\<close>
  and \<open>se_ingEq\<close> are \<^verbatim>\<open>equality.Semantic.DeepEqual\<close> on spec and status; \<open>se_join\<close> is \<^verbatim>\<open>net.JoinHostPort\<close>.
\<close>

record 'q svc_env =
  se_queue :: "((svc_obj option \<times> svc_obj option) \<times> bool, 'q) workqueue"
  se_svcKey :: "Service option \<Rightarrow> (goerr + string) option"
  se_ingKey :: "Ingress option \<Rightarrow> (goerr + string) option"
  se_svcEq :: "Service \<Rightarrow> Service \<Rightarrow> bool"
  se_ingEq :: "Ingress \<Rightarrow> Ingress \<Rightarrow> bool"
  se_join :: "string \<Rightarrow> string \<Rightarrow> string"
  se_synced :: bool
  se_ingSynced :: bool
  se_execEnabled :: bool
  se_parseDuration :: "string \<Rightarrow> goerr + duration"
  se_pretty :: "PerfData \<Rightarrow> goerr + string"
  se_now :: gotime

text \<open>The addresses of a checker for a pod on a host; \<open>None\<close> is the panic on a service without ports.\<close>

definition first_port :: "Service \<Rightarrow> (int \<times> int) option" where
  "first_port svc = (case sv_Ports svc of [] \<Rightarrow> None | p # _ \<Rightarrow> Some p)"

fun join_all :: "'q svc_env \<Rightarrow> Service \<Rightarrow> string list \<Rightarrow> string list option" where
  "join_all env svc [] = Some []"
| "join_all env svc (ip # ips) =
     (case first_port svc of
        None \<Rightarrow> None
      | Some (port, _) \<Rightarrow> map_option (\<lambda>as. se_join env ip (show_int port) # as) (join_all env svc ips))"

definition collectAddresses :: "'q svc_env \<Rightarrow> pingChecker \<Rightarrow> string \<Rightarrow> string list option" where
  "collectAddresses env p hostIP =
     (case pc_ingress p of
        Some ing \<Rightarrow> Some (in_Ingress ing)
      | None \<Rightarrow>
          (case pc_svc p of
             None \<Rightarrow> None
           | Some svc \<Rightarrow>
               if sv_Type svc = ServiceTypeClusterIP then join_all env svc (sv_ClusterIPs svc)
               else if sv_Type svc = ServiceTypeNodePort then
                 map_option (\<lambda>(_, nodePort). [se_join env hostIP (show_int nodePort)]) (first_port svc)
               else if sv_Type svc = ServiceTypeLoadBalancer then join_all env svc (sv_Ingress svc)
               else Some []))"

text \<open>
  What an iteration of the loop meets: a closed stop channel, no pod to ping from, or a pod on a host with
  the addresses that answer from it.
\<close>

datatype ping_event = PStop | PNoPod | PPod string "string \<Rightarrow> bool"

datatype ping_outcome = Pinging nat | StopSeen | Reached | Panicked

definition pingChecks :: nat where
  "pingChecks = 3"

fun ping_run :: "'q svc_env \<Rightarrow> pingChecker \<Rightarrow> nat \<Rightarrow> ping_event list \<Rightarrow> ping_outcome" where
  "ping_run env p success [] = Pinging success"
| "ping_run env p success (PStop # es) = StopSeen"
| "ping_run env p success (PNoPod # es) = ping_run env p 0 es"
| "ping_run env p success (PPod hostIP answers # es) =
     (case collectAddresses env p hostIP of
        None \<Rightarrow> Panicked
      | Some addresses \<Rightarrow>
          if \<not> list_all answers addresses then ping_run env p 0 es
          else if success + 1 = pingChecks then Reached
          else ping_run env p (success + 1) es)"

definition ping_key :: "'q svc_env \<Rightarrow> pingChecker \<Rightarrow> (goerr + string) option" where
  "ping_key env p = (case pc_svc p of Some svc \<Rightarrow> se_svcKey env (Some svc) | None \<Rightarrow> se_ingKey env (pc_ingress p))"

definition ping_type :: "pingChecker \<Rightarrow> string" where
  "ping_type p = (case pc_svc p of Some svc \<Rightarrow> sv_Type svc | None \<Rightarrow> ingressType)"

text \<open>Closing a closed channel panics: \<open>None\<close>.\<close>

definition ping_Stop :: "pingChecker \<Rightarrow> bool list option \<Rightarrow> bool list option" where
  "ping_Stop p h = Option.bind h (\<lambda>closed. if closed ! pc_stopCh p then None else Some (closed[pc_stopCh p := True]))"

section \<open>The measurement\<close>

text \<open>\<open>sc_closed\<close> tells for every channel of a checker whether it is closed.\<close>

record 'q serviceCreationLatencyMeasurement =
  sc_selector :: ObjectSelector
  sc_waitTimeout :: duration
  sc_checkIngress :: bool
  sc_isRunning :: bool
  sc_queue :: 'q
  sc_creationTimes :: ObjectTransitionTimes
  sc_pingCheckers :: "(string, pingChecker) gomap"
  sc_closed :: "bool list"

type_synonym 'q scl = "'q serviceCreationLatencyMeasurement"

definition serviceCreationLatencyName :: string where
  "serviceCreationLatencyName = ''ServiceCreationLatency''"

definition createServiceCreationLatencyMeasurement :: "'q svc_env \<Rightarrow> 'q scl" where
  "createServiceCreationLatencyMeasurement env =
     \<lparr>sc_selector = NewObjectSelector, sc_waitTimeout = 0, sc_checkIngress = False, sc_isRunning = False,
      sc_queue = wq_new (se_queue env), sc_creationTimes = NewObjectTransitionTimes serviceCreationLatencyName,
      sc_pingCheckers = NewMap, sc_closed = []\<rparr>"

definition on_pings ::
  "((string, pingChecker) gomap \<times> bool list option \<Rightarrow> (string, pingChecker) gomap \<times> bool list option) \<Rightarrow> 'q scl \<Rightarrow> 'q scl option" where
  "on_pings f s =
     (case f (sc_pingCheckers s, Some (sc_closed s)) of
        (cm, None) \<Rightarrow> None
      | (cm, Some cl) \<Rightarrow> Some (s\<lparr>sc_pingCheckers := cm, sc_closed := cl\<rparr>))"

definition set_phase :: "string \<Rightarrow> string \<Rightarrow> string \<Rightarrow> gotime \<Rightarrow> 'q scl \<Rightarrow> 'q scl" where
  "set_phase key phase typ t s = s\<lparr>sc_creationTimes := ot_Set (sc_creationTimes s) key (phaseName phase typ) t\<rparr>"

definition get_phase :: "string \<Rightarrow> string \<Rightarrow> string \<Rightarrow> 'q scl \<Rightarrow> gotime option" where
  "get_phase key phase typ s = ot_Get (sc_creationTimes s) key (phaseName phase typ)"

definition record_deletion :: "string \<Rightarrow> string \<Rightarrow> gotime option \<Rightarrow> gotime \<Rightarrow> 'q scl \<Rightarrow> 'q scl option" where
  "record_deletion key typ deletionTimestamp now s =
     (case deletionTimestamp of
        None \<Rightarrow> Some s
      | Some d \<Rightarrow>
          on_pings (\<lambda>c. snd (Map_DeleteAndStop ping_Stop key c)) (set_phase key deletedPhase typ now (set_phase key deletingPhase typ d s)))"

definition key_error :: "goerr \<Rightarrow> goerr" where
  "key_error err = Errorf (''meta key created error: '' @ err_msg err) []"

definition deleteObject :: "'q svc_env \<Rightarrow> gotime \<Rightarrow> Service option \<Rightarrow> 'q scl \<Rightarrow> (goerr option \<times> 'q scl) option" where
  "deleteObject env now svc s =
     (case (se_svcKey env svc, svc) of
        (None, _) \<Rightarrow> None
      | (Some (Inl err), _) \<Rightarrow> Some (Some (key_error err), s)
      | (Some (Inr key), None) \<Rightarrow> None
      | (Some (Inr key), Some svc) \<Rightarrow>
          map_option (Pair None) (record_deletion key (sv_Type svc) (sv_DeletionTimestamp svc) now s))"

definition deleteIngressObject :: "'q svc_env \<Rightarrow> gotime \<Rightarrow> Ingress option \<Rightarrow> 'q scl \<Rightarrow> (goerr option \<times> 'q scl) option" where
  "deleteIngressObject env now ing s =
     (case (se_ingKey env ing, ing) of
        (None, _) \<Rightarrow> None
      | (Some (Inl err), _) \<Rightarrow> Some (Some (key_error err), s)
      | (Some (Inr key), None) \<Rightarrow> None
      | (Some (Inr key), Some ing) \<Rightarrow>
          map_option (Pair None) (record_deletion key ingressType (in_DeletionTimestamp ing) now s))"

text \<open>
  An update up to the call of \<^verbatim>\<open>pc.run()\<close>: the result is what it returns, or the key and the checker it goes on with.
\<close>

definition new_checker :: "Service option \<Rightarrow> Ingress option \<Rightarrow> 'q scl \<Rightarrow> pingChecker \<times> 'q scl" where
  "new_checker svc ing s =
     (\<lparr>pc_svc = svc, pc_ingress = ing, pc_stopCh = length (sc_closed s)\<rparr>, s\<lparr>sc_closed := sc_closed s @ [False]\<rparr>)"

definition created_once :: "string \<Rightarrow> string \<Rightarrow> gotime \<Rightarrow> 'q scl \<Rightarrow> 'q scl" where
  "created_once key typ t s = (case get_phase key creatingPhase typ s of None \<Rightarrow> set_phase key creatingPhase typ t s | Some _ \<Rightarrow> s)"

definition updateObject_begin ::
  "'q svc_env \<Rightarrow> gotime \<Rightarrow> Service option \<Rightarrow> 'q scl \<Rightarrow> ((goerr option + string \<times> pingChecker) \<times> 'q scl) option" where
  "updateObject_begin env now svcp s =
     (case svcp of
        None \<Rightarrow> None
      | Some svc \<Rightarrow>
          if sv_Type svc \<noteq> ServiceTypeClusterIP \<and> sv_Type svc \<noteq> ServiceTypeNodePort \<and> sv_Type svc \<noteq> ServiceTypeLoadBalancer
          then Some (Inl None, s)
          else
            (case se_svcKey env svcp of
               None \<Rightarrow> None
             | Some (Inl err) \<Rightarrow> Some (Inl (Some (key_error err)), s)
             | Some (Inr key) \<Rightarrow>
                 let s = created_once key (sv_Type svc) (sv_CreationTimestamp svc) s
                 in if sv_Type svc = ServiceTypeLoadBalancer \<and> length (sv_Ingress svc) < 1 then Some (Inl None, s)
                    else if sv_Type svc = ServiceTypeLoadBalancer \<and> get_phase key ipAssigningPhase (sv_Type svc) s \<noteq> None
                    then Some (Inl None, s)
                    else
                      let s = (if sv_Type svc = ServiceTypeLoadBalancer
                               then set_phase key ipAssigningPhase (sv_Type svc) now s else s);
                          (pc, s) = new_checker svcp None s
                      in Some (Inr (key, pc), s)))"

definition updateIngressObject_begin ::
  "'q svc_env \<Rightarrow> gotime \<Rightarrow> Ingress option \<Rightarrow> 'q scl \<Rightarrow> ((goerr option + string \<times> pingChecker) \<times> 'q scl) option" where
  "updateIngressObject_begin env now ingp s =
     (case (se_ingKey env ingp, ingp) of
        (None, _) \<Rightarrow> None
      | (Some (Inl err), _) \<Rightarrow> Some (Inl (Some (key_error err)), s)
      | (Some (Inr key), None) \<Rightarrow> None
      | (Some (Inr key), Some ing) \<Rightarrow>
          let s = created_once key ingressType (in_CreationTimestamp ing) s
          in if length (in_Ingress ing) < 1 then Some (Inl None, s)
             else if get_phase key ipAssigningPhase ingressType s \<noteq> None then Some (Inl None, s)
             else
               let s = set_phase key ipAssigningPhase ingressType now s;
                   (pc, s) = new_checker None ingp s
               in Some (Inr (key, pc), s))"

text \<open>The end of an update: what the run of the checker leaves, and its entry in the map.\<close>

definition ping_done :: "'q svc_env \<Rightarrow> gotime \<Rightarrow> pingChecker \<Rightarrow> ping_outcome \<Rightarrow> 'q scl \<Rightarrow> 'q scl" where
  "ping_done env now p outcome s =
     (case ping_key env p of
        Some (Inr key) \<Rightarrow> if outcome = Reached then set_phase key reachabilityPhase (ping_type p) now s else s
      | _ \<Rightarrow> s)"

definition update_end :: "'q svc_env \<Rightarrow> gotime \<Rightarrow> string \<times> pingChecker \<Rightarrow> ping_outcome \<Rightarrow> 'q scl \<Rightarrow> 'q scl option" where
  "update_end env now = (\<lambda>(key, pc) outcome s. on_pings (Map_Add ping_Stop key pc) (ping_done env now pc outcome s))"

text \<open>The handlers up to the run of a checker; \<open>None\<close> in the result: the handler is done.\<close>

definition handler_result ::
  "((goerr option + string \<times> pingChecker) \<times> 'q scl) option \<Rightarrow> ((string \<times> pingChecker) option \<times> 'q scl) option" where
  "handler_result r = map_option (\<lambda>(a, s). (case a of Inl _ \<Rightarrow> None | Inr t \<Rightarrow> Some t, s)) r"

definition sc_handleObject ::
  "'q svc_env \<Rightarrow> gotime \<Rightarrow> svc_obj option \<Rightarrow> svc_obj option \<Rightarrow> 'q scl \<Rightarrow> ((string \<times> pingChecker) option \<times> 'q scl) option" where
  "sc_handleObject env now oldObj newObj s =
     (let oldService = as_service oldObj; newService = as_service newObj
      in if oldObj \<noteq> None \<and> oldService = None then Some (None, s)
         else if newObj \<noteq> None \<and> newService = None then Some (None, s)
         else if (case (oldService, newService) of (Some a, Some b) \<Rightarrow> se_svcEq env a b | _ \<Rightarrow> False) then Some (None, s)
         else if \<not> sc_isRunning s then Some (None, s)
         else if newObj = None then map_option (\<lambda>(_, s). (None, s)) (deleteObject env now oldService s)
         else handler_result (updateObject_begin env now newService s))"

text \<open>The check of the new ingress tests the result of the cast for nil, so it never refuses.\<close>

definition handleIngressObject ::
  "'q svc_env \<Rightarrow> gotime \<Rightarrow> svc_obj option \<Rightarrow> svc_obj option \<Rightarrow> 'q scl \<Rightarrow> ((string \<times> pingChecker) option \<times> 'q scl) option" where
  "handleIngressObject env now oldObj newObj s =
     (let oldIngress = as_ingress oldObj; newIngress = as_ingress newObj
      in if oldObj \<noteq> None \<and> oldIngress = None then Some (None, s)
         else if (case (oldIngress, newIngress) of (Some a, Some b) \<Rightarrow> se_ingEq env a b | _ \<Rightarrow> False) then Some (None, s)
         else if \<not> sc_isRunning s then Some (None, s)
         else if newObj = None then map_option (\<lambda>(_, s). (None, s)) (deleteIngressObject env now oldIngress s)
         else handler_result (updateIngressObject_begin env now newIngress s))"

section \<open>Actions\<close>

text \<open>An informer's handler queues its event; the flag tells the events of ingresses.\<close>

definition sc_enqueue :: "'q svc_env \<Rightarrow> bool \<Rightarrow> svc_obj option \<Rightarrow> svc_obj option \<Rightarrow> 'q scl \<Rightarrow> 'q scl" where
  "sc_enqueue env ingress oldObj newObj s =
     s\<lparr>sc_queue := WorkerQueue_Add (se_queue env) ((oldObj, newObj), ingress) (sc_queue s)\<rparr>"

definition sc_start :: "'q svc_env \<Rightarrow> 'q scl \<Rightarrow> goerr option \<times> 'q scl" where
  "sc_start env s =
     (if sc_isRunning s then (None, s)
      else
        let s = s\<lparr>sc_isRunning := True\<rparr>
        in (case StartAndSync (se_synced env) of
              Some err \<Rightarrow> (Some err, s)
            | None \<Rightarrow> (if sc_checkIngress s then StartAndSync (se_ingSynced env) else None, s)))"

definition serviceTypes :: "string list" where
  "serviceTypes = [ServiceTypeClusterIP, ServiceTypeNodePort, ServiceTypeLoadBalancer, ingressType]"

text \<open>
  The condition of a wait reads two counts per type, first of the phase waited for and then of the created
  ones; the table changes in between.  \<open>reads\<close> are the tables that the two counts of a type see; the
  condition returns at the first difference.
\<close>

fun phase_counts_equal :: "string \<Rightarrow> string list \<Rightarrow> (ObjectTransitionTimes \<times> ObjectTransitionTimes) list \<Rightarrow> bool" where
  "phase_counts_equal phase (t # ts) ((r1, r2) # reads) =
     (if ot_Count r2 (phaseName creatingPhase t) \<noteq> ot_Count r1 (phaseName phase t) then False
      else phase_counts_equal phase ts reads)"
| "phase_counts_equal phase _ _ = True"

definition wait_timeout :: goerr where
  "wait_timeout = Errorf ''timed out waiting for the condition'' []"

definition wait_Poll :: "('s \<Rightarrow> bool) \<Rightarrow> 's list \<Rightarrow> goerr option" where
  "wait_Poll condition ss = (if list_ex condition ss then None else Some wait_timeout)"

definition waitForReady :: "(ObjectTransitionTimes \<times> ObjectTransitionTimes) list list \<Rightarrow> goerr option" where
  "waitForReady polls = wait_Poll (phase_counts_equal reachabilityPhase serviceTypes) polls"

definition waitForDeletion :: "(ObjectTransitionTimes \<times> ObjectTransitionTimes) list list \<Rightarrow> goerr option" where
  "waitForDeletion polls = wait_Poll (phase_counts_equal deletedPhase serviceTypes) polls"

definition transition :: "string \<Rightarrow> string \<Rightarrow> string \<Rightarrow> Transition" where
  "transition f t typ = \<lparr>tr_From = phaseName f typ, tr_To = phaseName t typ, tr_Threshold = 0\<rparr>"

definition serviceCreationTransitions :: "(string, Transition) gomap" where
  "serviceCreationTransitions =
     [(''create_to_available_clusterip'', transition creatingPhase reachabilityPhase ServiceTypeClusterIP),
      (''create_to_available_nodeport'', transition creatingPhase reachabilityPhase ServiceTypeNodePort),
      (''create_to_assigned_loadbalancer'', transition creatingPhase ipAssigningPhase ServiceTypeLoadBalancer),
      (''assigned_to_available_loadbalancer'', transition ipAssigningPhase reachabilityPhase ServiceTypeLoadBalancer),
      (''create_to_available_loadbalancer'', transition creatingPhase reachabilityPhase ServiceTypeLoadBalancer),
      (''delete_loadbalancer'', transition deletingPhase deletedPhase ServiceTypeLoadBalancer),
      (''create_to_assigned_ingress'', transition creatingPhase ipAssigningPhase ingressType),
      (''assigned_to_available_ingress'', transition ipAssigningPhase reachabilityPhase ingressType),
      (''create_to_available_ingress'', transition creatingPhase reachabilityPhase ingressType),
      (''delete_ingress'', transition deletingPhase deletedPhase ingressType)]"

definition sc_String :: "'q scl \<Rightarrow> string" where
  "sc_String s = serviceCreationLatencyName @ '': '' @ ObjectSelector_String (sc_selector s)"

definition sc_gather :: "'q svc_env \<Rightarrow> string \<Rightarrow> 'q scl \<Rightarrow> (genericSummary list \<times> goerr option) option" where
  "sc_gather env identifier s =
     (if \<not> sc_isRunning s then Some ([], Some (Errorf (''metric '' @ sc_String s @ '' has not been started'') []))
      else
        (case CalculateTransitionsLatency (sc_creationTimes s) serviceCreationTransitions MatchAll of
           None \<Rightarrow> None
         | Some latency \<Rightarrow>
             (case se_pretty env (LatencyMapToPerfData latency) of
                Inl err \<Rightarrow> Some ([], Some err)
              | Inr content \<Rightarrow>
                  Some ([CreateSummary (se_now env) (serviceCreationLatencyName @ ''_'' @ identifier) ''json'' content], None))))"

definition defaultServiceCreationLatencyTimeout :: duration where
  "defaultServiceCreationLatencyTimeout = 10 * Minute_ns"

definition sc_start_params :: "'q svc_env \<Rightarrow> params \<Rightarrow> 'q scl \<Rightarrow> goerr option \<times> 'q scl" where
  "sc_start_params env ps s =
     (case ObjectSelector_Parse ps (sc_selector s) of
        (Some err, sel) \<Rightarrow> (Some err, s\<lparr>sc_selector := sel\<rparr>)
      | (None, sel) \<Rightarrow>
     (let s = s\<lparr>sc_selector := sel\<rparr> in
      case GetDurationOrDefault (se_parseDuration env) ps ''waitTimeout'' defaultServiceCreationLatencyTimeout of
        Inl err \<Rightarrow> (Some err, s\<lparr>sc_waitTimeout := 0\<rparr>)
      | Inr d \<Rightarrow>
     (let s = s\<lparr>sc_waitTimeout := d\<rparr> in
      case GetBoolOrDefault ps ''checkIngress'' False of
        Inl err \<Rightarrow> (Some err, s\<lparr>sc_checkIngress := False\<rparr>)
      | Inr b \<Rightarrow> (None, s\<lparr>sc_checkIngress := b\<rparr>))))"

text \<open>\<open>polls\<close> are the reads of the polls that a wait makes until its timeout.\<close>

definition sc_Execute ::
  "'q svc_env \<Rightarrow> (duration \<Rightarrow> (ObjectTransitionTimes \<times> ObjectTransitionTimes) list list) \<Rightarrow> MeasurementConfig \<Rightarrow> 'q scl \<Rightarrow>
   ((genericSummary list \<times> goerr option) \<times> 'q scl) option" where
  "sc_Execute env polls config s =
     (case getString (mc_Params config) ''action'' of
        Inl err \<Rightarrow> Some (([], Some err), s)
      | Inr action \<Rightarrow>
          if \<not> se_execEnabled env then Some (([], Some (Errorf ''enable-exec-service flag not enabled'' [])), s)
          else if action = ''start'' then
            (case sc_start_params env (mc_Params config) s of
               (Some err, s) \<Rightarrow> Some (([], Some err), s)
             | (None, s) \<Rightarrow> let (err, s) = sc_start env s in Some (([], err), s))
          else if action = ''waitForReady'' then Some (([], waitForReady (polls (sc_waitTimeout s))), s)
          else if action = ''waitForDeletion'' then Some (([], waitForDeletion (polls (sc_waitTimeout s))), s)
          else if action = ''gather'' then map_option (\<lambda>r. (r, s)) (sc_gather env (mc_Identifier config) s)
          else Some (([], Some (Errorf (''unknown action '' @ action) [])), s))"

text \<open>
  Disposing stops the queue, which waits for its workers (\<open>drain\<close>), and then the checkers.
\<close>

definition sc_Dispose :: "'q svc_env \<Rightarrow> ('q scl \<Rightarrow> 'q scl) \<Rightarrow> 'q scl \<Rightarrow> 'q scl option" where
  "sc_Dispose env drain s =
     (let s = s\<lparr>sc_isRunning := False\<rparr>;
          s = drain (s\<lparr>sc_queue := WorkerQueue_Stop (se_queue env) (sc_queue s)\<rparr>)
      in on_pings (Map_Dispose ping_Stop) s)"

section \<open>Steps of the workers\<close>

text \<open>
  The state of the system: the measurement and the checkers that workers run, each with its key and its
  successes in a row.  A worker handles an event, pings once, or ends its run; the measurement is
  started and disposed, and the checkers are stopped when no worker is left.
\<close>

type_synonym 'q sc_sys = "'q scl \<times> (string \<times> pingChecker \<times> nat) list"

inductive sc_step :: "'q svc_env \<Rightarrow> 'q sc_sys \<Rightarrow> 'q sc_sys \<Rightarrow> bool" for env where
  handled: "h \<in> {sc_handleObject, handleIngressObject} \<Longrightarrow> h env now old new s = Some (None, s') \<Longrightarrow> sc_step env (s, ts) (s', ts)"
| began: "h \<in> {sc_handleObject, handleIngressObject} \<Longrightarrow> h env now old new s = Some (Some (key, pc), s') \<Longrightarrow>
    sc_step env (s, ts) (s', (key, pc, 0) # ts)"
| pinged: "\<not> sc_closed s ! pc_stopCh pc \<Longrightarrow> e \<noteq> PStop \<Longrightarrow> ping_run env pc n [e] = Pinging n' \<Longrightarrow>
    sc_step env (s, us @ (key, pc, n) # vs) (s, us @ (key, pc, n') # vs)"
| reached: "\<not> sc_closed s ! pc_stopCh pc \<Longrightarrow> e \<noteq> PStop \<Longrightarrow> ping_run env pc n [e] = Reached \<Longrightarrow>
    update_end env now (key, pc) Reached s = Some s' \<Longrightarrow> sc_step env (s, us @ (key, pc, n) # vs) (s', us @ vs)"
| stopped: "sc_closed s ! pc_stopCh pc \<Longrightarrow> update_end env now (key, pc) StopSeen s = Some s' \<Longrightarrow>
    sc_step env (s, us @ (key, pc, n) # vs) (s', us @ vs)"
| started: "sc_start env s = (err, s') \<Longrightarrow> sc_step env (s, ts) (s', ts)"
| disposing: "sc_step env (s, ts) (s\<lparr>sc_isRunning := False\<rparr>, ts)"
| disposed: "\<not> sc_isRunning s \<Longrightarrow> on_pings (Map_Dispose ping_Stop) s = Some s' \<Longrightarrow> sc_step env (s, []) (s', [])"

abbreviation sc_steps :: "'q svc_env \<Rightarrow> 'q sc_sys \<Rightarrow> 'q sc_sys \<Rightarrow> bool" where
  "sc_steps env \<equiv> (sc_step env)\<^sup>*\<^sup>*"

section \<open>The table of phases\<close>

lemma phaseName_eq [simp]:
  "phaseName creatingPhase t = phaseName creatingPhase t' \<longleftrightarrow> t = t'"
  "phaseName reachabilityPhase t = phaseName reachabilityPhase t' \<longleftrightarrow> t = t'"
  "phaseName creatingPhase t \<noteq> phaseName reachabilityPhase t'" "phaseName reachabilityPhase t \<noteq> phaseName creatingPhase t'"
  "phaseName reachabilityPhase t \<noteq> phaseName ipAssigningPhase t'" "phaseName reachabilityPhase t \<noteq> phaseName deletingPhase t'"
  "phaseName reachabilityPhase t \<noteq> phaseName deletedPhase t'"
  by (simp_all add: phaseName_def)

lemma get_set_phase [simp]:
  "get_phase key' p' t' (set_phase key p t tm s) =
     (if key' = key \<and> phaseName p' t' = phaseName p t then Some tm else get_phase key' p' t' s)"
  by (simp add: get_phase_def set_phase_def)

lemma set_phase_other [simp]:
  "sc_pingCheckers (set_phase key p t tm s) = sc_pingCheckers s" "sc_closed (set_phase key p t tm s) = sc_closed s"
  "sc_isRunning (set_phase key p t tm s) = sc_isRunning s"
  by (simp_all add: set_phase_def)

lemma created_once_other [simp]:
  "sc_pingCheckers (created_once key t tm s) = sc_pingCheckers s" "sc_closed (created_once key t tm s) = sc_closed s"
  by (simp_all add: created_once_def split: option.splits)

text \<open>What a step may do to the table: it keeps what is recorded, and stays well-formed.\<close>

definition grows :: "'q scl \<Rightarrow> 'q scl \<Rightarrow> bool" where
  "grows s s' \<longleftrightarrow> (\<forall>k p. ot_Get (sc_creationTimes s) k p \<noteq> None \<longrightarrow> ot_Get (sc_creationTimes s') k p \<noteq> None) \<and>
     (ot_ok (sc_creationTimes s) \<longrightarrow> ot_ok (sc_creationTimes s'))"

definition same_reached :: "'q scl \<Rightarrow> 'q scl \<Rightarrow> bool" where
  "same_reached s s' \<longleftrightarrow> (\<forall>k t. get_phase k reachabilityPhase t s' = get_phase k reachabilityPhase t s)"

lemma grows_refl [simp, intro]: "grows s s" and grows_trans: "grows s s' \<Longrightarrow> grows s' s'' \<Longrightarrow> grows s s''"
  by (auto simp: grows_def)

lemma grows_set_phase [simp, intro]: "grows s (set_phase key p t tm s)"
  by (simp add: grows_def set_phase_def)

lemma grows_times: "sc_creationTimes s' = sc_creationTimes s \<Longrightarrow> grows s s'"
  by (simp add: grows_def)

lemma grows_created_once [simp, intro]: "grows s (created_once key t tm s)"
  by (simp add: created_once_def split: option.splits)

lemma created_once_phases [simp]:
  "get_phase key creatingPhase t (created_once key t tm s) \<noteq> None"
  "get_phase k reachabilityPhase t' (created_once key t tm s) = get_phase k reachabilityPhase t' s"
  by (auto simp: created_once_def split: option.splits)

lemma grows_phase: "grows s s' \<Longrightarrow> get_phase k p t s \<noteq> None \<Longrightarrow> get_phase k p t s' \<noteq> None"
  unfolding grows_def get_phase_def by blast

lemma on_pings_times: "on_pings f s = Some s' \<Longrightarrow> sc_creationTimes s' = sc_creationTimes s"
  by (auto simp: on_pings_def split: prod.splits option.splits)

lemma get_phase_times: "sc_creationTimes s' = sc_creationTimes s \<Longrightarrow> get_phase k p t s' = get_phase k p t s"
  by (simp add: get_phase_def)

text \<open>What the handlers do, in one place.\<close>

definition begun :: "'q svc_env \<Rightarrow> 'q scl \<Rightarrow> (string \<times> pingChecker) option \<Rightarrow> 'q scl \<Rightarrow> bool" where
  "begun env s r s' \<longleftrightarrow> grows s s' \<and> same_reached s s' \<and>
     (case r of
        None \<Rightarrow> (sc_pingCheckers s' = sc_pingCheckers s \<and> sc_closed s' = sc_closed s) \<or>
          (\<exists>key. snd (Map_DeleteAndStop ping_Stop key (sc_pingCheckers s, Some (sc_closed s))) = (sc_pingCheckers s', Some (sc_closed s')))
      | Some (key, pc) \<Rightarrow> sc_pingCheckers s' = sc_pingCheckers s \<and> sc_closed s' = sc_closed s @ [False] \<and>
          pc_stopCh pc = length (sc_closed s) \<and> ping_key env pc = Some (Inr key) \<and> get_phase key creatingPhase (ping_type pc) s' \<noteq> None)"

lemma begun_refl [simp, intro]: "begun env s None s"
  by (simp add: begun_def same_reached_def)

lemma record_deletion_begun: "record_deletion key t d now s = Some s' \<Longrightarrow> begun env s None s'"
proof (cases d)
  case (Some tm)
  assume r: "record_deletion key t d now s = Some s'"
  let ?s = "set_phase key deletedPhase t now (set_phase key deletingPhase t tm s)"
  have p: "on_pings (\<lambda>c. snd (Map_DeleteAndStop ping_Stop key c)) ?s = Some s'"
    using r Some by (simp add: record_deletion_def)
  have "grows s ?s" by (rule grows_trans[OF grows_set_phase grows_set_phase])
  then have "grows s s'" using grows_trans grows_times[OF on_pings_times[OF p]] by blast
  moreover have "same_reached s s'" by (simp add: same_reached_def get_phase_times[OF on_pings_times[OF p]])
  moreover have "snd (Map_DeleteAndStop ping_Stop key (sc_pingCheckers s, Some (sc_closed s))) = (sc_pingCheckers s', Some (sc_closed s'))"
    using p by (auto simp: on_pings_def split: prod.splits option.splits)
  ultimately show ?thesis unfolding begun_def by auto
qed (simp add: record_deletion_def)

lemma created_begun: "begun env s None (created_once key t tm s)"
  by (simp add: begun_def same_reached_def)

lemma new_checker_begun:
  assumes "new_checker svc ing s1 = (pc, s')" and "grows s s1" and "same_reached s s1"
    and "sc_pingCheckers s1 = sc_pingCheckers s" "sc_closed s1 = sc_closed s"
    and "ping_key env pc = Some (Inr key)" and "get_phase key creatingPhase (ping_type pc) s1 \<noteq> None"
  shows "begun env s (Some (key, pc)) s'"
proof -
  have s': "s' = s1\<lparr>sc_closed := sc_closed s1 @ [False]\<rparr>" and pc: "pc_stopCh pc = length (sc_closed s)"
    using assms(1,5) by (auto simp: new_checker_def)
  have t: "sc_creationTimes s' = sc_creationTimes s1" by (simp add: s')
  have "grows s s'" using grows_trans[OF assms(2) grows_times[OF t]] .
  then show ?thesis
    using assms(3-7) pc by (simp add: begun_def same_reached_def get_phase_times[OF t]) (simp add: s')
qed

lemma assigned_checker_begun:
  assumes "new_checker svc ing (set_phase key ipAssigningPhase t now (created_once key t tm s)) = (pc, s')"
    and "ping_key env pc = Some (Inr key)" and "ping_type pc = t"
  shows "begun env s (Some (key, pc)) s'"
proof (rule new_checker_begun[OF assms(1) _ _ _ _ assms(2)])
  show "grows s (set_phase key ipAssigningPhase t now (created_once key t tm s))"
    using grows_trans[OF grows_created_once grows_set_phase] .
  show "get_phase key creatingPhase (ping_type pc) (set_phase key ipAssigningPhase t now (created_once key t tm s)) \<noteq> None"
    unfolding assms(3) by (rule grows_phase[OF grows_set_phase created_once_phases(1)])
qed (simp_all add: same_reached_def)

lemma updateObject_begun:
  assumes "handler_result (updateObject_begin env now svcp s) = Some (r, s')"
  shows "begun env s r s'"
proof -
  obtain svc where svc: "svcp = Some svc" using assms by (cases svcp) (simp_all add: updateObject_begin_def handler_result_def)
  let ?t = "sv_Type svc"
  show ?thesis
  proof (cases "?t \<noteq> ServiceTypeClusterIP \<and> ?t \<noteq> ServiceTypeNodePort \<and> ?t \<noteq> ServiceTypeLoadBalancer \<or> (\<exists>err. se_svcKey env svcp = Some (Inl err))")
    case True
    then show ?thesis using assms svc by (auto simp: updateObject_begin_def handler_result_def split: if_splits)
  next
    case False
    then have "se_svcKey env svcp \<noteq> None"
      using assms svc by (intro notI) (auto simp: updateObject_begin_def handler_result_def)
    then obtain key where key: "se_svcKey env svcp = Some (Inr key)" using False by (metis not_None_eq sum.exhaust)
    let ?s1 = "created_once key ?t (sv_CreationTimestamp svc) s"
    let ?skip = "?t = ServiceTypeLoadBalancer \<and> (length (sv_Ingress svc) < 1 \<or> get_phase key ipAssigningPhase ?t ?s1 \<noteq> None)"
    let ?s2 = "if ?t = ServiceTypeLoadBalancer then set_phase key ipAssigningPhase ?t now ?s1 else ?s1"
    obtain pc s3 where nc: "new_checker svcp None ?s2 = (pc, s3)" by fastforce
    have pc: "ping_key env pc = Some (Inr key)" "ping_type pc = ?t"
      using nc key svc by (auto simp: new_checker_def ping_key_def ping_type_def)
    have res: "(r, s') = (if ?skip then (None, ?s1) else (Some (key, pc), s3))"
      using assms False key nc svc
      by (auto simp: updateObject_begin_def handler_result_def Let_def split: if_splits)
    show ?thesis
    proof (cases ?skip)
      case True
      then have "r = None" "s' = ?s1" using res[unfolded if_P[OF True]] by simp_all
      then show ?thesis using created_begun by blast
    next
      case False
      then have rs: "r = Some (key, pc)" "s' = s3" using res[unfolded if_not_P[OF False]] by simp_all
      show ?thesis
      proof (cases "?t = ServiceTypeLoadBalancer")
        case True
        then have "new_checker svcp None (set_phase key ipAssigningPhase ?t now ?s1) = (pc, s3)" using nc by simp
        from assigned_checker_begun[OF this pc] show ?thesis using rs by simp
      next
        case False
        then have "new_checker svcp None ?s1 = (pc, s3)" using nc by simp
        from new_checker_begun[OF this, of s env key] show ?thesis
          using pc rs by (simp add: same_reached_def)
      qed
    qed
  qed
qed

lemma updateIngressObject_begun:
  assumes "handler_result (updateIngressObject_begin env now ingp s) = Some (r, s')"
  shows "begun env s r s'"
proof (cases "\<exists>err. se_ingKey env ingp = Some (Inl err)")
  case True
  then show ?thesis using assms by (auto simp: updateIngressObject_begin_def handler_result_def)
next
  case False
  moreover have "se_ingKey env ingp \<noteq> None"
    using assms by (intro notI) (auto simp: updateIngressObject_begin_def handler_result_def)
  ultimately obtain key where key: "se_ingKey env ingp = Some (Inr key)" by (metis not_None_eq sum.exhaust)
  then obtain ing where ing: "ingp = Some ing"
    using assms by (cases ingp) (auto simp: updateIngressObject_begin_def handler_result_def)
  let ?s1 = "created_once key ingressType (in_CreationTimestamp ing) s"
  let ?skip = "length (in_Ingress ing) < 1 \<or> get_phase key ipAssigningPhase ingressType ?s1 \<noteq> None"
  obtain pc s3 where nc: "new_checker None ingp (set_phase key ipAssigningPhase ingressType now ?s1) = (pc, s3)" by fastforce
  have pc: "ping_key env pc = Some (Inr key)" "ping_type pc = ingressType"
    using nc key ing by (auto simp: new_checker_def ping_key_def ping_type_def)
  have res: "(r, s') = (if ?skip then (None, ?s1) else (Some (key, pc), s3))"
    using assms key nc ing by (auto simp: updateIngressObject_begin_def handler_result_def Let_def split: if_splits)
  show ?thesis
  proof (cases ?skip)
    case True
    then have "r = None" "s' = ?s1" using res[unfolded if_P[OF True]] by simp_all
    then show ?thesis using created_begun by blast
  next
    case False
    then have rs: "r = Some (key, pc)" "s' = s3" using res[unfolded if_not_P[OF False]] by simp_all
    show ?thesis using assigned_checker_begun[OF nc pc] rs by simp
  qed
qed

lemma handlers_begun:
  assumes "h \<in> {sc_handleObject, handleIngressObject}" and "h env now old new s = Some (r, s')"
  shows "begun env s r s'"
proof -
  have d: "begun env s None s''" if "deleteObject env now svc s = Some (e, s'')" for svc e s''
    using that record_deletion_begun[of _ _ _ now s s''] by (auto simp: deleteObject_def split: option.splits sum.splits)
  have i: "begun env s None s''" if "deleteIngressObject env now svc s = Some (e, s'')" for svc e s''
    using that record_deletion_begun[of _ _ _ now s s''] by (auto simp: deleteIngressObject_def split: option.splits sum.splits)
  from assms(1) consider "h = sc_handleObject" | "h = handleIngressObject" by blast
  then show ?thesis
  proof cases
    case 1
    then show ?thesis using assms(2) d updateObject_begun by (auto simp: sc_handleObject_def Let_def split: if_splits)
  next
    case 2
    then show ?thesis using assms(2) i updateIngressObject_begun by (auto simp: handleIngressObject_def Let_def split: if_splits)
  qed
qed

section \<open>Invariants\<close>

text \<open>A service is recorded as reachable, or is pinged, only after its creation was recorded.\<close>

definition has_phase :: "string \<Rightarrow> string \<Rightarrow> string \<Rightarrow> 'q scl \<Rightarrow> bool" where
  "has_phase k p t s \<longleftrightarrow> get_phase k p t s \<noteq> None"

definition task_ok :: "'q svc_env \<Rightarrow> 'q scl \<Rightarrow> string \<times> pingChecker \<times> nat \<Rightarrow> bool" where
  "task_ok env s = (\<lambda>(key, pc, n). ping_key env pc = Some (Inr key) \<and> has_phase key creatingPhase (ping_type pc) s)"

definition phases_inv :: "'q svc_env \<Rightarrow> 'q sc_sys \<Rightarrow> bool" where
  "phases_inv env = (\<lambda>(s, ts). ot_ok (sc_creationTimes s) \<and>
     (\<forall>k t. has_phase k reachabilityPhase t s \<longrightarrow> has_phase k creatingPhase t s) \<and> (\<forall>t \<in> set ts. task_ok env s t))"

text \<open>The channel of a running checker is open, and no checker of the map shares it.\<close>

definition task_channels :: "(string \<times> pingChecker \<times> nat) list \<Rightarrow> nat list" where
  "task_channels ts = map (\<lambda>(_, pc, _). pc_stopCh pc) ts"

definition checker_channels :: "(string, pingChecker) gomap \<Rightarrow> nat set" where
  "checker_channels cm = pc_stopCh ` snd ` set cm"

definition channels_inv :: "'q sc_sys \<Rightarrow> bool" where
  "channels_inv = (\<lambda>(s, ts). distinct (task_channels ts) \<and>
     (\<forall>c \<in> set (task_channels ts). c < length (sc_closed s) \<and> \<not> sc_closed s ! c) \<and>
     (\<forall>c \<in> checker_channels (sc_pingCheckers s). c < length (sc_closed s) \<and> c \<notin> set (task_channels ts)))"

lemma has_phase_grows: "grows s s' \<Longrightarrow> has_phase k p t s \<Longrightarrow> has_phase k p t s'"
  unfolding has_phase_def by (rule grows_phase)

lemma task_ok_grows: "grows s s' \<Longrightarrow> task_ok env s t \<Longrightarrow> task_ok env s' t"
  by (auto simp: task_ok_def has_phase_grows)

lemma phases_inv_grows:
  assumes "phases_inv env (s, ts)" and "grows s s'"
    and "\<And>k t. has_phase k reachabilityPhase t s' \<Longrightarrow> has_phase k reachabilityPhase t s \<or> has_phase k creatingPhase t s"
  shows "phases_inv env (s', ts)"
proof -
  have "ot_ok (sc_creationTimes s')" using assms(1,2) by (simp add: phases_inv_def grows_def)
  moreover have "has_phase k creatingPhase t s'" if "has_phase k reachabilityPhase t s'" for k t
    using assms(1) assms(3)[OF that] has_phase_grows[OF assms(2)] by (auto simp: phases_inv_def)
  ultimately show ?thesis using assms(1) task_ok_grows[OF assms(2)] by (simp add: phases_inv_def)
qed

lemma same_reached_phase: "same_reached s s' \<Longrightarrow> has_phase k reachabilityPhase t s' \<Longrightarrow> has_phase k reachabilityPhase t s"
  by (simp add: same_reached_def has_phase_def)

lemma phases_inv_times:
  assumes "phases_inv env (s, ts)" and "sc_creationTimes s' = sc_creationTimes s"
  shows "phases_inv env (s', ts)"
  using assms(1) grows_times[OF assms(2)]
  by (rule phases_inv_grows) (simp add: has_phase_def get_phase_times[OF assms(2)])

lemma phases_inv_tasks:
  "phases_inv env (s, us @ t # vs) \<Longrightarrow> phases_inv env (s, us @ vs)"
  "phases_inv env (s, us @ (key, pc, n) # vs) \<Longrightarrow> phases_inv env (s, us @ (key, pc, m) # vs)"
  by (auto simp: phases_inv_def task_ok_def)

lemma ping_done_times:
  assumes "phases_inv env (s, us @ (key, pc, n) # vs)"
  shows "phases_inv env (ping_done env now pc outcome s, us @ vs)" and "grows s (ping_done env now pc outcome s)"
proof -
  have k: "ping_key env pc = Some (Inr key)" "has_phase key creatingPhase (ping_type pc) s"
    using assms by (auto simp: phases_inv_def task_ok_def)
  show g: "grows s (ping_done env now pc outcome s)" by (simp add: ping_done_def k)
  show "phases_inv env (ping_done env now pc outcome s, us @ vs)"
  proof (rule phases_inv_grows[OF phases_inv_tasks(1)[OF assms] g])
    fix k' t
    assume "has_phase k' reachabilityPhase t (ping_done env now pc outcome s)"
    then show "has_phase k' reachabilityPhase t s \<or> has_phase k' creatingPhase t s"
      using k by (auto simp: ping_done_def has_phase_def split: if_splits)
  qed
qed

lemma update_end_times:
  assumes "phases_inv env (s, us @ (key, pc, n) # vs)" and "update_end env now (key, pc) outcome s = Some s'"
  shows "phases_inv env (s', us @ vs)" and "grows s s'"
proof -
  have t: "sc_creationTimes s' = sc_creationTimes (ping_done env now pc outcome s)"
    using assms(2) by (auto simp: update_end_def dest: on_pings_times)
  show "phases_inv env (s', us @ vs)" by (rule phases_inv_times[OF ping_done_times(1)[OF assms(1)] t])
  show "grows s s'" by (rule grows_trans[OF ping_done_times(2)[OF assms(1)] grows_times[OF t]])
qed

lemma sc_start_times: "sc_start env s = (err, s') \<Longrightarrow> sc_creationTimes s' = sc_creationTimes s"
  by (auto simp: sc_start_def Let_def split: if_splits option.splits)

lemma phases_step:
  assumes "sc_step env (s, ts) (s', ts')" and inv: "phases_inv env (s, ts)"
  shows "phases_inv env (s', ts') \<and> grows s s'"
  using assms(1)
proof cases
  case (handled h now old new)
  note b = handlers_begun[OF handled(2,3)]
  have "phases_inv env (s', ts)"
    by (rule phases_inv_grows[OF inv]) (use b in \<open>auto simp: begun_def dest: same_reached_phase\<close>)
  then show ?thesis using b handled(1) by (simp add: begun_def)
next
  case (began h now old new key pc)
  note b = handlers_begun[OF began(2,3)]
  have "phases_inv env (s', ts)"
    by (rule phases_inv_grows[OF inv]) (use b in \<open>auto simp: begun_def dest: same_reached_phase\<close>)
  then show ?thesis using b began(1) by (simp add: begun_def phases_inv_def task_ok_def has_phase_def)
next
  case (pinged pc e n n' us key vs)
  then show ?thesis using phases_inv_tasks(2) inv by auto
next
  case (reached pc e n now key us vs)
  then show ?thesis using update_end_times inv by blast
next
  case (stopped pc now key us n vs)
  then show ?thesis using update_end_times inv by blast
next
  case (started err)
  then show ?thesis using phases_inv_times[OF inv] grows_times sc_start_times by metis
next
  case disposing
  then show ?thesis using phases_inv_times[OF inv, of s'] grows_times[of s' s] by simp
next
  case disposed
  then show ?thesis using phases_inv_times[OF inv] grows_times on_pings_times by metis
qed

lemma phases_steps:
  assumes "sc_steps env st st'" and "phases_inv env st"
  shows "phases_inv env st' \<and> grows (fst st) (fst st')"
  using assms(1)
proof (induction rule: rtranclp_induct)
  case base
  then show ?case using assms(2) by simp
next
  case (step x y)
  have "phases_inv env (fst y, snd y) \<and> grows (fst x) (fst y)"
    by (rule phases_step[where ts = "snd x"]) (use step in simp_all)
  then show ?case using step.IH grows_trans[of "fst st" "fst x" "fst y"] by simp
qed

lemma phases_inv_init: "phases_inv env (createServiceCreationLatencyMeasurement env, [])"
  by (simp add: phases_inv_def createServiceCreationLatencyMeasurement_def has_phase_def get_phase_def)

section \<open>Waiting for the services\<close>

abbreviation keys_in :: "ObjectTransitionTimes \<Rightarrow> string \<Rightarrow> string set" where
  "keys_in ott phase \<equiv> {k. ot_Get ott k phase \<noteq> None}"

lemma fold_count: "fold (\<lambda>(_, e) c. if P e then c + 1 else c) xs (n :: nat) = n + length (filter (\<lambda>(_, e). P e) xs)"
  by (induction xs arbitrary: n) auto

lemma keys_in_filter: "ot_ok ott \<Longrightarrow> keys_in ott phase = fst ` set (filter (\<lambda>(_, e). map_of e phase \<noteq> None) (ot_times ott))"
  unfolding set_eq_iff mem_Collect_eq ot_ok_def
  by (auto simp: ot_Get_def image_iff split: option.splits) (metis eq_key_imp_eq_value)

lemma ot_Count_card:
  assumes "ot_ok ott"
  shows "ot_Count ott phase = card (keys_in ott phase)" and "finite (keys_in ott phase)"
proof -
  let ?f = "filter (\<lambda>(_, e). map_of e phase \<noteq> None) (ot_times ott)"
  have "distinct (map fst ?f)" using assms by (simp add: ot_ok_def distinct_map_filter)
  then have "card (fst ` set ?f) = length ?f" using distinct_card[of "map fst ?f"] by simp
  then show "ot_Count ott phase = card (keys_in ott phase)"
    unfolding keys_in_filter[OF assms] by (simp add: ot_Count_def fold_count)
  show "finite (keys_in ott phase)" unfolding keys_in_filter[OF assms] by simp
qed

text \<open>What the condition of a wait reads, in the order of its reads, while the workers go on.\<close>

fun observes :: "'q svc_env \<Rightarrow> 'q sc_sys \<Rightarrow> (ObjectTransitionTimes \<times> ObjectTransitionTimes) list \<Rightarrow> bool" where
  "observes env st [] = True"
| "observes env st ((r1, r2) # reads) =
     (\<exists>a b. sc_steps env st a \<and> sc_steps env a b \<and> r1 = sc_creationTimes (fst a) \<and> r2 = sc_creationTimes (fst b) \<and> observes env b reads)"

lemma observes_append:
  "observes env st (xs @ ys) \<Longrightarrow> observes env st xs \<and> (\<exists>st'. sc_steps env st st' \<and> observes env st' ys)"
proof (induction xs arbitrary: st)
  case (Cons x xs)
  obtain r1 r2 where x: "x = (r1, r2)" by fastforce
  from Cons.prems x obtain a b where ab: "sc_steps env st a" "sc_steps env a b" "r1 = sc_creationTimes (fst a)"
    "r2 = sc_creationTimes (fst b)" "observes env b (xs @ ys)" by auto
  from Cons.IH[OF ab(5)] obtain st' where "observes env b xs" "sc_steps env b st'" "observes env st' ys" by blast
  moreover have "sc_steps env st b" using ab(1,2) by (rule rtranclp_trans)
  ultimately have "observes env st (x # xs)" "sc_steps env st st'" "observes env st' ys"
    unfolding x observes.simps using ab by (blast, auto intro: rtranclp_trans)
  then show ?case by blast
qed auto

lemma observes_concat:
  "observes env st (concat polls) \<Longrightarrow> p \<in> set polls \<Longrightarrow> \<exists>st'. sc_steps env st st' \<and> observes env st' p"
proof (induction polls arbitrary: st)
  case (Cons q polls)
  from observes_append[of env st q "concat polls"] Cons.prems(1) obtain st' where
    o: "observes env st q" "sc_steps env st st'" "observes env st' (concat polls)" by auto
  show ?case
  proof (cases "p = q")
    case True
    then show ?thesis using o(1) by blast
  next
    case False
    then obtain st'' where "sc_steps env st' st''" "observes env st'' p" using Cons.IH[OF o(3)] Cons.prems(2) by auto
    then show ?thesis using o(2) by (meson rtranclp_trans)
  qed
qed simp

text \<open>Equal counts, with the later read of the created ones, mean that all are reached.\<close>

lemma equal_counts_reached:
  assumes inv: "phases_inv env a" and ab: "sc_steps env a b"
    and eq: "ot_Count (sc_creationTimes (fst b)) (phaseName creatingPhase t) =
      ot_Count (sc_creationTimes (fst a)) (phaseName reachabilityPhase t)"
  shows "keys_in (sc_creationTimes (fst b)) (phaseName creatingPhase t) \<subseteq>
    keys_in (sc_creationTimes (fst a)) (phaseName reachabilityPhase t)"
proof -
  let ?A = "sc_creationTimes (fst a)" and ?B = "sc_creationTimes (fst b)"
  have b: "phases_inv env b" "grows (fst a) (fst b)" using phases_steps[OF ab inv] by simp_all
  have ok: "ot_ok ?A" "ot_ok ?B" using inv b(1) by (auto simp: phases_inv_def split: prod.splits)
  have "keys_in ?A (phaseName reachabilityPhase t) \<subseteq> keys_in ?A (phaseName creatingPhase t)"
    using inv by (auto simp: phases_inv_def has_phase_def get_phase_def split: prod.splits)
  also have "\<dots> \<subseteq> keys_in ?B (phaseName creatingPhase t)" using b(2) by (auto simp: grows_def)
  finally have "keys_in ?A (phaseName reachabilityPhase t) \<subseteq> keys_in ?B (phaseName creatingPhase t)" .
  moreover have "card (keys_in ?A (phaseName reachabilityPhase t)) = card (keys_in ?B (phaseName creatingPhase t))"
    using eq ot_Count_card(1)[OF ok(1)] ot_Count_card(1)[OF ok(2)] by simp
  ultimately show ?thesis using card_subset_eq[OF ot_Count_card(2)[OF ok(2)]] by blast
qed

lemma counts_equal_reached:
  assumes "phases_inv env st" and "observes env st reads" and "phase_counts_equal reachabilityPhase types reads"
    and "i < length types" and "i < length reads"
  shows "keys_in (snd (reads ! i)) (phaseName creatingPhase (types ! i)) \<subseteq>
    keys_in (fst (reads ! i)) (phaseName reachabilityPhase (types ! i))"
  using assms
proof (induction reachabilityPhase types reads arbitrary: st i rule: phase_counts_equal.induct)
  case (1 t ts r1 r2 reads)
  from "1.prems"(2) obtain a b where ab: "sc_steps env st a" "sc_steps env a b" "r1 = sc_creationTimes (fst a)"
    "r2 = sc_creationTimes (fst b)" "observes env b reads" by auto
  have a: "phases_inv env a" using phases_steps[OF ab(1) "1.prems"(1)] by simp
  have b: "phases_inv env b" using phases_steps[OF ab(2) a] by simp
  have eq: "ot_Count r2 (phaseName creatingPhase t) = ot_Count r1 (phaseName reachabilityPhase t)"
    and rest: "phase_counts_equal reachabilityPhase ts reads" using "1.prems"(3) by (auto split: if_splits)
  show ?case
  proof (cases i)
    case 0
    then show ?thesis using equal_counts_reached[OF a ab(2)] eq ab(3,4) by simp
  next
    case (Suc j)
    then show ?thesis using "1.hyps"[of b j] b ab(5) rest eq "1.prems"(4,5) by simp
  qed
qed auto

text \<open>
  C10: services that are waited for are reachable.  Whatever the workers do between the reads of the
  condition (any interleaving of handled events, pings and deletions), when waitForReady reports no error
  then at one of its polls, for every type of service, every service or ingress whose creation was recorded
  when the created ones were counted had already been recorded as reachable.
\<close>

theorem services_ready_means_reachable:
  assumes "observes env (createServiceCreationLatencyMeasurement env, []) (concat polls)"
    and "\<forall>p \<in> set polls. length p = length serviceTypes" and "waitForReady polls = None"
  shows "\<exists>p \<in> set polls. \<forall>i < length serviceTypes. \<forall>key.
    ot_Get (snd (p ! i)) key (phaseName creatingPhase (serviceTypes ! i)) \<noteq> None \<longrightarrow>
    ot_Get (fst (p ! i)) key (phaseName reachabilityPhase (serviceTypes ! i)) \<noteq> None"
proof -
  obtain p where p: "p \<in> set polls" "phase_counts_equal reachabilityPhase serviceTypes p"
    using assms(3) by (auto simp: waitForReady_def wait_Poll_def list_ex_iff split: if_splits)
  obtain st where st: "sc_steps env (createServiceCreationLatencyMeasurement env, []) st" "observes env st p"
    using observes_concat[OF assms(1) p(1)] by blast
  have inv: "phases_inv env st" using phases_steps[OF st(1) phases_inv_init] by simp
  have "keys_in (snd (p ! i)) (phaseName creatingPhase (serviceTypes ! i)) \<subseteq>
      keys_in (fst (p ! i)) (phaseName reachabilityPhase (serviceTypes ! i))" if "i < length serviceTypes" for i
    using counts_equal_reached[OF inv st(2) p(2) that] assms(2) p(1) that by simp
  then show ?thesis using p(1) by blast
qed

section \<open>Running checkers\<close>

lemma set_update_subset: "set (AList.update k v m) \<subseteq> insert (k, v) (set m)"
  by (induction m) auto

lemma set_delete_subset: "set (AList.delete k m) \<subseteq> set m"
  by (auto simp: AList.delete_eq)

lemma task_channels_simps [simp]:
  "task_channels [] = []" "task_channels ((key, pc, n) # ts) = pc_stopCh pc # task_channels ts"
  "task_channels (us @ vs) = task_channels us @ task_channels vs"
  by (simp_all add: task_channels_def)

lemma ping_Stop_Some:
  "ping_Stop p h = Some cl' \<longleftrightarrow> (\<exists>cl. h = Some cl \<and> \<not> cl ! pc_stopCh p \<and> cl' = cl[pc_stopCh p := True])"
  by (auto simp: ping_Stop_def bind_eq_Some_conv)

text \<open>Stopping checkers of the map leaves the channels of the running ones alone.\<close>

definition unaffected :: "(string, pingChecker) gomap \<Rightarrow> bool list \<Rightarrow> bool list \<Rightarrow> bool" where
  "unaffected cm cl cl' \<longleftrightarrow> length cl' = length cl \<and> (\<forall>c. c \<notin> checker_channels cm \<longrightarrow> cl' ! c = cl ! c)"

lemma unaffected_refl [simp]: "unaffected cm cl cl"
  by (simp add: unaffected_def)

lemma stop_unaffected:
  assumes "map_of cm key = Some old" and "ping_Stop old (Some cl) = Some cl'"
  shows "unaffected cm cl cl'"
proof -
  have "old \<in> snd ` set cm" using map_of_SomeD[OF assms(1)] by force
  then have "pc_stopCh old \<noteq> c" if "c \<notin> checker_channels cm" for c using that by (auto simp: checker_channels_def)
  then show ?thesis using assms(2) by (simp add: unaffected_def ping_Stop_Some)
qed

lemma DeleteAndStop_unaffected:
  "snd (Map_DeleteAndStop ping_Stop key (cm, Some cl)) = (cm', Some cl') \<Longrightarrow> unaffected cm cl cl' \<and> set cm' \<subseteq> set cm"
  using set_delete_subset[of key cm]
  by (cases "map_of cm key") (auto simp: Map_DeleteAndStop_def intro: stop_unaffected)

lemma Add_unaffected:
  "Map_Add ping_Stop key pc (cm, Some cl) = (cm', Some cl') \<Longrightarrow> unaffected cm cl cl' \<and> set cm' \<subseteq> insert (key, pc) (set cm)"
  using set_update_subset[of key pc cm]
  by (cases "map_of cm key") (auto simp: Map_Add_def intro: stop_unaffected)

lemma checker_channels_mono: "set cm' \<subseteq> set cm \<Longrightarrow> checker_channels cm' \<subseteq> checker_channels cm"
  by (auto simp: checker_channels_def)

lemma channels_inv_unaffected:
  assumes "channels_inv (s, ts)" and "unaffected (sc_pingCheckers s) (sc_closed s) (sc_closed s')"
    and "set (sc_pingCheckers s') \<subseteq> set (sc_pingCheckers s)"
  shows "channels_inv (s', ts)"
proof -
  have "sc_closed s' ! c = sc_closed s ! c" if "c \<in> set (task_channels ts)" for c
    using assms(1,2) that unfolding channels_inv_def unaffected_def by blast
  moreover have "length (sc_closed s') = length (sc_closed s)" using assms(2) by (simp add: unaffected_def)
  ultimately show ?thesis using assms(1) checker_channels_mono[OF assms(3)] by (auto simp: channels_inv_def)
qed

lemma channels_inv_cong:
  "channels_inv (s, ts) \<Longrightarrow> sc_pingCheckers s' = sc_pingCheckers s \<Longrightarrow> sc_closed s' = sc_closed s \<Longrightarrow> channels_inv (s', ts)"
  by (simp add: channels_inv_def)

lemma update_end_channels:
  assumes "channels_inv (s, us @ (key, pc, n) # vs)" and "update_end env now (key, pc) outcome s = Some s'"
  shows "channels_inv (s', us @ vs)"
proof -
  let ?s = "ping_done env now pc outcome s"
  have d: "sc_pingCheckers ?s = sc_pingCheckers s" "sc_closed ?s = sc_closed s"
    by (auto simp: ping_done_def split: option.splits sum.splits)
  have "Map_Add ping_Stop key pc (sc_pingCheckers s, Some (sc_closed s)) = (sc_pingCheckers s', Some (sc_closed s'))"
    using assms(2) by (auto simp: update_end_def on_pings_def d split: prod.splits option.splits)
  from Add_unaffected[OF this] have u: "unaffected (sc_pingCheckers s) (sc_closed s) (sc_closed s')"
    and sub: "set (sc_pingCheckers s') \<subseteq> insert (key, pc) (set (sc_pingCheckers s))" by simp_all
  have len: "length (sc_closed s') = length (sc_closed s)" using u by (simp add: unaffected_def)
  have "sc_closed s' ! c = sc_closed s ! c" if "c \<in> set (task_channels (us @ vs))" for c
    using assms(1) u that unfolding channels_inv_def unaffected_def by auto
  moreover have "checker_channels (sc_pingCheckers s') \<subseteq> insert (pc_stopCh pc) (checker_channels (sc_pingCheckers s))"
    using checker_channels_mono[of "sc_pingCheckers s'" "(key, pc) # sc_pingCheckers s"] sub by (simp add: checker_channels_def)
  ultimately show ?thesis using assms(1) by (auto simp: channels_inv_def len)
qed

lemma stop_all_None: "fold (\<lambda>(k, c). ping_Stop c) cm None = None"
  by (induction cm) (auto simp: ping_Stop_def)

lemma stop_all_length: "fold (\<lambda>(k, c). ping_Stop c) cm (Some cl) = Some cl' \<Longrightarrow> length cl' = length cl"
proof (induction cm arbitrary: cl)
  case (Cons kc cm)
  obtain k c where kc: "kc = (k, c)" by fastforce
  obtain cl1 where c1: "ping_Stop c (Some cl) = Some cl1"
    using Cons.prems by (cases "ping_Stop c (Some cl)") (auto simp: kc stop_all_None)
  then have "length cl' = length cl1" using Cons kc by simp
  then show ?case using c1 by (auto simp: ping_Stop_Some)
qed simp

lemma channels_step:
  assumes "sc_step env (s, ts) (s', ts')" and inv: "channels_inv (s, ts)"
  shows "channels_inv (s', ts')"
  using assms(1)
proof cases
  case (handled h now old new)
  from handlers_begun[OF handled(2,3)] show ?thesis
    using inv handled(1) by (auto simp: begun_def intro: channels_inv_cong channels_inv_unaffected dest: DeleteAndStop_unaffected)
next
  case (began h now old new key pc)
  from handlers_begun[OF began(2,3)] show ?thesis
    using inv began(1) by (fastforce simp: begun_def channels_inv_def nth_append)
next
  case (pinged pc e n n' us key vs)
  then show ?thesis using inv by (simp add: channels_inv_def)
next
  case (reached pc e n now key us vs)
  then show ?thesis using update_end_channels inv by blast
next
  case (stopped pc now key us n vs)
  then show ?thesis using update_end_channels inv by blast
next
  case (started err)
  then have "sc_pingCheckers s' = sc_pingCheckers s" "sc_closed s' = sc_closed s"
    by (auto simp: sc_start_def Let_def split: if_splits option.splits)
  then show ?thesis using inv started(1) channels_inv_cong by blast
next
  case disposing
  then show ?thesis using inv channels_inv_cong[of s ts s'] by simp
next
  case disposed
  have f: "fold (\<lambda>(k, c). ping_Stop c) (sc_pingCheckers s) (Some (sc_closed s)) = Some (sc_closed s')" "sc_pingCheckers s' = sc_pingCheckers s"
    using disposed(4) by (auto simp: on_pings_def Map_Dispose_def split: option.splits)
  show ?thesis using inv disposed(1,2) stop_all_length[OF f(1)] f(2) by (simp add: channels_inv_def)
qed

lemma channels_steps:
  "sc_steps env st st' \<Longrightarrow> channels_inv st \<Longrightarrow> channels_inv st'"
proof (induction rule: rtranclp_induct)
  case (step x y)
  have "channels_inv (fst y, snd y)" by (rule channels_step[of env "fst x" "snd x"]) (use step in simp_all)
  then show ?case by simp
qed simp

lemma channels_inv_init: "channels_inv (createServiceCreationLatencyMeasurement env, [])"
  by (simp add: channels_inv_def checker_channels_def createServiceCreationLatencyMeasurement_def NewMap_def)

text \<open>Whether an iteration finds that all addresses answer.\<close>

definition answered :: "'q svc_env \<Rightarrow> pingChecker \<Rightarrow> ping_event \<Rightarrow> bool" where
  "answered env p e = (case e of PPod hostIP answers \<Rightarrow>
     (case collectAddresses env p hostIP of Some as \<Rightarrow> list_all answers as | None \<Rightarrow> False) | _ \<Rightarrow> False)"

text \<open>An iteration that neither is stopped nor panics.\<close>

definition plain :: "'q svc_env \<Rightarrow> pingChecker \<Rightarrow> ping_event \<Rightarrow> bool" where
  "plain env p e = (case e of PStop \<Rightarrow> False | PNoPod \<Rightarrow> True | PPod hostIP answers \<Rightarrow> collectAddresses env p hostIP \<noteq> None)"

lemma ping_run_Cons:
  assumes "plain env p e"
  shows "ping_run env p n (e # es) =
    (if \<not> answered env p e then ping_run env p 0 es else if n + 1 = pingChecks then Reached else ping_run env p (n + 1) es)"
  using assms by (cases e) (auto simp: plain_def answered_def split: option.splits)

lemma ping_run_streak:
  assumes "list_all (plain env p) es" and "n \<le> 2"
  shows "ping_run env p n es = Reached \<longleftrightarrow> sublist [True, True, True] (replicate n True @ map (answered env p) es)"
  using assms
proof (induction es arbitrary: n)
  case Nil
  then have "n = 0 \<or> n = 1 \<or> n = 2" by auto
  then show ?case by (auto simp: sublist_Cons_right numeral_2_eq_2)
next
  case (Cons e es)
  have n: "n = 0 \<or> n = 1 \<or> n = 2" using Cons.prems(2) by auto
  have e: "plain env p e" and es: "list_all (plain env p) es" using Cons.prems(1) by simp_all
  show ?case
  proof (cases "answered env p e")
    case False
    then show ?thesis using Cons.IH[OF es, of 0] n by (auto simp: ping_run_Cons[OF e] sublist_Cons_right numeral_2_eq_2)
  next
    case True
    show ?thesis
    proof (cases "n = 2")
      case True
      then show ?thesis using \<open>answered env p e\<close> by (simp add: ping_run_Cons[OF e] pingChecks_def sublist_Cons_right numeral_2_eq_2)
    next
      case False
      then have "n + 1 \<le> 2" using n by auto
      then show ?thesis
        using Cons.IH[OF es, of "n + 1"] True False by (simp add: ping_run_Cons[OF e] pingChecks_def replicate_app_Cons_same)
    qed
  qed
qed

lemma ping_run_plain: "list_all (plain env p) es \<Longrightarrow> ping_run env p n es = Reached \<or> (\<exists>m. ping_run env p n es = Pinging m)"
  by (induction es arbitrary: n) (auto simp: ping_run_Cons)

text \<open>
  C27: a running checker cannot be stopped.  In every state that the workers can reach, the stop channel of
  every checker that a worker runs is open: it enters the map of checkers only after its run.  Its run
  ends exactly if all addresses of the service answer three times in a row; until then it goes on pinging,
  and disposing the measurement waits for its worker.
\<close>

theorem running_checkers_not_stopped:
  assumes "sc_steps env (createServiceCreationLatencyMeasurement env, []) (s, ts)" and "(key, pc, n) \<in> set ts"
  shows "\<not> sc_closed s ! pc_stopCh pc \<and>
    (list_all (plain env pc) es \<longrightarrow>
       (ping_run env pc 0 es = Reached \<longleftrightarrow> sublist [True, True, True] (map (answered env pc) es)) \<and>
       (ping_run env pc 0 es \<noteq> Reached \<longrightarrow> (\<exists>m. ping_run env pc 0 es = Pinging m)))"
proof -
  have "channels_inv (s, ts)" using channels_steps[OF assms(1) channels_inv_init] .
  moreover have "pc_stopCh pc \<in> set (task_channels ts)" using assms(2) by (force simp: task_channels_def)
  ultimately have "\<not> sc_closed s ! pc_stopCh pc" by (simp add: channels_inv_def)
  then show ?thesis using ping_run_streak[of env pc es 0] ping_run_plain[of env pc es 0] by auto
qed

section \<open>Example\<close>

definition demo_svc :: Service where
  "demo_svc = \<lparr>sv_Namespace = ''ns'', sv_Name = ''svc'', sv_CreationTimestamp = 1, sv_DeletionTimestamp = None,
     sv_Type = ServiceTypeClusterIP, sv_ClusterIPs = [''10.0.0.1''], sv_Ports = [(80, 0)], sv_Ingress = []\<rparr>"

definition demo_svc_env :: "unit svc_env" where
  "demo_svc_env = \<lparr>se_queue = \<lparr>wq_new = (), wq_Add = \<lambda>_ q. q, wq_Get = \<lambda>_. None, wq_Done = \<lambda>_ q. q, wq_ShutDown = \<lambda>q. q\<rparr>,
     se_svcKey = map_option (\<lambda>s. Inr (createMetaNamespaceKey (sv_Namespace s) (sv_Name s))), se_ingKey = \<lambda>_. None,
     se_svcEq = (=), se_ingEq = (=), se_join = \<lambda>h p. h @ '':'' @ p, se_synced = True, se_ingSynced = True,
     se_execEnabled = True, se_parseDuration = \<lambda>_. Inr 0, se_pretty = \<lambda>_. Inr [], se_now = 0\<rparr>"

definition demo_pc :: pingChecker where
  "demo_pc = \<lparr>pc_svc = Some demo_svc, pc_ingress = None, pc_stopCh = 0\<rparr>"

abbreviation demo_scl0 :: "unit scl" where "demo_scl0 \<equiv> createServiceCreationLatencyMeasurement demo_svc_env"

definition demo_scl1 :: "unit scl" where
  "demo_scl1 = (set_phase ''ns/svc'' creatingPhase ServiceTypeClusterIP 1 (demo_scl0\<lparr>sc_isRunning := True\<rparr>))\<lparr>sc_closed := [False]\<rparr>"

definition demo_scl2 :: "unit scl" where
  "demo_scl2 = (set_phase ''ns/svc'' reachabilityPhase ServiceTypeClusterIP 9 demo_scl1)\<lparr>sc_pingCheckers := [(''ns/svc'', demo_pc)]\<rparr>"

lemma demo_begins:
  "sc_handleObject demo_svc_env 5 None (Some (SvcObj demo_svc)) (demo_scl0\<lparr>sc_isRunning := True\<rparr>) =
     Some (Some (''ns/svc'', demo_pc), demo_scl1)"
  by (simp add: sc_handleObject_def handler_result_def updateObject_begin_def demo_svc_env_def demo_svc_def demo_pc_def
      demo_scl1_def createMetaNamespaceKey_def created_once_def get_phase_def set_phase_def new_checker_def
      createServiceCreationLatencyMeasurement_def)

lemma demo_pings: "ping_run demo_svc_env demo_pc n [PPod ''h'' (\<lambda>_. True)] = (if n = 2 then Reached else Pinging (n + 1))"
  by (simp add: collectAddresses_def demo_pc_def demo_svc_def first_port_def pingChecks_def)

lemma demo_ends: "update_end demo_svc_env 9 (''ns/svc'', demo_pc) Reached demo_scl1 = Some demo_scl2"
  by (simp add: update_end_def on_pings_def Map_Add_def ping_done_def ping_key_def ping_type_def demo_pc_def demo_svc_env_def
      demo_svc_def createMetaNamespaceKey_def demo_scl2_def demo_scl1_def createServiceCreationLatencyMeasurement_def NewMap_def
      set_phase_def)

lemma demo_open: "\<not> sc_closed demo_scl1 ! pc_stopCh demo_pc"
  by (simp add: demo_scl1_def demo_pc_def)

lemma demo_running: "sc_steps demo_svc_env (demo_scl0, []) (demo_scl1, [(''ns/svc'', demo_pc, 2)])"
proof -
  have "sc_step demo_svc_env (demo_scl0, []) (demo_scl0\<lparr>sc_isRunning := True\<rparr>, [])"
    by (rule sc_step.started[of _ _ None])
       (simp add: sc_start_def StartAndSync_def demo_svc_env_def createServiceCreationLatencyMeasurement_def)
  moreover have "sc_step demo_svc_env (demo_scl0\<lparr>sc_isRunning := True\<rparr>, []) (demo_scl1, [(''ns/svc'', demo_pc, 0)])"
    by (rule sc_step.began[where h = sc_handleObject]) (simp, rule demo_begins)
  moreover have "sc_step demo_svc_env (demo_scl1, [(''ns/svc'', demo_pc, n)]) (demo_scl1, [(''ns/svc'', demo_pc, n + 1)])" if "n < 2" for n
    using sc_step.pinged[OF demo_open, of "PPod ''h'' (\<lambda>_. True)" demo_svc_env n "n + 1" "[]" "''ns/svc''" "[]"] demo_pings[of n] that
    by simp
  from this[of 0] this[of 1] have "sc_step demo_svc_env (demo_scl1, [(''ns/svc'', demo_pc, 0)]) (demo_scl1, [(''ns/svc'', demo_pc, 1)])"
    "sc_step demo_svc_env (demo_scl1, [(''ns/svc'', demo_pc, 1)]) (demo_scl1, [(''ns/svc'', demo_pc, 2)])"
    by (simp_all add: numeral_2_eq_2)
  ultimately show ?thesis by (meson converse_rtranclp_into_rtranclp rtranclp.rtrancl_refl)
qed

lemma demo_reaches: "sc_steps demo_svc_env (demo_scl0, []) (demo_scl2, [])"
proof -
  have "sc_step demo_svc_env (demo_scl1, [(''ns/svc'', demo_pc, 2)]) (demo_scl2, [])"
    using sc_step.reached[OF demo_open _ _ demo_ends, of "PPod ''h'' (\<lambda>_. True)" 2 "[]" "[]"] demo_pings[of 2] by simp
  with demo_running show ?thesis by (rule rtranclp.rtrancl_into_rtrancl)
qed

theorem services_ready_means_reachable_witness:
  "waitForReady [replicate 4 (sc_creationTimes demo_scl2, sc_creationTimes demo_scl2)] = None \<and>
   ot_Get (sc_creationTimes demo_scl2) ''ns/svc'' ''creating_ClusterIP'' = Some 1 \<and>
   ot_Get (sc_creationTimes demo_scl2) ''ns/svc'' ''reachability_ClusterIP'' \<noteq> None"
proof -
  let ?polls = "[replicate 4 (sc_creationTimes demo_scl2, sc_creationTimes demo_scl2)]"
  have o: "observes demo_svc_env (demo_scl0, []) (concat ?polls)"
  proof -
    have "observes demo_svc_env (demo_scl2, []) (replicate k (sc_creationTimes demo_scl2, sc_creationTimes demo_scl2))" for k
      by (induction k) (auto intro!: exI[of _ demo_scl2] exI[of _ "[]"])
    from this[of 3] demo_reaches show ?thesis by (force simp: numeral_eq_Suc)
  qed
  have t: "sc_creationTimes demo_scl2 = \<lparr>ot_name = serviceCreationLatencyName,
      ot_times = [(''ns/svc'', [(''creating_ClusterIP'', 1), (''reachability_ClusterIP'', 9)])]\<rparr>"
    by (simp add: demo_scl2_def demo_scl1_def set_phase_def createServiceCreationLatencyMeasurement_def ot_Set_def
        NewObjectTransitionTimes_def phaseName_def)
  have w: "waitForReady ?polls = None"
    by (simp add: waitForReady_def wait_Poll_def serviceTypes_def t ot_Count_def phaseName_def numeral_eq_Suc)
  have l: "\<forall>p \<in> set ?polls. length p = length serviceTypes" by (simp add: serviceTypes_def)
  have c: "ot_Get (sc_creationTimes demo_scl2) ''ns/svc'' ''creating_ClusterIP'' = Some 1" by (simp add: t ot_Get_def)
  have "ot_Get (sc_creationTimes demo_scl2) ''ns/svc'' (phaseName reachabilityPhase (serviceTypes ! 0)) \<noteq> None"
  proof -
    from services_ready_means_reachable[OF o l w] have "\<forall>i < length serviceTypes. \<forall>key.
        ot_Get (snd (hd ?polls ! i)) key (phaseName creatingPhase (serviceTypes ! i)) \<noteq> None \<longrightarrow>
        ot_Get (fst (hd ?polls ! i)) key (phaseName reachabilityPhase (serviceTypes ! i)) \<noteq> None" by simp
    from spec[OF this, of 0] spec show ?thesis using c by (simp add: serviceTypes_def phaseName_def)
  qed
  then show ?thesis using w c by (simp add: serviceTypes_def phaseName_def)
qed

theorem running_checkers_not_stopped_witness:
  "\<not> sc_closed demo_scl1 ! pc_stopCh demo_pc \<and>
   ping_run demo_svc_env demo_pc 0 [PPod ''h'' (\<lambda>_. True), PNoPod, PPod ''h'' (\<lambda>_. True), PPod ''h'' (\<lambda>_. True)] \<noteq> Reached"
proof -
  let ?es = "[PPod ''h'' (\<lambda>_. True), PNoPod, PPod ''h'' (\<lambda>_. True), PPod ''h'' (\<lambda>_. True)]"
  have "list_all (plain demo_svc_env demo_pc) ?es" "\<not> sublist [True, True, True] (map (answered demo_svc_env demo_pc) ?es)"
    by (simp_all add: plain_def answered_def collectAddresses_def demo_pc_def demo_svc_def first_port_def sublist_Cons_right)
  then show ?thesis using running_checkers_not_stopped[OF demo_running, of "''ns/svc''" demo_pc 2 ?es] by simp
qed

end
