(* ===== verification/Pod_Command.thy ===== *)
theory Pod_Command
  imports Informer Pod_Startup
begin

text \<open>
  The measurement PodPeriodicCommand (\<^verbatim>\<open>clusterloader2/pkg/measurement/common/pod_command.go\<close>): commands are run in pods at an
  interval until the measurement is gathered.  The executions of one tick run in parallel; they meet only
  at counters under a lock, so an execution takes effect when it completes, in any order.
\<close>

section \<open>Parameters\<close>

text \<open>A call can return, block for ever or panic.\<close>

datatype 'a call_result = Returns 'a | Blocks | Panics

record command_params =
  cp_Name :: string
  cp_Command :: "string list"
  cp_Timeout :: duration

record 'sel periodic_params =
  pp_LabelSelector :: 'sel
  pp_Interval :: duration
  pp_Container :: string
  pp_Limit :: int
  pp_FailOnCommandError :: bool
  pp_FailOnExecError :: bool
  pp_FailOnTimeout :: bool
  pp_Commands :: "command_params list"

text \<open>
  \<open>pce_sprintv\<close> prints a value, \<open>pce_showDuration\<close> a duration and \<open>pce_format\<close> a time (RFC 3339); JSON and the parsing
  of selectors and durations are parameters; \<open>pce_synced\<close> tells whether the informer syncs.
\<close>

record runCommandResult =
  rc_stdout :: string
  rc_stderr :: string
  rc_ExitCode :: int
  rc_Name :: string
  rc_Command :: "string list"
  rc_Timeout :: string
  rc_HitTimeout :: bool
  rc_StartTime :: gotime
  rc_EndTime :: gotime
  rc_ExecError :: string

record runAllCommandsResult =
  ra_Pod :: string
  ra_Namespace :: string
  ra_Container :: string
  ra_Commands :: "runCommandResult list"

record stats =
  st_Execs :: nat
  st_ExecErrors :: nat
  st_Timeouts :: nat
  st_NonZeroRCs :: nat
  st_Measurements :: nat
  st_Ticks :: nat
  st_TicksNoPods :: nat

record 'sel pcmd_env =
  pce_parseSelector :: "string \<Rightarrow> goerr + 'sel"
  pce_parseDuration :: "string \<Rightarrow> goerr + duration"
  pce_sprintv :: "gval \<Rightarrow> string"
  pce_showDuration :: "duration \<Rightarrow> string"
  pce_format :: "gotime \<Rightarrow> string"
  pce_prettyResults :: "runAllCommandsResult list \<Rightarrow> goerr + string"
  pce_prettyStats :: "stats \<Rightarrow> goerr + string"
  pce_synced :: bool
  pce_now :: gotime

fun command_params_loop :: "'sel pcmd_env \<Rightarrow> params list \<Rightarrow> goerr + command_params list" where
  "command_params_loop env [] = Inr []"
| "command_params_loop env (commandMap # rest) =
     (case getString commandMap ''name'' of
        Inl err \<Rightarrow> Inl err
      | Inr name \<Rightarrow>
     (case getStringArray (pce_sprintv env) commandMap ''command'' of
        Inl err \<Rightarrow> Inl err
      | Inr command \<Rightarrow>
     (case getDuration (pce_parseDuration env) commandMap ''timeout'' of
        Inl err \<Rightarrow> Inl err
      | Inr tmo \<Rightarrow>
          map_sum id (\<lambda>cs. \<lparr>cp_Name = name, cp_Command = command, cp_Timeout = tmo\<rparr> # cs) (command_params_loop env rest))))"

definition newPodPeriodCommandMeasurementParams :: "'sel pcmd_env \<Rightarrow> params \<Rightarrow> goerr + 'sel periodic_params" where
  "newPodPeriodCommandMeasurementParams env ps =
     (case getLabelSelector (pce_parseSelector env) ps ''labelSelector'' of
        Inl err \<Rightarrow> Inl err
      | Inr selector \<Rightarrow>
     (case getDuration (pce_parseDuration env) ps ''interval'' of
        Inl err \<Rightarrow> Inl err
      | Inr interval \<Rightarrow>
     (case getString ps ''container'' of
        Inl err \<Rightarrow> Inl err
      | Inr container \<Rightarrow>
     (case getInt ps ''limit'' of
        Inl err \<Rightarrow> Inl err
      | Inr maxPods \<Rightarrow>
     (case getBool ps ''failOnCommandError'' of
        Inl err \<Rightarrow> Inl err
      | Inr onCommandError \<Rightarrow>
     (case getBool ps ''failOnExecError'' of
        Inl err \<Rightarrow> Inl err
      | Inr onExecError \<Rightarrow>
     (case getBool ps ''failOnTimeout'' of
        Inl err \<Rightarrow> Inl err
      | Inr onTimeout \<Rightarrow>
     (case getMapArray ps ''commands'' of
        Inl err \<Rightarrow> Inl err
      | Inr commandMaps \<Rightarrow>
          map_sum id (\<lambda>cs. \<lparr>pp_LabelSelector = selector, pp_Interval = interval, pp_Container = container, pp_Limit = maxPods,
            pp_FailOnCommandError = onCommandError, pp_FailOnExecError = onExecError, pp_FailOnTimeout = onTimeout,
            pp_Commands = cs\<rparr>) (command_params_loop env commandMaps)))))))))"

section \<open>Pods\<close>

record CmdPod = Pod +
  po_Containers :: "string list"

fun pod_ready :: "PodCondition list \<Rightarrow> bool" where
  "pod_ready [] = False"
| "pod_ready (c # cs) = (if pc_Type c = ''Ready'' \<and> pc_Status c = ''True'' then True else pod_ready cs)"

definition isApplicablePod :: "'sel periodic_params \<Rightarrow> CmdPod \<Rightarrow> bool" where
  "isApplicablePod params pod =
     (if po_Phase pod \<noteq> PodRunning then False
      else if \<not> list_ex (\<lambda>c. c = pp_Container params) (po_Containers pod) then False
      else pod_ready (po_Conditions pod))"

fun max_pods_loop :: "'sel periodic_params \<Rightarrow> int \<Rightarrow> CmdPod list \<Rightarrow> CmdPod list \<Rightarrow> CmdPod list" where
  "max_pods_loop params n [] pods = pods"
| "max_pods_loop params n (pod # podList) pods =
     (if \<not> isApplicablePod params pod then max_pods_loop params n podList pods
      else
        let pods = pods @ [pod]
        in if int (length pods) \<ge> n then pods else max_pods_loop params n podList pods)"

text \<open>\<open>podList\<close> is the listing of the informer's store, in any order.\<close>

definition getMaxNPods :: "'sel periodic_params \<Rightarrow> int \<Rightarrow> CmdPod list \<Rightarrow> CmdPod list" where
  "getMaxNPods params n podList = max_pods_loop params n podList []"

section \<open>Commands\<close>

text \<open>
  How an execution ends: no executor could be created, the stream ended in time with or without an error, or
  the timeout came first, each with the times and what was written so far.
\<close>

datatype stream_err = CodeExitError int | StreamErr goerr

datatype exec_outcome =
    NoExecutor goerr
  | Streamed gotime gotime "stream_err option" string string
  | TimedOut gotime gotime string string

definition new_result :: "'sel pcmd_env \<Rightarrow> command_params \<Rightarrow> runCommandResult" where
  "new_result env params =
     \<lparr>rc_stdout = [], rc_stderr = [], rc_ExitCode = 0, rc_Name = cp_Name params, rc_Command = cp_Command params,
      rc_Timeout = pce_showDuration env (cp_Timeout params), rc_HitTimeout = False, rc_StartTime = 0, rc_EndTime = 0, rc_ExecError = []\<rparr>"

fun runCommandInPod :: "'sel pcmd_env \<Rightarrow> command_params \<Rightarrow> exec_outcome \<Rightarrow> stats \<Rightarrow> runCommandResult \<times> stats" where
  "runCommandInPod env params (NoExecutor err) st =
     ((new_result env params)\<lparr>rc_ExecError := err_msg err\<rparr>, st\<lparr>st_Execs := st_Execs st + 1\<rparr>)"
| "runCommandInPod env params (Streamed s e None out err) st =
     ((new_result env params)\<lparr>rc_StartTime := s, rc_EndTime := e, rc_stdout := out, rc_stderr := err\<rparr>, st\<lparr>st_Execs := st_Execs st + 1\<rparr>)"
| "runCommandInPod env params (Streamed s e (Some (CodeExitError code)) out err) st =
     ((new_result env params)\<lparr>rc_StartTime := s, rc_EndTime := e, rc_ExitCode := code, rc_stdout := out, rc_stderr := err\<rparr>,
      st\<lparr>st_Execs := st_Execs st + 1, st_NonZeroRCs := st_NonZeroRCs st + 1\<rparr>)"
| "runCommandInPod env params (Streamed s e (Some (StreamErr x)) out err) st =
     ((new_result env params)\<lparr>rc_StartTime := s, rc_EndTime := e, rc_ExecError := err_msg x\<rparr>, st\<lparr>st_Execs := st_Execs st + 1\<rparr>)"
| "runCommandInPod env params (TimedOut s e out err) st =
     ((new_result env params)\<lparr>rc_StartTime := s, rc_EndTime := e, rc_HitTimeout := True, rc_stdout := out, rc_stderr := err\<rparr>,
      st\<lparr>st_Execs := st_Execs st + 1, st_Timeouts := st_Timeouts st + 1\<rparr>)"

text \<open>The commands of a pod in the order in which they complete.\<close>

fun run_commands ::
  "'sel pcmd_env \<Rightarrow> (command_params \<times> exec_outcome) list \<Rightarrow> runCommandResult list \<Rightarrow> stats \<Rightarrow> runCommandResult list \<times> stats" where
  "run_commands env [] results st = (results, st)"
| "run_commands env ((command, outcome) # rest) results st =
     (case runCommandInPod env command outcome st of
        (c, st) \<Rightarrow>
          run_commands env rest (results @ [c])
            (if rc_ExecError c \<noteq> [] then st\<lparr>st_ExecErrors := st_ExecErrors st + 1\<rparr> else st))"

definition runAllCommandsInPod ::
  "'sel pcmd_env \<Rightarrow> 'sel periodic_params \<Rightarrow> CmdPod \<Rightarrow> (command_params \<times> exec_outcome) list \<Rightarrow> stats \<Rightarrow> runAllCommandsResult \<times> stats" where
  "runAllCommandsInPod env params pod completed st =
     (case run_commands env completed [] st of
        (cs, st) \<Rightarrow> (\<lparr>ra_Pod = po_Name pod, ra_Namespace = po_Namespace pod, ra_Container = pp_Container params, ra_Commands = cs\<rparr>, st))"

section \<open>The measurement\<close>

text \<open>
  \<open>pm_worker\<close>: a worker was started and has not exited.  The fields that \<^verbatim>\<open>start\<close> fills are nil before.
\<close>

record 'sel podPeriodicCommandMeasurement =
  pm_params :: "'sel periodic_params option"
  pm_isRunning :: bool
  pm_skipGather :: bool
  pm_worker :: bool
  pm_results :: "runAllCommandsResult list"
  pm_stats :: "stats option"

type_synonym 'sel ppc = "'sel podPeriodicCommandMeasurement"

definition podPeriodicCommandMeasurementName :: string where
  "podPeriodicCommandMeasurementName = ''PodPeriodicCommand''"

definition createPodPeriodicCommandMeasurement :: "'sel ppc" where
  "createPodPeriodicCommandMeasurement =
     \<lparr>pm_params = None, pm_isRunning = False, pm_skipGather = False, pm_worker = False, pm_results = [], pm_stats = None\<rparr>"

text \<open>What the executions of a tick do: pods with their completed commands, in the order in which the pods complete.\<close>

type_synonym tick_runs = "(CmdPod \<times> (command_params \<times> exec_outcome) list) list"

fun run_pods ::
  "'sel pcmd_env \<Rightarrow> 'sel periodic_params \<Rightarrow> tick_runs \<Rightarrow> runAllCommandsResult list \<Rightarrow> stats \<Rightarrow> runAllCommandsResult list \<times> stats" where
  "run_pods env params [] results st = (results, st)"
| "run_pods env params ((pod, completed) # rest) results st =
     (case runAllCommandsInPod env params pod completed st of (r, st) \<Rightarrow> run_pods env params rest (results @ [r]) st)"

definition doTick ::
  "'sel pcmd_env \<Rightarrow> 'sel periodic_params \<Rightarrow> CmdPod list \<Rightarrow> tick_runs \<Rightarrow> runAllCommandsResult list \<times> stats \<Rightarrow> runAllCommandsResult list \<times> stats" where
  "doTick env params podList runs = (\<lambda>(results, st).
     let st = st\<lparr>st_Ticks := st_Ticks st + 1\<rparr>
     in if length (getMaxNPods params (pp_Limit params) podList) = 0
        then (results, st\<lparr>st_TicksNoPods := st_TicksNoPods st + 1\<rparr>)
        else run_pods env params runs results st)"

text \<open>
  What the worker receives: ticks, the first of them its initial one, each with the listing of the store and
  the executions; and the close of the stop channel.  The flag tells whether the worker exits.
\<close>

datatype worker_event = Tick "CmdPod list" tick_runs | StopClosed

fun worker_loop ::
  "'sel pcmd_env \<Rightarrow> 'sel periodic_params \<Rightarrow> worker_event list \<Rightarrow> runAllCommandsResult list \<times> stats \<Rightarrow>
   bool \<times> runAllCommandsResult list \<times> stats" where
  "worker_loop env params [] rs = (False, rs)"
| "worker_loop env params (StopClosed # es) rs = (True, rs)"
| "worker_loop env params (Tick podList runs # es) rs = worker_loop env params es (doTick env params podList runs rs)"

definition commandWorker :: "'sel pcmd_env \<Rightarrow> worker_event list \<Rightarrow> 'sel ppc \<Rightarrow> 'sel ppc" where
  "commandWorker env events p =
     (case (pm_params p, pm_stats p) of
        (Some params, Some st) \<Rightarrow>
          (case worker_loop env params events (pm_results p, st) of
             (exited, results, st) \<Rightarrow> p\<lparr>pm_results := results, pm_stats := Some st, pm_worker := \<not> exited\<rparr>)
      | _ \<Rightarrow> p)"

definition zeroStats :: stats where
  "zeroStats = \<lparr>st_Execs = 0, st_ExecErrors = 0, st_Timeouts = 0, st_NonZeroRCs = 0, st_Measurements = 0, st_Ticks = 0, st_TicksNoPods = 0\<rparr>"

text \<open>The worker is a goroutine; its ticker panics for an interval that is not positive.\<close>

definition pc_start :: "'sel pcmd_env \<Rightarrow> 'sel periodic_params \<Rightarrow> 'sel ppc \<Rightarrow> (goerr option \<times> 'sel ppc) call_result" where
  "pc_start env params p =
     (if pm_isRunning p
      then Returns (Some (Errorf (podPeriodicCommandMeasurementName @ '': measurement already running'') []), p)
      else
        let p = p\<lparr>pm_params := Some params, pm_isRunning := True, pm_skipGather := False, pm_results := [], pm_stats := Some zeroStats\<rparr>
        in (case StartAndSync (pce_synced env) of
              Some err \<Rightarrow> Returns (Some err, p)
            | None \<Rightarrow> if pp_Interval params \<le> 0 then Panics else Returns (None, p\<lparr>pm_worker := True\<rparr>)))"

text \<open>Stopping waits for the worker, which receives \<open>events\<close> until it exits.\<close>

definition pc_stop :: "'sel pcmd_env \<Rightarrow> worker_event list \<Rightarrow> 'sel ppc \<Rightarrow> 'sel ppc call_result" where
  "pc_stop env events p =
     (if pm_isRunning p then
        let p = p\<lparr>pm_isRunning := False\<rparr>
        in if \<not> pm_worker p then Blocks
           else (let p = commandWorker env events p in if pm_worker p then Blocks else Returns p)
      else Returns p)"

definition getSummaryName :: "'sel pcmd_env \<Rightarrow> runAllCommandsResult \<Rightarrow> runCommandResult \<Rightarrow> string \<Rightarrow> string" where
  "getSummaryName env r c suffix =
     strings_Join [podPeriodicCommandMeasurementName, pce_format env (rc_StartTime c), ra_Namespace r, ra_Pod r, rc_Name c, suffix] ''-''"

definition output_summaries :: "'sel pcmd_env \<Rightarrow> runAllCommandsResult \<Rightarrow> runCommandResult \<Rightarrow> genericSummary list" where
  "output_summaries env r c =
     (if rc_stdout c \<noteq> [] then [CreateSummary (pce_now env) (getSummaryName env r c ''stdout'') ''txt'' (rc_stdout c)] else []) @
     (if rc_stderr c \<noteq> [] then [CreateSummary (pce_now env) (getSummaryName env r c ''stderr'') ''txt'' (rc_stderr c)] else [])"

definition in_pod :: "runAllCommandsResult \<Rightarrow> runCommandResult \<Rightarrow> string" where
  "in_pod r c = rc_Name c @ '' in pod '' @ ra_Namespace r @ ''/'' @ ra_Pod r"

definition command_failure :: "'sel periodic_params \<Rightarrow> runAllCommandsResult \<Rightarrow> runCommandResult \<Rightarrow> goerr option" where
  "command_failure params r c =
     (if pp_FailOnCommandError params \<and> rc_ExitCode c \<noteq> 0 then
        Some (Errorf (''unexpected non-zero RC while executing command '' @ in_pod r c @ '': got RC '' @ show_int (rc_ExitCode c)) [])
      else if pp_FailOnExecError params \<and> rc_ExecError c \<noteq> [] then
        Some (Errorf (''unexpected error while executing command '' @ in_pod r c @ '': '' @ rc_ExecError c) [])
      else if pp_FailOnTimeout params \<and> rc_HitTimeout c then
        Some (Errorf (''hit timeout of '' @ rc_Timeout c @ '' while executing command '' @ in_pod r c) [])
      else None)"

fun gather_results ::
  "'sel pcmd_env \<Rightarrow> 'sel periodic_params \<Rightarrow> (runAllCommandsResult \<times> runCommandResult) list \<Rightarrow>
   genericSummary list \<times> goerr option \<Rightarrow> genericSummary list \<times> goerr option" where
  "gather_results env params [] acc = acc"
| "gather_results env params ((r, c) # rest) (measurements, resultErr) =
     gather_results env params rest
       (measurements @ output_summaries env r c,
        if resultErr \<noteq> None then resultErr else command_failure params r c)"

definition all_commands :: "runAllCommandsResult list \<Rightarrow> (runAllCommandsResult \<times> runCommandResult) list" where
  "all_commands results = concat (map (\<lambda>r. map (Pair r) (ra_Commands r)) results)"

definition pc_gather ::
  "'sel pcmd_env \<Rightarrow> worker_event list \<Rightarrow> 'sel ppc \<Rightarrow> ((genericSummary list \<times> goerr option) \<times> 'sel ppc) call_result" where
  "pc_gather env events p =
     (case pc_stop env events p of
        Blocks \<Rightarrow> Blocks
      | Panics \<Rightarrow> Panics
      | Returns p \<Rightarrow>
     (case pce_prettyResults env (pm_results p) of
        Inl err \<Rightarrow> Returns (([], Some (Errorf (''unable to convert results to JSON: '' @ err_msg err) [err])), p)
      | Inr content \<Rightarrow>
          if pm_params p = None \<and> all_commands (pm_results p) \<noteq> [] then Panics
          else
            let m0 = CreateSummary (pce_now env) podPeriodicCommandMeasurementName ''json'' content;
                (measurements, resultErr) =
                  gather_results env (the (pm_params p)) (all_commands (pm_results p)) ([m0], None)
            in (case pm_stats p of
                  None \<Rightarrow> Panics
                | Some st \<Rightarrow>
                    let st = st\<lparr>st_Measurements := length measurements + 1\<rparr>;
                        p = p\<lparr>pm_stats := Some st\<rparr>
                    in (case pce_prettyStats env st of
                          Inl err \<Rightarrow> Returns (([], Some (Errorf (''unable to convert stats to JSON: '' @ err_msg err) [err])), p)
                        | Inr content \<Rightarrow>
                            Returns ((measurements @ [CreateSummary (pce_now env)
                              (strings_Join [podPeriodicCommandMeasurementName, ''stats''] ''-'') ''json'' content], resultErr), p)))))"

definition pc_Execute ::
  "'sel pcmd_env \<Rightarrow> worker_event list \<Rightarrow> MeasurementConfig \<Rightarrow> 'sel ppc \<Rightarrow>
   ((genericSummary list \<times> goerr option) \<times> 'sel ppc) call_result" where
  "pc_Execute env events config p =
     (case getString (mc_Params config) ''action'' of
        Inl err \<Rightarrow> Returns (([], Some err), p)
      | Inr action \<Rightarrow>
          if action = ''start'' then
            (case newPodPeriodCommandMeasurementParams env (mc_Params config) of
               Inl err \<Rightarrow> Returns (([], Some err), p\<lparr>pm_skipGather := True\<rparr>)
             | Inr params \<Rightarrow>
                 (case pc_start env params p of
                    Returns (err, p) \<Rightarrow> Returns (([], err), p)
                  | Blocks \<Rightarrow> Blocks
                  | Panics \<Rightarrow> Panics))
          else if action = ''gather'' then
            if pm_skipGather p then Returns (([], None), p) else pc_gather env events p
          else Returns (([], Some (Errorf (''unknown action '' @ action) [])), p))"

section \<open>The counters\<close>

definition tallied :: "runCommandResult list \<Rightarrow> stats \<Rightarrow> bool" where
  "tallied cs st \<longleftrightarrow> st_Execs st = length cs \<and>
     st_ExecErrors st = length (filter (\<lambda>c. rc_ExecError c \<noteq> []) cs) \<and>
     st_Timeouts st = length (filter rc_HitTimeout cs) \<and>
     st_NonZeroRCs st = length (filter (\<lambda>c. rc_ExitCode c \<noteq> 0) cs)"

text \<open>An exit error carries a code that is not zero.\<close>

fun exit_ok :: "exec_outcome \<Rightarrow> bool" where
  "exit_ok (Streamed _ _ (Some (CodeExitError code)) _ _) = (code \<noteq> 0)"
| "exit_ok _ = True"

lemma runCommandInPod_tallied:
  assumes "exit_ok out" and "tallied cs st" and "runCommandInPod env command out st = (c, st')"
  shows "tallied (cs @ [c]) (if rc_ExecError c \<noteq> [] then st'\<lparr>st_ExecErrors := st_ExecErrors st' + 1\<rparr> else st')"
    and "rc_Name c = cp_Name command" and "st_Ticks st' = st_Ticks st" and "st_TicksNoPods st' = st_TicksNoPods st"
  using assms by (cases "(env, command, out, st)" rule: runCommandInPod.cases; auto simp: tallied_def new_result_def)+

lemma run_commands_tallied:
  assumes "run_commands env completed results st = (results', st')"
    and "\<forall>(c, out) \<in> set completed. exit_ok out" and "tallied (cs @ results) st"
  shows "tallied (cs @ results') st' \<and> map rc_Name results' = map rc_Name results @ map (\<lambda>(c, _). cp_Name c) completed
    \<and> st_Ticks st' = st_Ticks st \<and> st_TicksNoPods st' = st_TicksNoPods st"
  using assms
proof (induction completed arbitrary: results st)
  case (Cons co rest)
  obtain command out where co: "co = (command, out)" by fastforce
  obtain c st1 where r: "runCommandInPod env command out st = (c, st1)" by fastforce
  let ?st = "if rc_ExecError c \<noteq> [] then st1\<lparr>st_ExecErrors := st_ExecErrors st1 + 1\<rparr> else st1"
  note step = runCommandInPod_tallied[OF _ Cons.prems(3) r]
  have ok: "exit_ok out" using Cons.prems(2) co by simp
  have "run_commands env rest (results @ [c]) ?st = (results', st')" using Cons.prems(1) co r by simp
  from Cons.IH[OF this] show ?case using Cons.prems(2) step[OF ok] co by auto
qed simp

definition commands_of :: "runAllCommandsResult list \<Rightarrow> runCommandResult list" where
  "commands_of results = concat (map ra_Commands results)"

text \<open>A result of a pod has one entry for every configured command.\<close>

definition complete :: "'sel periodic_params \<Rightarrow> runAllCommandsResult \<Rightarrow> bool" where
  "complete params r \<longleftrightarrow> mset (map rc_Name (ra_Commands r)) = mset (map cp_Name (pp_Commands params))"

definition runs_ok :: "'sel periodic_params \<Rightarrow> tick_runs \<Rightarrow> bool" where
  "runs_ok params runs \<longleftrightarrow> (\<forall>(pod, completed) \<in> set runs.
     mset (map fst completed) = mset (pp_Commands params) \<and> (\<forall>(c, out) \<in> set completed. exit_ok out))"

lemma run_pods_tallied:
  assumes "run_pods env params runs results st = (results', st')" and "runs_ok params runs"
    and "tallied (commands_of results) st" and "\<forall>r \<in> set results. complete params r"
  shows "tallied (commands_of results') st' \<and> (\<forall>r \<in> set results'. complete params r) \<and>
    length results' = length results + length runs \<and> st_Ticks st' = st_Ticks st \<and> st_TicksNoPods st' = st_TicksNoPods st"
  using assms
proof (induction runs arbitrary: results st)
  case (Cons pc rest)
  obtain pod completed where pc: "pc = (pod, completed)" by fastforce
  obtain cs st1 where r: "run_commands env completed [] st = (cs, st1)" by fastforce
  have ok: "mset (map fst completed) = mset (pp_Commands params)" "\<forall>(c, out) \<in> set completed. exit_ok out" "runs_ok params rest"
    using Cons.prems(2) pc by (auto simp: runs_ok_def)
  let ?r = "\<lparr>ra_Pod = po_Name pod, ra_Namespace = po_Namespace pod, ra_Container = pp_Container params, ra_Commands = cs\<rparr>"
  have t: "tallied (commands_of results @ cs) st1" "map rc_Name cs = map (\<lambda>(c, _). cp_Name c) completed"
      "st_Ticks st1 = st_Ticks st" "st_TicksNoPods st1 = st_TicksNoPods st"
    using run_commands_tallied[OF r ok(2), of "commands_of results"] Cons.prems(3) by simp_all
  have "mset (map (\<lambda>(c, _). cp_Name c) completed) = image_mset cp_Name (mset (map fst completed))"
    by (induction completed) auto
  then have "complete params ?r" using t(2) ok(1) by (simp add: complete_def)
  then have comp: "\<forall>r \<in> set (results @ [?r]). complete params r" using Cons.prems(4) by simp
  have run: "run_pods env params rest (results @ [?r]) st1 = (results', st')"
    using Cons.prems(1) pc r by (simp add: runAllCommandsInPod_def)
  have "tallied (commands_of (results @ [?r])) st1" using t(1) by (simp add: commands_of_def)
  from Cons.IH[OF run ok(3) this comp] show ?case using t(3,4) pc by simp
qed simp

section \<open>Pods of a tick\<close>

lemma max_pods_loop_bound:
  "int (length pods) < max 1 n \<Longrightarrow> int (length (max_pods_loop params n podList pods)) \<le> max 1 n"
  by (induction podList arbitrary: pods) (auto simp: Let_def)

lemma getMaxNPods_bound: "int (length (getMaxNPods params n podList)) \<le> max 1 n"
  unfolding getMaxNPods_def by (rule max_pods_loop_bound) auto

text \<open>A tick runs the commands in the pods that were chosen.\<close>

fun event_ok :: "'sel periodic_params \<Rightarrow> worker_event \<Rightarrow> bool" where
  "event_ok params (Tick podList runs) \<longleftrightarrow>
     mset (map fst runs) = mset (getMaxNPods params (pp_Limit params) podList) \<and> runs_ok params runs"
| "event_ok params StopClosed \<longleftrightarrow> True"

definition worker_inv :: "'sel periodic_params \<Rightarrow> runAllCommandsResult list \<times> stats \<Rightarrow> bool" where
  "worker_inv params = (\<lambda>(results, st). tallied (commands_of results) st \<and> (\<forall>r \<in> set results. complete params r) \<and>
     st_TicksNoPods st \<le> st_Ticks st \<and> int (length results) \<le> (int (st_Ticks st) - int (st_TicksNoPods st)) * max 1 (pp_Limit params))"

lemma doTick_inv:
  assumes "worker_inv params (results, st)" and "event_ok params (Tick podList runs)"
  shows "worker_inv params (doTick env params podList runs (results, st))"
proof (cases "getMaxNPods params (pp_Limit params) podList = []")
  case True
  then show ?thesis using assms(1) by (auto simp: doTick_def worker_inv_def tallied_def Let_def)
next
  case False
  let ?st = "st\<lparr>st_Ticks := st_Ticks st + 1\<rparr>"
  obtain results' st' where r: "run_pods env params runs results ?st = (results', st')" by fastforce
  have inv: "tallied (commands_of results) ?st" "\<forall>r \<in> set results. complete params r" "st_TicksNoPods st \<le> st_Ticks st"
    "int (length results) \<le> (int (st_Ticks st) - int (st_TicksNoPods st)) * max 1 (pp_Limit params)"
    using assms(1) by (auto simp: worker_inv_def tallied_def)
  have "length runs = length (getMaxNPods params (pp_Limit params) podList)"
    using assms(2) by (metis event_ok.simps(1) length_map size_mset)
  then have len: "int (length runs) \<le> max 1 (pp_Limit params)" using getMaxNPods_bound[of params "pp_Limit params" podList] by simp
  have res: "tallied (commands_of results') st'" "\<forall>r \<in> set results'. complete params r"
    "length results' = length results + length runs" "st_Ticks st' = st_Ticks st + 1" "st_TicksNoPods st' = st_TicksNoPods st"
    using run_pods_tallied[OF r _ inv(1,2)] assms(2) by auto
  have "int (st_Ticks st') - int (st_TicksNoPods st') = (int (st_Ticks st) - int (st_TicksNoPods st)) + 1" using res(4,5) by simp
  then have "int (length results') \<le> (int (st_Ticks st') - int (st_TicksNoPods st')) * max 1 (pp_Limit params)"
    using inv(4) len res(3) by (simp add: distrib_right)
  then show ?thesis using False r res inv(3) by (simp add: doTick_def worker_inv_def)
qed

lemma worker_loop_inv:
  "worker_inv params rs \<Longrightarrow> \<forall>e \<in> set events. event_ok params e \<Longrightarrow> worker_inv params (snd (worker_loop env params events rs))"
proof (induction events arbitrary: rs)
  case (Cons e events)
  obtain results st where rs: "rs = (results, st)" by fastforce
  then show ?case using Cons doTick_inv[of params results st] by (cases e) auto
qed simp

lemma worker_exits: "StopClosed \<in> set events \<Longrightarrow> fst (worker_loop env params events rs)"
proof (induction events arbitrary: rs)
  case (Cons e events)
  then show ?case by (cases e) auto
qed simp

text \<open>
  C19: the counters of PodPeriodicCommand match its results.  From a successful start on, whatever ticks its
  worker receives and in whatever order the commands and pods of a tick complete, the counters are the
  numbers of executed commands, of execution errors, of timeouts and of exit codes other than zero among
  the results, every result has each configured command once, and a tick runs in at most as many pods as
  the limit (one if the limit is not positive).
\<close>

theorem periodic_stats_match:
  assumes "pc_start env params p = Returns (None, p0)" and "\<forall>e \<in> set events. event_ok params e"
  shows "\<exists>st. pm_stats (commandWorker env events p0) = Some st \<and>
    (let results = pm_results (commandWorker env events p0); cs = concat (map ra_Commands results) in
     st_Execs st = length cs \<and> st_ExecErrors st = length (filter (\<lambda>c. rc_ExecError c \<noteq> []) cs) \<and>
     st_Timeouts st = length (filter rc_HitTimeout cs) \<and> st_NonZeroRCs st = length (filter (\<lambda>c. rc_ExitCode c \<noteq> 0) cs) \<and>
     (\<forall>r \<in> set results. mset (map rc_Name (ra_Commands r)) = mset (map cp_Name (pp_Commands params))) \<and>
     int (length results) \<le> (int (st_Ticks st) - int (st_TicksNoPods st)) * max 1 (pp_Limit params))"
proof -
  have p0: "pm_params p0 = Some params" "pm_results p0 = []" "pm_stats p0 = Some zeroStats"
    using assms(1) by (auto simp: pc_start_def Let_def split: if_splits option.splits)
  obtain ex results st where w: "worker_loop env params events ([], zeroStats) = (ex, results, st)" using prod_cases3 by blast
  have "worker_inv params ([], zeroStats)" by (simp add: worker_inv_def tallied_def commands_of_def zeroStats_def)
  from worker_loop_inv[OF this assms(2), of env] have inv: "worker_inv params (results, st)" by (simp add: w)
  have "pm_stats (commandWorker env events p0) = Some st" "pm_results (commandWorker env events p0) = results"
    using p0 w by (simp_all add: commandWorker_def)
  then show ?thesis using inv by (simp add: worker_inv_def tallied_def commands_of_def complete_def)
qed

section \<open>Gathering\<close>

definition fails :: "'sel periodic_params \<Rightarrow> runCommandResult \<Rightarrow> bool" where
  "fails params c \<longleftrightarrow> pp_FailOnCommandError params \<and> rc_ExitCode c \<noteq> 0 \<or> pp_FailOnExecError params \<and> rc_ExecError c \<noteq> []
     \<or> pp_FailOnTimeout params \<and> rc_HitTimeout c"

lemma command_failure_None: "command_failure params r c = None \<longleftrightarrow> \<not> fails params c"
  by (auto simp: command_failure_def fails_def)

lemma gather_results_error:
  "snd (gather_results env params rcs (ms, err)) = None \<longleftrightarrow> err = None \<and> (\<forall>(r, c) \<in> set rcs. \<not> fails params c)"
proof (induction rcs arbitrary: ms err)
  case (Cons rc rcs)
  obtain r c where rc: "rc = (r, c)" by fastforce
  show ?case by (cases err) (simp_all add: rc Cons.IH command_failure_None)
qed simp

lemma set_all_commands: "snd ` set (all_commands results) = set (commands_of results)"
  by (force simp: all_commands_def commands_of_def)

lemma no_failures_counted:
  assumes "tallied cs st"
  shows "(\<forall>c \<in> set cs. \<not> fails params c) \<longleftrightarrow>
    (pp_FailOnCommandError params \<longrightarrow> st_NonZeroRCs st = 0) \<and> (pp_FailOnExecError params \<longrightarrow> st_ExecErrors st = 0)
    \<and> (pp_FailOnTimeout params \<longrightarrow> st_Timeouts st = 0)"
  using assms by (auto simp: tallied_def fails_def filter_empty_conv)

text \<open>
  Gathering PodPeriodicCommand decides whether it failed.  Let the worker of a started measurement
  receive any ticks and then the stop.  Gathering returns, the measurement has stopped, and there is an
  error exactly if failing is enabled for a kind of failure whose counter is not zero.  The number of
  summaries is the one recorded in the statistics.
\<close>

theorem periodic_gather_decided:
  assumes start: "pc_start env params p = Returns (None, p0)" and ev: "\<forall>e \<in> set events. event_ok params e" "StopClosed \<in> set events"
    and json: "\<forall>x. \<exists>c. pce_prettyResults env x = Inr c" "\<forall>x. \<exists>c. pce_prettyStats env x = Inr c"
  shows "\<exists>summaries err p' st. pc_gather env events p0 = Returns ((summaries, err), p') \<and> \<not> pm_isRunning p' \<and> \<not> pm_worker p' \<and>
    pm_stats p' = Some st \<and> st_Measurements st = length summaries \<and>
    (err = None \<longleftrightarrow> (pp_FailOnCommandError params \<longrightarrow> st_NonZeroRCs st = 0) \<and> (pp_FailOnExecError params \<longrightarrow> st_ExecErrors st = 0)
       \<and> (pp_FailOnTimeout params \<longrightarrow> st_Timeouts st = 0))"
proof -
  have p0: "pm_params p0 = Some params" "pm_results p0 = []" "pm_stats p0 = Some zeroStats" "pm_isRunning p0" "pm_worker p0"
    using start by (auto simp: pc_start_def Let_def split: if_splits option.splits)
  obtain ex results st where w: "worker_loop env params events ([], zeroStats) = (ex, results, st)" using prod_cases3 by blast
  have ex: "ex" using ev(2) worker_exits[of events env params "([], zeroStats)"] w by simp
  have "worker_inv params ([], zeroStats)" by (simp add: worker_inv_def tallied_def commands_of_def zeroStats_def)
  from worker_loop_inv[OF this ev(1), of env] have t: "tallied (commands_of results) st" by (simp add: w worker_inv_def)
  let ?p = "p0\<lparr>pm_isRunning := False, pm_results := results, pm_stats := Some st, pm_worker := False\<rparr>"
  have stop: "pc_stop env events p0 = Returns ?p"
    using p0 w ex by (simp add: pc_stop_def commandWorker_def Let_def)
  obtain content where c: "pce_prettyResults env results = Inr content" using json(1) by blast
  let ?m0 = "CreateSummary (pce_now env) podPeriodicCommandMeasurementName ''json'' content"
  obtain ms err where g: "gather_results env params (all_commands results) ([?m0], None) = (ms, err)" by fastforce
  let ?st = "st\<lparr>st_Measurements := length ms + 1\<rparr>"
  obtain content' where c': "pce_prettyStats env ?st = Inr content'" using json(2) by blast
  have "err = None \<longleftrightarrow> (\<forall>(r, c) \<in> set (all_commands results). \<not> fails params c)"
    using gather_results_error[of env params "all_commands results" "[?m0]" None] g by simp
  also have "\<dots> \<longleftrightarrow> (\<forall>c \<in> snd ` set (all_commands results). \<not> fails params c)" by auto
  finally have err: "err = None \<longleftrightarrow> (\<forall>c \<in> set (commands_of results). \<not> fails params c)" by (simp only: set_all_commands)
  have "pc_gather env events p0 = Returns ((ms @ [CreateSummary (pce_now env)
      (strings_Join [podPeriodicCommandMeasurementName, ''stats''] ''-'') ''json'' content'], err), ?p\<lparr>pm_stats := Some ?st\<rparr>)"
    using stop p0(1) c g c' by (simp add: pc_gather_def)
  then show ?thesis using no_failures_counted[OF t, of params] err by simp
qed

text \<open>
  A failed start makes gathering hang.  When the informer does not sync, start reports the error but
  leaves the measurement running without a worker; from then on gather and Dispose wait for ever for the
  worker to exit.
\<close>

theorem failed_start_blocks_gather:
  assumes "\<not> pm_isRunning p" and "\<not> pm_worker p" and "\<not> pce_synced env"
  shows "\<exists>err p'. pc_start env params p = Returns (Some err, p') \<and> pc_stop env events p' = Blocks \<and> pc_gather env events p' = Blocks"
  using assms by (simp add: pc_start_def StartAndSync_def pc_stop_def pc_gather_def Let_def)

section \<open>Example\<close>

definition demo_command :: command_params where
  "demo_command = \<lparr>cp_Name = ''cpu'', cp_Command = [''pprof''], cp_Timeout = 5\<rparr>"

definition demo_periodic :: "unit periodic_params" where
  "demo_periodic = \<lparr>pp_LabelSelector = (), pp_Interval = 10, pp_Container = ''app'', pp_Limit = 1, pp_FailOnCommandError = True,
     pp_FailOnExecError = False, pp_FailOnTimeout = False, pp_Commands = [demo_command]\<rparr>"

definition demo_cmd_pod :: CmdPod where
  "demo_cmd_pod = \<lparr>po_Namespace = ''ns'', po_Name = ''pod'', po_Controller = None, po_CreationTimestamp = 0, po_DeletionTimestamp = None,
     po_NodeName = ''n'', po_Volumes = [], po_Phase = PodRunning, po_Conditions = [\<lparr>pc_Type = ''Ready'', pc_Status = ''True''\<rparr>],
     po_ContainerStatuses = [], po_Containers = [''app'']\<rparr>"

definition demo_pcmd_env :: "bool \<Rightarrow> unit pcmd_env" where
  "demo_pcmd_env synced = \<lparr>pce_parseSelector = \<lambda>_. Inr (), pce_parseDuration = \<lambda>_. Inr 1, pce_sprintv = \<lambda>_. [], pce_showDuration = \<lambda>_. [],
     pce_format = \<lambda>_. [], pce_prettyResults = \<lambda>_. Inr [], pce_prettyStats = \<lambda>_. Inr [], pce_synced = synced, pce_now = 0\<rparr>"

definition demo_ticks :: "worker_event list" where
  "demo_ticks = [Tick [demo_cmd_pod, demo_cmd_pod] [(demo_cmd_pod, [(demo_command, Streamed 1 2 (Some (CodeExitError 7)) ''out'' [])])], StopClosed]"

lemma demo_tick_ok: "\<forall>e \<in> set demo_ticks. event_ok demo_periodic e"
  by (simp add: demo_ticks_def runs_ok_def getMaxNPods_def isApplicablePod_def demo_cmd_pod_def demo_periodic_def)

definition demo_started :: "unit ppc" where
  "demo_started = createPodPeriodicCommandMeasurement\<lparr>pm_params := Some demo_periodic, pm_isRunning := True, pm_stats := Some zeroStats, pm_worker := True\<rparr>"

lemma demo_start: "pc_start (demo_pcmd_env True) demo_periodic createPodPeriodicCommandMeasurement = Returns (None, demo_started)"
  by (simp add: pc_start_def createPodPeriodicCommandMeasurement_def StartAndSync_def demo_pcmd_env_def demo_periodic_def demo_started_def)

theorem periodic_stats_match_witness:
  "\<exists>st. pm_stats (commandWorker (demo_pcmd_env True) demo_ticks demo_started) = Some st \<and>
     int (length (pm_results (commandWorker (demo_pcmd_env True) demo_ticks demo_started))) \<le> int (st_Ticks st) - int (st_TicksNoPods st)"
  using periodic_stats_match[OF demo_start demo_tick_ok] by (auto simp: Let_def demo_periodic_def)

theorem periodic_gather_decided_witness:
  "\<exists>summaries err p'. pc_gather (demo_pcmd_env True) demo_ticks demo_started = Returns ((summaries, Some err), p')"
proof -
  have j: "\<forall>x. \<exists>c. pce_prettyResults (demo_pcmd_env True) x = Inr c" "\<forall>x. \<exists>c. pce_prettyStats (demo_pcmd_env True) x = Inr c"
    "StopClosed \<in> set demo_ticks"
    by (simp_all add: demo_pcmd_env_def demo_ticks_def)
  obtain summaries err p' st where g: "pc_gather (demo_pcmd_env True) demo_ticks demo_started = Returns ((summaries, err), p')"
    "pm_stats p' = Some st" "err = None \<longleftrightarrow> st_NonZeroRCs st = 0"
    using periodic_gather_decided[OF demo_start demo_tick_ok j(3,1,2)] by (auto simp: demo_periodic_def)
  have "\<forall>p. pc_gather (demo_pcmd_env True) demo_ticks demo_started = Returns p \<longrightarrow> map_option st_NonZeroRCs (pm_stats (snd p)) = Some 1"
    by (simp add: pc_gather_def pc_stop_def demo_started_def commandWorker_def demo_ticks_def doTick_def getMaxNPods_def isApplicablePod_def
        demo_cmd_pod_def demo_periodic_def runAllCommandsInPod_def new_result_def zeroStats_def createPodPeriodicCommandMeasurement_def
        demo_pcmd_env_def all_commands_def Let_def split: prod.splits)
  then have "st_NonZeroRCs st = 1" using g(1,2) by auto
  then show ?thesis using g by (cases err) auto
qed

theorem failed_start_blocks_gather_witness:
  "\<exists>err p'. pc_start (demo_pcmd_env False) demo_periodic createPodPeriodicCommandMeasurement = Returns (Some err, p')
     \<and> pc_gather (demo_pcmd_env False) [] p' = Blocks"
  using failed_start_blocks_gather[of createPodPeriodicCommandMeasurement "demo_pcmd_env False" demo_periodic "[]"]
  by (auto simp: createPodPeriodicCommandMeasurement_def demo_pcmd_env_def)

end
