(* ===== verification/Api_Availability.thy ===== *)
theory Api_Availability
  imports Pod_Command Go_Float "HOL-Library.Multiset"
begin

text \<open>
  The measurement APIAvailability (\<^verbatim>\<open>api_availability_measurement.go\<close> and \<^verbatim>\<open>api_availability_metrics.go\<close> of
  \<^verbatim>\<open>clusterloader2/pkg/measurement/common\<close>).  Its goroutine probes the API server until it is paused or stopped; the
  calls talk to it over channels without a buffer while they hold the lock.  The goroutine and the call in
  progress are the parts of a step relation.
\<close>

section \<open>Durations and numbers as text\<close>

text \<open>\<^verbatim>\<open>time.Duration.String\<close>: the fraction without its trailing zeros; the micro sign is two bytes of UTF-8.\<close>

fun digits :: "nat \<Rightarrow> nat \<Rightarrow> string" where
  "digits 0 v = []"
| "digits (Suc prec) v = digits prec (v div 10) @ [digit_char (v mod 10)]"

definition fmtFrac :: "nat \<Rightarrow> nat \<Rightarrow> string" where
  "fmtFrac prec v =
     (let ds = rev (dropWhile (\<lambda>c. c = CHR ''0'') (rev (digits prec v)))
      in if ds = [] then [] else CHR ''.'' # ds)"

definition Duration_String :: "duration \<Rightarrow> string" where
  "Duration_String d =
     (let u = nat \<bar>d\<bar>;
          s = (if u = 0 then ''0s''
               else if u < 1000 then show_nat u @ ''ns''
               else if u < 1000000 then show_nat (u div 1000) @ fmtFrac 3 u @ [CHR 0xC2, CHR 0xB5] @ ''s''
               else if u < 1000000000 then show_nat (u div 1000000) @ fmtFrac 6 u @ ''ms''
               else
                 let secs = u div 1000000000; mins = secs div 60; hours = mins div 60
                 in (if hours > 0 then show_nat hours @ ''h'' else []) @
                    (if mins > 0 then show_nat (mins mod 60) @ ''m'' else []) @
                    show_nat (secs mod 60) @ fmtFrac 9 u @ ''s'')
      in if d < 0 then CHR ''-'' # s else s)"

text \<open>\<^verbatim>\<open>%.2f\<close>.\<close>

definition fmt_2f :: "rat \<Rightarrow> string" where
  "fmt_2f q =
     (let n = nat (round_half_even (\<bar>q\<bar> * 100))
      in (if q < 0 then ''-'' else []) @ show_nat (n div 100) @ ''.'' @ show_02 (n mod 100))"

section \<open>Metrics\<close>

record apiAvailabilityMetrics =
  am_numSuccesses :: int
  am_numFailures :: int
  am_maxConsecutiveFailedProbes :: int
  am_consecutiveFailedProbes :: int

definition zeroMetrics :: apiAvailabilityMetrics where
  "zeroMetrics = \<lparr>am_numSuccesses = 0, am_numFailures = 0, am_maxConsecutiveFailedProbes = 0, am_consecutiveFailedProbes = 0\<rparr>"

record apiAvailabilitySummary =
  as_IP :: string
  as_AvailabilityPercentage :: rat
  as_LongestUnavailablePeriod :: string

record apiAvailabilityOutput =
  ao_ClusterSummary :: apiAvailabilitySummary
  ao_HostSummaries :: "apiAvailabilitySummary list"

definition am_update :: "bool \<Rightarrow> apiAvailabilityMetrics \<Rightarrow> apiAvailabilityMetrics" where
  "am_update availability a =
     (if availability
      then a\<lparr>am_numSuccesses := wrap 64 (am_numSuccesses a + 1), am_consecutiveFailedProbes := 0\<rparr>
      else
        let a = a\<lparr>am_numFailures := wrap 64 (am_numFailures a + 1),
                  am_consecutiveFailedProbes := wrap 64 (am_consecutiveFailedProbes a + 1)\<rparr>
        in if am_consecutiveFailedProbes a > am_maxConsecutiveFailedProbes a
           then a\<lparr>am_maxConsecutiveFailedProbes := am_consecutiveFailedProbes a\<rparr> else a)"

definition availabilityPercentage :: "apiAvailabilityMetrics \<Rightarrow> rat" where
  "availabilityPercentage a =
     (if am_numSuccesses a > 0 \<or> am_numFailures a > 0
      then fl (fl (fl (of_int (am_numSuccesses a)) / fl (of_int (wrap 64 (am_numSuccesses a + am_numFailures a)))) * 100)
      else 100)"

definition buildSummary :: "duration \<Rightarrow> string \<Rightarrow> apiAvailabilityMetrics \<Rightarrow> apiAvailabilitySummary" where
  "buildSummary pollFrequency hostIP a =
     \<lparr>as_IP = hostIP, as_AvailabilityPercentage = availabilityPercentage a,
      as_LongestUnavailablePeriod = Duration_String (wrap 64 (am_maxConsecutiveFailedProbes a * pollFrequency))\<rparr>"

text \<open>\<open>None\<close> is the panic on a nil pointer.\<close>

fun createHostSummary ::
  "(string, apiAvailabilityMetrics) gomap \<Rightarrow> string list \<Rightarrow> duration \<Rightarrow> apiAvailabilitySummary list option" where
  "createHostSummary metrics [] pollFrequency = Some []"
| "createHostSummary metrics (ip # ips) pollFrequency =
     (case map_of metrics ip of
        None \<Rightarrow> None
      | Some a \<Rightarrow> map_option (Cons (buildSummary pollFrequency ip a)) (createHostSummary metrics ips pollFrequency))"

definition createClusterSummary :: "apiAvailabilityMetrics option \<Rightarrow> duration \<Rightarrow> apiAvailabilitySummary option" where
  "createClusterSummary metrics pollFrequency = map_option (buildSummary pollFrequency []) metrics"

section \<open>The measurement\<close>

text \<open>
  Where the goroutine is: it does not run, it is at the head of its loop, it waits for a message that ends
  the pause, it has received one, it waits for an event, it has received a message to pause.
\<close>

datatype prober = NoProber | AtHead | AwaitUnpause | Unpausing | AwaitEvent | Pausing

text \<open>The call that holds the lock: none, one that sends on a channel, one that waits for the goroutine.\<close>

datatype lock_holder = Nobody | SendingPause | SendingUnpause | WaitingProber

record apiAvailabilityMeasurement =
  av_isRunning :: bool
  av_isPaused :: bool
  av_stopped :: bool
  av_pollFrequency :: duration
  av_hostIPs :: "string list"
  av_summaries :: "genericSummary list"
  av_clusterLevelMetrics :: "apiAvailabilityMetrics option"
  av_threshold :: rat
  av_useHostPublicIPs :: bool
  av_useHostInternalIPs :: bool
  av_hostLevelMetrics :: "(string, apiAvailabilityMetrics) gomap"
  av_hostPollTimeoutSeconds :: int
  av_hostPollExecTimeoutSeconds :: int
  av_prober :: prober
  av_holder :: lock_holder

type_synonym avm = apiAvailabilityMeasurement

definition createAPIAvailabilityMeasurement :: avm where
  "createAPIAvailabilityMeasurement =
     \<lparr>av_isRunning = False, av_isPaused = False, av_stopped = False, av_pollFrequency = 0, av_hostIPs = [],
      av_summaries = [], av_clusterLevelMetrics = None, av_threshold = 0, av_useHostPublicIPs = False,
      av_useHostInternalIPs = False, av_hostLevelMetrics = [], av_hostPollTimeoutSeconds = 0,
      av_hostPollExecTimeoutSeconds = 0, av_prober = NoProber, av_holder = Nobody\<rparr>"

record avail_env =
  ave_execEnabled :: bool
  ave_MasterIPs :: "string list"
  ave_MasterInternalIPs :: "string list"
  ave_parseDuration :: "string \<Rightarrow> goerr + duration"
  ave_parseFloat :: "string \<Rightarrow> rat \<times> numerr option"
  ave_pretty :: "apiAvailabilityOutput \<Rightarrow> goerr + string"
  ave_now :: gotime

definition apiAvailabilityMeasurementName :: string where
  "apiAvailabilityMeasurementName = ''APIAvailability''"

definition hostLevelAvailabilityEnabled :: "avm \<Rightarrow> bool" where
  "hostLevelAvailabilityEnabled a \<longleftrightarrow> length (av_hostLevelMetrics a) > 0"

text \<open>The command that polls a host, with the outcomes of \<^verbatim>\<open>execservice.GetPod\<close> and of running it in that pod.\<close>

definition poll_cmd :: "avm \<Rightarrow> string \<Rightarrow> string" where
  "poll_cmd a hostIP =
     ''curl --connect-timeout '' @ show_int (av_hostPollTimeoutSeconds a) @ '' -s -k -w '' @
     [CHR 0x22] @ ''%{http_code}'' @ [CHR 0x22] @ '' -o /dev/null https://'' @ hostIP @ '':443/readyz''"

definition pollHost :: "avm \<Rightarrow> (goerr + (string \<Rightarrow> string \<times> goerr option)) \<Rightarrow> string \<Rightarrow> string \<times> goerr option" where
  "pollHost a getPod hostIP =
     (case getPod of
        Inl err \<Rightarrow> ([], Some (Errorf (''problem with GetPod(): '' @ err_msg err) [err]))
      | Inr runCommand \<Rightarrow>
          (case runCommand (poll_cmd a hostIP) of
             (output, Some err) \<Rightarrow>
               ([], Some (Errorf (''problem with RunCommand(): output='' @ CHR 0x22 # output @ CHR 0x22 # '', err='' @ err_msg err) [err]))
           | (output, None) \<Rightarrow> (output, None)))"

type_synonym host_answers = "(string \<times> (goerr + (string \<Rightarrow> string \<times> goerr option))) list"

text \<open>
  The goroutines that poll the hosts update the metrics in the order in which they get the mutex: \<open>answers\<close> has
  an entry for each of them.
\<close>

fun update_hosts :: "avm \<Rightarrow> host_answers \<Rightarrow> (string, apiAvailabilityMetrics) gomap \<Rightarrow> (string, apiAvailabilityMetrics) gomap option" where
  "update_hosts a [] metrics = Some metrics"
| "update_hosts a ((ip, answer) # answers) metrics =
     (case map_of metrics ip of
        None \<Rightarrow> None
      | Some h \<Rightarrow>
          update_hosts a answers (AList.update ip (am_update (fst (pollHost a answer ip) = show_int 200) h) metrics))"

definition updateHostAvailabilityMetrics :: "host_answers \<Rightarrow> avm \<Rightarrow> avm option" where
  "updateHostAvailabilityMetrics answers a =
     map_option (\<lambda>hs. a\<lparr>av_hostLevelMetrics := hs\<rparr>) (update_hosts a answers (av_hostLevelMetrics a))"

definition updateClusterAvailabilityMetrics :: "int \<Rightarrow> avm \<Rightarrow> avm option" where
  "updateClusterAvailabilityMetrics status a =
     map_option (\<lambda>m. a\<lparr>av_clusterLevelMetrics := Some (am_update (status = 200) m)\<rparr>) (av_clusterLevelMetrics a)"

definition probe :: "int \<Rightarrow> host_answers \<Rightarrow> avm \<Rightarrow> avm option" where
  "probe status answers a =
     Option.bind (updateClusterAvailabilityMetrics status a)
       (\<lambda>a. if hostLevelAvailabilityEnabled a then updateHostAvailabilityMetrics answers a else Some a)"

definition addHostIPs :: "avail_env \<Rightarrow> params \<Rightarrow> avm \<Rightarrow> goerr option \<times> avm" where
  "addHostIPs env ps a =
     (if \<not> ave_execEnabled env
      then (Some (Errorf (apiAvailabilityMeasurementName @ '': exec service is not enabled, cannot measure availability through host IPs'') []), a)
      else if av_useHostInternalIPs a \<and> ave_MasterInternalIPs env = []
      then (Some (Errorf (apiAvailabilityMeasurementName @ '': host internal IP(s) are not provided, cannot measure availability through internal IPs'') []), a)
      else
        let a = (if av_useHostInternalIPs a then a\<lparr>av_hostIPs := ave_MasterInternalIPs env\<rparr> else a)
        in if av_useHostPublicIPs a \<and> ave_MasterIPs env = []
           then (Some (Errorf (apiAvailabilityMeasurementName @ '': host public IP(s) are not provided, cannot measure availability through public IPs'') []), a)
           else
             let a = (if av_useHostPublicIPs a then a\<lparr>av_hostIPs := av_hostIPs a @ ave_MasterIPs env\<rparr> else a);
                 a = a\<lparr>av_hostLevelMetrics := fold (\<lambda>ip. AList.update ip zeroMetrics) (av_hostIPs a) []\<rparr>
             in (case GetIntOrDefault ps ''hostPollTimeoutSeconds'' 5 of
                   Inl err \<Rightarrow> (Some err, a)
                 | Inr n \<Rightarrow>
                     let a = a\<lparr>av_hostPollTimeoutSeconds := n\<rparr>
                     in (case GetIntOrDefault ps ''hostPollExecTimeoutSeconds'' 10 of
                           Inl err \<Rightarrow> (Some err, a)
                         | Inr n \<Rightarrow> (None, a\<lparr>av_hostPollExecTimeoutSeconds := n\<rparr>))))"

definition av_initFields :: "avail_env \<Rightarrow> params \<Rightarrow> avm \<Rightarrow> goerr option \<times> avm" where
  "av_initFields env ps a =
     (let a = a\<lparr>av_isRunning := True, av_stopped := False\<rparr>
      in (case getDuration (ave_parseDuration env) ps ''pollFrequency'' of
            Inl err \<Rightarrow> (Some err, a)
          | Inr frequency \<Rightarrow>
     (let a = a\<lparr>av_pollFrequency := frequency\<rparr>
      in (case GetFloat64OrDefault (ave_parseFloat env) ps ''threshold'' 0 of
            Inl err \<Rightarrow> (Some err, a)
          | Inr threshold \<Rightarrow>
     (let a = a\<lparr>av_threshold := threshold, av_clusterLevelMetrics := Some zeroMetrics\<rparr>
      in (case GetBoolOrDefault ps ''useHostInternalIPs'' (ave_execEnabled env \<and> ave_MasterInternalIPs env \<noteq> []) of
            Inl err \<Rightarrow> (Some err, a\<lparr>av_useHostInternalIPs := False\<rparr>)
          | Inr internal \<Rightarrow>
     (let a = a\<lparr>av_useHostInternalIPs := internal\<rparr>
      in (case GetBoolOrDefault ps ''useHostPublicIPs'' False of
            Inl err \<Rightarrow> (Some err, a\<lparr>av_useHostPublicIPs := False\<rparr>)
          | Inr public \<Rightarrow>
     (let a = a\<lparr>av_useHostPublicIPs := public\<rparr>
      in if internal \<or> public then addHostIPs env ps a else (None, a))))))))))"

text \<open>The client is given, so after the initialisation only the goroutine is left to launch.\<close>

definition av_start :: "avail_env \<Rightarrow> params \<Rightarrow> avm \<Rightarrow> goerr option \<times> avm" where
  "av_start env ps a =
     (if av_isRunning a then (None, a)
      else
        (case av_initFields env ps a of
           (Some err, a) \<Rightarrow> (Some err, a)
         | (None, a) \<Rightarrow> (None, a\<lparr>av_prober := AtHead\<rparr>)))"

text \<open>Pausing and its end: \<open>False\<close> if the call returns at once, \<open>True\<close> if it sends on the channel first.\<close>

definition av_pause :: "avm \<Rightarrow> bool" where
  "av_pause a \<longleftrightarrow> av_isRunning a \<and> \<not> av_isPaused a"

definition av_unpause :: "avm \<Rightarrow> bool" where
  "av_unpause a \<longleftrightarrow> av_isRunning a \<and> av_isPaused a"

text \<open>What gathering does when the goroutine has ended; \<open>None\<close> is a panic.\<close>

definition av_output :: "avm \<Rightarrow> apiAvailabilityOutput option" where
  "av_output a =
     Option.bind (createClusterSummary (av_clusterLevelMetrics a) (av_pollFrequency a))
       (\<lambda>cluster. map_option (\<lambda>hosts. \<lparr>ao_ClusterSummary = cluster, ao_HostSummaries = hosts\<rparr>)
          (if hostLevelAvailabilityEnabled a
           then createHostSummary (av_hostLevelMetrics a) (av_hostIPs a) (av_pollFrequency a) else Some []))"

definition av_gathered :: "avail_env \<Rightarrow> avm \<Rightarrow> ((genericSummary list \<times> goerr option) \<times> avm) option" where
  "av_gathered env a =
     (let a = a\<lparr>av_isRunning := False\<rparr>
      in map_option (\<lambda>output.
           case ave_pretty env output of
             Inl err \<Rightarrow> (([], Some err), a)
           | Inr content \<Rightarrow>
               let a = a\<lparr>av_summaries := av_summaries a @ [CreateSummary (ave_now env) apiAvailabilityMeasurementName ''json'' content]\<rparr>;
                   sli = as_AvailabilityPercentage (ao_ClusterSummary output);
                   err = (if sli < av_threshold a
                          then Some (NewMetricViolationError ''API availability''
                            (''SLO not fulfilled (expected >= '' @ fmt_2f (av_threshold a) @ '', got: '' @ fmt_2f sli @ '')''))
                          else None)
               in ((av_summaries a, err), a))
         (av_output a))"

text \<open>
  The beginning of a call: it returns a reply, or it has taken the lock and waits.
\<close>

definition av_Execute :: "avail_env \<Rightarrow> MeasurementConfig \<Rightarrow> avm \<Rightarrow> (genericSummary list \<times> goerr option) option \<times> avm" where
  "av_Execute env config a =
     (case getString (mc_Params config) ''action'' of
        Inl err \<Rightarrow> (Some ([], Some err), a)
      | Inr action \<Rightarrow>
          if action = ''start'' then (case av_start env (mc_Params config) a of (err, a) \<Rightarrow> (Some ([], err), a))
          else if action = ''pause'' then
            (if av_pause a then (None, a\<lparr>av_holder := SendingPause\<rparr>) else (Some ([], None), a))
          else if action = ''unpause'' then
            (if av_unpause a then (None, a\<lparr>av_holder := SendingUnpause\<rparr>) else (Some ([], None), a))
          else if action = ''gather'' then
            (if \<not> av_isRunning a then (Some ([], None), a)
             else (None, a\<lparr>av_stopped := True, av_holder := WaitingProber\<rparr>))
          else (Some ([], Some (Errorf (''unknown action '' @ action) [])), a))"

section \<open>Steps\<close>

datatype av_label =
    Call MeasurementConfig "(genericSummary list \<times> goerr option) option"
  | SentReply
  | Probe int host_answers
  | ProbePanic
  | Gathered "genericSummary list \<times> goerr option"
  | GatherPanic
  | Silent

text \<open>
  A call is between taking and releasing the lock, except for an error in the parameter action, which needs no
  lock: then nobody else is affected.
\<close>

inductive av_step :: "avail_env \<Rightarrow> avm \<Rightarrow> av_label \<Rightarrow> avm \<Rightarrow> bool" for env where
  call: "av_holder a = Nobody \<Longrightarrow> av_Execute env config a = (reply, a') \<Longrightarrow> av_step env a (Call config reply) a'"
| head_paused: "av_prober a = AtHead \<Longrightarrow> av_isPaused a \<Longrightarrow> av_step env a Silent (a\<lparr>av_prober := AwaitUnpause\<rparr>)"
| head_running: "av_prober a = AtHead \<Longrightarrow> \<not> av_isPaused a \<Longrightarrow> av_step env a Silent (a\<lparr>av_prober := AwaitEvent\<rparr>)"
| recv_unpause: "av_prober a = AwaitUnpause \<Longrightarrow> av_holder a = SendingUnpause \<Longrightarrow>
    av_step env a SentReply (a\<lparr>av_prober := Unpausing, av_holder := Nobody\<rparr>)"
| set_unpaused: "av_prober a = Unpausing \<Longrightarrow> av_step env a Silent (a\<lparr>av_isPaused := False, av_prober := AwaitEvent\<rparr>)"
| stop_paused: "av_prober a = AwaitUnpause \<Longrightarrow> av_stopped a \<Longrightarrow> av_step env a Silent (a\<lparr>av_prober := NoProber\<rparr>)"
| recv_pause: "av_prober a = AwaitEvent \<Longrightarrow> av_holder a = SendingPause \<Longrightarrow>
    av_step env a SentReply (a\<lparr>av_prober := Pausing, av_holder := Nobody\<rparr>)"
| set_paused: "av_prober a = Pausing \<Longrightarrow> av_step env a Silent (a\<lparr>av_isPaused := True, av_prober := AtHead\<rparr>)"
| tick: "av_prober a = AwaitEvent \<Longrightarrow> mset (map fst answers) = mset (av_hostIPs a) \<Longrightarrow> probe status answers a = Some a' \<Longrightarrow>
    av_step env a (Probe status answers) (a'\<lparr>av_prober := AtHead\<rparr>)"
| tick_panic: "av_prober a = AwaitEvent \<Longrightarrow> mset (map fst answers) = mset (av_hostIPs a) \<Longrightarrow> probe status answers a = None \<Longrightarrow>
    av_step env a ProbePanic (a\<lparr>av_prober := NoProber\<rparr>)"
| stop_running: "av_prober a = AwaitEvent \<Longrightarrow> av_stopped a \<Longrightarrow> av_step env a Silent (a\<lparr>av_prober := NoProber\<rparr>)"
| gathered: "av_holder a = WaitingProber \<Longrightarrow> av_prober a = NoProber \<Longrightarrow> av_gathered env a = Some (r, a') \<Longrightarrow>
    av_step env a (Gathered r) (a'\<lparr>av_holder := Nobody\<rparr>)"
| gather_panic: "av_holder a = WaitingProber \<Longrightarrow> av_prober a = NoProber \<Longrightarrow> av_gathered env a = None \<Longrightarrow>
    av_step env a GatherPanic (a\<lparr>av_isRunning := False, av_holder := Nobody\<rparr>)"

inductive av_run :: "avail_env \<Rightarrow> avm \<Rightarrow> av_label list \<Rightarrow> avm \<Rightarrow> bool" for env where
  run_nil: "av_run env a [] a"
| run_snoc: "av_run env a ls b \<Longrightarrow> av_step env b l c \<Longrightarrow> av_run env a (ls @ [l]) c"

section \<open>What the metrics count\<close>

text \<open>\<open>n\<close> failed probes in a row.\<close>

definition outage :: "bool list \<Rightarrow> nat \<Rightarrow> bool" where
  "outage ps n \<longleftrightarrow> (\<exists>xs ys. ps = xs @ replicate n False @ ys)"

definition trailing :: "bool list \<Rightarrow> nat" where
  "trailing ps = length (takeWhile Not (rev ps))"

definition measured :: "bool list \<Rightarrow> apiAvailabilityMetrics" where
  "measured ps = fold am_update ps zeroMetrics"

lemma trailing_snoc [simp]: "trailing (ps @ [p]) = (if p then 0 else Suc (trailing ps))" "trailing [] = 0"
  by (simp_all add: trailing_def)

lemma trailing_le: "trailing ps \<le> length ps"
  by (metis trailing_def length_rev length_takeWhile_le)

lemma ends_in_outage: "(\<exists>xs. ps = xs @ replicate n False) \<longleftrightarrow> n \<le> trailing ps"
proof (induction ps arbitrary: n rule: rev_induct)
  case (snoc p ps)
  show ?case
  proof (cases n)
    case (Suc m)
    have "(\<exists>xs. ps @ [p] = xs @ replicate (Suc m) False) \<longleftrightarrow> \<not> p \<and> (\<exists>xs. ps = xs @ replicate m False)"
      by (simp flip: replicate_append_same add: append_assoc[symmetric] del: append_assoc) auto
    with snoc.IH[of m] Suc show ?thesis by auto
  qed simp
qed auto

lemma outage_0: "outage ps 0"
  by (auto simp: outage_def)

lemma outage_snoc: "outage (ps @ [p]) n \<longleftrightarrow> outage ps n \<or> \<not> p \<and> n \<le> Suc (trailing ps)"
proof -
  have "outage (ps @ [p]) n \<longleftrightarrow> outage ps n \<or> (\<exists>xs. ps @ [p] = xs @ replicate n False)"
  proof
    assume "outage (ps @ [p]) n"
    then obtain xs ys where "ps @ [p] = xs @ replicate n False @ ys" by (auto simp: outage_def)
    then show "outage ps n \<or> (\<exists>xs. ps @ [p] = xs @ replicate n False)"
      by (cases ys rule: rev_cases) (auto simp: outage_def simp flip: append_assoc)
  next
    assume "outage ps n \<or> (\<exists>xs. ps @ [p] = xs @ replicate n False)"
    then show "outage (ps @ [p]) n"
      unfolding outage_def by (metis append.assoc append_Nil2)
  qed
  then have "outage (ps @ [p]) n \<longleftrightarrow> outage ps n \<or> n \<le> trailing (ps @ [p])"
    by (simp only: ends_in_outage)
  then show ?thesis by (cases n) (auto simp: outage_0)
qed

lemma measured_counts:
  "int (length ps) < 2 ^ 63 \<Longrightarrow>
     am_numSuccesses (measured ps) = int (length (filter (\<lambda>p. p) ps)) \<and>
     am_numFailures (measured ps) = int (length (filter Not ps)) \<and>
     am_consecutiveFailedProbes (measured ps) = int (trailing ps) \<and>
     (\<forall>n. outage ps n \<longleftrightarrow> int n \<le> am_maxConsecutiveFailedProbes (measured ps))"
proof (induction ps rule: rev_induct)
  case Nil
  show ?case by (auto simp: measured_def zeroMetrics_def outage_def)
next
  case (snoc p ps)
  have le: "length (filter (\<lambda>p. p) ps) \<le> length ps" "length (filter Not ps) \<le> length ps" "trailing ps \<le> length ps"
    by (rule length_filter_le)+ (rule trailing_le)
  have ok: "wrap 64 (int k + 1) = int k + 1" if "k \<le> length ps" for k
    using that snoc.prems by (intro wrap_id) (auto simp: fits_def)
  have step: "measured (ps @ [p]) = am_update p (measured ps)" by (simp add: measured_def)
  from snoc have IH: "am_numSuccesses (measured ps) = int (length (filter (\<lambda>p. p) ps))"
    "am_numFailures (measured ps) = int (length (filter Not ps))"
    "am_consecutiveFailedProbes (measured ps) = int (trailing ps)"
    "\<And>n. outage ps n \<longleftrightarrow> int n \<le> am_maxConsecutiveFailedProbes (measured ps)" by auto
  show ?case
    by (auto simp: step am_update_def Let_def IH ok le outage_snoc)
qed

lemma measured_total:
  assumes "int (length ps) < 2 ^ 63"
  shows "wrap 64 (am_numSuccesses (measured ps) + am_numFailures (measured ps)) = int (length ps)"
proof -
  have "length (filter (\<lambda>p. p) ps) + length (filter Not ps) = length ps"
    using sum_length_filter_compl[of "\<lambda>p. p" ps] by simp
  then have "am_numSuccesses (measured ps) + am_numFailures (measured ps) = int (length ps)"
    using measured_counts[OF assms] by (metis of_nat_add)
  moreover have "wrap 64 (int (length ps)) = int (length ps)"
    using assms by (intro wrap_id) (auto simp: fits_def)
  ultimately show ?thesis by simp
qed

lemma percentage_of_measured:
  assumes "int (length ps) \<le> 2 ^ 53"
  shows "availabilityPercentage (measured ps) =
    (if ps = [] then 100 else fl (fl (of_nat (length (filter (\<lambda>p. p) ps)) / of_nat (length ps)) * 100))"
proof -
  have lt: "int (length ps) < 2 ^ 63" using assms by simp
  note c = measured_counts[OF lt] and t = measured_total[OF lt]
  have le: "length (filter (\<lambda>p. p) ps) \<le> length ps" by (rule length_filter_le)
  have e: "fl (of_nat n) = of_nat n" if "n \<le> length ps" for n
    using go_fl.rnd_int[of "int n"] that assms by simp
  have z: "ps = [] \<longleftrightarrow> filter (\<lambda>p. p) ps = [] \<and> filter Not ps = []" by (cases ps) auto
  show ?thesis
    unfolding availabilityPercentage_def t
    using c z by (auto simp: e le)
qed

text \<open>The percentage is exact at its ends, and a failed probe is not rounded away.\<close>

lemma percentage_all_ok: "int (length ps) \<le> 2 ^ 53 \<Longrightarrow> False \<notin> set ps \<Longrightarrow> availabilityPercentage (measured ps) = 100"
proof -
  assume len: "int (length ps) \<le> 2 ^ 53" and ok: "False \<notin> set ps"
  have "filter (\<lambda>p. p) ps = ps" using ok by (induction ps) auto
  then show ?thesis
    using go_fl.rnd_int[of 1] go_fl.rnd_int[of 100] by (simp add: percentage_of_measured[OF len])
qed

lemma percentage_failure:
  assumes "length ps < 2 ^ 50" and "False \<in> set ps"
  shows "availabilityPercentage (measured ps) < 100"
proof -
  define n :: rat where "n = of_nat (length ps)"
  define k :: rat where "k = of_nat (length (filter (\<lambda>p. p) ps))"
  have n1: "1 \<le> n" using assms(2) by (cases ps) (auto simp: n_def)
  have "length (filter (\<lambda>p. p) ps) < length ps"
    using assms(2) by (metis length_filter_less)
  then have kn: "k \<le> n - 1" by (simp add: k_def n_def le_diff_eq flip: of_nat_Suc)
  have k0: "0 \<le> k" by (simp add: k_def)
  have nn: "n < 2 ^ 50" unfolding n_def using assms(1) by (metis of_nat_less_iff of_nat_numeral of_nat_power)
  define x where "x = fl (k / n)"
  have x0: "0 \<le> x" using go_fl.rnd_nonneg[of "k / n"] k0 n1 by (simp add: x_def)
  have xe: "x \<le> k / n * (1 + 1 / 2 ^ 53)"
    using abs_le_D1[OF go_fl.rnd_err[of "k / n"]] k0 n1 by (simp add: x_def algebra_simps)
  have ye: "fl (x * 100) \<le> x * 100 * (1 + 1 / 2 ^ 53)"
    using abs_le_D1[OF go_fl.rnd_err[of "x * 100"]] x0 by (simp add: algebra_simps)
  have "x * 100 * (1 + 1 / 2 ^ 53) \<le> k / n * (1 + 1 / 2 ^ 53) * 100 * (1 + 1 / 2 ^ 53)"
    using xe by (intro mult_right_mono) auto
  also have "\<dots> = k / n * ((1 + 1 / 2 ^ 53) * (1 + 1 / 2 ^ 53)) * 100" by simp
  also have "\<dots> \<le> (1 - 1 / n) * ((1 + 1 / 2 ^ 53) * (1 + 1 / 2 ^ 53)) * 100"
    using kn n1 by (intro mult_right_mono) (auto simp: field_simps)
  also have "\<dots> \<le> (1 - 1 / 2 ^ 50) * ((1 + 1 / 2 ^ 53) * (1 + 1 / 2 ^ 53)) * 100"
    using nn n1 by (intro mult_right_mono) (auto simp: field_simps)
  also have "\<dots> < 100" by simp
  finally have "fl (x * 100) < 100" using ye by linarith
  moreover have "int (length ps) \<le> 2 ^ 53" using assms(1) by simp
  ultimately show ?thesis
    using n1 by (auto simp: percentage_of_measured x_def k_def n_def)
qed

section \<open>Runs\<close>

fun cluster_probes :: "av_label list \<Rightarrow> bool list" where
  "cluster_probes [] = []"
| "cluster_probes (Probe status answers # ls) = (status = 200) # cluster_probes ls"
| "cluster_probes (_ # ls) = cluster_probes ls"

lemma cluster_probes_append [simp]: "cluster_probes (ls @ ls') = cluster_probes ls @ cluster_probes ls'"
  by (induction ls rule: cluster_probes.induct) auto

definition gathering :: "av_label \<Rightarrow> bool" where
  "gathering l = (case l of Gathered r \<Rightarrow> True | GatherPanic \<Rightarrow> True | _ \<Rightarrow> False)"

text \<open>What stays between a start and the end of a gathering, apart from the metrics.\<close>

definition settings :: "avm \<Rightarrow> bool \<times> rat \<times> duration \<times> genericSummary list" where
  "settings a = (av_isRunning a, av_threshold a, av_pollFrequency a, av_summaries a)"

lemma av_Execute_settings:
  "av_Execute env c a = (r, a') \<Longrightarrow> av_isRunning a \<Longrightarrow>
     settings a' = settings a \<and> av_clusterLevelMetrics a' = av_clusterLevelMetrics a \<and> av_prober a' = av_prober a \<and>
     av_isPaused a' = av_isPaused a"
  by (auto simp: av_Execute_def av_start_def settings_def split: sum.splits if_splits prod.splits)

lemma probe_settings:
  "probe status answers a = Some a' \<Longrightarrow>
     settings a' = settings a \<and> av_hostIPs a' = av_hostIPs a \<and> av_holder a' = av_holder a \<and> av_isPaused a' = av_isPaused a \<and>
     av_clusterLevelMetrics a' = map_option (am_update (status = 200)) (av_clusterLevelMetrics a)"
  by (auto simp: probe_def updateClusterAvailabilityMetrics_def updateHostAvailabilityMetrics_def settings_def bind_eq_Some_conv
      split: if_splits)

lemma av_step_settings:
  "av_step env a l a' \<Longrightarrow> av_isRunning a \<Longrightarrow> \<not> gathering l \<Longrightarrow>
     settings a' = settings a \<and>
     av_clusterLevelMetrics a' = map_option (fold am_update (cluster_probes [l])) (av_clusterLevelMetrics a)"
  by (induction rule: av_step.induct)
     (auto simp: gathering_def settings_def option.map_id dest!: av_Execute_settings probe_settings)

lemma av_run_settings:
  "av_run env a ls b \<Longrightarrow> av_isRunning a \<Longrightarrow> \<not> list_ex gathering ls \<Longrightarrow>
     settings b = settings a \<and>
     av_clusterLevelMetrics b = map_option (fold am_update (cluster_probes ls)) (av_clusterLevelMetrics a)"
proof (induction rule: av_run.induct)
  case (run_nil a)
  then show ?case by (cases "av_clusterLevelMetrics a") auto
next
  case (run_snoc a ls b l c)
  then have b: "settings b = settings a"
    "av_clusterLevelMetrics b = map_option (fold am_update (cluster_probes ls)) (av_clusterLevelMetrics a)" by auto
  then have "av_isRunning b" using run_snoc.prems(1) by (simp add: settings_def)
  from av_step_settings[OF run_snoc.hyps(2) this] run_snoc.prems(2) b show ?case
    by (cases "av_clusterLevelMetrics a") auto
qed

lemma av_start_metrics:
  "av_start env ps m = (None, a) \<Longrightarrow> \<not> av_isRunning m \<Longrightarrow>
     av_isRunning a \<and> av_clusterLevelMetrics a = Some zeroMetrics \<and> av_summaries a = av_summaries m \<and> av_prober a = AtHead \<and>
     av_isPaused a = av_isPaused m \<and> av_holder a = av_holder m"
  by (auto simp: av_start_def av_initFields_def addHostIPs_def Let_def split: sum.splits prod.splits if_splits)

lemma av_gathered_ok:
  assumes "av_clusterLevelMetrics a = Some m" and "av_gathered env a = Some (r, a')" and "\<And>out. \<exists>c. ave_pretty env out = Inr c"
  shows "\<exists>out content. av_output a = Some out \<and> ave_pretty env out = Inr content \<and>
    ao_ClusterSummary out = buildSummary (av_pollFrequency a) [] m \<and>
    fst r = av_summaries a @ [CreateSummary (ave_now env) apiAvailabilityMeasurementName ''json'' content] \<and>
    (snd r = None \<longleftrightarrow> av_threshold a \<le> availabilityPercentage m) \<and> (\<forall>e. snd r = Some e \<longrightarrow> IsMetricViolationError e)"
proof -
  have out: "ao_ClusterSummary out = buildSummary (av_pollFrequency a) [] m" if "av_output a = Some out" for out
    using that assms(1) by (auto simp: av_output_def createClusterSummary_def)
  have same: "av_output (a\<lparr>av_isRunning := False\<rparr>) = av_output a"
    by (simp add: av_output_def hostLevelAvailabilityEnabled_def)
  obtain out where o: "av_output a = Some out"
    using assms(2) by (auto simp: av_gathered_def Let_def same)
  obtain content where c: "ave_pretty env out = Inr content" using assms(3) by blast
  show ?thesis
    using assms(2) out[OF o]
    by (intro exI[of _ out] exI[of _ content])
       (auto simp: av_gathered_def Let_def same o c buildSummary_def NewMetricViolationError_def IsMetricViolationError_def
         split: if_splits)
qed

inductive_cases av_gather_step: "av_step env a (Gathered r) a'"

text \<open>
  C11: a gathering decides the availability that was probed.  Whatever pauses and further calls came between the
  start and the gathering, its output has the percentage of the probes since the start that were answered with
  200, in floating point, and the length of the longest sequence of failed probes times the poll frequency.  The
  call reports a metric violation exactly if the percentage is below the threshold; with threshold 100 exactly
  if a probe failed.
\<close>

theorem api_availability_decided:
  assumes start: "av_start env ps m = (None, a0)" "\<not> av_isRunning m"
    and run: "av_run env a0 ls a" "\<not> list_ex gathering ls" "av_step env a (Gathered r) a'"
    and probes: "length (cluster_probes ls) < 2 ^ 50"
    and pretty: "\<And>out. \<exists>c. ave_pretty env out = Inr c"
  shows "\<exists>out content longest.
    ave_pretty env out = Inr content \<and>
    fst r = av_summaries m @ [CreateSummary (ave_now env) apiAvailabilityMeasurementName ''json'' content] \<and>
    as_AvailabilityPercentage (ao_ClusterSummary out) =
      (if cluster_probes ls = [] then 100
       else fl (fl (of_nat (length (filter (\<lambda>p. p) (cluster_probes ls))) / of_nat (length (cluster_probes ls))) * 100)) \<and>
    as_LongestUnavailablePeriod (ao_ClusterSummary out) = Duration_String (wrap 64 (int longest * av_pollFrequency a0)) \<and>
    (\<forall>n. outage (cluster_probes ls) n \<longleftrightarrow> n \<le> longest) \<and>
    (snd r = None \<longleftrightarrow> av_threshold a0 \<le> as_AvailabilityPercentage (ao_ClusterSummary out)) \<and>
    (\<forall>e. snd r = Some e \<longrightarrow> IsMetricViolationError e) \<and>
    (av_threshold a0 = 100 \<longrightarrow> (snd r = None \<longleftrightarrow> False \<notin> set (cluster_probes ls)))"
proof -
  let ?ps = "cluster_probes ls"
  note s = av_start_metrics[OF start]
  from av_run_settings[OF run(1) _ run(2)] s
  have a: "settings a = settings a0" "av_clusterLevelMetrics a = Some (measured ?ps)" by (auto simp: measured_def)
  from run(3) obtain b where g: "av_gathered env a = Some (r, b)" by (auto elim: av_gather_step)
  from av_gathered_ok[OF a(2) g pretty] obtain out content where
    o: "ave_pretty env out = Inr content" "ao_ClusterSummary out = buildSummary (av_pollFrequency a) [] (measured ?ps)"
      "fst r = av_summaries a @ [CreateSummary (ave_now env) apiAvailabilityMeasurementName ''json'' content]"
      "snd r = None \<longleftrightarrow> av_threshold a \<le> availabilityPercentage (measured ?ps)"
      "\<forall>e. snd r = Some e \<longrightarrow> IsMetricViolationError e"
    by (elim exE conjE) (rule that)
  have len: "int (length ?ps) \<le> 2 ^ 53" "int (length ?ps) < 2 ^ 63" using probes by simp_all
  let ?L = "am_maxConsecutiveFailedProbes (measured ?ps)"
  note c = measured_counts[OF len(2)]
  have L: "0 \<le> ?L" using c outage_0[of ?ps] by (metis of_nat_0)
  have hundred: "100 \<le> availabilityPercentage (measured ?ps) \<longleftrightarrow> False \<notin> set ?ps"
    using percentage_failure[OF probes] percentage_all_ok[OF len(1)] by fastforce
  have same: "av_threshold a = av_threshold a0" "av_pollFrequency a = av_pollFrequency a0" "av_summaries a = av_summaries m"
    using a(1) s by (auto simp: settings_def)
  have long: "\<forall>n. outage ?ps n \<longleftrightarrow> n \<le> nat ?L" using c L by (auto simp: le_nat_iff)
  show ?thesis
    by (intro exI[of _ out] exI[of _ content] exI[of _ "nat ?L"] conjI)
       (use o L hundred long in \<open>auto simp: buildSummary_def same percentage_of_measured[OF len(1), symmetric]\<close>)
qed

text \<open>A measurement that sees a failed probe between two good ones, for the examples.\<close>

definition sample_avail_env :: avail_env where
  "sample_avail_env =
     \<lparr>ave_execEnabled = False, ave_MasterIPs = [], ave_MasterInternalIPs = [],
      ave_parseDuration = (\<lambda>s. Inr 1000000000), ave_parseFloat = (\<lambda>s. (0, None)),
      ave_pretty = (\<lambda>_. Inr ''{}''), ave_now = 0\<rparr>"

definition action_config :: "string \<Rightarrow> MeasurementConfig" where
  "action_config action = \<lparr>mc_Params = [(''action'', VString action)], mc_Identifier = ''id'', mc_ClusterVersion = ''v1.30''\<rparr>"

lemma action_of_config [simp]: "getString (mc_Params (action_config action)) ''action'' = Inr action"
  by (simp add: action_config_def getString_def)

definition sample_avail_params :: params where
  "sample_avail_params = [(''action'', VString ''start''), (''pollFrequency'', VString ''1s''), (''threshold'', VFloat 100)]"

definition probing :: "prober \<Rightarrow> bool \<Rightarrow> lock_holder \<Rightarrow> bool list \<Rightarrow> avm" where
  "probing pc stopped holder ps =
     createAPIAvailabilityMeasurement\<lparr>av_isRunning := True, av_stopped := stopped, av_pollFrequency := 1000000000, av_threshold := 100,
       av_clusterLevelMetrics := Some (measured ps), av_prober := pc, av_holder := holder\<rparr>"

lemma sample_avail_start:
  "av_start sample_avail_env sample_avail_params createAPIAvailabilityMeasurement = (None, probing AtHead False Nobody [])"
  by (simp add: av_start_def av_initFields_def sample_avail_env_def sample_avail_params_def createAPIAvailabilityMeasurement_def
      probing_def measured_def getDuration_def getString_def GetFloat64OrDefault_def getFloat64_def or_default_def GetBoolOrDefault_def
      getBool_def IsErrKeyNotFound_def)

lemma probing_ticks:
  "av_step env (probing AtHead False Nobody ps) Silent (probing AwaitEvent False Nobody ps)"
  "av_step env (probing AwaitEvent False Nobody ps) (Probe status []) (probing AtHead False Nobody (ps @ [status = 200]))"
proof -
  show "av_step env (probing AtHead False Nobody ps) Silent (probing AwaitEvent False Nobody ps)"
    using head_running[of "probing AtHead False Nobody ps" env]
    by (simp add: probing_def createAPIAvailabilityMeasurement_def)
  show "av_step env (probing AwaitEvent False Nobody ps) (Probe status []) (probing AtHead False Nobody (ps @ [status = 200]))"
    using tick[of "probing AwaitEvent False Nobody ps" "[]" status _ env]
    by (simp add: probing_def createAPIAvailabilityMeasurement_def probe_def updateClusterAvailabilityMetrics_def
        hostLevelAvailabilityEnabled_def measured_def)
qed

lemma run_two: "av_run env a ls b \<Longrightarrow> av_step env b l c \<Longrightarrow> av_step env c l' d \<Longrightarrow> av_run env a (ls @ [l, l']) d"
  using run_snoc[OF run_snoc] by fastforce

lemma sample_avail_run:
  "\<exists>a. av_run env (probing AtHead False Nobody [])
     [Silent, Probe 200 [], Silent, Probe 500 [], Silent, Probe 200 [], Call (action_config ''gather'') None, Silent, Silent] a \<and>
   a = probing NoProber True WaitingProber [True, False, True]"
proof -
  let ?p = "probing AtHead False Nobody"
  have 1: "av_run env (?p []) [Silent, Probe 200 []] (?p [True])"
    using run_two[OF run_nil probing_ticks, of env "[]" 200] by simp
  have 2: "av_run env (?p []) [Silent, Probe 200 [], Silent, Probe 500 []] (?p [True, False])"
    using run_two[OF 1 probing_ticks, of 500] by simp
  have 3: "av_run env (?p []) [Silent, Probe 200 [], Silent, Probe 500 [], Silent, Probe 200 []] (?p [True, False, True])"
    using run_two[OF 2 probing_ticks, of 200] by simp
  have 4: "av_step env (?p [True, False, True]) (Call (action_config ''gather'') None) (probing AtHead True WaitingProber [True, False, True])"
    by (rule call) (simp_all add: probing_def createAPIAvailabilityMeasurement_def av_Execute_def)
  have 5: "av_step env (probing AtHead True WaitingProber [True, False, True]) Silent (probing AwaitEvent True WaitingProber [True, False, True])"
    using head_running[of "probing AtHead True WaitingProber [True, False, True]" env]
    by (simp add: probing_def createAPIAvailabilityMeasurement_def)
  have 6: "av_step env (probing AwaitEvent True WaitingProber [True, False, True]) Silent (probing NoProber True WaitingProber [True, False, True])"
    using stop_running[of "probing AwaitEvent True WaitingProber [True, False, True]" env]
    by (simp add: probing_def createAPIAvailabilityMeasurement_def)
  from run_two[OF run_snoc[OF 3 4] 5 6] show ?thesis by simp
qed

lemma sample_avail_gathered:
  "\<exists>r a'. av_step sample_avail_env (probing NoProber True WaitingProber ps) (Gathered r) a'"
proof -
  have "\<exists>r a'. av_gathered sample_avail_env (probing NoProber True WaitingProber ps) = Some (r, a')"
    by (simp add: av_gathered_def Let_def av_output_def createClusterSummary_def probing_def
        createAPIAvailabilityMeasurement_def hostLevelAvailabilityEnabled_def sample_avail_env_def)
  then obtain r a' where "av_gathered sample_avail_env (probing NoProber True WaitingProber ps) = Some (r, a')" by blast
  then have "av_step sample_avail_env (probing NoProber True WaitingProber ps) (Gathered r) (a'\<lparr>av_holder := Nobody\<rparr>)"
    by (intro gathered) (simp_all add: probing_def)
  then show ?thesis by blast
qed

lemma api_availability_decided_witness:
  "\<exists>r a'. av_step sample_avail_env (probing NoProber True WaitingProber [True, False, True]) (Gathered r) a' \<and> snd r \<noteq> None"
proof -
  obtain a where run: "av_run sample_avail_env (probing AtHead False Nobody [])
     [Silent, Probe 200 [], Silent, Probe 500 [], Silent, Probe 200 [], Call (action_config ''gather'') None, Silent, Silent] a"
    and a: "a = probing NoProber True WaitingProber [True, False, True]" using sample_avail_run by blast
  obtain r a' where g: "av_step sample_avail_env a (Gathered r) a'" using sample_avail_gathered a by blast
  have "\<not> av_isRunning createAPIAvailabilityMeasurement" by (simp add: createAPIAvailabilityMeasurement_def)
  from api_availability_decided[OF sample_avail_start this run _ g]
  have "snd r \<noteq> None"
    by (auto simp: gathering_def sample_avail_env_def probing_def)
  with g a show ?thesis by blast
qed

section \<open>Pausing\<close>

definition asks :: "string \<Rightarrow> MeasurementConfig \<Rightarrow> bool" where
  "asks action config \<longleftrightarrow> getString (mc_Params config) ''action'' = Inr action"

text \<open>
  C28: two quick calls of pause block the measurement for ever.  After a successful start of a measurement that is
  not paused, let pause be called twice, the second time before the goroutine, which has received the first
  message, notes that it is paused.  The second call sends a message that the goroutine does not wait for any
  more, and it holds the lock: no further step is possible, so a gathering never returns.
\<close>

theorem second_pause_deadlocks:
  assumes "av_start env ps m = (None, a)" "\<not> av_isRunning m" "\<not> av_isPaused m" "av_holder m = Nobody" "asks ''pause'' c"
  shows "\<exists>b. av_run env a [Silent, Call c None, SentReply, Call c None, Silent, Silent] b \<and>
    av_holder b = SendingPause \<and> (\<forall>l b'. \<not> av_step env b l b')"
proof -
  let ?b = "a\<lparr>av_isPaused := True, av_prober := AwaitUnpause, av_holder := SendingPause\<rparr>"
  note s = av_start_metrics[OF assms(1,2)]
  have ex: "av_Execute env c x = (None, x\<lparr>av_holder := SendingPause\<rparr>)" if "av_isRunning x" "\<not> av_isPaused x" for x
    using that assms(5) by (simp add: av_Execute_def asks_def av_pause_def)
  let ?a1 = "a\<lparr>av_prober := AwaitEvent\<rparr>" and ?a2 = "a\<lparr>av_prober := AwaitEvent, av_holder := SendingPause\<rparr>"
  let ?a3 = "a\<lparr>av_prober := Pausing, av_holder := Nobody\<rparr>" and ?a4 = "a\<lparr>av_prober := Pausing, av_holder := SendingPause\<rparr>"
  let ?a5 = "a\<lparr>av_isPaused := True, av_prober := AtHead, av_holder := SendingPause\<rparr>"
  have 1: "av_step env a Silent ?a1" by (rule head_running) (use s assms in auto)
  have 2: "av_step env ?a1 (Call c None) ?a2" by (rule call) (use s assms ex[of ?a1] in auto)
  have 3: "av_step env ?a2 SentReply ?a3" using recv_pause[of ?a2 env] by simp
  have 4: "av_step env ?a3 (Call c None) ?a4" by (rule call) (use s assms ex[of ?a3] in auto)
  have 5: "av_step env ?a4 Silent ?a5" using set_paused[of ?a4 env] by (cases a) simp
  have 6: "av_step env ?a5 Silent ?b" using head_paused[of ?a5 env] by (cases a) simp
  have "av_run env a [Silent, Call c None, SentReply, Call c None, Silent, Silent] ?b"
    using run_two[OF run_two[OF run_two[OF run_nil 1 2] 3 4] 5 6] by simp
  moreover have "\<not> av_stopped a"
    using assms(1,2) by (auto simp: av_start_def av_initFields_def addHostIPs_def Let_def split: sum.splits prod.splits if_splits)
  then have "\<not> av_step env ?b l b'" for l b' by (auto elim: av_step.cases)
  ultimately show ?thesis by auto
qed

lemma second_pause_deadlocks_witness:
  "\<exists>b. av_run sample_avail_env (probing AtHead False Nobody [])
     [Silent, Call (action_config ''pause'') None, SentReply, Call (action_config ''pause'') None, Silent, Silent] b \<and>
   (\<nexists>l b'. av_step sample_avail_env b l b')"
proof -
  have "asks ''pause'' (action_config ''pause'')" by (simp add: asks_def)
  from second_pause_deadlocks[OF sample_avail_start _ _ _ this] show ?thesis
    by (auto simp: createAPIAvailabilityMeasurement_def)
qed

text \<open>Nothing but a call of unpause ends a pause.\<close>

definition unpause_call :: "av_label \<Rightarrow> bool" where
  "unpause_call l = (case l of Call config reply \<Rightarrow> asks ''unpause'' config | _ \<Rightarrow> False)"

definition rests :: "avm \<Rightarrow> bool" where
  "rests a \<longleftrightarrow> av_isPaused a \<and> av_isRunning a \<and> av_prober a \<in> {NoProber, AtHead, AwaitUnpause} \<and> av_holder a \<in> {Nobody, WaitingProber}"

lemma rests_step: "av_step env a l a' \<Longrightarrow> rests a \<Longrightarrow> \<not> unpause_call l \<Longrightarrow> \<not> gathering l \<Longrightarrow> rests a' \<and> cluster_probes [l] = []"
  by (induction rule: av_step.induct)
     (auto simp: rests_def unpause_call_def gathering_def asks_def av_Execute_def av_start_def av_pause_def
       split: sum.splits if_splits)

lemma rests_run:
  "av_run env a ls b \<Longrightarrow> rests a \<Longrightarrow> \<not> list_ex unpause_call ls \<Longrightarrow> \<not> list_ex gathering ls \<Longrightarrow> rests b \<and> cluster_probes ls = []"
  by (induction rule: av_run.induct) (auto dest: rests_step)

text \<open>
  A measurement that was gathered while it was paused does not probe after its next start: the pause is not
  reset.  Without a call of unpause there is no probe, and the gathering reports an availability of 100 percent.
\<close>

theorem restart_stays_paused:
  assumes start: "av_start env ps m = (None, a0)" "\<not> av_isRunning m" "av_isPaused m" "av_holder m = Nobody"
    and run: "av_run env a0 ls a" "\<not> list_ex gathering ls" "\<not> list_ex unpause_call ls"
  shows "cluster_probes ls = [] \<and> map_option availabilityPercentage (av_clusterLevelMetrics a) = Some 100"
proof -
  note s = av_start_metrics[OF start(1,2)]
  have "rests a0" using s start(3,4) by (simp add: rests_def)
  from rests_run[OF run(1) this run(3,2)] have "cluster_probes ls = []" by simp
  moreover have "av_clusterLevelMetrics a = Some (measured [])"
    using av_run_settings[OF run(1) _ run(2)] s calculation by (simp add: measured_def)
  ultimately show ?thesis using percentage_all_ok[of "[]"] by simp
qed

lemma restart_stays_paused_witness:
  "cluster_probes [Silent] = [] \<and>
   map_option availabilityPercentage (av_clusterLevelMetrics ((probing AtHead False Nobody [])\<lparr>av_isPaused := True, av_prober := AwaitUnpause\<rparr>)) = Some 100"
proof -
  let ?m = "createAPIAvailabilityMeasurement\<lparr>av_isPaused := True\<rparr>"
  let ?a = "(probing AtHead False Nobody [])\<lparr>av_isPaused := True\<rparr>"
  have s: "av_start sample_avail_env sample_avail_params ?m = (None, ?a)"
    by (simp add: av_start_def av_initFields_def sample_avail_env_def sample_avail_params_def createAPIAvailabilityMeasurement_def
        probing_def measured_def getDuration_def getString_def GetFloat64OrDefault_def getFloat64_def or_default_def GetBoolOrDefault_def
        getBool_def IsErrKeyNotFound_def)
  have "av_step sample_avail_env ?a Silent (?a\<lparr>av_prober := AwaitUnpause\<rparr>)"
    by (rule head_paused) (simp_all add: probing_def)
  from run_snoc[OF run_nil this] have r: "av_run sample_avail_env ?a [Silent] (?a\<lparr>av_prober := AwaitUnpause\<rparr>)" by simp
  from restart_stays_paused[OF s _ _ _ r] show ?thesis
    by (simp add: createAPIAvailabilityMeasurement_def gathering_def unpause_call_def)
qed

section \<open>Gathering and probing go through\<close>

lemma holder_Execute: "av_Execute env c a = (r, a') \<Longrightarrow> av_holder a = Nobody \<Longrightarrow> av_holder a' = WaitingProber \<Longrightarrow> av_stopped a'"
  by (auto simp: av_Execute_def av_start_def av_initFields_def addHostIPs_def Let_def split: sum.splits if_splits prod.splits)

lemma probe_control:
  "probe status answers a = Some a' \<Longrightarrow> av_stopped a' = av_stopped a \<and> av_holder a' = av_holder a"
  by (auto simp: probe_def updateClusterAvailabilityMetrics_def updateHostAvailabilityMetrics_def bind_eq_Some_conv split: if_splits)

lemma gathered_control: "av_gathered env a = Some (r, a') \<Longrightarrow> av_stopped a' = av_stopped a \<and> av_hostIPs a' = av_hostIPs a \<and>
    av_hostLevelMetrics a' = av_hostLevelMetrics a \<and> av_prober a' = av_prober a"
  by (cases "av_output (a\<lparr>av_isRunning := False\<rparr>)";
      cases "ave_pretty env (the (av_output (a\<lparr>av_isRunning := False\<rparr>)))") (auto simp: av_gathered_def Let_def)

lemma waiting_is_stopped:
  "av_step env a l a' \<Longrightarrow> (av_holder a = WaitingProber \<longrightarrow> av_stopped a) \<Longrightarrow> av_holder a' = WaitingProber \<longrightarrow> av_stopped a'"
  by (induction rule: av_step.induct) (auto dest: holder_Execute probe_control gathered_control)

lemma waiting_is_stopped_run:
  "av_run env a ls b \<Longrightarrow> (av_holder a = WaitingProber \<longrightarrow> av_stopped a) \<Longrightarrow> av_holder b = WaitingProber \<longrightarrow> av_stopped b"
  by (induction rule: av_run.induct) (use waiting_is_stopped in blast)+

lemma prober_ends:
  assumes "av_stopped a"
  shows "\<exists>ls b. length ls \<le> 4 \<and> av_run env a ls b \<and> set ls \<subseteq> {Silent} \<and> av_holder b = av_holder a \<and> av_prober b = NoProber"
proof -
  have await: "\<exists>b. av_run env x [Silent] b \<and> av_holder b = av_holder x \<and> av_prober b = NoProber"
    if "av_stopped x" "av_prober x \<in> {AwaitUnpause, AwaitEvent}" for x
    using that run_snoc[OF run_nil stop_paused, of x env] run_snoc[OF run_nil stop_running, of x env] by fastforce
  have head: "\<exists>b. av_run env x [Silent, Silent] b \<and> av_holder b = av_holder x \<and> av_prober b = NoProber"
    if x: "av_stopped x" "av_prober x = AtHead" for x
  proof (cases "av_isPaused x")
    case True
    from run_two[OF run_nil head_paused[OF x(2) True] stop_paused, of env] x show ?thesis by fastforce
  next
    case False
    from run_two[OF run_nil head_running[OF x(2) False] stop_running, of env] x show ?thesis by fastforce
  qed
  show ?thesis
  proof (cases "av_prober a")
    case NoProber
    then show ?thesis using run_nil[of env a] by (intro exI[of _ "[]"] exI[of _ a]) simp
  next
    case AtHead
    from head[OF assms this] show ?thesis by (intro exI[of _ "[Silent, Silent]"]) simp
  next
    case AwaitUnpause
    then show ?thesis using await[of a] assms by (intro exI[of _ "[Silent]"]) simp
  next
    case AwaitEvent
    then show ?thesis using await[of a] assms by (intro exI[of _ "[Silent]"]) simp
  next
    case Unpausing
    let ?x = "a\<lparr>av_isPaused := False, av_prober := AwaitEvent\<rparr>"
    from run_two[OF run_nil set_unpaused[OF Unpausing] stop_running, of env] assms show ?thesis
      by (intro exI[of _ "[Silent, Silent]"]) fastforce
  next
    case Pausing
    let ?x = "a\<lparr>av_isPaused := True, av_prober := AtHead\<rparr>" and ?y = "a\<lparr>av_isPaused := True, av_prober := AwaitUnpause\<rparr>"
    have "av_step env ?x Silent ?y" using head_paused[of ?x env] by simp
    from run_snoc[OF run_two[OF run_nil set_paused[OF Pausing] this] stop_paused] assms show ?thesis
      by (intro exI[of _ "[Silent, Silent, Silent]"]) fastforce
  qed
qed

text \<open>
  The metrics of the hosts: when there are some, every host that is polled has one.  A failed start can have
  replaced the hosts by the internal ones before it fails for a lack of public ones; then there never were
  public ones, and metrics can only be those of the internal hosts.
\<close>

definition keyed_hosts :: "avm \<Rightarrow> string set" where
  "keyed_hosts a = fst ` set (av_hostLevelMetrics a)"

definition hosts_ok :: "avail_env \<Rightarrow> avm \<Rightarrow> bool" where
  "hosts_ok env a \<longleftrightarrow>
     (av_prober a \<noteq> NoProber \<longrightarrow> av_clusterLevelMetrics a \<noteq> None) \<and>
     (av_hostLevelMetrics a \<noteq> [] \<longrightarrow> set (av_hostIPs a) \<subseteq> keyed_hosts a) \<and>
     (av_hostLevelMetrics a \<noteq> [] \<longrightarrow> ave_MasterIPs env = [] \<longrightarrow> set (ave_MasterInternalIPs env) \<subseteq> keyed_hosts a)"

lemma fresh_keys: "fst ` set (fold (\<lambda>ip. AList.update ip v) ips xs) = fst ` set xs \<union> set ips"
  by (induction ips arbitrary: xs) (auto simp: dom_update)

lemma update_hosts_ok:
  "fst ` set answers \<subseteq> fst ` set hs \<Longrightarrow> \<exists>hs'. update_hosts a answers hs = Some hs' \<and> fst ` set hs' = fst ` set hs"
proof (induction answers arbitrary: hs)
  case (Cons p answers)
  obtain ip answer where p: "p = (ip, answer)" by (cases p)
  then obtain h where h: "map_of hs ip = Some h" using Cons.prems map_of_eq_None_iff[of hs ip] by (cases "map_of hs ip") auto
  let ?hs = "AList.update ip (am_update (fst (pollHost a answer ip) = show_int 200) h) hs"
  have "fst ` set ?hs = fst ` set hs" using Cons.prems p by (auto simp: dom_update)
  with Cons.IH[of ?hs] Cons.prems p h show ?case by auto
qed simp

lemma probe_hosts_ok:
  assumes "hosts_ok env a" "av_prober a = AwaitEvent" "mset (map fst answers) = mset (av_hostIPs a)"
  shows "\<exists>a'. probe status answers a = Some a' \<and> hosts_ok env (a'\<lparr>av_prober := AtHead\<rparr>)"
proof -
  obtain m where m: "av_clusterLevelMetrics a = Some m" using assms(1,2) by (auto simp: hosts_ok_def)
  have "fst ` set answers = set (av_hostIPs a)" using assms(3) by (metis list.set_map set_mset_mset)
  then have "av_hostLevelMetrics a \<noteq> [] \<Longrightarrow> fst ` set answers \<subseteq> fst ` set (av_hostLevelMetrics a)"
    using assms(1) by (simp add: hosts_ok_def keyed_hosts_def)
  note u = update_hosts_ok[OF this]
  show ?thesis
  proof (cases "av_hostLevelMetrics a = []")
    case True
    with m have "probe status answers a = Some (a\<lparr>av_clusterLevelMetrics := Some (am_update (status = 200) m)\<rparr>)"
      by (simp add: probe_def updateClusterAvailabilityMetrics_def hostLevelAvailabilityEnabled_def)
    with True show ?thesis by (simp add: hosts_ok_def)
  next
    case False
    let ?b = "a\<lparr>av_clusterLevelMetrics := Some (am_update (status = 200) m)\<rparr>"
    from u[OF False, of ?b] obtain hs where hs: "update_hosts ?b answers (av_hostLevelMetrics a) = Some hs"
      "fst ` set hs = fst ` set (av_hostLevelMetrics a)" by blast
    with m False have "probe status answers a = Some (?b\<lparr>av_hostLevelMetrics := hs\<rparr>)"
      by (simp add: probe_def updateClusterAvailabilityMetrics_def updateHostAvailabilityMetrics_def hostLevelAvailabilityEnabled_def)
    with hs(2) False assms(1) show ?thesis by (simp add: hosts_ok_def keyed_hosts_def)
  qed
qed

lemma addHostIPs_cases:
  assumes "addHostIPs env ps a = (err, a')"
  shows "a' = a \<or> a' = a\<lparr>av_hostIPs := ave_MasterInternalIPs env\<rparr> \<and> ave_MasterIPs env = [] \<or>
    (\<exists>ips n n'. a' = a\<lparr>av_hostIPs := ips, av_hostLevelMetrics := fold (\<lambda>ip. AList.update ip zeroMetrics) ips [],
       av_hostPollTimeoutSeconds := n, av_hostPollExecTimeoutSeconds := n'\<rparr> \<and>
     ips = (if av_useHostInternalIPs a then ave_MasterInternalIPs env else av_hostIPs a) @
           (if av_useHostPublicIPs a then ave_MasterIPs env else []) \<and>
     (av_useHostPublicIPs a \<longrightarrow> ave_MasterIPs env \<noteq> []))"
proof (cases "ave_execEnabled env \<and> \<not> (av_useHostInternalIPs a \<and> ave_MasterInternalIPs env = [])")
  case False
  then show ?thesis using assms by (simp add: addHostIPs_def Let_def split: if_splits)
next
  case ok: True
  show ?thesis
  proof (cases "av_useHostPublicIPs a \<and> ave_MasterIPs env = []")
    case True
    then show ?thesis using assms ok by (auto simp: addHostIPs_def Let_def split: if_splits)
  next
    case False
    let ?ips = "(if av_useHostInternalIPs a then ave_MasterInternalIPs env else av_hostIPs a) @
           (if av_useHostPublicIPs a then ave_MasterIPs env else [])"
    have "\<exists>n n'. a' = a\<lparr>av_hostIPs := ?ips, av_hostLevelMetrics := fold (\<lambda>ip. AList.update ip zeroMetrics) ?ips [],
       av_hostPollTimeoutSeconds := n, av_hostPollExecTimeoutSeconds := n'\<rparr>"
      using assms ok False
      by (cases a; cases "GetIntOrDefault ps ''hostPollTimeoutSeconds'' 5"; cases "GetIntOrDefault ps ''hostPollExecTimeoutSeconds'' 10")
         (auto simp: addHostIPs_def Let_def split: if_splits)
    with False show ?thesis by blast
  qed
qed

lemma addHostIPs_ok:
  assumes "addHostIPs env ps a = (err, a')" "hosts_ok env a" "av_prober a = NoProber" "av_useHostInternalIPs a \<or> av_useHostPublicIPs a"
    "av_clusterLevelMetrics a \<noteq> None"
  shows "hosts_ok env a' \<and> av_prober a' = NoProber \<and> av_clusterLevelMetrics a' \<noteq> None \<and> av_isRunning a' = av_isRunning a"
  using addHostIPs_cases[OF assms(1)]
proof (elim disjE exE conjE)
  assume "a' = a"
  then show ?thesis using assms by simp
next
  assume "a' = a\<lparr>av_hostIPs := ave_MasterInternalIPs env\<rparr>" "ave_MasterIPs env = []"
  then show ?thesis using assms(2,3,5) by (auto simp: hosts_ok_def keyed_hosts_def)
next
  fix ips n n'
  assume a': "a' = a\<lparr>av_hostIPs := ips, av_hostLevelMetrics := fold (\<lambda>ip. AList.update ip zeroMetrics) ips [],
       av_hostPollTimeoutSeconds := n, av_hostPollExecTimeoutSeconds := n'\<rparr>"
    and ips: "ips = (if av_useHostInternalIPs a then ave_MasterInternalIPs env else av_hostIPs a) @
           (if av_useHostPublicIPs a then ave_MasterIPs env else [])" "av_useHostPublicIPs a \<longrightarrow> ave_MasterIPs env \<noteq> []"
  then have "keyed_hosts a' = set ips" by (simp add: keyed_hosts_def fresh_keys)
  moreover have "ave_MasterIPs env = [] \<longrightarrow> set (ave_MasterInternalIPs env) \<subseteq> set ips" using ips assms(4) by auto
  ultimately show ?thesis using a' assms(3,5) by (simp add: hosts_ok_def)
qed

lemma av_initFields_cases:
  assumes "av_initFields env ps a = (err, a')"
  shows "(err \<noteq> None \<and> av_hostIPs a' = av_hostIPs a \<and> av_hostLevelMetrics a' = av_hostLevelMetrics a \<and> av_prober a' = av_prober a \<and>
            av_isRunning a') \<or>
    (\<exists>b. av_hostIPs b = av_hostIPs a \<and> av_hostLevelMetrics b = av_hostLevelMetrics a \<and> av_prober b = av_prober a \<and> av_isRunning b \<and>
         av_clusterLevelMetrics b = Some zeroMetrics \<and>
         (if av_useHostInternalIPs b \<or> av_useHostPublicIPs b then addHostIPs env ps b = (err, a') else (err, a') = (None, b)))"
proof (cases "getDuration (ave_parseDuration env) ps ''pollFrequency''")
  case (Inl e)
  with assms show ?thesis by (intro disjI1) (auto simp: av_initFields_def)
next
  case d: (Inr frequency)
  show ?thesis
  proof (cases "GetFloat64OrDefault (ave_parseFloat env) ps ''threshold'' 0")
    case (Inl e)
    with d assms show ?thesis by (intro disjI1) (auto simp: av_initFields_def)
  next
    case t: (Inr threshold)
    let ?b = "a\<lparr>av_isRunning := True, av_stopped := False, av_pollFrequency := frequency, av_threshold := threshold,
      av_clusterLevelMetrics := Some zeroMetrics\<rparr>"
    show ?thesis
    proof (cases "GetBoolOrDefault ps ''useHostInternalIPs'' (ave_execEnabled env \<and> ave_MasterInternalIPs env \<noteq> [])")
      case (Inl e)
      with d t assms show ?thesis by (intro disjI1) (auto simp: av_initFields_def)
    next
      case i: (Inr internal)
      show ?thesis
      proof (cases "GetBoolOrDefault ps ''useHostPublicIPs'' False")
        case (Inl e)
        with d t i assms show ?thesis by (intro disjI1) (auto simp: av_initFields_def)
      next
        case (Inr public)
        with d t i assms show ?thesis
          by (intro disjI2 exI[of _ "?b\<lparr>av_useHostInternalIPs := internal, av_useHostPublicIPs := public\<rparr>"])
             (auto simp: av_initFields_def Let_def)
      qed
    qed
  qed
qed

lemma av_initFields_ok:
  assumes "av_initFields env ps a = (err, a')" "hosts_ok env a" "av_prober a = NoProber"
  shows "hosts_ok env a' \<and> (err = None \<longrightarrow> av_clusterLevelMetrics a' \<noteq> None) \<and> av_prober a' = NoProber \<and> av_isRunning a'"
proof -
  from av_initFields_cases[OF assms(1)] show ?thesis
  proof (elim disjE exE conjE)
    fix b
    assume b: "av_hostIPs b = av_hostIPs a" "av_hostLevelMetrics b = av_hostLevelMetrics a" "av_prober b = av_prober a" "av_isRunning b"
      "av_clusterLevelMetrics b = Some zeroMetrics"
      "if av_useHostInternalIPs b \<or> av_useHostPublicIPs b then addHostIPs env ps b = (err, a') else (err, a') = (None, b)"
    then have "hosts_ok env b" using assms(2) by (simp add: hosts_ok_def keyed_hosts_def)
    with b assms(3) addHostIPs_ok[OF _ this] show ?thesis by (auto split: if_splits)
  qed (use assms(2,3) in \<open>auto simp: hosts_ok_def keyed_hosts_def\<close>)
qed

lemma av_start_ok:
  assumes "av_start env ps a = (err, a')" "hosts_ok env a" "av_isRunning a \<or> av_prober a = NoProber"
  shows "hosts_ok env a' \<and> (av_isRunning a' \<or> av_prober a' = NoProber)"
proof (cases "av_isRunning a")
  case True
  then show ?thesis using assms by (simp add: av_start_def)
next
  case False
  obtain err' b where i: "av_initFields env ps a = (err', b)" by (cases "av_initFields env ps a")
  from av_initFields_ok[OF i assms(2)] False assms(1,3) i show ?thesis
    by (auto simp: av_start_def hosts_ok_def keyed_hosts_def split: option.splits)
qed

definition av_ok :: "avail_env \<Rightarrow> avm \<Rightarrow> bool" where
  "av_ok env a \<longleftrightarrow> hosts_ok env a \<and> (av_isRunning a \<or> av_prober a = NoProber) \<and> (av_holder a = WaitingProber \<longrightarrow> av_stopped a)"

lemma av_Execute_ok: "av_Execute env c a = (r, a') \<Longrightarrow> av_holder a = Nobody \<Longrightarrow> hosts_ok env a \<Longrightarrow> av_isRunning a \<or> av_prober a = NoProber \<Longrightarrow>
    hosts_ok env a' \<and> (av_isRunning a' \<or> av_prober a' = NoProber)"
proof (cases "asks ''start'' c")
  case True
  assume "av_Execute env c a = (r, a')" "hosts_ok env a" "av_isRunning a \<or> av_prober a = NoProber"
  then show ?thesis using True av_start_ok[of env "mc_Params c" a] by (auto simp: av_Execute_def asks_def split: prod.splits)
next
  case False
  assume "av_Execute env c a = (r, a')" "hosts_ok env a" "av_isRunning a \<or> av_prober a = NoProber"
  then show ?thesis using False
    by (auto simp: av_Execute_def asks_def hosts_ok_def keyed_hosts_def split: sum.splits if_splits)
qed

lemma av_ok_step: "av_step env a l a' \<Longrightarrow> av_ok env a \<Longrightarrow> av_ok env a' \<and> l \<noteq> ProbePanic"
proof (induction rule: av_step.induct)
  case (call a config reply a')
  then show ?case using av_Execute_ok[OF call(2,1)] holder_Execute[OF call(2,1)] by (simp add: av_ok_def)
next
  case (tick a answers status a')
  from probe_hosts_ok[of env a answers status] tick show ?case
    by (auto simp: av_ok_def settings_def dest: probe_settings probe_control)
next
  case (tick_panic a answers status)
  from probe_hosts_ok[of env a answers status] tick_panic show ?case by (auto simp: av_ok_def)
next
  case (gathered a r a')
  from gathered_control[OF gathered(3)] gathered show ?case by (simp add: av_ok_def hosts_ok_def keyed_hosts_def)
qed (auto simp: av_ok_def hosts_ok_def keyed_hosts_def)

lemma av_ok_run: "av_run env a ls b \<Longrightarrow> av_ok env a \<Longrightarrow> av_ok env b \<and> ProbePanic \<notin> set ls"
  by (induction rule: av_run.induct) (auto dest: av_ok_step)

lemma av_ok_create: "av_ok env createAPIAvailabilityMeasurement"
  by (simp add: av_ok_def hosts_ok_def createAPIAvailabilityMeasurement_def)

text \<open>
  A measurement of the availability never loses its goroutine.  From its creation, through any sequence of
  calls, successful or not, no probe panics; and a gathering that waits for the goroutine sees its end, wherever
  the goroutine is: with at most four more steps of it the call gets its result.
\<close>

theorem avail_gather_returns:
  assumes "av_run env createAPIAvailabilityMeasurement ls a"
  shows "ProbePanic \<notin> set ls \<and>
    (av_holder a = WaitingProber \<longrightarrow>
      (\<exists>ls' b l c. length ls' \<le> 4 \<and> set ls' \<subseteq> {Silent} \<and> av_run env a ls' b \<and> av_step env b l c \<and> gathering l \<and> av_holder c = Nobody))"
proof (intro conjI impI)
  note ok = av_ok_run[OF assms av_ok_create]
  show "ProbePanic \<notin> set ls" using ok by simp
  assume w: "av_holder a = WaitingProber"
  then have "av_stopped a" using ok by (simp add: av_ok_def)
  from prober_ends[OF this] obtain ls' b where b: "length ls' \<le> 4" "av_run env a ls' b" "set ls' \<subseteq> {Silent}"
    "av_holder b = WaitingProber" "av_prober b = NoProber" using w by metis
  have "\<exists>l c. av_step env b l c \<and> gathering l \<and> av_holder c = Nobody"
  proof (cases "av_gathered env b")
    case None
    from gather_panic[OF b(4,5) None] show ?thesis
      by (intro exI[of _ GatherPanic] exI[of _ "b\<lparr>av_isRunning := False, av_holder := Nobody\<rparr>"]) (simp add: gathering_def)
  next
    case (Some p)
    obtain r c where p: "p = (r, c)" by (cases p)
    from gathered[OF b(4,5) Some[unfolded p]] show ?thesis
      by (intro exI[of _ "Gathered r"] exI[of _ "c\<lparr>av_holder := Nobody\<rparr>"]) (simp add: gathering_def)
  qed
  with b show "\<exists>ls' b l c. length ls' \<le> 4 \<and> set ls' \<subseteq> {Silent} \<and> av_run env a ls' b \<and> av_step env b l c \<and> gathering l \<and> av_holder c = Nobody"
    by blast
qed

lemma avail_gather_returns_witness:
  "\<exists>ls' b l c. length ls' \<le> 4 \<and> av_run sample_avail_env (probing AtHead True WaitingProber []) ls' b \<and>
     av_step sample_avail_env b l c \<and> gathering l"
proof -
  let ?start = "\<lparr>mc_Params = sample_avail_params, mc_Identifier = ''id'', mc_ClusterVersion = ''v1.30''\<rparr>"
  have "getString sample_avail_params ''action'' = Inr ''start''" by (simp add: sample_avail_params_def getString_def)
  then have 1: "av_step sample_avail_env createAPIAvailabilityMeasurement (Call ?start (Some ([], None))) (probing AtHead False Nobody [])"
    by (intro call) (simp_all add: av_Execute_def sample_avail_start, simp add: createAPIAvailabilityMeasurement_def)
  have 2: "av_step sample_avail_env (probing AtHead False Nobody []) (Call (action_config ''gather'') None) (probing AtHead True WaitingProber [])"
    by (rule call) (simp_all add: probing_def createAPIAvailabilityMeasurement_def av_Execute_def)
  from avail_gather_returns[OF run_two[OF run_nil 1 2]] show ?thesis by (auto simp: probing_def)
qed

end
