(* ===== verification/Waiting.thy ===== *)
theory Waiting
  imports Service_Creation
begin

text \<open>
  Measurements that wait for objects of the cluster: WaitForRunningPods, WaitForNodes, WaitForBoundPVCs,
  WaitForAvailablePVs and WaitForGenericK8sObjects (\<^verbatim>\<open>clusterloader2/pkg/measurement/common/wait_for_*.go\<close>) with the
  loops they run (\<^verbatim>\<open>measurement/util/wait_for_*.go\<close>, \<^verbatim>\<open>pvcs.go\<close>, \<^verbatim>\<open>pvs.go\<close>, \<^verbatim>\<open>object_store*.go\<close>) and the predicates on
  nodes (\<^verbatim>\<open>util/cluster.go\<close>).  What these loops have in common is the locale \<open>store_wait\<close>.
\<close>

section \<open>Nodes\<close>

text \<open>A node with the rest of its spec and its status; conditions and addresses are pairs of a type and a value.\<close>

record ClusterNode = Node +
  cn_Unschedulable :: bool
  cn_Conditions :: "(string \<times> string) list"
  cn_Addresses :: "(string \<times> string) list"

definition keyControlPlaneNodeLabelTaint :: string where
  "keyControlPlaneNodeLabelTaint = ''node-role.kubernetes.io/control-plane''"

definition builtInTaintsKeys :: "string list" where
  "builtInTaintsKeys =
     [''node.kubernetes.io/not-ready'', ''node.kubernetes.io/unreachable'', ''node.kubernetes.io/unschedulable'',
      ''node.kubernetes.io/memory-pressure'', ''node.kubernetes.io/disk-pressure'', ''node.kubernetes.io/network-unavailable'',
      ''node.kubernetes.io/pid-pressure'', ''node.kubernetes.io/out-of-service'',
      ''node.cloudprovider.kubernetes.io/uninitialized'', ''node.cloudprovider.kubernetes.io/shutdown'']"

fun condition_loop :: "(string \<times> string) list \<Rightarrow> string \<Rightarrow> bool \<Rightarrow> bool" where
  "condition_loop [] conditionType wantTrue = False"
| "condition_loop ((typ, status) # conds) conditionType wantTrue =
     (if typ = conditionType then wantTrue = (status = ''True'') else condition_loop conds conditionType wantTrue)"

definition isNodeConditionSetAsExpected :: "ClusterNode \<Rightarrow> string \<Rightarrow> bool \<Rightarrow> bool" where
  "isNodeConditionSetAsExpected node conditionType wantTrue = condition_loop (cn_Conditions node) conditionType wantTrue"

definition isNodeConditionUnset :: "ClusterNode \<Rightarrow> string \<Rightarrow> bool" where
  "isNodeConditionUnset node conditionType \<longleftrightarrow> list_all (\<lambda>(typ, _). typ \<noteq> conditionType) (cn_Conditions node)"

definition isNodeSchedulable :: "ClusterNode \<Rightarrow> bool" where
  "isNodeSchedulable node =
     (let nodeReady = isNodeConditionSetAsExpected node ''Ready'' True;
          networkReady = (isNodeConditionUnset node ''NetworkUnavailable'' \<or>
            isNodeConditionSetAsExpected node ''NetworkUnavailable'' False)
      in \<not> cn_Unschedulable node \<and> nodeReady \<and> networkReady)"

fun untainted_loop :: "Taint list \<Rightarrow> bool" where
  "untainted_loop [] = True"
| "untainted_loop (t # ts) =
     (if ta_Effect t \<noteq> ''NoSchedule'' \<and> ta_Effect t \<noteq> ''NoExecute'' then untainted_loop ts
      else if ta_Key t \<in> set builtInTaintsKeys then False
      else untainted_loop ts)"

definition isNodeUntainted :: "ClusterNode \<Rightarrow> bool" where
  "isNodeUntainted node = untainted_loop (no_Taints node)"

definition IsNodeSchedulableAndUntainted :: "ClusterNode \<Rightarrow> bool" where
  "IsNodeSchedulableAndUntainted node \<longleftrightarrow> isNodeSchedulable node \<and> isNodeUntainted node"

text \<open>The listing of the nodes is an argument.\<close>

definition GetSchedulableUntainedNodes :: "goerr + ClusterNode list \<Rightarrow> goerr + ClusterNode list" where
  "GetSchedulableUntainedNodes listed = map_sum id (filter IsNodeSchedulableAndUntainted) listed"

definition GetSchedulableUntainedNodesNumber :: "goerr + ClusterNode list \<Rightarrow> nat \<times> goerr option" where
  "GetSchedulableUntainedNodesNumber listed =
     (case GetSchedulableUntainedNodes listed of Inl err \<Rightarrow> (0, Some err) | Inr nodes \<Rightarrow> (length nodes, None))"

definition IsControlPlaneNode :: "ClusterNode \<Rightarrow> bool" where
  "IsControlPlaneNode node \<longleftrightarrow>
     list_ex (\<lambda>(key, _). key = keyControlPlaneNodeLabelTaint) (no_Labels node) \<or>
     list_ex (\<lambda>taint. ta_Key taint = keyControlPlaneNodeLabelTaint) (no_Taints node)"

definition GetMasterName :: "goerr + ClusterNode list \<Rightarrow> goerr + string" where
  "GetMasterName listed =
     (case listed of
        Inl err \<Rightarrow> Inl err
      | Inr nodes \<Rightarrow>
          (case List.find IsControlPlaneNode nodes of
             Some node \<Rightarrow> Inr (no_Name node)
           | None \<Rightarrow> Inl (Errorf ''master node not found'' [])))"

fun master_ips_loop :: "ClusterNode list \<Rightarrow> string \<Rightarrow> string list \<Rightarrow> string list" where
  "master_ips_loop [] addressType ips = ips"
| "master_ips_loop (node # nodes) addressType ips =
     (if IsControlPlaneNode node then
        (case List.find (\<lambda>(typ, address). typ = addressType \<and> address \<noteq> []) (cn_Addresses node) of
           Some (_, address) \<Rightarrow> master_ips_loop nodes addressType (ips @ [address])
         | None \<Rightarrow> master_ips_loop nodes addressType ips)
      else master_ips_loop nodes addressType ips)"

definition GetMasterIPs :: "goerr + ClusterNode list \<Rightarrow> string \<Rightarrow> goerr + string list" where
  "GetMasterIPs listed addressType =
     (case listed of
        Inl err \<Rightarrow> Inl err
      | Inr nodes \<Rightarrow>
          let ips = master_ips_loop nodes addressType []
          in if length ips = 0 then Inl (Errorf (''didn't find any '' @ addressType @ '' master IPs'') []) else Inr ips)"

section \<open>Stores\<close>

text \<open>
  A store is ready when its reflector has a resource version: \<open>versions\<close> are those that the poll sees.  After
  that it is the list of its objects at the times when it is read.
\<close>

definition newObjectStore :: "string \<Rightarrow> ObjectSelector \<Rightarrow> string list \<Rightarrow> goerr option" where
  "newObjectStore typ selector versions =
     (let name = typ @ ''Store: '' @ ObjectSelector_String selector
      in (case wait_Poll (\<lambda>v. length v \<noteq> 0) versions of
            None \<Rightarrow> None
          | Some err \<Rightarrow> Some (Errorf (''couldn't initialize '' @ name @ '': '' @ err_msg err) [])))"

record PersistentVolumeClaim =
  pvc_Name :: string
  pvc_Phase :: string

record PersistentVolume =
  pv_Name :: string
  pv_Phase :: string
  pv_Annotations :: "(string, string) gomap"

definition PVStore_List :: "string \<Rightarrow> PersistentVolume list \<Rightarrow> PersistentVolume list" where
  "PVStore_List provisioner objects =
     filter (\<lambda>pv. provisioner = [] \<or>
       (case map_of (pv_Annotations pv) ''pv.kubernetes.io/provisioned-by'' of None \<Rightarrow> [] | Some v \<Rightarrow> v) = provisioner) objects"

text \<open>What the loops receive: the stop channel is closed, or the interval is over and the store is listed.\<close>

datatype 'l store_event = Stopped | Interval 'l

section \<open>Waiting for nodes\<close>

record WaitForNodeOptions =
  wn_Selector :: ObjectSelector
  wn_MinDesiredNodeCount :: int
  wn_MaxDesiredNodeCount :: int

definition getNumReadyNodes :: "ClusterNode list \<Rightarrow> nat" where
  "getNumReadyNodes nodes = length (filter IsNodeSchedulableAndUntainted nodes)"

fun nodes_loop :: "WaitForNodeOptions \<Rightarrow> nat \<Rightarrow> ClusterNode list store_event list \<Rightarrow> goerr option option" where
  "nodes_loop options nodeCount [] = None"
| "nodes_loop options nodeCount (Stopped # es) =
     Some (Some (Errorf (''timeout while waiting for ['' @ show_int (wn_MinDesiredNodeCount options) @ ''-'' @
       show_int (wn_MaxDesiredNodeCount options) @ ''] Nodes with selector '' @ CHR 0x27 # ObjectSelector_String (wn_Selector options) @
       CHR 0x27 # '' to be ready - currently there is '' @ show_nat nodeCount @ '' Nodes'') []))"
| "nodes_loop options nodeCount (Interval nodes # es) =
     (let nodeCount = getNumReadyNodes nodes
      in if wn_MinDesiredNodeCount options \<le> int nodeCount \<and> int nodeCount \<le> wn_MaxDesiredNodeCount options then Some None
         else nodes_loop options nodeCount es)"

definition WaitForNodes ::
  "string list \<Rightarrow> ClusterNode list \<Rightarrow> ClusterNode list store_event list \<Rightarrow> WaitForNodeOptions \<Rightarrow> goerr option option" where
  "WaitForNodes versions first es options =
     (case newObjectStore ''*v1.Node'' (wn_Selector options) versions of
        Some err \<Rightarrow> Some (Some (Errorf (''node store creation error: '' @ err_msg err) []))
      | None \<Rightarrow> nodes_loop options (getNumReadyNodes first) es)"

section \<open>Waiting for claims of volumes\<close>

record PVCsStartupStatus =
  pcs_Pending :: int
  pcs_Bound :: int
  pcs_Lost :: int
  pcs_Expected :: int
  pcs_Created :: int

definition zeroPVCsStatus :: PVCsStartupStatus where
  "zeroPVCsStatus = \<lparr>pcs_Pending = 0, pcs_Bound = 0, pcs_Lost = 0, pcs_Expected = 0, pcs_Created = 0\<rparr>"

definition PVCsStartupStatus_String :: "PVCsStartupStatus \<Rightarrow> string" where
  "PVCsStartupStatus_String s =
     ''PVCs: '' @ show_int (pcs_Created s) @ '' out of '' @ show_int (pcs_Expected s) @ '' created, '' @ show_int (pcs_Bound s) @
     '' bound, '' @ show_int (pcs_Pending s) @ '' pending, '' @ show_int (pcs_Lost s) @ '' lost''"

definition count_pvc :: "PersistentVolumeClaim \<Rightarrow> PVCsStartupStatus \<Rightarrow> PVCsStartupStatus" where
  "count_pvc p s =
     (let s = s\<lparr>pcs_Created := pcs_Created s + 1\<rparr>
      in if pvc_Phase p = ''Pending'' then s\<lparr>pcs_Pending := pcs_Pending s + 1\<rparr>
         else if pvc_Phase p = ''Bound'' then s\<lparr>pcs_Bound := pcs_Bound s + 1\<rparr>
         else if pvc_Phase p = ''Lost'' then s\<lparr>pcs_Lost := pcs_Lost s + 1\<rparr>
         else s)"

definition ComputePVCsStartupStatus :: "PersistentVolumeClaim list \<Rightarrow> int \<Rightarrow> PVCsStartupStatus" where
  "ComputePVCsStartupStatus pvcs expected = fold count_pvc pvcs (zeroPVCsStatus\<lparr>pcs_Expected := expected\<rparr>)"

record WaitForPVCOptions =
  wc_Selector :: ObjectSelector
  wc_DesiredPVCCount :: int

text \<open>The differences between two listings are only logged; they are below.\<close>

fun pvcs_loop :: "WaitForPVCOptions \<Rightarrow> PVCsStartupStatus \<Rightarrow> PersistentVolumeClaim list store_event list \<Rightarrow> goerr option option" where
  "pvcs_loop options pvcsStatus [] = None"
| "pvcs_loop options pvcsStatus (Stopped # es) =
     Some (Some (Errorf (''timeout while waiting for '' @ show_int (wc_DesiredPVCCount options) @ '' PVCs to be running in namespace '' @
       CHR 0x27 # os_Namespace (wc_Selector options) @ CHR 0x27 # '' with labels '' @ CHR 0x27 # os_LabelSelector (wc_Selector options) @
       CHR 0x27 # '' and fields '' @ CHR 0x27 # os_FieldSelector (wc_Selector options) @ CHR 0x27 # '' - only '' @
       show_int (pcs_Bound pvcsStatus) @ '' found bound'') []))"
| "pvcs_loop options pvcsStatus (Interval pvcs # es) =
     (let pvcsStatus = ComputePVCsStartupStatus pvcs (wc_DesiredPVCCount options)
      in if int (length pvcs) = pcs_Bound pvcsStatus + pcs_Pending pvcsStatus \<and> pcs_Bound pvcsStatus = wc_DesiredPVCCount options
         then Some None
         else pvcs_loop options pvcsStatus es)"

definition WaitForPVCs ::
  "string list \<Rightarrow> PersistentVolumeClaim list store_event list \<Rightarrow> WaitForPVCOptions \<Rightarrow> goerr option option" where
  "WaitForPVCs versions es options =
     (case newObjectStore ''*v1.PersistentVolumeClaim'' (wc_Selector options) versions of
        Some err \<Rightarrow> Some (Some (Errorf (''PVC store creation error: '' @ err_msg err) []))
      | None \<Rightarrow> pvcs_loop options zeroPVCsStatus es)"

section \<open>Waiting for volumes\<close>

record PVsStartupStatus =
  pvs_Pending :: int
  pvs_Available :: int
  pvs_Bound :: int
  pvs_Released :: int
  pvs_Failed :: int
  pvs_Expected :: int
  pvs_Created :: int

definition zeroPVsStatus :: PVsStartupStatus where
  "zeroPVsStatus = \<lparr>pvs_Pending = 0, pvs_Available = 0, pvs_Bound = 0, pvs_Released = 0, pvs_Failed = 0, pvs_Expected = 0, pvs_Created = 0\<rparr>"

definition PVsStartupStatus_String :: "PVsStartupStatus \<Rightarrow> string" where
  "PVsStartupStatus_String s =
     ''PVs: '' @ show_int (pvs_Created s) @ '' out of '' @ show_int (pvs_Expected s) @ '' created, '' @ show_int (pvs_Bound s) @
     '' bound, '' @ show_int (pvs_Pending s) @ '' pending, '' @ show_int (pvs_Available s) @ '' available, '' @ show_int (pvs_Failed s) @ '' failed''"

definition count_pv :: "PersistentVolume \<Rightarrow> PVsStartupStatus \<Rightarrow> PVsStartupStatus" where
  "count_pv p s =
     (let s = s\<lparr>pvs_Created := pvs_Created s + 1\<rparr>
      in if pv_Phase p = ''Pending'' then s\<lparr>pvs_Pending := pvs_Pending s + 1\<rparr>
         else if pv_Phase p = ''Available'' then s\<lparr>pvs_Available := pvs_Available s + 1\<rparr>
         else if pv_Phase p = ''Bound'' then s\<lparr>pvs_Bound := pvs_Bound s + 1\<rparr>
         else if pv_Phase p = ''Released'' then s\<lparr>pvs_Released := pvs_Released s + 1\<rparr>
         else if pv_Phase p = ''Failed'' then s\<lparr>pvs_Failed := pvs_Failed s + 1\<rparr>
         else s)"

definition ComputePVsStartupStatus :: "PersistentVolume list \<Rightarrow> int \<Rightarrow> PVsStartupStatus" where
  "ComputePVsStartupStatus pvs expected = fold count_pv pvs (zeroPVsStatus\<lparr>pvs_Expected := expected\<rparr>)"

record WaitForPVOptions =
  wv_Selector :: ObjectSelector
  wv_DesiredPVCount :: int
  wv_Provisioner :: string

definition pv_filter :: "WaitForPVOptions \<Rightarrow> string" where
  "pv_filter options =
     ObjectSelector_String (wv_Selector options) @
     (if wv_Provisioner options \<noteq> [] then '' && provisioner='' @ wv_Provisioner options else [])"

text \<open>\<open>shw\<close> prints a volume; the objects of an event are those of the cache, before the provisioner is compared.\<close>

fun pvs_loop ::
  "(PersistentVolume \<Rightarrow> string) \<Rightarrow> WaitForPVOptions \<Rightarrow> PersistentVolume list \<times> PVsStartupStatus \<Rightarrow> PersistentVolume list store_event list \<Rightarrow>
   goerr option option" where
  "pvs_loop shw options (oldPVs, pvStatus) [] = None"
| "pvs_loop shw options (oldPVs, pvStatus) (Stopped # es) =
     (let example = (case oldPVs of [] \<Rightarrow> [] | pv # _ \<Rightarrow> '', first one is '' @ shw pv)
      in Some (Some (Errorf (''timeout while waiting for '' @ show_int (wv_DesiredPVCount options) @ '' PVs with selector '' @
           CHR 0x27 # pv_filter options @ CHR 0x27 # '' - only '' @ show_int (pvs_Bound pvStatus + pvs_Available pvStatus) @
           '' found provisioned'' @ example) [])))"
| "pvs_loop shw options (oldPVs, pvStatus) (Interval objects # es) =
     (let pvs = PVStore_List (wv_Provisioner options) objects;
          pvStatus = ComputePVsStartupStatus pvs (wv_DesiredPVCount options)
      in if int (length pvs) = pvs_Bound pvStatus + pvs_Available pvStatus + pvs_Pending pvStatus \<and>
            pvs_Bound pvStatus + pvs_Available pvStatus = wv_DesiredPVCount options
         then Some None
         else pvs_loop shw options (pvs, pvStatus) es)"

definition WaitForPVs ::
  "(PersistentVolume \<Rightarrow> string) \<Rightarrow> string list \<Rightarrow> PersistentVolume list \<Rightarrow> PersistentVolume list store_event list \<Rightarrow> WaitForPVOptions \<Rightarrow>
   goerr option option" where
  "WaitForPVs shw versions first es options =
     (case newObjectStore ''*v1.PersistentVolume'' (wv_Selector options) versions of
        Some err \<Rightarrow> Some (Some (Errorf (''PV store creation error: '' @ err_msg err) []))
      | None \<Rightarrow> pvs_loop shw options (PVStore_List (wv_Provisioner options) first, zeroPVsStatus) es)"

section \<open>Differences between two listings\<close>

text \<open>The infos of claims and of volumes have the same fields, and so have the steps of the two loops.\<close>

record pvcInfo =
  ph_oldPhase :: string
  ph_phase :: string

type_synonym PVCDiff = "(string, pvcInfo) gomap"

definition diff_current :: "string \<times> string \<Rightarrow> PVCDiff \<Rightarrow> PVCDiff" where
  "diff_current p m = (case p of (name, phase) \<Rightarrow> AList.update name \<lparr>ph_oldPhase = nonExist, ph_phase = phase\<rparr> m)"

definition diff_former :: "string \<times> string \<Rightarrow> PVCDiff \<Rightarrow> PVCDiff" where
  "diff_former p m =
     (case p of (name, phase) \<Rightarrow>
        (case map_of m name of
           Some info \<Rightarrow> AList.update name (info\<lparr>ph_oldPhase := phase\<rparr>) m
         | None \<Rightarrow> AList.update name \<lparr>ph_oldPhase = phase, ph_phase = nonExist\<rparr> m))"

definition diff_phases :: "(string \<times> string) list \<Rightarrow> (string \<times> string) list \<Rightarrow> PVCDiff" where
  "diff_phases old cur = fold diff_former old (fold diff_current cur [])"

definition DiffPVCs :: "PersistentVolumeClaim list \<Rightarrow> PersistentVolumeClaim list \<Rightarrow> PVCDiff" where
  "DiffPVCs oldPVCs curPVCs =
     diff_phases (map (\<lambda>p. (pvc_Name p, pvc_Phase p)) oldPVCs) (map (\<lambda>p. (pvc_Name p, pvc_Phase p)) curPVCs)"

definition DiffPVs :: "PersistentVolume list \<Rightarrow> PersistentVolume list \<Rightarrow> PVCDiff" where
  "DiffPVs oldPVs curPVs =
     diff_phases (map (\<lambda>p. (pv_Name p, pv_Phase p)) oldPVs) (map (\<lambda>p. (pv_Name p, pv_Phase p)) curPVs)"

definition DeletedPVCs :: "PVCDiff \<Rightarrow> string list" where
  "DeletedPVCs d = map fst (filter (\<lambda>(_, info). ph_phase info = nonExist) d)"

definition AddedPVCs :: "PVCDiff \<Rightarrow> string list" where
  "AddedPVCs d = map fst (filter (\<lambda>(_, info). ph_oldPhase info = nonExist) d)"

definition DeletedPVs :: "PVCDiff \<Rightarrow> string list" where
  "DeletedPVs d = map fst (filter (\<lambda>(_, info). ph_phase info = nonExist) d)"

definition AddedPVs :: "PVCDiff \<Rightarrow> string list" where
  "AddedPVs d = map fst (filter (\<lambda>(_, info). ph_oldPhase info = nonExist) d)"

text \<open>\<open>kind\<close> is the word that the text begins with: PVC or PV.\<close>

definition PVCDiff_String :: "string \<Rightarrow> PVCDiff \<Rightarrow> string list \<Rightarrow> string" where
  "PVCDiff_String kind d ignorePhases =
     concat (map (\<lambda>(name, info).
       if ph_phase info \<in> set ignorePhases then []
       else if ph_phase info = nonExist then kind @ '' '' @ name @ '' was deleted, had phase '' @ ph_oldPhase info @ [CHR 0x0A]
       else if ph_oldPhase info \<noteq> ph_phase info then
         kind @ '' '' @ name @ '' '' @
         (if ph_oldPhase info = nonExist then ''in phase '' @ ph_phase info @ '' ''
          else ''went from phase: '' @ ph_oldPhase info @ '' -> '' @ ph_phase info @ '' '') @ [CHR 0x0A]
       else []) d)"

section \<open>Objects with conditions\<close>

record ObjectSimplification =
  ob_Namespace :: string
  ob_Name :: string
  ob_Conditions :: "(string \<times> string) list"

definition ObjectSimplification_String :: "ObjectSimplification \<Rightarrow> string" where
  "ObjectSimplification_String ob = ob_Namespace ob @ ''/'' @ ob_Name ob"

record GroupVersionResource =
  gv_Group :: string
  gv_Version :: string
  gv_Resource :: string

record NamespacesRange =
  nr_Prefix :: string
  nr_Min :: int
  nr_Max :: int

definition NamespacesRange_String :: "NamespacesRange \<Rightarrow> string" where
  "NamespacesRange_String nr =
     (if nr_Prefix nr = [] then [] else nr_Prefix nr @ ''-('' @ show_int (nr_Min nr) @ ''-'' @ show_int (nr_Max nr) @ '')'')"

text \<open>The keys of the map; the values are all true.\<close>

definition nr_getMap :: "NamespacesRange \<Rightarrow> string list" where
  "nr_getMap nr =
     (if nr_Prefix nr = [] then [[]]
      else map (\<lambda>i. nr_Prefix nr @ ''-'' @ show_int i) [nr_Min nr..nr_Max nr])"

text \<open>\<open>simplify\<close> is the conversion of an object, through the unstructured form and JSON.\<close>

fun simplify_loop :: "('o \<Rightarrow> goerr + ObjectSimplification) \<Rightarrow> string list \<Rightarrow> 'o list \<Rightarrow> goerr + ObjectSimplification list" where
  "simplify_loop simplify namespaces [] = Inr []"
| "simplify_loop simplify namespaces (ob # obs) =
     (case simplify ob of
        Inl err \<Rightarrow> Inl err
      | Inr os \<Rightarrow>
          (case simplify_loop simplify namespaces obs of
             Inl err \<Rightarrow> Inl err
           | Inr rest \<Rightarrow> Inr (if ob_Namespace os \<in> set namespaces then os # rest else rest)))"

definition ListObjectSimplifications ::
  "('o \<Rightarrow> goerr + ObjectSimplification) \<Rightarrow> string list \<Rightarrow> goerr + 'o list \<Rightarrow> goerr + ObjectSimplification list" where
  "ListObjectSimplifications simplify namespaces listed =
     (case listed of Inl err \<Rightarrow> Inl err | Inr objects \<Rightarrow> simplify_loop simplify namespaces objects)"

definition conditionToKey :: "string \<times> string \<Rightarrow> string" where
  "conditionToKey c = fst c @ ''='' @ snd c"

fun conditions_loop :: "string list \<Rightarrow> string list \<Rightarrow> (string \<times> string) list \<Rightarrow> bool option" where
  "conditions_loop sc fc [] = None"
| "conditions_loop sc fc (c # cs) =
     (if conditionToKey c \<in> set sc then Some True
      else if conditionToKey c \<in> set fc then Some False
      else conditions_loop sc fc cs)"

fun match_loop :: "string list \<Rightarrow> string list \<Rightarrow> ObjectSimplification list \<Rightarrow> string list \<times> string list \<Rightarrow> string list \<times> string list" where
  "match_loop sc fc [] r = r"
| "match_loop sc fc (ob # obs) (successful, unsuccessful) =
     (case conditions_loop sc fc (ob_Conditions ob) of
        Some True \<Rightarrow> match_loop sc fc obs (successful @ [ObjectSimplification_String ob], unsuccessful)
      | Some False \<Rightarrow> match_loop sc fc obs (successful, unsuccessful @ [ObjectSimplification_String ob])
      | None \<Rightarrow> match_loop sc fc obs (successful, unsuccessful))"

definition countObjectsMatchingConditions ::
  "ObjectSimplification list \<Rightarrow> string list \<Rightarrow> string list \<Rightarrow> string list \<times> string list \<times> nat" where
  "countObjectsMatchingConditions objects successfulConditions failedConditions =
     (let (successful, unsuccessful) = match_loop successfulConditions failedConditions objects ([], [])
      in (successful, unsuccessful, length objects))"

record WaitForGenericK8sObjectsOptions =
  wg_GroupVersionResource :: GroupVersionResource
  wg_Namespaces :: NamespacesRange
  wg_SuccessfulConditions :: "string list"
  wg_FailedConditions :: "string list"
  wg_MinDesiredObjectCount :: int
  wg_MaxFailedObjectCount :: int
  wg_CallerName :: string

text \<open>\<^verbatim>\<open>%q\<close> of a name needs no escapes.\<close>

definition wg_Summary :: "WaitForGenericK8sObjectsOptions \<Rightarrow> string" where
  "wg_Summary opts =
     (let g = wg_GroupVersionResource opts
      in wg_CallerName opts @ '': objects: '' @ CHR 0x22 # gv_Group g @ ''/'' @ gv_Version g @ '', Resource='' @ gv_Resource g @ CHR 0x22 #
         '', namespaces: '' @ CHR 0x22 # NamespacesRange_String (wg_Namespaces opts) @ [CHR 0x22])"

definition wg_counts :: "string list \<times> string list \<times> nat \<Rightarrow> string" where
  "wg_counts c = (case c of (successful, unsuccessful, found) \<Rightarrow>
     ''currently there are: successful='' @ show_nat (length successful) @ '' failed='' @ show_nat (length unsuccessful) @
     '' count='' @ show_nat found)"

text \<open>The events carry the listing of the store.\<close>

fun generic_objects_loop ::
  "WaitForGenericK8sObjectsOptions \<Rightarrow> string list \<times> string list \<times> nat \<Rightarrow> (goerr + ObjectSimplification list) store_event list \<Rightarrow>
   goerr option option" where
  "generic_objects_loop opts counts [] = None"
| "generic_objects_loop opts counts (Stopped # es) =
     Some (Some (Errorf (wg_Summary opts @ '': timeout while waiting for '' @ show_int (wg_MinDesiredObjectCount opts) @
       '' objects to be successful or failed - '' @ wg_counts counts) []))"
| "generic_objects_loop opts counts (Interval (Inl err) # es) = Some (Some err)"
| "generic_objects_loop opts counts (Interval (Inr objects) # es) =
     (case countObjectsMatchingConditions objects (wg_SuccessfulConditions opts) (wg_FailedConditions opts) of
        (successful, unsuccessful, found) \<Rightarrow>
          if wg_MinDesiredObjectCount opts \<le> int (length successful + length unsuccessful) then
            if wg_MaxFailedObjectCount opts < int (length unsuccessful)
            then Some (Some (Errorf (wg_Summary opts @ '': too many failed objects, expected at most '' @
                   show_int (wg_MaxFailedObjectCount opts) @ '' - '' @ wg_counts (successful, unsuccessful, found) @
                   '' failed-objects=['' @ strings_Join unsuccessful '','' @ '']'') []))
            else Some None
          else generic_objects_loop opts (successful, unsuccessful, found) es)"

definition WaitForGenericK8sObjects ::
  "('o \<Rightarrow> goerr + ObjectSimplification) \<Rightarrow> goerr + 'o list \<Rightarrow> (goerr + 'o list) store_event list \<Rightarrow> WaitForGenericK8sObjectsOptions \<Rightarrow>
   goerr option option" where
  "WaitForGenericK8sObjects simplify first es opts =
     (let list = ListObjectSimplifications simplify (nr_getMap (wg_Namespaces opts))
      in (case list first of
            Inl err \<Rightarrow> Some (Some err)
          | Inr objects \<Rightarrow>
              generic_objects_loop opts (countObjectsMatchingConditions objects (wg_SuccessfulConditions opts) (wg_FailedConditions opts))
                (map (map_store_event list) es)))"

section \<open>The measurements\<close>

text \<open>
  An execution gives a result or goes on (\<open>None\<close>).  What the loops receive depends on the timeout and on the
  interval, so the events are functions of them.
\<close>

definition waitForRunningPodsMeasurementName :: string where
  "waitForRunningPodsMeasurementName = ''WaitForRunningPods''"

definition wrp_Execute ::
  "(string \<Rightarrow> goerr + duration) \<Rightarrow> string list \<Rightarrow> (goerr + Pod list) \<Rightarrow> (int \<Rightarrow> duration \<Rightarrow> duration \<Rightarrow> wait_event list) \<Rightarrow>
   MeasurementConfig \<Rightarrow> goerr option option" where
  "wrp_Execute parse versions first events config =
     (let ps = mc_Params config in
      case getInt ps ''desiredPodCount'' of
        Inl err \<Rightarrow> Some (Some err)
      | Inr desiredPodCount \<Rightarrow>
     (case ObjectSelector_Parse ps NewObjectSelector of
        (Some err, _) \<Rightarrow> Some (Some err)
      | (None, selector) \<Rightarrow>
     (case GetDurationOrDefault parse ps ''timeout'' (60 * Second_ns) of
        Inl err \<Rightarrow> Some (Some err)
      | Inr limit \<Rightarrow>
     (case GetDurationOrDefault parse ps ''refreshInterval'' (5 * Second_ns) of
        Inl err \<Rightarrow> Some (Some err)
      | Inr refreshInterval \<Rightarrow>
     (case GetBoolOrDefault ps ''isFatal'' False of
        Inl err \<Rightarrow> Some (Some err)
      | Inr isFatal \<Rightarrow>
     (case newObjectStore ''*v1.Pod'' selector versions of
        Some err \<Rightarrow> Some (Some err)
      | None \<Rightarrow>
          map_option (\<lambda>(_, err). if isFatal then map_option NewErrCritical err else err)
            (WaitForPods \<lparr>wo_CountErrorMargin = 0, wo_IsPodUpdated = None\<rparr> (ObjectSelector_String selector) first
               (events desiredPodCount limit refreshInterval))))))))"

definition getMinMaxDesiredNodeCount :: "params \<Rightarrow> goerr + int \<times> int" where
  "getMinMaxDesiredNodeCount ps =
     (case getInt ps ''minDesiredNodeCount'' of
        Inl err \<Rightarrow> Inl err
      | Inr minDesiredNodeCount \<Rightarrow>
          (case getInt ps ''maxDesiredNodeCount'' of
             Inl err \<Rightarrow> Inl err
           | Inr maxDesiredNodeCount \<Rightarrow> Inr (minDesiredNodeCount, maxDesiredNodeCount)))"

definition wnm_Execute ::
  "(string \<Rightarrow> goerr + duration) \<Rightarrow> string list \<Rightarrow> ClusterNode list \<Rightarrow> (duration \<Rightarrow> duration \<Rightarrow> ClusterNode list store_event list) \<Rightarrow>
   MeasurementConfig \<Rightarrow> goerr option option" where
  "wnm_Execute parse versions first events config =
     (let ps = mc_Params config in
      case getMinMaxDesiredNodeCount ps of
        Inl err \<Rightarrow> Some (Some err)
      | Inr (minNodeCount, maxNodeCount) \<Rightarrow>
     (case ObjectSelector_Parse ps NewObjectSelector of
        (Some err, _) \<Rightarrow> Some (Some err)
      | (None, selector) \<Rightarrow>
     (case GetDurationOrDefault parse ps ''timeout'' (30 * Minute_ns) of
        Inl err \<Rightarrow> Some (Some err)
      | Inr limit \<Rightarrow>
     (case GetDurationOrDefault parse ps ''refreshInterval'' (30 * Second_ns) of
        Inl err \<Rightarrow> Some (Some err)
      | Inr refreshInterval \<Rightarrow>
          WaitForNodes versions first (events limit refreshInterval)
            \<lparr>wn_Selector = selector, wn_MinDesiredNodeCount = minNodeCount, wn_MaxDesiredNodeCount = maxNodeCount\<rparr>))))"

definition wpvc_Execute ::
  "(string \<Rightarrow> goerr + duration) \<Rightarrow> string list \<Rightarrow> (duration \<Rightarrow> PersistentVolumeClaim list store_event list) \<Rightarrow> MeasurementConfig \<Rightarrow>
   goerr option option" where
  "wpvc_Execute parse versions events config =
     (let ps = mc_Params config in
      case getInt ps ''desiredPVCCount'' of
        Inl err \<Rightarrow> Some (Some err)
      | Inr desiredPVCCount \<Rightarrow>
     (case ObjectSelector_Parse ps NewObjectSelector of
        (Some err, _) \<Rightarrow> Some (Some err)
      | (None, selector) \<Rightarrow>
     (case GetDurationOrDefault parse ps ''timeout'' (60 * Second_ns) of
        Inl err \<Rightarrow> Some (Some err)
      | Inr limit \<Rightarrow> WaitForPVCs versions (events limit) \<lparr>wc_Selector = selector, wc_DesiredPVCCount = desiredPVCCount\<rparr>)))"

definition wpv_Execute ::
  "(PersistentVolume \<Rightarrow> string) \<Rightarrow> (string \<Rightarrow> goerr + duration) \<Rightarrow> string list \<Rightarrow> PersistentVolume list \<Rightarrow>
   (duration \<Rightarrow> PersistentVolume list store_event list) \<Rightarrow> MeasurementConfig \<Rightarrow> goerr option option" where
  "wpv_Execute shw parse versions first events config =
     (let ps = mc_Params config in
      case getInt ps ''desiredPVCount'' of
        Inl err \<Rightarrow> Some (Some err)
      | Inr desiredPVCount \<Rightarrow>
     (case getString ps ''provisioner'' of
        Inl err \<Rightarrow> Some (Some err)
      | Inr provisioner \<Rightarrow>
     (case ObjectSelector_Parse ps NewObjectSelector of
        (Some err, _) \<Rightarrow> Some (Some err)
      | (None, selector) \<Rightarrow>
     (case GetDurationOrDefault parse ps ''timeout'' (60 * Second_ns) of
        Inl err \<Rightarrow> Some (Some err)
      | Inr limit \<Rightarrow>
          WaitForPVs shw versions first (events limit)
            \<lparr>wv_Selector = selector, wv_DesiredPVCount = desiredPVCount, wv_Provisioner = provisioner\<rparr>))))"

definition getGroupVersionResource :: "params \<Rightarrow> goerr + GroupVersionResource" where
  "getGroupVersionResource ps =
     (case getString ps ''objectGroup'' of
        Inl err \<Rightarrow> Inl err
      | Inr g \<Rightarrow>
     (case getString ps ''objectVersion'' of
        Inl err \<Rightarrow> Inl err
      | Inr v \<Rightarrow>
     (case getString ps ''objectResource'' of
        Inl err \<Rightarrow> Inl err
      | Inr r \<Rightarrow> Inr \<lparr>gv_Group = g, gv_Version = v, gv_Resource = r\<rparr>)))"

definition getNamespaces :: "string \<Rightarrow> params \<Rightarrow> goerr + NamespacesRange" where
  "getNamespaces namespacesPrefix ps =
     (case getMap ps ''namespaceRange'' of
        Inl err \<Rightarrow> if IsErrKeyNotFound err then Inr \<lparr>nr_Prefix = [], nr_Min = 0, nr_Max = 0\<rparr> else Inl err
      | Inr namespaceRange \<Rightarrow>
     (case getInt namespaceRange ''min'' of
        Inl err \<Rightarrow> Inl err
      | Inr minParam \<Rightarrow>
     (case getInt namespaceRange ''max'' of
        Inl err \<Rightarrow> Inl err
      | Inr maxParam \<Rightarrow> Inr \<lparr>nr_Prefix = namespacesPrefix, nr_Min = minParam, nr_Max = maxParam\<rparr>)))"

definition waitForGenericK8sObjectsMeasurementName :: string where
  "waitForGenericK8sObjectsMeasurementName = ''WaitForGenericK8sObjects''"

definition generic_objects_options ::
  "(gval \<Rightarrow> string) \<Rightarrow> params \<Rightarrow> GroupVersionResource \<Rightarrow> NamespacesRange \<Rightarrow> goerr + WaitForGenericK8sObjectsOptions" where
  "generic_objects_options sprintv ps gvr namespaces =
     (case getStringArray sprintv ps ''successfulConditions'' of
        Inl err \<Rightarrow> Inl err
      | Inr successfulConditions \<Rightarrow>
     (case getStringArray sprintv ps ''failedConditions'' of
        Inl err \<Rightarrow> Inl err
      | Inr failedConditions \<Rightarrow>
     (case getInt ps ''minDesiredObjectCount'' of
        Inl err \<Rightarrow> Inl err
      | Inr minDesiredObjectCount \<Rightarrow>
     (case getInt ps ''maxFailedObjectCount'' of
        Inl err \<Rightarrow> Inl err
      | Inr maxFailedObjectCount \<Rightarrow>
          Inr \<lparr>wg_GroupVersionResource = gvr, wg_Namespaces = namespaces, wg_SuccessfulConditions = successfulConditions,
               wg_FailedConditions = failedConditions, wg_MinDesiredObjectCount = minDesiredObjectCount,
               wg_MaxFailedObjectCount = maxFailedObjectCount, wg_CallerName = waitForGenericK8sObjectsMeasurementName\<rparr>))))"

definition wgo_Execute ::
  "('o \<Rightarrow> goerr + ObjectSimplification) \<Rightarrow> (gval \<Rightarrow> string) \<Rightarrow> (string \<Rightarrow> goerr + duration) \<Rightarrow> string \<Rightarrow>
   (GroupVersionResource \<Rightarrow> duration \<Rightarrow> duration \<Rightarrow> (goerr + 'o list) \<times> (goerr + 'o list) store_event list) \<Rightarrow> MeasurementConfig \<Rightarrow>
   goerr option option" where
  "wgo_Execute simplify sprintv parse nsPrefix watched config =
     (let ps = mc_Params config in
      case getGroupVersionResource ps of
        Inl err \<Rightarrow> Some (Some err)
      | Inr gvr \<Rightarrow>
     (case getNamespaces nsPrefix ps of
        Inl err \<Rightarrow> Some (Some err)
      | Inr namespaces \<Rightarrow>
     (case GetDurationOrDefault parse ps ''timeout'' (30 * Minute_ns) of
        Inl err \<Rightarrow> Some (Some err)
      | Inr limit \<Rightarrow>
     (case GetDurationOrDefault parse ps ''refreshInterval'' 20000000 of
        Inl err \<Rightarrow> Some (Some err)
      | Inr refreshInterval \<Rightarrow>
     (case generic_objects_options sprintv ps gvr namespaces of
        Inl err \<Rightarrow> Some (Some err)
      | Inr options \<Rightarrow> (case watched gvr limit refreshInterval of (first, es) \<Rightarrow> WaitForGenericK8sObjects simplify first es options))))))"

section \<open>What the loops have in common\<close>

text \<open>
  A loop over a store: every listing has a verdict, a result or none yet, and the closed channel gives an error.
  Then the loop returns at the first event that decides.
\<close>

locale store_wait =
  fixes run :: "'s \<Rightarrow> 'l store_event list \<Rightarrow> goerr option option"
    and verdict :: "'l \<Rightarrow> goerr option option"
    and next_state :: "'s \<Rightarrow> 'l \<Rightarrow> 's"
  assumes run_nil: "run s [] = None"
    and run_stopped: "\<exists>err. run s (Stopped # es) = Some (Some err)"
    and run_interval: "run s (Interval l # es) = (case verdict l of None \<Rightarrow> run (next_state s l) es | Some r \<Rightarrow> Some r)"
begin

lemma run_undecided: "(\<And>l. l \<in> set ls \<Longrightarrow> verdict l = None) \<Longrightarrow> \<exists>s'. run s (map Interval ls @ es) = run s' es"
  by (induction ls arbitrary: s) (auto simp: run_interval)

text \<open>It succeeds exactly if the first listing with a verdict has a good one and comes before the end.\<close>

lemma succeeds_iff:
  "run s es = Some None \<longleftrightarrow>
     (\<exists>ls l rest. es = map Interval ls @ Interval l # rest \<and> list_all (\<lambda>l. verdict l = None) ls \<and> verdict l = Some None)"
proof
  assume "run s es = Some None"
  then show "\<exists>ls l rest. es = map Interval ls @ Interval l # rest \<and> list_all (\<lambda>l. verdict l = None) ls \<and> verdict l = Some None"
  proof (induction es arbitrary: s)
    case (Cons e es)
    show ?case
    proof (cases e)
      case Stopped
      then show ?thesis using Cons.prems run_stopped[of s es] by auto
    next
      case (Interval l)
      show ?thesis
      proof (cases "verdict l")
        case None
        with Interval Cons.prems have "run (next_state s l) es = Some None" by (simp add: run_interval)
        from Cons.IH[OF this] obtain ls l' rest where
          "es = map Interval ls @ Interval l' # rest" "list_all (\<lambda>l. verdict l = None) ls" "verdict l' = Some None" by blast
        with Interval None show ?thesis by (intro exI[of _ "l # ls"] exI[of _ l'] exI[of _ rest]) simp
      next
        case (Some r)
        with Interval Cons.prems show ?thesis by (intro exI[of _ "[]"]) (simp add: run_interval)
      qed
    qed
  qed (simp add: run_nil)
next
  assume "\<exists>ls l rest. es = map Interval ls @ Interval l # rest \<and> list_all (\<lambda>l. verdict l = None) ls \<and> verdict l = Some None"
  then obtain ls l rest where e: "es = map Interval ls @ Interval l # rest" "list_all (\<lambda>l. verdict l = None) ls" "verdict l = Some None"
    by blast
  from run_undecided[of ls s "Interval l # rest"] e(2) obtain s' where "run s es = run s' (Interval l # rest)"
    by (auto simp: e(1) list_all_iff)
  with e(3) show "run s es = Some None" by (simp add: run_interval)
qed

lemma returns_iff: "run s es = None \<longleftrightarrow> list_all (\<lambda>e. \<exists>l. e = Interval l \<and> verdict l = None) es"
proof (induction es arbitrary: s)
  case (Cons e es)
  show ?case
  proof (cases e)
    case Stopped
    then show ?thesis using run_stopped[of s es] by auto
  next
    case (Interval l)
    then show ?thesis using Cons.IH by (auto simp: run_interval split: option.splits)
  qed
qed (simp add: run_nil)

text \<open>So it returns as soon as the channel is closed, whatever came before.\<close>

lemma stopped_returns: "Stopped \<in> set es \<Longrightarrow> run s es \<noteq> None"
  by (auto simp: returns_iff list_all_iff)

end

definition nodes_verdict :: "WaitForNodeOptions \<Rightarrow> ClusterNode list \<Rightarrow> goerr option option" where
  "nodes_verdict options nodes =
     (if wn_MinDesiredNodeCount options \<le> int (getNumReadyNodes nodes) \<and> int (getNumReadyNodes nodes) \<le> wn_MaxDesiredNodeCount options
      then Some None else None)"

interpretation node_wait: store_wait "nodes_loop options" "nodes_verdict options" "\<lambda>_. getNumReadyNodes" for options
  by unfold_locales (auto simp: nodes_verdict_def Let_def)

text \<open>Claims are settled if the desired number is bound and all others are pending; volumes alike.\<close>

definition pvcs_settled :: "int \<Rightarrow> PersistentVolumeClaim list \<Rightarrow> bool" where
  "pvcs_settled desired pvcs \<longleftrightarrow>
     int (length (filter (\<lambda>p. pvc_Phase p = ''Bound'') pvcs)) = desired \<and>
     list_all (\<lambda>p. pvc_Phase p = ''Bound'' \<or> pvc_Phase p = ''Pending'') pvcs"

definition pvs_settled :: "int \<Rightarrow> PersistentVolume list \<Rightarrow> bool" where
  "pvs_settled desired pvs \<longleftrightarrow>
     int (length (filter (\<lambda>p. pv_Phase p = ''Bound'' \<or> pv_Phase p = ''Available'') pvs)) = desired \<and>
     list_all (\<lambda>p. pv_Phase p = ''Bound'' \<or> pv_Phase p = ''Available'' \<or> pv_Phase p = ''Pending'') pvs"

lemma fold_count_pvc:
  "pcs_Bound (fold count_pvc pvcs st) = pcs_Bound st + int (length (filter (\<lambda>p. pvc_Phase p = ''Bound'') pvcs))"
  "pcs_Pending (fold count_pvc pvcs st) = pcs_Pending st + int (length (filter (\<lambda>p. pvc_Phase p = ''Pending'') pvcs))"
  by (induction pvcs arbitrary: st) (simp_all add: count_pvc_def Let_def)

lemma fold_count_pv:
  "pvs_Bound (fold count_pv pvs st) = pvs_Bound st + int (length (filter (\<lambda>p. pv_Phase p = ''Bound'') pvs))"
  "pvs_Available (fold count_pv pvs st) = pvs_Available st + int (length (filter (\<lambda>p. pv_Phase p = ''Available'') pvs))"
  "pvs_Pending (fold count_pv pvs st) = pvs_Pending st + int (length (filter (\<lambda>p. pv_Phase p = ''Pending'') pvs))"
  by (induction pvs arbitrary: st) (simp_all add: count_pv_def Let_def)

lemma filter_or: "(\<And>x. \<not> (P x \<and> Q x)) \<Longrightarrow> length (filter (\<lambda>x. P x \<or> Q x) xs) = length (filter P xs) + length (filter Q xs)"
  by (induction xs) auto

lemma all_counted: "length xs = length (filter P xs) \<longleftrightarrow> list_all P xs"
  using filter_id_conv[of P xs] length_filter_less[of _ xs P] by (metis list_all_iff less_irrefl)

lemma pvcs_settled_iff:
  "int (length pvcs) = pcs_Bound (ComputePVCsStartupStatus pvcs desired) + pcs_Pending (ComputePVCsStartupStatus pvcs desired) \<and>
   pcs_Bound (ComputePVCsStartupStatus pvcs desired) = desired \<longleftrightarrow> pvcs_settled desired pvcs"
proof -
  have "length (filter (\<lambda>p. pvc_Phase p = ''Bound'' \<or> pvc_Phase p = ''Pending'') pvcs) =
      length (filter (\<lambda>p. pvc_Phase p = ''Bound'') pvcs) + length (filter (\<lambda>p. pvc_Phase p = ''Pending'') pvcs)"
    by (rule filter_or) simp
  with all_counted[of pvcs "\<lambda>p. pvc_Phase p = ''Bound'' \<or> pvc_Phase p = ''Pending''"] show ?thesis
    by (simp add: ComputePVCsStartupStatus_def fold_count_pvc pvcs_settled_def zeroPVCsStatus_def) linarith
qed

lemma pvs_settled_iff:
  "int (length pvs) = pvs_Bound (ComputePVsStartupStatus pvs desired) + pvs_Available (ComputePVsStartupStatus pvs desired) +
     pvs_Pending (ComputePVsStartupStatus pvs desired) \<and>
   pvs_Bound (ComputePVsStartupStatus pvs desired) + pvs_Available (ComputePVsStartupStatus pvs desired) = desired \<longleftrightarrow> pvs_settled desired pvs"
proof -
  have "length (filter (\<lambda>p. pv_Phase p = ''Bound'' \<or> pv_Phase p = ''Available'' \<or> pv_Phase p = ''Pending'') pvs) =
      length (filter (\<lambda>p. pv_Phase p = ''Bound'' \<or> pv_Phase p = ''Available'') pvs) + length (filter (\<lambda>p. pv_Phase p = ''Pending'') pvs)"
    unfolding disj_assoc[symmetric] by (rule filter_or) auto
  moreover have "length (filter (\<lambda>p. pv_Phase p = ''Bound'' \<or> pv_Phase p = ''Available'') pvs) =
      length (filter (\<lambda>p. pv_Phase p = ''Bound'') pvs) + length (filter (\<lambda>p. pv_Phase p = ''Available'') pvs)"
    by (rule filter_or) simp
  ultimately show ?thesis
    using all_counted[of pvs "\<lambda>p. pv_Phase p = ''Bound'' \<or> pv_Phase p = ''Available'' \<or> pv_Phase p = ''Pending''"]
    by (simp add: ComputePVsStartupStatus_def fold_count_pv pvs_settled_def zeroPVsStatus_def) linarith
qed

definition pvcs_verdict :: "WaitForPVCOptions \<Rightarrow> PersistentVolumeClaim list \<Rightarrow> goerr option option" where
  "pvcs_verdict options pvcs = (if pvcs_settled (wc_DesiredPVCCount options) pvcs then Some None else None)"

interpretation pvc_wait: store_wait "pvcs_loop options" "pvcs_verdict options"
  "\<lambda>_ pvcs. ComputePVCsStartupStatus pvcs (wc_DesiredPVCCount options)" for options
  by unfold_locales (simp_all add: pvcs_verdict_def Let_def pvcs_settled_iff)

definition pvs_verdict :: "WaitForPVOptions \<Rightarrow> PersistentVolume list \<Rightarrow> goerr option option" where
  "pvs_verdict options objects =
     (if pvs_settled (wv_DesiredPVCount options) (PVStore_List (wv_Provisioner options) objects) then Some None else None)"

interpretation pv_wait: store_wait "pvs_loop shw options" "pvs_verdict options"
  "\<lambda>_ objects. (PVStore_List (wv_Provisioner options) objects,
     ComputePVsStartupStatus (PVStore_List (wv_Provisioner options) objects) (wv_DesiredPVCount options))" for shw options
  by unfold_locales (auto simp: pvs_verdict_def Let_def pvs_settled_iff)

definition generic_verdict :: "WaitForGenericK8sObjectsOptions \<Rightarrow> goerr + ObjectSimplification list \<Rightarrow> goerr option option" where
  "generic_verdict opts listed =
     (case listed of
        Inl err \<Rightarrow> Some (Some err)
      | Inr objects \<Rightarrow> generic_objects_loop opts ([], [], 0) [Interval (Inr objects)])"

definition generic_counts :: "WaitForGenericK8sObjectsOptions \<Rightarrow> goerr + ObjectSimplification list \<Rightarrow> string list \<times> string list \<times> nat" where
  "generic_counts opts listed =
     (case listed of
        Inl err \<Rightarrow> ([], [], 0)
      | Inr objects \<Rightarrow> countObjectsMatchingConditions objects (wg_SuccessfulConditions opts) (wg_FailedConditions opts))"

interpretation generic_wait: store_wait "generic_objects_loop opts" "generic_verdict opts" "\<lambda>_. generic_counts opts" for opts
proof (unfold_locales, goal_cases)
  case (3 s l es)
  then show ?case
    by (cases l) (auto simp: generic_verdict_def generic_counts_def split: prod.splits)
qed auto

text \<open>When a listing settles the wait for \<open>settled\<close>: it is the first one to do so, and comes before the end.\<close>

definition settles_first :: "('l \<Rightarrow> bool) \<Rightarrow> 'l store_event list \<Rightarrow> bool" where
  "settles_first good es \<longleftrightarrow> (\<exists>ls l rest. es = map Interval ls @ Interval l # rest \<and> list_all (\<lambda>l. \<not> good l) ls \<and> good l)"

lemma settles_first_Nil [simp]: "\<not> settles_first good []"
  by (simp add: settles_first_def)

lemma settles_first_Stopped [simp]: "\<not> settles_first good (Stopped # es)"
  by (auto simp: settles_first_def Cons_eq_append_conv Cons_eq_map_conv)

lemma settles_first_Interval [simp]: "settles_first good (Interval l # es) \<longleftrightarrow> good l \<or> settles_first good es"
proof
  assume "settles_first good (Interval l # es)"
  then obtain ls l' rest where e: "Interval l # es = map Interval ls @ Interval l' # rest" "list_all (\<lambda>l. \<not> good l) ls" "good l'"
    by (auto simp: settles_first_def)
  then show "good l \<or> settles_first good es" by (cases ls) (auto simp: settles_first_def)
next
  assume "good l \<or> settles_first good es"
  then show "settles_first good (Interval l # es)"
  proof (cases "good l")
    case True
    then show ?thesis unfolding settles_first_def by (intro exI[of _ "[]"]) simp
  next
    case False
    assume "good l \<or> settles_first good es"
    with False obtain ls l' rest where "es = map Interval ls @ Interval l' # rest" "list_all (\<lambda>l. \<not> good l) ls" "good l'"
      by (auto simp: settles_first_def)
    with False show ?thesis unfolding settles_first_def
      by (intro exI[of _ "l # ls"] exI[of _ l'] exI[of _ rest]) simp
  qed
qed

lemma ready_store: "list_ex (\<lambda>v. v \<noteq> []) versions \<Longrightarrow> newObjectStore typ selector versions = None"
  by (auto simp: newObjectStore_def wait_Poll_def list_ex_iff Let_def)

text \<open>
  C29: the waits for nodes, claims and volumes succeed exactly when they should.  With a store that becomes ready,
  each succeeds if and only if some listing before the end of the time settles it: the number of nodes that are
  schedulable and without a built-in taint lies between the bounds; the desired number of claims is bound and all
  others are pending; the desired number of volumes of the provisioner is bound or available and all others are
  pending.  And each returns as soon as its time is over.
\<close>

theorem object_waits_decided:
  assumes "list_ex (\<lambda>v. v \<noteq> []) versions"
  shows "(WaitForNodes versions first es nopts = Some None \<longleftrightarrow>
      settles_first (\<lambda>nodes. wn_MinDesiredNodeCount nopts \<le> int (length (filter IsNodeSchedulableAndUntainted nodes)) \<and>
        int (length (filter IsNodeSchedulableAndUntainted nodes)) \<le> wn_MaxDesiredNodeCount nopts) es) \<and>
    (WaitForPVCs versions es' copts = Some None \<longleftrightarrow> settles_first (pvcs_settled (wc_DesiredPVCCount copts)) es') \<and>
    (WaitForPVs shw versions first' es'' vopts = Some None \<longleftrightarrow>
      settles_first (\<lambda>pvs. pvs_settled (wv_DesiredPVCount vopts) (PVStore_List (wv_Provisioner vopts) pvs)) es'') \<and>
    (Stopped \<in> set es \<longrightarrow> WaitForNodes versions first es nopts \<noteq> None) \<and>
    (Stopped \<in> set es' \<longrightarrow> WaitForPVCs versions es' copts \<noteq> None) \<and>
    (Stopped \<in> set es'' \<longrightarrow> WaitForPVs shw versions first' es'' vopts \<noteq> None)"
proof -
  have n: "WaitForNodes versions first es nopts = nodes_loop nopts (getNumReadyNodes first) es"
    and c: "WaitForPVCs versions es' copts = pvcs_loop copts zeroPVCsStatus es'"
    and v: "WaitForPVs shw versions first' es'' vopts =
      pvs_loop shw vopts (PVStore_List (wv_Provisioner vopts) first', zeroPVsStatus) es''"
    by (simp_all add: WaitForNodes_def WaitForPVCs_def WaitForPVs_def ready_store[OF assms])
  show ?thesis
    unfolding n c v node_wait.succeeds_iff pvc_wait.succeeds_iff pv_wait.succeeds_iff settles_first_def
    using node_wait.stopped_returns pvc_wait.stopped_returns pv_wait.stopped_returns
    by (auto simp: nodes_verdict_def pvcs_verdict_def pvs_verdict_def getNumReadyNodes_def split: if_splits)
qed

definition ready_node :: ClusterNode where
  "ready_node = \<lparr>no_Name = ''n1'', no_Labels = [], no_Taints = [\<lparr>ta_Key = ''dedicated'', ta_Value = [], ta_Effect = ''NoSchedule''\<rparr>],
     cn_Unschedulable = False, cn_Conditions = [(''Ready'', ''True'')], cn_Addresses = []\<rparr>"

definition no_selector :: ObjectSelector where
  "no_selector = \<lparr>os_Namespace = [], os_LabelSelector = [], os_FieldSelector = []\<rparr>"

lemma object_waits_decided_witness:
  "WaitForNodes [[], ''7''] [] [Interval [], Interval [ready_node]] \<lparr>wn_Selector = no_selector, wn_MinDesiredNodeCount = 1, wn_MaxDesiredNodeCount = 2\<rparr> = Some None \<and>
   WaitForPVCs [''7''] [Interval [\<lparr>pvc_Name = ''c'', pvc_Phase = ''Lost''\<rparr>], Stopped] \<lparr>wc_Selector = no_selector, wc_DesiredPVCCount = 0\<rparr> \<noteq> Some None"
proof -
  note t = object_waits_decided[of "[[], ''7'']" "[]" "[Interval [], Interval [ready_node]]"
      "\<lparr>wn_Selector = no_selector, wn_MinDesiredNodeCount = 1, wn_MaxDesiredNodeCount = 2\<rparr>"]
  note u = object_waits_decided[of "[''7'']" "[]" "[]" _ "[Interval [\<lparr>pvc_Name = ''c'', pvc_Phase = ''Lost''\<rparr>], Stopped]"
      "\<lparr>wc_Selector = no_selector, wc_DesiredPVCCount = 0\<rparr>"]
  have "IsNodeSchedulableAndUntainted ready_node"
    by (simp add: IsNodeSchedulableAndUntainted_def isNodeSchedulable_def isNodeUntainted_def ready_node_def isNodeConditionSetAsExpected_def
        isNodeConditionUnset_def builtInTaintsKeys_def)
  then show ?thesis using t u by (simp add: pvcs_settled_def)
qed

section \<open>Objects are decided once\<close>

lemma conditions_loop_find:
  "conditions_loop sc fc cs =
     map_option (\<lambda>c. conditionToKey c \<in> set sc) (List.find (\<lambda>c. conditionToKey c \<in> set sc \<union> set fc) cs)"
  by (induction cs) auto

lemma match_loop_filter:
  "match_loop sc fc obs (a, b) =
     (a @ map ObjectSimplification_String (filter (\<lambda>ob. conditions_loop sc fc (ob_Conditions ob) = Some True) obs),
      b @ map ObjectSimplification_String (filter (\<lambda>ob. conditions_loop sc fc (ob_Conditions ob) = Some False) obs))"
  by (induction obs arbitrary: a b) (auto split: option.splits bool.splits)

lemma simplify_loop_ok: "simplify_loop (\<lambda>ob. Inr (f ob)) nss obs = Inr (filter (\<lambda>os. ob_Namespace os \<in> set nss) (map f obs))"
  by (induction obs) auto

text \<open>The watched objects whose first condition that counts is a good one (\<open>True\<close>) or a bad one (\<open>False\<close>).\<close>

definition decided :: "WaitForGenericK8sObjectsOptions \<Rightarrow> bool \<Rightarrow> ObjectSimplification list \<Rightarrow> nat" where
  "decided opts good obs =
     length (filter (\<lambda>ob. ob_Namespace ob \<in> set (nr_getMap (wg_Namespaces opts)) \<and>
       map_option (\<lambda>c. conditionToKey c \<in> set (wg_SuccessfulConditions opts))
         (List.find (\<lambda>c. conditionToKey c \<in> set (wg_SuccessfulConditions opts) \<union> set (wg_FailedConditions opts)) (ob_Conditions ob)) = Some good) obs)"

lemma generic_verdict_Inr:
  fixes opts :: WaitForGenericK8sObjectsOptions
  defines "tally \<equiv> \<lambda>b objs. length (filter (\<lambda>ob. conditions_loop (wg_SuccessfulConditions opts) (wg_FailedConditions opts) (ob_Conditions ob) = Some b) objs)"
  shows "\<exists>msg. generic_verdict opts (Inr objs) =
      (if wg_MinDesiredObjectCount opts \<le> int (tally True objs + tally False objs)
       then if wg_MaxFailedObjectCount opts < int (tally False objs) then Some (Some msg) else Some None
       else None)"
  unfolding tally_def by (auto simp: generic_verdict_def countObjectsMatchingConditions_def match_loop_filter)

lemma generic_verdict_listed:
  fixes f :: "'o \<Rightarrow> ObjectSimplification"
  defines "list \<equiv> ListObjectSimplifications (\<lambda>ob. Inr (f ob))"
  shows "generic_verdict opts (list (nr_getMap (wg_Namespaces opts)) (Inr obs)) = None \<longleftrightarrow>
      int (decided opts True (map f obs) + decided opts False (map f obs)) < wg_MinDesiredObjectCount opts"
    and "generic_verdict opts (list (nr_getMap (wg_Namespaces opts)) (Inr obs)) = Some None \<longleftrightarrow>
      wg_MinDesiredObjectCount opts \<le> int (decided opts True (map f obs) + decided opts False (map f obs)) \<and>
      int (decided opts False (map f obs)) \<le> wg_MaxFailedObjectCount opts"
proof -
  have d: "length (filter (\<lambda>ob. conditions_loop (wg_SuccessfulConditions opts) (wg_FailedConditions opts) (ob_Conditions ob) = Some good)
        (filter (\<lambda>os. ob_Namespace os \<in> set (nr_getMap (wg_Namespaces opts))) (map f obs))) = decided opts good (map f obs)" for good
    unfolding decided_def filter_filter conditions_loop_find by (rule arg_cong[of _ _ length], rule filter_cong) auto
  obtain msg where v: "generic_verdict opts (list (nr_getMap (wg_Namespaces opts)) (Inr obs)) =
      (if wg_MinDesiredObjectCount opts \<le> int (decided opts True (map f obs) + decided opts False (map f obs))
       then if wg_MaxFailedObjectCount opts < int (decided opts False (map f obs)) then Some (Some msg) else Some None
       else None)"
    using generic_verdict_Inr[of opts "filter (\<lambda>os. ob_Namespace os \<in> set (nr_getMap (wg_Namespaces opts))) (map f obs)"]
    unfolding d by (auto simp: list_def ListObjectSimplifications_def simplify_loop_ok)
  show "generic_verdict opts (list (nr_getMap (wg_Namespaces opts)) (Inr obs)) = None \<longleftrightarrow>
      int (decided opts True (map f obs) + decided opts False (map f obs)) < wg_MinDesiredObjectCount opts"
    "generic_verdict opts (list (nr_getMap (wg_Namespaces opts)) (Inr obs)) = Some None \<longleftrightarrow>
      wg_MinDesiredObjectCount opts \<le> int (decided opts True (map f obs) + decided opts False (map f obs)) \<and>
      int (decided opts False (map f obs)) \<le> wg_MaxFailedObjectCount opts"
    unfolding v by auto
qed

text \<open>The loop on what the lister returns, which is converted at each listing.\<close>

interpretation listed_wait: store_wait "\<lambda>counts es. generic_objects_loop opts counts (map (map_store_event g) es)"
  "\<lambda>l. generic_verdict opts (g l)" "\<lambda>_ l. generic_counts opts (g l)" for opts and g :: "'l \<Rightarrow> goerr + ObjectSimplification list"
  by unfold_locales (simp_all add: generic_wait.run_interval)

text \<open>
  Waiting for objects with conditions.  An object of the watched namespaces counts once, by the first of its
  conditions that is listed as successful or failed.  The wait succeeds exactly if, at the first listing before the
  end of the time with enough counted objects, not too many of them failed; enough of them with too many failures
  end it with an error.
\<close>

theorem generic_objects_decided:
  fixes f :: "'o \<Rightarrow> ObjectSimplification"
  shows "WaitForGenericK8sObjects (\<lambda>ob. Inr (f ob)) (Inr first) (map (map_store_event Inr) es) opts = Some None \<longleftrightarrow>
    (\<exists>ls l rest. es = map Interval ls @ Interval l # rest \<and>
       list_all (\<lambda>l. int (decided opts True (map f l) + decided opts False (map f l)) < wg_MinDesiredObjectCount opts) ls \<and>
       wg_MinDesiredObjectCount opts \<le> int (decided opts True (map f l) + decided opts False (map f l)) \<and>
       int (decided opts False (map f l)) \<le> wg_MaxFailedObjectCount opts)"
proof -
  let ?list = "\<lambda>l. ListObjectSimplifications (\<lambda>ob. Inr (f ob)) (nr_getMap (wg_Namespaces opts)) (Inr l)"
  obtain counts where w: "WaitForGenericK8sObjects (\<lambda>ob. Inr (f ob)) (Inr first) (map (map_store_event Inr) es) opts =
      generic_objects_loop opts counts (map (map_store_event ?list) es)"
    by (auto simp: WaitForGenericK8sObjects_def ListObjectSimplifications_def simplify_loop_ok store_event.map_comp comp_def)
  show ?thesis unfolding w listed_wait.succeeds_iff generic_verdict_listed ..
qed

section \<open>Differences are exact\<close>

definition phases_ok :: "string set \<Rightarrow> string set \<Rightarrow> PVCDiff \<Rightarrow> bool" where
  "phases_ok cur old m \<longleftrightarrow> gomap_ok m \<and>
     (\<forall>n. map_of m n = None \<longleftrightarrow> n \<notin> cur \<union> old) \<and>
     (\<forall>n info. map_of m n = Some info \<longrightarrow> (ph_phase info = nonExist \<longleftrightarrow> n \<notin> cur) \<and> (ph_oldPhase info = nonExist \<longleftrightarrow> n \<notin> old))"

lemma phases_ok_current: "phases_ok cur {} m \<Longrightarrow> snd p \<noteq> nonExist \<Longrightarrow> phases_ok (insert (fst p) cur) {} (diff_current p m)"
  by (auto simp: phases_ok_def diff_current_def go_map split: prod.splits if_splits)

lemma phases_ok_former: "phases_ok cur old m \<Longrightarrow> snd p \<noteq> nonExist \<Longrightarrow> phases_ok cur (insert (fst p) old) (diff_former p m)"
  by (auto simp: phases_ok_def diff_former_def go_map split: prod.splits if_splits option.splits)

lemma phases_ok_diff:
  assumes "nonExist \<notin> snd ` set old" "nonExist \<notin> snd ` set cur"
  shows "phases_ok (fst ` set cur) (fst ` set old) (diff_phases old cur)"
proof -
  have c: "phases_ok (fst ` set ps \<union> X) {} (fold diff_current ps m)" if "nonExist \<notin> snd ` set ps" "phases_ok X {} m" for ps X m
    using that
  proof (induction ps arbitrary: X m)
    case (Cons p ps)
    then show ?case using Cons.IH[OF _ phases_ok_current[of X m p]] by auto
  qed simp
  have f: "phases_ok X (fst ` set ps \<union> Y) (fold diff_former ps m)" if "nonExist \<notin> snd ` set ps" "phases_ok X Y m" for ps X Y m
    using that
  proof (induction ps arbitrary: Y m)
    case (Cons p ps)
    then show ?case using Cons.IH[OF _ phases_ok_former[of X Y m p]] by auto
  qed simp
  have "phases_ok {} {} []" by (simp add: phases_ok_def)
  from f[OF assms(1) c[OF assms(2) this]] show ?thesis by (simp add: diff_phases_def)
qed

lemma phases_ok_dom:
  assumes "phases_ok cur old m"
  shows "(\<exists>info. map_of m n = Some info \<and> ph_phase info = nonExist) \<longleftrightarrow> n \<in> old - cur"
    and "(\<exists>info. map_of m n = Some info \<and> ph_oldPhase info = nonExist) \<longleftrightarrow> n \<in> cur - old"
proof -
  have "(\<exists>info. map_of m n = Some info) \<longleftrightarrow> n \<in> cur \<or> n \<in> old"
    using assms unfolding phases_ok_def by (metis Un_iff not_None_eq)
  moreover have "map_of m n = Some info \<Longrightarrow> (ph_phase info = nonExist \<longleftrightarrow> n \<notin> cur) \<and> (ph_oldPhase info = nonExist \<longleftrightarrow> n \<notin> old)" for info
    using assms unfolding phases_ok_def by blast
  ultimately show "(\<exists>info. map_of m n = Some info \<and> ph_phase info = nonExist) \<longleftrightarrow> n \<in> old - cur"
    "(\<exists>info. map_of m n = Some info \<and> ph_oldPhase info = nonExist) \<longleftrightarrow> n \<in> cur - old" by blast+
qed

text \<open>Claims that disappeared and claims that appeared; no phase is called \<^verbatim>\<open>NonExist\<close>.\<close>

lemma DiffPVCs_exact:
  assumes "nonExist \<notin> pvc_Phase ` (set old \<union> set cur)"
  shows "set (DeletedPVCs (DiffPVCs old cur)) = pvc_Name ` set old - pvc_Name ` set cur"
    and "set (AddedPVCs (DiffPVCs old cur)) = pvc_Name ` set cur - pvc_Name ` set old"
proof -
  have ok: "phases_ok (pvc_Name ` set cur) (pvc_Name ` set old) (DiffPVCs old cur)"
    using phases_ok_diff[of "map (\<lambda>p. (pvc_Name p, pvc_Phase p)) old" "map (\<lambda>p. (pvc_Name p, pvc_Phase p)) cur"] assms
    by (auto simp: DiffPVCs_def image_image)
  have mem: "(n, info) \<in> set (DiffPVCs old cur) \<longleftrightarrow> map_of (DiffPVCs old cur) n = Some info" for n info
    using ok by (simp add: phases_ok_def)
  have "n \<in> set (DeletedPVCs (DiffPVCs old cur)) \<longleftrightarrow> n \<in> pvc_Name ` set old - pvc_Name ` set cur" for n
    using phases_ok_dom(1)[OF ok, of n] unfolding DeletedPVCs_def in_keys_filter mem by simp
  moreover have "n \<in> set (AddedPVCs (DiffPVCs old cur)) \<longleftrightarrow> n \<in> pvc_Name ` set cur - pvc_Name ` set old" for n
    using phases_ok_dom(2)[OF ok, of n] unfolding AddedPVCs_def in_keys_filter mem by simp
  ultimately show "set (DeletedPVCs (DiffPVCs old cur)) = pvc_Name ` set old - pvc_Name ` set cur"
    "set (AddedPVCs (DiffPVCs old cur)) = pvc_Name ` set cur - pvc_Name ` set old" by blast+
qed

end
