(* ===== verification/Basic_Measurements.thy ===== *)
theory Basic_Measurements
  imports Waiting Pod_Command Chaos Modifier
begin

text \<open>
  Further measurements of \<^verbatim>\<open>clusterloader2/pkg/measurement/common\<close>: ClusterOOMsTracker (\<^verbatim>\<open>ooms_tracker.go\<close>), Timer
  (\<^verbatim>\<open>timer.go\<close>), SchedulingThroughput (\<^verbatim>\<open>scheduling_throughput.go\<close>), Exec (\<^verbatim>\<open>exec.go\<close>), Sleep (\<^verbatim>\<open>sleep.go\<close>) and ChaosMonkey
  (\<^verbatim>\<open>chaos_monkey_measurement.go\<close>).
\<close>

section \<open>ClusterOOMsTracker\<close>

record oomEvent =
  oe_Node :: string
  oe_Process :: string
  oe_ProcessMemory :: string
  oe_ProcessID :: string
  oe_Time :: gotime

text \<open>An event of the cluster; the zero time is 0.\<close>

record Event =
  ev_ResourceVersion :: string
  ev_Reason :: string
  ev_Message :: string
  ev_InvolvedName :: string
  ev_EventTime :: gotime
  ev_FirstTimestamp :: gotime

definition oomEventReason :: string where
  "oomEventReason = ''OOMKilling''"

text \<open>
  The regular expression \<^verbatim>\<open>Killed process (\d+) \((.+)\) total-vm:(\d+kB), anon-rss:\d+kB, file-rss:\d+kB.*\<close>:
  the leftmost match, with the longest name of a process.
\<close>

definition is_digit :: "char \<Rightarrow> bool" where
  "is_digit c \<longleftrightarrow> char_digit c \<noteq> None"

definition strip_prefix :: "string \<Rightarrow> string \<Rightarrow> string option" where
  "strip_prefix p s = (if take (length p) s = p then Some (drop (length p) s) else None)"

definition kilobytes :: "string \<Rightarrow> (string \<times> string) option" where
  "kilobytes s =
     (let ds = takeWhile is_digit s
      in if ds = [] then None else map_option (Pair (ds @ ''kB'')) (strip_prefix ''kB'' (dropWhile is_digit s)))"

definition oom_sizes :: "string \<Rightarrow> string option" where
  "oom_sizes s =
     Option.bind (strip_prefix '') total-vm:'' s) (\<lambda>s.
     Option.bind (kilobytes s) (\<lambda>(total_vm, s).
     Option.bind (strip_prefix '', anon-rss:'' s) (\<lambda>s.
     Option.bind (kilobytes s) (\<lambda>(_, s).
     Option.bind (strip_prefix '', file-rss:'' s) (\<lambda>s.
     map_option (\<lambda>_. total_vm) (kilobytes s))))))"

text \<open>The longest name: the first characters of \<open>s\<close> up to a newline, at least one, before the sizes.\<close>

fun oom_process :: "nat \<Rightarrow> string \<Rightarrow> (string \<times> string) option" where
  "oom_process 0 s = None"
| "oom_process (Suc n) s =
     (if Suc n \<le> length s \<and> CHR 0x0A \<notin> set (take (Suc n) s)
      then (case oom_sizes (drop (Suc n) s) of Some m \<Rightarrow> Some (take (Suc n) s, m) | None \<Rightarrow> oom_process n s)
      else oom_process n s)"

definition oom_match_at :: "string \<Rightarrow> (string \<times> string \<times> string) option" where
  "oom_match_at s =
     Option.bind (strip_prefix ''Killed process '' s) (\<lambda>s.
     let pid = takeWhile is_digit s
     in if pid = [] then None
        else Option.bind (strip_prefix '' ('' (dropWhile is_digit s)) (\<lambda>s. map_option (Pair pid) (oom_process (length s) s)))"

fun FindStringSubmatch :: "string \<Rightarrow> (string \<times> string \<times> string) option" where
  "FindStringSubmatch [] = oom_match_at []"
| "FindStringSubmatch (c # s) = (case oom_match_at (c # s) of Some m \<Rightarrow> Some m | None \<Rightarrow> FindStringSubmatch s)"

record clusterOOMsTrackerMeasurement =
  ot_isRunning :: bool
  ot_startTime :: gotime
  ot_stopped :: bool
  ot_processIgnored :: "(string, bool) gomap"
  ot_resourceVersionRecorded :: "(string, bool) gomap"
  ot_ooms :: "oomEvent list"

type_synonym oot = clusterOOMsTrackerMeasurement

definition createClusterOOMsTrackerMeasurement :: oot where
  "createClusterOOMsTrackerMeasurement =
     \<lparr>ot_isRunning = False, ot_startTime = 0, ot_stopped = False, ot_processIgnored = [], ot_resourceVersionRecorded = [], ot_ooms = []\<rparr>"

definition clusterOOMsTrackerName :: string where
  "clusterOOMsTrackerName = ''ClusterOOMsTracker''"

definition map_bool :: "(string, bool) gomap \<Rightarrow> string \<Rightarrow> bool" where
  "map_bool m k = (case map_of m k of Some b \<Rightarrow> b | None \<Rightarrow> False)"

definition to_oom :: "Event \<Rightarrow> oomEvent" where
  "to_oom event =
     (let t = (if ev_EventTime event \<noteq> 0 then ev_EventTime event else ev_FirstTimestamp event)
      in (case FindStringSubmatch (ev_Message event) of
            Some (pid, process, memory) \<Rightarrow>
              \<lparr>oe_Node = ev_InvolvedName event, oe_Process = process, oe_ProcessMemory = memory, oe_ProcessID = pid, oe_Time = t\<rparr>
          | None \<Rightarrow> \<lparr>oe_Node = ev_InvolvedName event, oe_Process = [], oe_ProcessMemory = [], oe_ProcessID = [], oe_Time = t\<rparr>))"

text \<open>\<open>None\<close> is an object that is no event.\<close>

definition handleOOMEvent :: "Event option \<Rightarrow> oot \<Rightarrow> oot" where
  "handleOOMEvent obj m =
     (case obj of
        None \<Rightarrow> m
      | Some event \<Rightarrow>
          if ev_Reason event \<noteq> oomEventReason then m
          else if map_bool (ot_resourceVersionRecorded m) (ev_ResourceVersion event) then m
          else m\<lparr>ot_resourceVersionRecorded := AList.update (ev_ResourceVersion event) True (ot_resourceVersionRecorded m),
                 ot_ooms := ot_ooms m @ [to_oom event]\<rparr>)"

definition ot_initFields :: "gotime \<Rightarrow> params \<Rightarrow> oot \<Rightarrow> goerr option \<times> oot" where
  "ot_initFields now ps m =
     (let m = m\<lparr>ot_isRunning := True, ot_startTime := now, ot_stopped := False, ot_resourceVersionRecorded := []\<rparr>
      in (case GetStringOrDefault ps ''clusterOOMsIgnoredProcesses'' [] of
            Inl err \<Rightarrow> (Some err, m)
          | Inr ignored \<Rightarrow>
              (None, m\<lparr>ot_processIgnored :=
                 (if ignored \<noteq> [] then fold (\<lambda>p. AList.update p True) (strings_Split ignored (CHR '','')) [] else [])\<rparr>)))"

text \<open>
  \<open>watched\<close> are the events that the informer delivers before and during the listing of the older ones, \<open>listed\<close> the
  older ones in the order in which they are handled between them, with an error if the listing fails.
\<close>

definition ot_start ::
  "gotime \<Rightarrow> bool \<Rightarrow> Event option list \<Rightarrow> Event option list \<times> goerr option \<Rightarrow> params \<Rightarrow> oot \<Rightarrow> goerr option \<times> oot" where
  "ot_start now synced watched prior ps m =
     (if ot_isRunning m then (None, m)
      else
        (case ot_initFields now ps m of
           (Some err, m) \<Rightarrow>
             (Some (Errorf (''problem with OOMs tracking measurement fields initialization: '' @ err_msg err) [err]), m)
         | (None, m) \<Rightarrow>
             let m = fold handleOOMEvent watched m
             in (case StartAndSync synced of
                   Some err \<Rightarrow> (Some (Errorf (''problem with OOM events informer starting: '' @ err_msg err) [err]), m)
                 | None \<Rightarrow>
                     let m = fold handleOOMEvent (fst prior) m
                     in (case snd prior of
                           Some err \<Rightarrow> (Some (Errorf (''problem with handling prior OOMs: '' @ err_msg err) [err]), m)
                         | None \<Rightarrow> (None, m)))))"

definition ot_stop :: "oot \<Rightarrow> oot" where
  "ot_stop m = (if ot_isRunning m then m\<lparr>ot_isRunning := False, ot_stopped := True\<rparr> else m)"

record oom_data =
  od_failures :: "oomEvent list"
  od_past :: "oomEvent list"
  od_ignored :: "oomEvent list"

definition sort_oom :: "oot \<Rightarrow> oomEvent \<Rightarrow> oom_data \<Rightarrow> oom_data" where
  "sort_oom m oom d =
     (if ot_startTime m > oe_Time oom then d\<lparr>od_past := od_past d @ [oom]\<rparr>
      else if map_bool (ot_processIgnored m) (oe_Process oom) then d\<lparr>od_ignored := od_ignored d @ [oom]\<rparr>
      else d\<lparr>od_failures := od_failures d @ [oom]\<rparr>)"

text \<open>\<open>pretty\<close> prints the three groups as JSON, \<open>shw\<close> the failures.\<close>

definition ot_gather ::
  "(oom_data \<Rightarrow> goerr + string) \<Rightarrow> (oomEvent list \<Rightarrow> string) \<Rightarrow> gotime \<Rightarrow> oot \<Rightarrow> (genericSummary list \<times> goerr option) \<times> oot" where
  "ot_gather pretty shw now m =
     (if \<not> ot_isRunning m
      then (([], Some (Errorf (''measurement '' @ clusterOOMsTrackerName @ '' has not been started'') [])), m)
      else
        let m = ot_stop m;
            oomData = fold (sort_oom m) (ot_ooms m) \<lparr>od_failures = [], od_past = [], od_ignored = []\<rparr>
        in (case pretty oomData of
              Inl err \<Rightarrow> (([], Some (Errorf (''OOMs PrettyPrintJSON problem: '' @ err_msg err) [err])), m)
            | Inr content \<Rightarrow>
                (([CreateSummary now clusterOOMsTrackerName ''json'' content],
                  if length (od_failures oomData) > 0 then Some (Errorf (''OOMs recorded: '' @ shw (od_failures oomData)) []) else None), m)))"

record oom_env =
  oenv_pretty :: "oom_data \<Rightarrow> goerr + string"
  oenv_show :: "oomEvent list \<Rightarrow> string"
  oenv_synced :: bool
  oenv_watched :: "Event option list"
  oenv_prior :: "Event option list \<times> goerr option"

definition ot_Execute :: "oom_env \<Rightarrow> gotime \<Rightarrow> MeasurementConfig \<Rightarrow> oot \<Rightarrow> (genericSummary list \<times> goerr option) \<times> oot" where
  "ot_Execute env now config m =
     (case GetBoolOrDefault (mc_Params config) ''clusterOOMsTrackerEnabled'' False of
        Inl err \<Rightarrow> (([], Some (Errorf (''problem with getting clusterOOMsTrackerEnabled param: '' @ err_msg err) [err])), m)
      | Inr enabled \<Rightarrow>
          if \<not> enabled then (([], None), m)
          else
            (case getString (mc_Params config) ''action'' of
               Inl err \<Rightarrow> (([], Some (Errorf (''problem with getting action param: '' @ err_msg err) [err])), m)
             | Inr action \<Rightarrow>
                 if action = ''start'' then
                   (case ot_start now (oenv_synced env) (oenv_watched env) (oenv_prior env) (mc_Params config) m of
                      (Some err, m) \<Rightarrow> (([], Some (Errorf (''starting cluster OOMs measurement problem: '' @ err_msg err) [err])), m)
                    | (None, m) \<Rightarrow> (([], None), m))
                 else if action = ''gather'' then ot_gather (oenv_pretty env) (oenv_show env) now m
                 else (([], Some (Errorf (''unknown action '' @ action) [])), m)))"

definition ot_Dispose :: "oot \<Rightarrow> oot" where
  "ot_Dispose m = ot_stop m"

section \<open>Timer\<close>

record timer =
  tm_startTimes :: "(string, gotime) gomap"
  tm_durations :: "(string, duration) gomap"

definition createTimerMeasurment :: timer where
  "createTimerMeasurment = \<lparr>tm_startTimes = [], tm_durations = []\<rparr>"

definition timerMeasurementName :: string where
  "timerMeasurementName = ''Timer''"

text \<open>\<^verbatim>\<open>Duration.Seconds\<close> adds the whole seconds and the rest.\<close>

definition Seconds :: "duration \<Rightarrow> rat" where
  "Seconds d = fl (of_int (go_div d 1000000000) + fl (of_int (go_mod d 1000000000) / 1000000000))"

definition timer_data :: "timer \<Rightarrow> PerfData" where
  "timer_data t =
     \<lparr>pd_Version = ''v1'',
      pd_DataItems = [\<lparr>di_Data = map (\<lambda>(label, d). (label, Seconds d)) (tm_durations t), di_Unit = ''s'', di_Labels = [(''test'', ''phases'')]\<rparr>],
      pd_Labels = []\<rparr>"

definition timer_Execute ::
  "(PerfData \<Rightarrow> goerr + string) \<Rightarrow> gotime \<Rightarrow> MeasurementConfig \<Rightarrow> timer \<Rightarrow> (genericSummary list \<times> goerr option) \<times> timer" where
  "timer_Execute pretty now config t =
     (case getString (mc_Params config) ''action'' of
        Inl err \<Rightarrow> (([], Some err), t)
      | Inr action \<Rightarrow>
          if action = ''start'' then
            (case getString (mc_Params config) ''label'' of
               Inl err \<Rightarrow> (([], Some err), t)
             | Inr label \<Rightarrow> (([], None), t\<lparr>tm_startTimes := AList.update label now (tm_startTimes t)\<rparr>))
          else if action = ''stop'' then
            (case getString (mc_Params config) ''label'' of
               Inl err \<Rightarrow> (([], Some err), t)
             | Inr label \<Rightarrow>
                 (case map_of (tm_startTimes t) label of
                    None \<Rightarrow> (([], Some (Errorf (''uninitialized timer '' @ label) [])), t)
                  | Some startTime \<Rightarrow>
                      (([], None), t\<lparr>tm_durations := AList.update label (time_Sub now startTime) (tm_durations t),
                                     tm_startTimes := AList.delete label (tm_startTimes t)\<rparr>)))
          else if action = ''gather'' then
            (case pretty (timer_data t) of
               Inl err \<Rightarrow> (([], Some err), t)
             | Inr content \<Rightarrow> (([CreateSummary now timerMeasurementName ''json'' content], None), t))
          else (([], Some (Errorf (''unknown action '' @ action) [])), t))"

section \<open>SchedulingThroughput\<close>

text \<open>
  Division by zero makes infinities and not-a-number, so a throughput is one of them or a finite number.  The order
  is that of \<^verbatim>\<open>sort.Float64s\<close>, with not-a-number first.
\<close>

datatype throughput = NaN | NegInf | Fin rat | PosInf

definition float_div :: "int \<Rightarrow> int \<Rightarrow> throughput" where
  "float_div a b =
     (if b = 0 then if a > 0 then PosInf else if a < 0 then NegInf else NaN
      else Fin (fl (fl (of_int a) / fl (of_int b))))"

fun tp_le :: "throughput \<Rightarrow> throughput \<Rightarrow> bool" where
  "tp_le NaN y = True"
| "tp_le NegInf y = (y \<noteq> NaN)"
| "tp_le (Fin a) y = (case y of Fin b \<Rightarrow> a \<le> b | PosInf \<Rightarrow> True | _ \<Rightarrow> False)"
| "tp_le PosInf y = (y = PosInf)"

text \<open>The comparison of the language: false for not-a-number.\<close>

fun tp_less_rat :: "throughput \<Rightarrow> rat \<Rightarrow> bool" where
  "tp_less_rat NegInf q = True"
| "tp_less_rat (Fin a) q = (a < q)"
| "tp_less_rat _ q = False"

fun insert_tp :: "throughput \<Rightarrow> throughput list \<Rightarrow> throughput list" where
  "insert_tp x [] = [x]"
| "insert_tp x (y # ys) = (if tp_le x y then x # y # ys else y # insert_tp x ys)"

definition Float64s :: "throughput list \<Rightarrow> throughput list" where
  "Float64s xs = foldr insert_tp xs []"

record schedulingThroughput =
  sp_Perc50 :: throughput
  sp_Perc90 :: throughput
  sp_Perc99 :: throughput
  sp_Max :: throughput

record schedulingThroughputMeasurement =
  sm_schedulingThroughputs :: "throughput list"
  sm_isRunning :: bool
  sm_lastScheduled :: int
  sm_interval :: duration

type_synonym stm = schedulingThroughputMeasurement

definition createSchedulingThroughputMeasurement :: stm where
  "createSchedulingThroughputMeasurement = \<lparr>sm_schedulingThroughputs = [], sm_isRunning = False, sm_lastScheduled = 0, sm_interval = 0\<rparr>"

definition schedulingThroughputMeasurementName :: string where
  "schedulingThroughputMeasurementName = ''SchedulingThroughput''"

definition sm_start :: "ObjectSelector \<Rightarrow> string list \<Rightarrow> duration \<Rightarrow> stm \<Rightarrow> goerr option \<times> stm" where
  "sm_start selector versions interval s =
     (case newObjectStore ''*v1.Pod'' selector versions of
        Some err \<Rightarrow> (Some (Errorf (''pod store creation error: '' @ err_msg err) []), s)
      | None \<Rightarrow> (None, s\<lparr>sm_isRunning := True, sm_lastScheduled := 0, sm_interval := interval\<rparr>))"

text \<open>The goroutine at the end of an interval, with the pods of the store; listing a pod store never fails.\<close>

definition sm_tick :: "Pod list \<Rightarrow> stm \<Rightarrow> stm" where
  "sm_tick pods s =
     (let scheduled = int (su_Scheduled (ComputePodsStartupStatus pods 0 None))
      in s\<lparr>sm_schedulingThroughputs := sm_schedulingThroughputs s @
             [float_div (scheduled - sm_lastScheduled s) (go_div (sm_interval s) Second_ns)],
           sm_lastScheduled := scheduled\<rparr>)"

definition sm_stop :: "stm \<Rightarrow> stm" where
  "sm_stop s = (if sm_isRunning s then s\<lparr>sm_isRunning := False\<rparr> else s)"

definition throughput_at :: "throughput list \<Rightarrow> nat \<Rightarrow> throughput" where
  "throughput_at xs p = xs ! (nat \<lceil>fl (of_nat (length xs * p) / 100)\<rceil> - 1)"

definition throughput_summary :: "throughput list \<Rightarrow> schedulingThroughput" where
  "throughput_summary xs =
     (if length xs > 0 then
        let xs = Float64s xs
        in \<lparr>sp_Perc50 = throughput_at xs 50, sp_Perc90 = throughput_at xs 90, sp_Perc99 = throughput_at xs 99, sp_Max = xs ! (length xs - 1)\<rparr>
      else \<lparr>sp_Perc50 = Fin 0, sp_Perc90 = Fin 0, sp_Perc99 = Fin 0, sp_Max = Fin 0\<rparr>)"

definition sm_gather ::
  "(schedulingThroughput \<Rightarrow> goerr + string) \<Rightarrow> (throughput \<Rightarrow> string) \<Rightarrow> gotime \<Rightarrow> rat \<Rightarrow> stm \<Rightarrow> (genericSummary list \<times> goerr option) \<times> stm" where
  "sm_gather pretty shw now threshold s =
     (if \<not> sm_isRunning s then (([], Some (Errorf ''measurement is not running'' [])), s)
      else
        let s = sm_stop s;
            throughputSummary = throughput_summary (sm_schedulingThroughputs s);
            s = (if length (sm_schedulingThroughputs s) > 0
                 then s\<lparr>sm_schedulingThroughputs := Float64s (sm_schedulingThroughputs s)\<rparr> else s)
        in (case pretty throughputSummary of
              Inl err \<Rightarrow> (([], Some err), s)
            | Inr content \<Rightarrow>
                (([CreateSummary now schedulingThroughputMeasurementName ''json'' content],
                  if threshold > 0 \<and> tp_less_rat (sp_Max throughputSummary) threshold
                  then Some (NewMetricViolationError ''scheduler throughput''
                         (''actual throughput '' @ shw (sp_Max throughputSummary) @ '' lower than threshold '' @ shw (Fin threshold)))
                  else None), s)))"

text \<open>Errors in the parameters of a gathering are only logged; then they have their zero value.\<close>

definition sm_Execute ::
  "(string \<Rightarrow> goerr + duration) \<Rightarrow> (string \<Rightarrow> rat \<times> numerr option) \<Rightarrow> (schedulingThroughput \<Rightarrow> goerr + string) \<Rightarrow> (throughput \<Rightarrow> string) \<Rightarrow>
   string list \<Rightarrow> gotime \<Rightarrow> MeasurementConfig \<Rightarrow> stm \<Rightarrow> (genericSummary list \<times> goerr option) \<times> stm" where
  "sm_Execute parse pf pretty shw versions now config s =
     (let ps = mc_Params config in
      case getString ps ''action'' of
        Inl err \<Rightarrow> (([], Some err), s)
      | Inr action \<Rightarrow>
          if action = ''start'' then
            (if sm_isRunning s then (([], None), s)
             else
               (case ObjectSelector_Parse ps NewObjectSelector of
                  (Some err, _) \<Rightarrow> (([], Some err), s)
                | (None, selector) \<Rightarrow>
                    (case GetDurationOrDefault parse ps ''measurmentInterval'' (5 * Second_ns) of
                       Inl err \<Rightarrow> (([], Some err), s)
                     | Inr interval \<Rightarrow> (case sm_start selector versions interval s of (err, s) \<Rightarrow> (([], err), s)))))
          else if action = ''gather'' then
            let threshold = (case GetFloat64OrDefault pf ps ''threshold'' 0 of Inl _ \<Rightarrow> 0 | Inr q \<Rightarrow> q);
                enableViolations = (case GetBoolOrDefault ps ''enableViolations'' True of Inl _ \<Rightarrow> False | Inr b \<Rightarrow> b)
            in (case sm_gather pretty shw now threshold s of
                  ((summary, Some err), s) \<Rightarrow>
                    if \<not> IsMetricViolationError err then (([], Some err), s)
                    else ((summary, if \<not> enableViolations then None else Some err), s)
                | ((summary, None), s) \<Rightarrow> ((summary, None), s))
          else (([], Some (Errorf (''unknown action '' @ action) [])), s))"

section \<open>Exec and Sleep\<close>

text \<open>\<open>run\<close> gives the error of an attempt, \<open>expand\<close> is \<^verbatim>\<open>os.ExpandEnv\<close>.\<close>

fun exec_loop :: "nat \<Rightarrow> (nat \<Rightarrow> goerr option) \<Rightarrow> nat \<Rightarrow> goerr option \<Rightarrow> goerr option" where
  "exec_loop 0 run i lastErr = lastErr"
| "exec_loop (Suc left) run i lastErr = (case run i of None \<Rightarrow> None | Some err \<Rightarrow> exec_loop left run (Suc i) (Some err))"

definition exec_Execute ::
  "(string \<Rightarrow> goerr + duration) \<Rightarrow> (gval \<Rightarrow> string) \<Rightarrow> (string \<Rightarrow> string) \<Rightarrow> (string list \<Rightarrow> duration \<Rightarrow> nat \<Rightarrow> goerr option) \<Rightarrow> MeasurementConfig \<Rightarrow>
   goerr option" where
  "exec_Execute parse sprintv expand run config =
     (let ps = mc_Params config in
      case GetDurationOrDefault parse ps ''timeout'' (3600 * Second_ns) of
        Inl err \<Rightarrow> Some err
      | Inr limit \<Rightarrow>
     (case getStringArray sprintv ps ''command'' of
        Inl err \<Rightarrow> Some (Errorf (''error parsing command: '' @ err_msg err) [])
      | Inr command \<Rightarrow>
          if length command = 0 then Some (Errorf ''command is a required argument. Got empty slice instead'' [])
          else
     (case GetIntOrDefault ps ''retries'' 1 of
        Inl err \<Rightarrow> Some (Errorf (''error getting retries, retries: 0, err: '' @ err_msg err) [])
      | Inr retries \<Rightarrow>
          if retries < 1 then Some (Errorf (''error getting retries, retries: '' @ show_int retries @ '', err: <nil>'') [])
          else
     (case GetDurationOrDefault parse ps ''backoffDelay'' Second_ns of
        Inl err \<Rightarrow> Some err
      | Inr backoffDelay \<Rightarrow>
          let command = map expand command
          in (case exec_loop (nat retries) (run command limit) 0 None of
                None \<Rightarrow> None
              | Some lastErr \<Rightarrow>
                  Some (Errorf (''command ['' @ strings_Join command '' '' @ ''] failed: '' @ err_msg lastErr) []))))))"

text \<open>The duration that the program sleeps.\<close>

definition sleep_Execute :: "(string \<Rightarrow> goerr + duration) \<Rightarrow> MeasurementConfig \<Rightarrow> goerr + duration" where
  "sleep_Execute parse config =
     (case getString (mc_Params config) ''duration'' of Inl err \<Rightarrow> Inl err | Inr s \<Rightarrow> parse s)"

section \<open>ChaosMonkey\<close>

text \<open>\<open>ch_stop\<close> is the stop channel: nil, or whether it is closed.\<close>

record chaosMonkeyMeasurement =
  ch_config :: NodeFailureConfig
  ch_stop :: "bool option"
  ch_monkey :: "Monkey option"
  ch_waitGroup :: bool
  ch_killedNodes :: "string set"

text \<open>\<open>decode\<close> is \<^verbatim>\<open>util.ToStruct\<close>; \<open>ended\<close> is the monkey when its goroutine has ended.\<close>

definition ch_Execute ::
  "(params \<Rightarrow> NodeFailureConfig \<Rightarrow> goerr option \<times> NodeFailureConfig) \<Rightarrow> string \<Rightarrow> bool \<Rightarrow> (Monkey \<Rightarrow> Monkey) \<Rightarrow> MeasurementConfig \<Rightarrow>
   chaosMonkeyMeasurement \<Rightarrow> (goerr option \<times> chaosMonkeyMeasurement) call_result" where
  "ch_Execute decode provider supported ended config c =
     (case getString (mc_Params config) ''action'' of
        Inl err \<Rightarrow> Returns (Some err, c)
      | Inr action \<Rightarrow>
          if action = ''start'' then
            (case decode (mc_Params config) (ch_config c) of
               (Some err, nf) \<Rightarrow> Returns (Some err, c\<lparr>ch_config := nf\<rparr>)
             | (None, nf) \<Rightarrow>
                 let m = NewMonkey provider supported;
                     c = c\<lparr>ch_config := nf, ch_stop := Some False\<rparr>
                 in (case NewNodeKiller nf (ch_killedNodes c) provider supported of
                       Inl err \<Rightarrow>
                         Returns (Some (Errorf (''error while creating chaos monkey: '' @ err_msg err) []),
                           c\<lparr>ch_monkey := Some m, ch_waitGroup := False, ch_stop := Some True\<rparr>)
                     | Inr killer \<Rightarrow>
                         Returns (None, c\<lparr>ch_monkey := Some (m\<lparr>mk_nodeKiller := Some killer\<rparr>), ch_waitGroup := True\<rparr>)))
          else if action = ''stop'' then
            (if ch_stop c \<noteq> Some False then Panics
             else
               (case ch_monkey c of
                  None \<Rightarrow> Panics
                | Some m \<Rightarrow>
                    let m = (if ch_waitGroup c then ended m else m)
                    in Returns (None, c\<lparr>ch_stop := Some True, ch_monkey := Some m, ch_killedNodes := KilledNodes m\<rparr>)))
          else Returns (Some (Errorf (''unknown action: '' @ action) []), c))"

section \<open>Every OOM is recorded once\<close>

definition oom_events :: "Event option list \<Rightarrow> Event set" where
  "oom_events es = {e. Some e \<in> set es \<and> ev_Reason e = oomEventReason}"

lemma oom_events_simps [simp]:
  "oom_events [] = {}" "oom_events (None # es) = oom_events es"
  "oom_events (Some e # es) = (if ev_Reason e = oomEventReason then insert e (oom_events es) else oom_events es)"
  "oom_events (es @ es') = oom_events es \<union> oom_events es'"
  by (auto simp: oom_events_def)

lemma finite_oom_events [simp]: "finite (oom_events es)"
proof -
  have "oom_events es \<subseteq> the ` set es" by (force simp: oom_events_def)
  then show ?thesis by (rule finite_subset) simp
qed

definition recorded :: "Event set \<Rightarrow> oot \<Rightarrow> bool" where
  "recorded E m \<longleftrightarrow>
     (\<forall>k. map_bool (ot_resourceVersionRecorded m) k \<longleftrightarrow> k \<in> ev_ResourceVersion ` E) \<and>
     set (ot_ooms m) = to_oom ` E \<and> length (ot_ooms m) = card (ev_ResourceVersion ` E)"

lemma map_bool_update: "map_bool (AList.update k True m) k' \<longleftrightarrow> k = k' \<or> map_bool m k'"
  by (simp add: map_bool_def go_map)

lemma recorded_step:
  assumes "recorded E m" "finite E" "inj_on ev_ResourceVersion (insert e E)"
  shows "recorded (if ev_Reason e = oomEventReason then insert e E else E) (handleOOMEvent (Some e) m)"
proof (cases "ev_Reason e = oomEventReason")
  case r: True
  show ?thesis
  proof (cases "ev_ResourceVersion e \<in> ev_ResourceVersion ` E")
    case True
    then have "e \<in> E" using assms(3) by (auto simp: inj_on_def)
    then show ?thesis using r True assms(1) by (auto simp: handleOOMEvent_def recorded_def insert_absorb)
  next
    case False
    then show ?thesis using r assms(1,2) by (auto simp: handleOOMEvent_def recorded_def map_bool_update)
  qed
qed (use assms in \<open>auto simp: handleOOMEvent_def\<close>)

lemma recorded_fold:
  "recorded E m \<Longrightarrow> finite E \<Longrightarrow> inj_on ev_ResourceVersion (E \<union> {e. Some e \<in> set es}) \<Longrightarrow>
     recorded (E \<union> oom_events es) (fold handleOOMEvent es m)"
proof (induction es arbitrary: E m)
  case (Cons x es)
  show ?case
  proof (cases x)
    case None
    then show ?thesis using Cons by (simp add: handleOOMEvent_def)
  next
    case (Some e)
    let ?E = "if ev_Reason e = oomEventReason then insert e E else E"
    have 1: "inj_on ev_ResourceVersion (insert e E)" by (rule inj_on_subset[OF Cons.prems(3)]) (simp add: Some)
    have 2: "inj_on ev_ResourceVersion (?E \<union> {e. Some e \<in> set es})" by (rule inj_on_subset[OF Cons.prems(3)]) (auto simp: Some)
    from Cons.IH[OF recorded_step[OF Cons.prems(1,2) 1] _ 2] Cons.prems(2) show ?thesis
      by (cases "ev_Reason e = oomEventReason") (simp_all add: Some)
  qed
qed simp

lemma handle_keeps: "ot_isRunning (handleOOMEvent x m) = ot_isRunning m \<and> ot_startTime (handleOOMEvent x m) = ot_startTime m \<and>
    ot_processIgnored (handleOOMEvent x m) = ot_processIgnored m"
  by (auto simp: handleOOMEvent_def split: option.splits)

lemma fold_handle_keeps: "ot_isRunning (fold handleOOMEvent es m) = ot_isRunning m \<and>
    ot_startTime (fold handleOOMEvent es m) = ot_startTime m \<and> ot_processIgnored (fold handleOOMEvent es m) = ot_processIgnored m"
  by (induction es arbitrary: m) (simp_all add: handle_keeps)

lemma fold_sort_oom:
  "od_failures (fold (sort_oom m) ooms d) =
     od_failures d @ filter (\<lambda>x. \<not> oe_Time x < ot_startTime m \<and> \<not> map_bool (ot_processIgnored m) (oe_Process x)) ooms"
  by (induction ooms arbitrary: d) (simp_all add: sort_oom_def)

lemma ignored_names: "map_bool (fold (\<lambda>p. AList.update p True) ps m) k \<longleftrightarrow> k \<in> set ps \<or> map_bool m k"
  by (induction ps arbitrary: m) (auto simp: map_bool_update)

lemma ot_start_ok:
  assumes "ot_start now synced watched prior ps m = (None, m1)" "\<not> ot_isRunning m"
  shows "\<exists>ignored. GetStringOrDefault ps ''clusterOOMsIgnoredProcesses'' [] = Inr ignored \<and>
    m1 = fold handleOOMEvent (watched @ fst prior)
      (m\<lparr>ot_isRunning := True, ot_startTime := now, ot_stopped := False, ot_resourceVersionRecorded := [],
         ot_processIgnored := (if ignored \<noteq> [] then fold (\<lambda>p. AList.update p True) (strings_Split ignored (CHR '','')) [] else [])\<rparr>)"
  using assms
  by (cases "GetStringOrDefault ps ''clusterOOMsIgnoredProcesses'' []"; cases "StartAndSync synced"; cases "snd prior")
     (simp_all add: ot_start_def ot_initFields_def Let_def)

text \<open>
  C30: the tracker of OOMs fails exactly if there was one that matters.  Take events from the informer, from the
  listing of older events and from later updates, in any order and with repetitions, where a resource version
  belongs to one event.  After a successful start of a tracker without records, every OOM event is recorded once;
  the gathering returns its summary, with an error exactly if some OOM event is not older than the start and its
  process, as far as the message tells it, is not in the list of ignored ones.
\<close>

theorem ooms_decided:
  assumes start: "ot_start now synced watched prior ps m = (None, m1)" "\<not> ot_isRunning m" "ot_ooms m = []"
    and unique: "inj_on ev_ResourceVersion {e. Some e \<in> set (watched @ fst prior @ later)}"
    and pretty: "\<And>d. \<exists>c. pretty d = Inr c"
    and ignored: "GetStringOrDefault ps ''clusterOOMsIgnoredProcesses'' [] = Inr ignored"
  shows "\<exists>summary err m2.
    ot_gather pretty shw time (fold handleOOMEvent later m1) = (([summary], err), m2) \<and>
    length (ot_ooms m2) = card (oom_events (watched @ fst prior @ later)) \<and>
    (err \<noteq> None \<longleftrightarrow> (\<exists>e \<in> oom_events (watched @ fst prior @ later).
       now \<le> oe_Time (to_oom e) \<and> (ignored = [] \<or> oe_Process (to_oom e) \<notin> set (strings_Split ignored (CHR '','')))))"
proof -
  let ?es = "watched @ fst prior @ later"
  let ?init = "m\<lparr>ot_isRunning := True, ot_startTime := now, ot_stopped := False, ot_resourceVersionRecorded := [],
         ot_processIgnored := (if ignored \<noteq> [] then fold (\<lambda>p. AList.update p True) (strings_Split ignored (CHR '','')) [] else [])\<rparr>"
  let ?m = "fold handleOOMEvent later m1"
  have m1: "m1 = fold handleOOMEvent (watched @ fst prior) ?init" using ot_start_ok[OF start(1,2)] unfolding ignored by (elim exE conjE) simp
  then have m: "?m = fold handleOOMEvent ?es ?init" by simp
  have "recorded {} ?init" using start(3) by (simp add: recorded_def map_bool_def)
  from recorded_fold[OF this, of ?es] unique have r: "recorded (oom_events ?es) ?m" unfolding m by simp
  have inj: "inj_on ev_ResourceVersion (oom_events ?es)"
    using unique by (rule inj_on_subset) (auto simp: oom_events_def)
  have k: "ot_isRunning ?m" "ot_startTime ?m = now"
    "map_bool (ot_processIgnored ?m) p \<longleftrightarrow> ignored \<noteq> [] \<and> p \<in> set (strings_Split ignored (CHR '',''))" for p
    using fold_handle_keeps[of ?es ?init] by (auto simp: m ignored_names, simp_all add: map_bool_def)
  obtain c where c: "pretty (fold (sort_oom (ot_stop ?m)) (ot_ooms ?m) \<lparr>od_failures = [], od_past = [], od_ignored = []\<rparr>) = Inr c"
    using pretty by blast
  have "set (ot_ooms ?m) = to_oom ` oom_events ?es" "length (ot_ooms ?m) = card (oom_events ?es)"
    using r card_image[OF inj] by (auto simp: recorded_def)
  then show ?thesis using k c
    by (auto simp: ot_gather_def ot_stop_def Let_def fold_sort_oom filter_empty_conv not_less)
qed

definition oom_of :: "string \<Rightarrow> gotime \<Rightarrow> Event" where
  "oom_of version t =
     \<lparr>ev_ResourceVersion = version, ev_Reason = ''OOMKilling'',
      ev_Message = ''Memory: Killed process 42 (etcd) total-vm:9kB, anon-rss:8kB, file-rss:7kB, x'',
      ev_InvolvedName = ''node'', ev_EventTime = t, ev_FirstTimestamp = 3\<rparr>"

lemma oom_of_match: "FindStringSubmatch (ev_Message (oom_of v t)) = Some (''42'', ''etcd'', ''9kB'')"
  by code_simp

lemma ooms_decided_witness:
  "\<exists>summary err m2. ot_gather (\<lambda>_. Inr ''{}'') (\<lambda>_. ''ooms'') 20
     (fold handleOOMEvent [Some (oom_of ''1'' 5), Some (oom_of ''2'' 12), None]
        (snd (ot_start 10 True [Some (oom_of ''1'' 5)] ([Some (oom_of ''1'' 5)], None) [] createClusterOOMsTrackerMeasurement))) =
     (([summary], err), m2) \<and> length (ot_ooms m2) = 2 \<and> err \<noteq> None"
proof -
  let ?w = "[Some (oom_of ''1'' 5)]" and ?l = "[Some (oom_of ''1'' 5), Some (oom_of ''2'' 12), None]"
  have s: "ot_start 10 True ?w (?w, None) [] createClusterOOMsTrackerMeasurement =
      (None, snd (ot_start 10 True ?w (?w, None) [] createClusterOOMsTrackerMeasurement))"
    by (simp add: ot_start_def ot_initFields_def createClusterOOMsTrackerMeasurement_def GetStringOrDefault_def getString_def or_default_def
        IsErrKeyNotFound_def StartAndSync_def Let_def)
  have ne: "oom_of ''1'' 5 \<noteq> oom_of ''2'' 12" by (simp add: oom_of_def)
  have all: "{e. Some e \<in> set (?w @ ?w @ ?l)} = {oom_of ''1'' 5, oom_of ''2'' 12}" by auto
  have u: "inj_on ev_ResourceVersion {e. Some e \<in> set (?w @ fst (?w, None :: goerr option) @ ?l)}"
    unfolding fst_conv all by (simp add: oom_of_def)
  have g: "GetStringOrDefault [] ''clusterOOMsIgnoredProcesses'' [] = Inr []"
    by (simp add: GetStringOrDefault_def getString_def or_default_def IsErrKeyNotFound_def)
  have r: "ev_Reason (oom_of v t) = oomEventReason" for v t by (simp add: oom_of_def oomEventReason_def)
  have t: "oe_Time (to_oom (oom_of ''2'' 12)) = 12"
    unfolding to_oom_def oom_of_match Let_def by (simp add: oom_of_def)
  have "\<not> ot_isRunning createClusterOOMsTrackerMeasurement" "ot_ooms createClusterOOMsTrackerMeasurement = []"
    by (simp_all add: createClusterOOMsTrackerMeasurement_def)
  from ooms_decided[OF s this u _ g, of "\<lambda>_. Inr ''{}''" "\<lambda>_. ''ooms''" 20] show ?thesis
    using ne by (auto simp: r t)
qed

section \<open>Timers of different labels do not interfere\<close>

text \<open>The timer of one label: its start, if it runs, and the last duration.\<close>

datatype timer_action = TStart string | TStop string

fun act_label :: "timer_action \<Rightarrow> string" where
  "act_label (TStart l) = l"
| "act_label (TStop l) = l"

fun label_timer :: "timer_action \<times> gotime \<Rightarrow> gotime option \<times> duration option \<Rightarrow> gotime option \<times> duration option" where
  "label_timer (TStart l, now) (start, d) = (Some now, d)"
| "label_timer (TStop l, now) (None, d) = (None, d)"
| "label_timer (TStop l, now) (Some start, d) = (None, Some (time_Sub now start))"

definition timer_config :: "timer_action \<Rightarrow> MeasurementConfig" where
  "timer_config a =
     \<lparr>mc_Params = [(''action'', VString (case a of TStart _ \<Rightarrow> ''start'' | TStop _ \<Rightarrow> ''stop'')), (''label'', VString (act_label a))],
      mc_Identifier = ''id'', mc_ClusterVersion = ''v1.30''\<rparr>"

definition timer_run :: "(timer_action \<times> gotime) list \<Rightarrow> timer \<Rightarrow> timer" where
  "timer_run = fold (\<lambda>(a, now) t. snd (timer_Execute (\<lambda>_. Inr []) now (timer_config a) t))"

definition timer_of :: "string \<Rightarrow> timer \<Rightarrow> gotime option \<times> duration option" where
  "timer_of l t = (map_of (tm_startTimes t) l, map_of (tm_durations t) l)"

lemma timer_step:
  "timer_of l (snd (timer_Execute pretty now (timer_config a) t)) = (if act_label a = l then label_timer (a, now) (timer_of l t) else timer_of l t)"
  by (cases a) (auto simp: timer_Execute_def timer_config_def getString_def timer_of_def go_map split: option.splits)

text \<open>
  The timers refine independent timers, one per label.  After any sequence of starts and stops, what the
  measurement has for a label is what the actions with that label alone make of it: a stop takes the time since
  the last start and ends it, a second start moves the beginning, a stop without start changes nothing.  The
  gathering prints the durations in seconds.
\<close>

theorem timer_refines:
  "timer_of l (timer_run acts t) = fold label_timer (filter (\<lambda>(a, _). act_label a = l) acts) (timer_of l t) \<and>
   map_of (di_Data (hd (pd_DataItems (timer_data (timer_run acts t))))) l =
     map_option Seconds (snd (fold label_timer (filter (\<lambda>(a, _). act_label a = l) acts) (timer_of l t)))"
proof -
  have run: "timer_of l (timer_run acts t) = fold label_timer (filter (\<lambda>(a, _). act_label a = l) acts) (timer_of l t)"
    unfolding timer_run_def by (induction acts arbitrary: t) (auto simp: timer_step)
  moreover have "map_of (di_Data (hd (pd_DataItems (timer_data t')))) l = map_option Seconds (snd (timer_of l t'))" for t'
    by (simp add: timer_data_def timer_of_def map_of_map)
  ultimately show ?thesis by simp
qed

section \<open>The throughput\<close>

lemma tp_le_refl: "tp_le x x"
  by (cases x) auto

lemma tp_le_total: "tp_le x y \<or> tp_le y x"
  by (cases x; cases y) auto

lemma tp_le_trans: "tp_le x y \<Longrightarrow> tp_le y z \<Longrightarrow> tp_le x z"
  by (cases x; cases y; cases z) auto

lemma set_insert_tp: "set (insert_tp x ys) = insert x (set ys)"
  by (induction ys) auto

lemma sorted_insert_tp: "sorted_wrt tp_le ys \<Longrightarrow> sorted_wrt tp_le (insert_tp x ys)"
  by (induction ys) (auto simp: set_insert_tp dest: tp_le_trans intro: tp_le_total[THEN disjE])

lemma Float64s_sorted: "sorted_wrt tp_le (Float64s xs)" "set (Float64s xs) = set xs" "length (Float64s xs) = length xs"
proof -
  have "length (insert_tp x ys) = Suc (length ys)" for x ys by (induction ys) auto
  then show "sorted_wrt tp_le (Float64s xs)" "set (Float64s xs) = set xs" "length (Float64s xs) = length xs"
    by (induction xs) (simp_all add: Float64s_def sorted_insert_tp set_insert_tp)
qed

lemma sorted_last: "sorted_wrt tp_le xs \<Longrightarrow> x \<in> set xs \<Longrightarrow> tp_le x (last xs)"
  by (induction xs) (auto simp: tp_le_refl)

lemma max_below:
  assumes "xs \<noteq> []"
  shows "tp_less_rat (sp_Max (throughput_summary xs)) q \<longleftrightarrow> (\<exists>x \<in> set xs. x \<noteq> NaN) \<and> (\<forall>x \<in> set xs. x = NaN \<or> tp_less_rat x q)"
proof -
  let ?m = "last (Float64s xs)"
  have ne: "Float64s xs \<noteq> []" using Float64s_sorted(3)[of xs] assms by auto
  have m: "?m \<in> set xs" "\<And>x. x \<in> set xs \<Longrightarrow> tp_le x ?m"
    using last_in_set[OF ne] sorted_last[OF Float64s_sorted(1)] Float64s_sorted(2)[of xs] by auto
  have "sp_Max (throughput_summary xs) = ?m"
    using assms ne by (simp add: throughput_summary_def Let_def last_conv_nth)
  moreover have "tp_less_rat x q" if "tp_le x y" "tp_less_rat y q" "x \<noteq> NaN" for x y
    using that by (cases x; cases y) auto
  moreover have "x = NaN" if "tp_le x NaN" for x using that by (cases x) auto
  ultimately show ?thesis using m by (metis tp_less_rat.simps(3))
qed

definition scheduled_pods :: "Pod list \<Rightarrow> int" where
  "scheduled_pods pods = int (su_Scheduled (ComputePodsStartupStatus pods 0 None))"

fun increments :: "int \<Rightarrow> int list \<Rightarrow> int list" where
  "increments n [] = []"
| "increments n (k # ks) = (k - n) # increments k ks"

lemma ticks:
  "sm_schedulingThroughputs (fold sm_tick podss s) = sm_schedulingThroughputs s @
     map (\<lambda>d. float_div d (go_div (sm_interval s) Second_ns)) (increments (sm_lastScheduled s) (map scheduled_pods podss)) \<and>
   sm_isRunning (fold sm_tick podss s) = sm_isRunning s"
  by (induction podss arbitrary: s) (auto simp: sm_tick_def Let_def scheduled_pods_def)

text \<open>A count that starts at zero and never falls below it, with no increase, does not change.\<close>

lemma no_increase:
  "0 \<le> n \<Longrightarrow> n \<le> 0 \<Longrightarrow> list_all (\<lambda>k. 0 \<le> k) ks \<Longrightarrow> list_all (\<lambda>d. d \<le> 0) (increments n ks) \<Longrightarrow> list_all (\<lambda>d. d = 0) (increments n ks)"
  by (induction ks arbitrary: n) auto

text \<open>
  The scheduling throughput is decided by its best interval, and not at all for intervals under a second.
  After the start of a measurement without records and some ticks, gathering with a positive threshold reports a
  violation exactly if the interval is at least a second and in every tick the increase of scheduled pods,
  divided by the whole seconds of the interval, is below the threshold.  For a shorter interval the division is by
  zero, and no throughput is ever too low.
\<close>

theorem throughput_decided:
  assumes start: "sm_start selector versions interval s = (None, s1)" "sm_schedulingThroughputs s = []"
    and "podss \<noteq> []" "0 \<le> interval" "0 < threshold" and pretty: "\<And>t. \<exists>c. pretty t = Inr c"
  shows "\<exists>summary err s2. sm_gather pretty shw now threshold (fold sm_tick podss s1) = (([summary], err), s2) \<and>
    (err \<noteq> None \<longleftrightarrow> Second_ns \<le> interval \<and>
       (\<forall>d \<in> set (increments 0 (map scheduled_pods podss)). fl (fl (of_int d) / fl (of_int (interval div Second_ns))) < threshold)) \<and>
    (\<forall>e. err = Some e \<longrightarrow> IsMetricViolationError e)"
proof -
  let ?s = "fold sm_tick podss s1" and ?ds = "increments 0 (map scheduled_pods podss)"
  let ?secs = "interval div Second_ns"
  have s1: "sm_isRunning s1" "sm_lastScheduled s1 = 0" "sm_interval s1 = interval" "sm_schedulingThroughputs s1 = []"
    using start by (auto simp: sm_start_def split: option.splits)
  have xs: "sm_schedulingThroughputs ?s = map (\<lambda>d. float_div d ?secs) ?ds" (is "_ = ?xs") and run: "sm_isRunning ?s"
    using ticks[of podss s1] s1 assms(4) by (simp_all add: go_div_pos)
  have ne: "?xs \<noteq> []" using assms(3) by (cases podss) auto
  have "tp_less_rat (sp_Max (throughput_summary ?xs)) threshold \<longleftrightarrow>
     Second_ns \<le> interval \<and> (\<forall>d \<in> set ?ds. fl (fl (of_int d) / fl (of_int ?secs)) < threshold)"
  proof (cases "?secs = 0")
    case True
    then have "\<not> Second_ns \<le> interval" using assms(4) by auto
    moreover have "\<not> ((\<exists>x \<in> set ?xs. x \<noteq> NaN) \<and> (\<forall>x \<in> set ?xs. x = NaN \<or> tp_less_rat x threshold))"
    proof
      assume a: "(\<exists>x \<in> set ?xs. x \<noteq> NaN) \<and> (\<forall>x \<in> set ?xs. x = NaN \<or> tp_less_rat x threshold)"
      then have ok: "float_div d 0 = NaN \<or> tp_less_rat (float_div d 0) threshold" if "d \<in> set ?ds" for d using True that by auto
      have "d \<le> 0" if "d \<in> set ?ds" for d using ok[OF that] by (cases "0 < d") (simp_all add: float_div_def)
      then have "list_all (\<lambda>d. d \<le> 0) ?ds" by (simp add: list_all_iff)
      moreover have "list_all (\<lambda>k. 0 \<le> k) (map scheduled_pods podss)" by (simp add: list_all_iff scheduled_pods_def)
      ultimately have "list_all (\<lambda>d. d = 0) ?ds" using no_increase[of 0] by simp
      then show False using a True by (auto simp: float_div_def list_all_iff)
    qed
    ultimately show ?thesis using max_below[OF ne] by simp
  next
    case False
    then have "Second_ns \<le> interval" using assms(4) by (simp add: div_eq_0_iff)
    with max_below[OF ne, of threshold] ne False show ?thesis by (auto simp: float_div_def)
  qed
  moreover obtain c where "pretty (throughput_summary ?xs) = Inr c" using pretty by blast
  ultimately show ?thesis using run ne assms(5)
    by (auto simp: sm_gather_def sm_stop_def Let_def xs NewMetricViolationError_def IsMetricViolationError_def)
qed

text \<open>One pod is scheduled in one of two ticks of ten seconds, one tenth of a pod per second.\<close>

lemma throughput_decided_witness:
  "\<exists>summary err s2. sm_gather (\<lambda>_. Inr ''{}'') (\<lambda>_. ''tp'') 0 1
     (fold sm_tick [[ready_pod], [ready_pod]] (snd (sm_start no_selector [''1''] (10 * Second_ns) createSchedulingThroughputMeasurement))) =
     (([summary], err), s2) \<and> err \<noteq> None"
proof -
  have p: "scheduled_pods [ready_pod] = 1"
    by (simp add: scheduled_pods_def ComputePodsStartupStatus_def startup_pod_def ready_pod_def zeroStartupStatus_def)
  have s: "sm_start no_selector [''1''] (10 * Second_ns) createSchedulingThroughputMeasurement =
      (None, snd (sm_start no_selector [''1''] (10 * Second_ns) createSchedulingThroughputMeasurement))"
    by (simp add: sm_start_def ready_store)
  have f: "fl 1 = 1" "fl 0 = 0" "fl 10 = 10"
    using go_fl.rnd_int[of 1] go_fl.rnd_int[of 0] go_fl.rnd_int[of 10] by simp_all
  have "fl (1 / 10) < 1" using abs_le_D1[OF go_fl.rnd_err[of "1 / 10"]] by simp
  with throughput_decided[OF s, of "[[ready_pod], [ready_pod]]" 1 "\<lambda>_. Inr ''{}''" "\<lambda>_. ''tp''" 0] show ?thesis
    by (auto simp: p f createSchedulingThroughputMeasurement_def)
qed

section \<open>Attempts and the monkey\<close>

text \<open>A command succeeds exactly if one of its attempts does.\<close>

lemma exec_loop_ok: "0 < n \<Longrightarrow> exec_loop n run i e = None \<longleftrightarrow> (\<exists>k < n. run (i + k) = None)"
proof (induction n arbitrary: i e)
  case (Suc n)
  show ?case
  proof (cases "run i")
    case None
    then show ?thesis by (auto intro: exI[of _ 0])
  next
    case (Some err)
    have shift: "(\<exists>k < Suc n. run (i + k) = None) \<longleftrightarrow> (\<exists>k < n. run (Suc i + k) = None)"
      using Some by (auto simp: less_Suc_eq_0_disj)
    show ?thesis using Suc.IH[of "Suc i" "Some err"] Some unfolding shift by (cases n) auto
  qed
qed simp

text \<open>
  Stopping the monkey closes its channel, so a stop without a successful start before it panics; and the nodes
  that were killed are excluded at the next start.
\<close>

lemma second_stop_panics:
  assumes "ch_Execute decode provider supported ended config c = Returns (None, c')" "getString (mc_Params config) ''action'' = Inr ''stop''"
  shows "ch_Execute decode provider supported ended config c' = Panics"
  using assms by (auto simp: ch_Execute_def Let_def split: if_splits option.splits)

lemma failed_start_stop_panics:
  assumes "ch_Execute decode provider False ended config c = Returns (Some err, c')" "getString (mc_Params config) ''action'' = Inr ''start''"
    "decode (mc_Params config) (ch_config c) = (None, nf)" "getString (mc_Params config') ''action'' = Inr ''stop''"
  shows "ch_Execute decode provider False ended config' c' = Panics"
  using assms by (auto simp: ch_Execute_def Let_def NewNodeKiller_def)

lemma killed_nodes_excluded:
  assumes "ch_Execute decode provider True ended stop c = Returns (None, c')" "getString (mc_Params stop) ''action'' = Inr ''stop''"
    "getString (mc_Params start) ''action'' = Inr ''start''" "decode (mc_Params start) (ch_config c') = (None, nf)"
  shows "\<exists>m k c''. ch_Execute decode provider True ended start c' = Returns (None, c'') \<and> ch_monkey c'' = Some m \<and>
    mk_nodeKiller m = Some k \<and> nk_killedNodes k = ch_killedNodes c'"
  using assms by (auto simp: ch_Execute_def Let_def NewNodeKiller_def)

end
