(* ===== verification/Claim_Latency.thy ===== *)
theory Claim_Latency
  imports Job_Measurements
begin

text \<open>
  The measurement ResourceClaimAllocationLatency
  (\<^verbatim>\<open>clusterloader2/pkg/measurement/common/slos/resourceclaim_allocation_latency.go\<close>): from the creation of a resource
  claim to its allocation.  One goroutine handles the events of claims; the handler of pods fills a cache.
\<close>

section \<open>Claims and pods\<close>

text \<open>The owners are pairs of kind and name; of the status only its length matters.\<close>

record ResourceClaim =
  rc_Namespace :: string
  rc_Name :: string
  rc_CreationTimestamp :: gotime
  rc_Owners :: "(string \<times> string) list"
  rc_Allocation :: bool
  rc_ReservedFor :: nat
  rc_Devices :: nat

text \<open>A pod with the names of the templates of its claims, if it has them.\<close>

record ClaimPod =
  cpd_Namespace :: string
  cpd_Name :: string
  cpd_CreationTimestamp :: gotime
  cpd_Templates :: "string option list"

record claimEventData =
  ced_obj :: "ResourceClaim option option"
  ced_recvTime :: gotime

definition isAllocated :: "ResourceClaim \<Rightarrow> bool" where
  "isAllocated claim \<longleftrightarrow> rc_Allocation claim \<or> rc_ReservedFor claim > 0 \<or> rc_Devices claim > 0"

definition usesResourceClaimTemplate :: "ClaimPod \<Rightarrow> bool" where
  "usesResourceClaimTemplate p \<longleftrightarrow> list_ex (\<lambda>t. case t of Some n \<Rightarrow> n \<noteq> [] | None \<Rightarrow> False) (cpd_Templates p)"

section \<open>The measurement\<close>

abbreviation allocatePhase :: string where "allocatePhase \<equiv> ''allocate''"
abbreviation podCreatePhase :: string where "podCreatePhase \<equiv> ''pod_create''"

definition resourceClaimAllocationLatencyMeasurementName :: string where
  "resourceClaimAllocationLatencyMeasurementName = ''ResourceClaimAllocationLatency''"

definition defaultClaimAllocationLatencyThreshold :: duration where
  "defaultClaimAllocationLatencyThreshold = 5 * Minute_ns"

record 'q resourceClaimAllocationLatencyMeasurement =
  cl_selector :: ObjectSelector
  cl_isRunning :: bool
  cl_queue :: 'q
  cl_entries :: ObjectTransitionTimes
  cl_threshold :: duration
  cl_perc50Threshold :: duration
  cl_perc90Threshold :: duration
  cl_perc99Threshold :: duration
  cl_podCreationTimes :: "(string, gotime) gomap"
  cl_podGetCalls :: int

type_synonym 'q clm = "'q resourceClaimAllocationLatencyMeasurement"

record 'q claim_env =
  cle_queue :: "(claimEventData, 'q) workqueue"
  cle_synced :: bool
  cle_podsSynced :: bool
  cle_getPod :: "string \<Rightarrow> string \<Rightarrow> goerr + ClaimPod"
  cle_parseDuration :: "string \<Rightarrow> goerr + duration"
  cle_show :: "duration \<Rightarrow> string"
  cle_pretty :: "PerfData \<Rightarrow> goerr + string"
  cle_now :: gotime

definition createResourceClaimAllocationLatencyMeasurement :: "'q claim_env \<Rightarrow> 'q clm" where
  "createResourceClaimAllocationLatencyMeasurement env =
     \<lparr>cl_selector = NewObjectSelector, cl_isRunning = False, cl_queue = wq_new (cle_queue env),
      cl_entries = NewObjectTransitionTimes resourceClaimAllocationLatencyMeasurementName, cl_threshold = 0,
      cl_perc50Threshold = 0, cl_perc90Threshold = 0, cl_perc99Threshold = 0, cl_podCreationTimes = [], cl_podGetCalls = 0\<rparr>"

text \<open>The goroutine that processes events is started too; it runs until the queue is shut down.\<close>

definition cl_start :: "'q claim_env \<Rightarrow> 'q clm \<Rightarrow> goerr option \<times> 'q clm" where
  "cl_start env m =
     (if cl_isRunning m then (None, m)
      else
        (case StartAndSync (cle_synced env) of
           Some err \<Rightarrow> (Some err, m\<lparr>cl_isRunning := True\<rparr>)
         | None \<Rightarrow> (StartAndSync (cle_podsSynced env), m\<lparr>cl_isRunning := True\<rparr>)))"

definition cl_addEvent :: "'q claim_env \<Rightarrow> gotime \<Rightarrow> ResourceClaim option option \<Rightarrow> 'q clm \<Rightarrow> 'q clm" where
  "cl_addEvent env now obj m = m\<lparr>cl_queue := wq_Add (cle_queue env) \<lparr>ced_obj = obj, ced_recvTime = now\<rparr> (cl_queue m)\<rparr>"

definition pod_key :: "string \<Rightarrow> string \<Rightarrow> string" where
  "pod_key ns name = ns @ ''/'' @ name"

definition cl_addPodEvent :: "ClaimPod option \<Rightarrow> 'q clm \<Rightarrow> 'q clm" where
  "cl_addPodEvent obj m =
     (case obj of
        None \<Rightarrow> m
      | Some pod \<Rightarrow>
          if \<not> usesResourceClaimTemplate pod then m
          else
            let key = pod_key (cpd_Namespace pod) (cpd_Name pod)
            in if map_of (cl_podCreationTimes m) key = None
               then m\<lparr>cl_podCreationTimes := AList.update key (cpd_CreationTimestamp pod) (cl_podCreationTimes m)\<rparr> else m)"

definition pod_owner :: "ResourceClaim \<Rightarrow> string option" where
  "pod_owner cl = map_option snd (List.find (\<lambda>(kind, name). kind = ''Pod'' \<and> name \<noteq> []) (rc_Owners cl))"

definition getCachedPodCreateTime :: "ResourceClaim \<Rightarrow> 'q clm \<Rightarrow> gotime option" where
  "getCachedPodCreateTime cl m =
     (case pod_owner cl of None \<Rightarrow> None | Some name \<Rightarrow> map_of (cl_podCreationTimes m) (pod_key (rc_Namespace cl) name))"

definition fetchPodCreateTime :: "'q claim_env \<Rightarrow> ResourceClaim \<Rightarrow> 'q clm \<Rightarrow> gotime option \<times> 'q clm" where
  "fetchPodCreateTime env cl m =
     (case pod_owner cl of
        None \<Rightarrow> (None, m)
      | Some name \<Rightarrow>
          let m = m\<lparr>cl_podGetCalls := wrap 64 (cl_podGetCalls m + 1)\<rparr>
          in (case cle_getPod env (rc_Namespace cl) name of
                Inl err \<Rightarrow> (None, m)
              | Inr pod \<Rightarrow>
                  (Some (cpd_CreationTimestamp pod),
                   m\<lparr>cl_podCreationTimes := AList.update (pod_key (cpd_Namespace pod) (cpd_Name pod)) (cpd_CreationTimestamp pod)
                       (cl_podCreationTimes m)\<rparr>)))"

definition record_pod :: "'q claim_env \<Rightarrow> ResourceClaim \<Rightarrow> string \<Rightarrow> 'q clm \<Rightarrow> 'q clm" where
  "record_pod env claim key m =
     (case ot_Get (cl_entries m) key podCreatePhase of
        Some _ \<Rightarrow> m
      | None \<Rightarrow>
          (case getCachedPodCreateTime claim m of
             Some ts \<Rightarrow> m\<lparr>cl_entries := ot_Set (cl_entries m) key podCreatePhase ts\<rparr>
           | None \<Rightarrow>
               (case fetchPodCreateTime env claim m of
                  (Some ts, m) \<Rightarrow> m\<lparr>cl_entries := ot_Set (cl_entries m) key podCreatePhase ts\<rparr>
                | (None, m) \<Rightarrow> m)))"

definition cl_processEvent :: "'q claim_env \<Rightarrow> claimEventData \<Rightarrow> 'q clm \<Rightarrow> 'q clm" where
  "cl_processEvent env ev m =
     (case ced_obj ev of
        Some (Some claim) \<Rightarrow>
          let key = pod_key (rc_Namespace claim) (rc_Name claim); allocated = isAllocated claim
          in if allocated \<and> ot_Get (cl_entries m) key createPhase = None then m
             else
               let ott = record_once key createPhase (rc_CreationTimestamp claim) (cl_entries m);
                   ott = (if allocated then record_once key allocatePhase (ced_recvTime ev) ott else ott)
               in record_pod env claim key (m\<lparr>cl_entries := ott\<rparr>)
      | _ \<Rightarrow> m)"

definition cl_processNextWorkItem :: "'q claim_env \<Rightarrow> 'q clm \<Rightarrow> (bool \<times> 'q clm) option" where
  "cl_processNextWorkItem env m =
     (case wq_Get (cle_queue env) (cl_queue m) of
        None \<Rightarrow> None
      | Some (None, q) \<Rightarrow> Some (False, m\<lparr>cl_queue := q\<rparr>)
      | Some (Some item, q) \<Rightarrow>
          let m = cl_processEvent env item (m\<lparr>cl_queue := q\<rparr>)
          in Some (True, m\<lparr>cl_queue := wq_Done (cle_queue env) item (cl_queue m)\<rparr>))"

definition cl_stop :: "'q claim_env \<Rightarrow> 'q clm \<Rightarrow> 'q clm" where
  "cl_stop env m =
     (if cl_isRunning m then m\<lparr>cl_isRunning := False, cl_queue := wq_ShutDown (cle_queue env) (cl_queue m)\<rparr> else m)"

definition transitionsWithThreshold :: "duration \<Rightarrow> (string, Transition) gomap" where
  "transitionsWithThreshold th =
     [(''claim_allocation'', \<lparr>tr_From = createPhase, tr_To = allocatePhase, tr_Threshold = th\<rparr>),
      (''pod_create_to_claim_create'', \<lparr>tr_From = podCreatePhase, tr_To = createPhase, tr_Threshold = th\<rparr>)]"

text \<open>\<open>None\<close> is a panic: an index out of range, or a missing entry of the map of latencies.\<close>

definition cl_gather :: "'q claim_env \<Rightarrow> string \<Rightarrow> 'q clm \<Rightarrow> ((genericSummary list \<times> goerr option) \<times> 'q clm) option" where
  "cl_gather env identifier m =
     (if \<not> cl_isRunning m
      then Some (([], Some (Errorf (''measurement '' @ resourceClaimAllocationLatencyMeasurementName @ '' has not been started'') [])), m)
      else
        let m = cl_stop env m
        in (case CalculateTransitionsLatency (cl_entries m) (transitionsWithThreshold (cl_threshold m)) MatchAll of
              None \<Rightarrow> None
            | Some lats \<Rightarrow>
           (case map_of lats ''claim_allocation'' of
              None \<Rightarrow> None
            | Some allocation \<Rightarrow>
                let err = (case VerifyThresholdByPercentile (cle_show env) allocation (cl_perc50Threshold m)
                                  (cl_perc90Threshold m) (cl_perc99Threshold m) of
                             Some slosErr \<Rightarrow> Some (NewMetricViolationError ''claim allocation'' (err_msg slosErr))
                           | None \<Rightarrow> None);
                    perf = LatencyMapToPerfData lats;
                    perf = perf\<lparr>pd_DataItems := pd_DataItems perf @
                             [\<lparr>di_Data = [(''Count'', fl (of_int (cl_podGetCalls m)))], di_Unit = ''count'', di_Labels = [(''Metric'', ''PodGetCalls'')]\<rparr>]\<rparr>
                in (case cle_pretty env perf of
                      Inl jsonErr \<Rightarrow> Some (([], Some jsonErr), m)
                    | Inr content \<Rightarrow>
                        Some (([CreateSummary (cle_now env) (resourceClaimAllocationLatencyMeasurementName @ ''_'' @ identifier) ''json'' content],
                               err), m)))))"

text \<open>A threshold whose parameter is wrong gets the zero value before the error is returned.\<close>

definition cl_start_params :: "'q claim_env \<Rightarrow> params \<Rightarrow> 'q clm \<Rightarrow> goerr option \<times> 'q clm" where
  "cl_start_params env ps m =
     (case ObjectSelector_Parse ps (cl_selector m) of
        (Some err, s) \<Rightarrow> (Some err, m\<lparr>cl_selector := s\<rparr>)
      | (None, s) \<Rightarrow>
     (let m = m\<lparr>cl_selector := s\<rparr> in
      case GetDurationOrDefault (cle_parseDuration env) ps ''threshold'' defaultClaimAllocationLatencyThreshold of
        Inl err \<Rightarrow> (Some err, m\<lparr>cl_threshold := 0\<rparr>)
      | Inr t \<Rightarrow>
     (let m = m\<lparr>cl_threshold := t\<rparr> in
      case GetDurationOrDefault (cle_parseDuration env) ps ''perc50Threshold'' t of
        Inl err \<Rightarrow> (Some err, m\<lparr>cl_perc50Threshold := 0\<rparr>)
      | Inr t50 \<Rightarrow>
     (let m = m\<lparr>cl_perc50Threshold := t50\<rparr> in
      case GetDurationOrDefault (cle_parseDuration env) ps ''perc90Threshold'' t of
        Inl err \<Rightarrow> (Some err, m\<lparr>cl_perc90Threshold := 0\<rparr>)
      | Inr t90 \<Rightarrow>
     (let m = m\<lparr>cl_perc90Threshold := t90\<rparr> in
      case GetDurationOrDefault (cle_parseDuration env) ps ''perc99Threshold'' t of
        Inl err \<Rightarrow> (Some err, m\<lparr>cl_perc99Threshold := 0\<rparr>)
      | Inr t99 \<Rightarrow> cl_start env (m\<lparr>cl_perc99Threshold := t99\<rparr>))))))"

definition cl_Execute :: "'q claim_env \<Rightarrow> MeasurementConfig \<Rightarrow> 'q clm \<Rightarrow> ((genericSummary list \<times> goerr option) \<times> 'q clm) option" where
  "cl_Execute env config m =
     (case getString (mc_Params config) ''action'' of
        Inl err \<Rightarrow> Some (([], Some err), m)
      | Inr action \<Rightarrow>
          if action = ''start'' then (case cl_start_params env (mc_Params config) m of (err, m) \<Rightarrow> Some (([], err), m))
          else if action = ''gather'' then cl_gather env (mc_Identifier config) m
          else Some (([], Some (Errorf (''unknown action '' @ CHR 0x22 # action @ [CHR 0x22]) [])), m))"

section \<open>Which latencies are measured\<close>

text \<open>What the goroutine and the handler of pods do, in the order in which they do it.\<close>

datatype claim_input = ClaimEvent claimEventData | PodEvent "ClaimPod option"

fun claim_step :: "'q claim_env \<Rightarrow> claim_input \<Rightarrow> 'q clm \<Rightarrow> 'q clm" where
  "claim_step env (ClaimEvent e) m = cl_processEvent env e m"
| "claim_step env (PodEvent p) m = cl_addPodEvent p m"

text \<open>The events of a claim: its creation, whether it is allocated, and the time of reception.\<close>

fun seen_as :: "string \<Rightarrow> claim_input \<Rightarrow> (gotime \<times> bool \<times> gotime) option" where
  "seen_as key (ClaimEvent e) =
     (case ced_obj e of
        Some (Some c) \<Rightarrow> if pod_key (rc_Namespace c) (rc_Name c) = key then Some (rc_CreationTimestamp c, isAllocated c, ced_recvTime e) else None
      | _ \<Rightarrow> None)"
| "seen_as key (PodEvent p) = None"

definition history_of :: "string \<Rightarrow> claim_input list \<Rightarrow> (gotime \<times> bool \<times> gotime) list" where
  "history_of key es = somes (map (seen_as key) es)"

text \<open>A claim counts from the first event that shows it without an allocation.\<close>

definition fresh_events :: "string \<Rightarrow> claim_input list \<Rightarrow> (gotime \<times> bool \<times> gotime) list" where
  "fresh_events key es = dropWhile (\<lambda>(_, allocated, _). allocated) (history_of key es)"

definition created_at :: "string \<Rightarrow> claim_input list \<Rightarrow> gotime option" where
  "created_at key es = (case fresh_events key es of [] \<Rightarrow> None | (t, _) # _ \<Rightarrow> Some t)"

definition allocated_at :: "string \<Rightarrow> claim_input list \<Rightarrow> gotime option" where
  "allocated_at key es = map_option (\<lambda>(_, _, t). t) (List.find (\<lambda>(_, allocated, _). allocated) (fresh_events key es))"

definition claim_lag :: "string \<Rightarrow> claim_input list \<Rightarrow> duration option" where
  "claim_lag key es =
     (case created_at key es of
        None \<Rightarrow> None
      | Some t1 \<Rightarrow> map_option (\<lambda>t2. max 0 (time_Sub t2 t1)) (allocated_at key es))"

lemma somes_append: "somes (xs @ ys) = somes xs @ somes ys"
  by (simp add: somes_def)

lemma find_snoc: "List.find P (xs @ [x]) = (case List.find P xs of Some y \<Rightarrow> Some y | None \<Rightarrow> if P x then Some x else None)"
  by (induction xs) auto

lemma dropWhile_snoc:
  "dropWhile P (xs @ [x]) = (if dropWhile P xs = [] then if P x then [] else [x] else dropWhile P xs @ [x])"
  by (induction xs) auto

lemma history_of_snoc: "history_of key (es @ [e]) = history_of key es @ (case seen_as key e of None \<Rightarrow> [] | Some x \<Rightarrow> [x])"
  by (simp add: history_of_def somes_append somes_def split: option.splits)

lemma fresh_events_snoc:
  "fresh_events key (es @ [e]) =
     (case seen_as key e of
        None \<Rightarrow> fresh_events key es
      | Some (t, a, r) \<Rightarrow> if fresh_events key es = [] \<and> a then [] else fresh_events key es @ [(t, a, r)])"
  by (auto simp: fresh_events_def history_of_snoc dropWhile_snoc split: option.splits)

lemma created_at_snoc:
  "created_at key (es @ [e]) =
     (case created_at key es of
        Some t \<Rightarrow> Some t
      | None \<Rightarrow> (case seen_as key e of Some (t, False, r) \<Rightarrow> Some t | _ \<Rightarrow> None))"
  by (auto simp: created_at_def fresh_events_snoc split: option.splits list.splits bool.splits)

lemma created_at_None: "created_at key es = None \<longleftrightarrow> fresh_events key es = []"
  by (auto simp: created_at_def split: list.splits)

lemma allocated_at_snoc:
  "allocated_at key (es @ [e]) =
     (case allocated_at key es of
        Some t \<Rightarrow> Some t
      | None \<Rightarrow> (case seen_as key e of Some (t, True, r) \<Rightarrow> if created_at key es = None then None else Some r | _ \<Rightarrow> None))"
  by (auto simp: allocated_at_def fresh_events_snoc find_snoc created_at_None split: option.splits bool.splits)

lemma record_pod_phases:
  "phase \<noteq> podCreatePhase \<Longrightarrow> ot_Get (cl_entries (record_pod env c key m)) key' phase = ot_Get (cl_entries m) key' phase"
  by (auto simp: record_pod_def fetchPodCreateTime_def Let_def split: option.splits sum.splits)

lemma record_pod_ok: "ot_ok (cl_entries m) \<Longrightarrow> ot_ok (cl_entries (record_pod env c key m))"
  by (auto simp: record_pod_def fetchPodCreateTime_def Let_def split: option.splits sum.splits)

lemma addPodEvent_entries: "cl_entries (cl_addPodEvent p m) = cl_entries m"
  by (auto simp: cl_addPodEvent_def Let_def split: option.splits)

lemma processEvent_phases:
  "ot_Get (cl_entries (cl_processEvent env e m)) key createPhase =
     (case ot_Get (cl_entries m) key createPhase of
        Some t \<Rightarrow> Some t
      | None \<Rightarrow> (case seen_as key (ClaimEvent e) of Some (t, False, r) \<Rightarrow> Some t | _ \<Rightarrow> None))"
  "ot_Get (cl_entries (cl_processEvent env e m)) key allocatePhase =
     (case ot_Get (cl_entries m) key allocatePhase of
        Some t \<Rightarrow> Some t
      | None \<Rightarrow> (case seen_as key (ClaimEvent e) of
           Some (t, True, r) \<Rightarrow> if ot_Get (cl_entries m) key createPhase = None then None else Some r | _ \<Rightarrow> None))"
  by (auto simp: cl_processEvent_def Let_def record_pod_phases split: option.splits bool.splits)

lemma claim_phases:
  assumes "cl_entries m = NewObjectTransitionTimes name"
  shows "ot_Get (cl_entries (fold (claim_step env) es m)) key createPhase = created_at key es \<and>
    ot_Get (cl_entries (fold (claim_step env) es m)) key allocatePhase = allocated_at key es"
proof (induction es rule: rev_induct)
  case Nil
  show ?case using assms by (simp add: created_at_def allocated_at_def fresh_events_def history_of_def somes_def)
next
  case (snoc e es)
  show ?case
  proof (cases e)
    case (ClaimEvent d)
    then show ?thesis
      using snoc[THEN conjunct1] snoc[THEN conjunct2]
      by (auto simp: processEvent_phases created_at_snoc allocated_at_snoc split: option.splits)
  next
    case (PodEvent p)
    then show ?thesis using snoc by (auto simp: addPodEvent_entries created_at_snoc allocated_at_snoc split: option.splits)
  qed
qed

lemma claim_step_ok: "ot_ok (cl_entries m) \<Longrightarrow> ot_ok (cl_entries (claim_step env e m))"
  by (cases e) (auto simp: cl_processEvent_def Let_def addPodEvent_entries intro!: record_pod_ok record_once_ok split: option.splits)

lemma claim_steps_ok: "ot_ok (cl_entries m) \<Longrightarrow> ot_ok (cl_entries (fold (claim_step env) es m))"
  by (induction es arbitrary: m) (simp_all add: claim_step_ok)

definition cl_settings :: "'q clm \<Rightarrow> bool \<times> duration \<times> duration \<times> duration" where
  "cl_settings m = (cl_isRunning m, cl_perc50Threshold m, cl_perc90Threshold m, cl_perc99Threshold m)"

lemma claim_step_settings: "cl_settings (claim_step env e m) = cl_settings m"
  by (cases e) (auto simp: cl_processEvent_def cl_addPodEvent_def Let_def record_pod_def fetchPodCreateTime_def cl_settings_def
      split: option.splits sum.splits)

lemma claim_steps_settings: "cl_settings (fold (claim_step env) es m) = cl_settings m"
  by (induction es arbitrary: m) (simp_all add: claim_step_settings)

text \<open>The latencies of the table are those of the claims.\<close>

lemma claim_latencies:
  fixes env :: "'q claim_env" and es
  assumes "cl_entries m = NewObjectTransitionTimes name"
  defines "ott \<equiv> cl_entries (fold (claim_step env) es m)"
  shows "latencies ott \<lparr>tr_From = createPhase, tr_To = allocatePhase, tr_Threshold = th\<rparr> MatchAll =
    List.map_filter (\<lambda>key. claim_lag key es) (map fst (ot_times ott))"
proof -
  have ok: "ot_ok ott" unfolding ott_def by (rule claim_steps_ok) (simp add: assms(1))
  have lag: "lag_of \<lparr>tr_From = createPhase, tr_To = allocatePhase, tr_Threshold = th\<rparr> MatchAll p = claim_lag (fst p) es"
    if "p \<in> set (ot_times ott)" for p
  proof -
    obtain key entry where p: "p = (key, entry)" by (cases p)
    then have "map_of (ot_times ott) key = Some entry" using that ok by (simp add: ot_ok_def)
    then have "map_of entry ph = ot_Get ott key ph" for ph by (simp add: ot_Get_def)
    then show ?thesis
      using claim_phases[OF assms(1), of env es key] unfolding ott_def[symmetric] p
      by (auto simp: lag_of_def MatchAll_def claim_lag_def Let_def max_def split: option.splits)
  qed
  have mf: "List.map_filter f xs = List.map_filter g (map fst xs)" if "\<And>p. p \<in> set xs \<Longrightarrow> f p = g (fst p)"
    for f :: "string \<times> (string, gotime) gomap \<Rightarrow> duration option" and g xs
    using that by (induction xs) (auto simp: List.map_filter_def split: option.splits)
  show ?thesis unfolding latencies_def by (rule mf) (rule lag)
qed

text \<open>
  The objective of claim allocation is decided.  Whatever the order of claim events and pod events, and
  whatever the fetching of pods answers, gathering a running measurement returns one summary, with a metric
  violation exactly if fewer than 50, 90 or 99 per cent of the measured claims were allocated within the
  corresponding threshold.  A claim is measured if some event showed it without an allocation and a later one
  with it: from its creation to the reception of the first such event.
\<close>

theorem claim_allocation_decided:
  assumes "cl_isRunning m" and new: "cl_entries m = NewObjectTransitionTimes name"
    and "0 \<le> cl_perc50Threshold m" "0 \<le> cl_perc90Threshold m" "0 \<le> cl_perc99Threshold m"
    and pretty: "\<And>d. \<exists>c. cle_pretty env d = Inr c"
    and size: "99 * length (ot_times (cl_entries (fold (claim_step env) es m))) < 2 ^ 53"
  shows "\<exists>summary err m' keys ls.
    cl_gather env identifier (fold (claim_step env) es m) = Some (([summary], err), m') \<and> \<not> cl_isRunning m' \<and>
    distinct keys \<and> (\<forall>key. claim_lag key es \<noteq> None \<longrightarrow> key \<in> set keys) \<and> ls = List.map_filter (\<lambda>key. claim_lag key es) keys \<and>
    (err = None \<longleftrightarrow> 50 * length ls \<le> 100 * count_le (cl_perc50Threshold m) ls \<and>
       90 * length ls \<le> 100 * count_le (cl_perc90Threshold m) ls \<and> 99 * length ls \<le> 100 * count_le (cl_perc99Threshold m) ls) \<and>
    (\<forall>e. err = Some e \<longrightarrow> IsMetricViolationError e)"
proof -
  let ?n = "fold (claim_step env) es m"
  let ?ott = "cl_entries ?n"
  let ?keys = "map fst (ot_times ?ott)"
  let ?ls = "List.map_filter (\<lambda>key. claim_lag key es) ?keys"
  have ok: "ot_ok ?ott" by (rule claim_steps_ok) (simp add: new)
  have set: "cl_isRunning ?n" "cl_perc50Threshold ?n = cl_perc50Threshold m" "cl_perc90Threshold ?n = cl_perc90Threshold m"
    "cl_perc99Threshold ?n = cl_perc99Threshold m"
    using claim_steps_settings[of env es m] assms(1) by (simp_all add: cl_settings_def)
  have "gomap_ok (transitionsWithThreshold (cl_threshold ?n))" by (simp add: transitionsWithThreshold_def)
  from transitions_all[OF size this] obtain lats where
    l: "CalculateTransitionsLatency ?ott (transitionsWithThreshold (cl_threshold ?n)) MatchAll = Some lats"
    and at: "\<And>nm tr. map_of (transitionsWithThreshold (cl_threshold ?n)) nm = Some tr \<Longrightarrow>
      \<exists>lm. map_of lats nm = Some lm \<and> metric_of (latencies ?ott tr MatchAll) lm" by blast
  obtain lm where lm: "map_of lats ''claim_allocation'' = Some lm" "metric_of ?ls lm"
    using at[of "''claim_allocation''"] by (auto simp: transitionsWithThreshold_def claim_latencies[OF new])
  have v: "VerifyThresholdByPercentile (cle_show env) lm (cl_perc50Threshold m) (cl_perc90Threshold m) (cl_perc99Threshold m) = None \<longleftrightarrow>
      50 * length ?ls \<le> 100 * count_le (cl_perc50Threshold m) ?ls \<and> 90 * length ?ls \<le> 100 * count_le (cl_perc90Threshold m) ?ls \<and>
      99 * length ?ls \<le> 100 * count_le (cl_perc99Threshold m) ?ls"
    by (rule metric_of_thresholds[OF lm(2) assms(3-5)])
  have keys: "key \<in> set ?keys" if "claim_lag key es \<noteq> None" for key
  proof -
    have "ot_Get ?ott key createPhase \<noteq> None"
      using that claim_phases[OF new, of env es key] by (auto simp: claim_lag_def split: option.splits)
    then show ?thesis by (auto simp: ot_Get_def map_of_eq_None_iff split: option.splits)
      (metis map_of_SomeD image_eqI fst_conv)
  qed
  obtain summary err where g: "cl_gather env identifier ?n = Some (([summary], err), cl_stop env ?n)"
    "err = None \<longleftrightarrow> VerifyThresholdByPercentile (cle_show env) lm (cl_perc50Threshold m) (cl_perc90Threshold m) (cl_perc99Threshold m) = None"
    "\<forall>e. err = Some e \<longrightarrow> IsMetricViolationError e"
  proof -
    have st: "cl_entries (cl_stop env ?n) = ?ott" "cl_threshold (cl_stop env ?n) = cl_threshold ?n"
      "cl_perc50Threshold (cl_stop env ?n) = cl_perc50Threshold m" "cl_perc90Threshold (cl_stop env ?n) = cl_perc90Threshold m"
      "cl_perc99Threshold (cl_stop env ?n) = cl_perc99Threshold m" by (simp_all add: cl_stop_def set)
    obtain c where c: "cle_pretty env ((LatencyMapToPerfData lats)\<lparr>pd_DataItems := pd_DataItems (LatencyMapToPerfData lats) @
        [\<lparr>di_Data = [(''Count'', fl (of_int (cl_podGetCalls (cl_stop env ?n))))], di_Unit = ''count'', di_Labels = [(''Metric'', ''PodGetCalls'')]\<rparr>]\<rparr>) = Inr c"
      using pretty by blast
    show ?thesis
      by (rule that, simp add: cl_gather_def Let_def set st l lm(1) c)
         (auto simp: NewMetricViolationError_def IsMetricViolationError_def split: option.splits)
  qed
  have "\<not> cl_isRunning (cl_stop env ?n)" "distinct ?keys" using set ok by (simp_all add: cl_stop_def ot_ok_def)
  with g v keys show ?thesis
    by (intro exI[of _ summary] exI[of _ err] exI[of _ "cl_stop env ?n"] exI[of _ ?keys] exI[of _ ?ls]) (simp del: map_map)
qed

definition one_claim :: "bool \<Rightarrow> gotime \<Rightarrow> claim_input" where
  "one_claim allocated t = ClaimEvent
     \<lparr>ced_obj = Some (Some \<lparr>rc_Namespace = ''ns'', rc_Name = ''c'', rc_CreationTimestamp = 10, rc_Owners = [], rc_Allocation = allocated,
        rc_ReservedFor = 0, rc_Devices = 0\<rparr>), ced_recvTime = t\<rparr>"

definition list_claim_env :: "unit claim_env" where
  "list_claim_env =
     \<lparr>cle_queue = \<lparr>wq_new = (), wq_Add = (\<lambda>_ q. q), wq_Get = (\<lambda>_. None), wq_Done = (\<lambda>_ q. q), wq_ShutDown = id\<rparr>, cle_synced = True,
      cle_podsSynced = True, cle_getPod = (\<lambda>_ _. Inl (Errorf ''no pod'' [])), cle_parseDuration = (\<lambda>_. Inr 0), cle_show = (\<lambda>_. []),
      cle_pretty = (\<lambda>_. Inr ''{}''), cle_now = 0\<rparr>"

lemma claim_allocation_decided_witness:
  "\<exists>summary err m'. cl_gather list_claim_env ''x''
     (fold (claim_step list_claim_env) [one_claim False 11, one_claim True 20]
       (createResourceClaimAllocationLatencyMeasurement list_claim_env\<lparr>cl_isRunning := True, cl_perc50Threshold := 5,
          cl_perc90Threshold := 5, cl_perc99Threshold := 5\<rparr>)) = Some (([summary], err), m') \<and> err \<noteq> None"
proof -
  let ?m = "createResourceClaimAllocationLatencyMeasurement list_claim_env\<lparr>cl_isRunning := True, cl_perc50Threshold := 5,
          cl_perc90Threshold := 5, cl_perc99Threshold := 5\<rparr>"
  let ?es = "[one_claim False 11, one_claim True 20]"
  have e: "ot_times (cl_entries (fold (claim_step list_claim_env) ?es ?m)) = [(''ns/c'', [(''create'', 10), (''allocate'', 20)])]"
    by (simp add: one_claim_def list_claim_env_def cl_processEvent_def createResourceClaimAllocationLatencyMeasurement_def isAllocated_def
        record_once_def ot_Get_def ot_Set_def NewObjectTransitionTimes_def record_pod_def getCachedPodCreateTime_def pod_owner_def
        fetchPodCreateTime_def pod_key_def Let_def)
  have lag: "claim_lag key ?es = (if key = ''ns/c'' then Some 10 else None)" for key
    by (simp add: claim_lag_def created_at_def allocated_at_def fresh_events_def history_of_def somes_def one_claim_def isAllocated_def
        pod_key_def time_Sub_def eq_commute)
  have size: "99 * length (ot_times (cl_entries (fold (claim_step list_claim_env) ?es ?m))) < 2 ^ 53" by (simp only: e) simp
  have hyps: "cl_isRunning ?m" "cl_entries ?m = NewObjectTransitionTimes resourceClaimAllocationLatencyMeasurementName"
    "0 \<le> cl_perc50Threshold ?m" "0 \<le> cl_perc90Threshold ?m" "0 \<le> cl_perc99Threshold ?m"
    by (simp_all add: createResourceClaimAllocationLatencyMeasurement_def)
  have "\<And>d. \<exists>c. cle_pretty list_claim_env d = Inr c" by (simp add: list_claim_env_def)
  from claim_allocation_decided[OF hyps this size, of "''x''"] obtain summary err m' keys ls where
    g: "cl_gather list_claim_env ''x'' (fold (claim_step list_claim_env) ?es ?m) = Some (([summary], err), m')"
      "distinct keys" "''ns/c'' \<in> set keys" "ls = List.map_filter (\<lambda>key. claim_lag key ?es) keys"
      "err = None \<longleftrightarrow> 50 * length ls \<le> 100 * count_le (cl_perc50Threshold ?m) ls \<and>
       90 * length ls \<le> 100 * count_le (cl_perc90Threshold ?m) ls \<and> 99 * length ls \<le> 100 * count_le (cl_perc99Threshold ?m) ls"
    by (elim exE conjE) (rule that, auto simp: lag)
  have "ls = replicate (length (filter (\<lambda>k. k = ''ns/c'') keys)) 10"
    unfolding g(4) lag by (induction keys) (auto simp: List.map_filter_def)
  moreover have "filter (\<lambda>k. k = ''ns/c'') keys \<noteq> []" using g(3) by (auto simp: filter_empty_conv)
  ultimately have "err \<noteq> None" using g(5) by (cases "filter (\<lambda>k. k = ''ns/c'') keys") auto
  with g(1) show ?thesis by blast
qed

end
