(* ===== verification/Scraping.thy ===== *)
theory Scraping
  imports Prometheus_Core Waiting
begin

text \<open>
  Reading the metrics of a component directly: commands on a host
  (\<^verbatim>\<open>clusterloader2/pkg/measurement/util/ssh.go\<close>), decoding of the text format
  (\<^verbatim>\<open>util/prometheus.go\<close>) and the parts of the cluster configuration that the scrapers use
  (\<^verbatim>\<open>clusterloader2/pkg/config/cluster.go\<close>).  The command runner of the provider and the decoder of the
  Prometheus text format are parameters.
\<close>

section \<open>Commands on a host\<close>

record SSHResult =
  sr_User :: string
  sr_Host :: string
  sr_Cmd :: string
  sr_Stdout :: string
  sr_Stderr :: string
  sr_Code :: int

text \<open>\<^verbatim>\<open>Provider.RunSSHCommand\<close>: standard output, standard error and exit code beside the error.\<close>

type_synonym ssh_runner = "string \<Rightarrow> string \<Rightarrow> string \<times> string \<times> int \<times> goerr option"

definition SSH :: "string \<Rightarrow> string \<Rightarrow> ssh_runner \<Rightarrow> SSHResult \<times> goerr option" where
  "SSH cmd host run =
     (case run cmd host of
        (stdout, stderr, code, err) \<Rightarrow>
          (\<lparr>sr_User = [], sr_Host = host, sr_Cmd = cmd, sr_Stdout = stdout, sr_Stderr = stderr, sr_Code = code\<rparr>, err))"

section \<open>Samples of a page of metrics\<close>

text \<open>
  The decoder yields a vector at a time; \<open>None\<close> as its error is \<^verbatim>\<open>io.EOF\<close>.  Its answers are a list that
  ends with an error; should the list be exhausted, the stream has ended.
\<close>

fun extract_loop :: "(goerr option + sample list) list \<Rightarrow> sample list \<Rightarrow> goerr + sample list" where
  "extract_loop [] samples = Inr samples"
| "extract_loop (Inl None # as) samples = Inr samples"
| "extract_loop (Inl (Some err) # as) samples = Inl err"
| "extract_loop (Inr v # as) samples = extract_loop as (samples @ v)"

type_synonym text_decoder = "string \<Rightarrow> (goerr option + sample list) list"

definition ExtractMetricSamples :: "text_decoder \<Rightarrow> string \<Rightarrow> goerr + sample list" where
  "ExtractMetricSamples decode metricsBlob = extract_loop (decode metricsBlob) []"

lemma extract_loop_vectors: "extract_loop (map Inr vs) acc = Inr (acc @ concat vs)"
  by (induction vs arbitrary: acc) auto

section \<open>Configuration of the cluster\<close>

record Features =
  fe_SupportSSHToMaster :: bool
  fe_SchedulerInsecurePortDisabled :: bool

record ClusterConfig =
  cc_MasterIPs :: "string list"
  cc_MasterInternalIPs :: "string list"
  cc_MasterName :: string
  cc_EtcdInsecurePort :: int

definition GetMasterIP :: "ClusterConfig \<Rightarrow> string" where
  "GetMasterIP c = (if 0 < length (cc_MasterIPs c) then cc_MasterIPs c ! 0 else [])"

definition GetMasterInternalIP :: "ClusterConfig \<Rightarrow> string" where
  "GetMasterInternalIP c = (if 0 < length (cc_MasterInternalIPs c) then cc_MasterInternalIPs c ! 0 else [])"

section \<open>Floating point numbers with infinities\<close>

text \<open>
  The bounds of buckets and quantiles of histograms: a finite number, an infinity or NaN.  The order is
  the one of the numbers, with NaN below all of them; no bound of a bucket is NaN.
\<close>

datatype gofloat = NaN | NegInf | Fin rat | PosInf

fun gofloat_le :: "gofloat \<Rightarrow> gofloat \<Rightarrow> bool" where
  "gofloat_le NaN _ = True"
| "gofloat_le _ NaN = False"
| "gofloat_le NegInf _ = True"
| "gofloat_le _ NegInf = False"
| "gofloat_le (Fin a) (Fin b) = (a \<le> b)"
| "gofloat_le (Fin a) PosInf = True"
| "gofloat_le PosInf (Fin b) = False"
| "gofloat_le PosInf PosInf = True"

instantiation gofloat :: linorder
begin

definition less_eq_gofloat :: "gofloat \<Rightarrow> gofloat \<Rightarrow> bool" where
  "less_eq_gofloat = gofloat_le"

definition less_gofloat :: "gofloat \<Rightarrow> gofloat \<Rightarrow> bool" where
  "less_gofloat a b \<longleftrightarrow> gofloat_le a b \<and> \<not> gofloat_le b a"

instance
proof
  fix x y z :: gofloat
  show "x < y \<longleftrightarrow> x \<le> y \<and> \<not> y \<le> x" by (simp add: less_eq_gofloat_def less_gofloat_def)
  show "x \<le> x" by (cases x) (simp_all add: less_eq_gofloat_def)
  show "x \<le> y \<Longrightarrow> y \<le> z \<Longrightarrow> x \<le> z" by (cases x; cases y; cases z) (simp_all add: less_eq_gofloat_def)
  show "x \<le> y \<Longrightarrow> y \<le> x \<Longrightarrow> x = y" by (cases x; cases y) (simp_all add: less_eq_gofloat_def)
  show "x \<le> y \<or> y \<le> x" by (cases x; cases y) (auto simp: less_eq_gofloat_def)
qed

end

text \<open>
  \<^verbatim>\<open>time.Duration(int64(q * float64(time.Second)))\<close>; the language leaves open which integer a number
  outside of the range of \<^verbatim>\<open>int64\<close> becomes, so \<open>conv\<close> is a parameter.
\<close>

definition seconds_of_float :: "(gofloat \<Rightarrow> int) \<Rightarrow> gofloat \<Rightarrow> duration" where
  "seconds_of_float conv x =
     (case x of
        Fin q \<Rightarrow> let n = trunc_rat (fl (q * 1000000000)) in if fits 64 n then n else conv (Fin (fl (q * 1000000000)))
      | y \<Rightarrow> conv y)"

end
