(* ===== verification/Scheduler_Latency.thy ===== *)
theory Scheduler_Latency
  imports Scraping
begin

text \<open>
  Latencies of the scheduler, scraped from it
  (\<^verbatim>\<open>clusterloader2/pkg/measurement/common/scheduler_latency.go\<close>) or queried from Prometheus
  (\<^verbatim>\<open>prometheus_scheduler_latency.go\<close>).  The nodes, the API server and the command runner are arguments of
  each execution, since they change between them; the quantile of a histogram is the one of the library,
  as a parameter.  A panic is \<open>None\<close>.
\<close>

section \<open>Histograms of the scheduler\<close>

definition e2eSchedulingDurationMetricName :: string where
  "e2eSchedulingDurationMetricName = ''scheduler_pod_scheduling_sli_duration_seconds_bucket''"

definition schedulingAlgorithmDurationMetricName :: string where
  "schedulingAlgorithmDurationMetricName = ''scheduler_scheduling_algorithm_duration_seconds_bucket''"

definition frameworkExtensionPointDurationMetricName :: string where
  "frameworkExtensionPointDurationMetricName = ''scheduler_framework_extension_point_duration_seconds_bucket''"

definition preemptionEvaluationMetricName :: string where
  "preemptionEvaluationMetricName = ''scheduler_scheduling_algorithm_preemption_evaluation_seconds_bucket''"

definition extentionsPoints :: "string list" where
  "extentionsPoints =
     [''PreFilter'', ''Filter'', ''PostFilter'', ''PreScore'', ''Score'', ''PreBind'', ''Bind'', ''PostBind'',
      ''Reserve'', ''Unreserve'', ''Permit'']"

text \<open>A pointer to a histogram is \<open>None\<close> if it is nil.\<close>

record schedulerLatencyMetrics =
  sl_e2eSchedulingDurationHist :: "Histogram option"
  sl_schedulingAlgorithmDurationHist :: "Histogram option"
  sl_preemptionEvaluationHist :: "Histogram option"
  sl_frameworkExtensionPointDurationHist :: "(string, Histogram option) gomap"

record schedulerLatencyMeasurement =
  sl_initialLatency :: schedulerLatencyMetrics

definition createSchedulerLatencyMeasurement :: schedulerLatencyMeasurement where
  "createSchedulerLatencyMeasurement =
     \<lparr>sl_initialLatency = \<lparr>sl_e2eSchedulingDurationHist = None, sl_schedulingAlgorithmDurationHist = None,
        sl_preemptionEvaluationHist = None, sl_frameworkExtensionPointDurationHist = []\<rparr>\<rparr>"

text \<open>The buckets of the first histogram are changed in place; a bucket missing in the second reads as 0.\<close>

definition HistogramSub :: "Histogram \<Rightarrow> Histogram \<Rightarrow> Histogram" where
  "HistogramSub finalHist initialHist =
     finalHist\<lparr>hi_Buckets := map (\<lambda>(k, v). (k, wrap 64 (v - (case map_of (hi_Buckets initialHist) k of None \<Rightarrow> 0 | Some n \<Rightarrow> n))))
        (hi_Buckets finalHist)\<rparr>"

text \<open>Nothing is subtracted for nil; subtracting from nil panics.\<close>

definition sub_hist :: "Histogram option \<Rightarrow> Histogram option \<Rightarrow> Histogram option option" where
  "sub_hist m sub =
     (case sub of
        None \<Rightarrow> Some m
      | Some s \<Rightarrow> (case m of None \<Rightarrow> None | Some h \<Rightarrow> Some (Some (HistogramSub h s))))"

definition point_hist :: "(string, Histogram option) gomap \<Rightarrow> string \<Rightarrow> Histogram option" where
  "point_hist m ep = (case map_of m ep of None \<Rightarrow> None | Some h \<Rightarrow> h)"

fun subtract_points ::
  "(string, Histogram option) gomap \<Rightarrow> string list \<Rightarrow> (string, Histogram option) gomap \<Rightarrow> (string, Histogram option) gomap option" where
  "subtract_points sub [] m = Some m"
| "subtract_points sub (ep # eps) m =
     (case point_hist sub ep of
        None \<Rightarrow> subtract_points sub eps m
      | Some s \<Rightarrow>
          (case sub_hist (point_hist m ep) (Some s) of
             None \<Rightarrow> None
           | Some h \<Rightarrow> subtract_points sub eps (AList.update ep h m)))"

definition sl_subtract :: "schedulerLatencyMetrics \<Rightarrow> schedulerLatencyMetrics \<Rightarrow> schedulerLatencyMetrics option" where
  "sl_subtract m sub =
     (case sub_hist (sl_preemptionEvaluationHist m) (sl_preemptionEvaluationHist sub) of None \<Rightarrow> None | Some preemption \<Rightarrow>
     (case sub_hist (sl_schedulingAlgorithmDurationHist m) (sl_schedulingAlgorithmDurationHist sub) of None \<Rightarrow> None | Some algorithm \<Rightarrow>
     (case sub_hist (sl_e2eSchedulingDurationHist m) (sl_e2eSchedulingDurationHist sub) of None \<Rightarrow> None | Some e2e \<Rightarrow>
     (case subtract_points (sl_frameworkExtensionPointDurationHist sub) extentionsPoints (sl_frameworkExtensionPointDurationHist m) of
        None \<Rightarrow> None
      | Some points \<Rightarrow>
          Some \<lparr>sl_e2eSchedulingDurationHist = e2e, sl_schedulingAlgorithmDurationHist = algorithm,
                sl_preemptionEvaluationHist = preemption, sl_frameworkExtensionPointDurationHist = points\<rparr>))))"

section \<open>Quantiles\<close>

record schedulingMetrics =
  sg_FrameworkExtensionPointDuration :: "(string, LatencyMetric) gomap"
  sg_PreemptionEvaluationLatency :: LatencyMetric
  sg_E2eSchedulingLatency :: LatencyMetric
  sg_SchedulingLatency :: LatencyMetric

text \<open>
  What the computation of quantiles uses of libraries: \<^verbatim>\<open>strconv.ParseFloat\<close>, the quantile of a histogram,
  the conversion of numbers outside of \<^verbatim>\<open>int64\<close>, and JSON.
\<close>

record quantile_env =
  qe_parseFloat :: "string \<Rightarrow> goerr + gofloat"
  qe_quantile :: "nat option \<Rightarrow> (gofloat \<times> nat) list \<Rightarrow> gofloat \<Rightarrow> gofloat"
  qe_conv :: "gofloat \<Rightarrow> int"
  qe_pretty :: "schedulingMetrics \<Rightarrow> goerr + string"

fun set_quantile_loop :: "'x quantile_env_scheme \<Rightarrow> rat list \<Rightarrow> Histogram \<Rightarrow> LatencyMetric \<Rightarrow> LatencyMetric \<times> goerr option" where
  "set_quantile_loop env [] hist metric = (metric, None)"
| "set_quantile_loop env (quantile # quantiles) hist metric =
     (case Histogram_Quantile (qe_parseFloat env) (qe_quantile env) hist (Fin quantile) of
        Inl err \<Rightarrow> (metric, Some err)
      | Inr histQuantile \<Rightarrow>
          set_quantile_loop env quantiles hist
            (if histQuantile \<noteq> NaN then SetQuantile metric quantile (seconds_of_float (qe_conv env) histQuantile) else metric))"

definition SetQuantileFromHistogram :: "'x quantile_env_scheme \<Rightarrow> LatencyMetric \<Rightarrow> Histogram \<Rightarrow> LatencyMetric \<times> goerr option" where
  "SetQuantileFromHistogram env metric hist = set_quantile_loop env [fl (1 / 2), fl (9 / 10), fl (99 / 100)] hist metric"

abbreviation zero_metric :: LatencyMetric where
  "zero_metric \<equiv> \<lparr>lm_Perc50 = 0, lm_Perc90 = 0, lm_Perc99 = 0\<rparr>"

text \<open>The quantiles of a nil histogram panic.\<close>

definition quantiles_of :: "'x quantile_env_scheme \<Rightarrow> Histogram option \<Rightarrow> (LatencyMetric \<times> goerr option) option" where
  "quantiles_of env h = map_option (SetQuantileFromHistogram env zero_metric) h"

fun set_points_loop ::
  "'x quantile_env_scheme \<Rightarrow> (string, Histogram option) gomap \<Rightarrow> string list \<Rightarrow> (string, LatencyMetric) gomap \<Rightarrow>
   ((string, LatencyMetric) gomap \<times> goerr option) option" where
  "set_points_loop env hists [] r = Some (r, None)"
| "set_points_loop env hists (ep # eps) r =
     (case quantiles_of env (point_hist hists ep) of
        None \<Rightarrow> None
      | Some (m, Some err) \<Rightarrow> Some (AList.update ep m r, Some err)
      | Some (m, None) \<Rightarrow> set_points_loop env hists eps (AList.update ep m r))"

definition setQuantiles :: "'x quantile_env_scheme \<Rightarrow> schedulerLatencyMetrics \<Rightarrow> (schedulingMetrics \<times> goerr option) option" where
  "setQuantiles env metrics =
     (let result = \<lparr>sg_FrameworkExtensionPointDuration = map (\<lambda>ep. (ep, zero_metric)) extentionsPoints,
                    sg_PreemptionEvaluationLatency = zero_metric, sg_E2eSchedulingLatency = zero_metric,
                    sg_SchedulingLatency = zero_metric\<rparr>
      in case quantiles_of env (sl_e2eSchedulingDurationHist metrics) of
           None \<Rightarrow> None
         | Some (m, Some err) \<Rightarrow> Some (result\<lparr>sg_E2eSchedulingLatency := m\<rparr>, Some err)
         | Some (m, None) \<Rightarrow>
      (let result = result\<lparr>sg_E2eSchedulingLatency := m\<rparr>
       in case quantiles_of env (sl_schedulingAlgorithmDurationHist metrics) of
            None \<Rightarrow> None
          | Some (m, Some err) \<Rightarrow> Some (result\<lparr>sg_SchedulingLatency := m\<rparr>, Some err)
          | Some (m, None) \<Rightarrow>
      (let result = result\<lparr>sg_SchedulingLatency := m\<rparr>
       in case set_points_loop env (sl_frameworkExtensionPointDurationHist metrics) extentionsPoints
                 (sg_FrameworkExtensionPointDuration result) of
            None \<Rightarrow> None
          | Some (ps, Some err) \<Rightarrow> Some (result\<lparr>sg_FrameworkExtensionPointDuration := ps\<rparr>, Some err)
          | Some (ps, None) \<Rightarrow>
      (let result = result\<lparr>sg_FrameworkExtensionPointDuration := ps\<rparr>
       in case quantiles_of env (sl_preemptionEvaluationHist metrics) of
            None \<Rightarrow> None
          | Some (m, err) \<Rightarrow> Some (result\<lparr>sg_PreemptionEvaluationLatency := m\<rparr>, err)))))"

section \<open>The direct scrape\<close>

text \<open>
  The cluster of one execution: \<open>se_rest\<close> is the request to a pod through the API server, by its verb and
  the name of the pod, \<open>se_gosyntax\<close> is \<open>%#v\<close> of an error.
\<close>

record sched_env = quantile_env +
  se_features :: Features
  se_cluster :: ClusterConfig
  se_nodes :: "goerr + ClusterNode list"
  se_rest :: "string \<Rightarrow> string \<Rightarrow> goerr + string"
  se_ssh :: ssh_runner
  se_gosyntax :: "goerr option \<Rightarrow> string"
  se_decode :: text_decoder
  se_now :: gotime

definition to_upper :: "char \<Rightarrow> char" where
  "to_upper c = (let n = of_char c :: nat in if 97 \<le> n \<and> n \<le> 122 then char_of (n - 32) else c)"

definition sendRequestToScheduler :: "sched_env \<Rightarrow> string \<Rightarrow> string \<Rightarrow> string \<Rightarrow> bool \<Rightarrow> goerr + string" where
  "sendRequestToScheduler env opn host masterName masterRegistered =
     (let opUpper = map to_upper opn
      in if opUpper \<noteq> ''GET'' \<and> opUpper \<noteq> ''DELETE'' then Inl (Errorf ''unknown REST request'' [])
         else if masterRegistered then se_rest env opUpper (''https:kube-scheduler-'' @ masterName @ '':10259'')
         else
           let cmd = ''curl -X '' @ opUpper @ '' -k https://localhost:10259/metrics''
           in case SSH cmd (host @ '':22'') (se_ssh env) of
                (sshResult, err) \<Rightarrow>
                  if err \<noteq> None \<or> sr_Code sshResult \<noteq> 0
                  then Inl (Errorf (''unexpected error (code: '' @ show_int (sr_Code sshResult) @ '') in ssh connection to master: ''
                              @ se_gosyntax env err) [])
                  else Inr (sr_Stdout sshResult))"

definition no_metrics :: schedulerLatencyMetrics where
  "no_metrics =
     \<lparr>sl_e2eSchedulingDurationHist = Some (NewHistogram []), sl_schedulingAlgorithmDurationHist = Some (NewHistogram []),
      sl_preemptionEvaluationHist = Some (NewHistogram []),
      sl_frameworkExtensionPointDurationHist = map (\<lambda>ep. (ep, Some (NewHistogram []))) extentionsPoints\<rparr>"

definition collect_sample :: "sample \<Rightarrow> schedulerLatencyMetrics \<Rightarrow> schedulerLatencyMetrics" where
  "collect_sample s m =
     (let name = label s ''__name__''
      in if name = e2eSchedulingDurationMetricName
         then m\<lparr>sl_e2eSchedulingDurationHist := map_option (ConvertSampleToHistogram s) (sl_e2eSchedulingDurationHist m)\<rparr>
         else if name = schedulingAlgorithmDurationMetricName
         then m\<lparr>sl_schedulingAlgorithmDurationHist := map_option (ConvertSampleToHistogram s) (sl_schedulingAlgorithmDurationHist m)\<rparr>
         else if name = frameworkExtensionPointDurationMetricName
         then (let ePoint = label s ''extension_point''
               in case map_of (sl_frameworkExtensionPointDurationHist m) ePoint of
                    None \<Rightarrow> m
                  | Some h \<Rightarrow> m\<lparr>sl_frameworkExtensionPointDurationHist :=
                      AList.update ePoint (map_option (ConvertSampleToHistogram s) h) (sl_frameworkExtensionPointDurationHist m)\<rparr>)
         else if name = preemptionEvaluationMetricName
         then m\<lparr>sl_preemptionEvaluationHist := map_option (ConvertSampleToHistogram s) (sl_preemptionEvaluationHist m)\<rparr>
         else m)"

definition scheduler_samples :: "sched_env \<Rightarrow> string \<Rightarrow> string \<Rightarrow> bool \<Rightarrow> goerr + sample list" where
  "scheduler_samples env host masterName masterRegistered =
     (case sendRequestToScheduler env ''GET'' host masterName masterRegistered of
        Inl err \<Rightarrow> Inl err
      | Inr data \<Rightarrow> ExtractMetricSamples (se_decode env) data)"

definition getSchedulingMetrics :: "sched_env \<Rightarrow> string \<Rightarrow> string \<Rightarrow> bool \<Rightarrow> schedulerLatencyMetrics \<times> goerr option" where
  "getSchedulingMetrics env host masterName masterRegistered =
     (case scheduler_samples env host masterName masterRegistered of
        Inl err \<Rightarrow> (no_metrics, Some err)
      | Inr samples \<Rightarrow> (fold collect_sample samples no_metrics, None))"

definition getSchedulingInitialLatency ::
  "sched_env \<Rightarrow> string \<Rightarrow> string \<Rightarrow> bool \<Rightarrow> schedulerLatencyMeasurement \<Rightarrow> goerr option \<times> schedulerLatencyMeasurement" where
  "getSchedulingInitialLatency env host masterName masterRegistered s =
     (case getSchedulingMetrics env host masterName masterRegistered of
        (initial, err) \<Rightarrow> (err, s\<lparr>sl_initialLatency := initial\<rparr>))"

definition getSchedulingLatency ::
  "sched_env \<Rightarrow> string \<Rightarrow> string \<Rightarrow> bool \<Rightarrow> schedulerLatencyMeasurement \<Rightarrow> (genericSummary list \<times> goerr option) option" where
  "getSchedulingLatency env host masterName masterRegistered s =
     (case getSchedulingMetrics env host masterName masterRegistered of
        (_, Some err) \<Rightarrow> Some ([], Some err)
      | (schedulerMetrics, None) \<Rightarrow>
     (case sl_subtract schedulerMetrics (sl_initialLatency s) of
        None \<Rightarrow> None
      | Some schedulerMetrics \<Rightarrow>
     (case setQuantiles env schedulerMetrics of
        None \<Rightarrow> None
      | Some (_, Some err) \<Rightarrow> Some ([], Some err)
      | Some (result, None) \<Rightarrow>
     (case qe_pretty env result of
        Inl err \<Rightarrow> Some ([], Some err)
      | Inr content \<Rightarrow> Some ([CreateSummary (se_now env) ''SchedulingMetrics'' ''json'' content], None)))))"

definition sl_Execute ::
  "sched_env \<Rightarrow> MeasurementConfig \<Rightarrow> schedulerLatencyMeasurement \<Rightarrow>
   ((genericSummary list \<times> goerr option) \<times> schedulerLatencyMeasurement) option" where
  "sl_Execute env config s =
     (case se_nodes env of
        Inl err \<Rightarrow> Some (([], Some err), s)
      | Inr nodes \<Rightarrow>
     (let masterRegistered = list_ex IsControlPlaneNode nodes
      in if fe_SchedulerInsecurePortDisabled (se_features env) \<or> \<not> fe_SupportSSHToMaster (se_features env) \<and> \<not> masterRegistered
         then Some (([], None), s)
         else
     (case getString (mc_Params config) ''action'' of
        Inl err \<Rightarrow> Some (([], Some err), s)
      | Inr action \<Rightarrow>
     (case GetStringOrDefault (mc_Params config) ''masterIP'' (GetMasterIP (se_cluster env)) of
        Inl err \<Rightarrow> Some (([], Some err), s)
      | Inr masterIP \<Rightarrow>
     (case GetStringOrDefault (mc_Params config) ''masterName'' (cc_MasterName (se_cluster env)) of
        Inl err \<Rightarrow> Some (([], Some err), s)
      | Inr masterName \<Rightarrow>
          if action = ''reset'' \<or> action = ''start''
          then (case getSchedulingInitialLatency env masterIP masterName masterRegistered s of (err, s') \<Rightarrow> Some (([], err), s'))
          else if action = ''gather''
          then map_option (\<lambda>r. (r, s)) (getSchedulingLatency env masterIP masterName masterRegistered s)
          else Some (([], Some (Errorf (''unknown action '' @ action) [])), s))))))"

section \<open>The queries to Prometheus\<close>

definition queryHistogram :: "executor \<Rightarrow> string \<Rightarrow> gotime \<Rightarrow> string \<Rightarrow> string \<Rightarrow> goerr + Histogram" where
  "queryHistogram executor promWindow endTime metric labelFilter =
     (let query = (if labelFilter \<noteq> []
                   then ''sum(increase('' @ metric @ ''{'' @ labelFilter @ ''}['' @ promWindow @ ''])) by (le)''
                   else ''sum(increase('' @ metric @ ''['' @ promWindow @ ''])) by (le)'')
      in case executor query endTime of
           Inl err \<Rightarrow> Inl (Errorf (''failed to execute query '' @ CHR 0x22 # query @ CHR 0x22 # '': '' @ err_msg err) [err])
         | Inr samples \<Rightarrow> Inr (fold ConvertSampleToHistogram samples (NewHistogram [])))"

definition point_label :: "string \<Rightarrow> string" where
  "point_label ep = ''extension_point='' @ CHR 0x22 # ep @ [CHR 0x22]"

fun query_points ::
  "executor \<Rightarrow> string \<Rightarrow> gotime \<Rightarrow> string list \<Rightarrow> (string, Histogram option) gomap \<Rightarrow> goerr list \<Rightarrow>
   (string, Histogram option) gomap \<times> goerr list" where
  "query_points executor promWindow endTime [] hists errList = (hists, errList)"
| "query_points executor promWindow endTime (ep # eps) hists errList =
     (case queryHistogram executor promWindow endTime frameworkExtensionPointDurationMetricName (point_label ep) of
        Inl err \<Rightarrow> query_points executor promWindow endTime eps hists (errList @ [err])
      | Inr h \<Rightarrow> query_points executor promWindow endTime eps (AList.update ep (Some h) hists) errList)"

definition prom_metrics :: "executor \<Rightarrow> gotime \<Rightarrow> gotime \<Rightarrow> schedulerLatencyMetrics \<times> goerr list" where
  "prom_metrics executor startTime endTime =
     (let promWindow = ToPrometheusTime (time_Sub endTime startTime);
          metrics = no_metrics;
          (metrics, errList) =
            (case queryHistogram executor promWindow endTime e2eSchedulingDurationMetricName [] of
               Inl err \<Rightarrow> (metrics, [err]) | Inr h \<Rightarrow> (metrics\<lparr>sl_e2eSchedulingDurationHist := Some h\<rparr>, []));
          (metrics, errList) =
            (case queryHistogram executor promWindow endTime schedulingAlgorithmDurationMetricName [] of
               Inl err \<Rightarrow> (metrics, errList @ [err]) | Inr h \<Rightarrow> (metrics\<lparr>sl_schedulingAlgorithmDurationHist := Some h\<rparr>, errList));
          (metrics, errList) =
            (case queryHistogram executor promWindow endTime preemptionEvaluationMetricName [] of
               Inl err \<Rightarrow> (metrics, errList @ [err]) | Inr h \<Rightarrow> (metrics\<lparr>sl_preemptionEvaluationHist := Some h\<rparr>, errList));
          (points, errList) =
            query_points executor promWindow endTime extentionsPoints (sl_frameworkExtensionPointDurationHist metrics) errList
      in (metrics\<lparr>sl_frameworkExtensionPointDurationHist := points\<rparr>, errList))"

definition prom_sl_Gather ::
  "'x quantile_env_scheme \<Rightarrow> gotime \<Rightarrow> executor \<Rightarrow> gotime \<Rightarrow> gotime \<Rightarrow> MeasurementConfig \<Rightarrow> unit \<Rightarrow>
   (genericSummary list \<times> goerr option) option" where
  "prom_sl_Gather env now executor startTime endTime config _ =
     (case prom_metrics executor startTime endTime of
        (metrics, errList) \<Rightarrow>
          if 0 < length errList
          then Some ([], Some (Errorf (''prometheus scheduler latency gathering errors: '' @ show_errs errList) []))
          else
            (case setQuantiles env metrics of
               None \<Rightarrow> None
             | Some (_, Some err) \<Rightarrow> Some ([], Some (Errorf (''failed to compute quantiles: '' @ err_msg err) [err]))
             | Some (result, None) \<Rightarrow>
                 (case qe_pretty env result of
                    Inl err \<Rightarrow> Some ([], Some err)
                  | Inr content \<Rightarrow>
                      Some ([CreateSummary now (mc_Identifier config @ ''_'' @ ''PrometheusSchedulingMetrics'') ''json'' content], None))))"

definition prometheusSchedulerLatencyGatherer :: "'x quantile_env_scheme \<Rightarrow> gotime \<Rightarrow> unit Gatherer" where
  "prometheusSchedulerLatencyGatherer env now =
     \<lparr>ga_Configure = (\<lambda>_ g. (None, g)), ga_Gather = prom_sl_Gather env now, ga_IsEnabled = (\<lambda>_. True),
      ga_String = ''PrometheusSchedulingMetrics''\<rparr>"


section \<open>One histogram at a time\<close>

text \<open>The histograms by what they measure, and the histogram that a sample belongs to.\<close>

datatype hist_key = E2e | Algorithm | Preemption | Point string

fun hist_at :: "schedulerLatencyMetrics \<Rightarrow> hist_key \<Rightarrow> Histogram option" where
  "hist_at m E2e = sl_e2eSchedulingDurationHist m"
| "hist_at m Algorithm = sl_schedulingAlgorithmDurationHist m"
| "hist_at m Preemption = sl_preemptionEvaluationHist m"
| "hist_at m (Point ep) = point_hist (sl_frameworkExtensionPointDurationHist m) ep"

definition hist_keys :: "hist_key list" where
  "hist_keys = [E2e, Algorithm, Preemption] @ map Point extentionsPoints"

definition sample_key :: "sample \<Rightarrow> hist_key option" where
  "sample_key s =
     (let name = label s ''__name__''
      in if name = e2eSchedulingDurationMetricName then Some E2e
         else if name = schedulingAlgorithmDurationMetricName then Some Algorithm
         else if name = frameworkExtensionPointDurationMetricName then Some (Point (label s ''extension_point''))
         else if name = preemptionEvaluationMetricName then Some Preemption
         else None)"

text \<open>What the samples of a histogram add up to, for one bound.\<close>

definition amount :: "sample list \<Rightarrow> string \<Rightarrow> int" where
  "amount samples le = (\<Sum>s\<leftarrow>filter (\<lambda>s. le_of s = le) samples. trunc_rat (sm_Value s))"

definition of_key :: "hist_key \<Rightarrow> sample list \<Rightarrow> sample list" where
  "of_key key samples = filter (\<lambda>s. sample_key s = Some key) samples"

lemma metric_names_differ:
  "e2eSchedulingDurationMetricName \<noteq> schedulingAlgorithmDurationMetricName"
  "e2eSchedulingDurationMetricName \<noteq> frameworkExtensionPointDurationMetricName"
  "e2eSchedulingDurationMetricName \<noteq> preemptionEvaluationMetricName"
  "schedulingAlgorithmDurationMetricName \<noteq> frameworkExtensionPointDurationMetricName"
  "schedulingAlgorithmDurationMetricName \<noteq> preemptionEvaluationMetricName"
  "frameworkExtensionPointDurationMetricName \<noteq> preemptionEvaluationMetricName"
  by (simp_all add: e2eSchedulingDurationMetricName_def schedulingAlgorithmDurationMetricName_def
      frameworkExtensionPointDurationMetricName_def preemptionEvaluationMetricName_def)

lemma hist_at_collect:
  "hist_at (collect_sample s m) key =
     (if sample_key s = Some key then map_option (ConvertSampleToHistogram s) (hist_at m key) else hist_at m key)"
  by (cases key) (auto simp: collect_sample_def sample_key_def point_hist_def Let_def go_map metric_names_differ split: option.splits)

lemma hist_at_fold_collect:
  "hist_at (fold collect_sample ss m) key = map_option (fold ConvertSampleToHistogram (of_key key ss)) (hist_at m key)"
  by (induction ss arbitrary: m) (auto simp: of_key_def hist_at_collect option.map_comp o_def option.map_ident option.map_id)

lemma hist_at_no_metrics: "key \<in> set hist_keys \<Longrightarrow> hist_at no_metrics key = Some (NewHistogram [])"
  by (auto simp: hist_keys_def no_metrics_def point_hist_def map_of_map_restrict)

lemma bucket_count_convert:
  "bucket_count (ConvertSampleToHistogram s h) le =
     (if le = le_of s then wrap 64 (bucket_count h le + trunc_rat (sm_Value s)) else bucket_count h le)"
proof -
  have "bucket_count (h\<lparr>hi_Labels := x\<rparr>) le = bucket_count h le" for x le by (simp add: bucket_count_def)
  then show ?thesis by (simp add: ConvertSampleToHistogram_def bucket_count_add)
qed

lemma bucket_count_fold_convert:
  "wrap 64 (bucket_count h le) = bucket_count h le \<Longrightarrow>
   bucket_count (fold ConvertSampleToHistogram ss h) le = wrap 64 (bucket_count h le + amount ss le)"
proof (induction ss arbitrary: h)
  case (Cons s ss)
  have "wrap 64 (bucket_count (ConvertSampleToHistogram s h) le) = bucket_count (ConvertSampleToHistogram s h) le"
    using Cons.prems wrap_wrap_add[of 64 _ 0] by (simp add: bucket_count_convert)
  from Cons.IH[OF this] show ?case
    by (auto simp: bucket_count_convert wrap_wrap_add add.assoc amount_def)
qed (simp add: amount_def)

lemma buckets_fold_convert:
  "gomap_ok (hi_Buckets h) \<Longrightarrow>
   gomap_ok (hi_Buckets (fold ConvertSampleToHistogram ss h)) \<and>
   fst ` set (hi_Buckets (fold ConvertSampleToHistogram ss h)) = fst ` set (hi_Buckets h) \<union> le_of ` set ss"
proof (induction ss arbitrary: h)
  case (Cons s ss)
  have "hi_Buckets (ConvertSampleToHistogram s h) =
      AList.update (le_of s) (wrap 64 (bucket_count h (le_of s) + trunc_rat (sm_Value s))) (hi_Buckets h)"
    by (simp add: ConvertSampleToHistogram_def add_to_bucket_def le_of_def bucket_count_def Let_def)
  with Cons show ?case by (auto simp: dom_update distinct_update)
qed simp

text \<open>A histogram that holds exactly the given counts, for exactly the bounds of the samples.\<close>

definition holds :: "Histogram \<Rightarrow> string set \<Rightarrow> (string \<Rightarrow> int) \<Rightarrow> bool" where
  "holds h bounds counts \<longleftrightarrow> gomap_ok (hi_Buckets h) \<and> fst ` set (hi_Buckets h) = bounds \<and>
     (\<forall>le \<in> bounds. bucket_count h le = wrap 64 (counts le))"

lemma holds_samples: "holds (fold ConvertSampleToHistogram ss (NewHistogram ls)) (le_of ` set ss) (amount ss)"
proof -
  have z: "bucket_count (NewHistogram ls) le = 0" "gomap_ok (hi_Buckets (NewHistogram ls))" "hi_Buckets (NewHistogram ls) = []" for le
    by (simp_all add: bucket_count_def NewHistogram_def)
  show ?thesis
    using buckets_fold_convert[OF z(2), of ss] bucket_count_fold_convert[of "NewHistogram ls" _ ss]
    by (auto simp: holds_def z wrap_def)
qed

lemma holds_sub:
  assumes "holds f bounds cf" "\<And>le. bucket_count i le = wrap 64 (ci le)"
  shows "holds (HistogramSub f i) bounds (\<lambda>le. cf le - ci le)"
proof -
  let ?g = "\<lambda>(k, v). (k, wrap 64 (v - (case map_of (hi_Buckets i) k of None \<Rightarrow> 0 | Some n \<Rightarrow> n)))"
  have at: "map_of (map ?g bs) le = map_option (\<lambda>v. wrap 64 (v - bucket_count i le)) (map_of bs le)" for bs le
    by (induction bs) (auto simp: bucket_count_def)
  have w: "wrap 64 (wrap 64 a - wrap 64 b) = wrap 64 (a - b)" for a b
    unfolding wrap_def by (simp add: algebra_simps mod_simps)
  have "bucket_count (HistogramSub f i) le = wrap 64 (cf le - ci le)" if "le \<in> bounds" for le
  proof -
    have c: "bucket_count f le = wrap 64 (cf le)" "le \<in> fst ` set (hi_Buckets f)" using that assms(1) by (simp_all add: holds_def)
    then obtain v where v: "map_of (hi_Buckets f) le = Some v" by (metis map_of_eq_None_iff not_None_eq)
    with c(1) have "v = wrap 64 (cf le)" by (simp add: bucket_count_def)
    note v = v this
    have "bucket_count (HistogramSub f i) le = wrap 64 (wrap 64 (cf le) - wrap 64 (ci le))"
      using v assms(2)[of le] unfolding bucket_count_def[of "HistogramSub f i"] by (simp add: HistogramSub_def at)
    then show ?thesis by (simp add: w)
  qed
  moreover have "map fst (hi_Buckets (HistogramSub f i)) = map fst (hi_Buckets f)" by (simp add: HistogramSub_def split_beta)
  moreover from this have "fst ` set (hi_Buckets (HistogramSub f i)) = fst ` set (hi_Buckets f)" by (metis list.set_map)
  ultimately show ?thesis using assms(1) unfolding holds_def by (intro conjI ballI; simp only:)
qed

lemma subtract_points_at:
  assumes "distinct eps" "\<And>ep. ep \<in> set eps \<Longrightarrow> point_hist m ep \<noteq> None"
  shows "\<exists>r. subtract_points sub eps m = Some r \<and>
    (\<forall>ep. point_hist r ep = (case point_hist sub ep of None \<Rightarrow> point_hist m ep
       | Some s \<Rightarrow> if ep \<in> set eps then map_option (\<lambda>h. HistogramSub h s) (point_hist m ep) else point_hist m ep))"
  using assms
proof (induction eps arbitrary: m)
  case (Cons ep eps)
  show ?case
  proof (cases "point_hist sub ep")
    case None
    from Cons.IH[of m] Cons.prems obtain r where r: "subtract_points sub eps m = Some r"
      "\<forall>e. point_hist r e = (case point_hist sub e of None \<Rightarrow> point_hist m e
         | Some s \<Rightarrow> if e \<in> set eps then map_option (\<lambda>h. HistogramSub h s) (point_hist m e) else point_hist m e)" by auto
    show ?thesis by (rule exI[of _ r]) (use r None in \<open>auto split: option.splits\<close>)
  next
    case (Some s)
    obtain h where h: "point_hist m ep = Some h" using Cons.prems(2)[of ep] by auto
    let ?m = "AList.update ep (Some (HistogramSub h s)) m"
    have at: "point_hist ?m e = (if e = ep then Some (HistogramSub h s) else point_hist m e)" for e
      by (simp add: point_hist_def go_map)
    have "\<exists>r. subtract_points sub eps ?m = Some r \<and>
      (\<forall>e. point_hist r e = (case point_hist sub e of None \<Rightarrow> point_hist ?m e
       | Some s \<Rightarrow> if e \<in> set eps then map_option (\<lambda>h. HistogramSub h s) (point_hist ?m e) else point_hist ?m e))"
      by (rule Cons.IH) (use Cons.prems at in auto)
    then obtain r where r: "subtract_points sub eps ?m = Some r"
      "\<And>e. point_hist r e = (case point_hist sub e of None \<Rightarrow> point_hist ?m e
       | Some s \<Rightarrow> if e \<in> set eps then map_option (\<lambda>h. HistogramSub h s) (point_hist ?m e) else point_hist ?m e)" by blast
    have "subtract_points sub (ep # eps) m = Some r" using Some h r(1) by (simp add: sub_hist_def)
    moreover have "point_hist r e = (case point_hist sub e of None \<Rightarrow> point_hist m e
       | Some s \<Rightarrow> if e \<in> set (ep # eps) then map_option (\<lambda>h. HistogramSub h s) (point_hist m e) else point_hist m e)" for e
      using Some h at[of e] Cons.prems(1) unfolding r(2)[of e] by (cases "e = ep") (auto split: option.splits)
    ultimately show ?thesis by blast
  qed
qed (auto split: option.splits)

lemma sl_subtract_at:
  assumes "\<And>key. key \<in> set hist_keys \<Longrightarrow> hist_at m key \<noteq> None"
  shows "\<exists>r. sl_subtract m sub = Some r \<and> (\<forall>key \<in> set hist_keys.
    hist_at r key = (case hist_at sub key of None \<Rightarrow> hist_at m key | Some s \<Rightarrow> map_option (\<lambda>h. HistogramSub h s) (hist_at m key)))"
proof -
  have "distinct extentionsPoints" by (simp add: extentionsPoints_def)
  moreover have "point_hist (sl_frameworkExtensionPointDurationHist m) ep \<noteq> None" if "ep \<in> set extentionsPoints" for ep
    using assms[of "Point ep"] that by (simp add: hist_keys_def)
  ultimately obtain ps where ps: "subtract_points (sl_frameworkExtensionPointDurationHist sub) extentionsPoints (sl_frameworkExtensionPointDurationHist m) = Some ps"
    "\<And>ep. point_hist ps ep = (case point_hist (sl_frameworkExtensionPointDurationHist sub) ep of None \<Rightarrow> point_hist (sl_frameworkExtensionPointDurationHist m) ep
       | Some s \<Rightarrow> if ep \<in> set extentionsPoints then map_option (\<lambda>h. HistogramSub h s) (point_hist (sl_frameworkExtensionPointDurationHist m) ep)
          else point_hist (sl_frameworkExtensionPointDurationHist m) ep)"
    using subtract_points_at[of extentionsPoints "sl_frameworkExtensionPointDurationHist m"] by blast
  have one: "\<exists>r. sub_hist h s = Some r \<and> r = (case s of None \<Rightarrow> h | Some s \<Rightarrow> map_option (\<lambda>h. HistogramSub h s) h)"
    if "h \<noteq> None" for h s using that by (auto simp: sub_hist_def split: option.splits)
  have "sl_e2eSchedulingDurationHist m \<noteq> None" "sl_schedulingAlgorithmDurationHist m \<noteq> None" "sl_preemptionEvaluationHist m \<noteq> None"
    using assms[of E2e] assms[of Algorithm] assms[of Preemption] by (simp_all add: hist_keys_def)
  then show ?thesis
    using one[of "sl_e2eSchedulingDurationHist m" "sl_e2eSchedulingDurationHist sub"]
      one[of "sl_schedulingAlgorithmDurationHist m" "sl_schedulingAlgorithmDurationHist sub"]
      one[of "sl_preemptionEvaluationHist m" "sl_preemptionEvaluationHist sub"]
    by (auto simp: sl_subtract_def hist_keys_def ps split: option.splits)
qed

text \<open>Subtracting an earlier scrape leaves what was added since.\<close>

lemma increase_of_scrapes:
  "\<exists>m. sl_subtract (fold collect_sample B no_metrics) (fold collect_sample A no_metrics) = Some m \<and>
     (\<forall>key \<in> set hist_keys. \<exists>h. hist_at m key = Some h \<and>
        holds h (le_of ` set (of_key key B)) (\<lambda>le. amount (of_key key B) le - amount (of_key key A) le))"
proof -
  have at: "hist_at (fold collect_sample ss no_metrics) key = Some (fold ConvertSampleToHistogram (of_key key ss) (NewHistogram []))"
    if "key \<in> set hist_keys" for key ss using that by (simp add: hist_at_fold_collect hist_at_no_metrics)
  have "\<exists>m. sl_subtract (fold collect_sample B no_metrics) (fold collect_sample A no_metrics) = Some m \<and> (\<forall>key \<in> set hist_keys.
    hist_at m key = (case hist_at (fold collect_sample A no_metrics) key of None \<Rightarrow> hist_at (fold collect_sample B no_metrics) key
      | Some s \<Rightarrow> map_option (\<lambda>h. HistogramSub h s) (hist_at (fold collect_sample B no_metrics) key)))"
    by (rule sl_subtract_at) (simp add: at)
  then obtain m where m: "sl_subtract (fold collect_sample B no_metrics) (fold collect_sample A no_metrics) = Some m"
    "\<And>key. key \<in> set hist_keys \<Longrightarrow> hist_at m key = Some (HistogramSub (fold ConvertSampleToHistogram (of_key key B) (NewHistogram []))
        (fold ConvertSampleToHistogram (of_key key A) (NewHistogram [])))"
    by (auto simp: at)
  have "bucket_count (fold ConvertSampleToHistogram ss (NewHistogram [])) le = wrap 64 (amount ss le)" for ss le
    using bucket_count_fold_convert[of "NewHistogram []" le ss] by (simp add: bucket_count_def NewHistogram_def wrap_def)
  then have "holds (HistogramSub (fold ConvertSampleToHistogram (of_key key B) (NewHistogram []))
        (fold ConvertSampleToHistogram (of_key key A) (NewHistogram [])))
      (le_of ` set (of_key key B)) (\<lambda>le. amount (of_key key B) le - amount (of_key key A) le)" for key
    by (intro holds_sub holds_samples)
  with m show ?thesis by blast
qed

section \<open>Quantiles depend on the counts only\<close>

lemma buckets_loop_total:
  "(\<And>k. k \<in> fst ` set bs \<Longrightarrow> pf k = Inr (u k)) \<Longrightarrow>
   buckets_loop pf bs acc = Inr (acc @ map (\<lambda>(k, v). (u k, nat (v mod 2 ^ 64))) bs)"
  by (induction bs arbitrary: acc) auto

lemma Histogram_Quantile_holds:
  assumes "holds h bounds counts" "holds h' bounds counts"
    and pf: "\<And>k. k \<in> bounds \<Longrightarrow> pf k = Inr (u k)" and "inj_on u bounds"
  shows "Histogram_Quantile pf qf h q = Histogram_Quantile pf qf h' q" "\<exists>x. Histogram_Quantile pf qf h q = Inr x"
proof -
  let ?b = "hi_Buckets h" and ?b' = "hi_Buckets h'" and ?f = "\<lambda>(k, v). (u k, nat (v mod 2 ^ 64))"
  have ok: "gomap_ok ?b" "gomap_ok ?b'" "fst ` set ?b = bounds" "fst ` set ?b' = bounds" using assms by (simp_all add: holds_def)
  have "map_of ?b le = map_of ?b' le" for le
  proof (cases "le \<in> bounds")
    case True
    then obtain v v' where v: "map_of ?b le = Some v" "map_of ?b' le = Some v'" using ok(3,4) by (metis map_of_eq_None_iff not_None_eq)
    have "bucket_count h le = bucket_count h' le" using True assms(1,2) by (simp add: holds_def)
    with v show ?thesis by (simp add: bucket_count_def[of h] bucket_count_def[of h'] del: map_of_eq_Some_iff)
  next
    case False
    then show ?thesis using ok(3,4) by (metis map_of_eq_None_iff)
  qed
  then have "set ?b = set ?b'" using map_of_inject_set[OF ok(1,2)] by blast
  then have m: "mset ?b = mset ?b'" using ok(1,2) by (simp add: distinct_map set_eq_iff_mset_eq_distinct)
  have inj: "inj_on fst (set (map ?f ?b))"
  proof (rule inj_onI)
    fix x y assume "x \<in> set (map ?f ?b)" "y \<in> set (map ?f ?b)" "fst x = fst y"
    then obtain k v k' v' where kv: "(k, v) \<in> set ?b" "(k', v') \<in> set ?b" "x = ?f (k, v)" "y = ?f (k', v')" "u k = u k'" by auto
    then have "k = k'" using assms(4) ok(3) by (metis fst_conv image_eqI inj_onD)
    with kv ok(1) have "v = v'" by (metis map_of_is_SomeI option.inject)
    with \<open>k = k'\<close> kv show "x = y" by simp
  qed
  have loops: "buckets_loop pf ?b [] = Inr (map ?f ?b)" "buckets_loop pf ?b' [] = Inr (map ?f ?b')"
    using buckets_loop_total[of ?b pf u "[]"] buckets_loop_total[of ?b' pf u "[]"] pf ok(3,4) by auto
  have "sort_key fst (map ?f ?b) = sort_key fst (map ?f ?b')"
    by (rule sort_key_inj_key_eq[OF _ inj]) (simp_all add: m)
  then show "Histogram_Quantile pf qf h q = Histogram_Quantile pf qf h' q" "\<exists>x. Histogram_Quantile pf qf h q = Inr x"
    by (simp_all add: Histogram_Quantile_def loops Let_def)
qed

lemma set_quantile_loop_total:
  "(\<And>q. \<exists>x. Histogram_Quantile (qe_parseFloat env) (qe_quantile env) h q = Inr x) \<Longrightarrow> snd (set_quantile_loop env qs h m) = None"
proof (induction qs arbitrary: m)
  case (Cons q qs)
  then obtain x where "Histogram_Quantile (qe_parseFloat env) (qe_quantile env) h (Fin q) = Inr x" by blast
  with Cons show ?case by simp
qed simp

lemma set_quantile_loop_cong:
  "(\<And>q. Histogram_Quantile (qe_parseFloat env) (qe_quantile env) h q = Histogram_Quantile (qe_parseFloat env) (qe_quantile env) h' q) \<Longrightarrow>
   set_quantile_loop env qs h m = set_quantile_loop env qs h' m"
  by (induction qs arbitrary: m) (auto split: sum.splits)

text \<open>The bounds can be read as numbers, different ones as different numbers.\<close>

definition bounds_ok :: "'x quantile_env_scheme \<Rightarrow> string set \<Rightarrow> bool" where
  "bounds_ok env bounds \<longleftrightarrow> (\<exists>u. (\<forall>k \<in> bounds. qe_parseFloat env k = Inr (u k)) \<and> inj_on u bounds)"

lemma quantiles_of_holds:
  assumes "holds h bounds counts" "holds h' bounds counts" "bounds_ok env bounds"
  shows "quantiles_of env (Some h) = quantiles_of env (Some h')" "\<exists>m. quantiles_of env (Some h) = Some (m, None)"
proof -
  from assms(3) obtain u where u: "\<And>k. k \<in> bounds \<Longrightarrow> qe_parseFloat env k = Inr (u k)" "inj_on u bounds" by (auto simp: bounds_ok_def)
  note q = Histogram_Quantile_holds[OF assms(1,2) u]
  show "quantiles_of env (Some h) = quantiles_of env (Some h')"
    unfolding quantiles_of_def SetQuantileFromHistogram_def option.map by (rule arg_cong[where f = Some], rule set_quantile_loop_cong, rule q(1))
  have "snd (SetQuantileFromHistogram env zero_metric h) = None"
    unfolding SetQuantileFromHistogram_def by (rule set_quantile_loop_total) (rule q(2))
  then show "\<exists>m. quantiles_of env (Some h) = Some (m, None)"
    by (auto simp: quantiles_of_def) (metis prod.collapse)
qed

lemma set_points_loop_total:
  "(\<And>ep. ep \<in> set eps \<Longrightarrow> \<exists>m. quantiles_of env (point_hist hists ep) = Some (m, None)) \<Longrightarrow>
   \<exists>r'. set_points_loop env hists eps r = Some (r', None)"
proof (induction eps arbitrary: r)
  case (Cons ep eps)
  from Cons.prems[of ep] obtain m where "quantiles_of env (point_hist hists ep) = Some (m, None)" by auto
  then show ?case using Cons by simp
qed simp

lemma set_points_loop_cong:
  "(\<And>ep. ep \<in> set eps \<Longrightarrow> quantiles_of env (point_hist hists ep) = quantiles_of env (point_hist hists' ep)) \<Longrightarrow>
   set_points_loop env hists eps r = set_points_loop env hists' eps r"
  by (induction eps arbitrary: r) (auto split: option.splits prod.splits)

lemma setQuantiles_total:
  assumes "\<And>key. key \<in> set hist_keys \<Longrightarrow> \<exists>m. quantiles_of env (hist_at metrics key) = Some (m, None)"
  shows "\<exists>result. setQuantiles env metrics = Some (result, None)"
proof -
  obtain a b c where abc: "quantiles_of env (sl_e2eSchedulingDurationHist metrics) = Some (a, None)"
    "quantiles_of env (sl_schedulingAlgorithmDurationHist metrics) = Some (b, None)"
    "quantiles_of env (sl_preemptionEvaluationHist metrics) = Some (c, None)"
    using assms[of E2e] assms[of Algorithm] assms[of Preemption] by (auto simp: hist_keys_def)
  have "\<exists>m. quantiles_of env (point_hist (sl_frameworkExtensionPointDurationHist metrics) ep) = Some (m, None)" if "ep \<in> set extentionsPoints" for ep
    using assms[of "Point ep"] that by (simp add: hist_keys_def)
  from set_points_loop_total[OF this] obtain r where
    "set_points_loop env (sl_frameworkExtensionPointDurationHist metrics) extentionsPoints (map (\<lambda>ep. (ep, zero_metric)) extentionsPoints) = Some (r, None)"
    by blast
  with abc show ?thesis by (simp add: setQuantiles_def)
qed

lemma setQuantiles_cong:
  assumes "\<And>key. key \<in> set hist_keys \<Longrightarrow> quantiles_of env (hist_at metrics key) = quantiles_of env (hist_at metrics' key)"
  shows "setQuantiles env metrics = setQuantiles env metrics'"
proof -
  have "quantiles_of env (sl_e2eSchedulingDurationHist metrics) = quantiles_of env (sl_e2eSchedulingDurationHist metrics')"
    "quantiles_of env (sl_schedulingAlgorithmDurationHist metrics) = quantiles_of env (sl_schedulingAlgorithmDurationHist metrics')"
    "quantiles_of env (sl_preemptionEvaluationHist metrics) = quantiles_of env (sl_preemptionEvaluationHist metrics')"
    using assms[of E2e] assms[of Algorithm] assms[of Preemption] by (simp_all add: hist_keys_def)
  moreover have "set_points_loop env (sl_frameworkExtensionPointDurationHist metrics) extentionsPoints r =
      set_points_loop env (sl_frameworkExtensionPointDurationHist metrics') extentionsPoints r" for r
    by (rule set_points_loop_cong) (use assms[of "Point _"] in \<open>simp add: hist_keys_def\<close>)
  ultimately show ?thesis by (simp only: setQuantiles_def)
qed

section \<open>What is reported\<close>

text \<open>
  An execution of an action reaches the scheduler and obtains samples: the cluster allows it, the
  parameters are right, and the scrape and its decoding succeed.
\<close>

definition reaches :: "sched_env \<Rightarrow> MeasurementConfig \<Rightarrow> string \<Rightarrow> sample list \<Rightarrow> bool" where
  "reaches env config action samples \<longleftrightarrow>
     (\<exists>nodes masterIP masterName. se_nodes env = Inr nodes \<and> \<not> fe_SchedulerInsecurePortDisabled (se_features env) \<and>
        (fe_SupportSSHToMaster (se_features env) \<or> list_ex IsControlPlaneNode nodes) \<and>
        getString (mc_Params config) ''action'' = Inr action \<and>
        GetStringOrDefault (mc_Params config) ''masterIP'' (GetMasterIP (se_cluster env)) = Inr masterIP \<and>
        GetStringOrDefault (mc_Params config) ''masterName'' (cc_MasterName (se_cluster env)) = Inr masterName \<and>
        scheduler_samples env masterIP masterName (list_ex IsControlPlaneNode nodes) = Inr samples)"

lemma sl_Execute_start:
  assumes "reaches env c action A" "action = ''start'' \<or> action = ''reset''"
  shows "sl_Execute env c s = Some (([], None), s\<lparr>sl_initialLatency := fold collect_sample A no_metrics\<rparr>)"
proof -
  obtain nodes ip name where "se_nodes env = Inr nodes" "\<not> fe_SchedulerInsecurePortDisabled (se_features env)"
    "fe_SupportSSHToMaster (se_features env) \<or> list_ex IsControlPlaneNode nodes" "getString (mc_Params c) ''action'' = Inr action"
    "GetStringOrDefault (mc_Params c) ''masterIP'' (GetMasterIP (se_cluster env)) = Inr ip"
    "GetStringOrDefault (mc_Params c) ''masterName'' (cc_MasterName (se_cluster env)) = Inr name"
    "scheduler_samples env ip name (list_ex IsControlPlaneNode nodes) = Inr A"
    using assms(1) unfolding reaches_def by blast
  with assms(2) show ?thesis
    by (auto simp: sl_Execute_def Let_def getSchedulingInitialLatency_def getSchedulingMetrics_def)
qed

lemma sl_Execute_gather:
  assumes "reaches env c ''gather'' B"
    and sub: "sl_subtract (fold collect_sample B no_metrics) (sl_initialLatency s) = Some m"
    and q: "setQuantiles env m = Some (result, None)" and "qe_pretty env result = Inr content"
  shows "sl_Execute env c s = Some (([CreateSummary (se_now env) ''SchedulingMetrics'' ''json'' content], None), s)"
proof -
  obtain nodes ip name where "se_nodes env = Inr nodes" "\<not> fe_SchedulerInsecurePortDisabled (se_features env)"
    "fe_SupportSSHToMaster (se_features env) \<or> list_ex IsControlPlaneNode nodes" "getString (mc_Params c) ''action'' = Inr ''gather''"
    "GetStringOrDefault (mc_Params c) ''masterIP'' (GetMasterIP (se_cluster env)) = Inr ip"
    "GetStringOrDefault (mc_Params c) ''masterName'' (cc_MasterName (se_cluster env)) = Inr name"
    "scheduler_samples env ip name (list_ex IsControlPlaneNode nodes) = Inr B"
    using assms(1) unfolding reaches_def by blast
  with assms(2-4) show ?thesis
    by (auto simp: sl_Execute_def Let_def getSchedulingLatency_def getSchedulingMetrics_def)
qed

text \<open>The samples that the queries for one histogram return.\<close>

fun key_query :: "string \<Rightarrow> hist_key \<Rightarrow> string" where
  "key_query w E2e = ''sum(increase('' @ e2eSchedulingDurationMetricName @ ''['' @ w @ ''])) by (le)''"
| "key_query w Algorithm = ''sum(increase('' @ schedulingAlgorithmDurationMetricName @ ''['' @ w @ ''])) by (le)''"
| "key_query w Preemption = ''sum(increase('' @ preemptionEvaluationMetricName @ ''['' @ w @ ''])) by (le)''"
| "key_query w (Point ep) = ''sum(increase('' @ frameworkExtensionPointDurationMetricName @ ''{'' @ point_label ep @ ''}['' @ w @ ''])) by (le)''"

definition answers :: "executor \<Rightarrow> gotime \<Rightarrow> gotime \<Rightarrow> (hist_key \<Rightarrow> sample list) \<Rightarrow> bool" where
  "answers ex startTime endTime Q \<longleftrightarrow>
     (\<forall>key \<in> set hist_keys. ex (key_query (ToPrometheusTime (time_Sub endTime startTime)) key) endTime = Inr (Q key))"

lemma query_points_at:
  assumes "\<And>ep. ep \<in> set eps \<Longrightarrow> queryHistogram ex w t frameworkExtensionPointDurationMetricName (point_label ep) = Inr (H ep)"
  shows "snd (query_points ex w t eps hists errs) = errs \<and>
    (\<forall>ep. point_hist (fst (query_points ex w t eps hists errs)) ep = (if ep \<in> set eps then Some (H ep) else point_hist hists ep))"
  using assms
  by (induction eps arbitrary: hists) (auto simp: point_hist_def go_map)

lemma prom_metrics_at:
  assumes "answers ex startTime endTime Q"
  shows "\<exists>m. prom_metrics ex startTime endTime = (m, []) \<and>
    (\<forall>key \<in> set hist_keys. hist_at m key = Some (fold ConvertSampleToHistogram (Q key) (NewHistogram [])))"
proof -
  let ?w = "ToPrometheusTime (time_Sub endTime startTime)" and ?h = "\<lambda>key. fold ConvertSampleToHistogram (Q key) (NewHistogram [])"
  have a: "ex (key_query ?w key) endTime = Inr (Q key)" if "key \<in> set hist_keys" for key using assms that by (simp add: answers_def)
  have q: "queryHistogram ex ?w endTime e2eSchedulingDurationMetricName [] = Inr (?h E2e)"
    "queryHistogram ex ?w endTime schedulingAlgorithmDurationMetricName [] = Inr (?h Algorithm)"
    "queryHistogram ex ?w endTime preemptionEvaluationMetricName [] = Inr (?h Preemption)"
    using a[of E2e] a[of Algorithm] a[of Preemption] by (simp_all add: queryHistogram_def hist_keys_def)
  have p: "queryHistogram ex ?w endTime frameworkExtensionPointDurationMetricName (point_label ep) = Inr (?h (Point ep))"
    if "ep \<in> set extentionsPoints" for ep
    using a[of "Point ep"] that by (simp add: queryHistogram_def hist_keys_def) (simp add: point_label_def)
  obtain ps errs where ps: "query_points ex ?w endTime extentionsPoints (sl_frameworkExtensionPointDurationHist no_metrics) [] = (ps, errs)"
    by (cases "query_points ex ?w endTime extentionsPoints (sl_frameworkExtensionPointDurationHist no_metrics) []")
  with query_points_at[OF p, of extentionsPoints "sl_frameworkExtensionPointDurationHist no_metrics" "[]"]
  have at: "errs = []" "point_hist ps ep = Some (?h (Point ep))" if "ep \<in> set extentionsPoints" for ep
    using that by simp_all
  have "extentionsPoints \<noteq> []" by (simp add: extentionsPoints_def)
  then have "errs = []" using at(1)[of "hd extentionsPoints"] by simp
  then show ?thesis using q ps at(2) by (auto simp: prom_metrics_def Let_def hist_keys_def)
qed


definition scheduler_sample :: "rat \<Rightarrow> sample" where
  "scheduler_sample v = \<lparr>sm_Metric = [(''__name__'', e2eSchedulingDurationMetricName), (''le'', ''1'')], sm_Value = v\<rparr>"

definition one_sample_env :: "rat \<Rightarrow> sched_env" where
  "one_sample_env v =
     \<lparr>qe_parseFloat = (\<lambda>_. Inr (Fin 1)), qe_quantile = (\<lambda>_ _ q. q), qe_conv = (\<lambda>_. 0), qe_pretty = (\<lambda>_. Inr ''{}''),
      se_features = \<lparr>fe_SupportSSHToMaster = True, fe_SchedulerInsecurePortDisabled = False\<rparr>,
      se_cluster = \<lparr>cc_MasterIPs = [''10.0.0.1''], cc_MasterInternalIPs = [], cc_MasterName = ''master'', cc_EtcdInsecurePort = 2382\<rparr>,
      se_nodes = Inr [], se_rest = (\<lambda>_ _. Inr []), se_ssh = (\<lambda>_ _. ([], [], 0, None)), se_gosyntax = (\<lambda>_. []),
      se_decode = (\<lambda>_. [Inr [scheduler_sample v], Inl None]), se_now = 0\<rparr>"

definition action_config :: "string \<Rightarrow> MeasurementConfig" where
  "action_config action = \<lparr>mc_Params = [(''action'', VString action)], mc_Identifier = ''id'', mc_ClusterVersion = []\<rparr>"

definition one_query :: executor where
  "one_query = (\<lambda>q _. Inr (if hd (drop 23 q) = CHR ''p'' then [scheduler_sample 7] else []))"

lemma one_sample_reaches: "reaches (one_sample_env v) (action_config action) action [scheduler_sample v]"
  by (simp add: reaches_def one_sample_env_def action_config_def GetStringOrDefault_def getString_def or_default_def
      IsErrKeyNotFound_def scheduler_samples_def sendRequestToScheduler_def to_upper_def SSH_def ExtractMetricSamples_def Let_def)

lemma one_sample_key: "of_key key [scheduler_sample v] = (if key = E2e then [scheduler_sample v] else [])"
  by (cases key) (simp_all add: of_key_def scheduler_sample_def sample_key_def label_def)

lemma key_query_E2e: "hd (drop 23 (key_query w key)) = CHR ''p'' \<longleftrightarrow> key = E2e"
  by (cases key) (simp_all add: e2eSchedulingDurationMetricName_def schedulingAlgorithmDurationMetricName_def
      frameworkExtensionPointDurationMetricName_def preemptionEvaluationMetricName_def)


text \<open>The gatherer has no objective: it never reports a violation.\<close>

definition latencies_ready :: "'x quantile_env_scheme \<Rightarrow> executor \<Rightarrow> gotime \<Rightarrow> gotime \<Rightarrow> MeasurementConfig \<Rightarrow> unit \<Rightarrow> bool" where
  "latencies_ready env ex startTime endTime config _ \<longleftrightarrow>
     (\<forall>result. \<exists>content. qe_pretty env result = Inr content) \<and>
     (\<exists>Q. answers ex startTime endTime Q \<and> (\<forall>key \<in> set hist_keys. bounds_ok env (le_of ` set (Q key))))"

interpretation scheduler_latency: slo_gatherer "prometheusSchedulerLatencyGatherer env now" "latencies_ready env" "\<lambda>_ _ _ _ _. True" for env now
proof
  fix ex :: executor and s e c and g :: unit
  assume "latencies_ready env ex s e c g"
  then obtain Q where Q: "answers ex s e Q" "\<And>key. key \<in> set hist_keys \<Longrightarrow> bounds_ok env (le_of ` set (Q key))"
    "\<And>result. \<exists>content. qe_pretty env result = Inr content" by (auto simp: latencies_ready_def)
  obtain p where p: "prom_metrics ex s e = (p, [])"
    "\<forall>key \<in> set hist_keys. hist_at p key = Some (fold ConvertSampleToHistogram (Q key) (NewHistogram []))"
    using prom_metrics_at[OF Q(1)] by blast
  have "\<exists>m. quantiles_of env (hist_at p key) = Some (m, None)" if "key \<in> set hist_keys" for key
    using quantiles_of_holds(2)[OF holds_samples holds_samples Q(2)[OF that]] p(2) that by simp
  then obtain result where "setQuantiles env p = Some (result, None)" using setQuantiles_total by blast
  moreover obtain content where "qe_pretty env result = Inr content" using Q(3) by blast
  ultimately show "\<exists>summary. ga_Gather (prometheusSchedulerLatencyGatherer env now) ex s e c g = Some ([summary], None)"
    by (simp add: prometheusSchedulerLatencyGatherer_def prom_sl_Gather_def p(1))
qed simp

end
