(* ===== verification/Etcd_Metrics.thy ===== *)
theory Etcd_Metrics
  imports Scheduler_Latency
begin

text \<open>
  Metrics of etcd (\<^verbatim>\<open>clusterloader2/pkg/measurement/common/etcd_metrics.go\<close>) and the latencies of
  kube-state-metrics (\<^verbatim>\<open>kube_state_metrics_measurement.go\<close>).  Each collector of etcd reads the size of a
  database now and then; a tick is one such reading, with the cluster as it is then.  A panic is \<open>None\<close>.
\<close>

section \<open>etcd\<close>

record etcdMetrics =
  em_BackendCommitDuration :: "Histogram list"
  em_SnapshotSaveTotalDuration :: "Histogram list"
  em_PeerRoundTripTime :: "Histogram list"
  em_WalFsyncDuration :: "Histogram list"
  em_MaxDatabaseSize :: rat

definition newEtcdMetrics :: etcdMetrics where
  "newEtcdMetrics = \<lparr>em_BackendCommitDuration = [], em_SnapshotSaveTotalDuration = [], em_PeerRoundTripTime = [],
     em_WalFsyncDuration = [], em_MaxDatabaseSize = 0\<rparr>"

text \<open>\<open>et_stopped\<close> tells whether the stop channel is closed, \<open>et_wg\<close> counts the running collectors.\<close>

record etcdMetricsMeasurement =
  et_isRunning :: bool
  et_stopped :: bool
  et_wg :: nat
  et_metrics :: etcdMetrics

definition createEtcdMetricsMeasurement :: etcdMetricsMeasurement where
  "createEtcdMetricsMeasurement = \<lparr>et_isRunning = False, et_stopped = False, et_wg = 0, et_metrics = newEtcdMetrics\<rparr>"

text \<open>\<open>te_plusv\<close> is \<open>%+v\<close> of the result of a command.\<close>

record etcd_env =
  te_supportSSHToMaster :: bool
  te_cluster :: ClusterConfig
  te_ssh :: ssh_runner
  te_gosyntax :: "goerr \<Rightarrow> string"
  te_plusv :: "SSHResult \<Rightarrow> string"
  te_decode :: text_decoder
  te_getenv :: "string \<Rightarrow> string"
  te_parseDuration :: "string \<Rightarrow> goerr + duration"
  te_pretty :: "etcdMetrics \<Rightarrow> goerr + string"
  te_now :: gotime

definition sshEtcdMetrics :: "etcd_env \<Rightarrow> string \<Rightarrow> string \<Rightarrow> goerr + sample list" where
  "sshEtcdMetrics env cmd host =
     (case SSH cmd (host @ '':22'') (te_ssh env) of
        (sshResult, Some err) \<Rightarrow>
          Inl (Errorf (''unexpected error (code: '' @ show_int (sr_Code sshResult) @ '') in ssh connection to master: '' @ te_gosyntax env err) [])
      | (sshResult, None) \<Rightarrow>
          if sr_Code sshResult \<noteq> 0
          then Inl (Errorf (''failed running command: '' @ cmd @ '' on the host: '' @ host @ '', result: '' @ te_plusv env sshResult) [])
          else ExtractMetricSamples (te_decode env) (sr_Stdout sshResult))"

definition fallback_cmd :: "(string \<Rightarrow> string) \<Rightarrow> string" where
  "fallback_cmd getenv =
     (let etcdCert = getenv ''ETCD_CERTIFICATE''; etcdKey = getenv ''ETCD_KEY'';
          etcdHost = (if getenv ''ETCD_HOST'' = [] then ''localhost'' else getenv ''ETCD_HOST'')
      in if etcdCert = [] \<or> etcdKey = [] then ''curl http://'' @ etcdHost @ '':2379/metrics''
         else ''curl -k --cert '' @ etcdCert @ '' --key '' @ etcdKey @ '' https://'' @ etcdHost @ '':2379/metrics'')"

definition getEtcdMetrics :: "etcd_env \<Rightarrow> string \<Rightarrow> int \<Rightarrow> goerr + sample list" where
  "getEtcdMetrics env host port =
     (case sshEtcdMetrics env (''curl http://localhost:'' @ show_int port @ ''/metrics'') host of
        Inr samples \<Rightarrow> Inr samples
      | Inl _ \<Rightarrow> sshEtcdMetrics env (fallback_cmd (te_getenv env)) host)"

definition is_size_metric :: "sample \<Rightarrow> bool" where
  "is_size_metric s \<longleftrightarrow> label s ''__name__'' = ''etcd_debugging_mvcc_db_total_size_in_bytes'' \<or>
     label s ''__name__'' = ''etcd_mvcc_db_total_size_in_bytes''"

definition getEtcdDatabaseSize :: "etcd_env \<Rightarrow> string \<Rightarrow> int \<Rightarrow> goerr + rat" where
  "getEtcdDatabaseSize env host port =
     (case getEtcdMetrics env host port of
        Inl err \<Rightarrow> Inl err
      | Inr samples \<Rightarrow>
          (case List.find is_size_metric samples of
             Some s \<Rightarrow> Inr (sm_Value s)
           | None \<Rightarrow> Inl (Errorf ''couldn't find etcd database size metric'' [])))"

definition et_startCollecting :: "etcdMetricsMeasurement \<Rightarrow> etcdMetricsMeasurement" where
  "et_startCollecting e = e\<lparr>et_isRunning := True, et_wg := Suc (et_wg e)\<rparr>"

text \<open>One round of a collector; a failed reading is logged only.\<close>

definition collectEtcdDatabaseSize :: "etcd_env \<Rightarrow> string \<Rightarrow> int \<Rightarrow> etcdMetricsMeasurement \<Rightarrow> etcdMetricsMeasurement" where
  "collectEtcdDatabaseSize env host port e =
     (case getEtcdDatabaseSize env host port of
        Inl _ \<Rightarrow> e
      | Inr dbSize \<Rightarrow> e\<lparr>et_metrics := (et_metrics e)\<lparr>em_MaxDatabaseSize := max (em_MaxDatabaseSize (et_metrics e)) dbSize\<rparr>\<rparr>)"

type_synonym etcd_tick = "etcd_env \<times> string \<times> int"

definition et_tick :: "etcd_tick \<Rightarrow> etcdMetricsMeasurement \<Rightarrow> etcdMetricsMeasurement" where
  "et_tick = (\<lambda>(env, host, port). collectEtcdDatabaseSize env host port)"

text \<open>
  Closing a closed channel panics.  A collector that is reading when the channel is closed finishes its
  round before the wait is over: \<open>late\<close> are these rounds.
\<close>

definition et_Dispose :: "etcd_tick list \<Rightarrow> etcdMetricsMeasurement \<Rightarrow> etcdMetricsMeasurement option" where
  "et_Dispose late e =
     (if et_isRunning e
      then (if et_stopped e then None else Some ((fold et_tick late e)\<lparr>et_isRunning := False, et_stopped := True, et_wg := 0\<rparr>))
      else Some e)"

definition collectEtcdMetrics :: "sample \<Rightarrow> etcdMetricsMeasurement \<Rightarrow> etcdMetricsMeasurement" where
  "collectEtcdMetrics s e =
     (let name = label s ''__name__''; m = et_metrics e
      in if name = ''etcd_disk_backend_commit_duration_seconds_bucket''
         then e\<lparr>et_metrics := m\<lparr>em_BackendCommitDuration := ConvertSampleToBucket s (em_BackendCommitDuration m)\<rparr>\<rparr>
         else if name = ''etcd_debugging_snap_save_total_duration_seconds_bucket''
         then e\<lparr>et_metrics := m\<lparr>em_SnapshotSaveTotalDuration := ConvertSampleToBucket s (em_SnapshotSaveTotalDuration m)\<rparr>\<rparr>
         else if name = ''etcd_disk_wal_fsync_duration_seconds_bucket''
         then e\<lparr>et_metrics := m\<lparr>em_WalFsyncDuration := ConvertSampleToBucket s (em_WalFsyncDuration m)\<rparr>\<rparr>
         else if name = ''etcd_network_peer_round_trip_time_seconds_bucket''
         then e\<lparr>et_metrics := m\<lparr>em_PeerRoundTripTime := ConvertSampleToBucket s (em_PeerRoundTripTime m)\<rparr>\<rparr>
         else e)"

definition et_stopAndSummarize ::
  "etcd_env \<Rightarrow> string \<Rightarrow> int \<Rightarrow> etcd_tick list \<Rightarrow> etcdMetricsMeasurement \<Rightarrow> (goerr option \<times> etcdMetricsMeasurement) option" where
  "et_stopAndSummarize env host port late e =
     (case getEtcdMetrics env host port of
        Inl err \<Rightarrow> map_option (\<lambda>e. (Some err, e)) (et_Dispose late e)
      | Inr samples \<Rightarrow> map_option (\<lambda>e. (None, e)) (et_Dispose late (fold collectEtcdMetrics samples e)))"

fun et_gather_loop ::
  "etcd_env \<Rightarrow> string list \<Rightarrow> int \<Rightarrow> etcd_tick list \<Rightarrow> etcdMetricsMeasurement \<Rightarrow> (goerr option \<times> etcdMetricsMeasurement) option" where
  "et_gather_loop env [] port late e = Some (None, e)"
| "et_gather_loop env (h # hosts) port late e =
     (case et_stopAndSummarize env h port late e of
        None \<Rightarrow> None
      | Some (Some err, e) \<Rightarrow> Some (Some err, e)
      | Some (None, e) \<Rightarrow> et_gather_loop env hosts port late e)"

definition et_Execute ::
  "etcd_env \<Rightarrow> MeasurementConfig \<Rightarrow> etcd_tick list \<Rightarrow> etcdMetricsMeasurement \<Rightarrow>
   ((genericSummary list \<times> goerr option) \<times> etcdMetricsMeasurement) option" where
  "et_Execute env config late e =
     (if \<not> te_supportSSHToMaster env then Some (([], None), e)
      else
     (case getString (mc_Params config) ''action'' of
        Inl err \<Rightarrow> Some (([], Some err), e)
      | Inr action \<Rightarrow>
     (let hosts = cc_MasterIPs (te_cluster env); port = cc_EtcdInsecurePort (te_cluster env)
      in if length hosts < 1 then Some (([], None), e)
         else if action = ''start'' then
           (case GetDurationOrDefault (te_parseDuration env) (mc_Params config) ''waitTime'' (60 * second) of
              Inl err \<Rightarrow> Some (([], Some err), e)
            | Inr waitTime \<Rightarrow> Some (([], None), fold (\<lambda>_. et_startCollecting) hosts e))
         else if action = ''gather'' then
           (case et_gather_loop env hosts port late e of
              None \<Rightarrow> None
            | Some (Some err, e) \<Rightarrow> Some (([], Some err), e)
            | Some (None, e) \<Rightarrow>
                (case te_pretty env (et_metrics e) of
                   Inl err \<Rightarrow> Some (([], Some err), e)
                 | Inr content \<Rightarrow> Some (([CreateSummary (te_now env) ''EtcdMetrics'' ''json'' content], None), e)))
         else Some (([], Some (Errorf (''unknown action '' @ action) [])), e))))"

section \<open>kube-state-metrics\<close>

text \<open>\<open>ks_cancelled\<close> tells whether the context of the measurement is cancelled.\<close>

record ksmLatencyMeasurement =
  ks_isRunning :: bool
  ks_cancelled :: bool
  ks_initialLatency :: "Histogram option"

definition CreateKSMLatencyMeasurement :: ksmLatencyMeasurement where
  "CreateKSMLatencyMeasurement = \<lparr>ks_isRunning = False, ks_cancelled = False, ks_initialLatency = None\<rparr>"

text \<open>
  \<open>ke_get\<close> is the request to a port of the service through the API server, \<open>ke_canceled\<close> the error of a
  request with a cancelled context, and \<open>ke_print\<close> JSON.
\<close>

record ksm_env = quantile_env +
  ke_supported :: bool
  ke_get :: "string \<Rightarrow> goerr + string"
  ke_canceled :: goerr
  ke_decode :: text_decoder
  ke_print :: "LatencyMetric \<Rightarrow> goerr + string"
  ke_now :: gotime

definition getMetricsFromService :: "ksm_env \<Rightarrow> bool \<Rightarrow> int \<Rightarrow> goerr + string" where
  "getMetricsFromService env cancelled port =
     (if cancelled then Inl (ke_canceled env) else ke_get env (''kube-state-metrics:'' @ show_int port))"

definition ksm_sample :: "sample \<Rightarrow> bool" where
  "ksm_sample s \<longleftrightarrow> label s ''__name__'' = ''http_request_duration_seconds_bucket''"

definition retrieveKSMLatencyMetrics :: "ksm_env \<Rightarrow> bool \<Rightarrow> Histogram \<times> goerr option" where
  "retrieveKSMLatencyMetrics env cancelled =
     (case getMetricsFromService env cancelled 8081 of
        Inl err \<Rightarrow> (NewHistogram [], Some err)
      | Inr page \<Rightarrow>
          (case ExtractMetricSamples (ke_decode env) page of
             Inl err \<Rightarrow> (NewHistogram [], Some err)
           | Inr samples \<Rightarrow> (fold ConvertSampleToHistogram (filter ksm_sample samples) (NewHistogram []), None)))"

definition ksm_stop :: "ksmLatencyMeasurement \<Rightarrow> goerr option \<times> ksmLatencyMeasurement" where
  "ksm_stop m =
     (if \<not> ks_isRunning m then (Some (Errorf ''KubeStateMetricsLatency: measurement was not running'' []), m)
      else (None, m\<lparr>ks_cancelled := True\<rparr>))"

text \<open>Subtracting a nil histogram panics at the first bucket.\<close>

definition createKSMLatencySummary ::
  "ksm_env \<Rightarrow> ksmLatencyMeasurement \<Rightarrow> ((genericSummary list \<times> goerr option) \<times> ksmLatencyMeasurement) option" where
  "createKSMLatencySummary env m =
     (case retrieveKSMLatencyMetrics env (ks_cancelled m) of
        (_, Some err) \<Rightarrow> Some (([], Some err), m)
      | (latestLatency, None) \<Rightarrow>
     (case ksm_stop m of
        (Some err, m) \<Rightarrow> Some (([], Some err), m)
      | (None, m) \<Rightarrow>
     (case (case ks_initialLatency m of
              Some initialLatency \<Rightarrow> Some (HistogramSub latestLatency initialLatency)
            | None \<Rightarrow> if hi_Buckets latestLatency = [] then Some latestLatency else None) of
        None \<Rightarrow> None
      | Some finalLatency \<Rightarrow>
     (case SetQuantileFromHistogram env zero_metric finalLatency of
        (_, Some err) \<Rightarrow> Some (([], Some err), m)
      | (result, None) \<Rightarrow>
     (case ke_print env result of
        Inl err \<Rightarrow> Some (([], Some err), m)
      | Inr content \<Rightarrow> Some (([CreateSummary (ke_now env) ''KubeStateMetricsLatency'' ''json'' content], None), m))))))"

definition ksm_Execute ::
  "ksm_env \<Rightarrow> MeasurementConfig \<Rightarrow> ksmLatencyMeasurement \<Rightarrow>
   ((genericSummary list \<times> goerr option) \<times> ksmLatencyMeasurement) option" where
  "ksm_Execute env config m =
     (if \<not> ke_supported env then Some (([], None), m)
      else
     (case getString (mc_Params config) ''action'' of
        Inl err \<Rightarrow> Some (([], Some err), m)
      | Inr action \<Rightarrow>
          if action = ''start'' then
            (if ks_isRunning m then Some (([], None), m)
             else (case retrieveKSMLatencyMetrics env (ks_cancelled m) of
                     (initial, err) \<Rightarrow> Some (([], err), m\<lparr>ks_isRunning := True, ks_initialLatency := Some initial\<rparr>)))
          else if action = ''gather'' then
            map_option (\<lambda>(r, m). (r, m\<lparr>ks_cancelled := True\<rparr>)) (createKSMLatencySummary env m)
          else Some (([], Some (Errorf (''unknown action '' @ action) [])), m)))"

definition ksm_Dispose :: "ksmLatencyMeasurement \<Rightarrow> ksmLatencyMeasurement" where
  "ksm_Dispose m = snd (ksm_stop m)"

section \<open>What etcd measured\<close>

text \<open>The sizes that the rounds of the collectors read.\<close>

definition tick_sizes :: "etcd_tick list \<Rightarrow> rat list" where
  "tick_sizes ts = somes (map (\<lambda>(env, host, port). case getEtcdDatabaseSize env host port of Inl _ \<Rightarrow> None | Inr dbSize \<Rightarrow> Some dbSize) ts)"

definition grow :: "rat list \<Rightarrow> etcdMetricsMeasurement \<Rightarrow> etcdMetricsMeasurement" where
  "grow sizes e = e\<lparr>et_metrics := (et_metrics e)\<lparr>em_MaxDatabaseSize := fold max sizes (em_MaxDatabaseSize (et_metrics e))\<rparr>\<rparr>"

lemma grow_append: "grow (xs @ ys) e = grow ys (grow xs e)"
  by (simp add: grow_def)

lemma et_ticks: "fold et_tick ts e = grow (tick_sizes ts) e"
proof (induction ts arbitrary: e)
  case (Cons t ts)
  have "et_tick t e = grow (tick_sizes [t]) e"
    by (auto simp: et_tick_def collectEtcdDatabaseSize_def tick_sizes_def grow_def max.commute split: sum.splits prod.splits)
  moreover have "tick_sizes (t # ts) = tick_sizes [t] @ tick_sizes ts" by (simp add: tick_sizes_def somes_def)
  ultimately show ?case using Cons by (simp add: grow_append)
qed (simp add: tick_sizes_def grow_def)

text \<open>The four histograms by what they measure.\<close>

datatype etcd_vec = BackendCommit | SnapshotSave | PeerRoundTrip | WalFsync

fun vec_at :: "etcdMetrics \<Rightarrow> etcd_vec \<Rightarrow> Histogram list" where
  "vec_at m BackendCommit = em_BackendCommitDuration m"
| "vec_at m SnapshotSave = em_SnapshotSaveTotalDuration m"
| "vec_at m PeerRoundTrip = em_PeerRoundTripTime m"
| "vec_at m WalFsync = em_WalFsyncDuration m"

fun vec_name :: "etcd_vec \<Rightarrow> string" where
  "vec_name BackendCommit = ''etcd_disk_backend_commit_duration_seconds_bucket''"
| "vec_name SnapshotSave = ''etcd_debugging_snap_save_total_duration_seconds_bucket''"
| "vec_name PeerRoundTrip = ''etcd_network_peer_round_trip_time_seconds_bucket''"
| "vec_name WalFsync = ''etcd_disk_wal_fsync_duration_seconds_bucket''"

lemma vec_at_collect:
  "vec_at (et_metrics (collectEtcdMetrics s e)) v =
     (if label s ''__name__'' = vec_name v then ConvertSampleToBucket s (vec_at (et_metrics e) v) else vec_at (et_metrics e) v)"
  by (cases v) (auto simp: collectEtcdMetrics_def Let_def)

lemma collect_keeps:
  "et_isRunning (collectEtcdMetrics s e) = et_isRunning e" "et_stopped (collectEtcdMetrics s e) = et_stopped e"
  "em_MaxDatabaseSize (et_metrics (collectEtcdMetrics s e)) = em_MaxDatabaseSize (et_metrics e)"
  by (auto simp: collectEtcdMetrics_def Let_def)

lemma collect_all:
  "et_isRunning (fold collectEtcdMetrics ss e) = et_isRunning e" "et_stopped (fold collectEtcdMetrics ss e) = et_stopped e"
  "em_MaxDatabaseSize (et_metrics (fold collectEtcdMetrics ss e)) = em_MaxDatabaseSize (et_metrics e)"
  "vec_at (et_metrics (fold collectEtcdMetrics ss e)) v =
     fold ConvertSampleToBucket (filter (\<lambda>s. label s ''__name__'' = vec_name v) ss) (vec_at (et_metrics e) v)"
proof -
  show "et_isRunning (fold collectEtcdMetrics ss e) = et_isRunning e" by (induction ss arbitrary: e) (simp_all add: collect_keeps)
  show "et_stopped (fold collectEtcdMetrics ss e) = et_stopped e" by (induction ss arbitrary: e) (simp_all add: collect_keeps)
  show "em_MaxDatabaseSize (et_metrics (fold collectEtcdMetrics ss e)) = em_MaxDatabaseSize (et_metrics e)"
    by (induction ss arbitrary: e) (simp_all add: collect_keeps)
  show "vec_at (et_metrics (fold collectEtcdMetrics ss e)) v =
     fold ConvertSampleToBucket (filter (\<lambda>s. label s ''__name__'' = vec_name v) ss) (vec_at (et_metrics e) v)"
    by (induction ss arbitrary: e) (simp_all add: vec_at_collect)
qed

lemma vec_at_grow [simp]: "vec_at (et_metrics (grow xs e)) v = vec_at (et_metrics e) v"
  by (cases v) (simp_all add: grow_def)

text \<open>After the first host nothing is left to stop.\<close>

lemma gather_rest:
  assumes "\<not> et_isRunning e" "\<And>h. h \<in> set hosts \<Longrightarrow> getEtcdMetrics env h port = Inr (S h)"
  shows "et_gather_loop env hosts port late e = Some (None, fold collectEtcdMetrics (concat (map S hosts)) e)"
  using assms
proof (induction hosts arbitrary: e)
  case (Cons h hosts)
  then show ?case by (simp add: et_stopAndSummarize_def et_Dispose_def collect_all)
qed simp

lemma gather_running:
  assumes "et_isRunning e" "\<not> et_stopped e" "hosts \<noteq> []" "\<And>h. h \<in> set hosts \<Longrightarrow> getEtcdMetrics env h port = Inr (S h)"
  shows "\<exists>e'. et_gather_loop env hosts port late e = Some (None, e') \<and> \<not> et_isRunning e' \<and> et_stopped e' \<and>
    em_MaxDatabaseSize (et_metrics e') = fold max (tick_sizes late) (em_MaxDatabaseSize (et_metrics e)) \<and>
    (\<forall>v. vec_at (et_metrics e') v = fold ConvertSampleToBucket
       (filter (\<lambda>s. label s ''__name__'' = vec_name v) (concat (map S hosts))) (vec_at (et_metrics e) v))"
proof -
  from assms(3) obtain h hs where hosts: "hosts = h # hs" by (cases hosts) auto
  let ?e = "(grow (tick_sizes late) (fold collectEtcdMetrics (S h) e))\<lparr>et_isRunning := False, et_stopped := True, et_wg := 0\<rparr>"
  have first: "et_stopAndSummarize env h port late e = Some (None, ?e)"
    using assms(1,2,4) hosts by (simp add: et_stopAndSummarize_def et_Dispose_def collect_all et_ticks)
  have v: "vec_at (et_metrics ?e) v = vec_at (et_metrics (fold collectEtcdMetrics (S h) e)) v" for v
    using vec_at_grow[of "tick_sizes late" "fold collectEtcdMetrics (S h) e" v] by (simp del: vec_at_grow)
  have rest: "et_gather_loop env hs port late ?e = Some (None, fold collectEtcdMetrics (concat (map S hs)) ?e)"
    by (rule gather_rest) (use assms(4) hosts in auto)
  show ?thesis
    by (intro exI[of _ "fold collectEtcdMetrics (concat (map S hs)) ?e"])
       (simp add: hosts first rest collect_all v, simp add: grow_def collect_all)
qed

lemma gather_stopped:
  assumes "et_isRunning e" "et_stopped e" "hosts \<noteq> []"
  shows "et_gather_loop env hosts port late e = None"
  using assms by (cases hosts) (auto simp: et_stopAndSummarize_def et_Dispose_def collect_all split: sum.splits)

lemma fold_max_Max: "fold max xs (a :: rat) = Max (insert a (set xs))"
  using Max.set_eq_fold[of a xs] by simp

lemma fold_start:
  "hosts \<noteq> [] \<Longrightarrow> \<exists>n. fold (\<lambda>_. et_startCollecting) hosts e = e\<lparr>et_isRunning := True, et_wg := n\<rparr>"
proof -
  have "\<exists>n. fold (\<lambda>_. et_startCollecting) hs (e\<lparr>et_isRunning := True, et_wg := n0\<rparr>) = e\<lparr>et_isRunning := True, et_wg := n\<rparr>" for hs n0
    by (induction hs arbitrary: n0) (auto simp: et_startCollecting_def)
  moreover assume "hosts \<noteq> []"
  ultimately show ?thesis by (cases hosts) (auto simp: et_startCollecting_def)
qed

text \<open>An execution of the action that is not skipped.\<close>

definition etcd_action :: "etcd_env \<Rightarrow> MeasurementConfig \<Rightarrow> string \<Rightarrow> bool" where
  "etcd_action env config action \<longleftrightarrow> te_supportSSHToMaster env \<and> getString (mc_Params config) ''action'' = Inr action \<and>
     cc_MasterIPs (te_cluster env) \<noteq> [] \<and>
     (\<exists>d. GetDurationOrDefault (te_parseDuration env) (mc_Params config) ''waitTime'' (60 * second) = Inr d)"

lemma et_Execute_start:
  assumes "etcd_action env c ''start''"
  shows "\<exists>n. et_Execute env c late e = Some (([], None), e\<lparr>et_isRunning := True, et_wg := n\<rparr>)"
proof -
  obtain d where "te_supportSSHToMaster env" "getString (mc_Params c) ''action'' = Inr ''start''" "cc_MasterIPs (te_cluster env) \<noteq> []"
    "GetDurationOrDefault (te_parseDuration env) (mc_Params c) ''waitTime'' (60 * second) = Inr d" using assms by (auto simp: etcd_action_def)
  moreover from fold_start[OF this(3), of e] obtain n where
    "fold (\<lambda>_. et_startCollecting) (cc_MasterIPs (te_cluster env)) e = e\<lparr>et_isRunning := True, et_wg := n\<rparr>" by blast
  ultimately show ?thesis by (intro exI[of _ n]) (simp add: et_Execute_def)
qed

text \<open>
  C32: The metrics of etcd.  After a start of a fresh measurement and any rounds of the collectors, a gather
  that can read every control plane host reports one summary: the greatest size that any round read
  (rounds that end while the collectors are being stopped included), or 0, and, for each of the four
  metrics, histograms whose buckets hold the sum over all hosts of the samples with their labels and bound.
  The collectors are stopped then; but another start and gather panics, since the stop channel is closed
  once more.
\<close>

theorem etcd_metrics_gathered:
  assumes start: "etcd_action env0 c0 ''start''" and gather: "etcd_action env c ''gather''"
    and hosts: "\<forall>h \<in> set (cc_MasterIPs (te_cluster env)). getEtcdMetrics env h (cc_EtcdInsecurePort (te_cluster env)) = Inr (S h)"
    and pretty: "\<forall>m. \<exists>content. te_pretty env m = Inr content"
  shows "\<exists>e1 content e2 e3. et_Execute env0 c0 [] createEtcdMetricsMeasurement = Some (([], None), e1) \<and>
    et_Execute env c late (fold et_tick ticks e1) = Some (([CreateSummary (te_now env) ''EtcdMetrics'' ''json'' content], None), e2) \<and>
    te_pretty env (et_metrics e2) = Inr content \<and>
    em_MaxDatabaseSize (et_metrics e2) = Max (insert 0 (set (tick_sizes (ticks @ late)))) \<and>
    (\<forall>v f le. hist_count (vec_at (et_metrics e2) v) f le =
       wrap 64 (\<Sum>s\<leftarrow>filter (\<lambda>s. label s ''__name__'' = vec_name v \<and> labels_of s = f \<and> le_of s = le)
          (concat (map S (cc_MasterIPs (te_cluster env)))). trunc_rat (sm_Value s))) \<and>
    \<not> et_isRunning e2 \<and> et_Execute env0 c0 [] e2 = Some (([], None), e3) \<and> et_Execute env c [] e3 = None"
proof -
  let ?hosts = "cc_MasterIPs (te_cluster env)"
  obtain n where e1: "et_Execute env0 c0 [] createEtcdMetricsMeasurement = Some (([], None), createEtcdMetricsMeasurement\<lparr>et_isRunning := True, et_wg := n\<rparr>)"
    using et_Execute_start[OF start] by blast
  let ?e1 = "createEtcdMetricsMeasurement\<lparr>et_isRunning := True, et_wg := n\<rparr>"
  let ?t = "fold et_tick ticks ?e1"
  have t: "et_isRunning ?t" "\<not> et_stopped ?t" "em_MaxDatabaseSize (et_metrics ?t) = fold max (tick_sizes ticks) 0" "vec_at (et_metrics ?t) v = []" for v
    by (simp_all add: et_ticks) (simp_all add: grow_def createEtcdMetricsMeasurement_def newEtcdMetrics_def, cases v, simp_all)
  have ne: "?hosts \<noteq> []" "te_supportSSHToMaster env" "getString (mc_Params c) ''action'' = Inr ''gather''" using gather by (simp_all add: etcd_action_def)
  obtain e2 where e2: "et_gather_loop env ?hosts (cc_EtcdInsecurePort (te_cluster env)) late ?t = Some (None, e2)" "\<not> et_isRunning e2" "et_stopped e2"
    "em_MaxDatabaseSize (et_metrics e2) = fold max (tick_sizes late) (em_MaxDatabaseSize (et_metrics ?t))"
    "\<And>v. vec_at (et_metrics e2) v = fold ConvertSampleToBucket (filter (\<lambda>s. label s ''__name__'' = vec_name v) (concat (map S ?hosts))) (vec_at (et_metrics ?t) v)"
    using gather_running[OF t(1,2) ne(1)] hosts by blast
  obtain content where content: "te_pretty env (et_metrics e2) = Inr content" using pretty by blast
  have g: "et_Execute env c late ?t = Some (([CreateSummary (te_now env) ''EtcdMetrics'' ''json'' content], None), e2)"
    using ne e2(1) content by (cases ?hosts) (simp_all add: et_Execute_def)
  have "tick_sizes (ticks @ late) = tick_sizes ticks @ tick_sizes late" by (simp add: tick_sizes_def)
  then have "em_MaxDatabaseSize (et_metrics e2) = Max (insert 0 (set (tick_sizes (ticks @ late))))"
    unfolding e2(4) t(3) fold_max_Max[symmetric] by simp
  moreover have "hist_count (vec_at (et_metrics e2) v) f le = wrap 64 (\<Sum>s\<leftarrow>filter (\<lambda>s. label s ''__name__'' = vec_name v \<and> labels_of s = f \<and> le_of s = le)
          (concat (map S ?hosts)). trunc_rat (sm_Value s))" for v f le
    unfolding e2(5) t(4) histograms_count_samples filter_filter by (simp add: conj_ac)
  moreover obtain k where "et_Execute env0 c0 [] e2 = Some (([], None), e2\<lparr>et_isRunning := True, et_wg := k\<rparr>)"
    using et_Execute_start[OF start] by blast
  moreover have "et_Execute env c [] (e2\<lparr>et_isRunning := True, et_wg := k\<rparr>) = None"
    using gather_stopped[of "e2\<lparr>et_isRunning := True, et_wg := k\<rparr>" ?hosts] ne e2(3) by (cases ?hosts) (simp_all add: et_Execute_def)
  ultimately show ?thesis using e1 g content e2(2) by blast
qed

definition size_env :: etcd_env where
  "size_env =
     \<lparr>te_supportSSHToMaster = True,
      te_cluster = \<lparr>cc_MasterIPs = [''10.0.0.1''], cc_MasterInternalIPs = [], cc_MasterName = ''master'', cc_EtcdInsecurePort = 2382\<rparr>,
      te_ssh = (\<lambda>_ _. ([], [], 0, None)), te_gosyntax = (\<lambda>_. []), te_plusv = (\<lambda>_. []),
      te_decode = (\<lambda>_. [Inr [\<lparr>sm_Metric = [(''__name__'', ''etcd_mvcc_db_total_size_in_bytes'')], sm_Value = 4096\<rparr>], Inl None]),
      te_getenv = (\<lambda>_. []), te_parseDuration = (\<lambda>_. Inr 1), te_pretty = (\<lambda>_. Inr ''{}''), te_now = 0\<rparr>"

lemma etcd_metrics_gathered_witness:
  "\<exists>e1 content e2. et_Execute size_env (action_config ''start'') [] createEtcdMetricsMeasurement = Some (([], None), e1) \<and>
    et_Execute size_env (action_config ''gather'') [] (fold et_tick [(size_env, ''10.0.0.1'', 2382)] e1) =
      Some (([CreateSummary 0 ''EtcdMetrics'' ''json'' content], None), e2) \<and>
    em_MaxDatabaseSize (et_metrics e2) = 4096"
proof -
  let ?samples = "[\<lparr>sm_Metric = [(''__name__'', ''etcd_mvcc_db_total_size_in_bytes'')], sm_Value = 4096\<rparr>]"
  have got: "getEtcdMetrics size_env h p = Inr ?samples" for h p
    by (simp add: getEtcdMetrics_def sshEtcdMetrics_def SSH_def size_env_def ExtractMetricSamples_def)
  have act: "etcd_action size_env (action_config a) a" for a
    by (simp add: etcd_action_def size_env_def action_config_def getString_def GetDurationOrDefault_def getDuration_def or_default_def IsErrKeyNotFound_def)
  have h: "\<forall>h \<in> set (cc_MasterIPs (te_cluster size_env)).
      getEtcdMetrics size_env h (cc_EtcdInsecurePort (te_cluster size_env)) = Inr ((\<lambda>_. ?samples) h)" by (simp add: got)
  have p: "\<forall>m. \<exists>content. te_pretty size_env m = Inr content" by (simp add: size_env_def)
  have sizes: "tick_sizes ([(size_env, ''10.0.0.1'', 2382)] @ []) = [4096]"
    by (simp add: tick_sizes_def getEtcdDatabaseSize_def got is_size_metric_def label_def)
  obtain e1 content e2 where g: "et_Execute size_env (action_config ''start'') [] createEtcdMetricsMeasurement = Some (([], None), e1)"
    "et_Execute size_env (action_config ''gather'') [] (fold et_tick [(size_env, ''10.0.0.1'', 2382)] e1) =
      Some (([CreateSummary (te_now size_env) ''EtcdMetrics'' ''json'' content], None), e2)"
    "em_MaxDatabaseSize (et_metrics e2) = Max (insert 0 (set (tick_sizes ([(size_env, ''10.0.0.1'', 2382)] @ []))))"
    using etcd_metrics_gathered[OF act act h p, of "[]" "[(size_env, ''10.0.0.1'', 2382)]"] by (elim exE conjE) (rule that)
  have now: "te_now size_env = 0" by (simp add: size_env_def)
  have "Max (insert 0 (set [4096])) = (4096 :: rat)" by simp
  then have mx: "em_MaxDatabaseSize (et_metrics e2) = 4096" by (simp only: g(3) sizes)
  show ?thesis
    by (rule exI[of _ e1], rule exI[of _ content], rule exI[of _ e2], intro conjI) (rule g(1), rule g(2)[unfolded now], rule mx)
qed

section \<open>What kube-state-metrics measured\<close>

definition ksm_reads :: "ksm_env \<Rightarrow> MeasurementConfig \<Rightarrow> string \<Rightarrow> sample list \<Rightarrow> bool" where
  "ksm_reads env config action samples \<longleftrightarrow> ke_supported env \<and> getString (mc_Params config) ''action'' = Inr action \<and>
     (\<exists>page. ke_get env (''kube-state-metrics:'' @ show_int 8081) = Inr page \<and> ExtractMetricSamples (ke_decode env) page = Inr samples)"

lemma retrieve_reads:
  "ksm_reads env c action samples \<Longrightarrow>
   retrieveKSMLatencyMetrics env False = (fold ConvertSampleToHistogram (filter ksm_sample samples) (NewHistogram []), None)"
  by (auto simp: ksm_reads_def retrieveKSMLatencyMetrics_def getMetricsFromService_def)

text \<open>
  The latencies of kube-state-metrics are those of the requests between the start and the gather.
  A measurement that has gathered cannot be used again: a start does nothing and a gather fails.
\<close>

theorem ksm_latency_gathered:
  assumes start: "ksm_reads env0 c0 ''start'' A" and gather: "ksm_reads env c ''gather'' B"
    and bounds: "bounds_ok env (le_of ` set (filter ksm_sample B))"
    and print: "\<forall>result. \<exists>content. ke_print env result = Inr content"
  shows "\<exists>m1 m2 h result content. ksm_Execute env0 c0 CreateKSMLatencyMeasurement = Some (([], None), m1) \<and>
    ksm_Execute env c m1 = Some (([CreateSummary (ke_now env) ''KubeStateMetricsLatency'' ''json'' content], None), m2) \<and>
    holds h (le_of ` set (filter ksm_sample B)) (\<lambda>le. amount (filter ksm_sample B) le - amount (filter ksm_sample A) le) \<and>
    SetQuantileFromHistogram env zero_metric h = (result, None) \<and> ke_print env result = Inr content \<and>
    ksm_Execute env0 c0 m2 = Some (([], None), m2) \<and> ksm_Execute env c m2 = Some (([], Some (ke_canceled env)), m2)"
proof -
  let ?hist = "\<lambda>ss. fold ConvertSampleToHistogram (filter ksm_sample ss) (NewHistogram [])"
  let ?m1 = "CreateKSMLatencyMeasurement\<lparr>ks_isRunning := True, ks_initialLatency := Some (?hist A)\<rparr>"
  let ?h = "HistogramSub (?hist B) (?hist A)"
  have s: "ke_supported env0" "getString (mc_Params c0) ''action'' = Inr ''start''" "ke_supported env" "getString (mc_Params c) ''action'' = Inr ''gather''"
    using start gather by (simp_all add: ksm_reads_def)
  have m1: "ksm_Execute env0 c0 CreateKSMLatencyMeasurement = Some (([], None), ?m1)"
    using s retrieve_reads[OF start] by (simp add: ksm_Execute_def CreateKSMLatencyMeasurement_def)
  have "bucket_count (?hist A) le = wrap 64 (amount (filter ksm_sample A) le)" for le
    using bucket_count_fold_convert[of "NewHistogram []" le "filter ksm_sample A"] by (simp add: bucket_count_def NewHistogram_def wrap_def)
  then have h: "holds ?h (le_of ` set (filter ksm_sample B)) (\<lambda>le. amount (filter ksm_sample B) le - amount (filter ksm_sample A) le)"
    by (intro holds_sub holds_samples)
  obtain result where result: "SetQuantileFromHistogram env zero_metric ?h = (result, None)"
    using quantiles_of_holds(2)[OF h h bounds] by (auto simp: quantiles_of_def)
  obtain content where content: "ke_print env result = Inr content" using print by blast
  have m2: "ksm_Execute env c ?m1 =
      Some (([CreateSummary (ke_now env) ''KubeStateMetricsLatency'' ''json'' content], None), ?m1\<lparr>ks_cancelled := True\<rparr>)"
    using s retrieve_reads[OF gather] result content
    by (simp add: ksm_Execute_def createKSMLatencySummary_def ksm_stop_def CreateKSMLatencyMeasurement_def)
  have "ksm_Execute env0 c0 (?m1\<lparr>ks_cancelled := True\<rparr>) = Some (([], None), ?m1\<lparr>ks_cancelled := True\<rparr>)"
    using s by (simp add: ksm_Execute_def)
  moreover have "ksm_Execute env c (?m1\<lparr>ks_cancelled := True\<rparr>) = Some (([], Some (ke_canceled env)), ?m1\<lparr>ks_cancelled := True\<rparr>)"
    using s by (simp add: ksm_Execute_def createKSMLatencySummary_def retrieveKSMLatencyMetrics_def getMetricsFromService_def)
  ultimately show ?thesis using m1 m2 h result content by blast
qed

end
