(* ===== verification/Resource_Usage.thy ===== *)
theory Resource_Usage
  imports Scraping Modifier
begin

text \<open>
  Resource usage of the containers: readings from a kubelet or from a kubemark master
  (\<^verbatim>\<open>clusterloader2/pkg/measurement/util/kubelet/kubelet.go\<close>, \<^verbatim>\<open>kubemark/kubemark.go\<close>), percentiles of series
  of readings (\<^verbatim>\<open>util/resource.go\<close>), the workers and the gatherer (\<^verbatim>\<open>util/gatherers\<close>) and the measurement
  with its constraints (\<^verbatim>\<open>common/resource_usage.go\<close>).  A panic is \<open>None\<close>.
\<close>

section \<open>Readings\<close>

record ContainerResourceUsage =
  ru_Name :: string
  ru_Timestamp :: gotime
  ru_CPUUsageInCores :: rat
  ru_MemoryUsageInBytes :: nat
  ru_MemoryWorkingSetInBytes :: nat
  ru_MemoryRSSInBytes :: nat
  ru_CPUInterval :: duration

type_synonym ResourceUsagePerContainer = "(string, ContainerResourceUsage) gomap"

text \<open>
  The statistics that a kubelet returns; nil pointers are \<open>None\<close>.  \<open>cs_CPU\<close> is the pointer to the CPU
  statistics with the pointer to the usage in it, \<open>cs_Memory\<close> has usage, working set and resident set.
\<close>

record ContainerStats =
  cs_Name :: string
  cs_StartTime :: gotime
  cs_CPU :: "nat option option"
  cs_Memory :: "(nat option \<times> nat option \<times> nat option) option"

record StatsSummary =
  ss_Pods :: "(string \<times> ContainerStats list) list"
  ss_SystemContainers :: "ContainerStats list"

definition removeUint64Ptr :: "nat option \<Rightarrow> nat" where
  "removeUint64Ptr ptr = (case ptr of None \<Rightarrow> 0 | Some n \<Rightarrow> n)"

definition getStatsSummary :: "(string \<Rightarrow> goerr + 'b) \<Rightarrow> ('b \<Rightarrow> goerr + StatsSummary) \<Rightarrow> string \<Rightarrow> int \<Rightarrow> goerr + StatsSummary" where
  "getStatsSummary get unmarshal nodeName port =
     (case get (nodeName @ '':'' @ show_int port) of Inl err \<Rightarrow> Inl err | Inr data \<Rightarrow> unmarshal data)"

definition usage_of_stats :: "string \<Rightarrow> ContainerStats \<Rightarrow> ContainerResourceUsage option" where
  "usage_of_stats name newStats =
     (case (cs_CPU newStats, cs_Memory newStats) of
        (Some cpu, Some (usage, workingSet, rss)) \<Rightarrow>
          Some \<lparr>ru_Name = name, ru_Timestamp = cs_StartTime newStats,
                ru_CPUUsageInCores = fl (fl (of_nat (removeUint64Ptr cpu)) / 1000000000),
                ru_MemoryUsageInBytes = removeUint64Ptr usage, ru_MemoryWorkingSetInBytes = removeUint64Ptr workingSet,
                ru_MemoryRSSInBytes = removeUint64Ptr rss, ru_CPUInterval = 0\<rparr>
      | _ \<Rightarrow> None)"

definition put_usage :: "string \<Rightarrow> ContainerStats \<Rightarrow> ResourceUsagePerContainer \<Rightarrow> ResourceUsagePerContainer" where
  "put_usage owner c usageMap =
     (case usage_of_stats (owner @ ''/'' @ cs_Name c) c of
        None \<Rightarrow> usageMap
      | Some usage \<Rightarrow> AList.update (owner @ ''/'' @ cs_Name c) usage usageMap)"

definition GetOneTimeResourceUsageOnNode ::
  "goerr + StatsSummary \<Rightarrow> string \<Rightarrow> string list \<Rightarrow> goerr + ResourceUsagePerContainer" where
  "GetOneTimeResourceUsageOnNode got nodeName containers =
     (case got of
        Inl err \<Rightarrow> Inl err
      | Inr summary \<Rightarrow>
          let usageMap = fold (\<lambda>(pod, cs). fold (\<lambda>c. if cs_Name c \<in> set containers then put_usage pod c else id) cs) (ss_Pods summary) []
          in Inr (fold (put_usage nodeName) (ss_SystemContainers summary) usageMap))"

text \<open>
  Kubemark: the output of \<^verbatim>\<open>ps\<close> on the master, line by line.  \<open>scan_kube\<close> and \<open>scan_etcd\<close> are the three
  \<^verbatim>\<open>fmt.Sscanf\<close> of a line: what they leave in the variables, which are zero or empty if the format does not
  match (for etcd also whether the line has a \<^verbatim>\<open>--data-dir\<close> at all).  Memory is multiplied as \<^verbatim>\<open>uint64\<close>.
\<close>

record ResourceUsageKm =
  km_Name :: string
  km_MemoryWorkingSetInBytes :: nat
  km_CPUUsageInCores :: rat

definition km_usage :: "string \<Rightarrow> rat \<Rightarrow> nat \<Rightarrow> ResourceUsageKm" where
  "km_usage fullName cpu mem =
     \<lparr>km_Name = fullName, km_MemoryWorkingSetInBytes = mem * 1024 mod 2 ^ 64, km_CPUUsageInCores = fl (cpu / 100)\<rparr>"

definition getMasterUsageByPrefix :: "string \<Rightarrow> ssh_runner \<Rightarrow> string \<Rightarrow> goerr + string" where
  "getMasterUsageByPrefix host run pre =
     (case SSH (''ps ax -o %cpu,rss,command | tail -n +2 | grep '' @ pre @ '' | sed '' @ [CHR 0x27] @ ''s/'' @ [CHR 0x5C] @ ''s+/ /g''
          @ [CHR 0x27]) (host @ '':22'') run of
        (_, Some err) \<Rightarrow> Inl err
      | (sshResult, None) \<Rightarrow> Inr (sr_Stdout sshResult))"

fun scan_kube_lines ::
  "(string \<Rightarrow> rat \<times> nat \<times> string) \<Rightarrow> string list \<Rightarrow> (string, ResourceUsageKm) gomap \<Rightarrow> (string, ResourceUsageKm) gomap" where
  "scan_kube_lines scan [] result = result"
| "scan_kube_lines scan (line # ls) result =
     (case scan line of
        (cpu, mem, name) \<Rightarrow>
          scan_kube_lines scan ls
            (if name \<noteq> [] then AList.update (name @ ''/'' @ name) (km_usage (name @ ''/'' @ name) cpu mem) result else result))"

fun scan_etcd_lines ::
  "(string \<Rightarrow> (rat \<times> nat \<times> string) option) \<Rightarrow> string list \<Rightarrow> (string, ResourceUsageKm) gomap \<Rightarrow> (string, ResourceUsageKm) gomap" where
  "scan_etcd_lines scan [] result = result"
| "scan_etcd_lines scan (line # ls) result =
     (case scan line of
        None \<Rightarrow> scan_etcd_lines scan ls result
      | Some (cpu, mem, etcdKind) \<Rightarrow>
          scan_etcd_lines scan ls
            (if etcdKind \<noteq> [] then AList.update (''etcd/'' @ etcdKind) (km_usage (''etcd/'' @ etcdKind) cpu mem) result else result))"

record scanners =
  sc_lines :: "string \<Rightarrow> string list"
  sc_kube :: "string \<Rightarrow> rat \<times> nat \<times> string"
  sc_etcd :: "string \<Rightarrow> (rat \<times> nat \<times> string) option"

text \<open>The nil map that is returned after an error is \<open>[]\<close>: the caller only ranges over it.\<close>

definition GetKubemarkMasterComponentsResourceUsage :: "scanners \<Rightarrow> string \<Rightarrow> ssh_runner \<Rightarrow> (string, ResourceUsageKm) gomap" where
  "GetKubemarkMasterComponentsResourceUsage sc host run =
     (case getMasterUsageByPrefix host run ''kube'' of
        Inl _ \<Rightarrow> []
      | Inr out1 \<Rightarrow>
          let result = scan_kube_lines (sc_kube sc) (sc_lines sc out1) []
          in (case getMasterUsageByPrefix host run ''bin/etcd'' of
                Inl _ \<Rightarrow> []
              | Inr out2 \<Rightarrow> scan_etcd_lines (sc_etcd sc) (sc_lines sc out2) result))"

section \<open>Percentiles of series\<close>

record UsageDataPerContainer =
  ud_CPUData :: "rat list"
  ud_MemUseData :: "nat list"
  ud_MemWorkSetData :: "nat list"

definition add_usage :: "string \<times> ContainerResourceUsage \<Rightarrow> (string, UsageDataPerContainer) gomap \<Rightarrow> (string, UsageDataPerContainer) gomap" where
  "add_usage = (\<lambda>(name, data) dataMap.
     let d = (case map_of dataMap name of None \<Rightarrow> \<lparr>ud_CPUData = [], ud_MemUseData = [], ud_MemWorkSetData = []\<rparr> | Some d \<Rightarrow> d)
     in AList.update name
          \<lparr>ud_CPUData = ud_CPUData d @ [ru_CPUUsageInCores data],
           ud_MemUseData = ud_MemUseData d @ [ru_MemoryUsageInBytes data],
           ud_MemWorkSetData = ud_MemWorkSetData d @ [ru_MemoryWorkingSetInBytes data]\<rparr> dataMap)"

definition sort_data :: "UsageDataPerContainer \<Rightarrow> UsageDataPerContainer" where
  "sort_data d = \<lparr>ud_CPUData = sort (ud_CPUData d), ud_MemUseData = sort (ud_MemUseData d), ud_MemWorkSetData = sort (ud_MemWorkSetData d)\<rparr>"

definition usage_at :: "nat \<Rightarrow> string \<Rightarrow> UsageDataPerContainer \<Rightarrow> ContainerResourceUsage option" where
  "usage_at perc k v =
     (let percentileIndex = perc_index perc (length (ud_CPUData v))
      in case slice_at (ud_CPUData v) percentileIndex of None \<Rightarrow> None | Some cpu \<Rightarrow>
        (case slice_at (ud_MemUseData v) percentileIndex of None \<Rightarrow> None | Some memUse \<Rightarrow>
        (case slice_at (ud_MemWorkSetData v) percentileIndex of None \<Rightarrow> None | Some memWorkSet \<Rightarrow>
           Some \<lparr>ru_Name = k, ru_Timestamp = 0, ru_CPUUsageInCores = cpu, ru_MemoryUsageInBytes = memUse,
                 ru_MemoryWorkingSetInBytes = memWorkSet, ru_MemoryRSSInBytes = 0, ru_CPUInterval = 0\<rparr>)))"

fun usages_at :: "nat \<Rightarrow> (string, UsageDataPerContainer) gomap \<Rightarrow> ResourceUsagePerContainer option" where
  "usages_at perc [] = Some []"
| "usages_at perc ((k, v) # ds) =
     (case usage_at perc k v of
        None \<Rightarrow> None
      | Some u \<Rightarrow> map_option (Cons (k, u)) (usages_at perc ds))"

fun usage_percentiles_loop ::
  "(string, UsageDataPerContainer) gomap \<Rightarrow> nat list \<Rightarrow> (nat, ResourceUsagePerContainer) gomap \<Rightarrow> (nat, ResourceUsagePerContainer) gomap option" where
  "usage_percentiles_loop dataMap [] result = Some result"
| "usage_percentiles_loop dataMap (perc # percs) result =
     (case usages_at perc dataMap of
        None \<Rightarrow> None
      | Some data \<Rightarrow> usage_percentiles_loop dataMap percs (AList.update perc data result))"

definition ComputePercentiles ::
  "ResourceUsagePerContainer list \<Rightarrow> nat list \<Rightarrow> (nat, ResourceUsagePerContainer) gomap option" where
  "ComputePercentiles timeSeries percentilesToCompute =
     (if length timeSeries = 0 then Some []
      else usage_percentiles_loop (map (\<lambda>(k, d). (k, sort_data d)) (fold (fold add_usage) timeSeries [])) percentilesToCompute [])"

definition LeftMergeData ::
  "(nat, ResourceUsagePerContainer) gomap \<Rightarrow> (nat, ResourceUsagePerContainer) gomap \<Rightarrow> (nat, ResourceUsagePerContainer) gomap" where
  "LeftMergeData left right =
     map (\<lambda>(percentile, data). (percentile, case map_of right percentile of None \<Rightarrow> data | Some r \<Rightarrow> gomap_copy r data)) left"

section \<open>The gatherer\<close>

datatype NodesSet = AllNodes | MasterAndNonDaemons

record ResourceGathererOptions =
  go_InKubemark :: bool
  go_Nodes :: NodesSet
  go_ResourceDataGatheringPeriod :: duration
  go_MasterResourceDataGatheringPeriod :: duration

record resourceGatherWorker =
  gw_nodeName :: string
  gw_containerIDs :: "string list"
  gw_dataSeries :: "ResourceUsagePerContainer list"
  gw_finished :: bool
  gw_inKubemark :: bool
  gw_resourceDataGatheringPeriod :: duration

record ContainerResourceGatherer =
  rg_isRunning :: bool
  rg_workers :: "resourceGatherWorker list"
  rg_containerIDs :: "string list"
  rg_options :: ResourceGathererOptions

text \<open>A pod as the gatherer sees it: its node, the kind of its controller and the names of its containers.\<close>

record GathererPod =
  gp_NodeName :: string
  gp_Controller :: "string option"
  gp_InitContainers :: "string list"
  gp_Containers :: "string list"

definition isDaemonPod :: "GathererPod \<Rightarrow> bool" where
  "isDaemonPod pod = (case gp_Controller pod of None \<Rightarrow> False | Some kind \<Rightarrow> kind = ''DaemonSet'' \<or> kind = ''Node'')"

definition considered :: "NodesSet \<Rightarrow> string list \<Rightarrow> GathererPod list \<Rightarrow> GathererPod list" where
  "considered nodes masterNodes pods =
     filter (\<lambda>pod. \<not> (nodes = MasterAndNonDaemons \<and> gp_NodeName pod \<notin> set masterNodes \<and> isDaemonPod pod)) pods"

definition NewResourceUsageGatherer ::
  "goerr + GathererPod list \<Rightarrow> goerr + ClusterNode list \<Rightarrow> ResourceGathererOptions \<Rightarrow> goerr + ContainerResourceGatherer" where
  "NewResourceUsageGatherer podList nodeList options =
     (if go_InKubemark options then
        Inr \<lparr>rg_isRunning = True,
             rg_workers = [\<lparr>gw_nodeName = [], gw_containerIDs = [], gw_dataSeries = [], gw_finished = False, gw_inKubemark = True,
                            gw_resourceDataGatheringPeriod = go_ResourceDataGatheringPeriod options\<rparr>],
             rg_containerIDs = [], rg_options = options\<rparr>
      else
     (case podList of
        Inl err \<Rightarrow> Inl (Errorf (''listing pods error: '' @ err_msg err) [])
      | Inr pods \<Rightarrow>
     (case nodeList of
        Inl err \<Rightarrow> Inl (Errorf (''listing nodes error: '' @ err_msg err) [])
      | Inr nodes \<Rightarrow>
          let masterNodes = map no_Name (filter IsControlPlaneNode nodes);
              pods = considered (go_Nodes options) masterNodes pods;
              ids = concat (map (\<lambda>pod. gp_InitContainers pod @ gp_Containers pod) pods);
              nodesToConsider = (if go_Nodes options = MasterAndNonDaemons then map gp_NodeName pods else []);
              chosen = filter (\<lambda>node. go_Nodes options = AllNodes \<or> no_Name node \<in> set masterNodes \<or> no_Name node \<in> set nodesToConsider) nodes
          in Inr \<lparr>rg_isRunning = True,
                  rg_workers = map (\<lambda>node. \<lparr>gw_nodeName = no_Name node, gw_containerIDs = ids, gw_dataSeries = [], gw_finished = False,
                      gw_inKubemark = False,
                      gw_resourceDataGatheringPeriod = (if no_Name node \<in> set masterNodes then go_MasterResourceDataGatheringPeriod options
                                                        else go_ResourceDataGatheringPeriod options)\<rparr>) chosen,
                  rg_containerIDs = ids, rg_options = options\<rparr>)))"

text \<open>The workers start one after the other, spread over one period: the time that each of them waits first.\<close>

definition StartGatheringData :: "ContainerResourceGatherer \<Rightarrow> duration list" where
  "StartGatheringData g =
     (if length (rg_workers g) = 0 then []
      else let delayPeriod = go_div (go_ResourceDataGatheringPeriod (rg_options g)) (int (length (rg_workers g)))
           in map (\<lambda>i. int i * delayPeriod) [0..<length (rg_workers g)])"

text \<open>
  One probe of a worker: what the kubelet returned, or the master in kubemark.  The test for missing data in
  kubemark compares the wrong variable, so an empty reading is recorded when the commands fail.
\<close>

definition singleProbe :: "(string, ResourceUsageKm) gomap \<Rightarrow> goerr + ResourceUsagePerContainer \<Rightarrow> resourceGatherWorker \<Rightarrow> resourceGatherWorker" where
  "singleProbe kubemarkData nodeUsage w =
     (if gw_inKubemark w
      then w\<lparr>gw_dataSeries := gw_dataSeries w @
               [map (\<lambda>(k, v). (k, \<lparr>ru_Name = km_Name v, ru_Timestamp = 0, ru_CPUUsageInCores = km_CPUUsageInCores v, ru_MemoryUsageInBytes = 0,
                   ru_MemoryWorkingSetInBytes = km_MemoryWorkingSetInBytes v, ru_MemoryRSSInBytes = 0, ru_CPUInterval = 0\<rparr>)) kubemarkData]\<rparr>
      else (case nodeUsage of Inl _ \<Rightarrow> w | Inr usage \<Rightarrow> w\<lparr>gw_dataSeries := gw_dataSeries w @ [usage]\<rparr>))"

text \<open>
  A worker probes after its first wait and then after every period, until it sees the closed stop channel:
  \<open>probes\<close> are the readings that it makes before, none if it is stopped while it waits for the first time.
\<close>

definition gw_gather :: "((string, ResourceUsageKm) gomap \<times> (goerr + ResourceUsagePerContainer)) list \<Rightarrow> resourceGatherWorker \<Rightarrow> resourceGatherWorker" where
  "gw_gather probes w = (fold (\<lambda>(km, usage). singleProbe km usage) probes w)\<lparr>gw_finished := True\<rparr>"

definition rg_stop :: "ContainerResourceGatherer \<Rightarrow> ContainerResourceGatherer" where
  "rg_stop g = (if rg_isRunning g then g\<lparr>rg_isRunning := False\<rparr> else g)"

record SingleContainerSummary =
  su_Name :: string
  su_CPU :: rat
  su_Mem :: nat

type_synonym ResourceUsageSummary = "(string, SingleContainerSummary list) gomap"

definition su_Get :: "ResourceUsageSummary \<Rightarrow> string \<Rightarrow> SingleContainerSummary list" where
  "su_Get r perc = (case map_of r perc of None \<Rightarrow> [] | Some ss \<Rightarrow> ss)"

fun merge_workers ::
  "nat list \<Rightarrow> resourceGatherWorker list \<Rightarrow> (nat, ResourceUsagePerContainer) gomap \<Rightarrow> (nat, ResourceUsagePerContainer) gomap option" where
  "merge_workers percentiles [] data = Some data"
| "merge_workers percentiles (w # ws) data =
     (if gw_finished w
      then (case ComputePercentiles (gw_dataSeries w) percentiles of
              None \<Rightarrow> None
            | Some stats \<Rightarrow> merge_workers percentiles ws (LeftMergeData stats data))
      else merge_workers percentiles ws data)"

text \<open>Reading a missing percentile gives an empty map; reading a missing container a nil pointer, which panics.\<close>

definition percentile_data :: "(nat, ResourceUsagePerContainer) gomap \<Rightarrow> nat \<Rightarrow> ResourceUsagePerContainer" where
  "percentile_data data perc = (case map_of data perc of None \<Rightarrow> [] | Some d \<Rightarrow> d)"

fun summarize_keys :: "ResourceUsagePerContainer \<Rightarrow> string list \<Rightarrow> SingleContainerSummary list option" where
  "summarize_keys d [] = Some []"
| "summarize_keys d (name # names) =
     (case map_of d name of
        None \<Rightarrow> None
      | Some usage \<Rightarrow>
          map_option (Cons \<lparr>su_Name = name, su_CPU = ru_CPUUsageInCores usage, su_Mem = ru_MemoryWorkingSetInBytes usage\<rparr>)
            (summarize_keys d names))"

fun summarize_percentiles ::
  "(nat, ResourceUsagePerContainer) gomap \<Rightarrow> string list \<Rightarrow> nat list \<Rightarrow> ResourceUsageSummary \<Rightarrow> ResourceUsageSummary option" where
  "summarize_percentiles data sortedKeys [] summary = Some summary"
| "summarize_percentiles data sortedKeys (perc # percs) summary =
     (case summarize_keys (percentile_data data perc) sortedKeys of
        None \<Rightarrow> None
      | Some ss \<Rightarrow>
          summarize_percentiles data sortedKeys percs
            (if ss = [] then summary else AList.update (show_nat perc) (su_Get summary (show_nat perc) @ ss) summary))"

definition StopAndSummarize ::
  "nat list \<Rightarrow> ContainerResourceGatherer \<Rightarrow> ((ResourceUsageSummary \<times> goerr option) \<times> ContainerResourceGatherer) option" where
  "StopAndSummarize percentiles g =
     (let g = rg_stop g
      in case percentiles of
           [] \<Rightarrow> Some (([], Some (Errorf ''failed to get any resource usage data'' [])), g)
         | p # _ \<Rightarrow>
             (case merge_workers percentiles (rg_workers g) [] of
                None \<Rightarrow> None
              | Some data \<Rightarrow>
                  map_option (\<lambda>summary. ((summary, None), g))
                    (summarize_percentiles data (sort_strs (map fst (percentile_data data p))) percentiles [])))"

section \<open>The measurement\<close>

record ResourceConstraint =
  rc_CPUConstraint :: rat
  rc_MemoryConstraint :: nat

record resourceUsageMetricMeasurement =
  rm_gatherer :: "ContainerResourceGatherer option"
  rm_resourceConstraints :: "(string, ResourceConstraint option) gomap"

definition createResourceUsageMetricMeasurement :: resourceUsageMetricMeasurement where
  "createResourceUsageMetricMeasurement = \<lparr>rm_gatherer = None, rm_resourceConstraints = []\<rparr>"

definition maxFloat64 :: rat where "maxFloat64 = (2 ^ 53 - 1) * 2 ^ 971"

definition fill_constraint :: "ResourceConstraint \<Rightarrow> ResourceConstraint" where
  "fill_constraint c =
     \<lparr>rc_CPUConstraint = (if rc_CPUConstraint c = 0 then maxFloat64 else rc_CPUConstraint c),
      rc_MemoryConstraint = (if rc_MemoryConstraint c = 0 then 2 ^ 64 - 1 else rc_MemoryConstraint c)\<rparr>"

text \<open>A nil constraint panics.\<close>

fun fill_constraints :: "(string, ResourceConstraint option) gomap \<Rightarrow> (string, ResourceConstraint option) gomap option" where
  "fill_constraints [] = Some []"
| "fill_constraints ((k, None) # cs) = None"
| "fill_constraints ((k, Some c) # cs) = map_option (Cons (k, Some (fill_constraint c))) (fill_constraints cs)"

text \<open>
  The environment of an execution: \<open>re_template\<close> is \<^verbatim>\<open>TemplateInto\<close>, from the path, the number of nodes and
  the constraints there are to the constraints after it, also if it fails; \<open>re_show\<close> is \<open>%v\<close> of a number.
\<close>

record usage_env =
  re_supported :: bool
  re_kubemark :: bool
  re_nodeCount :: int
  re_masterIP :: string
  re_pods :: "string \<Rightarrow> goerr + GathererPod list"
  re_nodes :: "goerr + ClusterNode list"
  re_template :: "string \<Rightarrow> int \<Rightarrow> (string, ResourceConstraint option) gomap \<Rightarrow> (string, ResourceConstraint option) gomap \<times> goerr option"
  re_show :: "rat \<Rightarrow> string"
  re_pretty :: "ResourceUsageSummary \<Rightarrow> goerr + string"
  re_now :: gotime

definition violations_of :: "(rat \<Rightarrow> string) \<Rightarrow> SingleContainerSummary \<Rightarrow> ResourceConstraint \<Rightarrow> string list" where
  "violations_of shw s c =
     (if su_CPU s > rc_CPUConstraint c
      then [''container '' @ su_Name s @ '' is using '' @ shw (su_CPU s) @ ''/'' @ shw (rc_CPUConstraint c) @ '' CPU''] else []) @
     (if su_Mem s > rc_MemoryConstraint c
      then [''container '' @ su_Name s @ '' is using '' @ shw (fl (fl (of_nat (su_Mem s)) / 1048576)) @ ''/''
             @ shw (fl (fl (of_nat (rc_MemoryConstraint c)) / 1048576)) @ '' MB of memory''] else [])"

fun usage_verify_loop ::
  "(rat \<Rightarrow> string) \<Rightarrow> (string, ResourceConstraint option) gomap \<Rightarrow> SingleContainerSummary list \<Rightarrow> string list option" where
  "usage_verify_loop shw constraints [] = Some []"
| "usage_verify_loop shw constraints (s # ss) =
     (case slice_at (strings_Split (su_Name s) (CHR ''/'')) 1 of
        None \<Rightarrow> None
      | Some containerName \<Rightarrow>
          (case map_of constraints containerName of
             None \<Rightarrow> usage_verify_loop shw constraints ss
           | Some None \<Rightarrow> None
           | Some (Some c) \<Rightarrow> map_option (\<lambda>vs. violations_of shw s c @ vs) (usage_verify_loop shw constraints ss)))"

definition verifySummary ::
  "(rat \<Rightarrow> string) \<Rightarrow> (string, ResourceConstraint option) gomap \<Rightarrow> ResourceUsageSummary \<Rightarrow> goerr option option" where
  "verifySummary shw constraints summary =
     (case usage_verify_loop shw constraints (su_Get summary ''99'') of
        None \<Rightarrow> None
      | Some violatedConstraints \<Rightarrow>
          Some (if 0 < length violatedConstraints
                then Some (NewMetricViolationError ''resource constraints''
                       (show_nat (length violatedConstraints) @ '' constraints violated: ['' @ strings_Join violatedConstraints '' '' @ '']''))
                else None))"

definition usage_start :: "usage_env \<Rightarrow> params \<Rightarrow> resourceUsageMetricMeasurement \<Rightarrow> (goerr option \<times> resourceUsageMetricMeasurement) option" where
  "usage_start env ps e =
     (case GetStringOrDefault ps ''host'' (re_masterIP env) of
        Inl err \<Rightarrow> Some (Some err, e)
      | Inr host \<Rightarrow>
     (case GetStringOrDefault ps ''namespace'' ''kube-system'' of
        Inl err \<Rightarrow> Some (Some err, e)
      | Inr namespace \<Rightarrow>
     (case GetStringOrDefault ps ''resourceConstraints'' [] of
        Inl err \<Rightarrow> Some (Some err, e)
      | Inr constraintsPath \<Rightarrow>
     (case (if constraintsPath \<noteq> []
            then (case re_template env constraintsPath (re_nodeCount env) (rm_resourceConstraints e) of
                    (cs, Some err) \<Rightarrow> Some (cs, Some (Errorf (''resource constraints reading error: '' @ err_msg err) []))
                  | (cs, None) \<Rightarrow> map_option (\<lambda>cs. (cs, None)) (fill_constraints cs))
            else Some (rm_resourceConstraints e, None)) of
        None \<Rightarrow> None
      | Some (constraints, Some err) \<Rightarrow> Some (Some err, e\<lparr>rm_resourceConstraints := constraints\<rparr>)
      | Some (constraints, None) \<Rightarrow>
     (let e = e\<lparr>rm_resourceConstraints := constraints\<rparr>;
          nodesSet = (if re_nodeCount env > 1000 then MasterAndNonDaemons else AllNodes)
      in case NewResourceUsageGatherer (re_pods env namespace) (re_nodes env)
                \<lparr>go_InKubemark = re_kubemark env, go_Nodes = nodesSet, go_ResourceDataGatheringPeriod = 60 * second,
                 go_MasterResourceDataGatheringPeriod = 10 * second\<rparr> of
           Inl err \<Rightarrow> Some (Some err, e\<lparr>rm_gatherer := None\<rparr>)
         | Inr g \<Rightarrow> Some (None, e\<lparr>rm_gatherer := Some g\<rparr>))))))"

definition usage_gather ::
  "usage_env \<Rightarrow> resourceUsageMetricMeasurement \<Rightarrow> ((genericSummary list \<times> goerr option) \<times> resourceUsageMetricMeasurement) option" where
  "usage_gather env e =
     (case rm_gatherer e of
        None \<Rightarrow> Some (([], None), e)
      | Some g \<Rightarrow>
     (case StopAndSummarize [50, 90, 99, 100] g of
        None \<Rightarrow> None
      | Some ((_, Some err), g) \<Rightarrow> Some (([], Some err), e\<lparr>rm_gatherer := Some g\<rparr>)
      | Some ((summary, None), g) \<Rightarrow>
     (case re_pretty env summary of
        Inl err \<Rightarrow> Some (([], Some err), e\<lparr>rm_gatherer := Some g\<rparr>)
      | Inr content \<Rightarrow>
          map_option (\<lambda>err. (([CreateSummary (re_now env) ''ResourceUsageSummary'' ''json'' content], err), e\<lparr>rm_gatherer := Some g\<rparr>))
            (verifySummary (re_show env) (rm_resourceConstraints e) summary))))"

definition usage_Execute ::
  "usage_env \<Rightarrow> MeasurementConfig \<Rightarrow> resourceUsageMetricMeasurement \<Rightarrow>
   ((genericSummary list \<times> goerr option) \<times> resourceUsageMetricMeasurement) option" where
  "usage_Execute env config e =
     (if \<not> re_supported env then Some (([], None), e)
      else
     (case getString (mc_Params config) ''action'' of
        Inl err \<Rightarrow> Some (([], Some err), e)
      | Inr action \<Rightarrow>
          if action = ''start'' then map_option (\<lambda>(err, e). (([], err), e)) (usage_start env (mc_Params config) e)
          else if action = ''gather'' then usage_gather env e
          else Some (([], Some (Errorf (''unknown action '' @ action) [])), e)))"

definition usage_Dispose :: "resourceUsageMetricMeasurement \<Rightarrow> resourceUsageMetricMeasurement" where
  "usage_Dispose e = (case rm_gatherer e of None \<Rightarrow> e | Some g \<Rightarrow> e\<lparr>rm_gatherer := Some (rg_stop g)\<rparr>)"

section \<open>Percentiles of the readings\<close>

text \<open>The readings of a container in a series.\<close>

definition readings :: "string \<Rightarrow> ResourceUsagePerContainer list \<Rightarrow> ContainerResourceUsage list" where
  "readings k series = map snd (filter (\<lambda>e. fst e = k) (concat series))"

definition data_of :: "ContainerResourceUsage list \<Rightarrow> UsageDataPerContainer" where
  "data_of us = \<lparr>ud_CPUData = map ru_CPUUsageInCores us, ud_MemUseData = map ru_MemoryUsageInBytes us,
     ud_MemWorkSetData = map ru_MemoryWorkingSetInBytes us\<rparr>"

definition holds_readings :: "(string, UsageDataPerContainer) gomap \<Rightarrow> (string \<Rightarrow> ContainerResourceUsage list) \<Rightarrow> bool" where
  "holds_readings D us \<longleftrightarrow> gomap_ok D \<and> (\<forall>k. map_of D k = (if us k = [] then None else Some (data_of (us k))))"

lemma holds_add: "holds_readings D us \<Longrightarrow> holds_readings (add_usage (n, u) D) (us(n := us n @ [u]))"
  by (auto simp: holds_readings_def add_usage_def Let_def go_map data_of_def distinct_update)

lemma holds_fold:
  "holds_readings D us \<Longrightarrow> holds_readings (fold add_usage m D) (\<lambda>k. us k @ map snd (filter (\<lambda>e. fst e = k) m))"
proof (induction m arbitrary: D us)
  case (Cons e m)
  obtain n u where e: "e = (n, u)" by (cases e)
  have "(\<lambda>k. (us(n := us n @ [u])) k @ map snd (filter (\<lambda>e. fst e = k) m)) = (\<lambda>k. us k @ map snd (filter (\<lambda>e. fst e = k) (e # m)))"
    by (auto simp: e fun_eq_iff)
  with Cons.IH[OF holds_add[OF Cons.prems], of n u] show ?case by (simp only: e fold_simps)
qed simp

lemma holds_series: "holds_readings (fold (fold add_usage) series []) (\<lambda>k. readings k series)"
proof -
  have "fold (fold add_usage) ss D = fold add_usage (concat ss) D" for ss D by (induction ss arbitrary: D) auto
  moreover have "holds_readings [] (\<lambda>_. [])" by (simp add: holds_readings_def)
  ultimately show ?thesis using holds_fold[of "[]" "\<lambda>_. []" "concat series"] by (simp add: readings_def)
qed

text \<open>\<open>u\<close> is a percentile of the readings, in CPU and in memory.\<close>

definition usage_perc :: "nat \<Rightarrow> ContainerResourceUsage list \<Rightarrow> ContainerResourceUsage \<Rightarrow> bool" where
  "usage_perc p us u \<longleftrightarrow> percentile_of p (map ru_CPUUsageInCores us) (ru_CPUUsageInCores u) \<and>
     percentile_of p (map ru_MemoryWorkingSetInBytes us) (ru_MemoryWorkingSetInBytes u)"

lemma sort_perc:
  assumes "xs \<noteq> []" "0 < p" "p \<le> 100" "p * length xs < 2 ^ 53"
  shows "\<exists>v. slice_at (sort xs) (perc_index p (length xs)) = Some v \<and> percentile_of p xs v"
proof -
  have "sort xs \<noteq> []" using assms(1) by (metis mset.simps(1) mset_sort mset_zero_iff)
  then show ?thesis
    using perc_of_sorted[of "sort xs" p] assms(2-4) percentile_of_mset_cong[of "sort xs" xs] by simp
qed

lemma usage_at_perc:
  assumes "us \<noteq> []" "0 < p" "p \<le> 100" "p * length us < 2 ^ 53"
  shows "\<exists>u. usage_at p k (sort_data (data_of us)) = Some u \<and> usage_perc p us u"
proof -
  obtain a b c where "slice_at (sort (map ru_CPUUsageInCores us)) (perc_index p (length us)) = Some a" "percentile_of p (map ru_CPUUsageInCores us) a"
    "slice_at (sort (map ru_MemoryUsageInBytes us)) (perc_index p (length us)) = Some b"
    "slice_at (sort (map ru_MemoryWorkingSetInBytes us)) (perc_index p (length us)) = Some c" "percentile_of p (map ru_MemoryWorkingSetInBytes us) c"
    using sort_perc[of "map ru_CPUUsageInCores us" p] sort_perc[of "map ru_MemoryUsageInBytes us" p]
      sort_perc[of "map ru_MemoryWorkingSetInBytes us" p] assms by auto
  then show ?thesis by (simp add: usage_at_def sort_data_def data_of_def usage_perc_def Let_def)
qed

lemma usages_at_all:
  assumes "\<And>k v. (k, v) \<in> set ds \<Longrightarrow> \<exists>u. usage_at p k v = Some u" "gomap_ok ds"
  shows "\<exists>us. usages_at p ds = Some us \<and> map fst us = map fst ds \<and>
    (\<forall>k. map_of us k = (case map_of ds k of None \<Rightarrow> None | Some v \<Rightarrow> usage_at p k v))"
  using assms
proof (induction ds)
  case (Cons e ds)
  obtain k v where e: "e = (k, v)" by (cases e)
  obtain u where u: "usage_at p k v = Some u" using Cons.prems(1)[of k v] e by auto
  from Cons obtain us where "usages_at p ds = Some us" "map fst us = map fst ds"
    "\<forall>k. map_of us k = (case map_of ds k of None \<Rightarrow> None | Some v \<Rightarrow> usage_at p k v)" by auto
  with e u show ?case by auto
qed simp

text \<open>The data of every percentile describe the readings.\<close>

definition describes :: "nat list \<Rightarrow> (nat, ResourceUsagePerContainer) gomap \<Rightarrow> (string \<Rightarrow> ContainerResourceUsage list) \<Rightarrow> bool" where
  "describes percs data us \<longleftrightarrow> (\<forall>p \<in> set percs. gomap_ok (percentile_data data p) \<and>
     (\<forall>k. if us k = [] then map_of (percentile_data data p) k = None
          else \<exists>u. map_of (percentile_data data p) k = Some u \<and> usage_perc p (us k) u))"

lemma length_readings: "length (readings k series) \<le> length (concat series)"
  by (simp add: readings_def del: length_concat)

lemma usage_percentiles_loop_all:
  assumes "\<And>p. p \<in> set percs \<Longrightarrow> usages_at p D = Some (U p)"
  shows "\<exists>r. usage_percentiles_loop D percs result = Some r \<and>
    (\<forall>p. map_of r p = (if p \<in> set percs then Some (U p) else map_of result p))"
  using assms
proof (induction percs arbitrary: result)
  case (Cons a percs)
  from Cons.IH[of "AList.update a (U a) result"] Cons.prems obtain r where "usage_percentiles_loop D percs (AList.update a (U a) result) = Some r"
    "\<forall>p. map_of r p = (if p \<in> set percs then Some (U p) else map_of (AList.update a (U a) result) p)" by auto
  then show ?case by (intro exI[of _ r]) (use Cons.prems[of a] in \<open>simp add: go_map\<close>)
qed simp

lemma ComputePercentiles_describes:
  assumes "series \<noteq> []" "\<And>p. p \<in> set percs \<Longrightarrow> 0 < p \<and> p \<le> 100" "100 * length (concat series) < 2 ^ 53"
  shows "\<exists>stats. ComputePercentiles series percs = Some stats \<and> (\<forall>p \<in> set percs. map_of stats p \<noteq> None) \<and>
    describes percs stats (\<lambda>k. readings k series)"
proof -
  let ?D = "fold (fold add_usage) series []" let ?S = "map (\<lambda>(k, d). (k, sort_data d)) ?D"
  have D: "gomap_ok ?D" "\<And>k. map_of ?D k = (if readings k series = [] then None else Some (data_of (readings k series)))"
    using holds_series[of series] by (simp_all add: holds_readings_def)
  have S: "gomap_ok ?S" "map_of ?S k = map_option sort_data (map_of ?D k)" for k
  proof -
    have "map_of (map (\<lambda>(k, d). (k, sort_data d)) ds) k = map_option sort_data (map_of ds k)" for ds k by (induction ds) auto
    then show "map_of ?S k = map_option sort_data (map_of ?D k)" .
    show "gomap_ok ?S" using D(1) by (simp add: comp_def case_prod_unfold)
  qed
  have at: "\<exists>u. usage_at p k (sort_data (data_of (readings k series))) = Some u \<and> usage_perc p (readings k series) u"
    if "p \<in> set percs" "readings k series \<noteq> []" for p k
  proof -
    have "p * length (readings k series) \<le> 100 * length (concat series)"
      using assms(2)[OF that(1)] length_readings[of k series] by (intro mult_le_mono) auto
    then have "p * length (readings k series) < 2 ^ 53" using assms(3) by linarith
    then show ?thesis using usage_at_perc[OF that(2)] assms(2)[OF that(1)] by blast
  qed
  have "\<exists>us. usages_at p ?S = Some us \<and> map fst us = map fst ?S \<and>
      (\<forall>k. map_of us k = (case map_of ?S k of None \<Rightarrow> None | Some v \<Rightarrow> usage_at p k v))" if p: "p \<in> set percs" for p
  proof (rule usages_at_all[OF _ S(1)])
    fix k v assume "(k, v) \<in> set ?S"
    then have "map_of ?S k = Some v" using S(1) by (metis map_of_is_SomeI)
    then show "\<exists>u. usage_at p k v = Some u" using at[OF p, of k] by (auto simp: S(2) D(2) split: if_splits)
  qed
  then obtain U where U: "\<And>p. p \<in> set percs \<Longrightarrow> usages_at p ?S = Some (U p)" "\<And>p. p \<in> set percs \<Longrightarrow> map fst (U p) = map fst ?S"
    "\<And>p k. p \<in> set percs \<Longrightarrow> map_of (U p) k = (case map_of ?S k of None \<Rightarrow> None | Some v \<Rightarrow> usage_at p k v)" by metis
  from usage_percentiles_loop_all[OF U(1), of percs "[]"] obtain stats where
    st: "usage_percentiles_loop ?S percs [] = Some stats" "\<And>p. p \<in> set percs \<Longrightarrow> map_of stats p = Some (U p)" by auto
  have "describes percs stats (\<lambda>k. readings k series)"
    unfolding describes_def
  proof (intro ballI conjI allI)
    fix p assume p: "p \<in> set percs"
    have pd: "percentile_data stats p = U p" by (simp add: percentile_data_def st(2)[OF p])
    show "gomap_ok (percentile_data stats p)" unfolding pd U(2)[OF p] by (rule S(1))
    fix k
    show "if readings k series = [] then map_of (percentile_data stats p) k = None
        else \<exists>u. map_of (percentile_data stats p) k = Some u \<and> usage_perc p (readings k series) u"
      unfolding pd U(3)[OF p] S(2) D(2) using at[OF p, of k] by simp
  qed
  moreover have "ComputePercentiles series percs = Some stats" using assms(1) st(1) by (simp add: ComputePercentiles_def)
  ultimately show ?thesis using st(2) by auto
qed

lemma LeftMerge_describes:
  assumes "describes percs stats us" "describes percs data vs" "\<And>p. p \<in> set percs \<Longrightarrow> map_of stats p \<noteq> None"
  shows "describes percs (LeftMergeData stats data) (\<lambda>k. if vs k = [] then us k else vs k)"
  unfolding describes_def
proof (intro ballI conjI allI)
  fix p assume p: "p \<in> set percs"
  let ?s = "percentile_data stats p" and ?d = "percentile_data data p"
  have ok: "gomap_ok ?s" "gomap_ok ?d" using assms(1,2) p by (auto simp: describes_def)
  have m: "map_of (LeftMergeData left right) p = map_option (\<lambda>data. case map_of right p of None \<Rightarrow> data | Some r \<Rightarrow> gomap_copy r data) (map_of left p)"
    for left right by (induction left) (auto simp: LeftMergeData_def split: option.splits)
  have pd: "percentile_data (LeftMergeData stats data) p = gomap_copy ?d ?s"
    using assms(3)[OF p] by (auto simp: percentile_data_def m gomap_copy_def split: option.splits)
  show "gomap_ok (percentile_data (LeftMergeData stats data) p)" unfolding pd by (rule gomap_ok_copy[OF ok(1)])
  fix k
  have s: "if us k = [] then map_of ?s k = None else \<exists>u. map_of ?s k = Some u \<and> usage_perc p (us k) u"
    and d: "if vs k = [] then map_of ?d k = None else \<exists>u. map_of ?d k = Some u \<and> usage_perc p (vs k) u"
    using assms(1,2) p unfolding describes_def by blast+
  show "if (if vs k = [] then us k else vs k) = [] then map_of (percentile_data (LeftMergeData stats data) p) k = None
      else \<exists>u. map_of (percentile_data (LeftMergeData stats data) p) k = Some u \<and> usage_perc p (if vs k = [] then us k else vs k) u"
    unfolding pd map_of_gomap_copy[OF ok(2)] map_add_def using s d by (auto split: if_splits option.splits)
qed

text \<open>The readings of a container that count: those of the first worker that has any.\<close>

fun first_readings :: "string \<Rightarrow> resourceGatherWorker list \<Rightarrow> ContainerResourceUsage list" where
  "first_readings k [] = []"
| "first_readings k (w # ws) = (if readings k (gw_dataSeries w) = [] then first_readings k ws else readings k (gw_dataSeries w))"

definition busy :: "resourceGatherWorker \<Rightarrow> bool" where
  "busy w \<longleftrightarrow> gw_finished w \<and> gw_dataSeries w \<noteq> [] \<and> 100 * length (concat (gw_dataSeries w)) < 2 ^ 53"

lemma merge_workers_describes:
  assumes "\<And>w. w \<in> set ws \<Longrightarrow> busy w" "\<And>p. p \<in> set percs \<Longrightarrow> 0 < p \<and> p \<le> 100" "describes percs data vs"
  shows "\<exists>data'. merge_workers percs ws data = Some data' \<and> describes percs data' (\<lambda>k. if vs k = [] then first_readings k ws else vs k)"
  using assms(1,3)
proof (induction ws arbitrary: data vs)
  case (Cons w ws)
  have w: "gw_finished w" "gw_dataSeries w \<noteq> []" "100 * length (concat (gw_dataSeries w)) < 2 ^ 53"
    using Cons.prems(1)[of w] by (simp_all add: busy_def)
  from ComputePercentiles_describes[OF w(2) assms(2) w(3)] obtain stats where
    st: "ComputePercentiles (gw_dataSeries w) percs = Some stats" "\<forall>p \<in> set percs. map_of stats p \<noteq> None"
      "describes percs stats (\<lambda>k. readings k (gw_dataSeries w))" by blast
  have "describes percs (LeftMergeData stats data) (\<lambda>k. if vs k = [] then readings k (gw_dataSeries w) else vs k)"
    by (rule LeftMerge_describes) (use st Cons.prems(2) in auto)
  from Cons.IH[OF _ this] Cons.prems(1) obtain data' where
    "merge_workers percs ws (LeftMergeData stats data) = Some data'"
    "describes percs data' (\<lambda>k. if (if vs k = [] then readings k (gw_dataSeries w) else vs k) = [] then first_readings k ws
       else (if vs k = [] then readings k (gw_dataSeries w) else vs k))" by auto
  moreover have "(\<lambda>k. if (if vs k = [] then readings k (gw_dataSeries w) else vs k) = [] then first_readings k ws
       else (if vs k = [] then readings k (gw_dataSeries w) else vs k)) = (\<lambda>k. if vs k = [] then first_readings k (w # ws) else vs k)"
    by (auto simp: fun_eq_iff)
  ultimately show ?case using w(1) st(1) by simp
qed (simp add: if_distrib cong: if_cong)

lemma merge_all:
  assumes "\<forall>w \<in> set ws. busy w"
  shows "\<exists>data. merge_workers [50, 90, 99, 100] ws [] = Some data \<and> describes [50, 90, 99, 100] data (\<lambda>k. first_readings k ws)"
proof -
  have percs: "0 < p \<and> p \<le> 100" if "p \<in> set [50, 90, 99, 100]" for p :: nat using that by auto
  have "describes [50, 90, 99, 100] [] (\<lambda>_. [])" by (simp add: describes_def percentile_data_def)
  from merge_workers_describes[OF _ percs this, of ws] assms show ?thesis by simp
qed

lemma set_sort_strs [simp]: "set (sort_strs ss) = set ss"
proof -
  have ins: "set (insert_str s ts) = insert s (set ts)" for s ts by (induction ts) auto
  show ?thesis by (induction ss) (auto simp: sort_strs_def ins)
qed

lemma summarize_keys_all:
  assumes "\<And>k. k \<in> set ks \<Longrightarrow> map_of d k = Some (u k)"
  shows "summarize_keys d ks = Some (map (\<lambda>k. \<lparr>su_Name = k, su_CPU = ru_CPUUsageInCores (u k), su_Mem = ru_MemoryWorkingSetInBytes (u k)\<rparr>) ks)"
  using assms by (induction ks) auto

lemma summarize_percentiles_all:
  assumes "\<And>p. p \<in> set percs \<Longrightarrow> summarize_keys (percentile_data data p) ks = Some (S p)" "distinct percs"
    and "\<And>p. p \<in> set percs \<Longrightarrow> su_Get r (show_nat p) = []"
  shows "\<exists>r'. summarize_percentiles data ks percs r = Some r' \<and>
    (\<forall>p. su_Get r' (show_nat p) = (if p \<in> set percs then S p else su_Get r (show_nat p)))"
  using assms
proof (induction percs arbitrary: r)
  case (Cons q percs)
  let ?r = "if S q = [] then r else AList.update (show_nat q) (su_Get r (show_nat q) @ S q) r"
  have at: "su_Get ?r (show_nat p) = (if p = q then S q else su_Get r (show_nat p))" for p
    using Cons.prems(3)[of q] by (auto simp: su_Get_def go_map)
  have "su_Get ?r (show_nat p) = []" if "p \<in> set percs" for p
    unfolding at using that Cons.prems(2) Cons.prems(3)[of p] by auto
  with Cons.IH[of ?r] Cons.prems(1,2) obtain r' where
    r': "summarize_percentiles data ks percs ?r = Some r'" "\<forall>p. su_Get r' (show_nat p) = (if p \<in> set percs then S p else su_Get ?r (show_nat p))"
    by auto
  have "summarize_percentiles data ks (q # percs) r = Some r'" using Cons.prems(1)[of q] r'(1) by simp
  moreover have "su_Get r' (show_nat p) = (if p \<in> set (q # percs) then S p else su_Get r (show_nat p))" for p
    using spec[OF r'(2), of p] unfolding at by auto
  ultimately show ?case by blast
qed simp

text \<open>What the constraints say of the readings that count: 99 per cent of them are within the constraint.\<close>

definition within_constraint :: "ContainerResourceUsage list \<Rightarrow> ResourceConstraint \<Rightarrow> bool" where
  "within_constraint rs c \<longleftrightarrow>
     99 * length rs \<le> 100 * count_le (rc_CPUConstraint c) (map ru_CPUUsageInCores rs) \<and>
     99 * length rs \<le> 100 * count_le (rc_MemoryConstraint c) (map ru_MemoryWorkingSetInBytes rs)"

definition container_name :: "string \<Rightarrow> string option" where
  "container_name k = slice_at (strings_Split k (CHR ''/'')) 1"

lemma violations_of_perc:
  assumes "usage_perc 99 rs u"
  shows "violations_of shw \<lparr>su_Name = k, su_CPU = ru_CPUUsageInCores u, su_Mem = ru_MemoryWorkingSetInBytes u\<rparr> c = [] \<longleftrightarrow> within_constraint rs c"
  using assms unfolding usage_perc_def percentile_of_def within_constraint_def
  by (auto simp: violations_of_def not_less)

lemma usage_verify_loop_decides:
  assumes "\<And>k. k \<in> set ks \<Longrightarrow> usage_perc 99 (rs k) (u k) \<and> container_name k \<noteq> None"
    and "\<And>n. map_of constraints n \<noteq> Some None"
  shows "\<exists>vs. usage_verify_loop shw constraints (map (\<lambda>k. \<lparr>su_Name = k, su_CPU = ru_CPUUsageInCores (u k), su_Mem = ru_MemoryWorkingSetInBytes (u k)\<rparr>) ks) = Some vs \<and>
    (vs = [] \<longleftrightarrow> (\<forall>k \<in> set ks. \<forall>n c. container_name k = Some n \<longrightarrow> map_of constraints n = Some (Some c) \<longrightarrow> within_constraint (rs k) c))"
  using assms(1)
proof (induction ks)
  case (Cons k ks)
  then obtain vs where vs: "usage_verify_loop shw constraints (map (\<lambda>k. \<lparr>su_Name = k, su_CPU = ru_CPUUsageInCores (u k), su_Mem = ru_MemoryWorkingSetInBytes (u k)\<rparr>) ks) = Some vs"
    "vs = [] \<longleftrightarrow> (\<forall>k \<in> set ks. \<forall>n c. container_name k = Some n \<longrightarrow> map_of constraints n = Some (Some c) \<longrightarrow> within_constraint (rs k) c)" by auto
  obtain n where n: "container_name k = Some n" and p: "usage_perc 99 (rs k) (u k)" using Cons.prems[of k] by auto
  show ?case
  proof (cases "map_of constraints n")
    case None
    then show ?thesis using vs n by (simp add: container_name_def)
  next
    case (Some oc)
    then obtain c where "map_of constraints n = Some (Some c)" using assms(2)[of n] by (cases oc) auto
    then show ?thesis using vs n violations_of_perc[OF p, of shw k c] by (simp add: container_name_def)
  qed
qed simp

text \<open>
  C33: The resource usage objective.  If every worker has finished with at least one reading, the gather
  reports one summary, and a metric violation exactly if some container with a constraint exceeds it:
  fewer than 99 per cent of its readings are within the CPU or the memory that the constraint allows.
  The readings that count are those of the first worker that has any of the container.
\<close>

theorem resource_usage_decided:
  assumes g: "rm_gatherer e = Some g" and workers: "\<forall>w \<in> set (rg_workers g). busy w"
    and names: "\<forall>k. first_readings k (rg_workers g) \<noteq> [] \<longrightarrow> container_name k \<noteq> None"
    and nonnil: "\<forall>n. map_of (rm_resourceConstraints e) n \<noteq> Some None"
    and pretty: "\<forall>summary. \<exists>content. re_pretty env summary = Inr content"
  shows "\<exists>summary err e'. usage_gather env e = Some (([summary], err), e') \<and>
    (err = None \<longleftrightarrow> (\<forall>k n c. first_readings k (rg_workers g) \<noteq> [] \<longrightarrow> container_name k = Some n \<longrightarrow>
       map_of (rm_resourceConstraints e) n = Some (Some c) \<longrightarrow> within_constraint (first_readings k (rg_workers g)) c)) \<and>
    (\<forall>x. err = Some x \<longrightarrow> IsMetricViolationError x)"
proof -
  let ?percs = "[50, 90, 99, 100] :: nat list" and ?f = "\<lambda>k. first_readings k (rg_workers g)"
  obtain data where data: "merge_workers ?percs (rg_workers g) [] = Some data" "describes ?percs data ?f" using merge_all[OF workers] by blast
  let ?ks = "sort_strs (map fst (percentile_data data 50))"
  have at: "\<exists>u. map_of (percentile_data data p) k = Some u \<and> usage_perc p (?f k) u" if "p \<in> set ?percs" "?f k \<noteq> []" for p k
    using data(2) that unfolding describes_def by metis
  have keys: "k \<in> set ?ks \<longleftrightarrow> ?f k \<noteq> []" for k
  proof -
    have "map_of (percentile_data data 50) k = None \<longleftrightarrow> ?f k = []"
      using data(2) unfolding describes_def by (metis list.set_intros(1) option.distinct(1))
    then show ?thesis by (auto simp: map_of_eq_None_iff)
  qed
  define u where "u p k = the (map_of (percentile_data data p) k)" for p k
  have u: "map_of (percentile_data data p) k = Some (u p k)" "usage_perc p (?f k) (u p k)" if "p \<in> set ?percs" "k \<in> set ?ks" for p k
    using at[OF that(1) keys[THEN iffD1, OF that(2)]] unfolding u_def by (metis option.sel)+
  let ?S = "\<lambda>p. map (\<lambda>k. \<lparr>su_Name = k, su_CPU = ru_CPUUsageInCores (u p k), su_Mem = ru_MemoryWorkingSetInBytes (u p k)\<rparr>) ?ks"
  have "summarize_keys (percentile_data data p) ?ks = Some (?S p)" if "p \<in> set ?percs" for p
    by (rule summarize_keys_all) (rule u(1)[OF that])
  from summarize_percentiles_all[OF this, of ?percs "[]"] obtain r where
    r: "summarize_percentiles data ?ks ?percs [] = Some r" "su_Get r (show_nat 99) = ?S 99" by (auto simp: su_Get_def)
  have s: "StopAndSummarize ?percs g = Some ((r, None), rg_stop g)"
    using data(1) r(1) by (simp add: StopAndSummarize_def rg_stop_def Let_def del: summarize_percentiles.simps)
  have "show_nat 99 = ''99''" by code_simp
  with r(2) have get: "su_Get r ''99'' = ?S 99" by simp
  have cn: "usage_perc 99 (?f k) (u 99 k) \<and> container_name k \<noteq> None" if "k \<in> set ?ks" for k
    using u(2)[of 99 k] that names keys[of k] by simp
  from usage_verify_loop_decides[OF cn, of ?ks "rm_resourceConstraints e" "re_show env"] nonnil obtain vs where
    vs: "usage_verify_loop (re_show env) (rm_resourceConstraints e) (?S 99) = Some vs"
      "vs = [] \<longleftrightarrow> (\<forall>k \<in> set ?ks. \<forall>n c. container_name k = Some n \<longrightarrow> map_of (rm_resourceConstraints e) n = Some (Some c) \<longrightarrow> within_constraint (?f k) c)"
    by blast
  obtain content where content: "re_pretty env r = Inr content" using pretty by blast
  let ?err = "if 0 < length vs then Some (NewMetricViolationError ''resource constraints''
     (show_nat (length vs) @ '' constraints violated: ['' @ strings_Join vs '' '' @ '']'')) else None"
  have run: "usage_gather env e = Some (([CreateSummary (re_now env) ''ResourceUsageSummary'' ''json'' content], ?err), e\<lparr>rm_gatherer := Some (rg_stop g)\<rparr>)"
    using g s content vs(1) get by (simp add: usage_gather_def verifySummary_def)
  have viol: "\<forall>x. ?err = Some x \<longrightarrow> IsMetricViolationError x"
    by (auto simp: NewMetricViolationError_def IsMetricViolationError_def split: if_splits)
  have "?err = None \<longleftrightarrow> vs = []" by simp
  also have "\<dots> \<longleftrightarrow> (\<forall>k n c. ?f k \<noteq> [] \<longrightarrow> container_name k = Some n \<longrightarrow>
       map_of (rm_resourceConstraints e) n = Some (Some c) \<longrightarrow> within_constraint (?f k) c)" unfolding vs(2) by (simp only: Ball_def keys) blast
  finally show ?thesis using run viol by (intro exI conjI)
qed

definition one_reading :: ContainerResourceUsage where
  "one_reading = \<lparr>ru_Name = ''p/c'', ru_Timestamp = 0, ru_CPUUsageInCores = 2, ru_MemoryUsageInBytes = 5, ru_MemoryWorkingSetInBytes = 5,
     ru_MemoryRSSInBytes = 0, ru_CPUInterval = 0\<rparr>"

definition one_gatherer :: ContainerResourceGatherer where
  "one_gatherer =
     \<lparr>rg_isRunning = True,
      rg_workers = [\<lparr>gw_nodeName = ''n'', gw_containerIDs = [''c''], gw_dataSeries = [[(''p/c'', one_reading)]], gw_finished = True,
        gw_inKubemark = False, gw_resourceDataGatheringPeriod = 1\<rparr>], rg_containerIDs = [''c''],
      rg_options = \<lparr>go_InKubemark = False, go_Nodes = AllNodes, go_ResourceDataGatheringPeriod = 1, go_MasterResourceDataGatheringPeriod = 1\<rparr>\<rparr>"

definition usage_test_env :: usage_env where
  "usage_test_env = \<lparr>re_supported = True, re_kubemark = False, re_nodeCount = 1, re_masterIP = [], re_pods = (\<lambda>_. Inr []), re_nodes = Inr [],
     re_template = (\<lambda>_ _ cs. (cs, None)), re_show = (\<lambda>_. []), re_pretty = (\<lambda>_. Inr ''{}''), re_now = 0\<rparr>"

lemma resource_usage_decided_witness:
  "\<exists>summary err e'. usage_gather usage_test_env
     \<lparr>rm_gatherer = Some one_gatherer, rm_resourceConstraints = [(''c'', Some \<lparr>rc_CPUConstraint = 1, rc_MemoryConstraint = 9\<rparr>)]\<rparr> =
     Some (([summary], err), e') \<and> err \<noteq> None"
proof -
  let ?e = "\<lparr>rm_gatherer = Some one_gatherer, rm_resourceConstraints = [(''c'', Some \<lparr>rc_CPUConstraint = 1, rc_MemoryConstraint = 9\<rparr>)]\<rparr>"
  have f: "first_readings k (rg_workers one_gatherer) = (if k = ''p/c'' then [one_reading] else [])" for k
    by (simp add: one_gatherer_def readings_def)
  have n: "container_name ''p/c'' = Some ''c''" by (simp add: container_name_def slice_at_def)
  have h: "rm_gatherer ?e = Some one_gatherer" "\<forall>w \<in> set (rg_workers one_gatherer). busy w"
    "\<forall>k. first_readings k (rg_workers one_gatherer) \<noteq> [] \<longrightarrow> container_name k \<noteq> None"
    "\<forall>n. map_of (rm_resourceConstraints ?e) n \<noteq> Some None" "\<forall>summary. \<exists>content. re_pretty usage_test_env summary = Inr content"
    by (simp_all add: f n usage_test_env_def) (simp add: one_gatherer_def busy_def)
  obtain summary err e' where r: "usage_gather usage_test_env ?e = Some (([summary], err), e')"
    "err = None \<longleftrightarrow> (\<forall>k n c. first_readings k (rg_workers one_gatherer) \<noteq> [] \<longrightarrow> container_name k = Some n \<longrightarrow>
       map_of (rm_resourceConstraints ?e) n = Some (Some c) \<longrightarrow> within_constraint (first_readings k (rg_workers one_gatherer)) c)"
    using resource_usage_decided[OF h] by (elim exE conjE) (rule that)
  have "\<not> within_constraint [one_reading] \<lparr>rc_CPUConstraint = 1, rc_MemoryConstraint = 9\<rparr>"
    by (simp add: within_constraint_def one_reading_def)
  then have "err \<noteq> None" unfolding r(2) by (auto simp: f n intro!: exI[of _ "''p/c''"])
  with r(1) show ?thesis by (intro exI conjI)
qed

text \<open>
  A worker without a reading hides the others: merging its empty percentiles with what was gathered drops
  everything.  If the last worker has finished without a reading, the summary is empty and no violation is
  reported, whatever the other workers read.
\<close>

theorem idle_worker_hides_usage:
  assumes "rm_gatherer e = Some g" "rg_workers g = ws @ [w]" "\<forall>w \<in> set ws. busy w" "gw_finished w" "gw_dataSeries w = []"
    and "re_pretty env [] = Inr content"
  shows "usage_gather env e = Some (([CreateSummary (re_now env) ''ResourceUsageSummary'' ''json'' content], None), e\<lparr>rm_gatherer := Some (rg_stop g)\<rparr>)"
proof -
  let ?percs = "[50, 90, 99, 100] :: nat list"
  obtain data where data: "merge_workers ?percs ws [] = Some data" using merge_all[OF assms(3)] by blast
  have app: "merge_workers ps (xs @ ys) d = (case merge_workers ps xs d of None \<Rightarrow> None | Some d' \<Rightarrow> merge_workers ps ys d')" for ps xs ys d
    by (induction xs arbitrary: d) (auto split: option.splits)
  have "merge_workers ?percs (rg_workers g) [] = Some []"
    using data assms(4,5) by (simp add: assms(2) app ComputePercentiles_def LeftMergeData_def)
  then have "StopAndSummarize ?percs g = Some (([], None), rg_stop g)"
    by (simp add: StopAndSummarize_def rg_stop_def percentile_data_def sort_strs_def)
  then show ?thesis using assms(1,6) by (simp add: usage_gather_def verifySummary_def su_Get_def)
qed

end
