(* ===== verification/Component_Metrics.thy ===== *)
theory Component_Metrics
  imports Scraping
begin

text \<open>
  Metrics of the components of the cluster: the grabber
  (\<^verbatim>\<open>clusterloader2/pkg/measurement/common/metrics\<close>), the measurement that stores what it grabs
  (\<^verbatim>\<open>metrics_for_e2e.go\<close>) and the restarts of system pods (\<^verbatim>\<open>system_pod_metrics.go\<close>).  The API server and the
  parser of metrics (\<^verbatim>\<open>testutil.ParseMetrics\<close>) are parameters.
\<close>

section \<open>Grabbing metrics\<close>

type_synonym Metrics = "(string, sample list) gomap"

record Collection =
  cl_APIServerMetrics :: Metrics
  cl_ControllerManagerMetrics :: Metrics
  cl_KubeletMetrics :: "(string, Metrics) gomap"
  cl_SchedulerMetrics :: Metrics
  cl_ClusterAutoscalerMetrics :: Metrics

text \<open>
  The clients: nodes with the port of their kubelet, the listing of one node by its name, requests to pods
  (through the external client or not, by namespace and name), to a kubelet (\<open>None\<close> if it times out) and
  to the API server; \<open>gc_external\<close> tells whether there is an external client.
\<close>

record grab_client =
  gc_nodes :: "goerr + (string \<times> int) list"
  gc_node :: "string \<Rightarrow> goerr + (string \<times> int) list"
  gc_external :: bool
  gc_pod :: "bool \<Rightarrow> string \<Rightarrow> string \<Rightarrow> goerr + string"
  gc_kubelet :: "string \<Rightarrow> (goerr + string) option"
  gc_api :: "goerr + string"
  gc_parse :: "string \<Rightarrow> goerr + Metrics"

record Grabber =
  gr_grabFromAPIServer :: bool
  gr_grabFromControllerManager :: bool
  gr_grabFromKubelets :: bool
  gr_grabFromScheduler :: bool
  gr_grabFromClusterAutoscaler :: bool
  gr_masterName :: string
  gr_registeredMaster :: bool

definition deprecatedMightBeMasterNode :: "string \<Rightarrow> bool" where
  "deprecatedMightBeMasterNode nodeName =
     (if HasSuffix nodeName ''master'' then True
      else if 10 \<le> length nodeName then HasSuffix (take (length nodeName - 3) nodeName) ''master-''
      else False)"

definition NewMetricsGrabber :: "grab_client \<Rightarrow> bool \<Rightarrow> bool \<Rightarrow> bool \<Rightarrow> bool \<Rightarrow> bool \<Rightarrow> goerr + Grabber" where
  "NewMetricsGrabber c kubelets scheduler controllers apiServer clusterAutoscaler =
     (case gc_nodes c of
        Inl err \<Rightarrow> Inl err
      | Inr nodes \<Rightarrow>
          (case List.find (\<lambda>(name, _). deprecatedMightBeMasterNode name) nodes of
             Some (name, _) \<Rightarrow>
               Inr \<lparr>gr_grabFromAPIServer = apiServer, gr_grabFromControllerManager = controllers, gr_grabFromKubelets = kubelets,
                    gr_grabFromScheduler = scheduler, gr_grabFromClusterAutoscaler = clusterAutoscaler, gr_masterName = name,
                    gr_registeredMaster = True\<rparr>
           | None \<Rightarrow>
               Inr \<lparr>gr_grabFromAPIServer = apiServer, gr_grabFromControllerManager = False, gr_grabFromKubelets = kubelets,
                    gr_grabFromScheduler = False, gr_grabFromClusterAutoscaler = gc_external c, gr_masterName = [],
                    gr_registeredMaster = False\<rparr>))"

definition getMetricsFromNode :: "grab_client \<Rightarrow> string \<Rightarrow> int \<Rightarrow> goerr + string" where
  "getMetricsFromNode c nodeName kubeletPort =
     (case gc_kubelet c (nodeName @ '':'' @ show_int kubeletPort) of
        None \<Rightarrow> Inl (Errorf (''timed out when waiting for proxy to gather metrics from '' @ nodeName) [])
      | Some (Inl err) \<Rightarrow> Inl err
      | Some (Inr rawOutput) \<Rightarrow> Inr rawOutput)"

definition getMetricsFromPod :: "grab_client \<Rightarrow> bool \<Rightarrow> string \<Rightarrow> string \<Rightarrow> int \<Rightarrow> bool \<Rightarrow> goerr + string" where
  "getMetricsFromPod c external podName namespace port enableHTTPS =
     gc_pod c external namespace ((if enableHTTPS then ''https:'' else []) @ podName @ '':'' @ show_int port)"

text \<open>The metrics of every component are parsed the same way; an error leaves no metrics.\<close>

definition parse_page :: "grab_client \<Rightarrow> goerr + string \<Rightarrow> goerr + Metrics" where
  "parse_page c got = (case got of Inl err \<Rightarrow> Inl err | Inr page \<Rightarrow> gc_parse c page)"

definition grabFromKubeletInternal :: "grab_client \<Rightarrow> string \<Rightarrow> int \<Rightarrow> goerr + Metrics" where
  "grabFromKubeletInternal c nodeName kubeletPort =
     (if kubeletPort \<le> 0 \<or> kubeletPort > 65535
      then Inl (Errorf (''invalid Kubelet port '' @ show_int kubeletPort @ ''. Skipping Kubelet's metrics gathering'') [])
      else parse_page c (getMetricsFromNode c nodeName kubeletPort))"

definition GrabFromKubelet :: "grab_client \<Rightarrow> ((string \<times> int) list \<Rightarrow> string) \<Rightarrow> string \<Rightarrow> goerr + Metrics" where
  "GrabFromKubelet c shw nodeName =
     (case gc_node c nodeName of
        Inl err \<Rightarrow> Inl err
      | Inr nodes \<Rightarrow>
          if length nodes \<noteq> 1 then Inl (Errorf (''error listing nodes with name '' @ nodeName @ '', got '' @ shw nodes) [])
          else grabFromKubeletInternal c nodeName (snd (nodes ! 0)))"

definition GrabFromScheduler :: "grab_client \<Rightarrow> Grabber \<Rightarrow> goerr + Metrics" where
  "GrabFromScheduler c g =
     (if \<not> gr_registeredMaster g then Inl (Errorf ''master's Kubelet is not registered. Skipping Scheduler's metrics gathering'' [])
      else parse_page c (getMetricsFromPod c False (''kube-scheduler-'' @ gr_masterName g) ''kube-system'' 10259 True))"

definition GrabFromClusterAutoscaler :: "grab_client \<Rightarrow> Grabber \<Rightarrow> goerr + Metrics" where
  "GrabFromClusterAutoscaler c g =
     (if \<not> gr_registeredMaster g \<and> \<not> gc_external c
      then Inl (Errorf ''master's Kubelet is not registered. Skipping ClusterAutoscaler's metrics gathering'' [])
      else parse_page c (getMetricsFromPod c (gc_external c) ''cluster-autoscaler''
             (if gc_external c then ''kubemark'' else ''kube-system'') 8085 False))"

definition GrabFromControllerManager :: "grab_client \<Rightarrow> Grabber \<Rightarrow> goerr + Metrics" where
  "GrabFromControllerManager c g =
     (if \<not> gr_registeredMaster g then Inl (Errorf ''master's Kubelet is not registered. Skipping ControllerManager's metrics gathering'' [])
      else parse_page c (getMetricsFromPod c False (''kube-controller-manager-'' @ gr_masterName g) ''kube-system'' 10257 True))"

text \<open>The error of the request to the API server is dropped.\<close>

definition GrabFromAPIServer :: "grab_client \<Rightarrow> goerr + Metrics" where
  "GrabFromAPIServer c = (case gc_api c of Inl _ \<Rightarrow> Inr [] | Inr page \<Rightarrow> gc_parse c page)"

fun grab_kubelets ::
  "grab_client \<Rightarrow> (string \<times> int) list \<Rightarrow> (string, Metrics) gomap \<Rightarrow> goerr list \<Rightarrow> (string, Metrics) gomap \<times> goerr list" where
  "grab_kubelets c [] m errs = (m, errs)"
| "grab_kubelets c ((name, port) # nodes) m errs =
     (case grabFromKubeletInternal c name port of
        Inl err \<Rightarrow> grab_kubelets c nodes (AList.update name [] m) (errs @ [err])
      | Inr metrics \<Rightarrow> grab_kubelets c nodes (AList.update name metrics m) errs)"

definition grab_one :: "bool \<Rightarrow> goerr + Metrics \<Rightarrow> (Metrics \<Rightarrow> Collection \<Rightarrow> Collection) \<Rightarrow> Collection \<times> goerr list \<Rightarrow> Collection \<times> goerr list" where
  "grab_one enabled got put = (\<lambda>(result, errs).
     if \<not> enabled then (result, errs)
     else (case got of Inl err \<Rightarrow> (result, errs @ [err]) | Inr metrics \<Rightarrow> (put metrics result, errs)))"

definition Grab :: "grab_client \<Rightarrow> Grabber \<Rightarrow> Collection \<times> goerr option" where
  "Grab c g =
     (let r = (\<lparr>cl_APIServerMetrics = [], cl_ControllerManagerMetrics = [], cl_KubeletMetrics = [], cl_SchedulerMetrics = [],
                cl_ClusterAutoscalerMetrics = []\<rparr>, []);
          r = grab_one (gr_grabFromAPIServer g) (GrabFromAPIServer c) (\<lambda>m x. x\<lparr>cl_APIServerMetrics := m\<rparr>) r;
          r = grab_one (gr_grabFromScheduler g) (GrabFromScheduler c g) (\<lambda>m x. x\<lparr>cl_SchedulerMetrics := m\<rparr>) r;
          r = grab_one (gr_grabFromControllerManager g) (GrabFromControllerManager c g) (\<lambda>m x. x\<lparr>cl_ControllerManagerMetrics := m\<rparr>) r;
          r = grab_one (gr_grabFromClusterAutoscaler g) (GrabFromClusterAutoscaler c g) (\<lambda>m x. x\<lparr>cl_ClusterAutoscalerMetrics := m\<rparr>) r;
          (result, errs) =
            (if gr_grabFromKubelets g
             then (case gc_nodes c of
                     Inl err \<Rightarrow> (fst r, snd r @ [err])
                   | Inr nodes \<Rightarrow> (case grab_kubelets c nodes [] (snd r) of (m, errs) \<Rightarrow> ((fst r)\<lparr>cl_KubeletMetrics := m\<rparr>, errs)))
             else r)
      in if 0 < length errs then (result, Some (Errorf (''errors while grabbing metrics: '' @ show_errs errs) [])) else (result, None))"

section \<open>Latencies of kubelets\<close>

record KubeletLatencyMetric =
  kl_Operation :: string
  kl_Method :: string
  kl_Quantile :: rat
  kl_Latency :: duration

text \<open>\<open>direct\<close> is the page of the kubelet without a client.\<close>

definition getKubeletMetricsFromNode ::
  "grab_client option \<Rightarrow> (string \<Rightarrow> goerr + Metrics) \<Rightarrow> ((string \<times> int) list \<Rightarrow> string) \<Rightarrow> string \<Rightarrow> goerr + Metrics" where
  "getKubeletMetricsFromNode c direct shw nodeName =
     (case c of
        None \<Rightarrow> direct (''http://'' @ nodeName @ ''/metrics'')
      | Some c \<Rightarrow>
          (case NewMetricsGrabber c True False False False False of
             Inl err \<Rightarrow> Inl err
           | Inr grabber \<Rightarrow> GrabFromKubelet c shw nodeName))"

definition kubelet_prefix :: string where "kubelet_prefix = ''kubelet_''"

definition trim_kubelet :: "Metrics \<Rightarrow> Metrics" where
  "trim_kubelet ms =
     fold (\<lambda>(name, samples) m. if take (length kubelet_prefix) name = kubelet_prefix
                                 then AList.update (drop (length kubelet_prefix) name) samples m else m) ms []"

definition GetKubeletMetrics ::
  "grab_client option \<Rightarrow> (string \<Rightarrow> goerr + Metrics) \<Rightarrow> ((string \<times> int) list \<Rightarrow> string) \<Rightarrow> string \<Rightarrow> goerr + Metrics" where
  "GetKubeletMetrics c direct shw nodeName =
     (case getKubeletMetricsFromNode c direct shw nodeName of Inl err \<Rightarrow> Inl err | Inr ms \<Rightarrow> Inr (trim_kubelet ms))"

definition kubelet_latency :: "(string \<Rightarrow> goerr + rat) \<Rightarrow> string \<Rightarrow> sample \<Rightarrow> KubeletLatencyMetric option" where
  "kubelet_latency parse_float name s =
     (case (case map_of (sm_Metric s) ''quantile'' of None \<Rightarrow> Inr 0 | Some val \<Rightarrow> parse_float val) of
        Inl _ \<Rightarrow> None
      | Inr quantile \<Rightarrow>
          Some \<lparr>kl_Operation = label s ''operation_type'', kl_Method = name, kl_Quantile = quantile,
                kl_Latency = wrap 64 (trunc_rat (sm_Value s) * 1000)\<rparr>)"

definition GetKubeletLatencyMetrics :: "(string \<Rightarrow> goerr + rat) \<Rightarrow> Metrics \<Rightarrow> string set \<Rightarrow> KubeletLatencyMetric list" where
  "GetKubeletLatencyMetrics parse_float ms filterMetricNames =
     concat (map (\<lambda>(name, samples). if name \<notin> filterMetricNames then [] else somes (map (kubelet_latency parse_float name) samples)) ms)"

definition GetDefaultKubeletLatencyMetrics :: "(string \<Rightarrow> goerr + rat) \<Rightarrow> Metrics \<Rightarrow> KubeletLatencyMetric list" where
  "GetDefaultKubeletLatencyMetrics parse_float ms =
     GetKubeletLatencyMetrics parse_float ms
       {''pod_worker_duration_seconds'', ''pod_worker_start_duration_seconds'', ''pod_start_duration_seconds'',
        ''cgroup_manager_duration_seconds'', ''pleg_relist_duration_seconds''}"

definition HighLatencyKubeletOperations ::
  "(string \<Rightarrow> goerr + rat) \<Rightarrow> goerr + Metrics \<Rightarrow> duration \<Rightarrow> goerr + KubeletLatencyMetric list" where
  "HighLatencyKubeletOperations parse_float got threshold =
     (case got of
        Inl err \<Rightarrow> Inl err
      | Inr ms \<Rightarrow>
          Inr (filter (\<lambda>m. kl_Latency m > threshold)
                 (sort_key (\<lambda>m. - kl_Latency m) (GetDefaultKubeletLatencyMetrics parse_float ms))))"

section \<open>The measurement of all metrics\<close>

definition interestingKubeletMetricsLabels :: "string list" where
  "interestingKubeletMetricsLabels =
     [''kubelet_container_manager_latency_microseconds'', ''kubelet_docker_errors'', ''kubelet_docker_operations_latency_microseconds'',
      ''kubelet_generate_pod_status_latency_microseconds'', ''kubelet_pod_start_latency_microseconds'',
      ''kubelet_pod_worker_latency_microseconds'', ''kubelet_pod_worker_start_latency_microseconds'',
      ''kubelet_sync_pods_latency_microseconds'']"

definition filterMetrics :: "Collection \<Rightarrow> Collection" where
  "filterMetrics m =
     m\<lparr>cl_KubeletMetrics := map (\<lambda>(kubelet, grabbed). (kubelet,
         map (\<lambda>metric. (metric, case map_of grabbed metric of None \<Rightarrow> [] | Some ss \<Rightarrow> ss)) interestingKubeletMetricsLabels))
         (cl_KubeletMetrics m)\<rparr>"

definition e2e_Execute ::
  "grab_client \<Rightarrow> bool \<Rightarrow> (Collection \<Rightarrow> goerr + string) \<Rightarrow> gotime \<Rightarrow> MeasurementConfig \<Rightarrow> genericSummary list \<times> goerr option" where
  "e2e_Execute c supportKubelets pretty now config =
     (case GetBoolOrDefault (mc_Params config) ''gatherKubeletsMetrics'' False of
        Inl err \<Rightarrow> ([], Some err)
      | Inr grabMetricsFromKubelets \<Rightarrow>
     (case NewMetricsGrabber c (grabMetricsFromKubelets \<and> supportKubelets) True True True False of
        Inl err \<Rightarrow> ([], Some (Errorf (''failed to create MetricsGrabber: '' @ err_msg err) []))
      | Inr grabber \<Rightarrow>
     (case Grab c grabber of
        (received, err) \<Rightarrow>
          (case pretty (filterMetrics received) of
             Inl jsonErr \<Rightarrow> ([], Some jsonErr)
           | Inr content \<Rightarrow> ([CreateSummary now ''MetricsForE2E'' ''json'' content], err)))))"

section \<open>Restarts of system pods\<close>

record containerMetrics =
  cm_Name :: string
  cm_RestartCount :: int
  cm_LastRestartReason :: string

record podMetrics =
  pt_Name :: string
  pt_Containers :: "containerMetrics list"

text \<open>A pod of the system namespace: its containers with restart count and the text of the last termination.\<close>

record SystemPod =
  sp_Name :: string
  sp_Containers :: "(string \<times> int \<times> string option) list"

definition extractMetrics :: "SystemPod list \<Rightarrow> podMetrics list" where
  "extractMetrics lst =
     map (\<lambda>pod. \<lparr>pt_Name = sp_Name pod,
            pt_Containers = map (\<lambda>(name, restarts, terminated).
              \<lparr>cm_Name = name, cm_RestartCount = restarts, cm_LastRestartReason = (case terminated of None \<Rightarrow> [] | Some t \<Rightarrow> t)\<rparr>) (sp_Containers pod)\<rparr>) lst"

definition init_restarts :: "podMetrics list \<Rightarrow> (string, (string, int) gomap) gomap" where
  "init_restarts pods =
     fold (\<lambda>pod m. AList.update (pt_Name pod) (fold (\<lambda>c. AList.update (cm_Name c) (cm_RestartCount c)) (pt_Containers pod) []) m) pods []"

definition subtractInitialRestartCounts :: "podMetrics list \<Rightarrow> podMetrics list \<Rightarrow> podMetrics list" where
  "subtractInitialRestartCounts metrics initMetrics =
     (let initRestarts = init_restarts initMetrics
      in map (\<lambda>pod. pod\<lparr>pt_Containers := map (\<lambda>c.
           (case map_of initRestarts (pt_Name pod) of
              None \<Rightarrow> c
            | Some initPod \<Rightarrow>
                (case map_of initPod (cm_Name c) of
                   None \<Rightarrow> c
                 | Some initRestartCount \<Rightarrow> c\<lparr>cm_RestartCount := wrap 32 (cm_RestartCount c - initRestartCount)\<rparr>)))
           (pt_Containers pod)\<rparr>) metrics)"

definition getMaxAllowedRestarts :: "string \<Rightarrow> (string, int) gomap \<Rightarrow> int" where
  "getMaxAllowedRestarts containerName thresholdOverrides =
     (case map_of thresholdOverrides containerName of
        Some override \<Rightarrow> override
      | None \<Rightarrow> (case map_of thresholdOverrides ''default'' of Some override \<Rightarrow> override | None \<Rightarrow> 0))"

definition restart_violation :: "(string, int) gomap \<Rightarrow> string \<Rightarrow> containerMetrics \<Rightarrow> string list" where
  "restart_violation overrides pod c =
     (let maxAllowedRestarts = getMaxAllowedRestarts (cm_Name c) overrides
      in if cm_RestartCount c > wrap 32 maxAllowedRestarts
         then [''RestartCount('' @ pod @ '', '' @ cm_Name c @ '')='' @ show_int (cm_RestartCount c) @ '', want <= '' @ show_int maxAllowedRestarts]
         else [])"

definition validateRestartCounts :: "podMetrics list \<Rightarrow> params \<Rightarrow> (string, int) gomap \<Rightarrow> goerr option" where
  "validateRestartCounts metrics ps overrides =
     (case GetBoolOrDefault ps ''enableRestartCountCheck'' False of
        Inl err \<Rightarrow> Some err
      | Inr enabled \<Rightarrow>
          if \<not> enabled then None
          else
            let violations = concat (map (\<lambda>p. concat (map (restart_violation overrides (pt_Name p)) (pt_Containers p))) metrics)
            in if length violations = 0 then None
               else Some (Errorf (''restart counts violation: '' @ strings_Join violations ''; '') []))"

text \<open>\<open>yaml\<close> is \<^verbatim>\<open>yaml.Unmarshal\<close> into a map from names to numbers.\<close>

definition getThresholdOverrides :: "(string \<Rightarrow> goerr + (string, int) gomap) \<Rightarrow> params \<Rightarrow> goerr + (string, int) gomap" where
  "getThresholdOverrides yaml ps =
     (case GetStringOrDefault ps ''restartCountThresholdOverrides'' [] of
        Inl err \<Rightarrow> Inr []
      | Inr serialized \<Rightarrow> yaml serialized)"

record syspods_env =
  ye_pods :: "goerr + SystemPod list"
  ye_yaml :: "string \<Rightarrow> goerr + (string, int) gomap"
  ye_pretty :: "podMetrics list \<Rightarrow> goerr + string"
  ye_now :: gotime

definition sp_buildSummary :: "syspods_env \<Rightarrow> podMetrics list \<Rightarrow> goerr + genericSummary list" where
  "sp_buildSummary env metrics =
     (case ye_pretty env metrics of
        Inl err \<Rightarrow> Inl err
      | Inr content \<Rightarrow> Inr [CreateSummary (ye_now env) ''SystemPodMetrics'' ''json'' content])"

text \<open>The state of the measurement is the snapshot that the start took.\<close>

definition syspods_Execute ::
  "syspods_env \<Rightarrow> params \<Rightarrow> podMetrics list option \<Rightarrow> (genericSummary list \<times> goerr option) \<times> podMetrics list option" where
  "syspods_Execute env ps initSnapshot =
     (case GetBoolOrDefault ps ''systemPodMetricsEnabled'' False of
        Inl err \<Rightarrow> (([], Some err), initSnapshot)
      | Inr systemPodMetricsEnabled \<Rightarrow>
          if \<not> systemPodMetricsEnabled then (([], None), initSnapshot)
          else
     (case ye_pods env of
        Inl err \<Rightarrow> (([], Some err), initSnapshot)
      | Inr lst \<Rightarrow>
     (let metrics = extractMetrics lst in
      case getString ps ''action'' of
        Inl err \<Rightarrow> (([], Some err), initSnapshot)
      | Inr action \<Rightarrow>
     (case getThresholdOverrides (ye_yaml env) ps of
        Inl err \<Rightarrow> (([], Some err), initSnapshot)
      | Inr overrides \<Rightarrow>
          if action = ''start'' then (([], None), Some metrics)
          else if action = ''gather'' then
            (case initSnapshot of
               None \<Rightarrow> (([], Some (Errorf ''start needs to be executed before gather'' [])), initSnapshot)
             | Some init \<Rightarrow>
                 let metrics = subtractInitialRestartCounts metrics init
                 in (case sp_buildSummary env metrics of
                       Inl err \<Rightarrow> (([], Some err), initSnapshot)
                     | Inr summary \<Rightarrow> ((summary, validateRestartCounts metrics ps overrides), initSnapshot)))
          else (([], Some (Errorf (''unknown action '' @ action) [])), initSnapshot)))))"

section \<open>Which nodes are control planes, and when grabbing succeeds\<close>

lemma HasSuffix_iff: "HasSuffix s suf \<longleftrightarrow> (\<exists>pre. s = pre @ suf)"
proof
  assume "HasSuffix s suf"
  then have "s = take (length s - length suf) s @ suf" by (metis HasSuffix_def append_take_drop_id)
  then show "\<exists>pre. s = pre @ suf" ..
qed (auto simp: HasSuffix_def)

text \<open>The test of the name is the regular expression \<^verbatim>\<open>master(-...)?$\<close> that its comment gives.\<close>

theorem mightBeMaster_regexp:
  "deprecatedMightBeMasterNode name \<longleftrightarrow>
     (\<exists>pre. name = pre @ ''master'') \<or> (\<exists>pre suf. length suf = 3 \<and> name = pre @ ''master-'' @ suf)"
proof -
  have "10 \<le> length name \<and> HasSuffix (take (length name - 3) name) ''master-'' \<longleftrightarrow>
      (\<exists>pre suf. length suf = 3 \<and> name = pre @ ''master-'' @ suf)" (is "?l \<longleftrightarrow> ?r")
  proof
    assume l: ?l
    then obtain pre where "take (length name - 3) name = pre @ ''master-''" by (auto simp: HasSuffix_iff)
    then have "name = pre @ ''master-'' @ drop (length name - 3) name" by (metis append.assoc append_take_drop_id)
    moreover have "length (drop (length name - 3) name) = 3" using l by simp
    ultimately show ?r by blast
  next
    assume ?r
    then obtain pre suf where name: "length suf = 3" "name = (pre @ ''master-'') @ suf" by auto
    have "take (length name - 3) name = pre @ ''master-''" unfolding name(2) length_append name(1) by simp
    then show ?l using name by (auto simp: HasSuffix_iff)
  qed
  then show ?thesis by (auto simp: deprecatedMightBeMasterNode_def HasSuffix_iff)
qed

lemma grab_kubelets_errs:
  "snd (grab_kubelets c nodes m errs) = [] \<longleftrightarrow> errs = [] \<and> (\<forall>(name, port) \<in> set nodes. \<exists>x. grabFromKubeletInternal c name port = Inr x)"
  by (induction c nodes m errs rule: grab_kubelets.induct) (auto split: sum.splits)

lemma grab_one_errs:
  "snd (grab_one enabled got put r) = [] \<longleftrightarrow> snd r = [] \<and> (enabled \<longrightarrow> (\<exists>m. got = Inr m))"
  by (cases r) (auto simp: grab_one_def split: sum.splits)

lemma Grab_ok:
  "snd (Grab c g) = None \<longleftrightarrow>
     (gr_grabFromAPIServer g \<longrightarrow> (\<exists>m. GrabFromAPIServer c = Inr m)) \<and>
     (gr_grabFromScheduler g \<longrightarrow> (\<exists>m. GrabFromScheduler c g = Inr m)) \<and>
     (gr_grabFromControllerManager g \<longrightarrow> (\<exists>m. GrabFromControllerManager c g = Inr m)) \<and>
     (gr_grabFromClusterAutoscaler g \<longrightarrow> (\<exists>m. GrabFromClusterAutoscaler c g = Inr m)) \<and>
     (gr_grabFromKubelets g \<longrightarrow> (\<exists>nodes. gc_nodes c = Inr nodes \<and> (\<forall>(name, port) \<in> set nodes. \<exists>x. grabFromKubeletInternal c name port = Inr x)))"
proof -
  define r where "r = grab_one (gr_grabFromClusterAutoscaler g) (GrabFromClusterAutoscaler c g) (\<lambda>m x. x\<lparr>cl_ClusterAutoscalerMetrics := m\<rparr>)
     (grab_one (gr_grabFromControllerManager g) (GrabFromControllerManager c g) (\<lambda>m x. x\<lparr>cl_ControllerManagerMetrics := m\<rparr>)
     (grab_one (gr_grabFromScheduler g) (GrabFromScheduler c g) (\<lambda>m x. x\<lparr>cl_SchedulerMetrics := m\<rparr>)
     (grab_one (gr_grabFromAPIServer g) (GrabFromAPIServer c) (\<lambda>m x. x\<lparr>cl_APIServerMetrics := m\<rparr>)
       (\<lparr>cl_APIServerMetrics = [], cl_ControllerManagerMetrics = [], cl_KubeletMetrics = [], cl_SchedulerMetrics = [],
         cl_ClusterAutoscalerMetrics = []\<rparr>, []))))"
  have r: "snd r = [] \<longleftrightarrow> (gr_grabFromAPIServer g \<longrightarrow> (\<exists>m. GrabFromAPIServer c = Inr m)) \<and>
     (gr_grabFromScheduler g \<longrightarrow> (\<exists>m. GrabFromScheduler c g = Inr m)) \<and>
     (gr_grabFromControllerManager g \<longrightarrow> (\<exists>m. GrabFromControllerManager c g = Inr m)) \<and>
     (gr_grabFromClusterAutoscaler g \<longrightarrow> (\<exists>m. GrabFromClusterAutoscaler c g = Inr m))"
    unfolding r_def grab_one_errs by auto
  let ?k = "if gr_grabFromKubelets g
             then (case gc_nodes c of
                     Inl err \<Rightarrow> (fst r, snd r @ [err])
                   | Inr nodes \<Rightarrow> (case grab_kubelets c nodes [] (snd r) of (m, errs) \<Rightarrow> ((fst r)\<lparr>cl_KubeletMetrics := m\<rparr>, errs)))
             else r"
  have "snd (Grab c g) = None \<longleftrightarrow> snd ?k = []"
    unfolding Grab_def Let_def r_def[symmetric] by (auto split: prod.splits)
  also have "\<dots> \<longleftrightarrow> snd r = [] \<and> (gr_grabFromKubelets g \<longrightarrow>
      (\<exists>nodes. gc_nodes c = Inr nodes \<and> (\<forall>(name, port) \<in> set nodes. \<exists>x. grabFromKubeletInternal c name port = Inr x)))"
    by (cases "gc_nodes c") (auto simp: case_prod_unfold grab_kubelets_errs)
  finally show ?thesis unfolding r by blast
qed

text \<open>
  The metrics of all components.  The measurement always stores what it could grab, and reports an
  error exactly if the metrics of the scheduler or of the controller manager of a registered control plane,
  or of an enabled kubelet, could not be grabbed, or the page of the API server not be parsed; a failing
  request to the API server is not reported.
\<close>

theorem metrics_grab_decided:
  assumes "GetBoolOrDefault (mc_Params config) ''gatherKubeletsMetrics'' False = Inr kubelets" and nodes: "gc_nodes c = Inr nodes"
    and "\<forall>m. \<exists>content. pretty m = Inr content"
  shows "\<exists>summary err. e2e_Execute c supported pretty now config = ([summary], err) \<and>
    (err = None \<longleftrightarrow>
      (\<forall>page. gc_api c = Inr page \<longrightarrow> (\<exists>m. gc_parse c page = Inr m)) \<and>
      (case List.find (\<lambda>(name, _). deprecatedMightBeMasterNode name) nodes of
         None \<Rightarrow> gc_external c \<longrightarrow> (\<exists>m. parse_page c (gc_pod c True ''kubemark'' (''cluster-autoscaler:'' @ show_int 8085)) = Inr m)
       | Some (name, _) \<Rightarrow>
           (\<exists>m. parse_page c (gc_pod c False ''kube-system'' (''https:kube-scheduler-'' @ name @ '':'' @ show_int 10259)) = Inr m) \<and>
           (\<exists>m. parse_page c (gc_pod c False ''kube-system'' (''https:kube-controller-manager-'' @ name @ '':'' @ show_int 10257)) = Inr m)) \<and>
      (kubelets \<and> supported \<longrightarrow> (\<forall>(name, port) \<in> set nodes. \<exists>m. grabFromKubeletInternal c name port = Inr m)))"
proof -
  obtain g where g: "NewMetricsGrabber c (kubelets \<and> supported) True True True False = Inr g"
    using nodes by (cases "List.find (\<lambda>(name, _). deprecatedMightBeMasterNode name) nodes") (auto simp: NewMetricsGrabber_def)
  obtain received err where gr: "Grab c g = (received, err)" by (cases "Grab c g")
  obtain content where "pretty (filterMetrics received) = Inr content" using assms(3) by blast
  then have ex: "e2e_Execute c supported pretty now config = ([CreateSummary now ''MetricsForE2E'' ''json'' content], err)"
    using assms(1) g gr by (simp add: e2e_Execute_def)
  have api: "(\<exists>m. GrabFromAPIServer c = Inr m) \<longleftrightarrow> (\<forall>page. gc_api c = Inr page \<longrightarrow> (\<exists>m. gc_parse c page = Inr m))"
    by (auto simp: GrabFromAPIServer_def split: sum.splits)
  have err: "err = None \<longleftrightarrow> snd (Grab c g) = None" by (simp add: gr)
  show ?thesis
  proof (cases "List.find (\<lambda>(name, _). deprecatedMightBeMasterNode name) nodes")
    case None
    then have "g = \<lparr>gr_grabFromAPIServer = True, gr_grabFromControllerManager = False, gr_grabFromKubelets = kubelets \<and> supported,
        gr_grabFromScheduler = False, gr_grabFromClusterAutoscaler = gc_external c, gr_masterName = [], gr_registeredMaster = False\<rparr>"
      using g nodes by (simp add: NewMetricsGrabber_def)
    then have "err = None \<longleftrightarrow> (\<forall>page. gc_api c = Inr page \<longrightarrow> (\<exists>m. gc_parse c page = Inr m)) \<and>
        (gc_external c \<longrightarrow> (\<exists>m. parse_page c (gc_pod c True ''kubemark'' (''cluster-autoscaler:'' @ show_int 8085)) = Inr m)) \<and>
        (kubelets \<and> supported \<longrightarrow> (\<forall>(name, port) \<in> set nodes. \<exists>m. grabFromKubeletInternal c name port = Inr m))"
      unfolding err Grab_ok api by (simp add: nodes GrabFromClusterAutoscaler_def getMetricsFromPod_def)
    with ex show ?thesis unfolding None option.case by (intro exI conjI)
  next
    case (Some n)
    obtain name port where n: "n = (name, port)" by (cases n)
    have "g = \<lparr>gr_grabFromAPIServer = True, gr_grabFromControllerManager = True, gr_grabFromKubelets = kubelets \<and> supported,
        gr_grabFromScheduler = True, gr_grabFromClusterAutoscaler = False, gr_masterName = name, gr_registeredMaster = True\<rparr>"
      using g nodes Some n by (simp add: NewMetricsGrabber_def)
    then have "err = None \<longleftrightarrow> (\<forall>page. gc_api c = Inr page \<longrightarrow> (\<exists>m. gc_parse c page = Inr m)) \<and>
        ((\<exists>m. parse_page c (gc_pod c False ''kube-system'' (''https:kube-scheduler-'' @ name @ '':'' @ show_int 10259)) = Inr m) \<and>
         (\<exists>m. parse_page c (gc_pod c False ''kube-system'' (''https:kube-controller-manager-'' @ name @ '':'' @ show_int 10257)) = Inr m)) \<and>
        (kubelets \<and> supported \<longrightarrow> (\<forall>(name, port) \<in> set nodes. \<exists>m. grabFromKubeletInternal c name port = Inr m))"
      unfolding err Grab_ok api by (simp add: nodes GrabFromScheduler_def GrabFromControllerManager_def getMetricsFromPod_def)
    with ex show ?thesis unfolding Some n option.case prod.case by (intro exI conjI)
  qed
qed

section \<open>Restarts during the test\<close>

text \<open>The restarts of a container that an earlier listing shows; 0 if it does not show the container.\<close>

definition restarts_in :: "SystemPod list \<Rightarrow> string \<Rightarrow> string \<Rightarrow> int" where
  "restarts_in pods pod c =
     (case map_of (map (\<lambda>p. (sp_Name p, sp_Containers p)) pods) pod of
        None \<Rightarrow> 0
      | Some cs \<Rightarrow> (case map_of cs c of None \<Rightarrow> 0 | Some (n, _) \<Rightarrow> n))"

lemma fold_update_map_of:
  "distinct (map f xs) \<Longrightarrow> map_of (fold (\<lambda>x. AList.update (f x) (h x)) xs m) k =
     (case map_of (map (\<lambda>x. (f x, h x)) xs) k of None \<Rightarrow> map_of m k | Some v \<Rightarrow> Some v)"
proof (induction xs arbitrary: m)
  case (Cons x xs)
  have "map_of (map (\<lambda>x. (f x, h x)) xs) (f x) = None" using Cons.prems by (auto simp: map_of_eq_None_iff)
  with Cons show ?case by (auto simp: go_map split: option.splits)
qed simp

definition names_ok :: "SystemPod list \<Rightarrow> bool" where
  "names_ok pods \<longleftrightarrow> distinct (map sp_Name pods) \<and> (\<forall>p \<in> set pods. distinct (map fst (sp_Containers p)))"

lemma init_restarts_at:
  assumes "names_ok pods"
  shows "(case map_of (init_restarts (extractMetrics pods)) pod of None \<Rightarrow> None | Some m \<Rightarrow> map_of m c) =
    (case map_of (map (\<lambda>p. (sp_Name p, sp_Containers p)) pods) pod of None \<Rightarrow> None | Some cs \<Rightarrow> map_option fst (map_of cs c))"
proof -
  let ?conv = "\<lambda>(name, restarts, terminated). \<lparr>cm_Name = name, cm_RestartCount = restarts, cm_LastRestartReason = (case terminated of None \<Rightarrow> [] | Some t \<Rightarrow> t)\<rparr>"
  let ?inner = "\<lambda>p. fold (\<lambda>c. AList.update (cm_Name c) (cm_RestartCount c)) (map ?conv (sp_Containers p)) []"
  have pods: "map_of (init_restarts (extractMetrics pods)) pod = map_of (map (\<lambda>p. (sp_Name p, ?inner p)) pods) pod"
    using assms fold_update_map_of[of pt_Name "extractMetrics pods" "\<lambda>p. fold (\<lambda>c. AList.update (cm_Name c) (cm_RestartCount c)) (pt_Containers p) []" "[]" pod]
    by (simp add: init_restarts_def extractMetrics_def names_ok_def comp_def split: option.splits)
  have inner: "map_of (?inner p) c = map_option fst (map_of (sp_Containers p) c)" if "p \<in> set pods" for p
  proof -
    have names: "map cm_Name (map ?conv cs) = map fst cs" for cs by (induction cs) auto
    have "map_of (?inner p) c = map_of (map (\<lambda>x. (cm_Name x, cm_RestartCount x)) (map ?conv (sp_Containers p))) c"
      using fold_update_map_of[of cm_Name "map ?conv (sp_Containers p)" cm_RestartCount "[]" c] assms that
      unfolding names by (simp add: names_ok_def split: option.splits)
    also have "map_of (map (\<lambda>x. (cm_Name x, cm_RestartCount x)) (map ?conv cs)) c = map_option fst (map_of cs c)" for cs by (induction cs) auto
    finally show ?thesis .
  qed
  have "(case map_of (map (\<lambda>p. (sp_Name p, ?inner p)) ps) pod of None \<Rightarrow> None | Some m \<Rightarrow> map_of m c) =
    (case map_of (map (\<lambda>p. (sp_Name p, sp_Containers p)) ps) pod of None \<Rightarrow> None | Some cs \<Rightarrow> map_option fst (map_of cs c))"
    if "set ps \<subseteq> set pods" for ps using that inner by (induction ps) auto
  then show ?thesis unfolding pods by blast
qed

lemma subtract_counts:
  assumes "names_ok pods"
  shows "subtractInitialRestartCounts (extractMetrics lst) (extractMetrics pods) =
    map (\<lambda>pod. \<lparr>pt_Name = sp_Name pod, pt_Containers = map (\<lambda>(name, restarts, terminated).
      \<lparr>cm_Name = name,
       cm_RestartCount = (case (case map_of (map (\<lambda>p. (sp_Name p, sp_Containers p)) pods) (sp_Name pod) of None \<Rightarrow> None | Some cs \<Rightarrow> map_option fst (map_of cs name)) of
          None \<Rightarrow> restarts | Some n \<Rightarrow> wrap 32 (restarts - n)),
       cm_LastRestartReason = (case terminated of None \<Rightarrow> [] | Some t \<Rightarrow> t)\<rparr>) (sp_Containers pod)\<rparr>) lst"
  unfolding init_restarts_at[OF assms, symmetric]
  by (auto simp: subtractInitialRestartCounts_def extractMetrics_def Let_def comp_def split: option.splits)

text \<open>
  C34: Restarts of system pods.  When a start listed the pods \<open>before\<close> and a gather lists the pods \<open>after\<close>, with
  the check enabled, one summary is stored and an error reported exactly if a container restarted more
  often in between than its override, or the default one, allows; where the override counts as
  an \<^verbatim>\<open>int32\<close>, so that one above the range of \<^verbatim>\<open>int32\<close> allows no restart.  A container that was not there
  at the start counts with all its restarts.
\<close>

theorem system_pod_restarts_decided:
  assumes enabled: "GetBoolOrDefault ps0 ''systemPodMetricsEnabled'' False = Inr True" "GetBoolOrDefault ps ''systemPodMetricsEnabled'' False = Inr True"
    and actions: "getString ps0 ''action'' = Inr ''start''" "getString ps ''action'' = Inr ''gather''"
    and overrides: "getThresholdOverrides (ye_yaml env0) ps0 = Inr overrides0" "getThresholdOverrides (ye_yaml env) ps = Inr overrides"
    and check: "GetBoolOrDefault ps ''enableRestartCountCheck'' False = Inr True"
    and pods: "ye_pods env0 = Inr before" "ye_pods env = Inr after" "names_ok before"
    and counts: "\<forall>p \<in> set (before @ after). \<forall>(_, n, _) \<in> set (sp_Containers p). 0 \<le> n \<and> n < 2 ^ 31"
    and pretty: "\<forall>m. \<exists>content. ye_pretty env m = Inr content"
  shows "\<exists>init summary err. syspods_Execute env0 ps0 snapshot = (([], None), Some init) \<and>
    syspods_Execute env ps (Some init) = (([summary], err), Some init) \<and>
    (err = None \<longleftrightarrow> (\<forall>p \<in> set after. \<forall>(c, n, _) \<in> set (sp_Containers p).
       n - restarts_in before (sp_Name p) c \<le> wrap 32 (getMaxAllowedRestarts c overrides)))"
proof -
  let ?init = "extractMetrics before" and ?m = "subtractInitialRestartCounts (extractMetrics after) (extractMetrics before)"
  have start: "syspods_Execute env0 ps0 snapshot = (([], None), Some ?init)"
    using enabled(1) actions(1) overrides(1) pods(1) by (simp add: syspods_Execute_def)
  obtain content where "ye_pretty env ?m = Inr content" using pretty by blast
  then have gather: "syspods_Execute env ps (Some ?init) =
      (([CreateSummary (ye_now env) ''SystemPodMetrics'' ''json'' content], validateRestartCounts ?m ps overrides), Some ?init)"
    using enabled(2) actions(2) overrides(2) pods(2) by (simp add: syspods_Execute_def sp_buildSummary_def)
  have count: "(case (case map_of (map (\<lambda>p. (sp_Name p, sp_Containers p)) before) pod of None \<Rightarrow> None | Some cs \<Rightarrow> map_option fst (map_of cs c)) of
      None \<Rightarrow> n | Some k \<Rightarrow> wrap 32 (n - k)) = n - restarts_in before pod c" if n: "0 \<le> n" "n < 2 ^ 31" for pod c n
  proof (cases "map_of (map (\<lambda>p. (sp_Name p, sp_Containers p)) before) pod")
    case (Some cs)
    show ?thesis
    proof (cases "map_of cs c")
      case at: (Some x)
      obtain k t where x: "x = (k, t)" by (cases x)
      from Some obtain p where p: "p \<in> set before" "sp_Containers p = cs" by (auto dest!: map_of_SomeD)
      have "(c, k, t) \<in> set (sp_Containers p)" using at x p by (auto dest!: map_of_SomeD)
      then have k: "0 \<le> k" "k < 2 ^ 31" using counts p(1) by fastforce+
      with n have "wrap 32 (n - k) = n - k" by (intro wrap_id) (auto simp: fits_def)
      then show ?thesis using Some at x by (simp add: restarts_in_def)
    qed (simp add: Some restarts_in_def)
  qed (simp add: restarts_in_def)
  have viol: "restart_violation overrides pod c = [] \<longleftrightarrow> cm_RestartCount c \<le> wrap 32 (getMaxAllowedRestarts (cm_Name c) overrides)" for pod c
    by (simp add: restart_violation_def Let_def not_less)
  have "validateRestartCounts ?m ps overrides = None \<longleftrightarrow>
      (\<forall>p \<in> set ?m. \<forall>c \<in> set (pt_Containers p). cm_RestartCount c \<le> wrap 32 (getMaxAllowedRestarts (cm_Name c) overrides))"
    by (simp add: validateRestartCounts_def check Let_def viol)
  also have "\<dots> \<longleftrightarrow> (\<forall>p \<in> set after. \<forall>(c, n, _) \<in> set (sp_Containers p).
       n - restarts_in before (sp_Name p) c \<le> wrap 32 (getMaxAllowedRestarts c overrides))"
    unfolding subtract_counts[OF pods(3)] using counts by (fastforce simp: count)
  finally show ?thesis using start gather by (intro exI conjI)
qed

definition syspods_test_env :: "int \<Rightarrow> syspods_env" where
  "syspods_test_env n = \<lparr>ye_pods = Inr [\<lparr>sp_Name = ''dns'', sp_Containers = [(''kubedns'', n, None)]\<rparr>], ye_yaml = (\<lambda>_. Inr []),
     ye_pretty = (\<lambda>_. Inr ''{}''), ye_now = 0\<rparr>"

definition restart_params :: "string \<Rightarrow> params" where
  "restart_params action = [(''systemPodMetricsEnabled'', VBool True), (''enableRestartCountCheck'', VBool True), (''action'', VString action)]"

lemma system_pod_restarts_decided_witness:
  "\<exists>init summary err. syspods_Execute (syspods_test_env 2) (restart_params ''start'') None = (([], None), Some init) \<and>
    syspods_Execute (syspods_test_env 3) (restart_params ''gather'') (Some init) = (([summary], err), Some init) \<and> err \<noteq> None"
proof -
  let ?pods = "\<lambda>n. [\<lparr>sp_Name = ''dns'', sp_Containers = [(''kubedns'', n :: int, None)]\<rparr>]"
  have ps: "GetBoolOrDefault (restart_params a) ''systemPodMetricsEnabled'' False = Inr True"
    "GetBoolOrDefault (restart_params a) ''enableRestartCountCheck'' False = Inr True" "getString (restart_params a) ''action'' = Inr a"
    "getThresholdOverrides (ye_yaml (syspods_test_env n)) (restart_params a) = Inr []" for a n
    by (simp_all add: restart_params_def GetBoolOrDefault_def getBool_def or_default_def getString_def getThresholdOverrides_def
        GetStringOrDefault_def IsErrKeyNotFound_def syspods_test_env_def)
  have pods: "ye_pods (syspods_test_env n) = Inr (?pods n)" for n by (simp add: syspods_test_env_def)
  have ok: "names_ok (?pods 2)" "\<forall>p \<in> set (?pods 2 @ ?pods 3). \<forall>(_, n, _) \<in> set (sp_Containers p). 0 \<le> n \<and> n < 2 ^ 31"
    "\<forall>m. \<exists>content. ye_pretty (syspods_test_env 3) m = Inr content"
    by (simp_all add: names_ok_def syspods_test_env_def)
  obtain init summary err where r: "syspods_Execute (syspods_test_env 2) (restart_params ''start'') None = (([], None), Some init)"
    "syspods_Execute (syspods_test_env 3) (restart_params ''gather'') (Some init) = (([summary], err), Some init)"
    "err = None \<longleftrightarrow> (\<forall>p \<in> set (?pods 3). \<forall>(c, n, _) \<in> set (sp_Containers p).
       n - restarts_in (?pods 2) (sp_Name p) c \<le> wrap 32 (getMaxAllowedRestarts c []))"
    using system_pod_restarts_decided[OF ps(1) ps(1) ps(3) ps(3) ps(4) ps(4) ps(2) pods pods ok(1) ok(2) ok(3), of None]
    by (elim exE conjE) (rule that)
  have "err \<noteq> None" unfolding r(3) by (simp add: restarts_in_def getMaxAllowedRestarts_def wrap_def)
  with r(1,2) show ?thesis by (intro exI conjI)
qed

end
