(* ===== verification/Template_Functions.thy ===== *)
theory Template_Functions
  imports Scraping Modifier
begin

text \<open>
  The functions that test configurations call from templates (\<^verbatim>\<open>pkg/config/template_functions.go\<close>).  They take
  values behind \<^verbatim>\<open>interface{}\<close> and compute in \<^verbatim>\<open>float64\<close>, also where their name says \<^verbatim>\<open>Int\<close>.  A result
  \<open>None\<close> is a panic.  Random numbers, files and the YAML encoder are parameters.
\<close>

section \<open>Floating point arithmetic\<close>

text \<open>
  A finite result is rounded and becomes an infinity beyond the largest number.  A negative zero is a
  zero: the functions do not tell them apart.
\<close>

definition round64 :: "rat \<Rightarrow> gofloat" where
  "round64 q = (let r = fl q in if 2 ^ 1024 \<le> r then PosInf else if r \<le> - (2 ^ 1024) then NegInf else Fin r)"

fun fneg :: "gofloat \<Rightarrow> gofloat" where
  "fneg NaN = NaN"
| "fneg NegInf = PosInf"
| "fneg PosInf = NegInf"
| "fneg (Fin q) = Fin (- q)"

fun fadd :: "gofloat \<Rightarrow> gofloat \<Rightarrow> gofloat" where
  "fadd NaN _ = NaN"
| "fadd _ NaN = NaN"
| "fadd PosInf NegInf = NaN"
| "fadd NegInf PosInf = NaN"
| "fadd PosInf _ = PosInf"
| "fadd _ PosInf = PosInf"
| "fadd NegInf _ = NegInf"
| "fadd _ NegInf = NegInf"
| "fadd (Fin a) (Fin b) = round64 (a + b)"

definition signed_inf :: "rat \<Rightarrow> gofloat" where
  "signed_inf s = (if s = 0 then NaN else if s < 0 then NegInf else PosInf)"

fun fsgn :: "gofloat \<Rightarrow> rat" where
  "fsgn (Fin q) = sgn q"
| "fsgn NegInf = - 1"
| "fsgn PosInf = 1"
| "fsgn NaN = 0"

fun fmul :: "gofloat \<Rightarrow> gofloat \<Rightarrow> gofloat" where
  "fmul NaN _ = NaN"
| "fmul _ NaN = NaN"
| "fmul (Fin a) (Fin b) = round64 (a * b)"
| "fmul a b = signed_inf (fsgn a * fsgn b)"

text \<open>Division by a number other than zero.\<close>

fun fdiv :: "gofloat \<Rightarrow> gofloat \<Rightarrow> gofloat" where
  "fdiv NaN _ = NaN"
| "fdiv _ NaN = NaN"
| "fdiv (Fin a) (Fin b) = round64 (a / b)"
| "fdiv (Fin a) _ = Fin 0"
| "fdiv a (Fin b) = signed_inf (fsgn a * fsgn (Fin b))"
| "fdiv _ _ = NaN"

text \<open>\<^verbatim>\<open>math.Max\<close> and \<^verbatim>\<open>math.Min\<close>: an infinity that decides the result wins over NaN.\<close>

definition math_Max :: "gofloat \<Rightarrow> gofloat \<Rightarrow> gofloat" where
  "math_Max a b = (if a = PosInf \<or> b = PosInf then PosInf else if a = NaN \<or> b = NaN then NaN else max a b)"

definition math_Min :: "gofloat \<Rightarrow> gofloat \<Rightarrow> gofloat" where
  "math_Min a b = (if a = NegInf \<or> b = NegInf then NegInf else if a = NaN \<or> b = NaN then NaN else min a b)"

section \<open>Values and their conversion\<close>

text \<open>The dynamic types that the functions distinguish; \<open>GOther\<close> is a value of any other type.\<close>

datatype goval =
    GNil
  | GBool bool
  | GFloat64 gofloat
  | GFloat32 gofloat
  | GInt64 int
  | GInt32 int
  | GInt int
  | GUint64 int
  | GUint32 int
  | GUint int
  | GString string
  | GInts "int list"
  | GStrings "string list"
  | GOther string

text \<open>The name that \<^verbatim>\<open>%T\<close> prints.\<close>

fun type_name :: "goval \<Rightarrow> string" where
  "type_name GNil = ''<nil>''"
| "type_name (GBool _) = ''bool''"
| "type_name (GFloat64 _) = ''float64''"
| "type_name (GFloat32 _) = ''float32''"
| "type_name (GInt64 _) = ''int64''"
| "type_name (GInt32 _) = ''int32''"
| "type_name (GInt _) = ''int''"
| "type_name (GUint64 _) = ''uint64''"
| "type_name (GUint32 _) = ''uint32''"
| "type_name (GUint _) = ''uint''"
| "type_name (GString _) = ''string''"
| "type_name (GInts _) = ''[]int''"
| "type_name (GStrings _) = ''[]string''"
| "type_name (GOther t) = t"

text \<open>
  What the functions use of the libraries: \<^verbatim>\<open>strconv.ParseFloat\<close>, the integer that a number outside of the
  range of \<^verbatim>\<open>int\<close> becomes, the generators of random numbers (\<open>tf_intn n\<close> is the next
  \<^verbatim>\<open>globalRand.Intn(n)\<close>, the others are sequences of \<^verbatim>\<open>Intn(62)\<close>), paths, files and YAML.
\<close>

record tmpl_env =
  tf_ParseFloat :: "string \<Rightarrow> gofloat option"
  tf_conv :: "gofloat \<Rightarrow> int"
  tf_intn :: "int \<Rightarrow> int"
  tf_global :: "nat \<Rightarrow> nat"
  tf_seeded :: "string \<Rightarrow> nat \<Rightarrow> nat"
  tf_IsAbs :: "string \<Rightarrow> bool"
  tf_binaryDir :: "string option"
  tf_Join :: "string \<Rightarrow> string \<Rightarrow> string"
  tf_ExpandEnv :: "string \<Rightarrow> string"
  tf_ReadFile :: "string \<Rightarrow> goerr + string"
  tf_fsReadFile :: "string \<Rightarrow> goerr + string"
  tf_Marshal :: "string \<Rightarrow> string \<times> goerr option"

fun toFloat64 :: "tmpl_env \<Rightarrow> goval \<Rightarrow> gofloat option" where
  "toFloat64 env (GFloat64 x) = Some x"
| "toFloat64 env (GFloat32 x) = Some x"
| "toFloat64 env (GInt64 i) = Some (round64 (of_int i))"
| "toFloat64 env (GInt32 i) = Some (round64 (of_int i))"
| "toFloat64 env (GInt i) = Some (round64 (of_int i))"
| "toFloat64 env (GUint64 i) = Some (round64 (of_int i))"
| "toFloat64 env (GUint32 i) = Some (round64 (of_int i))"
| "toFloat64 env (GUint i) = Some (round64 (of_int i))"
| "toFloat64 env (GString s) = tf_ParseFloat env s"
| "toFloat64 env _ = None"

text \<open>The conversion \<^verbatim>\<open>int(x)\<close>.\<close>

definition float_int :: "tmpl_env \<Rightarrow> gofloat \<Rightarrow> int" where
  "float_int env x = (case x of Fin q \<Rightarrow> if fits 64 (trunc_rat q) then trunc_rat q else tf_conv env x | _ \<Rightarrow> tf_conv env x)"

definition to_int :: "tmpl_env \<Rightarrow> goval \<Rightarrow> int option" where
  "to_int env v = map_option (float_int env) (toFloat64 env v)"

section \<open>Random data\<close>

definition rand_alphabet :: string where
  "rand_alphabet = ''0123456789abcdefghijklmnopqrstuvwxyzABCDEFGHIJKLMNOPQRSTUVWXYZ''"

text \<open>\<^verbatim>\<open>make\<close> panics for a negative length.\<close>

definition randString :: "(nat \<Rightarrow> nat) \<Rightarrow> int \<Rightarrow> string option" where
  "randString draw len = (if len < 0 then None else Some (map (\<lambda>i. rand_alphabet ! draw i) [0..<nat len]))"

definition randData :: "tmpl_env \<Rightarrow> goval \<Rightarrow> string option" where
  "randData env i = Option.bind (to_int env i) (randString (tf_global env))"

definition randDataWithSeed :: "tmpl_env \<Rightarrow> goval \<Rightarrow> goval \<Rightarrow> string option" where
  "randDataWithSeed env i j =
     Option.bind (to_int env i) (\<lambda>typedI.
       if typedI = 0 then Some []
       else (case j of GString typedJ \<Rightarrow> randString (tf_seeded env typedJ) typedI | _ \<Rightarrow> None))"

text \<open>\<^verbatim>\<open>Intn\<close> panics unless its argument is positive.\<close>

definition rand_Intn :: "tmpl_env \<Rightarrow> int \<Rightarrow> int option" where
  "rand_Intn env n = (if n \<le> 0 then None else Some (tf_intn env n))"

definition randInt :: "tmpl_env \<Rightarrow> goval \<Rightarrow> int option" where
  "randInt env i = Option.bind (to_int env i) (\<lambda>typedI. rand_Intn env (wrap 64 (typedI + 1)))"

definition randIntRange :: "tmpl_env \<Rightarrow> goval \<Rightarrow> goval \<Rightarrow> int option" where
  "randIntRange env i j =
     Option.bind (to_int env i) (\<lambda>typedI.
       Option.bind (to_int env j) (\<lambda>typedJ.
         if typedI \<ge> typedJ then Some typedI
         else map_option (\<lambda>d. wrap 64 (typedI + d)) (rand_Intn env (wrap 64 (wrap 64 (typedJ - typedI) + 1)))))"

section \<open>Arithmetic\<close>

fun fold_floats :: "tmpl_env \<Rightarrow> (gofloat \<Rightarrow> gofloat \<Rightarrow> gofloat) \<Rightarrow> goval list \<Rightarrow> gofloat \<Rightarrow> gofloat option" where
  "fold_floats env f [] acc = Some acc"
| "fold_floats env f (number # numbers) acc =
     (case toFloat64 env number of None \<Rightarrow> None | Some x \<Rightarrow> fold_floats env f numbers (f acc x))"

definition addFloat :: "tmpl_env \<Rightarrow> goval list \<Rightarrow> gofloat option" where
  "addFloat env numbers = fold_floats env fadd numbers (Fin 0)"

definition subtractFloat :: "tmpl_env \<Rightarrow> goval \<Rightarrow> goval \<Rightarrow> gofloat option" where
  "subtractFloat env i j =
     Option.bind (toFloat64 env i) (\<lambda>typedI. map_option (\<lambda>typedJ. fadd typedI (fneg typedJ)) (toFloat64 env j))"

definition multiplyFloat :: "tmpl_env \<Rightarrow> goval list \<Rightarrow> gofloat option" where
  "multiplyFloat env numbers = fold_floats env fmul numbers (Fin 1)"

definition divideFloat :: "tmpl_env \<Rightarrow> goval \<Rightarrow> goval \<Rightarrow> gofloat option" where
  "divideFloat env i j =
     Option.bind (toFloat64 env i) (\<lambda>typedI.
       Option.bind (toFloat64 env j) (\<lambda>typedJ. if typedJ = Fin 0 then None else Some (fdiv typedI typedJ)))"

definition addInt :: "tmpl_env \<Rightarrow> goval list \<Rightarrow> int option" where
  "addInt env numbers = map_option (float_int env) (addFloat env numbers)"

definition subtractInt :: "tmpl_env \<Rightarrow> goval \<Rightarrow> goval \<Rightarrow> int option" where
  "subtractInt env i j = map_option (float_int env) (subtractFloat env i j)"

definition multiplyInt :: "tmpl_env \<Rightarrow> goval list \<Rightarrow> int option" where
  "multiplyInt env numbers = map_option (float_int env) (multiplyFloat env numbers)"

definition divideInt :: "tmpl_env \<Rightarrow> goval \<Rightarrow> goval \<Rightarrow> int option" where
  "divideInt env i j = map_option (float_int env) (divideFloat env i j)"

definition maxFloat :: "tmpl_env \<Rightarrow> goval list \<Rightarrow> gofloat option" where
  "maxFloat env numbers =
     (case numbers of [] \<Rightarrow> None
      | number # _ \<Rightarrow> Option.bind (toFloat64 env number) (fold_floats env math_Max numbers))"

definition minFloat :: "tmpl_env \<Rightarrow> goval list \<Rightarrow> gofloat option" where
  "minFloat env numbers =
     (case numbers of [] \<Rightarrow> None
      | number # _ \<Rightarrow> Option.bind (toFloat64 env number) (fold_floats env math_Min numbers))"

definition maxInt :: "tmpl_env \<Rightarrow> goval list \<Rightarrow> int option" where
  "maxInt env numbers = map_option (float_int env) (maxFloat env numbers)"

definition minInt :: "tmpl_env \<Rightarrow> goval list \<Rightarrow> int option" where
  "minInt env numbers = map_option (float_int env) (minFloat env numbers)"

text \<open>The remainder by zero panics.\<close>

definition mod_func :: "tmpl_env \<Rightarrow> goval \<Rightarrow> goval \<Rightarrow> int option" where
  "mod_func env a b =
     Option.bind (to_int env a) (\<lambda>x. Option.bind (to_int env b) (\<lambda>y. if y = 0 then None else Some (go_mod x y)))"

fun math_Ceil :: "gofloat \<Rightarrow> gofloat" where
  "math_Ceil (Fin q) = Fin (of_int \<lceil>q\<rceil>)"
| "math_Ceil x = x"

definition ceil_func :: "tmpl_env \<Rightarrow> goval \<Rightarrow> gofloat option" where
  "ceil_func env i = map_option math_Ceil (toFloat64 env i)"

section \<open>Parameters, files and strings\<close>

definition defaultParam :: "goval \<Rightarrow> goval \<Rightarrow> goval" where
  "defaultParam param defaultValue = (if param = GNil then defaultValue else param)"

definition type_err :: "goval \<Rightarrow> string \<Rightarrow> goerr" where
  "type_err v want = Errorf (''incorrect argument type: got: '' @ type_name v @ '' want: '' @ want) []"

definition includeFile :: "tmpl_env \<Rightarrow> goval \<Rightarrow> goerr + string" where
  "includeFile env file =
     (case file of
        GString fileStr \<Rightarrow>
          let fileStr = (if \<not> tf_IsAbs env fileStr
                         then (case tf_binaryDir env of None \<Rightarrow> fileStr | Some d \<Rightarrow> tf_Join env d fileStr) else fileStr)
          in (case tf_ReadFile env (tf_ExpandEnv env fileStr) of
                Inl err \<Rightarrow> Inl (Errorf (''unable to read file: '' @ err_msg err) [])
              | Inr data \<Rightarrow> Inr data)
      | v \<Rightarrow> Inl (type_err v ''string''))"

definition includeEmbedFile :: "tmpl_env \<Rightarrow> goval \<Rightarrow> goerr + string" where
  "includeEmbedFile env file =
     (case file of
        GString fileStr \<Rightarrow>
          (case tf_fsReadFile env fileStr of
             Inl err \<Rightarrow> Inl (Errorf (''unable to read file: '' @ err_msg err) [])
           | Inr data \<Rightarrow> Inr data)
      | v \<Rightarrow> Inl (type_err v ''string''))"

text \<open>Every line break is followed by the indentation; \<^verbatim>\<open>strings.Repeat\<close> panics for a negative count.\<close>

definition indent_lines :: "string \<Rightarrow> string \<Rightarrow> string" where
  "indent_lines tabsStr s = concat (map (\<lambda>c. if c = CHR 0x0A then c # tabsStr else [c]) s)"

definition yamlQuote :: "tmpl_env \<Rightarrow> goval \<Rightarrow> goval \<Rightarrow> (string \<times> goerr option) option" where
  "yamlQuote env strInt tabsInt =
     (case strInt of
        GString str \<Rightarrow>
          (case tabsInt of
             GInt tabs \<Rightarrow>
               if tabs < 0 then None
               else let tabsStr = concat (replicate (nat tabs) ''  ''); (b, err) = tf_Marshal env str
                    in Some (indent_lines tabsStr b, err)
           | v \<Rightarrow> Some ([], Some (type_err v ''int'')))
      | v \<Rightarrow> Some ([], Some (type_err v ''string'')))"

definition ifThenElse :: "goval \<Rightarrow> goval \<Rightarrow> goval \<Rightarrow> goerr + goval" where
  "ifThenElse conditionVal thenVal elseVal =
     (case conditionVal of
        GBool condition \<Rightarrow> Inr (if condition then thenVal else elseVal)
      | v \<Rightarrow> Inl (type_err v ''bool''))"

definition sliceOfZeros :: "tmpl_env \<Rightarrow> goval \<Rightarrow> int list option" where
  "sliceOfZeros env sz = Option.bind (to_int env sz) (\<lambda>n. if n < 0 then None else Some (replicate (nat n) 0))"

definition seq_func :: "tmpl_env \<Rightarrow> goval \<Rightarrow> int list option" where
  "seq_func env sz = sliceOfZeros env sz"

definition loop_func :: "tmpl_env \<Rightarrow> goval \<Rightarrow> int list option" where
  "loop_func env sz = Option.bind (to_int env sz) (\<lambda>n. if n < 0 then None else Some (map int [0..<nat n]))"

definition stringSplit :: "string \<Rightarrow> string list" where
  "stringSplit s = strings_Split s (CHR '','')"

definition concat_func :: "string list \<Rightarrow> string" where
  "concat_func items = fold (\<lambda>item ret. ret @ item) items []"

section \<open>The table of functions\<close>

text \<open>
  The outcome of a call from a template: a value, an error, a panic, or \<open>FArgs\<close> when the template engine
  refuses the number or the types of the arguments.
\<close>

datatype fresult = FVal goval | FErr goerr | FPanic | FArgs

definition ret :: "('a \<Rightarrow> goval) \<Rightarrow> 'a option \<Rightarrow> fresult" where
  "ret mk r = (case r of None \<Rightarrow> FPanic | Some x \<Rightarrow> FVal (mk x))"

definition ret_err :: "('a \<Rightarrow> goval) \<Rightarrow> goerr + 'a \<Rightarrow> fresult" where
  "ret_err mk r = (case r of Inl e \<Rightarrow> FErr e | Inr x \<Rightarrow> FVal (mk x))"

definition call1 :: "(goval \<Rightarrow> fresult) \<Rightarrow> goval list \<Rightarrow> fresult" where
  "call1 f args = (case args of [a] \<Rightarrow> f a | _ \<Rightarrow> FArgs)"

definition call2 :: "(goval \<Rightarrow> goval \<Rightarrow> fresult) \<Rightarrow> goval list \<Rightarrow> fresult" where
  "call2 f args = (case args of [a, b] \<Rightarrow> f a b | _ \<Rightarrow> FArgs)"

definition call3 :: "(goval \<Rightarrow> goval \<Rightarrow> goval \<Rightarrow> fresult) \<Rightarrow> goval list \<Rightarrow> fresult" where
  "call3 f args = (case args of [a, b, c] \<Rightarrow> f a b c | _ \<Rightarrow> FArgs)"

definition string_arg :: "(string \<Rightarrow> fresult) \<Rightarrow> goval \<Rightarrow> fresult" where
  "string_arg f v = (case v of GString s \<Rightarrow> f s | _ \<Rightarrow> FArgs)"

fun strings_of :: "goval list \<Rightarrow> string list option" where
  "strings_of [] = Some []"
| "strings_of (GString s # vs) = map_option ((#) s) (strings_of vs)"
| "strings_of (_ # vs) = None"

definition GetFuncs :: "tmpl_env \<Rightarrow> (string, goval list \<Rightarrow> fresult) gomap" where
  "GetFuncs env =
     [(''AddFloat'', \<lambda>as. ret GFloat64 (addFloat env as)),
      (''AddInt'', \<lambda>as. ret GInt (addInt env as)),
      (''Ceil'', call1 (\<lambda>a. ret GFloat64 (ceil_func env a))),
      (''DefaultParam'', call2 (\<lambda>a b. FVal (defaultParam a b))),
      (''DivideFloat'', call2 (\<lambda>a b. ret GFloat64 (divideFloat env a b))),
      (''DivideInt'', call2 (\<lambda>a b. ret GInt (divideInt env a b))),
      (''IfThenElse'', call3 (\<lambda>a b c. ret_err id (ifThenElse a b c))),
      (''IncludeFile'', call1 (\<lambda>a. ret_err GString (includeFile env a))),
      (''IncludeEmbedFile'', call1 (\<lambda>a. ret_err GString (includeEmbedFile env a))),
      (''Loop'', call1 (\<lambda>a. ret GInts (loop_func env a))),
      (''Lowercase'', call1 (string_arg (\<lambda>s. FVal (GString (ToLower s))))),
      (''MaxFloat'', \<lambda>as. ret GFloat64 (maxFloat env as)),
      (''MaxInt'', \<lambda>as. ret GInt (maxInt env as)),
      (''MinFloat'', \<lambda>as. ret GFloat64 (minFloat env as)),
      (''MinInt'', \<lambda>as. ret GInt (minInt env as)),
      (''Mod'', call2 (\<lambda>a b. ret GInt (mod_func env a b))),
      (''MultiplyFloat'', \<lambda>as. ret GFloat64 (multiplyFloat env as)),
      (''MultiplyInt'', \<lambda>as. ret GInt (multiplyInt env as)),
      (''RandData'', call1 (\<lambda>a. ret GString (randData env a))),
      (''RandDataWithSeed'', call2 (\<lambda>a b. ret GString (randDataWithSeed env a b))),
      (''RandInt'', call1 (\<lambda>a. ret GInt (randInt env a))),
      (''RandIntRange'', call2 (\<lambda>a b. ret GInt (randIntRange env a b))),
      (''Seq'', call1 (\<lambda>a. ret GInts (seq_func env a))),
      (''SliceOfZeros'', call1 (\<lambda>a. ret GInts (sliceOfZeros env a))),
      (''StringSplit'', call1 (string_arg (\<lambda>s. FVal (GStrings (stringSplit s))))),
      (''SubtractFloat'', call2 (\<lambda>a b. ret GFloat64 (subtractFloat env a b))),
      (''SubtractInt'', call2 (\<lambda>a b. ret GInt (subtractInt env a b))),
      (''YamlQuote'', call2 (\<lambda>a b. case yamlQuote env a b of None \<Rightarrow> FPanic | Some (s, None) \<Rightarrow> FVal (GString s) | Some (s, Some e) \<Rightarrow> FErr e)),
      (''Concat'', \<lambda>as. case strings_of as of None \<Rightarrow> FArgs | Some ss \<Rightarrow> FVal (GString (concat_func ss)))]"

definition call_template :: "tmpl_env \<Rightarrow> string \<Rightarrow> goval list \<Rightarrow> fresult" where
  "call_template env f args = (case map_of (GetFuncs env) f of None \<Rightarrow> FArgs | Some g \<Rightarrow> g args)"

section \<open>Integers below \<open>2 ^ 53\<close> are exact\<close>

text \<open>A value that denotes the integer \<open>n\<close>, in any of the numeric types.\<close>

definition small_int :: "goval \<Rightarrow> int \<Rightarrow> bool" where
  "small_int v n \<longleftrightarrow> \<bar>n\<bar> < 2 ^ 53 \<and>
     v \<in> {GInt n, GInt64 n, GInt32 n, GUint64 n, GUint32 n, GUint n, GFloat64 (Fin (of_int n)), GFloat32 (Fin (of_int n))}"

lemma two_powers: "(2 :: rat) ^ 55 < 2 ^ 1024"
  by (rule power_strict_increasing) simp_all

lemma round64_near: "\<bar>q\<bar> \<le> 2 ^ 54 \<Longrightarrow> round64 q = Fin (fl q)"
proof -
  assume q: "\<bar>q\<bar> \<le> 2 ^ 54"
  have "\<bar>q\<bar> / 2 ^ 53 \<le> \<bar>q\<bar>" by (simp add: divide_le_eq mult_left_le)
  with go_fl.rnd_err[of q] have "\<bar>fl q - q\<bar> \<le> \<bar>q\<bar>" by (rule order_trans)
  then have "\<bar>fl q\<bar> \<le> 2 ^ 55" using q by simp
  with two_powers have "\<not> 2 ^ 1024 \<le> fl q" "\<not> fl q \<le> - (2 ^ 1024)" by linarith+
  then show ?thesis by (simp only: round64_def Let_def if_False)
qed

lemma round64_53: "\<bar>q\<bar> \<le> 2 ^ 53 \<Longrightarrow> round64 q = Fin (fl q)"
  by (rule round64_near) simp

lemma abs_of_int_le: "\<bar>n\<bar> \<le> 2 ^ 53 \<Longrightarrow> \<bar>of_int n :: rat\<bar> \<le> 2 ^ 53"
  by (metis of_int_abs of_int_le_iff of_int_numeral of_int_power)

lemma round64_int: "\<bar>n\<bar> \<le> 2 ^ 53 \<Longrightarrow> round64 (of_int n) = Fin (of_int n)"
  by (simp add: round64_53 abs_of_int_le go_fl.rnd_int)

lemma small_int_float: "small_int v n \<Longrightarrow> toFloat64 env v = Some (Fin (of_int n))"
  by (auto simp: small_int_def round64_int)

lemma trunc_of_int [simp]: "trunc_rat (of_int n) = n"
  by (simp add: trunc_rat_def)

lemma float_int_of_int: "\<bar>n\<bar> \<le> 2 ^ 53 \<Longrightarrow> float_int env (Fin (of_int n)) = n"
  by (simp add: float_int_def fits_def abs_le_iff)

lemma small_to_int: "small_int v n \<Longrightarrow> to_int env v = Some n"
  by (simp add: to_int_def small_int_float float_int_of_int small_int_def)

text \<open>Folding an operation that is exact on every prefix.\<close>

lemma fold_floats_exact:
  assumes f: "\<And>a b. \<bar>g a b\<bar> \<le> 2 ^ 53 \<Longrightarrow> f (Fin (of_int a)) (Fin (of_int b)) = Fin (of_int (g a b))"
  shows "list_all2 small_int vs ns \<Longrightarrow> (\<forall>k \<le> length ns. \<bar>foldl g acc (take k ns)\<bar> \<le> 2 ^ 53) \<Longrightarrow>
     fold_floats env f vs (Fin (of_int acc)) = Some (Fin (of_int (foldl g acc ns)))"
proof (induction vs ns arbitrary: acc rule: list_all2_induct)
  case (Cons v vs n ns)
  have "\<bar>g acc n\<bar> \<le> 2 ^ 53" using Cons.prems[rule_format, of 1] by simp
  moreover have "\<forall>k \<le> length ns. \<bar>foldl g (g acc n) (take k ns)\<bar> \<le> 2 ^ 53"
  proof (intro allI impI)
    fix k assume "k \<le> length ns"
    then show "\<bar>foldl g (g acc n) (take k ns)\<bar> \<le> 2 ^ 53" using Cons.prems[rule_format, of "Suc k"] by simp
  qed
  ultimately show ?case using Cons.IH Cons.hyps by (simp add: small_int_float f)
qed simp

lemma foldl_sum: "foldl (+) (a :: int) ns = a + sum_list ns"
  by (induction ns arbitrary: a) simp_all

lemma foldl_prod: "foldl (*) (a :: int) ns = a * prod_list ns"
  by (induction ns arbitrary: a) simp_all

lemma fadd_exact: "\<bar>a + b\<bar> \<le> 2 ^ 53 \<Longrightarrow> fadd (Fin (of_int a)) (Fin (of_int b)) = Fin (of_int (a + b))"
  using round64_int[of "a + b"] by simp

lemma fmul_exact: "\<bar>a * b\<bar> \<le> 2 ^ 53 \<Longrightarrow> fmul (Fin (of_int a)) (Fin (of_int b)) = Fin (of_int (a * b))"
  using round64_int[of "a * b"] by simp

lemma math_Max_exact: "math_Max (Fin (of_int a)) (Fin (of_int b)) = Fin (of_int (max a b))"
  by (auto simp: math_Max_def max_def less_eq_gofloat_def)

lemma math_Min_exact: "math_Min (Fin (of_int a)) (Fin (of_int b)) = Fin (of_int (min a b))"
  by (auto simp: math_Min_def min_def less_eq_gofloat_def)

lemma foldl_bounded:
  assumes "\<And>a b. \<bar>a\<bar> \<le> 2 ^ 53 \<Longrightarrow> \<bar>b\<bar> \<le> 2 ^ 53 \<Longrightarrow> \<bar>g a (b :: int)\<bar> \<le> (2 ^ 53 :: int)"
  shows "\<bar>acc\<bar> \<le> 2 ^ 53 \<Longrightarrow> (\<forall>n \<in> set ns. \<bar>n\<bar> \<le> 2 ^ 53) \<Longrightarrow> \<bar>foldl g acc ns\<bar> \<le> 2 ^ 53"
  by (induction ns arbitrary: acc) (simp_all add: assms[simplified])

lemma small_ints_bounded: "list_all2 small_int vs ns \<Longrightarrow> n \<in> set ns \<Longrightarrow> \<bar>n\<bar> < 2 ^ 53"
  by (induction rule: list_all2_induct) (auto simp: small_int_def)

lemma prefixes_bounded:
  assumes "\<And>a b. \<bar>a\<bar> \<le> 2 ^ 53 \<Longrightarrow> \<bar>b\<bar> \<le> 2 ^ 53 \<Longrightarrow> \<bar>g a b\<bar> \<le> (2 ^ 53 :: int)"
    and "list_all2 small_int vs ns" "\<bar>acc\<bar> \<le> 2 ^ 53"
  shows "\<forall>k \<le> length ns. \<bar>foldl g acc (take k ns)\<bar> \<le> 2 ^ 53"
  using assms(3) small_ints_bounded[OF assms(2)]
  by (intro allI impI foldl_bounded[OF assms(1)]) (auto dest!: in_set_takeD intro: less_imp_le)

lemma foldl_max_Max: "foldl max (n :: int) ns = Max (set (n # ns))"
proof (induction ns arbitrary: n)
  case (Cons m ns)
  then show ?case by (cases "ns = []") (simp_all add: max.assoc)
qed simp

lemma foldl_min_Min: "foldl min (n :: int) ns = Min (set (n # ns))"
proof (induction ns arbitrary: n)
  case (Cons m ns)
  then show ?case by (cases "ns = []") (simp_all add: min.assoc)
qed simp

lemma maxInt_exact:
  assumes "list_all2 small_int vs ns" "ns \<noteq> []"
  shows "maxInt env vs = Some (Max (set ns))"
proof -
  obtain v vs' n ns' where vn: "vs = v # vs'" "ns = n # ns'" using assms by (cases vs; cases ns) auto
  have n: "small_int v n" using assms vn by simp
  have b: "\<bar>n\<bar> \<le> 2 ^ 53" using n by (simp add: small_int_def)
  have all: "\<forall>k \<le> length ns. \<bar>foldl max n (take k ns)\<bar> \<le> 2 ^ 53"
    by (rule prefixes_bounded[OF _ assms(1) b]) (auto simp: max_def)
  have "fold_floats env math_Max vs (Fin (of_int n)) = Some (Fin (of_int (foldl max n ns)))"
    by (rule fold_floats_exact[OF _ assms(1) all]) (rule math_Max_exact)
  moreover have "\<bar>foldl max n ns\<bar> \<le> 2 ^ 53" using all[rule_format, of "length ns"] by simp
  moreover have "foldl max n ns = Max (set ns)" by (simp add: foldl_max_Max vn del: foldl.simps)
  ultimately show ?thesis
    using small_int_float[OF n] by (simp add: maxInt_def maxFloat_def vn float_int_of_int del: fold_floats.simps)
qed

lemma minInt_exact:
  assumes "list_all2 small_int vs ns" "ns \<noteq> []"
  shows "minInt env vs = Some (Min (set ns))"
proof -
  obtain v vs' n ns' where vn: "vs = v # vs'" "ns = n # ns'" using assms by (cases vs; cases ns) auto
  have n: "small_int v n" using assms vn by simp
  have b: "\<bar>n\<bar> \<le> 2 ^ 53" using n by (simp add: small_int_def)
  have all: "\<forall>k \<le> length ns. \<bar>foldl min n (take k ns)\<bar> \<le> 2 ^ 53"
    by (rule prefixes_bounded[OF _ assms(1) b]) (auto simp: min_def)
  have "fold_floats env math_Min vs (Fin (of_int n)) = Some (Fin (of_int (foldl min n ns)))"
    by (rule fold_floats_exact[OF _ assms(1) all]) (rule math_Min_exact)
  moreover have "\<bar>foldl min n ns\<bar> \<le> 2 ^ 53" using all[rule_format, of "length ns"] by simp
  moreover have "foldl min n ns = Min (set ns)" by (simp add: foldl_min_Min vn del: foldl.simps)
  ultimately show ?thesis
    using small_int_float[OF n] by (simp add: minInt_def minFloat_def vn float_int_of_int del: fold_floats.simps)
qed

text \<open>The quotient is truncated towards zero, as the integer division of the language does.\<close>

lemma trunc_rat_neg: "trunc_rat (- x) = - trunc_rat x"
  by (simp add: trunc_rat_def floor_minus ceiling_minus)

lemma trunc_quotient_nat:
  assumes "0 < k" "x < 2 ^ 53"
  shows "trunc_rat (fl (of_nat x / of_nat k)) = int (x div k)"
proof -
  have "0 \<le> fl (of_nat x / of_nat k)" by (rule go_fl.rnd_nonneg) simp
  then show ?thesis using go_fl.rnd_quotient_floor(1)[OF assms] by (simp add: trunc_rat_def not_less)
qed

lemma trunc_quotient:
  assumes "\<bar>n\<bar> < 2 ^ 53" "m \<noteq> 0"
  shows "trunc_rat (fl (of_int n / of_int m)) = go_div n m"
proof -
  let ?q = "of_nat (nat \<bar>n\<bar>) / of_nat (nat \<bar>m\<bar>) :: rat"
  have t: "trunc_rat (fl ?q) = \<bar>n\<bar> div \<bar>m\<bar>"
    using trunc_quotient_nat[of "nat \<bar>m\<bar>" "nat \<bar>n\<bar>"] assms by (simp add: nat_less_iff zdiv_int)
  have q: "of_int n / of_int m = (of_int (sgn n * sgn m) :: rat) * ?q"
    using assms(2) by (simp add: sgn_if)
  consider "sgn n * sgn m = 1" | "sgn n * sgn m = - 1" | "n = 0"
    using assms(2) by (cases "n = 0"; cases "0 < n"; cases "0 < m") simp_all
  then show ?thesis
  proof cases
    case 1 then show ?thesis using t by (simp add: q go_div_def)
  next
    case 2 then show ?thesis using t by (simp add: q go_div_def fl_neg_cases trunc_rat_neg)
  next
    case 3 then show ?thesis by (simp add: fl_def trunc_rat_def go_div_def)
  qed
qed

lemma quotient_bounded: "\<bar>n\<bar> < 2 ^ 53 \<Longrightarrow> m \<noteq> 0 \<Longrightarrow> \<bar>of_int n / of_int m :: rat\<bar> \<le> 2 ^ 53"
proof -
  assume n: "\<bar>n\<bar> < 2 ^ 53" and m: "m \<noteq> 0"
  have "1 \<le> \<bar>of_int m :: rat\<bar>" using m by (metis int_one_le_iff_zero_less of_int_1_le_iff of_int_abs zero_less_abs_iff)
  moreover have "\<bar>of_int n :: rat\<bar> \<le> 2 ^ 53" using n by (intro abs_of_int_le) simp
  ultimately show ?thesis by (simp add: abs_divide divide_le_eq)
qed

lemma go_div_bounded: "\<bar>go_div n m\<bar> \<le> \<bar>n\<bar>"
proof (cases "m = 0 \<or> n = 0")
  case False
  then have "\<bar>go_div n m\<bar> = \<bar>n\<bar> div \<bar>m\<bar>" by (simp add: go_div_def abs_mult pos_imp_zdiv_nonneg_iff)
  also have "\<dots> \<le> \<bar>n\<bar> div 1" using False by (intro zdiv_mono2) auto
  finally show ?thesis by simp
qed (auto simp: go_div_def)

lemma divideInt_exact:
  assumes "small_int v n" "small_int w m"
  shows "divideInt env v w = (if m = 0 then None else Some (go_div n m))"
proof (cases "m = 0")
  case False
  have n: "\<bar>n\<bar> < 2 ^ 53" using assms by (simp add: small_int_def)
  have "\<bar>go_div n m\<bar> < 2 ^ 53" using go_div_bounded[of n m] n by linarith
  then have "fits 64 (go_div n m)" by (simp add: fits_def abs_less_iff)
  then have "float_int env (Fin (fl (of_int n / of_int m))) = go_div n m"
    using trunc_quotient[OF n False] by (simp add: float_int_def)
  then show ?thesis
    using False small_int_float[OF assms(1)] small_int_float[OF assms(2)] round64_53[OF quotient_bounded[OF n False]]
    by (simp add: divideInt_def divideFloat_def)
qed (use small_int_float[OF assms(1)] small_int_float[OF assms(2)] in \<open>simp add: divideInt_def divideFloat_def\<close>)

lemma addInt_exact:
  assumes "list_all2 small_int vs ns" "\<forall>k \<le> length ns. \<bar>sum_list (take k ns)\<bar> \<le> 2 ^ 53"
  shows "addInt env vs = Some (sum_list ns)"
proof -
  have "fold_floats env fadd vs (Fin (of_int 0)) = Some (Fin (of_int (foldl (+) 0 ns)))"
    using assms(2) by (intro fold_floats_exact[OF _ assms(1)] fadd_exact) (auto simp: foldl_sum)
  then show ?thesis
    using assms(2)[rule_format, of "length ns"] by (simp add: addInt_def addFloat_def foldl_sum float_int_of_int)
qed

lemma multiplyInt_exact:
  assumes "list_all2 small_int vs ns" "\<forall>k \<le> length ns. \<bar>prod_list (take k ns)\<bar> \<le> 2 ^ 53"
  shows "multiplyInt env vs = Some (prod_list ns)"
proof -
  have "fold_floats env fmul vs (Fin (of_int 1)) = Some (Fin (of_int (foldl (*) 1 ns)))"
    using assms(2) by (intro fold_floats_exact[OF _ assms(1)] fmul_exact) (auto simp: foldl_prod)
  then show ?thesis
    using assms(2)[rule_format, of "length ns"] by (simp add: multiplyInt_def multiplyFloat_def foldl_prod float_int_of_int)
qed

lemma subtractInt_exact:
  assumes "small_int v n" "small_int w m" "\<bar>n - m\<bar> \<le> 2 ^ 53"
  shows "subtractInt env v w = Some (n - m)"
  using small_int_float[OF assms(1)] small_int_float[OF assms(2)] fadd_exact[of n "- m"] float_int_of_int[OF assms(3)] assms(3)
  by (simp add: subtractInt_def subtractFloat_def)

lemma upto_conv_upt: "map int [0..<nat n] = [0..n - 1]"
  by (rule nth_equalityI) (simp_all add: nth_upto)

lemma fl_2_53_1: "fl (2 ^ 53 + 1) = 2 ^ 53"
proof -
  let ?q = "2 ^ 53 + 1 :: rat"
  have e: "exponent ?q = 53"
  proof (rule ccontr)
    assume "exponent ?q \<noteq> 53"
    then consider "exponent ?q + 1 \<le> 53" | "54 \<le> exponent ?q" by linarith
    then show False
    proof cases
      case 1
      then have "(2 :: rat) powi (exponent ?q + 1) \<le> 2 powi 53" by (intro power_int_increasing) auto
      then show False using exponent_bounds(2)[of ?q] by (simp add: power_int_def)
    next
      case 2
      then have "(2 :: rat) powi 54 \<le> 2 powi exponent ?q" by (intro power_int_increasing) auto
      then show False using exponent_bounds(1)[of ?q] by (simp add: power_int_def)
    qed
  qed
  have half: "?q / 2 = of_int (2 ^ 52) + 1 / 2" by simp
  have "\<lfloor>of_int (2 ^ 52) + (1 / 2 :: rat)\<rfloor> = 2 ^ 52" by (rule floor_unique) simp_all
  then have "round_half_even (?q / 2) = 2 ^ 52" unfolding half by (simp add: round_half_even_def Let_def)
  then show ?thesis by (simp add: fl_def fl_pos_def e[simplified] Let_def)
qed

text \<open>
  C35: integers in templates are exact below \<open>2 ^ 53\<close> and not beyond.  The functions of the table whose name
  says that they compute with integers compute in \<^verbatim>\<open>float64\<close>.  For integer arguments of any type below \<open>2 ^ 53\<close> a
  sum, product or difference is exact as long as no intermediate result exceeds \<open>2 ^ 53\<close>; a quotient is
  truncated as the integer division of the language does, and dividing by zero panics; remainder, maximum and
  minimum are exact, a loop counts from zero and panics for a negative length.  One more than \<open>2 ^ 53\<close> is lost.
\<close>

theorem template_integers_exact:
  assumes "list_all2 small_int vs ns" "small_int v n" "small_int w m"
  shows "((\<forall>k \<le> length ns. \<bar>sum_list (take k ns)\<bar> \<le> 2 ^ 53) \<longrightarrow> call_template env ''AddInt'' vs = FVal (GInt (sum_list ns))) \<and>
    ((\<forall>k \<le> length ns. \<bar>prod_list (take k ns)\<bar> \<le> 2 ^ 53) \<longrightarrow>
           call_template env ''MultiplyInt'' vs = FVal (GInt (prod_list ns))) \<and>
    (call_template env ''MaxInt'' vs = (if ns = [] then FPanic else FVal (GInt (Max (set ns))))) \<and>
    (call_template env ''MinInt'' vs = (if ns = [] then FPanic else FVal (GInt (Min (set ns))))) \<and>
    (\<bar>n - m\<bar> \<le> 2 ^ 53 \<longrightarrow> call_template env ''SubtractInt'' [v, w] = FVal (GInt (n - m))) \<and>
    (call_template env ''DivideInt'' [v, w] = (if m = 0 then FPanic else FVal (GInt (go_div n m)))) \<and>
    (call_template env ''Mod'' [v, w] = (if m = 0 then FPanic else FVal (GInt (go_mod n m)))) \<and>
    (call_template env ''Loop'' [v] = (if n < 0 then FPanic else FVal (GInts [0..n - 1]))) \<and>
    (call_template env ''AddInt'' [GInt (2 ^ 53), GInt 1] = FVal (GInt (2 ^ 53)))"
proof (intro conjI)
  show "(\<forall>k \<le> length ns. \<bar>sum_list (take k ns)\<bar> \<le> 2 ^ 53) \<longrightarrow> call_template env ''AddInt'' vs = FVal (GInt (sum_list ns))"
    using addInt_exact[OF assms(1)] by (simp add: call_template_def GetFuncs_def ret_def)
  show "(\<forall>k \<le> length ns. \<bar>prod_list (take k ns)\<bar> \<le> 2 ^ 53) \<longrightarrow>
           call_template env ''MultiplyInt'' vs = FVal (GInt (prod_list ns))"
    using multiplyInt_exact[OF assms(1)] by (simp add: call_template_def GetFuncs_def ret_def)
  show "call_template env ''MaxInt'' vs = (if ns = [] then FPanic else FVal (GInt (Max (set ns))))"
    using maxInt_exact[OF assms(1)] assms(1) by (cases "ns = []") (simp_all add: call_template_def GetFuncs_def ret_def, simp add: maxInt_def maxFloat_def)
  show "call_template env ''MinInt'' vs = (if ns = [] then FPanic else FVal (GInt (Min (set ns))))"
    using minInt_exact[OF assms(1)] assms(1) by (cases "ns = []") (simp_all add: call_template_def GetFuncs_def ret_def, simp add: minInt_def minFloat_def)
  show "\<bar>n - m\<bar> \<le> 2 ^ 53 \<longrightarrow> call_template env ''SubtractInt'' [v, w] = FVal (GInt (n - m))"
    using subtractInt_exact[OF assms(2,3)] by (simp add: call_template_def GetFuncs_def ret_def call2_def)
  show "call_template env ''DivideInt'' [v, w] = (if m = 0 then FPanic else FVal (GInt (go_div n m)))"
    using divideInt_exact[OF assms(2,3)] by (simp add: call_template_def GetFuncs_def ret_def call2_def)
  show "call_template env ''Mod'' [v, w] = (if m = 0 then FPanic else FVal (GInt (go_mod n m)))"
    using small_to_int[OF assms(2)] small_to_int[OF assms(3)]
    by (simp add: call_template_def GetFuncs_def ret_def call2_def mod_func_def)
  show "call_template env ''Loop'' [v] = (if n < 0 then FPanic else FVal (GInts [0..n - 1]))"
    using small_to_int[OF assms(2)] by (simp add: call_template_def GetFuncs_def ret_def call1_def loop_func_def upto_conv_upt)
  have "addInt env [GInt (2 ^ 53), GInt 1] = Some (2 ^ 53)"
    using round64_int[of "2 ^ 53"] round64_int[of 1] fl_2_53_1 float_int_of_int[of "2 ^ 53" env] round64_near[of "2 ^ 53 + 1"]
    by (simp add: addInt_def addFloat_def)
  then show "call_template env ''AddInt'' [GInt (2 ^ 53), GInt 1] = FVal (GInt (2 ^ 53))"
    by (simp add: call_template_def GetFuncs_def ret_def)
qed

definition plain_tmpl_env :: tmpl_env where
  "plain_tmpl_env = \<lparr>tf_ParseFloat = \<lambda>_. None, tf_conv = \<lambda>_. 0, tf_intn = \<lambda>_. 0, tf_global = \<lambda>_. 0,
     tf_seeded = \<lambda>_ _. 0, tf_IsAbs = \<lambda>_. True, tf_binaryDir = None, tf_Join = (@), tf_ExpandEnv = id,
     tf_ReadFile = Inr, tf_fsReadFile = Inr, tf_Marshal = \<lambda>s. (s, None)\<rparr>"

theorem template_integers_exact_witness:
  "call_template plain_tmpl_env ''AddInt'' [GInt 7, GInt64 (- 3)] = FVal (GInt 4) \<and>
   call_template plain_tmpl_env ''DivideInt'' [GInt (- 7), GInt 2] = FVal (GInt (- 3)) \<and>
   call_template plain_tmpl_env ''Mod'' [GInt (- 7), GInt 2] = FVal (GInt (- 1))"
proof -
  have l: "list_all2 small_int [GInt 7, GInt64 (- 3)] [7, - 3]" by (simp add: small_int_def)
  have v: "small_int (GInt (- 7)) (- 7)" and w: "small_int (GInt 2) 2" by (simp_all add: small_int_def)
  have "\<forall>k \<le> length [7, - 3 :: int]. \<bar>sum_list (take k [7, - 3 :: int])\<bar> \<le> 2 ^ 53"
    by (auto simp: take_Cons split: nat.splits)
  then have "call_template plain_tmpl_env ''AddInt'' [GInt 7, GInt64 (- 3)] = FVal (GInt (sum_list [7, - 3]))"
    using template_integers_exact[OF l v w] by blast
  moreover have "call_template plain_tmpl_env ''DivideInt'' [GInt (- 7), GInt 2] = FVal (GInt (go_div (- 7) 2))"
    using template_integers_exact[OF l v w, of plain_tmpl_env] by (elim conjE) simp
  moreover have "call_template plain_tmpl_env ''Mod'' [GInt (- 7), GInt 2] = FVal (GInt (go_mod (- 7) 2))"
    using template_integers_exact[OF l v w, of plain_tmpl_env] by (elim conjE) simp
  ultimately show ?thesis by (simp add: go_div_def go_mod_def)
qed

section \<open>Random data stays in its range\<close>

text \<open>
  With a generator as documented, the random integers are in the range that the comments give, and random
  strings have the length that was asked for and only letters and digits.  A negative length panics, and so
  does a random integer below zero, with the exception of the largest integers.
\<close>

theorem random_data_in_range:
  assumes "\<And>n. 0 < n \<Longrightarrow> 0 \<le> tf_intn env n \<and> tf_intn env n < n" "\<And>i. tf_global env i < 62"
    and v: "to_int env v = Some n" and w: "to_int env w = Some m"
    and b: "\<bar>n\<bar> < 2 ^ 61" "\<bar>m\<bar> < 2 ^ 61"
  shows "randIntRange env v w = Some r \<Longrightarrow> n \<le> r \<and> r \<le> max n m"
    and "\<exists>r. randIntRange env v w = Some r"
    and "randInt env v = (if n < 0 then None else Some (tf_intn env (n + 1)))"
    and "n < 0 \<longleftrightarrow> randData env v = None"
    and "randData env v = Some s \<Longrightarrow> length s = nat n \<and> set s \<subseteq> set rand_alphabet"
proof -
  have big: "fits 64 (n + 1)" "fits 64 (m - n)" "fits 64 (m - n + 1)" using b by (simp_all add: fits_def abs_less_iff)
  have d: "randIntRange env v w =
      (if n \<ge> m then Some n else Some (wrap 64 (n + tf_intn env (m - n + 1))))"
    using big by (simp add: randIntRange_def v w wrap_id rand_Intn_def)
  have in_range: "n + tf_intn env (m - n + 1) \<le> m \<and> 0 \<le> tf_intn env (m - n + 1)" if "n < m"
    using assms(1)[of "m - n + 1"] that by linarith
  then have "wrap 64 (n + tf_intn env (m - n + 1)) = n + tf_intn env (m - n + 1)" if "n < m"
    using that b by (intro wrap_id) (auto simp: fits_def abs_less_iff)
  then show "randIntRange env v w = Some r \<Longrightarrow> n \<le> r \<and> r \<le> max n m" using d in_range by (auto split: if_splits)
  show "\<exists>r. randIntRange env v w = Some r" using d by simp
  show "randInt env v = (if n < 0 then None else Some (tf_intn env (n + 1)))"
    using big by (simp add: randInt_def v wrap_id rand_Intn_def)
  show "n < 0 \<longleftrightarrow> randData env v = None" by (simp add: randData_def v randString_def)
  have "length rand_alphabet = 62" by (simp add: rand_alphabet_def)
  then show "randData env v = Some s \<Longrightarrow> length s = nat n \<and> set s \<subseteq> set rand_alphabet"
    using assms(2) by (auto simp: randData_def v randString_def split: if_splits)
qed

end
