(* ===== verification/Template_Config.thy ===== *)
theory Template_Config
  imports Template_Functions Framework
begin

text \<open>
  Reading templates and the variables they use (\<^verbatim>\<open>pkg/config/template_provider.go\<close>, \<^verbatim>\<open>codec.go\<close>, \<^verbatim>\<open>cluster.go\<close>).
  The provider caches files and parsed templates; the variables come from override files, the cluster and
  the environment.  The file system, the template engine and the decoders are parameters.
\<close>

section \<open>The configuration of a run\<close>

record FullClusterConfig = ClusterConfig +
  cc_KubeConfigPath :: string
  cc_RunFromCluster :: bool
  cc_Nodes :: int
  cc_EtcdCertificatePath :: string
  cc_EtcdKeyPath :: string
  cc_MasterDNSEndpoint :: string
  cc_DeleteStaleNamespaces :: bool
  cc_DeleteAutomanagedNamespaces :: bool
  cc_APIServerPprofByClientEnabled :: bool
  cc_KubeletPort :: int
  cc_K8SClientsNumber :: int
  cc_SkipClusterVerification :: bool

record ExecServiceConfig =
  es_Enable :: bool
  es_ImageRegistry :: string

record ModifierConfig =
  mc_OverwriteTestConfig :: "string list"
  mc_SkipSteps :: "string list"

record PrometheusConfig =
  pr_TearDownServer :: bool
  pr_EnableServer :: bool
  pr_EnablePushgateway :: bool
  pr_ScrapeEtcd :: bool
  pr_ScrapeNodeExporter :: bool
  pr_ScrapeWindowsNodeExporter :: bool
  pr_ScrapeKubelets :: bool
  pr_ScrapeMasterKubelets :: bool
  pr_ScrapeKubeProxy :: bool
  pr_KubeProxySelectorKey :: string
  pr_ScrapeKubeStateMetrics :: bool
  pr_ScrapeMetricsServerMetrics :: bool
  pr_ScrapeNodeLocalDNS :: bool
  pr_ScrapeAnet :: bool
  pr_ScrapeNetworkPolicies :: bool
  pr_ScrapeMastersWithPublicIPs :: bool
  pr_APIServerScrapePort :: int
  pr_SnapshotProject :: string
  pr_AdditionalMonitorsPath :: string
  pr_StorageClassProvisioner :: string
  pr_StorageClassVolumeType :: string
  pr_PVCStorageClass :: string
  pr_ReadyTimeout :: duration
  pr_PrometheusMemoryRequest :: string

record ClusterLoaderConfig =
  clc_ClusterConfig :: FullClusterConfig
  clc_ReportDir :: string
  clc_ExecServiceConfig :: ExecServiceConfig
  clc_ModifierConfig :: ModifierConfig
  clc_PrometheusConfig :: PrometheusConfig
  clc_OverridePaths :: "string list"

section \<open>The template provider\<close>

text \<open>
  What a read sees: the file system, the parser of templates, their execution with a mapping, and the
  decoder of manifests.
\<close>

record ('t, 'o) template_lib =
  tl_ReadFile :: "string \<Rightarrow> goerr + string"
  tl_Parse :: "string \<Rightarrow> goerr + 't"
  tl_Execute :: "'t \<Rightarrow> params \<Rightarrow> goerr + string"
  tl_Decode :: "string \<Rightarrow> goerr + 'o"

record 't TemplateProvider =
  tp_binCache :: "string \<rightharpoonup> string"
  tp_templateCache :: "string \<rightharpoonup> 't"

definition NewTemplateProvider :: "'t TemplateProvider" where
  "NewTemplateProvider = \<lparr>tp_binCache = Map.empty, tp_templateCache = Map.empty\<rparr>"

text \<open>The check of the cache is repeated under the write lock, so a read is one step.\<close>

definition getRaw :: "('t, 'o) template_lib \<Rightarrow> string \<Rightarrow> 't TemplateProvider \<Rightarrow> (goerr + string) \<times> 't TemplateProvider" where
  "getRaw lib path tp =
     (case tp_binCache tp path of
        Some bin \<Rightarrow> (Inr bin, tp)
      | None \<Rightarrow>
          (case tl_ReadFile lib path of
             Inl err \<Rightarrow> (Inl (Errorf (''reading error: '' @ err_msg err) []), tp)
           | Inr bin \<Rightarrow> (Inr bin, tp\<lparr>tp_binCache := (tp_binCache tp)(path \<mapsto> bin)\<rparr>)))"

definition isEmpty :: "string \<Rightarrow> bool" where
  "isEmpty raw \<longleftrightarrow> (\<forall>c \<in> set raw. c \<in> {CHR '' '', CHR 0x09, CHR 0x0A, CHR 0x0B, CHR 0x0C, CHR 0x0D})"

definition convertToObject :: "('t, 'o) template_lib \<Rightarrow> string \<Rightarrow> goerr + 'o" where
  "convertToObject lib raw =
     (if isEmpty raw then Inl ErrorEmptyFile
      else (case tl_Decode lib raw of
              Inl err \<Rightarrow> Inl (Errorf (''unmarshaling error: '' @ err_msg err) [])
            | Inr obj \<Rightarrow> Inr obj))"

text \<open>
  Placeholders are removed as the leftmost longest matches of \<^verbatim>\<open>\{\{.*\}\}\<close>, which do not go beyond a line.
  \<open>after_last_close\<close> is what follows the last \<^verbatim>\<open>}}\<close>.
\<close>

fun after_last_close :: "string \<Rightarrow> string option" where
  "after_last_close [] = None"
| "after_last_close (c # s) =
     (case after_last_close s of
        Some r \<Rightarrow> Some r
      | None \<Rightarrow> if c = CHR ''}'' \<and> s \<noteq> [] \<and> hd s = CHR ''}'' then Some (tl s) else None)"

fun strip_line :: "string \<Rightarrow> string" where
  "strip_line [] = []"
| "strip_line (c # s) =
     (if c = CHR ''{'' \<and> s \<noteq> [] \<and> hd s = CHR ''{''
      then (case after_last_close (tl s) of Some r \<Rightarrow> r | None \<Rightarrow> c # strip_line s)
      else c # strip_line s)"

definition remove_placeholders :: "string \<Rightarrow> string" where
  "remove_placeholders s = strings_Join (map strip_line (strings_Split s (CHR 0x0A))) [CHR 0x0A]"

definition RawToObject :: "('t, 'o) template_lib \<Rightarrow> string \<Rightarrow> 't TemplateProvider \<Rightarrow> (goerr + 'o) \<times> 't TemplateProvider" where
  "RawToObject lib path tp =
     (let (bin, tp) = getRaw lib path tp
      in (case bin of Inl err \<Rightarrow> Inl err | Inr bin \<Rightarrow> convertToObject lib (remove_placeholders bin), tp))"

definition getRawTemplate :: "('t, 'o) template_lib \<Rightarrow> string \<Rightarrow> 't TemplateProvider \<Rightarrow> (goerr + 't) \<times> 't TemplateProvider" where
  "getRawTemplate lib path tp =
     (case tp_templateCache tp path of
        Some raw \<Rightarrow> (Inr raw, tp)
      | None \<Rightarrow>
          (let (bin, tp) = getRaw lib path tp
           in (case bin of
                 Inl err \<Rightarrow> (Inl err, tp)
               | Inr bin \<Rightarrow>
                   (case tl_Parse lib bin of
                      Inl err \<Rightarrow> (Inl (Errorf (''parsing error: '' @ err_msg err) []), tp)
                    | Inr raw \<Rightarrow> (Inr raw, tp\<lparr>tp_templateCache := (tp_templateCache tp)(path \<mapsto> raw)\<rparr>)))))"

definition getMappedTemplate ::
  "('t, 'o) template_lib \<Rightarrow> string \<Rightarrow> params \<Rightarrow> 't TemplateProvider \<Rightarrow> (goerr + string) \<times> 't TemplateProvider" where
  "getMappedTemplate lib path mapping tp =
     (let (raw, tp) = getRawTemplate lib path tp
      in (case raw of
            Inl err \<Rightarrow> Inl err
          | Inr raw \<Rightarrow>
              (case tl_Execute lib raw mapping of
                 Inl err \<Rightarrow> Inl (Errorf (''replacing placeholders error: '' @ err_msg err) [])
               | Inr b \<Rightarrow> Inr b), tp))"

definition TemplateToObject ::
  "('t, 'o) template_lib \<Rightarrow> string \<Rightarrow> params \<Rightarrow> 't TemplateProvider \<Rightarrow> (goerr + 'o) \<times> 't TemplateProvider" where
  "TemplateToObject lib path mapping tp =
     (let (b, tp) = getMappedTemplate lib path mapping tp
      in (case b of Inl err \<Rightarrow> Inl err | Inr b \<Rightarrow> convertToObject lib b, tp))"

definition decodeInto :: "(string \<Rightarrow> goerr + 'v) \<Rightarrow> string \<Rightarrow> goerr + 'v" where
  "decodeInto decoder raw =
     (case decoder raw of Inl err \<Rightarrow> Inl (Errorf (''decoding failed: '' @ err_msg err) []) | Inr v \<Rightarrow> Inr v)"

definition TemplateInto ::
  "('t, 'o) template_lib \<Rightarrow> (string \<Rightarrow> goerr + 'v) \<Rightarrow> string \<Rightarrow> params \<Rightarrow> 't TemplateProvider \<Rightarrow>
     (goerr + 'v) \<times> 't TemplateProvider" where
  "TemplateInto lib decoder path mapping tp =
     (let (b, tp) = getMappedTemplate lib path mapping tp
      in (case b of Inl err \<Rightarrow> Inl err | Inr b \<Rightarrow> decodeInto decoder b, tp))"

definition TemplateToConfig ::
  "('t, 'o) template_lib \<Rightarrow> (string \<Rightarrow> goerr + Config) \<Rightarrow> string \<Rightarrow> params \<Rightarrow> 't TemplateProvider \<Rightarrow>
     (goerr + Config) \<times> 't TemplateProvider" where
  "TemplateToConfig lib decoder path mapping tp = TemplateInto lib decoder path mapping tp"

section \<open>Test suites and variables\<close>

text \<open>
  Reading and decoding of files, the environment of the process, \<^verbatim>\<open>strconv.ParseFloat\<close> (for finite numbers) and
  how a value and its type are printed.
\<close>

record config_env =
  ce_ReadFile :: "string \<Rightarrow> goerr + string"
  ce_decodeSuite :: "string \<Rightarrow> goerr + TestSuite"
  ce_decodeMapping :: "string \<Rightarrow> goerr + params"
  ce_Environ :: "string list"
  ce_ParseFloat :: "string \<Rightarrow> rat \<times> numerr option"
  ce_show :: "gval \<Rightarrow> string"

fun validateTestSuite :: "TestSuite \<Rightarrow> goerr option" where
  "validateTestSuite [] = None"
| "validateTestSuite (scenario # suite) =
     (if CHR ''_'' \<in> set (ts_Identifier scenario)
      then Some (Errorf (''scenario identifiers cannot contain underscores: '' @ [CHR 0x22] @ ts_Identifier scenario @ [CHR 0x22]) [])
      else validateTestSuite suite)"

definition LoadTestSuite :: "config_env \<Rightarrow> string \<Rightarrow> goerr + TestSuite" where
  "LoadTestSuite env path =
     (case ce_ReadFile env path of
        Inl err \<Rightarrow> Inl (Errorf (''test suite reading error: '' @ err_msg err) [])
      | Inr bin \<Rightarrow>
          (case decodeInto (ce_decodeSuite env) bin of
             Inl err \<Rightarrow> Inl err
           | Inr testSuite \<Rightarrow> (case validateTestSuite testSuite of Some err \<Rightarrow> Inl err | None \<Rightarrow> Inr testSuite)))"

definition updateMappingFromFile :: "config_env \<Rightarrow> params \<Rightarrow> string \<Rightarrow> goerr + params" where
  "updateMappingFromFile env mapping path =
     (case ce_ReadFile env path of
        Inl err \<Rightarrow> Inl (Errorf (''test overrides reading error: '' @ err_msg err) [])
      | Inr bin \<Rightarrow>
          (case decodeInto (ce_decodeMapping env) bin of
             Inl err \<Rightarrow> Inl (Errorf (''test overrides unmarshalling error: '' @ err_msg err) [])
           | Inr tmpMapping \<Rightarrow> Inr (gomap_copy tmpMapping mapping)))"

fun load_overrides :: "config_env \<Rightarrow> string list \<Rightarrow> params \<Rightarrow> goerr + params" where
  "load_overrides env [] mapping = Inr mapping"
| "load_overrides env (path # paths) mapping =
     (case updateMappingFromFile env mapping path of Inl err \<Rightarrow> Inl err | Inr mapping \<Rightarrow> load_overrides env paths mapping)"

definition LoadTestOverrides :: "config_env \<Rightarrow> string list \<Rightarrow> string list \<Rightarrow> goerr + params" where
  "LoadTestOverrides env paths testOverridePaths =
     (case load_overrides env paths [] of Inl err \<Rightarrow> Inl err | Inr mapping \<Rightarrow> load_overrides env testOverridePaths mapping)"

definition unpackStringValue :: "config_env \<Rightarrow> string \<Rightarrow> gval" where
  "unpackStringValue env str =
     (case parse_int 64 str of
        (v, None) \<Rightarrow> VInt64 v
      | _ \<Rightarrow>
          (case ce_ParseFloat env str of
             (v, None) \<Rightarrow> VFloat v
           | _ \<Rightarrow> (case parse_bool str of Inr v \<Rightarrow> VBool v | Inl _ \<Rightarrow> VString str)))"

fun load_envs :: "config_env \<Rightarrow> string list \<Rightarrow> params \<Rightarrow> goerr + params" where
  "load_envs env [] mapping = Inr mapping"
| "load_envs env (keyValue # rest) mapping =
     (if take 4 keyValue \<noteq> ''CL2_'' then load_envs env rest mapping
      else (case dropWhile (\<lambda>c. c \<noteq> CHR ''='') keyValue of
              [] \<Rightarrow> Inl (Errorf (''unparsable string in os.Eviron(): '' @ keyValue) [])
            | _ # v \<Rightarrow>
                load_envs env rest (AList.update (takeWhile (\<lambda>c. c \<noteq> CHR ''='') keyValue) (unpackStringValue env v) mapping)))"

definition LoadCL2Envs :: "config_env \<Rightarrow> goerr + params" where
  "LoadCL2Envs env = load_envs env (ce_Environ env) []"

text \<open>
  \<^verbatim>\<open>reflect.DeepEqual\<close> compares the dynamic types too; the values of \<open>b\<close> are no maps here, so it is
  equality.  The first argument is changed, although the comment of the code says the second.
\<close>

fun MergeMappings :: "config_env \<Rightarrow> params \<Rightarrow> params \<Rightarrow> goerr + params" where
  "MergeMappings env a [] = Inr a"
| "MergeMappings env a ((k, bv) # b) =
     (case map_of a k of
        None \<Rightarrow> MergeMappings env (AList.update k bv a) b
      | Some av \<Rightarrow>
          if av \<noteq> bv
          then Inl (Errorf (''merge conflict for key '' @ quoted k @ '': old value='' @ ce_show env av @ '', new value='' @ ce_show env bv) [])
          else MergeMappings env a b)"

definition GetMapping :: "config_env \<Rightarrow> ClusterLoaderConfig \<Rightarrow> string list \<Rightarrow> ErrorList + params" where
  "GetMapping env clusterLoaderConfig testOverridePaths =
     (case LoadTestOverrides env (clc_OverridePaths clusterLoaderConfig) testOverridePaths of
        Inl err \<Rightarrow> Inl (NewErrorList [Errorf (''mapping creation error: '' @ err_msg err) []])
      | Inr mapping \<Rightarrow>
          let mapping = AList.update ''Nodes'' (VInt (cc_Nodes (clc_ClusterConfig clusterLoaderConfig))) mapping
          in (case LoadCL2Envs env of
                Inl err \<Rightarrow> Inl (NewErrorList [Errorf (''mapping creation error: '' @ err_msg err) []])
              | Inr envMapping \<Rightarrow>
                  (case MergeMappings env mapping envMapping of
                     Inl err \<Rightarrow> Inl (NewErrorList [Errorf (''mapping merging error: '' @ err_msg err) []])
                   | Inr mapping \<Rightarrow> Inr mapping)))"

section \<open>Caches are transparent\<close>

text \<open>
  A reader with hidden state whose answers are those of a function: what a client of the provider may rely
  on, for every sequence of requests.
\<close>

locale transparent =
  fixes get :: "'k \<Rightarrow> 's \<Rightarrow> 'r \<times> 's" and inv :: "'s \<Rightarrow> bool" and answer :: "'k \<Rightarrow> 'r"
  assumes get_answer: "inv s \<Longrightarrow> fst (get k s) = answer k"
    and get_inv: "inv s \<Longrightarrow> inv (snd (get k s))"
begin

lemma answers_all: "inv s \<Longrightarrow> fst (run_all get ks s) = map answer ks"
proof (induction ks arbitrary: s)
  case (Cons k ks)
  obtain r s1 where g: "get k s = (r, s1)" by (cases "get k s")
  obtain rs s2 where r: "run_all get ks s1 = (rs, s2)" by (cases "run_all get ks s1")
  have "r = answer k" "inv s1" using get_answer[OF Cons.prems, of k] get_inv[OF Cons.prems, of k] g by simp_all
  then show ?case using Cons.IH[of s1] by (simp add: g r)
qed simp

lemma keeps_inv: "inv s \<Longrightarrow> inv (snd (run_all get ks s))"
  by (rule run_all_invariant) (rule get_inv)

end

text \<open>The reads without a cache.\<close>

definition read_file :: "('t, 'o) template_lib \<Rightarrow> string \<Rightarrow> goerr + string" where
  "read_file lib path =
     (case tl_ReadFile lib path of Inl err \<Rightarrow> Inl (Errorf (''reading error: '' @ err_msg err) []) | Inr bin \<Rightarrow> Inr bin)"

definition read_template :: "('t, 'o) template_lib \<Rightarrow> string \<Rightarrow> goerr + 't" where
  "read_template lib path =
     (case read_file lib path of
        Inl err \<Rightarrow> Inl err
      | Inr bin \<Rightarrow>
          (case tl_Parse lib bin of Inl err \<Rightarrow> Inl (Errorf (''parsing error: '' @ err_msg err) []) | Inr raw \<Rightarrow> Inr raw))"

definition render :: "('t, 'o) template_lib \<Rightarrow> string \<times> params \<Rightarrow> goerr + string" where
  "render lib = (\<lambda>(path, mapping).
     (case read_template lib path of
        Inl err \<Rightarrow> Inl err
      | Inr raw \<Rightarrow>
          (case tl_Execute lib raw mapping of
             Inl err \<Rightarrow> Inl (Errorf (''replacing placeholders error: '' @ err_msg err) [])
           | Inr b \<Rightarrow> Inr b)))"

text \<open>What the caches hold is what the files say.\<close>

definition caches_ok :: "('t, 'o) template_lib \<Rightarrow> 't TemplateProvider \<Rightarrow> bool" where
  "caches_ok lib tp \<longleftrightarrow>
     (\<forall>path bin. tp_binCache tp path = Some bin \<longrightarrow> read_file lib path = Inr bin) \<and>
     (\<forall>path raw. tp_templateCache tp path = Some raw \<longrightarrow> read_template lib path = Inr raw)"

interpretation raw_reads: transparent "getRaw lib" "caches_ok lib" "read_file lib" for lib
  by unfold_locales (auto simp: caches_ok_def getRaw_def read_file_def split: option.splits sum.splits)

lemma getRawTemplate_ok:
  assumes ok: "caches_ok lib tp"
  shows "fst (getRawTemplate lib path tp) = read_template lib path \<and> caches_ok lib (snd (getRawTemplate lib path tp))"
proof (cases "tp_templateCache tp path")
  case None
  obtain r tp1 where g: "getRaw lib path tp = (r, tp1)" by (cases "getRaw lib path tp")
  have r: "r = read_file lib path" and ok1: "caches_ok lib tp1"
    using raw_reads.get_answer[OF ok, of path] raw_reads.get_inv[OF ok, of path] g by simp_all
  show ?thesis
  proof (cases "\<exists>bin raw. r = Inr bin \<and> tl_Parse lib bin = Inr raw")
    case True
    then obtain bin raw where b: "r = Inr bin" "tl_Parse lib bin = Inr raw" by blast
    then have "read_template lib path = Inr raw" using r by (simp add: read_template_def)
    then show ?thesis using ok1 b None g by (simp add: getRawTemplate_def caches_ok_def)
  next
    case False
    then show ?thesis using ok1 None g r by (auto simp: getRawTemplate_def read_template_def split: sum.splits)
  qed
qed (use ok in \<open>simp add: getRawTemplate_def caches_ok_def\<close>)

interpretation template_reads: transparent "getRawTemplate lib" "caches_ok lib" "read_template lib" for lib
  using getRawTemplate_ok by unfold_locales auto

interpretation rendering: transparent "\<lambda>(path, mapping). getMappedTemplate lib path mapping" "caches_ok lib" "render lib" for lib
proof unfold_locales
  fix s and k :: "string \<times> params"
  assume ok: "caches_ok lib s"
  obtain path mapping where k: "k = (path, mapping)" by (cases k)
  obtain r s1 where g: "getRawTemplate lib path s = (r, s1)" by (cases "getRawTemplate lib path s")
  note t = template_reads.get_answer[OF ok, of path] template_reads.get_inv[OF ok, of path]
  show "fst ((case k of (path, mapping) \<Rightarrow> getMappedTemplate lib path mapping) s) = render lib k"
    using t by (auto simp: k getMappedTemplate_def g render_def split: sum.splits)
  show "caches_ok lib (snd ((case k of (path, mapping) \<Rightarrow> getMappedTemplate lib path mapping) s))"
    using t by (simp add: k getMappedTemplate_def g)
qed

lemma caches_ok_new: "caches_ok lib NewTemplateProvider"
  by (simp add: caches_ok_def NewTemplateProvider_def)

text \<open>The requests of the program, and their answers without a cache.\<close>

datatype request = RawRequest string | ObjectRequest string params | ConfigRequest string params

datatype 'o reply = ObjectReply "goerr + 'o" | ConfigReply "goerr + Config"

fun serve ::
  "('t, 'o) template_lib \<Rightarrow> (string \<Rightarrow> goerr + Config) \<Rightarrow> request \<Rightarrow> 't TemplateProvider \<Rightarrow> 'o reply \<times> 't TemplateProvider" where
  "serve lib decoder (RawRequest path) tp = apfst ObjectReply (RawToObject lib path tp)"
| "serve lib decoder (ObjectRequest path mapping) tp = apfst ObjectReply (TemplateToObject lib path mapping tp)"
| "serve lib decoder (ConfigRequest path mapping) tp = apfst ConfigReply (TemplateToConfig lib decoder path mapping tp)"

fun uncached :: "('t, 'o) template_lib \<Rightarrow> (string \<Rightarrow> goerr + Config) \<Rightarrow> request \<Rightarrow> 'o reply" where
  "uncached lib decoder (RawRequest path) =
     ObjectReply (case read_file lib path of Inl err \<Rightarrow> Inl err | Inr bin \<Rightarrow> convertToObject lib (remove_placeholders bin))"
| "uncached lib decoder (ObjectRequest path mapping) =
     ObjectReply (case render lib (path, mapping) of Inl err \<Rightarrow> Inl err | Inr b \<Rightarrow> convertToObject lib b)"
| "uncached lib decoder (ConfigRequest path mapping) =
     ConfigReply (case render lib (path, mapping) of Inl err \<Rightarrow> Inl err | Inr b \<Rightarrow> decodeInto decoder b)"

interpretation provider_requests: transparent "serve lib decoder" "caches_ok lib" "uncached lib decoder" for lib decoder
proof unfold_locales
  fix s k
  assume ok: "caches_ok lib s"
  have "fst (serve lib decoder k s) = uncached lib decoder k \<and> caches_ok lib (snd (serve lib decoder k s))"
  proof (cases k)
    case (RawRequest path)
    then show ?thesis using raw_reads.get_answer[OF ok, of path] raw_reads.get_inv[OF ok, of path]
      by (auto simp: RawToObject_def split: prod.splits)
  next
    case (ObjectRequest path mapping)
    then show ?thesis using rendering.get_answer[OF ok, of "(path, mapping)"] rendering.get_inv[OF ok, of "(path, mapping)"]
      by (auto simp: TemplateToObject_def split: prod.splits)
  next
    case (ConfigRequest path mapping)
    then show ?thesis using rendering.get_answer[OF ok, of "(path, mapping)"] rendering.get_inv[OF ok, of "(path, mapping)"]
      by (auto simp: TemplateToConfig_def TemplateInto_def split: prod.splits)
  qed
  then show "fst (serve lib decoder k s) = uncached lib decoder k" "caches_ok lib (snd (serve lib decoder k s))" by simp_all
qed


section \<open>Removing placeholders\<close>

definition contains :: "string \<Rightarrow> string \<Rightarrow> bool" where
  "contains x s \<longleftrightarrow> (\<exists>m r. s = m @ x @ r)"

lemma contains_Nil: "contains x [] \<longleftrightarrow> x = []"
  by (simp add: contains_def)

lemma contains_Cons: "contains x (c # s) \<longleftrightarrow> (\<exists>r. c # s = x @ r) \<or> contains x s"
  unfolding contains_def by (auto simp: Cons_eq_append_conv)

lemma contains_pair: "contains [a, b] (c # s) \<longleftrightarrow> (c = a \<and> s \<noteq> [] \<and> hd s = b) \<or> contains [a, b] s"
proof -
  have "(\<exists>r. c # s = [a, b] @ r) \<longleftrightarrow> c = a \<and> s \<noteq> [] \<and> hd s = b" by (cases s) auto
  then show ?thesis by (simp only: contains_Cons)
qed

lemma after_last_close_None: "after_last_close s = None \<longleftrightarrow> \<not> contains ''}}'' s"
proof (induction s)
  case (Cons c s)
  then show ?case by (simp add: contains_pair split: option.splits) fastforce
qed (simp add: contains_Nil)

lemma after_last_close_Some: "after_last_close s = Some r \<Longrightarrow> (\<exists>m. s = m @ ''}}'' @ r) \<and> \<not> contains ''}}'' r"
proof (induction s arbitrary: r)
  case (Cons c s)
  show ?case
  proof (cases "after_last_close s")
    case None
    then have c: "c = CHR ''}''" "s \<noteq> []" "hd s = CHR ''}''" "r = tl s" using Cons.prems by (simp_all split: if_splits)
    then have s: "s = CHR ''}'' # r" by (cases s) simp_all
    then have "\<not> contains ''}}'' r" using None after_last_close_None[of s] contains_pair[of "CHR ''}''" "CHR ''}''" "CHR ''}''" r] by metis
    moreover have "c # s = [] @ ''}}'' @ r" unfolding c(1) s by simp
    ultimately show ?thesis by (intro conjI exI)
  next
    case (Some r1)
    then have r: "r1 = r" using Cons.prems by simp
    obtain m where m: "s = m @ ''}}'' @ r" and n: "\<not> contains ''}}'' r"
      using Cons.IH[OF Some] unfolding r by (elim conjE exE) (rule that)
    have "c # s = (c # m) @ ''}}'' @ r" by (subst m) simp
    then show ?thesis using n by (intro conjI exI)
  qed
qed simp

text \<open>What is left of a line of which \<^verbatim>\<open>{{m}}\<close> is the leftmost and longest placeholder.\<close>

definition stripped :: "string \<Rightarrow> string \<Rightarrow> bool" where
  "stripped s t \<longleftrightarrow> (\<exists>p m r. s = p @ ''{{'' @ m @ ''}}'' @ r \<and> t = p @ r \<and> \<not> contains ''}}'' r \<and> \<not> contains ''{{'' p)"

definition has_placeholder :: "string \<Rightarrow> bool" where
  "has_placeholder s \<longleftrightarrow> (\<exists>p t. s = p @ ''{{'' @ t \<and> contains ''}}'' t)"

lemma has_placeholder_Cons:
  "has_placeholder (c # s) \<longleftrightarrow> (\<exists>t. c # s = ''{{'' @ t \<and> contains ''}}'' t) \<or> has_placeholder s"
  unfolding has_placeholder_def by (auto simp: Cons_eq_append_conv)

lemma has_placeholder_here:
  "(\<exists>t. c # s = ''{{'' @ t \<and> contains ''}}'' t) \<longleftrightarrow> c = CHR ''{'' \<and> s \<noteq> [] \<and> hd s = CHR ''{'' \<and> contains ''}}'' (tl s)"
  by (cases s) auto

lemma has_placeholder_contains: "has_placeholder s \<Longrightarrow> s \<noteq> [] \<Longrightarrow> contains ''}}'' (tl s)"
proof (induction s)
  case (Cons c s)
  show ?case
  proof (cases "has_placeholder s")
    case True
    then have "s \<noteq> []" by (auto simp: has_placeholder_def)
    then have "contains ''}}'' (tl s)" using Cons.IH True by blast
    then show ?thesis using \<open>s \<noteq> []\<close> contains_Cons[of "''}}''" "hd s" "tl s"] by simp
  next
    case False
    then have "s \<noteq> [] \<and> contains ''}}'' (tl s)" using Cons.prems(1) unfolding has_placeholder_Cons has_placeholder_here by argo
    then show ?thesis using contains_Cons[of "''}}''" "hd s" "tl s"] by simp
  qed
qed simp

text \<open>
  A line without a placeholder is kept; otherwise the text from the first \<^verbatim>\<open>{{\<close> that has a \<^verbatim>\<open>}}\<close> behind it up
  to the last \<^verbatim>\<open>}}\<close> is removed, as the leftmost and longest match of the regular expression.
\<close>

theorem placeholder_removed: "if has_placeholder s then stripped s (strip_line s) else strip_line s = s"
proof (induction s)
  case Nil then show ?case by (simp add: has_placeholder_def)
next
  case (Cons c s)
  consider (here) "c = CHR ''{'' \<and> s \<noteq> [] \<and> hd s = CHR ''{'' \<and> contains ''}}'' (tl s)"
    | (later) "has_placeholder s" "\<not> (c = CHR ''{'' \<and> s \<noteq> [] \<and> hd s = CHR ''{'')"
    | (none) "\<not> has_placeholder s" "\<not> (c = CHR ''{'' \<and> s \<noteq> [] \<and> hd s = CHR ''{'' \<and> contains ''}}'' (tl s))"
    using has_placeholder_contains[of s] by blast
  then show ?case
  proof cases
    case here
    then obtain r where r: "after_last_close (tl s) = Some r" using after_last_close_None[of "tl s"] by fastforce
    then obtain m where m: "tl s = m @ ''}}'' @ r" and n: "\<not> contains ''}}'' r" using after_last_close_Some by blast
    have "c # s = [] @ ''{{'' @ m @ ''}}'' @ r" using here by (subst m[symmetric]) (cases s, simp_all)
    then have "stripped (c # s) r" unfolding stripped_def using n contains_Nil[of "''{{''"]
      by (intro exI[of _ "[]"] exI[of _ m] exI[of _ r]) simp
    moreover have "has_placeholder (c # s)" unfolding has_placeholder_Cons has_placeholder_here using here by (rule disjI1)
    ultimately show ?thesis using here r by simp
  next
    case later
    then have "stripped s (strip_line s)" using Cons.IH by simp
    then obtain p m r where pmr: "s = p @ ''{{'' @ m @ ''}}'' @ r" "strip_line s = p @ r" "\<not> contains ''}}'' r" "\<not> contains ''{{'' p"
      unfolding stripped_def by (elim exE conjE) (rule that)
    have "p \<noteq> [] \<Longrightarrow> s \<noteq> [] \<and> hd s = hd p" unfolding pmr(1) by simp
    then have "\<not> contains ''{{'' (c # p)" using pmr(4) later(2) contains_pair[of "CHR ''{''" "CHR ''{''" c p] by metis
    then have "stripped (c # s) (c # strip_line s)" unfolding stripped_def using pmr
      by (intro exI[of _ "c # p"] exI[of _ m] exI[of _ r]) simp
    moreover have "has_placeholder (c # s)" unfolding has_placeholder_Cons using later(1) by (rule disjI2)
    moreover have "strip_line (c # s) = c # strip_line s" using later(2) by (simp only: strip_line.simps if_False)
    ultimately show ?thesis by simp
  next
    case none
    then have "\<not> has_placeholder (c # s)" unfolding has_placeholder_Cons has_placeholder_here by argo
    then show ?thesis using none Cons.IH after_last_close_None[of "tl s"] by auto
  qed
qed

section \<open>Where the value of a variable comes from\<close>

text \<open>The value of the last mapping that has the key, and of the last environment variable.\<close>

definition last_value :: "params list \<Rightarrow> string \<Rightarrow> gval option" where
  "last_value ms k = fold (\<lambda>m v. case map_of m k of None \<Rightarrow> v | Some x \<Rightarrow> Some x) ms None"

definition is_cl2_env :: "string \<Rightarrow> bool" where
  "is_cl2_env e \<longleftrightarrow> take 4 e = ''CL2_''"

definition env_key :: "string \<Rightarrow> string" where
  "env_key e = takeWhile (\<lambda>c. c \<noteq> CHR ''='') e"

definition env_text :: "string \<Rightarrow> string" where
  "env_text e = tl (dropWhile (\<lambda>c. c \<noteq> CHR ''='') e)"

definition env_mapping :: "config_env \<Rightarrow> params" where
  "env_mapping env = map (\<lambda>e. (env_key e, unpackStringValue env (env_text e))) (rev (filter is_cl2_env (ce_Environ env)))"

text \<open>Every file can be read and decoded; every variable of the environment has a value.\<close>

definition files_hold :: "config_env \<Rightarrow> string list \<Rightarrow> params list \<Rightarrow> bool" where
  "files_hold env paths ms \<longleftrightarrow>
     list_all2 (\<lambda>p m. \<exists>bin. ce_ReadFile env p = Inr bin \<and> ce_decodeMapping env bin = Inr m \<and> gomap_ok m) paths ms"

definition environ_ok :: "config_env \<Rightarrow> bool" where
  "environ_ok env \<longleftrightarrow> (\<forall>e \<in> set (ce_Environ env). is_cl2_env e \<longrightarrow> CHR ''='' \<in> set e)"

lemma load_overrides_ok:
  "files_hold env paths ms \<Longrightarrow>
     \<exists>mapping. load_overrides env paths m0 = Inr mapping \<and>
       map_of mapping = (\<lambda>k. fold (\<lambda>m v. case map_of m k of None \<Rightarrow> v | Some x \<Rightarrow> Some x) ms (map_of m0 k))"
  unfolding files_hold_def
proof (induction paths ms arbitrary: m0 rule: list_all2_induct)
  case (Cons p ps m ms)
  then obtain bin where b: "ce_ReadFile env p = Inr bin" "ce_decodeMapping env bin = Inr m" "gomap_ok m" by blast
  have u: "updateMappingFromFile env m0 p = Inr (gomap_copy m m0)" by (simp add: updateMappingFromFile_def b decodeInto_def)
  have "map_of (gomap_copy m m0) k = (case map_of m k of None \<Rightarrow> map_of m0 k | Some x \<Rightarrow> Some x)" for k
    by (simp add: map_of_gomap_copy[OF b(3)] map_add_def)
  then show ?case using Cons.IH[of "gomap_copy m m0"] by (simp add: u)
qed simp

lemma load_envs_ok:
  "(\<forall>e \<in> set es. is_cl2_env e \<longrightarrow> CHR ''='' \<in> set e) \<Longrightarrow> gomap_ok m0 \<Longrightarrow>
     \<exists>m. load_envs env es m0 = Inr m \<and> gomap_ok m \<and>
       map_of m = map_of (map (\<lambda>e. (env_key e, unpackStringValue env (env_text e))) (rev (filter is_cl2_env es)) @ m0)"
proof (induction es arbitrary: m0)
  case (Cons e es)
  show ?case
  proof (cases "is_cl2_env e")
    case True
    then have "CHR ''='' \<in> set e" using Cons.prems by simp
    then have "dropWhile (\<lambda>c. c \<noteq> CHR ''='') e \<noteq> []" by (auto simp: dropWhile_eq_Nil_conv)
    then obtain c v where d: "dropWhile (\<lambda>c. c \<noteq> CHR ''='') e = c # v" by (cases "dropWhile (\<lambda>c. c \<noteq> CHR ''='') e") auto
    let ?m = "AList.update (env_key e) (unpackStringValue env v) m0"
    have "load_envs env (e # es) m0 = load_envs env es ?m"
      using True by (simp add: is_cl2_env_def d env_key_def)
    moreover have "\<exists>m. load_envs env es ?m = Inr m \<and> gomap_ok m \<and>
       map_of m = map_of (map (\<lambda>e. (env_key e, unpackStringValue env (env_text e))) (rev (filter is_cl2_env es)) @ ?m)"
      using Cons.prems by (intro Cons.IH) auto
    ultimately show ?thesis using True by (simp add: map_add_def go_map env_text_def d)
  next
    case False
    then show ?thesis using Cons by (simp add: is_cl2_env_def)
  qed
qed simp

text \<open>No key has different values.\<close>

definition conflict_free :: "('a \<rightharpoonup> 'b) \<Rightarrow> ('a \<rightharpoonup> 'b) \<Rightarrow> bool" where
  "conflict_free f g \<longleftrightarrow> (\<forall>k. k \<in> dom f \<inter> dom g \<longrightarrow> f k = g k)"

lemma conflict_free_add: "f k = None \<Longrightarrow> g k = None \<Longrightarrow> conflict_free (f(k \<mapsto> v)) g \<longleftrightarrow> conflict_free f (g(k \<mapsto> v))"
  unfolding conflict_free_def by (intro all_cong1) (auto simp: dom_def)

lemma conflict_free_same: "f k = Some v \<Longrightarrow> conflict_free f (g(k \<mapsto> v)) \<longleftrightarrow> conflict_free f (g(k := None))"
  unfolding conflict_free_def by (intro all_cong1) (auto simp: dom_def)

lemma MergeMappings_ok:
  "gomap_ok b \<Longrightarrow>
     (if conflict_free (map_of a) (map_of b)
      then \<exists>m. MergeMappings env a b = Inr m \<and> map_of m = map_of b ++ map_of a
      else \<exists>e. MergeMappings env a b = Inl e)"
proof (induction b arbitrary: a)
  case (Cons e b)
  obtain k v where e: "e = (k, v)" by (cases e)
  have kb: "map_of b k = None" and ok: "gomap_ok b" using Cons.prems e by (auto simp: map_of_eq_None_iff)
  then have same: "(map_of b)(k := None) = map_of b" by auto
  show ?case
  proof (cases "map_of a k")
    case None
    have A: "map_of b ++ (map_of a)(k \<mapsto> v) = map_of (e # b) ++ map_of a"
      using None by (auto simp: e map_add_def fun_eq_iff split: option.splits)
    have B: "conflict_free ((map_of a)(k \<mapsto> v)) (map_of b) \<longleftrightarrow> conflict_free (map_of a) (map_of (e # b))"
      using conflict_free_add[of "map_of a" k "map_of b" v] None kb by (simp add: e)
    have C: "MergeMappings env a (e # b) = MergeMappings env (AList.update k v a) b" using None by (simp add: e)
    show ?thesis using Cons.IH[OF ok, of "AList.update k v a"] by (simp only: gomap_lookup_update A B C)
  next
    case (Some av)
    show ?thesis
    proof (cases "av = v")
      case True
      have A: "map_of b ++ map_of a = map_of (e # b) ++ map_of a"
        using Some True by (auto simp: e map_add_def fun_eq_iff split: option.splits)
      have B: "conflict_free (map_of a) (map_of b) \<longleftrightarrow> conflict_free (map_of a) (map_of (e # b))"
        using conflict_free_same[of "map_of a" k v "map_of b"] Some True same by (simp add: e)
      have C: "MergeMappings env a (e # b) = MergeMappings env a b" using Some True by (simp add: e)
      show ?thesis using Cons.IH[OF ok, of a] by (simp only: A B C)
    next
      case False
      then have "\<not> conflict_free (map_of a) (map_of (e # b))" using Some by (auto simp: e conflict_free_def dom_def)
      moreover have "\<exists>err. MergeMappings env a (e # b) = Inl err" using Some False by (simp add: e)
      ultimately show ?thesis by (simp only: if_False)
    qed
  qed
qed (simp add: conflict_free_def)

text \<open>
  C37: where the value of a template variable comes from.  When every override file can be read and every
  variable of the environment that starts with \<^verbatim>\<open>CL2_\<close> has a value, a mapping is returned exactly if no
  variable of the environment differs from the value that the files or the cluster give it.  In the mapping
  \<^verbatim>\<open>Nodes\<close> is the number of nodes of the cluster whatever the files say, and every other variable has the
  value of the last file that sets it, the files of the test scenario after the global ones, or else of the
  last variable of the environment.  A variable that a file sets to a number is in conflict with the same
  number in the environment.
\<close>

theorem mapping_decided:
  fixes env :: config_env and cfg :: ClusterLoaderConfig
  defines "nodes \<equiv> VInt (cc_Nodes (clc_ClusterConfig cfg))"
  assumes files: "files_hold env (clc_OverridePaths cfg @ testOverridePaths) ms" and envs: "environ_ok env"
  shows "(if conflict_free ((last_value ms)(''Nodes'' \<mapsto> nodes)) (map_of (env_mapping env))
     then \<exists>mapping. GetMapping env cfg testOverridePaths = Inr mapping \<and>
            map_of mapping = map_of (env_mapping env) ++ (last_value ms)(''Nodes'' \<mapsto> nodes)
     else \<exists>e. GetMapping env cfg testOverridePaths = Inl e) \<and>
    (last_value ms k = Some (VFloat q) \<longrightarrow> map_of (env_mapping env) k = Some (VInt64 i) \<longrightarrow>
       (\<exists>e. GetMapping env cfg testOverridePaths = Inl e))"
proof
  obtain ms1 ms2 where ms: "ms = ms1 @ ms2" "files_hold env (clc_OverridePaths cfg) ms1" "files_hold env testOverridePaths ms2"
    using files unfolding files_hold_def list_all2_append1 by blast
  obtain m1 where m1: "load_overrides env (clc_OverridePaths cfg) [] = Inr m1"
      "map_of m1 = (\<lambda>k. fold (\<lambda>m v. case map_of m k of None \<Rightarrow> v | Some x \<Rightarrow> Some x) ms1 (map_of [] k))"
    using load_overrides_ok[OF ms(2), of "[]"] by blast
  obtain m2 where m2: "load_overrides env testOverridePaths m1 = Inr m2"
      "map_of m2 = (\<lambda>k. fold (\<lambda>m v. case map_of m k of None \<Rightarrow> v | Some x \<Rightarrow> Some x) ms2 (map_of m1 k))"
    using load_overrides_ok[OF ms(3), of m1] by blast
  have lv: "map_of m2 = last_value ms" by (simp add: m1(2) m2(2) ms(1) last_value_def fun_eq_iff)
  obtain em where em: "LoadCL2Envs env = Inr em" "gomap_ok em" "map_of em = map_of (env_mapping env)"
    using load_envs_ok[of "ce_Environ env" "[]" env] envs by (auto simp: environ_ok_def LoadCL2Envs_def env_mapping_def)
  have g: "GetMapping env cfg testOverridePaths =
      (case MergeMappings env (AList.update ''Nodes'' nodes m2) em of
         Inl err \<Rightarrow> Inl (NewErrorList [Errorf (''mapping merging error: '' @ err_msg err) []]) | Inr mapping \<Rightarrow> Inr mapping)"
    by (simp add: GetMapping_def LoadTestOverrides_def m1(1) m2(1) em(1) nodes_def)
  note mm = MergeMappings_ok[OF em(2), of "AList.update ''Nodes'' nodes m2" env, unfolded gomap_lookup_update lv em(3)]
  show r: "if conflict_free ((last_value ms)(''Nodes'' \<mapsto> nodes)) (map_of (env_mapping env))
     then \<exists>mapping. GetMapping env cfg testOverridePaths = Inr mapping \<and>
            map_of mapping = map_of (env_mapping env) ++ (last_value ms)(''Nodes'' \<mapsto> nodes)
     else \<exists>e. GetMapping env cfg testOverridePaths = Inl e"
    using mm unfolding g by (auto split: if_splits)
  show "last_value ms k = Some (VFloat q) \<longrightarrow> map_of (env_mapping env) k = Some (VInt64 i) \<longrightarrow>
           (\<exists>e. GetMapping env cfg testOverridePaths = Inl e)"
  proof (intro impI)
    assume "last_value ms k = Some (VFloat q)" "map_of (env_mapping env) k = Some (VInt64 i)"
    then have "\<not> conflict_free ((last_value ms)(''Nodes'' \<mapsto> nodes)) (map_of (env_mapping env))"
      unfolding conflict_free_def nodes_def by (intro notI) (drule spec[of _ k], auto simp: dom_def split: if_splits)
    then show "\<exists>e. GetMapping env cfg testOverridePaths = Inl e" using r by simp
  qed
qed

definition mapping_env :: config_env where
  "mapping_env = \<lparr>ce_ReadFile = Inr, ce_decodeSuite = \<lambda>_. Inr [],
     ce_decodeMapping = \<lambda>s. Inr [(''CL2_X'', VString s), (''Nodes'', VInt 1)],
     ce_Environ = [''HOME=/root'', ''CL2_A=true'', ''CL2_A=no=t''], ce_ParseFloat = \<lambda>_. (0, Some ErrSyntax), ce_show = \<lambda>_. []\<rparr>"

definition mapping_cfg :: ClusterLoaderConfig where
  "mapping_cfg = \<lparr>clc_ClusterConfig =
       \<lparr>cc_MasterIPs = [], cc_MasterInternalIPs = [], cc_MasterName = [], cc_EtcdInsecurePort = 2382,
        cc_KubeConfigPath = [], cc_RunFromCluster = False, cc_Nodes = 5, cc_EtcdCertificatePath = [],
        cc_EtcdKeyPath = [], cc_MasterDNSEndpoint = [], cc_DeleteStaleNamespaces = False,
        cc_DeleteAutomanagedNamespaces = True, cc_APIServerPprofByClientEnabled = True, cc_KubeletPort = 10250,
        cc_K8SClientsNumber = 1, cc_SkipClusterVerification = False\<rparr>,
     clc_ReportDir = [], clc_ExecServiceConfig = \<lparr>es_Enable = True, es_ImageRegistry = []\<rparr>,
     clc_ModifierConfig = \<lparr>mc_OverwriteTestConfig = [], mc_SkipSteps = []\<rparr>,
     clc_PrometheusConfig =
       \<lparr>pr_TearDownServer = True, pr_EnableServer = False, pr_EnablePushgateway = False, pr_ScrapeEtcd = False,
        pr_ScrapeNodeExporter = False, pr_ScrapeWindowsNodeExporter = False, pr_ScrapeKubelets = False,
        pr_ScrapeMasterKubelets = False, pr_ScrapeKubeProxy = True, pr_KubeProxySelectorKey = [],
        pr_ScrapeKubeStateMetrics = False, pr_ScrapeMetricsServerMetrics = False, pr_ScrapeNodeLocalDNS = False,
        pr_ScrapeAnet = False, pr_ScrapeNetworkPolicies = False, pr_ScrapeMastersWithPublicIPs = False,
        pr_APIServerScrapePort = 443, pr_SnapshotProject = [], pr_AdditionalMonitorsPath = [],
        pr_StorageClassProvisioner = [], pr_StorageClassVolumeType = [], pr_PVCStorageClass = [],
        pr_ReadyTimeout = 0, pr_PrometheusMemoryRequest = []\<rparr>,
     clc_OverridePaths = [''global'']\<rparr>"

theorem mapping_decided_witness:
  "\<exists>mapping. GetMapping mapping_env mapping_cfg [''scenario''] = Inr mapping \<and>
     map_of mapping ''Nodes'' = Some (VInt 5) \<and> map_of mapping ''CL2_X'' = Some (VString ''scenario'') \<and>
     map_of mapping ''CL2_A'' = Some (VString ''no=t'')"
proof -
  let ?ms = "[[(''CL2_X'', VString ''global''), (''Nodes'', VInt 1)], [(''CL2_X'', VString ''scenario''), (''Nodes'', VInt 1)]]"
  have f: "files_hold mapping_env (clc_OverridePaths mapping_cfg @ [''scenario'']) ?ms"
    by (simp add: files_hold_def mapping_env_def mapping_cfg_def)
  have e: "environ_ok mapping_env" by (simp add: environ_ok_def is_cl2_env_def mapping_env_def)
  have em: "env_mapping mapping_env = [(''CL2_A'', VString ''no=t''), (''CL2_A'', VBool True)]"
    by (simp add: env_mapping_def mapping_env_def is_cl2_env_def env_key_def env_text_def unpackStringValue_def
        parse_int_def parse_uint_def char_digit_def parse_bool_def)
  have lv: "last_value ?ms = [''CL2_X'' \<mapsto> VString ''scenario'', ''Nodes'' \<mapsto> VInt 1]"
    by (simp add: last_value_def fun_eq_iff)
  have n: "cc_Nodes (clc_ClusterConfig mapping_cfg) = 5" by (simp add: mapping_cfg_def)
  have "conflict_free ((last_value ?ms)(''Nodes'' \<mapsto> VInt 5)) (map_of (env_mapping mapping_env))"
    unfolding em lv by (simp add: conflict_free_def)
  then obtain mapping where m: "GetMapping mapping_env mapping_cfg [''scenario''] = Inr mapping"
      "map_of mapping = map_of (env_mapping mapping_env) ++ (last_value ?ms)(''Nodes'' \<mapsto> VInt 5)"
    using mapping_decided[OF f e, THEN conjunct1] unfolding n by (simp only: if_True) (elim exE conjE, rule that)
  show ?thesis using m(1) unfolding em lv by (intro exI[of _ mapping]) (simp add: m(2) em lv)
qed

end
