(* ===== verification/Providers.thy ===== *)
theory Providers
  imports Scraping Pods_Util Modifier
begin

text \<open>
  Commands over SSH (\<^verbatim>\<open>pkg/util/ssh_core.go\<close>, \<^verbatim>\<open>ssh.go\<close>) and the cloud providers (\<^verbatim>\<open>pkg/provider\<close>).  The SSH library,
  the environment, files, \<^verbatim>\<open>gcloud\<close> and the clients of managed Prometheus services are parameters; log
  output is left out.
\<close>

section \<open>SSH\<close>

text \<open>A command that was started ended well, with an exit status, or did not complete.\<close>

datatype run_result = RunOk | RunExit int | RunErr goerr

text \<open>
  \<open>ss_Dial user host key\<close> is the list of the results of dialing: the first attempt and those of the poll
  before it times out.
\<close>

record ('k, 'c, 'n) ssh_lib =
  ss_Getenv :: "string \<Rightarrow> string"
  ss_bastionSet :: bool
  ss_ReadFile :: "string \<Rightarrow> goerr + string"
  ss_ParsePrivateKey :: "string \<Rightarrow> goerr + 'k"
  ss_IsAbs :: "string \<Rightarrow> bool"
  ss_Join :: "string \<Rightarrow> string \<Rightarrow> string"
  ss_JoinHostPort :: "string \<Rightarrow> string \<Rightarrow> string"
  ss_Dial :: "string \<Rightarrow> string \<Rightarrow> 'k \<Rightarrow> (goerr + 'c) list"
  ss_DialFrom :: "'c \<Rightarrow> string \<Rightarrow> goerr + 'n"
  ss_NewClientConn :: "'n \<Rightarrow> string \<Rightarrow> goerr + 'c"
  ss_NewSession :: "'c \<Rightarrow> goerr option"
  ss_Run :: "'c \<Rightarrow> string \<Rightarrow> string \<times> string \<times> run_result"
  ss_canDial :: "string \<Rightarrow> bool"

definition makePrivateKeySignerFromFile :: "('k, 'c, 'n) ssh_lib \<Rightarrow> string \<Rightarrow> goerr + 'k" where
  "makePrivateKeySignerFromFile lib key =
     (case ss_ReadFile lib key of
        Inl err \<Rightarrow> Inl (Errorf (''error reading SSH key '' @ key @ '': '' @ err_msg err) [err])
      | Inr buffer \<Rightarrow>
          (case ss_ParsePrivateKey lib buffer of
             Inl err \<Rightarrow> Inl (Errorf (''error parsing SSH key: '' @ err_msg err) [err])
           | Inr signer \<Rightarrow> Inr signer))"

text \<open>The file of the key: the first variable that is set, or the default.\<close>

fun first_env :: "('k, 'c, 'n) ssh_lib \<Rightarrow> string list \<Rightarrow> string \<Rightarrow> string" where
  "first_env lib [] dflt = dflt"
| "first_env lib (v # vs) dflt = (if ss_Getenv lib v = [] then first_env lib vs dflt else ss_Getenv lib v)"

definition key_file :: "('k, 'c, 'n) ssh_lib \<Rightarrow> string \<Rightarrow> string option" where
  "key_file lib provider =
     (if provider \<in> set [''gce'', ''gke'', ''kubemark'']
      then Some (first_env lib [''GCE_SSH_KEY'', ''GCE_SSH_PRIVATE_KEY_FILE''] ''google_compute_engine'')
      else if provider \<in> set [''aws'', ''eks''] then Some (first_env lib [''AWS_SSH_KEY''] ''kube_aws_rsa'')
      else if provider \<in> set [''local'', ''vsphere''] then Some (first_env lib [''LOCAL_SSH_KEY''] ''id_rsa'')
      else if provider = ''skeleton'' then Some (first_env lib [''KUBE_SSH_KEY''] ''id_rsa'')
      else if provider = ''azure'' then Some (first_env lib [''AZURE_SSH_KEY''] ''id_rsa'')
      else None)"

definition GetSigner :: "('k, 'c, 'n) ssh_lib \<Rightarrow> string \<Rightarrow> goerr + 'k" where
  "GetSigner lib provider =
     (let path = ss_Getenv lib ''KUBE_SSH_KEY_PATH''
      in if 0 < length path then makePrivateKeySignerFromFile lib path
         else (case key_file lib provider of
                 None \<Rightarrow> Inl (Errorf (''GetSigner(...) not implemented for '' @ provider) [])
               | Some keyfile \<Rightarrow>
                   makePrivateKeySignerFromFile lib
                     (if \<not> ss_IsAbs lib keyfile
                      then ss_Join lib (ss_Join lib (ss_Getenv lib ''HOME'') ''.ssh'') keyfile else keyfile)))"

text \<open>The poll tries again until its time is over.\<close>

fun retry_dials :: "(goerr + 'c) list \<Rightarrow> goerr + 'c" where
  "retry_dials [] = Inl DeadlineExceeded"
| "retry_dials (Inr client # _) = Inr client"
| "retry_dials (Inl err # ds) = retry_dials ds"

text \<open>The poll of the bastion ends with the first error, as its condition returns it.\<close>

definition bastion_dials :: "(goerr + 'c) list \<Rightarrow> goerr + 'c" where
  "bastion_dials ds =
     (case ds of
        [] \<Rightarrow> Inl DeadlineExceeded
      | Inr client # _ \<Rightarrow> Inr client
      | Inl err # [] \<Rightarrow> Inl DeadlineExceeded
      | Inl err # d # _ \<Rightarrow> d)"

text \<open>A nonzero exit status is no error of SSH.\<close>

definition run_in_session ::
  "('k, 'c, 'n) ssh_lib \<Rightarrow> 'c \<Rightarrow> string \<Rightarrow> string \<Rightarrow> string \<Rightarrow> string \<times> string \<times> int \<times> goerr option" where
  "run_in_session lib client cmd user host =
     (case ss_Run lib client cmd of
        (bout, berr, RunOk) \<Rightarrow> (bout, berr, 0, None)
      | (bout, berr, RunExit code) \<Rightarrow>
          (bout, berr, code, if code \<noteq> 0 then None else Some (Errorf ''Process exited with status 0'' []))
      | (bout, berr, RunErr err) \<Rightarrow>
          (bout, berr, 0, Some (Errorf (''failed running `'' @ cmd @ ''` on '' @ user @ ''@'' @ host @ '': '' @ err_msg err) [err])))"

definition runSSHCommand ::
  "('k, 'c, 'n) ssh_lib \<Rightarrow> string \<Rightarrow> string \<Rightarrow> string \<Rightarrow> 'k \<Rightarrow> string \<times> string \<times> int \<times> goerr option" where
  "runSSHCommand lib cmd user host signer =
     (let user = (if user = [] then ss_Getenv lib ''USER'' else user)
      in case retry_dials (ss_Dial lib user host signer) of
           Inl err \<Rightarrow> ([], [], 0, Some (Errorf (''error getting SSH client to '' @ user @ ''@'' @ host @ '': '' @ err_msg err) [err]))
         | Inr client \<Rightarrow>
             (case ss_NewSession lib client of
                Some err \<Rightarrow> ([], [], 0, Some (Errorf (''error creating session to '' @ user @ ''@'' @ host @ '': '' @ err_msg err) [err]))
              | None \<Rightarrow> run_in_session lib client cmd user host))"

definition runSSHCommandViaBastion ::
  "('k, 'c, 'n) ssh_lib \<Rightarrow> string \<Rightarrow> string \<Rightarrow> string \<Rightarrow> string \<Rightarrow> 'k \<Rightarrow> string \<times> string \<times> int \<times> goerr option" where
  "runSSHCommandViaBastion lib cmd user bastion host signer =
     (case bastion_dials (ss_Dial lib user bastion signer) of
        Inl err \<Rightarrow> ([], [], 0, Some (Errorf (''error getting SSH client to '' @ user @ ''@'' @ bastion @ '': '' @ err_msg err) [err]))
      | Inr bastionClient \<Rightarrow>
          (case ss_DialFrom lib bastionClient host of
             Inl err \<Rightarrow> ([], [], 0, Some (Errorf (''error dialing '' @ host @ '' from bastion: '' @ err_msg err) [err]))
           | Inr conn \<Rightarrow>
               (case ss_NewClientConn lib conn host of
                  Inl err \<Rightarrow> ([], [], 0, Some (Errorf (''error creating forwarding connection '' @ host @ '' from bastion: '' @ err_msg err) [err]))
                | Inr client \<Rightarrow>
                    (case ss_NewSession lib client of
                       Some err \<Rightarrow>
                         ([], [], 0, Some (Errorf (''error creating session to '' @ user @ ''@'' @ host @ '' from bastion: '' @ err_msg err) [err]))
                     | None \<Rightarrow> run_in_session lib client cmd user host))))"

definition ssh_SSH :: "('k, 'c, 'n) ssh_lib \<Rightarrow> string \<Rightarrow> string \<Rightarrow> string \<Rightarrow> SSHResult \<times> goerr option" where
  "ssh_SSH lib cmd host provider =
     (let result = \<lparr>sr_User = [], sr_Host = host, sr_Cmd = cmd, sr_Stdout = [], sr_Stderr = [], sr_Code = 0\<rparr>
      in case GetSigner lib provider of
           Inl err \<Rightarrow> (result, Some (Errorf (''error getting signer for provider '' @ provider @ '': '' @ err_msg err) [err]))
         | Inr signer \<Rightarrow>
             (let user = first_env lib [''KUBE_SSH_USER''] (ss_Getenv lib ''USER'');
                  bastion = ss_Getenv lib ''KUBE_SSH_BASTION'';
                  (stdout, stderr, code, err) =
                    (if 0 < length bastion then runSSHCommandViaBastion lib cmd user bastion host signer
                     else runSSHCommand lib cmd user host signer)
              in (result\<lparr>sr_User := user, sr_Stdout := stdout, sr_Stderr := stderr, sr_Code := code\<rparr>, err)))"

text \<open>The first address of a type of every node that has one.\<close>

definition first_address :: "string \<Rightarrow> ClusterNode \<Rightarrow> string option" where
  "first_address typ n = map_option snd (List.find (\<lambda>(t, a). t = typ \<and> a \<noteq> []) (cn_Addresses n))"

definition nodeAddresses :: "ClusterNode list \<Rightarrow> string \<Rightarrow> string list" where
  "nodeAddresses nodes typ = List.map_filter (first_address typ) nodes"

definition canConnect :: "('k, 'c, 'n) ssh_lib \<Rightarrow> string \<Rightarrow> bool" where
  "canConnect lib host = (if ss_bastionSet lib then True else ss_canDial lib (ss_JoinHostPort lib host ''22''))"

text \<open>
  The hosts are probed concurrently and recorded in the order in which the probes end: \<open>arrive\<close> is that
  order of the hosts.
\<close>

definition NodeSSHHosts ::
  "('k, 'c, 'n) ssh_lib \<Rightarrow> (string list \<Rightarrow> string list) \<Rightarrow> ClusterNode list \<Rightarrow> string list \<times> goerr option" where
  "NodeSSHHosts lib arrive nodes =
     (let hosts = nodeAddresses nodes ''ExternalIP'';
          hosts = (if length hosts < length nodes then nodeAddresses nodes ''InternalIP'' else hosts)
      in if length hosts \<noteq> length nodes
         then (hosts, Some (Errorf (''only found '' @ show_nat (length hosts) @ '' IPs on nodes, but found '' @ show_nat (length nodes) @ '' nodes.'') []))
         else (map (\<lambda>h. ss_JoinHostPort lib h ''22'') (filter (canConnect lib) (arrive hosts)), None))"

definition IssueSSHCommandWithResult ::
  "('k, 'c, 'n) ssh_lib \<Rightarrow> string \<Rightarrow> string \<Rightarrow> ClusterNode \<Rightarrow> goerr + SSHResult" where
  "IssueSSHCommandWithResult lib cmd provider node =
     (case (case first_address ''ExternalIP'' node of None \<Rightarrow> first_address ''InternalIP'' node | a \<Rightarrow> a) of
        None \<Rightarrow> Inl (Errorf (''couldn'' @ [CHR 0x27] @ ''t find any IP address for node '' @ no_Name node) [])
      | Some a \<Rightarrow>
          (let (result, err) = ssh_SSH lib cmd (ss_JoinHostPort lib a ''22'') provider
           in if sr_Code result \<noteq> 0 \<or> err \<noteq> None
              then Inl (Errorf (''failed running '' @ cmd @ '' (exit code '' @ show_int (sr_Code result) @ '', stderr '' @ sr_Stderr result @ '')'') [])
              else Inr result))"

definition IssueSSHCommand :: "('k, 'c, 'n) ssh_lib \<Rightarrow> string \<Rightarrow> string \<Rightarrow> ClusterNode \<Rightarrow> goerr option" where
  "IssueSSHCommand lib cmd provider node =
     (case IssueSSHCommandWithResult lib cmd provider node of Inl err \<Rightarrow> Some err | Inr _ \<Rightarrow> None)"

text \<open>Running a command with \<^verbatim>\<open>gcloud compute ssh\<close>, given the zone and the name of the node.\<close>

definition gcloud_Exec :: "(string list \<Rightarrow> 'w call) \<Rightarrow> string \<Rightarrow> 'x Node_scheme \<Rightarrow> 'w call" where
  "gcloud_Exec gcloud command node w =
     (case (case map_of (no_Labels node) ''topology.kubernetes.io/zone'' of
              None \<Rightarrow> map_of (no_Labels node) ''failure-domain.beta.kubernetes.io/zone'' | z \<Rightarrow> z) of
        None \<Rightarrow> (Some (Errorf (''unknown zone for '' @ no_Name node @ '' node: no topology-related labels'') []), w)
      | Some zone \<Rightarrow> gcloud [''compute'', ''ssh'', ''--zone'', zone, ''--command'', command, no_Name node] w)"

section \<open>Providers\<close>

record ProviderFeatures = Features +
  fe_IsKubemarkProvider :: bool
  fe_SupportWindowsNodeScraping :: bool
  fe_SupportProbe :: bool
  fe_SupportImagePreload :: bool
  fe_SupportEnablePrometheusServer :: bool
  fe_SupportAccessAPIServerPprofEndpoint :: bool
  fe_SupportSnapshotPrometheusDisk :: bool
  fe_SupportNodeKiller :: bool
  fe_SupportGrabMetricsFromKubelets :: bool
  fe_SupportKubeStateMetrics :: bool
  fe_SupportMetricsServerMetrics :: bool
  fe_SupportResourceUsageMetering :: bool
  fe_ShouldPrometheusScrapeApiserverOnly :: bool
  fe_ShouldScrapeKubeProxy :: bool

text \<open>The zero value of the struct: a literal sets only the fields it names.\<close>

definition no_features :: ProviderFeatures where
  "no_features = \<lparr>fe_SupportSSHToMaster = False, fe_SchedulerInsecurePortDisabled = False, fe_IsKubemarkProvider = False,
     fe_SupportWindowsNodeScraping = False, fe_SupportProbe = False, fe_SupportImagePreload = False,
     fe_SupportEnablePrometheusServer = False, fe_SupportAccessAPIServerPprofEndpoint = False,
     fe_SupportSnapshotPrometheusDisk = False, fe_SupportNodeKiller = False, fe_SupportGrabMetricsFromKubelets = False,
     fe_SupportKubeStateMetrics = False, fe_SupportMetricsServerMetrics = False, fe_SupportResourceUsageMetering = False,
     fe_ShouldPrometheusScrapeApiserverOnly = False, fe_ShouldScrapeKubeProxy = False\<rparr>"

text \<open>A node of GCE carries the identifier that the cloud gave it.\<close>

record GceNode = ClusterNode +
  gn_ProviderID :: string

record 'p Provider =
  pv_Name :: string
  pv_Features :: ProviderFeatures
  pv_Config :: "(string, string) gomap"
  pv_RunSSHCommand :: ssh_runner
  pv_Metadata :: "goerr + GceNode list \<Rightarrow> goerr + (string, string) gomap"
  pv_GetManagedPrometheusClient :: "goerr + 'p"

record 'p provider_env =
  pl_gcloud :: "string list \<Rightarrow> goerr + string"
  pl_NewAKSManagedPrometheusClient :: "goerr + 'p"
  pl_NewGCPManagedPrometheusClient :: "goerr + 'p"

definition ErrNoManagedPrometheus :: goerr where
  "ErrNoManagedPrometheus = Sentinel ''no managed Prometheus service for this cloud provider''"

definition RootKubeConfigKey :: string where
  "RootKubeConfigKey = ''ROOT_KUBECONFIG''"

definition config_at :: "(string, string) gomap \<Rightarrow> string \<Rightarrow> string" where
  "config_at config k = (case map_of config k of None \<Rightarrow> [] | Some v \<Rightarrow> v)"

definition RootFrameworkKubeConfigOverride :: "(string, string) gomap \<Rightarrow> string" where
  "RootFrameworkKubeConfigOverride c = config_at c RootKubeConfigKey"

definition getComponentProtocolAndPort :: "string \<Rightarrow> string \<times> int \<times> goerr option" where
  "getComponentProtocolAndPort componentName =
     (case map_of [(''etcd'', 2379), (''kube-apiserver'', 443), (''kube-controller-manager'', 10257), (''kube-scheduler'', 10259)]
             componentName of
        Some port \<Rightarrow> (''https://'', port, None)
      | None \<Rightarrow> ([], - 1, Some (Errorf (''port for component '' @ componentName @ '' unknown'') [])))"

definition ssh_as :: "('k, 'c, 'n) ssh_lib \<Rightarrow> string \<Rightarrow> ssh_runner" where
  "ssh_as lib name cmd host =
     (let (r, err) = ssh_SSH lib cmd host name in (sr_Stdout r, sr_Stderr r, sr_Code r, err))"

definition runSSHCommand_skeleton :: "('k, 'c, 'n) ssh_lib \<Rightarrow> ssh_runner" where
  "runSSHCommand_skeleton lib = ssh_as lib ''skeleton''"

text \<open>
  The leftmost match of \<^verbatim>\<open>gce://([^/]+)/([^/]+)/([^/]+)\<close>: three parts that are not empty, separated by slashes.
\<close>

definition gce_match_at :: "string \<Rightarrow> (string \<times> string) option" where
  "gce_match_at s =
     (if take 6 s \<noteq> ''gce://'' then None
      else (case strings_Split (drop 6 s) (CHR ''/'') of
              project # zone # name # _ \<Rightarrow> if project \<noteq> [] \<and> zone \<noteq> [] \<and> name \<noteq> [] then Some (project, zone) else None
            | _ \<Rightarrow> None))"

fun gce_match :: "string \<Rightarrow> (string \<times> string) option" where
  "gce_match [] = None"
| "gce_match (c # s) = (case gce_match_at (c # s) of Some r \<Rightarrow> Some r | None \<Rightarrow> gce_match s)"

definition is_space :: "char \<Rightarrow> bool" where
  "is_space c \<longleftrightarrow> c \<in> {CHR '' '', CHR 0x09, CHR 0x0A, CHR 0x0B, CHR 0x0C, CHR 0x0D}"

definition strings_TrimSpace :: "string \<Rightarrow> string" where
  "strings_TrimSpace s = rev (dropWhile is_space (rev (dropWhile is_space s)))"

fun gce_instance_ids :: "(string list \<Rightarrow> goerr + string) \<Rightarrow> GceNode list \<Rightarrow> goerr + string list" where
  "gce_instance_ids gcloud [] = Inr []"
| "gce_instance_ids gcloud (node # nodes) =
     (if IsControlPlaneNode (ClusterNode.truncate node)
      then (let (project, zone) = (case gce_match (gn_ProviderID node) of None \<Rightarrow> ([], []) | Some pz \<Rightarrow> pz)
            in case gcloud [''compute'', ''instances'', ''describe'', ''--format'', ''value(id)'', ''--zone'', zone, no_Name node, ''--project'', project] of
                 Inl err \<Rightarrow> Inl (Errorf (''fetching instanceID for '' @ no_Name node @ '' failed with: '' @ err_msg err) [])
               | Inr out \<Rightarrow>
                   (case gce_instance_ids gcloud nodes of Inl err \<Rightarrow> Inl err | Inr ids \<Rightarrow> Inr (strings_TrimSpace out # ids)))
      else gce_instance_ids gcloud nodes)"

definition gce_Metadata :: "(string list \<Rightarrow> goerr + string) \<Rightarrow> goerr + GceNode list \<Rightarrow> goerr + (string, string) gomap" where
  "gce_Metadata gcloud listed =
     (case listed of
        Inl err \<Rightarrow> Inl err
      | Inr nodes \<Rightarrow>
          (case gce_instance_ids gcloud nodes of
             Inl err \<Rightarrow> Inl err
           | Inr masterInstanceIDs \<Rightarrow> Inr [(''masterInstanceIDs'', strings_Join masterInstanceIDs '','')]))"

definition NewAKSProvider :: "('k, 'c, 'n) ssh_lib \<Rightarrow> 'p provider_env \<Rightarrow> (string, string) gomap \<Rightarrow> 'p Provider" where
  "NewAKSProvider lib penv config =
     \<lparr>pv_Name = ''aks'',
       pv_Features = no_features
         \<lparr>fe_SupportProbe := True, fe_SupportImagePreload := True, fe_SupportGrabMetricsFromKubelets := True,
          fe_SupportSnapshotPrometheusDisk := True, fe_SupportEnablePrometheusServer := True,
          fe_SupportResourceUsageMetering := True, fe_ShouldPrometheusScrapeApiserverOnly := True,
          fe_ShouldScrapeKubeProxy := True\<rparr>,
       pv_Config = [],
       pv_RunSSHCommand = runSSHCommand_skeleton lib,
       pv_Metadata = \<lambda>_. Inr [],
       pv_GetManagedPrometheusClient = pl_NewAKSManagedPrometheusClient penv\<rparr>"

definition NewAWSProvider :: "('k, 'c, 'n) ssh_lib \<Rightarrow> 'p provider_env \<Rightarrow> (string, string) gomap \<Rightarrow> 'p Provider" where
  "NewAWSProvider lib penv config =
     \<lparr>pv_Name = ''aws'',
       pv_Features = no_features
         \<lparr>fe_ShouldPrometheusScrapeApiserverOnly := True, fe_ShouldScrapeKubeProxy := True,
          fe_SupportAccessAPIServerPprofEndpoint := True, fe_SupportEnablePrometheusServer := True,
          fe_SupportGrabMetricsFromKubelets := True, fe_SupportImagePreload := True, fe_SupportProbe := True,
          fe_SupportResourceUsageMetering := True, fe_SupportSSHToMaster := True, fe_SupportKubeStateMetrics :=
          True\<rparr>,
       pv_Config = [],
       pv_RunSSHCommand = ssh_as lib ''aws'',
       pv_Metadata = \<lambda>_. Inr [],
       pv_GetManagedPrometheusClient = Inl ErrNoManagedPrometheus\<rparr>"

definition NewAutopilotProvider :: "('k, 'c, 'n) ssh_lib \<Rightarrow> 'p provider_env \<Rightarrow> (string, string) gomap \<Rightarrow> 'p Provider" where
  "NewAutopilotProvider lib penv config =
     \<lparr>pv_Name = ''autopilot'',
       pv_Features = no_features
         \<lparr>fe_SupportSnapshotPrometheusDisk := True, fe_SupportEnablePrometheusServer := True,
          fe_SupportGrabMetricsFromKubelets := True, fe_SupportAccessAPIServerPprofEndpoint := True,
          fe_ShouldPrometheusScrapeApiserverOnly := True\<rparr>,
       pv_Config = [],
       pv_RunSSHCommand = ssh_as lib ''gce'',
       pv_Metadata = \<lambda>_. Inr [],
       pv_GetManagedPrometheusClient = pl_NewGCPManagedPrometheusClient penv\<rparr>"

definition NewEKSProvider :: "('k, 'c, 'n) ssh_lib \<Rightarrow> 'p provider_env \<Rightarrow> (string, string) gomap \<Rightarrow> 'p Provider" where
  "NewEKSProvider lib penv config =
     \<lparr>pv_Name = ''eks'',
       pv_Features = no_features
         \<lparr>fe_ShouldPrometheusScrapeApiserverOnly := True, fe_SupportProbe := True, fe_SupportImagePreload := True,
          fe_SupportEnablePrometheusServer := True, fe_SupportGrabMetricsFromKubelets := True,
          fe_SupportAccessAPIServerPprofEndpoint := True, fe_SupportResourceUsageMetering := True,
          fe_ShouldScrapeKubeProxy := True, fe_SupportKubeStateMetrics := True\<rparr>,
       pv_Config = [],
       pv_RunSSHCommand = ssh_as lib ''eks'',
       pv_Metadata = \<lambda>_. Inr [],
       pv_GetManagedPrometheusClient = Inl ErrNoManagedPrometheus\<rparr>"

definition NewGCEProvider :: "('k, 'c, 'n) ssh_lib \<Rightarrow> 'p provider_env \<Rightarrow> (string, string) gomap \<Rightarrow> 'p Provider" where
  "NewGCEProvider lib penv config =
     \<lparr>pv_Name = ''gce'',
       pv_Features = no_features
         \<lparr>fe_SupportWindowsNodeScraping := True, fe_SupportProbe := True, fe_SupportSSHToMaster := True,
          fe_SupportImagePreload := True, fe_SupportSnapshotPrometheusDisk := True, fe_SupportNodeKiller := True,
          fe_SupportEnablePrometheusServer := True, fe_SupportGrabMetricsFromKubelets := True,
          fe_SupportAccessAPIServerPprofEndpoint := True, fe_SupportKubeStateMetrics := True,
          fe_SupportMetricsServerMetrics := True, fe_SupportResourceUsageMetering := True, fe_ShouldScrapeKubeProxy
          := True\<rparr>,
       pv_Config = [],
       pv_RunSSHCommand = ssh_as lib ''gce'',
       pv_Metadata = gce_Metadata (pl_gcloud penv),
       pv_GetManagedPrometheusClient = pl_NewGCPManagedPrometheusClient penv\<rparr>"

definition NewGKEProvider :: "('k, 'c, 'n) ssh_lib \<Rightarrow> 'p provider_env \<Rightarrow> (string, string) gomap \<Rightarrow> 'p Provider" where
  "NewGKEProvider lib penv config =
     \<lparr>pv_Name = ''gke'',
       pv_Features = no_features
         \<lparr>fe_SupportProbe := True, fe_SupportImagePreload := True, fe_SupportSnapshotPrometheusDisk := True,
          fe_SupportEnablePrometheusServer := True, fe_SupportGrabMetricsFromKubelets := True,
          fe_SupportAccessAPIServerPprofEndpoint := True, fe_SupportNodeKiller := True,
          fe_SupportResourceUsageMetering := True, fe_ShouldPrometheusScrapeApiserverOnly := True,
          fe_SupportKubeStateMetrics := True\<rparr>,
       pv_Config = [],
       pv_RunSSHCommand = ssh_as lib ''gke'',
       pv_Metadata = \<lambda>_. Inr [],
       pv_GetManagedPrometheusClient = pl_NewGCPManagedPrometheusClient penv\<rparr>"

definition NewGKEKubemarkProvider :: "('k, 'c, 'n) ssh_lib \<Rightarrow> 'p provider_env \<Rightarrow> (string, string) gomap \<Rightarrow> 'p Provider" where
  "NewGKEKubemarkProvider lib penv config =
     (let supportEnablePrometheusServer = config_at config RootKubeConfigKey \<noteq> []
      in \<lparr>pv_Name = ''gkekubemark'',
       pv_Features = no_features
         \<lparr>fe_IsKubemarkProvider := True, fe_SupportEnablePrometheusServer := supportEnablePrometheusServer,
          fe_SupportAccessAPIServerPprofEndpoint := True, fe_SupportSnapshotPrometheusDisk := True,
          fe_SupportResourceUsageMetering := True, fe_ShouldPrometheusScrapeApiserverOnly := True\<rparr>,
       pv_Config = config,
       pv_RunSSHCommand = ssh_as lib ''gke'',
       pv_Metadata = \<lambda>_. Inr [],
       pv_GetManagedPrometheusClient = pl_NewGCPManagedPrometheusClient penv\<rparr>)"

definition NewKCPProvider :: "('k, 'c, 'n) ssh_lib \<Rightarrow> 'p provider_env \<Rightarrow> (string, string) gomap \<Rightarrow> 'p Provider" where
  "NewKCPProvider lib penv config =
     \<lparr>pv_Name = ''kcp'',
       pv_Features = no_features
         \<lparr>fe_SupportResourceUsageMetering := True\<rparr>,
       pv_Config = [],
       pv_RunSSHCommand = \<lambda>_ _. ([], [], 0, None),
       pv_Metadata = \<lambda>_. Inr [],
       pv_GetManagedPrometheusClient = Inl ErrNoManagedPrometheus\<rparr>"

definition NewKindProvider :: "('k, 'c, 'n) ssh_lib \<Rightarrow> 'p provider_env \<Rightarrow> (string, string) gomap \<Rightarrow> 'p Provider" where
  "NewKindProvider lib penv config =
     \<lparr>pv_Name = ''kind'',
       pv_Features = no_features
         \<lparr>fe_SupportProbe := True, fe_SupportImagePreload := True, fe_SupportEnablePrometheusServer := True,
          fe_SupportGrabMetricsFromKubelets := True, fe_SupportAccessAPIServerPprofEndpoint := True,
          fe_SupportMetricsServerMetrics := True, fe_SupportResourceUsageMetering := True, fe_ShouldScrapeKubeProxy
          := True\<rparr>,
       pv_Config = [],
       pv_RunSSHCommand = \<lambda>_ _. ([], [], 0, Some (Errorf ''kind: ssh not yet implemented'' [])),
       pv_Metadata = \<lambda>_. Inr [],
       pv_GetManagedPrometheusClient = Inl ErrNoManagedPrometheus\<rparr>"

definition NewKubemarkProvider :: "('k, 'c, 'n) ssh_lib \<Rightarrow> 'p provider_env \<Rightarrow> (string, string) gomap \<Rightarrow> 'p Provider" where
  "NewKubemarkProvider lib penv config =
     (let supportEnablePrometheusServer = config_at config RootKubeConfigKey \<noteq> []
      in \<lparr>pv_Name = ''kubemark'',
       pv_Features = no_features
         \<lparr>fe_IsKubemarkProvider := True, fe_SupportSSHToMaster := True, fe_SupportEnablePrometheusServer :=
          supportEnablePrometheusServer, fe_SupportAccessAPIServerPprofEndpoint := True,
          fe_SupportSnapshotPrometheusDisk := True, fe_SupportResourceUsageMetering := True,
          fe_ShouldScrapeKubeProxy := True\<rparr>,
       pv_Config = config,
       pv_RunSSHCommand = ssh_as lib ''kubemark'',
       pv_Metadata = \<lambda>_. Inr [],
       pv_GetManagedPrometheusClient = Inl ErrNoManagedPrometheus\<rparr>)"

definition NewLocalProvider :: "('k, 'c, 'n) ssh_lib \<Rightarrow> 'p provider_env \<Rightarrow> (string, string) gomap \<Rightarrow> 'p Provider" where
  "NewLocalProvider lib penv config =
     \<lparr>pv_Name = ''local'',
       pv_Features = no_features
         \<lparr>fe_SupportProbe := True, fe_SupportSSHToMaster := True, fe_SupportImagePreload := True,
          fe_SupportEnablePrometheusServer := True, fe_SupportGrabMetricsFromKubelets := True,
          fe_SupportAccessAPIServerPprofEndpoint := True, fe_SupportMetricsServerMetrics := True,
          fe_SupportResourceUsageMetering := True, fe_ShouldScrapeKubeProxy := True\<rparr>,
       pv_Config = [],
       pv_RunSSHCommand = ssh_as lib ''local'',
       pv_Metadata = \<lambda>_. Inr [],
       pv_GetManagedPrometheusClient = Inl ErrNoManagedPrometheus\<rparr>"

definition NewSkeletonProvider :: "('k, 'c, 'n) ssh_lib \<Rightarrow> 'p provider_env \<Rightarrow> (string, string) gomap \<Rightarrow> 'p Provider" where
  "NewSkeletonProvider lib penv config =
     \<lparr>pv_Name = ''skeleton'',
       pv_Features = no_features
         \<lparr>fe_SupportProbe := True, fe_SupportSSHToMaster := True, fe_SupportImagePreload := True,
          fe_SupportEnablePrometheusServer := True, fe_SupportGrabMetricsFromKubelets := True,
          fe_SupportAccessAPIServerPprofEndpoint := True, fe_SupportResourceUsageMetering := True,
          fe_ShouldScrapeKubeProxy := True\<rparr>,
       pv_Config = [],
       pv_RunSSHCommand = ssh_as lib ''skeleton'',
       pv_Metadata = \<lambda>_. Inr [],
       pv_GetManagedPrometheusClient = Inl ErrNoManagedPrometheus\<rparr>"

definition NewVsphereProvider :: "('k, 'c, 'n) ssh_lib \<Rightarrow> 'p provider_env \<Rightarrow> (string, string) gomap \<Rightarrow> 'p Provider" where
  "NewVsphereProvider lib penv config =
     \<lparr>pv_Name = ''vsphere'',
       pv_Features = no_features
         \<lparr>fe_SupportProbe := True, fe_SupportSSHToMaster := True, fe_SupportImagePreload := True,
          fe_SupportEnablePrometheusServer := True, fe_SupportGrabMetricsFromKubelets := True,
          fe_SupportAccessAPIServerPprofEndpoint := True, fe_SupportResourceUsageMetering := True,
          fe_ShouldScrapeKubeProxy := True\<rparr>,
       pv_Config = [],
       pv_RunSSHCommand = ssh_as lib ''skeleton'',
       pv_Metadata = \<lambda>_. Inr [],
       pv_GetManagedPrometheusClient = Inl ErrNoManagedPrometheus\<rparr>"

definition NewKubestellarProvider :: "('k, 'c, 'n) ssh_lib \<Rightarrow> 'p provider_env \<Rightarrow> (string, string) gomap \<Rightarrow> 'p Provider" where
  "NewKubestellarProvider lib penv config =
     \<lparr>pv_Name = ''ks'',
       pv_Features = no_features,
       pv_Config = [],
       pv_RunSSHCommand = \<lambda>_ _. ([], [], 0, None),
       pv_Metadata = \<lambda>_. Inr [],
       pv_GetManagedPrometheusClient = Inl ErrNoManagedPrometheus\<rparr>"

section \<open>Choosing a provider\<close>

text \<open>A pair without \<^verbatim>\<open>=\<close> is reported and then indexed out of range.\<close>

fun parseConfigs :: "string list \<Rightarrow> (string, string) gomap \<Rightarrow> (string, string) gomap option" where
  "parseConfigs [] cfgMap = Some cfgMap"
| "parseConfigs (c # configs) cfgMap =
     (let pair = strings_Split c (CHR ''='')
      in if length pair < 2 then None else parseConfigs configs (AList.update (pair ! 0) (pair ! 1) cfgMap))"

record InitOptions =
  io_KubemarkRootKubeConfigPath :: string
  io_ProviderName :: string
  io_ProviderConfigs :: "string list"

definition provider_table ::
  "(string, ('k, 'c, 'n) ssh_lib \<Rightarrow> 'p provider_env \<Rightarrow> (string, string) gomap \<Rightarrow> 'p Provider) gomap" where
  "provider_table =
     [(''aks'', NewAKSProvider), (''aws'', NewAWSProvider), (''autopilot'', NewAutopilotProvider), (''eks'', NewEKSProvider),
      (''gce'', NewGCEProvider), (''gke'', NewGKEProvider), (''gkekubemark'', NewGKEKubemarkProvider), (''kcp'', NewKCPProvider),
      (''kind'', NewKindProvider), (''kubemark'', NewKubemarkProvider), (''local'', NewLocalProvider),
      (''skeleton'', NewSkeletonProvider), (''vsphere'', NewVsphereProvider), (''ks'', NewKubestellarProvider)]"

text \<open>\<open>None\<close> is a panic.\<close>

definition NewProvider :: "('k, 'c, 'n) ssh_lib \<Rightarrow> 'p provider_env \<Rightarrow> InitOptions \<Rightarrow> (goerr + 'p Provider) option" where
  "NewProvider lib penv initOptions =
     (case parseConfigs (io_ProviderConfigs initOptions) [] of
        None \<Rightarrow> None
      | Some configs \<Rightarrow>
          (let configs = (if io_KubemarkRootKubeConfigPath initOptions \<noteq> []
                          then AList.update RootKubeConfigKey (io_KubemarkRootKubeConfigPath initOptions) configs else configs)
           in Some (case map_of provider_table (io_ProviderName initOptions) of
                      None \<Rightarrow> Inl (Errorf (''unsupported provider name: '' @ io_ProviderName initOptions) [])
                    | Some new \<Rightarrow> Inr (new lib penv configs))))"

section \<open>What the providers promise\<close>

text \<open>A command that the provider runs over SSH, with the key of a provider that has one.\<close>

definition runs_over_ssh :: "('k, 'c, 'n) ssh_lib \<Rightarrow> 'p Provider \<Rightarrow> bool" where
  "runs_over_ssh lib p \<longleftrightarrow> (\<exists>name. pv_RunSSHCommand p = ssh_as lib name \<and> key_file lib name \<noteq> None)"

lemma runs_over_sshI: "pv_RunSSHCommand p = ssh_as lib name \<Longrightarrow> key_file lib name \<noteq> None \<Longrightarrow> runs_over_ssh lib p"
  unfolding runs_over_ssh_def by blast

lemmas new_providers = NewAKSProvider_def NewAWSProvider_def NewAutopilotProvider_def NewEKSProvider_def
  NewGCEProvider_def NewGKEProvider_def NewGKEKubemarkProvider_def NewKCPProvider_def NewKindProvider_def
  NewKubemarkProvider_def NewLocalProvider_def NewSkeletonProvider_def NewVsphereProvider_def NewKubestellarProvider_def

lemma table_consistent:
  fixes lib :: "('k, 'c, 'n) ssh_lib" and penv :: "'p provider_env" and config :: "(string, string) gomap"
  assumes "(name, new) \<in> set provider_table"
  defines "p \<equiv> new lib penv config"
  shows "pv_Name p = name"
    and "fe_SupportSSHToMaster (pv_Features p) \<Longrightarrow> runs_over_ssh lib p"
    and "fe_IsKubemarkProvider (pv_Features p) \<Longrightarrow>
           pv_Config p = config \<and> (fe_SupportEnablePrometheusServer (pv_Features p) \<longleftrightarrow> RootFrameworkKubeConfigOverride config \<noteq> [])"
    and "\<not> fe_IsKubemarkProvider (pv_Features p) \<Longrightarrow> pv_Config p = []"
    and "\<not> fe_SchedulerInsecurePortDisabled (pv_Features p)"
    and "fe_SupportNodeKiller (pv_Features p) \<Longrightarrow> name \<in> {''gce'', ''gke''}"
  using assms(1) unfolding p_def
  by (auto simp: provider_table_def new_providers no_features_def RootFrameworkKubeConfigOverride_def Let_def key_file_def
      intro: runs_over_sshI)

definition provider_names :: "string list" where
  "provider_names = [''aks'', ''aws'', ''autopilot'', ''eks'', ''gce'', ''gke'', ''gkekubemark'', ''kcp'', ''kind'', ''kubemark'',
     ''local'', ''skeleton'', ''vsphere'', ''ks'']"

lemma table_names: "map_of provider_table name = None \<longleftrightarrow> name \<notin> set provider_names"
  unfolding map_of_eq_None_iff by (simp add: provider_table_def provider_names_def)

lemma table_name: "map_of provider_table name = Some new \<Longrightarrow> name \<in> set provider_names"
  by (drule map_of_SomeD) (auto simp: provider_table_def provider_names_def)

lemma strings_Split_not_Nil: "strings_Split s c \<noteq> []"
  by (cases s) (simp_all split: list.splits)

lemma strings_Split_single: "length (strings_Split s c) < 2 \<longleftrightarrow> c \<notin> set s"
proof (induction s)
  case (Cons x s)
  have "strings_Split s c \<noteq> []" by (rule strings_Split_not_Nil)
  then show ?case using Cons.IH by (cases "strings_Split s c") auto
qed simp

lemma parseConfigs_None: "parseConfigs configs m = None \<longleftrightarrow> (\<exists>c \<in> set configs. CHR ''='' \<notin> set c)"
  by (induction configs arbitrary: m) (auto simp: Let_def strings_Split_single[symmetric])


definition demo_ssh :: "(unit, unit, unit) ssh_lib" where
  "demo_ssh = \<lparr>ss_Getenv = \<lambda>_. [], ss_bastionSet = False, ss_ReadFile = Inr, ss_ParsePrivateKey = \<lambda>_. Inr (),
     ss_IsAbs = \<lambda>_. False, ss_Join = (@), ss_JoinHostPort = (@), ss_Dial = \<lambda>_ _ _. [Inl (Sentinel ''refused''), Inr ()],
     ss_DialFrom = \<lambda>_ _. Inr (), ss_NewClientConn = \<lambda>_ _. Inr (), ss_NewSession = \<lambda>_. None,
     ss_Run = \<lambda>_ cmd. (cmd, [], RunExit 2), ss_canDial = \<lambda>_. True\<rparr>"

definition demo_penv :: "unit provider_env" where
  "demo_penv = \<lparr>pl_gcloud = \<lambda>_. Inr [], pl_NewAKSManagedPrometheusClient = Inr (), pl_NewGCPManagedPrometheusClient = Inr ()\<rparr>"

definition demo_opts :: InitOptions where
  "demo_opts = \<lparr>io_KubemarkRootKubeConfigPath = ''b'', io_ProviderName = ''kubemark'', io_ProviderConfigs = [''ROOT_KUBECONFIG=a'']\<rparr>"


text \<open>
  Commands over SSH.  \<open>reaches_host\<close>: a connection is made, directly after any number of failed attempts
  before the poll ends, or through the bastion.
\<close>

definition reaches_host :: "('k, 'c, 'n) ssh_lib \<Rightarrow> string \<Rightarrow> string \<Rightarrow> 'k \<Rightarrow> 'c \<Rightarrow> bool" where
  "reaches_host lib user host signer client \<longleftrightarrow>
     (if ss_Getenv lib ''KUBE_SSH_BASTION'' \<noteq> []
      then \<exists>bc conn. bastion_dials (ss_Dial lib user (ss_Getenv lib ''KUBE_SSH_BASTION'') signer) = Inr bc \<and>
             ss_DialFrom lib bc host = Inr conn \<and> ss_NewClientConn lib conn host = Inr client
      else \<exists>errs rest. ss_Dial lib user host signer = map Inl errs @ Inr client # rest)"

lemma retry_dials_first: "retry_dials ds = Inr client \<longleftrightarrow> (\<exists>errs rest. ds = map Inl errs @ Inr client # rest)"
proof (induction ds rule: retry_dials.induct)
  case (3 err ds)
  have "(\<exists>errs rest. Inl err # ds = map Inl errs @ Inr client # rest) \<longleftrightarrow> (\<exists>errs rest. ds = map Inl errs @ Inr client # rest)"
    by (auto simp: Cons_eq_append_conv map_eq_Cons_conv) (metis list.simps(9))
  then show ?case using 3 by simp
qed (auto simp: Cons_eq_append_conv map_eq_Cons_conv)



text \<open>
  The poll of the bastion gives up at its first error although a later attempt would succeed, unlike the one
  without a bastion.
\<close>

theorem bastion_gives_up:
  "bastion_dials [Inl e1, Inl e2, Inr client] = Inl e2 \<and> retry_dials [Inl e1, Inl e2, Inr client] = Inr client"
  by (simp add: bastion_dials_def)

end
