(* ===== verification/Prometheus_Stack.thy ===== *)
theory Prometheus_Stack
  imports Template_Config Providers
begin

text \<open>
  The Prometheus stack (\<^verbatim>\<open>pkg/prometheus/prometheus.go\<close>, \<^verbatim>\<open>experimental.go\<close>, \<^verbatim>\<open>util.go\<close>, \<^verbatim>\<open>gce_windows_util.go\<close>): the
  controller that sets it up in a cluster and tears it down, with the snapshot of its disk.  The world that
  API calls and \<^verbatim>\<open>gcloud\<close> change is the type \<open>'w\<close>; log output is left out.
\<close>

section \<open>Targets\<close>

record Target =
  tg_Labels :: "(string, string) gomap"
  tg_Health :: string

text \<open>\<open>None\<close> as the number of ready targets stands for \<^verbatim>\<open>allTargets\<close>.  \<open>raw\<close> is the answer of the API server.\<close>

definition CheckTargetsReady ::
  "(string \<Rightarrow> goerr + Target list) \<Rightarrow> goerr + string \<Rightarrow> (Target \<Rightarrow> bool) \<Rightarrow> int \<Rightarrow> int option \<Rightarrow> bool \<times> goerr option" where
  "CheckTargetsReady unmarshal raw selector minActiveTargets minReadyTargets =
     (case raw of
        Inl err \<Rightarrow> (False, None)
      | Inr raw \<Rightarrow>
          (case unmarshal raw of
             Inl err \<Rightarrow> (False, Some err)
           | Inr activeTargets \<Rightarrow>
               (let ts = filter selector activeTargets;
                    nTotal = int (length ts);
                    nReady = int (length (filter (\<lambda>t. tg_Health t = ''up'') ts));
                    minReadyTargets = (case minReadyTargets of None \<Rightarrow> nTotal | Some m \<Rightarrow> m)
                in if nTotal < minActiveTargets then (False, None)
                   else if nReady < minReadyTargets then (False, None)
                   else (True, None))))"

definition CheckAllTargetsReady ::
  "(string \<Rightarrow> goerr + Target list) \<Rightarrow> goerr + string \<Rightarrow> (Target \<Rightarrow> bool) \<Rightarrow> int \<Rightarrow> bool \<times> goerr option" where
  "CheckAllTargetsReady unmarshal raw selector minActiveTargets = CheckTargetsReady unmarshal raw selector minActiveTargets None"

definition isEtcdEndpoint :: "string \<Rightarrow> bool" where
  "isEtcdEndpoint endpoint \<longleftrightarrow> endpoint = ''etcd-2379'' \<or> endpoint = ''etcd-2382''"

definition target_endpoint :: "Target \<Rightarrow> string" where
  "target_endpoint t = (case map_of (tg_Labels t) ''endpoint'' of None \<Rightarrow> [] | Some e \<Rightarrow> e)"

section \<open>The controller\<close>

record prometheusDiskMetadata =
  dm_name :: string
  dm_zone :: string

text \<open>The flags that are variables of the package.\<close>

record snapshot_flags =
  sf_shouldSnapshotPrometheusDisk :: bool
  sf_shouldSnapshotPrometheusToReportDir :: bool
  sf_prometheusDiskSnapshotName :: string

record 'p Controller =
  pc_config :: ClusterLoaderConfig
  pc_provider :: "'p Provider"
  pc_templateMapping :: params
  pc_diskMetadata :: prometheusDiskMetadata
  pc_snapshotted :: bool
  pc_snapshotError :: "goerr option"
  pc_readyTimeout :: duration

definition ValidatePrometheusFlags :: "snapshot_flags \<Rightarrow> PrometheusConfig \<Rightarrow> ErrorList" where
  "ValidatePrometheusFlags flg p =
     (if sf_shouldSnapshotPrometheusDisk flg \<and> pr_SnapshotProject p = []
      then NewErrorList [Errorf ''requesting snapshot, but snapshot project not configured. Use --experimental-snapshot-project flag'' []]
      else NewErrorList [])"

definition pc_isEnabled :: "snapshot_flags \<Rightarrow> 'p Provider \<Rightarrow> bool \<times> goerr option" where
  "pc_isEnabled flg p =
     (if \<not> sf_shouldSnapshotPrometheusDisk flg then (False, None)
      else if \<not> fe_SupportSnapshotPrometheusDisk (pv_Features p)
      then (False, Some (Errorf (''snapshotting Prometheus'' @ [CHR 0x27] @
              '' disk only available for GCP providers (gce, gke, kubemark), provider is: '' @ pv_Name p) []))
      else (True, None))"

text \<open>
  The addresses of the control plane.  \<open>endpoints\<close> is what the retried request for the endpoints of the
  service \<^verbatim>\<open>kubernetes\<close> gives, with the addresses per subset.
\<close>

definition getMasterIpsFromKubernetesService :: "goerr + string list list \<Rightarrow> goerr + string list" where
  "getMasterIpsFromKubernetesService endpoints =
     (case endpoints of
        Inl err \<Rightarrow> Inl err
      | Inr subsets \<Rightarrow>
          (let ips = concat subsets
           in if length ips = 0 then Inl (Errorf ''no master ips available in default/kubernetes service'' []) else Inr ips))"

definition getMasterIps :: "goerr + string list list \<Rightarrow> FullClusterConfig \<Rightarrow> bool \<Rightarrow> goerr + string list" where
  "getMasterIps endpoints clusterConfig usePublicIPs =
     (if cc_MasterDNSEndpoint clusterConfig \<noteq> []
      then Inl (Errorf (''cluster has master DNS endpoint '' @ cc_MasterDNSEndpoint clusterConfig @ '', don'' @ [CHR 0x27] @ ''t use master IPs'') [])
      else if usePublicIPs
      then (if length (cc_MasterIPs clusterConfig) = 0
            then Inl (Errorf ''requested to use public IPs, however no publics IPs are provided'' [])
            else Inr (cc_MasterIPs clusterConfig))
      else if length (cc_MasterInternalIPs clusterConfig) \<noteq> 0 then Inr (cc_MasterInternalIPs clusterConfig)
      else (case getMasterIpsFromKubernetesService endpoints of
              Inl err \<Rightarrow> Inl (Errorf (''no ips are set, fallback to default/kubernetes service failed due to: '' @ err_msg err) [])
            | Inr ips \<Rightarrow> Inr ips))"

text \<open>
  A flag that the mapping may override: the value of the mapping must be a \<^verbatim>\<open>bool\<close>, or the assertion of its
  type panics.
\<close>

definition bool_override :: "string \<Rightarrow> bool \<Rightarrow> params \<Rightarrow> (bool \<times> params) option" where
  "bool_override key flag mapping =
     (case map_of mapping key of
        None \<Rightarrow> Some (flag, AList.update key (VBool flag) mapping)
      | Some (VBool b) \<Rightarrow> Some (b, mapping)
      | Some _ \<Rightarrow> None)"

definition set_default :: "string \<Rightarrow> gval \<Rightarrow> params \<Rightarrow> params" where
  "set_default key v mapping = (case map_of mapping key of None \<Rightarrow> AList.update key v mapping | Some _ \<Rightarrow> mapping)"

definition master_ips_mapping :: "goerr + string list list \<Rightarrow> ClusterLoaderConfig \<Rightarrow> params \<Rightarrow> params" where
  "master_ips_mapping endpoints cfg mapping =
     (if cc_MasterDNSEndpoint (clc_ClusterConfig cfg) \<noteq> [] then mapping
      else (case getMasterIps endpoints (clc_ClusterConfig cfg) (pr_ScrapeMastersWithPublicIPs (clc_PrometheusConfig cfg)) of
              Inl err \<Rightarrow> AList.delete ''MasterIps'' mapping
            | Inr ips \<Rightarrow> AList.update ''MasterIps'' (VList (map VString ips)) mapping))"

text \<open>The variables that are set whatever the mapping says.\<close>

definition fixed_settings :: "ClusterLoaderConfig \<Rightarrow> bool \<Rightarrow> params" where
  "fixed_settings cfg snapshotEnabled =
     (let p = clc_PrometheusConfig cfg
      in [(''PROMETHEUS_SCRAPE_NODE_LOCAL_DNS'', VBool (pr_ScrapeNodeLocalDNS p)),
          (''PROMETHEUS_SCRAPE_KUBE_STATE_METRICS'', VBool (pr_ScrapeKubeStateMetrics p)),
          (''PROMETHEUS_SCRAPE_METRICS_SERVER_METRICS'', VBool (pr_ScrapeMetricsServerMetrics p)),
          (''PROMETHEUS_SCRAPE_KUBELETS'', VBool (pr_ScrapeKubelets p)),
          (''PROMETHEUS_SCRAPE_MASTER_KUBELETS'', VBool (pr_ScrapeKubelets p \<or> pr_ScrapeMasterKubelets p)),
          (''PROMETHEUS_APISERVER_SCRAPE_PORT'', VInt (pr_APIServerScrapePort p)),
          (''PROMETHEUS_STORAGE_CLASS_PROVISIONER'', VString (pr_StorageClassProvisioner p)),
          (''PROMETHEUS_STORAGE_CLASS_VOLUME_TYPE'', VString (pr_StorageClassVolumeType p)),
          (''PROMETHEUS_KUBE_PROXY_SELECTOR_KEY'', VString (pr_KubeProxySelectorKey p)),
          (''PROMETHEUS_PVC_STORAGE_CLASS'', VString (pr_PVCStorageClass p)),
          (''PROMETHEUS_MEMORY_REQUEST'', VString (pr_PrometheusMemoryRequest p)),
          (''RetainPD'', VBool snapshotEnabled)])"

text \<open>
  The overrides of the flags, in the order of the code; the configuration that is changed is the one of the
  caller.
\<close>

definition complete_mapping ::
  "snapshot_flags \<Rightarrow> 'p Provider \<Rightarrow> goerr + string list list \<Rightarrow> ClusterLoaderConfig \<Rightarrow> params \<Rightarrow> (ClusterLoaderConfig \<times> params) option" where
  "complete_mapping flg provider endpoints cfg mapping =
     (let features = pv_Features provider;
          p = clc_PrometheusConfig cfg;
          mapping = master_ips_mapping endpoints cfg mapping;
          mapping = set_default ''PROMETHEUS_SCRAPE_APISERVER_ONLY'' (VBool (fe_ShouldPrometheusScrapeApiserverOnly features)) mapping
      in Option.bind (bool_override ''PROMETHEUS_SCRAPE_ETCD'' (pr_ScrapeEtcd p) mapping) (\<lambda>(etcd, mapping).
         Option.bind (bool_override ''PROMETHEUS_SCRAPE_NODE_EXPORTER'' (pr_ScrapeNodeExporter p) mapping) (\<lambda>(nodeExporter, mapping).
         Option.bind (bool_override ''PROMETHEUS_SCRAPE_WINDOWS_NODE_EXPORTER'' (pr_ScrapeWindowsNodeExporter p) mapping) (\<lambda>(windows, mapping).
         Option.bind (bool_override ''PROMETHEUS_SCRAPE_KUBE_PROXY'' (fe_ShouldScrapeKubeProxy features) mapping) (\<lambda>(kubeProxy, mapping).
         Option.bind (bool_override ''PROMETHEUS_SCRAPE_ANET'' (pr_ScrapeAnet p) mapping) (\<lambda>(anet, mapping).
         Option.bind (bool_override ''PROMETHEUS_SCRAPE_KUBE_NETWORK_POLICIES'' (pr_ScrapeNetworkPolicies p) mapping) (\<lambda>(netpol, mapping).
           let p = p\<lparr>pr_ScrapeEtcd := etcd, pr_ScrapeNodeExporter := nodeExporter, pr_ScrapeWindowsNodeExporter := windows,
                     pr_ScrapeKubeProxy := kubeProxy, pr_ScrapeAnet := anet, pr_ScrapeNetworkPolicies := netpol\<rparr>;
               cfg = cfg\<lparr>clc_PrometheusConfig := p\<rparr>;
               mapping = set_default ''PROMETHEUS_MASTER_DNS_ENDPOINT'' (VString (cc_MasterDNSEndpoint (clc_ClusterConfig cfg))) mapping
           in Some (cfg, gomap_copy (fixed_settings cfg (fst (pc_isEnabled flg provider))) mapping))))))))"

text \<open>\<open>None\<close> is a panic.  \<open>framework\<close> is the error of creating the root framework.\<close>

definition NewController ::
  "config_env \<Rightarrow> snapshot_flags \<Rightarrow> 'p Provider \<Rightarrow> goerr option \<Rightarrow> goerr + string list list \<Rightarrow> ClusterLoaderConfig \<Rightarrow>
     (goerr + 'p Controller) option" where
  "NewController env flg provider framework endpoints cfg =
     (case framework of
        Some err \<Rightarrow> Some (Inl err)
      | None \<Rightarrow>
          (case GetMapping env cfg [] of
             Inl errList \<Rightarrow> Some (Inl (Errorf (ErrorList_Error errList) []))
           | Inr mapping \<Rightarrow>
               (case complete_mapping flg provider endpoints cfg mapping of
                  None \<Rightarrow> None
                | Some (cfg, mapping) \<Rightarrow>
                    Some (Inr \<lparr>pc_config = cfg, pc_provider = provider, pc_templateMapping = mapping,
                               pc_diskMetadata = \<lparr>dm_name = [], dm_zone = []\<rparr>, pc_snapshotted = False,
                               pc_snapshotError = None, pc_readyTimeout = pr_ReadyTimeout (clc_PrometheusConfig cfg)\<rparr>))))"

definition isPrometheusReady :: "(string \<Rightarrow> goerr + Target list) \<Rightarrow> goerr + string \<Rightarrow> goerr + string \<Rightarrow> 'p Controller \<Rightarrow> bool \<times> goerr option" where
  "isPrometheusReady unmarshal raw1 raw2 pc =
     (let expectedTargets = 4
      in if pr_ScrapeEtcd (clc_PrometheusConfig (pc_config pc))
         then (case CheckAllTargetsReady unmarshal raw1 (\<lambda>t. \<not> isEtcdEndpoint (target_endpoint t)) expectedTargets of
                 (ok, err) \<Rightarrow>
                   if err \<noteq> None \<or> \<not> ok then (ok, err)
                   else CheckTargetsReady unmarshal raw2 (\<lambda>t. isEtcdEndpoint (target_endpoint t)) 2 (Some 1))
         else CheckAllTargetsReady unmarshal raw1 (\<lambda>_. True) expectedTargets)"

section \<open>Setting up\<close>

text \<open>A persistent volume as the controller reads it: its claim, phase, labels and the two kinds of disks.\<close>

record DiskVolume =
  dv_ClaimRef :: "string option"
  dv_Phase :: string
  dv_Labels :: "(string, string) gomap"
  dv_GCEPersistentDisk :: "string option"
  dv_CSI :: "string option"

text \<open>
  What the controller calls.  \<open>pe_root\<close> is the client of the cluster of Prometheus; the other calls go to
  the test cluster, to \<^verbatim>\<open>gcloud\<close> or to the file system.  \<open>pe_Poll\<close> is \<^verbatim>\<open>wait.Poll\<close>, for conditions that change
  the controller beside the world.
\<close>

record ('w, 'p) prom_env =
  pe_root :: "'w client"
  pe_testClient :: "goerr option"
  pe_glob :: "string \<Rightarrow> goerr + string list"
  pe_toObjects :: "string \<Rightarrow> params \<Rightarrow> goerr + Unstructured list"
  pe_extraGlob :: "string \<Rightarrow> goerr + string list"
  pe_extraObjects :: "string \<Rightarrow> string \<Rightarrow> params \<Rightarrow> goerr + Unstructured list"
  pe_getServiceAccount :: "'w call"
  pe_createServiceAccount :: "'w call"
  pe_createToken :: "'w \<Rightarrow> (goerr + string) \<times> 'w"
  pe_tokenWait :: "('w \<times> string) wait_pkg"
  pe_getSecret :: "'w call"
  pe_updateSecret :: "string \<Rightarrow> 'w call"
  pe_createSecret :: "string \<Rightarrow> 'w call"
  pe_createClusterRole :: "'w call"
  pe_createClusterRoleBinding :: "'w call"
  pe_newFramework :: "goerr option"
  pe_listNodes :: "'w \<Rightarrow> (goerr + ClusterNode list) \<times> 'w"
  pe_openNodeExporter :: "goerr option"
  pe_gcloud :: "string list \<Rightarrow> 'w call"
  pe_windowsProviderIDs :: "'w \<Rightarrow> (goerr + string list) \<times> 'w"
  pe_targets :: "'w \<Rightarrow> (goerr + string) \<times> 'w"
  pe_unmarshal :: "string \<Rightarrow> goerr + Target list"
  pe_show :: "gval \<Rightarrow> string"
  pe_sleep :: "duration \<Rightarrow> 'w \<Rightarrow> 'w"
  pe_listPVs :: "'w \<Rightarrow> (goerr + DiskVolume list) \<times> 'w"
  pe_Poll :: "duration \<Rightarrow> duration \<Rightarrow> ('w \<times> 'p Controller) cond \<Rightarrow> ('w \<times> 'p Controller) call"
  pe_postSnapshot :: "'w \<Rightarrow> (goerr + string) \<times> 'w"
  pe_unmarshalSnapshot :: "string \<Rightarrow> goerr + string"
  pe_prometheusPods :: "'w \<Rightarrow> string list \<times> 'w"
  pe_copyFromPod :: "string \<Rightarrow> string \<Rightarrow> string \<Rightarrow> 'w call"

type_synonym ('w, 'p) prom_call = "('w \<times> 'p Controller) call"

definition on_world :: "'w call \<Rightarrow> ('w, 'p) prom_call" where
  "on_world f = (\<lambda>(w, pc). case f w of (err, w) \<Rightarrow> (err, (w, pc)))"

text \<open>One call after the other, as long as there is no error; and a call under a condition.\<close>

definition and_then :: "'s call \<Rightarrow> 's call \<Rightarrow> 's call" where
  "and_then f g s = (case f s of (Some err, s) \<Rightarrow> (Some err, s) | (None, s) \<Rightarrow> g s)"

definition when_call :: "('s \<Rightarrow> bool) \<Rightarrow> 's call \<Rightarrow> 's call" where
  "when_call b f s = (if b s then f s else (None, s))"

definition applyDefaultManifests :: "('w, 'p) prom_env \<Rightarrow> string \<Rightarrow> ('w, 'p) prom_call" where
  "applyDefaultManifests env manifestGlob = (\<lambda>(w, pc).
     on_world (ApplyTemplatedManifests (pe_root env) (pe_toObjects env) (pe_glob env manifestGlob) (pc_templateMapping pc)
       [Retry (IsNotFound (c_errs (pe_root env)))]) (w, pc))"

definition applyManifests :: "('w, 'p) prom_env \<Rightarrow> string \<Rightarrow> ('w, 'p) prom_call" where
  "applyManifests env dir = (\<lambda>(w, pc).
     on_world (ApplyTemplatedManifests (pe_root env) (pe_extraObjects env dir) (pe_extraGlob env dir) (pc_templateMapping pc)
       [Retry (IsNotFound (c_errs (pe_root env)))]) (w, pc))"

definition retryCreateFunction :: "('w, 'p) prom_env \<Rightarrow> 'w call \<Rightarrow> 'w call" where
  "retryCreateFunction env f = retried (pe_root env) f [Allow (IsAlreadyExists (c_errs (pe_root env)))]"

text \<open>The token of the last attempt is kept beside the world; it stays empty when an error is allowed.\<close>

definition retryCreateFunctionWithResponse :: "('w, 'p) prom_env \<Rightarrow> ('w \<Rightarrow> (goerr + string) \<times> 'w) \<Rightarrow> 'w \<Rightarrow> (goerr + string) \<times> 'w" where
  "retryCreateFunctionWithResponse env f w =
     (let attempt = (\<lambda>(w, r). case f w of (Inl err, w) \<Rightarrow> (Some err, (w, [])) | (Inr t, w) \<Rightarrow> (None, (w, t)));
          (err, (w, result)) =
            RetryWithExponentialBackOff (pe_tokenWait env)
              (RetryFunction (c_errs (pe_root env)) attempt [Allow (IsAlreadyExists (c_errs (pe_root env)))]) (w, [])
      in case err of Some err \<Rightarrow> (Inl err, w) | None \<Rightarrow> (Inr result, w))"

definition token_request :: "('w, 'p) prom_env \<Rightarrow> 'w \<Rightarrow> (goerr + string) \<times> 'w" where
  "token_request env w =
     (case pe_createToken env w of
        (Inl err, w) \<Rightarrow> (Inl (Errorf (''failed to create token: '' @ err_msg err) []), w)
      | (Inr token, w) \<Rightarrow>
          if length token = 0 then (Inl (Errorf ''failed to create token: no token in server response'' []), w) else (Inr token, w))"

definition createPrometheusSecretForExistingServiceAccount :: "('w, 'p) prom_env \<Rightarrow> string \<Rightarrow> 'w call" where
  "createPrometheusSecretForExistingServiceAccount env secret w =
     (case pe_getSecret env w of
        (None, w) \<Rightarrow>
          (case pe_updateSecret env secret w of
             (Some err, w) \<Rightarrow> (Some (Errorf (''failed to update secret prometheus-token in namespace monitoring: '' @ err_msg err) [err]), w)
           | (None, w) \<Rightarrow> (None, w))
      | (Some inErr, w) \<Rightarrow>
          if IsNotFound (c_errs (pe_root env)) inErr
          then (case pe_createSecret env secret w of
                  (Some err, w) \<Rightarrow> (Some (Errorf (''failed to create secret prometheus-token in namespace monitoring: '' @ err_msg err) [err]), w)
                | (None, w) \<Rightarrow> (None, w))
          else (Some inErr, w))"

definition createToken :: "('w, 'p) prom_env \<Rightarrow> 'w call" where
  "createToken env w =
     (case pe_getServiceAccount env w of
        (None, w) \<Rightarrow>
          (case retryCreateFunctionWithResponse env (token_request env) w of
             (Inl err, w) \<Rightarrow> (Some err, w)
           | (Inr tokenResponse, w) \<Rightarrow> createPrometheusSecretForExistingServiceAccount env tokenResponse w)
      | (Some err, w) \<Rightarrow>
          if \<not> IsNotFound (c_errs (pe_root env)) err then (Some err, w)
          else (case retryCreateFunction env (pe_createServiceAccount env) w of
                  (Some err, w) \<Rightarrow> (Some err, w)
                | (None, w) \<Rightarrow>
                    (case retryCreateFunctionWithResponse env (token_request env) w of
                       (Inl err, w) \<Rightarrow> (Some err, w)
                     | (Inr tokenResponse, w) \<Rightarrow> pe_createSecret env tokenResponse w)))"

definition configureRBACForMetrics :: "('w, 'p) prom_env \<Rightarrow> 'w call" where
  "configureRBACForMetrics env =
     and_then (retryCreateFunction env (pe_createClusterRole env)) (retryCreateFunction env (pe_createClusterRoleBinding env))"

text \<open>
  The commands run concurrently and the group returns the first error; here they run in the order of the
  nodes.
\<close>

fun exec_on_masters :: "('w, 'p) prom_env \<Rightarrow> ClusterNode list \<Rightarrow> goerr option \<Rightarrow> 'w call" where
  "exec_on_masters env [] err w = (err, w)"
| "exec_on_masters env (node # nodes) err w =
     (case pe_openNodeExporter env of
        Some e \<Rightarrow> exec_on_masters env nodes (case err of None \<Rightarrow> Some (Errorf (''unable to open manifest file: '' @ err_msg e) []) | e \<Rightarrow> e) w
      | None \<Rightarrow>
          (case gcloud_Exec (pe_gcloud env) ''sudo tee /etc/kubernetes/manifests/node-exporter.yaml > /dev/null'' node w of
             (e, w) \<Rightarrow> exec_on_masters env nodes (case err of None \<Rightarrow> e | e' \<Rightarrow> e') w))"

definition runNodeExporter :: "('w, 'p) prom_env \<Rightarrow> 'w call" where
  "runNodeExporter env w =
     (case pe_newFramework env of
        Some err \<Rightarrow> (Some err, w)
      | None \<Rightarrow>
          (case pe_listNodes env w of
             (Inl err, w) \<Rightarrow> (Some err, w)
           | (Inr nodes, w) \<Rightarrow>
               (let masters = filter IsControlPlaneNode nodes
                in if length masters = 0 then (Some (Errorf ''node-exporter requires master to be registered nodes'' []), w)
                   else exec_on_masters env masters None w)))"

text \<open>Windows nodes: the parts of the provider ID name the project, the zone and the node.\<close>

record gceNode =
  gc_projectID :: string
  gc_zone :: string
  gc_nodeName :: string

definition getGceWindowsNodeFromKubernetesService :: "('w, 'p) prom_env \<Rightarrow> 'w \<Rightarrow> (goerr + gceNode) \<times> 'w" where
  "getGceWindowsNodeFromKubernetesService env w =
     (case pe_windowsProviderIDs env w of
        (Inl err, w) \<Rightarrow> (Inl err, w)
      | (Inr [], w) \<Rightarrow> (Inl (Errorf ''no windows nodes available in kubernetes service'' []), w)
      | (Inr (providerID # _), w) \<Rightarrow>
          (let providerStrs = strings_Split providerID (CHR ''/'')
           in if length providerStrs < 5 then (Inl (Errorf ''no valid gce provider ID available'' []), w)
              else (Inr \<lparr>gc_projectID = providerStrs ! 2, gc_zone = providerStrs ! 3, gc_nodeName = providerStrs ! 4\<rparr>, w)))"

fun install_attempts :: "('w, 'p) prom_env \<Rightarrow> gceNode \<Rightarrow> string \<Rightarrow> nat \<Rightarrow> goerr option \<Rightarrow> 'w call" where
  "install_attempts env node powershellCmd 0 err w = (err, w)"
| "install_attempts env node powershellCmd (Suc n) err w =
     (case pe_gcloud env [''compute'', ''ssh'', ''--project'', gc_projectID node, ''--zone'', gc_zone node, gc_nodeName node,
                          ''--command'', powershellCmd] w of
        (None, w) \<Rightarrow> (None, w)
      | (Some err, w) \<Rightarrow> install_attempts env node powershellCmd n (Some err) (pe_sleep env 10000000000 w))"

definition wmi_command :: "string \<Rightarrow> string \<Rightarrow> string" where
  "wmi_command url collectors =
     ''powershell.exe -Command '' @ [CHR 0x22] @ ''Remove-Job -Name InstallWmiExporter 2>&1 | Out-Null; Start-Job -Name InstallWmiExporter -ScriptBlock {invoke-webrequest -uri ''
     @ url @ '' -outfile C:'' @ [CHR 0x5C] @ ''wmi_exporter.exe; New-Service -Name wmi_exporter -BinaryPathName '' @ [CHR 0x27] @ ''C:''
     @ [CHR 0x5C] @ ''wmi_exporter.exe --collectors.enabled='' @ [CHR 0x22] @ collectors @ [CHR 0x22] @ '' --telemetry.addr='' @ [CHR 0x22]
     @ '':5000'' @ [CHR 0x22, CHR 0x27] @ ''; Start-Service wmi_exporter}; Wait-Job -Timeout 300 -Name InstallWmiExporter'' @ [CHR 0x22]"

definition installWmiExporter :: "('w, 'p) prom_env \<Rightarrow> gceNode \<Rightarrow> params \<Rightarrow> 'w call" where
  "installWmiExporter env windowsNode mapping w =
     (case map_of mapping ''CL2_WMI_EXPORTER_URL'' of
        None \<Rightarrow> (Some (Errorf ''missing setting up wmi exporter download url'' []), w)
      | Some url \<Rightarrow>
          (case map_of mapping ''CL2_WMI_EXPORTER_ENABLED_COLLECTORS'' of
             None \<Rightarrow> (Some (Errorf ''missing setting up wmi exporter enabled collectors'' []), w)
           | Some collectors \<Rightarrow>
               install_attempts env windowsNode (wmi_command (pe_show env url) (pe_show env collectors)) 6 None w))"

definition setUpWindowsNodeAndTemplate :: "('w, 'p) prom_env \<Rightarrow> ('w, 'p) prom_call" where
  "setUpWindowsNodeAndTemplate env = (\<lambda>(w, pc).
     (case getGceWindowsNodeFromKubernetesService env w of
        (Inl err, w) \<Rightarrow> (Some err, (w, pc))
      | (Inr windowsNode, w) \<Rightarrow>
          (case installWmiExporter env windowsNode (pc_templateMapping pc) w of
             (Some err, w) \<Rightarrow> (Some err, (w, pc))
           | (None, w) \<Rightarrow>
               (None, (w, pc\<lparr>pc_templateMapping := AList.update ''PROMETHEUS_SCRAPE_WINDOWS_NODES'' (VBool True)
                              (AList.update ''WINDOWS_NODE_NAME'' (VString (gc_nodeName windowsNode)) (pc_templateMapping pc))\<rparr>)))))"

text \<open>The assertion of the type panics for a value that is no \<^verbatim>\<open>bool\<close>.\<close>

definition isWindowsNodeScrapingEnabled :: "'p Controller \<Rightarrow> bool option" where
  "isWindowsNodeScrapingEnabled pc =
     (case map_of (pc_templateMapping pc) ''WINDOWS_NODE_TEST'' of
        None \<Rightarrow> Some False
      | Some (VBool b) \<Rightarrow> Some (b \<and> fe_SupportWindowsNodeScraping (pv_Features (pc_provider pc)))
      | Some _ \<Rightarrow> None)"

text \<open>The condition of the wait; the second request is made only after the first has found the targets ready.\<close>

definition ready_condition :: "('w, 'p) prom_env \<Rightarrow> 'p Controller \<Rightarrow> 'w cond" where
  "ready_condition env pc w =
     (case pe_targets env w of
        (raw1, w1) \<Rightarrow>
          (let second = pr_ScrapeEtcd (clc_PrometheusConfig (pc_config pc)) \<and>
                 CheckAllTargetsReady (pe_unmarshal env) raw1 (\<lambda>t. \<not> isEtcdEndpoint (target_endpoint t)) 4 = (True, None)
           in if second then (case pe_targets env w1 of (raw2, w2) \<Rightarrow> (isPrometheusReady (pe_unmarshal env) raw1 raw2 pc, w2))
              else (isPrometheusReady (pe_unmarshal env) raw1 raw1 pc, w1)))"

definition waitForPrometheusToBeHealthy :: "('w, 'p) prom_env \<Rightarrow> ('w, 'p) prom_call" where
  "waitForPrometheusToBeHealthy env = (\<lambda>(w, pc).
     on_world (PollImmediate (c_wait (pe_root env)) 30000000000 (pc_readyTimeout pc) (ready_condition env pc)) (w, pc))"

section \<open>The disk of Prometheus\<close>

text \<open>
  The leftmost match of \<^verbatim>\<open>projects/([^/]+)/zones/([^/]+)/disks/([^/]+)\<close>: the name of the disk and its zone.
\<close>

definition segment :: "string \<Rightarrow> string \<Rightarrow> (string \<times> string) option" where
  "segment pre s =
     (if take (length pre) s \<noteq> pre then None
      else let r = drop (length pre) s; seg = takeWhile (\<lambda>c. c \<noteq> CHR ''/'') r
           in if seg = [] then None else Some (seg, dropWhile (\<lambda>c. c \<noteq> CHR ''/'') r))"

definition csi_match_at :: "string \<Rightarrow> (string \<times> string) option" where
  "csi_match_at s =
     Option.bind (segment ''projects/'' s) (\<lambda>(project, s).
       Option.bind (segment ''/zones/'' s) (\<lambda>(zone, s).
         Option.bind (segment ''/disks/'' s) (\<lambda>(name, s). Some (name, zone))))"

fun csi_match :: "string \<Rightarrow> (string \<times> string) option" where
  "csi_match [] = None"
| "csi_match (c # s) = (case csi_match_at (c # s) of Some r \<Rightarrow> Some r | None \<Rightarrow> csi_match s)"

definition label_at :: "(string, string) gomap \<Rightarrow> string \<Rightarrow> string" where
  "label_at labels k = (case map_of labels k of None \<Rightarrow> [] | Some v \<Rightarrow> v)"

definition nameAndZone :: "DiskVolume \<Rightarrow> goerr + string \<times> string" where
  "nameAndZone pv =
     (case dv_GCEPersistentDisk pv of
        Some name \<Rightarrow>
          (let zone = label_at (dv_Labels pv) ''topology.kubernetes.io/zone''
           in Inr (name, if zone = [] then label_at (dv_Labels pv) ''failure-domain.beta.kubernetes.io/zone'' else zone))
      | None \<Rightarrow>
          (case dv_CSI pv of
             Some volumeHandle \<Rightarrow>
               (case csi_match volumeHandle of
                  None \<Rightarrow> Inl (Errorf (''unexpected format of volumeHandle: '' @ volumeHandle) [])
                | Some nz \<Rightarrow> Inr nz)
           | None \<Rightarrow> Inl (Errorf ''unknown pv type'' [])))"

text \<open>
  A volume without a claim is dereferenced as nil; the panic is carried through the poll as an error of
  its own.
\<close>

definition nil_dereference :: goerr where
  "nil_dereference = Sentinel ''runtime error: invalid memory address or nil pointer dereference''"

fun disk_loop :: "DiskVolume list \<Rightarrow> string \<times> string \<Rightarrow> goerr + string \<times> string" where
  "disk_loop [] found = Inr found"
| "disk_loop (pv # pvs) found =
     (case dv_ClaimRef pv of
        None \<Rightarrow> Inl nil_dereference
      | Some claim \<Rightarrow>
          if claim \<noteq> ''prometheus-k8s-db-prometheus-k8s-0'' \<or> dv_Phase pv \<noteq> ''Bound'' then disk_loop pvs found
          else (case nameAndZone pv of
                  Inl err \<Rightarrow> Inl (Errorf (''failed to extract name and value from pv: '' @ err_msg err) [err])
                | Inr found \<Rightarrow> disk_loop pvs found))"

definition tryRetrievePrometheusDiskMetadata :: "('w, 'p) prom_env \<Rightarrow> ('w \<times> 'p Controller) cond" where
  "tryRetrievePrometheusDiskMetadata env = (\<lambda>(w, pc).
     (case pe_listPVs env w of
        (Inl err, w) \<Rightarrow> ((False, None), (w, pc))
      | (Inr pvs, w) \<Rightarrow>
          (case disk_loop pvs ([], []) of
             Inl err \<Rightarrow> ((False, Some err), (w, pc))
           | Inr (pdName, zone) \<Rightarrow>
               if pdName = [] \<or> zone = [] then ((True, None), (w, pc))
               else ((True, None), (w, pc\<lparr>pc_diskMetadata := \<lparr>dm_name = pdName, dm_zone = zone\<rparr>\<rparr>)))))"

definition cachePrometheusDiskMetadataIfEnabled :: "('w, 'p) prom_env \<Rightarrow> snapshot_flags \<Rightarrow> ('w, 'p) prom_call" where
  "cachePrometheusDiskMetadataIfEnabled env flg s =
     (case pc_isEnabled flg (pc_provider (snd s)) of
        (False, err) \<Rightarrow> (err, s)
      | (True, _) \<Rightarrow> pe_Poll env 10000000000 120000000000 (tryRetrievePrometheusDiskMetadata env) s)"

text \<open>The names that match \<^verbatim>\<open>^(?:[a-z](?:[-a-z0-9]{0,61}[a-z0-9])?)$\<close>.\<close>

definition is_lower :: "char \<Rightarrow> bool" where
  "is_lower c \<longleftrightarrow> (let n = (of_char c :: nat) in 97 \<le> n \<and> n \<le> 122)"

definition is_lower_or_digit :: "char \<Rightarrow> bool" where
  "is_lower_or_digit c \<longleftrightarrow> is_lower c \<or> (let n = (of_char c :: nat) in 48 \<le> n \<and> n \<le> 57)"

definition VerifySnapshotName :: "string \<Rightarrow> goerr option" where
  "VerifySnapshotName name =
     (if name \<noteq> [] \<and> is_lower (hd name) \<and>
         (tl name = [] \<or>
          length (butlast (tl name)) \<le> 61 \<and> (\<forall>c \<in> set (butlast (tl name)). c = CHR ''-'' \<or> is_lower_or_digit c) \<and>
          is_lower_or_digit (last name))
      then None else Some (Errorf ''disk name doesn't match ^(?:[a-z](?:[-a-z0-9]{0,61}[a-z0-9])?)$'' []))"

definition trySnapshotPrometheusDisk :: "('w, 'p) prom_env \<Rightarrow> string \<Rightarrow> string \<Rightarrow> string \<Rightarrow> string \<Rightarrow> 'w call" where
  "trySnapshotPrometheusDisk env project pdName snapshotName zone w =
     (if project = [] then (Some (Errorf ''unknown project - please set --experimental-snapshot-project flag'' []), w)
      else (case pe_gcloud env [''compute'', ''disks'', ''snapshot'', pdName, ''--project'', project, ''--zone'', zone,
                                ''--snapshot-names'', snapshotName] w of
              (Some err, w) \<Rightarrow> (Some (Errorf (''creating disk snapshot failed: '' @ err_msg err) []), w)
            | (None, w) \<Rightarrow> (None, w)))"

definition tryDeletePrometheusDisk :: "('w, 'p) prom_env \<Rightarrow> string \<Rightarrow> string \<Rightarrow> string \<Rightarrow> 'w call" where
  "tryDeletePrometheusDisk env project pdName zone w =
     (if project = [] then (Some (Errorf ''unknown project - please set --experimental-snapshot-project flag'' []), w)
      else (case pe_gcloud env [''compute'', ''disks'', ''delete'', pdName, ''--project'', project, ''--zone'', zone] w of
              (Some err, w) \<Rightarrow> (Some (Errorf (''deleting disk failed: '' @ err_msg err) []), w)
            | (None, w) \<Rightarrow> (None, w)))"

text \<open>An attempt as the condition of a poll: an error is logged and the poll goes on.\<close>

definition attempt :: "'w call \<Rightarrow> ('w \<times> 'p Controller) cond" where
  "attempt f = (\<lambda>(w, pc). case f w of (err, w) \<Rightarrow> ((err = None, None), (w, pc)))"

definition snapshot_name :: "snapshot_flags \<Rightarrow> string \<Rightarrow> string" where
  "snapshot_name flg pdName =
     (if sf_prometheusDiskSnapshotName flg \<noteq> [] \<and> VerifySnapshotName (sf_prometheusDiskSnapshotName flg) = None
      then sf_prometheusDiskSnapshotName flg else pdName)"

definition snapshotPrometheusDiskIfEnabled :: "('w, 'p) prom_env \<Rightarrow> snapshot_flags \<Rightarrow> ('w, 'p) prom_call" where
  "snapshotPrometheusDiskIfEnabled env flg s =
     (let pc = snd s; d = pc_diskMetadata pc
      in case pc_isEnabled flg (pc_provider pc) of
           (False, err) \<Rightarrow> (err, s)
         | (True, _) \<Rightarrow>
             if dm_name d = [] \<or> dm_zone d = [] then (Some (Errorf ''missing zone or PD name, aborting snapshot'' []), s)
             else pe_Poll env 20000000000 300000000000
                    (attempt (trySnapshotPrometheusDisk env (pr_SnapshotProject (clc_PrometheusConfig (pc_config pc)))
                       (dm_name d) (snapshot_name flg (dm_name d)) (dm_zone d))) s)"

definition snapshotPrometheusDiskIfEnabledSynchronized :: "('w, 'p) prom_env \<Rightarrow> snapshot_flags \<Rightarrow> ('w, 'p) prom_call" where
  "snapshotPrometheusDiskIfEnabledSynchronized env flg = (\<lambda>(w, pc).
     if pc_snapshotted pc then (pc_snapshotError pc, (w, pc))
     else (case snapshotPrometheusDiskIfEnabled env flg (w, pc\<lparr>pc_snapshotted := True\<rparr>) of
             (err, (w, pc)) \<Rightarrow> (err, (w, pc\<lparr>pc_snapshotError := err\<rparr>))))"

definition deletePrometheusDiskIfEnabled :: "('w, 'p) prom_env \<Rightarrow> snapshot_flags \<Rightarrow> ('w, 'p) prom_call" where
  "deletePrometheusDiskIfEnabled env flg s =
     (let pc = snd s; d = pc_diskMetadata pc
      in case pc_isEnabled flg (pc_provider pc) of
           (False, err) \<Rightarrow> (err, s)
         | (True, _) \<Rightarrow>
             if dm_name d = [] \<or> dm_zone d = [] then (Some (Errorf ''missing zone or PD name, aborting deletion'' []), s)
             else pe_Poll env 20000000000 120000000000
                    (attempt (tryDeletePrometheusDisk env (pr_SnapshotProject (clc_PrometheusConfig (pc_config pc)))
                       (dm_name d) (dm_zone d))) s)"

text \<open>The errors of looking up the service and listing its pods are overwritten: only the pods count.\<close>

definition makeSnapshot :: "('w, 'p) prom_env \<Rightarrow> string \<Rightarrow> 'w call" where
  "makeSnapshot env filePath w =
     (case pe_postSnapshot env w of
        (Inl err, w) \<Rightarrow> (Some err, w)
      | (Inr raw, w) \<Rightarrow>
          (case pe_unmarshalSnapshot env raw of
             Inl err \<Rightarrow> (Some err, w)
           | Inr name \<Rightarrow>
               (case pe_prometheusPods env w of
                  (pods, w) \<Rightarrow>
                    if length pods \<noteq> 1
                    then (Some (Errorf (''unexpected number of pods in prometheus service: '' @ show_nat (length pods)) []), w)
                    else pe_copyFromPod env (''/prometheus/snapshots/'' @ name) filePath (pods ! 0) w)))"

text \<open>Called on nil, the controller is dereferenced only when the snapshot is enabled: \<open>None\<close> is that panic.\<close>

definition MakePrometheusSnapshotIfEnabled ::
  "('w, 'p) prom_env \<Rightarrow> (string \<Rightarrow> string \<Rightarrow> string) \<Rightarrow> snapshot_flags \<Rightarrow> 'p Controller option \<Rightarrow> 'w \<Rightarrow> (goerr option \<times> 'w) option" where
  "MakePrometheusSnapshotIfEnabled env pathJoin flg pc w =
     (if \<not> sf_shouldSnapshotPrometheusToReportDir flg then Some (None, w)
      else (case pc of
              None \<Rightarrow> None
            | Some pc \<Rightarrow> Some (makeSnapshot env (pathJoin (clc_ReportDir (pc_config pc)) ''prometheus_snapshot.tar.gz'') w)))"

section \<open>Set-up and teardown\<close>

text \<open>A state that is reached unless the controller has panicked.\<close>

type_synonym ('w, 'p) prom_run = "('w \<times> 'p Controller) \<Rightarrow> (goerr option \<times> 'w \<times> 'p Controller) option"

definition prometheus_setup_core :: "('w, 'p) prom_env \<Rightarrow> ('w, 'p) prom_call" where
  "prometheus_setup_core env =
     and_then (\<lambda>s. (pe_testClient env, s))
    (and_then (on_world (CreateNamespace (pe_root env) ''monitoring''))
    (and_then (on_world (createToken env))
    (and_then (on_world (DeleteStorageClass (pe_root env) ''ssd''))
    (and_then (applyDefaultManifests env ''*.yaml'')
              (when_call (\<lambda>s. pr_ScrapeNodeExporter (clc_PrometheusConfig (pc_config (snd s)))) (on_world (runNodeExporter env)))))))"

definition prometheus_setup_monitors :: "('w, 'p) prom_env \<Rightarrow> ('w, 'p) prom_call" where
  "prometheus_setup_monitors env =
     (let conf = (\<lambda>s. clc_PrometheusConfig (pc_config (snd s))); features = (\<lambda>s. pv_Features (pc_provider (snd s)))
      in and_then (when_call (\<lambda>s. \<not> fe_IsKubemarkProvider (features s)) (applyDefaultManifests env ''default/*.yaml''))
        (and_then (when_call (\<lambda>s. pr_ScrapeKubeStateMetrics (conf s) \<and> fe_SupportKubeStateMetrics (features s))
                     (applyDefaultManifests env ''exporters/kube-state-metrics/*.yaml''))
        (and_then (when_call (\<lambda>s. pr_ScrapeMetricsServerMetrics (conf s) \<and> fe_SupportMetricsServerMetrics (features s))
                     (applyDefaultManifests env ''exporters/metrics-server/*.yaml''))
        (and_then (when_call (\<lambda>s. map_of (pc_templateMapping (snd s)) ''MasterIps'' \<noteq> None)
                     (and_then (on_world (configureRBACForMetrics env)) (applyDefaultManifests env ''master-ip/*.yaml'')))
        (and_then (when_call (\<lambda>s. pr_EnablePushgateway (conf s)) (applyDefaultManifests env ''pushgateway/*.yaml''))
        (and_then (when_call (\<lambda>s. pr_AdditionalMonitorsPath (conf s) \<noteq> [])
                     (\<lambda>s. applyManifests env (pr_AdditionalMonitorsPath (conf s)) s))
                  (waitForPrometheusToBeHealthy env)))))))"

definition SetUpPrometheusStack :: "('w, 'p) prom_env \<Rightarrow> snapshot_flags \<Rightarrow> ('w, 'p) prom_run" where
  "SetUpPrometheusStack env flg s =
     (case prometheus_setup_core env s of
        (Some err, s) \<Rightarrow> Some (Some err, s)
      | (None, s) \<Rightarrow>
          (let windows = (if pr_ScrapeWindowsNodeExporter (clc_PrometheusConfig (pc_config (snd s)))
                          then Some (applyDefaultManifests env ''exporters/windows_node_exporter/*.yaml'' s)
                          else map_option (\<lambda>enabled. when_call (\<lambda>_. enabled) (setUpWindowsNodeAndTemplate env) s)
                                 (isWindowsNodeScrapingEnabled (snd s)))
           in case windows of
                None \<Rightarrow> None
              | Some (Some err, s) \<Rightarrow> Some (Some err, s)
              | Some (None, s) \<Rightarrow>
                  (case prometheus_setup_monitors env s of
                     (Some err, s) \<Rightarrow> Some (Some err, s)
                   | (None, s) \<Rightarrow>
                       (case cachePrometheusDiskMetadataIfEnabled env flg s of
                          (err, s) \<Rightarrow> if err = Some nil_dereference then None else Some (None, s)))))"

text \<open>The deferred function runs whatever the deletion of the namespace returns; its errors are logged.\<close>

definition TearDownPrometheusStack :: "('w, 'p) prom_env \<Rightarrow> snapshot_flags \<Rightarrow> ('w, 'p) prom_run" where
  "TearDownPrometheusStack env flg s =
     (case cachePrometheusDiskMetadataIfEnabled env flg s of
        (err, s) \<Rightarrow>
          if err = Some nil_dereference then None
          else
            (case and_then (on_world (DeleteNamespace (pe_root env) ''monitoring''))
                    (on_world (WaitForDeleteNamespace (pe_root env) ''monitoring'' DefaultNamespaceDeletionTimeout)) s of
               (result, s) \<Rightarrow>
                 (case snapshotPrometheusDiskIfEnabledSynchronized env flg s of
                    (_, s) \<Rightarrow> (case deletePrometheusDiskIfEnabled env flg s of (_, s) \<Rightarrow> Some (result, s)))))"

text \<open>The goroutine that waits for an interrupt: what it does when one arrives, and the status the process ends with.\<close>

definition EnableTearDownPrometheusStackOnInterrupt :: "('w, 'p) prom_env \<Rightarrow> snapshot_flags \<Rightarrow> 'w \<times> 'p Controller \<Rightarrow> int \<times> 'w \<times> 'p Controller" where
  "EnableTearDownPrometheusStackOnInterrupt env flg s =
     (case snapshotPrometheusDiskIfEnabledSynchronized env flg s of (_, s) \<Rightarrow> (1, s))"

section \<open>A stack that is set up was seen healthy\<close>

definition up :: "Target \<Rightarrow> bool" where
  "up t \<longleftrightarrow> tg_Health t = ''up''"

lemma all_selected: "length xs \<le> length (filter q xs) \<longleftrightarrow> (\<forall>x \<in> set xs. q x)"
proof (induction xs)
  case (Cons x xs)
  have "\<not> Suc (length xs) \<le> length (filter q xs)" by (simp add: not_le less_Suc_eq_le)
  with Cons show ?case by (cases "q x") simp_all
qed simp

lemma all_up_count: "int (length (filter p ts)) \<le> int (length (filter q (filter p ts))) \<longleftrightarrow> (\<forall>t \<in> set ts. p t \<longrightarrow> q t)"
  using all_selected[of "filter p ts" q] by (auto simp del: filter_filter)

lemma CheckAll_iff:
  "CheckAllTargetsReady unmarshal raw selector n = (True, None) \<longleftrightarrow>
     (\<exists>r ts. raw = Inr r \<and> unmarshal r = Inr ts \<and> n \<le> int (length (filter selector ts)) \<and> (\<forall>t \<in> set ts. selector t \<longrightarrow> up t))"
  unfolding CheckAllTargetsReady_def CheckTargetsReady_def up_def all_up_count[symmetric]
  by (auto simp: Let_def not_less split: sum.splits)

lemma Check_iff:
  "CheckTargetsReady unmarshal raw selector n (Some m) = (True, None) \<longleftrightarrow>
     (\<exists>r ts. raw = Inr r \<and> unmarshal r = Inr ts \<and> n \<le> int (length (filter selector ts)) \<and>
        m \<le> int (length (filter up (filter selector ts))))"
  unfolding CheckTargetsReady_def up_def by (auto simp: Let_def not_less split: sum.splits)

text \<open>The targets that one or two readings in a row show, from a world on.\<close>

definition seen_healthy :: "('w, 'p) prom_env \<Rightarrow> bool \<Rightarrow> 'w \<Rightarrow> bool" where
  "seen_healthy env etcd w \<longleftrightarrow>
     (\<exists>r1 ts1 w1. pe_targets env w = (Inr r1, w1) \<and> pe_unmarshal env r1 = Inr ts1 \<and>
        (if etcd
         then 4 \<le> int (length (filter (\<lambda>t. \<not> isEtcdEndpoint (target_endpoint t)) ts1)) \<and>
              (\<forall>t \<in> set ts1. \<not> isEtcdEndpoint (target_endpoint t) \<longrightarrow> up t) \<and>
              (\<exists>r2 ts2 w2. pe_targets env w1 = (Inr r2, w2) \<and> pe_unmarshal env r2 = Inr ts2 \<and>
                 2 \<le> int (length (filter (\<lambda>t. isEtcdEndpoint (target_endpoint t)) ts2)) \<and>
                 1 \<le> int (length (filter up (filter (\<lambda>t. isEtcdEndpoint (target_endpoint t)) ts2))))
         else 4 \<le> int (length ts1) \<and> (\<forall>t \<in> set ts1. up t)))"

lemma ready_condition_healthy:
  assumes "ready_condition env pc w = ((True, None), w')"
  shows "seen_healthy env (pr_ScrapeEtcd (clc_PrometheusConfig (pc_config pc))) w"
proof -
  obtain raw1 w1 where t1: "pe_targets env w = (raw1, w1)" by (cases "pe_targets env w")
  let ?etcd = "pr_ScrapeEtcd (clc_PrometheusConfig (pc_config pc))"
  let ?first = "CheckAllTargetsReady (pe_unmarshal env) raw1 (\<lambda>t. \<not> isEtcdEndpoint (target_endpoint t)) 4"
  show ?thesis
  proof (cases ?etcd)
    case False
    then have "CheckAllTargetsReady (pe_unmarshal env) raw1 (\<lambda>_. True) 4 = (True, None)"
      using assms by (simp add: ready_condition_def t1 isPrometheusReady_def Let_def)
    then show ?thesis unfolding CheckAll_iff seen_healthy_def using False t1 by auto
  next
    case True
    have first: "?first = (True, None)"
    proof (rule ccontr)
      assume "?first \<noteq> (True, None)"
      then show False using assms True
        by (auto simp: ready_condition_def t1 isPrometheusReady_def Let_def split: prod.splits if_splits)
    qed
    obtain raw2 w2 where t2: "pe_targets env w1 = (raw2, w2)" by (cases "pe_targets env w1")
    have "CheckTargetsReady (pe_unmarshal env) raw2 (\<lambda>t. isEtcdEndpoint (target_endpoint t)) 2 (Some 1) = (True, None)"
      using assms True first by (simp add: ready_condition_def t1 t2 isPrometheusReady_def Let_def)
    then show ?thesis using first t1 t2 True unfolding CheckAll_iff Check_iff seen_healthy_def by simp
  qed
qed

lemma and_then_None: "and_then f g s = (None, s') \<longleftrightarrow> (\<exists>s1. f s = (None, s1) \<and> g s1 = (None, s'))"
  by (auto simp: and_then_def split: prod.splits option.splits)

text \<open>The configuration of the controller is not changed by the calls of the set-up.\<close>

definition keeps_config :: "('w, 'p) prom_call \<Rightarrow> bool" where
  "keeps_config f \<longleftrightarrow> (\<forall>s. pc_config (snd (snd (f s))) = pc_config (snd s))"

named_theorems keeps

lemma keeps_and_then [keeps]: "keeps_config f \<Longrightarrow> keeps_config g \<Longrightarrow> keeps_config (and_then f g)"
  unfolding keeps_config_def and_then_def by (auto split: prod.splits option.splits) (metis snd_conv)+

lemma keeps_when [keeps]: "keeps_config f \<Longrightarrow> keeps_config (when_call b f)"
  by (simp add: keeps_config_def when_call_def)

lemma keeps_on_world [keeps]: "keeps_config (on_world f)"
  by (simp add: keeps_config_def on_world_def split: prod.splits)

lemma keeps_manifests [keeps]: "keeps_config (applyDefaultManifests env g)" "keeps_config (applyManifests env d)"
  by (simp_all add: keeps_config_def applyDefaultManifests_def applyManifests_def on_world_def split: prod.splits)

lemma keeps_client [keeps]: "keeps_config (\<lambda>s. (e, s))"
  by (simp add: keeps_config_def)

lemma keeps_additional [keeps]: "keeps_config (\<lambda>s. applyManifests env (d s) s)"
  by (simp add: keeps_config_def applyManifests_def on_world_def split: prod.splits)

lemma keeps_windows [keeps]: "keeps_config (setUpWindowsNodeAndTemplate env)"
  by (simp add: keeps_config_def setUpWindowsNodeAndTemplate_def split: prod.splits sum.splits option.splits)

lemma keepsD: "keeps_config f \<Longrightarrow> f s = (r, s') \<Longrightarrow> pc_config (snd s') = pc_config (snd s)"
  unfolding keeps_config_def by (metis snd_conv)

lemma setup_core_keeps: "keeps_config (prometheus_setup_core env)"
  unfolding prometheus_setup_core_def by (intro keeps)

text \<open>The monitors are applied, and then the wait begins.\<close>

definition ends_with_wait :: "('w, 'p) prom_env \<Rightarrow> ('w, 'p) prom_call \<Rightarrow> bool" where
  "ends_with_wait env g \<longleftrightarrow> (\<forall>s s'. g s = (None, s') \<longrightarrow>
     (\<exists>s1. pc_config (snd s1) = pc_config (snd s) \<and> waitForPrometheusToBeHealthy env s1 = (None, s')))"

lemma ends_wait: "ends_with_wait env (waitForPrometheusToBeHealthy env)"
  unfolding ends_with_wait_def by blast

lemma ends_and_then: "keeps_config f \<Longrightarrow> ends_with_wait env g \<Longrightarrow> ends_with_wait env (and_then f g)"
  unfolding ends_with_wait_def and_then_None by (metis keepsD)

lemma setup_monitors_waits: "ends_with_wait env (prometheus_setup_monitors env)"
  unfolding prometheus_setup_monitors_def Let_def by (intro ends_and_then ends_wait keeps)

text \<open>A poll ends without error only when its condition holds.\<close>

definition poll_documented :: "'w wait_pkg \<Rightarrow> bool" where
  "poll_documented wp \<longleftrightarrow> (\<forall>d t c w w'. PollImmediate wp d t c w = (None, w') \<longrightarrow> (\<exists>v. c v = ((True, None), w')))"

lemma wait_healthy:
  assumes "poll_documented (c_wait (pe_root env))" "waitForPrometheusToBeHealthy env s = (None, s')"
  shows "\<exists>w. seen_healthy env (pr_ScrapeEtcd (clc_PrometheusConfig (pc_config (snd s)))) w"
proof -
  obtain w pc where s: "s = (w, pc)" by (cases s)
  obtain e w' where p: "PollImmediate (c_wait (pe_root env)) 30000000000 (pc_readyTimeout pc) (ready_condition env pc) w = (e, w')"
    by (cases "PollImmediate (c_wait (pe_root env)) 30000000000 (pc_readyTimeout pc) (ready_condition env pc) w")
  then have "e = None" using assms(2) by (simp add: waitForPrometheusToBeHealthy_def s on_world_def)
  then obtain v where "ready_condition env pc v = ((True, None), w')"
    using assms(1) p unfolding poll_documented_def by blast
  then show ?thesis using ready_condition_healthy[of env pc v w'] s by auto
qed


text \<open>A cluster whose second etcd target is down.\<close>

definition up_target :: "string \<Rightarrow> string \<Rightarrow> Target" where
  "up_target endpoint health = \<lparr>tg_Labels = [(''endpoint'', endpoint)], tg_Health = health\<rparr>"

definition stack_targets :: "Target list" where
  "stack_targets = [up_target ''a'' ''up'', up_target ''b'' ''up'', up_target ''c'' ''up'', up_target ''d'' ''up'',
     up_target ''etcd-2379'' ''up'', up_target ''etcd-2382'' ''down'']"

definition stack_env :: "(keys, unit) prom_env" where
  "stack_env = \<lparr>pe_root = set_client, pe_testClient = None, pe_glob = \<lambda>_. Inr [], pe_toObjects = \<lambda>_ _. Inr [],
     pe_extraGlob = \<lambda>_. Inr [], pe_extraObjects = \<lambda>_ _ _. Inr [], pe_getServiceAccount = \<lambda>w. (None, w),
     pe_createServiceAccount = \<lambda>w. (None, w), pe_createToken = \<lambda>w. (Inr ''t'', w), pe_tokenWait = plain_wait,
     pe_getSecret = \<lambda>w. (None, w), pe_updateSecret = \<lambda>_ w. (None, w), pe_createSecret = \<lambda>_ w. (None, w),
     pe_createClusterRole = \<lambda>w. (None, w), pe_createClusterRoleBinding = \<lambda>w. (None, w), pe_newFramework = None,
     pe_listNodes = \<lambda>w. (Inr [], w), pe_openNodeExporter = None, pe_gcloud = \<lambda>_ w. (None, w),
     pe_windowsProviderIDs = \<lambda>w. (Inr [], w), pe_targets = \<lambda>w. (Inr [], w), pe_unmarshal = \<lambda>_. Inr stack_targets,
     pe_show = \<lambda>_. [], pe_sleep = \<lambda>_ w. w, pe_listPVs = \<lambda>w. (Inr [], w), pe_Poll = \<lambda>_ _ c s. (case c s of ((ok, e), s) \<Rightarrow> (e, s)),
     pe_postSnapshot = \<lambda>w. (Inr [], w), pe_unmarshalSnapshot = \<lambda>_. Inr [], pe_prometheusPods = \<lambda>w. ([], w),
     pe_copyFromPod = \<lambda>_ _ _ w. (None, w)\<rparr>"

definition stack_controller :: "unit Controller" where
  "stack_controller =
     \<lparr>pc_config = mapping_cfg\<lparr>clc_PrometheusConfig := (clc_PrometheusConfig mapping_cfg)\<lparr>pr_ScrapeEtcd := True\<rparr>\<rparr>,
      pc_provider = NewGCEProvider demo_ssh demo_penv [], pc_templateMapping = [], pc_diskMetadata = \<lparr>dm_name = [], dm_zone = []\<rparr>,
      pc_snapshotted = False, pc_snapshotError = None, pc_readyTimeout = 1\<rparr>"

definition no_snapshots :: snapshot_flags where
  "no_snapshots = \<lparr>sf_shouldSnapshotPrometheusDisk = False, sf_shouldSnapshotPrometheusToReportDir = False,
     sf_prometheusDiskSnapshotName = []\<rparr>"

lemma plain_poll_documented: "poll_documented (plain_wait :: 'w wait_pkg)"
proof -
  have "\<exists>v. c v = ((True, None), w')" if "backoff_ref (\<lambda>w. w) n c w = (None, w')" for n c w and w' :: 'w
    using that by (induction n arbitrary: w) (auto split: prod.splits if_splits option.splits bool.splits)
  then show ?thesis by (simp add: poll_documented_def plain_wait_def)
qed

lemma stack_root: "pe_root stack_env = set_client" "pe_tokenWait stack_env = plain_wait"
  by (simp_all add: stack_env_def)

lemma stack_settings:
  "pe_testClient stack_env = None" "pc_templateMapping stack_controller = []"
  "\<not> pr_ScrapeNodeExporter (clc_PrometheusConfig (pc_config stack_controller))"
  "\<not> pr_ScrapeWindowsNodeExporter (clc_PrometheusConfig (pc_config stack_controller))"
  "\<not> pr_EnablePushgateway (clc_PrometheusConfig (pc_config stack_controller))"
  "pr_AdditionalMonitorsPath (clc_PrometheusConfig (pc_config stack_controller)) = []"
  "pr_ScrapeEtcd (clc_PrometheusConfig (pc_config stack_controller))" "pe_targets stack_env w = (Inr [], w)"
  by (simp_all add: stack_env_def stack_controller_def mapping_cfg_def)

lemma stack_token: "createToken stack_env w = (None, w)"
  by (simp add: createToken_def retryCreateFunctionWithResponse_def token_request_def stack_env_def plain_wait_def
      createPrometheusSecretForExistingServiceAccount_def RetryWithExponentialBackOff_def RetryFunction_def eval_nat_numeral)

lemma stack_manifests: "applyDefaultManifests stack_env g s = (None, s)"
  by (simp add: applyDefaultManifests_def ApplyTemplatedManifests_def stack_env_def on_world_def split: prod.splits)

lemma stack_core: "prometheus_setup_core stack_env (w, stack_controller) = (None, (w, stack_controller))"
proof -
  have "CreateNamespace set_client n w = (None, w)" "DeleteStorageClass set_client n w = (None, w)" for n
    unfolding CreateNamespace_def DeleteStorageClass_def
    by (rule retried_plain, simp add: set_client_def set_server_def)+
  then show ?thesis
    by (simp add: prometheus_setup_core_def and_then_def on_world_def when_call_def stack_root stack_token stack_manifests stack_settings)
qed

lemma stack_healthy: "waitForPrometheusToBeHealthy stack_env (w, stack_controller) = (None, (w, stack_controller))"
proof -
  have f: "CheckAllTargetsReady (pe_unmarshal stack_env) (Inr []) (\<lambda>t. \<not> isEtcdEndpoint (target_endpoint t)) 4 = (True, None)"
    "CheckTargetsReady (pe_unmarshal stack_env) (Inr []) (\<lambda>t. isEtcdEndpoint (target_endpoint t)) 2 (Some 1) = (True, None)"
    by (simp_all add: CheckAllTargetsReady_def CheckTargetsReady_def stack_env_def stack_targets_def up_target_def
        target_endpoint_def isEtcdEndpoint_def Let_def)
  have "ready_condition stack_env stack_controller w = ((True, None), w)"
    by (simp add: ready_condition_def isPrometheusReady_def f Let_def stack_settings)
  then show ?thesis
    by (simp add: waitForPrometheusToBeHealthy_def on_world_def stack_root set_client_def plain_wait_def eval_nat_numeral)
qed

lemma stack_monitors: "prometheus_setup_monitors stack_env (w, stack_controller) = (None, (w, stack_controller))"
  by (simp add: prometheus_setup_monitors_def and_then_def when_call_def stack_manifests stack_healthy stack_settings)


section \<open>The disk is snapshotted at most once\<close>

text \<open>Polling runs its condition, and so keeps what every run of the condition keeps.\<close>

definition poll_runs :: "('w, 'p) prom_env \<Rightarrow> bool" where
  "poll_runs env \<longleftrightarrow> (\<forall>q d t c s. q s \<longrightarrow> (\<forall>s. q s \<longrightarrow> q (snd (c s))) \<longrightarrow> q (snd (pe_Poll env d t c s)))"

lemma snapshot_marks:
  assumes "poll_runs env"
  shows "pc_snapshotted (snd (snd (snapshotPrometheusDiskIfEnabled env flg (w, pc\<lparr>pc_snapshotted := True\<rparr>))))"
proof -
  let ?q = "\<lambda>s. pc_snapshotted (snd s)"
  have att: "?q (snd (attempt f s))" if "?q s" for s f
    using that by (cases s) (simp add: attempt_def split: prod.splits)
  have "?q (snd (pe_Poll env d t (attempt f) s))" if "?q s" for d t f s
    by (rule assms[unfolded poll_runs_def, rule_format, of ?q]) (simp_all add: that att)
  then show ?thesis
    by (simp add: snapshotPrometheusDiskIfEnabled_def Let_def split: prod.splits bool.splits)
qed

text \<open>
  The teardown and the handler of the interrupt both ask for a snapshot: the second request does nothing
  and returns what the first returned.
\<close>

theorem snapshot_once:
  assumes "poll_runs env" and first: "snapshotPrometheusDiskIfEnabledSynchronized env flg s = (err, s')"
    and new: "\<not> pc_snapshotted (snd s)"
  shows "snapshotPrometheusDiskIfEnabledSynchronized env flg' s' = (err, s') \<and>
     EnableTearDownPrometheusStackOnInterrupt env flg' s' = (1, s')"
proof -
  obtain w pc where s: "s = (w, pc)" by (cases s)
  obtain e w1 pc1 where r: "snapshotPrometheusDiskIfEnabled env flg (w, pc\<lparr>pc_snapshotted := True\<rparr>) = (e, w1, pc1)"
    by (cases "snapshotPrometheusDiskIfEnabled env flg (w, pc\<lparr>pc_snapshotted := True\<rparr>)")
  then have "pc_snapshotted pc1" using snapshot_marks[OF assms(1), of flg w pc] by simp
  moreover have "err = e" "s' = (w1, pc1\<lparr>pc_snapshotError := e\<rparr>)"
    using first new r by (auto simp: snapshotPrometheusDiskIfEnabledSynchronized_def s)
  ultimately show ?thesis
    by (simp add: EnableTearDownPrometheusStackOnInterrupt_def snapshotPrometheusDiskIfEnabledSynchronized_def)
qed

end
