(* ===== verification/Main_Program.thy ===== *)
theory Main_Program
  imports Test_Executor Prometheus_Stack
begin

text \<open>
  The program (\<^verbatim>\<open>cmd/clusterloader.go\<close>) and its sets of clients (\<^verbatim>\<open>pkg/framework/multiclient.go\<close>): flags are
  checked and completed from the cluster, the services are set up, every scenario is compiled, all tests
  run, the services are torn down, and the process ends with a status.  Log output is left out, except for
  the results that are printed per test.
\<close>

section \<open>Clients\<close>

text \<open>Sets of typed and of dynamic clients are the same code.\<close>

record 'c MultiClientSet =
  ms_clients :: "'c list"
  ms_current :: nat

fun new_clients :: "(goerr + 'r) \<Rightarrow> ('r \<Rightarrow> goerr + 'c) \<Rightarrow> string \<Rightarrow> nat \<Rightarrow> 'c list \<Rightarrow> goerr + 'c list" where
  "new_clients prepared newForConfig what 0 clients = Inr clients"
| "new_clients prepared newForConfig what (Suc n) clients =
     (case prepared of
        Inl err \<Rightarrow> Inl (Errorf (''config prepare failed: '' @ err_msg err) [])
      | Inr conf \<Rightarrow>
          (case newForConfig conf of
             Inl err \<Rightarrow> Inl (Errorf (''creating '' @ what @ '' failed: '' @ err_msg err) [])
           | Inr c \<Rightarrow> new_clients prepared newForConfig what n (clients @ [c])))"

text \<open>\<open>None\<close> is a panic: a slice of a negative length, and the remainder of a division by no clients.\<close>

definition NewMultiClientSet :: "(goerr + 'r) \<Rightarrow> ('r \<Rightarrow> goerr + 'c) \<Rightarrow> int \<Rightarrow> (goerr + 'c MultiClientSet) option" where
  "NewMultiClientSet prepared newForConfig number =
     (if number < 0 then None
      else Some (case new_clients prepared newForConfig ''clientset'' (nat number) [] of
                   Inl err \<Rightarrow> Inl err
                 | Inr clients \<Rightarrow> Inr \<lparr>ms_clients = clients, ms_current = 0\<rparr>))"

definition NewMultiDynamicClient :: "(goerr + 'r) \<Rightarrow> ('r \<Rightarrow> goerr + 'c) \<Rightarrow> int \<Rightarrow> (goerr + 'c MultiClientSet) option" where
  "NewMultiDynamicClient prepared newForConfig number =
     (if number < 0 then None
      else Some (case new_clients prepared newForConfig ''dynamic config'' (nat number) [] of
                   Inl err \<Rightarrow> Inl err
                 | Inr clients \<Rightarrow> Inr \<lparr>ms_clients = clients, ms_current = 0\<rparr>))"

definition GetClient :: "'c MultiClientSet \<Rightarrow> ('c \<times> 'c MultiClientSet) option" where
  "GetClient m =
     (if length (ms_clients m) = 0 then None
      else let current = (ms_current m + 1) mod length (ms_clients m)
           in Some (ms_clients m ! current, m\<lparr>ms_current := current\<rparr>))"

section \<open>Flags\<close>

record main_flags =
  mf_config :: ClusterLoaderConfig
  mf_provider :: InitOptions
  mf_testConfigPaths :: "string list"
  mf_testSuiteConfigPath :: string
  mf_dryRun :: bool
  mf_snapshots :: snapshot_flags

definition validateClusterFlags :: "'p Provider \<Rightarrow> ClusterLoaderConfig \<Rightarrow> ErrorList" where
  "validateClusterFlags p cfg =
     (let errList = NewErrorList []; cc = clc_ClusterConfig cfg;
          errList =
            (if cc_RunFromCluster cc
             then (if cc_KubeConfigPath cc \<noteq> []
                   then Append errList [Errorf (''unexpected kubeconfig path specified '' @ quoted (cc_KubeConfigPath cc) @
                          '' when --run-from-cluster is set'') []]
                   else errList)
             else (if cc_KubeConfigPath cc = []
                   then Append errList [Errorf ''no kubeconfig path specified when --run-from-cluster is unset'' []]
                   else errList))
      in if pr_EnableServer (clc_PrometheusConfig cfg) \<and> \<not> fe_SupportEnablePrometheusServer (pv_Features p)
         then Append errList [Errorf (''cannot enable prometheus server for provider '' @ pv_Name p) []]
         else errList)"

definition validateFlags :: "main_flags \<Rightarrow> 'p Provider \<Rightarrow> ClusterLoaderConfig \<Rightarrow> ErrorList" where
  "validateFlags flg p cfg =
     (let errList = NewErrorList [];
          errList = (if length (mf_testConfigPaths flg) = 0 \<and> mf_testSuiteConfigPath flg = []
                     then Append errList [Errorf ''no test config path or test suite path specified'' []] else errList);
          errList = (if length (mf_testConfigPaths flg) > 0 \<and> mf_testSuiteConfigPath flg \<noteq> []
                     then Append errList [Errorf ''test config path and test suite path cannot be provided at the same time'' []]
                     else errList);
          errList = Concat errList (Some (validateClusterFlags p cfg))
      in Concat errList (Some (ValidatePrometheusFlags (mf_snapshots flg) (clc_PrometheusConfig cfg))))"

definition on_cluster :: "(FullClusterConfig \<Rightarrow> FullClusterConfig) \<Rightarrow> ClusterLoaderConfig \<Rightarrow> ClusterLoaderConfig" where
  "on_cluster f cfg = cfg\<lparr>clc_ClusterConfig := f (clc_ClusterConfig cfg)\<rparr>"

definition no_nodes_needed :: "'p Provider \<Rightarrow> bool" where
  "no_nodes_needed p \<longleftrightarrow> pv_Name p = ''kcp'' \<or> pv_Name p = ''ks''"

definition getClientsNumber :: "'p Provider \<Rightarrow> int \<Rightarrow> int" where
  "getClientsNumber p nodesNumber =
     (if no_nodes_needed p then 1 else go_div (wrap 64 (wrap 64 (nodesNumber + 100) - 1)) 100)"

text \<open>Every value that is missing is asked of the cluster; the listing of nodes is a call.\<close>

type_synonym 'w node_list = "'w \<Rightarrow> (goerr + ClusterNode list) \<times> 'w"

definition ask_missing ::
  "'w node_list \<Rightarrow> bool \<Rightarrow> ((goerr + ClusterNode list) \<Rightarrow> goerr + 'v) \<Rightarrow>
     ('v \<Rightarrow> ClusterLoaderConfig \<Rightarrow> ClusterLoaderConfig) \<Rightarrow> ClusterLoaderConfig \<times> 'w \<Rightarrow> ClusterLoaderConfig \<times> 'w" where
  "ask_missing listNodes absent get put = (\<lambda>(cfg, w).
     if absent then (case listNodes w of (listed, w) \<Rightarrow> (case get listed of Inl _ \<Rightarrow> (cfg, w) | Inr v \<Rightarrow> (put v cfg, w)))
     else (cfg, w))"

definition completeIpMasterConfig :: "'w node_list \<Rightarrow> ClusterLoaderConfig \<times> 'w \<Rightarrow> ClusterLoaderConfig \<times> 'w" where
  "completeIpMasterConfig listNodes s =
     (let s = ask_missing listNodes (cc_MasterName (clc_ClusterConfig (fst s)) = []) GetMasterName
                (\<lambda>v. on_cluster (\<lambda>c. c\<lparr>cc_MasterName := v\<rparr>)) s;
          s = ask_missing listNodes (length (cc_MasterIPs (clc_ClusterConfig (fst s))) = 0) (\<lambda>l. GetMasterIPs l ''ExternalIP'')
                (\<lambda>v. on_cluster (\<lambda>c. c\<lparr>cc_MasterIPs := v\<rparr>)) s
      in ask_missing listNodes (length (cc_MasterInternalIPs (clc_ClusterConfig (fst s))) = 0) (\<lambda>l. GetMasterIPs l ''InternalIP'')
           (\<lambda>v. on_cluster (\<lambda>c. c\<lparr>cc_MasterInternalIPs := v\<rparr>)) s)"

definition complete_nodes ::
  "'w node_list \<Rightarrow> 'p Provider \<Rightarrow> ClusterLoaderConfig \<times> 'w \<Rightarrow> goerr option \<times> ClusterLoaderConfig \<times> 'w" where
  "complete_nodes listNodes p = (\<lambda>(cfg, w).
     if cc_Nodes (clc_ClusterConfig cfg) \<noteq> 0 then (None, cfg, w)
     else (case listNodes w of
             (listed, w) \<Rightarrow>
               (case GetSchedulableUntainedNodesNumber listed of
                  (_, Some err) \<Rightarrow>
                    (Some (Errorf (''getting number of nodes error: '' @ err_msg err @
                       (if pv_Name p = ''kcp'' then '', please create nodes.core CRD'' else [])) []), cfg, w)
                | (n, None) \<Rightarrow> (None, on_cluster (\<lambda>c. c\<lparr>cc_Nodes := int n\<rparr>) cfg, w))))"

definition completeConfig ::
  "'w node_list \<Rightarrow> 'p Provider \<Rightarrow> ClusterLoaderConfig \<times> 'w \<Rightarrow> goerr option \<times> ClusterLoaderConfig \<times> 'w" where
  "completeConfig listNodes p s =
     (case complete_nodes listNodes p s of
        (Some err, s) \<Rightarrow> (Some err, s)
      | (None, s) \<Rightarrow>
          (let (cfg, w) = (if cc_MasterDNSEndpoint (clc_ClusterConfig (fst s)) = [] then completeIpMasterConfig listNodes s else s);
               cfg = (if fe_SupportAccessAPIServerPprofEndpoint (pv_Features p) then cfg
                      else on_cluster (\<lambda>c. c\<lparr>cc_APIServerPprofByClientEnabled := False\<rparr>) cfg);
               cfg = (if cc_K8SClientsNumber (clc_ClusterConfig cfg) = 0
                      then on_cluster (\<lambda>c. c\<lparr>cc_K8SClientsNumber := getClientsNumber p (cc_Nodes c)\<rparr>) cfg else cfg)
           in (None, cfg, w)))"

definition verifyCluster :: "'w node_list \<Rightarrow> 'p Provider \<Rightarrow> 'w call" where
  "verifyCluster listNodes p w =
     (if no_nodes_needed p then (None, w)
      else (case listNodes w of
              (listed, w) \<Rightarrow>
                (case GetSchedulableUntainedNodesNumber listed of
                   (_, Some err) \<Rightarrow> (Some err, w)
                 | (n, None) \<Rightarrow> (if n = 0 then Some (Errorf ''no schedulable nodes in the cluster'' []) else None, w))))"

section \<open>The program\<close>

text \<open>
  What the program calls.  \<open>ma_stat\<close> gives the error of \<^verbatim>\<open>os.Stat\<close> and whether it says that there is no such
  file.  \<open>ma_context\<close> is the context of a scenario with its managers: the interface to the cluster that
  \<^verbatim>\<open>RunTest\<close> uses.
\<close>

record ('k, 'c, 'n, 'i, 'd, 'w, 'p) main_env =
  ma_parse :: "goerr option"
  ma_ssh :: "('k, 'c, 'n) ssh_lib"
  ma_penv :: "'p provider_env"
  ma_prepared :: "string \<Rightarrow> goerr + unit"
  ma_newForConfig :: "unit \<Rightarrow> goerr + unit"
  ma_nodes :: "'w node_list"
  ma_stat :: "string \<Rightarrow> (goerr \<times> bool) option"
  ma_mkdirAll :: "string \<Rightarrow> goerr option"
  ma_newFramework :: "int \<Rightarrow> goerr option"
  ma_cenv :: config_env
  ma_prom :: "('w, 'p) prom_env"
  ma_promFramework :: "goerr option"
  ma_endpoints :: "goerr + string list list"
  ma_join :: "string \<Rightarrow> string \<Rightarrow> string"
  ma_setUpExecService :: "'w call"
  ma_tearDownExecService :: "'w call"
  ma_preload :: "'w call"
  ma_dumpMetadata :: "'w call"
  ma_marshal :: "Config \<Rightarrow> goerr + string"
  ma_writeFile :: "string \<Rightarrow> string \<Rightarrow> 'w call"
  ma_context :: "ClusterLoaderConfig \<Rightarrow> params \<Rightarrow> TestScenario \<Rightarrow> ('i, 'd, 'w) texec"
  ma_since :: duration

definition createReportDir :: "('k, 'c, 'n, 'i, 'd, 'w, 'p) main_env \<Rightarrow> ClusterLoaderConfig \<Rightarrow> goerr option" where
  "createReportDir env cfg =
     (if clc_ReportDir cfg = [] then None
      else (case ma_stat env (clc_ReportDir cfg) of
              None \<Rightarrow> None
            | Some (err, isNotExist) \<Rightarrow>
                if \<not> isNotExist then Some err
                else (case ma_mkdirAll env (clc_ReportDir cfg) of
                        Some err \<Rightarrow> Some (Errorf (''report directory creation error: '' @ err_msg err) [])
                      | None \<Rightarrow> None)))"

definition dumpTestConfig :: "('k, 'c, 'n, 'i, 'd, 'w, 'p) main_env \<Rightarrow> ClusterLoaderConfig \<Rightarrow> Config \<Rightarrow> 'w call" where
  "dumpTestConfig env cfg config w =
     (case ma_marshal env config of
        Inl err \<Rightarrow> (Some (Errorf (''marshaling config error: '' @ err_msg err) [err]), w)
      | Inr b \<Rightarrow>
          (case ma_writeFile env (ma_join env (clc_ReportDir cfg) (''generatedConfig_'' @ co_Name config @ ''.yaml'')) b w of
             (Some err, w) \<Rightarrow> (Some (Errorf (''saving file error: '' @ err_msg err) [err]), w)
           | (None, w) \<Rightarrow> (None, w)))"

definition getTestID :: "TestScenario \<Rightarrow> string" where
  "getTestID ts = (if ts_Identifier ts \<noteq> [] then ts_Identifier ts @ ''('' @ ts_ConfigPath ts @ '')'' else ts_ConfigPath ts)"

text \<open>What is printed of a test: its identifier, its status and its errors.\<close>

type_synonym test_result = "string \<times> string \<times> string"

definition printed_result :: "string \<Rightarrow> ErrorList \<Rightarrow> test_result" where
  "printed_result testID errList =
     (if \<not> IsEmpty errList then (testID, ''Fail'', ErrorList_String errList) else (testID, ''Success'', []))"

text \<open>
  A context keeps the managers of its test; the framework, the reporter and the cluster are shared by the
  tests.
\<close>

definition createSimpleContext :: "'p Provider \<Rightarrow> simpleReporter \<times> Framework \<times> 'w \<Rightarrow> ('i, 'd, 'w) tstate" where
  "createSimpleContext p = (\<lambda>(rep, f, w).
     \<lparr>t_x = \<lparr>xs_namespaces = newNamespacesState, xs_factory = NewFactory, xs_framework = f, xs_world = w\<rparr>,
      t_mm = mm_CreateManager, t_dm = dm_CreateManager, t_reporter = rep,
      t_monkey = NewMonkey (pv_Name p) (fe_SupportNodeKiller (pv_Features p)), t_stopCh_closed = False\<rparr>)"

definition runSingleTest ::
  "duration \<Rightarrow> 'p Provider \<Rightarrow> ('i, 'd, 'w) texec \<times> Config \<Rightarrow> simpleReporter \<times> Framework \<times> 'w \<Rightarrow>
     (test_result \<times> simpleReporter \<times> Framework \<times> 'w) option" where
  "runSingleTest since p = (\<lambda>(ctx, config) s.
     (case RunTest ctx config (createSimpleContext p s) of
        None \<Rightarrow> None
      | Some (errList, t) \<Rightarrow>
          Some (printed_result (getTestID (te_scenario ctx)) errList,
                ReportTestFinish since (ts_ConfigPath (te_scenario ctx)) errList (t_reporter t),
                xs_framework (t_x t), xs_world (t_x t))))"

fun run_tests ::
  "duration \<Rightarrow> 'p Provider \<Rightarrow> (('i, 'd, 'w) texec \<times> Config) list \<Rightarrow> simpleReporter \<times> Framework \<times> 'w \<Rightarrow>
     (test_result list \<times> simpleReporter \<times> Framework \<times> 'w) option" where
  "run_tests since p [] s = Some ([], s)"
| "run_tests since p (c # cs) s =
     (case runSingleTest since p c s of
        None \<Rightarrow> None
      | Some (r, s) \<Rightarrow> map_option (\<lambda>(rs, s). (r # rs, s)) (run_tests since p cs s))"

definition CreateTestContext ::
  "('k, 'c, 'n, 'i, 'd, 'w, 'p) main_env \<Rightarrow> ClusterLoaderConfig \<Rightarrow> TestScenario \<Rightarrow> ErrorList + ('i, 'd, 'w) texec" where
  "CreateTestContext env cfg ts =
     (case GetMapping (ma_cenv env) cfg (ts_OverridePaths ts) of
        Inl errList \<Rightarrow> Inl errList
      | Inr mapping \<Rightarrow> Inr (ma_context env cfg mapping ts))"

text \<open>The scenarios are compiled one after the other; the first error ends the program.\<close>

fun compile_scenarios ::
  "('k, 'c, 'n, 'i, 'd, 'w, 'p) main_env \<Rightarrow> ClusterLoaderConfig \<Rightarrow> TestScenario list \<Rightarrow>
     (('i, 'd, 'w) texec \<times> Config) list \<Rightarrow> 'w \<Rightarrow> ((string + (('i, 'd, 'w) texec \<times> Config) list) \<times> 'w) option" where
  "compile_scenarios env cfg [] contexts w = Some (Inr contexts, w)"
| "compile_scenarios env cfg (ts # tss) contexts w =
     (case CreateTestContext env cfg ts of
        Inl errList \<Rightarrow> Some (Inl (''Test context creation failed: '' @ ErrorList_String errList), w)
      | Inr ctx \<Rightarrow>
          (case CompileTestConfig ctx of
             None \<Rightarrow> None
           | Some (testConfig, errList) \<Rightarrow>
               (let w = (case testConfig of None \<Rightarrow> w | Some c \<Rightarrow> snd (dumpTestConfig env cfg c w))
                in if \<not> IsEmpty errList then Some (Inl (''Test compilation failed: '' @ ErrorList_String errList), w)
                   else (case testConfig of
                           None \<Rightarrow> None
                         | Some c \<Rightarrow> compile_scenarios env cfg tss (contexts @ [(ctx, c)]) w))))"

definition test_scenarios :: "config_env \<Rightarrow> main_flags \<Rightarrow> goerr + TestScenario list" where
  "test_scenarios cenv flg =
     (if mf_testSuiteConfigPath flg \<noteq> [] then LoadTestSuite cenv (mf_testSuiteConfigPath flg)
      else Inr (map (\<lambda>path. \<lparr>ts_Identifier = [], ts_ConfigPath = path, ts_OverridePaths = []\<rparr>) (mf_testConfigPaths flg)))"

text \<open>
  Up to the creation of the framework.  A message on the left is the end of the process with that message;
  \<open>None\<close> is a panic.
\<close>

definition main_prepare ::
  "('k, 'c, 'n, 'i, 'd, 'w, 'p) main_env \<Rightarrow> main_flags \<Rightarrow> 'w \<Rightarrow> ((string + 'p Provider \<times> ClusterLoaderConfig) \<times> 'w) option" where
  "main_prepare env flg w =
     (case ma_parse env of
        Some err \<Rightarrow> Some (Inl (''Flag parse failed: '' @ err_msg err), w)
      | None \<Rightarrow>
     (case NewProvider (ma_ssh env) (ma_penv env) (mf_provider flg) of
        None \<Rightarrow> None
      | Some (Inl err) \<Rightarrow> Some (Inl (''Error init provider: '' @ err_msg err), w)
      | Some (Inr p) \<Rightarrow>
     (let cfg = (if pv_Name p = ''ks'' then (mf_config flg)\<lparr>clc_ExecServiceConfig := (clc_ExecServiceConfig (mf_config flg))\<lparr>es_Enable := False\<rparr>\<rparr>
                 else mf_config flg);
          errList = validateFlags flg p cfg
      in if \<not> IsEmpty errList then Some (Inl (''Parsing flags error: '' @ ErrorList_String errList), w)
         else
     (case NewMultiClientSet (ma_prepared env (cc_KubeConfigPath (clc_ClusterConfig cfg))) (ma_newForConfig env) 1 of
        None \<Rightarrow> None
      | Some (Inl err) \<Rightarrow> Some (Inl (''Client creation error: '' @ err_msg err), w)
      | Some (Inr mclient) \<Rightarrow>
     (case completeConfig (ma_nodes env) p (cfg, w) of
        (Some err, cfg, w) \<Rightarrow> Some (Inl (''Config completing error: '' @ err_msg err), w)
      | (None, cfg, w) \<Rightarrow>
     (case createReportDir env cfg of
        Some err \<Rightarrow> Some (Inl (''Cannot create report directory: '' @ err_msg err), w)
      | None \<Rightarrow>
     (case (if cc_SkipClusterVerification (clc_ClusterConfig cfg) then (None, w) else verifyCluster (ma_nodes env) p w) of
        (Some err, w) \<Rightarrow> Some (Inl (''Cluster verification error: '' @ err_msg err), w)
      | (None, w) \<Rightarrow>
     (case ma_newFramework env (cc_K8SClientsNumber (clc_ClusterConfig cfg)) of
        Some err \<Rightarrow> Some (Inl (''Framework creation error: '' @ err_msg err), w)
      | None \<Rightarrow> Some (Inr (p, cfg), w)))))))))"

definition set_up_prometheus ::
  "('k, 'c, 'n, 'i, 'd, 'w, 'p) main_env \<Rightarrow> main_flags \<Rightarrow> 'p Provider \<Rightarrow> ClusterLoaderConfig \<Rightarrow> 'w \<Rightarrow>
     ((string + 'p Controller option \<times> ClusterLoaderConfig) \<times> 'w) option" where
  "set_up_prometheus env flg p cfg w =
     (if \<not> pr_EnableServer (clc_PrometheusConfig cfg) then Some (Inr (None, cfg), w)
      else (case NewController (ma_cenv env) (mf_snapshots flg) p (ma_promFramework env) (ma_endpoints env) cfg of
              None \<Rightarrow> None
            | Some (Inl err) \<Rightarrow> Some (Inl (''Error while creating Prometheus Controller: '' @ err_msg err), w)
            | Some (Inr pc) \<Rightarrow>
                (case SetUpPrometheusStack (ma_prom env) (mf_snapshots flg) (w, pc) of
                   None \<Rightarrow> None
                 | Some (Some err, w, pc) \<Rightarrow> Some (Inl (''Error while setting up prometheus stack: '' @ err_msg err), w)
                 | Some (None, w, pc) \<Rightarrow> Some (Inr (Some pc, pc_config pc), w))))"

definition set_up_services ::
  "('k, 'c, 'n, 'i, 'd, 'w, 'p) main_env \<Rightarrow> main_flags \<Rightarrow> 'p Provider \<Rightarrow> ClusterLoaderConfig \<Rightarrow> 'w \<Rightarrow>
     ((string + 'p Controller option \<times> ClusterLoaderConfig) \<times> 'w) option" where
  "set_up_services env flg p cfg w =
     (case set_up_prometheus env flg p cfg w of
        None \<Rightarrow> None
      | Some (Inl msg, w) \<Rightarrow> Some (Inl msg, w)
      | Some (Inr (pc, cfg), w) \<Rightarrow>
          (case (if es_Enable (clc_ExecServiceConfig cfg) then ma_setUpExecService env w else (None, w)) of
             (Some err, w) \<Rightarrow> Some (Inl (''Error while setting up exec service: '' @ err_msg err), w)
           | (None, w) \<Rightarrow>
               (case ma_preload env w of
                  (Some err, w) \<Rightarrow> Some (Inl (''Error while preloading images: '' @ err_msg err), w)
                | (None, w) \<Rightarrow> Some (Inr (pc, cfg), snd (ma_dumpMetadata env w)))))"

definition tear_down_services ::
  "('k, 'c, 'n, 'i, 'd, 'w, 'p) main_env \<Rightarrow> main_flags \<Rightarrow> 'p Controller option \<Rightarrow> ClusterLoaderConfig \<Rightarrow> 'w \<Rightarrow> 'w option" where
  "tear_down_services env flg pc cfg w =
     (case MakePrometheusSnapshotIfEnabled (ma_prom env) (ma_join env) (mf_snapshots flg) pc w of
        None \<Rightarrow> None
      | Some (_, w) \<Rightarrow>
          (let torn = (if pr_EnableServer (clc_PrometheusConfig cfg) \<and> pr_TearDownServer (clc_PrometheusConfig cfg)
                       then Option.bind pc (\<lambda>pc. map_option (\<lambda>(_, w, _). w) (TearDownPrometheusStack (ma_prom env) (mf_snapshots flg) (w, pc)))
                       else Some w)
           in map_option (\<lambda>w. if es_Enable (clc_ExecServiceConfig cfg) then snd (ma_tearDownExecService env w) else w) torn))"

text \<open>
  The end of the process: \<^verbatim>\<open>klog.Exitf\<close> with a message, which is status 1, or the end of \<^verbatim>\<open>main\<close> with status 0.
\<close>

datatype main_end = Exitf string | Returned

definition main_run ::
  "('k, 'c, 'n, 'i, 'd, 'w, 'p) main_env \<Rightarrow> main_flags \<Rightarrow> 'p Provider \<Rightarrow> 'p Controller option \<Rightarrow> ClusterLoaderConfig \<Rightarrow> 'w \<Rightarrow>
     (main_end \<times> test_result list \<times> 'w) option" where
  "main_run env flg p pc cfg w =
     (case test_scenarios (ma_cenv env) flg of
        Inl err \<Rightarrow> Some (Exitf (''Error while reading test suite: '' @ err_msg err), [], w)
      | Inr testScenarios \<Rightarrow>
     (case compile_scenarios env cfg testScenarios [] w of
        None \<Rightarrow> None
      | Some (Inl msg, w) \<Rightarrow> Some (Exitf msg, [], w)
      | Some (Inr contexts, w) \<Rightarrow>
     (if mf_dryRun flg
      then Some (Exitf (''Dry run mode enabled, exiting after dumping test config in '' @ clc_ReportDir cfg @ ''.''), [], w)
      else
     (case run_tests (ma_since env) p contexts (CreateSimpleReporter ''ClusterLoaderV2'', newFramework, w) of
        None \<Rightarrow> None
      | Some (results, testReporter, f, w) \<Rightarrow>
     (case tear_down_services env flg pc cfg w of
        None \<Rightarrow> None
      | Some w \<Rightarrow>
          (let failedTestItems = rp_NumberOfFailedSpecs testReporter
           in Some (if failedTestItems > 0 then Exitf (show_nat failedTestItems @ '' tests have failed!'') else Returned,
                    results, w)))))))"

definition main :: "('k, 'c, 'n, 'i, 'd, 'w, 'p) main_env \<Rightarrow> main_flags \<Rightarrow> 'w \<Rightarrow> (main_end \<times> test_result list \<times> 'w) option" where
  "main env flg w =
     (case main_prepare env flg w of
        None \<Rightarrow> None
      | Some (Inl msg, w) \<Rightarrow> Some (Exitf msg, [], w)
      | Some (Inr (p, cfg), w) \<Rightarrow>
          (if mf_dryRun flg then main_run env flg p None cfg w
           else (case set_up_services env flg p cfg w of
                   None \<Rightarrow> None
                 | Some (Inl msg, w) \<Rightarrow> Some (Exitf msg, [], w)
                 | Some (Inr (pc, cfg), w) \<Rightarrow> main_run env flg p pc cfg w)))"

section \<open>Clients are used in turn\<close>

fun get_clients :: "nat \<Rightarrow> 'c MultiClientSet \<Rightarrow> ('c list \<times> 'c MultiClientSet) option" where
  "get_clients 0 m = Some ([], m)"
| "get_clients (Suc n) m =
     (case GetClient m of None \<Rightarrow> None | Some (c, m) \<Rightarrow> map_option (\<lambda>(cs, m). (c # cs, m)) (get_clients n m))"

lemma get_clients_in_turn:
  assumes "ms_clients m \<noteq> []"
  shows "\<exists>m'. get_clients k m =
    Some (map (\<lambda>i. ms_clients m ! ((ms_current m + i) mod length (ms_clients m))) [1..<Suc k], m') \<and> ms_clients m' = ms_clients m"
  using assms
proof (induction k arbitrary: m)
  case (Suc k)
  let ?n = "length (ms_clients m)" and ?m = "m\<lparr>ms_current := (ms_current m + 1) mod length (ms_clients m)\<rparr>"
  obtain m' where m': "get_clients k ?m =
      Some (map (\<lambda>i. ms_clients m ! ((ms_current ?m + i) mod ?n)) [1..<Suc k], m')" "ms_clients m' = ms_clients m"
    using Suc.IH[of ?m] Suc.prems by auto
  have "map (\<lambda>i. ms_clients m ! ((ms_current ?m + i) mod ?n)) [1..<Suc k] =
      map (\<lambda>i. ms_clients m ! ((ms_current m + i) mod ?n)) [2..<Suc (Suc k)]"
    by (rule nth_equalityI) (simp_all add: mod_add_left_eq add.assoc del: upt_Suc)
  moreover have "[1..<Suc (Suc k)] = 1 # [2..<Suc (Suc k)]" by (simp add: upt_conv_Cons numeral_2_eq_2 del: upt_Suc)
  ultimately show ?case using m' Suc.prems by (auto simp: GetClient_def Let_def simp del: upt_Suc)
qed simp

lemma window_mod_distinct: "distinct (map (\<lambda>i. (c + i) mod n) [1..<Suc n])"
proof -
  have "inj_on (\<lambda>i. (c + i) mod n) {1..<Suc n}"
  proof (rule inj_onI)
    fix x y assume xy: "x \<in> {1..<Suc n}" "y \<in> {1..<Suc n}" "(c + x) mod n = (c + y) mod n"
    have eq: "u = v" if "u \<le> v" "u \<in> {1..<Suc n}" "v \<in> {1..<Suc n}" "(c + u) mod n = (c + v) mod n" for u v
    proof (rule ccontr)
      assume "u \<noteq> v"
      then have "0 < v - u" "v - u < n" using that by auto
      moreover have "n dvd v - u" using mod_eq_dvd_iff_nat[of "c + u" "c + v" n] that by simp
      ultimately show False using nat_dvd_not_less by blast
    qed
    have "x \<le> y \<or> y \<le> x" by linarith
    then show "x = y" using eq[of x y] eq[of y x] xy by argo
  qed
  then show ?thesis by (simp add: distinct_map del: upt_Suc)
qed

text \<open>
  Among as many consecutive requests as there are clients every client is used exactly once; without
  clients the request panics.
\<close>

theorem clients_round_robin:
  "(if ms_clients m = [] then GetClient m = None
    else \<exists>cs m'. get_clients (length (ms_clients m)) m = Some (cs, m') \<and> mset cs = mset (ms_clients m))"
proof (cases "ms_clients m = []")
  case False
  let ?n = "length (ms_clients m)" and ?is = "map (\<lambda>i. (ms_current m + i) mod length (ms_clients m)) [1..<Suc (length (ms_clients m))]"
  have sub: "set ?is \<subseteq> set [0..<?n]" using False by (auto simp del: upt_Suc)
  moreover have "card (set ?is) = ?n" using distinct_card[OF window_mod_distinct[of "ms_current m" ?n]] by (simp del: upt_Suc)
  ultimately have "set ?is = set [0..<?n]" by (intro card_subset_eq) simp_all
  then have "mset ?is = mset [0..<?n]" using window_mod_distinct set_eq_iff_mset_eq_distinct distinct_upt by blast
  then have "mset (map ((!) (ms_clients m)) ?is) = mset (map ((!) (ms_clients m)) [0..<?n])" by (metis mset_map)
  then have "mset (map (\<lambda>i. ms_clients m ! ((ms_current m + i) mod ?n)) [1..<Suc ?n]) = mset (ms_clients m)"
    by (simp add: comp_def map_nth del: upt_Suc)
  then show ?thesis using get_clients_in_turn[OF False, of ?n] False by fastforce
qed (simp add: GetClient_def)

section \<open>Success means that every test passed\<close>

text \<open>The number of failed items never shrinks while a test runs.\<close>

abbreviation failed_items :: "simpleReporter \<Rightarrow> nat" where
  "failed_items \<equiv> rp_NumberOfFailedSpecs"

lemma ExecuteStep_mono:
  assumes "ExecuteStep env step s = Some (errs, s')"
  shows "failed_items (t_reporter s) \<le> failed_items (t_reporter s')"
proof -
  obtain sr s1 where run: "run_substeps env step (te_sched env (substeps step)) (NewStepResult (st_Name step), s) = Some (sr, s1)"
    and s': "t_reporter s' = ReportTestStep (te_duration env) sr (t_reporter s1)"
    using assms by (auto simp: ExecuteStep_def Let_def split: option.splits)
  then show ?thesis using run_substeps_frame[OF run] by (simp add: ReportTestStep_failed)
qed

lemma test_steps_mono:
  "test_steps_loop env i steps (errs, s) = Some (errs', s') \<Longrightarrow> failed_items (t_reporter s) \<le> failed_items (t_reporter s')"
proof (induction steps arbitrary: i errs s)
  case (Cons step steps)
  obtain e s1 where 1: "ExecuteStep env (rename_step i step) s = Some (e, s1)"
    using Cons.prems by (auto split: option.splits)
  have "failed_items (t_reporter s1) \<le> failed_items (t_reporter s')"
    using Cons 1 by (auto simp: Let_def split: if_splits)
  then show ?case using ExecuteStep_mono[OF 1] by simp
qed simp

lemma cleanup_reporter: "t_reporter (cleanupTestResourcesAndDependencies env conf s) = t_reporter s"
  by (simp add: cleanupTestResourcesAndDependencies_def Let_def split: prod.splits)

lemma body_mono:
  assumes "execute_test_body env conf s = Some (errs, s')"
  shows "failed_items (t_reporter s) \<le> failed_items (t_reporter s')"
  using assms
  by (auto simp: execute_test_body_def ExecuteTestSteps_def Let_def split: prod.splits sum.splits option.splits if_splits
      dest!: test_steps_mono)

lemma RunTest_mono:
  assumes "RunTest env conf s = Some (errs, s')"
  shows "failed_items (t_reporter s) \<le> failed_items (t_reporter s')"
  using assms body_mono
  by (fastforce simp: RunTest_def ExecuteTest_def SetTestName_def cleanup_reporter Let_def split: prod.splits option.splits status.splits)

lemma runSingleTest_result:
  assumes "runSingleTest since p (ctx, conf) (rep, s) = Some (r, rep', s')"
  shows "fst r = getTestID (te_scenario ctx)" "failed_items rep \<le> failed_items rep'"
    and "r = (getTestID (te_scenario ctx), ''Success'', []) \<or> failed_items rep < failed_items rep'"
proof -
  obtain f w where s: "s = (f, w)" by (cases s)
  obtain e t where run: "RunTest ctx conf (createSimpleContext p (rep, f, w)) = Some (e, t)"
    and r: "r = printed_result (getTestID (te_scenario ctx)) e"
    and rep': "rep' = ReportTestFinish since (ts_ConfigPath (te_scenario ctx)) e (t_reporter t)"
    using assms by (auto simp: runSingleTest_def s split: option.splits)
  have "failed_items rep \<le> failed_items (t_reporter t)"
    using RunTest_mono[OF run] by (simp add: createSimpleContext_def)
  moreover have "failed_items rep' = failed_items (t_reporter t) + (if IsEmpty e then 0 else 1)"
    by (simp add: rep' ReportTestFinish_def handleSummary_def Let_def)
  ultimately show "fst r = getTestID (te_scenario ctx)" "failed_items rep \<le> failed_items rep'"
    "r = (getTestID (te_scenario ctx), ''Success'', []) \<or> failed_items rep < failed_items rep'"
    by (auto simp: r printed_result_def)
qed

definition passed :: "TestScenario \<Rightarrow> test_result" where
  "passed ts = (getTestID ts, ''Success'', [])"

lemma run_tests_result:
  assumes "run_tests since p cs (rep, s) = Some (rs, rep', s')"
  shows "map fst rs = map (\<lambda>(ctx, _). getTestID (te_scenario ctx)) cs \<and> failed_items rep \<le> failed_items rep' \<and>
     (rs = map (\<lambda>(ctx, _). passed (te_scenario ctx)) cs \<or> failed_items rep < failed_items rep')"
  using assms
proof (induction cs arbitrary: rep s rs)
  case (Cons c cs)
  obtain ctx conf where c: "c = (ctx, conf)" by (cases c)
  obtain r rep1 s1 rs1 where 1: "runSingleTest since p (ctx, conf) (rep, s) = Some (r, rep1, s1)"
    and 2: "run_tests since p cs (rep1, s1) = Some (rs1, rep', s')" and rs: "rs = r # rs1"
    using Cons.prems by (auto simp: c split: option.splits)
  note runSingleTest_result[OF 1] Cons.IH[OF 2]
  then show ?case by (auto simp: c rs passed_def)
qed simp

definition compiled ::
  "('k, 'c, 'n, 'i, 'd, 'w, 'p) main_env \<Rightarrow> ClusterLoaderConfig \<Rightarrow> TestScenario \<Rightarrow> ('i, 'd, 'w) texec \<times> Config \<Rightarrow> bool" where
  "compiled env cfg ts = (\<lambda>(ctx, conf).
     CreateTestContext env cfg ts = Inr ctx \<and> CompileTestConfig ctx = Some (Some conf, NewErrorList []))"

lemma context_scenario:
  "(\<And>cfg m ts. te_scenario (ma_context env cfg m ts) = ts) \<Longrightarrow> CreateTestContext env cfg ts = Inr ctx \<Longrightarrow> te_scenario ctx = ts"
  by (auto simp: CreateTestContext_def split: sum.splits)

lemma compile_scenarios_result:
  assumes "compile_scenarios env cfg tss contexts w = Some (Inr contexts', w')"
  shows "\<exists>new. contexts' = contexts @ new \<and> list_all2 (compiled env cfg) tss new"
  using assms
proof (induction tss arbitrary: contexts w)
  case (Cons ts tss)
  obtain ctx conf e w1 where ctx: "CreateTestContext env cfg ts = Inr ctx" "CompileTestConfig ctx = Some (Some conf, e)" "IsEmpty e"
    and rest: "compile_scenarios env cfg tss (contexts @ [(ctx, conf)]) w1 = Some (Inr contexts', w')"
    using Cons.prems by (auto simp: Let_def split: sum.splits option.splits prod.splits if_splits)
  have "e = NewErrorList []" using ctx(3) by (simp add: IsEmpty_def NewErrorList_def)
  then have "compiled env cfg ts (ctx, conf)" using ctx(1,2) by (simp add: compiled_def)
  with Cons.IH[OF rest] show ?case by auto
qed simp

lemma main_run_result:
  assumes ctx: "\<And>cfg m ts. te_scenario (ma_context env cfg m ts) = ts"
    and run: "main_run env flg p pc cfg w = Some (Returned, results, w')"
  shows "\<not> mf_dryRun flg \<and> (\<exists>tss contexts. test_scenarios (ma_cenv env) flg = Inr tss \<and> list_all2 (compiled env cfg) tss contexts \<and>
     results = map passed tss)"
proof -
  obtain tss contexts w1 rep f w2 where tss: "test_scenarios (ma_cenv env) flg = Inr tss" and dry: "\<not> mf_dryRun flg"
    and c: "compile_scenarios env cfg tss [] w = Some (Inr contexts, w1)"
    and r: "run_tests (ma_since env) p contexts (CreateSimpleReporter ''ClusterLoaderV2'', newFramework, w1) = Some (results, rep, f, w2)"
    and none: "failed_items rep = 0"
    using run by (auto simp: main_run_def Let_def split: sum.splits option.splits prod.splits if_splits)
  have all: "list_all2 (compiled env cfg) tss contexts" using compile_scenarios_result[OF c] by simp
  have "results = map (\<lambda>(ctx, _). passed (te_scenario ctx)) contexts" using run_tests_result[OF r] none by simp
  also have "\<dots> = map passed tss"
    using all by (induction rule: list_all2_induct) (auto simp: compiled_def dest: context_scenario[OF ctx])
  finally show ?thesis using tss dry all by blast
qed

text \<open>
  C1: the program succeeds only if every test passed.  When \<^verbatim>\<open>main\<close> returns, which is the exit status 0, it was not
  a dry run, every scenario of the suite or of the command line was compiled without an error, and for every
  one of them, in their order, the result that was printed is a success.
\<close>

theorem main_success_means_passed:
  assumes ctx: "\<And>cfg m ts. te_scenario (ma_context env cfg m ts) = ts"
    and ok: "main env flg w = Some (Returned, results, w')"
  shows "\<not> mf_dryRun flg \<and> (\<exists>tss contexts cfg. test_scenarios (ma_cenv env) flg = Inr tss \<and>
    list_all2 (compiled env cfg) tss contexts \<and> results = map passed tss)"
proof -
  obtain p pc cfg w1 where "main_run env flg p pc cfg w1 = Some (Returned, results, w')"
    using ok by (auto simp: main_def split: option.splits sum.splits prod.splits if_splits)
  then show ?thesis using main_run_result[OF ctx] by blast
qed

lemma ask_missing_keeps:
  "(\<And>v c. q (put v c) = q c) \<Longrightarrow> q (fst (ask_missing listNodes absent get put s)) = q (fst s)"
  by (auto simp: ask_missing_def split: prod.splits sum.splits)

text \<open>Completing the configuration gives at least one client, if the cluster has nodes.\<close>

theorem completed_has_clients:
  assumes "completeConfig listNodes p (cfg, w) = (None, cfg', w')"
    and "0 \<le> cc_K8SClientsNumber (clc_ClusterConfig cfg)"
    and n: "no_nodes_needed p \<or> 0 < cc_Nodes (clc_ClusterConfig cfg') \<and> cc_Nodes (clc_ClusterConfig cfg') < 2 ^ 62"
  shows "0 < cc_K8SClientsNumber (clc_ClusterConfig cfg')"
proof -
  have clients: "cc_K8SClientsNumber (clc_ClusterConfig (fst (completeIpMasterConfig listNodes s))) = cc_K8SClientsNumber (clc_ClusterConfig (fst s))"
    "cc_Nodes (clc_ClusterConfig (fst (completeIpMasterConfig listNodes s))) = cc_Nodes (clc_ClusterConfig (fst s))" for s
    unfolding completeIpMasterConfig_def Let_def
    by ((subst ask_missing_keeps[where q = "\<lambda>c. cc_K8SClientsNumber (clc_ClusterConfig c)"], simp add: on_cluster_def)+, simp)
      ((subst ask_missing_keeps[where q = "\<lambda>c. cc_Nodes (clc_ClusterConfig c)"], simp add: on_cluster_def)+, simp)
  have nodes: "cc_K8SClientsNumber (clc_ClusterConfig (fst s1)) = cc_K8SClientsNumber (clc_ClusterConfig cfg)"
    if "complete_nodes listNodes p (cfg, w) = (None, s1)" for s1
    using that by (auto simp: complete_nodes_def on_cluster_def split: if_splits prod.splits option.splits)
  have pos: "0 < getClientsNumber p k" if "no_nodes_needed p \<or> 0 < k \<and> k < 2 ^ 62" for k
    using that by (auto simp: getClientsNumber_def wrap_id fits_def go_div_pos)
  obtain s1 where s1: "complete_nodes listNodes p (cfg, w) = (None, s1)"
    using assms(1) by (auto simp: completeConfig_def split: prod.splits option.splits)
  obtain c2 w2 where s2: "(if cc_MasterDNSEndpoint (clc_ClusterConfig (fst s1)) = [] then completeIpMasterConfig listNodes s1 else s1) = (c2, w2)"
    by (cases "if cc_MasterDNSEndpoint (clc_ClusterConfig (fst s1)) = [] then completeIpMasterConfig listNodes s1 else s1")
  have c2: "cc_K8SClientsNumber (clc_ClusterConfig c2) = cc_K8SClientsNumber (clc_ClusterConfig cfg)"
    using s2 clients(1)[of s1] nodes[OF s1] by (auto split: if_splits)
  show ?thesis
    using assms(1,2) n pos c2 by (auto simp: completeConfig_def s1 s2 on_cluster_def Let_def split: if_splits)
qed

text \<open>A test of one step, whose namespace is kept, on a kubemark cluster.\<close>

definition main_test :: Config where
  "main_test = (check_config [check_step ''ok''])\<lparr>co_Namespace := (co_Namespace (check_config []))\<lparr>nc_DeleteAutomanagedNamespaces := Some False\<rparr>\<rparr>"

definition main_flags0 :: main_flags where
  "main_flags0 = \<lparr>mf_config = on_cluster (\<lambda>c. c\<lparr>cc_KubeConfigPath := ''k'', cc_MasterDNSEndpoint := ''m'', cc_SkipClusterVerification := True\<rparr>) (mapping_cfg\<lparr>clc_OverridePaths := []\<rparr>),
     mf_provider = demo_opts, mf_testConfigPaths = [''c.yaml''], mf_testSuiteConfigPath = [], mf_dryRun = False,
     mf_snapshots = no_snapshots\<rparr>"

definition main_env0 :: "(unit, unit, unit, nat, nat, keys, unit) main_env" where
  "main_env0 = \<lparr>ma_parse = None, ma_ssh = demo_ssh, ma_penv = demo_penv, ma_prepared = \<lambda>_. Inr (), ma_newForConfig = Inr,
     ma_nodes = \<lambda>w. (Inr [], w), ma_stat = \<lambda>_. None, ma_mkdirAll = \<lambda>_. None, ma_newFramework = \<lambda>_. None,
     ma_cenv = mapping_env\<lparr>ce_Environ := []\<rparr>, ma_prom = stack_env, ma_promFramework = None, ma_endpoints = Inr [],
     ma_join = (@), ma_setUpExecService = \<lambda>w. (None, w), ma_tearDownExecService = \<lambda>w. (None, w), ma_preload = \<lambda>w. (None, w),
     ma_dumpMetadata = \<lambda>w. (None, w), ma_marshal = \<lambda>_. Inr [], ma_writeFile = \<lambda>_ _ w. (None, w),
     ma_context = \<lambda>_ _ ts. (check_env [])\<lparr>te_scenario := ts, te_templateToConfig := \<lambda>_ _. Inr main_test\<rparr>, ma_since = 1\<rparr>"

abbreviation main_ctx :: "(nat, nat, keys) texec" where
  "main_ctx \<equiv> (check_env [])\<lparr>te_scenario := \<lparr>ts_Identifier = [], ts_ConfigPath = ''c.yaml'', ts_OverridePaths = []\<rparr>,
     te_templateToConfig := \<lambda>_ _. Inr main_test\<rparr>"

lemma main_ctx_modifier: "ChangeTest (te_modifier main_ctx) c = (Ok, c)"
  by (simp add: ChangeTest_def modifyOverwrite_def modifySkipSteps_filter check_env_def)

lemma main_test_compiles: "CompileTestConfig main_ctx = Some (Some main_test, NewErrorList [])"
proof -
  have steps: "main_test\<lparr>co_Steps := [check_step ''ok'']\<rparr> = main_test" "co_Steps main_test = [check_step ''ok'']"
      "nc_DeleteStaleNamespaces (co_Namespace main_test) = Some False"
      "nc_DeleteAutomanagedNamespaces (co_Namespace main_test) = Some False"
      "main_test\<lparr>co_Namespace := co_Namespace main_test\<rparr> = main_test"
      "main_test\<lparr>co_Steps := [check_step ''ok''], co_Namespace := co_Namespace main_test\<rparr> = main_test"
    by (simp_all add: main_test_def check_config_def)
  have def: "Config_SetDefaults d main_test = main_test" for d
    by (simp add: Config_SetDefaults_def NamespaceConfig_SetDefaults_def main_test_def check_config_def)
  have "config_valid (te_venv (check_env [])) (NewConfigValidator [] main_test)"
    by (simp add: config_valid_def NewConfigValidator_def main_test_def check_config_def step_valid_def measurement_valid_def
        check_step_def check_env_def)
  then have val: "Validate (te_render (check_env [])) (te_venv (check_env [])) (NewConfigValidator [] main_test) = None"
    by (simp add: Validate_def Let_def validate_all_ok)
  have "flattenModuleSteps load [] = Some (Inr [])" for load by (subst flattenModuleSteps.simps) simp
  then have fl: "flattenModuleSteps load [check_step ''ok''] = Some (Inr [check_step ''ok''])" for load
    by (subst flattenModuleSteps.simps) (simp add: check_step_def IsModule_def)
  have dir: "te_filepathDir (check_env []) p = []" for p by (simp add: check_env_def)
  show ?thesis using main_ctx_modifier by (simp add: CompileTestConfig_def Let_def fl steps def val dir)
qed

lemma main_test_lists: "ListNamespaces (x_client (te_x (check_env []))) (te_nsWait (check_env [])) w = (([], None), w)"
  by (simp add: ListNamespaces_def list_retried_def RetryWithExponentialBackOff_def check_env_def demo_env_def set_client_def
      plain_wait_def RetryFunction_def eval_nat_numeral)

lemma main_test_creates: "CreateNamespace (x_client (te_x (check_env []))) n w = (None, w)"
  by (simp add: CreateNamespace_def retried_def RetryWithExponentialBackOff_def check_env_def demo_env_def set_client_def
      set_server_def plain_wait_def RetryFunction_def eval_nat_numeral)

lemma main_test_prepares: "\<exists>f' w'. prepareTestNamespaces main_ctx main_test (f, w) = (None, f', w')"
proof -
  let ?c = "x_client (te_x (check_env []))" and ?wp = "te_nsWait (check_env [])" and ?ns = "co_Namespace main_test"
  have n: "nc_Number ?ns = 1" "nc_DeleteStaleNamespaces ?ns = Some False" by (simp_all add: main_test_def check_config_def)
  have "\<exists>f'. create_namespaces_loop ?c [] b d (Suc 0) 1 f w = (None, f', w)" for b d
    using main_test_creates by (simp add: Let_def)
  then obtain f' where "CreateAutomanagedNamespaces ?c ?wp 1 (the (nc_EnableExistingNamespaces ?ns))
      (the (nc_DeleteAutomanagedNamespaces ?ns)) f w = (None, f', w)"
    unfolding CreateAutomanagedNamespaces_def main_test_lists by auto
  moreover have "ListAutomanagedNamespaces ?c ?wp f w = ((([], []), None), w)"
    by (simp add: ListAutomanagedNamespaces_def main_test_lists)
  ultimately show ?thesis by (simp add: prepareTestNamespaces_def n Let_def)
qed

lemma no_report_dir: "te_reportDir env = [] \<Longrightarrow> write_summaries env conf ss s = s"
  by (induction ss arbitrary: s) auto

definition clean_run :: "('i, 'd, 'w) tstate \<Rightarrow> (ErrorList \<times> ('i, 'd, 'w) tstate) option \<Rightarrow> bool" where
  "clean_run s r \<longleftrightarrow> (\<exists>t. r = Some (NewErrorList [], t) \<and> failed_items (t_reporter t) = failed_items (t_reporter s))"

lemma main_test_steps: "clean_run s (ExecuteTestSteps main_ctx [check_step ''ok''] s)"
proof -
  let ?st = "rename_step 0 (check_step ''ok'')"
  obtain s' where s': "ExecuteStep main_ctx ?st s = Some (NewErrorList [], s')"
    using check_step_runs[of main_ctx "''ok''" _ s] unfolding rename_step_def Let_def by (auto simp: check_error_def)
  have "step_valid (te_venv main_ctx) (NewConfigValidator [] main_test) ?st"
    by (simp add: step_valid_def measurement_valid_def rename_step_def check_step_def check_env_def Let_def)
  moreover have "\<And>xs. mset (te_sched main_ctx xs) = mset xs" by simp
  ultimately have "failed_items (t_reporter s') = failed_items (t_reporter s)"
    using step_report_matches_errors[of "te_venv main_ctx" _ ?st main_ctx s "NewErrorList []" s'] ExecuteStep_mono[OF s'] s' by simp
  then show ?thesis using s' by (simp add: clean_run_def ExecuteTestSteps_def IsEmpty_def)
qed

lemma main_test_body: "clean_run s (execute_test_body main_ctx main_test s)"
proof -
  have init: "Monkey_Init (co_ChaosMonkey main_test) m = (Inr False, m)" for m
    by (simp add: Monkey_Init_def main_test_def check_config_def)
  have none: "co_Dependencies main_test = []" "co_Steps main_test = [check_step ''ok'']"
    by (simp_all add: main_test_def check_config_def)
  have dir: "te_reportDir main_ctx = []" by (simp add: check_env_def)
  obtain f w where prep: "prepareTestNamespaces main_ctx main_test
      (SetAutomanagedNamespacePrefix (xs_framework (t_x s)) (nc_Prefix (co_Namespace main_test)), xs_world (t_x s)) = (None, f, w)"
    using main_test_prepares by blast
  let ?s = "s\<lparr>t_stopCh_closed := False, t_x := (t_x s)\<lparr>xs_factory := Init (xs_factory (t_x s)) (co_TuningSets main_test),
      xs_framework := f, xs_world := w\<rparr>\<rparr>"
  obtain s' where "ExecuteTestSteps main_ctx [check_step ''ok''] ?s = Some (NewErrorList [], s')"
      "failed_items (t_reporter s') = failed_items (t_reporter s)"
    using main_test_steps[of ?s] by (auto simp: clean_run_def)
  then show ?thesis
    by (simp add: clean_run_def execute_test_body_def init none prep no_report_dir[OF dir] Let_def)
qed

lemma main_test_runs: "clean_run s (RunTest main_ctx main_test s)"
  using main_test_body[of "s\<lparr>t_reporter := SetTestName (co_Name main_test) (t_reporter s)\<rparr>"] main_ctx_modifier
  by (auto simp: clean_run_def RunTest_def ExecuteTest_def SetTestName_def cleanup_reporter Let_def)

lemma main_prepared:
  "\<exists>p f. main_prepare main_env0 main_flags0 w = Some (Inr (p, on_cluster f (mf_config main_flags0)), w)"
proof -
  let ?p = "NewKubemarkProvider demo_ssh demo_penv [(''ROOT_KUBECONFIG'', ''b'')]"
  have p: "NewProvider demo_ssh demo_penv demo_opts = Some (Inr ?p)"
    by (simp add: NewProvider_def demo_opts_def provider_table_def RootKubeConfigKey_def)
  have name: "pv_Name ?p = ''kubemark''" by (simp add: NewKubemarkProvider_def Let_def)
  have flags: "validateFlags main_flags0 ?p (mf_config main_flags0) = NewErrorList []"
    by (simp add: validateFlags_def validateClusterFlags_def ValidatePrometheusFlags_def main_flags0_def mapping_cfg_def
        on_cluster_def no_snapshots_def NewErrorList_def Concat_def)
  have cc: "cc_Nodes (clc_ClusterConfig (mf_config main_flags0)) = 5" "cc_MasterDNSEndpoint (clc_ClusterConfig (mf_config main_flags0)) = ''m''"
      "cc_K8SClientsNumber (clc_ClusterConfig (mf_config main_flags0)) = 1" "cc_SkipClusterVerification (clc_ClusterConfig (mf_config main_flags0))"
      "clc_ReportDir (mf_config main_flags0) = []"
    by (simp_all add: main_flags0_def mapping_cfg_def on_cluster_def)
  have "\<exists>f. completeConfig (ma_nodes main_env0) ?p (mf_config main_flags0, w) = (None, on_cluster f (mf_config main_flags0), w) \<and>
      cc_SkipClusterVerification (f (clc_ClusterConfig (mf_config main_flags0)))"
  proof (cases "fe_SupportAccessAPIServerPprofEndpoint (pv_Features ?p)")
    case True
    then have "completeConfig (ma_nodes main_env0) ?p (mf_config main_flags0, w) = (None, on_cluster (\<lambda>c. c) (mf_config main_flags0), w)"
      by (simp add: completeConfig_def complete_nodes_def cc on_cluster_def)
    then show ?thesis using cc by blast
  next
    case False
    then have "completeConfig (ma_nodes main_env0) ?p (mf_config main_flags0, w) =
        (None, on_cluster (\<lambda>c. c\<lparr>cc_APIServerPprofByClientEnabled := False\<rparr>) (mf_config main_flags0), w)"
      by (simp add: completeConfig_def complete_nodes_def cc on_cluster_def)
    then show ?thesis using cc by (intro exI conjI) (assumption, simp)
  qed
  then obtain f where f: "completeConfig (ma_nodes main_env0) ?p (mf_config main_flags0, w) = (None, on_cluster f (mf_config main_flags0), w)"
    "cc_SkipClusterVerification (f (clc_ClusterConfig (mf_config main_flags0)))" by blast
  have env: "ma_parse main_env0 = None" "ma_ssh main_env0 = demo_ssh" "ma_penv main_env0 = demo_penv" "ma_newFramework main_env0 k = None"
      "ma_prepared main_env0 = (\<lambda>_. Inr ())" "ma_newForConfig main_env0 = Inr" "mf_provider main_flags0 = demo_opts" for k
    by (simp_all add: main_env0_def main_flags0_def)
  have skip: "cc_SkipClusterVerification (clc_ClusterConfig (on_cluster f (mf_config main_flags0)))" using f(2) by (simp add: on_cluster_def)
  have dir: "createReportDir main_env0 (on_cluster f (mf_config main_flags0)) = None"
    by (simp add: createReportDir_def on_cluster_def cc)
  have "main_prepare main_env0 main_flags0 w = Some (Inr (?p, on_cluster f (mf_config main_flags0)), w)"
    using skip by (simp add: main_prepare_def env p name flags NewMultiClientSet_def f(1) dir IsEmpty_def Let_def)
  then show ?thesis by blast
qed

theorem main_success_means_passed_witness:
  "\<exists>w'. main main_env0 main_flags0 {} = Some (Returned, [(''c.yaml'', ''Success'', [])], w')"
proof -
  let ?ts = "\<lparr>ts_Identifier = [], ts_ConfigPath = ''c.yaml'', ts_OverridePaths = []\<rparr>"
  obtain p f where prep: "main_prepare main_env0 main_flags0 {} = Some (Inr (p, on_cluster f (mf_config main_flags0)), {})"
    using main_prepared by blast
  define cfg where "cfg = on_cluster f (mf_config main_flags0)"
  have c: "\<not> pr_EnableServer (clc_PrometheusConfig cfg)" "clc_OverridePaths cfg = []"
    by (simp_all add: cfg_def on_cluster_def main_flags0_def mapping_cfg_def)
  have services: "set_up_services main_env0 main_flags0 p cfg w = Some (Inr (None, cfg), w)" for w
    using c(1) by (simp add: set_up_services_def set_up_prometheus_def main_env0_def)
  have scenarios: "test_scenarios (ma_cenv main_env0) main_flags0 = Inr [?ts]" "\<not> mf_dryRun main_flags0"
    by (simp_all add: test_scenarios_def main_flags0_def)
  have "CreateTestContext main_env0 cfg ?ts = Inr main_ctx"
    by (simp add: CreateTestContext_def GetMapping_def LoadTestOverrides_def LoadCL2Envs_def c(2) main_env0_def Let_def)
  then have compile: "\<exists>w'. compile_scenarios main_env0 cfg [?ts] [] w = Some (Inr [(main_ctx, main_test)], w')" for w
    by (simp add: main_test_compiles IsEmpty_def Let_def)
  obtain w1 where w1: "compile_scenarios main_env0 cfg [?ts] [] {} = Some (Inr [(main_ctx, main_test)], w1)" using compile by blast
  let ?s = "(CreateSimpleReporter ''ClusterLoaderV2'', newFramework, w1)"
  obtain t where t: "RunTest main_ctx main_test (createSimpleContext p ?s) = Some (NewErrorList [], t)" "failed_items (t_reporter t) = 0"
    using main_test_runs[of "createSimpleContext p ?s"] by (auto simp: clean_run_def createSimpleContext_def CreateSimpleReporter_def)
  then obtain rs rep fw w2 where run: "run_tests (ma_since main_env0) p [(main_ctx, main_test)] ?s = Some (rs, rep, fw, w2)" "failed_items rep = 0"
    by (simp add: runSingleTest_def ReportTestFinish_def handleSummary_def IsEmpty_def Let_def)
  obtain w3 where down: "tear_down_services main_env0 main_flags0 None cfg w2 = Some w3"
    using c(1) by (simp add: tear_down_services_def MakePrometheusSnapshotIfEnabled_def main_flags0_def no_snapshots_def)
  have ok: "main main_env0 main_flags0 {} = Some (Returned, rs, w3)"
    by (simp add: main_def prep cfg_def[symmetric] scenarios services main_run_def w1 run down del: compile_scenarios.simps run_tests.simps)
  have "te_scenario (ma_context main_env0 cfg m ts) = ts" for cfg m ts by (simp add: main_env0_def)
  from main_success_means_passed[OF this ok] have "rs = [passed ?ts]" by (auto simp: scenarios(1))
  then show ?thesis using ok by (auto simp: passed_def getTestID_def)
qed

end
