(* ===== verification/Spec2Isabelle.thy ===== *)
theory Spec2Isabelle
  imports State_Pkg Tuning_Sets Test_Executor Controlled_Pods Api_Responsiveness Prometheus_Gatherers
    Service_Creation Api_Availability Basic_Measurements Claim_Latency
    Etcd_Metrics Resource_Usage Component_Metrics Main_Program
begin

text \<open>
  \<^bold>\<open>ClusterLoader2\<close>, the load test driver of \<^verbatim>\<open>src/clusterloader2\<close>.

  \<^bold>\<open>The program.\<close>  A test is a configuration: namespaces, tuning sets and steps.  It is decoded, changed by
  overwrites, completed with defaults and validated.  The executor sets up dependencies and namespaces,
  runs the steps one after the other and cleans up.  A step is a set of phases or of measurements that run
  in parallel.  A phase creates, patches and deletes objects until every namespace has the wanted number
  of replicas; a tuning set decides when each operation starts.  A measurement is started, watches the
  cluster through informers and is gathered later; it returns summaries, and an error when an objective is
  missed.  A critical error aborts the test; all other errors are collected in the report.

  \<^bold>\<open>The theories\<close> (paths below \<^verbatim>\<open>clusterloader2\<close>):

    \<^item> \<open>Go_Prelude\<close>, \<open>Go_Float\<close>: what the model uses of Go: errors, integers of a width with their
      wrap-around, parsing and printing of numbers, maps as association lists, dynamic values, and
      \<^verbatim>\<open>float64\<close> as rationals with rounding.  \<open>Contracts\<close>: the interfaces as locales (\<open>kv_rw\<close>, \<open>kv_store\<close>,
      \<open>registry\<close>), interpreted on the state, the transition times and the factories.
    \<^item> \<open>Errors_Pkg\<close>, \<open>Util_Pkg\<close>, \<open>State_Pkg\<close>: \<^verbatim>\<open>pkg/errors\<close>, the getters of \<^verbatim>\<open>pkg/util/util.go\<close>, \<^verbatim>\<open>pkg/state\<close>.
    \<^item> \<open>Api_Types\<close>, \<open>Api_Validation\<close>: \<^verbatim>\<open>api/types.go\<close>, \<^verbatim>\<open>default.go\<close>, \<^verbatim>\<open>extensions.go\<close>, \<^verbatim>\<open>validation.go\<close>.  The
      validator is equivalent to a declarative notion of a valid configuration.
    \<^item> \<open>Modifier\<close>: \<^verbatim>\<open>pkg/modifier\<close>, the overwrites of single values of a configuration.
    \<^item> \<open>Tuning_Sets\<close>: \<^verbatim>\<open>pkg/tuningset\<close>.  A load is the trace of what its goroutine does: sleeps and starts of
      actions.  Every accepted tuning set starts every action exactly once, at the promised times.
    \<^item> \<open>Client_Objects\<close>, \<open>Framework\<close>: \<^verbatim>\<open>pkg/framework\<close>.  Retried calls of the API server, and the automanaged
      namespaces.  The server is a parameter with a contract that lets calls fail at any time.
    \<^item> \<open>Measurement_Core\<close>, \<open>Dependency_Mgr\<close>: \<^verbatim>\<open>pkg/measurement/*.go\<close> and \<^verbatim>\<open>pkg/dependency\<close>: factories,
      managers, and executors.  Dependencies are torn down in the reverse order of their set-up.
    \<^item> \<open>Chaos\<close>: \<^verbatim>\<open>pkg/chaos\<close>, the node killer, as functions and as a step relation of its goroutines.
    \<^item> \<open>Phase_Executor\<close>, \<open>Test_Executor\<close>: \<^verbatim>\<open>pkg/test/simple_test_executor.go\<close> and the flattening of modules.
      A phase that succeeds has reconciled the cluster with its specification and has recorded that.
    \<^item> \<open>Phase_Latency\<close>, \<open>Pods_Util\<close>, \<open>Pod_Startup\<close>: latency metrics, histograms, the status of pods, waiting
      for pods, and the PodStartupLatency measurement with its service level objective
      (\<^verbatim>\<open>pkg/measurement/util\<close>, \<^verbatim>\<open>pkg/measurement/common/slos\<close>).
    \<^item> \<open>Informer\<close>, \<open>Runtime_Objects\<close>, \<open>Pods_Indexer\<close>, \<open>Controlled_Pods\<close>: informers and their clients (a locale),
      controlling objects and their replicas, the index of pods by controller, and the measurement
      WaitForControlledPodsRunning.  The counter of a daemon set refines the number of schedulable nodes; the
      index and the checkers are right after every interleaving of informers, handlers and goroutines.
    \<^item> \<open>Job_Measurements\<close>: waiting for finished jobs, whose handler is a client of an informer, and the latencies
      of the phases of jobs.
    \<^item> \<open>Claim_Latency\<close>: the latency of resource claims; the objective is decided by the claims that were seen without
      an allocation first.
    \<^item> \<open>Service_Creation\<close>: the latencies of services and ingresses.  The workers that ping are a step relation; when
      the wait succeeds every created service is reachable, although its two counts are not one read.
    \<^item> \<open>Pod_Command\<close>: commands that run in pods at an interval.  The counters match the results for every order of
      completion, and gathering fails exactly if an enabled counter is not zero.
    \<^item> \<open>Api_Availability\<close>: probing the API server.  The goroutine, the channels and the lock are a step relation; the
      gathering decides the availability that was probed, a second pause can block for ever.
    \<^item> \<open>Waiting\<close>: waiting for pods, nodes, claims, volumes and objects with conditions.  The locale \<open>store_wait\<close> is
      what the loops have in common; each succeeds exactly if a listing in time settles it.
    \<^item> \<open>Basic_Measurements\<close>: OOM tracking, timers, scheduling throughput, commands, sleeping, the chaos monkey.
    \<^item> \<open>Prometheus_Core\<close>, \<open>Api_Responsiveness\<close>, \<open>Prometheus_Gatherers\<close>: measurements on Prometheus queries.  The
      locale \<open>slo_gatherer\<close> says that a gatherer decides its objective; API responsiveness, generic queries and
      container restarts are interpretations, so each executed measurement reports exactly the violations.
    \<^item> \<open>Scraping\<close>, \<open>Scheduler_Latency\<close>, \<open>Etcd_Metrics\<close>: pages of metrics that are read over SSH or through the API
      server.  Scraping the scheduler and asking Prometheus for the increase report the same latencies; the etcd
      measurement reports the largest database size and the buckets of every control plane.
    \<^item> \<open>Resource_Usage\<close>: the readings of kubelets and kubemark, their percentiles per container and the constraints
      on them, which are decided by the 99th percentile; a worker without readings hides the others.
    \<^item> \<open>Component_Metrics\<close>: the grabber of component metrics, kubelet latencies and the restarts of system pods.
    \<^item> \<open>Template_Functions\<close>, \<open>Template_Config\<close>: the functions that templates can call, and \<^verbatim>\<open>pkg/config\<close>: the cached
      templates and the variables they are rendered with.  The integer functions are exact up to 2^53, and an
      interpretation of the locale \<open>transparent\<close> shows that the caches of the provider are not observable.
    \<^item> \<open>Providers\<close>: \<^verbatim>\<open>pkg/provider\<close> and commands over SSH, directly or through a bastion (\<^verbatim>\<open>pkg/util/ssh_core.go\<close>).
    \<^item> \<open>Prometheus_Stack\<close>: \<^verbatim>\<open>pkg/prometheus\<close>, setting up and tearing down the monitoring stack with the snapshot of its
      disk.  A stack that was set up was seen with its targets up.
    \<^item> \<open>Main_Program\<close>: \<^verbatim>\<open>cmd/clusterloader.go\<close> and the sets of clients: the composition of the parts above.  The exit
      status is 0 only if every scenario was compiled and every test passed.

  \<^bold>\<open>How code becomes definitions.\<close>  A struct is a record, an interface value a datatype or a record of
  functions, a method a function that takes and returns the state.  Errors are values of \<open>goerr\<close>; where code
  can panic the result is an option or has a case for it.  Integers of 32 and 64 bits are \<open>int\<close> with \<open>wrap\<close>
  where they can overflow.  Operations under a mutex are one step; what runs concurrently is a step relation.
  Libraries outside of the repository (client-go, the API server, work queues, rate limiters, clocks, random
  numbers, JSON) are parameters, their documented behaviour is a named hypothesis where a theorem needs it.

  \<^bold>\<open>Bounds.\<close>  Loops over data are structurally recursive.  A loop that waits takes the list of events it
  receives, and \<open>None\<close> means that it still waits.  The flattening of modules is a partial function; that it
  returns for acyclic modules is a theorem.  The int32 loop of namespace ranges that never ends for the
  largest bound is part of the theorem about ranges.

  \<^bold>\<open>Not modelled.\<close>  The registration of flags, the text templates and decoders of Go themselves, the SSH protocol,
  the deployment of workloads from manifests by the exec service and the network measurements, and
  the command line tools of \<^verbatim>\<open>test-infra\<close>: they are input and output around the logic above.  Of the
  measurements, those of networks, load balancers, probes and profiles are missing.  Log output is
  left out throughout.
\<close>

end
